(* ===== verification/Prelude.thy ===== *)
theory Prelude
  imports
    Main
    "HOL-Library.Word"
    "HOL-Library.List_Lexorder"
    "HOL-Library.Product_Lexorder"
    "HOL-Library.Multiset"
begin

text \<open>
  What every component shares: the byte and integer types of the Rust sources, results as
  sums with the error on the left and the \<open>?\<close> operator as \<open>bind_ok\<close>, little-endian
  integers, \<open>usize\<close> arithmetic, and generic lemmas on lists. The collections
  \<open>ok_simps\<close> (results) and \<open>wf_simps\<close> (well-formedness) gather what the component
  proofs unfold.
\<close>

named_theorems ok_simps
named_theorems wf_simps

section \<open>Types\<close>

type_synonym byte = "8 word"
type_synonym bytes = "byte list"
type_synonym u32 = "32 word"
type_synonym u64 = "64 word"

section \<open>Results\<close>

text \<open>\<open>bind_ok m f\<close> is \<open>f(m?)\<close>: the error of \<open>m\<close> returns early.\<close>

definition bind_ok :: "'e + 'a \<Rightarrow> ('a \<Rightarrow> 'e + 'b) \<Rightarrow> 'e + 'b" where
  "bind_ok m f = (case m of Inl e \<Rightarrow> Inl e | Inr x \<Rightarrow> f x)"

text \<open>\<open>map_err g m\<close> is \<open>m.map_err(g)\<close>; \<open>ok_or e m\<close> is \<open>m.ok_or(e)\<close>.\<close>

definition map_err :: "('e \<Rightarrow> 'f) \<Rightarrow> 'e + 'a \<Rightarrow> 'f + 'a" where
  "map_err g m = (case m of Inl e \<Rightarrow> Inl (g e) | Inr x \<Rightarrow> Inr x)"

definition ok_or :: "'e \<Rightarrow> 'a option \<Rightarrow> 'e + 'a" where
  "ok_or e m = (case m of None \<Rightarrow> Inl e | Some x \<Rightarrow> Inr x)"

definition is_ok :: "'e + 'a \<Rightarrow> bool" where
  "is_ok m = (case m of Inl _ \<Rightarrow> False | Inr _ \<Rightarrow> True)"

text \<open>A \<open>for\<close> loop whose body may return early, and the loop that collects its results.\<close>

fun fold_ok :: "('a \<Rightarrow> 's \<Rightarrow> 'e + 's) \<Rightarrow> 'a list \<Rightarrow> 's \<Rightarrow> 'e + 's" where
  "fold_ok f [] s = Inr s"
| "fold_ok f (x # xs) s = bind_ok (f x s) (fold_ok f xs)"

fun map_ok :: "('a \<Rightarrow> 'e + 'b) \<Rightarrow> 'a list \<Rightarrow> 'e + 'b list" where
  "map_ok f [] = Inr []"
| "map_ok f (x # xs) = bind_ok (f x) (\<lambda>y. bind_ok (map_ok f xs) (\<lambda>ys. Inr (y # ys)))"

lemma bind_ok_simps [simp, ok_simps]:
  "bind_ok (Inl e) f = Inl e"
  "bind_ok (Inr x) f = f x"
  by (simp_all add: bind_ok_def)

lemma bind_ok_Inr_iff [ok_simps]:
  "bind_ok m f = Inr y \<longleftrightarrow> (\<exists>x. m = Inr x \<and> f x = Inr y)"
  by (cases m) auto

lemma bind_ok_assoc:
  "bind_ok (bind_ok m f) g = bind_ok m (\<lambda>x. bind_ok (f x) g)"
  by (cases m) auto

lemma map_err_simps [simp, ok_simps]:
  "map_err g (Inl e) = Inl (g e)"
  "map_err g (Inr x) = Inr x"
  by (simp_all add: map_err_def)

lemma map_err_Inr_iff [ok_simps]: "map_err g m = Inr y \<longleftrightarrow> m = Inr y"
  by (cases m) auto

lemma ok_or_simps [simp, ok_simps]:
  "ok_or e None = Inl e"
  "ok_or e (Some x) = Inr x"
  by (simp_all add: ok_or_def)

lemma ok_or_Inr_iff [ok_simps]: "ok_or e m = Inr x \<longleftrightarrow> m = Some x"
  by (cases m) auto

lemma is_ok_simps [simp, ok_simps]:
  "\<not> is_ok (Inl e)"
  "is_ok (Inr x)"
  by (simp_all add: is_ok_def)

lemma is_ok_iff: "is_ok m \<longleftrightarrow> (\<exists>x. m = Inr x)"
  by (cases m) auto

lemma fold_ok_append:
  "fold_ok f (xs @ ys) s = bind_ok (fold_ok f xs s) (fold_ok f ys)"
proof (induction xs arbitrary: s)
  case Nil
  then show ?case by simp
next
  case (Cons x xs)
  then show ?case by (cases "f x s") simp_all
qed

lemma fold_ok_invariant:
  assumes "fold_ok f xs s = Inr t" and "P s"
    and "\<And>x u v. x \<in> set xs \<Longrightarrow> P u \<Longrightarrow> f x u = Inr v \<Longrightarrow> P v"
  shows "P t"
  using assms
proof (induction xs arbitrary: s)
  case Nil
  then show ?case by simp
next
  case (Cons x xs)
  then show ?case by (auto simp: bind_ok_Inr_iff)
qed

lemma map_ok_cong:
  "(\<And>x. x \<in> set xs \<Longrightarrow> f x = g x) \<Longrightarrow> map_ok f xs = map_ok g xs"
  by (induction xs) auto

lemma map_ok_Inr_map: "(\<And>x. x \<in> set xs \<Longrightarrow> f x = Inr (g x)) \<Longrightarrow> map_ok f xs = Inr (map g xs)"
  by (induction xs) auto

lemma map_ok_map_inverse: "(\<And>x. x \<in> set xs \<Longrightarrow> f (g x) = Inr x) \<Longrightarrow> map_ok f (map g xs) = Inr xs"
  by (induction xs) auto

lemma map_ok_is_ok: "(\<And>x. x \<in> set xs \<Longrightarrow> is_ok (f x)) \<Longrightarrow> is_ok (map_ok f xs)"
proof (induction xs)
  case (Cons x xs)
  have "is_ok (f x)" and "is_ok (map_ok f xs)" using Cons by simp_all
  then show ?case by (auto simp: is_ok_iff)
qed simp

lemma map_ok_fails: "x \<in> set xs \<Longrightarrow> \<not> is_ok (f x) \<Longrightarrow> \<not> is_ok (map_ok f xs)"
  by (induction xs) (auto simp: is_ok_iff bind_ok_Inr_iff)

lemma map_ok_Inr_length: "map_ok f xs = Inr ys \<Longrightarrow> length ys = length xs"
  by (induction xs arbitrary: ys) (auto simp: bind_ok_Inr_iff)

lemma map_ok_Inr_list_all2:
  "map_ok f xs = Inr ys \<longleftrightarrow> list_all2 (\<lambda>x y. f x = Inr y) xs ys"
  by (induction xs arbitrary: ys) (auto simp: bind_ok_Inr_iff list_all2_Cons1)

section \<open>Machine integers\<close>

text \<open>A \<open>usize\<close> is a natural number below \<open>2 ^ 64\<close>; \<open>checked_add\<close> and \<open>checked_mul\<close>
  are the standard library's.\<close>

definition usize_bound :: nat where
  "usize_bound = 2 ^ 64"

definition usize_checked_add :: "nat \<Rightarrow> nat \<Rightarrow> nat option" where
  "usize_checked_add a b = (if a + b < usize_bound then Some (a + b) else None)"

definition usize_checked_mul :: "nat \<Rightarrow> nat \<Rightarrow> nat option" where
  "usize_checked_mul a b = (if a * b < usize_bound then Some (a * b) else None)"

text \<open>\<open>to_le_bytes\<close> of an \<open>n\<close>-byte integer and \<open>from_le_bytes\<close>.\<close>

fun le_digits :: "nat \<Rightarrow> nat \<Rightarrow> bytes" where
  "le_digits 0 v = []"
| "le_digits (Suc n) v = word_of_nat (v mod 256) # le_digits n (v div 256)"

fun le_value :: "bytes \<Rightarrow> nat" where
  "le_value [] = 0"
| "le_value (b # bs) = unat b + 256 * le_value bs"

definition u32_to_le :: "u32 \<Rightarrow> bytes" where
  "u32_to_le w = le_digits 4 (unat w)"

definition u64_to_le :: "u64 \<Rightarrow> bytes" where
  "u64_to_le w = le_digits 8 (unat w)"

definition u32_from_le :: "bytes \<Rightarrow> u32" where
  "u32_from_le bs = word_of_nat (le_value bs)"

definition u64_from_le :: "bytes \<Rightarrow> u64" where
  "u64_from_le bs = word_of_nat (le_value bs)"

lemma length_le_digits [simp]: "length (le_digits n v) = n"
  by (induction n arbitrary: v) auto

lemma unat_byte_of_nat: "v < 256 \<Longrightarrow> unat (word_of_nat v :: byte) = v"
  by (simp add: unat_of_nat)

lemma le_value_digits: "le_value (le_digits n v) = v mod 256 ^ n"
proof (induction n arbitrary: v)
  case 0
  then show ?case by simp
next
  case (Suc n)
  then show ?case
    by (simp add: unat_byte_of_nat mod_mult2_eq)
qed

lemma unat_byte_less: "unat (b :: byte) < 256"
  using unsigned_less [where ?'a=nat and w=b] by simp

lemma le_digits_value: "le_digits (length bs) (le_value bs) = bs"
proof (induction bs)
  case Nil
  then show ?case by simp
next
  case (Cons b bs)
  have "(unat b + 256 * le_value bs) mod 256 = unat b"
    and "(unat b + 256 * le_value bs) div 256 = le_value bs"
    using unat_byte_less [of b] by simp_all
  with Cons show ?case by simp
qed

lemma le_value_less: "le_value bs < 256 ^ length bs"
proof (induction bs)
  case Nil
  then show ?case by simp
next
  case (Cons b bs)
  from Cons have "Suc (le_value bs) * 256 \<le> 256 ^ length bs * 256"
    using mult_le_mono1 Suc_leI by blast
  then show ?case
    using unat_byte_less [of b] by simp
qed

lemma length_u32_to_le [simp]: "length (u32_to_le w) = 4"
  by (simp add: u32_to_le_def)

lemma length_u64_to_le [simp]: "length (u64_to_le w) = 8"
  by (simp add: u64_to_le_def)

lemma u32_from_to_le [simp]: "u32_from_le (u32_to_le w) = w"
  using unsigned_less [where ?'a=nat and w=w] by (simp add: u32_from_le_def u32_to_le_def le_value_digits)

lemma u64_from_to_le [simp]: "u64_from_le (u64_to_le w) = w"
  using unsigned_less [where ?'a=nat and w=w] by (simp add: u64_from_le_def u64_to_le_def le_value_digits)

lemma u32_to_from_le: "length bs = 4 \<Longrightarrow> u32_to_le (u32_from_le bs) = bs"
  using le_value_less [of bs] le_digits_value [of bs]
  by (simp add: u32_from_le_def u32_to_le_def unat_of_nat)

lemma u64_to_from_le: "length bs = 8 \<Longrightarrow> u64_to_le (u64_from_le bs) = bs"
  using le_value_less [of bs] le_digits_value [of bs]
  by (simp add: u64_from_le_def u64_to_le_def unat_of_nat)

lemma u32_to_le_inject [simp]: "u32_to_le v = u32_to_le w \<longleftrightarrow> v = w"
  by (metis u32_from_to_le)

lemma u64_to_le_inject [simp]: "u64_to_le v = u64_to_le w \<longleftrightarrow> v = w"
  by (metis u64_from_to_le)

lemma unat_u32_less: "unat (w :: u32) < 2 ^ 32"
  using unsigned_less [where ?'a=nat and w=w] by simp

section \<open>Lists\<close>

lemma sorted_wrt_less_map_fst_distinct:
  "sorted_wrt (<) (map fst xs) \<Longrightarrow> distinct (map (fst :: 'k::linorder \<times> 'v \<Rightarrow> 'k) xs)"
  by (simp add: strict_sorted_iff)

text \<open>Sorting by a key that is injective on the elements forgets the input order.\<close>

lemma sort_key_perm_eq:
  assumes "mset xs = mset ys" and inj: "inj_on f (set xs)"
  shows "sort_key f xs = sort_key f ys"
proof (rule properties_for_sort_key)
  show "mset (sort_key f ys) = mset xs" using assms(1) by simp
  show "sorted (map f (sort_key f ys))" by simp
next
  fix k
  assume "k \<in> set (sort_key f ys)"
  then have k: "k \<in> set xs" using assms(1) by (metis set_sort set_mset_mset)
  have eq: "filter (\<lambda>x. f k = f x) zs = filter (\<lambda>x. x = k) zs" if "set zs = set xs" for zs
    using inj k that by (auto simp: inj_on_def intro!: filter_cong)
  have same: "filter (\<lambda>x. x = k) zs = replicate (count (mset zs) k) k" for zs
    by (induction zs) auto
  have sets: "set (sort_key f ys) = set xs" using assms(1) by (metis set_sort set_mset_mset)
  show "filter (\<lambda>x. f k = f x) (sort_key f ys) = filter (\<lambda>x. f k = f x) xs"
    using assms(1) by (simp only: eq [OF sets] eq [OF refl] same) simp
qed

text \<open>Sorting commutes with a map that keeps the key.\<close>

lemma sort_key_map: "sort_key f (map g xs) = map g (sort_key (\<lambda>x. f (g x)) xs)"
proof (induction xs)
  case Nil
  then show ?case by simp
next
  case (Cons x xs)
  have "insort_key f (g x) (map g ys) = map g (insort_key (\<lambda>x. f (g x)) x ys)" for ys
    by (induction ys) auto
  with Cons show ?case by simp
qed

text \<open>A greatest element stays last.\<close>

lemma take_drop_rest: "take m (drop n xs) @ drop (n + m) xs = drop n xs"
  by (metis append_take_drop_id drop_drop add.commute)

lemma insort_key_snoc: "f y \<le> f x \<Longrightarrow> insort_key f y (ys @ [x]) = insort_key f y ys @ [x]"
  by (induction ys) auto

lemma sort_key_snoc:
  "(\<And>y. y \<in> set xs \<Longrightarrow> f y \<le> f x) \<Longrightarrow> sort_key f (xs @ [x]) = sort_key f xs @ [x]"
  by (induction xs) (auto simp: insort_key_snoc)

text \<open>The last element of a sorted list is its only greatest one, where keys are distinct.\<close>

lemma sorted_last_greatest: "sorted (map f xs) \<Longrightarrow> x \<in> set xs \<Longrightarrow> f x \<le> f (last xs)"
  by (induction xs) auto

lemma sorted_last_iff:
  assumes "sorted (map f xs)" and "inj_on f (set xs)" and "xs \<noteq> []"
  shows "d \<in> set xs \<and> (\<forall>x\<in>set xs. f x \<le> f d) \<longleftrightarrow> d = last xs"
proof
  assume d: "d \<in> set xs \<and> (\<forall>x\<in>set xs. f x \<le> f d)"
  then have "f d = f (last xs)"
    using assms(1,3) by (intro order.antisym) (auto intro: sorted_last_greatest)
  with d assms(2,3) show "d = last xs" by (simp add: inj_on_eq_iff)
qed (use assms(1,3) sorted_last_greatest in auto)

text \<open>Fixed-width records laid end to end: record \<open>i\<close> starts at \<open>i * n\<close>.\<close>

lemma length_concat_fixed:
  "(\<And>x. x \<in> set xs \<Longrightarrow> length (f x) = n) \<Longrightarrow> length (concat (map f xs)) = length xs * n"
  by (induction xs) auto

lemma drop_concat_fixed:
  "(\<And>x. x \<in> set xs \<Longrightarrow> length (f x) = n) \<Longrightarrow>
     drop (i * n) (concat (map f xs)) = concat (map f (drop i xs))"
proof (induction xs arbitrary: i)
  case Nil
  then show ?case by simp
next
  case (Cons x xs)
  then show ?case by (cases i) (auto simp: drop_append)
qed

lemma take_drop_concat_fixed:
  assumes "\<And>x. x \<in> set xs \<Longrightarrow> length (f x) = n" and "i < length xs"
  shows "take n (drop (i * n) (concat (map f xs))) = f (xs ! i)"
  using assms by (simp add: drop_concat_fixed Cons_nth_drop_Suc [symmetric])

text \<open>A \<open>for i in 0..n\<close> loop with an early return: the last iteration peeled off.\<close>

lemma fold_ok_upt_Suc:
  "fold_ok f [0..<Suc n] s = bind_ok (fold_ok f [0..<n] s) (f n)"
  by (cases "fold_ok f [0..<n] s") (auto simp: fold_ok_append bind_ok_def split: sum.splits)

lemma drop_eq_append: "xs = ys @ zs \<Longrightarrow> drop (length ys) xs = zs"
  by simp

lemma take_drop_append: "take m (drop n xs) @ drop (n + m) xs = drop n xs"
  by (metis append_take_drop_id drop_drop add.commute)

end
