(* ===== verification/Btree_Map.thy ===== *)
theory Btree_Map
  imports Prelude
begin

text \<open>
  The standard library's \<open>BTreeMap\<close> and \<open>BTreeSet\<close> as association lists and lists kept
  strictly ascending by key, so that iteration is the list itself. The locale
  \<open>ordered_map\<close> is what the clients rely on: lookup after insert, ascending iteration,
  and that a map is determined by its lookups. It is interpreted here on the sorted lists.
\<close>

section \<open>The map\<close>

type_synonym ('k, 'v) btree = "('k \<times> 'v) list"

definition bt_wf :: "('k::linorder, 'v) btree \<Rightarrow> bool" where
  "bt_wf m \<longleftrightarrow> sorted_wrt (<) (map fst m)"

fun bt_insert :: "'k::linorder \<Rightarrow> 'v \<Rightarrow> ('k, 'v) btree \<Rightarrow> ('k, 'v) btree" where
  "bt_insert k v [] = [(k, v)]"
| "bt_insert k v ((k', v') # m) =
     (if k < k' then (k, v) # (k', v') # m
      else if k = k' then (k, v) # m
      else (k', v') # bt_insert k v m)"

abbreviation bt_get :: "('k, 'v) btree \<Rightarrow> 'k \<Rightarrow> 'v option" where
  "bt_get \<equiv> map_of"

definition bt_keys :: "('k, 'v) btree \<Rightarrow> 'k list" where
  "bt_keys m = map fst m"

text \<open>\<open>*m.entry(k).or_insert(d)\<close> followed by an assignment of \<open>f\<close> of the old value.\<close>

definition bt_entry :: "'k::linorder \<Rightarrow> 'v \<Rightarrow> ('v \<Rightarrow> 'v) \<Rightarrow> ('k, 'v) btree \<Rightarrow> ('k, 'v) btree" where
  "bt_entry k d f m = bt_insert k (f (case bt_get m k of None \<Rightarrow> d | Some v \<Rightarrow> v)) m"

lemma bt_get_insert [simp]: "bt_get (bt_insert k v m) = (bt_get m)(k \<mapsto> v)"
  by (induction m) (auto simp: fun_eq_iff)

lemma bt_get_entry:
  "bt_get (bt_entry k d f m) = (bt_get m)(k \<mapsto> f (case bt_get m k of None \<Rightarrow> d | Some v \<Rightarrow> v))"
  by (simp add: bt_entry_def)

lemma set_keys_insert: "fst ` set (bt_insert k v m) = insert k (fst ` set m)"
  by (induction k v m rule: bt_insert.induct) (simp_all add: insert_commute)

lemma bt_wf_Nil [simp]: "bt_wf []"
  by (simp add: bt_wf_def)

lemma bt_wf_Cons [simp]: "bt_wf (x # m) \<longleftrightarrow> (\<forall>y\<in>set m. fst x < fst y) \<and> bt_wf m"
  by (auto simp: bt_wf_def)

lemma bt_wf_insert [simp]: "bt_wf m \<Longrightarrow> bt_wf (bt_insert k v m)"
proof (induction k v m rule: bt_insert.induct)
  case (1 k v)
  then show ?case by simp
next
  case (2 k v k' v' m)
  have above: "k' < fst y" if "k' < k" and "y \<in> set (bt_insert k v m)" for y
  proof -
    have "fst y \<in> insert k (fst ` set m)"
      using that(2) set_keys_insert [of k v m] by blast
    with that(1) 2(2) show ?thesis by auto
  qed
  show ?case
  proof (cases k k' rule: linorder_cases)
    case less
    with 2(2) show ?thesis by (auto dest: order.strict_trans)
  next
    case equal
    with 2(2) show ?thesis by simp
  next
    case greater
    with 2 above show ?thesis by auto
  qed
qed

lemma bt_wf_entry [simp]: "bt_wf m \<Longrightarrow> bt_wf (bt_entry k d f m)"
  by (simp add: bt_entry_def)

lemma bt_wf_distinct: "bt_wf m \<Longrightarrow> distinct (map fst m)"
  unfolding bt_wf_def by (rule sorted_wrt_less_map_fst_distinct)

lemma bt_wf_append:
  "bt_wf (xs @ ys) \<longleftrightarrow> bt_wf xs \<and> bt_wf ys \<and> (\<forall>x\<in>set xs. \<forall>y\<in>set ys. fst x < fst y)"
  by (auto simp: bt_wf_def sorted_wrt_append)

lemma bt_insert_last:
  "(\<And>y. y \<in> set m \<Longrightarrow> fst y < k) \<Longrightarrow> bt_insert k v m = m @ [(k, v)]"
proof (induction m)
  case Nil
  then show ?case by simp
next
  case (Cons x m)
  then have "fst x < k" by simp
  with Cons show ?case by (cases x) auto
qed

text \<open>Two ascending maps with the same lookups are the same list.\<close>

lemma bt_ext:
  assumes "bt_wf m" and "bt_wf m'" and "bt_get m = bt_get m'"
  shows "m = m'"
proof -
  have "set m = set m'"
    using assms by (metis bt_wf_distinct map_of_eqI map_of_eq_Some_iff subrelI subset_antisym)
  moreover have "sorted (map fst m)" "sorted (map fst m')"
    using assms(1,2) by (auto simp: bt_wf_def strict_sorted_iff)
  moreover have "distinct (map fst m)" "distinct (map fst m')"
    using assms(1,2) by (auto intro: bt_wf_distinct)
  moreover have "inj_on fst (set m \<union> set m')"
    using calculation by (simp add: distinct_map)
  ultimately show ?thesis
    by (metis map_sorted_distinct_set_unique)
qed

section \<open>The interface\<close>

locale ordered_map =
  fixes mempty :: 'm
    and minsert :: "'k::linorder \<Rightarrow> 'v \<Rightarrow> 'm \<Rightarrow> 'm"
    and mget :: "'m \<Rightarrow> 'k \<Rightarrow> 'v option"
    and mentries :: "'m \<Rightarrow> ('k \<times> 'v) list"
    and mok :: "'m \<Rightarrow> bool"
  assumes mget_empty: "mget mempty = Map.empty"
    and mget_insert: "mok m \<Longrightarrow> mget (minsert k v m) = (mget m)(k \<mapsto> v)"
    and mok_empty: "mok mempty"
    and mok_insert: "mok m \<Longrightarrow> mok (minsert k v m)"
    and mentries_sorted: "mok m \<Longrightarrow> sorted_wrt (<) (map fst (mentries m))"
    and mentries_get: "mok m \<Longrightarrow> map_of (mentries m) = mget m"
    and mok_ext: "mok m \<Longrightarrow> mok m' \<Longrightarrow> mget m = mget m' \<Longrightarrow> m = m'"
begin

text \<open>Inserting at two different keys commutes, on the map itself and not only on lookups.\<close>

lemma insert_commute:
  assumes "mok m" and "k \<noteq> k'"
  shows "minsert k v (minsert k' v' m) = minsert k' v' (minsert k v m)"
  using assms by (intro mok_ext) (simp_all add: mok_insert mget_insert fun_upd_twist)

lemma get_entries_mem: "mok m \<Longrightarrow> mget m k = Some v \<longleftrightarrow> (k, v) \<in> set (mentries m)"
  using mentries_sorted [of m] mentries_get [of m]
  by (metis map_of_eq_Some_iff sorted_wrt_less_map_fst_distinct)

end

interpretation bt: ordered_map "[] :: ('k::linorder, 'v) btree" bt_insert bt_get "\<lambda>m. m" bt_wf
  by unfold_locales (auto simp: bt_wf_def [symmetric] bt_ext simp flip: bt_wf_def)

section \<open>Heads: keys raised to a maximum\<close>

text \<open>
  The use every head vector of the program makes of a map:
  \<open>let e = heads.entry(k).or_insert(0); *e = (*e).max(v)\<close>. The locale \<open>head_map\<close> extends
  \<open>ordered_map\<close> with that operation; its lemmas say that the order of the raises is forgotten.
\<close>

definition bt_raise :: "'k::linorder \<Rightarrow> 'v::{linorder, zero} \<Rightarrow> ('k, 'v) btree \<Rightarrow> ('k, 'v) btree" where
  "bt_raise k v m = bt_entry k 0 (\<lambda>e. max e v) m"

locale head_map = ordered_map mempty minsert mget mentries mok
  for mempty :: 'm
    and minsert :: "'k::linorder \<Rightarrow> 'v::{linorder, zero} \<Rightarrow> 'm \<Rightarrow> 'm"
    and mget :: "'m \<Rightarrow> 'k \<Rightarrow> 'v option"
    and mentries :: "'m \<Rightarrow> ('k \<times> 'v) list"
    and mok :: "'m \<Rightarrow> bool" +
  fixes mraise :: "'k \<Rightarrow> 'v \<Rightarrow> 'm \<Rightarrow> 'm"
    and mhead :: "'m \<Rightarrow> 'k \<Rightarrow> 'v"
  assumes mhead: "mok m \<Longrightarrow> mhead m k = (case mget m k of None \<Rightarrow> 0 | Some v \<Rightarrow> v)"
    and mraise: "mok m \<Longrightarrow> mraise k v m = minsert k (max (mhead m k) v) m"
begin

lemma ok_raise: "mok m \<Longrightarrow> mok (mraise k v m)"
  by (simp add: mraise mok_insert)

lemma get_raise: "mok m \<Longrightarrow> mget (mraise k v m) = (mget m)(k \<mapsto> max (mhead m k) v)"
  by (simp add: mraise mget_insert)

lemma head_raise:
  "mok m \<Longrightarrow> mhead (mraise k v m) k' = (if k' = k then max (mhead m k) v else mhead m k')"
  by (simp add: mhead ok_raise get_raise)

lemma raise_commute:
  assumes "mok m"
  shows "mraise k v (mraise k' v' m) = mraise k' v' (mraise k v m)"
proof (rule mok_ext)
  show "mget (mraise k v (mraise k' v' m)) = mget (mraise k' v' (mraise k v m))"
    using assms
    by (cases "k = k'")
      (auto simp: ok_raise get_raise head_raise max.commute max.left_commute fun_upd_twist)
qed (use assms in \<open>simp_all add: ok_raise\<close>)

definition raise_all :: "('k \<times> 'v) list \<Rightarrow> 'm \<Rightarrow> 'm" where
  "raise_all kvs m = fold (\<lambda>kv. mraise (fst kv) (snd kv)) kvs m"

lemma ok_raise_all: "mok m \<Longrightarrow> mok (raise_all kvs m)"
  by (induction kvs arbitrary: m) (auto simp: raise_all_def ok_raise)

lemma raise_all_raise: "mok m \<Longrightarrow> raise_all kvs (mraise k v m) = mraise k v (raise_all kvs m)"
  by (induction kvs arbitrary: m) (auto simp: raise_all_def ok_raise raise_commute)

lemma raise_all_perm:
  assumes "mset kvs = mset kvs'" and "mok m"
  shows "raise_all kvs m = raise_all kvs' m"
  using assms
proof (induction kvs arbitrary: kvs' m)
  case Nil
  then show ?case by simp
next
  case (Cons kv kvs)
  then obtain xs ys where split: "kvs' = xs @ kv # ys"
    by (metis list.set_intros(1) set_mset_mset split_list)
  with Cons.prems have perm: "mset kvs = mset (xs @ ys)" by simp
  have "raise_all (kv # kvs) m = raise_all (xs @ ys) (mraise (fst kv) (snd kv) m)"
    using Cons.IH [OF perm ok_raise [OF Cons.prems(2)]] by (simp add: raise_all_def)
  also have "\<dots> = raise_all ys (raise_all xs (mraise (fst kv) (snd kv) m))"
    by (simp add: raise_all_def)
  also have "raise_all xs (mraise (fst kv) (snd kv) m) = mraise (fst kv) (snd kv) (raise_all xs m)"
    by (rule raise_all_raise [OF Cons.prems(2)])
  finally show ?case by (simp add: split raise_all_def)
qed

lemma head_raise_all:
  "mok m \<Longrightarrow> mhead (raise_all kvs m) k =
     fold max (map snd (filter (\<lambda>kv. fst kv = k) kvs)) (mhead m k)"
  by (induction kvs arbitrary: m)
    (auto simp: raise_all_def ok_raise head_raise max.commute)

end

definition bt_head :: "('k, 'v::zero) btree \<Rightarrow> 'k \<Rightarrow> 'v" where
  "bt_head m k = (case bt_get m k of None \<Rightarrow> 0 | Some v \<Rightarrow> v)"

interpretation hd: head_map "[] :: ('k::linorder, 'v::{linorder, zero}) btree" bt_insert bt_get
  "\<lambda>m. m" bt_wf bt_raise bt_head
  by unfold_locales (simp_all add: bt_head_def bt_raise_def bt_entry_def)

lemma bt_wf_raise [simp]: "bt_wf m \<Longrightarrow> bt_wf (bt_raise k v m)"
  by (rule hd.ok_raise)

lemma bt_head_Nil [simp]: "bt_head [] k = 0"
  by (simp add: bt_head_def)

lemma fold_max_ge: "x \<le> fold max vs (x :: 'v::linorder)"
  by (induction vs arbitrary: x) (auto intro: order_trans [OF max.cobounded2])

lemma fold_max_mem: "v \<in> set vs \<Longrightarrow> v \<le> fold max vs (x :: 'v::linorder)"
proof (induction vs arbitrary: x)
  case Nil
  then show ?case by simp
next
  case (Cons w vs)
  then show ?case
    using order_trans [OF max.cobounded1 fold_max_ge [of "max w x" vs]] by auto
qed

section \<open>The set\<close>

text \<open>\<open>BTreeSet\<close>: \<open>insert\<close> returns whether the element was new.\<close>

type_synonym 'a bset = "'a list"

definition bs_wf :: "'a::linorder bset \<Rightarrow> bool" where
  "bs_wf s \<longleftrightarrow> sorted_wrt (<) s"

definition bs_insert :: "'a::linorder \<Rightarrow> 'a bset \<Rightarrow> 'a bset" where
  "bs_insert x s = insort_insert x s"

definition bs_of_list :: "'a::linorder list \<Rightarrow> 'a bset" where
  "bs_of_list xs = fold bs_insert xs []"

lemma set_bs_insert [simp]: "set (bs_insert x s) = insert x (set s)"
  by (simp add: bs_insert_def set_insort_insert)

lemma bs_wf_insert [simp]: "bs_wf s \<Longrightarrow> bs_wf (bs_insert x s)"
  by (simp add: bs_wf_def bs_insert_def strict_sorted_iff sorted_insort_insert distinct_insort_insert)

lemma set_fold_bs_insert: "set (fold bs_insert xs s) = set xs \<union> set s"
  by (induction xs arbitrary: s) auto

lemma bs_wf_fold_insert: "bs_wf s \<Longrightarrow> bs_wf (fold bs_insert xs s)"
  by (induction xs arbitrary: s) auto

lemma set_bs_of_list [simp]: "set (bs_of_list xs) = set xs"
  by (simp add: bs_of_list_def set_fold_bs_insert)

lemma bs_wf_of_list [simp]: "bs_wf (bs_of_list xs)"
  unfolding bs_of_list_def by (rule bs_wf_fold_insert) (simp add: bs_wf_def)

lemma bs_ext: "bs_wf s \<Longrightarrow> bs_wf t \<Longrightarrow> set s = set t \<Longrightarrow> s = t"
  unfolding bs_wf_def by (simp add: strict_sorted_equal)

lemma bs_of_list_cong: "set xs = set ys \<Longrightarrow> bs_of_list xs = bs_of_list ys"
  by (simp add: bs_ext)

section \<open>Grouping\<close>

text \<open>\<open>m.entry(k).or_default().push(x)\<close> over a sequence: the groups keep arrival order.\<close>

definition bt_push :: "('a \<Rightarrow> 'k::linorder) \<Rightarrow> 'a \<Rightarrow> ('k, 'a list) btree \<Rightarrow> ('k, 'a list) btree" where
  "bt_push f x m = bt_entry (f x) [] (\<lambda>xs. xs @ [x]) m"

definition bt_group :: "('a \<Rightarrow> 'k::linorder) \<Rightarrow> 'a list \<Rightarrow> ('k, 'a list) btree" where
  "bt_group f xs = fold (bt_push f) xs []"

lemma bt_get_fold_push:
  "bt_get (fold (bt_push f) xs m) k =
     (if \<exists>x\<in>set xs. f x = k
      then Some ((case bt_get m k of None \<Rightarrow> [] | Some ys \<Rightarrow> ys) @ filter (\<lambda>x. f x = k) xs)
      else bt_get m k)"
  by (induction xs arbitrary: m) (auto simp: bt_push_def bt_get_entry)

lemma bt_get_group:
  "bt_get (bt_group f xs) k =
     (if \<exists>x\<in>set xs. f x = k then Some (filter (\<lambda>x. f x = k) xs) else None)"
  by (simp add: bt_group_def bt_get_fold_push)

lemma bt_wf_fold_push: "bt_wf m \<Longrightarrow> bt_wf (fold (bt_push f) xs m)"
  by (induction xs arbitrary: m) (auto simp: bt_push_def)

lemma bt_wf_group [simp]: "bt_wf (bt_group f xs)"
  by (simp add: bt_group_def bt_wf_fold_push)

lemma bt_group_mem:
  assumes "(k, ys) \<in> set (bt_group f xs)"
  shows "ys = filter (\<lambda>x. f x = k) xs" and "\<exists>x\<in>set xs. f x = k"
proof -
  have "bt_get (bt_group f xs) k = Some ys"
    using assms by (simp add: bt.get_entries_mem)
  then show "ys = filter (\<lambda>x. f x = k) xs" and "\<exists>x\<in>set xs. f x = k"
    by (auto simp: bt_get_group split: if_splits)
qed

lemma bt_group_keys: "fst ` set (bt_group f xs) = f ` set xs"
proof -
  have "k \<in> fst ` set (bt_group f xs) \<longleftrightarrow> k \<in> f ` set xs" for k
    using bt_get_group [of f xs k] map_of_eq_None_iff [of "bt_group f xs" k]
    by (auto simp: image_iff split: if_splits)
  then show ?thesis by blast
qed

text \<open>A group map is its sorted keys, each with the elements of that key.\<close>

lemma bt_group_eq_map:
  "bt_group f xs = map (\<lambda>k. (k, filter (\<lambda>x. f x = k) xs)) (bt_keys (bt_group f xs))"
proof (rule nth_equalityI)
  fix i
  assume "i < length (bt_group f xs)"
  then show "bt_group f xs ! i =
      map (\<lambda>k. (k, filter (\<lambda>x. f x = k) xs)) (bt_keys (bt_group f xs)) ! i"
    using bt_group_mem(1) [of "fst (bt_group f xs ! i)" "snd (bt_group f xs ! i)" f xs]
    by (simp add: bt_keys_def prod_eq_iff)
qed (simp add: bt_keys_def)

lemma bt_group_keys_cong:
  assumes "f ` set xs = g ` set ys"
  shows "bt_keys (bt_group f xs) = bt_keys (bt_group g ys)"
proof -
  have "sorted_wrt (<) (bt_keys (bt_group f xs))" "sorted_wrt (<) (bt_keys (bt_group g ys))"
    using bt_wf_group [of f xs] bt_wf_group [of g ys] by (simp_all add: bt_wf_def bt_keys_def)
  moreover have "set (bt_keys (bt_group f xs)) = set (bt_keys (bt_group g ys))"
    using assms bt_group_keys [of f xs] bt_group_keys [of g ys] by (simp add: bt_keys_def)
  ultimately show ?thesis by (simp add: strict_sorted_equal)
qed

text \<open>The loop that pushes \<open>g x\<close> under the key \<open>f x\<close>.\<close>

definition bt_group_with :: "('a \<Rightarrow> 'k::linorder) \<Rightarrow> ('a \<Rightarrow> 'b) \<Rightarrow> 'a list \<Rightarrow> ('k, 'b list) btree" where
  "bt_group_with f g xs = map (\<lambda>(k, ys). (k, map g ys)) (bt_group f xs)"

lemma bt_get_fold_entry:
  "bt_get (fold (\<lambda>x. bt_entry (f x) [] (\<lambda>ys. ys @ [g x])) xs m) k =
     (if \<exists>x\<in>set xs. f x = k
      then Some ((case bt_get m k of None \<Rightarrow> [] | Some ys \<Rightarrow> ys) @ map g (filter (\<lambda>x. f x = k) xs))
      else bt_get m k)"
  by (induction xs arbitrary: m) (auto simp: bt_get_entry)

lemma bt_wf_fold_entry:
  "bt_wf m \<Longrightarrow> bt_wf (fold (\<lambda>x. bt_entry (f x) [] (\<lambda>ys. ys @ [g x])) xs m)"
  by (induction xs arbitrary: m) auto

lemma bt_get_map_values: "bt_get (map (\<lambda>(k, v). (k, h v)) m) k = map_option h (bt_get m k)"
  by (induction m) auto

lemma bt_group_with_fold:
  "fold (\<lambda>x. bt_entry (f x) [] (\<lambda>ys. ys @ [g x])) xs [] = bt_group_with f g xs"
proof (rule bt_ext)
  show "bt_wf (bt_group_with f g xs)"
    using bt_wf_group [of f xs]
    by (simp add: bt_wf_def bt_group_with_def case_prod_beta comp_def)
  show "bt_get (fold (\<lambda>x. bt_entry (f x) [] (\<lambda>ys. ys @ [g x])) xs []) = bt_get (bt_group_with f g xs)"
    by (rule ext) (simp add: bt_get_fold_entry bt_group_with_def bt_get_map_values bt_get_group)
qed (rule bt_wf_fold_entry, simp add: bt_wf_def)

lemma bt_group_with_eq_map:
  "bt_group_with f g xs =
     map (\<lambda>k. (k, map g (filter (\<lambda>x. f x = k) xs))) (bt_keys (bt_group f xs))"
  unfolding bt_group_with_def by (subst bt_group_eq_map) simp

end
