(* ===== verification/Errors.thy ===== *)
theory Errors
  imports Prelude
begin

text \<open>
  The error types of the three crates the model crosses (\<open>lp-crypto\<close>, \<open>lp-vault\<close>,
  \<open>lp-sync\<close>) with the sources' constructors and messages, the conversions \<open>?\<close> applies between
  them, and the typed ingest alarms of the sync engine. Messages of third-party errors
  (\<open>serde_json\<close>, SQLite) are strings. The last constructor of \<open>vault_error\<close> and of
  \<open>sync_error\<close> is not a value of the source: it carries the panic of an \<open>expect\<close> or \<open>unwrap\<close>
  through functions that return a \<open>Result\<close>, and no code of the model matches on it.
\<close>

section \<open>lp-crypto\<close>

datatype crypto_error =
    CryptoDecryptionFailed
  | MalformedEnvelope string
  | InvalidLabel string
  | InvalidKdfParams string
  | InvalidSecretKeyEncoding string
  | InvalidPublicKey string
  | InvalidTotp string
  | NoiseState string

section \<open>lp-vault\<close>

datatype io_kind = NotFound | OtherIo string

datatype vault_error =
    DecryptionFailed
  | Crypto crypto_error
  | Sqlite string
  | VaultIo io_kind
  | NotFoundEntity string
  | VaultInvalid string
  | UnsupportedFormat int int
  | ChainVerification string
  | VaultSerialization string
  | VaultPanic string

fun from_crypto :: "crypto_error \<Rightarrow> vault_error" where
  "from_crypto CryptoDecryptionFailed = DecryptionFailed"
| "from_crypto other = Crypto other"

section \<open>lp-sync\<close>

datatype alarm =
    SignatureInvalid
  | UnknownDevice
  | SeqRegression
  | SeqReplay
  | ChainMismatch
  | LamportRegression
  | AttachmentBlobTampered

fun alarm_code :: "alarm \<Rightarrow> string" where
  "alarm_code SignatureInvalid = ''signature_invalid''"
| "alarm_code UnknownDevice = ''unknown_device''"
| "alarm_code SeqRegression = ''seq_regression''"
| "alarm_code SeqReplay = ''seq_replay''"
| "alarm_code ChainMismatch = ''chain_mismatch''"
| "alarm_code LamportRegression = ''lamport_regression''"
| "alarm_code AttachmentBlobTampered = ''attachment_blob_tampered''"

datatype refusal =
    UntrustedPeer
  | UnexpectedPeer
  | OwnIdentity
  | BadProof
  | HandshakeFailed
  | PeerClosed

fun refusal_code :: "refusal \<Rightarrow> string" where
  "refusal_code UntrustedPeer = ''untrusted_peer''"
| "refusal_code UnexpectedPeer = ''unexpected_peer''"
| "refusal_code OwnIdentity = ''own_identity''"
| "refusal_code BadProof = ''bad_proof''"
| "refusal_code HandshakeFailed = ''handshake_failed''"
| "refusal_code PeerClosed = ''peer_closed''"

datatype sync_error =
    Vault vault_error
  | Io io_kind
  | Malformed string
  | Serialization string
  | Invalid string
  | Refused refusal
  | Protocol string
  | Qr string
  | Timeout string
  | Panic string

text \<open>The JSON labels of alarms and of refusals are told apart by their codes.\<close>

lemma alarm_code_inject: "alarm_code a = alarm_code b \<Longrightarrow> a = b"
  by (cases a; cases b) simp_all

lemma refusal_code_inject: "refusal_code a = refusal_code b \<Longrightarrow> a = b"
  by (cases a; cases b) simp_all

end
