(* ===== verification/Sign.thy ===== *)
theory Sign
  imports Errors
begin

text \<open>
  \<open>lp-crypto/src/kdf.rs\<close> (\<open>check_label\<close>) and \<open>lp-crypto/src/sign.rs\<close>: the namespaced label
  check, the injective framing of (context, message), and signing and verifying over the frame.
  Ed25519 itself (the \<open>ed25519-dalek\<close> crate) is the parameter \<open>ed_sign\<close> (key, message to
  signature) and \<open>ed_verify\<close> (public key, message, signature to bool).
\<close>

text \<open>A \<open>str\<close> is its UTF-8 bytes; every literal of the program is ASCII.\<close>

definition str_bytes :: "string \<Rightarrow> bytes" where
  "str_bytes s = map of_char s"

definition label_namespace :: string where
  "label_namespace = ''localpass/v1/''"

definition strip_prefix :: "'a list \<Rightarrow> 'a list \<Rightarrow> 'a list option" where
  "strip_prefix p s = (if take (length p) s = p then Some (drop (length p) s) else None)"

definition check_label :: "string \<Rightarrow> crypto_error + string" where
  "check_label l = (case strip_prefix label_namespace l of
     Some [] \<Rightarrow> Inl (InvalidLabel ''label must include a purpose after the `localpass/v1/` prefix'')
   | Some (_ # _) \<Rightarrow> Inr l
   | None \<Rightarrow> Inl (InvalidLabel ''label must start with the `localpass/v1/` namespace''))"

definition framed_payload :: "string \<Rightarrow> bytes \<Rightarrow> crypto_error + bytes" where
  "framed_payload context message =
     bind_ok (check_label context) (\<lambda>context.
       Inr (u64_to_le (word_of_nat (length (str_bytes context))) @ str_bytes context @ message))"

definition signing_sign ::
  "('k \<Rightarrow> bytes \<Rightarrow> bytes) \<Rightarrow> 'k \<Rightarrow> string \<Rightarrow> bytes \<Rightarrow> crypto_error + bytes" where
  "signing_sign ed_sign key context message =
     bind_ok (framed_payload context message) (\<lambda>payload. Inr (ed_sign key payload))"

definition verifying_verify ::
  "('pk \<Rightarrow> bytes \<Rightarrow> bytes \<Rightarrow> bool) \<Rightarrow> 'pk \<Rightarrow> string \<Rightarrow> bytes \<Rightarrow> bytes \<Rightarrow> crypto_error + unit" where
  "verifying_verify ed_verify key context message signature =
     bind_ok (framed_payload context message) (\<lambda>payload.
       if ed_verify key payload signature then Inr () else Inl CryptoDecryptionFailed)"

lemma length_str_bytes [simp]: "length (str_bytes s) = length s"
  by (simp add: str_bytes_def)

lemma of_char_byte_inject:
  assumes "(of_char c :: byte) = of_char d"
  shows "c = d"
proof -
  have "(word_of_nat (of_char c) :: byte) = word_of_nat (of_char d)"
    using assms by (simp add: of_nat_of_char)
  then have "take_bit 8 (of_char c :: nat) = take_bit 8 (of_char d)"
    by (simp add: word_of_nat_eq_iff)
  then have "(of_char c :: nat) = of_char d"
    by (simp add: take_bit_nat_eq_self)
  then show ?thesis by simp
qed

lemma str_bytes_inject [simp]: "str_bytes s = str_bytes t \<longleftrightarrow> s = t"
  unfolding str_bytes_def
  by (rule inj_map_eq_map [OF injI]) (rule of_char_byte_inject)

text \<open>The frame determines the context and the message.\<close>

lemma framed_payload_inject:
  assumes "framed_payload c m = Inr p" and "framed_payload d n = Inr p"
    and "length c < 2 ^ 64" and "length d < 2 ^ 64"
  shows "c = d \<and> m = n"
proof -
  have c: "u64_to_le (word_of_nat (length c)) @ str_bytes c @ m = p"
    and d: "u64_to_le (word_of_nat (length d)) @ str_bytes d @ n = p"
    using assms(1,2) by (auto simp: framed_payload_def check_label_def bind_ok_Inr_iff
        split: option.splits list.splits)
  then have "word_of_nat (length c) = (word_of_nat (length d) :: u64)"
    by (metis append_eq_append_conv length_u64_to_le u64_to_le_inject)
  then have "length c = length d"
    using assms(3,4) by (simp add: word_of_nat_eq_iff take_bit_nat_eq_self)
  with c d show ?thesis
    by (metis append_eq_append_conv length_str_bytes length_u64_to_le str_bytes_inject)
qed

section \<open>Properties\<close>

text \<open>
  Domain separation: when two signing calls hand Ed25519 the same payload, they
  were given the same context label and the same message, so a signature made for one purpose
  never verifies for another.
\<close>

theorem signing_contexts_separate:
  assumes "framed_payload c m = Inr p" and "framed_payload d n = Inr p"
    and "length c < 2 ^ 64" and "length d < 2 ^ 64"
  shows "c = d \<and> m = n"
  by (rule framed_payload_inject [OF assms])

lemma signing_contexts_separate_witness:
  "(''localpass/v1/op'' :: string) = ''localpass/v1/op'' \<and> ([1, 2] :: bytes) = [1, 2]"
proof (rule signing_contexts_separate)
  have "check_label ''localpass/v1/op'' = Inr ''localpass/v1/op''"
    by (simp add: check_label_def strip_prefix_def label_namespace_def)
  then show "framed_payload ''localpass/v1/op'' [1, 2] =
      Inr (u64_to_le 15 @ str_bytes ''localpass/v1/op'' @ [1, 2])"
    by (simp add: framed_payload_def)
  then show "framed_payload ''localpass/v1/op'' [1, 2] =
      Inr (u64_to_le 15 @ str_bytes ''localpass/v1/op'' @ [1, 2])" .
qed simp_all

end
