(* ===== verification/Op.thy ===== *)
theory Op
  imports Btree_Map Sign
begin

text \<open>
  \<open>lp-vault/src/ids.rs\<close> and \<open>lp-vault/src/op.rs\<close>: identifiers, op kinds, the observed-heads
  causal summary with its canonical bytes and its decoder, the op fields, the signed region,
  signing and verifying, and the hash-chain links. The BLAKE3 digest (third-party) is the
  parameter \<open>blake3\<close>. An \<open>expect\<close> that panics is the \<open>None\<close> of an option.
\<close>

section \<open>Identifiers\<close>

datatype id = Id (as_bytes: bytes)

definition id_from_bytes :: "bytes \<Rightarrow> id" where
  "id_from_bytes bs = Id bs"

definition id_from_slice :: "bytes \<Rightarrow> vault_error + id" where
  "id_from_slice bs =
     (if length bs = 16 then Inr (Id bs) else Inl (VaultInvalid ''id blob was not 16 bytes''))"

text \<open>The array type \<open>[u8; 16]\<close>.\<close>

definition id_wf :: "id \<Rightarrow> bool" where
  "id_wf i \<longleftrightarrow> length (as_bytes i) = 16"

lemma id_wf_Id [simp, wf_simps]: "id_wf (Id bs) \<longleftrightarrow> length bs = 16"
  by (simp add: id_wf_def)

lemma id_eq_iff: "i = j \<longleftrightarrow> as_bytes i = as_bytes j"
  by (cases i; cases j) simp

lemma id_from_slice_Inr [ok_simps]:
  "id_from_slice bs = Inr i \<longleftrightarrow> length bs = 16 \<and> i = Id bs"
  by (auto simp: id_from_slice_def)

lemma id_from_slice_wf: "id_wf i \<Longrightarrow> id_from_slice (as_bytes i) = Inr i"
  by (simp add: id_from_slice_def id_wf_def)

section \<open>Op kinds\<close>

datatype op_kind = Create | Update | Delete | Restore | Rewrap | AttachAdd | AttachDelete

definition op_kind_from_code :: "byte \<Rightarrow> op_kind option" where
  "op_kind_from_code c =
     (if c = 1 then Some Create
      else if c = 2 then Some Update
      else if c = 3 then Some Delete
      else if c = 4 then Some Restore
      else if c = 5 then Some Rewrap
      else if c = 6 then Some AttachAdd
      else if c = 7 then Some AttachDelete
      else None)"

fun op_kind_code :: "op_kind \<Rightarrow> byte" where
  "op_kind_code Create = 1"
| "op_kind_code Update = 2"
| "op_kind_code Delete = 3"
| "op_kind_code Restore = 4"
| "op_kind_code Rewrap = 5"
| "op_kind_code AttachAdd = 6"
| "op_kind_code AttachDelete = 7"

lemma op_kind_from_code_code [simp]: "op_kind_from_code (op_kind_code k) = Some k"
  by (cases k) (simp_all add: op_kind_from_code_def)

lemma op_kind_from_code_Some: "op_kind_from_code c = Some k \<longleftrightarrow> c = op_kind_code k"
  by (cases k) (auto simp: op_kind_from_code_def split: if_splits)

section \<open>Observed heads\<close>

record observed_heads =
  heads :: "(bytes, u64) btree"

definition oh_new :: observed_heads where
  "oh_new = \<lparr>heads = []\<rparr>"

definition oh_from_pairs :: "(bytes \<times> u64) list \<Rightarrow> observed_heads" where
  "oh_from_pairs pairs = \<lparr>heads = fold (\<lambda>(dev, seq). bt_raise dev seq) pairs []\<rparr>"

definition oh_observe :: "id \<Rightarrow> u64 \<Rightarrow> observed_heads \<Rightarrow> observed_heads" where
  "oh_observe device seq oh = oh\<lparr>heads := bt_raise (as_bytes device) seq (heads oh)\<rparr>"

definition oh_get :: "observed_heads \<Rightarrow> id \<Rightarrow> u64" where
  "oh_get oh device = (case bt_get (heads oh) (as_bytes device) of None \<Rightarrow> 0 | Some s \<Rightarrow> s)"

definition oh_len :: "observed_heads \<Rightarrow> nat" where
  "oh_len oh = length (heads oh)"

definition oh_is_empty :: "observed_heads \<Rightarrow> bool" where
  "oh_is_empty oh \<longleftrightarrow> heads oh = []"

definition oh_iter :: "observed_heads \<Rightarrow> (bytes \<times> u64) list" where
  "oh_iter oh = heads oh"

text \<open>\<open>u32::try_from(len).expect(..)\<close>: \<open>None\<close> is the panic.\<close>

definition u32_try_from :: "nat \<Rightarrow> u32 option" where
  "u32_try_from n = (if n < 2 ^ 32 then Some (word_of_nat n) else None)"

definition oh_encode_bytes_into :: "observed_heads \<Rightarrow> bytes \<Rightarrow> bytes option" where
  "oh_encode_bytes_into oh out =
     (case u32_try_from (length (heads oh)) of
        None \<Rightarrow> None
      | Some n \<Rightarrow>
          Some (fold (\<lambda>(dev, seq) out. out @ dev @ u64_to_le seq) (heads oh)
                  (out @ u32_to_le n)))"

definition oh_to_bytes :: "observed_heads \<Rightarrow> bytes option" where
  "oh_to_bytes oh = oh_encode_bytes_into oh []"

definition oh_encoded_len :: "observed_heads \<Rightarrow> nat" where
  "oh_encoded_len oh = 4 + length (heads oh) * (16 + 8)"

definition oh_decode_entry ::
  "bytes \<Rightarrow> nat \<Rightarrow> bytes option \<times> (bytes, u64) btree \<Rightarrow>
     vault_error + (bytes option \<times> (bytes, u64) btree)" where
  "oh_decode_entry bs i s =
     (let (prev_dev, hs) = s;
          base = 4 + i * (16 + 8);
          dev = take 16 (drop base bs);
          seq = u64_from_le (take 8 (drop (base + 16) bs))
      in if (case prev_dev of Some p \<Rightarrow> dev \<le> p | None \<Rightarrow> False)
         then Inl (VaultInvalid ''observed-heads: entries not strictly ascending'')
         else Inr (Some dev, bt_insert dev seq hs))"

definition oh_decode :: "bytes \<Rightarrow> vault_error + observed_heads" where
  "oh_decode bs =
     (if bs = [] then Inr oh_new
      else if length bs < 4 then Inl (VaultInvalid ''observed-heads: truncated count'')
      else
        let n = unat (u32_from_le (take 4 bs));
            expected = 4 + n * (16 + 8)
        in if length bs \<noteq> expected then Inl (VaultInvalid ''observed-heads: bad length'')
           else bind_ok (fold_ok (oh_decode_entry bs) [0..<n] (None, []))
                  (\<lambda>(_, hs). Inr \<lparr>heads = hs\<rparr>))"

text \<open>
  What the type \<open>BTreeMap<[u8; 16], u64>\<close> guarantees (ascending 16-byte keys), and the bound
  under which the \<open>u32\<close> count does not panic.
\<close>

definition oh_wf :: "observed_heads \<Rightarrow> bool" where
  "oh_wf oh \<longleftrightarrow> bt_wf (heads oh) \<and> (\<forall>e\<in>set (heads oh). length (fst e) = 16)"

definition oh_fits :: "observed_heads \<Rightarrow> bool" where
  "oh_fits oh \<longleftrightarrow> length (heads oh) < 2 ^ 32"

definition entry_bytes :: "bytes \<times> u64 \<Rightarrow> bytes" where
  "entry_bytes e = fst e @ u64_to_le (snd e)"

definition oh_bytes :: "observed_heads \<Rightarrow> bytes" where
  "oh_bytes oh = u32_to_le (word_of_nat (length (heads oh))) @ concat (map entry_bytes (heads oh))"

lemma fold_entry_bytes:
  "fold (\<lambda>(dev, seq) out. out @ dev @ u64_to_le seq) es out = out @ concat (map entry_bytes es)"
  by (induction es arbitrary: out) (auto simp: entry_bytes_def)

lemma oh_encode_bytes_into_fits:
  "oh_encode_bytes_into oh out = (if oh_fits oh then Some (out @ oh_bytes oh) else None)"
  by (simp add: oh_encode_bytes_into_def u32_try_from_def oh_fits_def fold_entry_bytes oh_bytes_def)

lemma oh_to_bytes_fits: "oh_to_bytes oh = (if oh_fits oh then Some (oh_bytes oh) else None)"
  by (simp add: oh_to_bytes_def oh_encode_bytes_into_fits)

lemma length_entry_bytes: "oh_wf oh \<Longrightarrow> e \<in> set (heads oh) \<Longrightarrow> length (entry_bytes e) = 24"
  by (simp add: oh_wf_def entry_bytes_def)

lemma length_oh_bytes: "oh_wf oh \<Longrightarrow> length (oh_bytes oh) = oh_encoded_len oh"
  by (simp add: oh_bytes_def oh_encoded_len_def length_concat_fixed [OF length_entry_bytes])

subsection \<open>Raising heads\<close>

lemma oh_from_pairs_raise_all: "heads (oh_from_pairs pairs) = hd.raise_all pairs []"
  by (simp add: oh_from_pairs_def hd.raise_all_def case_prod_unfold)

lemma oh_get_head: "oh_get oh d = bt_head (heads oh) (as_bytes d)"
  by (simp add: oh_get_def bt_head_def)

lemma oh_wf_new [simp, wf_simps]: "oh_wf oh_new"
  by (simp add: oh_wf_def oh_new_def)

lemma oh_wf_observe [wf_simps]:
  assumes "oh_wf oh" and "id_wf d"
  shows "oh_wf (oh_observe d s oh)"
proof -
  have "fst ` set (bt_raise (as_bytes d) s (heads oh)) = insert (as_bytes d) (fst ` set (heads oh))"
    by (simp add: bt_raise_def bt_entry_def set_keys_insert)
  then have mem: "fst e = as_bytes d \<or> fst e \<in> fst ` set (heads oh)"
    if "e \<in> set (bt_raise (as_bytes d) s (heads oh))" for e
    using that by blast
  have old: "length k = 16" if "k \<in> fst ` set (heads oh)" for k
    using assms(1) that by (auto simp: oh_wf_def)
  have "length (fst e) = 16" if "e \<in> set (bt_raise (as_bytes d) s (heads oh))" for e
    using mem [OF that] old assms(2) by (auto simp: id_wf_def)
  then show ?thesis
    using assms(1) by (simp add: oh_wf_def oh_observe_def)
qed

lemma oh_get_observe:
  assumes "oh_wf oh"
  shows "oh_get (oh_observe d s oh) d' = (if d' = d then max (oh_get oh d) s else oh_get oh d')"
  using assms by (auto simp: oh_get_head oh_observe_def hd.head_raise oh_wf_def id_eq_iff)

subsection \<open>The decoder inverts the encoder\<close>

lemma oh_decode_loop:
  assumes wf: "oh_wf oh" and n: "n \<le> length (heads oh)"
    and bs: "drop 4 bs = concat (map entry_bytes (heads oh))"
  shows "fold_ok (oh_decode_entry bs) [0..<n] (None, []) =
    Inr (if n = 0 then None else Some (fst (heads oh ! (n - 1))), take n (heads oh))"
  using n
proof (induction n)
  case 0
  then show ?case by simp
next
  case (Suc n)
  let ?m = "heads oh"
  have at: "drop (4 + n * 24) bs = drop (n * 24) (concat (map entry_bytes ?m))"
    using bs by (metis drop_drop add.commute)
  have entry: "take 24 (drop (4 + n * 24) bs) = entry_bytes (?m ! n)"
    using Suc.prems length_entry_bytes [OF wf] at
      take_drop_concat_fixed [where f = entry_bytes and xs = ?m and n = 24 and i = n] by simp
  have key: "length (fst (?m ! n)) = 16"
    using wf Suc.prems by (simp add: oh_wf_def)
  have dev: "take 16 (drop (4 + n * 24) bs) = fst (?m ! n)"
    using arg_cong [OF entry, of "take 16"] key by (simp add: entry_bytes_def min_def)
  have "take 8 (drop 16 (take 24 (drop (4 + n * 24) bs))) = u64_to_le (snd (?m ! n))"
    using key by (simp only: entry entry_bytes_def) simp
  then have seq: "take 8 (drop (4 + n * 24 + 16) bs) = u64_to_le (snd (?m ! n))"
    by (simp add: drop_take add.commute add.left_commute)
  have asc: "fst (?m ! i) < fst (?m ! n)" if "i < n" for i
    using wf that Suc.prems by (auto simp: oh_wf_def bt_wf_def sorted_wrt_iff_nth_less)
  have last: "bt_insert (fst (?m ! n)) (snd (?m ! n)) (take n ?m) = take (Suc n) ?m"
  proof -
    have "fst y < fst (?m ! n)" if "y \<in> set (take n ?m)" for y
      using that asc Suc.prems by (auto simp: in_set_conv_nth)
    then show ?thesis
      using Suc.prems by (simp add: bt_insert_last take_Suc_conv_app_nth)
  qed
  have "n - 1 < n" if "n \<noteq> 0" using that by simp
  with asc have "\<not> fst (?m ! n) \<le> fst (?m ! (n - 1))" if "n \<noteq> 0"
    using that by (simp add: not_le)
  with Suc dev seq last show ?case
    by (auto simp: fold_ok_upt_Suc oh_decode_entry_def simp del: upt_Suc)
qed

lemma oh_decode_bytes:
  assumes "oh_wf oh" and "oh_fits oh"
  shows "oh_decode (oh_bytes oh) = Inr oh"
proof -
  let ?bs = "oh_bytes oh"
  have len: "length ?bs = 4 + length (heads oh) * 24"
    using assms(1) length_oh_bytes by (simp add: oh_encoded_len_def)
  have cnt: "unat (u32_from_le (take 4 ?bs)) = length (heads oh)"
    using assms(2) by (simp add: oh_bytes_def oh_fits_def unat_of_nat)
  have body: "drop 4 ?bs = concat (map entry_bytes (heads oh))"
    by (simp add: oh_bytes_def)
  have "?bs \<noteq> []" using len by force
  with len cnt oh_decode_loop [OF assms(1) le_refl body] show ?thesis
    by (simp add: oh_decode_def)
qed

text \<open>Conversely every accepted non-empty input is the encoding of what it decodes to.\<close>

lemma oh_decode_loop_canonical:
  assumes "fold_ok (oh_decode_entry bs) [0..<n] (None, []) = Inr (p, hs)"
    and "length bs = 4 + c * 24" and "n \<le> c"
  shows "bt_wf hs \<and> length hs = n \<and> (\<forall>e\<in>set hs. length (fst e) = 16) \<and>
    concat (map entry_bytes hs) = take (n * 24) (drop 4 bs) \<and>
    p = (if n = 0 then None else Some (fst (last hs)))"
  using assms
proof (induction n arbitrary: p hs)
  case 0
  then show ?case by simp
next
  case (Suc n)
  let ?dev = "take 16 (drop (4 + n * 24) bs)"
  let ?seq = "u64_from_le (take 8 (drop (4 + n * 24 + 16) bs))"
  from Suc.prems(1) obtain p' hs' where
    prev: "fold_ok (oh_decode_entry bs) [0..<n] (None, []) = Inr (p', hs')" and
    step: "oh_decode_entry bs n (p', hs') = Inr (p, hs)"
    by (auto simp: fold_ok_upt_Suc bind_ok_Inr_iff simp del: upt_Suc)
  from Suc.IH [OF prev] Suc.prems have
    IH: "bt_wf hs'" "length hs' = n" "\<forall>e\<in>set hs'. length (fst e) = 16"
      "concat (map entry_bytes hs') = take (n * 24) (drop 4 bs)"
      "p' = (if n = 0 then None else Some (fst (last hs')))" by auto
  from step have
    asc: "case p' of None \<Rightarrow> True | Some q \<Rightarrow> q < ?dev" and
    hs: "hs = bt_insert ?dev ?seq hs'" and p: "p = Some ?dev"
    by (auto simp: oh_decode_entry_def Let_def not_le split: if_splits option.splits)
  have below: "fst y < ?dev" if "y \<in> set hs'" for y
  proof -
    have "n \<noteq> 0" using that IH(2) by auto
    with asc IH(5) have "fst (last hs') < ?dev" by simp
    moreover have "fst y \<le> fst (last hs')"
    proof (cases "y = last hs'")
      case False
      have ne: "hs' \<noteq> []" using that by auto
      have wf: "bt_wf (butlast hs' @ [last hs'])" using IH(1) ne by simp
      have "y \<in> set (butlast hs' @ [last hs'])" using that ne by simp
      with False have "y \<in> set (butlast hs')" by simp
      with wf show ?thesis by (auto simp: bt_wf_append)
    qed simp
    ultimately show ?thesis by order
  qed
  have app: "hs = hs' @ [(?dev, ?seq)]"
    by (simp add: hs bt_insert_last below)
  have len: "24 \<le> length (drop (4 + n * 24) bs)"
    using Suc.prems(2,3) by simp
  have "entry_bytes (?dev, ?seq) = ?dev @ take 8 (drop (4 + n * 24 + 16) bs)"
    using len by (simp add: entry_bytes_def u64_to_from_le)
  also have "\<dots> = take 24 (drop (4 + n * 24) bs)"
    using take_add [of 16 8 "drop (4 + n * 24) bs"] by (simp add: add.commute)
  finally have entry: "entry_bytes (?dev, ?seq) = take 24 (drop (n * 24) (drop 4 bs))"
    by (simp add: add.commute)
  have "concat (map entry_bytes hs) = take (Suc n * 24) (drop 4 bs)"
    using IH(4) entry take_add [of "n * 24" 24 "drop 4 bs"] by (simp add: app add.commute)
  then show ?case
    using IH len below p by (auto simp: app bt_wf_append)
qed

lemma oh_decode_canonical:
  assumes "oh_decode bs = Inr oh" and "bs \<noteq> []"
  shows "oh_wf oh \<and> oh_fits oh \<and> oh_bytes oh = bs"
proof -
  let ?c = "unat (u32_from_le (take 4 bs))"
  from assms obtain p hs where
    len: "length bs = 4 + ?c * 24" and
    loop: "fold_ok (oh_decode_entry bs) [0..<?c] (None, []) = Inr (p, hs)" and
    oh: "oh = \<lparr>heads = hs\<rparr>"
    by (auto simp: oh_decode_def Let_def bind_ok_Inr_iff split: if_splits)
  note inv = oh_decode_loop_canonical [OF loop len le_refl]
  have "u32_to_le (word_of_nat ?c) = take 4 bs"
    using len by (simp add: u32_to_from_le)
  moreover have "concat (map entry_bytes hs) = drop 4 bs"
    using inv len by simp
  ultimately have "oh_bytes oh = bs"
    using inv by (simp add: oh oh_bytes_def)
  then show ?thesis
    using inv unat_u32_less [of "u32_from_le (take 4 bs)"]
    by (auto simp: oh oh_wf_def oh_fits_def)
qed

section \<open>Op fields and their canonical bytes\<close>

definition op_wire_version :: byte where
  "op_wire_version = 2"

definition op_sign_context :: string where
  "op_sign_context = ''localpass/v1/op''"

definition chain_genesis_label :: bytes where
  "chain_genesis_label = str_bytes ''localpass/v1/chain-genesis''"

datatype item_target = ItemTarget (target_bytes: bytes)

definition target_of_item :: "id \<Rightarrow> item_target" where
  "target_of_item i = ItemTarget (as_bytes i)"

definition target_none :: item_target where
  "target_none = ItemTarget (replicate 16 0)"

record op_fields =
  f_op_id :: id
  f_vault_id :: id
  f_device_id :: id
  f_seq :: u64
  f_prev_hash :: bytes
  f_lamport :: u64
  f_op_kind :: op_kind
  f_target_item :: item_target
  f_target_version :: u32
  f_payload_env :: bytes
  f_observed :: observed_heads

definition signed_region_bytes :: "op_fields \<Rightarrow> bytes option" where
  "signed_region_bytes f =
     (let out = [op_wire_version]
            @ as_bytes (f_op_id f)
            @ as_bytes (f_vault_id f)
            @ as_bytes (f_device_id f)
            @ u64_to_le (f_seq f)
            @ f_prev_hash f
            @ u64_to_le (f_lamport f)
            @ [op_kind_code (f_op_kind f)]
            @ target_bytes (f_target_item f)
            @ u32_to_le (f_target_version f)
      in case u32_try_from (length (f_payload_env f)) of
           None \<Rightarrow> None
         | Some len \<Rightarrow>
             oh_encode_bytes_into (f_observed f) (out @ u32_to_le len @ f_payload_env f))"

definition full_bytes :: "op_fields \<Rightarrow> bytes \<Rightarrow> bytes option" where
  "full_bytes f signature =
     (case signed_region_bytes f of None \<Rightarrow> None | Some out \<Rightarrow> Some (out @ signature))"

definition f_observed_bytes :: "op_fields \<Rightarrow> bytes option" where
  "f_observed_bytes f = oh_to_bytes (f_observed f)"

definition op_sign ::
  "('k \<Rightarrow> bytes \<Rightarrow> bytes) \<Rightarrow> op_fields \<Rightarrow> 'k \<Rightarrow> (vault_error + bytes) option" where
  "op_sign ed_sign f key =
     (case signed_region_bytes f of None \<Rightarrow> None
      | Some msg \<Rightarrow> Some (map_err from_crypto (signing_sign ed_sign key op_sign_context msg)))"

definition op_verify ::
  "('pk \<Rightarrow> bytes \<Rightarrow> bytes \<Rightarrow> bool) \<Rightarrow> op_fields \<Rightarrow> 'pk \<Rightarrow> bytes \<Rightarrow> (vault_error + unit) option" where
  "op_verify ed_verify f key signature =
     (case signed_region_bytes f of None \<Rightarrow> None
      | Some msg \<Rightarrow>
          Some (map_err from_crypto (verifying_verify ed_verify key op_sign_context msg signature)))"

definition genesis_hash :: "(bytes \<Rightarrow> bytes) \<Rightarrow> id \<Rightarrow> id \<Rightarrow> bytes" where
  "genesis_hash blake3 vault_id device_id =
     blake3 (chain_genesis_label @ as_bytes vault_id @ as_bytes device_id)"

definition chain_hash :: "(bytes \<Rightarrow> bytes) \<Rightarrow> bytes \<Rightarrow> bytes" where
  "chain_hash blake3 full_op_bytes = blake3 full_op_bytes"

text \<open>The two lengths that must fit a \<open>u32\<close>, and the bytes written when they do.\<close>

definition fields_fit :: "op_fields \<Rightarrow> bool" where
  "fields_fit f \<longleftrightarrow> length (f_payload_env f) < 2 ^ 32 \<and> oh_fits (f_observed f)"

definition region_bytes :: "op_fields \<Rightarrow> bytes" where
  "region_bytes f =
     [op_wire_version] @ as_bytes (f_op_id f) @ as_bytes (f_vault_id f)
     @ as_bytes (f_device_id f) @ u64_to_le (f_seq f) @ f_prev_hash f @ u64_to_le (f_lamport f)
     @ [op_kind_code (f_op_kind f)] @ target_bytes (f_target_item f)
     @ u32_to_le (f_target_version f)
     @ u32_to_le (word_of_nat (length (f_payload_env f))) @ f_payload_env f
     @ oh_bytes (f_observed f)"

lemma signed_region_bytes_fits:
  "signed_region_bytes f = (if fields_fit f then Some (region_bytes f) else None)"
  by (simp add: signed_region_bytes_def u32_try_from_def oh_encode_bytes_into_fits fields_fit_def
      region_bytes_def)

lemma check_label_op [simp]: "check_label op_sign_context = Inr op_sign_context"
  by (simp add: check_label_def strip_prefix_def label_namespace_def op_sign_context_def)

text \<open>
  Signing and verifying an op that fits never fail on the label: they come down to the Ed25519
  primitive on the framed region.
\<close>

definition op_payload :: "op_fields \<Rightarrow> bytes" where
  "op_payload f =
     u64_to_le (word_of_nat (length op_sign_context)) @ str_bytes op_sign_context @ region_bytes f"

lemma op_verify_fits:
  "op_verify ed_verify f pk s =
     (if fields_fit f
      then Some (if ed_verify pk (op_payload f) s then Inr () else Inl DecryptionFailed)
      else None)"
  by (simp add: op_verify_def signed_region_bytes_fits verifying_verify_def framed_payload_def
      op_payload_def)

lemma op_sign_fits:
  "op_sign ed_sign f k =
     (if fields_fit f then Some (Inr (ed_sign k (op_payload f))) else None)"
  by (simp add: op_sign_def signed_region_bytes_fits signing_sign_def framed_payload_def
      op_payload_def)

section \<open>Properties\<close>

text \<open>
  The observed-heads codec: a well-formed summary written with its \<open>u32\<close> count
  reads back as itself, and the decoder accepts no other bytes for it, so its bytes are a faithful
  signing input.
\<close>

theorem observed_heads_codec:
  assumes "oh_wf oh"
  shows "(oh_to_bytes oh = Some bs \<longrightarrow> oh_decode bs = Inr oh \<and> length bs = oh_encoded_len oh) \<and>
    (oh_decode bs = Inr oh \<and> bs \<noteq> [] \<longrightarrow> oh_to_bytes oh = Some bs)"
  using oh_decode_bytes [OF assms] oh_decode_canonical [of bs oh] length_oh_bytes [OF assms]
  by (auto simp: oh_to_bytes_fits split: if_splits)

lemma observed_heads_codec_witness:
  "oh_decode (u32_to_le 1 @ replicate 16 2 @ u64_to_le 5) = Inr \<lparr>heads = [(replicate 16 2, 5)]\<rparr>"
proof -
  have "oh_wf \<lparr>heads = [(replicate 16 2, 5)]\<rparr>" by (simp add: oh_wf_def bt_wf_def)
  moreover have "oh_to_bytes \<lparr>heads = [(replicate 16 2, 5)]\<rparr> =
      Some (u32_to_le 1 @ replicate 16 2 @ u64_to_le 5)"
    by (simp add: oh_to_bytes_fits oh_fits_def oh_bytes_def entry_bytes_def)
  ultimately show ?thesis
    using observed_heads_codec [of "\<lparr>heads = [(replicate 16 2, 5)]\<rparr>"] by blast
qed

text \<open>
  Observing is a max-merge: the summary built from head pairs depends on their
  multiset only, and its head of a device is the greatest seq seen from it (0 when unseen).
\<close>

theorem observed_heads_max:
  assumes "mset pairs' = mset pairs"
  shows "oh_from_pairs pairs' = oh_from_pairs pairs \<and>
    oh_get (oh_from_pairs pairs) d =
      fold max (map snd (filter (\<lambda>p. fst p = as_bytes d) pairs)) 0"
proof -
  have "bt_wf ([] :: (bytes, u64) btree)" by (simp add: bt_wf_def)
  then have "heads (oh_from_pairs pairs') = heads (oh_from_pairs pairs)"
    unfolding oh_from_pairs_raise_all by (rule hd.raise_all_perm [OF assms])
  moreover have "oh_get (oh_from_pairs pairs) d =
      fold max (map snd (filter (\<lambda>p. fst p = as_bytes d) pairs)) 0"
    using \<open>bt_wf []\<close> by (simp add: oh_get_head oh_from_pairs_raise_all hd.head_raise_all)
  ultimately show ?thesis by simp
qed

lemma observed_heads_max_witness:
  "oh_from_pairs [([2], 5), ([1], 7), ([2], 3)] = oh_from_pairs [([1], 7), ([2], 3), ([2], 5)] \<and>
    oh_get (oh_from_pairs [([1], 7), ([2], 3), ([2], 5)]) (Id [2]) =
      fold max (map snd (filter (\<lambda>p. fst p = as_bytes (Id [2])) [([1], 7), ([2], 3), ([2], 5)])) 0"
  by (rule observed_heads_max) simp

end
