(* ===== verification/Reader.thy ===== *)
theory Reader
  imports Prelude
begin

text \<open>
  The interface of the program's forward-only byte cursors: a length-checked \<open>take\<close> over a
  remaining input. Its clients (the op decoder, the segment reader) use two rules: reading back
  what was written (\<open>bind_take\<close>) and what a successful read says about the input (\<open>take_InrD\<close>).
\<close>

locale byte_reader =
  fixes take_bytes :: "nat \<Rightarrow> 'c \<Rightarrow> 'e + (bytes \<times> 'c)"
    and rest :: "'c \<Rightarrow> bytes"
    and ok :: "'c \<Rightarrow> bool"
  assumes take_enough: "ok c \<Longrightarrow> n \<le> length (rest c) \<Longrightarrow>
      \<exists>c'. take_bytes n c = Inr (take n (rest c), c') \<and> ok c' \<and> rest c' = drop n (rest c)"
    and take_short: "ok c \<Longrightarrow> length (rest c) < n \<Longrightarrow> \<exists>e. take_bytes n c = Inl e"
begin

lemma take_append:
  assumes "ok c" and "rest c = xs @ r" and "length xs = n"
  obtains c' where "take_bytes n c = Inr (xs, c')" and "ok c'" and "rest c' = r"
  using take_enough [OF assms(1), of n] assms(2,3) by auto

lemma take_InrD:
  assumes "take_bytes n c = Inr (xs, c')" and "ok c"
  shows "ok c' \<and> length xs = n \<and> rest c = xs @ rest c'"
proof -
  have "n \<le> length (rest c)"
    using assms take_short [OF assms(2), of n] by (metis Inl_Inr_False not_less)
  then show ?thesis
    using take_enough [OF assms(2), of n] assms(1) by auto
qed

text \<open>Stepping through \<open>take(n)?\<close> in a decoder that reads back an encoder's bytes.\<close>

lemma bind_take:
  assumes "ok c" and "rest c = xs @ r" and "length xs = n"
    and "\<And>c'. ok c' \<Longrightarrow> rest c' = r \<Longrightarrow> k (xs, c') = Inr y"
  shows "bind_ok (take_bytes n c) k = Inr y"
  by (rule take_append [OF assms(1-3)]) (simp add: assms(4))

lemma bind_take_short:
  assumes "ok c" and "length (rest c) < n"
  shows "\<exists>e. bind_ok (take_bytes n c) k = Inl e"
  using take_short [OF assms] by auto

end

end
