(* ===== verification/Wire.thy ===== *)
theory Wire
  imports Op Reader
begin

text \<open>
  \<open>lp-sync/src/wire.rs\<close> with the op row \<open>StoredOp\<close> of \<open>lp-vault/src/foreign.rs\<close>: the canonical
  op bytes, the cursor, the decoder, and the segment framing. The decoder inverts the encoder on
  every well-formed op, and accepts nothing but encodings.
\<close>

section \<open>Stored ops\<close>

record stored_op =
  op_id :: id
  vault_id :: id
  device_id :: id
  seq :: u64
  prev_hash :: bytes
  lamport :: u64
  op_kind :: op_kind
  target_item :: "id option"
  target_version :: u32
  payload_env :: bytes
  observed :: observed_heads
  signature :: bytes
  created_at :: int

definition observed_bytes :: "stored_op \<Rightarrow> bytes option" where
  "observed_bytes op = oh_to_bytes (observed op)"

definition zero_item :: bytes where
  "zero_item = replicate 16 0"

text \<open>What the fixed-size array types guarantee, and the two \<open>u32\<close> length bounds.\<close>

definition op_wf :: "stored_op \<Rightarrow> bool" where
  "op_wf op \<longleftrightarrow> id_wf (op_id op) \<and> id_wf (vault_id op) \<and> id_wf (device_id op)
     \<and> length (prev_hash op) = 32 \<and> length (signature op) = 64
     \<and> (\<forall>i. target_item op = Some i \<longrightarrow> id_wf i) \<and> oh_wf (observed op)"

definition op_fits :: "stored_op \<Rightarrow> bool" where
  "op_fits op \<longleftrightarrow> length (payload_env op) < 2 ^ 32 \<and> oh_fits (observed op)"

section \<open>Encoding\<close>

definition to_op_fields :: "stored_op \<Rightarrow> op_fields" where
  "to_op_fields op =
     (let target = (case target_item op of Some i \<Rightarrow> target_of_item i | None \<Rightarrow> target_none)
      in \<lparr>f_op_id = op_id op, f_vault_id = vault_id op, f_device_id = device_id op,
          f_seq = seq op, f_prev_hash = prev_hash op, f_lamport = lamport op,
          f_op_kind = op_kind op, f_target_item = target,
          f_target_version = target_version op, f_payload_env = payload_env op,
          f_observed = observed op\<rparr>)"

definition encode_op :: "stored_op \<Rightarrow> bytes option" where
  "encode_op op = full_bytes (to_op_fields op) (signature op)"

definition op_bytes :: "stored_op \<Rightarrow> bytes" where
  "op_bytes op = region_bytes (to_op_fields op) @ signature op"

lemma fields_fit_to_op_fields [simp]: "fields_fit (to_op_fields op) \<longleftrightarrow> op_fits op"
  by (simp add: fields_fit_def op_fits_def to_op_fields_def Let_def)

lemma encode_op_fits: "encode_op op = (if op_fits op then Some (op_bytes op) else None)"
  by (simp add: encode_op_def full_bytes_def signed_region_bytes_fits op_bytes_def)

section \<open>The cursor\<close>

record cursor =
  buf :: bytes
  pos :: nat

definition cursor_new :: "bytes \<Rightarrow> cursor" where
  "cursor_new bs = \<lparr>buf = bs, pos = 0\<rparr>"

definition cursor_is_empty :: "cursor \<Rightarrow> bool" where
  "cursor_is_empty c \<longleftrightarrow> length (buf c) \<le> pos c"

definition take_n :: "nat \<Rightarrow> cursor \<Rightarrow> sync_error + (bytes \<times> cursor)" where
  "take_n n c =
     bind_ok (ok_or (Malformed ''length overflow'') (usize_checked_add (pos c) n)) (\<lambda>end_pos.
       if length (buf c) < end_pos then Inl (Malformed ''truncated op bytes'')
       else Inr (take (end_pos - pos c) (drop (pos c) (buf c)), c\<lparr>pos := end_pos\<rparr>))"

definition take_u8 :: "cursor \<Rightarrow> sync_error + (byte \<times> cursor)" where
  "take_u8 c = bind_ok (take_n 1 c) (\<lambda>(bs, c). Inr (hd bs, c))"

definition take_u32 :: "cursor \<Rightarrow> sync_error + (u32 \<times> cursor)" where
  "take_u32 c = bind_ok (take_n 4 c) (\<lambda>(bs, c). Inr (u32_from_le bs, c))"

definition take_u64 :: "cursor \<Rightarrow> sync_error + (u64 \<times> cursor)" where
  "take_u64 c = bind_ok (take_n 8 c) (\<lambda>(bs, c). Inr (u64_from_le bs, c))"

definition take_16 :: "cursor \<Rightarrow> sync_error + (bytes \<times> cursor)" where
  "take_16 c = take_n 16 c"

definition take_32 :: "cursor \<Rightarrow> sync_error + (bytes \<times> cursor)" where
  "take_32 c = take_n 32 c"

definition take_64 :: "cursor \<Rightarrow> sync_error + (bytes \<times> cursor)" where
  "take_64 c = take_n 64 c"

definition cursor_rest :: "cursor \<Rightarrow> bytes" where
  "cursor_rest c = drop (pos c) (buf c)"

text \<open>A buffer in memory is shorter than \<open>2 ^ 64\<close> bytes; \<open>take_n\<close> never moves past its end.\<close>

definition cursor_ok :: "cursor \<Rightarrow> bool" where
  "cursor_ok c \<longleftrightarrow> pos c \<le> length (buf c) \<and> length (buf c) < usize_bound"

lemma cursor_rest_new [simp]: "cursor_rest (cursor_new bs) = bs"
  by (simp add: cursor_rest_def cursor_new_def)

lemma cursor_ok_new [simp]: "cursor_ok (cursor_new bs) \<longleftrightarrow> length bs < usize_bound"
  by (simp add: cursor_ok_def cursor_new_def)

lemma cursor_is_empty_rest: "cursor_is_empty c \<longleftrightarrow> cursor_rest c = []"
  by (simp add: cursor_is_empty_def cursor_rest_def)

lemma take_n_Inr:
  "take_n n c = Inr (xs, c') \<longleftrightarrow>
     pos c + n < usize_bound \<and> pos c + n \<le> length (buf c) \<and>
     xs = take n (cursor_rest c) \<and> c' = c\<lparr>pos := pos c + n\<rparr>"
  by (auto simp: take_n_def usize_checked_add_def cursor_rest_def bind_ok_def split: if_splits)

interpretation cur: byte_reader take_n cursor_rest cursor_ok
proof unfold_locales
  fix c n
  assume "cursor_ok c" and "n \<le> length (cursor_rest c)"
  then show "\<exists>c'. take_n n c = Inr (take n (cursor_rest c), c') \<and> cursor_ok c' \<and>
      cursor_rest c' = drop n (cursor_rest c)"
    by (intro exI [of _ "c\<lparr>pos := pos c + n\<rparr>"])
      (auto simp: take_n_Inr cursor_ok_def cursor_rest_def add.commute)
next
  fix c n
  assume "cursor_ok c" and "length (cursor_rest c) < n"
  then show "\<exists>e. take_n n c = Inl e"
    by (auto simp: take_n_def usize_checked_add_def cursor_ok_def cursor_rest_def bind_ok_def)
qed

section \<open>Decoding\<close>

definition decode_kind :: "byte \<Rightarrow> sync_error + op_kind" where
  "decode_kind b = ok_or (Malformed ''unknown op_kind byte'') (op_kind_from_code b)"

definition decode_observed :: "nat \<Rightarrow> bytes \<Rightarrow> sync_error + observed_heads" where
  "decode_observed cnt body =
     (let full = u32_to_le (case u32_try_from cnt of Some n \<Rightarrow> n | None \<Rightarrow> - 1) @ body
      in map_err (\<lambda>_. Malformed ''malformed observed-heads vector'') (oh_decode full))"

definition decode_op :: "bytes \<Rightarrow> sync_error + stored_op" where
  "decode_op bs =
     (let cur = cursor_new bs in
      bind_ok (take_u8 cur) (\<lambda>(wire_ver, cur).
      if wire_ver \<noteq> op_wire_version then Inl (Malformed ''unsupported op wire version'') else
      bind_ok (take_16 cur) (\<lambda>(op_id, cur).
      bind_ok (take_16 cur) (\<lambda>(vault_id, cur).
      bind_ok (take_16 cur) (\<lambda>(device_id, cur).
      bind_ok (take_u64 cur) (\<lambda>(seq, cur).
      bind_ok (take_32 cur) (\<lambda>(prev_hash, cur).
      bind_ok (take_u64 cur) (\<lambda>(lamport, cur).
      bind_ok (take_u8 cur) (\<lambda>(kind_byte, cur).
      bind_ok (decode_kind kind_byte) (\<lambda>op_kind.
      bind_ok (take_16 cur) (\<lambda>(target_bytes, cur).
      let target_item = (if target_bytes = zero_item then None else Some (Id target_bytes)) in
      bind_ok (take_u32 cur) (\<lambda>(target_version, cur).
      bind_ok (take_u32 cur) (\<lambda>(payload_len, cur).
      bind_ok (take_n (unat payload_len) cur) (\<lambda>(payload_env, cur).
      bind_ok (take_u32 cur) (\<lambda>(observed_count, cur).
      bind_ok (ok_or (Malformed ''observed-heads length overflow'')
                (usize_checked_mul (unat observed_count) (16 + 8))) (\<lambda>observed_body_len.
      bind_ok (take_n observed_body_len cur) (\<lambda>(observed_body, cur).
      bind_ok (decode_observed (unat observed_count) observed_body) (\<lambda>observed.
      bind_ok (take_64 cur) (\<lambda>(signature, cur).
      if \<not> cursor_is_empty cur then Inl (Malformed ''trailing bytes after op'')
      else Inr \<lparr>op_id = Id op_id, vault_id = Id vault_id, device_id = Id device_id,
                seq = seq, prev_hash = prev_hash, lamport = lamport, op_kind = op_kind,
                target_item = target_item, target_version = target_version,
                payload_env = payload_env, observed = observed, signature = signature,
                created_at = 0\<rparr>)))))))))))))))))))"

lemma decode_kind_code [simp]: "decode_kind (op_kind_code k) = Inr k"
  by (simp add: decode_kind_def)

lemma decode_kind_Inr [ok_simps]: "decode_kind b = Inr k \<longleftrightarrow> b = op_kind_code k"
  by (simp add: decode_kind_def ok_or_Inr_iff op_kind_from_code_Some)

lemma length_oh_bytes_body:
  "oh_wf oh \<Longrightarrow> length (concat (map entry_bytes (heads oh))) = length (heads oh) * 24"
  by (rule length_concat_fixed) (rule length_entry_bytes)

lemma decode_observed_bytes:
  assumes "oh_wf oh" and "oh_fits oh"
  shows "decode_observed (length (heads oh)) (concat (map entry_bytes (heads oh))) = Inr oh"
  using assms oh_decode_bytes [OF assms]
  by (simp add: decode_observed_def u32_try_from_def oh_fits_def oh_bytes_def)

lemma decode_observed_Inr:
  assumes "decode_observed (unat (n :: u32)) body = Inr oh"
  shows "oh_wf oh \<and> oh_fits oh \<and> oh_bytes oh = u32_to_le n @ body"
proof -
  have "oh_decode (u32_to_le n @ body) = Inr oh"
    using assms unat_u32_less [of n]
    by (simp add: decode_observed_def u32_try_from_def Let_def map_err_Inr_iff)
  then show ?thesis
    by (rule oh_decode_canonical)
      (metis append_is_Nil_conv length_u32_to_le list.size(3) zero_neq_numeral)
qed

text \<open>The reads of the cursor as steps over an encoder's bytes.\<close>

lemma bind_take_u8:
  assumes "cursor_ok c" and "cursor_rest c = [b] @ r"
    and "\<And>c'. cursor_ok c' \<Longrightarrow> cursor_rest c' = r \<Longrightarrow> k (b, c') = Inr y"
  shows "bind_ok (take_u8 c) k = Inr y"
  unfolding take_u8_def bind_ok_assoc by (rule cur.bind_take [OF assms(1,2)]) (simp_all add: assms(3))

lemma bind_take_u32:
  assumes "cursor_ok c" and "cursor_rest c = u32_to_le w @ r"
    and "\<And>c'. cursor_ok c' \<Longrightarrow> cursor_rest c' = r \<Longrightarrow> k (w, c') = Inr y"
  shows "bind_ok (take_u32 c) k = Inr y"
  unfolding take_u32_def bind_ok_assoc by (rule cur.bind_take [OF assms(1,2)]) (simp_all add: assms(3))

lemma bind_take_u64:
  assumes "cursor_ok c" and "cursor_rest c = u64_to_le w @ r"
    and "\<And>c'. cursor_ok c' \<Longrightarrow> cursor_rest c' = r \<Longrightarrow> k (w, c') = Inr y"
  shows "bind_ok (take_u64 c) k = Inr y"
  unfolding take_u64_def bind_ok_assoc by (rule cur.bind_take [OF assms(1,2)]) (simp_all add: assms(3))

lemmas bind_takes = cur.bind_take bind_take_u8 bind_take_u32 bind_take_u64

lemma take_u8_InrD:
  "take_u8 c = Inr (b, c') \<Longrightarrow> cursor_ok c \<Longrightarrow> cursor_ok c' \<and> cursor_rest c = [b] @ cursor_rest c'"
  by (auto simp: take_u8_def bind_ok_Inr_iff length_Suc_conv dest!: cur.take_InrD)

lemma take_u32_InrD:
  "take_u32 c = Inr (w, c') \<Longrightarrow> cursor_ok c \<Longrightarrow>
     cursor_ok c' \<and> cursor_rest c = u32_to_le w @ cursor_rest c'"
  by (auto simp: take_u32_def bind_ok_Inr_iff u32_to_from_le dest!: cur.take_InrD)

lemma take_u64_InrD:
  "take_u64 c = Inr (w, c') \<Longrightarrow> cursor_ok c \<Longrightarrow>
     cursor_ok c' \<and> cursor_rest c = u64_to_le w @ cursor_rest c'"
  by (auto simp: take_u64_def bind_ok_Inr_iff u64_to_from_le dest!: cur.take_InrD)

lemmas take_InrDs = cur.take_InrD take_u8_InrD take_u32_InrD take_u64_InrD

text \<open>
  An op whose target is the all-zero id is written like a vault-scope op, so it is the one
  well-formed op that does not come back.
\<close>

definition target_nonzero :: "stored_op \<Rightarrow> bool" where
  "target_nonzero op \<longleftrightarrow> target_item op \<noteq> Some (Id zero_item)"

lemma op_bytes_split:
  "op_bytes op =
     [op_wire_version] @ as_bytes (op_id op) @ as_bytes (vault_id op) @ as_bytes (device_id op)
     @ u64_to_le (seq op) @ prev_hash op @ u64_to_le (lamport op) @ [op_kind_code (op_kind op)]
     @ (case target_item op of Some i \<Rightarrow> as_bytes i | None \<Rightarrow> zero_item)
     @ u32_to_le (target_version op) @ u32_to_le (word_of_nat (length (payload_env op)))
     @ payload_env op @ u32_to_le (word_of_nat (length (heads (observed op))))
     @ concat (map entry_bytes (heads (observed op))) @ signature op @ []"
  by (simp add: op_bytes_def region_bytes_def to_op_fields_def oh_bytes_def target_of_item_def
      target_none_def zero_item_def split: option.split)

lemma decode_op_bytes:
  assumes wf: "op_wf op" and fits: "op_fits op" and nz: "target_nonzero op"
    and mem: "length (op_bytes op) < usize_bound"
  shows "decode_op (op_bytes op) = Inr (op\<lparr>created_at := 0\<rparr>)"
proof -
  let ?tb = "case target_item op of Some i \<Rightarrow> as_bytes i | None \<Rightarrow> zero_item"
  have plen: "unat (word_of_nat (length (payload_env op)) :: u32) = length (payload_env op)"
    and olen: "unat (word_of_nat (length (heads (observed op))) :: u32) = length (heads (observed op))"
    using fits by (simp_all add: op_fits_def oh_fits_def unat_of_nat)
  have mul: "usize_checked_mul (length (heads (observed op))) (16 + 8) =
      Some (length (heads (observed op)) * 24)"
    using fits by (simp add: op_fits_def oh_fits_def usize_checked_mul_def usize_bound_def)
  have obs: "decode_observed (length (heads (observed op)))
      (concat (map entry_bytes (heads (observed op)))) = Inr (observed op)"
    using wf fits by (intro decode_observed_bytes) (simp_all add: op_wf_def op_fits_def)
  have target: "(if ?tb = zero_item then None else Some (Id ?tb)) = target_item op"
    using nz by (auto simp: target_nonzero_def id_eq_iff split: option.split)
  have tlen: "length ?tb = 16"
    using wf by (auto simp: op_wf_def id_wf_def zero_item_def split: option.split)
  have lens: "length (as_bytes (op_id op)) = 16" "length (as_bytes (vault_id op)) = 16"
    "length (as_bytes (device_id op)) = 16" "length (prev_hash op) = 32"
    "length (signature op) = 64"
    "length (concat (map entry_bytes (heads (observed op)))) = length (heads (observed op)) * 24"
    using wf by (simp_all add: op_wf_def id_wf_def length_oh_bytes_body)
  have ids: "Id (as_bytes i) = i" for i by (cases i) simp
  have start: "cursor_ok (cursor_new (op_bytes op))" using mem by simp
  note start_rest = trans [OF cursor_rest_new op_bytes_split]
  note step = prod.case simp_thms if_False if_True bind_ok_simps ok_or_simps decode_kind_code
    ids plen olen mul obs target cursor_is_empty_rest
  show ?thesis
    unfolding decode_op_def Let_def take_16_def take_32_def take_64_def
    apply (rule bind_take_u8, rule start, rule start_rest, simp only: step)
    apply ((rule cur.bind_take, assumption, assumption, simp only: lens tlen
        | rule bind_take_u32 bind_take_u64 bind_take_u8, assumption, assumption), simp only: step)+
    apply simp
    done
qed

lemma decode_op_canonical:
  assumes dec: "decode_op bs = Inr op" and mem: "length bs < usize_bound"
  shows "op_wf op \<and> op_fits op \<and> target_nonzero op \<and> created_at op = 0 \<and> op_bytes op = bs"
proof -
  have start: "cursor_ok (cursor_new bs)" using mem by simp
  obtain c1 c2 c3 c4 c5 c6 c7 c8 c9 c10 c11 c12 c13 c14 c15
    oid vid did s ph l tb tv pl p oc len body oh sg
    where
    r1: "take_u8 (cursor_new bs) = Inr (op_wire_version, c1)" and
    r2: "take_n 16 c1 = Inr (oid, c2)" and r3: "take_n 16 c2 = Inr (vid, c3)" and
    r4: "take_n 16 c3 = Inr (did, c4)" and r5: "take_u64 c4 = Inr (s, c5)" and
    r6: "take_n 32 c5 = Inr (ph, c6)" and r7: "take_u64 c6 = Inr (l, c7)" and
    r8: "take_u8 c7 = Inr (op_kind_code (op_kind op), c8)" and
    r9: "take_n 16 c8 = Inr (tb, c9)" and r10: "take_u32 c9 = Inr (tv, c10)" and
    r11: "take_u32 c10 = Inr (pl, c11)" and r12: "take_n (unat pl) c11 = Inr (p, c12)" and
    r13: "take_u32 c12 = Inr (oc, c13)" and
    mul: "usize_checked_mul (unat oc) 24 = Some len" and
    r14: "take_n len c13 = Inr (body, c14)" and
    obs: "decode_observed (unat oc) body = Inr oh" and
    r15: "take_n 64 c14 = Inr (sg, c15)" and
    fin: "cursor_is_empty c15" and
    op: "op = \<lparr>op_id = Id oid, vault_id = Id vid, device_id = Id did, seq = s, prev_hash = ph,
           lamport = l, op_kind = op_kind op,
           target_item = (if tb = zero_item then None else Some (Id tb)),
           target_version = tv, payload_env = p, observed = oh, signature = sg,
           created_at = 0\<rparr>"
    using dec unfolding decode_op_def Let_def take_16_def take_32_def take_64_def
    by (auto simp: bind_ok_Inr_iff ok_or_Inr_iff decode_kind_Inr split: if_split_asm)
  note d1 = take_u8_InrD [OF r1 start]
  note d2 = cur.take_InrD [OF r2 conjunct1 [OF d1]]
  note d3 = cur.take_InrD [OF r3 conjunct1 [OF d2]]
  note d4 = cur.take_InrD [OF r4 conjunct1 [OF d3]]
  note d5 = take_u64_InrD [OF r5 conjunct1 [OF d4]]
  note d6 = cur.take_InrD [OF r6 conjunct1 [OF d5]]
  note d7 = take_u64_InrD [OF r7 conjunct1 [OF d6]]
  note d8 = take_u8_InrD [OF r8 conjunct1 [OF d7]]
  note d9 = cur.take_InrD [OF r9 conjunct1 [OF d8]]
  note d10 = take_u32_InrD [OF r10 conjunct1 [OF d9]]
  note d11 = take_u32_InrD [OF r11 conjunct1 [OF d10]]
  note d12 = cur.take_InrD [OF r12 conjunct1 [OF d11]]
  note d13 = take_u32_InrD [OF r13 conjunct1 [OF d12]]
  note d14 = cur.take_InrD [OF r14 conjunct1 [OF d13]]
  note d15 = cur.take_InrD [OF r15 conjunct1 [OF d14]]
  note oh = decode_observed_Inr [OF obs]
  have plen: "word_of_nat (length p) = pl" and pfit: "length p < 2 ^ 32"
    using d12 unat_u32_less [of pl] by simp_all
  have parts: "u32_to_le (word_of_nat (length (heads oh))) @ concat (map entry_bytes (heads oh))
      = u32_to_le oc @ body"
    using oh by (simp add: oh_bytes_def)
  have sel: "op_id op = Id oid" "vault_id op = Id vid" "device_id op = Id did" "seq op = s"
    "prev_hash op = ph" "lamport op = l" "target_version op = tv" "payload_env op = p"
    "observed op = oh" "signature op = sg" "created_at op = 0"
    "target_item op = (if tb = zero_item then None else Some (Id tb))"
    by (subst op, simp)+
  have "op_bytes op = bs"
    unfolding op_bytes_split sel plen
    using d1 d2 d3 d4 d5 d6 d7 d8 d9 d10 d11 d12 d13 d14 d15 fin parts
    by (simp add: cursor_is_empty_rest)
  moreover have "op_wf op" "op_fits op" "target_nonzero op" "created_at op = 0"
    using d2 d3 d4 d6 d9 d15 oh pfit
    by (simp_all add: sel op_wf_def op_fits_def target_nonzero_def)
  ultimately show ?thesis by blast
qed

section \<open>Segments\<close>

fun encode_segment_into :: "stored_op list \<Rightarrow> bytes \<Rightarrow> bytes option" where
  "encode_segment_into [] out = Some out"
| "encode_segment_into (op # ops) out =
     (case encode_op op of None \<Rightarrow> None
      | Some bs \<Rightarrow> (case u32_try_from (length bs) of None \<Rightarrow> None
         | Some len \<Rightarrow> encode_segment_into ops (out @ u32_to_le len @ bs)))"

definition encode_segment :: "stored_op list \<Rightarrow> bytes option" where
  "encode_segment ops = encode_segment_into ops []"

text \<open>The \<open>while\<close> loop of the reader ends because every frame takes at least its length prefix.\<close>

lemma take_n_progress: "take_n n c = Inr (xs, c') \<Longrightarrow> buf c' = buf c \<and> pos c' = pos c + n"
  by (simp add: take_n_Inr)

lemma take_u32_progress: "take_u32 c = Inr (w, c') \<Longrightarrow> buf c' = buf c \<and> pos c' = pos c + 4"
  by (auto simp: take_u32_def bind_ok_Inr_iff dest!: take_n_progress)

function decode_segment_loop :: "cursor \<Rightarrow> stored_op list \<Rightarrow> sync_error + stored_op list" where
  "decode_segment_loop c ops =
     (if cursor_is_empty c then Inr ops
      else case take_u32 c of Inl e \<Rightarrow> Inl e
        | Inr (len, c1) \<Rightarrow> (case take_n (unat len) c1 of Inl e \<Rightarrow> Inl e
           | Inr (bs, c2) \<Rightarrow> (case decode_op bs of Inl e \<Rightarrow> Inl e
              | Inr op \<Rightarrow> decode_segment_loop c2 (ops @ [op]))))"
  by pat_completeness auto
termination
  by (relation "measure (\<lambda>(c, _). length (buf c) - pos c)")
    (auto simp: cursor_is_empty_def dest!: take_n_progress take_u32_progress)

declare decode_segment_loop.simps [simp del]

definition decode_segment :: "bytes \<Rightarrow> sync_error + stored_op list" where
  "decode_segment body = decode_segment_loop (cursor_new body) []"

definition frame :: "stored_op \<Rightarrow> bytes" where
  "frame op = u32_to_le (word_of_nat (length (op_bytes op))) @ op_bytes op"

definition segment_fits :: "stored_op list \<Rightarrow> bool" where
  "segment_fits ops \<longleftrightarrow> (\<forall>op\<in>set ops. op_fits op \<and> length (op_bytes op) < 2 ^ 32)"

lemma encode_segment_into_fits:
  "encode_segment_into ops out =
     (if segment_fits ops then Some (out @ concat (map frame ops)) else None)"
  by (induction ops arbitrary: out)
    (auto simp: segment_fits_def encode_op_fits u32_try_from_def frame_def)

lemma encode_segment_fits:
  "encode_segment ops = (if segment_fits ops then Some (concat (map frame ops)) else None)"
  by (simp add: encode_segment_def encode_segment_into_fits)

lemma decode_segment_loop_frames:
  assumes "cursor_ok c" and "cursor_rest c = concat (map frame ops)"
    and "segment_fits ops" and "\<forall>op\<in>set ops. op_wf op \<and> target_nonzero op"
  shows "decode_segment_loop c acc = Inr (acc @ map (\<lambda>op. op\<lparr>created_at := 0\<rparr>) ops)"
  using assms
proof (induction ops arbitrary: c acc)
  case Nil
  then show ?case by (simp add: decode_segment_loop.simps cursor_is_empty_rest)
next
  case (Cons op ops)
  let ?len = "word_of_nat (length (op_bytes op)) :: u32"
  have rest: "cursor_rest c = u32_to_le ?len @ op_bytes op @ concat (map frame ops)"
    using Cons.prems(2) by (simp add: frame_def [of op])
  have short: "length (op_bytes op) < 2 ^ 32" and fits: "op_fits op"
    using Cons.prems(3) by (simp_all add: segment_fits_def)
  then have len: "unat ?len = length (op_bytes op)" by (simp add: unat_of_nat)
  obtain c1 where c1: "take_n 4 c = Inr (u32_to_le ?len, c1)" "cursor_ok c1"
    "cursor_rest c1 = op_bytes op @ concat (map frame ops)"
    by (rule cur.take_append [OF Cons.prems(1) rest, of 4]) simp_all
  obtain c2 where c2: "take_n (unat ?len) c1 = Inr (op_bytes op, c2)" "cursor_ok c2"
    "cursor_rest c2 = concat (map frame ops)"
    by (rule cur.take_append [OF c1(2,3)]) (simp_all add: len)
  have dec: "decode_op (op_bytes op) = Inr (op\<lparr>created_at := 0\<rparr>)"
    using Cons.prems(4) fits short by (intro decode_op_bytes) (simp_all add: usize_bound_def)
  have "length (cursor_rest c) \<noteq> 0" by (simp add: rest)
  then have ne: "\<not> cursor_is_empty c" by (simp add: cursor_is_empty_rest)
  have tail: "segment_fits ops" "\<forall>op\<in>set ops. op_wf op \<and> target_nonzero op"
    using Cons.prems(3,4) by (simp_all add: segment_fits_def)
  have "take_u32 c = Inr (?len, c1)"
    using c1(1) by (simp add: take_u32_def)
  with ne c2(1) dec have "decode_segment_loop c acc =
      decode_segment_loop c2 (acc @ [op\<lparr>created_at := 0\<rparr>])"
    by (subst decode_segment_loop.simps) (simp del: word_of_nat_eq_0_iff)
  with Cons.IH [OF c2(2,3) tail] show ?case by simp
qed

lemma decode_segment_frames:
  assumes "segment_fits ops" and "\<forall>op\<in>set ops. op_wf op \<and> target_nonzero op"
    and "length (concat (map frame ops)) < usize_bound"
  shows "decode_segment (concat (map frame ops)) = Inr (map (\<lambda>op. op\<lparr>created_at := 0\<rparr>) ops)"
proof -
  have "cursor_rest (cursor_new (concat (map frame ops))) = concat (map frame ops)" by simp
  from decode_segment_loop_frames [OF _ this assms(1,2), where acc = "[]"] assms(3)
  show ?thesis by (simp add: decode_segment_def)
qed

lemma decode_segment_loop_canonical:
  assumes "decode_segment_loop c acc = Inr out" and "cursor_ok c"
  shows "\<exists>ops. out = acc @ ops \<and> cursor_rest c = concat (map frame ops) \<and> segment_fits ops \<and>
    (\<forall>op\<in>set ops. op_wf op \<and> target_nonzero op \<and> created_at op = 0)"
  using assms
proof (induction c acc rule: decode_segment_loop.induct)
  case (1 c acc)
  show ?case
  proof (cases "cursor_is_empty c")
    case True
    with 1(2) show ?thesis
      by (intro exI [of _ "[]"])
        (simp add: decode_segment_loop.simps cursor_is_empty_rest segment_fits_def)
  next
    case False
    with 1(2) obtain len c1 bs c2 op where
      r: "take_u32 c = Inr (len, c1)" "take_n (unat len) c1 = Inr (bs, c2)" "decode_op bs = Inr op"
      and rec: "decode_segment_loop c2 (acc @ [op]) = Inr out"
      by (subst (asm) decode_segment_loop.simps) (auto split: sum.splits prod.splits)
    note d1 = take_u32_InrD [OF r(1) 1(3)]
    note d2 = cur.take_InrD [OF r(2) conjunct1 [OF d1]]
    have "length bs < 2 ^ 32" using d2 unat_u32_less [of len] by simp
    then have op: "op_wf op \<and> op_fits op \<and> target_nonzero op \<and> created_at op = 0 \<and> op_bytes op = bs"
      by (intro decode_op_canonical [OF r(3)]) (simp add: usize_bound_def)
    obtain ops where IH: "out = (acc @ [op]) @ ops" "cursor_rest c2 = concat (map frame ops)"
      "segment_fits ops" "\<forall>op\<in>set ops. op_wf op \<and> target_nonzero op \<and> created_at op = 0"
      using 1(1) [OF False r(1) refl r(2) refl r(3) rec] d2 by blast
    have "cursor_rest c = frame op @ concat (map frame ops)"
      using d1 d2 op IH(2) by (simp add: frame_def [of op])
    then show ?thesis
      using IH op \<open>length bs < 2 ^ 32\<close>
      by (intro exI [of _ "op # ops"]) (simp add: segment_fits_def)
  qed
qed

section \<open>The signed region\<close>

lemma op_bytes_payload:
  "op_bytes op = region_bytes (to_op_fields op) @ signature op"
  by (simp add: op_bytes_def)

lemma op_bytes_inject:
  assumes "op_bytes a = op_bytes b" and "op_wf a" "op_wf b" and "op_fits a" "op_fits b"
    and "target_nonzero a" "target_nonzero b" and "length (op_bytes a) < usize_bound"
  shows "a\<lparr>created_at := 0\<rparr> = b\<lparr>created_at := 0\<rparr>"
  using decode_op_bytes [OF assms(2,4,6,8)] decode_op_bytes [OF assms(3,5,7)] assms(1,8) by simp

lemma op_bytes_bound: "op_wf op \<Longrightarrow> op_fits op \<Longrightarrow> length (op_bytes op) < usize_bound"
  by (cases "target_item op")
    (simp_all add: op_bytes_split op_wf_def id_wf_def op_fits_def oh_fits_def zero_item_def
      length_oh_bytes_body usize_bound_def)

lemma op_verify_passed:
  assumes "op_verify ed_verify (to_op_fields op) key sig = Some (Inr ())"
  shows "op_fits op \<and> (\<exists>m p. signed_region_bytes (to_op_fields op) = Some m \<and>
    framed_payload op_sign_context m = Inr p \<and> ed_verify key p sig)"
  using assms
  by (simp add: op_verify_fits op_payload_def signed_region_bytes_fits framed_payload_def
      split: if_splits)

text \<open>
  The region is injective up to the one pair of targets written alike: no target and the all-zero id.
\<close>

definition plain_target :: "stored_op \<Rightarrow> stored_op" where
  "plain_target op = (if target_nonzero op then op else op\<lparr>target_item := None\<rparr>)"

lemma plain_target_sel [simp]:
  "to_op_fields (plain_target op) = to_op_fields op" "op_wf (plain_target op) = op_wf op"
  "op_fits (plain_target op) = op_fits op" "target_nonzero (plain_target op)"
  by (simp_all add: plain_target_def to_op_fields_def target_nonzero_def target_of_item_def
      target_none_def zero_item_def op_wf_def op_fits_def id_wf_def)

lemma signed_region_inject:
  assumes same: "signed_region_bytes (to_op_fields a) = signed_region_bytes (to_op_fields b)"
    and wf: "op_wf a" "op_wf b" and fits: "op_fits a" "op_fits b"
  shows "a\<lparr>signature := signature b, created_at := created_at b, target_item := target_item b\<rparr> = b \<and>
    (target_item a = target_item b \<or>
     target_item a = None \<and> target_item b = Some (Id zero_item) \<or>
     target_item a = Some (Id zero_item) \<and> target_item b = None)"
proof -
  let ?a = "plain_target a\<lparr>signature := signature b\<rparr>"
  let ?b = "plain_target b"
  have "to_op_fields ?a = to_op_fields a"
    using plain_target_sel(1) [of a] by (simp add: to_op_fields_def)
  moreover have "signature ?b = signature b" by (simp add: plain_target_def)
  moreover have "region_bytes (to_op_fields a) = region_bytes (to_op_fields b)"
    using same fits by (simp add: signed_region_bytes_fits)
  ultimately have bytes: "op_bytes ?a = op_bytes ?b" by (simp add: op_bytes_payload)
  have a: "op_wf ?a" "op_fits ?a" "target_nonzero ?a"
    using plain_target_sel(2-4) [of a] wf fits(1) by (simp_all add: op_wf_def op_fits_def target_nonzero_def)
  have "?a\<lparr>created_at := 0\<rparr> = ?b\<lparr>created_at := 0\<rparr>"
    by (intro op_bytes_inject bytes a op_bytes_bound) (use wf fits in simp_all)
  then show ?thesis
    by (cases a; cases b) (simp add: plain_target_def target_nonzero_def split: if_splits)
qed

section \<open>A concrete op\<close>

definition wire_op :: stored_op where
  "wire_op = \<lparr>op_id = Id (replicate 16 3), vault_id = Id (replicate 16 1),
     device_id = Id (replicate 16 2), seq = 1, prev_hash = replicate 32 4, lamport = 6,
     op_kind = Update, target_item = Some (Id (replicate 16 9)), target_version = 2,
     payload_env = [1, 2, 3], observed = oh_new, signature = replicate 64 5, created_at = 77\<rparr>"

lemma wire_op_ok: "op_wf wire_op" "op_fits wire_op" "target_nonzero wire_op"
  "length (op_bytes wire_op) = 193"
  by (simp_all add: wire_op_def op_wf_def op_fits_def oh_fits_def oh_new_def target_nonzero_def
      zero_item_def op_bytes_split oh_wf_def bt_wf_def)

lemma wire_segment: "encode_segment [wire_op] = Some (frame wire_op)"
  using wire_op_ok by (simp add: encode_segment_fits segment_fits_def)

section \<open>Properties\<close>

text \<open>
  A segment reads back: what \<open>encode_segment\<close> writes decodes to the same ops in the
  same order, with only the local ingest time (not on the wire) reset.
\<close>

theorem segment_roundtrip:
  assumes "encode_segment ops = Some bs" and "\<forall>op\<in>set ops. op_wf op \<and> target_nonzero op"
    and "length bs < usize_bound"
  shows "decode_segment bs = Inr (map (\<lambda>op. op\<lparr>created_at := 0\<rparr>) ops)"
proof -
  have "segment_fits ops" and "bs = concat (map frame ops)"
    using assms(1) by (auto simp: encode_segment_fits split: if_splits)
  with assms(2,3) show ?thesis by (simp add: decode_segment_frames)
qed

lemma segment_roundtrip_witness:
  "decode_segment (frame wire_op) = Inr (map (\<lambda>op. op\<lparr>created_at := 0\<rparr>) [wire_op])"
  by (rule segment_roundtrip [OF wire_segment])
    (simp_all add: wire_op_ok frame_def usize_bound_def)

text \<open>
  Claim C12. The reader is strict: whatever bytes \<open>decode_segment\<close> accepts are exactly the
  encoding of the ops it returns, so no second byte string stands for the same ops and hashes
  over the re-encoding are hashes over the bytes received.
\<close>

theorem segment_canonical:
  assumes "decode_segment bs = Inr ops" and "length bs < usize_bound"
  shows "encode_segment ops = Some bs \<and> (\<forall>op\<in>set ops. op_wf op \<and> created_at op = 0)"
proof -
  obtain ops' where "ops = [] @ ops'" "cursor_rest (cursor_new bs) = concat (map frame ops')"
    "segment_fits ops'" "\<forall>op\<in>set ops'. op_wf op \<and> target_nonzero op \<and> created_at op = 0"
    using decode_segment_loop_canonical [of "cursor_new bs" "[]" ops] assms
    by (auto simp: decode_segment_def)
  then show ?thesis by (simp add: encode_segment_fits)
qed

lemma segment_canonical_witness: "encode_segment [wire_op\<lparr>created_at := 0\<rparr>] = Some (frame wire_op)"
proof -
  have "decode_segment (frame wire_op) = Inr [wire_op\<lparr>created_at := 0\<rparr>]"
    using wire_op_ok
      decode_segment_loop_frames [of "cursor_new (frame wire_op)" "[wire_op]" "[]"]
    by (simp add: decode_segment_def segment_fits_def frame_def usize_bound_def)
  from segment_canonical [OF this] show ?thesis
    by (simp add: frame_def wire_op_ok usize_bound_def)
qed

text \<open>
  Claim C13. A signature binds every field: when the Ed25519 signature check of the code
  (\<open>OpFields::verify\<close>) passes for two well-formed ops under one key and one signature, the ops agree
  in all fields but the stored signature and the local ingest time, save that a target that is the
  all-zero item id and no target at all are signed alike. The one other possibility is that the
  signature is valid for two different messages, the framed signed regions of these two ops.
\<close>

theorem op_signature_binds:
  assumes "op_wf a" and "op_wf b"
    and "op_verify ed_verify (to_op_fields a) key sig = Some (Inr ())"
    and "op_verify ed_verify (to_op_fields b) key sig = Some (Inr ())"
  shows "(a\<lparr>signature := signature b, created_at := created_at b, target_item := target_item b\<rparr> = b \<and>
      (target_item a = target_item b \<or>
       target_item a = None \<and> target_item b = Some (Id zero_item) \<or>
       target_item a = Some (Id zero_item) \<and> target_item b = None)) \<or>
    (\<exists>ma mb pa pb. signed_region_bytes (to_op_fields a) = Some ma \<and>
       signed_region_bytes (to_op_fields b) = Some mb \<and>
       framed_payload op_sign_context ma = Inr pa \<and> framed_payload op_sign_context mb = Inr pb \<and>
       pa \<noteq> pb \<and> ed_verify key pa sig \<and> ed_verify key pb sig)"
proof -
  from op_verify_passed [OF assms(3)] op_verify_passed [OF assms(4)] obtain ma mb pa pb where
    a: "op_fits a" "signed_region_bytes (to_op_fields a) = Some ma" "framed_payload op_sign_context ma = Inr pa"
      "ed_verify key pa sig"
    and b: "op_fits b" "signed_region_bytes (to_op_fields b) = Some mb" "framed_payload op_sign_context mb = Inr pb"
      "ed_verify key pb sig" by blast
  show ?thesis
  proof (cases "pa = pb")
    case True
    have "ma = mb"
      using framed_payload_inject [OF a(3) b(3) [folded True]] by (simp add: op_sign_context_def)
    then have "signed_region_bytes (to_op_fields a) = signed_region_bytes (to_op_fields b)"
      using a(2) b(2) by simp
    from signed_region_inject [OF this assms(1,2) a(1) b(1)] show ?thesis ..
  next
    case False
    with a b show ?thesis by blast
  qed
qed

lemma op_signature_binds_witness:
  "wire_op\<lparr>signature := replicate 64 8, created_at := 5, target_item := Some (Id (replicate 16 9))\<rparr> =
     wire_op\<lparr>signature := replicate 64 8, created_at := 5\<rparr>"
proof -
  let ?b = "wire_op\<lparr>signature := replicate 64 8, created_at := 5\<rparr>"
  let ?v = "\<lambda>key m sg. m = op_payload (to_op_fields wire_op)"
  have f: "to_op_fields ?b = to_op_fields wire_op" by (simp add: to_op_fields_def)
  have b: "op_wf ?b" using wire_op_ok(1) by (simp add: op_wf_def)
  have v: "op_verify ?v (to_op_fields wire_op) () [] = Some (Inr ())"
    using wire_op_ok(2) by (simp add: op_verify_fits)
  show ?thesis
    using op_signature_binds [of wire_op ?b ?v "()" "[]", OF wire_op_ok(1) b v] v
    unfolding f by (simp add: wire_op_def)
qed

end
