(* ===== verification/Verify.thy ===== *)
theory Verify
  imports Wire
begin

text \<open>
  \<open>lp-sync/src/verify.rs\<close>: the ingest verifier. Per author device, in \<open>seq\<close> order, an op is
  skipped (already held), held pending (a gap), accepted (signature, chain link and Lamport clock
  check out) or quarantines its device. \<open>seq\<close> arithmetic wraps as in a release build; BLAKE3 and
  Ed25519 are parameters; the panic of an over-long op is \<open>None\<close>.
\<close>

section \<open>State and report\<close>

record quarantine =
  q_device_id :: id
  q_seq :: u64
  q_alarm :: alarm

record device_chain_state =
  verifying_key :: bytes
  last_seq :: u64
  last_op_full_bytes :: "bytes option"
  last_lamport :: u64
  known_op_ids :: "bytes bset"

record chain_state =
  cs_vault_id :: id
  cs_devices :: "(bytes, device_chain_state) btree"

datatype device_outcome =
    Accepted
  | Pending u64
  | Quarantined quarantine

record verify_report =
  accepted :: "stored_op list"
  skipped_idempotent :: nat
  pending :: "stored_op list"
  quarantines :: "quarantine list"
  outcomes :: "(id \<times> device_outcome) list"

definition empty_report :: verify_report where
  "empty_report = \<lparr>accepted = [], skipped_idempotent = 0, pending = [], quarantines = [],
     outcomes = []\<rparr>"

definition has_alarms :: "verify_report \<Rightarrow> bool" where
  "has_alarms r \<longleftrightarrow> quarantines r \<noteq> []"

section \<open>One device's run\<close>

definition verify_op_fields :: "stored_op \<Rightarrow> op_fields" where
  "verify_op_fields op =
     (let target = (case target_item op of Some i \<Rightarrow> target_of_item i | None \<Rightarrow> target_none)
      in \<lparr>f_op_id = op_id op, f_vault_id = vault_id op, f_device_id = device_id op,
          f_seq = seq op, f_prev_hash = prev_hash op, f_lamport = lamport op,
          f_op_kind = op_kind op, f_target_item = target,
          f_target_version = target_version op, f_payload_env = payload_env op,
          f_observed = observed op\<rparr>)"

definition verify_signature ::
  "(bytes \<Rightarrow> bytes \<Rightarrow> bytes \<Rightarrow> bool) \<Rightarrow> bytes \<Rightarrow> stored_op \<Rightarrow> (sync_error + unit) option" where
  "verify_signature ed_verify key op =
     map_option (map_err Vault) (op_verify ed_verify (verify_op_fields op) key (signature op))"

definition op_full_bytes :: "stored_op \<Rightarrow> bytes option" where
  "op_full_bytes op = encode_op op"

definition op_chain_hash :: "(bytes \<Rightarrow> bytes) \<Rightarrow> stored_op \<Rightarrow> bytes option" where
  "op_chain_hash blake3 op = map_option blake3 (encode_op op)"

definition do_quarantine ::
  "id \<Rightarrow> u64 \<Rightarrow> alarm \<Rightarrow> verify_report \<Rightarrow> device_outcome \<times> verify_report" where
  "do_quarantine d s a report =
     (let q = \<lparr>q_device_id = d, q_seq = s, q_alarm = a\<rparr>
      in (Quarantined q, report\<lparr>quarantines := quarantines report @ [q]\<rparr>))"

text \<open>The loop's rolling locals: next expected seq, hash of the previous op, its Lamport clock,
  and the ids accepted earlier in the batch.\<close>

record rolling =
  expected_seq :: u64
  prev_full :: bytes
  roll_lamport :: u64
  accepted_op_ids :: "bytes bset"

fun verify_run_loop ::
  "(bytes \<Rightarrow> bytes) \<Rightarrow> (bytes \<Rightarrow> bytes \<Rightarrow> bytes \<Rightarrow> bool) \<Rightarrow> id \<Rightarrow> device_chain_state \<Rightarrow> stored_op list \<Rightarrow>
     stored_op list \<Rightarrow> rolling \<Rightarrow> verify_report \<Rightarrow> (device_outcome \<times> verify_report) option" where
  "verify_run_loop blake3 ed_verify d chain run [] roll report = Some (Accepted, report)"
| "verify_run_loop blake3 ed_verify d chain run (op # ops) roll report =
     (if as_bytes (op_id op) \<in> set (known_op_ids chain)
         \<or> as_bytes (op_id op) \<in> set (accepted_op_ids roll)
      then
        let report = report\<lparr>skipped_idempotent := skipped_idempotent report + 1\<rparr> in
        if seq op = expected_seq roll then
          case encode_op op of None \<Rightarrow> None
          | Some bs \<Rightarrow> verify_run_loop blake3 ed_verify d chain run ops
              (roll\<lparr>expected_seq := expected_seq roll + 1, prev_full := chain_hash blake3 bs,
                    roll_lamport := lamport op\<rparr>) report
        else verify_run_loop blake3 ed_verify d chain run ops roll report
      else if seq op < expected_seq roll then
        let alarm = (if seq op \<le> last_seq chain then SeqRegression else SeqReplay)
        in Some (do_quarantine d (seq op) alarm report)
      else if expected_seq roll < seq op then
        Some (Pending (expected_seq roll),
          report\<lparr>pending := pending report @ [op] @
            filter (\<lambda>later. as_bytes (op_id later) \<notin> set (known_op_ids chain))
              (filter (\<lambda>o'. seq op < seq o') run)\<rparr>)
      else
        case verify_signature ed_verify (verifying_key chain) op of None \<Rightarrow> None
        | Some (Inl _) \<Rightarrow> Some (do_quarantine d (seq op) SignatureInvalid report)
        | Some (Inr _) \<Rightarrow>
            if prev_hash op \<noteq> prev_full roll
            then Some (do_quarantine d (seq op) ChainMismatch report)
            else if lamport op < roll_lamport roll
            then Some (do_quarantine d (seq op) LamportRegression report)
            else
              let report = report\<lparr>accepted := accepted report @ [op]\<rparr> in
              case encode_op op of None \<Rightarrow> None
              | Some bs \<Rightarrow> verify_run_loop blake3 ed_verify d chain run ops
                  \<lparr>expected_seq = expected_seq roll + 1, prev_full = chain_hash blake3 bs,
                    roll_lamport = lamport op,
                    accepted_op_ids = bs_insert (as_bytes (op_id op)) (accepted_op_ids roll)\<rparr>
                  report)"

definition initial_roll ::
  "(bytes \<Rightarrow> bytes) \<Rightarrow> id \<Rightarrow> id \<Rightarrow> device_chain_state \<Rightarrow> rolling" where
  "initial_roll blake3 vid d chain =
     \<lparr>expected_seq = last_seq chain + 1,
      prev_full = (case last_op_full_bytes chain of None \<Rightarrow> genesis_hash blake3 vid d
                   | Some b \<Rightarrow> chain_hash blake3 b),
      roll_lamport = last_lamport chain,
      accepted_op_ids = []\<rparr>"

definition verify_device_run ::
  "(bytes \<Rightarrow> bytes) \<Rightarrow> (bytes \<Rightarrow> bytes \<Rightarrow> bytes \<Rightarrow> bool) \<Rightarrow> id \<Rightarrow> id \<Rightarrow> device_chain_state \<Rightarrow>
     stored_op list \<Rightarrow> verify_report \<Rightarrow> (device_outcome \<times> verify_report) option" where
  "verify_device_run blake3 ed_verify vid d chain run report =
     verify_run_loop blake3 ed_verify d chain run run (initial_roll blake3 vid d chain) report"

section \<open>The batch\<close>

definition verify_one_device ::
  "(bytes \<Rightarrow> bytes) \<Rightarrow> (bytes \<Rightarrow> bytes \<Rightarrow> bytes \<Rightarrow> bool) \<Rightarrow> chain_state \<Rightarrow>
     bytes \<times> stored_op list \<Rightarrow> verify_report \<Rightarrow> verify_report option" where
  "verify_one_device blake3 ed_verify state dr report =
     (let (dev_bytes, run) = dr;
          device_id = Id dev_bytes
      in case bt_get (cs_devices state) dev_bytes of
           None \<Rightarrow>
             let first_seq = (case run of [] \<Rightarrow> 0 | op # _ \<Rightarrow> seq op);
                 q = \<lparr>q_device_id = device_id, q_seq = first_seq, q_alarm = UnknownDevice\<rparr>
             in Some (report\<lparr>quarantines := quarantines report @ [q],
                             outcomes := outcomes report @ [(device_id, Quarantined q)]\<rparr>)
         | Some chain \<Rightarrow>
             (case verify_device_run blake3 ed_verify (cs_vault_id state) device_id chain run report of
                None \<Rightarrow> None
              | Some (outcome, report) \<Rightarrow>
                  Some (report\<lparr>outcomes := outcomes report @ [(device_id, outcome)]\<rparr>)))"

fun verify_devices ::
  "(bytes \<Rightarrow> bytes) \<Rightarrow> (bytes \<Rightarrow> bytes \<Rightarrow> bytes \<Rightarrow> bool) \<Rightarrow> chain_state \<Rightarrow>
     (bytes \<times> stored_op list) list \<Rightarrow> verify_report \<Rightarrow> verify_report option" where
  "verify_devices blake3 ed_verify state [] report = Some report"
| "verify_devices blake3 ed_verify state (dr # drs) report =
     (case verify_one_device blake3 ed_verify state dr report of None \<Rightarrow> None
      | Some report \<Rightarrow> verify_devices blake3 ed_verify state drs report)"

definition device_runs :: "stored_op list \<Rightarrow> (bytes \<times> stored_op list) list" where
  "device_runs incoming =
     map (\<lambda>(d, run). (d, sort_key seq run))
       (bt_group (\<lambda>op. as_bytes (device_id op)) incoming)"

definition verify_batch ::
  "(bytes \<Rightarrow> bytes) \<Rightarrow> (bytes \<Rightarrow> bytes \<Rightarrow> bytes \<Rightarrow> bool) \<Rightarrow> chain_state \<Rightarrow> stored_op list \<Rightarrow>
     verify_report option" where
  "verify_batch blake3 ed_verify state incoming =
     verify_devices blake3 ed_verify state (device_runs incoming) empty_report"

section \<open>Reports add up\<close>

definition report_add :: "verify_report \<Rightarrow> verify_report \<Rightarrow> verify_report" where
  "report_add r s =
     \<lparr>accepted = accepted r @ accepted s,
      skipped_idempotent = skipped_idempotent r + skipped_idempotent s,
      pending = pending r @ pending s,
      quarantines = quarantines r @ quarantines s,
      outcomes = outcomes r @ outcomes s\<rparr>"

lemma report_add_empty [simp]: "report_add r empty_report = r" "report_add empty_report r = r"
  by (simp_all add: report_add_def empty_report_def)

lemma report_add_assoc: "report_add (report_add r s) t = report_add r (report_add s t)"
  by (simp add: report_add_def add.assoc)

lemma report_add_updates:
  "(report_add r s)\<lparr>accepted := accepted (report_add r s) @ ops\<rparr>
     = report_add r (s\<lparr>accepted := accepted s @ ops\<rparr>)"
  "(report_add r s)\<lparr>skipped_idempotent := Suc (skipped_idempotent (report_add r s))\<rparr>
     = report_add r (s\<lparr>skipped_idempotent := Suc (skipped_idempotent s)\<rparr>)"
  "(report_add r s)\<lparr>pending := pending (report_add r s) @ ops\<rparr>
     = report_add r (s\<lparr>pending := pending s @ ops\<rparr>)"
  "(report_add r s)\<lparr>quarantines := quarantines (report_add r s) @ qs\<rparr>
     = report_add r (s\<lparr>quarantines := quarantines s @ qs\<rparr>)"
  "(report_add r s)\<lparr>outcomes := outcomes (report_add r s) @ os\<rparr>
     = report_add r (s\<lparr>outcomes := outcomes s @ os\<rparr>)"
  by (simp_all add: report_add_def add.assoc)

lemma do_quarantine_add:
  "do_quarantine d s a (report_add r t) = map_prod (\<lambda>x. x) (report_add r) (do_quarantine d s a t)"
  by (simp add: do_quarantine_def Let_def report_add_updates)

lemma verify_run_loop_add:
  "verify_run_loop blake3 ed_verify d chain run ops roll (report_add r s) =
     map_option (map_prod (\<lambda>x. x) (report_add r))
       (verify_run_loop blake3 ed_verify d chain run ops roll s)"
proof (induction ops arbitrary: roll s)
  case Nil
  then show ?case by simp
next
  case (Cons op ops)
  then show ?case
    by (simp add: report_add_updates do_quarantine_add Let_def Cons.IH
        split: option.split sum.split)
qed

lemma verify_one_device_add:
  "verify_one_device blake3 ed_verify state dr (report_add r s) =
     map_option (report_add r) (verify_one_device blake3 ed_verify state dr s)"
  by (simp add: verify_one_device_def verify_device_run_def verify_run_loop_add Let_def
      report_add_updates map_prod_def split: option.split prod.split)
    (simp add: report_add_def)

lemma verify_devices_Some:
  "verify_devices blake3 ed_verify state drs r = Some r' \<longleftrightarrow>
     (\<exists>cs. list_all2 (\<lambda>dr c. verify_one_device blake3 ed_verify state dr empty_report = Some c) drs cs
        \<and> r' = report_add r (foldr report_add cs empty_report))"
proof (induction drs arbitrary: r r')
  case Nil
  then show ?case by auto
next
  case (Cons dr drs)
  have one: "verify_one_device blake3 ed_verify state dr r =
      map_option (report_add r) (verify_one_device blake3 ed_verify state dr empty_report)"
    using verify_one_device_add [of blake3 ed_verify state dr r empty_report] by simp
  show ?case
    by (auto simp: one Cons.IH list_all2_Cons1 report_add_assoc split: option.split)
qed

lemma accepted_report_sum:
  "accepted (foldr report_add cs empty_report) = concat (map accepted cs)"
  by (induction cs) (simp_all add: report_add_def empty_report_def)

lemma quarantines_report_sum:
  "quarantines (foldr report_add cs empty_report) = concat (map quarantines cs)"
  by (induction cs) (simp_all add: report_add_def empty_report_def)

section \<open>What is accepted\<close>

text \<open>A signature that verifies, written out over the primitive.\<close>

definition signature_ok :: "(bytes \<Rightarrow> bytes \<Rightarrow> bytes \<Rightarrow> bool) \<Rightarrow> bytes \<Rightarrow> stored_op \<Rightarrow> bool" where
  "signature_ok ed_verify key op \<longleftrightarrow>
     op_fits op \<and> ed_verify key (op_payload (to_op_fields op)) (signature op)"

lemma verify_op_fields_eq: "verify_op_fields op = to_op_fields op"
  by (simp add: verify_op_fields_def to_op_fields_def)

lemma verify_signature_cases:
  "verify_signature ed_verify key op =
     (if op_fits op
      then Some (if signature_ok ed_verify key op then Inr () else Inl (Vault DecryptionFailed))
      else None)"
  by (simp add: verify_signature_def verify_op_fields_eq op_verify_fits signature_ok_def)

text \<open>
  A chain segment: consecutive seqs from \<open>s\<close>, each op signed, linked to its predecessor's hash
  (the first to \<open>p\<close>) and with a Lamport clock that never falls (from \<open>l\<close>).
\<close>

fun valid_chain ::
  "(bytes \<Rightarrow> bytes) \<Rightarrow> (bytes \<Rightarrow> bytes \<Rightarrow> bytes \<Rightarrow> bool) \<Rightarrow> bytes \<Rightarrow> u64 \<Rightarrow> bytes \<Rightarrow> u64 \<Rightarrow>
     stored_op list \<Rightarrow> bool" where
  "valid_chain blake3 ed_verify key s p l [] \<longleftrightarrow> True"
| "valid_chain blake3 ed_verify key s p l (op # ops) \<longleftrightarrow>
     seq op = s \<and> signature_ok ed_verify key op \<and> prev_hash op = p \<and> l \<le> lamport op \<and>
     valid_chain blake3 ed_verify key (s + 1) (blake3 (op_bytes op)) (lamport op) ops"

definition chain_from_tail ::
  "(bytes \<Rightarrow> bytes) \<Rightarrow> (bytes \<Rightarrow> bytes \<Rightarrow> bytes \<Rightarrow> bool) \<Rightarrow> id \<Rightarrow> id \<Rightarrow> device_chain_state \<Rightarrow>
     stored_op list \<Rightarrow> bool" where
  "chain_from_tail blake3 ed_verify vid d chain ops \<longleftrightarrow>
     valid_chain blake3 ed_verify (verifying_key chain) (last_seq chain + 1)
       (prev_full (initial_roll blake3 vid d chain)) (last_lamport chain) ops"

text \<open>
  An exact re-read: an op whose id is already held has a seq already applied, two ops with one
  id have one seq, and no seq is the last \<open>u64\<close>.
\<close>

definition rereads_exact :: "device_chain_state \<Rightarrow> stored_op list \<Rightarrow> bool" where
  "rereads_exact chain ops \<longleftrightarrow>
     last_seq chain < - 1 \<and>
     (\<forall>op\<in>set ops. seq op < - 1 \<and>
        (as_bytes (op_id op) \<in> set (known_op_ids chain) \<longrightarrow> seq op \<le> last_seq chain) \<and>
        (\<forall>op'\<in>set ops. op_id op' = op_id op \<longrightarrow> seq op' = seq op))"

text \<open>
  What the loop does on any input: it walks along the chain position by position. A step is either
  a checked op, which is new and passes every check, or an unchecked one, whose id is already
  held: the loop skips it (verify.rs:183) yet, when its seq is the next one, goes on from its
  hash and its clock without looking at its signature or its link.
\<close>

fun valid_walk ::
  "(bytes \<Rightarrow> bytes) \<Rightarrow> (bytes \<Rightarrow> bytes \<Rightarrow> bytes \<Rightarrow> bool) \<Rightarrow> bytes \<Rightarrow> bytes set \<Rightarrow> u64 \<Rightarrow> bytes \<Rightarrow>
     u64 \<Rightarrow> (stored_op \<times> bool) list \<Rightarrow> bool" where
  "valid_walk blake3 ed_verify key held s p l [] \<longleftrightarrow> True"
| "valid_walk blake3 ed_verify key held s p l ((op, checked) # steps) \<longleftrightarrow>
     seq op = s \<and>
     (if checked
      then as_bytes (op_id op) \<notin> held \<and> signature_ok ed_verify key op \<and> prev_hash op = p \<and>
        l \<le> lamport op
      else as_bytes (op_id op) \<in> held) \<and>
     valid_walk blake3 ed_verify key (if checked then insert (as_bytes (op_id op)) held else held)
       (s + 1) (blake3 (op_bytes op)) (lamport op) steps"

lemma unat_u64_Suc: "(x :: u64) < - 1 \<Longrightarrow> unat (x + 1) = Suc (unat x)"
proof -
  assume "x < - 1"
  then have "1 + x \<noteq> 0" by (metis add.commute add_eq_0_iff less_irrefl)
  then show ?thesis by (simp add: unatSuc add.commute)
qed

lemma word_le_less_plus_one: "(x :: u64) < - 1 \<Longrightarrow> y \<le> x \<longleftrightarrow> y < x + 1"
  by (simp add: word_less_nat_alt [of y] word_le_nat_alt unat_u64_Suc less_Suc_eq_le)

lemma accepted_do_quarantine [simp]: "accepted (snd (do_quarantine d s a r)) = accepted r"
  by (simp add: do_quarantine_def Let_def)

text \<open>One iteration of the loop, by the way it goes on.\<close>

definition is_known :: "device_chain_state \<Rightarrow> rolling \<Rightarrow> stored_op \<Rightarrow> bool" where
  "is_known chain roll op \<longleftrightarrow> as_bytes (op_id op) \<in> set (known_op_ids chain)
     \<or> as_bytes (op_id op) \<in> set (accepted_op_ids roll)"

definition count_skip :: "verify_report \<Rightarrow> verify_report" where
  "count_skip r = r\<lparr>skipped_idempotent := skipped_idempotent r + 1\<rparr>"

definition roll_skip :: "(bytes \<Rightarrow> bytes) \<Rightarrow> stored_op \<Rightarrow> rolling \<Rightarrow> rolling" where
  "roll_skip blake3 op roll =
     roll\<lparr>expected_seq := expected_seq roll + 1, prev_full := chain_hash blake3 (op_bytes op),
          roll_lamport := lamport op\<rparr>"

definition roll_take :: "(bytes \<Rightarrow> bytes) \<Rightarrow> stored_op \<Rightarrow> rolling \<Rightarrow> rolling" where
  "roll_take blake3 op roll =
     \<lparr>expected_seq = expected_seq roll + 1, prev_full = chain_hash blake3 (op_bytes op),
      roll_lamport = lamport op,
      accepted_op_ids = bs_insert (as_bytes (op_id op)) (accepted_op_ids roll)\<rparr>"

definition may_take ::
  "(bytes \<Rightarrow> bytes \<Rightarrow> bytes \<Rightarrow> bool) \<Rightarrow> device_chain_state \<Rightarrow> rolling \<Rightarrow> stored_op \<Rightarrow> bool" where
  "may_take ed_verify chain roll op \<longleftrightarrow>
     \<not> is_known chain roll op \<and> seq op = expected_seq roll \<and>
     signature_ok ed_verify (verifying_key chain) op \<and> prev_hash op = prev_full roll \<and>
     roll_lamport roll \<le> lamport op"

lemma signature_ok_fits: "signature_ok ed_verify k op \<Longrightarrow> encode_op op = Some (op_bytes op)"
  by (simp add: signature_ok_def encode_op_fits)

lemma verify_run_loop_skip:
  "is_known chain roll op \<Longrightarrow> seq op \<noteq> expected_seq roll \<Longrightarrow>
     verify_run_loop blake3 ed_verify d chain run (op # ops) roll r =
     verify_run_loop blake3 ed_verify d chain run ops roll (count_skip r)"
  by (simp add: is_known_def count_skip_def)

lemma verify_run_loop_take:
  assumes "may_take ed_verify chain roll op"
  shows "verify_run_loop blake3 ed_verify d chain run (op # ops) roll r =
     verify_run_loop blake3 ed_verify d chain run ops (roll_take blake3 op roll)
       (r\<lparr>accepted := accepted r @ [op]\<rparr>)"
proof -
  have "\<not> lamport op < roll_lamport roll" "encode_op op = Some (op_bytes op)" "op_fits op"
    using assms signature_ok_fits [of ed_verify "verifying_key chain" op]
    by (auto simp: may_take_def not_less signature_ok_def)
  with assms show ?thesis
    by (simp add: may_take_def is_known_def verify_signature_cases roll_take_def)
qed

lemma verify_run_loop_ConsE:
  assumes "verify_run_loop blake3 ed_verify d chain run (op # ops) roll r = Some (out, r')"
  obtains
    (skip_adv) "is_known chain roll op" and "seq op = expected_seq roll"
      and "verify_run_loop blake3 ed_verify d chain run ops (roll_skip blake3 op roll) (count_skip r)
        = Some (out, r')"
  | (skip) "is_known chain roll op" and "seq op \<noteq> expected_seq roll"
      and "verify_run_loop blake3 ed_verify d chain run ops roll (count_skip r) = Some (out, r')"
  | (alarm) a where "\<not> is_known chain roll op" and "(out, r') = do_quarantine d (seq op) a r"
  | (gap) "\<not> is_known chain roll op" and "expected_seq roll < seq op"
      and "out = Pending (expected_seq roll)" and "accepted r' = accepted r"
      and "quarantines r' = quarantines r"
  | (take) "may_take ed_verify chain roll op"
      and "verify_run_loop blake3 ed_verify d chain run ops (roll_take blake3 op roll)
        (r\<lparr>accepted := accepted r @ [op]\<rparr>) = Some (out, r')"
proof (cases "is_known chain roll op")
  case True
  then show thesis
  proof (cases "seq op = expected_seq roll")
    case eq: True
    have "verify_run_loop blake3 ed_verify d chain run ops (roll_skip blake3 op roll) (count_skip r)
        = Some (out, r')"
      using assms True eq
      by (simp add: is_known_def encode_op_fits roll_skip_def count_skip_def split: if_split_asm)
    with True eq show thesis by (rule skip_adv)
  next
    case False
    show thesis
      by (rule skip [OF True False]) (rule trans [OF verify_run_loop_skip [OF True False, symmetric] assms])
  qed
next
  case new: False
  then have cond: "\<not> (as_bytes (op_id op) \<in> set (known_op_ids chain)
      \<or> as_bytes (op_id op) \<in> set (accepted_op_ids roll))"
    by (simp add: is_known_def)
  note unfold = assms [unfolded verify_run_loop.simps if_not_P [OF cond] Let_def]
  show thesis
  proof (cases "may_take ed_verify chain roll op")
    case True
    show thesis
      by (rule take [OF True]) (rule trans [OF verify_run_loop_take [OF True, symmetric] assms])
  next
    case no: False
    consider "seq op < expected_seq roll" | "expected_seq roll < seq op" | "seq op = expected_seq roll"
      by (rule linorder_cases)
    then show thesis
    proof cases
      case 1
      with unfold have "(out, r') = do_quarantine d (seq op)
          (if seq op \<le> last_seq chain then SeqRegression else SeqReplay) r" by simp
      with new show thesis by (rule alarm)
    next
      case 2
      then have "\<not> seq op < expected_seq roll" by simp
      with unfold 2 new show thesis by (intro gap) auto
    next
      case 3
      with unfold new no have "\<exists>a. do_quarantine d (seq op) a r = (out, r')"
        by (auto simp: verify_signature_cases may_take_def signature_ok_def not_less
            split: if_split_asm)
      with new show thesis using alarm by metis
    qed
  qed
qed

lemma report_fields [simp]:
  "accepted (count_skip r) = accepted r" "quarantines (count_skip r) = quarantines r"
  by (simp_all add: count_skip_def)

lemma do_quarantine_accepted: "(out, r') = do_quarantine d s a r \<Longrightarrow> accepted r' = accepted r"
  by (simp add: do_quarantine_def Let_def)

text \<open>Whatever the input, an accepted op is one of the run's and its signature verified.\<close>

lemma verify_run_loop_signed:
  assumes "verify_run_loop blake3 ed_verify d chain run ops roll r = Some (out, r')"
  shows "\<exists>acc. accepted r' = accepted r @ acc \<and> set acc \<subseteq> set ops \<and>
    (\<forall>op\<in>set acc. signature_ok ed_verify (verifying_key chain) op)"
  using assms
proof (induction ops arbitrary: roll r)
  case Nil
  then show ?case by simp
next
  case (Cons op ops)
  from Cons.prems show ?case
  proof (cases rule: verify_run_loop_ConsE)
    case skip_adv
    then show ?thesis using Cons.IH [OF skip_adv(3)] by auto
  next
    case skip
    then show ?thesis using Cons.IH [OF skip(3)] by auto
  next
    case take
    obtain acc where "accepted r' = (accepted r @ [op]) @ acc" "set acc \<subseteq> set ops"
      "\<forall>op\<in>set acc. signature_ok ed_verify (verifying_key chain) op"
      using Cons.IH [OF take(2)] by auto
    with take(1) show ?thesis by (intro exI [of _ "op # acc"]) (auto simp: may_take_def)
  qed (auto dest: do_quarantine_accepted)
qed

text \<open>When re-reads are exact, what is accepted is a chain that continues the local tail.\<close>

lemma rereads_exact_Cons:
  "rereads_exact chain (op # ops) \<Longrightarrow> rereads_exact chain ops \<and> seq op < - 1"
  unfolding rereads_exact_def list.set by blast

lemma rereads_exactD:
  assumes "rereads_exact chain ops" and "op \<in> set ops"
  shows "as_bytes (op_id op) \<in> set (known_op_ids chain) \<Longrightarrow> seq op \<le> last_seq chain"
    and "op' \<in> set ops \<Longrightarrow> op_id op' = op_id op \<Longrightarrow> seq op' = seq op"
  using assms unfolding rereads_exact_def by blast+

lemma verify_run_loop_chain:
  assumes "verify_run_loop blake3 ed_verify d chain run ops roll r = Some (out, r')"
    and "rereads_exact chain ops" and "last_seq chain < expected_seq roll"
    and "\<forall>op\<in>set ops. as_bytes (op_id op) \<in> set (accepted_op_ids roll) \<longrightarrow> seq op < expected_seq roll"
  shows "\<exists>acc. accepted r' = accepted r @ acc \<and>
    valid_chain blake3 ed_verify (verifying_key chain) (expected_seq roll) (prev_full roll)
      (roll_lamport roll) acc"
  using assms
proof (induction ops arbitrary: roll r)
  case Nil
  then show ?case by (intro exI [of _ "[]"]) simp
next
  case (Cons op ops)
  have tail: "rereads_exact chain ops" and top: "seq op < - 1"
    using rereads_exact_Cons [OF Cons.prems(2)] by auto
  have known: "seq op < expected_seq roll" if "is_known chain roll op"
    using that [unfolded is_known_def] Cons.prems(4)
      le_less_trans [OF rereads_exactD(1) [OF Cons.prems(2)] Cons.prems(3)] by auto
  from Cons.prems(1) show ?case
  proof (cases rule: verify_run_loop_ConsE)
    case skip_adv
    then show ?thesis using known by simp
  next
    case skip
    from Cons.IH [OF skip(3) tail Cons.prems(3)] Cons.prems(4) show ?thesis by auto
  next
    case (alarm a)
    then show ?thesis by (intro exI [of _ "[]"]) (simp add: do_quarantine_accepted)
  next
    case gap
    then show ?thesis by (intro exI [of _ "[]"]) simp
  next
    case take
    have sq: "seq op = expected_seq roll" using take(1) by (simp add: may_take_def)
    have less: "last_seq chain < expected_seq (roll_take blake3 op roll)"
      using less_imp_le [OF Cons.prems(3)] word_le_less_plus_one [OF top, of "last_seq chain"] sq
      by (simp add: roll_take_def)
    have below: "seq o' < expected_seq (roll_take blake3 op roll)"
      if o': "o' \<in> set ops" "as_bytes (op_id o') \<in> set (accepted_op_ids (roll_take blake3 op roll))"
      for o'
    proof -
      have "seq o' \<le> seq op"
      proof (cases "op_id o' = op_id op")
        case True
        then have "seq o' = seq op"
          using rereads_exactD(2) [OF Cons.prems(2), of op o'] o'(1) by simp
        then show ?thesis by simp
      next
        case False
        then have "as_bytes (op_id o') \<in> set (accepted_op_ids roll)"
          using o'(2) by (simp add: roll_take_def id_eq_iff)
        then have "seq o' < expected_seq roll" using Cons.prems(4) o'(1) by auto
        then show ?thesis using sq by simp
      qed
      then show ?thesis
        using word_le_less_plus_one [OF top, of "seq o'"] sq by (simp add: roll_take_def)
    qed
    obtain acc where "accepted r' = (accepted r @ [op]) @ acc"
      "valid_chain blake3 ed_verify (verifying_key chain) (expected_seq (roll_take blake3 op roll))
        (prev_full (roll_take blake3 op roll)) (roll_lamport (roll_take blake3 op roll)) acc"
      using Cons.IH [OF take(2) tail less] below by auto
    with take(1) show ?thesis
      by (intro exI [of _ "op # acc"]) (simp add: may_take_def roll_take_def chain_hash_def)
  qed
qed

lemma verify_run_loop_walk:
  assumes "verify_run_loop blake3 ed_verify d chain run ops roll r = Some (out, r')"
  shows "\<exists>walk. accepted r' = accepted r @ map fst (filter snd walk) \<and> fst ` set walk \<subseteq> set ops \<and>
    valid_walk blake3 ed_verify (verifying_key chain)
      (set (known_op_ids chain) \<union> set (accepted_op_ids roll)) (expected_seq roll) (prev_full roll)
      (roll_lamport roll) walk"
  using assms
proof (induction ops arbitrary: roll r)
  case Nil
  then show ?case by (intro exI [of _ "[]"]) simp
next
  case (Cons op ops)
  from Cons.prems show ?case
  proof (cases rule: verify_run_loop_ConsE)
    case skip_adv
    from Cons.IH [OF skip_adv(3)] obtain walk where "accepted r' = accepted r @ map fst (filter snd walk)"
      "fst ` set walk \<subseteq> set ops"
      "valid_walk blake3 ed_verify (verifying_key chain)
        (set (known_op_ids chain) \<union> set (accepted_op_ids roll)) (expected_seq roll + 1)
        (blake3 (op_bytes op)) (lamport op) walk"
      by (auto simp: roll_skip_def chain_hash_def)
    with skip_adv show ?thesis
      by (intro exI [of _ "(op, False) # walk"]) (auto simp: is_known_def)
  next
    case skip
    from Cons.IH [OF skip(3)] show ?thesis by auto
  next
    case (alarm a)
    then show ?thesis by (intro exI [of _ "[]"]) (simp add: do_quarantine_accepted)
  next
    case gap
    then show ?thesis by (intro exI [of _ "[]"]) simp
  next
    case take
    from Cons.IH [OF take(2)] obtain walk where
      "accepted r' = (accepted r @ [op]) @ map fst (filter snd walk)"
      "fst ` set walk \<subseteq> set ops"
      "valid_walk blake3 ed_verify (verifying_key chain)
        (insert (as_bytes (op_id op)) (set (known_op_ids chain) \<union> set (accepted_op_ids roll)))
        (expected_seq roll + 1) (blake3 (op_bytes op)) (lamport op) walk"
      by (auto simp: roll_take_def chain_hash_def)
    with take(1) show ?thesis
      by (intro exI [of _ "(op, True) # walk"]) (auto simp: may_take_def is_known_def)
  qed
qed

text \<open>An honest run, delivered in any order and any number of times, is accepted whole.\<close>

lemma unat_lt_max: "unat (x :: u64) + Suc n < 2 ^ 64 \<Longrightarrow> x < - 1"
  by (simp add: word_less_nat_alt unsigned_minus_1_eq_mask mask_eq_exp_minus_1)

lemma valid_chain_seq:
  assumes "valid_chain blake3 ed_verify key s p l ops" and "unat s + length ops < 2 ^ 64"
    and "op \<in> set ops"
  shows "s \<le> seq op \<and> (seq op = s \<longrightarrow> op = hd ops)"
  using assms
proof (induction ops arbitrary: s p l)
  case Nil
  then show ?case by simp
next
  case (Cons o' ops)
  have top: "s < - 1" using Cons.prems(2) by (intro unat_lt_max [of _ "length ops"]) simp
  show ?case
  proof (cases "op = o'")
    case True
    then show ?thesis using Cons.prems(1) by simp
  next
    case False
    then have "s + 1 \<le> seq op"
      using Cons.IH [of "s + 1"] Cons.prems unat_u64_Suc [OF top] by auto
    then have "s < seq op"
      using word_le_less_plus_one [OF top, of s] less_le_trans by blast
    then show ?thesis by auto
  qed
qed

lemma verify_run_loop_complete:
  assumes "valid_chain blake3 ed_verify (verifying_key chain) (expected_seq roll) (prev_full roll)
      (roll_lamport roll) new"
    and "sorted (map seq ops)" and "set new \<subseteq> set ops"
    and "\<forall>op\<in>set ops. op \<in> set new \<or> is_known chain roll op \<and> seq op < expected_seq roll"
    and "\<forall>op\<in>set new. \<not> is_known chain roll op"
    and "distinct (map op_id new)" and "unat (expected_seq roll) + length new < 2 ^ 64"
  shows "\<exists>r'. verify_run_loop blake3 ed_verify d chain run ops roll r = Some (Accepted, r') \<and>
    accepted r' = accepted r @ new \<and> quarantines r' = quarantines r \<and> pending r' = pending r"
  using assms
proof (induction ops arbitrary: roll r new)
  case Nil
  then show ?case by simp
next
  case (Cons op ops)
  show ?case
  proof (cases "op \<in> set new")
    case False
    then have known: "is_known chain roll op" and "seq op < expected_seq roll"
      using Cons.prems(4) by auto
    then have "verify_run_loop blake3 ed_verify d chain run (op # ops) roll r =
        verify_run_loop blake3 ed_verify d chain run ops roll (count_skip r)"
      by (intro verify_run_loop_skip) auto
    with Cons.IH [OF Cons.prems(1), of "count_skip r"] Cons.prems False show ?thesis
      by (auto simp: count_skip_def)
  next
    case True
    then obtain n ns where new: "new = n # ns" by (cases new) auto
    have "n \<in> set (op # ops)" using Cons.prems(3) new by auto
    then have "seq op \<le> seq n" using Cons.prems(2) by auto
    moreover have "seq n = expected_seq roll" using Cons.prems(1) new by simp
    ultimately have op: "op = n"
      using valid_chain_seq [OF Cons.prems(1,7) True] new by auto
    have top: "expected_seq roll < - 1"
      using Cons.prems(7) new by (intro unat_lt_max [of _ "length ns"]) simp
    have up: "x < expected_seq roll + 1" if "x \<le> expected_seq roll" for x
      using that word_le_less_plus_one [OF top] by blast
    have take: "may_take ed_verify chain roll op"
      using Cons.prems(1,5) new op by (simp add: may_take_def)
    let ?roll = "roll_take blake3 op roll"
    have known: "is_known chain ?roll x \<longleftrightarrow> is_known chain roll x \<or> op_id x = op_id op" for x
      by (auto simp: is_known_def roll_take_def id_eq_iff)
    have 1: "valid_chain blake3 ed_verify (verifying_key chain) (expected_seq ?roll)
        (prev_full ?roll) (roll_lamport ?roll) ns"
      using Cons.prems(1) new op by (simp add: roll_take_def chain_hash_def)
    have notin: "op \<notin> set ns" using Cons.prems(6) new op by auto
    have 2: "set ns \<subseteq> set ops" using Cons.prems(3) new notin by auto
    have 3: "\<forall>x\<in>set ops. x \<in> set ns \<or> is_known chain ?roll x \<and> seq x < expected_seq ?roll"
    proof
      fix x
      assume "x \<in> set ops"
      then consider "x = op" | "x \<in> set ns" | "is_known chain roll x" "seq x < expected_seq roll"
        using Cons.prems(4) new op by auto
      then show "x \<in> set ns \<or> is_known chain ?roll x \<and> seq x < expected_seq ?roll"
      proof cases
        case 1
        then have "seq x \<le> expected_seq roll" using take by (simp add: may_take_def)
        with 1 have "seq x < expected_seq ?roll" using up by (simp add: roll_take_def)
        with 1 show ?thesis by (simp add: known)
      next
        case 3
        then have "seq x < expected_seq ?roll" using up [OF less_imp_le] by (simp add: roll_take_def)
        with 3 show ?thesis by (simp add: known)
      qed simp
    qed
    have 4: "\<forall>x\<in>set ns. \<not> is_known chain ?roll x"
    proof
      fix x
      assume x: "x \<in> set ns"
      then have "op_id x \<in> op_id ` set ns" by simp
      then have "op_id x \<noteq> op_id op" using Cons.prems(6) new op by auto
      with x show "\<not> is_known chain ?roll x" using Cons.prems(5) new by (simp add: known)
    qed
    have 5: "unat (expected_seq ?roll) + length ns < 2 ^ 64"
      using Cons.prems(7) new unat_u64_Suc [OF top] by (simp add: roll_take_def)
    have 6: "sorted (map seq ops)" "distinct (map op_id ns)"
      using Cons.prems(2,6) new by simp_all
    obtain r' where
      "verify_run_loop blake3 ed_verify d chain run ops ?roll (r\<lparr>accepted := accepted r @ [op]\<rparr>)
         = Some (Accepted, r')"
      "accepted r' = accepted (r\<lparr>accepted := accepted r @ [op]\<rparr>) @ ns"
      "quarantines r' = quarantines (r\<lparr>accepted := accepted r @ [op]\<rparr>)"
      "pending r' = pending (r\<lparr>accepted := accepted r @ [op]\<rparr>)"
      using Cons.IH [OF 1 6(1) 2 3 4 6(2) 5] by blast
    then show ?thesis
      using verify_run_loop_take [OF take, of blake3 d run ops r] new
      by (intro exI [of _ r']) (simp add: op del: verify_run_loop.simps)
  qed
qed

section \<open>The batch, device by device\<close>

abbreviation dev_key :: "stored_op \<Rightarrow> bytes" where
  "dev_key op \<equiv> as_bytes (device_id op)"

lemma dev_key_eq: "dev_key op = as_bytes d \<longleftrightarrow> device_id op = d"
  by (simp add: id_eq_iff)

lemma device_runs_mem:
  assumes "(k, run) \<in> set (device_runs incoming)"
  shows "run = sort_key seq (filter (\<lambda>op. dev_key op = k) incoming)"
  using assms bt_group_mem(1) [of k _ dev_key incoming] by (auto simp: device_runs_def)

lemma device_runs_keys: "map fst (device_runs incoming) = bt_keys (bt_group dev_key incoming)"
  by (simp add: device_runs_def bt_keys_def comp_def case_prod_unfold)

lemma device_runs_distinct: "distinct (map fst (device_runs incoming))"
  unfolding device_runs_keys bt_keys_def by (rule bt_wf_distinct) simp

lemma device_runs_get:
  "map_of (device_runs incoming) k =
     (if \<exists>op\<in>set incoming. dev_key op = k
      then Some (sort_key seq (filter (\<lambda>op. dev_key op = k) incoming)) else None)"
proof (cases "\<exists>op\<in>set incoming. dev_key op = k")
  case True
  then have "k \<in> fst ` set (device_runs incoming)"
    using bt_group_keys [of dev_key incoming] device_runs_keys [of incoming]
    by (metis (mono_tags, lifting) bt_keys_def image_eqI image_set)
  then obtain run where mem: "(k, run) \<in> set (device_runs incoming)" by auto
  then have "map_of (device_runs incoming) k = Some run"
    by (rule map_of_is_SomeI [OF device_runs_distinct])
  moreover have "run = sort_key seq (filter (\<lambda>op. dev_key op = k) incoming)"
    using mem by (rule device_runs_mem)
  ultimately show ?thesis using True by (simp only: if_True)
next
  case False
  then have "k \<notin> fst ` set (device_runs incoming)"
    using bt_group_keys [of dev_key incoming] device_runs_keys [of incoming]
    by (metis (mono_tags, lifting) bt_keys_def imageE image_set)
  with False show ?thesis by (simp add: map_of_eq_None_iff)
qed

text \<open>What one device's run contributes stays with that device.\<close>

lemma do_quarantine_device:
  "(out, r') = do_quarantine d s a r \<Longrightarrow> \<exists>q. quarantines r' = quarantines r @ [q] \<and> q_device_id q = d"
  by (simp add: do_quarantine_def Let_def)

lemma verify_run_loop_quarantines:
  assumes "verify_run_loop blake3 ed_verify d chain run ops roll r = Some (out, r')"
  shows "\<exists>qs. quarantines r' = quarantines r @ qs \<and> (\<forall>q\<in>set qs. q_device_id q = d)"
  using assms
proof (induction ops arbitrary: roll r)
  case Nil
  then show ?case by simp
next
  case (Cons op ops)
  from Cons.prems show ?case
  proof (cases rule: verify_run_loop_ConsE)
    case skip_adv
    then show ?thesis using Cons.IH [OF skip_adv(3)] by simp
  next
    case skip
    then show ?thesis using Cons.IH [OF skip(3)] by simp
  next
    case (alarm a)
    then show ?thesis using do_quarantine_device [OF alarm(2)] by force
  next
    case take
    then show ?thesis using Cons.IH [OF take(2)] by simp
  qed simp
qed

lemma verify_one_device_local:
  assumes "verify_one_device blake3 ed_verify state (k, run) empty_report = Some c"
  shows "set (accepted c) \<subseteq> set run" and "\<forall>q\<in>set (quarantines c). as_bytes (q_device_id q) = k"
proof -
  have "set (accepted c) \<subseteq> set run \<and> (\<forall>q\<in>set (quarantines c). as_bytes (q_device_id q) = k)"
  proof (cases "bt_get (cs_devices state) k")
    case None
    with assms show ?thesis
      by (auto simp: verify_one_device_def Let_def empty_report_def)
  next
    case (Some chain)
    with assms obtain out r where
      run: "verify_device_run blake3 ed_verify (cs_vault_id state) (Id k) chain run empty_report
        = Some (out, r)" and c: "c = r\<lparr>outcomes := outcomes r @ [(Id k, out)]\<rparr>"
      by (auto simp: verify_one_device_def Let_def split: option.splits)
    show ?thesis
      using verify_run_loop_signed [OF run [unfolded verify_device_run_def]]
        verify_run_loop_quarantines [OF run [unfolded verify_device_run_def]]
      by (auto simp: c empty_report_def)
  qed
  then show "set (accepted c) \<subseteq> set run" and "\<forall>q\<in>set (quarantines c). as_bytes (q_device_id q) = k"
    by auto
qed

definition contribution ::
  "(bytes \<Rightarrow> bytes) \<Rightarrow> (bytes \<Rightarrow> bytes \<Rightarrow> bytes \<Rightarrow> bool) \<Rightarrow> chain_state \<Rightarrow> bytes \<Rightarrow>
     stored_op list \<Rightarrow> verify_report option" where
  "contribution blake3 ed_verify state k incoming =
     (case map_of (device_runs incoming) k of
        None \<Rightarrow> Some empty_report
      | Some run \<Rightarrow> verify_one_device blake3 ed_verify state (k, run) empty_report)"

lemma filter_concat_own:
  assumes "list_all2 (\<lambda>dr c. f dr = Some c) drs cs" and "distinct (map fst drs)"
    and "\<And>k run c. (k, run) \<in> set drs \<Longrightarrow> f (k, run) = Some c \<Longrightarrow> \<forall>x\<in>set (g c). h x = k"
  shows "filter (\<lambda>x. h x = k) (concat (map g cs)) =
     (case map_of drs k of None \<Rightarrow> [] | Some run \<Rightarrow> g (the (f (k, run))))"
  using assms
proof (induction drs cs rule: list_all2_induct)
  case Nil
  then show ?case by simp
next
  case (Cons dr drs c cs)
  obtain k' run where dr: "dr = (k', run)" by (cases dr)
  have own: "\<forall>x\<in>set (g c). h x = k'" using Cons.prems(2) [of k' run c] Cons.hyps(1) dr by simp
  have IH: "filter (\<lambda>x. h x = k) (concat (map g cs)) =
      (case map_of drs k of None \<Rightarrow> [] | Some run \<Rightarrow> g (the (f (k, run))))"
    using Cons.prems by (intro Cons.IH) auto
  show ?case
  proof (cases "k = k'")
    case True
    then have "map_of drs k = None"
      using Cons.prems(1) dr by (simp add: map_of_eq_None_iff)
    with True own IH Cons.hyps(1) dr show ?thesis by (simp add: filter_id_conv)
  next
    case False
    then have "filter (\<lambda>x. h x = k) (g c) = []" using own by (auto simp: filter_empty_conv)
    with False IH dr show ?thesis by simp
  qed
qed

lemma verify_batch_contribution:
  assumes "verify_batch blake3 ed_verify state incoming = Some r"
  obtains c where "contribution blake3 ed_verify state k incoming = Some c"
    and "filter (\<lambda>op. dev_key op = k) (accepted r) = accepted c"
    and "filter (\<lambda>q. as_bytes (q_device_id q) = k) (quarantines r) = quarantines c"
proof -
  let ?f = "\<lambda>dr. verify_one_device blake3 ed_verify state dr empty_report"
  obtain cs where cs: "list_all2 (\<lambda>dr c. ?f dr = Some c) (device_runs incoming) cs"
    and r: "r = foldr report_add cs empty_report"
    using assms by (auto simp: verify_batch_def verify_devices_Some)
  have acc: "filter (\<lambda>op. dev_key op = k) (accepted r) =
      (case map_of (device_runs incoming) k of None \<Rightarrow> [] | Some run \<Rightarrow> accepted (the (?f (k, run))))"
    unfolding r accepted_report_sum
    by (rule filter_concat_own [OF cs device_runs_distinct])
      (use verify_one_device_local(1) device_runs_mem in fastforce)
  have qs: "filter (\<lambda>q. as_bytes (q_device_id q) = k) (quarantines r) =
      (case map_of (device_runs incoming) k of None \<Rightarrow> [] | Some run \<Rightarrow> quarantines (the (?f (k, run))))"
    unfolding r quarantines_report_sum
    by (rule filter_concat_own [OF cs device_runs_distinct]) (rule verify_one_device_local(2))
  show thesis
  proof (cases "map_of (device_runs incoming) k")
    case None
    show thesis
      by (rule that [of empty_report]) (use None acc qs in \<open>simp_all add: contribution_def empty_report_def\<close>)
  next
    case (Some run)
    then have "(k, run) \<in> set (device_runs incoming)" by (rule map_of_SomeD)
    then obtain c where "?f (k, run) = Some c"
      using cs by (auto simp: list_all2_conv_all_nth in_set_conv_nth)
    then show thesis
      by (intro that [of c]) (use Some acc qs in \<open>simp_all add: contribution_def\<close>)
  qed
qed

lemma contribution_run:
  assumes "contribution blake3 ed_verify state k incoming = Some c"
    and "bt_get (cs_devices state) k = Some chain" and "\<exists>op\<in>set incoming. dev_key op = k"
  obtains out r where
    "verify_run_loop blake3 ed_verify (Id k) chain (sort_key seq (filter (\<lambda>op. dev_key op = k) incoming))
       (sort_key seq (filter (\<lambda>op. dev_key op = k) incoming))
       (initial_roll blake3 (cs_vault_id state) (Id k) chain) empty_report = Some (out, r)"
    and "c = r\<lparr>outcomes := outcomes r @ [(Id k, out)]\<rparr>"
proof -
  have run: "map_of (device_runs incoming) k =
      Some (sort_key seq (filter (\<lambda>op. dev_key op = k) incoming))"
    using assms(3) by (simp only: device_runs_get if_True)
  let ?run = "sort_key seq (filter (\<lambda>op. dev_key op = k) incoming)"
  let ?loop = "verify_run_loop blake3 ed_verify (Id k) chain ?run ?run
     (initial_roll blake3 (cs_vault_id state) (Id k) chain) empty_report"
  have eq: "(case ?loop of None \<Rightarrow> None
      | Some (outcome, report) \<Rightarrow> Some (report\<lparr>outcomes := outcomes report @ [(Id k, outcome)]\<rparr>)) = Some c"
    using assms(1)
    unfolding contribution_def run option.case verify_one_device_def Let_def prod.case assms(2)
      verify_device_run_def .
  show thesis
  proof (cases ?loop)
    case None
    with eq show thesis by (simp only: option.case option.distinct)
  next
    case (Some p)
    obtain out r where p: "p = (out, r)" by (rule prod.exhaust)
    from eq have "c = r\<lparr>outcomes := outcomes r @ [(Id k, out)]\<rparr>"
      by (simp only: Some p option.case prod.case option.inject)
    with Some show thesis unfolding p by (rule that)
  qed
qed

lemma contribution_none:
  "\<not> (\<exists>op\<in>set incoming. dev_key op = k) \<Longrightarrow>
     contribution blake3 ed_verify state k incoming = Some empty_report"
  by (simp only: contribution_def device_runs_get if_False option.case)

lemma ex_filter_conv: "(\<exists>x\<in>set xs. P x) \<longleftrightarrow> filter P xs \<noteq> []"
  by (simp add: filter_empty_conv)

lemma contribution_cong:
  "filter (\<lambda>op. dev_key op = k) incoming = filter (\<lambda>op. dev_key op = k) incoming' \<Longrightarrow>
     contribution blake3 ed_verify state k incoming = contribution blake3 ed_verify state k incoming'"
  by (simp only: contribution_def device_runs_get ex_filter_conv)

lemma rereads_exact_mono: "rereads_exact chain ops \<Longrightarrow> set ops' \<subseteq> set ops \<Longrightarrow> rereads_exact chain ops'"
  unfolding rereads_exact_def by blast

lemma initial_roll_sel [simp]:
  "expected_seq (initial_roll blake3 vid d chain) = last_seq chain + 1"
  "roll_lamport (initial_roll blake3 vid d chain) = last_lamport chain"
  "accepted_op_ids (initial_roll blake3 vid d chain) = []"
  by (simp_all add: initial_roll_def)

lemma empty_report_sel [simp]:
  "accepted empty_report = []" "quarantines empty_report = []" "pending empty_report = []"
  "outcomes empty_report = []" "skipped_idempotent empty_report = 0"
  by (simp_all add: empty_report_def)

text \<open>An untrusted device contributes its refusal only.\<close>

lemma contribution_untrusted:
  "bt_get (cs_devices state) k = None \<Longrightarrow> contribution blake3 ed_verify state k incoming = Some c \<Longrightarrow>
     accepted c = []"
  by (auto simp: contribution_def verify_one_device_def Let_def split: option.splits)

lemma verify_batch_mem:
  assumes "verify_batch blake3 ed_verify state incoming = Some r" and "op \<in> set (accepted r)"
  obtains c where "contribution blake3 ed_verify state (dev_key op) incoming = Some c"
    and "op \<in> set (accepted c)"
proof -
  obtain c where c: "contribution blake3 ed_verify state (dev_key op) incoming = Some c"
    and "filter (\<lambda>o'. dev_key o' = dev_key op) (accepted r) = accepted c"
    by (rule verify_batch_contribution [OF assms(1)])
  moreover have "op \<in> set (filter (\<lambda>o'. dev_key o' = dev_key op) (accepted r))"
    using assms(2) by simp
  ultimately have "op \<in> set (accepted c)" by simp
  with c show thesis by (rule that)
qed

section \<open>One head, one history\<close>

lemma valid_chain_snoc:
  "valid_chain blake3 ed_verify key s p l (xs @ [x]) \<Longrightarrow>
     valid_chain blake3 ed_verify key s p l xs \<and>
     prev_hash x = (if xs = [] then p else blake3 (op_bytes (last xs)))"
  by (induction xs arbitrary: s p l) auto

lemma slice_append: "length a = n \<Longrightarrow> length b = m \<Longrightarrow> take m (drop n (a @ b @ c)) = b"
  by simp

lemma op_bytes_prev_hash: "op_wf op \<Longrightarrow> take 32 (drop 57 (op_bytes op)) = prev_hash op"
proof -
  assume wf: "op_wf op"
  let ?a = "[op_wire_version] @ as_bytes (op_id op) @ as_bytes (vault_id op) @ as_bytes (device_id op)
     @ u64_to_le (seq op)"
  obtain rest where eq: "op_bytes op = ?a @ prev_hash op @ rest"
    unfolding op_bytes_split append_assoc by (erule meta_allE, erule meta_impE, rule refl)
  have len: "length ?a = 57" "length (prev_hash op) = 32"
    using wf by (simp_all add: op_wf_def id_wf_def)
  show ?thesis unfolding eq by (rule slice_append [OF len])
qed

lemma valid_chain_same_head:
  assumes "valid_chain blake3 ed_verify key s p l xs" and "valid_chain blake3 ed_verify key s p l ys"
    and "length xs = length ys" and "xs \<noteq> [] \<longrightarrow> blake3 (op_bytes (last xs)) = blake3 (op_bytes (last ys))"
    and "\<forall>op\<in>set xs \<union> set ys. op_wf op" and inj: "inj_on blake3 (op_bytes ` (set xs \<union> set ys))"
  shows "map op_bytes xs = map op_bytes ys"
  using assms
proof (induction xs arbitrary: ys rule: rev_induct)
  case Nil
  then show ?case by simp
next
  case (snoc x xs)
  obtain ys' y where ys: "ys = ys' @ [y]"
    using snoc.prems(3) by (cases ys rule: rev_cases) auto
  have vx: "valid_chain blake3 ed_verify key s p l xs"
    and px: "prev_hash x = (if xs = [] then p else blake3 (op_bytes (last xs)))"
    using valid_chain_snoc [OF snoc.prems(1)] by auto
  have vy: "valid_chain blake3 ed_verify key s p l ys'"
    and py: "prev_hash y = (if ys' = [] then p else blake3 (op_bytes (last ys')))"
    using valid_chain_snoc [OF snoc.prems(2) [unfolded ys]] by auto
  have len: "length xs = length ys'" using snoc.prems(3) ys by simp
  have eq: "op_bytes x = op_bytes y"
  proof (rule inj_onD [OF snoc.prems(6)])
    show "blake3 (op_bytes x) = blake3 (op_bytes y)"
      using snoc.prems(4) unfolding ys last_snoc by blast
  qed (simp_all add: ys)
  have wf: "op_wf x" "op_wf y" using snoc.prems(5) ys by simp_all
  have "prev_hash x = prev_hash y"
    using op_bytes_prev_hash [OF wf(1)] op_bytes_prev_hash [OF wf(2)] unfolding eq by (rule trans [OF sym])
  then have "xs \<noteq> [] \<longrightarrow> blake3 (op_bytes (last xs)) = blake3 (op_bytes (last ys'))"
    using px py len by auto
  moreover have "inj_on blake3 (op_bytes ` (set xs \<union> set ys'))"
    by (rule inj_on_subset [OF snoc.prems(6)]) (auto simp: ys)
  ultimately have "map op_bytes xs = map op_bytes ys'"
    using snoc.prems(5) ys by (intro snoc.IH [OF vx vy len]) auto
  with eq ys show ?case by simp
qed

section \<open>A concrete batch\<close>

text \<open>A two-op chain, with a digest and a signature scheme that compute.\<close>

definition toy_hash :: "bytes \<Rightarrow> bytes" where
  "toy_hash bs = take 32 bs"

definition toy_verify :: "bytes \<Rightarrow> bytes \<Rightarrow> bytes \<Rightarrow> bool" where
  "toy_verify key msg sig \<longleftrightarrow> sig = key"

definition toy_id :: "byte \<Rightarrow> id" where
  "toy_id b = Id (replicate 16 b)"

definition toy_op :: "byte \<Rightarrow> u64 \<Rightarrow> bytes \<Rightarrow> stored_op" where
  "toy_op i s prev = \<lparr>op_id = toy_id i, vault_id = toy_id 1, device_id = toy_id 2, seq = s,
     prev_hash = prev, lamport = s, op_kind = Create, target_item = Some (toy_id 9),
     target_version = 1, payload_env = [7], observed = oh_new, signature = replicate 64 5,
     created_at = 0\<rparr>"

definition toy_chain :: device_chain_state where
  "toy_chain = \<lparr>verifying_key = replicate 64 5, last_seq = 0, last_op_full_bytes = None,
     last_lamport = 0, known_op_ids = []\<rparr>"

definition toy_state :: chain_state where
  "toy_state = \<lparr>cs_vault_id = toy_id 1, cs_devices = [(as_bytes (toy_id 2), toy_chain)]\<rparr>"

definition toy_op1 :: stored_op where
  "toy_op1 = toy_op 11 1 (genesis_hash toy_hash (toy_id 1) (toy_id 2))"

definition toy_op2 :: stored_op where
  "toy_op2 = toy_op 12 2 (toy_hash (op_bytes toy_op1))"

definition toy_report :: verify_report where
  "toy_report = \<lparr>accepted = [toy_op1, toy_op2], skipped_idempotent = 0, pending = [],
     quarantines = [], outcomes = [(toy_id 2, Accepted)]\<rparr>"

lemma toy_op_sel [simp]:
  "op_id (toy_op i s p) = toy_id i" "device_id (toy_op i s p) = toy_id 2"
  "vault_id (toy_op i s p) = toy_id 1" "seq (toy_op i s p) = s" "prev_hash (toy_op i s p) = p"
  "lamport (toy_op i s p) = s" "signature (toy_op i s p) = replicate 64 5"
  "observed (toy_op i s p) = oh_new" "payload_env (toy_op i s p) = [7]"
  "target_item (toy_op i s p) = Some (toy_id 9)" "created_at (toy_op i s p) = 0"
  by (simp_all add: toy_op_def)

lemma toy_op_fits [simp]: "op_fits (toy_op i s p)"
  by (simp add: op_fits_def oh_fits_def oh_new_def)

lemma toy_signed [simp]: "signature_ok toy_verify (replicate 64 5) (toy_op i s p)"
  by (simp add: signature_ok_def toy_verify_def)

lemma toy_id_eq [simp]: "toy_id a = toy_id b \<longleftrightarrow> a = b"
  by (simp add: toy_id_def)

lemma toy_id_bytes [simp]: "as_bytes (toy_id a) = as_bytes (toy_id b) \<longleftrightarrow> a = b"
  by (simp add: toy_id_def)

lemma toy_ids_differ: "(11 :: byte) \<noteq> 12"
  by simp

lemma toy_order [simp]:
  "\<not> (2 :: u64) \<le> 1" "(1 :: u64) < 2" "\<not> (2 :: u64) < 1" "(1 :: u64) \<le> 2"
  by (simp_all add: word_le_nat_alt word_less_nat_alt)

lemma toy_device_runs:
  "device_runs [toy_op2, toy_op1] = [(as_bytes (toy_id 2), [toy_op1, toy_op2])]"
  by (simp add: device_runs_def toy_op1_def toy_op2_def bt_group_def bt_push_def bt_entry_def)

lemma toy_device_runs_swap:
  "device_runs [toy_op1, toy_op2] = [(as_bytes (toy_id 2), [toy_op1, toy_op2])]"
  by (simp add: device_runs_def toy_op1_def toy_op2_def bt_group_def bt_push_def bt_entry_def)

lemma toy_state_get: "bt_get (cs_devices toy_state) (as_bytes (toy_id 2)) = Some toy_chain"
  by (simp add: toy_state_def)

lemma toy_initial: "initial_roll toy_hash (toy_id 1) (toy_id 2) toy_chain =
    \<lparr>expected_seq = 1, prev_full = genesis_hash toy_hash (toy_id 1) (toy_id 2), roll_lamport = 0,
      accepted_op_ids = []\<rparr>"
  by (simp add: initial_roll_def toy_chain_def)

lemma toy_run:
  "verify_device_run toy_hash toy_verify (toy_id 1) (toy_id 2) toy_chain [toy_op1, toy_op2] empty_report
     = Some (Accepted, empty_report\<lparr>accepted := [toy_op1, toy_op2]\<rparr>)"
  unfolding verify_device_run_def toy_initial
  by (simp add: toy_op1_def toy_op2_def toy_chain_def verify_signature_cases encode_op_fits
      chain_hash_def bs_insert_def insort_insert_key_def empty_report_def)

lemma toy_batch:
  "verify_batch toy_hash toy_verify toy_state [toy_op2, toy_op1] = Some toy_report"
proof -
  have vid: "cs_vault_id toy_state = toy_id 1" by (simp add: toy_state_def)
  have d: "Id (as_bytes (toy_id 2)) = toy_id 2" by simp
  show ?thesis
    unfolding verify_batch_def toy_device_runs verify_devices.simps verify_one_device_def Let_def
      prod.case toy_state_get option.case vid d toy_run
    by (simp add: toy_report_def empty_report_def)
qed

lemma toy_batch_swap:
  "verify_batch toy_hash toy_verify toy_state [toy_op1, toy_op2] = Some toy_report"
  using toy_batch by (simp only: verify_batch_def toy_device_runs toy_device_runs_swap)

lemma op_bytes_id: "op_wf op \<Longrightarrow> take 16 (drop 1 (op_bytes op)) = as_bytes (op_id op)"
  by (simp add: op_bytes_split op_wf_def id_wf_def)

lemma toy_wf [simp]: "op_wf toy_op1" "op_wf toy_op2"
proof -
  have "op_wf (toy_op i s p)" if "length p = 32" for i s p
    using that by (simp add: op_wf_def toy_op_def toy_id_def oh_wf_def oh_new_def)
  moreover have "length (toy_hash (op_bytes toy_op1)) = 32"
    by (simp add: toy_hash_def op_bytes_split toy_op1_def toy_id_def)
  moreover have "length (genesis_hash toy_hash (toy_id 1) (toy_id 2)) = 32"
    by (simp add: toy_hash_def genesis_hash_def toy_id_def chain_genesis_label_def)
  ultimately show "op_wf toy_op1" "op_wf toy_op2"
    unfolding toy_op1_def toy_op2_def by blast+
qed

lemma toy_inj: "inj_on toy_hash (op_bytes ` {toy_op1, toy_op2})"
proof -
  have "take 16 (drop 1 (toy_hash (op_bytes op))) = as_bytes (op_id op)" if "op_wf op" for op
    using op_bytes_id [OF that] by (simp add: toy_hash_def drop_take)
  then have "toy_hash (op_bytes toy_op1) \<noteq> toy_hash (op_bytes toy_op2)"
    using toy_wf by (metis toy_id_bytes toy_op_sel(1) toy_op1_def toy_op2_def toy_ids_differ)
  then show ?thesis by (auto simp: inj_on_def)
qed

text \<open>The same batch beside an op of a device that is not trusted.\<close>

definition toy_alien :: stored_op where
  "toy_alien = (toy_op 13 1 [])\<lparr>device_id := toy_id 3\<rparr>"

definition toy_report' :: verify_report where
  "toy_report' = (let q = \<lparr>q_device_id = toy_id 3, q_seq = 1, q_alarm = UnknownDevice\<rparr>
     in \<lparr>accepted = [toy_op1, toy_op2], skipped_idempotent = 0, pending = [],
         quarantines = [q], outcomes = [(toy_id 2, Accepted), (toy_id 3, Quarantined q)]\<rparr>)"

lemma toy_id_less [simp]:
  "as_bytes (toy_id 2) < as_bytes (toy_id 3)" "\<not> as_bytes (toy_id 3) < as_bytes (toy_id 2)"
  by code_simp+

lemma toy_device_runs_alien:
  "device_runs [toy_alien, toy_op2, toy_op1] =
     [(as_bytes (toy_id 2), [toy_op1, toy_op2]), (as_bytes (toy_id 3), [toy_alien])]"
  by (simp add: device_runs_def toy_op1_def toy_op2_def toy_alien_def bt_group_def bt_push_def
      bt_entry_def)

lemma toy_state_alien: "bt_get (cs_devices toy_state) (as_bytes (toy_id 3)) = None"
  by (simp add: toy_state_def)

lemma toy_batch_alien:
  "verify_batch toy_hash toy_verify toy_state [toy_alien, toy_op2, toy_op1] = Some toy_report'"
proof -
  have vid: "cs_vault_id toy_state = toy_id 1" by (simp add: toy_state_def)
  have d: "Id (as_bytes i) = i" for i by simp
  have s: "seq toy_alien = 1" by (simp add: toy_alien_def)
  show ?thesis
    unfolding verify_batch_def toy_device_runs_alien verify_devices.simps verify_one_device_def Let_def
      prod.case toy_state_get toy_state_alien option.case vid d toy_run list.case s
    by (simp add: toy_report'_def empty_report_def Let_def)
qed

lemma toy_report_sel: "accepted toy_report = [toy_op1, toy_op2]"
  by (simp add: toy_report_def)

lemma toy_chain_valid:
  "chain_from_tail toy_hash toy_verify (toy_id 1) (toy_id 2) toy_chain [toy_op1, toy_op2]"
  unfolding chain_from_tail_def toy_initial
  by (simp add: toy_chain_def toy_op1_def toy_op2_def)

lemma toy_top [simp]: "(0 :: u64) < - 1" "(1 :: u64) < - 1" "(2 :: u64) < - 1"
  by code_simp+

lemma toy_rereads: "rereads_exact toy_chain [toy_op2, toy_op1]"
  by (simp add: rereads_exact_def toy_chain_def toy_op1_def toy_op2_def)

lemma toy_rereads_swap: "rereads_exact toy_chain [toy_op1, toy_op2]"
  by (rule rereads_exact_mono [OF toy_rereads]) auto

lemma toy_vault: "cs_vault_id toy_state = toy_id 1"
  by (simp add: toy_state_def)

lemma toy_devices: "device_id toy_op1 = toy_id 2" "device_id toy_op2 = toy_id 2"
  by (simp_all add: toy_op1_def toy_op2_def)

lemma batch_signed:
  assumes "verify_batch blake3 ed_verify state incoming = Some r" and "op \<in> set (accepted r)"
  shows "op \<in> set incoming \<and>
    (\<exists>chain. bt_get (cs_devices state) (as_bytes (device_id op)) = Some chain \<and>
       signature_ok ed_verify (verifying_key chain) op)"
proof -
  obtain c where c: "contribution blake3 ed_verify state (dev_key op) incoming = Some c"
    and acc: "op \<in> set (accepted c)"
    by (rule verify_batch_mem [OF assms])
  from acc obtain chain where chain: "bt_get (cs_devices state) (dev_key op) = Some chain"
    using contribution_untrusted [OF _ c] by force
  have ex: "\<exists>o'\<in>set incoming. dev_key o' = dev_key op"
    using c acc contribution_none [of incoming "dev_key op" blake3 ed_verify state] by force
  obtain out r1 where run: "verify_run_loop blake3 ed_verify (Id (dev_key op)) chain
       (sort_key seq (filter (\<lambda>o'. dev_key o' = dev_key op) incoming))
       (sort_key seq (filter (\<lambda>o'. dev_key o' = dev_key op) incoming))
       (initial_roll blake3 (cs_vault_id state) (Id (dev_key op)) chain) empty_report = Some (out, r1)"
    and "c = r1\<lparr>outcomes := outcomes r1 @ [(Id (dev_key op), out)]\<rparr>"
    by (rule contribution_run [OF c chain ex])
  with verify_run_loop_signed [OF run] acc chain show ?thesis by auto
qed

lemma batch_subset:
  "verify_batch blake3 ed_verify state incoming = Some r \<Longrightarrow> set (accepted r) \<subseteq> set incoming"
  using batch_signed by blast

lemma batch_chain:
  assumes "verify_batch blake3 ed_verify state incoming = Some r"
    and "bt_get (cs_devices state) (as_bytes d) = Some chain"
    and "rereads_exact chain (filter (\<lambda>op. device_id op = d) incoming)"
  shows "chain_from_tail blake3 ed_verify (cs_vault_id state) d chain
    (filter (\<lambda>op. device_id op = d) (accepted r))"
proof -
  let ?run = "sort_key seq (filter (\<lambda>op. dev_key op = as_bytes d) incoming)"
  obtain c where c: "contribution blake3 ed_verify state (as_bytes d) incoming = Some c"
    and acc: "filter (\<lambda>op. dev_key op = as_bytes d) (accepted r) = accepted c"
    by (rule verify_batch_contribution [OF assms(1)])
  show ?thesis
  proof (cases "\<exists>op\<in>set incoming. dev_key op = as_bytes d")
    case False
    then have "accepted c = []" using c contribution_none by fastforce
    with acc show ?thesis by (simp add: dev_key_eq chain_from_tail_def)
  next
    case True
    obtain out r1 where run: "verify_run_loop blake3 ed_verify (Id (as_bytes d)) chain ?run ?run
         (initial_roll blake3 (cs_vault_id state) (Id (as_bytes d)) chain) empty_report = Some (out, r1)"
      and cr: "c = r1\<lparr>outcomes := outcomes r1 @ [(Id (as_bytes d), out)]\<rparr>"
      by (rule contribution_run [OF c assms(2) True])
    have ex: "rereads_exact chain ?run"
      using assms(3) by (rule rereads_exact_mono) (simp add: dev_key_eq)
    have "last_seq chain < last_seq chain + 1"
      using assms(3) word_le_less_plus_one [of "last_seq chain" "last_seq chain"]
      by (simp add: rereads_exact_def)
    with verify_run_loop_chain [OF run ex] acc cr show ?thesis
      by (simp add: chain_from_tail_def dev_key_eq)
  qed
qed

lemma batch_walk:
  assumes "verify_batch blake3 ed_verify state incoming = Some r"
    and "bt_get (cs_devices state) (as_bytes d) = Some chain"
  shows "\<exists>walk. map fst (filter snd walk) = filter (\<lambda>op. device_id op = d) (accepted r) \<and>
    fst ` set walk \<subseteq> {op \<in> set incoming. device_id op = d} \<and>
    valid_walk blake3 ed_verify (verifying_key chain) (set (known_op_ids chain)) (last_seq chain + 1)
      (prev_full (initial_roll blake3 (cs_vault_id state) d chain)) (last_lamport chain) walk"
proof -
  let ?run = "sort_key seq (filter (\<lambda>op. dev_key op = as_bytes d) incoming)"
  obtain c where c: "contribution blake3 ed_verify state (as_bytes d) incoming = Some c"
    and acc: "filter (\<lambda>op. dev_key op = as_bytes d) (accepted r) = accepted c"
    by (rule verify_batch_contribution [OF assms(1)])
  show ?thesis
  proof (cases "\<exists>op\<in>set incoming. dev_key op = as_bytes d")
    case False
    then have "accepted c = []" using c contribution_none by fastforce
    with acc show ?thesis by (intro exI [of _ "[]"]) (simp add: dev_key_eq)
  next
    case True
    obtain out r1 where run: "verify_run_loop blake3 ed_verify (Id (as_bytes d)) chain ?run ?run
         (initial_roll blake3 (cs_vault_id state) (Id (as_bytes d)) chain) empty_report = Some (out, r1)"
      and cr: "c = r1\<lparr>outcomes := outcomes r1 @ [(Id (as_bytes d), out)]\<rparr>"
      by (rule contribution_run [OF c assms(2) True])
    from verify_run_loop_walk [OF run] acc cr show ?thesis by (auto simp: dev_key_eq)
  qed
qed

section \<open>Properties\<close>

text \<open>
  Whatever a channel delivers, every op the verifier accepts was in the batch, comes
  from a device with a pinned key, and its Ed25519 signature verified under that key over its
  canonical signed region.
\<close>

theorem verify_batch_signed:
  assumes "verify_batch blake3 ed_verify state incoming = Some r" and "op \<in> set (accepted r)"
  shows "op \<in> set incoming \<and>
    (\<exists>chain. bt_get (cs_devices state) (as_bytes (device_id op)) = Some chain \<and>
       signature_ok ed_verify (verifying_key chain) op)"
  by (rule batch_signed [OF assms])

lemma verify_batch_signed_witness:
  "toy_op1 \<in> set [toy_op2, toy_op1] \<and>
    (\<exists>chain. bt_get (cs_devices toy_state) (as_bytes (device_id toy_op1)) = Some chain \<and>
       signature_ok toy_verify (verifying_key chain) toy_op1)"
  by (rule verify_batch_signed [OF toy_batch]) (simp add: toy_report_def)

text \<open>
  Claim C9. For a trusted device, on any batch whatever: the ops the verifier takes from it, in
  the order taken, lie on one walk along the device's chain that starts right behind the local
  tail. Every op taken is new, stands at the seq its position asks for, is signed by the device's
  pinned key, names the hash of the op before it on the walk as its \<open>prev_hash\<close> (for the first:
  the local tail or the genesis hash) and never lowers the Lamport clock. The only other ops on
  the walk are ops of the batch whose id is already held, which the verifier steps over without
  checking them. If the batch re-reads held ops exactly (a held id comes with an applied seq, two
  ops of one id have one seq, no seq is the last \<open>u64\<close>) there are no such steps: the ops taken
  are themselves a chain that continues the local tail.
\<close>

theorem verify_batch_chain:
  assumes "verify_batch blake3 ed_verify state incoming = Some r"
    and "bt_get (cs_devices state) (as_bytes d) = Some chain"
  shows "(\<exists>walk. map fst (filter snd walk) = filter (\<lambda>op. device_id op = d) (accepted r) \<and>
      fst ` set walk \<subseteq> {op \<in> set incoming. device_id op = d} \<and>
      valid_walk blake3 ed_verify (verifying_key chain) (set (known_op_ids chain))
        (last_seq chain + 1) (prev_full (initial_roll blake3 (cs_vault_id state) d chain))
        (last_lamport chain) walk) \<and>
    (rereads_exact chain (filter (\<lambda>op. device_id op = d) incoming) \<longrightarrow>
      chain_from_tail blake3 ed_verify (cs_vault_id state) d chain
        (filter (\<lambda>op. device_id op = d) (accepted r)))"
  using batch_walk [OF assms] batch_chain [OF assms] by blast

lemma verify_batch_chain_witness:
  "chain_from_tail toy_hash toy_verify (cs_vault_id toy_state) (toy_id 2) toy_chain
    (filter (\<lambda>op. device_id op = toy_id 2) (accepted toy_report))"
  by (rule verify_batch_chain [OF toy_batch toy_state_get, THEN conjunct2, THEN mp])
    (simp add: toy_devices toy_rereads)

text \<open>
  Claim C10. An honest device is never held up: if the ops it delivers are exactly a chain that
  continues the local tail, plus re-reads of applied ops, in any order and with any repetitions,
  then the whole chain is accepted and the device raises no alarm.
\<close>

theorem verify_batch_complete:
  assumes "verify_batch blake3 ed_verify state incoming = Some r"
    and "bt_get (cs_devices state) (as_bytes d) = Some chain"
    and "chain_from_tail blake3 ed_verify (cs_vault_id state) d chain new"
    and "set new \<subseteq> {op \<in> set incoming. device_id op = d}"
    and "\<forall>op\<in>set incoming. device_id op = d \<longrightarrow> op \<in> set new \<or>
      as_bytes (op_id op) \<in> set (known_op_ids chain) \<and> seq op \<le> last_seq chain"
    and "\<forall>op\<in>set new. as_bytes (op_id op) \<notin> set (known_op_ids chain)"
    and "distinct (map op_id new)"
    and "unat (last_seq chain) + 1 + length new < 2 ^ 64"
  shows "filter (\<lambda>op. device_id op = d) (accepted r) = new \<and>
    filter (\<lambda>q. q_device_id q = d) (quarantines r) = []"
proof -
  let ?run = "sort_key seq (filter (\<lambda>op. dev_key op = as_bytes d) incoming)"
  let ?roll = "initial_roll blake3 (cs_vault_id state) (Id (as_bytes d)) chain"
  obtain c where c: "contribution blake3 ed_verify state (as_bytes d) incoming = Some c"
    and acc: "filter (\<lambda>op. dev_key op = as_bytes d) (accepted r) = accepted c"
    and qs: "filter (\<lambda>q. as_bytes (q_device_id q) = as_bytes d) (quarantines r) = quarantines c"
    by (rule verify_batch_contribution [OF assms(1)])
  have qd: "as_bytes (q_device_id q) = as_bytes d \<longleftrightarrow> q_device_id q = d" for q
    by (simp add: id_eq_iff)
  show ?thesis
  proof (cases "\<exists>op\<in>set incoming. dev_key op = as_bytes d")
    case False
    then have "new = []" using assms(4) by (cases new) (auto simp: dev_key_eq)
    moreover have "c = empty_report" using False c contribution_none by fastforce
    ultimately show ?thesis using acc qs by (simp add: dev_key_eq qd)
  next
    case True
    obtain out r1 where run: "verify_run_loop blake3 ed_verify (Id (as_bytes d)) chain ?run ?run ?roll
        empty_report = Some (out, r1)"
      and cr: "c = r1\<lparr>outcomes := outcomes r1 @ [(Id (as_bytes d), out)]\<rparr>"
      by (rule contribution_run [OF c assms(2) True])
    have top: "last_seq chain < - 1"
      using assms(8) by (intro unat_lt_max [of _ "length new"]) simp
    have vc: "valid_chain blake3 ed_verify (verifying_key chain) (expected_seq ?roll) (prev_full ?roll)
        (roll_lamport ?roll) new"
      using assms(3) by (simp add: chain_from_tail_def)
    have sub: "set new \<subseteq> set ?run" using assms(4) by (auto simp: dev_key_eq)
    have cover: "\<forall>op\<in>set ?run. op \<in> set new \<or> is_known chain ?roll op \<and> seq op < expected_seq ?roll"
      using assms(5) word_le_less_plus_one [OF top] by (auto simp: dev_key_eq is_known_def)
    have fresh: "\<forall>op\<in>set new. \<not> is_known chain ?roll op"
      using assms(6) by (simp add: is_known_def)
    have room: "unat (expected_seq ?roll) + length new < 2 ^ 64"
      using assms(8) unat_u64_Suc [OF top] by simp
    show ?thesis
      using verify_run_loop_complete [OF vc _ sub cover fresh assms(7) room,
          where d = "Id (as_bytes d)" and run = ?run and r = empty_report] run acc qs cr
      by (auto simp: dev_key_eq qd)
  qed
qed

lemma verify_batch_complete_witness:
  "filter (\<lambda>op. device_id op = toy_id 2) (accepted toy_report) = [toy_op1, toy_op2] \<and>
    filter (\<lambda>q. q_device_id q = toy_id 2) (quarantines toy_report) = []"
  by (rule verify_batch_complete [OF toy_batch toy_state_get])
    (use toy_chain_valid in \<open>simp_all add: toy_vault toy_devices toy_chain_def toy_op1_def toy_op2_def\<close>)

text \<open>
  Quarantine is per device: what one device's ops earn it (the ops accepted
  and the alarms raised) depends on that device's ops alone, so a forged or broken stream from
  another device in the same batch changes nothing for it.
\<close>

theorem verify_batch_independent:
  assumes "verify_batch blake3 ed_verify state incoming = Some r"
    and "verify_batch blake3 ed_verify state incoming' = Some r'"
    and "filter (\<lambda>op. device_id op = d) incoming = filter (\<lambda>op. device_id op = d) incoming'"
  shows "filter (\<lambda>op. device_id op = d) (accepted r) = filter (\<lambda>op. device_id op = d) (accepted r') \<and>
    filter (\<lambda>q. q_device_id q = d) (quarantines r) = filter (\<lambda>q. q_device_id q = d) (quarantines r')"
proof -
  have qd: "as_bytes (q_device_id q) = as_bytes d \<longleftrightarrow> q_device_id q = d" for q
    by (simp add: id_eq_iff)
  have same: "contribution blake3 ed_verify state (as_bytes d) incoming =
      contribution blake3 ed_verify state (as_bytes d) incoming'"
    using assms(3) by (intro contribution_cong) (simp add: dev_key_eq)
  obtain c where c: "contribution blake3 ed_verify state (as_bytes d) incoming = Some c"
    and f: "filter (\<lambda>op. dev_key op = as_bytes d) (accepted r) = accepted c"
      "filter (\<lambda>q. as_bytes (q_device_id q) = as_bytes d) (quarantines r) = quarantines c"
    by (rule verify_batch_contribution [OF assms(1)])
  obtain c' where c': "contribution blake3 ed_verify state (as_bytes d) incoming' = Some c'"
    and f': "filter (\<lambda>op. dev_key op = as_bytes d) (accepted r') = accepted c'"
      "filter (\<lambda>q. as_bytes (q_device_id q) = as_bytes d) (quarantines r') = quarantines c'"
    by (rule verify_batch_contribution [OF assms(2)])
  have "c = c'" using c c' same by (simp only: option.inject)
  then show ?thesis using f f' by (simp only: dev_key_eq qd)
qed

lemma verify_batch_independent_witness:
  "filter (\<lambda>op. device_id op = toy_id 2) (accepted toy_report) =
      filter (\<lambda>op. device_id op = toy_id 2) (accepted toy_report') \<and>
    filter (\<lambda>q. q_device_id q = toy_id 2) (quarantines toy_report) =
      filter (\<lambda>q. q_device_id q = toy_id 2) (quarantines toy_report')"
  by (rule verify_batch_independent [OF toy_batch toy_batch_alien])
    (simp add: toy_devices toy_alien_def)

text \<open>
  One head, one history: two receivers with the same tail of a device that
  accepted equally many of its ops and ended on the same head hash accepted byte-for-byte the same
  ops, whatever their channels delivered, unless two of these ops are a BLAKE3 collision.
\<close>

theorem verify_batch_agreement:
  assumes "verify_batch blake3 ed_verify state incoming = Some r"
    and "verify_batch blake3 ed_verify state incoming' = Some r'"
    and "bt_get (cs_devices state) (as_bytes d) = Some chain"
    and "rereads_exact chain (filter (\<lambda>op. device_id op = d) incoming)"
    and "rereads_exact chain (filter (\<lambda>op. device_id op = d) incoming')"
    and "\<forall>op\<in>set incoming \<union> set incoming'. op_wf op"
    and "xs = filter (\<lambda>op. device_id op = d) (accepted r)"
    and "ys = filter (\<lambda>op. device_id op = d) (accepted r')"
    and "length xs = length ys"
    and "xs \<noteq> [] \<longrightarrow> blake3 (op_bytes (last xs)) = blake3 (op_bytes (last ys))"
    and "inj_on blake3 (op_bytes ` (set xs \<union> set ys))"
  shows "map op_bytes xs = map op_bytes ys"
proof -
  have vx: "chain_from_tail blake3 ed_verify (cs_vault_id state) d chain xs"
    unfolding assms(7) by (rule batch_chain [OF assms(1,3,4)])
  have vy: "chain_from_tail blake3 ed_verify (cs_vault_id state) d chain ys"
    unfolding assms(8) by (rule batch_chain [OF assms(2,3,5)])
  have "\<forall>op\<in>set xs \<union> set ys. op_wf op"
    using batch_subset [OF assms(1)] batch_subset [OF assms(2)] assms(6-8) by auto
  from valid_chain_same_head [OF vx [unfolded chain_from_tail_def] vy [unfolded chain_from_tail_def]
      assms(9,10) this assms(11)]
  show ?thesis .
qed

lemma verify_batch_agreement_witness: "map op_bytes [toy_op1, toy_op2] = map op_bytes [toy_op1, toy_op2]"
  by (rule verify_batch_agreement [OF toy_batch toy_batch_swap toy_state_get])
    (simp_all only: filter.simps toy_devices if_True toy_rereads toy_rereads_swap toy_wf toy_inj
      toy_report_sel list.set insert_commute Un_insert_left Un_empty_left insert_absorb2
      ball_simps simp_thms)

end
