(* ===== verification/Payload.thy ===== *)
theory Payload
  imports Op "HOL-Library.Char_ord"
begin

text \<open>
  The plaintext bodies an op carries: the item payload of \<open>lp-vault/src/payload.rs\<close> with its
  canonical JSON (\<open>canonical.rs\<close>) and the two attachment payloads of \<open>attachment.rs\<close>. JSON
  values are a datatype; the derived \<open>serde\<close> conversions and the JSON text itself (third-party)
  are the fields of \<open>serde\<close>, a record of functions every user takes as an argument. A Rust
  \<open>String\<close> is its UTF-8 bytes, a list of 8-bit characters.
\<close>

section \<open>JSON values\<close>

text \<open>\<open>serde_json::Value\<close>: an integer number, a float by its text, an object by its sorted map.\<close>

datatype json =
    JNull
  | JBool bool
  | JInt int
  | JFloat string
  | JString string
  | JArray "json list"
  | JObject "(string \<times> json) list"

fun assert_no_floats :: "json \<Rightarrow> vault_error + unit"
  and assert_no_floats_list :: "json list \<Rightarrow> vault_error + unit"
  and assert_no_floats_map :: "(string \<times> json) list \<Rightarrow> vault_error + unit" where
  "assert_no_floats JNull = Inr ()"
| "assert_no_floats (JBool b) = Inr ()"
| "assert_no_floats (JInt i) = Inr ()"
| "assert_no_floats (JFloat x) = Inl (VaultInvalid ''canonical JSON forbids floating-point numbers'')"
| "assert_no_floats (JString s) = Inr ()"
| "assert_no_floats (JArray js) = assert_no_floats_list js"
| "assert_no_floats (JObject kvs) = assert_no_floats_map kvs"
| "assert_no_floats_list [] = Inr ()"
| "assert_no_floats_list (j # js) =
     (case assert_no_floats j of Inl e \<Rightarrow> Inl e | Inr _ \<Rightarrow> assert_no_floats_list js)"
| "assert_no_floats_map [] = Inr ()"
| "assert_no_floats_map (kv # kvs) =
     (case kv of (k, j) \<Rightarrow>
       (case assert_no_floats j of Inl e \<Rightarrow> Inl e | Inr _ \<Rightarrow> assert_no_floats_map kvs))"

section \<open>The item payload\<close>

datatype field_kind = TextField | HiddenField | UrlField | DateField

record custom_field =
  fld_name :: string
  fld_kind :: field_kind
  fld_value :: json

record env_entry =
  env_key :: string
  env_value :: string

datatype type_data =
    Login (login_urls: "string list")
  | Note
  | ApiKey (api_key: string) (api_secret: string) (api_endpoint: string)
      (api_expiry: "int option") (api_rotate_after: "int option")
  | EnvSet (env_entries: "env_entry list")
  | SshKey (ssh_algo: string) (ssh_private_pem: string) (ssh_public_openssh: string)
      (ssh_fingerprint: string)
  | Totp (totp_secret_b32: string) (totp_algo: string) (totp_digits: u32) (totp_period: u32)
      (totp_issuer: string) (totp_account: string)

fun type_code :: "type_data \<Rightarrow> byte" where
  "type_code (Login _) = 1"
| "type_code Note = 2"
| "type_code (ApiKey _ _ _ _ _) = 3"
| "type_code (EnvSet _) = 4"
| "type_code (SshKey _ _ _ _) = 5"
| "type_code (Totp _ _ _ _ _ _) = 6"

fun type_str :: "type_data \<Rightarrow> string" where
  "type_str (Login _) = ''login''"
| "type_str Note = ''note''"
| "type_str (ApiKey _ _ _ _ _) = ''api_key''"
| "type_str (EnvSet _) = ''env_set''"
| "type_str (SshKey _ _ _ _) = ''ssh_key''"
| "type_str (Totp _ _ _ _ _ _) = ''totp''"

definition payload_version :: u32 where
  "payload_version = 1"

record item_payload =
  p_v :: u32
  p_type_data :: type_data
  p_title :: string
  p_notes :: string
  p_tags :: "string list"
  p_favorite :: bool
  p_folder_id :: "string option"
  p_fields :: "custom_field list"

definition item_payload_new :: "type_data \<Rightarrow> string \<Rightarrow> item_payload" where
  "item_payload_new td t =
     \<lparr>p_v = payload_version, p_type_data = td, p_title = t, p_notes = [], p_tags = [], p_favorite = False,
      p_folder_id = None, p_fields = []\<rparr>"

text \<open>Two payloads of one type code carry one type tag, and conversely.\<close>

lemma type_code_str: "type_code a = type_code b \<longleftrightarrow> type_str a = type_str b"
  by (cases a; cases b) simp_all

section \<open>Attachment payloads\<close>

record attach_add_payload =
  aa_attachment_id :: string
  aa_item_id :: string
  aa_version :: int
  aa_content_hash :: string
  aa_size_plain :: int
  aa_wrapped_key_env :: string
  aa_filename_env :: string

record attach_delete_payload =
  ad_attachment_id :: string

section \<open>The JSON library\<close>

text \<open>
  What \<open>serde\<close> and \<open>serde_json\<close> supply: the parse of a payload from JSON bytes (\<open>Inl\<close> the
  library's message), the conversion of a payload to a value, and the compact text of a value.
\<close>

record serde =
  de_item :: "bytes \<Rightarrow> string + item_payload"
  de_attach_add :: "bytes \<Rightarrow> string + attach_add_payload"
  de_attach_delete :: "bytes \<Rightarrow> string + attach_delete_payload"
  to_value_item :: "item_payload \<Rightarrow> string + json"
  json_to_vec :: "json \<Rightarrow> string + bytes"

definition to_canonical_vec ::
  "('a \<Rightarrow> string + json) \<Rightarrow> (json \<Rightarrow> string + bytes) \<Rightarrow> 'a \<Rightarrow> vault_error + bytes" where
  "to_canonical_vec to_value to_vec value =
     bind_ok (map_err VaultSerialization (to_value value)) (\<lambda>v.
     bind_ok (assert_no_floats v) (\<lambda>_.
     map_err VaultSerialization (to_vec v)))"

definition from_canonical_slice ::
  "(bytes \<Rightarrow> string + 'a) \<Rightarrow> bytes \<Rightarrow> vault_error + 'a" where
  "from_canonical_slice from_slice bs = map_err VaultSerialization (from_slice bs)"

definition to_canonical :: "serde \<Rightarrow> item_payload \<Rightarrow> vault_error + bytes" where
  "to_canonical sd p = to_canonical_vec (to_value_item sd) (json_to_vec sd) p"

definition from_canonical :: "serde \<Rightarrow> bytes \<Rightarrow> vault_error + item_payload" where
  "from_canonical sd bs = from_canonical_slice (de_item sd) bs"

text \<open>What was canonicalised holds no float, at any depth.\<close>

fun has_float :: "json \<Rightarrow> bool" where
  "has_float (JFloat x) \<longleftrightarrow> True"
| "has_float (JArray js) \<longleftrightarrow> (\<exists>j\<in>set js. has_float j)"
| "has_float (JObject kvs) \<longleftrightarrow> (\<exists>kv\<in>set kvs. has_float (snd kv))"
| "has_float _ \<longleftrightarrow> False"

lemma assert_no_floats_iff:
  "is_ok (assert_no_floats j) \<longleftrightarrow> \<not> has_float j"
  "is_ok (assert_no_floats_list js) \<longleftrightarrow> (\<forall>j\<in>set js. \<not> has_float j)"
  "is_ok (assert_no_floats_map kvs) \<longleftrightarrow> (\<forall>kv\<in>set kvs. \<not> has_float (snd kv))"
  by (induction j and js and kvs
      rule: assert_no_floats_assert_no_floats_list_assert_no_floats_map.induct)
    (auto split: sum.splits prod.splits)

end
