(* ===== verification/Merge.thy ===== *)
theory Merge
  imports Wire Payload
begin

text \<open>
  \<open>lp-sync/src/merge.rs\<close>: the deterministic merge of a vault's op set into item versions,
  tombstones and attachments, with the materialization records of \<open>lp-vault/src/foreign.rs\<close>.
  Payload decryption and JSON are parameters. A panic (an \<open>expect\<close>) is the outer \<open>None\<close>.
\<close>

section \<open>Materializations\<close>

record version_materialization =
  vm_version :: int
  vm_payload :: item_payload
  vm_created_at :: int
  vm_author_device_id :: id
  vm_op_id :: id

record tombstone_materialization =
  tm_deleted_at :: int
  tm_purge_after :: int
  tm_deleted_by_device :: id
  tm_op_id :: id

record item_materialization =
  im_item_id :: id
  im_current_version :: int
  im_created_at :: int
  im_updated_at :: int
  im_versions :: "version_materialization list"
  im_tombstone :: "tombstone_materialization option"

record attachment_materialization =
  am_attachment_id :: id
  am_item_id :: id
  am_version :: int
  am_content_hash :: bytes
  am_size_plain :: int
  am_wrapped_key_env :: bytes
  am_filename_env :: bytes
  am_created_at :: int

record materialization =
  mat_ops :: "stored_op list"
  mat_items :: "item_materialization list"
  mat_attachments :: "attachment_materialization list"
  mat_attachment_tombstones :: "id list"

definition i64_max :: int where
  "i64_max = 2 ^ 63 - 1"

definition saturating_add_i64 :: "int \<Rightarrow> int \<Rightarrow> int" where
  "saturating_add_i64 a b = max (- (2 ^ 63)) (min i64_max (a + b))"

text \<open>\<open>i64::try_from(n).unwrap_or(i64::MAX)\<close>.\<close>

definition i64_or_max :: "nat \<Rightarrow> int" where
  "i64_or_max n = (if int n \<le> i64_max then int n else i64_max)"

definition DEFAULT_RETENTION_MS :: int where
  "DEFAULT_RETENTION_MS = 30 * 24 * 60 * 60 * 1000"

section \<open>Ops in merge form\<close>

record merge_op =
  m_op_id :: id
  m_device_id :: id
  m_seq :: u64
  m_lamport :: u64
  m_observed :: observed_heads
  m_kind :: op_kind
  m_created_at :: int
  m_payload :: "item_payload option"

definition order_key :: "merge_op \<Rightarrow> u64 \<times> bytes \<times> bytes" where
  "order_key o1 = (m_lamport o1, as_bytes (m_device_id o1), as_bytes (m_op_id o1))"

datatype ordering = Less | Equal | Greater

definition cmp_total :: "merge_op \<Rightarrow> merge_op \<Rightarrow> ordering" where
  "cmp_total a b =
     (if order_key a < order_key b then Less
      else if order_key a = order_key b then Equal
      else Greater)"

definition happens_before :: "merge_op \<Rightarrow> merge_op \<Rightarrow> bool" where
  "happens_before a b \<longleftrightarrow>
     (if as_bytes (m_device_id a) = as_bytes (m_device_id b) then m_seq a < m_seq b
      else m_seq a \<le> oh_get (m_observed b) (m_device_id a))"

fun is_snapshot :: "op_kind \<Rightarrow> bool" where
  "is_snapshot Create = True"
| "is_snapshot Update = True"
| "is_snapshot Restore = True"
| "is_snapshot Delete = False"
| "is_snapshot Rewrap = False"
| "is_snapshot AttachAdd = False"
| "is_snapshot AttachDelete = False"

type_synonym decryptor = "id \<Rightarrow> bytes \<Rightarrow> sync_error + bytes"

section \<open>Tombstones\<close>

text \<open>\<open>Iterator::max_by\<close> with \<open>cmp_total\<close>: of equal maxima the last.\<close>

definition max_by_total :: "merge_op list \<Rightarrow> merge_op option" where
  "max_by_total xs =
     fold (\<lambda>x best. case best of None \<Rightarrow> Some x
             | Some m \<Rightarrow> if cmp_total m x = Greater then Some m else Some x) xs None"

definition resolve_tombstone ::
  "merge_op list \<Rightarrow> merge_op list \<Rightarrow> int \<Rightarrow> tombstone_materialization option" where
  "resolve_tombstone ops snapshots now =
     (case max_by_total
        (filter (\<lambda>d. \<not> (\<exists>s\<in>set snapshots. happens_before d s))
          (filter (\<lambda>x. m_kind x = Delete) ops)) of
        None \<Rightarrow> None
      | Some canonical_delete \<Rightarrow>
          if \<not> (\<forall>s\<in>set snapshots. happens_before s canonical_delete) then None
          else Some \<lparr>tm_deleted_at = now,
                     tm_purge_after = saturating_add_i64 now DEFAULT_RETENTION_MS,
                     tm_deleted_by_device = m_device_id canonical_delete,
                     tm_op_id = m_op_id canonical_delete\<rparr>)"

section \<open>One item\<close>

fun collect_versions ::
  "nat \<Rightarrow> merge_op list \<Rightarrow> int \<Rightarrow> version_materialization list \<Rightarrow>
     (int \<times> version_materialization list) option" where
  "collect_versions idx [] earliest versions = Some (earliest, versions)"
| "collect_versions idx (snap # snaps) earliest versions =
     (case m_payload snap of None \<Rightarrow> None
      | Some payload \<Rightarrow>
          collect_versions (idx + 1) snaps (min earliest (m_created_at snap))
            (versions @ [\<lparr>vm_version = i64_or_max (idx + 1), vm_payload = payload,
                          vm_created_at = m_created_at snap,
                          vm_author_device_id = m_device_id snap, vm_op_id = m_op_id snap\<rparr>]))"

definition materialize_item ::
  "id \<Rightarrow> merge_op list \<Rightarrow> int \<Rightarrow> item_materialization option option" where
  "materialize_item item_id ops now =
     (let snapshots = filter (\<lambda>x. is_snapshot (m_kind x)) ops
      in if snapshots = [] then Some None
         else case collect_versions 0 snapshots i64_max [] of None \<Rightarrow> None
              | Some (earliest, versions) \<Rightarrow>
                  let current_version = i64_or_max (length snapshots);
                      head = last snapshots;
                      updated_at = m_created_at head;
                      tombstone = resolve_tombstone ops snapshots now
                  in Some (Some \<lparr>im_item_id = item_id, im_current_version = current_version,
                       im_created_at = (if earliest = i64_max then now else earliest),
                       im_updated_at = updated_at, im_versions = versions,
                       im_tombstone = tombstone\<rparr>))"

section \<open>Attachments\<close>

definition to_digit_16 :: "byte \<Rightarrow> byte option" where
  "to_digit_16 c =
     (if 0x30 \<le> c \<and> c \<le> 0x39 then Some (c - 0x30)
      else if 0x61 \<le> c \<and> c \<le> 0x66 then Some (c - 0x61 + 10)
      else if 0x41 \<le> c \<and> c \<le> 0x46 then Some (c - 0x41 + 10)
      else None)"

fun hex_pairs :: "bytes \<Rightarrow> sync_error + bytes" where
  "hex_pairs (a # b # rest) =
     bind_ok (ok_or (Vault (VaultInvalid ''attach payload: bad hex'')) (to_digit_16 a)) (\<lambda>hi.
     bind_ok (ok_or (Vault (VaultInvalid ''attach payload: bad hex'')) (to_digit_16 b)) (\<lambda>lo.
     bind_ok (hex_pairs rest) (\<lambda>out. Inr (or (push_bit 4 hi) lo # out))))"
| "hex_pairs _ = Inr []"

definition hex_bytes :: "string \<Rightarrow> sync_error + bytes" where
  "hex_bytes hex =
     (if odd (length hex) then Inl (Vault (VaultInvalid ''attach payload: odd-length hex''))
      else hex_pairs (str_bytes hex))"

definition parse_id :: "string \<Rightarrow> sync_error + id" where
  "parse_id hex = bind_ok (hex_bytes hex) (\<lambda>bs. map_err Vault (id_from_slice bs))"

definition attachment_from_payload ::
  "attach_add_payload \<Rightarrow> int \<Rightarrow> sync_error + attachment_materialization" where
  "attachment_from_payload payload ingested_at =
     bind_ok (parse_id (aa_attachment_id payload)) (\<lambda>attachment_id.
     bind_ok (parse_id (aa_item_id payload)) (\<lambda>item_id.
     bind_ok (hex_bytes (aa_content_hash payload)) (\<lambda>content_hash.
     bind_ok (hex_bytes (aa_wrapped_key_env payload)) (\<lambda>wrapped_key_env.
     bind_ok (hex_bytes (aa_filename_env payload)) (\<lambda>filename_env.
     Inr \<lparr>am_attachment_id = attachment_id, am_item_id = item_id,
          am_version = aa_version payload, am_content_hash = content_hash,
          am_size_plain = aa_size_plain payload, am_wrapped_key_env = wrapped_key_env,
          am_filename_env = filename_env, am_created_at = ingested_at\<rparr>)))))"

definition decode_attach_delete ::
  "decryptor \<Rightarrow> serde \<Rightarrow> stored_op \<Rightarrow> sync_error + attach_delete_payload" where
  "decode_attach_delete decrypt sd op =
     bind_ok (decrypt (op_id op) (payload_env op)) (\<lambda>plaintext.
     map_err (\<lambda>_. Vault (VaultInvalid ''attach-delete payload'')) (de_attach_delete sd plaintext))"

definition decode_attach_add ::
  "decryptor \<Rightarrow> serde \<Rightarrow> stored_op \<Rightarrow> sync_error + attach_add_payload" where
  "decode_attach_add decrypt sd op =
     bind_ok (decrypt (op_id op) (payload_env op)) (\<lambda>plaintext.
     map_err (\<lambda>_. Vault (VaultInvalid ''attach-add payload'')) (de_attach_add sd plaintext))"

definition collect_deleted ::
  "decryptor \<Rightarrow> serde \<Rightarrow> stored_op list \<Rightarrow> sync_error + string bset" where
  "collect_deleted decrypt sd ops =
     fold_ok (\<lambda>op deleted.
        if op_kind op = AttachDelete
        then bind_ok (decode_attach_delete decrypt sd op) (\<lambda>payload.
               Inr (bs_insert (ad_attachment_id payload) deleted))
        else Inr deleted) ops []"

definition collect_added ::
  "decryptor \<Rightarrow> serde \<Rightarrow> string bset \<Rightarrow> stored_op \<Rightarrow>
     string bset \<times> attachment_materialization list \<Rightarrow>
     sync_error + (string bset \<times> attachment_materialization list)" where
  "collect_added decrypt sd deleted op s =
     (case s of (seen, atts) \<Rightarrow>
       if op_kind op \<noteq> AttachAdd then Inr (seen, atts)
       else bind_ok (decode_attach_add decrypt sd op) (\<lambda>payload.
         if aa_attachment_id payload \<in> set deleted then Inr (seen, atts)
         else if aa_attachment_id payload \<in> set seen then Inr (seen, atts)
         else
           let seen = bs_insert (aa_attachment_id payload) seen
           in bind_ok (attachment_from_payload payload (created_at op)) (\<lambda>a.
                Inr (seen, atts @ [a]))))"

definition materialize_attachments ::
  "decryptor \<Rightarrow> serde \<Rightarrow> stored_op list \<Rightarrow> materialization \<Rightarrow> sync_error + materialization" where
  "materialize_attachments decrypt sd ops mat =
     bind_ok (collect_deleted decrypt sd ops) (\<lambda>deleted.
     bind_ok (fold_ok (collect_added decrypt sd deleted) ops ([], [])) (\<lambda>(seen, atts).
     bind_ok (map_ok parse_id deleted) (\<lambda>tombs.
     Inr (mat\<lparr>mat_attachments := mat_attachments mat @ atts,
              mat_attachment_tombstones := mat_attachment_tombstones mat @ tombs\<rparr>))))"

section \<open>The merge\<close>

definition lift_payload ::
  "decryptor \<Rightarrow> serde \<Rightarrow> stored_op \<Rightarrow> sync_error + item_payload option" where
  "lift_payload decrypt sd op =
     (if is_snapshot (op_kind op)
      then bind_ok (decrypt (op_id op) (payload_env op)) (\<lambda>plaintext.
           bind_ok (map_err Vault (from_canonical sd plaintext)) (\<lambda>p. Inr (Some p)))
      else Inr None)"

definition merge_op_of :: "stored_op \<Rightarrow> item_payload option \<Rightarrow> merge_op" where
  "merge_op_of op payload =
     \<lparr>m_op_id = op_id op, m_device_id = device_id op, m_seq = seq op, m_lamport = lamport op,
      m_observed = observed op, m_kind = op_kind op, m_created_at = created_at op,
      m_payload = payload\<rparr>"

definition lift_op ::
  "decryptor \<Rightarrow> serde \<Rightarrow> stored_op \<Rightarrow> (bytes, merge_op list) btree \<Rightarrow>
     sync_error + (bytes, merge_op list) btree" where
  "lift_op decrypt sd op by_item =
     (case target_item op of None \<Rightarrow> Inr by_item
      | Some item_id \<Rightarrow>
          bind_ok (lift_payload decrypt sd op) (\<lambda>payload.
          Inr (bt_entry (as_bytes item_id) [] (\<lambda>xs. xs @ [merge_op_of op payload]) by_item)))"

fun materialize_items ::
  "(bytes \<times> merge_op list) list \<Rightarrow> int \<Rightarrow> item_materialization list option" where
  "materialize_items [] now = Some []"
| "materialize_items ((item_bytes, item_ops) # rest) now =
     (case materialize_item (id_from_bytes item_bytes) (sort_key order_key item_ops) now of
        None \<Rightarrow> None
      | Some item_mat \<Rightarrow>
          (case materialize_items rest now of None \<Rightarrow> None
           | Some items \<Rightarrow> Some (case item_mat of None \<Rightarrow> items | Some m \<Rightarrow> m # items)))"

definition materialize ::
  "stored_op list \<Rightarrow> decryptor \<Rightarrow> serde \<Rightarrow> int \<Rightarrow> (sync_error + materialization) option" where
  "materialize ops decrypt sd now =
     (case fold_ok (lift_op decrypt sd) ops [] of
        Inl e \<Rightarrow> Some (Inl e)
      | Inr by_item \<Rightarrow>
          (case materialize_items by_item now of None \<Rightarrow> None
           | Some items \<Rightarrow>
               Some (materialize_attachments decrypt sd ops
                 \<lparr>mat_ops = ops, mat_items = items, mat_attachments = [],
                  mat_attachment_tombstones = []\<rparr>)))"

section \<open>The lift\<close>

text \<open>The item an op is grouped under, and the merge form it gets when its payload decodes.\<close>

definition item_key :: "stored_op \<Rightarrow> bytes" where
  "item_key op = (case target_item op of None \<Rightarrow> [] | Some i \<Rightarrow> as_bytes i)"

definition scoped :: "stored_op list \<Rightarrow> stored_op list" where
  "scoped ops = filter (\<lambda>op. target_item op \<noteq> None) ops"

definition lifted :: "decryptor \<Rightarrow> serde \<Rightarrow> stored_op \<Rightarrow> merge_op" where
  "lifted decrypt sd op =
     merge_op_of op (case lift_payload decrypt sd op of Inl _ \<Rightarrow> None | Inr p \<Rightarrow> p)"

lemma merge_op_of_sel [simp]:
  "m_op_id (merge_op_of op p) = op_id op" "m_device_id (merge_op_of op p) = device_id op"
  "m_seq (merge_op_of op p) = seq op" "m_lamport (merge_op_of op p) = lamport op"
  "m_observed (merge_op_of op p) = observed op" "m_kind (merge_op_of op p) = op_kind op"
  "m_created_at (merge_op_of op p) = created_at op" "m_payload (merge_op_of op p) = p"
  by (simp_all add: merge_op_of_def)

lemma lifted_sel [simp]:
  "m_op_id (lifted decrypt sd op) = op_id op" "m_device_id (lifted decrypt sd op) = device_id op"
  "m_seq (lifted decrypt sd op) = seq op" "m_lamport (lifted decrypt sd op) = lamport op"
  "m_observed (lifted decrypt sd op) = observed op" "m_kind (lifted decrypt sd op) = op_kind op"
  "m_created_at (lifted decrypt sd op) = created_at op"
  by (simp_all add: lifted_def)

lemma scoped_simps [simp]:
  "scoped [] = []"
  "scoped (op # ops) = (case target_item op of None \<Rightarrow> scoped ops | Some i \<Rightarrow> op # scoped ops)"
  by (auto simp: scoped_def split: option.split)

lemma lift_op_cases:
  "target_item op = None \<Longrightarrow> lift_op decrypt sd op m = Inr m"
  "target_item op = Some i \<Longrightarrow> lift_payload decrypt sd op = Inl e \<Longrightarrow> lift_op decrypt sd op m = Inl e"
  "target_item op = Some i \<Longrightarrow> lift_payload decrypt sd op = Inr p \<Longrightarrow>
     lift_op decrypt sd op m =
       Inr (bt_entry (item_key op) [] (\<lambda>xs. xs @ [lifted decrypt sd op]) m)"
  by (simp_all add: lift_op_def item_key_def lifted_def)

lemma lift_ops_Inr:
  "fold_ok (lift_op decrypt sd) ops m = Inr m' \<longleftrightarrow>
     (\<forall>op\<in>set (scoped ops). is_ok (lift_payload decrypt sd op)) \<and>
     m' = fold (\<lambda>op. bt_entry (item_key op) [] (\<lambda>xs. xs @ [lifted decrypt sd op])) (scoped ops) m"
proof (induction ops arbitrary: m)
  case Nil
  then show ?case by auto
next
  case (Cons op ops)
  show ?case
  proof (cases "target_item op")
    case None
    then show ?thesis by (simp add: lift_op_cases Cons.IH)
  next
    case (Some i)
    then show ?thesis
      by (cases "lift_payload decrypt sd op") (simp_all add: lift_op_cases Cons.IH)
  qed
qed

definition by_item :: "decryptor \<Rightarrow> serde \<Rightarrow> stored_op list \<Rightarrow> (bytes, merge_op list) btree" where
  "by_item decrypt sd ops = bt_group_with item_key (lifted decrypt sd) (scoped ops)"

lemma lift_ops_by_item:
  "fold_ok (lift_op decrypt sd) ops [] = Inr m \<longleftrightarrow>
     (\<forall>op\<in>set (scoped ops). is_ok (lift_payload decrypt sd op)) \<and> m = by_item decrypt sd ops"
  by (simp add: lift_ops_Inr by_item_def bt_group_with_fold)

section \<open>One item, in closed form\<close>

definition version_row :: "nat \<Rightarrow> merge_op \<Rightarrow> version_materialization" where
  "version_row n s = \<lparr>vm_version = i64_or_max n, vm_payload = the (m_payload s),
     vm_created_at = m_created_at s, vm_author_device_id = m_device_id s, vm_op_id = m_op_id s\<rparr>"

fun version_rows :: "nat \<Rightarrow> merge_op list \<Rightarrow> version_materialization list" where
  "version_rows n [] = []"
| "version_rows n (s # ss) = version_row (n + 1) s # version_rows (n + 1) ss"

definition decoded :: "merge_op list \<Rightarrow> bool" where
  "decoded ops \<longleftrightarrow> (\<forall>x\<in>set ops. is_snapshot (m_kind x) \<longrightarrow> m_payload x \<noteq> None)"

lemma collect_versions_eq:
  "\<forall>x\<in>set ss. m_payload x \<noteq> None \<Longrightarrow>
     collect_versions n ss e vs =
       Some (fold (\<lambda>s e. min e (m_created_at s)) ss e, vs @ version_rows n ss)"
  by (induction ss arbitrary: n e vs) (auto simp: version_row_def)

lemma version_rows_sel:
  "map vm_op_id (version_rows n ss) = map m_op_id ss"
  "map vm_version (version_rows n ss) = map (\<lambda>i. i64_or_max (n + i + 1)) [0..<length ss]"
  "length (version_rows n ss) = length ss"
  by (induction ss arbitrary: n)
    (auto simp: version_row_def map_upt_Suc simp del: upt_Suc)

lemma version_rows_payload:
  "v \<in> set (version_rows n ss) \<Longrightarrow>
     \<exists>s\<in>set ss. vm_op_id v = m_op_id s \<and> vm_payload v = the (m_payload s) \<and>
       vm_created_at v = m_created_at s \<and> vm_author_device_id v = m_device_id s"
  by (induction ss arbitrary: n) (auto simp: version_row_def)

abbreviation snapshots_of :: "merge_op list \<Rightarrow> merge_op list" where
  "snapshots_of ops \<equiv> filter (\<lambda>x. is_snapshot (m_kind x)) ops"

definition item_result :: "id \<Rightarrow> merge_op list \<Rightarrow> int \<Rightarrow> item_materialization" where
  "item_result i ops now =
     (let earliest = fold (\<lambda>s e. min e (m_created_at s)) (snapshots_of ops) i64_max
      in \<lparr>im_item_id = i, im_current_version = i64_or_max (length (snapshots_of ops)),
          im_created_at = (if earliest = i64_max then now else earliest),
          im_updated_at = m_created_at (last (snapshots_of ops)),
          im_versions = version_rows 0 (snapshots_of ops),
          im_tombstone = resolve_tombstone ops (snapshots_of ops) now\<rparr>)"

lemma materialize_item_eq:
  "decoded ops \<Longrightarrow> materialize_item i ops now =
     Some (if snapshots_of ops = [] then None else Some (item_result i ops now))"
  by (simp add: materialize_item_def item_result_def collect_versions_eq decoded_def Let_def)

lemma materialize_items_eq:
  "\<forall>(k, ops)\<in>set groups. decoded ops \<Longrightarrow>
     materialize_items groups now =
       Some (map (\<lambda>(k, ops). item_result (Id k) (sort_key order_key ops) now)
         (filter (\<lambda>(k, ops). \<exists>x\<in>set ops. is_snapshot (m_kind x)) groups))"
proof (induction groups)
  case Nil
  then show ?case by simp
next
  case (Cons g groups)
  obtain k ops where g: "g = (k, ops)" by (cases g)
  have "decoded (sort_key order_key ops)" using Cons.prems g by (simp add: decoded_def)
  moreover have "snapshots_of (sort_key order_key ops) = [] \<longleftrightarrow> \<not> (\<exists>x\<in>set ops. is_snapshot (m_kind x))"
    by (simp add: filter_empty_conv)
  ultimately show ?case
    using Cons.IH Cons.prems g by (auto simp: materialize_item_eq id_from_bytes_def)
qed

section \<open>The items of a merge\<close>

definition stored_key :: "stored_op \<Rightarrow> u64 \<times> bytes \<times> bytes" where
  "stored_key op = (lamport op, as_bytes (device_id op), as_bytes (op_id op))"

text \<open>The ops of one item in the total order.\<close>

definition item_history :: "id \<Rightarrow> stored_op list \<Rightarrow> stored_op list" where
  "item_history i ops = sort_key stored_key (filter (\<lambda>op. target_item op = Some i) ops)"

definition has_snapshot :: "stored_op list \<Rightarrow> id \<Rightarrow> bool" where
  "has_snapshot ops i \<longleftrightarrow> (\<exists>op\<in>set ops. target_item op = Some i \<and> is_snapshot (op_kind op))"

definition item_of :: "decryptor \<Rightarrow> serde \<Rightarrow> stored_op list \<Rightarrow> int \<Rightarrow> id \<Rightarrow> item_materialization" where
  "item_of decrypt sd ops now i = item_result i (map (lifted decrypt sd) (item_history i ops)) now"

definition item_ids :: "stored_op list \<Rightarrow> id list" where
  "item_ids ops = filter (has_snapshot ops) (map Id (bt_keys (bt_group item_key (scoped ops))))"

lemma order_key_lifted [simp]: "order_key (lifted decrypt sd op) = stored_key op"
  by (simp add: order_key_def stored_key_def)

lemma set_item_history [simp]:
  "set (item_history i ops) = {op \<in> set ops. target_item op = Some i}"
  by (auto simp: item_history_def)

lemma scoped_item: "filter (\<lambda>op. item_key op = k) (scoped ops) = filter (\<lambda>op. target_item op = Some (Id k)) ops"
  unfolding scoped_def filter_filter
  by (rule filter_cong) (auto simp: item_key_def id_eq_iff split: option.split)

lemma lifted_decoded:
  "is_ok (lift_payload decrypt sd op) \<Longrightarrow> is_snapshot (op_kind op) \<Longrightarrow> m_payload (lifted decrypt sd op) \<noteq> None"
  by (auto simp: is_ok_iff lifted_def lift_payload_def bind_ok_Inr_iff)

lemma by_item_eq:
  "by_item decrypt sd ops = map (\<lambda>k. (k, map (lifted decrypt sd) (filter (\<lambda>op. target_item op = Some (Id k)) ops)))
     (bt_keys (bt_group item_key (scoped ops)))"
  by (simp add: by_item_def bt_group_with_eq_map scoped_item)

lemma item_history_sort:
  "sort_key order_key (map (lifted decrypt sd) (filter (\<lambda>op. target_item op = Some i) ops)) =
     map (lifted decrypt sd) (item_history i ops)"
  by (simp add: sort_key_map item_history_def)

lemma snapshot_lifted:
  "(\<exists>x\<in>set (map (lifted decrypt sd) (filter (\<lambda>op. target_item op = Some i) ops)). is_snapshot (m_kind x))
     \<longleftrightarrow> has_snapshot ops i"
  by (auto simp: has_snapshot_def)

lemma materialize_by_item:
  assumes "\<forall>op\<in>set (scoped ops). is_ok (lift_payload decrypt sd op)"
  shows "materialize_items (by_item decrypt sd ops) now = Some (map (item_of decrypt sd ops now) (item_ids ops))"
proof -
  have "\<forall>(k, xs)\<in>set (by_item decrypt sd ops). decoded xs"
    using assms by (auto simp: by_item_eq decoded_def scoped_def dest: lifted_decoded)
  from materialize_items_eq [OF this]
  show ?thesis
    by (simp only: by_item_eq item_ids_def filter_map comp_def prod.case item_history_sort item_of_def
        snapshot_lifted map_map list.map_comp)
qed

text \<open>The whole merge: it never panics, and its items are those of the snapshot ops.\<close>

lemma materialize_eq:
  "materialize ops decrypt sd now =
     (if \<forall>op\<in>set (scoped ops). is_ok (lift_payload decrypt sd op)
      then Some (materialize_attachments decrypt sd ops
        \<lparr>mat_ops = ops, mat_items = map (item_of decrypt sd ops now) (item_ids ops),
         mat_attachments = [], mat_attachment_tombstones = []\<rparr>)
      else Some (Inl (projl (fold_ok (lift_op decrypt sd) ops []))))"
proof (cases "fold_ok (lift_op decrypt sd) ops []")
  case (Inl e)
  then have "\<not> (\<forall>op\<in>set (scoped ops). is_ok (lift_payload decrypt sd op))"
    using lift_ops_by_item [of decrypt sd ops] by auto
  then show ?thesis by (simp only: materialize_def Inl sum.case if_False sum.sel)
next
  case (Inr m)
  then have "\<forall>op\<in>set (scoped ops). is_ok (lift_payload decrypt sd op)" and "m = by_item decrypt sd ops"
    using lift_ops_by_item [of decrypt sd ops m] by auto
  with Inr show ?thesis by (simp add: materialize_def materialize_by_item)
qed

lemma materialize_attachments_items:
  "materialize_attachments decrypt sd ops mat = Inr m \<Longrightarrow> mat_items m = mat_items mat \<and> mat_ops m = mat_ops mat"
  by (auto simp: materialize_attachments_def bind_ok_Inr_iff split: prod.splits)

lemma materialize_mat_items:
  assumes "materialize ops decrypt sd now = Some (Inr m)"
  shows "\<forall>op\<in>set (scoped ops). is_ok (lift_payload decrypt sd op)"
    and "mat_items m = map (item_of decrypt sd ops now) (item_ids ops)" and "mat_ops m = ops"
  using assms by (auto simp: materialize_eq dest: materialize_attachments_items split: if_splits)

lemma item_ids_eq: "item_ids ops = filter (has_snapshot ops) (map Id (bs_of_list (map item_key (scoped ops))))"
proof -
  have "bt_keys (bt_group item_key (scoped ops)) = bs_of_list (map item_key (scoped ops))"
  proof (rule bs_ext)
    show "bs_wf (bt_keys (bt_group item_key (scoped ops)))"
      using bt_wf_group [of item_key "scoped ops"] by (simp add: bs_wf_def bt_wf_def bt_keys_def)
    show "set (bt_keys (bt_group item_key (scoped ops))) = set (bs_of_list (map item_key (scoped ops)))"
      using bt_group_keys [of item_key "scoped ops"] by (simp add: bt_keys_def)
  qed (rule bs_wf_of_list)
  then show ?thesis by (simp add: item_ids_def)
qed

lemma set_item_ids: "i \<in> set (item_ids ops) \<longleftrightarrow> has_snapshot ops i"
  by (auto simp: item_ids_eq has_snapshot_def scoped_def item_key_def image_iff id_eq_iff
      split: option.splits)

lemma im_item_id_item_of [simp]: "im_item_id (item_of decrypt sd ops now i) = i"
  by (simp add: item_of_def item_result_def Let_def)

lemma sorted_item_ids: "sorted_wrt (<) (map as_bytes (item_ids ops))"
  using bs_wf_of_list [of "map item_key (scoped ops)"]
  by (simp add: item_ids_eq bs_wf_def filter_map comp_def sorted_wrt_filter)

lemma distinct_item_ids [simp]: "distinct (item_ids ops)"
  using sorted_item_ids [of ops] by (auto simp: strict_sorted_iff distinct_map)

lemma materialize_item_mem:
  assumes "materialize ops decrypt sd now = Some (Inr m)"
  shows "it \<in> set (mat_items m) \<longleftrightarrow>
    has_snapshot ops (im_item_id it) \<and> it = item_of decrypt sd ops now (im_item_id it)"
  unfolding materialize_mat_items(2) [OF assms]
  by (auto simp: set_item_ids simp flip: set_item_ids)

text \<open>The versions of a merged item: its snapshots in order, numbered from 1, the last one current.\<close>

lemma item_of_versions:
  assumes "has_snapshot ops i" and "length ops < 2 ^ 63"
  shows "im_versions (item_of decrypt sd ops now i) =
      version_rows 0 (map (lifted decrypt sd) (filter (\<lambda>op. is_snapshot (op_kind op)) (item_history i ops)))"
    and "map vm_version (im_versions (item_of decrypt sd ops now i)) =
      map int [1..<length (im_versions (item_of decrypt sd ops now i)) + 1]"
    and "im_current_version (item_of decrypt sd ops now i) = int (length (im_versions (item_of decrypt sd ops now i)))"
    and "im_versions (item_of decrypt sd ops now i) \<noteq> []"
proof -
  let ?snaps = "filter (\<lambda>op. is_snapshot (op_kind op)) (item_history i ops)"
  let ?it = "item_of decrypt sd ops now i"
  have snaps: "snapshots_of (map (lifted decrypt sd) (item_history i ops)) = map (lifted decrypt sd) ?snaps"
    by (simp add: filter_map comp_def)
  show versions: "im_versions ?it = version_rows 0 (map (lifted decrypt sd) ?snaps)"
    by (simp add: item_of_def item_result_def Let_def snaps)
  have "length ?snaps \<le> length (item_history i ops)" by (rule length_filter_le)
  also have "\<dots> \<le> length ops" by (simp add: item_history_def)
  finally have bound: "i64_or_max n = int n" if "n \<le> length ?snaps" for n
    using that assms(2) by (simp add: i64_or_max_def i64_max_def)
  show "map vm_version (im_versions ?it) = map int [1..<length (im_versions ?it) + 1]"
    unfolding versions version_rows_sel length_map
    by (rule nth_equalityI) (simp_all add: bound del: upt_Suc)
  show "im_current_version ?it = int (length (im_versions ?it))"
    unfolding versions version_rows_sel length_map
    by (simp add: item_of_def item_result_def Let_def snaps bound)
  have "?snaps \<noteq> []" using assms(1) by (auto simp: filter_empty_conv has_snapshot_def)
  then show "im_versions ?it \<noteq> []" unfolding versions by (metis length_0_conv length_map version_rows_sel(3))
qed

section \<open>The order of arrival is forgotten\<close>

lemma stored_key_inj: "inj_on op_id S \<Longrightarrow> inj_on stored_key S"
  by (auto simp: inj_on_def stored_key_def id_eq_iff)

lemma item_history_perm:
  assumes "mset ops = mset ops'" and "inj_on op_id (set ops)"
  shows "item_history i ops = item_history i ops'"
  unfolding item_history_def
proof (rule sort_key_perm_eq)
  show "mset (filter (\<lambda>op. target_item op = Some i) ops) = mset (filter (\<lambda>op. target_item op = Some i) ops')"
    using assms(1) by simp
  show "inj_on stored_key (set (filter (\<lambda>op. target_item op = Some i) ops))"
    by (rule inj_on_subset [OF stored_key_inj [OF assms(2)]]) auto
qed

lemma set_scoped [simp]: "set (scoped ops) = {op \<in> set ops. target_item op \<noteq> None}"
  by (auto simp: scoped_def)

lemma item_ids_cong: "set ops = set ops' \<Longrightarrow> item_ids ops = item_ids ops'"
  unfolding item_ids_eq has_snapshot_def
  by (rule arg_cong2 [where f = filter]) (auto intro!: bs_of_list_cong arg_cong [where f = "map Id"])

lemma items_perm:
  assumes "mset ops = mset ops'" and "inj_on op_id (set ops)"
  shows "map (item_of decrypt sd ops now) (item_ids ops) = map (item_of decrypt sd ops' now) (item_ids ops')"
proof -
  have "item_ids ops = item_ids ops'"
    using assms(1) by (intro item_ids_cong) (rule mset_eq_setD)
  moreover have "item_of decrypt sd ops now i = item_of decrypt sd ops' now i" for i
    by (simp only: item_of_def item_history_perm [OF assms])
  ultimately show ?thesis by simp
qed

section \<open>Which items are deleted\<close>

definition stored_before :: "stored_op \<Rightarrow> stored_op \<Rightarrow> bool" where
  "stored_before a b \<longleftrightarrow>
     (if device_id a = device_id b then seq a < seq b
      else seq a \<le> oh_get (observed b) (device_id a))"

definition item_snapshots :: "stored_op list \<Rightarrow> id \<Rightarrow> stored_op set" where
  "item_snapshots ops i = {op \<in> set ops. target_item op = Some i \<and> is_snapshot (op_kind op)}"

definition item_deletes :: "stored_op list \<Rightarrow> id \<Rightarrow> stored_op set" where
  "item_deletes ops i = {op \<in> set ops. target_item op = Some i \<and> op_kind op = Delete}"

text \<open>The deletes no snapshot has observed, and the greatest of them.\<close>

definition open_deletes :: "stored_op list \<Rightarrow> id \<Rightarrow> stored_op set" where
  "open_deletes ops i = {d \<in> item_deletes ops i. \<forall>s\<in>item_snapshots ops i. \<not> stored_before d s}"

definition canonical_delete :: "stored_op list \<Rightarrow> id \<Rightarrow> stored_op \<Rightarrow> bool" where
  "canonical_delete ops i d \<longleftrightarrow>
     d \<in> open_deletes ops i \<and> (\<forall>d'\<in>open_deletes ops i. stored_key d' \<le> stored_key d)"

lemma happens_before_lifted [simp]:
  "happens_before (lifted decrypt sd a) (lifted decrypt sd b) \<longleftrightarrow> stored_before a b"
  by (simp add: happens_before_def stored_before_def id_eq_iff)

lemma max_by_fold:
  "\<forall>x\<in>set xs. order_key m \<le> order_key x \<Longrightarrow> sorted (map order_key xs) \<Longrightarrow>
     fold (\<lambda>x best. case best of None \<Rightarrow> Some x
             | Some m \<Rightarrow> if cmp_total m x = Greater then Some m else Some x) xs (Some m)
       = Some (last (m # xs))"
  by (induction xs arbitrary: m) (auto simp: cmp_total_def)

lemma max_by_total_sorted:
  "sorted (map order_key xs) \<Longrightarrow> max_by_total xs = (if xs = [] then None else Some (last xs))"
  by (cases xs) (simp_all add: max_by_total_def max_by_fold)

lemma snapshots_lifted:
  "snapshots_of (map (lifted decrypt sd) ops) = map (lifted decrypt sd) (filter (\<lambda>op. is_snapshot (op_kind op)) ops)"
  by (simp add: filter_map comp_def)

lemma sorted_item_history: "sorted (map stored_key (item_history i ops))"
  by (simp add: item_history_def)

lemma sorted_filter_key: "sorted (map f xs) \<Longrightarrow> sorted (map f (filter P xs))"
  by (induction xs) auto

lemma resolve_tombstone_lifted:
  fixes decrypt sd ops i
  defines "cands \<equiv> filter (\<lambda>op. op \<in> open_deletes ops i) (item_history i ops)"
    and "h \<equiv> map (lifted decrypt sd) (item_history i ops)"
  shows "resolve_tombstone h (snapshots_of h) now =
    (if cands = [] \<or> \<not> (\<forall>s\<in>item_snapshots ops i. stored_before s (last cands)) then None
     else Some \<lparr>tm_deleted_at = now, tm_purge_after = saturating_add_i64 now DEFAULT_RETENTION_MS,
                tm_deleted_by_device = device_id (last cands), tm_op_id = op_id (last cands)\<rparr>)"
proof -
  have snaps: "set (snapshots_of h) = lifted decrypt sd ` item_snapshots ops i"
    by (auto simp: h_def item_snapshots_def)
  have "filter (\<lambda>d. \<not> (\<exists>s\<in>set (snapshots_of h). happens_before d s)) (filter (\<lambda>x. m_kind x = Delete) h)
      = map (lifted decrypt sd) cands"
    unfolding snaps unfolding h_def cands_def filter_map filter_filter comp_def
    by (rule arg_cong [where f = "map (lifted decrypt sd)"], rule filter_cong)
      (auto simp: open_deletes_def item_deletes_def)
  moreover have "sorted (map order_key (map (lifted decrypt sd) cands))"
    unfolding cands_def by (simp add: comp_def sorted_filter_key sorted_item_history)
  ultimately show ?thesis
    unfolding resolve_tombstone_def snaps
    by (simp add: max_by_total_sorted last_map)
qed

lemma canonical_delete_last:
  assumes "inj_on op_id (set ops)"
  shows "canonical_delete ops i d \<longleftrightarrow>
    filter (\<lambda>op. op \<in> open_deletes ops i) (item_history i ops) \<noteq> [] \<and>
    d = last (filter (\<lambda>op. op \<in> open_deletes ops i) (item_history i ops))"
proof -
  let ?c = "filter (\<lambda>op. op \<in> open_deletes ops i) (item_history i ops)"
  have set_c: "set ?c = open_deletes ops i"
    by (auto simp: open_deletes_def item_deletes_def)
  have "inj_on stored_key (set ?c)"
    by (rule inj_on_subset [OF stored_key_inj [OF assms]]) (auto simp: open_deletes_def item_deletes_def)
  then have "?c \<noteq> [] \<Longrightarrow> (d \<in> set ?c \<and> (\<forall>x\<in>set ?c. stored_key x \<le> stored_key d)) = (d = last ?c)"
    by (rule sorted_last_iff [OF sorted_filter_key [OF sorted_item_history]])
  then have "?c \<noteq> [] \<Longrightarrow> ?thesis"
    unfolding canonical_delete_def set_c by simp
  moreover have "?c = [] \<Longrightarrow> \<not> canonical_delete ops i d"
    using set_c by (auto simp: canonical_delete_def)
  ultimately show ?thesis by blast
qed

lemma tombstone_iff:
  assumes "inj_on op_id (set ops)"
  shows "im_tombstone (item_of decrypt sd ops now i) = Some t \<longleftrightarrow>
    (\<exists>d. canonical_delete ops i d \<and> (\<forall>s\<in>item_snapshots ops i. stored_before s d) \<and>
      t = \<lparr>tm_deleted_at = now, tm_purge_after = saturating_add_i64 now DEFAULT_RETENTION_MS,
           tm_deleted_by_device = device_id d, tm_op_id = op_id d\<rparr>)"
  unfolding canonical_delete_last [OF assms]
  by (auto simp: item_of_def item_result_def Let_def resolve_tombstone_lifted)

lemma greatest_delete_stands:
  assumes "materialize ops decrypt sd now = Some (Inr m)" and "it \<in> set (mat_items m)"
    and "d \<in> item_deletes ops (im_item_id it)"
    and "\<forall>d'\<in>item_deletes ops (im_item_id it). stored_key d' \<le> stored_key d"
    and "\<forall>s\<in>item_snapshots ops (im_item_id it). stored_before s d \<and> \<not> stored_before d s"
    and "inj_on op_id (set ops)"
  shows "\<exists>t. im_tombstone it = Some t \<and> tm_op_id t = op_id d \<and> tm_deleted_by_device t = device_id d"
proof -
  have "it = item_of decrypt sd ops now (im_item_id it)"
    using assms(2) by (simp add: materialize_item_mem [OF assms(1)])
  moreover have "canonical_delete ops (im_item_id it) d"
    using assms(3-5) by (auto simp: canonical_delete_def open_deletes_def)
  ultimately show ?thesis
    using tombstone_iff [OF assms(6), of decrypt sd now "im_item_id it"] assms(5)
    by (intro exI [of _ "\<lparr>tm_deleted_at = now,
        tm_purge_after = saturating_add_i64 now DEFAULT_RETENTION_MS,
        tm_deleted_by_device = device_id d, tm_op_id = op_id d\<rparr>"]) auto
qed

section \<open>Attachments, in closed form\<close>

definition delete_target :: "decryptor \<Rightarrow> serde \<Rightarrow> stored_op \<Rightarrow> string" where
  "delete_target decrypt sd op = ad_attachment_id (projr (decode_attach_delete decrypt sd op))"

definition add_target :: "decryptor \<Rightarrow> serde \<Rightarrow> stored_op \<Rightarrow> string" where
  "add_target decrypt sd op = aa_attachment_id (projr (decode_attach_add decrypt sd op))"

definition add_result ::
  "decryptor \<Rightarrow> serde \<Rightarrow> stored_op \<Rightarrow> sync_error + attachment_materialization" where
  "add_result decrypt sd op =
     attachment_from_payload (projr (decode_attach_add decrypt sd op)) (created_at op)"

definition deletes_ok :: "decryptor \<Rightarrow> serde \<Rightarrow> stored_op list \<Rightarrow> bool" where
  "deletes_ok decrypt sd ops \<longleftrightarrow>
     (\<forall>op\<in>set ops. op_kind op = AttachDelete \<longrightarrow> is_ok (decode_attach_delete decrypt sd op))"

definition adds_ok :: "decryptor \<Rightarrow> serde \<Rightarrow> stored_op list \<Rightarrow> bool" where
  "adds_ok decrypt sd ops \<longleftrightarrow>
     (\<forall>op\<in>set ops. op_kind op = AttachAdd \<longrightarrow> is_ok (decode_attach_add decrypt sd op))"

definition deleted_ids :: "decryptor \<Rightarrow> serde \<Rightarrow> stored_op list \<Rightarrow> string bset" where
  "deleted_ids decrypt sd ops =
     bs_of_list (map (delete_target decrypt sd) (filter (\<lambda>op. op_kind op = AttachDelete) ops))"

lemma collect_deleted_fold:
  "fold_ok (\<lambda>op deleted.
        if op_kind op = AttachDelete
        then bind_ok (decode_attach_delete decrypt sd op) (\<lambda>payload.
               Inr (bs_insert (ad_attachment_id payload) deleted))
        else Inr deleted) ops m = Inr m' \<longleftrightarrow>
     deletes_ok decrypt sd ops \<and>
     m' = fold bs_insert (map (delete_target decrypt sd) (filter (\<lambda>op. op_kind op = AttachDelete) ops)) m"
proof (induction ops arbitrary: m)
  case Nil
  then show ?case by (auto simp: deletes_ok_def)
next
  case (Cons op ops)
  then show ?case
    by (cases "decode_attach_delete decrypt sd op") (simp_all add: deletes_ok_def delete_target_def)
qed

lemma collect_deleted_Inr:
  "collect_deleted decrypt sd ops = Inr del \<longleftrightarrow>
     deletes_ok decrypt sd ops \<and> del = deleted_ids decrypt sd ops"
  unfolding collect_deleted_def collect_deleted_fold deleted_ids_def bs_of_list_def by (rule refl)

text \<open>The adds the second pass keeps: not deleted, first of their id.\<close>

fun kept_adds :: "decryptor \<Rightarrow> serde \<Rightarrow> string set \<Rightarrow> string set \<Rightarrow> stored_op list \<Rightarrow> stored_op list" where
  "kept_adds decrypt sd deleted seen [] = []"
| "kept_adds decrypt sd deleted seen (op # ops) =
     (if op_kind op = AttachAdd \<and> add_target decrypt sd op \<notin> deleted \<and> add_target decrypt sd op \<notin> seen
      then op # kept_adds decrypt sd deleted (insert (add_target decrypt sd op) seen) ops
      else kept_adds decrypt sd deleted seen ops)"

lemma collect_added_cases:
  "op_kind op \<noteq> AttachAdd \<Longrightarrow> collect_added decrypt sd del op (seen, atts) = Inr (seen, atts)"
  "op_kind op = AttachAdd \<Longrightarrow> decode_attach_add decrypt sd op = Inl e \<Longrightarrow>
     collect_added decrypt sd del op (seen, atts) = Inl e"
  "op_kind op = AttachAdd \<Longrightarrow> decode_attach_add decrypt sd op = Inr payload \<Longrightarrow>
     collect_added decrypt sd del op (seen, atts) =
       (if add_target decrypt sd op \<in> set del \<or> add_target decrypt sd op \<in> set seen then Inr (seen, atts)
        else bind_ok (add_result decrypt sd op) (\<lambda>a.
               Inr (bs_insert (add_target decrypt sd op) seen, atts @ [a])))"
  by (auto simp: collect_added_def Let_def add_target_def add_result_def)

lemma adds_ok_simps [simp]:
  "adds_ok decrypt sd []"
  "adds_ok decrypt sd (op # ops) \<longleftrightarrow>
     (op_kind op = AttachAdd \<longrightarrow> is_ok (decode_attach_add decrypt sd op)) \<and> adds_ok decrypt sd ops"
  by (simp_all add: adds_ok_def)

lemma add_attachments_Inr:
  "fold_ok (collect_added decrypt sd deleted) ops (seen, atts) = Inr r \<longleftrightarrow>
     adds_ok decrypt sd ops \<and>
     (\<forall>op\<in>set (kept_adds decrypt sd (set deleted) (set seen) ops). is_ok (add_result decrypt sd op)) \<and>
     r = (fold bs_insert (map (add_target decrypt sd) (kept_adds decrypt sd (set deleted) (set seen) ops)) seen,
          atts @ map (\<lambda>op. projr (add_result decrypt sd op)) (kept_adds decrypt sd (set deleted) (set seen) ops))"
proof (induction ops arbitrary: seen atts)
  case Nil
  then show ?case by auto
next
  case (Cons op ops)
  show ?case
  proof (cases "op_kind op = AttachAdd")
    case False
    then show ?thesis by (simp add: collect_added_cases(1) Cons.IH)
  next
    case add: True
    show ?thesis
    proof (cases "decode_attach_add decrypt sd op")
      case (Inl e)
      with add show ?thesis by (simp add: collect_added_cases(2))
    next
      case (Inr payload)
      with add show ?thesis
        by (cases "add_result decrypt sd op") (simp_all add: collect_added_cases(3) Cons.IH)
    qed
  qed
qed

lemma materialize_attachments_Inr:
  fixes decrypt sd ops
  defines "del \<equiv> deleted_ids decrypt sd ops"
    and "kept \<equiv> kept_adds decrypt sd (set (deleted_ids decrypt sd ops)) {} ops"
  shows "materialize_attachments decrypt sd ops mat = Inr m \<longleftrightarrow>
    deletes_ok decrypt sd ops \<and> adds_ok decrypt sd ops \<and>
    (\<forall>op\<in>set kept. is_ok (add_result decrypt sd op)) \<and>
    (\<exists>tombs. map_ok parse_id del = Inr tombs \<and>
      m = mat\<lparr>mat_attachments := mat_attachments mat @ map (\<lambda>op. projr (add_result decrypt sd op)) kept,
              mat_attachment_tombstones := mat_attachment_tombstones mat @ tombs\<rparr>)"
  unfolding materialize_attachments_def bind_ok_Inr_iff collect_deleted_Inr
  by (auto simp: bind_ok_Inr_iff add_attachments_Inr del_def kept_def)

lemma kept_adds_targets:
  "add_target decrypt sd ` set (kept_adds decrypt sd D S ops) =
     add_target decrypt sd ` {op \<in> set ops. op_kind op = AttachAdd} - D - S"
  by (induction ops arbitrary: S) (auto simp: image_iff)

lemma kept_adds_subset: "set (kept_adds decrypt sd D S ops) \<subseteq> {op \<in> set ops. op_kind op = AttachAdd}"
proof (induction ops arbitrary: S)
  case (Cons op ops)
  show ?case using Cons.IH [of S] Cons.IH [of "insert (add_target decrypt sd op) S"] by auto
qed simp

lemma kept_adds_distinct: "distinct (map (add_target decrypt sd) (kept_adds decrypt sd D S ops))"
proof (induction ops arbitrary: S)
  case (Cons op ops)
  have "add_target decrypt sd op \<notin>
      add_target decrypt sd ` set (kept_adds decrypt sd D (insert (add_target decrypt sd op) S) ops)"
    by (simp add: kept_adds_targets)
  with Cons.IH show ?case by simp
qed simp

text \<open>One op per attachment id, as the random identifiers give it.\<close>

definition one_add :: "decryptor \<Rightarrow> serde \<Rightarrow> stored_op list \<Rightarrow> bool" where
  "one_add decrypt sd ops \<longleftrightarrow>
     inj_on (add_target decrypt sd) {op \<in> set ops. op_kind op = AttachAdd}"

lemma kept_adds_set:
  assumes "one_add decrypt sd ops"
  shows "set (kept_adds decrypt sd D {} ops) =
    {op \<in> set ops. op_kind op = AttachAdd \<and> add_target decrypt sd op \<notin> D}" (is "?K = ?R")
proof (rule inj_on_image_eq_iff [THEN iffD1])
  show "inj_on (add_target decrypt sd) {op \<in> set ops. op_kind op = AttachAdd}"
    using assms by (simp add: one_add_def)
  show "?K \<subseteq> {op \<in> set ops. op_kind op = AttachAdd}" by (rule kept_adds_subset)
  show "add_target decrypt sd ` ?K = add_target decrypt sd ` ?R"
    unfolding kept_adds_targets by blast
qed auto

lemma kept_adds_perm:
  assumes "one_add decrypt sd ops" and "set ops = set ops'"
  shows "mset (kept_adds decrypt sd D {} ops) = mset (kept_adds decrypt sd D {} ops')"
proof (rule iffD1 [OF set_eq_iff_mset_eq_distinct])
  have "one_add decrypt sd ops'" using assms by (simp add: one_add_def)
  then show "set (kept_adds decrypt sd D {} ops) = set (kept_adds decrypt sd D {} ops')"
    using assms by (simp add: kept_adds_set)
qed (rule distinct_map [THEN iffD1, OF kept_adds_distinct, THEN conjunct1])+

lemma deleted_ids_cong: "set ops = set ops' \<Longrightarrow> deleted_ids decrypt sd ops = deleted_ids decrypt sd ops'"
  unfolding deleted_ids_def by (rule bs_of_list_cong) auto

section \<open>A concrete merge\<close>

text \<open>
  Two devices: device 2 creates the item (and an attachment), device 3 edits it having seen the
  create, device 2 deletes it. In the first history the delete is concurrent with the edit; in the
  second it has observed it.
\<close>

definition ex_id :: "byte \<Rightarrow> id" where
  "ex_id b = Id (replicate 16 b)"

definition ex_decrypt :: decryptor where
  "ex_decrypt i bs = Inr bs"

definition ex_add :: attach_add_payload where
  "ex_add = \<lparr>aa_attachment_id = replicate 32 (CHR ''1''), aa_item_id = concat (replicate 16 ''09''),
     aa_version = 1, aa_content_hash = [], aa_size_plain = 3, aa_wrapped_key_env = [],
     aa_filename_env = []\<rparr>"

definition ex_serde :: serde where
  "ex_serde = \<lparr>de_item = (\<lambda>bs. Inr (item_payload_new Note [])),
     de_attach_add = (\<lambda>bs. Inr ex_add),
     de_attach_delete = (\<lambda>bs. Inr \<lparr>ad_attachment_id = replicate 32 (CHR ''2'')\<rparr>),
     to_value_item = (\<lambda>p. Inr JNull), json_to_vec = (\<lambda>j. Inr [])\<rparr>"

definition ex_op :: "byte \<Rightarrow> byte \<Rightarrow> u64 \<Rightarrow> u64 \<Rightarrow> op_kind \<Rightarrow> (bytes \<times> u64) list \<Rightarrow> stored_op" where
  "ex_op i d s l k obs = \<lparr>op_id = ex_id i, vault_id = ex_id 1, device_id = ex_id d, seq = s,
     prev_hash = replicate 32 0, lamport = l, op_kind = k, target_item = Some (ex_id 9),
     target_version = 1, payload_env = [7], observed = oh_from_pairs obs,
     signature = replicate 64 5, created_at = 100\<rparr>"

definition ex_create :: stored_op where "ex_create = ex_op 11 2 1 1 Create []"
definition ex_attach :: stored_op where "ex_attach = ex_op 12 2 2 2 AttachAdd []"
definition ex_edit :: stored_op where "ex_edit = ex_op 13 3 1 3 Update [(replicate 16 2, 1)]"
definition ex_delete :: stored_op where "ex_delete = ex_op 14 2 3 9 Delete []"
definition ex_delete2 :: stored_op where "ex_delete2 = ex_op 14 2 3 9 Delete [(replicate 16 3, 1)]"

definition ex_versions :: "version_materialization list" where
  "ex_versions =
     [\<lparr>vm_version = 1, vm_payload = item_payload_new Note [], vm_created_at = 100,
       vm_author_device_id = ex_id 2, vm_op_id = ex_id 11\<rparr>,
      \<lparr>vm_version = 2, vm_payload = item_payload_new Note [], vm_created_at = 100,
       vm_author_device_id = ex_id 3, vm_op_id = ex_id 13\<rparr>]"

definition ex_item :: "tombstone_materialization option \<Rightarrow> item_materialization" where
  "ex_item t = \<lparr>im_item_id = ex_id 9, im_current_version = 2, im_created_at = 100,
     im_updated_at = 100, im_versions = ex_versions, im_tombstone = t\<rparr>"

definition ex_merge :: "stored_op list \<Rightarrow> tombstone_materialization option \<Rightarrow> materialization" where
  "ex_merge ops t = \<lparr>mat_ops = ops, mat_items = [ex_item t],
     mat_attachments = [\<lparr>am_attachment_id = ex_id 0x11, am_item_id = ex_id 9, am_version = 1,
       am_content_hash = [], am_size_plain = 3, am_wrapped_key_env = [], am_filename_env = [],
       am_created_at = 100\<rparr>],
     mat_attachment_tombstones = []\<rparr>"

definition ex_ops :: "stored_op list" where
  "ex_ops = [ex_delete, ex_edit, ex_attach, ex_create]"

definition ex_ops2 :: "stored_op list" where
  "ex_ops2 = [ex_delete2, ex_edit, ex_attach, ex_create]"

definition ex_delete4 :: stored_op where
  "ex_delete4 = ex_op 15 4 1 7 Delete [(replicate 16 2, 2), (replicate 16 3, 1)]"

definition ex_delete5 :: stored_op where
  "ex_delete5 = ex_op 16 5 1 8 Delete [(replicate 16 2, 2)]"

definition ex_ops3 :: "stored_op list" where
  "ex_ops3 = [ex_delete5, ex_delete4, ex_edit, ex_attach, ex_create]"

definition ex_ops4 :: "stored_op list" where
  "ex_ops4 = [ex_delete4, ex_edit, ex_attach, ex_create]"

definition ex_tombstone4 :: tombstone_materialization where
  "ex_tombstone4 = \<lparr>tm_deleted_at = 7, tm_purge_after = 2592000007, tm_deleted_by_device = ex_id 4,
     tm_op_id = ex_id 15\<rparr>"

definition ex_tombstone :: tombstone_materialization where
  "ex_tombstone = \<lparr>tm_deleted_at = 7, tm_purge_after = 2592000007, tm_deleted_by_device = ex_id 2,
     tm_op_id = ex_id 14\<rparr>"

lemma ex_materialize: "materialize ex_ops ex_decrypt ex_serde 7 = Some (Inr (ex_merge ex_ops None))"
  by code_simp

lemma ex_materialize2:
  "materialize ex_ops2 ex_decrypt ex_serde 7 = Some (Inr (ex_merge ex_ops2 (Some ex_tombstone)))"
  by code_simp

lemma ex_kinds [simp]:
  "op_kind ex_create = Create" "op_kind ex_attach = AttachAdd" "op_kind ex_edit = Update"
  "op_kind ex_delete = Delete" "op_kind ex_delete2 = Delete"
  "target_item ex_create = Some (ex_id 9)" "target_item ex_attach = Some (ex_id 9)"
  "target_item ex_edit = Some (ex_id 9)" "target_item ex_delete = Some (ex_id 9)"
  "target_item ex_delete2 = Some (ex_id 9)"
  by (simp_all add: ex_create_def ex_attach_def ex_edit_def ex_delete_def ex_delete2_def ex_op_def)

lemma ex_inj: "inj_on op_id (set ex_ops)" "inj_on op_id (set ex_ops2)"
proof -
  have "distinct (map op_id ex_ops)" "distinct (map op_id ex_ops2)" by code_simp+
  then show "inj_on op_id (set ex_ops)" "inj_on op_id (set ex_ops2)" by (simp_all add: distinct_map)
qed

lemma ex_one_add: "one_add ex_decrypt ex_serde ex_ops"
proof -
  have "{op \<in> set ex_ops. op_kind op = AttachAdd} = {ex_attach}" by (auto simp: ex_ops_def)
  then show ?thesis by (simp add: one_add_def)
qed

lemma ex_merge_items: "mat_items (ex_merge ops t) = [ex_item t]" "im_item_id (ex_item t) = ex_id 9"
  "im_tombstone (ex_item t) = t"
  by (simp_all add: ex_merge_def ex_item_def)

lemma ex_edit_snapshot: "ex_edit \<in> item_snapshots ex_ops (ex_id 9)"
  by (simp add: item_snapshots_def ex_ops_def)

lemma ex_sets:
  "item_deletes ex_ops (ex_id 9) = {ex_delete}" "item_deletes ex_ops2 (ex_id 9) = {ex_delete2}"
  "item_snapshots ex_ops2 (ex_id 9) = {ex_create, ex_edit}"
  by (auto simp: item_deletes_def item_snapshots_def ex_ops_def ex_ops2_def)

lemma ex_before:
  "\<not> stored_before ex_edit ex_delete" "stored_before ex_create ex_delete2"
  "stored_before ex_edit ex_delete2" "\<not> stored_before ex_delete2 ex_create"
  "\<not> stored_before ex_delete2 ex_edit"
  by code_simp+

section \<open>Properties\<close>

text \<open>
  Claim C1. Convergence: the merge of an op set does not depend on the order the ops arrived
  in. Whenever one order merges, every other order does, to the same items (versions, numbers,
  head, tombstone), the same attachment tombstones and the same attachments.
\<close>

theorem merge_convergence:
  assumes "materialize ops decrypt sd now = Some (Inr m)" and "mset ops' = mset ops"
    and "inj_on op_id (set ops)" and "one_add decrypt sd ops"
  shows "\<exists>m'. materialize ops' decrypt sd now = Some (Inr m') \<and> mat_items m' = mat_items m \<and>
    mat_attachment_tombstones m' = mat_attachment_tombstones m \<and>
    mset (mat_attachments m') = mset (mat_attachments m)"
proof -
  have sets: "set ops' = set ops" using assms(2) by (rule mset_eq_setD)
  let ?m0 = "\<lambda>ops. \<lparr>mat_ops = ops, mat_items = map (item_of decrypt sd ops now) (item_ids ops),
     mat_attachments = [], mat_attachment_tombstones = []\<rparr>"
  let ?kept = "\<lambda>ops. kept_adds decrypt sd (set (deleted_ids decrypt sd ops)) {} ops"
  let ?row = "\<lambda>op. projr (add_result decrypt sd op)"
  have lift: "\<forall>op\<in>set (scoped ops'). is_ok (lift_payload decrypt sd op)"
    using materialize_mat_items(1) [OF assms(1)] sets by simp
  have items: "mat_items m = map (item_of decrypt sd ops' now) (item_ids ops')"
    using materialize_mat_items(2) [OF assms(1)] items_perm [OF assms(2) [symmetric] assms(3)] by simp
  have "materialize_attachments decrypt sd ops (?m0 ops) = Inr m"
    using assms(1) by (simp add: materialize_eq split: if_splits)
  then obtain tombs where del: "deletes_ok decrypt sd ops" and add: "adds_ok decrypt sd ops"
    and kept: "\<forall>op\<in>set (?kept ops). is_ok (add_result decrypt sd op)"
    and tombs: "map_ok parse_id (deleted_ids decrypt sd ops) = Inr tombs"
    and m: "m = (?m0 ops)\<lparr>mat_attachments := map ?row (?kept ops), mat_attachment_tombstones := tombs\<rparr>"
    unfolding materialize_attachments_Inr by auto
  have ids: "deleted_ids decrypt sd ops' = deleted_ids decrypt sd ops"
    by (rule deleted_ids_cong [OF sets])
  have perm: "mset (?kept ops') = mset (?kept ops)"
    unfolding ids by (rule kept_adds_perm [OF assms(4) sets [symmetric], symmetric])
  let ?m' = "(?m0 ops')\<lparr>mat_attachments := map ?row (?kept ops'), mat_attachment_tombstones := tombs\<rparr>"
  have "materialize_attachments decrypt sd ops' (?m0 ops') = Inr ?m'"
    unfolding materialize_attachments_Inr
    using del add kept tombs ids sets mset_eq_setD [OF perm]
    by (simp add: deletes_ok_def adds_ok_def)
  then have "materialize ops' decrypt sd now = Some (Inr ?m')"
    using lift by (simp add: materialize_eq)
  moreover have "mset (map ?row (?kept ops')) = mset (map ?row (?kept ops))"
    using perm by simp
  ultimately show ?thesis using items m by auto
qed

lemma merge_convergence_witness:
  "\<exists>m'. materialize [ex_create, ex_edit, ex_attach, ex_delete] ex_decrypt ex_serde 7 = Some (Inr m') \<and>
    mat_items m' = mat_items (ex_merge ex_ops None) \<and>
    mat_attachment_tombstones m' = mat_attachment_tombstones (ex_merge ex_ops None) \<and>
    mset (mat_attachments m') = mset (mat_attachments (ex_merge ex_ops None))"
  by (rule merge_convergence [OF ex_materialize _ ex_inj(1) ex_one_add]) (simp add: ex_ops_def)

text \<open>
  Claim C11. No edit is lost: the version rows of a merged item are exactly its snapshot ops
  (creates, updates, restores), conflict losers included, in the total order
  (lamport, device, op id), numbered from 1; the current version is the last, and every row holds
  the decoded payload of its op.
\<close>

theorem merge_versions:
  assumes "materialize ops decrypt sd now = Some (Inr m)" and "it \<in> set (mat_items m)"
    and "length ops < 2 ^ 63"
  shows "map vm_op_id (im_versions it) = map op_id (sort_key stored_key
      (filter (\<lambda>op. target_item op = Some (im_item_id it) \<and> is_snapshot (op_kind op)) ops)) \<and>
    map vm_version (im_versions it) = map int [1..<length (im_versions it) + 1] \<and>
    im_current_version it = int (length (im_versions it)) \<and> im_versions it \<noteq> [] \<and>
    (\<forall>v\<in>set (im_versions it). \<exists>op\<in>set ops. vm_op_id v = op_id op \<and>
       lift_payload decrypt sd op = Inr (Some (vm_payload v)) \<and> vm_created_at v = created_at op \<and>
       vm_author_device_id v = device_id op)"
proof -
  let ?i = "im_item_id it"
  let ?snaps = "filter (\<lambda>op. is_snapshot (op_kind op)) (item_history ?i ops)"
  have it: "it = item_of decrypt sd ops now ?i" and has: "has_snapshot ops ?i"
    using assms(2) by (simp_all add: materialize_item_mem [OF assms(1)])
  note versions = item_of_versions [OF has assms(3), of decrypt sd now, folded it]
  have order: "?snaps = sort_key stored_key
      (filter (\<lambda>op. target_item op = Some ?i \<and> is_snapshot (op_kind op)) ops)"
    by (simp add: item_history_def filter_sort conj_commute)
  have "\<exists>op\<in>set ops. vm_op_id v = op_id op \<and> lift_payload decrypt sd op = Inr (Some (vm_payload v)) \<and>
      vm_created_at v = created_at op \<and> vm_author_device_id v = device_id op"
    if v: "v \<in> set (im_versions it)" for v
  proof -
    obtain op where op: "op \<in> set ops" "target_item op = Some ?i" "is_snapshot (op_kind op)"
      and row: "vm_op_id v = op_id op" "vm_payload v = the (m_payload (lifted decrypt sd op))"
        "vm_created_at v = created_at op" "vm_author_device_id v = device_id op"
      using version_rows_payload [OF v [unfolded versions(1)]] by auto
    have "is_ok (lift_payload decrypt sd op)"
      using materialize_mat_items(1) [OF assms(1)] op by simp
    then have "lift_payload decrypt sd op = Inr (Some (vm_payload v))"
      using op(3) row(2) by (auto simp: is_ok_iff lifted_def lift_payload_def bind_ok_Inr_iff)
    with op row show ?thesis by blast
  qed
  moreover have "map vm_op_id (im_versions it) = map op_id ?snaps"
    by (simp add: versions(1) version_rows_sel)
  ultimately show ?thesis using versions(2-4) by (simp add: order [symmetric])
qed

lemma merge_versions_witness:
  "map vm_op_id (im_versions (ex_item None)) = map op_id (sort_key stored_key
      (filter (\<lambda>op. target_item op = Some (im_item_id (ex_item None)) \<and> is_snapshot (op_kind op)) ex_ops)) \<and>
    map vm_version (im_versions (ex_item None)) = [1, 2] \<and> im_current_version (ex_item None) = 2"
proof -
  have len: "length (im_versions (ex_item None)) = 2" by (simp add: ex_item_def ex_versions_def)
  show ?thesis
    using merge_versions [OF ex_materialize, of "ex_item None"]
    by (simp add: ex_merge_items ex_ops_def len upt_rec)
qed

text \<open>
  The merge materializes exactly the items that have a snapshot op, each once, in
  ascending id order; a stray delete of an item never seen is inert.
\<close>

theorem merge_items_complete:
  assumes "materialize ops decrypt sd now = Some (Inr m)"
  shows "set (map im_item_id (mat_items m)) =
      {i. \<exists>op\<in>set ops. target_item op = Some i \<and> is_snapshot (op_kind op)} \<and>
    sorted_wrt (<) (map (as_bytes \<circ> im_item_id) (mat_items m))"
proof -
  have ids: "map im_item_id (mat_items m) = item_ids ops"
    by (simp add: materialize_mat_items(2) [OF assms] comp_def)
  have "sorted_wrt (<) (map (as_bytes \<circ> im_item_id) (mat_items m))"
    using sorted_item_ids [of ops] by (simp add: ids flip: map_map)
  moreover have "set (map im_item_id (mat_items m)) = {i. has_snapshot ops i}"
    unfolding ids using set_item_ids by auto
  ultimately show ?thesis unfolding has_snapshot_def by blast
qed

lemma merge_items_complete_witness:
  "set (map im_item_id (mat_items (ex_merge ex_ops None))) =
      {i. \<exists>op\<in>set ex_ops. target_item op = Some i \<and> is_snapshot (op_kind op)} \<and>
    sorted_wrt (<) (map (as_bytes \<circ> im_item_id) (mat_items (ex_merge ex_ops None)))"
  by (rule merge_items_complete [OF ex_materialize])

text \<open>
  When an item is deleted: exactly when the canonical delete (the greatest in the
  total order of the deletes no snapshot has observed) has observed every snapshot of the item;
  its tombstone then carries that delete's op and device and the retention window.
\<close>

theorem merge_deleted_iff:
  assumes "materialize ops decrypt sd now = Some (Inr m)" and "it \<in> set (mat_items m)"
    and "inj_on op_id (set ops)"
  shows "im_tombstone it = Some t \<longleftrightarrow>
    (\<exists>d. canonical_delete ops (im_item_id it) d \<and>
      (\<forall>s\<in>item_snapshots ops (im_item_id it). stored_before s d) \<and>
      t = \<lparr>tm_deleted_at = now, tm_purge_after = saturating_add_i64 now DEFAULT_RETENTION_MS,
           tm_deleted_by_device = device_id d, tm_op_id = op_id d\<rparr>)"
proof -
  have "it = item_of decrypt sd ops now (im_item_id it)"
    using assms(2) by (simp add: materialize_item_mem [OF assms(1)])
  then show ?thesis using tombstone_iff [OF assms(3), of decrypt sd now "im_item_id it" t] by simp
qed

lemma merge_deleted_iff_witness: "\<exists>d. canonical_delete ex_ops2 (ex_id 9) d \<and> op_id d = ex_id 14"
proof -
  have "\<exists>d. canonical_delete ex_ops2 (ex_id 9) d \<and>
      ex_tombstone = \<lparr>tm_deleted_at = 7, tm_purge_after = saturating_add_i64 7 DEFAULT_RETENTION_MS,
           tm_deleted_by_device = device_id d, tm_op_id = op_id d\<rparr>"
    using merge_deleted_iff [OF ex_materialize2 _ ex_inj(2), of "ex_item (Some ex_tombstone)" ex_tombstone]
    by (auto simp: ex_merge_items)
  then show ?thesis by (auto simp: ex_tombstone_def)
qed

text \<open>
  Edit wins: an item with an edit that no delete of it has observed (concurrent with
  or later than every delete) is live, whatever the Lamport clocks say.
\<close>

theorem merge_edit_wins:
  assumes "materialize ops decrypt sd now = Some (Inr m)" and "it \<in> set (mat_items m)"
    and "s \<in> item_snapshots ops (im_item_id it)"
    and "\<forall>d\<in>item_deletes ops (im_item_id it). \<not> stored_before s d"
    and "inj_on op_id (set ops)"
  shows "im_tombstone it = None"
proof (rule ccontr)
  assume "im_tombstone it \<noteq> None"
  then obtain t where t: "im_tombstone it = Some t" by blast
  have "it = item_of decrypt sd ops now (im_item_id it)"
    using assms(2) by (simp add: materialize_item_mem [OF assms(1)])
  with t obtain d where "canonical_delete ops (im_item_id it) d" "stored_before s d"
    using tombstone_iff [OF assms(5), of decrypt sd now "im_item_id it" t] assms(3) by auto
  with assms(4) show False by (auto simp: canonical_delete_def open_deletes_def)
qed

lemma merge_edit_wins_witness: "im_tombstone (ex_item None) = None"
  by (rule merge_edit_wins [OF ex_materialize, where s = ex_edit])
    (simp_all add: ex_merge_items ex_edit_snapshot ex_sets ex_before ex_inj)

text \<open>
  Delete wins: an item whose greatest delete has observed every edit of it, and whose
  edits have not observed that delete, carries that delete's tombstone.
\<close>

theorem merge_delete_wins:
  assumes "materialize ops decrypt sd now = Some (Inr m)" and "it \<in> set (mat_items m)"
    and "d \<in> item_deletes ops (im_item_id it)"
    and "\<forall>d'\<in>item_deletes ops (im_item_id it). stored_key d' \<le> stored_key d"
    and "\<forall>s\<in>item_snapshots ops (im_item_id it). stored_before s d \<and> \<not> stored_before d s"
    and "inj_on op_id (set ops)"
  shows "\<exists>t. im_tombstone it = Some t \<and> tm_op_id t = op_id d \<and> tm_deleted_by_device t = device_id d"
  by (rule greatest_delete_stands [OF assms])

lemma merge_delete_wins_witness:
  "\<exists>t. im_tombstone (ex_item (Some ex_tombstone)) = Some t \<and> tm_op_id t = op_id ex_delete2 \<and>
    tm_deleted_by_device t = device_id ex_delete2"
  by (rule merge_delete_wins [OF ex_materialize2])
    (simp_all add: ex_merge_items ex_sets ex_before ex_inj)

text \<open>
  An attachment exists after a merge exactly when an attach-add op names its id and
  no attach-delete op does, once per id, whatever the order of the two ops.
\<close>

theorem merge_attachments:
  assumes "materialize ops decrypt sd now = Some (Inr m)"
  shows "\<exists>kept. mat_attachments m = map (\<lambda>op. projr (add_result decrypt sd op)) kept \<and>
    set kept \<subseteq> set ops \<and> distinct (map (add_target decrypt sd) kept) \<and>
    add_target decrypt sd ` set kept =
      add_target decrypt sd ` {op \<in> set ops. op_kind op = AttachAdd} -
      delete_target decrypt sd ` {op \<in> set ops. op_kind op = AttachDelete}"
proof -
  let ?kept = "kept_adds decrypt sd (set (deleted_ids decrypt sd ops)) {} ops"
  have "mat_attachments m = map (\<lambda>op. projr (add_result decrypt sd op)) ?kept"
    using assms by (auto simp: materialize_eq materialize_attachments_Inr split: if_splits)
  moreover have "set ?kept \<subseteq> set ops" using kept_adds_subset by blast
  moreover have "set (deleted_ids decrypt sd ops) =
      delete_target decrypt sd ` {op \<in> set ops. op_kind op = AttachDelete}"
    by (auto simp: deleted_ids_def)
  ultimately show ?thesis
    using kept_adds_distinct kept_adds_targets [of decrypt sd _ "{}" ops]
    by (intro exI [of _ ?kept]) simp
qed

lemma merge_attachments_witness:
  "\<exists>kept. mat_attachments (ex_merge ex_ops None) = map (\<lambda>op. projr (add_result ex_decrypt ex_serde op)) kept \<and>
    set kept \<subseteq> set ex_ops \<and> distinct (map (add_target ex_decrypt ex_serde) kept) \<and>
    add_target ex_decrypt ex_serde ` set kept =
      add_target ex_decrypt ex_serde ` {op \<in> set ex_ops. op_kind op = AttachAdd} -
      delete_target ex_decrypt ex_serde ` {op \<in> set ex_ops. op_kind op = AttachDelete}"
  by (rule merge_attachments [OF ex_materialize])

text \<open>
  Claim C14. Where the delete rule and its table part. Delete \<open>d\<close> of an item, the greatest one, has
  observed every edit of it: the merge trashes the item for it. Let the op set grow by one more
  delete \<open>e\<close> of the item, say a concurrent one of another device: of greater Lamport clock, observed
  by no edit, and made without having seen some edit \<open>s\<close>. Whatever the order of arrival, the merge
  now holds the item live again, although every edit of it was observed by \<open>d\<close> and a delete was
  only added: \<open>e\<close> is the canonical delete now, and \<open>d\<close> is not asked any more.
\<close>

theorem merge_later_delete_lost:
  assumes "materialize ops decrypt sd now = Some (Inr m)" and "it \<in> set (mat_items m)"
    and "d \<in> item_deletes ops (im_item_id it)"
    and "\<forall>d'\<in>item_deletes ops (im_item_id it). stored_key d' \<le> stored_key d"
    and "\<forall>s'\<in>item_snapshots ops (im_item_id it). stored_before s' d \<and> \<not> stored_before d s'"
    and "materialize ops' decrypt sd now' = Some (Inr m')" and "it' \<in> set (mat_items m')"
    and "im_item_id it' = im_item_id it"
    and "set ops' = insert e (set ops)" and "inj_on op_id (set ops')"
    and "op_kind e = Delete" and "target_item e = Some (im_item_id it)"
    and "lamport d < lamport e"
    and "\<forall>s'\<in>item_snapshots ops (im_item_id it). \<not> stored_before e s'"
    and "s \<in> item_snapshots ops (im_item_id it)" and "\<not> stored_before s e"
  shows "(\<exists>t. im_tombstone it = Some t \<and> tm_op_id t = op_id d) \<and> im_tombstone it' = None"
proof
  let ?i = "im_item_id it"
  have inj: "inj_on op_id (set ops)" by (rule inj_on_subset [OF assms(10)]) (use assms(9) in blast)
  show "\<exists>t. im_tombstone it = Some t \<and> tm_op_id t = op_id d"
    using greatest_delete_stands [OF assms(1-5) inj] by blast
  have snaps: "item_snapshots ops' ?i = item_snapshots ops ?i"
    using assms(9,11) by (auto simp: item_snapshots_def)
  have dels: "item_deletes ops' ?i = insert e (item_deletes ops ?i)"
    using assms(9,11,12) by (auto simp: item_deletes_def)
  have less: "stored_key d < stored_key e" using assms(13) by (simp add: stored_key_def)
  have e: "e \<in> open_deletes ops' ?i" using assms(14) by (simp add: open_deletes_def snaps dels)
  have it': "it' = item_of decrypt sd ops' now' ?i"
    using assms(7,8) by (simp add: materialize_item_mem [OF assms(6)])
  show "im_tombstone it' = None"
  proof (rule ccontr)
    assume "im_tombstone it' \<noteq> None"
    then obtain t where "im_tombstone it' = Some t" by blast
    then obtain c where c: "canonical_delete ops' ?i c" "stored_before s c"
      using tombstone_iff [OF assms(10), of decrypt sd now' ?i t] it' assms(15) snaps by auto
    then have "c \<in> item_deletes ops ?i" and "stored_key e \<le> stored_key c"
      using e assms(16) dels by (auto simp: canonical_delete_def open_deletes_def)
    with assms(4) less show False by fastforce
  qed
qed

text \<open>
  Device 4 deletes the item having seen the creation and the edit; the delete of device 5, which
  missed the edit, arrives afterwards.
\<close>

lemma merge_later_delete_lost_witness:
  "im_tombstone (ex_item (Some ex_tombstone4)) = Some ex_tombstone4 \<and> im_tombstone (ex_item None) = None"
proof -
  have m: "materialize ex_ops4 ex_decrypt ex_serde 7 = Some (Inr (ex_merge ex_ops4 (Some ex_tombstone4)))"
    and m': "materialize ex_ops3 ex_decrypt ex_serde 7 = Some (Inr (ex_merge ex_ops3 None))"
    by code_simp+
  have before: "stored_before ex_create ex_delete4" "stored_before ex_edit ex_delete4"
    "\<not> stored_before ex_delete4 ex_create" "\<not> stored_before ex_delete4 ex_edit"
    "\<not> stored_before ex_delete5 ex_create" "\<not> stored_before ex_delete5 ex_edit"
    "\<not> stored_before ex_edit ex_delete5"
    by code_simp+
  have "distinct (map op_id ex_ops3)" by code_simp
  then have inj: "inj_on op_id (set ex_ops3)" by (simp add: distinct_map)
  have d4: "op_kind ex_delete4 = Delete" "target_item ex_delete4 = Some (ex_id 9)" "lamport ex_delete4 = 7"
    and d5: "op_kind ex_delete5 = Delete" "target_item ex_delete5 = Some (ex_id 9)" "lamport ex_delete5 = 8"
    by (simp_all add: ex_delete4_def ex_delete5_def ex_op_def)
  have dels: "item_deletes ex_ops4 (ex_id 9) = {ex_delete4}"
    and snaps: "item_snapshots ex_ops4 (ex_id 9) = {ex_create, ex_edit}"
    using d4 by (auto simp: item_deletes_def item_snapshots_def ex_ops4_def)
  have grown: "set ex_ops3 = insert ex_delete5 (set ex_ops4)" by (simp add: ex_ops3_def ex_ops4_def)
  have "(\<exists>t. im_tombstone (ex_item (Some ex_tombstone4)) = Some t \<and> tm_op_id t = op_id ex_delete4) \<and>
      im_tombstone (ex_item None) = None"
    by (rule merge_later_delete_lost [OF m _ _ _ _ m' _ _ grown inj, where s = ex_edit])
      (simp_all add: ex_merge_items dels snaps before d4 d5)
  then show ?thesis by (simp add: ex_merge_items)
qed

end
