(* ===== verification/Text.thy ===== *)
theory Text
  imports Sign
begin

text \<open>
  The string routines of Rust's standard library the components use (a \<open>String\<close> is its UTF-8
  bytes, a list of 8-bit characters): decimal printing, \<open>u64\<close> parsing, \<open>rsplit_once\<close>,
  \<open>strip_suffix\<close>, and the lowercase hex encoder the sources repeat.
\<close>

section \<open>Decimals\<close>

definition digit_char :: "nat \<Rightarrow> char" where
  "digit_char d = char_of (48 + d)"

fun nat_to_string :: "nat \<Rightarrow> string" where
  "nat_to_string n =
     (if n < 10 then [digit_char n] else nat_to_string (n div 10) @ [digit_char (n mod 10)])"

declare nat_to_string.simps [simp del]

definition int_to_string :: "int \<Rightarrow> string" where
  "int_to_string i = (if i < 0 then CHR ''-'' # nat_to_string (nat (- i)) else nat_to_string (nat i))"

definition u64_to_string :: "u64 \<Rightarrow> string" where
  "u64_to_string w = nat_to_string (unat w)"

definition digit_val :: "char \<Rightarrow> nat option" where
  "digit_val c = (let n = of_char c in if 48 \<le> n \<and> n \<le> 57 then Some (n - 48) else None)"

text \<open>\<open>checked_mul\<close> and \<open>checked_add\<close> at each digit.\<close>

fun parse_digits :: "string \<Rightarrow> nat \<Rightarrow> nat option" where
  "parse_digits [] v = Some v"
| "parse_digits (c # cs) v =
     (case digit_val c of None \<Rightarrow> None
      | Some d \<Rightarrow> if v * 10 + d < 2 ^ 64 then parse_digits cs (v * 10 + d) else None)"

text \<open>\<open>str::parse::<u64>\<close>: one leading plus sign is allowed, alone it is not a number.\<close>

definition parse_u64 :: "string \<Rightarrow> u64 option" where
  "parse_u64 s =
     (case s of [] \<Rightarrow> None
      | c # cs \<Rightarrow>
          if cs = [] \<and> (c = CHR ''+'' \<or> c = CHR ''-'') then None
          else map_option word_of_nat (parse_digits (if c = CHR ''+'' then cs else c # cs) 0))"

lemma digit_val_char [simp]: "d < 10 \<Longrightarrow> digit_val (digit_char d) = Some d"
  by (simp add: digit_val_def digit_char_def Let_def of_char_of)

lemma parse_digits_append:
  "parse_digits (a @ b) v = (case parse_digits a v of None \<Rightarrow> None | Some v \<Rightarrow> parse_digits b v)"
  by (induction a v rule: parse_digits.induct) (auto split: option.split)

lemma parse_digits_nat: "n < 2 ^ 64 \<Longrightarrow> parse_digits (nat_to_string n) 0 = Some n"
proof (induction n rule: nat_to_string.induct)
  case (1 n)
  show ?case
  proof (cases "n < 10")
    case True
    then show ?thesis by (simp add: nat_to_string.simps [of n])
  next
    case False
    have "n div 10 \<le> n" by simp
    then have "parse_digits (nat_to_string (n div 10)) 0 = Some (n div 10)"
      using 1 False by simp
    moreover have "n div 10 * 10 + n mod 10 = n" by simp
    ultimately show ?thesis
      using False 1(2) by (simp add: nat_to_string.simps [of n] parse_digits_append)
  qed
qed

lemma nat_to_string_digits: "c \<in> set (nat_to_string n) \<Longrightarrow> \<exists>d<10. c = digit_char d"
proof (induction n rule: nat_to_string.induct)
  case (1 n)
  show ?case
  proof (cases "n < 10")
    case True
    then show ?thesis using 1(2) by (auto simp: nat_to_string.simps [of n])
  next
    case False
    then have "c \<in> set (nat_to_string (n div 10)) \<or> c = digit_char (n mod 10)"
      using 1(2) by (auto simp: nat_to_string.simps [of n])
    moreover have "n mod 10 < 10" by simp
    ultimately show ?thesis using 1(1) [OF False] by blast
  qed
qed

lemma digit_char_in: "d < 10 \<Longrightarrow> digit_char d \<in> set ''0123456789''"
proof -
  assume "d < 10"
  then have "d = 0 \<or> d = 1 \<or> d = 2 \<or> d = 3 \<or> d = 4 \<or> d = 5 \<or> d = 6 \<or> d = 7 \<or> d = 8 \<or> d = 9"
    by presburger
  then show ?thesis by (elim disjE) (hypsubst, code_simp)+
qed

lemma nat_to_string_set: "set (nat_to_string n) \<subseteq> set ''0123456789''"
  using nat_to_string_digits digit_char_in by blast

lemma nat_to_string_Nil [simp]: "nat_to_string n \<noteq> []"
  by (subst nat_to_string.simps) simp

lemma parse_u64_to_string [simp]: "parse_u64 (u64_to_string w) = Some w"
proof -
  obtain c cs where s: "nat_to_string (unat w) = c # cs"
    by (cases "nat_to_string (unat w)") simp_all
  have "c \<in> set ''0123456789''" using nat_to_string_set [of "unat w"] s by auto
  then have "c \<noteq> CHR ''+''" "c \<noteq> CHR ''-''" by auto
  moreover have "parse_digits (c # cs) 0 = Some (unat w)"
    unfolding s [symmetric] by (rule parse_digits_nat) (use unsigned_less [of w] in simp)
  ultimately show ?thesis by (simp add: parse_u64_def u64_to_string_def s)
qed

text \<open>Printing is injective.\<close>

definition dec_value :: "string \<Rightarrow> nat" where
  "dec_value s = foldl (\<lambda>v c. v * 10 + (of_char c - 48)) 0 s"

lemma dec_value_to_string: "dec_value (nat_to_string n) = n"
proof (induction n rule: nat_to_string.induct)
  case (1 n)
  have digit: "of_char (digit_char d) - 48 = d" if "d < 10" for d
    using that by (simp add: digit_char_def of_char_of)
  show ?case
  proof (cases "n < 10")
    case True
    then show ?thesis by (simp add: nat_to_string.simps [of n] dec_value_def digit)
  next
    case False
    have "n mod 10 < 10" by simp
    then show ?thesis
      using False 1 by (simp add: nat_to_string.simps [of n] dec_value_def digit)
  qed
qed

lemma nat_to_string_inject [simp]: "nat_to_string m = nat_to_string n \<longleftrightarrow> m = n"
  by (metis dec_value_to_string)

lemma nat_to_string_chars: "c \<notin> set ''0123456789'' \<Longrightarrow> c \<notin> set (nat_to_string n)"
  using nat_to_string_set by blast

lemma int_to_string_inject [simp]: "int_to_string a = int_to_string b \<longleftrightarrow> a = b"
proof -
  have "CHR ''-'' \<notin> set (nat_to_string n)" for n by (rule nat_to_string_chars) simp
  then have "nat_to_string n \<noteq> CHR ''-'' # s" for n s by (metis list.set_intros(1))
  then show ?thesis
    by (auto simp: int_to_string_def eq_nat_nat_iff dest: sym)
qed

lemma int_to_string_chars: "c \<notin> set ''-0123456789'' \<Longrightarrow> c \<notin> set (int_to_string i)"
  using nat_to_string_chars by (simp add: int_to_string_def)

section \<open>Splitting\<close>

text \<open>\<open>rsplit_once\<close>: around the last occurrence of a character.\<close>

definition rsplit_once :: "char \<Rightarrow> string \<Rightarrow> (string \<times> string) option" where
  "rsplit_once c s =
     (case dropWhile (\<lambda>x. x \<noteq> c) (rev s) of [] \<Rightarrow> None
      | _ # pre \<Rightarrow> Some (rev pre, rev (takeWhile (\<lambda>x. x \<noteq> c) (rev s))))"

definition strip_suffix :: "string \<Rightarrow> string \<Rightarrow> string option" where
  "strip_suffix suffix s =
     (if length suffix \<le> length s \<and> drop (length s - length suffix) s = suffix
      then Some (take (length s - length suffix) s) else None)"

lemma rsplit_once_append [simp]: "c \<notin> set b \<Longrightarrow> rsplit_once c (a @ c # b) = Some (a, b)"
proof -
  assume "c \<notin> set b"
  then have "\<forall>x\<in>set (rev b). x \<noteq> c" by auto
  then have "dropWhile (\<lambda>x. x \<noteq> c) (rev b @ c # rev a) = c # rev a"
    "takeWhile (\<lambda>x. x \<noteq> c) (rev b @ c # rev a) = rev b"
    by (simp_all add: dropWhile_append takeWhile_append)
  then show ?thesis by (simp add: rsplit_once_def)
qed

lemma strip_suffix_append [simp]: "strip_suffix b (a @ b) = Some a"
  by (simp add: strip_suffix_def)

section \<open>Hex\<close>

text \<open>\<open>char::from_digit(d, 16)\<close> for a nibble, and the two-digits-per-byte loop.\<close>

definition hex_digit :: "byte \<Rightarrow> char" where
  "hex_digit d = (if d < 10 then char_of (48 + unat d) else char_of (87 + unat d))"

definition hex_encode :: "bytes \<Rightarrow> string" where
  "hex_encode bs = concat (map (\<lambda>b. [hex_digit (drop_bit 4 b), hex_digit (and b 0x0f)]) bs)"

lemma length_hex_encode [simp]: "length (hex_encode bs) = 2 * length bs"
  by (induction bs) (simp_all add: hex_encode_def)

lemma nibbles_less: "drop_bit 4 (b :: byte) < 16" "and (b :: byte) 0x0f < 16"
proof -
  have "unat (drop_bit 4 b) = unat b div 16"
    by (simp add: drop_bit_eq_div unat_div)
  also have "\<dots> < 16" using unat_byte_less [of b] by simp
  finally show "drop_bit 4 b < 16" by (simp add: word_less_nat_alt)
  have "and b (mask 4) = take_bit 4 b" by (simp add: take_bit_eq_mask)
  moreover have "mask 4 = (0x0f :: byte)" by (simp add: mask_eq_exp_minus_1)
  ultimately have "unat (and b 0x0f) = take_bit 4 (unat b)"
    by (simp flip: unsigned_take_bit_eq)
  then have "unat (and b 0x0f) = unat b mod 16" by (simp add: take_bit_eq_mod)
  then show "and b 0x0f < 16" by (simp add: word_less_nat_alt)
qed

lemma nibbles_join: "or (push_bit 4 (drop_bit 4 b)) (and b 0x0f) = (b :: byte)"
proof -
  have "and b 0x0f = take_bit 4 b" by (simp add: take_bit_eq_mask mask_eq_exp_minus_1)
  then show ?thesis by (simp add: bit_eq_iff bit_simps) auto
qed

section \<open>UTF-8\<close>

text \<open>\<open>String::from_utf8\<close>.\<close>

definition utf8_cont :: "byte \<Rightarrow> bool" where
  "utf8_cont b \<longleftrightarrow> 0x80 \<le> b \<and> b \<le> 0xBF"

fun utf8_valid :: "bytes \<Rightarrow> bool" where
  "utf8_valid [] \<longleftrightarrow> True"
| "utf8_valid (b # bs) \<longleftrightarrow>
     (if b < 0x80 then utf8_valid bs
      else case bs of [] \<Rightarrow> False | c # bs1 \<Rightarrow>
        if 0xC2 \<le> b \<and> b \<le> 0xDF then utf8_cont c \<and> utf8_valid bs1
        else case bs1 of [] \<Rightarrow> False | d # bs2 \<Rightarrow>
          if b = 0xE0 \<or> 0xE1 \<le> b \<and> b \<le> 0xEF
          then utf8_cont c \<and> (b = 0xE0 \<longrightarrow> 0xA0 \<le> c) \<and> (b = 0xED \<longrightarrow> c \<le> 0x9F) \<and> utf8_cont d \<and> utf8_valid bs2
          else case bs2 of [] \<Rightarrow> False | e # bs3 \<Rightarrow>
            0xF0 \<le> b \<and> b \<le> 0xF4 \<and> utf8_cont c \<and> (b = 0xF0 \<longrightarrow> 0x90 \<le> c) \<and> (b = 0xF4 \<longrightarrow> c \<le> 0x8F) \<and>
            utf8_cont d \<and> utf8_cont e \<and> utf8_valid bs3)"

end
