(* ===== verification/Aad.thy ===== *)
theory Aad
  imports Merge Text
begin

text \<open>
  \<open>lp-vault/src/aad.rs\<close>: the associated-data string that binds every ciphertext to its row, one
  function per row kind. Ids are 32 hex digits, integers decimal, components joined by a bar.
\<close>

definition id_hex :: "id \<Rightarrow> string" where
  "id_hex i = hex_encode (as_bytes i)"

fun join_parts :: "string list \<Rightarrow> string" where
  "join_parts [] = []"
| "join_parts [p] = p"
| "join_parts (p # ps) = p @ CHR ''|'' # join_parts ps"

definition aad_join :: "string list \<Rightarrow> bytes" where
  "aad_join parts = str_bytes (join_parts parts)"

definition aad_account_key :: "bytes" where
  "aad_account_key =
     str_bytes ''localpass/v1/wrap/account-key''"

definition aad_device_ed25519 :: "id \<Rightarrow> bytes" where
  "aad_device_ed25519 d =
     aad_join [''localpass/v1/wrap/device-ed25519'', id_hex d]"

definition aad_device_x25519 :: "id \<Rightarrow> bytes" where
  "aad_device_x25519 d =
     aad_join [''localpass/v1/wrap/device-x25519'', id_hex d]"

definition aad_vault_name :: "id \<Rightarrow> bytes" where
  "aad_vault_name v =
     aad_join [''localpass/v1/meta/vault-name'', id_hex v]"

definition aad_vault_key :: "id \<Rightarrow> bytes" where
  "aad_vault_key v =
     aad_join [''localpass/v1/wrap/vault-key'', id_hex v]"

definition aad_setting :: "string \<Rightarrow> bytes" where
  "aad_setting key =
     aad_join [''localpass/v1/meta/setting'', key]"

definition aad_share_vault_key :: "id \<Rightarrow> id \<Rightarrow> bytes" where
  "aad_share_vault_key v d =
     aad_join [''localpass/v1/share/vault-key'', id_hex v, id_hex d]"

definition aad_share_vault_name :: "id \<Rightarrow> id \<Rightarrow> bytes" where
  "aad_share_vault_name v d =
     aad_join [''localpass/v1/share/vault-name'', id_hex v, id_hex d]"

definition aad_item_key :: "id \<Rightarrow> id \<Rightarrow> int \<Rightarrow> bytes" where
  "aad_item_key v i n =
     aad_join [''localpass/v1/wrap/item-key'', id_hex v, id_hex i, int_to_string n]"

definition aad_item_payload :: "id \<Rightarrow> id \<Rightarrow> int \<Rightarrow> bytes" where
  "aad_item_payload v i n =
     aad_join [''localpass/v1/item/payload'', id_hex v, id_hex i, int_to_string n]"

definition aad_folder_name :: "id \<Rightarrow> id \<Rightarrow> bytes" where
  "aad_folder_name v i =
     aad_join [''localpass/v1/meta/folder-name'', id_hex v, id_hex i]"

definition aad_attachment_key :: "id \<Rightarrow> id \<Rightarrow> bytes" where
  "aad_attachment_key v i =
     aad_join [''localpass/v1/wrap/attachment-key'', id_hex v, id_hex i]"

definition aad_attachment_name :: "id \<Rightarrow> id \<Rightarrow> bytes" where
  "aad_attachment_name v i =
     aad_join [''localpass/v1/meta/attachment-name'', id_hex v, id_hex i]"

definition aad_attachment_blob :: "id \<Rightarrow> id \<Rightarrow> bytes" where
  "aad_attachment_blob v i =
     aad_join [''localpass/v1/attachment/blob'', id_hex v, id_hex i]"

definition aad_attachment_key_sync :: "id \<Rightarrow> id \<Rightarrow> bytes" where
  "aad_attachment_key_sync v i =
     aad_join [''localpass/v1/wrap/attachment-key-sync'', id_hex v, id_hex i]"

definition aad_attachment_name_sync :: "id \<Rightarrow> id \<Rightarrow> bytes" where
  "aad_attachment_name_sync v i =
     aad_join [''localpass/v1/meta/attachment-name-sync'', id_hex v, id_hex i]"

definition aad_op_payload :: "id \<Rightarrow> id \<Rightarrow> bytes" where
  "aad_op_payload v i =
     aad_join [''localpass/v1/op/payload'', id_hex v, id_hex i]"

definition aad_index_segment :: "id \<Rightarrow> int \<Rightarrow> u64 \<Rightarrow> bytes" where
  "aad_index_segment v seg gen =
     aad_join [''localpass/v1/index/segment'', id_hex v, int_to_string seg, u64_to_string gen]"

section \<open>The rows\<close>

text \<open>Every row kind with what it binds, its label and its arguments.\<close>

datatype aad_row =
    AccountKeyRow
  | DeviceEd25519Row id
  | DeviceX25519Row id
  | VaultNameRow id
  | VaultKeyRow id
  | SettingRow string
  | ShareVaultKeyRow id id
  | ShareVaultNameRow id id
  | ItemKeyRow id id int
  | ItemPayloadRow id id int
  | FolderNameRow id id
  | AttachmentKeyRow id id
  | AttachmentNameRow id id
  | AttachmentBlobRow id id
  | AttachmentKeySyncRow id id
  | AttachmentNameSyncRow id id
  | OpPayloadRow id id
  | IndexSegmentRow id int u64

fun aad_of :: "aad_row \<Rightarrow> bytes" where
  "aad_of AccountKeyRow = aad_account_key"
| "aad_of (DeviceEd25519Row d) = aad_device_ed25519 d"
| "aad_of (DeviceX25519Row d) = aad_device_x25519 d"
| "aad_of (VaultNameRow v) = aad_vault_name v"
| "aad_of (VaultKeyRow v) = aad_vault_key v"
| "aad_of (SettingRow key) = aad_setting key"
| "aad_of (ShareVaultKeyRow v d) = aad_share_vault_key v d"
| "aad_of (ShareVaultNameRow v d) = aad_share_vault_name v d"
| "aad_of (ItemKeyRow v i n) = aad_item_key v i n"
| "aad_of (ItemPayloadRow v i n) = aad_item_payload v i n"
| "aad_of (FolderNameRow v i) = aad_folder_name v i"
| "aad_of (AttachmentKeyRow v i) = aad_attachment_key v i"
| "aad_of (AttachmentNameRow v i) = aad_attachment_name v i"
| "aad_of (AttachmentBlobRow v i) = aad_attachment_blob v i"
| "aad_of (AttachmentKeySyncRow v i) = aad_attachment_key_sync v i"
| "aad_of (AttachmentNameSyncRow v i) = aad_attachment_name_sync v i"
| "aad_of (OpPayloadRow v i) = aad_op_payload v i"
| "aad_of (IndexSegmentRow v seg gen) = aad_index_segment v seg gen"

definition aad_labels :: "string list" where
  "aad_labels = [
     ''localpass/v1/wrap/account-key'',
     ''localpass/v1/wrap/device-ed25519'',
     ''localpass/v1/wrap/device-x25519'',
     ''localpass/v1/meta/vault-name'',
     ''localpass/v1/wrap/vault-key'',
     ''localpass/v1/meta/setting'',
     ''localpass/v1/share/vault-key'',
     ''localpass/v1/share/vault-name'',
     ''localpass/v1/wrap/item-key'',
     ''localpass/v1/item/payload'',
     ''localpass/v1/meta/folder-name'',
     ''localpass/v1/wrap/attachment-key'',
     ''localpass/v1/meta/attachment-name'',
     ''localpass/v1/attachment/blob'',
     ''localpass/v1/wrap/attachment-key-sync'',
     ''localpass/v1/meta/attachment-name-sync'',
     ''localpass/v1/op/payload'',
     ''localpass/v1/index/segment'']"

fun row_kind :: "aad_row \<Rightarrow> nat" where
  "row_kind (AccountKeyRow) = 0"
| "row_kind (DeviceEd25519Row _) = 1"
| "row_kind (DeviceX25519Row _) = 2"
| "row_kind (VaultNameRow _) = 3"
| "row_kind (VaultKeyRow _) = 4"
| "row_kind (SettingRow _) = 5"
| "row_kind (ShareVaultKeyRow _ _) = 6"
| "row_kind (ShareVaultNameRow _ _) = 7"
| "row_kind (ItemKeyRow _ _ _) = 8"
| "row_kind (ItemPayloadRow _ _ _) = 9"
| "row_kind (FolderNameRow _ _) = 10"
| "row_kind (AttachmentKeyRow _ _) = 11"
| "row_kind (AttachmentNameRow _ _) = 12"
| "row_kind (AttachmentBlobRow _ _) = 13"
| "row_kind (AttachmentKeySyncRow _ _) = 14"
| "row_kind (AttachmentNameSyncRow _ _) = 15"
| "row_kind (OpPayloadRow _ _) = 16"
| "row_kind (IndexSegmentRow _ _ _) = 17"

fun row_args :: "aad_row \<Rightarrow> string list" where
  "row_args (AccountKeyRow) = []"
| "row_args (DeviceEd25519Row d) = [id_hex d]"
| "row_args (DeviceX25519Row d) = [id_hex d]"
| "row_args (VaultNameRow v) = [id_hex v]"
| "row_args (VaultKeyRow v) = [id_hex v]"
| "row_args (SettingRow key) = [key]"
| "row_args (ShareVaultKeyRow v d) = [id_hex v, id_hex d]"
| "row_args (ShareVaultNameRow v d) = [id_hex v, id_hex d]"
| "row_args (ItemKeyRow v i n) = [id_hex v, id_hex i, int_to_string n]"
| "row_args (ItemPayloadRow v i n) = [id_hex v, id_hex i, int_to_string n]"
| "row_args (FolderNameRow v i) = [id_hex v, id_hex i]"
| "row_args (AttachmentKeyRow v i) = [id_hex v, id_hex i]"
| "row_args (AttachmentNameRow v i) = [id_hex v, id_hex i]"
| "row_args (AttachmentBlobRow v i) = [id_hex v, id_hex i]"
| "row_args (AttachmentKeySyncRow v i) = [id_hex v, id_hex i]"
| "row_args (AttachmentNameSyncRow v i) = [id_hex v, id_hex i]"
| "row_args (OpPayloadRow v i) = [id_hex v, id_hex i]"
| "row_args (IndexSegmentRow v seg gen) = [id_hex v, int_to_string seg, u64_to_string gen]"

section \<open>Hex\<close>

lemma of_char_of_byte: "n < 256 \<Longrightarrow> (of_char (char_of n :: char) :: byte) = word_of_nat n"
proof -
  assume "n < 256"
  have "(of_char (char_of n :: char) :: byte) = word_of_nat (of_char (char_of n :: char))"
    by (rule of_nat_of_char [symmetric])
  then show ?thesis using \<open>n < 256\<close> by (simp add: of_char_of)
qed

lemma hex_digit_decode: "d < 16 \<Longrightarrow> to_digit_16 (of_char (hex_digit d)) = Some d"
proof -
  assume d: "d < 16"
  then have n: "unat d < 16" by (simp add: word_less_nat_alt)
  then have "(of_char (hex_digit d) :: byte) = word_of_nat ((if d < 10 then 48 else 87) + unat d)"
    unfolding hex_digit_def by (cases "d < 10") (simp_all only: if_True if_False, (rule of_char_of_byte, simp)+)
  then show ?thesis
    using d n by (simp add: to_digit_16_def word_less_nat_alt word_le_nat_alt unat_word_ariths)
qed

lemma hex_pairs_encode: "hex_pairs (str_bytes (hex_encode bs)) = Inr bs"
proof (induction bs)
  case Nil
  then show ?case by (simp add: hex_encode_def str_bytes_def)
next
  case (Cons b bs)
  have "hex_encode (b # bs) = [hex_digit (drop_bit 4 b), hex_digit (and b 0x0f)] @ hex_encode bs"
    by (simp add: hex_encode_def)
  then have "str_bytes (hex_encode (b # bs)) = of_char (hex_digit (drop_bit 4 b)) #
      of_char (hex_digit (and b 0x0f)) # str_bytes (hex_encode bs)"
    by (simp add: str_bytes_def)
  then show ?case
    by (simp only: hex_pairs.simps hex_digit_decode [OF nibbles_less(1)] hex_digit_decode [OF nibbles_less(2)]
        ok_or_simps bind_ok_simps Cons.IH nibbles_join)
qed

lemma hex_bytes_encode: "hex_bytes (hex_encode bs) = Inr bs"
  by (simp add: hex_bytes_def hex_pairs_encode)

lemma hex_encode_inject [simp]: "hex_encode a = hex_encode b \<longleftrightarrow> a = b"
  by (metis hex_pairs_encode sum.inject(2))

lemma hex_chars: "map char_of ([48..<58] @ [97..<103]) = ''0123456789abcdef''"
  by code_simp

lemma hex_digit_chars: "d < 16 \<Longrightarrow> hex_digit d \<in> set ''0123456789abcdef''"
proof -
  assume d: "d < 16"
  have "\<exists>n\<in>{48..<58 :: nat} \<union> {97..<103}. hex_digit d = char_of n"
  proof (cases "d < 10")
    case True
    then show ?thesis
      by (intro bexI [of _ "48 + unat d"]) (simp_all add: hex_digit_def word_less_nat_alt)
  next
    case False
    with d show ?thesis
      by (intro bexI [of _ "87 + unat d"]) (simp_all add: hex_digit_def word_less_nat_alt)
  qed
  then have "\<exists>n\<in>set ([48..<58] @ [97..<103]). hex_digit d = char_of n"
    unfolding set_append set_upt .
  then have "hex_digit d \<in> set (map char_of ([48..<58] @ [97..<103]))"
    unfolding set_map by blast
  then show ?thesis unfolding hex_chars .
qed

lemma hex_encode_set: "set (hex_encode bs) \<subseteq> set ''0123456789abcdef''"
proof -
  have "hex_digit (drop_bit 4 b) \<in> set ''0123456789abcdef'' \<and>
      hex_digit (and b 0x0f) \<in> set ''0123456789abcdef''" for b
    using hex_digit_chars nibbles_less by blast
  then show ?thesis unfolding hex_encode_def set_concat set_map by auto
qed

lemma id_hex_inject [simp]: "id_hex i = id_hex j \<longleftrightarrow> i = j"
  by (simp add: id_hex_def id_eq_iff)

section \<open>Joining\<close>

definition bar_free :: "string \<Rightarrow> bool" where
  "bar_free s \<longleftrightarrow> CHR ''|'' \<notin> set s"

lemma bar_free_parts [simp]: "bar_free (id_hex i)" "bar_free (int_to_string n)" "bar_free (u64_to_string w)"
proof -
  have "CHR ''|'' \<notin> set ''0123456789abcdef''" by simp
  then show "bar_free (id_hex i)" using hex_encode_set by (auto simp: bar_free_def id_hex_def)
  show "bar_free (int_to_string n)" "bar_free (u64_to_string w)"
    unfolding bar_free_def u64_to_string_def
    by (rule int_to_string_chars nat_to_string_chars, simp)+
qed

lemma join_parts_head:
  assumes "bar_free p"
  shows "takeWhile (\<lambda>c. c \<noteq> CHR ''|'') (join_parts (p # ps)) = p"
    and "dropWhile (\<lambda>c. c \<noteq> CHR ''|'') (join_parts (p # ps)) =
      (if ps = [] then [] else CHR ''|'' # join_parts ps)"
proof -
  have "\<forall>c\<in>set p. c \<noteq> CHR ''|''" using assms by (auto simp: bar_free_def)
  then show "takeWhile (\<lambda>c. c \<noteq> CHR ''|'') (join_parts (p # ps)) = p"
    and "dropWhile (\<lambda>c. c \<noteq> CHR ''|'') (join_parts (p # ps)) =
      (if ps = [] then [] else CHR ''|'' # join_parts ps)"
    by (cases ps; simp add: takeWhile_append dropWhile_append takeWhile_eq_all_conv)+
qed

lemma join_parts_Cons_inject:
  assumes "join_parts (p # ps) = join_parts (q # qs)" and "bar_free p" and "bar_free q"
  shows "p = q \<and> (ps = [] \<longleftrightarrow> qs = []) \<and> (ps \<noteq> [] \<longrightarrow> join_parts ps = join_parts qs)"
  using join_parts_head [OF assms(2), of ps] join_parts_head [OF assms(3), of qs] assms(1)
  by (auto split: if_splits)

lemma u64_to_string_inject [simp]: "u64_to_string a = u64_to_string b \<longleftrightarrow> a = b"
  by (auto simp: u64_to_string_def intro: unsigned_word_eqI)

section \<open>No two rows share their associated data\<close>

lemma aad_of_join: "aad_of r = str_bytes (join_parts (aad_labels ! row_kind r # row_args r))"
  by (cases r) (simp_all add: aad_labels_def aad_join_def aad_account_key_def aad_device_ed25519_def aad_device_x25519_def aad_vault_name_def aad_vault_key_def aad_setting_def aad_share_vault_key_def aad_share_vault_name_def aad_item_key_def aad_item_payload_def aad_folder_name_def aad_attachment_key_def aad_attachment_name_def aad_attachment_blob_def aad_attachment_key_sync_def aad_attachment_name_sync_def aad_op_payload_def aad_index_segment_def)

lemma aad_labels_ok: "distinct aad_labels" "\<forall>l\<in>set aad_labels. bar_free l" "length aad_labels = 18"
  by code_simp+

lemma row_kind_less: "row_kind r < 18"
  by (cases r) simp_all

lemma bar_split:
  assumes "bar_free a" and "bar_free b"
  shows "a @ CHR ''|'' # x = b @ CHR ''|'' # y \<longleftrightarrow> a = b \<and> x = y"
proof -
  have a: "\<forall>c\<in>set a. c \<noteq> CHR ''|''" and b: "\<forall>c\<in>set b. c \<noteq> CHR ''|''"
    using assms by (auto simp: bar_free_def)
  have "takeWhile (\<lambda>c. c \<noteq> CHR ''|'') (a @ CHR ''|'' # x) = a"
    "takeWhile (\<lambda>c. c \<noteq> CHR ''|'') (b @ CHR ''|'' # y) = b"
    using a b by (simp_all add: takeWhile_append)
  then show ?thesis by auto
qed

lemma row_args_inject:
  "row_kind r = row_kind r' \<Longrightarrow> row_args r \<noteq> [] \<Longrightarrow>
     join_parts (row_args r) = join_parts (row_args r') \<Longrightarrow> r = r'"
  by (cases r; cases r'; simp add: bar_split)

section \<open>Properties\<close>

text \<open>
  Cut-and-paste safety: the associated data of a ciphertext determines its row, both
  the kind and every id, version, segment or generation it binds, so no two rows of any kind share
  their associated data.
\<close>

theorem aad_unambiguous:
  assumes "aad_of r = aad_of r'"
  shows "r = r'"
proof -
  let ?l = "\<lambda>r. aad_labels ! row_kind r"
  have eq: "join_parts (?l r # row_args r) = join_parts (?l r' # row_args r')"
    using assms by (simp add: aad_of_join)
  have free: "bar_free (?l x)" for x
    using aad_labels_ok(2,3) row_kind_less [of x] by simp
  note split = join_parts_Cons_inject [OF eq free free]
  have kind: "row_kind r = row_kind r'"
    using split aad_labels_ok(1,3) row_kind_less by (simp add: nth_eq_iff_index_eq)
  show ?thesis
  proof (cases "row_args r = []")
    case True
    then show ?thesis using kind by (cases r; cases r'; simp)
  next
    case False
    then show ?thesis using kind split by (intro row_args_inject) simp_all
  qed
qed

lemma aad_unambiguous_witness:
  "OpPayloadRow (Id [1]) (Id [2]) = OpPayloadRow (id_from_bytes [1]) (id_from_bytes [2])"
  by (rule aad_unambiguous) (simp add: id_from_bytes_def)

text \<open>
  The hex ids an attachment op carries read back as the ids they were written
  from, for every 16-byte id.
\<close>

theorem attachment_ids_parse:
  assumes "id_wf i"
  shows "parse_id (id_hex i) = Inr i"
  using assms by (cases i) (simp add: parse_id_def id_hex_def hex_bytes_encode id_from_slice_def)

lemma attachment_ids_parse_witness: "parse_id (id_hex (Id (replicate 16 0xAB))) = Inr (Id (replicate 16 0xAB))"
  by (rule attachment_ids_parse) simp

end
