(* ===== verification/Keys.thy ===== *)
theory Keys
  imports Sign
begin

text \<open>
  \<open>lp-crypto/src/envelope.rs\<close>, \<open>symmetric.rs\<close> and \<open>wrap.rs\<close>: the ciphertext container and its
  bytes, authenticated encryption under a 32-byte key, and the wrapping of one key under another
  for a purpose. XChaCha20-Poly1305 (the \<open>chacha20poly1305\<close> crate) is the parameter \<open>aead\<close>, with
  the nonce the system's random source hands to each call.
\<close>

section \<open>Envelopes\<close>

record envelope =
  env_nonce :: bytes
  env_ciphertext :: bytes

definition ENVELOPE_VERSION :: byte where
  "ENVELOPE_VERSION = 0x01"

definition NONCE_LEN :: nat where
  "NONCE_LEN = 24"

definition TAG_LEN :: nat where
  "TAG_LEN = 16"

definition SYMMETRIC_KEY_LEN :: nat where
  "SYMMETRIC_KEY_LEN = 32"

definition envelope_to_bytes :: "envelope \<Rightarrow> bytes" where
  "envelope_to_bytes e = ENVELOPE_VERSION # env_nonce e @ env_ciphertext e"

fun envelope_from_bytes :: "bytes \<Rightarrow> crypto_error + envelope" where
  "envelope_from_bytes [] = Inl (MalformedEnvelope ''empty input'')"
| "envelope_from_bytes (version # rest) =
     (if version \<noteq> ENVELOPE_VERSION then Inl (MalformedEnvelope ''unsupported envelope version'')
      else if length rest < NONCE_LEN then Inl (MalformedEnvelope ''truncated: nonce incomplete'')
      else if length (drop NONCE_LEN rest) < TAG_LEN
        then Inl (MalformedEnvelope ''truncated: ciphertext shorter than authentication tag'')
      else Inr \<lparr>env_nonce = take NONCE_LEN rest, env_ciphertext = drop NONCE_LEN rest\<rparr>)"

definition envelope_wf :: "envelope \<Rightarrow> bool" where
  "envelope_wf e \<longleftrightarrow> length (env_nonce e) = NONCE_LEN \<and> TAG_LEN \<le> length (env_ciphertext e)"

lemma envelope_from_to_bytes [simp]:
  "envelope_wf e \<Longrightarrow> envelope_from_bytes (envelope_to_bytes e) = Inr e"
  by (simp add: envelope_wf_def envelope_to_bytes_def)

lemma envelope_from_bytes_Inr:
  "envelope_from_bytes bs = Inr e \<longleftrightarrow> envelope_wf e \<and> bs = envelope_to_bytes e"
proof
  assume "envelope_from_bytes bs = Inr e"
  then show "envelope_wf e \<and> bs = envelope_to_bytes e"
    by (cases bs) (auto simp: envelope_wf_def envelope_to_bytes_def split: if_splits)
qed auto

lemma envelope_to_bytes_inject:
  "envelope_wf e \<Longrightarrow> envelope_wf e' \<Longrightarrow> envelope_to_bytes e = envelope_to_bytes e' \<Longrightarrow> e = e'"
  by (metis envelope_from_to_bytes sum.inject(2))

section \<open>Authenticated encryption\<close>

text \<open>The arguments are key, nonce, associated data and message; \<open>fresh_nonce\<close> is the draw of a call.\<close>

record aead =
  aead_encrypt :: "bytes \<Rightarrow> bytes \<Rightarrow> bytes \<Rightarrow> bytes \<Rightarrow> bytes option"
  aead_decrypt :: "bytes \<Rightarrow> bytes \<Rightarrow> bytes \<Rightarrow> bytes \<Rightarrow> bytes option"
  fresh_nonce :: "bytes \<Rightarrow> bytes \<Rightarrow> bytes \<Rightarrow> bytes"

text \<open>
  What the crate documents: a nonce has 24 bytes, the ciphertext is the message and a 16-byte tag,
  and decryption under the same key, nonce and associated data returns the message.
\<close>

definition aead_ok :: "aead \<Rightarrow> bool" where
  "aead_ok A \<longleftrightarrow> (\<forall>k n aad p. length (fresh_nonce A k aad p) = NONCE_LEN \<and>
     (\<forall>c. aead_encrypt A k n aad p = Some c \<longrightarrow>
        aead_decrypt A k n aad c = Some p \<and> length c = length p + TAG_LEN))"

definition sym_seal :: "aead \<Rightarrow> bytes \<Rightarrow> bytes \<Rightarrow> bytes \<Rightarrow> crypto_error + envelope" where
  "sym_seal A key plaintext aad =
     (let nonce = fresh_nonce A key aad plaintext
      in case aead_encrypt A key nonce aad plaintext of
           None \<Rightarrow> Inl CryptoDecryptionFailed
         | Some c \<Rightarrow> Inr \<lparr>env_nonce = nonce, env_ciphertext = c\<rparr>)"

definition sym_open :: "aead \<Rightarrow> bytes \<Rightarrow> envelope \<Rightarrow> bytes \<Rightarrow> crypto_error + bytes" where
  "sym_open A key e aad =
     ok_or CryptoDecryptionFailed (aead_decrypt A key (env_nonce e) aad (env_ciphertext e))"

lemma sym_seal_open:
  assumes "aead_ok A" and "sym_seal A key plaintext aad = Inr e"
  shows "sym_open A key e aad = Inr plaintext" and "envelope_wf e"
  using assms by (auto simp: aead_ok_def sym_seal_def sym_open_def envelope_wf_def Let_def split: option.splits)

section \<open>Key wrapping\<close>

definition wrap_key :: "aead \<Rightarrow> bytes \<Rightarrow> bytes \<Rightarrow> string \<Rightarrow> crypto_error + envelope" where
  "wrap_key A wrapping_key target purpose =
     bind_ok (check_label purpose) (\<lambda>purpose. sym_seal A wrapping_key target (str_bytes purpose))"

definition unwrap_key :: "aead \<Rightarrow> bytes \<Rightarrow> envelope \<Rightarrow> string \<Rightarrow> crypto_error + bytes" where
  "unwrap_key A wrapping_key e purpose =
     bind_ok (check_label purpose) (\<lambda>purpose.
     bind_ok (sym_open A wrapping_key e (str_bytes purpose)) (\<lambda>plaintext.
     if length plaintext \<noteq> SYMMETRIC_KEY_LEN
     then Inl (MalformedEnvelope ''unwrapped key had unexpected length'')
     else Inr plaintext))"

lemma check_label_Inr: "check_label l = Inr l' \<longleftrightarrow> l' = l \<and> (\<exists>x xs. strip_prefix label_namespace l = Some (x # xs))"
  by (auto simp: check_label_def split: option.splits list.splits)

lemma wrap_unwrap:
  assumes "aead_ok A" and "wrap_key A wk key purpose = Inr e" and "length key = SYMMETRIC_KEY_LEN"
  shows "unwrap_key A wk e purpose = Inr key" and "envelope_wf e"
  using assms sym_seal_open [of A wk key]
  by (auto simp: wrap_key_def unwrap_key_def bind_ok_Inr_iff check_label_Inr)

section \<open>Properties\<close>

text \<open>
  The bytes of a well-formed envelope read back to it, and whatever
  bytes \<open>from_bytes\<close> accepts are the bytes of the well-formed envelope it returns: no two byte
  strings are the same envelope.
\<close>

theorem envelope_codec:
  "envelope_from_bytes bs = Inr e \<longleftrightarrow> envelope_wf e \<and> bs = envelope_to_bytes e"
  by (rule envelope_from_bytes_Inr)

text \<open>
  A wrapped key unwraps under the same wrapping key and purpose, from its stored
  bytes; and a purpose outside the \<open>localpass/v1/\<close> namespace neither wraps nor unwraps, whatever
  the cipher does.
\<close>

theorem key_wrap:
  assumes "aead_ok A" and "length key = SYMMETRIC_KEY_LEN"
  shows "(wrap_key A wk key purpose = Inr e \<longrightarrow>
      bind_ok (envelope_from_bytes (envelope_to_bytes e)) (\<lambda>e. unwrap_key A wk e purpose) = Inr key) \<and>
    (strip_prefix label_namespace purpose = None \<longrightarrow>
      \<not> is_ok (wrap_key A wk key purpose) \<and> \<not> is_ok (unwrap_key A wk e' purpose))"
  using wrap_unwrap [OF assms(1) _ assms(2), of wk purpose e]
  by (auto simp: wrap_key_def unwrap_key_def check_label_def is_ok_def)

text \<open>A cipher for the witnesses: the key, nonce and associated data are checked, nothing is hidden.\<close>

definition ex_aead :: aead where
  "ex_aead =
     \<lparr>aead_encrypt = (\<lambda>k n aad p. Some (p @ replicate TAG_LEN (foldl (\<lambda>h b. 3 * h + b) 1 (k @ n @ aad)))),
      aead_decrypt = (\<lambda>k n aad c.
        if TAG_LEN \<le> length c \<and> drop (length c - TAG_LEN) c = replicate TAG_LEN (foldl (\<lambda>h b. 3 * h + b) 1 (k @ n @ aad))
        then Some (take (length c - TAG_LEN) c) else None),
      fresh_nonce = (\<lambda>k aad p. replicate NONCE_LEN 5)\<rparr>"

lemma ex_aead_ok [simp]: "aead_ok ex_aead"
  by (auto simp: aead_ok_def ex_aead_def)

lemma key_wrap_witness:
  "bind_ok (wrap_key ex_aead (replicate 32 1) (replicate 32 2) ''localpass/v1/wrap/item-key'')
     (\<lambda>e. bind_ok (envelope_from_bytes (envelope_to_bytes e))
       (\<lambda>e. unwrap_key ex_aead (replicate 32 1) e ''localpass/v1/wrap/item-key'')) = Inr (replicate 32 2)"
proof -
  have "is_ok (wrap_key ex_aead (replicate 32 1) (replicate 32 2) ''localpass/v1/wrap/item-key'')"
    by code_simp
  then obtain e where e: "wrap_key ex_aead (replicate 32 1) (replicate 32 2) ''localpass/v1/wrap/item-key'' = Inr e"
    by (auto simp: is_ok_iff)
  have "length (replicate 32 (2::byte)) = SYMMETRIC_KEY_LEN" by (simp add: SYMMETRIC_KEY_LEN_def)
  from key_wrap [OF ex_aead_ok this] e show ?thesis by simp
qed

end
