(* ===== verification/VaultFile.thy ===== *)
theory VaultFile
  imports Aad Keys
begin

text \<open>
  One vault file (\<open>lp-vault/src/db.rs\<close>): its tables, each the list of its rows or a sorted map on
  its primary key, the ciphertexts of its rows (\<open>vault.rs\<close>), and the op log with its readers
  (\<open>foreign.rs\<close>). A violated \<open>UNIQUE\<close> constraint is an SQLite error.
\<close>

section \<open>Tables\<close>

record op_row =
  r_op_id :: bytes
  r_vault_id :: bytes
  r_device_id :: bytes
  r_seq :: int
  r_prev_hash :: bytes
  r_lamport :: int
  r_op_kind :: int
  r_target_item_id :: "bytes option"
  r_target_version :: int
  r_payload_env :: bytes
  r_signature :: bytes
  r_observed :: bytes
  r_created_at :: int

record item_row =
  ir_current_version :: int
  ir_created_at :: int
  ir_updated_at :: int

record iv_row =
  iv_payload_env :: bytes
  iv_created_at :: int
  iv_author_device_id :: bytes
  iv_op_id :: bytes

record tomb_row =
  tr_deleted_at :: int
  tr_purge_after :: int
  tr_deleted_by_device :: bytes
  tr_op_id :: bytes

record att_row =
  ar_item_id :: bytes
  ar_version :: int
  ar_content_hash :: bytes
  ar_size_plain :: int
  ar_wrapped_key_env :: bytes
  ar_filename_env :: bytes
  ar_created_at :: int

record folder_row =
  fr_name_env :: bytes
  fr_created_at :: int

record 'x vault_db =
  db_ops :: "op_row list"
  db_items :: "(bytes, item_row) btree"
  db_versions :: "(bytes \<times> int, iv_row) btree"
  db_wrapped_keys :: "(bytes \<times> int, bytes) btree"
  db_tombstones :: "(bytes, tomb_row) btree"
  db_attachments :: "(bytes, att_row) btree"
  db_folders :: "(bytes, folder_row) btree"
  db_index :: 'x

text \<open>
  An open vault: its id and key, the cipher, the keys \<open>ItemKey::generate\<close> draws for the version
  rows of a call, and the search index, whose updates read items back through the given reader.
\<close>

record 'x vault_env =
  ve_vault_id :: id
  ve_vault_key :: bytes
  ve_aead :: aead
  ve_fresh_item_key :: "id \<Rightarrow> int \<Rightarrow> bytes"
  index_delete :: "(id \<Rightarrow> vault_error + item_payload) \<Rightarrow> id \<Rightarrow> 'x \<Rightarrow> vault_error + 'x"
  index_upsert :: "(id \<Rightarrow> vault_error + item_payload) \<Rightarrow> id \<Rightarrow> item_payload \<Rightarrow> 'x \<Rightarrow> vault_error + 'x"

section \<open>Ciphertexts of the rows\<close>

text \<open>\<open>from_utf8\<close> of a byte string that is ASCII by construction.\<close>

definition bytes_str :: "bytes \<Rightarrow> string" where
  "bytes_str bs = map (\<lambda>b. char_of (unat b)) bs"

lemma bytes_str_bytes [simp]: "bytes_str (str_bytes s) = s"
proof -
  have "(char_of (unat (of_char c :: byte)) :: char) = c" for c
  proof -
    have "(of_char c :: byte) = word_of_nat (of_char c)" by (simp add: of_nat_of_char)
    then have "unat (of_char c :: byte) = of_char c" by (simp add: unat_of_nat)
    then show ?thesis by simp
  qed
  then show ?thesis by (simp add: bytes_str_def str_bytes_def comp_def)
qed

definition item_key_aad_str :: "id \<Rightarrow> id \<Rightarrow> int \<Rightarrow> string" where
  "item_key_aad_str v i n = bytes_str (aad_item_key v i n)"

definition vk_open :: "'x vault_env \<Rightarrow> bytes \<Rightarrow> bytes \<Rightarrow> vault_error + bytes" where
  "vk_open env bs aad =
     map_err from_crypto (bind_ok (envelope_from_bytes bs) (\<lambda>e. sym_open (ve_aead env) (ve_vault_key env) e aad))"

definition vk_seal :: "'x vault_env \<Rightarrow> bytes \<Rightarrow> bytes \<Rightarrow> vault_error + bytes" where
  "vk_seal env plaintext aad =
     bind_ok (map_err from_crypto (sym_seal (ve_aead env) (ve_vault_key env) plaintext aad))
       (\<lambda>e. Inr (envelope_to_bytes e))"

definition seal_version :: "'x vault_env \<Rightarrow> id \<Rightarrow> int \<Rightarrow> bytes \<Rightarrow> vault_error + (bytes \<times> bytes)" where
  "seal_version env i version plaintext =
     (let item_key = ve_fresh_item_key env i version
      in bind_ok (map_err from_crypto
           (sym_seal (ve_aead env) item_key plaintext (aad_item_payload (ve_vault_id env) i version)))
           (\<lambda>p_env.
         bind_ok (map_err from_crypto
           (wrap_key (ve_aead env) (ve_vault_key env) item_key (item_key_aad_str (ve_vault_id env) i version)))
           (\<lambda>wrapped.
         Inr (envelope_to_bytes p_env, envelope_to_bytes wrapped))))"

definition unwrap_item_key :: "'x vault_env \<Rightarrow> id \<Rightarrow> int \<Rightarrow> bytes \<Rightarrow> vault_error + bytes" where
  "unwrap_item_key env i version wrapped_env =
     map_err from_crypto (bind_ok (envelope_from_bytes wrapped_env) (\<lambda>wrapped.
       unwrap_key (ve_aead env) (ve_vault_key env) wrapped (item_key_aad_str (ve_vault_id env) i version)))"

definition open_version :: "'x vault_env \<Rightarrow> id \<Rightarrow> int \<Rightarrow> bytes \<Rightarrow> bytes \<Rightarrow> vault_error + bytes" where
  "open_version env i version p_env wrapped_env =
     bind_ok (unwrap_item_key env i version wrapped_env) (\<lambda>ikey.
     map_err from_crypto (bind_ok (envelope_from_bytes p_env) (\<lambda>payload.
       sym_open (ve_aead env) ikey payload (aad_item_payload (ve_vault_id env) i version))))"

definition read_version_plaintext :: "'x vault_env \<Rightarrow> 'x vault_db \<Rightarrow> id \<Rightarrow> int \<Rightarrow> vault_error + bytes" where
  "read_version_plaintext env db i version =
     (case (bt_get (db_versions db) (as_bytes i, version), bt_get (db_wrapped_keys db) (as_bytes i, version)) of
        (Some ver, Some wrapped_env) \<Rightarrow> open_version env i version (iv_payload_env ver) wrapped_env
      | _ \<Rightarrow> Inl (NotFoundEntity ''item version''))"

definition load_item_key :: "'x vault_env \<Rightarrow> 'x vault_db \<Rightarrow> id \<Rightarrow> int \<Rightarrow> vault_error + bytes" where
  "load_item_key env db i version =
     bind_ok (ok_or (NotFoundEntity ''item version'') (bt_get (db_wrapped_keys db) (as_bytes i, version)))
       (unwrap_item_key env i version)"

definition read_item_payload :: "'x vault_env \<Rightarrow> serde \<Rightarrow> 'x vault_db \<Rightarrow> id \<Rightarrow> vault_error + item_payload" where
  "read_item_payload env sd db i =
     bind_ok (ok_or (NotFoundEntity ''item'') (bt_get (db_items db) (as_bytes i))) (\<lambda>row.
     bind_ok (read_version_plaintext env db i (ir_current_version row)) (from_canonical sd))"

text \<open>The purposes are in the namespace, so a wrap fails only where the cipher does.\<close>

lemma check_item_key_aad: "check_label (item_key_aad_str v i n) = Inr (item_key_aad_str v i n)"
  by (simp add: item_key_aad_str_def aad_item_key_def aad_join_def check_label_def strip_prefix_def
      label_namespace_def)

lemma seal_version_ok:
  assumes "\<And>k n aad p. aead_encrypt (ve_aead env) k n aad p \<noteq> None"
  shows "is_ok (seal_version env i n plaintext)"
proof -
  have "is_ok (sym_seal (ve_aead env) k p aad)" for k p aad
    using assms by (auto simp: sym_seal_def Let_def is_ok_def split: option.splits)
  then have "\<forall>k p aad. \<exists>e. sym_seal (ve_aead env) k p aad = Inr e"
    by (simp add: is_ok_iff)
  then obtain sealed where "\<And>k p aad. sym_seal (ve_aead env) k p aad = Inr (sealed k p aad)"
    by metis
  then show ?thesis by (simp add: seal_version_def Let_def wrap_key_def check_item_key_aad)
qed

text \<open>What a version was sealed to reads back, and only under its own item and number.\<close>

definition vault_env_ok :: "'x vault_env \<Rightarrow> bool" where
  "vault_env_ok env \<longleftrightarrow> aead_ok (ve_aead env) \<and>
     (\<forall>i n. length (ve_fresh_item_key env i n) = SYMMETRIC_KEY_LEN)"

lemma map_err_bind: "map_err g (bind_ok m f) = bind_ok (map_err g m) (\<lambda>x. map_err g (f x))"
  by (cases m) simp_all

lemma open_seal_version:
  assumes "vault_env_ok env" and "seal_version env i n plaintext = Inr (p, w)"
  shows "open_version env i n p w = Inr plaintext"
proof -
  have A: "aead_ok (ve_aead env)" and k: "length (ve_fresh_item_key env i n) = SYMMETRIC_KEY_LEN"
    using assms(1) by (simp_all add: vault_env_ok_def)
  from assms(2) obtain pe we where
    pe: "sym_seal (ve_aead env) (ve_fresh_item_key env i n) plaintext (aad_item_payload (ve_vault_id env) i n) = Inr pe"
    and we: "wrap_key (ve_aead env) (ve_vault_key env) (ve_fresh_item_key env i n)
        (item_key_aad_str (ve_vault_id env) i n) = Inr we"
    and "p = envelope_to_bytes pe" "w = envelope_to_bytes we"
    by (auto simp: seal_version_def Let_def bind_ok_Inr_iff map_err_Inr_iff)
  then show ?thesis
    using sym_seal_open [OF A pe] wrap_unwrap [OF A we k]
    by (simp add: open_version_def unwrap_item_key_def)
qed

lemma vk_open_seal:
  assumes "vault_env_ok env" and "vk_seal env plaintext aad = Inr bs"
  shows "vk_open env bs aad = Inr plaintext"
  using assms sym_seal_open [of "ve_aead env" "ve_vault_key env" plaintext aad]
  by (auto simp: vk_seal_def vk_open_def vault_env_ok_def bind_ok_Inr_iff map_err_Inr_iff)

section \<open>SQL\<close>

definition bt_delete_where :: "('k \<Rightarrow> bool) \<Rightarrow> ('k, 'v) btree \<Rightarrow> ('k, 'v) btree" where
  "bt_delete_where P m = filter (\<lambda>kv. \<not> P (fst kv)) m"

text \<open>An \<open>INSERT\<close> fails on a taken primary key.\<close>

definition sql_insert ::
  "string \<Rightarrow> 'k::linorder \<Rightarrow> 'v \<Rightarrow> ('k, 'v) btree \<Rightarrow> vault_error + ('k, 'v) btree" where
  "sql_insert tbl k v m =
     (case bt_get m k of None \<Rightarrow> Inr (bt_insert k v m)
      | Some _ \<Rightarrow> Inl (Sqlite (''UNIQUE constraint failed: '' @ tbl)))"

lemma sql_insert_Inr: "sql_insert t k v m = Inr m' \<longleftrightarrow> bt_get m k = None \<and> m' = bt_insert k v m"
  by (auto simp: sql_insert_def split: option.split)

section \<open>The op log\<close>

definition i64_try_from_u64 :: "u64 \<Rightarrow> int option" where
  "i64_try_from_u64 w = (if uint w \<le> i64_max then Some (uint w) else None)"

definition u64_try_from_i64 :: "int \<Rightarrow> u64 option" where
  "u64_try_from_i64 i = (if 0 \<le> i then Some (word_of_int i) else None)"

definition insert_stored_op :: "stored_op \<Rightarrow> op_row list \<Rightarrow> vault_error + op_row list" where
  "insert_stored_op op rows =
     (if \<exists>r\<in>set rows. r_op_id r = as_bytes (op_id op) then Inr rows
      else
        bind_ok (ok_or (VaultInvalid ''lamport out of range'') (i64_try_from_u64 (lamport op))) (\<lambda>lam.
        bind_ok (ok_or (VaultInvalid ''seq out of range'') (i64_try_from_u64 (seq op))) (\<lambda>sq.
        bind_ok (ok_or (VaultPanic ''observed-heads count fits u32'') (observed_bytes op)) (\<lambda>obs.
        if \<exists>r\<in>set rows. r_device_id r = as_bytes (device_id op) \<and> r_seq r = sq
        then Inl (Sqlite ''UNIQUE constraint failed: ops.device_id, ops.seq'')
        else Inr (rows @
          [\<lparr>r_op_id = as_bytes (op_id op), r_vault_id = as_bytes (vault_id op),
            r_device_id = as_bytes (device_id op), r_seq = sq, r_prev_hash = prev_hash op,
            r_lamport = lam, r_op_kind = uint (op_kind_code (op_kind op)),
            r_target_item_id = map_option as_bytes (target_item op),
            r_target_version = uint (target_version op), r_payload_env = payload_env op,
            r_signature = signature op, r_observed = obs, r_created_at = created_at op\<rparr>])))))"

definition into_stored :: "op_row \<Rightarrow> vault_error + stored_op" where
  "into_stored r =
     (if length (r_prev_hash r) \<noteq> 32 then Inl (VaultInvalid ''stored prev_hash not 32 bytes'')
      else if length (r_signature r) \<noteq> 64 then Inl (VaultInvalid ''stored signature not 64 bytes'')
      else
        bind_ok (ok_or (VaultInvalid ''unknown op_kind'')
          (if 0 \<le> r_op_kind r \<and> r_op_kind r < 256 then op_kind_from_code (word_of_int (r_op_kind r)) else None))
          (\<lambda>kind.
        bind_ok (id_from_slice (r_op_id r)) (\<lambda>oid.
        bind_ok (id_from_slice (r_vault_id r)) (\<lambda>vid.
        bind_ok (id_from_slice (r_device_id r)) (\<lambda>did.
        bind_ok (ok_or (VaultInvalid ''seq out of range'') (u64_try_from_i64 (r_seq r))) (\<lambda>sq.
        bind_ok (ok_or (VaultInvalid ''lamport out of range'') (u64_try_from_i64 (r_lamport r))) (\<lambda>lam.
        bind_ok (case r_target_item_id r of None \<Rightarrow> Inr None
                 | Some bs \<Rightarrow> bind_ok (id_from_slice bs) (\<lambda>i. Inr (Some i))) (\<lambda>target.
        bind_ok (ok_or (VaultInvalid ''target_version out of range'')
          (if 0 \<le> r_target_version r \<and> r_target_version r < 2 ^ 32
           then Some (word_of_int (r_target_version r)) else None)) (\<lambda>tv.
        bind_ok (oh_decode (r_observed r)) (\<lambda>obs.
        Inr \<lparr>op_id = oid, vault_id = vid, device_id = did, seq = sq, prev_hash = r_prev_hash r,
             lamport = lam, op_kind = kind, target_item = target, target_version = tv,
             payload_env = r_payload_env r, observed = obs, signature = r_signature r,
             created_at = r_created_at r\<rparr>))))))))))"

definition read_ops :: "op_row list \<Rightarrow> id option \<Rightarrow> vault_error + stored_op list" where
  "read_ops rows device =
     map_ok into_stored
       (case device of
          Some d \<Rightarrow> sort_key r_seq (filter (\<lambda>r. r_device_id r = as_bytes d) rows)
        | None \<Rightarrow> sort_key (\<lambda>r. (r_lamport r, r_device_id r, r_seq r)) rows)"

definition stored_ops :: "'x vault_db \<Rightarrow> vault_error + stored_op list" where
  "stored_ops db = read_ops (db_ops db) None"

definition stored_ops_for :: "'x vault_db \<Rightarrow> id \<Rightarrow> vault_error + stored_op list" where
  "stored_ops_for db d = read_ops (db_ops db) (Some d)"

definition last_seq_for :: "'x vault_db \<Rightarrow> id \<Rightarrow> vault_error + u64" where
  "last_seq_for db d =
     (let last = (case filter (\<lambda>r. r_device_id r = as_bytes d) (db_ops db) of [] \<Rightarrow> 0
                  | r # rs \<Rightarrow> fold max (map r_seq rs) (r_seq r))
      in Inr (case u64_try_from_i64 last of None \<Rightarrow> 0 | Some w \<Rightarrow> w))"

definition has_op :: "'x vault_db \<Rightarrow> id \<Rightarrow> vault_error + bool" where
  "has_op db i = Inr (\<exists>r\<in>set (db_ops db). r_op_id r = as_bytes i)"

definition decrypt_op_payload :: "'x vault_env \<Rightarrow> id \<Rightarrow> bytes \<Rightarrow> vault_error + bytes" where
  "decrypt_op_payload env oid payload = vk_open env payload (aad_op_payload (ve_vault_id env) oid)"

definition seal_op_payload :: "'x vault_env \<Rightarrow> id \<Rightarrow> bytes \<Rightarrow> vault_error + bytes" where
  "seal_op_payload env oid plaintext = vk_seal env plaintext (aad_op_payload (ve_vault_id env) oid)"

section \<open>Rows and ops\<close>

definition row_of :: "stored_op \<Rightarrow> op_row" where
  "row_of op = \<lparr>r_op_id = as_bytes (op_id op), r_vault_id = as_bytes (vault_id op),
     r_device_id = as_bytes (device_id op), r_seq = uint (seq op), r_prev_hash = prev_hash op,
     r_lamport = uint (lamport op), r_op_kind = uint (op_kind_code (op_kind op)),
     r_target_item_id = map_option as_bytes (target_item op),
     r_target_version = uint (target_version op), r_payload_env = payload_env op,
     r_signature = signature op, r_observed = oh_bytes (observed op), r_created_at = created_at op\<rparr>"

text \<open>An op that fits the columns: the array lengths, and seq and Lamport clock in \<open>i64\<close>.\<close>

definition row_fits :: "stored_op \<Rightarrow> bool" where
  "row_fits op \<longleftrightarrow> op_wf op \<and> oh_fits (observed op) \<and> uint (seq op) \<le> i64_max \<and> uint (lamport op) \<le> i64_max"

lemma uint_code_bounds: "0 \<le> uint (c :: byte)" "uint (c :: byte) < 256"
  using unsigned_less [of c, where ?'a = int] by simp_all

lemma uint_u32_bound: "uint (c :: u32) < 2 ^ 32"
  using unsigned_less [of c, where ?'a = int] by simp

lemma row_of_into_stored: "row_fits op \<Longrightarrow> into_stored (row_of op) = Inr op"
  using uint_code_bounds [of "op_kind_code (op_kind op)"] uint_u32_bound [of "target_version op"]
  by (cases "target_item op")
    (auto simp: into_stored_def row_of_def row_fits_def op_wf_def id_wf_def id_from_slice_def
      u64_try_from_i64_def oh_decode_bytes)

lemma insert_stored_op_Inr:
  "insert_stored_op op rows = Inr rows' \<longleftrightarrow>
     (if \<exists>r\<in>set rows. r_op_id r = as_bytes (op_id op) then rows' = rows
      else uint (lamport op) \<le> i64_max \<and> uint (seq op) \<le> i64_max \<and> oh_fits (observed op) \<and>
        \<not> (\<exists>r\<in>set rows. r_device_id r = as_bytes (device_id op) \<and> r_seq r = uint (seq op)) \<and>
        rows' = rows @ [row_of op])"
  by (auto simp: insert_stored_op_def bind_ok_Inr_iff ok_or_Inr_iff i64_try_from_u64_def
      observed_bytes_def oh_to_bytes_fits row_of_def split: if_splits)

definition log_ok :: "op_row list \<Rightarrow> stored_op list \<Rightarrow> bool" where
  "log_ok rows ops \<longleftrightarrow> rows = map row_of ops \<and> (\<forall>op\<in>set ops. row_fits op) \<and>
     distinct (map op_id ops) \<and> distinct (map (\<lambda>op. (device_id op, seq op)) ops)"

lemma row_of_sel [simp]:
  "r_op_id (row_of op) = as_bytes (op_id op)" "r_device_id (row_of op) = as_bytes (device_id op)"
  "r_seq (row_of op) = uint (seq op)" "r_lamport (row_of op) = uint (lamport op)"
  by (simp_all add: row_of_def)

lemma insert_stored_op_log:
  assumes "insert_stored_op op rows = Inr rows'" and "log_ok rows ops" and "op_wf op"
  shows "log_ok rows' (if op_id op \<in> op_id ` set ops then ops else ops @ [op])"
proof (cases "op_id op \<in> op_id ` set ops")
  case True
  then have "\<exists>r\<in>set rows. r_op_id r = as_bytes (op_id op)"
    using assms(2) by (auto simp: log_ok_def)
  with True assms(1,2) show ?thesis by (simp add: insert_stored_op_Inr)
next
  case False
  then have "\<not> (\<exists>r\<in>set rows. r_op_id r = as_bytes (op_id op))"
    using assms(2) by (auto simp: log_ok_def image_iff id_eq_iff)
  then have r: "uint (lamport op) \<le> i64_max" "uint (seq op) \<le> i64_max" "oh_fits (observed op)"
    "\<not> (\<exists>r\<in>set rows. r_device_id r = as_bytes (device_id op) \<and> r_seq r = uint (seq op))"
    "rows' = rows @ [row_of op]"
    using assms(1) by (simp_all add: insert_stored_op_Inr)
  have "(device_id op, seq op) \<notin> (\<lambda>op. (device_id op, seq op)) ` set ops"
    using r(4) assms(2) by (auto simp: log_ok_def)
  with r False assms(2,3) show ?thesis by (simp add: log_ok_def row_fits_def)
qed

text \<open>The ops of a batch that are new to the log, first occurrences, in order.\<close>

fun fresh_ops :: "id set \<Rightarrow> stored_op list \<Rightarrow> stored_op list" where
  "fresh_ops known [] = []"
| "fresh_ops known (op # ops) =
     (if op_id op \<in> known then fresh_ops known ops
      else op # fresh_ops (insert (op_id op) known) ops)"

lemma insert_ops_log:
  assumes "fold_ok insert_stored_op new rows = Inr rows'" and "log_ok rows ops"
    and "\<forall>op\<in>set new. op_wf op"
  shows "log_ok rows' (ops @ fresh_ops (op_id ` set ops) new)"
  using assms
proof (induction new arbitrary: rows ops)
  case Nil
  then show ?case by simp
next
  case (Cons op new)
  obtain rows1 where r1: "insert_stored_op op rows = Inr rows1"
    and rest: "fold_ok insert_stored_op new rows1 = Inr rows'"
    using Cons.prems(1) by (auto simp: bind_ok_Inr_iff)
  have wf: "op_wf op" and wfs: "\<forall>op\<in>set new. op_wf op" using Cons.prems(3) by simp_all
  from Cons.IH [OF rest insert_stored_op_log [OF r1 Cons.prems(2) wf] wfs]
  show ?case by (cases "op_id op \<in> op_id ` set ops") simp_all
qed

lemma fresh_ops_new:
  "distinct (map op_id new) \<Longrightarrow> \<forall>op\<in>set new. op_id op \<notin> known \<Longrightarrow> fresh_ops known new = new"
proof (induction new arbitrary: known)
  case (Cons op new)
  have "\<forall>o'\<in>set new. op_id o' \<notin> insert (op_id op) known"
  proof
    fix o'
    assume "o' \<in> set new"
    moreover have "op_id op \<notin> op_id ` set new" using Cons.prems(1) by simp
    ultimately have "op_id o' \<noteq> op_id op" by (metis imageI)
    then show "op_id o' \<notin> insert (op_id op) known" using Cons.prems(2) \<open>o' \<in> set new\<close> by simp
  qed
  with Cons show ?case by simp
qed simp

lemma fresh_ops_subset: "set (fresh_ops known new) \<subseteq> set new"
  by (induction new arbitrary: known) (auto dest: subsetD)

lemma fresh_ops_length: "length (fresh_ops known new) \<le> length new"
  by (induction new arbitrary: known) (simp_all add: le_SucI)

lemma fresh_ops_ids: "op_id ` set (fresh_ops known new) = op_id ` set new - known"
  by (induction new arbitrary: known) auto

text \<open>Reading the log back.\<close>

definition log_key :: "stored_op \<Rightarrow> int \<times> bytes \<times> int" where
  "log_key op = (uint (lamport op), as_bytes (device_id op), uint (seq op))"

lemma read_ops_all:
  "log_ok rows ops \<Longrightarrow> read_ops rows None = Inr (sort_key log_key ops)"
proof -
  assume log: "log_ok rows ops"
  have "sort_key (\<lambda>r. (r_lamport r, r_device_id r, r_seq r)) rows = map row_of (sort_key log_key ops)"
    using log by (simp add: log_ok_def sort_key_map log_key_def [abs_def])
  moreover have "map_ok into_stored (map row_of (sort_key log_key ops)) = Inr (sort_key log_key ops)"
    using log by (intro map_ok_map_inverse row_of_into_stored) (simp add: log_ok_def)
  ultimately show ?thesis by (simp add: read_ops_def)
qed

lemma read_ops_device:
  "log_ok rows ops \<Longrightarrow>
     read_ops rows (Some d) = Inr (sort_key (\<lambda>op. uint (seq op)) (filter (\<lambda>op. device_id op = d) ops))"
proof -
  assume log: "log_ok rows ops"
  have "sort_key r_seq (filter (\<lambda>r. r_device_id r = as_bytes d) rows) =
      map row_of (sort_key (\<lambda>op. uint (seq op)) (filter (\<lambda>op. device_id op = d) ops))"
    using log by (simp add: log_ok_def sort_key_map filter_map comp_def id_eq_iff)
  moreover have "map_ok into_stored (map row_of (sort_key (\<lambda>op. uint (seq op)) (filter (\<lambda>op. device_id op = d) ops)))
      = Inr (sort_key (\<lambda>op. uint (seq op)) (filter (\<lambda>op. device_id op = d) ops))"
    using log by (intro map_ok_map_inverse row_of_into_stored) (simp add: log_ok_def)
  ultimately show ?thesis by (simp add: read_ops_def)
qed

end
