(* ===== verification/Effects.thy ===== *)
theory Effects
  imports Errors
begin

text \<open>
  Operations on a state that may fail part-way: the state reached is kept beside the error, as it
  is in the program, where nothing undoes the writes made before an early return.
\<close>

type_synonym ('e, 's, 'a) eff = "'s \<Rightarrow> ('e + 'a) \<times> 's"
type_synonym ('s, 'a) io = "(sync_error, 's, 'a) eff"

definition io_ok :: "'a \<Rightarrow> ('e, 's, 'a) eff" where
  "io_ok x s = (Inr x, s)"

definition io_err :: "'e \<Rightarrow> ('e, 's, 'a) eff" where
  "io_err e s = (Inl e, s)"

definition io_lift :: "'e + 'a \<Rightarrow> ('e, 's, 'a) eff" where
  "io_lift r s = (r, s)"

text \<open>\<open>f(m?)\<close>.\<close>

definition io_bind :: "('e, 's, 'a) eff \<Rightarrow> ('a \<Rightarrow> ('e, 's, 'b) eff) \<Rightarrow> ('e, 's, 'b) eff" where
  "io_bind m f s = (case m s of (Inl e, s) \<Rightarrow> (Inl e, s) | (Inr x, s) \<Rightarrow> f x s)"

text \<open>A \<open>match\<close> on the result itself.\<close>

definition io_try :: "('e, 's, 'a) eff \<Rightarrow> ('e + 'a \<Rightarrow> ('f, 's, 'b) eff) \<Rightarrow> ('f, 's, 'b) eff" where
  "io_try m f s = (case m s of (r, s) \<Rightarrow> f r s)"

fun io_fold :: "('a \<Rightarrow> 'b \<Rightarrow> ('e, 's, 'b) eff) \<Rightarrow> 'a list \<Rightarrow> 'b \<Rightarrow> ('e, 's, 'b) eff" where
  "io_fold f [] acc = io_ok acc"
| "io_fold f (x # xs) acc = io_bind (f x acc) (\<lambda>acc. io_fold f xs acc)"

text \<open>Run on a part of a larger state.\<close>

definition io_on :: "('w \<Rightarrow> 's) \<Rightarrow> ('s \<Rightarrow> 'w \<Rightarrow> 'w) \<Rightarrow> ('e, 's, 'a) eff \<Rightarrow> ('e, 'w, 'a) eff" where
  "io_on get put m w = (case m (get w) of (r, s) \<Rightarrow> (r, put s w))"

lemma io_ok_eq [simp]: "io_ok x s = (Inr x, s)" by (simp add: io_ok_def)
lemma io_err_eq [simp]: "io_err e s = (Inl e, s)" by (simp add: io_err_def)
lemma io_lift_eq [simp]: "io_lift r s = (r, s)" by (simp add: io_lift_def)

lemma io_bind_Inr:
  "io_bind m f s = (Inr y, s') \<longleftrightarrow> (\<exists>x s1. m s = (Inr x, s1) \<and> f x s1 = (Inr y, s'))"
  by (auto simp: io_bind_def split: prod.splits sum.splits)

lemma io_bind_simps [simp]:
  "m s = (Inl e, s1) \<Longrightarrow> io_bind m f s = (Inl e, s1)"
  "m s = (Inr x, s1) \<Longrightarrow> io_bind m f s = f x s1"
  by (simp_all add: io_bind_def)

text \<open>An operation that keeps a predicate of the state whatever it returns.\<close>

definition io_keeps :: "('s \<Rightarrow> bool) \<Rightarrow> ('e, 's, 'a) eff \<Rightarrow> bool" where
  "io_keeps P m \<longleftrightarrow> (\<forall>s. P s \<longrightarrow> P (snd (m s)))"

lemma io_keepsD: "io_keeps P m \<Longrightarrow> P s \<Longrightarrow> m s = (r, s') \<Longrightarrow> P s'"
  by (metis io_keeps_def snd_conv)

lemma io_keeps_basic [intro!, simp]: "io_keeps P (io_ok x)" "io_keeps P (io_err e)" "io_keeps P (io_lift r)"
  by (simp_all add: io_keeps_def)

lemma io_keeps_bind [intro]: "io_keeps P m \<Longrightarrow> (\<And>x. io_keeps P (f x)) \<Longrightarrow> io_keeps P (io_bind m f)"
  unfolding io_keeps_def io_bind_def by (auto split: prod.splits sum.splits)

lemma io_keeps_try [intro]: "io_keeps P m \<Longrightarrow> (\<And>x. io_keeps P (f x)) \<Longrightarrow> io_keeps P (io_try m f)"
  unfolding io_keeps_def io_try_def by (auto split: prod.splits)

lemma io_keeps_fold [intro]: "(\<And>x acc. io_keeps P (f x acc)) \<Longrightarrow> io_keeps P (io_fold f xs acc)"
  by (induction xs arbitrary: acc) auto

text \<open>A fold whose steps leave the state alone: what one step establishes and every step keeps holds
  of the result.\<close>

lemma io_fold_still:
  assumes "\<And>x acc. x \<in> set xs \<Longrightarrow> snd (f x acc s) = s" and "io_fold f xs acc s = (r, s')"
  shows "s' = s"
  using assms
proof (induction xs arbitrary: acc)
  case (Cons x xs)
  have "snd (f x acc s) = s" using Cons.prems(1) by simp
  then show ?case using Cons by (cases "f x acc s"; cases "fst (f x acc s)") auto
qed simp

lemma io_fold_keeps_value:
  assumes "\<And>x acc. x \<in> set xs \<Longrightarrow> snd (f x acc s) = s"
    and "\<And>x acc acc'. x \<in> set xs \<Longrightarrow> f x acc s = (Inr acc', s) \<Longrightarrow> P acc \<Longrightarrow> P acc'"
    and "io_fold f xs acc s = (Inr r, s')" and "P acc"
  shows "P r"
  using assms
proof (induction xs arbitrary: acc)
  case (Cons x xs)
  obtain acc' where step: "f x acc s = (Inr acc', s)" and rest: "io_fold f xs acc' s = (Inr r, s')"
    using Cons.prems(1) [of x acc] Cons.prems(3) by (auto simp: io_bind_Inr)
  have keep: "P acc1 \<Longrightarrow> P acc2" if "y \<in> set xs" "f y acc1 s = (Inr acc2, s)" for y acc1 acc2
    using Cons.prems(2) [of y acc1 acc2] that by simp
  have "P acc'" using Cons.prems(2) [of x acc acc'] step Cons.prems(4) by simp
  from Cons.IH [OF _ keep rest this] Cons.prems(1) show ?case by simp
qed simp

lemma io_fold_establishes:
  assumes "\<And>x acc. x \<in> set xs \<Longrightarrow> snd (f x acc s) = s"
    and "\<And>x acc acc'. x \<in> set xs \<Longrightarrow> f x acc s = (Inr acc', s) \<Longrightarrow> P acc \<Longrightarrow> P acc'"
    and "x \<in> set xs" and "\<And>acc acc'. f x acc s = (Inr acc', s) \<Longrightarrow> P acc'"
    and "io_fold f xs acc s = (Inr r, s')"
  shows "P r"
  using assms
proof (induction xs arbitrary: acc)
  case (Cons y ys)
  obtain acc' where step: "f y acc s = (Inr acc', s)" and rest: "io_fold f ys acc' s = (Inr r, s')"
    using Cons.prems(1) [of y acc] Cons.prems(5) by (auto simp: io_bind_Inr)
  have keep: "P acc1 \<Longrightarrow> P acc2" if "z \<in> set ys" "f z acc1 s = (Inr acc2, s)" for z acc1 acc2
    using Cons.prems(2) [of z acc1 acc2] that by simp
  show ?case
  proof (cases "y = x")
    case True
    then have "P acc'" using Cons.prems(4) step by blast
    then show ?thesis using io_fold_keeps_value [of ys f s P, OF _ keep rest] Cons.prems(1) by simp
  next
    case False
    then have "x \<in> set ys" using Cons.prems(3) by simp
    from Cons.IH [OF _ keep this Cons.prems(4) rest] Cons.prems(1) show ?thesis by simp
  qed
qed simp

end
