(* ===== verification/Foreign.thy ===== *)
theory Foreign
  imports VaultFile Effects
begin

text \<open>
  \<open>lp-vault/src/foreign.rs\<close>: applying a materialization to the tables in one transaction, with
  the attachment rows of \<open>attachment.rs\<close> it writes. A failed transaction leaves the database as
  it was.
\<close>

section \<open>Applying a materialization\<close>

definition index_apply_foreign ::
  "'x vault_env \<Rightarrow> serde \<Rightarrow> id \<Rightarrow> bool \<Rightarrow> 'x vault_db \<Rightarrow> vault_error + 'x vault_db" where
  "index_apply_foreign env sd i tombstoned db =
     (let reader = read_item_payload env sd db
      in bind_ok
           (if tombstoned then index_delete env reader i (db_index db)
            else bind_ok (reader i) (\<lambda>payload. index_upsert env reader i payload (db_index db)))
           (\<lambda>ix. Inr (db\<lparr>db_index := ix\<rparr>)))"

definition insert_version ::
  "'x vault_env \<Rightarrow> serde \<Rightarrow> id \<Rightarrow> version_materialization \<Rightarrow> 'x vault_db \<Rightarrow> vault_error + 'x vault_db" where
  "insert_version env sd i ver db =
     bind_ok (to_canonical sd (vm_payload ver)) (\<lambda>plaintext.
     bind_ok (seal_version env i (vm_version ver) plaintext) (\<lambda>(payload_env, wrapped_key_env).
     bind_ok (sql_insert ''wrapped_keys.item_id, wrapped_keys.version'' (as_bytes i, vm_version ver)
       wrapped_key_env (db_wrapped_keys db)) (\<lambda>keys.
     bind_ok (sql_insert ''item_versions.item_id, item_versions.version'' (as_bytes i, vm_version ver)
       \<lparr>iv_payload_env = payload_env, iv_created_at = vm_created_at ver,
        iv_author_device_id = as_bytes (vm_author_device_id ver), iv_op_id = as_bytes (vm_op_id ver)\<rparr>
       (db_versions db)) (\<lambda>versions.
     Inr (db\<lparr>db_wrapped_keys := keys, db_versions := versions\<rparr>)))))"

definition upsert_item_row :: "item_materialization \<Rightarrow> (bytes, item_row) btree \<Rightarrow> (bytes, item_row) btree" where
  "upsert_item_row it rows =
     bt_insert (as_bytes (im_item_id it))
       (case bt_get rows (as_bytes (im_item_id it)) of
          None \<Rightarrow> \<lparr>ir_current_version = im_current_version it, ir_created_at = im_created_at it,
                   ir_updated_at = im_updated_at it\<rparr>
        | Some row \<Rightarrow> row\<lparr>ir_current_version := im_current_version it,
                          ir_updated_at := im_updated_at it\<rparr>) rows"

definition clear_versions :: "bytes \<Rightarrow> 'x vault_db \<Rightarrow> 'x vault_db" where
  "clear_versions k db =
     db\<lparr>db_versions := bt_delete_where (\<lambda>kv. fst kv = k) (db_versions db),
        db_wrapped_keys := bt_delete_where (\<lambda>kv. fst kv = k) (db_wrapped_keys db)\<rparr>"

definition write_tombstone :: "item_materialization \<Rightarrow> 'x vault_db \<Rightarrow> vault_error + 'x vault_db" where
  "write_tombstone it db =
     (let k = as_bytes (im_item_id it); tombs = bt_delete_where (\<lambda>t. t = k) (db_tombstones db)
      in case im_tombstone it of None \<Rightarrow> Inr (db\<lparr>db_tombstones := tombs\<rparr>)
         | Some t \<Rightarrow>
             bind_ok (sql_insert ''tombstones.item_id'' k
               \<lparr>tr_deleted_at = tm_deleted_at t, tr_purge_after = tm_purge_after t,
                tr_deleted_by_device = as_bytes (tm_deleted_by_device t),
                tr_op_id = as_bytes (tm_op_id t)\<rparr> tombs)
               (\<lambda>tombs. Inr (db\<lparr>db_tombstones := tombs\<rparr>)))"

definition db_materialize_item ::
  "'x vault_env \<Rightarrow> serde \<Rightarrow> item_materialization \<Rightarrow> 'x vault_db \<Rightarrow> vault_error + 'x vault_db" where
  "db_materialize_item env sd it db =
     bind_ok (fold_ok (insert_version env sd (im_item_id it)) (im_versions it)
       (clear_versions (as_bytes (im_item_id it)) db)) (\<lambda>db.
     bind_ok (write_tombstone it (db\<lparr>db_items := upsert_item_row it (db_items db)\<rparr>)) (\<lambda>db.
     index_apply_foreign env sd (im_item_id it) (im_tombstone it \<noteq> None) db))"

definition remove_attachment_row :: "id \<Rightarrow> 'x vault_db \<Rightarrow> 'x vault_db" where
  "remove_attachment_row i db =
     db\<lparr>db_attachments := bt_delete_where (\<lambda>k. k = as_bytes i) (db_attachments db)\<rparr>"

definition db_current_version :: "'x vault_db \<Rightarrow> id \<Rightarrow> vault_error + int" where
  "db_current_version db i =
     bind_ok (ok_or (NotFoundEntity ''item'') (bt_get (db_items db) (as_bytes i))) (\<lambda>row.
     Inr (ir_current_version row))"

definition attachment_key_aad_str :: "id \<Rightarrow> id \<Rightarrow> string" where
  "attachment_key_aad_str v a = bytes_str (aad_attachment_key v a)"

definition attachment_key_sync_aad_str :: "id \<Rightarrow> id \<Rightarrow> string" where
  "attachment_key_sync_aad_str v a = bytes_str (aad_attachment_key_sync v a)"

definition unwrap_attachment :: "'x vault_env \<Rightarrow> attachment_materialization \<Rightarrow> vault_error + (bytes \<times> bytes)" where
  "unwrap_attachment env att =
     map_err from_crypto
       (bind_ok (envelope_from_bytes (am_wrapped_key_env att)) (\<lambda>wrapped_sync.
        bind_ok (unwrap_key (ve_aead env) (ve_vault_key env) wrapped_sync
          (attachment_key_sync_aad_str (ve_vault_id env) (am_attachment_id att))) (\<lambda>att_key.
        bind_ok (envelope_from_bytes (am_filename_env att)) (\<lambda>filename_env_sync.
        bind_ok (sym_open (ve_aead env) (ve_vault_key env) filename_env_sync
          (aad_attachment_name_sync (ve_vault_id env) (am_attachment_id att))) (\<lambda>filename.
        Inr (att_key, filename))))))"

definition wrap_attachment :: "'x vault_env \<Rightarrow> id \<Rightarrow> bytes \<Rightarrow> bytes \<times> bytes \<Rightarrow> vault_error + (bytes \<times> bytes)" where
  "wrap_attachment env a ikey key_name =
     map_err from_crypto
       (bind_ok (wrap_key (ve_aead env) ikey (fst key_name) (attachment_key_aad_str (ve_vault_id env) a)) (\<lambda>wrapped_key.
        bind_ok (sym_seal (ve_aead env) ikey (snd key_name) (aad_attachment_name (ve_vault_id env) a)) (\<lambda>filename_env.
        Inr (envelope_to_bytes wrapped_key, envelope_to_bytes filename_env))))"

definition materialize_attachment ::
  "'x vault_env \<Rightarrow> attachment_materialization \<Rightarrow> 'x vault_db \<Rightarrow> vault_error + 'x vault_db" where
  "materialize_attachment env att db =
     (if bt_get (db_attachments db) (as_bytes (am_attachment_id att)) \<noteq> None then Inr db
      else
        bind_ok (unwrap_attachment env att) (\<lambda>key_name.
        bind_ok (db_current_version db (am_item_id att)) (\<lambda>version.
        bind_ok (load_item_key env db (am_item_id att) version) (\<lambda>ikey.
        bind_ok (wrap_attachment env (am_attachment_id att) ikey key_name)
          (\<lambda>(wrapped_key, filename_env).
        bind_ok (sql_insert ''attachments.attachment_id'' (as_bytes (am_attachment_id att))
          \<lparr>ar_item_id = as_bytes (am_item_id att), ar_version = version,
           ar_content_hash = am_content_hash att, ar_size_plain = am_size_plain att,
           ar_wrapped_key_env = wrapped_key, ar_filename_env = filename_env,
           ar_created_at = am_created_at att\<rparr> (db_attachments db)) (\<lambda>rows.
        Inr (db\<lparr>db_attachments := rows\<rparr>)))))))"

text \<open>The transaction: \<open>Inl\<close> rolls back, \<open>Inr\<close> is the committed database.\<close>

definition apply_foreign_ops ::
  "'x vault_env \<Rightarrow> serde \<Rightarrow> materialization \<Rightarrow> 'x vault_db \<Rightarrow> vault_error + 'x vault_db" where
  "apply_foreign_ops env sd mat db =
     bind_ok (fold_ok insert_stored_op (mat_ops mat) (db_ops db)) (\<lambda>rows.
     bind_ok (fold_ok (db_materialize_item env sd) (mat_items mat) (db\<lparr>db_ops := rows\<rparr>)) (\<lambda>db.
     let tombstoned = bs_of_list (map as_bytes (mat_attachment_tombstones mat));
         db = fold remove_attachment_row (mat_attachment_tombstones mat) db
     in fold_ok (\<lambda>att db.
          if as_bytes (am_attachment_id att) \<in> set tombstoned then Inr db
          else materialize_attachment env att db) (mat_attachments mat) db))"

section \<open>What the tables hold of an item\<close>

text \<open>
  The part of an item's rows that does not depend on the device: per version number the op, author
  and time; the head number; the tombstone's op and device. The same of a materialized item.
\<close>

type_synonym view =
  "(int \<rightharpoonup> bytes \<times> bytes \<times> int) \<times> int option \<times> (bytes \<times> bytes) option"

definition ver_view :: "iv_row \<Rightarrow> bytes \<times> bytes \<times> int" where
  "ver_view r = (iv_op_id r, iv_author_device_id r, iv_created_at r)"

definition vm_view :: "version_materialization \<Rightarrow> bytes \<times> bytes \<times> int" where
  "vm_view v = (as_bytes (vm_op_id v), as_bytes (vm_author_device_id v), vm_created_at v)"

definition db_view :: "'x vault_db \<Rightarrow> id \<Rightarrow> view" where
  "db_view db i =
     ((\<lambda>v. map_option ver_view (bt_get (db_versions db) (as_bytes i, v))),
      map_option ir_current_version (bt_get (db_items db) (as_bytes i)),
      map_option (\<lambda>t. (tr_op_id t, tr_deleted_by_device t)) (bt_get (db_tombstones db) (as_bytes i)))"

definition item_view :: "item_materialization \<Rightarrow> view" where
  "item_view it =
     (map_of (map (\<lambda>v. (vm_version v, vm_view v)) (im_versions it)), Some (im_current_version it),
      map_option (\<lambda>t. (as_bytes (tm_op_id t), as_bytes (tm_deleted_by_device t))) (im_tombstone it))"

lemma bt_get_delete_where: "bt_get (bt_delete_where P m) k = (if P k then None else bt_get m k)"
  by (induction m) (auto simp: bt_delete_where_def)

lemma insert_version_Inr:
  assumes "insert_version env sd i ver db = Inr db'"
  shows "(\<lambda>k. map_option ver_view (bt_get (db_versions db') k)) =
      (\<lambda>k. map_option ver_view (bt_get (db_versions db) k))((as_bytes i, vm_version ver) \<mapsto> vm_view ver)"
    and "db_ops db' = db_ops db" "db_items db' = db_items db" "db_tombstones db' = db_tombstones db"
  using assms by (auto simp: insert_version_def bind_ok_Inr_iff sql_insert_Inr ver_view_def vm_view_def fun_eq_iff)

lemma insert_versions_Inr:
  assumes "fold_ok (insert_version env sd i) vers db = Inr db'" and "distinct (map vm_version vers)"
  shows "map_option ver_view (bt_get (db_versions db') (k, v)) =
      (case (if k = as_bytes i then map_of (map (\<lambda>v. (vm_version v, vm_view v)) vers) v else None) of
         Some x \<Rightarrow> Some x | None \<Rightarrow> map_option ver_view (bt_get (db_versions db) (k, v)))"
    and "db_ops db' = db_ops db" "db_items db' = db_items db" "db_tombstones db' = db_tombstones db"
  using assms
proof (induction vers arbitrary: db)
  case Nil
  { case 1 then show ?case by simp next case 2 then show ?case by simp
    next case 3 then show ?case by simp next case 4 then show ?case by simp }
next
  case (Cons ver vers)
  { case 1
    then obtain db1 where db1: "insert_version env sd i ver db = Inr db1"
      and rest: "fold_ok (insert_version env sd i) vers db1 = Inr db'"
      by (auto simp: bind_ok_Inr_iff)
    have notin: "map_of (map (\<lambda>v. (vm_version v, vm_view v)) vers) (vm_version ver) = None"
      using 1(2) by (auto simp: map_of_eq_None_iff)
    show ?case
      using Cons.IH(1) [OF rest] 1(2) fun_cong [OF insert_version_Inr(1) [OF db1], of "(k, v)"] notin
      by (auto split: option.split)
  next
    case 2 then show ?case using Cons.IH(2) by (auto simp: bind_ok_Inr_iff dest: insert_version_Inr(2-4))
  next
    case 3 then show ?case using Cons.IH(3) by (auto simp: bind_ok_Inr_iff dest: insert_version_Inr(2-4))
  next
    case 4 then show ?case using Cons.IH(4) by (auto simp: bind_ok_Inr_iff dest: insert_version_Inr(2-4)) }
qed

abbreviation tomb_view :: "tomb_row \<Rightarrow> bytes \<times> bytes" where
  "tomb_view t \<equiv> (tr_op_id t, tr_deleted_by_device t)"

lemma write_tombstone_Inr:
  assumes "write_tombstone it db = Inr db'"
  shows "map_option tomb_view (bt_get (db_tombstones db') j) =
      (if j = as_bytes (im_item_id it)
       then map_option (\<lambda>t. (as_bytes (tm_op_id t), as_bytes (tm_deleted_by_device t))) (im_tombstone it)
       else map_option tomb_view (bt_get (db_tombstones db) j))"
    and "db_ops db' = db_ops db" "db_items db' = db_items db" "db_versions db' = db_versions db"
  using assms
  by (auto simp: write_tombstone_def Let_def bind_ok_Inr_iff sql_insert_Inr bt_get_delete_where
      split: option.splits)

lemma index_apply_foreign_Inr:
  assumes "index_apply_foreign env sd i t db = Inr db'"
  shows "db_ops db' = db_ops db" "db_items db' = db_items db" "db_versions db' = db_versions db"
    "db_tombstones db' = db_tombstones db"
  using assms by (auto simp: index_apply_foreign_def Let_def bind_ok_Inr_iff)

lemma clear_versions_sel:
  "bt_get (db_versions (clear_versions k db)) x = (if fst x = k then None else bt_get (db_versions db) x)"
  "db_ops (clear_versions k db) = db_ops db" "db_items (clear_versions k db) = db_items db"
  "db_tombstones (clear_versions k db) = db_tombstones db"
  by (simp_all add: clear_versions_def bt_get_delete_where)

text \<open>Rewriting an item leaves exactly its materialization, and every other item as it was.\<close>

lemma db_materialize_item_Inr:
  assumes "db_materialize_item env sd it db = Inr db'" and "distinct (map vm_version (im_versions it))"
  shows "db_view db' j = (if j = im_item_id it then item_view it else db_view db j)"
    and "db_ops db' = db_ops db"
proof -
  let ?k = "as_bytes (im_item_id it)"
  obtain db1 db2 where vers: "fold_ok (insert_version env sd (im_item_id it)) (im_versions it)
      (clear_versions ?k db) = Inr db1"
    and tomb: "write_tombstone it (db1\<lparr>db_items := upsert_item_row it (db_items db1)\<rparr>) = Inr db2"
    and ix: "index_apply_foreign env sd (im_item_id it) (im_tombstone it \<noteq> None) db2 = Inr db'"
    using assms(1) unfolding db_materialize_item_def bind_ok_Inr_iff by blast
  note v = insert_versions_Inr [OF vers assms(2)]
  note t = write_tombstone_Inr [OF tomb]
  note x = index_apply_foreign_Inr [OF ix]
  show "db_ops db' = db_ops db" using x t v(2) by (simp add: clear_versions_sel)
  have items: "db_items db' = upsert_item_row it (db_items db)"
    using x t v(3) by (simp add: clear_versions_sel)
  have item: "map_option ir_current_version (bt_get (db_items db') (as_bytes j)) =
      (if j = im_item_id it then Some (im_current_version it)
       else map_option ir_current_version (bt_get (db_items db) (as_bytes j)))"
    by (auto simp: items upsert_item_row_def id_eq_iff split: option.split)
  have version: "map_option ver_view (bt_get (db_versions db') (as_bytes j, n)) =
      (if j = im_item_id it then map_of (map (\<lambda>v. (vm_version v, vm_view v)) (im_versions it)) n
       else map_option ver_view (bt_get (db_versions db) (as_bytes j, n)))" for n
    using v(1) [of "as_bytes j" n] x t
    by (auto simp: clear_versions_sel id_eq_iff split: option.split)
  have tombs: "map_option tomb_view (bt_get (db_tombstones db') (as_bytes j)) =
      (if j = im_item_id it
       then map_option (\<lambda>t. (as_bytes (tm_op_id t), as_bytes (tm_deleted_by_device t))) (im_tombstone it)
       else map_option tomb_view (bt_get (db_tombstones db) (as_bytes j)))"
    using t(1) [of "as_bytes j"] x(4) v(4) by (simp add: clear_versions_sel id_eq_iff)
  show "db_view db' j = (if j = im_item_id it then item_view it else db_view db j)"
    unfolding db_view_def item_view_def item version tombs by (simp add: fun_eq_iff)
qed

lemma db_materialize_items_Inr:
  assumes "fold_ok (db_materialize_item env sd) its db = Inr db'"
    and "\<forall>it\<in>set its. distinct (map vm_version (im_versions it))" and "distinct (map im_item_id its)"
  shows "db_view db' j =
      (case map_of (map (\<lambda>it. (im_item_id it, item_view it)) its) j of Some v \<Rightarrow> v | None \<Rightarrow> db_view db j)"
    and "db_ops db' = db_ops db"
  using assms
proof (induction its arbitrary: db)
  case Nil
  { case 1 then show ?case by simp next case 2 then show ?case by simp }
next
  case (Cons it its)
  { case 1
    then obtain db1 where db1: "db_materialize_item env sd it db = Inr db1"
      and rest: "fold_ok (db_materialize_item env sd) its db1 = Inr db'"
      by (auto simp: bind_ok_Inr_iff)
    have own: "distinct (map vm_version (im_versions it))" using 1(2) by simp
    have notin: "map_of (map (\<lambda>it. (im_item_id it, item_view it)) its) (im_item_id it) = None"
      using 1(3) by (auto simp: map_of_eq_None_iff)
    show ?case
      using Cons.IH(1) [OF rest] 1(2,3) db_materialize_item_Inr(1) [OF db1 own, of j] notin
      by (auto split: option.split)
  next
    case 2
    then obtain db1 where "db_materialize_item env sd it db = Inr db1"
      and "fold_ok (db_materialize_item env sd) its db1 = Inr db'"
      by (auto simp: bind_ok_Inr_iff)
    with 2 show ?case using Cons.IH(2) [of db1] db_materialize_item_Inr(2) [of env sd it db db1] by simp }
qed

section \<open>The transaction\<close>

lemma materialize_attachment_Inr:
  "materialize_attachment env att db = Inr db' \<Longrightarrow> db_view db' j = db_view db j \<and> db_ops db' = db_ops db"
  by (auto simp: materialize_attachment_def bind_ok_Inr_iff db_view_def split: if_splits)

lemma materialize_attachments_Inr':
  "fold_ok (\<lambda>att db. if as_bytes (am_attachment_id att) \<in> T then Inr db else materialize_attachment env att db)
     atts db = Inr db' \<Longrightarrow> db_view db' j = db_view db j \<and> db_ops db' = db_ops db"
proof (induction atts arbitrary: db)
  case (Cons att atts)
  then obtain db1 where "(if as_bytes (am_attachment_id att) \<in> T then Inr db else materialize_attachment env att db) = Inr db1"
    and rest: "fold_ok (\<lambda>att db. if as_bytes (am_attachment_id att) \<in> T then Inr db
      else materialize_attachment env att db) atts db1 = Inr db'"
    by (auto simp: bind_ok_Inr_iff)
  then have "db_view db1 j = db_view db j \<and> db_ops db1 = db_ops db"
    using materialize_attachment_Inr [of env att db db1 j] by (auto split: if_splits)
  with Cons.IH [OF rest] show ?case by simp
qed simp

lemma remove_attachment_rows [simp]:
  "db_view (fold remove_attachment_row is db) j = db_view db j"
  "db_ops (fold remove_attachment_row is db) = db_ops db"
  by (induction "is" arbitrary: db) (simp_all add: remove_attachment_row_def db_view_def)

lemma apply_foreign_ops_Inr:
  assumes "apply_foreign_ops env sd mat db = Inr db'"
    and "\<forall>it\<in>set (mat_items mat). distinct (map vm_version (im_versions it))"
    and "distinct (map im_item_id (mat_items mat))"
  shows "fold_ok insert_stored_op (mat_ops mat) (db_ops db) = Inr (db_ops db')"
    and "db_view db' j = (case map_of (map (\<lambda>it. (im_item_id it, item_view it)) (mat_items mat)) j of
      Some v \<Rightarrow> v | None \<Rightarrow> db_view db j)"
proof -
  let ?T = "set (bs_of_list (map as_bytes (mat_attachment_tombstones mat)))"
  obtain rows db1 where rows: "fold_ok insert_stored_op (mat_ops mat) (db_ops db) = Inr rows"
    and items: "fold_ok (db_materialize_item env sd) (mat_items mat) (db\<lparr>db_ops := rows\<rparr>) = Inr db1"
    and atts: "fold_ok (\<lambda>att db. if as_bytes (am_attachment_id att) \<in> ?T then Inr db
        else materialize_attachment env att db) (mat_attachments mat)
        (fold remove_attachment_row (mat_attachment_tombstones mat) db1) = Inr db'"
    using assms(1) unfolding apply_foreign_ops_def Let_def bind_ok_Inr_iff by blast
  have a: "db_view db' j = db_view db1 j" "db_ops db' = db_ops db1"
    using materialize_attachments_Inr' [OF atts, of j] by simp_all
  have "db_view (db\<lparr>db_ops := rows\<rparr>) j = db_view db j" by (simp add: db_view_def)
  then show "db_view db' j = (case map_of (map (\<lambda>it. (im_item_id it, item_view it)) (mat_items mat)) j of
      Some v \<Rightarrow> v | None \<Rightarrow> db_view db j)"
    using a db_materialize_items_Inr(1) [OF items assms(2,3), of j] by (simp split: option.split)
  show "fold_ok insert_stored_op (mat_ops mat) (db_ops db) = Inr (db_ops db')"
    using rows a db_materialize_items_Inr(2) [OF items assms(2,3)] by simp
qed

section \<open>A concrete vault file\<close>

definition ex_env :: "unit vault_env" where
  "ex_env = \<lparr>ve_vault_id = ex_id 1, ve_vault_key = replicate 32 1, ve_aead = ex_aead,
     ve_fresh_item_key = (\<lambda>i n. replicate 32 2), index_delete = (\<lambda>rd i x. Inr x), index_upsert = (\<lambda>rd i p x. Inr x)\<rparr>"

definition ex_db :: "unit vault_db" where
  "ex_db = \<lparr>db_ops = [], db_items = [], db_versions = [], db_wrapped_keys = [], db_tombstones = [],
     db_attachments = [], db_folders = [], db_index = ()\<rparr>"

definition ex_mat :: materialization where
  "ex_mat = \<lparr>mat_ops = [ex_create],
     mat_items = [\<lparr>im_item_id = ex_id 9, im_current_version = 1, im_created_at = 100, im_updated_at = 100,
       im_versions = [\<lparr>vm_version = 1, vm_payload = item_payload_new Note [], vm_created_at = 100,
         vm_author_device_id = ex_id 2, vm_op_id = ex_id 11\<rparr>], im_tombstone = None\<rparr>],
     mat_attachments = [], mat_attachment_tombstones = []\<rparr>"

definition ex_sealed :: "bytes \<times> bytes" where
  "ex_sealed = (case seal_version ex_env (ex_id 9) 1 [] of Inr pw \<Rightarrow> pw | Inl _ \<Rightarrow> ([], []))"

lemma ex_env_ok [simp]: "vault_env_ok ex_env"
  by (simp add: vault_env_ok_def ex_env_def SYMMETRIC_KEY_LEN_def)

lemma ex_seal_version: "seal_version ex_env (ex_id 9) 1 [] = Inr ex_sealed"
proof -
  have "is_ok (seal_version ex_env (ex_id 9) 1 [])"
    by (rule seal_version_ok) (simp add: ex_env_def ex_aead_def)
  then show ?thesis by (auto simp: is_ok_iff ex_sealed_def)
qed

lemma ex_open_version: "open_version ex_env (ex_id 9) 1 (fst ex_sealed) (snd ex_sealed) = Inr []"
  by (rule open_seal_version [where p = "fst ex_sealed" and w = "snd ex_sealed"]) (simp_all add: ex_seal_version)

definition ex_db' :: "unit vault_db" where
  "ex_db' = \<lparr>db_ops = [row_of ex_create],
     db_items = [(as_bytes (ex_id 9), \<lparr>ir_current_version = 1, ir_created_at = 100, ir_updated_at = 100\<rparr>)],
     db_versions = [((as_bytes (ex_id 9), 1), \<lparr>iv_payload_env = fst ex_sealed, iv_created_at = 100,
       iv_author_device_id = as_bytes (ex_id 2), iv_op_id = as_bytes (ex_id 11)\<rparr>)],
     db_wrapped_keys = [((as_bytes (ex_id 9), 1), snd ex_sealed)], db_tombstones = [], db_attachments = [],
     db_folders = [], db_index = ()\<rparr>"

lemma ex_row_fits [simp]: "row_fits ex_create"
proof -
  have "i64_max = 9223372036854775807" by (simp add: i64_max_def)
  then show ?thesis
    by (simp add: row_fits_def op_wf_def ex_create_def ex_op_def ex_id_def oh_from_pairs_def oh_fits_def oh_wf_def)
qed

lemma ex_insert_op: "insert_stored_op ex_create [] = Inr [row_of ex_create]"
  using ex_row_fits unfolding row_fits_def by (simp add: insert_stored_op_Inr)

lemma ex_apply: "apply_foreign_ops ex_env ex_serde ex_mat ex_db = Inr ex_db'"
proof -
  have "to_canonical ex_serde p = Inr []" for p
    by (simp add: to_canonical_def to_canonical_vec_def ex_serde_def)
  moreover have "from_canonical ex_serde bs = Inr (item_payload_new Note [])" for bs
    by (simp add: from_canonical_def from_canonical_slice_def ex_serde_def)
  moreover have "index_delete ex_env = (\<lambda>rd i x. Inr x)" "index_upsert ex_env = (\<lambda>rd i p x. Inr x)"
    by (simp_all add: ex_env_def)
  moreover have "seal_version ex_env (ex_id 9) 1 [] = Inr (fst ex_sealed, snd ex_sealed)"
    by (simp add: ex_seal_version)
  ultimately show ?thesis
    using ex_open_version
    by (simp add: apply_foreign_ops_def ex_mat_def ex_db_def ex_db'_def ex_insert_op
        db_materialize_item_def insert_version_def clear_versions_def write_tombstone_def
        index_apply_foreign_def read_item_payload_def read_version_plaintext_def sql_insert_def
        bt_delete_where_def upsert_item_row_def Let_def del: prod.collapse)
qed

section \<open>Properties\<close>

text \<open>
  The op log is append-only and byte-exact: applying a batch keeps every row
  already there and appends the new ops of the batch once each, in order; reading the log returns
  exactly these ops, signatures and chain links included, in the order (lamport, device, seq).
\<close>

theorem foreign_log_append_only:
  assumes "apply_foreign_ops env sd mat db = Inr db'" and "log_ok (db_ops db) ops"
    and "\<forall>op\<in>set (mat_ops mat). op_wf op"
    and "\<forall>it\<in>set (mat_items mat). distinct (map vm_version (im_versions it))"
    and "distinct (map im_item_id (mat_items mat))"
  shows "log_ok (db_ops db') (ops @ fresh_ops (op_id ` set ops) (mat_ops mat)) \<and>
    stored_ops db' = Inr (sort_key log_key (ops @ fresh_ops (op_id ` set ops) (mat_ops mat)))"
proof -
  have "log_ok (db_ops db') (ops @ fresh_ops (op_id ` set ops) (mat_ops mat))"
    by (rule insert_ops_log [OF apply_foreign_ops_Inr(1) [OF assms(1,4,5)] assms(2,3)])
  then show ?thesis using read_ops_all by (simp add: stored_ops_def)
qed

lemma foreign_log_append_only_witness:
  "log_ok (db_ops ex_db') [ex_create] \<and> stored_ops ex_db' = Inr [ex_create]"
proof -
  have "op_wf ex_create" using ex_row_fits by (simp add: row_fits_def)
  then show ?thesis
    using foreign_log_append_only [OF ex_apply, of "[]"] by (simp add: log_ok_def ex_db_def ex_mat_def)
qed

text \<open>
  What a committed apply leaves in the tables: every item of the materialization
  holds exactly its versions (number, op, author, time), head and tombstone, and every other item
  is untouched; attachment rows change none of it.
\<close>

theorem foreign_items_exact:
  assumes "apply_foreign_ops env sd mat db = Inr db'"
    and "\<forall>it\<in>set (mat_items mat). distinct (map vm_version (im_versions it))"
    and "distinct (map im_item_id (mat_items mat))"
  shows "db_view db' i = (case map_of (map (\<lambda>it. (im_item_id it, item_view it)) (mat_items mat)) i of
      Some v \<Rightarrow> v | None \<Rightarrow> db_view db i)"
  by (rule apply_foreign_ops_Inr(2) [OF assms])

lemma foreign_items_exact_witness:
  "db_view ex_db' (ex_id 9) = ([1 \<mapsto> (as_bytes (ex_id 11), as_bytes (ex_id 2), 100)], Some 1, None)"
  using foreign_items_exact [OF ex_apply, of "ex_id 9"] by (simp add: ex_mat_def item_view_def vm_view_def)


section \<open>An attachment whose item is not there\<close>

abbreviation has_item :: "'x vault_db \<Rightarrow> id \<Rightarrow> bool" where
  "has_item db i \<equiv> bt_get (db_items db) (as_bytes i) \<noteq> None"

abbreviation has_attachment :: "'x vault_db \<Rightarrow> id \<Rightarrow> bool" where
  "has_attachment db a \<equiv> bt_get (db_attachments db) (as_bytes a) \<noteq> None"

lemma has_item_view: "has_item db i \<longleftrightarrow> fst (snd (db_view db i)) \<noteq> None"
  by (simp add: db_view_def)

lemma materialize_attachment_missing:
  "\<not> has_item db (am_item_id att) \<Longrightarrow> \<not> has_attachment db (am_attachment_id att) \<Longrightarrow>
     \<not> is_ok (materialize_attachment env att db)"
  by (auto simp: is_ok_iff materialize_attachment_def bind_ok_Inr_iff db_current_version_def)

lemma materialize_attachment_rows:
  assumes "materialize_attachment env att db = Inr db'" and "am_attachment_id att \<noteq> a"
  shows "has_attachment db' a \<longleftrightarrow> has_attachment db a" and "db_items db' = db_items db"
  using assms by (auto simp: materialize_attachment_def bind_ok_Inr_iff sql_insert_Inr id_eq_iff split: if_splits)

lemma attachments_missing:
  assumes "att \<in> set atts" and "distinct (map am_attachment_id atts)" and "as_bytes (am_attachment_id att) \<notin> T"
    and "\<not> has_item db (am_item_id att)" and "\<not> has_attachment db (am_attachment_id att)"
  shows "\<not> is_ok (fold_ok (\<lambda>att db. if as_bytes (am_attachment_id att) \<in> T then Inr db
    else materialize_attachment env att db) atts db)"
  using assms
proof (induction atts arbitrary: db)
  case (Cons x atts)
  show ?case
  proof (cases "x = att")
    case True
    then show ?thesis
      using Cons.prems(3) materialize_attachment_missing [OF Cons.prems(4,5), of env]
      by (auto simp: is_ok_iff bind_ok_Inr_iff)
  next
    case False
    then have att: "att \<in> set atts" and ne: "am_attachment_id x \<noteq> am_attachment_id att"
      using Cons.prems(1,2) by (auto simp: image_iff)
    show ?thesis
    proof (cases "if as_bytes (am_attachment_id x) \<in> T then Inr db else materialize_attachment env x db")
      case (Inr db1)
      then have "db_items db1 = db_items db" and "has_attachment db1 (am_attachment_id att) \<longleftrightarrow> has_attachment db (am_attachment_id att)"
        using materialize_attachment_rows [OF _ ne, of env db db1] by (auto split: if_splits)
      with Cons.IH [OF att _ Cons.prems(3), of db1] Cons.prems(2,4,5) Inr show ?thesis by simp
    qed simp
  qed
qed simp

lemma index_apply_foreign_attachments:
  "index_apply_foreign env sd i t db = Inr db' \<Longrightarrow> db_attachments db' = db_attachments db"
  by (auto simp: index_apply_foreign_def Let_def bind_ok_Inr_iff)

lemma insert_versions_attachments:
  "fold_ok (insert_version env sd i) vers db = Inr db' \<Longrightarrow> db_attachments db' = db_attachments db"
  by (erule fold_ok_invariant [where P = "\<lambda>x. db_attachments x = db_attachments db"])
    (auto simp: insert_version_def bind_ok_Inr_iff)

lemma db_materialize_items_attachments:
  assumes "fold_ok (db_materialize_item env sd) its db = Inr db'"
  shows "db_attachments db' = db_attachments db"
proof (rule fold_ok_invariant [OF assms, where P = "\<lambda>x. db_attachments x = db_attachments db"])
  fix it u v
  assume u: "db_attachments u = db_attachments db" and "db_materialize_item env sd it u = Inr v"
  then obtain db1 db2 where vers: "fold_ok (insert_version env sd (im_item_id it)) (im_versions it)
      (clear_versions (as_bytes (im_item_id it)) u) = Inr db1"
    and tomb: "write_tombstone it (db1\<lparr>db_items := upsert_item_row it (db_items db1)\<rparr>) = Inr db2"
    and ix: "index_apply_foreign env sd (im_item_id it) (im_tombstone it \<noteq> None) db2 = Inr v"
    unfolding db_materialize_item_def bind_ok_Inr_iff by blast
  from tomb have "db_attachments db2 = db_attachments db1"
    by (auto simp: write_tombstone_def Let_def bind_ok_Inr_iff split: option.splits)
  with insert_versions_attachments [OF vers] index_apply_foreign_attachments [OF ix] u
  show "db_attachments v = db_attachments db" by (simp add: clear_versions_def)
qed simp

lemma remove_rows_sel:
  "bt_get (db_attachments db) k = None \<Longrightarrow> bt_get (db_attachments (fold remove_attachment_row is db)) k = None"
  "db_items (fold remove_attachment_row is db) = db_items db"
  by (induction "is" arbitrary: db) (simp_all add: remove_attachment_row_def bt_get_delete_where)

definition ex_orphan :: attachment_materialization where
  "ex_orphan = \<lparr>am_attachment_id = ex_id 5, am_item_id = ex_id 8, am_version = 1, am_content_hash = [],
     am_size_plain = 0, am_wrapped_key_env = [], am_filename_env = [], am_created_at = 100\<rparr>"

text \<open>
  An attachment whose item this vault has never seen blocks the
  whole batch: if one attachment of a materialization is new, not deleted, and its item is neither in
  the tables nor among the items of the batch, then the transaction fails and nothing is committed,
  whatever else the batch holds.
\<close>

theorem missing_item_blocks_apply:
  assumes "att \<in> set (mat_attachments mat)" and "distinct (map am_attachment_id (mat_attachments mat))"
    and "am_attachment_id att \<notin> set (mat_attachment_tombstones mat)"
    and "\<not> has_attachment db (am_attachment_id att)" and "\<not> has_item db (am_item_id att)"
    and "am_item_id att \<notin> im_item_id ` set (mat_items mat)"
    and "\<forall>it\<in>set (mat_items mat). distinct (map vm_version (im_versions it))"
    and "distinct (map im_item_id (mat_items mat))"
  shows "\<not> is_ok (apply_foreign_ops env sd mat db)"
proof
  assume "is_ok (apply_foreign_ops env sd mat db)"
  then obtain rows db1 db2 where
    items: "fold_ok (db_materialize_item env sd) (mat_items mat) (db\<lparr>db_ops := rows\<rparr>) = Inr db1"
    and atts: "fold_ok (\<lambda>att db. if as_bytes (am_attachment_id att) \<in>
          set (bs_of_list (map as_bytes (mat_attachment_tombstones mat))) then Inr db
        else materialize_attachment env att db) (mat_attachments mat)
        (fold remove_attachment_row (mat_attachment_tombstones mat) db1) = Inr db2"
    unfolding apply_foreign_ops_def Let_def is_ok_iff bind_ok_Inr_iff by blast
  have "map_of (map (\<lambda>it. (im_item_id it, item_view it)) (mat_items mat)) (am_item_id att) = None"
    using assms(6) by (auto simp: map_of_eq_None_iff image_iff)
  with db_materialize_items_Inr(1) [OF items assms(7,8), of "am_item_id att"]
  have "db_view db1 (am_item_id att) = db_view (db\<lparr>db_ops := rows\<rparr>) (am_item_id att)" by simp
  with assms(5) have item: "\<not> has_item db1 (am_item_id att)" unfolding has_item_view by (simp add: db_view_def)
  have "\<not> has_attachment db1 (am_attachment_id att)"
    using assms(4) db_materialize_items_attachments [OF items] by simp
  then have new: "\<not> has_attachment (fold remove_attachment_row (mat_attachment_tombstones mat) db1) (am_attachment_id att)"
    by (simp add: remove_rows_sel(1))
  have "as_bytes (am_attachment_id att) \<notin> set (bs_of_list (map as_bytes (mat_attachment_tombstones mat)))"
    using assms(3) by (auto simp flip: id_eq_iff)
  from attachments_missing [OF assms(1,2) this _ new, of env] item atts show False
    by (simp add: is_ok_iff remove_rows_sel(2))
qed

lemma missing_item_blocks_apply_witness:
  "\<not> is_ok (apply_foreign_ops ex_env ex_serde (ex_mat\<lparr>mat_attachments := [ex_orphan]\<rparr>) ex_db)"
  by (rule missing_item_blocks_apply [where att = ex_orphan])
    (simp_all add: ex_mat_def ex_orphan_def ex_db_def ex_id_def)

end
