(* ===== verification/Store.thy ===== *)
theory Store
  imports Effects Text Btree_Map "HOL-Library.Char_ord"
begin

text \<open>
  \<open>lp-sync/src/store.rs\<close>: channel-relative paths, the \<open>Store\<close> trait as a record of operations
  with the locale \<open>channel_store\<close> for its contract, and the filesystem backend \<open>FsStore\<close>, which
  is interpreted in it. A filesystem is the sorted map of its absolute paths to directories and
  files; of the errors of \<open>std::fs\<close> only the kind that the code looks at is kept apart.
\<close>

section \<open>Paths\<close>

datatype store_path = StorePath (segments: "string list")

definition sp_root :: store_path where
  "sp_root = StorePath []"

definition sp_join :: "store_path \<Rightarrow> string \<Rightarrow> store_path" where
  "sp_join p segment = StorePath (segments p @ [segment])"

definition sp_is_empty :: "store_path \<Rightarrow> bool" where
  "sp_is_empty p \<longleftrightarrow> segments p = []"

definition file_name :: "store_path \<Rightarrow> string option" where
  "file_name p = (case rev (segments p) of [] \<Rightarrow> None | name # _ \<Rightarrow> Some name)"

text \<open>The stem of a name, which \<open>std::path\<close> computes the same way.\<close>

definition name_stem :: "string \<Rightarrow> string" where
  "name_stem name =
     (case rsplit_once (CHR ''.'') name of
        Some (stem, _) \<Rightarrow> if stem \<noteq> [] then stem else name
      | None \<Rightarrow> name)"

definition name_extension :: "string \<Rightarrow> string option" where
  "name_extension name =
     (case rsplit_once (CHR ''.'') name of
        Some (stem, ext) \<Rightarrow> if stem \<noteq> [] then Some ext else None
      | None \<Rightarrow> None)"

definition file_stem :: "store_path \<Rightarrow> string option" where
  "file_stem p = map_option name_stem (file_name p)"

definition extension :: "store_path \<Rightarrow> string option" where
  "extension p = (case file_name p of None \<Rightarrow> None | Some name \<Rightarrow> name_extension name)"

text \<open>The derived order: lexicographic on the segments.\<close>

instantiation store_path :: linorder
begin

definition less_eq_store_path :: "store_path \<Rightarrow> store_path \<Rightarrow> bool" where
  "p \<le> q \<longleftrightarrow> segments p \<le> segments q"

definition less_store_path :: "store_path \<Rightarrow> store_path \<Rightarrow> bool" where
  "p < q \<longleftrightarrow> segments p < segments q"

instance
  by standard (auto simp: less_eq_store_path_def less_store_path_def store_path.expand)

end

text \<open>The names \<open>with_extension("tmp")\<close> makes.\<close>

definition sp_temporary :: "store_path \<Rightarrow> bool" where
  "sp_temporary p \<longleftrightarrow>
     (case file_name p of None \<Rightarrow> False | Some name \<Rightarrow> strip_suffix ''.tmp'' name \<noteq> None)"

record dir_entry =
  de_name :: string
  de_is_dir :: bool

section \<open>The trait\<close>

record 's store_ops =
  st_create_dir_all :: "store_path \<Rightarrow> ('s, unit) io"
  st_write_atomic :: "store_path \<Rightarrow> bytes \<Rightarrow> ('s, unit) io"
  st_read :: "store_path \<Rightarrow> ('s, bytes option) io"
  st_list_dir :: "store_path \<Rightarrow> ('s, dir_entry list) io"
  st_exists :: "store_path \<Rightarrow> ('s, bool) io"
  st_remove_file :: "store_path \<Rightarrow> ('s, unit) io"

definition is_not_found :: "sync_error \<Rightarrow> bool" where
  "is_not_found e \<longleftrightarrow> e = Io NotFound"

text \<open>
  The contract: reads, listings and existence tests change nothing; a written file reads back
  whole, and the write disturbs no other file but a temporary sibling; making directories disturbs
  no file; a file that reads exists. \<open>ok\<close> is the backend's invariant.
\<close>

locale channel_store =
  fixes ops :: "'s store_ops"
    and ok :: "'s \<Rightarrow> bool"
  assumes read_pure: "snd (st_read ops p s) = s"
    and list_pure: "snd (st_list_dir ops p s) = s"
    and exists_pure: "snd (st_exists ops p s) = s"
    and ok_write: "ok s \<Longrightarrow> ok (snd (st_write_atomic ops p bs s))"
    and ok_create: "ok s \<Longrightarrow> ok (snd (st_create_dir_all ops p s))"
    and ok_remove: "ok s \<Longrightarrow> ok (snd (st_remove_file ops p s))"
    and read_written: "ok s \<Longrightarrow> st_write_atomic ops p bs s = (Inr (), s') \<Longrightarrow>
      fst (st_read ops p s') = Inr (Some bs)"
    and read_other: "ok s \<Longrightarrow> q \<noteq> p \<Longrightarrow> \<not> sp_temporary q \<Longrightarrow>
      fst (st_read ops q s) = Inr (Some bs') \<Longrightarrow>
      fst (st_read ops q (snd (st_write_atomic ops p bs s))) = Inr (Some bs')"
    and read_create: "ok s \<Longrightarrow> fst (st_read ops q s) = Inr (Some bs) \<Longrightarrow>
      fst (st_read ops q (snd (st_create_dir_all ops p s))) = Inr (Some bs)"
    and read_exists: "ok s \<Longrightarrow> fst (st_read ops p s) = Inr (Some bs) \<Longrightarrow> fst (st_exists ops p s) = Inr True"
    and read_remove: "ok s \<Longrightarrow> q \<noteq> p \<Longrightarrow> fst (st_read ops q s) = Inr (Some bs) \<Longrightarrow>
      fst (st_read ops q (snd (st_remove_file ops p s))) = Inr (Some bs)"
    and list_file: "ok s \<Longrightarrow> fst (st_read ops (sp_join d name) s) = Inr (Some bs) \<Longrightarrow>
      \<exists>es. fst (st_list_dir ops d s) = Inr es \<and> \<lparr>de_name = name, de_is_dir = False\<rparr> \<in> set es"
    and list_subdir: "ok s \<Longrightarrow> fst (st_read ops (sp_join (sp_join d sub) name) s) = Inr (Some bs) \<Longrightarrow>
      \<exists>es. fst (st_list_dir ops d s) = Inr es \<and> \<lparr>de_name = sub, de_is_dir = True\<rparr> \<in> set es"
begin

text \<open>The files of the channel that stay what they are.\<close>

definition holds :: "store_path \<Rightarrow> bytes \<Rightarrow> 's \<Rightarrow> bool" where
  "holds q bs s \<longleftrightarrow> ok s \<and> \<not> sp_temporary q \<and> fst (st_read ops q s) = Inr (Some bs)"

lemma holds_create: "io_keeps (holds q bs) (st_create_dir_all ops p)"
  by (simp add: io_keeps_def holds_def ok_create read_create)

lemma holds_write: "q \<noteq> p \<Longrightarrow> io_keeps (holds q bs) (st_write_atomic ops p bs')"
  by (simp add: io_keeps_def holds_def ok_write read_other)

lemma holds_remove: "q \<noteq> p \<Longrightarrow> io_keeps (holds q bs) (st_remove_file ops p)"
  by (simp add: io_keeps_def holds_def ok_remove read_remove)

lemma holds_read: "io_keeps (holds q bs) (st_read ops p)"
  by (simp add: io_keeps_def read_pure)

lemma holds_list: "io_keeps (holds q bs) (st_list_dir ops p)"
  by (simp add: io_keeps_def list_pure)

lemma holds_exists: "io_keeps (holds q bs) (st_exists ops p)"
  by (simp add: io_keeps_def exists_pure)

text \<open>A file written only where none exists replaces nothing.\<close>

lemma holds_write_new:
  assumes "holds q bs s" and "st_exists ops p s = (Inr False, s1)"
  shows "holds q bs (snd (st_write_atomic ops p bs' s1))"
proof -
  have s1: "s1 = s" using exists_pure [of p s] assms(2) by simp
  have "q \<noteq> p" using read_exists [of s q bs] assms s1 by (auto simp: holds_def)
  then show ?thesis using holds_write [of q p bs bs'] assms(1) s1 by (simp add: io_keeps_def)
qed

lemma ok_exists: "ok s \<Longrightarrow> ok (snd (st_exists ops p s))"
  by (simp add: exists_pure)

end

section \<open>The filesystem\<close>

datatype fs_node = FsDir | FsFile bytes

type_synonym fs = "(string list, fs_node) btree"

definition fs_node_at :: "fs \<Rightarrow> string list \<Rightarrow> fs_node option" where
  "fs_node_at f p = (if p = [] then Some FsDir else bt_get f p)"

text \<open>Whether a file stands where the path needs a directory.\<close>

definition fs_file_at :: "fs \<Rightarrow> string list \<Rightarrow> bool" where
  "fs_file_at f p = (case fs_node_at f p of Some (FsFile _) \<Rightarrow> True | _ \<Rightarrow> False)"

definition fs_blocked :: "fs \<Rightarrow> string list \<Rightarrow> bool" where
  "fs_blocked f p \<longleftrightarrow> list_ex (\<lambda>n. fs_file_at f (take n p)) [0..<length p]"

lemma fs_blocked_iff:
  "fs_blocked f p \<longleftrightarrow> (\<exists>n\<in>set [0..<length p]. \<exists>bs. fs_node_at f (take n p) = Some (FsFile bs))"
proof -
  have "fs_file_at f q \<longleftrightarrow> (\<exists>bs. fs_node_at f q = Some (FsFile bs))" for q
    by (auto simp: fs_file_at_def split: option.splits fs_node.splits)
  then show ?thesis by (simp add: fs_blocked_def list_ex_iff)
qed

definition not_a_directory :: io_kind where
  "not_a_directory = OtherIo ''not a directory''"

definition is_a_directory :: io_kind where
  "is_a_directory = OtherIo ''is a directory''"

definition fs_create_dir_all :: "string list \<Rightarrow> fs \<Rightarrow> io_kind + fs" where
  "fs_create_dir_all p f =
     (if fs_blocked f p then Inl not_a_directory
      else case fs_node_at f p of
        Some (FsFile _) \<Rightarrow> Inl (OtherIo ''file exists'')
      | _ \<Rightarrow> Inr (fold (\<lambda>n f. if bt_get f (take n p) = None then bt_insert (take n p) FsDir f else f)
               [1..<length p + 1] f))"

definition fs_write :: "string list \<Rightarrow> bytes \<Rightarrow> fs \<Rightarrow> io_kind + fs" where
  "fs_write p bs f =
     (if fs_blocked f p then Inl not_a_directory
      else if fs_node_at f p = Some FsDir then Inl is_a_directory
      else if fs_node_at f (butlast p) = None then Inl NotFound
      else Inr (bt_insert p (FsFile bs) f))"

definition fs_read :: "string list \<Rightarrow> fs \<Rightarrow> io_kind + bytes" where
  "fs_read p f =
     (if fs_blocked f p then Inl not_a_directory
      else case fs_node_at f p of
        None \<Rightarrow> Inl NotFound
      | Some FsDir \<Rightarrow> Inl is_a_directory
      | Some (FsFile bs) \<Rightarrow> Inr bs)"

definition fs_unlink :: "string list \<Rightarrow> fs \<Rightarrow> fs" where
  "fs_unlink p f = filter (\<lambda>kv. fst kv \<noteq> p) f"

definition fs_remove_file :: "string list \<Rightarrow> fs \<Rightarrow> io_kind + fs" where
  "fs_remove_file p f = bind_ok (fs_read p f) (\<lambda>_. Inr (fs_unlink p f))"

definition fs_rename :: "string list \<Rightarrow> string list \<Rightarrow> fs \<Rightarrow> io_kind + fs" where
  "fs_rename a b f =
     bind_ok (fs_read a f) (\<lambda>bs.
     if a = b then Inr f
     else bind_ok (fs_write b bs f) (\<lambda>f. Inr (fs_unlink a f)))"

definition fs_read_dir :: "string list \<Rightarrow> fs \<Rightarrow> io_kind + dir_entry list" where
  "fs_read_dir p f =
     (if fs_blocked f p then Inl not_a_directory
      else case fs_node_at f p of
        None \<Rightarrow> Inl NotFound
      | Some (FsFile _) \<Rightarrow> Inl not_a_directory
      | Some FsDir \<Rightarrow>
          Inr (map (\<lambda>(q, node). \<lparr>de_name = last q, de_is_dir = (node = FsDir)\<rparr>)
            (filter (\<lambda>(q, node). q \<noteq> [] \<and> butlast q = p) f)))"

section \<open>The filesystem backend\<close>

definition resolve :: "string list \<Rightarrow> store_path \<Rightarrow> string list" where
  "resolve root p = root @ segments p"

definition with_extension :: "string list \<Rightarrow> string \<Rightarrow> string list" where
  "with_extension p ext =
     (if p = [] then [] else butlast p @ [name_stem (last p) @ CHR ''.'' # ext])"

definition fs_op :: "(fs \<Rightarrow> io_kind + fs) \<Rightarrow> (fs, unit) io" where
  "fs_op f s = (case f s of Inl e \<Rightarrow> (Inl (Io e), s) | Inr s' \<Rightarrow> (Inr (), s'))"

definition fs_store_create_dir_all :: "string list \<Rightarrow> store_path \<Rightarrow> (fs, unit) io" where
  "fs_store_create_dir_all root p = fs_op (fs_create_dir_all (resolve root p))"

text \<open>
  \<open>FsStore::write_atomic\<close> over the two system calls it makes. The backend below takes them as they
  leave the filesystem; the observed run further down takes them as a concurrent reader, or one
  after a crash of the process, may see them.
\<close>

definition write_atomic_on ::
  "(string list \<Rightarrow> bytes \<Rightarrow> ('s, unit) io) \<Rightarrow> (string list \<Rightarrow> string list \<Rightarrow> ('s, unit) io) \<Rightarrow>
     string list \<Rightarrow> store_path \<Rightarrow> bytes \<Rightarrow> ('s, unit) io" where
  "write_atomic_on sys_write sys_rename root p bs =
     (let target = resolve root p; tmp = with_extension target ''tmp''
      in io_bind (sys_write tmp bs) (\<lambda>_. sys_rename tmp target))"

definition fs_store_write_atomic :: "string list \<Rightarrow> store_path \<Rightarrow> bytes \<Rightarrow> (fs, unit) io" where
  "fs_store_write_atomic =
     write_atomic_on (\<lambda>q bs. fs_op (fs_write q bs)) (\<lambda>a b. fs_op (fs_rename a b))"

definition fs_store_read :: "string list \<Rightarrow> store_path \<Rightarrow> (fs, bytes option) io" where
  "fs_store_read root p s =
     ((case fs_read (resolve root p) s of
         Inr bs \<Rightarrow> Inr (Some bs)
       | Inl e \<Rightarrow> if e = NotFound then Inr None else Inl (Io e)), s)"

definition fs_store_list_dir :: "string list \<Rightarrow> store_path \<Rightarrow> (fs, dir_entry list) io" where
  "fs_store_list_dir root p s = (map_err Io (fs_read_dir (resolve root p) s), s)"

definition fs_store_exists :: "string list \<Rightarrow> store_path \<Rightarrow> (fs, bool) io" where
  "fs_store_exists root p s =
     (Inr (\<not> fs_blocked s (resolve root p) \<and> fs_node_at s (resolve root p) \<noteq> None), s)"

definition fs_store_remove_file :: "string list \<Rightarrow> store_path \<Rightarrow> (fs, unit) io" where
  "fs_store_remove_file root p s =
     (case fs_remove_file (resolve root p) s of
        Inr s' \<Rightarrow> (Inr (), s')
      | Inl e \<Rightarrow> if e = NotFound then (Inr (), s) else (Inl (Io e), s))"

definition fs_store :: "string list \<Rightarrow> fs store_ops" where
  "fs_store root =
     \<lparr>st_create_dir_all = fs_store_create_dir_all root, st_write_atomic = fs_store_write_atomic root,
      st_read = fs_store_read root, st_list_dir = fs_store_list_dir root,
      st_exists = fs_store_exists root, st_remove_file = fs_store_remove_file root\<rparr>"

section \<open>The filesystem keeps the contract\<close>

text \<open>A filesystem is a tree: above every entry stand directories only.\<close>

definition fs_ok :: "fs \<Rightarrow> bool" where
  "fs_ok f \<longleftrightarrow>
     (\<forall>p node n. bt_get f p = Some node \<longrightarrow> n < length p \<longrightarrow> fs_node_at f (take n p) = Some FsDir)"

lemma fs_okD: "fs_ok f \<Longrightarrow> bt_get f p = Some node \<Longrightarrow> n < length p \<Longrightarrow> fs_node_at f (take n p) = Some FsDir"
  by (auto simp: fs_ok_def)

lemma fs_node_at_Nil [simp]: "fs_node_at f [] = Some FsDir"
  by (simp add: fs_node_at_def)

lemma fs_node_at_insert:
  "fs_node_at (bt_insert p node f) q = (if q = p \<and> q \<noteq> [] then Some node else fs_node_at f q)"
  by (auto simp: fs_node_at_def)

lemma bt_get_unlink: "bt_get (fs_unlink p f) q = (if q = p then None else bt_get f q)"
  unfolding fs_unlink_def by (induction f) auto

lemma fs_node_at_unlink:
  "fs_node_at (fs_unlink p f) q = (if q = p \<and> q \<noteq> [] then None else fs_node_at f q)"
  by (auto simp: fs_node_at_def bt_get_unlink)

lemma fs_blocked_insert_dir:
  "bt_get f p = None \<Longrightarrow> fs_blocked (bt_insert p FsDir f) q \<Longrightarrow> fs_blocked f q"
  by (auto simp: fs_blocked_iff fs_node_at_insert split: if_splits)

lemma fs_blocked_insert_long:
  assumes "length q \<le> length p"
  shows "fs_blocked (bt_insert p node f) q \<longleftrightarrow> fs_blocked f q"
proof -
  have "take n q \<noteq> p" if "n < length q" for n
    using that assms by auto
  then show ?thesis by (simp add: fs_blocked_iff fs_node_at_insert)
qed

lemma fs_blocked_unlink: "fs_blocked (fs_unlink p f) q \<Longrightarrow> fs_blocked f q"
  by (auto simp: fs_blocked_iff fs_node_at_unlink split: if_splits)

text \<open>Writing a file where its directory stands keeps the tree.\<close>

lemma fs_write_Inr:
  assumes "fs_write p bs f = Inr f'"
  shows "f' = bt_insert p (FsFile bs) f" and "p \<noteq> []" and "fs_node_at f (butlast p) = Some FsDir"
    and "bt_get f p \<noteq> Some FsDir" and "\<not> fs_blocked f p"
proof -
  from assms have *: "\<not> fs_blocked f p" "fs_node_at f p \<noteq> Some FsDir" "fs_node_at f (butlast p) \<noteq> None"
      "f' = bt_insert p (FsFile bs) f"
    by (auto simp: fs_write_def split: if_splits)
  then show "f' = bt_insert p (FsFile bs) f" and "\<not> fs_blocked f p" by blast+
  from * show p: "p \<noteq> []" by auto
  with * show "bt_get f p \<noteq> Some FsDir" by (simp add: fs_node_at_def)
  have "length p - 1 \<in> set [0..<length p]" and "butlast p = take (length p - 1) p"
    using p by (auto simp: butlast_conv_take)
  then have "fs_node_at f (butlast p) \<noteq> Some (FsFile bs')" for bs'
    using *(1) unfolding fs_blocked_iff by metis
  with *(3) show "fs_node_at f (butlast p) = Some FsDir"
    by (metis fs_node.exhaust not_None_eq)
qed

lemma fs_ok_insert_file:
  assumes ok: "fs_ok f" and p: "p \<noteq> []" and par: "fs_node_at f (butlast p) = Some FsDir"
    and old: "bt_get f p \<noteq> Some FsDir"
  shows "fs_ok (bt_insert p (FsFile bs) f)"
  unfolding fs_ok_def
proof (intro allI impI)
  fix q node n
  assume q: "bt_get (bt_insert p (FsFile bs) f) q = Some node" and n: "n < length q"
  have "fs_node_at f (take n q) = Some FsDir \<and> take n q \<noteq> p"
  proof (cases "q = p")
    case True
    have "fs_node_at f (take n p) = Some FsDir"
    proof (cases "n = length p - 1")
      case True
      then show ?thesis using par by (simp add: butlast_conv_take)
    next
      case False
      with n \<open>q = p\<close> have n': "n < length (butlast p)" by simp
      then have "butlast p \<noteq> []" by (metis list.size(3) not_less_zero)
      with par have "bt_get f (butlast p) = Some FsDir" by (simp add: fs_node_at_def)
      from fs_okD [OF ok this n'] show ?thesis
        using n' by (simp add: take_butlast)
    qed
    moreover have "take n p \<noteq> p" using n True by (metis length_take min.absorb4 nat_neq_iff)
    ultimately show ?thesis using True by simp
  next
    case False
    with q have qf: "bt_get f q = Some node" by simp
    from fs_okD [OF ok qf n] have d: "fs_node_at f (take n q) = Some FsDir" .
    moreover have "take n q \<noteq> p"
      using d old p by (auto simp: fs_node_at_def split: if_splits)
    ultimately show ?thesis by simp
  qed
  then show "fs_node_at (bt_insert p (FsFile bs) f) (take n q) = Some FsDir"
    by (simp add: fs_node_at_insert)
qed

lemma fs_ok_write: "fs_ok f \<Longrightarrow> fs_write p bs f = Inr f' \<Longrightarrow> fs_ok f'"
  using fs_write_Inr [of p bs f f'] fs_ok_insert_file [of f p bs] by auto

text \<open>A file that reads: its place in the tree.\<close>

lemma fs_read_Inr: "fs_read p f = Inr bs \<longleftrightarrow> \<not> fs_blocked f p \<and> bt_get f p = Some (FsFile bs) \<and> p \<noteq> []"
  by (auto simp: fs_read_def fs_node_at_def split: option.splits fs_node.splits if_splits)

lemma fs_ok_unlink_file:
  assumes "fs_ok f" and "fs_read p f = Inr bs"
  shows "fs_ok (fs_unlink p f)"
  unfolding fs_ok_def
proof (intro allI impI)
  fix q node n
  assume q: "bt_get (fs_unlink p f) q = Some node" and n: "n < length q"
  then have "bt_get f q = Some node" by (auto simp: bt_get_unlink split: if_splits)
  from fs_okD [OF assms(1) this n] have "fs_node_at f (take n q) = Some FsDir" .
  with assms(2) show "fs_node_at (fs_unlink p f) (take n q) = Some FsDir"
    by (auto simp: fs_node_at_unlink fs_read_Inr fs_node_at_def bt_get_unlink split: if_splits)
qed

lemma fs_read_ok:
  assumes "fs_ok f"
  shows "fs_read p f = Inr bs \<longleftrightarrow> p \<noteq> [] \<and> bt_get f p = Some (FsFile bs)"
proof -
  have "\<not> fs_blocked f p" if "bt_get f p = Some (FsFile bs)"
    using fs_okD [OF assms that] by (auto simp: fs_blocked_iff)
  then show ?thesis by (auto simp: fs_read_Inr)
qed

lemma fs_rename_Inr:
  assumes "fs_rename a b f = Inr f'"
  shows "\<exists>bs. fs_read a f = Inr bs \<and> (if a = b then f' = f else
    \<exists>g. fs_write b bs f = Inr g \<and> f' = fs_unlink a g)"
  using assms by (auto simp: fs_rename_def bind_ok_Inr_iff split: if_splits)

subsection \<open>The write through a temporary sibling\<close>

lemma length_with_extension [simp]: "length (with_extension p ext) = length p"
  by (cases p) (simp_all add: with_extension_def)

lemma resolve_inject [simp]: "resolve root p = resolve root q \<longleftrightarrow> p = q"
  by (auto simp: resolve_def store_path.expand)

lemma file_name_snoc: "segments p = xs @ [name] \<Longrightarrow> file_name p = Some name"
  by (simp add: file_name_def)

lemma resolve_ne_tmp:
  assumes "\<not> sp_temporary q" and "q \<noteq> p"
  shows "resolve root q \<noteq> with_extension (resolve root p) ''tmp''"
proof
  assume eq: "resolve root q = with_extension (resolve root p) ''tmp''"
  then have len: "length (segments q) = length (segments p)"
    by (metis add_left_cancel eq length_append length_with_extension resolve_def)
  have p: "segments p \<noteq> []"
    using len assms(2) by (cases p; cases q) auto
  then obtain xs name where xs: "segments q = xs @ [name]"
    using len by (cases "segments q" rule: rev_cases) auto
  have "last (resolve root q) = name_stem (last (resolve root p)) @ ''.tmp''"
    unfolding eq using p by (simp add: with_extension_def resolve_def)
  then have "name = name_stem (last (resolve root p)) @ ''.tmp''"
    by (simp add: resolve_def xs)
  then have "strip_suffix ''.tmp'' name \<noteq> None" by simp
  then have "sp_temporary q" by (simp add: sp_temporary_def file_name_snoc [OF xs])
  with assms(1) show False ..
qed

lemma fs_op_eq: "fs_op g s = (case g s of Inl e \<Rightarrow> (Inl (Io e), s) | Inr s' \<Rightarrow> (Inr (), s'))"
  by (simp add: fs_op_def)

text \<open>What a write leaves: nothing, the temporary sibling, or the file.\<close>

lemma write_atomic_cases:
  fixes root p
  defines "target \<equiv> resolve root p" and "tmp \<equiv> with_extension (resolve root p) ''tmp''"
  assumes "fs_store_write_atomic root p bs s = (r, s')"
  obtains (unwritten) e where "r = Inl (Io e)" "s' = s"
  | (temporary) e where "r = Inl (Io e)" "fs_write tmp bs s = Inr s'" "tmp \<noteq> target"
  | (same) "r = Inr ()" "fs_write tmp bs s = Inr s'" "tmp = target"
  | (renamed) s1 s2 where "r = Inr ()" "fs_write tmp bs s = Inr s1" "fs_write target bs s1 = Inr s2"
      "s' = fs_unlink tmp s2" "tmp \<noteq> target"
proof -
  have read: "fs_read tmp s1 = Inr bs" if "fs_write tmp bs s = Inr s1" for s1
    using fs_write_Inr [OF that] by (simp add: fs_read_Inr fs_blocked_insert_long)
  show thesis
  proof (cases "fs_write tmp bs s")
    case (Inl e)
    with assms(3) show ?thesis
      by (intro unwritten) (auto simp: fs_store_write_atomic_def write_atomic_on_def Let_def io_bind_def fs_op_def tmp_def)
  next
    case (Inr s1)
    with assms(3) have r: "fs_op (fs_rename tmp target) s1 = (r, s')"
      by (auto simp: fs_store_write_atomic_def write_atomic_on_def Let_def io_bind_def fs_op_def tmp_def target_def split: sum.splits)
    show ?thesis
    proof (cases "tmp = target")
      case True
      with r read [OF Inr] have "r = Inr ()" "s' = s1" by (auto simp: fs_op_def fs_rename_def)
      with Inr True show ?thesis by (intro same) auto
    next
      case False
      show ?thesis
      proof (cases "fs_write target bs s1")
        case (Inl e)
        with r read [OF Inr] False show ?thesis using Inr
          by (intro temporary [of e]) (auto simp: fs_op_def fs_rename_def)
      next
        case w: (Inr s2)
        with r read [OF Inr] False show ?thesis using Inr
          by (intro renamed [of s1 s2]) (auto simp: fs_op_def fs_rename_def)
      qed
    qed
  qed
qed

text \<open>What a write leaves in the tree, whichever way it ended.\<close>

lemma write_atomic_ok: "fs_ok s \<Longrightarrow> fs_ok (snd (fs_store_write_atomic root p bs s))"
proof (cases "fs_store_write_atomic root p bs s")
  case (Pair r s')
  assume ok: "fs_ok s"
  from Pair show ?thesis
  proof (cases rule: write_atomic_cases)
    case (renamed s1 s2)
    have s2: "fs_ok s2" using renamed(2,3) ok by (blast intro: fs_ok_write)
    have "bt_get s2 (with_extension (resolve root p) ''tmp'') = Some (FsFile bs)"
      using fs_write_Inr(1,2) [OF renamed(2)] fs_write_Inr(1) [OF renamed(3)] renamed(5) by simp
    then have "fs_read (with_extension (resolve root p) ''tmp'') s2 = Inr bs"
      using fs_write_Inr(2) [OF renamed(2)] fs_read_ok [OF s2] by blast
    with s2 renamed(4) show ?thesis using Pair by (simp add: fs_ok_unlink_file)
  qed (use ok Pair in \<open>auto intro: fs_ok_write\<close>)
qed

lemma write_atomic_reads:
  assumes ok: "fs_ok s" and w: "fs_store_write_atomic root p bs s = (Inr (), s')"
  shows "fs_read (resolve root p) s' = Inr bs"
proof -
  have "fs_ok s'" using write_atomic_ok [OF ok, of root p bs] w by simp
  moreover have "resolve root p \<noteq> [] \<and> bt_get s' (resolve root p) = Some (FsFile bs)"
    using w
  proof (cases rule: write_atomic_cases)
    case same
    then show ?thesis using fs_write_Inr(1,2) by fastforce
  next
    case (renamed s1 s2)
    then show ?thesis using fs_write_Inr(1,2) [OF renamed(3)] by (simp add: bt_get_unlink)
  qed simp_all
  ultimately show ?thesis by (simp add: fs_read_ok)
qed

lemma write_atomic_other:
  assumes ok: "fs_ok s" and q: "q \<noteq> resolve root p" "q \<noteq> with_extension (resolve root p) ''tmp''"
  shows "fs_read q (snd (fs_store_write_atomic root p bs s)) = Inr bs' \<longleftrightarrow> fs_read q s = Inr bs'"
proof (cases "fs_store_write_atomic root p bs s")
  case (Pair r s')
  have ok': "fs_ok s'" using write_atomic_ok [OF ok, of root p bs] Pair by simp
  from Pair have "bt_get s' q = bt_get s q"
  proof (cases rule: write_atomic_cases)
    case (renamed s1 s2)
    then show ?thesis
      using fs_write_Inr(1) [OF renamed(2)] fs_write_Inr(1) [OF renamed(3)] q by (simp add: bt_get_unlink)
  next
    case temporary
    then show ?thesis using q by (auto dest: fs_write_Inr(1))
  next
    case same
    then show ?thesis using q by (auto dest: fs_write_Inr(1))
  qed simp
  then show ?thesis using Pair ok ok' by (simp add: fs_read_ok)
qed

subsection \<open>Making directories\<close>

definition mkdir_step :: "string list \<Rightarrow> nat \<Rightarrow> fs \<Rightarrow> fs" where
  "mkdir_step p n f = (if bt_get f (take n p) = None then bt_insert (take n p) FsDir f else f)"

lemma mkdir_fold_get:
  "bt_get f q = Some node \<Longrightarrow> bt_get (fold (mkdir_step p) ns f) q = Some node"
proof (induction ns arbitrary: f)
  case (Cons n ns)
  have "bt_get (mkdir_step p n f) q = Some node" using Cons.prems by (auto simp: mkdir_step_def)
  from Cons.IH [OF this] show ?case by simp
qed simp

lemma mkdir_step_ok:
  assumes ok: "fs_ok f" and n: "0 < n" "n \<le> length p"
    and above: "fs_node_at f (take (n - 1) p) = Some FsDir"
  shows "fs_ok (mkdir_step p n f)"
proof (cases "bt_get f (take n p)")
  case None
  have "take n p \<noteq> []" using n by auto
  moreover have "butlast (take n p) = take (n - 1) p" using n by (simp add: butlast_take)
  ultimately have g: "fs_ok (bt_insert (take n p) (FsFile []) f)"
    using fs_ok_insert_file [OF ok, of "take n p" "[]"] above None by simp
  show ?thesis
    unfolding fs_ok_def
  proof (intro allI impI)
    fix q node k
    assume q: "bt_get (mkdir_step p n f) q = Some node" and k: "k < length q"
    from q None have "\<exists>node. bt_get (bt_insert (take n p) (FsFile []) f) q = Some node"
      by (auto simp: mkdir_step_def split: if_splits)
    then have "fs_node_at (bt_insert (take n p) (FsFile []) f) (take k q) = Some FsDir"
      using fs_okD [OF g _ k] by blast
    then show "fs_node_at (mkdir_step p n f) (take k q) = Some FsDir"
      using None by (auto simp: fs_node_at_insert mkdir_step_def split: if_splits)
  qed
qed (use ok in \<open>simp add: mkdir_step_def\<close>)

lemma mkdir_fold_ok:
  assumes "fs_ok f" and "m \<le> length p"
    and "\<And>n bs. n \<le> length p \<Longrightarrow> fs_node_at f (take n p) \<noteq> Some (FsFile bs)"
  shows "fs_ok (fold (mkdir_step p) [1..<m + 1] f) \<and>
    (\<forall>n\<le>m. fs_node_at (fold (mkdir_step p) [1..<m + 1] f) (take n p) = Some FsDir) \<and>
    (\<forall>n bs. n \<le> length p \<longrightarrow> fs_node_at (fold (mkdir_step p) [1..<m + 1] f) (take n p) \<noteq> Some (FsFile bs))"
  using assms(2)
proof (induction m)
  case 0
  then show ?case using assms(1,3) by simp
next
  case (Suc m)
  define g where "g = fold (mkdir_step p) [1..<m + 1] f"
  have g: "fs_ok g" "\<And>n. n \<le> m \<Longrightarrow> fs_node_at g (take n p) = Some FsDir"
    "\<And>n bs. n \<le> length p \<Longrightarrow> fs_node_at g (take n p) \<noteq> Some (FsFile bs)"
    using Suc by (auto simp: g_def)
  have step: "fold (mkdir_step p) [1..<Suc m + 1] f = mkdir_step p (Suc m) g"
    by (simp add: g_def)
  have "fs_ok (mkdir_step p (Suc m) g)"
    by (rule mkdir_step_ok) (use g Suc in auto)
  moreover have "fs_node_at (mkdir_step p (Suc m) g) (take n p) =
      (if bt_get g (take (Suc m) p) = None \<and> take n p = take (Suc m) p then Some FsDir else fs_node_at g (take n p))" for n
    using Suc.prems by (auto simp: mkdir_step_def fs_node_at_insert)
  moreover have "fs_node_at (mkdir_step p (Suc m) g) (take (Suc m) p) = Some FsDir"
  proof -
    have "take (Suc m) p \<noteq> []" using Suc.prems by auto
    moreover have "bt_get g (take (Suc m) p) \<noteq> None \<Longrightarrow> fs_node_at g (take (Suc m) p) = Some FsDir"
      using g(3) [of "Suc m"] Suc.prems \<open>take (Suc m) p \<noteq> []\<close>
      by (metis fs_node.exhaust fs_node_at_def option.exhaust)
    ultimately show ?thesis
      by (cases "bt_get g (take (Suc m) p)") (auto simp: mkdir_step_def fs_node_at_insert simp del: take_Suc_Cons)
  qed
  ultimately show ?case unfolding step using g by (auto simp del: take_Suc_Cons simp: le_Suc_eq split: if_splits)
qed

lemma fs_create_dir_all_Inr:
  assumes "fs_create_dir_all p f = Inr f'"
  shows "f' = fold (mkdir_step p) [1..<length p + 1] f"
    and "\<And>n bs. n \<le> length p \<Longrightarrow> fs_node_at f (take n p) \<noteq> Some (FsFile bs)"
proof -
  from assms have b: "\<not> fs_blocked f p" and e: "\<And>bs. fs_node_at f p \<noteq> Some (FsFile bs)"
    and f': "f' = fold (\<lambda>n f. if bt_get f (take n p) = None then bt_insert (take n p) FsDir f else f) [1..<length p + 1] f"
    by (auto simp: fs_create_dir_all_def split: if_splits option.splits fs_node.splits)
  from f' show "f' = fold (mkdir_step p) [1..<length p + 1] f"
    by (simp add: mkdir_step_def [abs_def])
  show "fs_node_at f (take n p) \<noteq> Some (FsFile bs)" if "n \<le> length p" for n bs
    using b e that by (cases "n = length p") (auto simp: fs_blocked_iff)
qed

lemma create_ok: "fs_ok s \<Longrightarrow> fs_ok (snd (fs_store_create_dir_all root p s))"
proof (cases "fs_create_dir_all (resolve root p) s")
  case (Inr s')
  assume "fs_ok s"
  then have "fs_ok s'"
    using mkdir_fold_ok [of s "length (resolve root p)" "resolve root p"] fs_create_dir_all_Inr [OF Inr] by simp
  with Inr show ?thesis by (simp add: fs_store_create_dir_all_def fs_op_def)
qed (simp add: fs_store_create_dir_all_def fs_op_def)

lemma create_reads:
  assumes "fs_ok s" and "fs_read q s = Inr bs"
  shows "fs_read q (snd (fs_store_create_dir_all root p s)) = Inr bs"
proof -
  have "bt_get (snd (fs_store_create_dir_all root p s)) q = Some (FsFile bs)"
    using assms fs_create_dir_all_Inr(1) mkdir_fold_get
    by (fastforce simp: fs_store_create_dir_all_def fs_op_def fs_read_ok split: sum.splits)
  then show ?thesis using assms create_ok [of s root p] by (simp add: fs_read_ok)
qed

lemma remove_ok: "fs_ok s \<Longrightarrow> fs_ok (snd (fs_store_remove_file root p s))"
  by (auto simp: fs_store_remove_file_def fs_remove_file_def bind_ok_def fs_ok_unlink_file split: sum.splits)

lemma fs_store_read_Inr: "fst (fs_store_read root p s) = Inr (Some bs) \<longleftrightarrow> fs_read (resolve root p) s = Inr bs"
  by (auto simp: fs_store_read_def split: sum.splits)

lemma fs_read_dir_entry:
  assumes "fs_ok f" and "bt_get f p = Some node" and "p \<noteq> []"
  shows "\<exists>es. fs_read_dir (butlast p) f = Inr es \<and> \<lparr>de_name = last p, de_is_dir = (node = FsDir)\<rparr> \<in> set es"
proof -
  have up: "fs_node_at f (take n p) = Some FsDir" if "n < length p" for n
    by (rule fs_okD [OF assms(1,2) that])
  have "length p - 1 < length p" using assms(3) by simp
  from up [OF this] have dir: "fs_node_at f (butlast p) = Some FsDir" by (simp add: butlast_conv_take)
  have "\<not> fs_blocked f (butlast p)" using up by (auto simp: fs_blocked_iff take_butlast)
  moreover have "(p, node) \<in> set f" using assms(2) by (rule map_of_SomeD)
  then have "\<lparr>de_name = last p, de_is_dir = (node = FsDir)\<rparr> \<in>
      set (map (\<lambda>(q, node). \<lparr>de_name = last q, de_is_dir = (node = FsDir)\<rparr>) (filter (\<lambda>(q, node). q \<noteq> [] \<and> butlast q = butlast p) f))"
    using assms(3) by force
  ultimately show ?thesis using dir by (simp add: fs_read_dir_def)
qed

lemma fs_list_file:
  assumes "fs_ok s" and "fst (fs_store_read root (sp_join d name) s) = Inr (Some bs)"
  shows "\<exists>es. fst (fs_store_list_dir root d s) = Inr es \<and> \<lparr>de_name = name, de_is_dir = False\<rparr> \<in> set es"
proof -
  have "bt_get s (resolve root d @ [name]) = Some (FsFile bs)"
    using assms by (simp add: fs_store_read_Inr fs_read_Inr resolve_def sp_join_def)
  from fs_read_dir_entry [OF assms(1) this] show ?thesis by (auto simp: fs_store_list_dir_def)
qed

lemma fs_list_subdir:
  assumes "fs_ok s" and "fst (fs_store_read root (sp_join (sp_join d sub) name) s) = Inr (Some bs)"
  shows "\<exists>es. fst (fs_store_list_dir root d s) = Inr es \<and> \<lparr>de_name = sub, de_is_dir = True\<rparr> \<in> set es"
proof -
  let ?p = "resolve root d @ [sub]"
  have f: "bt_get s (?p @ [name]) = Some (FsFile bs)"
    using assms by (simp add: fs_store_read_Inr fs_read_Inr resolve_def sp_join_def)
  from fs_okD [OF assms(1) f, of "length ?p"] have "bt_get s ?p = Some FsDir"
    by (simp add: fs_node_at_def)
  from fs_read_dir_entry [OF assms(1) this] show ?thesis by (auto simp: fs_store_list_dir_def)
qed

lemma fs_remove_other:
  assumes "fs_ok s" and "q \<noteq> p" and "fst (fs_store_read root q s) = Inr (Some bs)"
  shows "fst (fs_store_read root q (snd (fs_store_remove_file root p s))) = Inr (Some bs)"
proof -
  have f: "bt_get s (resolve root q) = Some (FsFile bs)" "resolve root q \<noteq> []"
    using assms(1,3) by (simp_all add: fs_store_read_Inr fs_read_ok)
  have "bt_get (snd (fs_store_remove_file root p s)) (resolve root q) = Some (FsFile bs)"
    using f assms(2)
    by (auto simp: fs_store_remove_file_def fs_remove_file_def bind_ok_def bt_get_unlink split: sum.splits)
  with f(2) show ?thesis by (simp add: fs_store_read_Inr fs_read_ok [OF remove_ok [OF assms(1)]])
qed

interpretation fs: channel_store "fs_store root" fs_ok
proof unfold_locales
  show "fst (st_exists (fs_store root) p s) = Inr True"
    if "fs_ok s" and "fst (st_read (fs_store root) p s) = Inr (Some bs)" for p s bs
    using that
    by (auto simp: fs_store_def fs_store_exists_def fs_store_read_Inr fs_read_Inr fs_node_at_def)
qed (simp_all add: fs_store_def fs_store_read_Inr write_atomic_reads write_atomic_ok create_ok remove_ok
      create_reads write_atomic_other resolve_ne_tmp fs_list_file fs_list_subdir fs_remove_other, simp_all add: fs_store_read_def fs_store_list_dir_def fs_store_exists_def)

text \<open>The target is never written but by the rename.\<close>

lemma tmp_ne_target:
  assumes "\<not> sp_temporary p" and "segments p \<noteq> []"
  shows "with_extension (resolve root p) ''tmp'' \<noteq> resolve root p"
proof
  assume eq: "with_extension (resolve root p) ''tmp'' = resolve root p"
  obtain xs name where xs: "segments p = xs @ [name]" using assms(2) by (cases "segments p" rule: rev_cases) auto
  have "name_stem (last (resolve root p)) @ ''.tmp'' = last (with_extension (resolve root p) ''tmp'')"
    using assms(2) by (simp add: with_extension_def resolve_def)
  then have "name_stem (last (resolve root p)) @ ''.tmp'' = name"
    unfolding eq by (simp add: resolve_def xs)
  then have "strip_suffix ''.tmp'' name \<noteq> None" by (metis strip_suffix_append option.distinct(1))
  with assms(1) show False by (simp add: sp_temporary_def file_name_snoc [OF xs])
qed

lemma fs_store_read_insert_tmp:
  assumes "\<not> sp_temporary p" and "segments p \<noteq> []"
    and "fs_write (with_extension (resolve root p) ''tmp'') bs s = Inr s1"
  shows "fst (fs_store_read root p s1) = fst (fs_store_read root p s)"
  using fs_write_Inr(1) [OF assms(3)] tmp_ne_target [OF assms(1,2), of root]
  by (simp add: fs_store_read_def fs_read_def fs_blocked_insert_long fs_node_at_insert)

section \<open>The write as others see it\<close>

text \<open>
  \<open>std::fs::write\<close> is not one step: it creates or truncates the file and then writes the bytes one
  after the other, and the device may be full after \<open>room\<close> of them. A history is the list of the
  filesystems that existed so far, the present one last; \<open>rename(2)\<close> replaces its target in one step.
\<close>

definition no_space :: io_kind where
  "no_space = OtherIo ''no space left on device''"

definition seen_write :: "nat \<Rightarrow> string list \<Rightarrow> bytes \<Rightarrow> (fs list, unit) io" where
  "seen_write room q bs hs =
     (let f = last hs in
      case fs_write q [] f of Inl e \<Rightarrow> (Inl (Io e), hs)
      | Inr _ \<Rightarrow>
          (if room < length bs then Inl (Io no_space) else Inr (),
           hs @ map (\<lambda>n. bt_insert q (FsFile (take n bs)) f) [0..<Suc (min room (length bs))]))"

definition seen_rename :: "string list \<Rightarrow> string list \<Rightarrow> (fs list, unit) io" where
  "seen_rename a b hs =
     (case fs_rename a b (last hs) of Inl e \<Rightarrow> (Inl (Io e), hs) | Inr f \<Rightarrow> (Inr (), hs @ [f]))"

lemma fs_write_as: "fs_write q xs f = (case fs_write q ys f of Inl e \<Rightarrow> Inl e | Inr _ \<Rightarrow> Inr (bt_insert q (FsFile xs) f))"
  by (simp add: fs_write_def)

text \<open>The three ways an observed write ends: refused, out of space, or at the rename.\<close>

lemma seen_write_atomicE:
  fixes root p bs s
  defines "tmp \<equiv> with_extension (resolve root p) ''tmp''"
  defines "part \<equiv> \<lambda>n. bt_insert tmp (FsFile (take n bs)) s"
  assumes "write_atomic_on (seen_write room) seen_rename root p bs [s] = (r, hs)"
  obtains (refused) e where "r = Inl (Io e)" "hs = [s]" "fs_store_write_atomic root p bs s = (r, s)"
  | (full) e where "r = Inl (Io e)" "room < length bs" "hs = s # map part [0..<Suc room]"
      "\<And>n. fs_write tmp (take n bs) s = Inr (part n)"
  | (kept) e where "r = Inl (Io e)" "hs = s # map part [0..<Suc (length bs)]"
      "fs_store_write_atomic root p bs s = (r, part (length bs))"
      "\<And>n. fs_write tmp (take n bs) s = Inr (part n)"
  | (renamed) f where "r = Inr ()" "hs = (s # map part [0..<Suc (length bs)]) @ [f]"
      "fs_store_write_atomic root p bs s = (r, f)" "\<And>n. fs_write tmp (take n bs) s = Inr (part n)"
proof (cases "fs_write tmp [] s")
  case (Inl e)
  then have "fs_write tmp bs s = Inl e" using fs_write_as [of tmp bs s "[]"] by simp
  with Inl assms(3) show thesis
    by (intro refused [of e])
      (auto simp: write_atomic_on_def fs_store_write_atomic_def seen_write_def fs_op_def tmp_def Let_def io_bind_def)
next
  case (Inr f0)
  have part: "fs_write tmp (take n bs) s = Inr (part n)" for n
    using Inr fs_write_as [of tmp "take n bs" s "[]"] by (simp add: part_def)
  let ?hs = "s # map part [0..<Suc (length bs)]"
  have store: "fs_store_write_atomic root p bs s = fs_op (fs_rename tmp (resolve root p)) (part (length bs))"
    using part [of "length bs"]
    by (simp add: fs_store_write_atomic_def write_atomic_on_def fs_op_def Let_def io_bind_def flip: tmp_def)
  show thesis
  proof (cases "room < length bs")
    case True
    with Inr assms(3) show thesis
      by (intro full [of no_space])
        (auto simp: write_atomic_on_def seen_write_def Let_def io_bind_def part_def tmp_def min_def
          part [unfolded part_def tmp_def] simp del: upt_Suc)
  next
    case False
    then have "min room (length bs) = length bs" by simp
    with False Inr assms(3) have rn: "seen_rename tmp (resolve root p) ?hs = (r, hs)"
      by (simp add: write_atomic_on_def seen_write_def Let_def io_bind_def part_def tmp_def del: upt_Suc)
    have "last ?hs = part (length bs)" by simp
    with rn store show thesis
      using kept renamed part
      by (cases "fs_rename tmp (resolve root p) (part (length bs))")
        (auto simp: seen_rename_def fs_op_def simp del: upt_Suc)
  qed
qed

lemma fs_write_reads_other:
  assumes "fs_write p bs f = Inr f'" and "fs_ok f" and "q \<noteq> p"
  shows "fs_read q f' = Inr bs' \<longleftrightarrow> fs_read q f = Inr bs'"
  using fs_write_Inr(1) [OF assms(1)] fs_ok_write [OF assms(2,1)] assms(2,3)
  by (simp add: fs_read_ok)

text \<open>
  Claim C21. Whoever reads a file while \<open>write_atomic\<close> replaces it, or after the process died in the
  middle of it, finds the previous contents (or their absence) or the complete new ones, at every
  moment: also while the bytes are being written one after the other and when the device fills up
  half way. The write leaves the new contents when it returned without an error and the previous
  ones when it failed. Every other file that is not a temporary reads as before at every moment. When
  the device has room, the filesystem left in the end is the one the backend of the model computes.
\<close>

theorem write_atomic_old_or_new:
  assumes "fs_ok s" and "\<not> sp_temporary p" and "segments p \<noteq> []"
    and "write_atomic_on (seen_write room) seen_rename root p bs [s] = (r, hs)"
  shows "(\<forall>f\<in>set hs. fst (fs_store_read root p f) = fst (fs_store_read root p s) \<or>
        fst (fs_store_read root p f) = Inr (Some bs)) \<and>
    fst (fs_store_read root p (last hs)) =
      (if r = Inr () then Inr (Some bs) else fst (fs_store_read root p s)) \<and>
    (\<forall>f\<in>set hs. \<forall>q bs'. q \<noteq> p \<longrightarrow> \<not> sp_temporary q \<longrightarrow>
        (fst (fs_store_read root q f) = Inr (Some bs') \<longleftrightarrow> fst (fs_store_read root q s) = Inr (Some bs'))) \<and>
    (length bs \<le> room \<longrightarrow> fs_store_write_atomic root p bs s = (r, last hs))"
proof -
  let ?read = "\<lambda>q f. fst (fs_store_read root q f)"
  let ?tmp = "with_extension (resolve root p) ''tmp''"
  have old: "?read p f = ?read p s" if "fs_write ?tmp xs s = Inr f" for f xs
    by (rule fs_store_read_insert_tmp [OF assms(2,3) that])
  have tmp: "resolve root q \<noteq> resolve root p \<and> resolve root q \<noteq> ?tmp" if "q \<noteq> p" "\<not> sp_temporary q" for q
    using resolve_ne_tmp [of q p root] that by simp
  have other: "?read q f = Inr (Some bs') \<longleftrightarrow> ?read q s = Inr (Some bs')"
    if "fs_write ?tmp xs s = Inr f" "q \<noteq> p" "\<not> sp_temporary q" for f xs q bs'
    using fs_write_reads_other [OF that(1) assms(1)] tmp [OF that(2,3)] by (simp add: fs_store_read_Inr)
  from assms(4) show ?thesis
  proof (cases rule: seen_write_atomicE)
    case (refused e)
    then show ?thesis by simp
  next
    case (full e)
    show ?thesis unfolding full(1,3) using full(2) old [OF full(4)] other [OF full(4)]
      by (auto simp del: upt_Suc simp: last_map)
  next
    case (kept e)
    show ?thesis unfolding kept(2,3) kept(1) using old [OF kept(4)] old [OF kept(4), of "length bs"] other [OF kept(4)]
      by (auto simp del: upt_Suc simp: last_map)
  next
    case (renamed f)
    have new: "?read p f = Inr (Some bs)"
      using write_atomic_reads [OF assms(1) renamed(3) [unfolded renamed(1)]] by (simp add: fs_store_read_Inr)
    have rest: "?read q f = Inr (Some bs') \<longleftrightarrow> ?read q s = Inr (Some bs')"
      if "q \<noteq> p" "\<not> sp_temporary q" for q bs'
      using write_atomic_other [OF assms(1), of "resolve root q" root p bs bs'] tmp [OF that] renamed(3)
      by (simp add: fs_store_read_Inr)
    show ?thesis unfolding renamed(2,3) renamed(1)
      using old [OF renamed(4)] other [OF renamed(4)] new rest by (auto simp del: upt_Suc)
  qed
qed

definition ex_fs :: fs where
  "ex_fs = [([''sync''], FsDir), ([''sync'', ''a.oplog''], FsFile [7]), ([''sync'', ''manifest.json''], FsFile [1, 2])]"

lemma ex_fs_ok: "fs_ok ex_fs"
  by (auto simp: fs_ok_def ex_fs_def fs_node_at_def less_Suc_eq split: if_splits)

text \<open>The device is full after one byte of three: the manifest still reads as before.\<close>

lemma write_atomic_old_or_new_witness:
  "\<exists>r hs. write_atomic_on (seen_write 1) seen_rename [''sync''] (StorePath [''manifest.json'']) [3, 4, 5] [ex_fs] = (r, hs) \<and>
     length hs = 3 \<and> r \<noteq> Inr () \<and>
     map (\<lambda>f. fst (fs_store_read [''sync''] (StorePath [''manifest.tmp'']) f)) hs =
       [Inr None, Inr (Some []), Inr (Some [3])] \<and>
     fst (fs_store_read [''sync''] (StorePath [''manifest.json'']) (last hs)) = Inr (Some [1, 2])"
proof -
  let ?m = "StorePath [''manifest.json'']"
  let ?run = "write_atomic_on (seen_write 1) seen_rename [''sync''] ?m [3, 4, 5] [ex_fs]"
  obtain r hs where run: "?run = (r, hs)" by (rule prod.exhaust)
  have facts: "length (snd ?run) = 3" "fst ?run \<noteq> Inr ()"
    "map (\<lambda>f. fst (fs_store_read [''sync''] (StorePath [''manifest.tmp'']) f)) (snd ?run) =
       [Inr None, Inr (Some []), Inr (Some [3])]"
    "\<not> sp_temporary ?m" "segments ?m \<noteq> []" "fst (fs_store_read [''sync''] ?m ex_fs) = Inr (Some [1, 2])"
    by code_simp+
  from write_atomic_old_or_new [OF ex_fs_ok facts(4,5) run] facts run show ?thesis by simp
qed

end
