(* ===== verification/Author.thy ===== *)
theory Author
  imports VaultFile Verify
begin

text \<open>
  Op authoring in \<open>lp-vault/src/vault.rs\<close>: \<open>author_op\<close> extends this device's hash chain by one
  signed op inside the caller's transaction, \<open>verify_local_chain\<close> re-checks the whole chain.
  BLAKE3 is \<open>H\<close>, Ed25519 signing is \<open>ed_sign\<close>; the random op id and the clock are arguments.
\<close>

section \<open>Reading the device's tail\<close>

text \<open>A session holds the device's id, its signing key and its public key.\<close>

record 'k session =
  ss_device_id :: id
  ss_signing :: 'k
  ss_ed25519_pub :: bytes

text \<open>\<open>i64\<close> addition as release builds do it.\<close>

definition i64_add :: "int \<Rightarrow> int \<Rightarrow> int" where
  "i64_add a b = (a + b + 2 ^ 63) mod 2 ^ 64 - 2 ^ 63"

text \<open>\<open>COALESCE(MAX(x), 0)\<close>.\<close>

definition sql_max :: "int list \<Rightarrow> int" where
  "sql_max xs = (case xs of [] \<Rightarrow> 0 | x # xs \<Rightarrow> fold max xs x)"

definition row_op_fields :: "op_row \<Rightarrow> id \<Rightarrow> id \<Rightarrow> vault_error + op_fields" where
  "row_op_fields r vid did =
     bind_ok (id_from_slice (r_op_id r)) (\<lambda>oid.
     if length (r_prev_hash r) \<noteq> 32 then Inl (VaultInvalid ''stored prev_hash not 32 bytes'')
     else
       bind_ok (ok_or (VaultInvalid ''unknown op_kind'')
         (if 0 \<le> r_op_kind r \<and> r_op_kind r < 256 then op_kind_from_code (word_of_int (r_op_kind r)) else None))
         (\<lambda>kind.
       bind_ok (case r_target_item_id r of None \<Rightarrow> Inr target_none
                | Some bs \<Rightarrow> bind_ok (id_from_slice bs) (\<lambda>i. Inr (target_of_item i))) (\<lambda>target.
       bind_ok (ok_or (VaultInvalid ''stored seq out of range'') (u64_try_from_i64 (r_seq r))) (\<lambda>sq.
       bind_ok (ok_or (VaultInvalid ''stored lamport out of range'') (u64_try_from_i64 (r_lamport r))) (\<lambda>lam.
       bind_ok (ok_or (VaultInvalid ''stored target_version out of range'')
         (if 0 \<le> r_target_version r \<and> r_target_version r < 2 ^ 32
          then Some (word_of_int (r_target_version r)) else None)) (\<lambda>tv.
       bind_ok (oh_decode (r_observed r)) (\<lambda>obs.
       Inr \<lparr>f_op_id = oid, f_vault_id = vid, f_device_id = did, f_seq = sq, f_prev_hash = r_prev_hash r,
            f_lamport = lam, f_op_kind = kind, f_target_item = target, f_target_version = tv,
            f_payload_env = r_payload_env r, f_observed = obs\<rparr>)))))))"

definition own_rows :: "id \<Rightarrow> op_row list \<Rightarrow> op_row list" where
  "own_rows d rows = filter (\<lambda>r. r_device_id r = as_bytes d) rows"

definition panic_or :: "string \<Rightarrow> 'a option \<Rightarrow> vault_error + 'a" where
  "panic_or msg r = ok_or (VaultPanic msg) r"

definition tail_full_bytes :: "id \<Rightarrow> id \<Rightarrow> op_row list \<Rightarrow> vault_error + bytes option" where
  "tail_full_bytes vid did rows =
     (case rev (sort_key r_seq (own_rows did rows)) of [] \<Rightarrow> Inr None
      | r # _ \<Rightarrow>
          bind_ok (row_op_fields r vid did) (\<lambda>fields.
          if length (r_signature r) \<noteq> 64 then Inl (VaultInvalid ''stored signature not 64 bytes'')
          else bind_ok (panic_or ''payload length fits u32'' (full_bytes fields (r_signature r)))
            (\<lambda>bs. Inr (Some bs))))"

definition read_observed_heads :: "op_row list \<Rightarrow> vault_error + observed_heads" where
  "read_observed_heads rows =
     fold_ok (\<lambda>(dev_bytes, seqs) observed.
         bind_ok (id_from_slice dev_bytes) (\<lambda>dev.
         Inr (oh_observe dev (case u64_try_from_i64 (sql_max seqs) of None \<Rightarrow> 0 | Some w \<Rightarrow> w) observed)))
       (bt_group_with r_device_id r_seq rows) oh_new"

section \<open>Authoring\<close>

definition author_fields ::
  "(bytes \<Rightarrow> bytes) \<Rightarrow> 'x vault_env \<Rightarrow> 'k session \<Rightarrow> id \<Rightarrow> op_kind \<Rightarrow> id option \<Rightarrow> u32 \<Rightarrow> bytes \<Rightarrow>
     op_row list \<Rightarrow> vault_error + (int \<times> int \<times> op_fields)" where
  "author_fields H env ses oid kind target tv plaintext rows =
     (let did = ss_device_id ses; vid = ve_vault_id env;
          sq = i64_add (sql_max (map r_seq (own_rows did rows))) 1;
          lam = i64_add (sql_max (map r_lamport rows)) 1
      in bind_ok (tail_full_bytes vid did rows) (\<lambda>prev_full.
         let prev = (case prev_full of Some bs \<Rightarrow> chain_hash H bs | None \<Rightarrow> genesis_hash H vid did)
         in bind_ok (read_observed_heads rows) (\<lambda>observed.
         bind_ok (vk_seal env plaintext (aad_op_payload vid oid)) (\<lambda>sealed.
         bind_ok (ok_or (VaultInvalid ''seq out of range'') (u64_try_from_i64 sq)) (\<lambda>s.
         bind_ok (ok_or (VaultInvalid ''lamport out of range'') (u64_try_from_i64 lam)) (\<lambda>l.
         Inr (sq, lam,
           \<lparr>f_op_id = oid, f_vault_id = vid, f_device_id = did, f_seq = s, f_prev_hash = prev,
            f_lamport = l, f_op_kind = kind,
            f_target_item = (case target of None \<Rightarrow> target_none | Some i \<Rightarrow> target_of_item i),
            f_target_version = tv, f_payload_env = sealed, f_observed = observed\<rparr>)))))))"

definition author_op ::
  "(bytes \<Rightarrow> bytes) \<Rightarrow> ('k \<Rightarrow> bytes \<Rightarrow> bytes) \<Rightarrow> 'x vault_env \<Rightarrow> 'k session \<Rightarrow> id \<Rightarrow> int \<Rightarrow>
     op_kind \<Rightarrow> id option \<Rightarrow> u32 \<Rightarrow> bytes \<Rightarrow> 'x vault_db \<Rightarrow> vault_error + 'x vault_db" where
  "author_op H ed_sign env ses oid now kind target tv plaintext db =
     bind_ok (author_fields H env ses oid kind target tv plaintext (db_ops db)) (\<lambda>(sq, lam, fields).
     bind_ok (panic_or ''payload length fits u32'' (op_sign ed_sign fields (ss_signing ses))) (\<lambda>signed.
     bind_ok signed (\<lambda>sig.
     bind_ok (panic_or ''observed-heads count fits u32'' (f_observed_bytes fields)) (\<lambda>obs.
     if (\<exists>r\<in>set (db_ops db). r_op_id r = as_bytes oid)
       \<or> (\<exists>r\<in>set (db_ops db). r_device_id r = as_bytes (ss_device_id ses) \<and> r_seq r = sq)
     then Inl (Sqlite ''UNIQUE constraint failed: ops'')
     else Inr (db\<lparr>db_ops := db_ops db @
       [\<lparr>r_op_id = as_bytes oid, r_vault_id = as_bytes (ve_vault_id env),
         r_device_id = as_bytes (ss_device_id ses), r_seq = sq, r_prev_hash = f_prev_hash fields,
         r_lamport = lam, r_op_kind = uint (op_kind_code kind),
         r_target_item_id = map_option as_bytes target, r_target_version = uint tv,
         r_payload_env = f_payload_env fields, r_signature = sig, r_observed = obs,
         r_created_at = now\<rparr>]\<rparr>)))))"

section \<open>Re-checking the chain\<close>

fun verify_local_rows ::
  "(bytes \<Rightarrow> bytes) \<Rightarrow> (bytes \<Rightarrow> bytes \<Rightarrow> bytes \<Rightarrow> bool) \<Rightarrow> id \<Rightarrow> id \<Rightarrow> bytes \<Rightarrow> int \<Rightarrow> bytes \<Rightarrow> int \<Rightarrow>
     op_row list \<Rightarrow> vault_error + unit" where
  "verify_local_rows H ed_verify vid did verifying expected prev last_lam [] = Inr ()"
| "verify_local_rows H ed_verify vid did verifying expected prev last_lam (r # rows) =
     (if r_seq r \<noteq> expected then Inl (ChainVerification ''seq is not gapless from 1'')
      else if r_prev_hash r \<noteq> prev then Inl (ChainVerification ''prev_hash does not chain'')
      else if r_lamport r < last_lam then Inl (ChainVerification ''lamport regressed for device'')
      else
        bind_ok (row_op_fields r vid did) (\<lambda>fields.
        if length (r_signature r) \<noteq> 64 then Inl (ChainVerification ''signature not 64 bytes'')
        else
          bind_ok (panic_or ''payload length fits u32'' (op_verify ed_verify fields verifying (r_signature r)))
            (\<lambda>verified.
          bind_ok (map_err (\<lambda>_. ChainVerification ''signature invalid'') verified) (\<lambda>_.
          bind_ok (panic_or ''payload length fits u32'' (full_bytes fields (r_signature r))) (\<lambda>bs.
          verify_local_rows H ed_verify vid did verifying (expected + 1) (chain_hash H bs) (r_lamport r) rows)))))"

definition verify_local_chain ::
  "(bytes \<Rightarrow> bytes) \<Rightarrow> (bytes \<Rightarrow> bytes \<Rightarrow> bytes \<Rightarrow> bool) \<Rightarrow> (bytes \<Rightarrow> crypto_error + bytes) \<Rightarrow>
     'x vault_env \<Rightarrow> 'k session \<Rightarrow> 'x vault_db \<Rightarrow> vault_error + unit" where
  "verify_local_chain H ed_verify vk_from_bytes env ses db =
     bind_ok (map_err from_crypto (vk_from_bytes (ss_ed25519_pub ses))) (\<lambda>verifying.
     verify_local_rows H ed_verify (ve_vault_id env) (ss_device_id ses) verifying 1
       (genesis_hash H (ve_vault_id env) (ss_device_id ses)) (- 1)
       (sort_key r_seq (own_rows (ss_device_id ses) (db_ops db))))"

section \<open>The device's chain\<close>

definition own_ops :: "id \<Rightarrow> stored_op list \<Rightarrow> stored_op list" where
  "own_ops d ops = sort_key (\<lambda>op. uint (seq op)) (filter (\<lambda>op. device_id op = d) ops)"

definition own_chain ::
  "(bytes \<Rightarrow> bytes) \<Rightarrow> (bytes \<Rightarrow> bytes \<Rightarrow> bytes \<Rightarrow> bool) \<Rightarrow> bytes \<Rightarrow> id \<Rightarrow> id \<Rightarrow> stored_op list \<Rightarrow> bool" where
  "own_chain H ed_verify key vid d ops \<longleftrightarrow>
     valid_chain H ed_verify key 1 (genesis_hash H vid d) 0 (own_ops d ops) \<and>
     (\<forall>op\<in>set (own_ops d ops). vault_id op = vid)"

lemma set_own_ops [simp]: "set (own_ops d ops) = {op \<in> set ops. device_id op = d}"
  by (simp add: own_ops_def)

lemma own_rows_sorted:
  "log_ok rows ops \<Longrightarrow> sort_key r_seq (own_rows d rows) = map row_of (own_ops d ops)"
  by (simp add: log_ok_def own_rows_def own_ops_def sort_key_map filter_map comp_def id_eq_iff)

lemma row_op_fields_row_of:
  assumes "row_fits op"
  shows "row_op_fields (row_of op) (vault_id op) (device_id op) = Inr (to_op_fields op)"
  using assms uint_code_bounds [of "op_kind_code (op_kind op)"] uint_u32_bound [of "target_version op"]
  by (cases "target_item op")
    (auto simp: row_op_fields_def row_of_def row_fits_def op_wf_def id_wf_def id_from_slice_def
      u64_try_from_i64_def oh_decode_bytes to_op_fields_def)

lemma full_bytes_to_op_fields:
  "full_bytes (to_op_fields op) (signature op) = (if op_fits op then Some (op_bytes op) else None)"
  using encode_op_fits [of op] by (simp add: encode_op_def)

lemma word_of_int_eq_seq:
  "1 \<le> e \<Longrightarrow> e \<le> 2 ^ 63 \<Longrightarrow> uint (s :: u64) = e \<longleftrightarrow> s = word_of_int e"
  by (auto simp: uint_word_of_int_eq take_bit_int_eq_self)

text \<open>The local check accepts exactly the chains the ingest verifier of a peer accepts.\<close>

lemma verify_local_rows_iff:
  assumes "\<forall>op\<in>set os. row_fits op \<and> vault_id op = vid \<and> device_id op = d"
    and "1 \<le> e" "e \<le> 2 ^ 63" and "\<And>x. l \<le> uint x \<longleftrightarrow> l' \<le> x"
  shows "verify_local_rows H ed_verify vid d key e p l (map row_of os) = Inr () \<longleftrightarrow>
    valid_chain H ed_verify key (word_of_int e) p l' os"
  using assms
proof (induction os arbitrary: e p l l')
  case Nil
  then show ?case by simp
next
  case (Cons op os)
  have fits: "row_fits op" "vault_id op = vid" "device_id op = d" "length (signature op) = 64"
    using Cons.prems(1) by (auto simp: row_fits_def op_wf_def)
  have fields: "row_op_fields (row_of op) vid d = Inr (to_op_fields op)"
    using row_op_fields_row_of [OF fits(1)] fits(2,3) by simp
  have row: "r_prev_hash (row_of op) = prev_hash op" "r_signature (row_of op) = signature op"
    by (simp_all add: row_of_def)
  have sq: "uint (seq op) = e \<longleftrightarrow> seq op = word_of_int e"
    by (rule word_of_int_eq_seq [OF Cons.prems(2,3)])
  have lam: "uint (lamport op) < l \<longleftrightarrow> \<not> l' \<le> lamport op"
    using Cons.prems(4) by (metis not_less)
  have IH: "verify_local_rows H ed_verify vid d key (e + 1) (H (op_bytes op)) (uint (lamport op)) (map row_of os) = Inr ()
      \<longleftrightarrow> valid_chain H ed_verify key (word_of_int e + 1) (H (op_bytes op)) (lamport op) os"
    if "uint (seq op) = e"
  proof -
    have "e + 1 \<le> 2 ^ 63" using that fits(1) by (simp add: row_fits_def i64_max_def)
    then show ?thesis
      using Cons.IH [of "e + 1" "uint (lamport op)" "lamport op" "H (op_bytes op)"] Cons.prems(1,2)
      by (simp add: word_le_def)
  qed
  show ?case
    using fits IH sq lam
    by (auto simp: fields row op_verify_fits full_bytes_to_op_fields signature_ok_def panic_or_def
        chain_hash_def bind_ok_def split: if_splits)
qed

lemma verify_local_chain_iff:
  assumes "log_ok (db_ops db) ops" and "\<forall>op\<in>set (own_ops (ss_device_id ses) ops). vault_id op = ve_vault_id env"
  shows "verify_local_chain H ed_verify vk_from_bytes env ses db = Inr () \<longleftrightarrow>
    (\<exists>key. vk_from_bytes (ss_ed25519_pub ses) = Inr key \<and>
       own_chain H ed_verify key (ve_vault_id env) (ss_device_id ses) ops)"
proof -
  have "verify_local_rows H ed_verify (ve_vault_id env) (ss_device_id ses) key 1
      (genesis_hash H (ve_vault_id env) (ss_device_id ses)) (- 1)
      (map row_of (own_ops (ss_device_id ses) ops)) = Inr () \<longleftrightarrow>
    own_chain H ed_verify key (ve_vault_id env) (ss_device_id ses) ops" for key
    using assms
    by (subst verify_local_rows_iff [where l' = 0]) (auto simp: own_chain_def log_ok_def intro: order_trans [of "-1" 0])
  then show ?thesis
    by (simp add: verify_local_chain_def own_rows_sorted [OF assms(1)] bind_ok_Inr_iff map_err_Inr_iff)
qed

section \<open>What authoring appends\<close>

lemma valid_chain_snoc_iff:
  "valid_chain H ed_verify key s p l (xs @ [x]) \<longleftrightarrow>
     valid_chain H ed_verify key s p l xs \<and> seq x = s + word_of_nat (length xs) \<and>
     signature_ok ed_verify key x \<and> prev_hash x = (if xs = [] then p else H (op_bytes (last xs))) \<and>
     (if xs = [] then l else lamport (last xs)) \<le> lamport x"
  by (induction xs arbitrary: s p l) (auto simp: add.assoc)

lemma valid_chain_last_seq:
  "valid_chain H ed_verify key s p l xs \<Longrightarrow> xs \<noteq> [] \<Longrightarrow> seq (last xs) + 1 = s + word_of_nat (length xs)"
  by (cases xs rule: rev_cases) (simp_all add: valid_chain_snoc_iff add.assoc)

lemma fold_max_in: "fold max xs (x :: int) \<in> insert x (set xs)"
proof (induction xs arbitrary: x)
  case (Cons y ys)
  show ?case using Cons [of "max y x"] by (cases "y \<le> x") (auto simp: max_def)
qed simp

lemma sql_max_ge: "x \<in> set xs \<Longrightarrow> x \<le> sql_max xs"
  using fold_max_ge fold_max_mem by (cases xs) (auto simp: sql_max_def)

lemma sql_max_mem: "xs \<noteq> [] \<Longrightarrow> sql_max xs \<in> set xs"
  using fold_max_in by (cases xs) (auto simp: sql_max_def)

lemma sql_max_sorted:
  assumes "xs \<noteq> []"
  shows "sql_max (map f xs) = f (last (sort_key f xs))"
proof (rule order.antisym)
  have "sql_max (map f xs) \<in> set (map f xs)" using assms by (intro sql_max_mem) simp
  then obtain x where "x \<in> set (sort_key f xs)" "sql_max (map f xs) = f x" by auto
  then show "sql_max (map f xs) \<le> f (last (sort_key f xs))"
    using sorted_last_greatest [of f "sort_key f xs" x] by simp
  have "last (sort_key f xs) \<in> set (sort_key f xs)"
    using assms by (intro last_in_set) (metis length_0_conv length_sort)
  then show "f (last (sort_key f xs)) \<le> sql_max (map f xs)"
    by (intro sql_max_ge) simp
qed

lemma i64_add_1:
  assumes "u64_try_from_i64 (i64_add m 1) = Some w" and "0 \<le> m" "m \<le> i64_max"
  shows "i64_add m 1 = m + 1" and "m < i64_max" and "uint w = m + 1"
proof -
  have "0 \<le> i64_add m 1" using assms(1) by (simp add: u64_try_from_i64_def split: if_splits)
  then have m: "m \<noteq> i64_max" by (auto simp: i64_add_def i64_max_def)
  with assms(3) show lt: "m < i64_max" by simp
  with assms(2) show eq: "i64_add m 1 = m + 1" by (simp add: i64_add_def i64_max_def)
  from assms(1) eq assms(2) have "w = word_of_int (m + 1)" by (simp add: u64_try_from_i64_def)
  then have "uint w = (m + 1) mod 2 ^ 64" by (simp only: uint_word_of_int) simp
  then show "uint w = m + 1" using assms(2) lt by (simp add: i64_max_def)
qed

text \<open>The observed heads of a log: the greatest seq held of every device in it.\<close>

definition log_heads :: "stored_op list \<Rightarrow> id \<Rightarrow> u64" where
  "log_heads ops d = (if own_ops d ops = [] then 0 else seq (last (own_ops d ops)))"

lemma observe_all:
  assumes "\<forall>e\<in>set es. length (fst e) = 16" and "oh_wf obs0"
  shows "\<exists>obs. fold_ok (\<lambda>(k, v) obs. bind_ok (id_from_slice k) (\<lambda>d. Inr (oh_observe d (g v) obs))) es obs0 = Inr obs \<and>
    oh_wf obs \<and> (\<forall>d. oh_get obs d = fold max (map (\<lambda>e. g (snd e)) (filter (\<lambda>e. fst e = as_bytes d) es)) (oh_get obs0 d))"
  using assms
proof (induction es arbitrary: obs0)
  case (Cons e es)
  obtain k v where e: "e = (k, v)" by (cases e)
  have k: "id_from_slice k = Inr (Id k)" using Cons.prems(1) by (simp add: id_from_slice_def e)
  have wf: "oh_wf (oh_observe (Id k) (g v) obs0)"
    using Cons.prems by (intro oh_wf_observe) (simp_all add: e)
  have "oh_get (oh_observe (Id k) (g v) obs0) d = (if k = as_bytes d then max (g v) (oh_get obs0 d) else oh_get obs0 d)" for d
    by (auto simp: oh_get_observe [OF Cons.prems(2)] id_eq_iff max.commute)
  then have get: "(if k = as_bytes d then fold max xs (max (g v) (oh_get obs0 d)) else fold max xs (oh_get obs0 d)) =
      fold max xs (oh_get (oh_observe (Id k) (g v) obs0) d)" for d and xs :: "u64 list"
    by simp
  obtain obs where obs: "fold_ok (\<lambda>(k, v) obs. bind_ok (id_from_slice k) (\<lambda>d. Inr (oh_observe d (g v) obs))) es
      (oh_observe (Id k) (g v) obs0) = Inr obs" "oh_wf obs"
    and heads: "\<And>d. oh_get obs d = fold max (map (\<lambda>e. g (snd e)) (filter (\<lambda>e. fst e = as_bytes d) es))
      (oh_get (oh_observe (Id k) (g v) obs0) d)"
    using Cons.IH [OF _ wf] Cons.prems(1) by auto
  have "oh_get obs d = fold max (map (\<lambda>e. g (snd e)) (filter (\<lambda>e. fst e = as_bytes d) ((k, v) # es))) (oh_get obs0 d)" for d
    unfolding heads get [symmetric] by simp
  with obs k show ?case unfolding e by (intro exI [of _ obs]) simp
qed simp

lemma own_rows_map: "log_ok rows ops \<Longrightarrow> own_rows d rows = map row_of (filter (\<lambda>op. device_id op = d) ops)"
  by (simp add: log_ok_def own_rows_def filter_map comp_def id_eq_iff)

lemma u64_of_row_seq: "u64_try_from_i64 (uint (w :: u64)) = Some w"
  by (simp add: u64_try_from_i64_def)

lemma max_seq_own:
  assumes "log_ok rows ops" and "own_ops d ops \<noteq> []"
  shows "sql_max (map r_seq (own_rows d rows)) = uint (seq (last (own_ops d ops)))"
proof -
  have "own_rows d rows \<noteq> []"
    using assms own_rows_sorted [OF assms(1), of d] by (metis list.map_disc_iff sort_key_simps(1))
  from sql_max_sorted [OF this, of r_seq] own_rows_sorted [OF assms(1), of d] assms(2)
  show ?thesis by (simp add: last_map)
qed

lemma read_observed_heads_log:
  assumes log: "log_ok rows ops"
  obtains obs where "read_observed_heads rows = Inr obs" and "oh_wf obs"
    and "\<And>d. oh_get obs d = log_heads ops d"
proof -
  define g where "g = (\<lambda>seqs. case u64_try_from_i64 (sql_max seqs) of None \<Rightarrow> (0 :: u64) | Some w \<Rightarrow> w)"
  define es where "es = bt_group_with r_device_id r_seq rows"
  have wfs: "\<forall>op\<in>set ops. id_wf (device_id op)"
    using log by (auto simp: log_ok_def row_fits_def op_wf_def)
  have keys: "set (bt_keys (bt_group r_device_id rows)) = r_device_id ` set rows"
    by (simp add: bt_keys_def bt_group_keys)
  have es: "es = map (\<lambda>k. (k, map r_seq (filter (\<lambda>r. r_device_id r = k) rows))) (bt_keys (bt_group r_device_id rows))"
    unfolding es_def by (rule bt_group_with_eq_map)
  have "\<forall>e\<in>set es. length (fst e) = 16"
    using wfs log keys by (auto simp: es log_ok_def id_wf_def)
  from observe_all [OF this oh_wf_new, of g] obtain obs where
    obs: "read_observed_heads rows = Inr obs" "oh_wf obs"
    and get: "\<And>d. oh_get obs d = fold max (map (\<lambda>e. g (snd e)) (filter (\<lambda>e. fst e = as_bytes d) es)) (oh_get oh_new d)"
    by (auto simp: read_observed_heads_def g_def es_def)
  have "oh_get obs d = log_heads ops d" for d
  proof (cases "own_ops d ops = []")
    case True
    then have "filter (\<lambda>op. device_id op = d) ops = []"
      by (metis own_ops_def set_empty set_sort)
    then have "as_bytes d \<notin> r_device_id ` set rows"
      using log by (auto simp: log_ok_def id_eq_iff filter_empty_conv)
    then have "filter (\<lambda>e. fst e = as_bytes d) es = []"
      by (force simp: es filter_empty_conv keys)
    then have "oh_get obs d = oh_get oh_new d" by (simp add: get)
    with True show ?thesis by (simp add: log_heads_def oh_get_def oh_new_def)
  next
    case False
    then have "last (own_ops d ops) \<in> set (own_ops d ops)" by (rule last_in_set)
    then obtain op where "op \<in> set ops" "device_id op = d" by auto
    then have "row_of op \<in> set rows" using log by (simp add: log_ok_def)
    then have "r_device_id (row_of op) \<in> set (bt_keys (bt_group r_device_id rows))"
      unfolding keys by (rule imageI)
    then have "as_bytes d \<in> set (bt_keys (bt_group r_device_id rows))"
      by (simp add: \<open>device_id op = d\<close>)
    moreover have "distinct (bt_keys (bt_group r_device_id rows))"
      unfolding bt_keys_def by (intro bt_wf_distinct bt_wf_group)
    moreover have "filter (\<lambda>k. k = x) ks = [x]" if "distinct ks" "x \<in> set ks" for x :: bytes and ks
      using that by (induction ks) (auto simp: filter_empty_conv)
    ultimately have "filter (\<lambda>e. fst e = as_bytes d) es =
        [(as_bytes d, map r_seq (own_rows d rows))]"
      by (simp add: es filter_map comp_def own_rows_def)
    moreover have "g (map r_seq (own_rows d rows)) = seq (last (own_ops d ops))"
      by (simp add: g_def max_seq_own [OF log False] u64_of_row_seq)
    moreover have "oh_get oh_new d = 0" by (simp add: oh_get_def oh_new_def)
    ultimately show ?thesis unfolding get log_heads_def using False by simp
  qed
  with obs show thesis by (rule that)
qed

lemma tail_full_bytes_log:
  assumes log: "log_ok rows ops" and chain: "own_chain H ed_verify key vid d ops"
  shows "tail_full_bytes vid d rows =
    Inr (if own_ops d ops = [] then None else Some (op_bytes (last (own_ops d ops))))"
proof (cases "own_ops d ops" rule: rev_cases)
  case Nil
  then show ?thesis by (simp add: tail_full_bytes_def own_rows_sorted [OF log])
next
  case (snoc xs op)
  then have "op \<in> set (own_ops d ops)" by simp
  then have op: "row_fits op" "vault_id op = vid" "device_id op = d"
    using log chain by (auto simp: log_ok_def own_chain_def)
  have "op_fits op"
    using chain snoc by (simp add: own_chain_def valid_chain_snoc_iff signature_ok_def)
  then show ?thesis
    using op row_op_fields_row_of [OF op(1)]
    by (auto simp: tail_full_bytes_def own_rows_sorted [OF log] snoc full_bytes_to_op_fields panic_or_def
        row_fits_def op_wf_def) (simp_all add: row_of_def full_bytes_to_op_fields)
qed

text \<open>
  What the signer, the hash and the id types guarantee: signatures verify under the device's public
  key and have 64 bytes, hashes have 32, ids 16.
\<close>

definition authoring_ok ::
  "(bytes \<Rightarrow> bytes) \<Rightarrow> ('k \<Rightarrow> bytes \<Rightarrow> bytes) \<Rightarrow> (bytes \<Rightarrow> bytes \<Rightarrow> bytes \<Rightarrow> bool) \<Rightarrow> bytes \<Rightarrow> 'x vault_env \<Rightarrow>
     'k session \<Rightarrow> bool" where
  "authoring_ok H ed_sign ed_verify key env ses \<longleftrightarrow>
     (\<forall>m. ed_verify key m (ed_sign (ss_signing ses) m) \<and> length (ed_sign (ss_signing ses) m) = 64) \<and>
     (\<forall>bs. length (H bs) = 32) \<and> id_wf (ve_vault_id env) \<and> id_wf (ss_device_id ses)"

text \<open>An op that extends a log: the next of its device, later than every op, and aware of them all.\<close>

definition extends_log ::
  "(bytes \<Rightarrow> bytes) \<Rightarrow> (bytes \<Rightarrow> bytes \<Rightarrow> bytes \<Rightarrow> bool) \<Rightarrow> bytes \<Rightarrow> id \<Rightarrow> id \<Rightarrow> stored_op list \<Rightarrow> stored_op \<Rightarrow> bool" where
  "extends_log H ed_verify key vid d ops op \<longleftrightarrow>
     device_id op = d \<and> vault_id op = vid \<and> row_fits op \<and> op_id op \<notin> op_id ` set ops \<and>
     signature_ok ed_verify key op \<and>
     seq op = log_heads ops d + 1 \<and> log_heads ops d < seq op \<and>
     prev_hash op = (if own_ops d ops = [] then genesis_hash H vid d else H (op_bytes (last (own_ops d ops)))) \<and>
     (\<forall>o'\<in>set ops. lamport o' < lamport op) \<and>
     (\<forall>d'. oh_get (observed op) d' = log_heads ops d')"

lemma own_ops_le_head:
  assumes "o' \<in> set ops" and "device_id o' = d"
  shows "seq o' \<le> log_heads ops d"
proof -
  have o': "o' \<in> set (own_ops d ops)" using assms by simp
  then have ne: "own_ops d ops \<noteq> []" by force
  have "sorted (map (\<lambda>op. uint (seq op)) (own_ops d ops))" by (simp add: own_ops_def)
  from sorted_last_greatest [OF this o'] ne show ?thesis by (simp add: log_heads_def word_le_def)
qed

lemma own_ops_extend:
  assumes "log_heads ops d < seq op" and "device_id op = d"
  shows "own_ops d (ops @ [op]) = own_ops d ops @ [op]"
proof -
  have "uint (seq o') \<le> uint (seq op)" if "o' \<in> set ops" "device_id o' = d" for o'
    using own_ops_le_head [OF that] assms(1) by (simp add: word_le_def [symmetric])
  then have "sort_key (\<lambda>op. uint (seq op)) (filter (\<lambda>op. device_id op = d) ops @ [op]) =
      sort_key (\<lambda>op. uint (seq op)) (filter (\<lambda>op. device_id op = d) ops) @ [op]"
    by (intro sort_key_snoc) auto
  then show ?thesis using assms(2) by (simp add: own_ops_def)
qed

lemma extends_log_chain:
  assumes "extends_log H ed_verify key vid d ops op" and "own_chain H ed_verify key vid d ops"
  shows "own_chain H ed_verify key vid d (ops @ [op])"
proof -
  have e: "device_id op = d" "log_heads ops d < seq op" "seq op = log_heads ops d + 1"
    and op: "signature_ok ed_verify key op" "vault_id op = vid"
      "prev_hash op = (if own_ops d ops = [] then genesis_hash H vid d else H (op_bytes (last (own_ops d ops))))"
    and lam: "\<forall>o'\<in>set ops. lamport o' < lamport op"
    using assms(1) unfolding extends_log_def by blast+
  note own = own_ops_extend [OF e(2,1)]
  have vc: "valid_chain H ed_verify key 1 (genesis_hash H vid d) 0 (own_ops d ops)"
    using assms(2) by (simp add: own_chain_def)
  have "seq op = 1 + word_of_nat (length (own_ops d ops))"
    using valid_chain_last_seq [OF vc] e(3) by (cases "own_ops d ops = []") (auto simp: log_heads_def)
  moreover have "lamport (last (own_ops d ops)) \<le> lamport op" if "own_ops d ops \<noteq> []"
    using last_in_set [OF that] lam by (auto intro: less_imp_le)
  ultimately show ?thesis
    using assms(2) op by (auto simp: own_chain_def own valid_chain_snoc_iff)
qed

lemma log_bounds:
  "log_ok rows ops \<Longrightarrow> 0 \<le> sql_max (map r_lamport rows) \<and> sql_max (map r_lamport rows) \<le> i64_max"
  "log_ok rows ops \<Longrightarrow> 0 \<le> sql_max (map r_seq (own_rows d rows)) \<and> sql_max (map r_seq (own_rows d rows)) \<le> i64_max"
proof -
  have *: "0 \<le> sql_max xs \<and> sql_max xs \<le> i64_max" if "set xs \<subseteq> {0..i64_max}" for xs
    using that sql_max_mem [of xs] by (cases "xs = []") (auto simp: sql_max_def i64_max_def)
  show "0 \<le> sql_max (map r_lamport rows) \<and> sql_max (map r_lamport rows) \<le> i64_max" if "log_ok rows ops"
    using that by (intro *) (auto simp: log_ok_def row_fits_def)
  show "0 \<le> sql_max (map r_seq (own_rows d rows)) \<and> sql_max (map r_seq (own_rows d rows)) \<le> i64_max"
    if "log_ok rows ops"
    using that by (intro *) (auto simp: log_ok_def row_fits_def own_rows_def)
qed

lemma max_seq_head:
  "log_ok rows ops \<Longrightarrow> sql_max (map r_seq (own_rows d rows)) = uint (log_heads ops d)"
proof (cases "own_ops d ops = []")
  case True
  assume log: "log_ok rows ops"
  have "own_rows d rows = []"
    using own_rows_sorted [OF log, of d] True by (metis list.map_disc_iff set_empty set_sort)
  with True show ?thesis by (simp add: log_heads_def sql_max_def)
qed (simp add: log_heads_def max_seq_own)

lemma author_op_log:
  assumes author: "author_op H ed_sign env ses oid now kind target tv pt db = Inr db'"
    and ok: "authoring_ok H ed_sign ed_verify key env ses" "id_wf oid" "\<forall>i. target = Some i \<longrightarrow> id_wf i"
    and log: "log_ok (db_ops db) ops"
    and chain: "own_chain H ed_verify key (ve_vault_id env) (ss_device_id ses) ops"
  obtains op where "db' = db\<lparr>db_ops := db_ops db @ [row_of op]\<rparr>"
    and "log_ok (db_ops db') (ops @ [op])"
    and "extends_log H ed_verify key (ve_vault_id env) (ss_device_id ses) ops op"
    and "op_id op = oid" "op_kind op = kind" "target_item op = target" "target_version op = tv" "created_at op = now"
    and "vk_seal env pt (aad_op_payload (ve_vault_id env) oid) = Inr (payload_env op)"
    and "uint (lamport op) = sql_max (map r_lamport (db_ops db)) + 1"
proof -
  let ?d = "ss_device_id ses" and ?v = "ve_vault_id env"
  obtain obs where obs: "read_observed_heads (db_ops db) = Inr obs" "oh_wf obs"
    and heads: "\<And>d. oh_get obs d = log_heads ops d"
    by (rule read_observed_heads_log [OF log]) blast
  define prev where "prev = (if own_ops ?d ops = [] then genesis_hash H ?v ?d else H (op_bytes (last (own_ops ?d ops))))"
  from author obtain sq lam fields signed sig bs where
    fields: "author_fields H env ses oid kind target tv pt (db_ops db) = Inr (sq, lam, fields)"
    and signed: "op_sign ed_sign fields (ss_signing ses) = Some signed" "signed = Inr sig"
    and bs: "f_observed_bytes fields = Some bs"
    and fresh: "\<not> (\<exists>r\<in>set (db_ops db). r_op_id r = as_bytes oid)"
    and db': "db' = db\<lparr>db_ops := db_ops db @
       [\<lparr>r_op_id = as_bytes oid, r_vault_id = as_bytes ?v, r_device_id = as_bytes ?d, r_seq = sq,
         r_prev_hash = f_prev_hash fields, r_lamport = lam, r_op_kind = uint (op_kind_code kind),
         r_target_item_id = map_option as_bytes target, r_target_version = uint tv,
         r_payload_env = f_payload_env fields, r_signature = sig, r_observed = bs, r_created_at = now\<rparr>]\<rparr>"
    by (auto simp: author_op_def bind_ok_Inr_iff panic_or_def ok_or_Inr_iff split: if_splits)
  from fields obtain sealed s l where
    sealed: "vk_seal env pt (aad_op_payload ?v oid) = Inr sealed"
    and s: "u64_try_from_i64 sq = Some s" "sq = i64_add (uint (log_heads ops ?d)) 1"
    and l: "u64_try_from_i64 lam = Some l" "lam = i64_add (sql_max (map r_lamport (db_ops db))) 1"
    and f: "fields = \<lparr>f_op_id = oid, f_vault_id = ?v, f_device_id = ?d, f_seq = s, f_prev_hash = prev,
            f_lamport = l, f_op_kind = kind,
            f_target_item = (case target of None \<Rightarrow> target_none | Some i \<Rightarrow> target_of_item i),
            f_target_version = tv, f_payload_env = sealed, f_observed = obs\<rparr>"
    by (auto simp: author_fields_def Let_def bind_ok_Inr_iff ok_or_Inr_iff obs(1) prev_def chain_hash_def
        tail_full_bytes_log [OF log chain] max_seq_head [OF log] split: if_splits)
  have "uint (log_heads ops ?d) \<le> i64_max" using log_bounds(2) [OF log, of ?d] by (simp add: max_seq_head [OF log])
  note S = i64_add_1 [OF s(1) [unfolded s(2)] _ this, simplified]
  note L = i64_add_1 [OF l(1) [unfolded l(2)] conjunct1 [OF log_bounds(1) [OF log]] conjunct2 [OF log_bounds(1) [OF log]]]
  define op where "op = \<lparr>op_id = oid, vault_id = ?v, device_id = ?d, seq = s, prev_hash = prev, lamport = l,
    op_kind = kind, target_item = target, target_version = tv, payload_env = sealed, observed = obs,
    signature = sig, created_at = now\<rparr>"
  have to: "to_op_fields op = fields" by (simp add: op_def to_op_fields_def f)
  have fit: "op_fits op" and sig: "sig = ed_sign (ss_signing ses) (op_payload fields)"
    using signed by (simp_all add: op_sign_fits split: if_splits) (simp_all add: to [symmetric])
  have "bs = oh_bytes obs" using bs by (simp add: f_observed_bytes_def f oh_to_bytes_fits split: if_splits)
  then have row: "row_of op = \<lparr>r_op_id = as_bytes oid, r_vault_id = as_bytes ?v, r_device_id = as_bytes ?d, r_seq = sq,
         r_prev_hash = f_prev_hash fields, r_lamport = lam, r_op_kind = uint (op_kind_code kind),
         r_target_item_id = map_option as_bytes target, r_target_version = uint tv,
         r_payload_env = f_payload_env fields, r_signature = sig, r_observed = bs, r_created_at = now\<rparr>"
    using S L by (simp add: row_of_def op_def f s(2) l(2))
  have lens: "length prev = 32" "length sig = 64"
    using ok(1) by (auto simp: authoring_ok_def prev_def genesis_hash_def sig)
  have rf: "row_fits op"
    using ok lens obs(2) fit S L by (simp add: row_fits_def op_wf_def op_def authoring_ok_def op_fits_def i64_max_def)
  have new: "oid \<notin> op_id ` set ops"
    using fresh log by (auto simp: log_ok_def image_iff id_eq_iff)
  have later: "log_heads ops ?d < s" "s = log_heads ops ?d + 1"
  proof -
    show "log_heads ops ?d < s" using S(3) by (simp add: word_less_def)
    have "word_of_int (uint s) = (word_of_int (uint (log_heads ops ?d) + 1) :: u64)" by (simp only: S(3))
    then show "s = log_heads ops ?d + 1" by simp
  qed
  have lam: "\<forall>o'\<in>set ops. lamport o' < l"
  proof
    fix o'
    assume "o' \<in> set ops"
    then have "uint (lamport o') \<in> set (map r_lamport (db_ops db))" using log by (force simp: log_ok_def)
    from sql_max_ge [OF this] show "lamport o' < l" using L(3) by (simp add: word_less_def)
  qed
  have sel: "device_id op = ?d" "vault_id op = ?v" "op_id op = oid" "seq op = s" "prev_hash op = prev"
    "lamport op = l" "observed op = obs" "signature op = sig"
    by (simp_all add: op_def)
  have "signature_ok ed_verify key op"
    using fit ok(1) by (simp add: signature_ok_def to sel sig authoring_ok_def)
  then have ext: "extends_log H ed_verify key ?v ?d ops op"
    using rf new later lam heads unfolding extends_log_def sel by (simp add: prev_def)
  have "(?d, s) \<notin> (\<lambda>op. (device_id op, seq op)) ` set ops"
    using own_ops_le_head [of _ ops ?d] later(1) by fastforce
  then have "log_ok (db_ops db') (ops @ [op])"
    using log rf new by (simp add: log_ok_def db' row sel)
  then show thesis
    using ext sealed L(3) by (intro that [of op]) (simp_all add: db' row, simp_all add: op_def)
qed

lemma valid_chain_append:
  "valid_chain H ed_verify key s p l (xs @ ys) \<longleftrightarrow>
     valid_chain H ed_verify key s p l xs \<and>
     valid_chain H ed_verify key (s + word_of_nat (length xs)) (if xs = [] then p else H (op_bytes (last xs)))
       (if xs = [] then l else lamport (last xs)) ys"
  by (induction xs arbitrary: s p l) (auto simp: add.assoc)

section \<open>When authoring succeeds\<close>

text \<open>
  A log that leaves room: its ops and the new one have different ids, clocks can be advanced, and the
  observed heads can be counted in a \<open>u32\<close>.
\<close>

definition log_room :: "id \<Rightarrow> stored_op list \<Rightarrow> bool" where
  "log_room oid ops \<longleftrightarrow> oid \<notin> op_id ` set ops \<and> length ops < 2 ^ 32 \<and>
     (\<forall>op\<in>set ops. uint (lamport op) < i64_max \<and> uint (seq op) < i64_max)"

lemma length_bt_insert: "length (bt_insert k v m) \<le> Suc (length m)"
  by (induction m) auto

lemma observe_all_length:
  "fold_ok (\<lambda>(k, v) obs. bind_ok (id_from_slice k) (\<lambda>d. Inr (oh_observe d (g v) obs))) es obs0 = Inr obs \<Longrightarrow>
     length (heads obs) \<le> length (heads obs0) + length es"
proof (induction es arbitrary: obs0)
  case (Cons e es)
  obtain k v where e: "e = (k, v)" by (cases e)
  obtain d where "fold_ok (\<lambda>(k, v) obs. bind_ok (id_from_slice k) (\<lambda>d. Inr (oh_observe d (g v) obs))) es
      (oh_observe d (g v) obs0) = Inr obs"
    using Cons.prems by (auto simp: e bind_ok_Inr_iff)
  from Cons.IH [OF this] show ?case
    using length_bt_insert [of "as_bytes d" "max (case bt_get (heads obs0) (as_bytes d) of None \<Rightarrow> 0 | Some e \<Rightarrow> e) (g v)" "heads obs0"]
    by (simp add: oh_observe_def bt_raise_def bt_entry_def del: bt_insert.simps)
qed simp

lemma observed_heads_count:
  assumes "read_observed_heads rows = Inr obs"
  shows "length (heads obs) \<le> length rows"
proof -
  let ?ks = "bt_keys (bt_group r_device_id rows)"
  have "length (heads obs) \<le> length (bt_group_with r_device_id r_seq rows)"
    using observe_all_length [OF assms [unfolded read_observed_heads_def]] by (simp add: oh_new_def)
  also have "\<dots> = length ?ks" by (simp add: bt_group_with_eq_map)
  also have "\<dots> = card (r_device_id ` set rows)"
  proof -
    have "distinct ?ks" and "set ?ks = r_device_id ` set rows"
      unfolding bt_keys_def by (simp_all add: bt_group_keys bt_wf_distinct)
    then show ?thesis using distinct_card by metis
  qed
  also have "\<dots> \<le> length rows" by (metis card_image_le card_length finite_set order_trans)
  finally show ?thesis .
qed

lemma author_op_total:
  assumes log: "log_ok (db_ops db) ops" and room: "log_room oid ops"
    and chain: "own_chain H ed_verify key (ve_vault_id env) (ss_device_id ses) ops"
    and seal: "vk_seal env pt (aad_op_payload (ve_vault_id env) oid) = Inr sealed" "length sealed < 2 ^ 32"
    and ok: "authoring_ok H ed_sign ed_verify key env ses"
  shows "\<exists>db'. author_op H ed_sign env ses oid now kind target tv pt db = Inr db'"
proof -
  let ?d = "ss_device_id ses" and ?rows = "db_ops db"
  obtain obs where obs: "read_observed_heads ?rows = Inr obs"
    by (rule read_observed_heads_log [OF log])
  have "length ?rows < 2 ^ 32" using log room by (simp add: log_ok_def log_room_def)
  with observed_heads_count [OF obs] have fits: "oh_fits obs" by (simp add: oh_fits_def)
  have bump: "i64_add m 1 = m + 1 \<and> u64_try_from_i64 (m + 1) = Some (word_of_int (m + 1))" if "0 \<le> m" "m < i64_max" for m
    using that by (simp add: i64_add_def u64_try_from_i64_def i64_max_def)
  have max: "0 \<le> sql_max xs \<and> sql_max xs < i64_max" if "\<forall>x\<in>set xs. 0 \<le> x \<and> x < i64_max" for xs
    using that sql_max_mem [of xs] by (cases "xs = []") (auto simp: sql_max_def i64_max_def)
  have "\<forall>x\<in>set (map r_lamport ?rows). 0 \<le> x \<and> x < i64_max" "\<forall>x\<in>set (map r_seq (own_rows ?d ?rows)). 0 \<le> x \<and> x < i64_max"
    using log room by (auto simp: log_ok_def log_room_def own_rows_def)
  note L = bump [OF conjunct1 [OF max [OF this(1)]] conjunct2 [OF max [OF this(1)]]]
    and S = bump [OF conjunct1 [OF max [OF this(2)]] conjunct2 [OF max [OF this(2)]]]
  have fresh: "\<not> (\<exists>r\<in>set ?rows. r_op_id r = as_bytes oid)"
    using log room by (auto simp: log_ok_def log_room_def image_iff id_eq_iff)
  have "\<not> (\<exists>r\<in>set ?rows. r_device_id r = as_bytes ?d \<and> r_seq r = sql_max (map r_seq (own_rows ?d ?rows)) + 1)"
  proof
    assume "\<exists>r\<in>set ?rows. r_device_id r = as_bytes ?d \<and> r_seq r = sql_max (map r_seq (own_rows ?d ?rows)) + 1"
    then have "sql_max (map r_seq (own_rows ?d ?rows)) + 1 \<in> set (map r_seq (own_rows ?d ?rows))"
      by (force simp: own_rows_def)
    from sql_max_ge [OF this] show False by simp
  qed
  with fresh seal fits show ?thesis
    by (simp add: author_op_def author_fields_def Let_def obs tail_full_bytes_log [OF log chain] L S
        panic_or_def op_sign_fits fields_fit_def f_observed_bytes_def oh_to_bytes_fits)
qed

section \<open>A first op\<close>

definition ex_hash :: "bytes \<Rightarrow> bytes" where
  "ex_hash bs = take 32 (bs @ replicate 32 0)"

definition ex_sign :: "bytes \<Rightarrow> bytes \<Rightarrow> bytes" where
  "ex_sign k m = replicate 64 5"

definition ex_verify :: "bytes \<Rightarrow> bytes \<Rightarrow> bytes \<Rightarrow> bool" where
  "ex_verify k m s \<longleftrightarrow> s = replicate 64 5"

definition ex_session :: "bytes session" where
  "ex_session = \<lparr>ss_device_id = ex_id 2, ss_signing = [], ss_ed25519_pub = [4]\<rparr>"

definition ex_vault :: "unit vault_env" where
  "ex_vault = \<lparr>ve_vault_id = ex_id 1, ve_vault_key = replicate 32 1, ve_aead = ex_aead,
     ve_fresh_item_key = (\<lambda>i n. replicate 32 2), index_delete = (\<lambda>rd i x. Inr x),
     index_upsert = (\<lambda>rd i p x. Inr x)\<rparr>"

definition ex_empty :: "unit vault_db" where
  "ex_empty = \<lparr>db_ops = [], db_items = [], db_versions = [], db_wrapped_keys = [], db_tombstones = [],
     db_attachments = [], db_folders = [], db_index = ()\<rparr>"

lemma ex_id_wf [simp]: "id_wf (ex_id b)"
  by (simp add: ex_id_def)

lemma ex_vault_ok [simp]: "vault_env_ok ex_vault"
  by (simp add: vault_env_ok_def ex_vault_def SYMMETRIC_KEY_LEN_def)

lemma ex_authoring_ok [simp]: "authoring_ok ex_hash ex_sign ex_verify [4] ex_vault ex_session"
  by (auto simp: authoring_ok_def ex_hash_def ex_sign_def ex_verify_def ex_vault_def ex_session_def)

lemma ex_vk_seal:
  obtains sealed where "vk_seal ex_vault pt aad = Inr sealed" and "length sealed = length pt + 41"
  by (simp add: vk_seal_def sym_seal_def ex_vault_def ex_aead_def envelope_to_bytes_def NONCE_LEN_def TAG_LEN_def Let_def)

lemma ex_author_ok:
  assumes "length pt < 2 ^ 20"
  shows "\<exists>db'. author_op ex_hash ex_sign ex_vault ex_session (ex_id 7) now kind target tv pt ex_empty = Inr db'"
proof -
  obtain sealed where "vk_seal ex_vault pt (aad_op_payload (ve_vault_id ex_vault) (ex_id 7)) = Inr sealed"
    and "length sealed = length pt + 41"
    by (rule ex_vk_seal)
  moreover have "read_observed_heads [] = Inr oh_new"
    by (simp add: read_observed_heads_def bt_group_with_def bt_group_def)
  ultimately show ?thesis
    using assms
    by (simp add: author_op_def author_fields_def Let_def ex_empty_def own_rows_def tail_full_bytes_def
        sql_max_def i64_add_def u64_try_from_i64_def op_sign_fits fields_fit_def oh_fits_def oh_new_def
        panic_or_def f_observed_bytes_def oh_to_bytes_fits)
qed

text \<open>A vault of few ops, all authored here: more can be authored.\<close>

definition ex_log :: "nat \<Rightarrow> 'x vault_db \<Rightarrow> stored_op list \<Rightarrow> bool" where
  "ex_log n db ops \<longleftrightarrow> log_ok (db_ops db) ops \<and> length ops \<le> n \<and>
     own_chain ex_hash ex_verify [4] (ve_vault_id ex_vault) (ss_device_id ex_session) ops \<and>
     (\<forall>op\<in>set ops. uint (lamport op) \<le> int n \<and> uint (seq op) \<le> int n)"

lemma ex_log_empty: "ex_log 0 ex_empty []"
  by (simp add: ex_log_def log_ok_def ex_empty_def own_chain_def own_ops_def)

lemma ex_log_author:
  assumes "ex_log n db ops" and "n < 2 ^ 20" and "length pt < 2 ^ 20" and "oid \<notin> op_id ` set ops"
    and "id_wf oid" and "\<forall>i. target = Some i \<longrightarrow> id_wf i"
  obtains db' op where "author_op ex_hash ex_sign ex_vault ex_session oid now kind target tv pt db = Inr db'"
    and "ex_log (Suc n) db' (ops @ [op])" and "op_id op = oid"
    and "db' = db\<lparr>db_ops := db_ops db @ [row_of op]\<rparr>"
proof -
  have log: "log_ok (db_ops db) ops"
    and chain: "own_chain ex_hash ex_verify [4] (ve_vault_id ex_vault) (ss_device_id ex_session) ops"
    and small: "length ops \<le> n" "\<forall>op\<in>set ops. uint (lamport op) \<le> int n \<and> uint (seq op) \<le> int n"
    using assms(1) by (auto simp: ex_log_def)
  obtain sealed where sealed: "vk_seal ex_vault pt (aad_op_payload (ve_vault_id ex_vault) oid) = Inr sealed"
    "length sealed = length pt + 41"
    by (rule ex_vk_seal)
  have "log_room oid ops"
    using small assms(2,4) by (force simp: log_room_def i64_max_def)
  moreover have "length sealed < 2 ^ 32" using sealed(2) assms(3) by simp
  ultimately obtain db' where
    db': "author_op ex_hash ex_sign ex_vault ex_session oid now kind target tv pt db = Inr db'"
    using author_op_total [OF log _ chain sealed(1) _ ex_authoring_ok] by blast
  from author_op_log [OF db' ex_authoring_ok assms(5,6) log chain] obtain op where
    op: "db' = db\<lparr>db_ops := db_ops db @ [row_of op]\<rparr>" "log_ok (db_ops db') (ops @ [op])"
      "extends_log ex_hash ex_verify [4] (ve_vault_id ex_vault) (ss_device_id ex_session) ops op" "op_id op = oid"
      "uint (lamport op) = sql_max (map r_lamport (db_ops db)) + 1" .
  have "sql_max (map r_lamport (db_ops db)) \<le> int n"
    using sql_max_mem [of "map r_lamport (db_ops db)"] small(2) log
    by (cases "db_ops db = []") (auto simp: sql_max_def log_ok_def)
  moreover have "uint (seq op) \<le> int n + 1"
  proof -
    let ?h = "log_heads ops (ss_device_id ex_session)"
    have "uint ?h \<le> int n"
    proof (cases "own_ops (ss_device_id ex_session) ops = []")
      case False
      then have "last (own_ops (ss_device_id ex_session) ops) \<in> set ops" using last_in_set by fastforce
      with False small(2) show ?thesis by (simp add: log_heads_def)
    qed (simp add: log_heads_def)
    moreover have "seq op = ?h + 1" using op(3) by (simp add: extends_log_def)
    moreover have "uint (?h + 1) \<le> uint ?h + 1"
      by (simp only: uint_word_ariths(1)) (simp add: zmod_le_nonneg_dividend)
    ultimately show ?thesis by simp
  qed
  ultimately have "ex_log (Suc n) db' (ops @ [op])"
    using op(2,5) small extends_log_chain [OF op(3) chain] by (auto simp: ex_log_def)
  with db' op show thesis by (intro that)
qed

section \<open>Properties\<close>

text \<open>
  Claim C20. Authoring keeps the device's chain: from a log whose own chain
  \<open>verify_local_chain\<close> accepts, a successful \<open>author_op\<close> appends exactly one row, the next op of this
  device, signed, linked to the one before it, later in Lamport time than every op of the log and
  observing every device's head; and \<open>verify_local_chain\<close> accepts the result.
\<close>

theorem author_keeps_chain:
  assumes "author_op H ed_sign env ses oid now kind target tv pt db = Inr db'"
    and "authoring_ok H ed_sign ed_verify key env ses" and "id_wf oid" and "\<forall>i. target = Some i \<longrightarrow> id_wf i"
    and "log_ok (db_ops db) ops"
    and "\<forall>op\<in>set ops. device_id op = ss_device_id ses \<longrightarrow> vault_id op = ve_vault_id env"
    and "vk_from_bytes (ss_ed25519_pub ses) = Inr key"
    and "verify_local_chain H ed_verify vk_from_bytes env ses db = Inr ()"
  shows "verify_local_chain H ed_verify vk_from_bytes env ses db' = Inr () \<and>
    (\<exists>op. db' = db\<lparr>db_ops := db_ops db @ [row_of op]\<rparr> \<and> log_ok (db_ops db') (ops @ [op]) \<and>
       extends_log H ed_verify key (ve_vault_id env) (ss_device_id ses) ops op \<and>
       op_id op = oid \<and> op_kind op = kind \<and> target_item op = target)"
proof -
  let ?v = "ve_vault_id env" and ?d = "ss_device_id ses"
  have own: "own_chain H ed_verify key ?v ?d ops"
    using verify_local_chain_iff [OF assms(5), of ses env] assms(6,7,8) by simp
  from author_op_log [OF assms(1-5) own] obtain op where
    op: "db' = db\<lparr>db_ops := db_ops db @ [row_of op]\<rparr>" "log_ok (db_ops db') (ops @ [op])"
    "extends_log H ed_verify key ?v ?d ops op" "op_id op = oid" "op_kind op = kind" "target_item op = target" .
  have chain: "own_chain H ed_verify key ?v ?d (ops @ [op])" by (rule extends_log_chain [OF op(3) own])
  have "verify_local_chain H ed_verify vk_from_bytes env ses db' = Inr ()"
    using verify_local_chain_iff [OF op(2), of ses env] chain assms(7) by (auto simp: own_chain_def)
  with op show ?thesis by blast
qed

lemma author_keeps_chain_witness:
  "\<exists>db'. author_op ex_hash ex_sign ex_vault ex_session (ex_id 7) 100 Create (Some (ex_id 9)) 1 [8] ex_empty = Inr db' \<and>
     verify_local_chain ex_hash ex_verify Inr ex_vault ex_session db' = Inr ()"
proof -
  obtain db' where db': "author_op ex_hash ex_sign ex_vault ex_session (ex_id 7) 100 Create (Some (ex_id 9)) 1 [8] ex_empty = Inr db'"
    using ex_author_ok [of "[8]" 100 Create "Some (ex_id 9)" 1] by auto
  have "log_ok (db_ops ex_empty) []" by (simp add: log_ok_def ex_empty_def)
  moreover have "verify_local_chain ex_hash ex_verify Inr ex_vault ex_session ex_empty = Inr ()"
    by (simp add: verify_local_chain_def ex_empty_def own_rows_def)
  moreover have "\<forall>i. Some (ex_id 9) = Some i \<longrightarrow> id_wf i"
    and "(Inr :: bytes \<Rightarrow> crypto_error + bytes) (ss_ed25519_pub ex_session) = Inr [4]"
    by (simp_all add: ex_session_def)
  ultimately show ?thesis
    using author_keeps_chain [OF db' ex_authoring_ok ex_id_wf, of "[]" Inr] db' by auto
qed

text \<open>
  The device's own check and a peer's check agree:
  \<open>verify_local_chain\<close> returns without an error exactly when the ops of this device, in seq order,
  are a chain the ingest verifier accepts from the first seq and the genesis hash under this
  device's public key.
\<close>

theorem local_chain_is_peer_chain:
  assumes "log_ok (db_ops db) ops"
    and "\<forall>op\<in>set ops. device_id op = ss_device_id ses \<longrightarrow> vault_id op = ve_vault_id env"
    and "vk_from_bytes (ss_ed25519_pub ses) = Inr key"
  shows "verify_local_chain H ed_verify vk_from_bytes env ses db = Inr () \<longleftrightarrow>
    chain_from_tail H ed_verify (ve_vault_id env) (ss_device_id ses)
      \<lparr>verifying_key = key, last_seq = 0, last_op_full_bytes = None, last_lamport = 0, known_op_ids = []\<rparr>
      (own_ops (ss_device_id ses) ops)"
  using assms(2,3)
  by (subst verify_local_chain_iff [OF assms(1)])
    (auto simp: own_chain_def chain_from_tail_def initial_roll_def)

lemma local_chain_is_peer_chain_witness:
  "chain_from_tail ex_hash ex_verify (ve_vault_id ex_vault) (ss_device_id ex_session)
      \<lparr>verifying_key = [4], last_seq = 0, last_op_full_bytes = None, last_lamport = 0, known_op_ids = []\<rparr>
      (own_ops (ss_device_id ex_session) [])"
proof -
  have "log_ok (db_ops ex_empty) []" by (simp add: log_ok_def ex_empty_def)
  moreover have "verify_local_chain ex_hash ex_verify Inr ex_vault ex_session ex_empty = Inr ()"
    by (simp add: verify_local_chain_def ex_empty_def own_rows_def)
  moreover have "(Inr :: bytes \<Rightarrow> crypto_error + bytes) (ss_ed25519_pub ex_session) = Inr [4]"
    by (simp add: ex_session_def)
  ultimately show ?thesis
    using local_chain_is_peer_chain [of ex_empty "[]" ex_session ex_vault Inr "[4]" ex_hash ex_verify] by simp
qed

text \<open>
  Authoring does not get stuck: with a log whose own chain checks, ids
  and clocks not used up, and a cipher that returns an envelope below 4 GiB, \<open>author_op\<close> commits
  an op of any kind.
\<close>

theorem authoring_succeeds:
  assumes "log_ok (db_ops db) ops" and "log_room oid ops"
    and "\<forall>op\<in>set ops. device_id op = ss_device_id ses \<longrightarrow> vault_id op = ve_vault_id env"
    and "vk_from_bytes (ss_ed25519_pub ses) = Inr key"
    and "verify_local_chain H ed_verify vk_from_bytes env ses db = Inr ()"
    and "vk_seal env pt (aad_op_payload (ve_vault_id env) oid) = Inr sealed" and "length sealed < 2 ^ 32"
    and "authoring_ok H ed_sign ed_verify key env ses"
  shows "\<exists>db'. author_op H ed_sign env ses oid now kind target tv pt db = Inr db'"
proof -
  have "own_chain H ed_verify key (ve_vault_id env) (ss_device_id ses) ops"
    using verify_local_chain_iff [OF assms(1), of ses env] assms(3-5) by simp
  from author_op_total [OF assms(1,2) this assms(6-8)] show ?thesis .
qed

lemma authoring_succeeds_witness:
  "\<exists>db'. author_op ex_hash ex_sign ex_vault ex_session (ex_id 7) 5 Delete None 0 [1] ex_empty = Inr db'"
proof -
  obtain sealed where "vk_seal ex_vault [1] (aad_op_payload (ve_vault_id ex_vault) (ex_id 7)) = Inr sealed"
    "length sealed = length [1 :: byte] + 41"
    by (rule ex_vk_seal)
  moreover have "log_ok (db_ops ex_empty) []" by (simp add: log_ok_def ex_empty_def)
  moreover have "verify_local_chain ex_hash ex_verify Inr ex_vault ex_session ex_empty = Inr ()"
    by (simp add: verify_local_chain_def ex_empty_def own_rows_def)
  moreover have "(Inr :: bytes \<Rightarrow> crypto_error + bytes) (ss_ed25519_pub ex_session) = Inr [4]"
    by (simp add: ex_session_def)
  ultimately show ?thesis
    using authoring_succeeds [of ex_empty "[]" "ex_id 7" ex_session ex_vault Inr "[4]" ex_hash ex_verify "[1]" sealed ex_sign]
    by (simp add: log_room_def)
qed

end
