(* ===== verification/Items.thy ===== *)
theory Items
  imports Author
begin

text \<open>
  The item operations of \<open>lp-vault/src/vault.rs\<close>. Each runs in one transaction: \<open>Inl\<close> rolls back,
  \<open>Inr\<close> is the committed database with the result. The random ids and the two clock
  reads of a write, \<open>now\<close> for its rows and \<open>op_now\<close> for the op row, are arguments; the
  audit record written after a commit, whose failure is ignored, belongs to the account and is left out.
\<close>

record item =
  it_item_id :: id
  it_current_version :: int
  it_created_at :: int
  it_updated_at :: int
  it_payload :: item_payload

record version_info =
  vi_version :: int
  vi_created_at :: int
  vi_payload :: item_payload

record trash_entry =
  te_item_id :: id
  te_deleted_at :: int
  te_purge_after :: int

definition u32_or_zero :: "int \<Rightarrow> u32" where
  "u32_or_zero v = (if 0 \<le> v \<and> v < 2 ^ 32 then word_of_int v else 0)"

definition is_tombstoned :: "'x vault_db \<Rightarrow> id \<Rightarrow> bool" where
  "is_tombstoned db i \<longleftrightarrow> bt_get (db_tombstones db) (as_bytes i) \<noteq> None"

definition current_version_of :: "'x vault_db \<Rightarrow> id \<Rightarrow> vault_error + int" where
  "current_version_of db i =
     bind_ok (ok_or (NotFoundEntity ''item'') (bt_get (db_items db) (as_bytes i))) (\<lambda>row.
     Inr (ir_current_version row))"

text \<open>The two inserts every new version makes.\<close>

definition put_version ::
  "id \<Rightarrow> id \<Rightarrow> int \<Rightarrow> bytes \<times> bytes \<Rightarrow> int \<Rightarrow> id \<Rightarrow> 'x vault_db \<Rightarrow> vault_error + 'x vault_db" where
  "put_version device i version sealed now oid db =
     bind_ok (sql_insert ''wrapped_keys.item_id, wrapped_keys.version'' (as_bytes i, version)
       (snd sealed) (db_wrapped_keys db)) (\<lambda>keys.
     bind_ok (sql_insert ''item_versions.item_id, item_versions.version'' (as_bytes i, version)
       \<lparr>iv_payload_env = fst sealed, iv_created_at = now, iv_author_device_id = as_bytes device,
        iv_op_id = as_bytes oid\<rparr> (db_versions db)) (\<lambda>versions.
     Inr (db\<lparr>db_wrapped_keys := keys, db_versions := versions\<rparr>)))"

text \<open>\<open>UPDATE items SET current_version, updated_at\<close>: no row, no change.\<close>

definition set_head :: "id \<Rightarrow> int \<Rightarrow> int \<Rightarrow> 'x vault_db \<Rightarrow> 'x vault_db" where
  "set_head i version now db =
     (case bt_get (db_items db) (as_bytes i) of None \<Rightarrow> db
      | Some row \<Rightarrow> db\<lparr>db_items := bt_insert (as_bytes i)
          (row\<lparr>ir_current_version := version, ir_updated_at := now\<rparr>) (db_items db)\<rparr>)"

definition index_put :: "'x vault_env \<Rightarrow> serde \<Rightarrow> id \<Rightarrow> item_payload \<Rightarrow> 'x vault_db \<Rightarrow> vault_error + 'x vault_db" where
  "index_put env sd i payload db =
     bind_ok (index_upsert env (read_item_payload env sd db) i payload (db_index db)) (\<lambda>ix.
     Inr (db\<lparr>db_index := ix\<rparr>))"

section \<open>Writes\<close>

definition create_item ::
  "(bytes \<Rightarrow> bytes) \<Rightarrow> ('k \<Rightarrow> bytes \<Rightarrow> bytes) \<Rightarrow> 'x vault_env \<Rightarrow> 'k session \<Rightarrow> serde \<Rightarrow> id \<Rightarrow> id \<Rightarrow> int \<Rightarrow> int \<Rightarrow>
     item_payload \<Rightarrow> 'x vault_db \<Rightarrow> vault_error + (id \<times> 'x vault_db)" where
  "create_item H ed_sign env ses sd i oid now op_now payload db =
     bind_ok (to_canonical sd payload) (\<lambda>plaintext.
     bind_ok (seal_version env i 1 plaintext) (\<lambda>sealed.
     bind_ok (author_op H ed_sign env ses oid op_now Create (Some i) (u32_or_zero 1) plaintext db) (\<lambda>db.
     bind_ok (put_version (ss_device_id ses) i 1 sealed now oid db) (\<lambda>db.
     bind_ok (sql_insert ''items.item_id'' (as_bytes i)
       \<lparr>ir_current_version = 1, ir_created_at = now, ir_updated_at = now\<rparr> (db_items db)) (\<lambda>items.
     bind_ok (index_put env sd i payload (db\<lparr>db_items := items\<rparr>)) (\<lambda>db.
     Inr (i, db)))))))"

definition update_item ::
  "(bytes \<Rightarrow> bytes) \<Rightarrow> ('k \<Rightarrow> bytes \<Rightarrow> bytes) \<Rightarrow> 'x vault_env \<Rightarrow> 'k session \<Rightarrow> serde \<Rightarrow> id \<Rightarrow> id \<Rightarrow> int \<Rightarrow> int \<Rightarrow>
     item_payload \<Rightarrow> 'x vault_db \<Rightarrow> vault_error + (int \<times> 'x vault_db)" where
  "update_item H ed_sign env ses sd i oid now op_now payload db =
     (if is_tombstoned db i then Inl (VaultInvalid ''cannot update a deleted item'')
      else
        bind_ok (current_version_of db i) (\<lambda>current.
        let version = i64_add current 1 in
        bind_ok (to_canonical sd payload) (\<lambda>plaintext.
        bind_ok (seal_version env i version plaintext) (\<lambda>sealed.
        bind_ok (author_op H ed_sign env ses oid op_now Update (Some i) (u32_or_zero version) plaintext db) (\<lambda>db.
        bind_ok (put_version (ss_device_id ses) i version sealed now oid db) (\<lambda>db.
        bind_ok (index_put env sd i payload (set_head i version now db)) (\<lambda>db.
        Inr (version, db))))))))"

definition delete_item ::
  "(bytes \<Rightarrow> bytes) \<Rightarrow> ('k \<Rightarrow> bytes \<Rightarrow> bytes) \<Rightarrow> 'x vault_env \<Rightarrow> 'k session \<Rightarrow> serde \<Rightarrow> id \<Rightarrow> int \<Rightarrow> id \<Rightarrow> int \<Rightarrow> int \<Rightarrow>
     'x vault_db \<Rightarrow> vault_error + 'x vault_db" where
  "delete_item H ed_sign env ses sd i retention_ms oid now op_now db =
     (if bt_get (db_items db) (as_bytes i) = None then Inl (NotFoundEntity ''item'')
      else if is_tombstoned db i then Inl (VaultInvalid ''item already deleted'')
      else
        bind_ok (author_op H ed_sign env ses oid op_now Delete (Some i) 0 (str_bytes ''{}'') db) (\<lambda>db.
        bind_ok (sql_insert ''tombstones.item_id'' (as_bytes i)
          \<lparr>tr_deleted_at = now, tr_purge_after = saturating_add_i64 now retention_ms,
           tr_deleted_by_device = as_bytes (ss_device_id ses), tr_op_id = as_bytes oid\<rparr>
          (db_tombstones db)) (\<lambda>tombs.
        let db = db\<lparr>db_tombstones := tombs\<rparr> in
        bind_ok (index_delete env (read_item_payload env sd db) i (db_index db)) (\<lambda>ix.
        Inr (db\<lparr>db_index := ix\<rparr>)))))"

definition restore_version ::
  "(bytes \<Rightarrow> bytes) \<Rightarrow> ('k \<Rightarrow> bytes \<Rightarrow> bytes) \<Rightarrow> 'x vault_env \<Rightarrow> 'k session \<Rightarrow> serde \<Rightarrow> id \<Rightarrow> int \<Rightarrow> id \<Rightarrow> int \<Rightarrow> int \<Rightarrow>
     'x vault_db \<Rightarrow> vault_error + (int \<times> 'x vault_db)" where
  "restore_version H ed_sign env ses sd i target oid now op_now db =
     bind_ok (read_version_plaintext env db i target) (\<lambda>plaintext.
     bind_ok (current_version_of db i) (\<lambda>current.
     let version = i64_add current 1 in
     bind_ok (seal_version env i version plaintext) (\<lambda>sealed.
     bind_ok (author_op H ed_sign env ses oid op_now Restore (Some i) (u32_or_zero target) plaintext db) (\<lambda>db.
     bind_ok (put_version (ss_device_id ses) i version sealed now oid db) (\<lambda>db.
     let db = set_head i version now db;
         db = db\<lparr>db_tombstones := bt_delete_where (\<lambda>k. k = as_bytes i) (db_tombstones db)\<rparr> in
     bind_ok (from_canonical sd plaintext) (\<lambda>payload.
     bind_ok (index_put env sd i payload db) (\<lambda>db.
     Inr (version, db))))))))"

definition untrash_item ::
  "(bytes \<Rightarrow> bytes) \<Rightarrow> ('k \<Rightarrow> bytes \<Rightarrow> bytes) \<Rightarrow> 'x vault_env \<Rightarrow> 'k session \<Rightarrow> serde \<Rightarrow> id \<Rightarrow> id \<Rightarrow> int \<Rightarrow> int \<Rightarrow>
     'x vault_db \<Rightarrow> vault_error + (int \<times> 'x vault_db)" where
  "untrash_item H ed_sign env ses sd i oid now op_now db =
     (if \<not> is_tombstoned db i then
        (case bt_get (db_items db) (as_bytes i) of
           Some _ \<Rightarrow> Inl (VaultInvalid ''item is not in trash'')
         | None \<Rightarrow> Inl (NotFoundEntity ''item''))
      else bind_ok (current_version_of db i) (\<lambda>current.
        restore_version H ed_sign env ses sd i current oid now op_now db))"

section \<open>Reads\<close>

definition read_item :: "'x vault_env \<Rightarrow> serde \<Rightarrow> 'x vault_db \<Rightarrow> id \<Rightarrow> vault_error + item" where
  "read_item env sd db i =
     bind_ok (ok_or (NotFoundEntity ''item'') (bt_get (db_items db) (as_bytes i))) (\<lambda>row.
     bind_ok (read_version_plaintext env db i (ir_current_version row)) (\<lambda>plaintext.
     bind_ok (from_canonical sd plaintext) (\<lambda>payload.
     Inr \<lparr>it_item_id = i, it_current_version = ir_current_version row, it_created_at = ir_created_at row,
          it_updated_at = ir_updated_at row, it_payload = payload\<rparr>)))"

definition get_item :: "'x vault_env \<Rightarrow> serde \<Rightarrow> 'x vault_db \<Rightarrow> id \<Rightarrow> vault_error + item" where
  "get_item env sd db i =
     (if is_tombstoned db i then Inl (NotFoundEntity ''item (deleted)'') else read_item env sd db i)"

definition get_trashed_item :: "'x vault_env \<Rightarrow> serde \<Rightarrow> 'x vault_db \<Rightarrow> id \<Rightarrow> vault_error + item" where
  "get_trashed_item env sd db i =
     (if \<not> is_tombstoned db i then Inl (NotFoundEntity ''item (not in trash)'') else read_item env sd db i)"

definition read_version :: "'x vault_env \<Rightarrow> serde \<Rightarrow> 'x vault_db \<Rightarrow> id \<Rightarrow> int \<times> int \<Rightarrow> vault_error + version_info" where
  "read_version env sd db i vc =
     bind_ok (read_version_plaintext env db i (fst vc)) (\<lambda>plaintext.
     bind_ok (from_canonical sd plaintext) (\<lambda>payload.
     Inr \<lparr>vi_version = fst vc, vi_created_at = snd vc, vi_payload = payload\<rparr>))"

definition get_item_version :: "'x vault_env \<Rightarrow> serde \<Rightarrow> 'x vault_db \<Rightarrow> id \<Rightarrow> int \<Rightarrow> vault_error + version_info" where
  "get_item_version env sd db i version =
     bind_ok (ok_or (NotFoundEntity ''item version'') (bt_get (db_versions db) (as_bytes i, version))) (\<lambda>row.
     read_version env sd db i (version, iv_created_at row))"

text \<open>The rows of an item in ascending version order, which is the primary key's.\<close>

definition item_version_rows :: "'x vault_db \<Rightarrow> bytes \<Rightarrow> (int \<times> iv_row) list" where
  "item_version_rows db k = map (\<lambda>(kv, row). (snd kv, row)) (filter (\<lambda>(kv, row). fst kv = k) (db_versions db))"

definition history :: "'x vault_env \<Rightarrow> serde \<Rightarrow> 'x vault_db \<Rightarrow> id \<Rightarrow> vault_error + version_info list" where
  "history env sd db i =
     (let versions = map (\<lambda>(v, row). (v, iv_created_at row)) (item_version_rows db (as_bytes i))
      in if versions = [] then Inl (NotFoundEntity ''item'')
         else map_ok (read_version env sd db i) versions)"

text \<open>The listings order by a time column; rows of one time stay in key order.\<close>

definition live_rows :: "'x vault_db \<Rightarrow> (bytes \<times> item_row) list" where
  "live_rows db = filter (\<lambda>(k, row). bt_get (db_tombstones db) k = None) (db_items db)"

definition iter_items :: "'x vault_env \<Rightarrow> serde \<Rightarrow> 'x vault_db \<Rightarrow> vault_error + item list" where
  "iter_items env sd db =
     map_ok (\<lambda>(k, row). bind_ok (id_from_slice k) (read_item env sd db))
       (sort_key (\<lambda>(k, row). ir_created_at row) (live_rows db))"

definition list_trash :: "'x vault_db \<Rightarrow> vault_error + trash_entry list" where
  "list_trash db =
     map_ok (\<lambda>(k, row). bind_ok (id_from_slice k) (\<lambda>i.
         Inr \<lparr>te_item_id = i, te_deleted_at = tr_deleted_at row, te_purge_after = tr_purge_after row\<rparr>))
       (sort_key (\<lambda>(k, row). tr_deleted_at row) (db_tombstones db))"

section \<open>Purging and pruning\<close>

definition shred :: "bytes \<Rightarrow> 'x vault_db \<Rightarrow> 'x vault_db" where
  "shred k db =
     db\<lparr>db_versions := bt_delete_where (\<lambda>kv. fst kv = k) (db_versions db),
        db_wrapped_keys := bt_delete_where (\<lambda>kv. fst kv = k) (db_wrapped_keys db),
        db_items := bt_delete_where (\<lambda>k'. k' = k) (db_items db),
        db_tombstones := bt_delete_where (\<lambda>k'. k' = k) (db_tombstones db)\<rparr>"

definition purge_expired_trash :: "int \<Rightarrow> 'x vault_db \<Rightarrow> nat \<times> 'x vault_db" where
  "purge_expired_trash now db =
     (let expired = map fst (filter (\<lambda>(k, row). tr_purge_after row \<le> now) (db_tombstones db))
      in (length expired, fold shred expired db))"

record prune_report =
  pr_versions_removed :: nat
  pr_bytes_reclaimed :: nat
  pr_per_item :: "(id \<times> nat) list"

text \<open>Newest first: number, blob length, time.\<close>

definition prune_rows :: "'x vault_db \<Rightarrow> bytes \<Rightarrow> (int \<times> nat \<times> int) list" where
  "prune_rows db k =
     map (\<lambda>(v, row). (v, length (iv_payload_env row) +
         (case bt_get (db_wrapped_keys db) (k, v) of None \<Rightarrow> 0 | Some env \<Rightarrow> length env), iv_created_at row))
       (rev (item_version_rows db k))"

definition delete_version :: "bytes \<Rightarrow> int \<Rightarrow> 'x vault_db \<Rightarrow> 'x vault_db" where
  "delete_version k v db =
     db\<lparr>db_versions := bt_delete_where (\<lambda>kv. kv = (k, v)) (db_versions db),
        db_wrapped_keys := bt_delete_where (\<lambda>kv. kv = (k, v)) (db_wrapped_keys db)\<rparr>"

record 'x prune_state =
  ps_rank :: int
  ps_removed :: nat
  ps_bytes :: nat
  ps_db :: "'x vault_db"

definition prune_version ::
  "int \<Rightarrow> int option \<Rightarrow> bytes \<Rightarrow> int \<Rightarrow> int \<times> nat \<times> int \<Rightarrow> 'x prune_state \<Rightarrow> 'x prune_state" where
  "prune_version keep_last older_than k current vbc st =
     (case vbc of (version, blob_len, created) \<Rightarrow>
       if version = current then st
       else
         let rank = ps_rank st; st = st\<lparr>ps_rank := rank + 1\<rparr>
         in if rank < keep_last then st
            else if (case older_than of None \<Rightarrow> False | Some cutoff \<Rightarrow> cutoff \<le> created) then st
            else st\<lparr>ps_removed := ps_removed st + 1, ps_bytes := ps_bytes st + blob_len,
                    ps_db := delete_version k version (ps_db st)\<rparr>)"

definition prune_item ::
  "int \<Rightarrow> int option \<Rightarrow> bytes \<times> item_row \<Rightarrow> prune_report \<times> 'x vault_db \<Rightarrow>
     vault_error + (prune_report \<times> 'x vault_db)" where
  "prune_item keep_last older_than kr acc =
     (let (k, row) = kr; (report, db) = acc;
          st = fold (prune_version keep_last older_than k (ir_current_version row)) (prune_rows db k)
                 \<lparr>ps_rank = 0, ps_removed = 0, ps_bytes = 0, ps_db = db\<rparr>
      in if ps_removed st = 0 then Inr (report, ps_db st)
         else bind_ok (id_from_slice k) (\<lambda>i.
           Inr (report\<lparr>pr_versions_removed := pr_versions_removed report + ps_removed st,
                       pr_bytes_reclaimed := pr_bytes_reclaimed report + ps_bytes st,
                       pr_per_item := pr_per_item report @ [(i, ps_removed st)]\<rparr>, ps_db st)))"

definition prune_versions_impl ::
  "u32 \<Rightarrow> int option \<Rightarrow> bool \<Rightarrow> 'x vault_db \<Rightarrow> vault_error + (prune_report \<times> 'x vault_db)" where
  "prune_versions_impl keep_last older_than commit db =
     bind_ok (fold_ok (prune_item (uint keep_last) older_than) (db_items db)
         (\<lparr>pr_versions_removed = 0, pr_bytes_reclaimed = 0, pr_per_item = []\<rparr>, db)) (\<lambda>(report, db').
     Inr (report, if commit then db' else db))"

definition prune_versions :: "u32 \<Rightarrow> int option \<Rightarrow> 'x vault_db \<Rightarrow> vault_error + (prune_report \<times> 'x vault_db)" where
  "prune_versions keep_last older_than db = prune_versions_impl keep_last older_than True db"

definition prune_versions_dry_run :: "u32 \<Rightarrow> int option \<Rightarrow> 'x vault_db \<Rightarrow> vault_error + (prune_report \<times> 'x vault_db)" where
  "prune_versions_dry_run keep_last older_than db = prune_versions_impl keep_last older_than False db"

section \<open>Folders\<close>

definition create_folder :: "'x vault_env \<Rightarrow> id \<Rightarrow> int \<Rightarrow> bytes \<Rightarrow> 'x vault_db \<Rightarrow> vault_error + (id \<times> 'x vault_db)" where
  "create_folder env fid now name db =
     bind_ok (vk_seal env name (aad_folder_name (ve_vault_id env) fid)) (\<lambda>name_env.
     bind_ok (sql_insert ''folders.folder_id'' (as_bytes fid)
       \<lparr>fr_name_env = name_env, fr_created_at = now\<rparr> (db_folders db)) (\<lambda>rows.
     Inr (fid, db\<lparr>db_folders := rows\<rparr>)))"

text \<open>\<open>String::from_utf8\<close> is the argument: the bytes themselves, where they are UTF-8.\<close>

definition list_folders ::
  "(bytes \<Rightarrow> string option) \<Rightarrow> 'x vault_env \<Rightarrow> 'x vault_db \<Rightarrow> vault_error + (id \<times> string) list" where
  "list_folders from_utf8 env db =
     map_ok (\<lambda>(k, row).
         bind_ok (id_from_slice k) (\<lambda>fid.
         bind_ok (vk_open env (fr_name_env row) (aad_folder_name (ve_vault_id env) fid)) (\<lambda>name_bytes.
         bind_ok (ok_or (VaultInvalid ''decrypted folder name was not UTF-8'') (from_utf8 name_bytes)) (\<lambda>name.
         Inr (fid, name)))))
       (sort_key (\<lambda>(k, row). fr_created_at row) (db_folders db))"

definition delete_folder :: "id \<Rightarrow> 'x vault_db \<Rightarrow> vault_error + 'x vault_db" where
  "delete_folder fid db =
     (if bt_get (db_folders db) (as_bytes fid) = None then Inl (NotFoundEntity ''folder'')
      else Inr (db\<lparr>db_folders := bt_delete_where (\<lambda>k. k = as_bytes fid) (db_folders db)\<rparr>))"

section \<open>Counts and the linear search\<close>

record storage_stats =
  sts_live_items :: nat
  sts_total_versions :: nat
  sts_trashed :: nat

definition storage_stats_of :: "'x vault_db \<Rightarrow> storage_stats" where
  "storage_stats_of db =
     \<lparr>sts_live_items = length (live_rows db), sts_total_versions = length (db_versions db),
      sts_trashed = length (db_tombstones db)\<rparr>"

text \<open>\<open>str::contains\<close> and, as the argument \<open>lower\<close>, \<open>str::to_lowercase\<close>.\<close>

definition str_contains :: "string \<Rightarrow> string \<Rightarrow> bool" where
  "str_contains hay needle \<longleftrightarrow>
     list_ex (\<lambda>n. take (length needle) (drop n hay) = needle) [0..<Suc (length hay)]"

definition linear_match :: "(string \<Rightarrow> string) \<Rightarrow> string \<Rightarrow> string option \<Rightarrow> item_payload \<Rightarrow> bool" where
  "linear_match lower needle type_filter p \<longleftrightarrow>
     (case type_filter of Some t \<Rightarrow> type_str (p_type_data p) = t | None \<Rightarrow> True) \<and>
     (needle = [] \<or> str_contains (lower (p_title p)) needle \<or>
      list_ex (\<lambda>tag. str_contains (lower tag) needle) (p_tags p) \<or>
      str_contains (type_str (p_type_data p)) needle)"

definition search_linear ::
  "(string \<Rightarrow> string) \<Rightarrow> 'x vault_env \<Rightarrow> serde \<Rightarrow> 'x vault_db \<Rightarrow> string \<Rightarrow> string option \<Rightarrow> vault_error + item list" where
  "search_linear lower env sd db query type_filter =
     bind_ok (iter_items env sd db) (\<lambda>items.
     Inr (filter (\<lambda>it. linear_match lower (lower query) type_filter (it_payload it)) items))"

end
