(* ===== verification/ItemsInv.thy ===== *)
theory ItemsInv
  imports Items Foreign
begin

text \<open>
  What the item operations of \<open>Items\<close> do to the tables, and the invariant of a vault file: versions,
  wrapped keys, heads and tombstones fit together and every stored version can be read. A step is
  any one operation, with its own draws from the random source.
\<close>

section \<open>Frames\<close>

lemma author_op_frame:
  "author_op H ed_sign env ses oid op_now kind target tv pt db = Inr db' \<Longrightarrow> \<exists>rows. db' = db\<lparr>db_ops := rows\<rparr>"
  by (auto simp: author_op_def bind_ok_Inr_iff split: if_splits)

lemma put_version_Inr:
  "put_version d i v sealed now oid db = Inr db' \<longleftrightarrow>
     bt_get (db_wrapped_keys db) (as_bytes i, v) = None \<and> bt_get (db_versions db) (as_bytes i, v) = None \<and>
     db' = db\<lparr>db_wrapped_keys := bt_insert (as_bytes i, v) (snd sealed) (db_wrapped_keys db),
       db_versions := bt_insert (as_bytes i, v)
         \<lparr>iv_payload_env = fst sealed, iv_created_at = now, iv_author_device_id = as_bytes d,
          iv_op_id = as_bytes oid\<rparr> (db_versions db)\<rparr>"
  by (auto simp: put_version_def bind_ok_Inr_iff sql_insert_Inr)

lemma index_put_frame: "index_put env sd i p db = Inr db' \<Longrightarrow> \<exists>ix. db' = db\<lparr>db_index := ix\<rparr>"
  by (auto simp: index_put_def bind_ok_Inr_iff)

lemma current_version_of_Inr:
  "current_version_of db i = Inr c \<longleftrightarrow> (\<exists>row. bt_get (db_items db) (as_bytes i) = Some row \<and> c = ir_current_version row)"
  by (auto simp: current_version_of_def bind_ok_Inr_iff ok_or_Inr_iff)

text \<open>A database after a new version of an item, whatever op and index came with it.\<close>

definition with_version ::
  "id \<Rightarrow> int \<Rightarrow> bytes \<times> bytes \<Rightarrow> iv_row \<Rightarrow> item_row \<Rightarrow> op_row list \<Rightarrow> 'x \<Rightarrow> 'x vault_db \<Rightarrow> 'x vault_db" where
  "with_version i v sealed ver head rows ix db =
     db\<lparr>db_ops := rows,
        db_wrapped_keys := bt_insert (as_bytes i, v) (snd sealed) (db_wrapped_keys db),
        db_versions := bt_insert (as_bytes i, v) ver (db_versions db),
        db_items := bt_insert (as_bytes i) head (db_items db), db_index := ix\<rparr>"

lemma create_item_Inr:
  assumes "create_item H ed_sign env ses sd i oid now op_now p db = Inr (j, db')"
  obtains pt sealed rows ix ver where "j = i" "to_canonical sd p = Inr pt" "seal_version env i 1 pt = Inr sealed"
    "bt_get (db_wrapped_keys db) (as_bytes i, 1) = None" "bt_get (db_versions db) (as_bytes i, 1) = None"
    "bt_get (db_items db) (as_bytes i) = None" "iv_payload_env ver = fst sealed"
    "ver = \<lparr>iv_payload_env = fst sealed, iv_created_at = now,
        iv_author_device_id = as_bytes (ss_device_id ses), iv_op_id = as_bytes oid\<rparr>"
    "author_op H ed_sign env ses oid op_now Create (Some i) (u32_or_zero 1) pt db = Inr (db\<lparr>db_ops := rows\<rparr>)"
    "db' = with_version i 1 sealed ver \<lparr>ir_current_version = 1, ir_created_at = now, ir_updated_at = now\<rparr> rows ix db"
proof -
  from assms obtain pt sealed db1 db2 items where
    *: "to_canonical sd p = Inr pt" "seal_version env i 1 pt = Inr sealed"
      "author_op H ed_sign env ses oid op_now Create (Some i) (u32_or_zero 1) pt db = Inr db1"
      "put_version (ss_device_id ses) i 1 sealed now oid db1 = Inr db2"
      "sql_insert ''items.item_id'' (as_bytes i)
         \<lparr>ir_current_version = 1, ir_created_at = now, ir_updated_at = now\<rparr> (db_items db2) = Inr items"
      "index_put env sd i p (db2\<lparr>db_items := items\<rparr>) = Inr db'" "j = i"
    by (auto simp: create_item_def bind_ok_Inr_iff)
  obtain rows ix where "db1 = db\<lparr>db_ops := rows\<rparr>" "db' = db2\<lparr>db_items := items, db_index := ix\<rparr>"
    using author_op_frame [OF *(3)] index_put_frame [OF *(6)] by auto
  with * show thesis
    by (intro that [of pt sealed _ rows ix]) (auto simp: put_version_Inr sql_insert_Inr with_version_def)
qed

text \<open>An update and a restore share everything but the op and the tombstone.\<close>

lemma set_head_Some:
  "bt_get (db_items db) (as_bytes i) = Some row \<Longrightarrow>
     set_head i v now db = db\<lparr>db_items := bt_insert (as_bytes i) (row\<lparr>ir_current_version := v, ir_updated_at := now\<rparr>) (db_items db)\<rparr>"
  by (simp add: set_head_def)

lemma update_item_Inr:
  assumes "update_item H ed_sign env ses sd i oid now op_now p db = Inr (v, db')"
  obtains row pt sealed rows ix ver where "\<not> is_tombstoned db i" "bt_get (db_items db) (as_bytes i) = Some row"
    "v = i64_add (ir_current_version row) 1"
    "to_canonical sd p = Inr pt" "seal_version env i v pt = Inr sealed"
    "bt_get (db_wrapped_keys db) (as_bytes i, v) = None" "bt_get (db_versions db) (as_bytes i, v) = None"
    "ver = \<lparr>iv_payload_env = fst sealed, iv_created_at = now,
        iv_author_device_id = as_bytes (ss_device_id ses), iv_op_id = as_bytes oid\<rparr>"
    "author_op H ed_sign env ses oid op_now Update (Some i) (u32_or_zero v) pt db = Inr (db\<lparr>db_ops := rows\<rparr>)"
    "db' = with_version i v sealed ver (row\<lparr>ir_current_version := v, ir_updated_at := now\<rparr>) rows ix db"
proof -
  from assms obtain row pt sealed db1 db2 where
    *: "\<not> is_tombstoned db i" "bt_get (db_items db) (as_bytes i) = Some row" "v = i64_add (ir_current_version row) 1"
      "to_canonical sd p = Inr pt" "seal_version env i v pt = Inr sealed"
      "author_op H ed_sign env ses oid op_now Update (Some i) (u32_or_zero v) pt db = Inr db1"
      "put_version (ss_device_id ses) i v sealed now oid db1 = Inr db2"
      "index_put env sd i p (set_head i v now db2) = Inr db'"
    by (auto simp: update_item_def bind_ok_Inr_iff current_version_of_Inr Let_def split: if_splits)
  obtain rows ix where "db1 = db\<lparr>db_ops := rows\<rparr>" "db' = (set_head i v now db2)\<lparr>db_index := ix\<rparr>"
    using author_op_frame [OF *(6)] index_put_frame [OF *(8)] by auto
  with * show thesis
    by (intro that [of row pt sealed _ rows ix]) (auto simp: put_version_Inr set_head_Some with_version_def)
qed

lemma restore_version_Inr:
  assumes "restore_version H ed_sign env ses sd i target oid now op_now db = Inr (v, db')"
  obtains row pt p sealed rows ix ver where "read_version_plaintext env db i target = Inr pt"
    "bt_get (db_items db) (as_bytes i) = Some row" "v = i64_add (ir_current_version row) 1"
    "from_canonical sd pt = Inr p" "seal_version env i v pt = Inr sealed"
    "bt_get (db_wrapped_keys db) (as_bytes i, v) = None" "bt_get (db_versions db) (as_bytes i, v) = None"
    "ver = \<lparr>iv_payload_env = fst sealed, iv_created_at = now,
        iv_author_device_id = as_bytes (ss_device_id ses), iv_op_id = as_bytes oid\<rparr>"
    "author_op H ed_sign env ses oid op_now Restore (Some i) (u32_or_zero target) pt db = Inr (db\<lparr>db_ops := rows\<rparr>)"
    "db' = (with_version i v sealed ver (row\<lparr>ir_current_version := v, ir_updated_at := now\<rparr>) rows ix db)
       \<lparr>db_tombstones := bt_delete_where (\<lambda>k. k = as_bytes i) (db_tombstones db)\<rparr>"
proof -
  from assms obtain row pt p sealed db1 db2 where
    *: "read_version_plaintext env db i target = Inr pt"
      "bt_get (db_items db) (as_bytes i) = Some row" "v = i64_add (ir_current_version row) 1"
      "from_canonical sd pt = Inr p" "seal_version env i v pt = Inr sealed"
      "author_op H ed_sign env ses oid op_now Restore (Some i) (u32_or_zero target) pt db = Inr db1"
      "put_version (ss_device_id ses) i v sealed now oid db1 = Inr db2"
      "index_put env sd i p ((set_head i v now db2)
         \<lparr>db_tombstones := bt_delete_where (\<lambda>k. k = as_bytes i) (db_tombstones (set_head i v now db2))\<rparr>) = Inr db'"
    by (auto simp: restore_version_def bind_ok_Inr_iff current_version_of_Inr Let_def)
  obtain rows ix where "db1 = db\<lparr>db_ops := rows\<rparr>"
    "db' = (set_head i v now db2)\<lparr>db_tombstones := bt_delete_where (\<lambda>k. k = as_bytes i)
       (db_tombstones (set_head i v now db2)), db_index := ix\<rparr>"
    using author_op_frame [OF *(6)] index_put_frame [OF *(8)] by auto
  with * show thesis
    by (intro that [of pt row p sealed _ rows ix]) (auto simp: put_version_Inr set_head_Some with_version_def)
qed

lemma delete_item_Inr:
  assumes "delete_item H ed_sign env ses sd i retention oid now op_now db = Inr db'"
  obtains row rows ix where "bt_get (db_items db) (as_bytes i) = Some row" "\<not> is_tombstoned db i"
    "author_op H ed_sign env ses oid op_now Delete (Some i) 0 (str_bytes ''{}'') db = Inr (db\<lparr>db_ops := rows\<rparr>)"
    "db' = db\<lparr>db_ops := rows, db_tombstones := bt_insert (as_bytes i)
        \<lparr>tr_deleted_at = now, tr_purge_after = saturating_add_i64 now retention,
         tr_deleted_by_device = as_bytes (ss_device_id ses), tr_op_id = as_bytes oid\<rparr> (db_tombstones db),
        db_index := ix\<rparr>"
proof -
  from assms obtain row db1 tombs ix where
    *: "bt_get (db_items db) (as_bytes i) = Some row" "\<not> is_tombstoned db i"
      "author_op H ed_sign env ses oid op_now Delete (Some i) 0 (str_bytes ''{}'') db = Inr db1"
      "sql_insert ''tombstones.item_id'' (as_bytes i)
          \<lparr>tr_deleted_at = now, tr_purge_after = saturating_add_i64 now retention,
           tr_deleted_by_device = as_bytes (ss_device_id ses), tr_op_id = as_bytes oid\<rparr>
          (db_tombstones db1) = Inr tombs"
      "db' = db1\<lparr>db_tombstones := tombs, db_index := ix\<rparr>"
    by (auto simp: delete_item_def bind_ok_Inr_iff Let_def split: if_splits)
  then show thesis
    using author_op_frame [OF *(3)] by (auto simp: sql_insert_Inr intro!: that)
qed

section \<open>Reading back\<close>

text \<open>Reads do not depend on the random draws of the calls that wrote.\<close>

definition vault_draw :: "'x vault_env \<Rightarrow> 'x vault_env \<Rightarrow> bool" where
  "vault_draw env env' \<longleftrightarrow> vault_env_ok env' \<and> ve_vault_id env' = ve_vault_id env \<and>
     ve_vault_key env' = ve_vault_key env \<and> aead_encrypt (ve_aead env') = aead_encrypt (ve_aead env) \<and>
     aead_decrypt (ve_aead env') = aead_decrypt (ve_aead env)"

lemma vault_draw_refl: "vault_env_ok env \<Longrightarrow> vault_draw env env"
  by (simp add: vault_draw_def)

lemma open_version_draw: "vault_draw env env' \<Longrightarrow> open_version env' = open_version env"
  by (simp add: vault_draw_def open_version_def [abs_def] unwrap_item_key_def unwrap_key_def sym_open_def)

lemma read_version_plaintext_draw:
  "vault_draw env env' \<Longrightarrow> read_version_plaintext env' db = read_version_plaintext env db"
  by (intro ext) (simp add: read_version_plaintext_def open_version_draw [of env env'] cong: option.case_cong)

lemma with_version_sel [simp]:
  "db_tombstones (with_version i v sealed ver head rows ix db) = db_tombstones db"
  "db_ops (with_version i v sealed ver head rows ix db) = rows"
  "db_attachments (with_version i v sealed ver head rows ix db) = db_attachments db"
  "db_folders (with_version i v sealed ver head rows ix db) = db_folders db"
  "bt_get (db_items (with_version i v sealed ver head rows ix db)) =
     (bt_get (db_items db))(as_bytes i \<mapsto> head)"
  "bt_get (db_versions (with_version i v sealed ver head rows ix db)) =
     (bt_get (db_versions db))((as_bytes i, v) \<mapsto> ver)"
  "bt_get (db_wrapped_keys (with_version i v sealed ver head rows ix db)) =
     (bt_get (db_wrapped_keys db))((as_bytes i, v) \<mapsto> snd sealed)"
  by (simp_all add: with_version_def)

lemma read_with_version:
  assumes "vault_draw env env'" and "seal_version env' i v pt = Inr sealed" and "iv_payload_env ver = fst sealed"
  shows "read_version_plaintext env (with_version i v sealed ver head rows ix db) j w =
    (if j = i \<and> w = v then Inr pt else read_version_plaintext env db j w)"
proof -
  have "open_version env' i v (fst sealed) (snd sealed) = Inr pt"
    using assms(1,2) by (intro open_seal_version) (simp_all add: vault_draw_def)
  then have "open_version env i v (fst sealed) (snd sealed) = Inr pt"
    by (simp add: open_version_draw [OF assms(1)])
  then show ?thesis
    using assms(3) by (cases "j = i") (simp_all add: read_version_plaintext_def, simp add: id_eq_iff)
qed

lemma read_version_plaintext_tombs [simp]:
  "read_version_plaintext env (db\<lparr>db_tombstones := t\<rparr>) = read_version_plaintext env db"
  by (intro ext) (simp add: read_version_plaintext_def cong: option.case_cong)

lemma read_item_with_version:
  assumes "vault_draw env env'" and "seal_version env' i v pt = Inr sealed" and "iv_payload_env ver = fst sealed"
    and "ir_current_version head = v" and "from_canonical sd pt = Inr p"
  shows "read_item env sd ((with_version i v sealed ver head rows ix db)\<lparr>db_tombstones := t\<rparr>) j =
    (if j = i then Inr \<lparr>it_item_id = i, it_current_version = v, it_created_at = ir_created_at head,
        it_updated_at = ir_updated_at head, it_payload = p\<rparr>
     else read_item env sd db j)"
  using assms(4,5) by (auto simp: read_item_def read_with_version [OF assms(1-3)] id_eq_iff)

lemma with_version_tombs: "with_version i v sealed ver head rows ix db =
    (with_version i v sealed ver head rows ix db)\<lparr>db_tombstones := db_tombstones db\<rparr>"
  by (simp add: with_version_def)

lemma get_item_version_with_version:
  assumes "vault_draw env env'" and "seal_version env' i v pt = Inr sealed" and "iv_payload_env ver = fst sealed"
    and "(j, w) \<noteq> (i, v)"
  shows "get_item_version env sd ((with_version i v sealed ver head rows ix db)\<lparr>db_tombstones := t\<rparr>) j w =
    get_item_version env sd db j w"
  using assms(4) by (auto simp: get_item_version_def read_version_def read_with_version [OF assms(1-3)] id_eq_iff)

section \<open>The invariant\<close>

text \<open>Stored plaintexts parse: what \<open>serde\<close> promises of what it wrote.\<close>

definition serde_reads :: "serde \<Rightarrow> bool" where
  "serde_reads sd \<longleftrightarrow> (\<forall>p pt. to_canonical sd p = Inr pt \<longrightarrow> is_ok (from_canonical sd pt))"

definition versions_readable :: "'x vault_env \<Rightarrow> serde \<Rightarrow> 'x vault_db \<Rightarrow> bool" where
  "versions_readable env sd db \<longleftrightarrow> (\<forall>i v. bt_get (db_versions db) (as_bytes i, v) \<noteq> None \<longrightarrow>
     is_ok (bind_ok (read_version_plaintext env db i v) (from_canonical sd)))"

definition tables_fit :: "'x vault_db \<Rightarrow> bool" where
  "tables_fit db \<longleftrightarrow>
     bt_wf (db_items db) \<and> bt_wf (db_versions db) \<and>
     (\<forall>k v. bt_get (db_wrapped_keys db) (k, v) \<noteq> None \<longleftrightarrow> bt_get (db_versions db) (k, v) \<noteq> None) \<and>
     (\<forall>k v. bt_get (db_versions db) (k, v) \<noteq> None \<longrightarrow>
        (\<exists>row. bt_get (db_items db) k = Some row \<and> 1 \<le> v \<and> v \<le> ir_current_version row)) \<and>
     (\<forall>k row. bt_get (db_items db) k = Some row \<longrightarrow>
        length k = 16 \<and> bt_get (db_versions db) (k, ir_current_version row) \<noteq> None) \<and>
     (\<forall>k. bt_get (db_tombstones db) k \<noteq> None \<longrightarrow> bt_get (db_items db) k \<noteq> None)"

lemma tables_fitD:
  assumes "tables_fit db"
  shows "bt_get (db_wrapped_keys db) (k, v) \<noteq> None \<longleftrightarrow> bt_get (db_versions db) (k, v) \<noteq> None"
    and "bt_get (db_versions db) (k, v) \<noteq> None \<Longrightarrow>
        \<exists>row. bt_get (db_items db) k = Some row \<and> 1 \<le> v \<and> v \<le> ir_current_version row"
    and "bt_get (db_items db) k = Some row \<Longrightarrow> length k = 16 \<and> bt_get (db_versions db) (k, ir_current_version row) \<noteq> None"
    and "bt_get (db_tombstones db) k \<noteq> None \<Longrightarrow> bt_get (db_items db) k \<noteq> None"
  using assms unfolding tables_fit_def by blast+

definition vault_ok :: "'x vault_env \<Rightarrow> serde \<Rightarrow> 'x vault_db \<Rightarrow> bool" where
  "vault_ok env sd db \<longleftrightarrow> tables_fit db \<and> versions_readable env sd db"

lemma tables_fit_with_version:
  assumes "tables_fit db" and "id_wf i" and "1 \<le> v" and "ir_current_version head = v"
    and "\<And>row. bt_get (db_items db) (as_bytes i) = Some row \<Longrightarrow> ir_current_version row \<le> v"
  shows "tables_fit (with_version i v sealed ver head rows ix db)"
proof -
  have "bt_wf (db_items (with_version i v sealed ver head rows ix db))"
    "bt_wf (db_versions (with_version i v sealed ver head rows ix db))"
    using assms(1) by (simp_all add: tables_fit_def with_version_def)
  then show ?thesis
    using assms unfolding tables_fit_def with_version_sel id_wf_def
    by (simp split: if_splits) (meson order_trans)
qed

lemma tables_fit_tombs:
  "tables_fit db \<Longrightarrow> \<forall>k. bt_get t k \<noteq> None \<longrightarrow> bt_get (db_items db) k \<noteq> None \<Longrightarrow> tables_fit (db\<lparr>db_tombstones := t\<rparr>)"
  by (simp add: tables_fit_def)

lemma versions_readable_with_version:
  assumes "versions_readable env sd db"
    and "vault_draw env env'" "seal_version env' i v pt = Inr sealed" "iv_payload_env ver = fst sealed"
    and "is_ok (from_canonical sd pt)"
  shows "versions_readable env sd (with_version i v sealed ver head rows ix db)"
  using assms(1,5) by (auto simp: versions_readable_def read_with_version [OF assms(2-4)] id_eq_iff)

text \<open>Dropping version rows together with their keys, never a head's.\<close>

lemma bt_wf_delete_where [simp]: "bt_wf m \<Longrightarrow> bt_wf (bt_delete_where P m)"
  unfolding bt_wf_def bt_delete_where_def by (induction m) auto

lemma versions_readable_sub:
  assumes "versions_readable env sd db"
    and "\<And>kv r. bt_get (db_versions db') kv = Some r \<Longrightarrow> bt_get (db_versions db) kv = Some r \<and>
      bt_get (db_wrapped_keys db') kv = bt_get (db_wrapped_keys db) kv"
  shows "versions_readable env sd db'"
proof -
  have "read_version_plaintext env db' i v = read_version_plaintext env db i v"
    if "bt_get (db_versions db') (as_bytes i, v) \<noteq> None" for i v
    using that assms(2) [of "(as_bytes i, v)"] by (auto simp: read_version_plaintext_def)
  then show ?thesis
    using assms unfolding versions_readable_def by (metis not_None_eq)
qed

lemma vault_ok_delete_version:
  assumes "vault_ok env sd db" and "\<And>row. bt_get (db_items db) k = Some row \<Longrightarrow> v \<noteq> ir_current_version row"
  shows "vault_ok env sd (delete_version k v db)"
proof -
  have "tables_fit (delete_version k v db)"
    using assms unfolding vault_ok_def tables_fit_def by (simp add: delete_version_def bt_get_delete_where) metis
  moreover have "versions_readable env sd (delete_version k v db)"
    using assms(1) unfolding vault_ok_def
    by (rule_tac versions_readable_sub [of env sd db]) (auto simp: delete_version_def bt_get_delete_where split: if_splits)
  ultimately show ?thesis by (simp add: vault_ok_def)
qed

lemma vault_ok_shred: "vault_ok env sd db \<Longrightarrow> vault_ok env sd (shred k db)"
proof -
  assume ok: "vault_ok env sd db"
  then have "tables_fit (shred k db)"
    unfolding vault_ok_def tables_fit_def by (simp add: shred_def bt_get_delete_where)
  moreover have "versions_readable env sd (shred k db)"
    using ok unfolding vault_ok_def
    by (rule_tac versions_readable_sub [of env sd db]) (auto simp: shred_def bt_get_delete_where split: if_splits)
  ultimately show ?thesis by (simp add: vault_ok_def)
qed

lemma vault_ok_purge: "vault_ok env sd db \<Longrightarrow> vault_ok env sd (snd (purge_expired_trash now db))"
proof -
  have "vault_ok env sd (fold shred ks db)" if "vault_ok env sd db" for ks
    using that by (induction ks arbitrary: db) (auto simp: vault_ok_shred)
  then show "vault_ok env sd db \<Longrightarrow> vault_ok env sd (snd (purge_expired_trash now db))"
    by (simp add: purge_expired_trash_def Let_def)
qed

definition prune_frame :: "'x vault_db \<Rightarrow> 'x vault_db \<Rightarrow> bool" where
  "prune_frame db db' \<longleftrightarrow> (\<exists>vs ks. db' = db\<lparr>db_versions := vs, db_wrapped_keys := ks\<rparr>)"

lemma prune_frame_delete: "prune_frame db db1 \<Longrightarrow> prune_frame db (delete_version k v db1)"
  unfolding prune_frame_def delete_version_def by (elim exE) (simp, rule exI, rule exI, rule refl)

lemma prune_frame_refl [simp]: "prune_frame db db"
  unfolding prune_frame_def by (rule exI [of _ "db_versions db"], rule exI [of _ "db_wrapped_keys db"]) simp

lemma prune_frame_items: "prune_frame db db' \<Longrightarrow> db_items db' = db_items db \<and> db_ops db' = db_ops db \<and>
    db_tombstones db' = db_tombstones db \<and> db_attachments db' = db_attachments db"
  by (auto simp: prune_frame_def)

lemma prune_versions_fold:
  assumes "bt_get (db_items db) k = Some row"
    and "vault_ok env sd (ps_db st)" and "prune_frame db (ps_db st)"
  shows "vault_ok env sd (ps_db (fold (prune_version keep cutoff k (ir_current_version row)) vs st)) \<and>
    prune_frame db (ps_db (fold (prune_version keep cutoff k (ir_current_version row)) vs st))"
  using assms(2,3)
proof (induction vs arbitrary: st)
  case (Cons vbc vs)
  obtain v b c where vbc: "vbc = (v, b, c)" by (cases vbc)
  let ?st = "prune_version keep cutoff k (ir_current_version row) vbc st"
  have "ps_db ?st = ps_db st \<or> v \<noteq> ir_current_version row \<and> ps_db ?st = delete_version k v (ps_db st)"
    by (auto simp: prune_version_def vbc Let_def)
  then have "vault_ok env sd (ps_db ?st) \<and> prune_frame db (ps_db ?st)"
    using Cons.prems assms(1) prune_frame_items [OF Cons.prems(2)] prune_frame_delete
    by (auto intro!: vault_ok_delete_version)
  with Cons.IH show ?case by simp
qed simp

lemma prune_items_fold:
  assumes "fold_ok (prune_item keep cutoff) krs (rep, db1) = Inr (rep', db2)"
    and "\<forall>(k, row)\<in>set krs. bt_get (db_items db) k = Some row"
    and "vault_ok env sd db1" and "prune_frame db db1"
  shows "vault_ok env sd db2 \<and> prune_frame db db2"
  using assms
proof (induction krs arbitrary: rep db1)
  case (Cons kr krs)
  obtain k row where kr: "kr = (k, row)" by (cases kr)
  from Cons.prems(1) obtain rep1 db3 where step: "prune_item keep cutoff kr (rep, db1) = Inr (rep1, db3)"
    and rest: "fold_ok (prune_item keep cutoff) krs (rep1, db3) = Inr (rep', db2)"
    by (auto simp: bind_ok_Inr_iff)
  let ?st = "fold (prune_version keep cutoff k (ir_current_version row)) (prune_rows db1 k)
      \<lparr>ps_rank = 0, ps_removed = 0, ps_bytes = 0, ps_db = db1\<rparr>"
  have "db3 = ps_db ?st"
    using step by (auto simp: prune_item_def kr Let_def bind_ok_Inr_iff split: if_splits)
  moreover have "bt_get (db_items db) k = Some row" using Cons.prems(2) by (simp add: kr)
  ultimately have "vault_ok env sd db3 \<and> prune_frame db db3"
    using prune_versions_fold [of db k row env sd
        "\<lparr>ps_rank = 0, ps_removed = 0, ps_bytes = 0, ps_db = db1\<rparr>"] Cons.prems(3,4) by simp
  with Cons.IH [OF rest] Cons.prems(2) show ?case by simp
qed simp

lemma vault_ok_prune:
  assumes "prune_versions_impl keep cutoff commit db = Inr (rep, db')" and "vault_ok env sd db"
  shows "vault_ok env sd db' \<and> prune_frame db db'"
proof -
  from assms(1) obtain db2 where
    "fold_ok (prune_item (uint keep) cutoff) (db_items db)
       (\<lparr>pr_versions_removed = 0, pr_bytes_reclaimed = 0, pr_per_item = []\<rparr>, db) = Inr (rep, db2)"
    and "db' = (if commit then db2 else db)"
    by (auto simp: prune_versions_impl_def bind_ok_Inr_iff)
  moreover have "\<forall>(k, row)\<in>set (db_items db). bt_get (db_items db) k = Some row"
    using assms(2) by (auto simp: vault_ok_def tables_fit_def bt_wf_distinct)
  ultimately show ?thesis using prune_items_fold [of "uint keep" cutoff _ _ db rep db2 db] assms(2) by auto
qed

section \<open>Foreign materializations keep it\<close>

definition sealed_row :: "'x vault_env \<Rightarrow> serde \<Rightarrow> id \<Rightarrow> 'x vault_db \<Rightarrow> int \<Rightarrow> bool" where
  "sealed_row env sd i db v \<longleftrightarrow> (\<exists>ver w p pt. bt_get (db_versions db) (as_bytes i, v) = Some ver \<and>
     bt_get (db_wrapped_keys db) (as_bytes i, v) = Some w \<and>
     to_canonical sd p = Inr pt \<and> seal_version env i v pt = Inr (iv_payload_env ver, w))"

lemma insert_version_rows:
  assumes "insert_version env sd i ver db = Inr db'"
  shows "sealed_row env sd i db' (vm_version ver)"
    and "\<And>k v. (k, v) \<noteq> (as_bytes i, vm_version ver) \<Longrightarrow>
      bt_get (db_versions db') (k, v) = bt_get (db_versions db) (k, v) \<and>
      bt_get (db_wrapped_keys db') (k, v) = bt_get (db_wrapped_keys db) (k, v)"
    and "bt_wf (db_versions db) \<Longrightarrow> bt_wf (db_versions db')"
    and "db_items db' = db_items db" and "db_tombstones db' = db_tombstones db"
proof -
  from assms obtain pt pe w where *: "to_canonical sd (vm_payload ver) = Inr pt"
    "seal_version env i (vm_version ver) pt = Inr (pe, w)"
    and db': "db' = db\<lparr>db_wrapped_keys := bt_insert (as_bytes i, vm_version ver) w (db_wrapped_keys db),
      db_versions := bt_insert (as_bytes i, vm_version ver)
        \<lparr>iv_payload_env = pe, iv_created_at = vm_created_at ver,
         iv_author_device_id = as_bytes (vm_author_device_id ver), iv_op_id = as_bytes (vm_op_id ver)\<rparr> (db_versions db)\<rparr>"
    by (auto simp: insert_version_def bind_ok_Inr_iff sql_insert_Inr)
  from * show "sealed_row env sd i db' (vm_version ver)" by (auto simp: sealed_row_def db')
  show "\<And>k v. (k, v) \<noteq> (as_bytes i, vm_version ver) \<Longrightarrow>
      bt_get (db_versions db') (k, v) = bt_get (db_versions db) (k, v) \<and>
      bt_get (db_wrapped_keys db') (k, v) = bt_get (db_wrapped_keys db) (k, v)"
    and "bt_wf (db_versions db) \<Longrightarrow> bt_wf (db_versions db')"
    and "db_items db' = db_items db" and "db_tombstones db' = db_tombstones db"
    by (auto simp: db')
qed

lemma insert_versions_rows:
  assumes "fold_ok (insert_version env sd i) vers db = Inr db'" and "distinct (map vm_version vers)"
  shows "\<forall>v\<in>set (map vm_version vers). sealed_row env sd i db' v"
    and "\<And>k v. k \<noteq> as_bytes i \<or> v \<notin> set (map vm_version vers) \<Longrightarrow>
      bt_get (db_versions db') (k, v) = bt_get (db_versions db) (k, v) \<and>
      bt_get (db_wrapped_keys db') (k, v) = bt_get (db_wrapped_keys db) (k, v)"
    and "bt_wf (db_versions db) \<Longrightarrow> bt_wf (db_versions db')"
    and "db_items db' = db_items db" and "db_tombstones db' = db_tombstones db"
proof -
  have "(\<forall>v\<in>set (map vm_version vers). sealed_row env sd i db' v) \<and>
    (\<forall>k v. k \<noteq> as_bytes i \<or> v \<notin> set (map vm_version vers) \<longrightarrow>
      bt_get (db_versions db') (k, v) = bt_get (db_versions db) (k, v) \<and>
      bt_get (db_wrapped_keys db') (k, v) = bt_get (db_wrapped_keys db) (k, v)) \<and>
    (bt_wf (db_versions db) \<longrightarrow> bt_wf (db_versions db')) \<and> db_items db' = db_items db \<and> db_tombstones db' = db_tombstones db"
    using assms
  proof (induction vers arbitrary: db)
    case (Cons ver vers)
    obtain db1 where db1: "insert_version env sd i ver db = Inr db1"
      and rest: "fold_ok (insert_version env sd i) vers db1 = Inr db'"
      using Cons.prems(1) by (auto simp: bind_ok_Inr_iff)
    note one = insert_version_rows [OF db1]
    have IH: "\<forall>v\<in>set (map vm_version vers). sealed_row env sd i db' v"
      "\<forall>k v. k \<noteq> as_bytes i \<or> v \<notin> set (map vm_version vers) \<longrightarrow>
        bt_get (db_versions db') (k, v) = bt_get (db_versions db1) (k, v) \<and>
        bt_get (db_wrapped_keys db') (k, v) = bt_get (db_wrapped_keys db1) (k, v)"
      "bt_wf (db_versions db1) \<longrightarrow> bt_wf (db_versions db')"
      "db_items db' = db_items db1" "db_tombstones db' = db_tombstones db1"
      using Cons.IH [OF rest] Cons.prems(2) by auto
    have "vm_version ver \<notin> set (map vm_version vers)" using Cons.prems(2) by simp
    then have "sealed_row env sd i db' (vm_version ver)"
      using one(1) IH(2) by (simp add: sealed_row_def)
    then show ?case using IH one(2-5) by simp
  qed simp
  then show "\<forall>v\<in>set (map vm_version vers). sealed_row env sd i db' v"
    and "\<And>k v. k \<noteq> as_bytes i \<or> v \<notin> set (map vm_version vers) \<Longrightarrow>
      bt_get (db_versions db') (k, v) = bt_get (db_versions db) (k, v) \<and>
      bt_get (db_wrapped_keys db') (k, v) = bt_get (db_wrapped_keys db) (k, v)"
    and "bt_wf (db_versions db) \<Longrightarrow> bt_wf (db_versions db')"
    and "db_items db' = db_items db" and "db_tombstones db' = db_tombstones db"
    by blast+
qed

text \<open>What the merge produces: versions numbered from 1, the last one current.\<close>

definition item_numbered :: "item_materialization \<Rightarrow> bool" where
  "item_numbered it \<longleftrightarrow> id_wf (im_item_id it) \<and> im_versions it \<noteq> [] \<and>
     map vm_version (im_versions it) = map int [1..<Suc (length (im_versions it))] \<and>
     im_current_version it = int (length (im_versions it))"

lemma write_tombstone_mem:
  assumes "write_tombstone it db = Inr db'"
  shows "bt_get (db_tombstones db') k \<noteq> None \<Longrightarrow> k = as_bytes (im_item_id it) \<or> bt_get (db_tombstones db) k \<noteq> None"
    and "db_wrapped_keys db' = db_wrapped_keys db"
  using assms
  by (auto simp: write_tombstone_def Let_def bind_ok_Inr_iff sql_insert_Inr bt_get_delete_where
      split: option.splits if_splits)

lemma vault_ok_materialize:
  assumes ok: "vault_ok env sd db" and draw: "vault_draw env env'" and sd: "serde_reads sd"
    and num: "item_numbered it" and mat: "db_materialize_item env' sd it db = Inr db'"
  shows "vault_ok env sd db'"
proof -
  let ?i = "im_item_id it" and ?n = "int (length (im_versions it))"
  let ?k = "as_bytes ?i" and ?vs = "set (map vm_version (im_versions it))"
  have vs: "?vs = {1..?n}" "distinct (map vm_version (im_versions it))" "1 \<le> ?n" "length ?k = 16"
  proof -
    have eq: "map vm_version (im_versions it) = map int [1..<Suc (length (im_versions it))]"
      and ne: "im_versions it \<noteq> []" and k: "id_wf ?i"
      using num by (auto simp: item_numbered_def)
    have "?vs = int ` {1..length (im_versions it)}"
      unfolding eq by (simp del: upt_Suc add: atLeastLessThanSuc_atLeastAtMost)
    also have "\<dots> = {1..?n}" using image_int_atLeastAtMost [of 1 "length (im_versions it)"] by simp
    finally show "?vs = {1..?n}" .
    show "distinct (map vm_version (im_versions it))"
      unfolding eq by (simp del: upt_Suc add: distinct_map)
    show "1 \<le> ?n" using ne by (cases "im_versions it") auto
    show "length ?k = 16" using k by (simp add: id_wf_def)
  qed
  obtain db1 db2 where vers: "fold_ok (insert_version env' sd ?i) (im_versions it) (clear_versions ?k db) = Inr db1"
    and tomb: "write_tombstone it (db1\<lparr>db_items := upsert_item_row it (db_items db1)\<rparr>) = Inr db2"
    and ix: "index_apply_foreign env' sd ?i (im_tombstone it \<noteq> None) db2 = Inr db'"
    using mat unfolding db_materialize_item_def bind_ok_Inr_iff by blast
  note v = insert_versions_rows [OF vers vs(2)]
  have db': "db_versions db' = db_versions db1" "db_wrapped_keys db' = db_wrapped_keys db1"
    "db_tombstones db' = db_tombstones db2" "db_items db' = upsert_item_row it (db_items db)"
    using ix write_tombstone_Inr(2-4) [OF tomb] write_tombstone_mem(2) [OF tomb] v(4)
    by (auto simp: index_apply_foreign_def Let_def bind_ok_Inr_iff clear_versions_def)
  have clear: "bt_get (db_versions (clear_versions ?k db)) (k, w) = (if k = ?k then None else bt_get (db_versions db) (k, w))"
    "bt_get (db_wrapped_keys (clear_versions ?k db)) (k, w) = (if k = ?k then None else bt_get (db_wrapped_keys db) (k, w))" for k w
    by (simp_all add: clear_versions_def bt_get_delete_where)
  have own: "sealed_row env' sd ?i db' w" if "w \<in> {1..?n}" for w
  proof -
    have "sealed_row env' sd ?i db1 w" using v(1) that unfolding vs(1) by blast
    then show ?thesis by (simp add: sealed_row_def db')
  qed
  have other: "bt_get (db_versions db') (k, w) = (if k = ?k then None else bt_get (db_versions db) (k, w))"
      "bt_get (db_wrapped_keys db') (k, w) = (if k = ?k then None else bt_get (db_wrapped_keys db) (k, w))"
    if "k \<noteq> ?k \<or> w \<notin> {1..?n}" for k w
    using v(2) [of k w] that vs(1) clear by (auto simp: db')
  have present: "bt_get (db_versions db') (?k, w) \<noteq> None \<longleftrightarrow> w \<in> {1..?n}"
      "bt_get (db_wrapped_keys db') (?k, w) \<noteq> None \<longleftrightarrow> w \<in> {1..?n}" for w
    using own [of w] other [of ?k w] by (cases "w \<in> {1..?n}"; force simp: sealed_row_def)+
  obtain row where head: "bt_get (db_items db') ?k = Some row" "ir_current_version row = ?n"
    using num by (auto simp: db' upsert_item_row_def item_numbered_def split: option.splits)
  have items: "bt_get (db_items db') k = bt_get (db_items db) k" if "k \<noteq> ?k" for k
    using that by (simp add: db' upsert_item_row_def)
  have tf: "tables_fit db" using ok by (simp add: vault_ok_def)
  have tombs: "bt_get (db_items db') k \<noteq> None" if "bt_get (db_tombstones db') k \<noteq> None" for k
  proof -
    have "k = ?k \<or> bt_get (db_tombstones db) k \<noteq> None"
      using write_tombstone_mem(1) [OF tomb, of k] that v(5) by (simp add: db' clear_versions_def)
    then show ?thesis using tf head items by (cases "k = ?k") (auto simp: tables_fit_def)
  qed
  have wf: "bt_wf (db_items db')" "bt_wf (db_versions db')"
    using tf v(3) by (simp_all add: db' tables_fit_def upsert_item_row_def clear_versions_def)
  have "tables_fit db'"
    unfolding tables_fit_def
  proof (intro conjI allI impI wf tombs)
    fix k w
    show "bt_get (db_wrapped_keys db') (k, w) \<noteq> None \<longleftrightarrow> bt_get (db_versions db') (k, w) \<noteq> None"
      using tables_fitD(1) [OF tf, of k w] present [of w] other [of k w] by (cases "k = ?k") simp_all
    show "\<exists>row. bt_get (db_items db') k = Some row \<and> 1 \<le> w \<and> w \<le> ir_current_version row"
      if "bt_get (db_versions db') (k, w) \<noteq> None"
      using that tables_fitD(2) [OF tf, of k w] present(1) [of w] other(1) [of k w] head items [of k] by (cases "k = ?k") simp_all
  next
    fix k r
    assume "bt_get (db_items db') k = Some r"
    then show "length k = 16" and "bt_get (db_versions db') (k, ir_current_version r) \<noteq> None"
      using tables_fitD(3) [OF tf, of k r] present(1) [of ?n] other(1) [of k "ir_current_version r"] head items [of k] vs(3,4)
      by (cases "k = ?k"; simp)+
  qed auto
  moreover have "versions_readable env sd db'"
    unfolding versions_readable_def
  proof (intro allI impI)
    fix j w
    assume present': "bt_get (db_versions db') (as_bytes j, w) \<noteq> None"
    show "is_ok (bind_ok (read_version_plaintext env db' j w) (from_canonical sd))"
    proof (cases "j = ?i")
      case True
      then have "sealed_row env' sd ?i db' w" using present' present(1) own by auto
      then obtain ver k p pt where row: "bt_get (db_versions db') (?k, w) = Some ver"
          "bt_get (db_wrapped_keys db') (?k, w) = Some k" "to_canonical sd p = Inr pt"
          and seal: "seal_version env' ?i w pt = Inr (iv_payload_env ver, k)"
        by (auto simp: sealed_row_def)
      have "vault_env_ok env'" using draw by (simp add: vault_draw_def)
      from open_seal_version [OF this seal] have "open_version env ?i w (iv_payload_env ver) k = Inr pt"
        by (simp add: open_version_draw [OF draw])
      with row sd True show ?thesis by (auto simp: read_version_plaintext_def serde_reads_def)
    next
      case False
      then have "as_bytes j \<noteq> ?k" by (simp add: id_eq_iff)
      then have same: "bt_get (db_versions db') (as_bytes j, w) = bt_get (db_versions db) (as_bytes j, w)"
        "bt_get (db_wrapped_keys db') (as_bytes j, w) = bt_get (db_wrapped_keys db) (as_bytes j, w)"
        using other [of "as_bytes j" w] by auto
      then have "read_version_plaintext env db' j w = read_version_plaintext env db j w"
        by (simp add: read_version_plaintext_def)
      then show ?thesis using ok present' same by (simp add: vault_ok_def versions_readable_def)
    qed
  qed
  ultimately show ?thesis by (simp add: vault_ok_def)
qed

lemma vault_ok_frame: "vault_ok env sd (db\<lparr>db_ops := rows\<rparr>) \<longleftrightarrow> vault_ok env sd db"
  "vault_ok env sd (db\<lparr>db_attachments := atts\<rparr>) \<longleftrightarrow> vault_ok env sd db"
  "vault_ok env sd (db\<lparr>db_index := ix\<rparr>) \<longleftrightarrow> vault_ok env sd db"
  "vault_ok env sd (db\<lparr>db_folders := fs\<rparr>) \<longleftrightarrow> vault_ok env sd db"
  by (simp_all add: vault_ok_def tables_fit_def versions_readable_def read_version_plaintext_def)

lemma merged_items_numbered:
  assumes "materialize ops decrypt sd now = Some (Inr mat)" and "length ops < 2 ^ 63"
    and "\<forall>op\<in>set ops. op_wf op"
  shows "\<forall>it\<in>set (mat_items mat). item_numbered it"
proof
  fix it
  assume it: "it \<in> set (mat_items mat)"
  then have has: "has_snapshot ops (im_item_id it)" and eq: "it = item_of decrypt sd ops now (im_item_id it)"
    by (simp_all add: materialize_item_mem [OF assms(1)])
  have "id_wf (im_item_id it)"
    using has assms(3) by (auto simp: has_snapshot_def op_wf_def)
  with item_of_versions(2-4) [OF has assms(2), of decrypt sd now, folded eq]
  show "item_numbered it" by (simp add: item_numbered_def)
qed

lemma vault_ok_materialize_attachment:
  "materialize_attachment env' att db = Inr db' \<Longrightarrow> vault_ok env sd db \<Longrightarrow> vault_ok env sd db'"
  by (auto simp: materialize_attachment_def bind_ok_Inr_iff vault_ok_frame split: if_splits)

lemma vault_ok_remove_attachment: "vault_ok env sd db \<Longrightarrow> vault_ok env sd (fold remove_attachment_row is db)"
  by (induction "is" arbitrary: db) (simp_all add: remove_attachment_row_def vault_ok_frame)

lemma vault_ok_foreign:
  assumes "apply_foreign_ops env' sd mat db = Inr db'" and "vault_ok env sd db" and "vault_draw env env'"
    and "serde_reads sd" and "\<forall>it\<in>set (mat_items mat). item_numbered it"
  shows "vault_ok env sd db'"
proof -
  let ?T = "set (bs_of_list (map as_bytes (mat_attachment_tombstones mat)))"
  obtain rows db1 where items: "fold_ok (db_materialize_item env' sd) (mat_items mat) (db\<lparr>db_ops := rows\<rparr>) = Inr db1"
    and atts: "fold_ok (\<lambda>att db. if as_bytes (am_attachment_id att) \<in> ?T then Inr db
        else materialize_attachment env' att db) (mat_attachments mat)
        (fold remove_attachment_row (mat_attachment_tombstones mat) db1) = Inr db'"
    using assms(1) unfolding apply_foreign_ops_def Let_def bind_ok_Inr_iff by blast
  have "vault_ok env sd db1"
  proof (rule fold_ok_invariant [OF items, where P = "vault_ok env sd"])
    show "vault_ok env sd (db\<lparr>db_ops := rows\<rparr>)" using assms(2) by (simp add: vault_ok_frame)
    show "vault_ok env sd v" if "it \<in> set (mat_items mat)" "vault_ok env sd u"
        "db_materialize_item env' sd it u = Inr v" for it u v
      using assms(5) that by (intro vault_ok_materialize [OF that(2) assms(3,4) _ that(3)]) simp
  qed
  then show ?thesis
    by (intro fold_ok_invariant [OF atts, where P = "vault_ok env sd"])
      (auto simp: vault_ok_remove_attachment split: if_splits intro: vault_ok_materialize_attachment)
qed

section \<open>Local writes keep it\<close>

text \<open>Version numbers left: no item has used up \<open>i64\<close>.\<close>

definition versions_left :: "'x vault_db \<Rightarrow> bool" where
  "versions_left db \<longleftrightarrow> (\<forall>(k, row)\<in>set (db_items db). ir_current_version row < i64_max)"

lemma versions_leftD:
  "versions_left db \<Longrightarrow> bt_get (db_items db) k = Some row \<Longrightarrow> ir_current_version row < i64_max"
  by (auto simp: versions_left_def dest!: map_of_SomeD)

lemma next_version:
  assumes "vault_ok env sd db" and "versions_left db" and "bt_get (db_items db) (as_bytes i) = Some row"
  shows "i64_add (ir_current_version row) 1 = ir_current_version row + 1" "1 \<le> ir_current_version row" "id_wf i"
proof -
  have tf: "tables_fit db" using assms(1) by (simp add: vault_ok_def)
  have "bt_get (db_versions db) (as_bytes i, ir_current_version row) \<noteq> None" and len: "length (as_bytes i) = 16"
    using tables_fitD(3) [OF tf assms(3)] by auto
  from tables_fitD(2) [OF tf this(1)] show "1 \<le> ir_current_version row" using assms(3) by simp
  moreover have "ir_current_version row < i64_max" by (rule versions_leftD [OF assms(2,3)])
  ultimately show "i64_add (ir_current_version row) 1 = ir_current_version row + 1"
    by (simp add: i64_add_def i64_max_def)
  show "id_wf i" using len by (simp add: id_wf_def)
qed

lemma vault_ok_with_version:
  assumes "vault_ok env sd db" and "vault_draw env env'" "seal_version env' i v pt = Inr sealed" "iv_payload_env ver = fst sealed"
    and "is_ok (from_canonical sd pt)" and "id_wf i" and "1 \<le> v" and "ir_current_version head = v"
    and "\<And>row. bt_get (db_items db) (as_bytes i) = Some row \<Longrightarrow> ir_current_version row \<le> v"
  shows "vault_ok env sd (with_version i v sealed ver head rows ix db)"
  using assms tables_fit_with_version [of db i v head sealed ver rows ix]
    versions_readable_with_version [OF _ assms(2-5)]
  by (simp add: vault_ok_def)

lemma vault_ok_tombs:
  assumes "vault_ok env sd db" and "\<And>k. bt_get t k \<noteq> None \<Longrightarrow> bt_get (db_items db) k \<noteq> None"
  shows "vault_ok env sd (db\<lparr>db_tombstones := t\<rparr>)"
  using assms tables_fit_tombs [of db t] by (simp add: vault_ok_def versions_readable_def)

lemma vault_ok_create:
  assumes "create_item H ed_sign env' ses sd i oid now op_now p db = Inr (j, db')" and "vault_ok env sd db"
    and "vault_draw env env'" and "serde_reads sd" and "id_wf i"
  shows "vault_ok env sd db'"
  by (rule create_item_Inr [OF assms(1)])
    (use assms(2-5) in \<open>auto simp: serde_reads_def intro!: vault_ok_with_version\<close>)

lemma vault_ok_update:
  assumes "update_item H ed_sign env' ses sd i oid now op_now p db = Inr (v, db')" and "vault_ok env sd db"
    and "vault_draw env env'" and "serde_reads sd" and "versions_left db"
  shows "vault_ok env sd db'"
proof (rule update_item_Inr [OF assms(1)])
  fix row pt sealed rows ix ver
  assume *: "bt_get (db_items db) (as_bytes i) = Some row" "v = i64_add (ir_current_version row) 1"
    "to_canonical sd p = Inr pt" "seal_version env' i v pt = Inr sealed"
    "ver = \<lparr>iv_payload_env = fst sealed, iv_created_at = now,
        iv_author_device_id = as_bytes (ss_device_id ses), iv_op_id = as_bytes oid\<rparr>"
    "db' = with_version i v sealed ver (row\<lparr>ir_current_version := v, ir_updated_at := now\<rparr>) rows ix db"
  show ?thesis
    unfolding *(6) by (rule vault_ok_with_version [OF assms(2,3) *(4)])
      (use * next_version [OF assms(2,5) *(1)] assms(4) in \<open>auto simp: serde_reads_def\<close>)
qed

lemma vault_ok_restore:
  assumes "restore_version H ed_sign env' ses sd i target oid now op_now db = Inr (v, db')" and "vault_ok env sd db"
    and "vault_draw env env'" and "versions_left db"
  shows "vault_ok env sd db'"
proof (rule restore_version_Inr [OF assms(1)])
  fix row pt p sealed rows ix ver
  assume *: "bt_get (db_items db) (as_bytes i) = Some row" "v = i64_add (ir_current_version row) 1"
    "from_canonical sd pt = Inr p" "seal_version env' i v pt = Inr sealed"
    "ver = \<lparr>iv_payload_env = fst sealed, iv_created_at = now,
        iv_author_device_id = as_bytes (ss_device_id ses), iv_op_id = as_bytes oid\<rparr>"
    "db' = (with_version i v sealed ver (row\<lparr>ir_current_version := v, ir_updated_at := now\<rparr>) rows ix db)
       \<lparr>db_tombstones := bt_delete_where (\<lambda>k. k = as_bytes i) (db_tombstones db)\<rparr>"
  have ok: "vault_ok env sd (with_version i v sealed ver (row\<lparr>ir_current_version := v, ir_updated_at := now\<rparr>) rows ix db)"
    by (rule vault_ok_with_version [OF assms(2,3) *(4)])
      (use * next_version [OF assms(2,4) *(1)] in auto)
  show ?thesis
    unfolding *(6)
    by (rule vault_ok_tombs [OF ok])
      (use assms(2) tables_fitD(4) in \<open>auto simp: bt_get_delete_where vault_ok_def split: if_splits\<close>)
qed

lemma vault_ok_untrash:
  assumes "untrash_item H ed_sign env' ses sd i oid now op_now db = Inr (v, db')" and "vault_ok env sd db"
    and "vault_draw env env'" and "versions_left db"
  shows "vault_ok env sd db'"
  using assms vault_ok_restore
  by (auto simp: untrash_item_def bind_ok_Inr_iff split: if_splits option.splits)

lemma vault_ok_delete:
  assumes "delete_item H ed_sign env' ses sd i retention oid now op_now db = Inr db'" and "vault_ok env sd db"
  shows "vault_ok env sd db'"
proof (rule delete_item_Inr [OF assms(1)])
  fix row rows ix
  assume row: "bt_get (db_items db) (as_bytes i) = Some row"
    and db': "db' = db\<lparr>db_ops := rows, db_tombstones := bt_insert (as_bytes i)
        \<lparr>tr_deleted_at = now, tr_purge_after = saturating_add_i64 now retention,
         tr_deleted_by_device = as_bytes (ss_device_id ses), tr_op_id = as_bytes oid\<rparr> (db_tombstones db),
        db_index := ix\<rparr>"
  have "vault_ok env sd (db\<lparr>db_tombstones := bt_insert (as_bytes i)
        \<lparr>tr_deleted_at = now, tr_purge_after = saturating_add_i64 now retention,
         tr_deleted_by_device = as_bytes (ss_device_id ses), tr_op_id = as_bytes oid\<rparr> (db_tombstones db)\<rparr>)"
    by (rule vault_ok_tombs [OF assms(2)])
      (use row assms(2) tables_fitD(4) in \<open>auto simp: vault_ok_def split: if_splits\<close>)
  then show ?thesis
    unfolding db' by (simp add: vault_ok_def tables_fit_def versions_readable_def read_version_plaintext_def)
qed

section \<open>Steps\<close>

text \<open>
  Any operation that commits, each call with its own item keys and its own clock; ids come from the
  random source as 16 bytes, and no item has used up its version numbers.
\<close>

inductive vault_step ::
  "(bytes \<Rightarrow> bytes) \<Rightarrow> ('k \<Rightarrow> bytes \<Rightarrow> bytes) \<Rightarrow> 'x vault_env \<Rightarrow> 'k session \<Rightarrow> serde \<Rightarrow>
     'x vault_db \<Rightarrow> 'x vault_db \<Rightarrow> bool"
  for H ed_sign env ses sd where
  step_create: "vault_draw env env' \<Longrightarrow> id_wf i \<Longrightarrow>
    create_item H ed_sign env' ses sd i oid now op_now p db = Inr (j, db') \<Longrightarrow> vault_step H ed_sign env ses sd db db'"
| step_update: "vault_draw env env' \<Longrightarrow> versions_left db \<Longrightarrow>
    update_item H ed_sign env' ses sd i oid now op_now p db = Inr (v, db') \<Longrightarrow> vault_step H ed_sign env ses sd db db'"
| step_delete: "vault_draw env env' \<Longrightarrow>
    delete_item H ed_sign env' ses sd i retention oid now op_now db = Inr db' \<Longrightarrow> vault_step H ed_sign env ses sd db db'"
| step_restore: "vault_draw env env' \<Longrightarrow> versions_left db \<Longrightarrow>
    restore_version H ed_sign env' ses sd i target oid now op_now db = Inr (v, db') \<Longrightarrow> vault_step H ed_sign env ses sd db db'"
| step_untrash: "vault_draw env env' \<Longrightarrow> versions_left db \<Longrightarrow>
    untrash_item H ed_sign env' ses sd i oid now op_now db = Inr (v, db') \<Longrightarrow> vault_step H ed_sign env ses sd db db'"
| step_purge: "purge_expired_trash now db = (n, db') \<Longrightarrow> vault_step H ed_sign env ses sd db db'"
| step_prune: "prune_versions_impl keep cutoff commit db = Inr (rep, db') \<Longrightarrow> vault_step H ed_sign env ses sd db db'"
| step_folder: "vault_draw env env' \<Longrightarrow> create_folder env' fid now name db = Inr (fid', db') \<Longrightarrow> vault_step H ed_sign env ses sd db db'"
| step_drop_folder: "delete_folder fid db = Inr db' \<Longrightarrow> vault_step H ed_sign env ses sd db db'"
| step_sync: "vault_draw env env' \<Longrightarrow> materialize ops decrypt sd now = Some (Inr mat) \<Longrightarrow>
    length ops < 2 ^ 63 \<Longrightarrow> \<forall>op\<in>set ops. op_wf op \<Longrightarrow>
    apply_foreign_ops env' sd mat db = Inr db' \<Longrightarrow> vault_step H ed_sign env ses sd db db'"

inductive_cases vault_stepE: "vault_step H ed_sign env ses sd db db'"

lemma vault_step_ok:
  assumes "vault_step H ed_sign env ses sd db db'" and "vault_ok env sd db" and "serde_reads sd"
  shows "vault_ok env sd db'"
  using assms(1)
proof cases
  case (step_purge now n) then show ?thesis using vault_ok_purge [OF assms(2), of now] by simp
next
  case (step_prune keep cutoff commit rep) then show ?thesis using vault_ok_prune assms(2) by blast
next
  case (step_folder env' fid now name fid')
  then show ?thesis using assms(2) by (auto simp: create_folder_def bind_ok_Inr_iff vault_ok_frame)
next
  case (step_drop_folder fid)
  then show ?thesis using assms(2) by (auto simp: delete_folder_def vault_ok_frame split: if_splits)
next
  case (step_sync env' ops decrypt now mat)
  then show ?thesis using vault_ok_foreign [OF _ assms(2) _ assms(3)] merged_items_numbered by blast
qed (blast intro: vault_ok_create [OF _ assms(2) _ assms(3)] vault_ok_update [OF _ assms(2) _ assms(3)]
    vault_ok_restore [OF _ assms(2)] vault_ok_untrash [OF _ assms(2)] vault_ok_delete [OF _ assms(2)])+

text \<open>No step touches an op that is in the log: it grows at its end.\<close>

lemma author_op_rows:
  "author_op H ed_sign env ses oid op_now kind target tv pt db = Inr db' \<Longrightarrow> \<exists>rows. db_ops db' = db_ops db @ rows"
  by (auto simp: author_op_def bind_ok_Inr_iff split: if_splits)

lemma insert_ops_rows: "fold_ok insert_stored_op ops rows = Inr rows' \<Longrightarrow> \<exists>new. rows' = rows @ new"
proof (induction ops arbitrary: rows)
  case (Cons op ops)
  then obtain rows1 where "insert_stored_op op rows = Inr rows1" "fold_ok insert_stored_op ops rows1 = Inr rows'"
    by (auto simp: bind_ok_Inr_iff)
  with Cons.IH [of rows1] show ?case by (auto simp: insert_stored_op_Inr split: if_splits)
qed simp

lemma fold_shred_ops [simp]: "db_ops (fold shred ks db) = db_ops db"
  by (induction ks arbitrary: db) (simp_all add: shred_def)

lemma restore_version_rows:
  "restore_version H ed_sign env ses sd i target oid now op_now db = Inr (v, db') \<Longrightarrow> \<exists>new. db_ops db' = db_ops db @ new"
  by (erule restore_version_Inr) (drule author_op_rows, simp)

lemma prune_rows_frame:
  assumes "prune_versions_impl keep cutoff commit db = Inr (rep, db')" and "vault_ok env sd db"
  shows "prune_frame db db'"
  using vault_ok_prune [OF assms] by blast

lemma vault_step_log:
  assumes "vault_step H ed_sign env ses sd db db'" and "vault_ok env sd db"
  shows "\<exists>new. db_ops db' = db_ops db @ new"
  using assms(1)
proof cases
  case (step_create env' i oid now op_now p j)
  from step_create(3) show ?thesis by (rule create_item_Inr) (drule author_op_rows, simp)
next
  case (step_update env' i oid now op_now p v)
  from step_update(3) show ?thesis by (rule update_item_Inr) (drule author_op_rows, simp)
next
  case (step_delete env' i retention oid now op_now)
  from step_delete(2) show ?thesis by (rule delete_item_Inr) (drule author_op_rows, simp)
next
  case (step_restore env' i target oid now op_now v) then show ?thesis by (blast dest: restore_version_rows)
next
  case (step_untrash env' i oid now op_now v)
  then show ?thesis
    by (auto simp: untrash_item_def bind_ok_Inr_iff dest: restore_version_rows split: if_splits option.splits)
next
  case (step_purge now n) then show ?thesis by (auto simp: purge_expired_trash_def Let_def)
next
  case (step_prune keep cutoff commit rep)
  then show ?thesis using prune_rows_frame [OF _ assms(2)] prune_frame_items by (metis append_Nil2)
next
  case (step_folder env' fid now name fid')
  then show ?thesis by (auto simp: create_folder_def bind_ok_Inr_iff)
next
  case (step_drop_folder fid)
  then show ?thesis by (auto simp: delete_folder_def split: if_splits)
next
  case (step_sync env' ops decrypt now mat)
  have "\<forall>it\<in>set (mat_items mat). item_numbered it"
    using merged_items_numbered step_sync by blast
  have *: "distinct (map vm_version (im_versions it))" if "it \<in> set (mat_items mat)" for it
  proof -
    have "item_numbered it" using that \<open>\<forall>it\<in>set (mat_items mat). item_numbered it\<close> by simp
    then show ?thesis by (simp add: item_numbered_def distinct_map del: upt_Suc)
  qed
  have "distinct (map im_item_id (mat_items mat))"
    using materialize_mat_items(2) [OF step_sync(2)] by (simp add: comp_def)
  from apply_foreign_ops_Inr(1) [OF step_sync(5) _ this] * show ?thesis by (auto dest: insert_ops_rows)
qed

section \<open>Everything reads\<close>

lemma read_item_ok:
  assumes "vault_ok env sd db" and "bt_get (db_items db) (as_bytes i) = Some row"
  shows "is_ok (read_item env sd db i)"
proof -
  have tf: "tables_fit db" using assms(1) by (simp add: vault_ok_def)
  have "is_ok (bind_ok (read_version_plaintext env db i (ir_current_version row)) (from_canonical sd))"
    using assms(1) tables_fitD(3) [OF tf assms(2)] unfolding vault_ok_def versions_readable_def by blast
  then obtain pt p where "read_version_plaintext env db i (ir_current_version row) = Inr pt" "from_canonical sd pt = Inr p"
    by (auto simp: is_ok_iff bind_ok_Inr_iff)
  with assms(2) show ?thesis by (simp add: read_item_def)
qed

lemma version_rows_get:
  assumes "bt_wf (db_versions db)" and "(v, r) \<in> set (item_version_rows db k)"
  shows "bt_get (db_versions db) (k, v) = Some r"
  using assms by (auto simp: item_version_rows_def bt_wf_distinct intro: map_of_is_SomeI)

lemma history_ok:
  assumes "vault_ok env sd db" and "bt_get (db_items db) (as_bytes i) = Some row"
  shows "is_ok (history env sd db i)"
proof -
  have tf: "tables_fit db" and wf: "bt_wf (db_versions db)"
    using assms(1) by (simp_all add: vault_ok_def tables_fit_def)
  obtain r where "bt_get (db_versions db) (as_bytes i, ir_current_version row) = Some r"
    using tables_fitD(3) [OF tf assms(2)] by auto
  from map_of_SomeD [OF this] have "item_version_rows db (as_bytes i) \<noteq> []"
    by (force simp: item_version_rows_def filter_empty_conv)
  moreover have "is_ok (read_version env sd db i (v, c))" if "(v, r) \<in> set (item_version_rows db (as_bytes i))" for v r c
  proof -
    have "bt_get (db_versions db) (as_bytes i, v) \<noteq> None" using version_rows_get [OF wf that] by simp
    then have "is_ok (bind_ok (read_version_plaintext env db i v) (from_canonical sd))"
      using assms(1) unfolding vault_ok_def versions_readable_def by blast
    then obtain pt p where "read_version_plaintext env db i v = Inr pt" "from_canonical sd pt = Inr p"
      by (auto simp: is_ok_iff bind_ok_Inr_iff)
    then show ?thesis by (simp add: read_version_def)
  qed
  ultimately show ?thesis
    by (auto simp: history_def Let_def intro!: map_ok_is_ok)
qed

lemma iter_items_ok:
  assumes "vault_ok env sd db"
  shows "is_ok (iter_items env sd db)"
  unfolding iter_items_def
proof (rule map_ok_is_ok)
  fix kr
  assume "kr \<in> set (sort_key (\<lambda>(k, row). ir_created_at row) (live_rows db))"
  then obtain k row where kr: "kr = (k, row)" "(k, row) \<in> set (db_items db)" by (auto simp: live_rows_def)
  have tf: "tables_fit db" using assms by (simp add: vault_ok_def)
  have row: "bt_get (db_items db) k = Some row"
    using tf kr(2) by (simp add: tables_fit_def bt_wf_distinct)
  then have "id_from_slice k = Inr (Id k)" using tables_fitD(3) [OF tf row] by (simp add: id_from_slice_def)
  then show "is_ok (case kr of (k, row) \<Rightarrow> bind_ok (id_from_slice k) (read_item env sd db))"
    using read_item_ok [OF assms, of "Id k" row] row by (simp add: kr(1))
qed

end
