(* ===== verification/ItemSpec.thy ===== *)
theory ItemSpec
  imports ItemsInv
begin

text \<open>
  The abstract vault: per item its payloads by version number, the head and whether it is in the
  trash. The item operations of \<open>vault.rs\<close> implement it through the encrypted tables.
\<close>

section \<open>The abstract vault\<close>

record abs_item =
  ai_versions :: "int \<rightharpoonup> item_payload"
  ai_head :: int
  ai_trashed :: bool

type_synonym abs_vault = "id \<rightharpoonup> abs_item"

definition ok_value :: "'e + 'a \<Rightarrow> 'a option" where
  "ok_value m = (case m of Inl _ \<Rightarrow> None | Inr x \<Rightarrow> Some x)"

lemma ok_value_simps [simp]: "ok_value (Inl e) = None" "ok_value (Inr x) = Some x"
  by (simp_all add: ok_value_def)

lemma ok_value_Some [simp]: "ok_value m = Some x \<longleftrightarrow> m = Inr x"
  by (cases m) auto

definition version_payload :: "'x vault_env \<Rightarrow> serde \<Rightarrow> 'x vault_db \<Rightarrow> id \<Rightarrow> int \<rightharpoonup> item_payload" where
  "version_payload env sd db i v = ok_value (bind_ok (read_version_plaintext env db i v) (from_canonical sd))"

definition abs_of :: "'x vault_env \<Rightarrow> serde \<Rightarrow> 'x vault_db \<Rightarrow> abs_vault" where
  "abs_of env sd db i =
     map_option (\<lambda>row. \<lparr>ai_versions = version_payload env sd db i, ai_head = ir_current_version row,
                       ai_trashed = is_tombstoned db i\<rparr>)
       (bt_get (db_items db) (as_bytes i))"

text \<open>The next version of an item.\<close>

definition ai_put :: "item_payload \<Rightarrow> abs_item \<Rightarrow> abs_item" where
  "ai_put p it = it\<lparr>ai_versions := (ai_versions it)(ai_head it + 1 \<mapsto> p), ai_head := ai_head it + 1\<rparr>"

section \<open>What a new version does to it\<close>

lemma version_payload_with_version:
  assumes "vault_draw env env'" "seal_version env' i v pt = Inr sealed" "iv_payload_env ver = fst sealed"
    and "from_canonical sd pt = Inr p"
  shows "version_payload env sd ((with_version i v sealed ver head rows ix db)\<lparr>db_tombstones := t\<rparr>) j =
    (if j = i then (version_payload env sd db i)(v \<mapsto> p) else version_payload env sd db j)"
  using assms(4) by (auto simp: version_payload_def read_with_version [OF assms(1-3)])

lemma abs_of_with_version:
  assumes "vault_draw env env'" "seal_version env' i v pt = Inr sealed" "iv_payload_env ver = fst sealed"
    and "from_canonical sd pt = Inr p"
    and "\<And>k. k \<noteq> as_bytes i \<Longrightarrow> bt_get t k = bt_get (db_tombstones db) k"
  shows "abs_of env sd ((with_version i v sealed ver head rows ix db)\<lparr>db_tombstones := t\<rparr>) =
    (abs_of env sd db)(i \<mapsto> \<lparr>ai_versions = (version_payload env sd db i)(v \<mapsto> p),
       ai_head = ir_current_version head, ai_trashed = (bt_get t (as_bytes i) \<noteq> None)\<rparr>)"
proof
  fix j
  show "abs_of env sd ((with_version i v sealed ver head rows ix db)\<lparr>db_tombstones := t\<rparr>) j =
    ((abs_of env sd db)(i \<mapsto> \<lparr>ai_versions = (version_payload env sd db i)(v \<mapsto> p),
       ai_head = ir_current_version head, ai_trashed = (bt_get t (as_bytes i) \<noteq> None)\<rparr>)) j"
  proof (cases "j = i")
    case True
    then show ?thesis
      by (simp add: abs_of_def is_tombstoned_def version_payload_with_version [OF assms(1-4)])
  next
    case False
    then have "as_bytes j \<noteq> as_bytes i" by (simp add: id_eq_iff)
    with False show ?thesis
      using assms(5) [of "as_bytes j"]
      by (simp add: abs_of_def is_tombstoned_def version_payload_with_version [OF assms(1-4)])
  qed
qed

lemma abs_of_Some:
  "abs_of env sd db i = Some it \<longleftrightarrow> (\<exists>row. bt_get (db_items db) (as_bytes i) = Some row \<and>
     it = \<lparr>ai_versions = version_payload env sd db i, ai_head = ir_current_version row, ai_trashed = is_tombstoned db i\<rparr>)"
  by (auto simp: abs_of_def)

lemma abs_of_sel:
  "abs_of env sd db i = Some it \<Longrightarrow> version_payload env sd db i = ai_versions it"
  "abs_of env sd db i = Some it \<Longrightarrow> is_tombstoned db i = ai_trashed it"
  by (auto simp: abs_of_def)

lemma version_payload_none:
  assumes "vault_ok env sd db" and "bt_get (db_items db) (as_bytes i) = None"
  shows "version_payload env sd db i = Map.empty" "\<not> is_tombstoned db i"
proof -
  have tf: "tables_fit db" using assms(1) by (simp add: vault_ok_def)
  have "bt_get (db_versions db) (as_bytes i, v) = None" for v
    using tables_fitD(2) [OF tf, of "as_bytes i" v] assms(2) by (auto intro: ccontr)
  then show "version_payload env sd db i = Map.empty"
    by (auto simp: version_payload_def read_version_plaintext_def)
  show "\<not> is_tombstoned db i"
    using tables_fitD(4) [OF tf, of "as_bytes i"] assms(2) by (simp add: is_tombstoned_def) (metis option.exhaust)
qed

section \<open>Each operation\<close>

lemma vault_draw_abs: "vault_draw env env' \<Longrightarrow> abs_of env' sd = abs_of env sd"
  by (intro ext) (simp add: abs_of_def version_payload_def [abs_def] read_version_plaintext_draw [of env env'] cong: option.map_cong)

lemma create_item_abs:
  assumes "create_item H ed_sign env' ses sd i oid now op_now p db = Inr (j, db')"
    and "vault_ok env sd db" and "vault_draw env env'" and "\<forall>pt. to_canonical sd p = Inr pt \<longrightarrow> from_canonical sd pt = Inr p"
  shows "j = i" and "abs_of env sd db i = None"
    and "abs_of env sd db' = (abs_of env sd db)(i \<mapsto> \<lparr>ai_versions = [1 \<mapsto> p], ai_head = 1, ai_trashed = False\<rparr>)"
proof -
  from assms(1) obtain pt sealed rows ix ver where *: "j = i" "to_canonical sd p = Inr pt"
    "seal_version env' i 1 pt = Inr sealed" "bt_get (db_items db) (as_bytes i) = None"
    "iv_payload_env ver = fst sealed"
    "db' = with_version i 1 sealed ver \<lparr>ir_current_version = 1, ir_created_at = now, ir_updated_at = now\<rparr> rows ix db"
    by (rule create_item_Inr)
  have "from_canonical sd pt = Inr p" using *(2) assms(4) by simp
  note abs = abs_of_with_version [OF assms(3) *(3,5) this, of "db_tombstones db" db
    "\<lparr>ir_current_version = 1, ir_created_at = now, ir_updated_at = now\<rparr>" rows ix]
  show "j = i" and "abs_of env sd db i = None" using * by (simp_all add: abs_of_def)
  show "abs_of env sd db' = (abs_of env sd db)(i \<mapsto> \<lparr>ai_versions = [1 \<mapsto> p], ai_head = 1, ai_trashed = False\<rparr>)"
    using abs version_payload_none [OF assms(2) *(4)]
    by (simp add: *(6) is_tombstoned_def with_version_tombs [symmetric])
qed

lemma update_item_abs:
  assumes "update_item H ed_sign env' ses sd i oid now op_now p db = Inr (v, db')"
    and "vault_ok env sd db" and "versions_left db" and "vault_draw env env'"
    and "\<forall>pt. to_canonical sd p = Inr pt \<longrightarrow> from_canonical sd pt = Inr p"
  obtains it where "abs_of env sd db i = Some it" "\<not> ai_trashed it" "v = ai_head it + 1"
    "abs_of env sd db' = (abs_of env sd db)(i \<mapsto> ai_put p it)"
proof (rule update_item_Inr [OF assms(1)])
  fix row pt sealed rows ix ver
  assume *: "\<not> is_tombstoned db i" "bt_get (db_items db) (as_bytes i) = Some row"
    "v = i64_add (ir_current_version row) 1" "to_canonical sd p = Inr pt" "seal_version env' i v pt = Inr sealed"
    "ver = \<lparr>iv_payload_env = fst sealed, iv_created_at = now,
        iv_author_device_id = as_bytes (ss_device_id ses), iv_op_id = as_bytes oid\<rparr>"
    "db' = with_version i v sealed ver (row\<lparr>ir_current_version := v, ir_updated_at := now\<rparr>) rows ix db"
  have v: "v = ir_current_version row + 1" using next_version [OF assms(2,3) *(2)] *(3) by simp
  have ver: "iv_payload_env ver = fst sealed" and p: "from_canonical sd pt = Inr p"
    using *(4,6) assms(5) by simp_all
  let ?it = "\<lparr>ai_versions = version_payload env sd db i, ai_head = ir_current_version row, ai_trashed = False\<rparr>"
  have "abs_of env sd db i = Some ?it" using * by (simp add: abs_of_def)
  moreover have "abs_of env sd db' = (abs_of env sd db)(i \<mapsto> ai_put p ?it)"
    using abs_of_with_version [OF assms(4) *(5) ver p, of "db_tombstones db" db
        "row\<lparr>ir_current_version := v, ir_updated_at := now\<rparr>" rows ix] *(1)
    by (simp add: *(7) v ai_put_def is_tombstoned_def with_version_tombs [symmetric])
  ultimately show thesis using v by (intro that [of ?it]) simp_all
qed

lemma restore_version_abs:
  assumes "restore_version H ed_sign env' ses sd i target oid now op_now db = Inr (v, db')"
    and "vault_ok env sd db" and "versions_left db" and "vault_draw env env'"
  obtains it p where "abs_of env sd db i = Some it" "ai_versions it target = Some p" "v = ai_head it + 1"
    "abs_of env sd db' = (abs_of env sd db)(i \<mapsto> (ai_put p it)\<lparr>ai_trashed := False\<rparr>)"
proof (rule restore_version_Inr [OF assms(1)])
  fix row pt p sealed rows ix ver
  assume *: "read_version_plaintext env' db i target = Inr pt" "bt_get (db_items db) (as_bytes i) = Some row"
    "v = i64_add (ir_current_version row) 1" "from_canonical sd pt = Inr p" "seal_version env' i v pt = Inr sealed"
    "ver = \<lparr>iv_payload_env = fst sealed, iv_created_at = now,
        iv_author_device_id = as_bytes (ss_device_id ses), iv_op_id = as_bytes oid\<rparr>"
    "db' = (with_version i v sealed ver (row\<lparr>ir_current_version := v, ir_updated_at := now\<rparr>) rows ix db)
       \<lparr>db_tombstones := bt_delete_where (\<lambda>k. k = as_bytes i) (db_tombstones db)\<rparr>"
  have v: "v = ir_current_version row + 1" using next_version [OF assms(2,3) *(2)] *(3) by simp
  have ver: "iv_payload_env ver = fst sealed" using *(6) by simp
  let ?it = "\<lparr>ai_versions = version_payload env sd db i, ai_head = ir_current_version row, ai_trashed = is_tombstoned db i\<rparr>"
  have "abs_of env sd db i = Some ?it" using * by (simp add: abs_of_def)
  moreover have "ai_versions ?it target = Some p"
    using *(1,4) by (simp add: version_payload_def read_version_plaintext_draw [OF assms(4)])
  moreover have "abs_of env sd db' = (abs_of env sd db)(i \<mapsto> (ai_put p ?it)\<lparr>ai_trashed := False\<rparr>)"
    using abs_of_with_version [OF assms(4) *(5) ver *(4), of "bt_delete_where (\<lambda>k. k = as_bytes i) (db_tombstones db)" db
        "row\<lparr>ir_current_version := v, ir_updated_at := now\<rparr>" rows ix]
    by (simp add: *(7) v ai_put_def bt_get_delete_where)
  ultimately show thesis using v by (intro that [of ?it p]) simp_all
qed

lemma delete_item_abs:
  assumes "delete_item H ed_sign env' ses sd i retention oid now op_now db = Inr db'"
  obtains it where "abs_of env sd db i = Some it" "\<not> ai_trashed it"
    "abs_of env sd db' = (abs_of env sd db)(i \<mapsto> it\<lparr>ai_trashed := True\<rparr>)"
proof (rule delete_item_Inr [OF assms(1)])
  fix row rows ix
  assume *: "bt_get (db_items db) (as_bytes i) = Some row" "\<not> is_tombstoned db i"
    and db': "db' = db\<lparr>db_ops := rows, db_tombstones := bt_insert (as_bytes i)
        \<lparr>tr_deleted_at = now, tr_purge_after = saturating_add_i64 now retention,
         tr_deleted_by_device = as_bytes (ss_device_id ses), tr_op_id = as_bytes oid\<rparr> (db_tombstones db),
        db_index := ix\<rparr>"
  let ?it = "\<lparr>ai_versions = version_payload env sd db i, ai_head = ir_current_version row, ai_trashed = False\<rparr>"
  have same: "version_payload env sd db' = version_payload env sd db" "db_items db' = db_items db"
    "is_tombstoned db' = (is_tombstoned db)(i := True)"
    by (auto simp: fun_eq_iff version_payload_def read_version_plaintext_def is_tombstoned_def id_eq_iff db')
  have "abs_of env sd db' = (abs_of env sd db)(i \<mapsto> ?it\<lparr>ai_trashed := True\<rparr>)"
    using * by (simp add: abs_of_def same fun_eq_iff)
  then show thesis using * by (intro that [of ?it]) (simp_all add: abs_of_def)
qed

lemma untrash_item_abs:
  assumes "untrash_item H ed_sign env' ses sd i oid now op_now db = Inr (v, db')"
    and "vault_ok env sd db" and "versions_left db" and "vault_draw env env'"
  obtains it p where "abs_of env sd db i = Some it" "ai_trashed it" "ai_versions it (ai_head it) = Some p"
    "v = ai_head it + 1" "abs_of env sd db' = (abs_of env sd db)(i \<mapsto> (ai_put p it)\<lparr>ai_trashed := False\<rparr>)"
proof -
  from assms(1) obtain row where tomb: "is_tombstoned db i" and row: "bt_get (db_items db) (as_bytes i) = Some row"
    and restore: "restore_version H ed_sign env' ses sd i (ir_current_version row) oid now op_now db = Inr (v, db')"
    by (auto simp: untrash_item_def bind_ok_Inr_iff current_version_of_Inr split: if_splits option.splits)
  from restore_version_abs [OF restore assms(2-4)] obtain it p where
    *: "abs_of env sd db i = Some it" "ai_versions it (ir_current_version row) = Some p" "v = ai_head it + 1"
      "abs_of env sd db' = (abs_of env sd db)(i \<mapsto> (ai_put p it)\<lparr>ai_trashed := False\<rparr>)" .
  from *(1) have "ai_head it = ir_current_version row" "ai_trashed it" using tomb row by (auto simp: abs_of_def)
  with * show thesis by (intro that [of it p]) simp_all
qed

text \<open>Reads are the abstract ones.\<close>

lemma get_item_abs:
  "(\<exists>x. get_item env sd db i = Inr x \<and> it_current_version x = n \<and> it_payload x = p) \<longleftrightarrow>
     (\<exists>it. abs_of env sd db i = Some it \<and> \<not> ai_trashed it \<and> ai_head it = n \<and> ai_versions it n = Some p)"
  by (auto simp: get_item_def read_item_def abs_of_Some version_payload_def bind_ok_Inr_iff ok_or_Inr_iff)

lemma get_trashed_item_abs:
  "(\<exists>x. get_trashed_item env sd db i = Inr x \<and> it_current_version x = n \<and> it_payload x = p) \<longleftrightarrow>
     (\<exists>it. abs_of env sd db i = Some it \<and> ai_trashed it \<and> ai_head it = n \<and> ai_versions it n = Some p)"
  by (auto simp: get_trashed_item_def read_item_def abs_of_Some version_payload_def bind_ok_Inr_iff ok_or_Inr_iff)

lemma get_item_version_abs:
  "(\<exists>x. get_item_version env sd db i n = Inr x \<and> vi_version x = n \<and> vi_payload x = p) \<longleftrightarrow>
     version_payload env sd db i n = Some p"
  by (auto simp: get_item_version_def read_version_def version_payload_def bind_ok_Inr_iff ok_or_Inr_iff
      read_version_plaintext_def split: option.splits)
    (metis version_info.select_convs(3))

section \<open>A small vault\<close>

text \<open>The empty vault, then an item created, deleted and taken back.\<close>

lemma ex_serde_canonical [simp]:
  "to_canonical ex_serde p = Inr []" "from_canonical ex_serde bs = Inr (item_payload_new Note [])"
  by (simp_all add: to_canonical_def to_canonical_vec_def from_canonical_def from_canonical_slice_def ex_serde_def)

lemma ex_serde_reads [simp]: "serde_reads ex_serde"
  by (simp add: serde_reads_def)

lemma ex_index [simp]: "index_delete ex_vault = (\<lambda>rd i x. Inr x)" "index_upsert ex_vault = (\<lambda>rd i p x. Inr x)"
  by (simp_all add: ex_vault_def)

lemma ex_seal: obtains sealed where "seal_version ex_vault i n pt = Inr sealed"
  using seal_version_ok [of ex_vault i n pt] by (auto simp: ex_vault_def ex_aead_def is_ok_iff)

lemma ex_vault_empty [simp]: "vault_ok env sd ex_empty" "versions_left ex_empty"
  by (simp_all add: vault_ok_def tables_fit_def versions_readable_def versions_left_def ex_empty_def bt_wf_def)

lemma ex_draw [simp]: "vault_draw ex_vault ex_vault"
  by (simp add: vault_draw_refl)

lemma ex_log_ops: "ex_log n db ops \<Longrightarrow> db_ops db' = db_ops db \<Longrightarrow> ex_log n db' ops"
  by (simp add: ex_log_def)

lemma ex_create_item:
  assumes "ex_log n db ops" and "n < 2 ^ 20" and "oid \<notin> op_id ` set ops" and "id_wf oid" and "id_wf i"
    and "vault_ok ex_vault ex_serde db" and "bt_get (db_items db) (as_bytes i) = None"
  obtains db' op where "create_item ex_hash ex_sign ex_vault ex_session ex_serde i oid now op_now p db = Inr (i, db')"
    and "ex_log (Suc n) db' (ops @ [op])" and "op_id op = oid"
proof -
  obtain sealed where sealed: "seal_version ex_vault i 1 [] = Inr sealed" by (rule ex_seal)
  obtain db1 op where op: "author_op ex_hash ex_sign ex_vault ex_session oid op_now Create (Some i) (u32_or_zero 1) [] db = Inr db1"
    "ex_log (Suc n) db1 (ops @ [op])" "op_id op = oid" "db1 = db\<lparr>db_ops := db_ops db @ [row_of op]\<rparr>"
    using ex_log_author [OF assms(1,2) _ assms(3,4), of "[]" "Some i" op_now Create "u32_or_zero 1"] assms(5) by auto
  have tf: "tables_fit db" using assms(6) by (simp add: vault_ok_def)
  have "bt_get (db_versions db) (as_bytes i, 1) = None"
    using tables_fitD(2) [OF tf, of "as_bytes i" 1] assms(7) by (auto intro: ccontr)
  moreover from this have "bt_get (db_wrapped_keys db) (as_bytes i, 1) = None"
    using tables_fitD(1) [OF tf, of "as_bytes i" 1] by auto
  ultimately obtain db' where "create_item ex_hash ex_sign ex_vault ex_session ex_serde i oid now op_now p db = Inr (i, db')"
    and "db_ops db' = db_ops db1"
    using sealed op(1,4) assms(7)
    by (simp add: create_item_def put_version_def sql_insert_def index_put_def)
  then show thesis using op(2,3) by (intro that) (rule | assumption | erule ex_log_ops)+
qed

lemma ex_delete_item:
  assumes "ex_log n db ops" and "n < 2 ^ 20" and "oid \<notin> op_id ` set ops" and "id_wf oid" and "id_wf i"
    and "bt_get (db_items db) (as_bytes i) \<noteq> None" and "\<not> is_tombstoned db i"
  obtains db' op where "delete_item ex_hash ex_sign ex_vault ex_session ex_serde i ret oid now op_now db = Inr db'"
    and "ex_log (Suc n) db' (ops @ [op])" and "op_id op = oid"
proof -
  have "length (str_bytes ''{}'') < 2 ^ 20" by (simp add: str_bytes_def)
  from ex_log_author [OF assms(1,2) this assms(3,4), of "Some i" op_now Delete 0] assms(5) obtain db1 op where
    op: "author_op ex_hash ex_sign ex_vault ex_session oid op_now Delete (Some i) 0 (str_bytes ''{}'') db = Inr db1"
    "ex_log (Suc n) db1 (ops @ [op])" "op_id op = oid" "db1 = db\<lparr>db_ops := db_ops db @ [row_of op]\<rparr>"
    by auto
  obtain db' where "delete_item ex_hash ex_sign ex_vault ex_session ex_serde i ret oid now op_now db = Inr db'"
    and "db_ops db' = db_ops db1"
    using op(1,4) assms(6,7) by (auto simp: delete_item_def is_tombstoned_def sql_insert_def Let_def)
  then show thesis using op(2,3) by (intro that) (rule | assumption | erule ex_log_ops)+
qed

lemma ex_untrash_item:
  assumes "ex_log n db ops" and "n < 2 ^ 20" and "oid \<notin> op_id ` set ops" and "id_wf oid"
    and "vault_ok ex_vault ex_serde db" and "versions_left db" and "is_tombstoned db i"
    and "read_version_plaintext ex_vault db i c = Inr []" and "bt_get (db_items db) (as_bytes i) = Some row"
    and "c = ir_current_version row"
  obtains db' v where "untrash_item ex_hash ex_sign ex_vault ex_session ex_serde i oid now op_now db = Inr (v, db')"
proof -
  note v = next_version [OF assms(5,6,9)]
  obtain sealed where sealed: "seal_version ex_vault i (c + 1) [] = Inr sealed" by (rule ex_seal)
  obtain db1 op where op: "author_op ex_hash ex_sign ex_vault ex_session oid op_now Restore (Some i) (u32_or_zero c) [] db = Inr db1"
    "db1 = db\<lparr>db_ops := db_ops db @ [row_of op]\<rparr>"
  proof -
    have "length ([] :: bytes) < 2 ^ 20" and "\<forall>j. Some i = Some j \<longrightarrow> id_wf j" using v(3) by simp_all
    from ex_log_author [OF assms(1,2) this(1) assms(3,4) this(2), of op_now Restore "u32_or_zero c"] that
    show thesis by metis
  qed
  have tf: "tables_fit db" using assms(5) by (simp add: vault_ok_def)
  have "bt_get (db_versions db) (as_bytes i, c + 1) = None"
    using tables_fitD(2) [OF tf, of "as_bytes i" "c + 1"] assms(9,10) by (auto intro: ccontr)
  moreover from this have "bt_get (db_wrapped_keys db) (as_bytes i, c + 1) = None"
    using tables_fitD(1) [OF tf, of "as_bytes i" "c + 1"] by auto
  ultimately show thesis
    using sealed op assms(7-10) v(1)
    by (intro that) (simp add: untrash_item_def restore_version_def current_version_of_def put_version_def sql_insert_def index_put_def Let_def)
qed

text \<open>The run: item 9 is created, then deleted.\<close>

abbreviation ex_note :: item_payload where "ex_note \<equiv> item_payload_new Note []"

abbreviation ex_new :: abs_item where
  "ex_new \<equiv> \<lparr>ai_versions = [1 \<mapsto> ex_note], ai_head = 1, ai_trashed = False\<rparr>"

lemma ex_run:
  obtains db1 db2 op1 op2 where
    "create_item ex_hash ex_sign ex_vault ex_session ex_serde (ex_id 9) (ex_id 7) 100 100 ex_note ex_empty = Inr (ex_id 9, db1)"
    "delete_item ex_hash ex_sign ex_vault ex_session ex_serde (ex_id 9) 10 (ex_id 8) 200 200 db1 = Inr db2"
    "vault_ok ex_vault ex_serde db1" "versions_left db1" "vault_ok ex_vault ex_serde db2" "versions_left db2"
    "abs_of ex_vault ex_serde db1 = [ex_id 9 \<mapsto> ex_new]"
    "abs_of ex_vault ex_serde db2 = [ex_id 9 \<mapsto> ex_new\<lparr>ai_trashed := True\<rparr>]"
    "ex_log 2 db2 [op1, op2]" "op_id op1 = ex_id 7" "op_id op2 = ex_id 8"
    "read_version_plaintext ex_vault db2 (ex_id 9) 1 = Inr []"
proof -
  have none: "bt_get (db_items ex_empty) (as_bytes (ex_id 9)) = None" by (simp add: ex_empty_def)
  obtain db1 op1 where c: "create_item ex_hash ex_sign ex_vault ex_session ex_serde (ex_id 9) (ex_id 7) 100 100 ex_note ex_empty = Inr (ex_id 9, db1)"
    and log1: "ex_log 1 db1 [op1]" "op_id op1 = ex_id 7"
    using ex_create_item [OF ex_log_empty _ _ ex_id_wf [of 7] ex_id_wf [of 9] ex_vault_empty(1) none, where now = 100 and op_now = 100 and p = ex_note] by auto
  have ok1: "vault_ok ex_vault ex_serde db1"
    by (rule vault_ok_create [OF c]) simp_all
  have abs1: "abs_of ex_vault ex_serde db1 = [ex_id 9 \<mapsto> ex_new]"
    using create_item_abs(3) [OF c ex_vault_empty(1) ex_draw] by (auto simp: abs_of_def ex_empty_def fun_eq_iff)
  have "(\<exists>head. db_items db1 = [(as_bytes (ex_id 9), head)] \<and> ir_current_version head = 1) \<and>
    read_version_plaintext ex_vault db1 (ex_id 9) 1 = Inr []"
  proof (rule create_item_Inr [OF c])
    fix pt sealed rows ix ver
    assume "to_canonical ex_serde ex_note = Inr pt" "seal_version ex_vault (ex_id 9) 1 pt = Inr sealed"
      and "iv_payload_env ver = fst sealed"
      and db1: "db1 = with_version (ex_id 9) 1 sealed ver
        \<lparr>ir_current_version = 1, ir_created_at = 100, ir_updated_at = 100\<rparr> rows ix ex_empty"
    then show ?thesis
      using read_with_version [OF ex_draw, of "ex_id 9" 1 pt sealed ver]
      by (simp add: db1) (simp add: with_version_def ex_empty_def)
  qed
  then obtain head where items: "db_items db1 = [(as_bytes (ex_id 9), head)]" "ir_current_version head = 1"
    and read1: "read_version_plaintext ex_vault db1 (ex_id 9) 1 = Inr []" by blast
  then have left1: "versions_left db1" by (simp add: versions_left_def i64_max_def)
  have live: "\<not> is_tombstoned db1 (ex_id 9)"
    using abs1 by (auto simp: abs_of_def fun_eq_iff dest!: spec [of _ "ex_id 9"])
  have new: "ex_id 8 \<notin> op_id ` set [op1]" using log1(2) by (simp add: ex_id_def)
  obtain db2 op2 where d: "delete_item ex_hash ex_sign ex_vault ex_session ex_serde (ex_id 9) 10 (ex_id 8) 200 200 db1 = Inr db2"
    and log2: "ex_log 2 db2 [op1, op2]" "op_id op2 = ex_id 8"
    using ex_delete_item [OF log1(1) _ new ex_id_wf ex_id_wf _ live, where ret = 10 and now = 200 and op_now = 200] items(1)
    by (auto simp: numeral_2_eq_2 [symmetric])
  have ok2: "vault_ok ex_vault ex_serde db2" by (rule vault_ok_delete [OF d ok1])
  have "db_items db2 = db_items db1" using d by (rule delete_item_Inr) simp
  then have left2: "versions_left db2" using left1 by (simp add: versions_left_def)
  from delete_item_abs [OF d, of ex_vault] have
    abs2: "abs_of ex_vault ex_serde db2 = [ex_id 9 \<mapsto> ex_new\<lparr>ai_trashed := True\<rparr>]"
    by (simp add: abs1)
  have "read_version_plaintext ex_vault db2 (ex_id 9) 1 = read_version_plaintext ex_vault db1 (ex_id 9) 1"
    using d by (rule delete_item_Inr) (simp add: read_version_plaintext_def)
  then show thesis by (intro that [OF c d ok1 left1 ok2 left2 abs1 abs2 log2(1) log1(2) log2(2)]) (simp add: read1)
qed

lemma ex_run_untrash:
  assumes "abs_of ex_vault ex_serde db2 = [ex_id 9 \<mapsto> ex_new\<lparr>ai_trashed := True\<rparr>]"
    and "vault_ok ex_vault ex_serde db2" "versions_left db2" "ex_log 2 db2 [op1, op2]"
    "op_id op1 = ex_id 7" "op_id op2 = ex_id 8" "read_version_plaintext ex_vault db2 (ex_id 9) 1 = Inr []"
  obtains db3 v where "untrash_item ex_hash ex_sign ex_vault ex_session ex_serde (ex_id 9) (ex_id 6) 300 300 db2 = Inr (v, db3)"
    and "vault_ok ex_vault ex_serde db3"
    and "abs_of ex_vault ex_serde db3 = [ex_id 9 \<mapsto> \<lparr>ai_versions = [1 \<mapsto> ex_note, 2 \<mapsto> ex_note], ai_head = 2, ai_trashed = False\<rparr>]"
proof -
  have "abs_of ex_vault ex_serde db2 (ex_id 9) = Some (ex_new\<lparr>ai_trashed := True\<rparr>)" by (simp add: assms(1))
  then obtain row where row: "bt_get (db_items db2) (as_bytes (ex_id 9)) = Some row" "1 = ir_current_version row"
    and trashed: "is_tombstoned db2 (ex_id 9)"
    by (auto simp: abs_of_Some)
  have new: "ex_id 6 \<notin> op_id ` set [op1, op2]" using assms(5,6) by (simp add: ex_id_def)
  have "(2 :: nat) < 2 ^ 20" by simp
  from ex_untrash_item [OF assms(4) this new ex_id_wf assms(2,3) trashed assms(7) row, where now = 300 and op_now = 300] obtain db3 v where
    u: "untrash_item ex_hash ex_sign ex_vault ex_session ex_serde (ex_id 9) (ex_id 6) 300 300 db2 = Inr (v, db3)"
    by blast
  from untrash_item_abs [OF u assms(2,3) ex_draw] obtain it p where
    it: "abs_of ex_vault ex_serde db2 (ex_id 9) = Some it" "ai_versions it (ai_head it) = Some p"
      "abs_of ex_vault ex_serde db3 = (abs_of ex_vault ex_serde db2)(ex_id 9 \<mapsto> (ai_put p it)\<lparr>ai_trashed := False\<rparr>)"
    by blast
  then have "it = ex_new\<lparr>ai_trashed := True\<rparr>" by (simp add: assms(1))
  moreover from this it(2) have "p = ex_note" by simp
  ultimately have "abs_of ex_vault ex_serde db3 = [ex_id 9 \<mapsto> \<lparr>ai_versions = [1 \<mapsto> ex_note, 2 \<mapsto> ex_note], ai_head = 2, ai_trashed = False\<rparr>]"
    using it(3) by (simp add: assms(1) ai_put_def)
  with u vault_ok_untrash [OF u assms(2) ex_draw assms(3)] show thesis by (intro that)
qed

section \<open>Properties\<close>

text \<open>
  Claim C15. Creating and updating through the encrypted tables implements the
  abstract vault: a create adds an item that was not there, with the payload as version 1; an update
  of an item that is not in the trash appends the payload as its next version and moves the head
  to it; a delete moves a live item to the trash and changes nothing else. Earlier versions and
  other items keep their payloads.
\<close>

theorem writes_refine_vault:
  assumes "vault_ok env sd db" and "versions_left db" and "vault_draw env env'"
    and "\<forall>pt. to_canonical sd p = Inr pt \<longrightarrow> from_canonical sd pt = Inr p"
  shows "(create_item H ed_sign env' ses sd i oid now op_now p db = Inr (j, db1) \<longrightarrow>
      j = i \<and> abs_of env sd db i = None \<and>
      abs_of env sd db1 = (abs_of env sd db)(i \<mapsto> \<lparr>ai_versions = [1 \<mapsto> p], ai_head = 1, ai_trashed = False\<rparr>)) \<and>
    (update_item H ed_sign env' ses sd i oid now op_now p db = Inr (v, db2) \<longrightarrow>
      (\<exists>it. abs_of env sd db i = Some it \<and> \<not> ai_trashed it \<and> v = ai_head it + 1 \<and>
         abs_of env sd db2 = (abs_of env sd db)(i \<mapsto> ai_put p it))) \<and>
    (delete_item H ed_sign env' ses sd i retention oid now op_now db = Inr db3 \<longrightarrow>
      (\<exists>it. abs_of env sd db i = Some it \<and> \<not> ai_trashed it \<and>
         abs_of env sd db3 = (abs_of env sd db)(i \<mapsto> it\<lparr>ai_trashed := True\<rparr>)))"
proof (intro conjI impI)
  assume "update_item H ed_sign env' ses sd i oid now op_now p db = Inr (v, db2)"
  from update_item_abs [OF this assms]
  show "\<exists>it. abs_of env sd db i = Some it \<and> \<not> ai_trashed it \<and> v = ai_head it + 1 \<and>
         abs_of env sd db2 = (abs_of env sd db)(i \<mapsto> ai_put p it)" by blast
next
  assume "delete_item H ed_sign env' ses sd i retention oid now op_now db = Inr db3"
  from delete_item_abs [OF this, of env]
  show "\<exists>it. abs_of env sd db i = Some it \<and> \<not> ai_trashed it \<and>
         abs_of env sd db3 = (abs_of env sd db)(i \<mapsto> it\<lparr>ai_trashed := True\<rparr>)" by blast
next
  assume create: "create_item H ed_sign env' ses sd i oid now op_now p db = Inr (j, db1)"
  note abs = create_item_abs [OF create assms(1,3,4)]
  show "j = i" and "abs_of env sd db i = None" by (fact abs)+
  show "abs_of env sd db1 = (abs_of env sd db)(i \<mapsto> \<lparr>ai_versions = [1 \<mapsto> p], ai_head = 1, ai_trashed = False\<rparr>)"
    by (fact abs)
qed

lemma writes_refine_vault_witness:
  "\<exists>db1 db2. create_item ex_hash ex_sign ex_vault ex_session ex_serde (ex_id 9) (ex_id 7) 100 100 ex_note ex_empty = Inr (ex_id 9, db1) \<and>
     abs_of ex_vault ex_serde db1 = [ex_id 9 \<mapsto> \<lparr>ai_versions = [1 \<mapsto> ex_note], ai_head = 1, ai_trashed = False\<rparr>] \<and>
     delete_item ex_hash ex_sign ex_vault ex_session ex_serde (ex_id 9) 10 (ex_id 8) 200 200 db1 = Inr db2 \<and>
     abs_of ex_vault ex_serde db2 = [ex_id 9 \<mapsto> \<lparr>ai_versions = [1 \<mapsto> ex_note], ai_head = 1, ai_trashed = True\<rparr>]"
proof -
  obtain db1 db2 op1 op2 where
    c: "create_item ex_hash ex_sign ex_vault ex_session ex_serde (ex_id 9) (ex_id 7) 100 100 ex_note ex_empty = Inr (ex_id 9, db1)"
    and d: "delete_item ex_hash ex_sign ex_vault ex_session ex_serde (ex_id 9) 10 (ex_id 8) 200 200 db1 = Inr db2"
    and ok: "vault_ok ex_vault ex_serde db1" "versions_left db1"
    by (rule ex_run) blast
  have pay: "\<forall>pt. to_canonical ex_serde ex_note = Inr pt \<longrightarrow> from_canonical ex_serde pt = Inr ex_note" by simp
  have "abs_of ex_vault ex_serde ex_empty = Map.empty" by (simp add: fun_eq_iff abs_of_def ex_empty_def)
  then have "abs_of ex_vault ex_serde db1 = [ex_id 9 \<mapsto> ex_new]"
    using c writes_refine_vault [OF ex_vault_empty ex_draw pay] by fastforce
  moreover from this d have "abs_of ex_vault ex_serde db2 = [ex_id 9 \<mapsto> ex_new\<lparr>ai_trashed := True\<rparr>]"
    using writes_refine_vault [OF ok ex_draw pay] by fastforce
  ultimately show ?thesis using c d by auto
qed

text \<open>
  Claim C16. Restoring implements the abstract vault: \<open>restore_version\<close> appends
  the target version's payload as the next version of the item and takes it out of the trash;
  \<open>untrash_item\<close> does so for the head of an item in the trash. The version restored from stays.
\<close>

theorem restores_refine_vault:
  assumes "vault_ok env sd db" and "versions_left db" and "vault_draw env env'"
  shows "(restore_version H ed_sign env' ses sd i target oid now op_now db = Inr (v, db1) \<longrightarrow>
      (\<exists>it p. abs_of env sd db i = Some it \<and> ai_versions it target = Some p \<and> v = ai_head it + 1 \<and>
         abs_of env sd db1 = (abs_of env sd db)(i \<mapsto> (ai_put p it)\<lparr>ai_trashed := False\<rparr>))) \<and>
    (untrash_item H ed_sign env' ses sd i oid now op_now db = Inr (v, db2) \<longrightarrow>
      (\<exists>it p. abs_of env sd db i = Some it \<and> ai_trashed it \<and> ai_versions it (ai_head it) = Some p \<and>
         v = ai_head it + 1 \<and> abs_of env sd db2 = (abs_of env sd db)(i \<mapsto> (ai_put p it)\<lparr>ai_trashed := False\<rparr>)))"
proof (intro conjI impI)
  assume "restore_version H ed_sign env' ses sd i target oid now op_now db = Inr (v, db1)"
  from restore_version_abs [OF this assms]
  show "\<exists>it p. abs_of env sd db i = Some it \<and> ai_versions it target = Some p \<and> v = ai_head it + 1 \<and>
         abs_of env sd db1 = (abs_of env sd db)(i \<mapsto> (ai_put p it)\<lparr>ai_trashed := False\<rparr>)" by blast
next
  assume "untrash_item H ed_sign env' ses sd i oid now op_now db = Inr (v, db2)"
  from untrash_item_abs [OF this assms]
  show "\<exists>it p. abs_of env sd db i = Some it \<and> ai_trashed it \<and> ai_versions it (ai_head it) = Some p \<and>
         v = ai_head it + 1 \<and> abs_of env sd db2 = (abs_of env sd db)(i \<mapsto> (ai_put p it)\<lparr>ai_trashed := False\<rparr>)" by blast
qed

lemma restores_refine_vault_witness:
  "\<exists>db2 db3. abs_of ex_vault ex_serde db2 = [ex_id 9 \<mapsto> \<lparr>ai_versions = [1 \<mapsto> ex_note], ai_head = 1, ai_trashed = True\<rparr>] \<and>
     untrash_item ex_hash ex_sign ex_vault ex_session ex_serde (ex_id 9) (ex_id 6) 300 300 db2 = Inr (2, db3) \<and>
     abs_of ex_vault ex_serde db3 = [ex_id 9 \<mapsto> \<lparr>ai_versions = [1 \<mapsto> ex_note, 2 \<mapsto> ex_note], ai_head = 2, ai_trashed = False\<rparr>]"
proof (rule ex_run)
  fix db2 op1 op2
  assume abs: "abs_of ex_vault ex_serde db2 = [ex_id 9 \<mapsto> ex_new\<lparr>ai_trashed := True\<rparr>]"
    and ok: "vault_ok ex_vault ex_serde db2" "versions_left db2"
    and log: "ex_log 2 db2 [op1, op2]" "op_id op1 = ex_id 7" "op_id op2 = ex_id 8"
      "read_version_plaintext ex_vault db2 (ex_id 9) 1 = Inr []"
  obtain db3 v where u: "untrash_item ex_hash ex_sign ex_vault ex_session ex_serde (ex_id 9) (ex_id 6) 300 300 db2 = Inr (v, db3)"
    by (rule ex_run_untrash [OF abs ok log])
  then obtain it p where it: "abs_of ex_vault ex_serde db2 (ex_id 9) = Some it" "ai_versions it (ai_head it) = Some p"
      "v = ai_head it + 1"
      "abs_of ex_vault ex_serde db3 = (abs_of ex_vault ex_serde db2)(ex_id 9 \<mapsto> (ai_put p it)\<lparr>ai_trashed := False\<rparr>)"
    using restores_refine_vault [OF ok ex_draw] by metis
  then have "it = ex_new\<lparr>ai_trashed := True\<rparr>" and "p = ex_note" by (auto simp: abs)
  with it u abs show ?thesis by (intro exI [of _ db2] exI [of _ db3]) (simp add: ai_put_def)
qed

text \<open>
  Claim C17. Reads show the abstract vault: \<open>get_item\<close> returns the head payload of
  an item that is not in the trash, \<open>get_trashed_item\<close> that of one that is, \<open>get_item_version\<close> any
  version's, and each returns nothing else.
\<close>

theorem reads_refine_vault:
  "((\<exists>x. get_item env sd db i = Inr x \<and> it_current_version x = n \<and> it_payload x = p) \<longleftrightarrow>
      (\<exists>it. abs_of env sd db i = Some it \<and> \<not> ai_trashed it \<and> ai_head it = n \<and> ai_versions it n = Some p)) \<and>
   ((\<exists>x. get_trashed_item env sd db i = Inr x \<and> it_current_version x = n \<and> it_payload x = p) \<longleftrightarrow>
      (\<exists>it. abs_of env sd db i = Some it \<and> ai_trashed it \<and> ai_head it = n \<and> ai_versions it n = Some p)) \<and>
   (abs_of env sd db i = Some it \<longrightarrow>
      (\<exists>x. get_item_version env sd db i n = Inr x \<and> vi_version x = n \<and> vi_payload x = p) =
      (ai_versions it n = Some p))"
  unfolding get_item_abs get_trashed_item_abs get_item_version_abs by (auto simp: abs_of_Some)

lemma reads_refine_vault_witness:
  "\<exists>db1 x. create_item ex_hash ex_sign ex_vault ex_session ex_serde (ex_id 9) (ex_id 7) 100 100 ex_note ex_empty = Inr (ex_id 9, db1) \<and>
     get_item ex_vault ex_serde db1 (ex_id 9) = Inr x \<and> it_current_version x = 1 \<and> it_payload x = ex_note"
proof (rule ex_run)
  fix db1
  assume c: "create_item ex_hash ex_sign ex_vault ex_session ex_serde (ex_id 9) (ex_id 7) 100 100 ex_note ex_empty = Inr (ex_id 9, db1)"
    and "abs_of ex_vault ex_serde db1 = [ex_id 9 \<mapsto> ex_new]"
  then have "\<exists>it. abs_of ex_vault ex_serde db1 (ex_id 9) = Some it \<and> \<not> ai_trashed it \<and> ai_head it = 1 \<and> ai_versions it 1 = Some ex_note"
    by simp
  with c show ?thesis using reads_refine_vault [of ex_vault ex_serde db1 "ex_id 9" 1 ex_note ex_new] by blast
qed

text \<open>
  Deleting an item and taking it back loses nothing: in between
  \<open>get_item\<close> fails, the payload is still readable from the trash, and updating or deleting it again
  is refused; afterwards \<open>get_item\<close> returns the payload the item had, as its next version, and every
  earlier version reads as before.
\<close>

theorem trash_roundtrip:
  assumes "delete_item H ed_sign env' ses sd i retention oid now op_now db = Inr db1"
    and "untrash_item H ed_sign' env'' ses sd i oid' now' op_now' db1 = Inr (v, db2)"
    and "vault_ok env sd db" and "versions_left db" and "vault_draw env env''"
    and "get_item env sd db i = Inr x"
  shows "get_item env sd db1 i = Inl (NotFoundEntity ''item (deleted)'') \<and>
    (\<exists>y. get_trashed_item env sd db1 i = Inr y \<and> it_payload y = it_payload x) \<and>
    update_item H ed_sign env' ses sd i oid now op_now p db1 = Inl (VaultInvalid ''cannot update a deleted item'') \<and>
    delete_item H ed_sign env' ses sd i retention oid now op_now db1 = Inl (VaultInvalid ''item already deleted'') \<and>
    v = it_current_version x + 1 \<and>
    (\<exists>z. get_item env sd db2 i = Inr z \<and> it_payload z = it_payload x \<and> it_current_version z = v) \<and>
    (\<forall>n. n \<noteq> v \<longrightarrow> version_payload env sd db2 i n = version_payload env sd db i n)"
proof -
  have ok1: "vault_ok env sd db1" by (rule vault_ok_delete [OF assms(1,3)])
  have rows: "db_items db1 = db_items db" using assms(1) by (rule delete_item_Inr) simp
  then have left1: "versions_left db1" using assms(4) by (simp add: versions_left_def)
  obtain it where it: "abs_of env sd db i = Some it" "\<not> ai_trashed it"
    and abs1: "abs_of env sd db1 = (abs_of env sd db)(i \<mapsto> it\<lparr>ai_trashed := True\<rparr>)"
    using delete_item_abs [OF assms(1)] by blast
  obtain it1 p1 where it1: "abs_of env sd db1 i = Some it1" "ai_versions it1 (ai_head it1) = Some p1" "v = ai_head it1 + 1"
    and abs2: "abs_of env sd db2 = (abs_of env sd db1)(i \<mapsto> (ai_put p1 it1)\<lparr>ai_trashed := False\<rparr>)"
    using untrash_item_abs [OF assms(2) ok1 left1 assms(5)] by blast
  have x: "ai_head it = it_current_version x" "ai_versions it (ai_head it) = Some (it_payload x)"
    using get_item_abs [of env sd db i "it_current_version x" "it_payload x"] assms(6) it by auto
  have it1': "it1 = it\<lparr>ai_trashed := True\<rparr>" "p1 = it_payload x" using it1(1,2) x(2) by (auto simp: abs1)
  have trash: "is_tombstoned db1 i" using abs_of_sel(2) [OF it1(1)] it1'(1) by simp
  have row: "bt_get (db_items db1) (as_bytes i) \<noteq> None" using it1(1) by (auto simp: abs_of_Some)
  have "\<exists>y. get_trashed_item env sd db1 i = Inr y \<and> it_current_version y = ai_head it \<and> it_payload y = it_payload x"
    unfolding get_trashed_item_abs using it1(1) it1'(1) x by auto
  moreover have "\<exists>z. get_item env sd db2 i = Inr z \<and> it_current_version z = v \<and> it_payload z = it_payload x"
    unfolding get_item_abs using it1(3) it1' x by (simp add: abs2 ai_put_def)
  moreover have "\<forall>n. n \<noteq> v \<longrightarrow> version_payload env sd db2 i n = version_payload env sd db i n"
  proof -
    have "abs_of env sd db2 i = Some ((ai_put p1 it1)\<lparr>ai_trashed := False\<rparr>)" by (simp add: abs2)
    then have "version_payload env sd db2 i = (ai_versions it)(v \<mapsto> p1)"
      using abs_of_sel(1) it1(3) by (fastforce simp: ai_put_def it1'(1))
    then show ?thesis by (simp add: abs_of_sel(1) [OF it(1)])
  qed
  ultimately show ?thesis
    using trash row it1(3) it1'(1) x(1)
    by (auto simp: get_item_def update_item_def delete_item_def)
qed

lemma trash_roundtrip_witness:
  "\<exists>db1 db2 v db3 z. delete_item ex_hash ex_sign ex_vault ex_session ex_serde (ex_id 9) 10 (ex_id 8) 200 200 db1 = Inr db2 \<and>
     untrash_item ex_hash ex_sign ex_vault ex_session ex_serde (ex_id 9) (ex_id 6) 300 300 db2 = Inr (v, db3) \<and>
     get_item ex_vault ex_serde db2 (ex_id 9) = Inl (NotFoundEntity ''item (deleted)'') \<and>
     get_item ex_vault ex_serde db3 (ex_id 9) = Inr z \<and> it_payload z = ex_note \<and> it_current_version z = 2"
proof (rule ex_run)
  fix db1 db2 op1 op2
  assume d: "delete_item ex_hash ex_sign ex_vault ex_session ex_serde (ex_id 9) 10 (ex_id 8) 200 200 db1 = Inr db2"
    and ok1: "vault_ok ex_vault ex_serde db1" "versions_left db1"
    and abs1: "abs_of ex_vault ex_serde db1 = [ex_id 9 \<mapsto> ex_new]"
    and abs: "abs_of ex_vault ex_serde db2 = [ex_id 9 \<mapsto> ex_new\<lparr>ai_trashed := True\<rparr>]"
    and ok: "vault_ok ex_vault ex_serde db2" "versions_left db2"
    and log: "ex_log 2 db2 [op1, op2]" "op_id op1 = ex_id 7" "op_id op2 = ex_id 8"
      "read_version_plaintext ex_vault db2 (ex_id 9) 1 = Inr []"
  obtain db3 v where u: "untrash_item ex_hash ex_sign ex_vault ex_session ex_serde (ex_id 9) (ex_id 6) 300 300 db2 = Inr (v, db3)"
    by (rule ex_run_untrash [OF abs ok log])
  have "\<exists>x. get_item ex_vault ex_serde db1 (ex_id 9) = Inr x \<and> it_current_version x = 1 \<and> it_payload x = ex_note"
    unfolding get_item_abs by (simp add: abs1)
  then obtain x where x: "get_item ex_vault ex_serde db1 (ex_id 9) = Inr x" "it_current_version x = 1" "it_payload x = ex_note"
    by blast
  with trash_roundtrip [OF d u ok1 ex_draw x(1)] d u show ?thesis by (metis one_add_one)
qed

text \<open>
  Claim C18. From a well-formed vault file, after any sequence of creates,
  updates, deletes, restores, purges, prunes, folder changes and merges of foreign ops: the tables
  still fit together, the op log only grew at its end, every item and its whole history decrypt
  and parse, and listing the live items succeeds.
\<close>

theorem vault_stays_readable:
  assumes "(vault_step H ed_sign env ses sd)\<^sup>*\<^sup>* db db'" and "vault_ok env sd db" and "serde_reads sd"
  shows "vault_ok env sd db' \<and> (\<exists>new. db_ops db' = db_ops db @ new) \<and> is_ok (iter_items env sd db') \<and>
    (\<forall>i. bt_get (db_items db') (as_bytes i) \<noteq> None \<longrightarrow>
       is_ok (read_item env sd db' i) \<and> is_ok (history env sd db' i))"
proof -
  have "vault_ok env sd db' \<and> (\<exists>new. db_ops db' = db_ops db @ new)"
    using assms(1)
  proof (induction rule: rtranclp_induct)
    case base
    then show ?case using assms(2) by simp
  next
    case (step db1 db2)
    then show ?case
      using vault_step_ok [OF step.hyps(2) _ assms(3)] vault_step_log [OF step.hyps(2)] by auto
  qed
  then show ?thesis using iter_items_ok read_item_ok history_ok by blast
qed

lemma vault_stays_readable_witness:
  "\<exists>db2 db3 v. untrash_item ex_hash ex_sign ex_vault ex_session ex_serde (ex_id 9) (ex_id 6) 300 300 db2 = Inr (v, db3) \<and>
     vault_ok ex_vault ex_serde db3 \<and> is_ok (history ex_vault ex_serde db3 (ex_id 9)) \<and> is_ok (iter_items ex_vault ex_serde db3)"
proof (rule ex_run)
  fix db1 db2 op1 op2
  assume c: "create_item ex_hash ex_sign ex_vault ex_session ex_serde (ex_id 9) (ex_id 7) 100 100 ex_note ex_empty = Inr (ex_id 9, db1)"
    and d: "delete_item ex_hash ex_sign ex_vault ex_session ex_serde (ex_id 9) 10 (ex_id 8) 200 200 db1 = Inr db2"
    and abs: "abs_of ex_vault ex_serde db2 = [ex_id 9 \<mapsto> ex_new\<lparr>ai_trashed := True\<rparr>]"
    and ok: "vault_ok ex_vault ex_serde db2" "versions_left db2"
    and log: "ex_log 2 db2 [op1, op2]" "op_id op1 = ex_id 7" "op_id op2 = ex_id 8"
      "read_version_plaintext ex_vault db2 (ex_id 9) 1 = Inr []"
  obtain db3 v where u: "untrash_item ex_hash ex_sign ex_vault ex_session ex_serde (ex_id 9) (ex_id 6) 300 300 db2 = Inr (v, db3)"
    by (rule ex_run_untrash [OF abs ok log])
  let ?step = "vault_step ex_hash ex_sign ex_vault ex_session ex_serde"
  have "?step ex_empty db1" by (rule step_create [OF ex_draw ex_id_wf c])
  moreover have "?step db1 db2" by (rule step_delete [OF ex_draw d])
  moreover have "?step db2 db3" by (rule step_untrash [OF ex_draw ok(2) u])
  ultimately have "?step\<^sup>*\<^sup>* ex_empty db3" by simp
  from vault_stays_readable [OF this ex_vault_empty(1) ex_serde_reads]
  have "vault_ok ex_vault ex_serde db3" "is_ok (iter_items ex_vault ex_serde db3)"
    "\<forall>i. bt_get (db_items db3) (as_bytes i) \<noteq> None \<longrightarrow> is_ok (history ex_vault ex_serde db3 i)" by blast+
  moreover have "bt_get (db_items db3) (as_bytes (ex_id 9)) \<noteq> None"
    using untrash_item_abs [OF u ok ex_draw] by (metis abs_of_Some fun_upd_same option.distinct(1))
  ultimately show ?thesis using u by blast
qed

end
