(* ===== verification/Prune.thy ===== *)
theory Prune
  imports ItemSpec
begin

text \<open>
  What pruning and purging remove (\<open>prune_versions\<close> and \<open>purge_expired_trash\<close> of \<open>vault.rs\<close>): which
  version rows go, that nothing else does, and that the report counts them.
\<close>

section \<open>The rows of one item\<close>

text \<open>The versions the loop drops, with their sizes, from the rank it has reached.\<close>

fun dropped :: "int \<Rightarrow> int option \<Rightarrow> int \<Rightarrow> int \<Rightarrow> (int \<times> nat \<times> int) list \<Rightarrow> (int \<times> nat) list" where
  "dropped keep cutoff current rank [] = []"
| "dropped keep cutoff current rank ((v, b, c) # rows) =
     (if v = current then dropped keep cutoff current rank rows
      else if rank < keep \<or> (\<exists>t. cutoff = Some t \<and> t \<le> c) then dropped keep cutoff current (rank + 1) rows
      else (v, b) # dropped keep cutoff current (rank + 1) rows)"

lemma prune_version_step:
  "prune_version keep cutoff k current (v, b, c) st =
     (if v = current then st
      else if ps_rank st < keep \<or> (\<exists>t. cutoff = Some t \<and> t \<le> c) then st\<lparr>ps_rank := ps_rank st + 1\<rparr>
      else st\<lparr>ps_rank := ps_rank st + 1, ps_removed := ps_removed st + 1, ps_bytes := ps_bytes st + b,
              ps_db := delete_version k v (ps_db st)\<rparr>)"
  by (auto simp: prune_version_def Let_def split: option.splits)

lemma prune_fold:
  "ps_db (fold (prune_version keep cutoff k current) rows st) =
     fold (\<lambda>vb. delete_version k (fst vb)) (dropped keep cutoff current (ps_rank st) rows) (ps_db st)"
  "ps_removed (fold (prune_version keep cutoff k current) rows st) =
     ps_removed st + length (dropped keep cutoff current (ps_rank st) rows)"
  "ps_bytes (fold (prune_version keep cutoff k current) rows st) =
     ps_bytes st + sum_list (map snd (dropped keep cutoff current (ps_rank st) rows))"
  by (induction rows arbitrary: st) (auto simp: prune_version_step)

lemma fold_delete_version:
  "bt_get (db_versions (fold (\<lambda>vb. delete_version k (fst vb)) vbs db)) (k', v) =
     (if k' = k \<and> v \<in> fst ` set vbs then None else bt_get (db_versions db) (k', v))"
  "bt_get (db_wrapped_keys (fold (\<lambda>vb. delete_version k (fst vb)) vbs db)) (k', v) =
     (if k' = k \<and> v \<in> fst ` set vbs then None else bt_get (db_wrapped_keys db) (k', v))"
  by (induction vbs arbitrary: db) (auto simp: delete_version_def bt_get_delete_where)

text \<open>Deleting a row that is there shortens the table by one.\<close>

lemma length_delete_row:
  assumes "distinct (map fst m)" and "k \<in> fst ` set m"
  shows "Suc (length (bt_delete_where (\<lambda>x. x = k) m)) = length m"
  using assms
proof (induction m)
  case (Cons kv m)
  show ?case
  proof (cases "fst kv = k")
    case True
    with Cons.prems(1) have "k \<notin> fst ` set m" by auto
    then have "filter (\<lambda>x. fst x \<noteq> k) m = m" by (force simp: filter_id_conv)
    with True show ?thesis by (simp add: bt_delete_where_def)
  qed (use Cons in \<open>simp add: bt_delete_where_def\<close>)
qed simp

lemma length_fold_delete:
  assumes "bt_wf (db_versions db)" and "distinct (map fst vbs)"
    and "\<forall>vb\<in>set vbs. bt_get (db_versions db) (k, fst vb) \<noteq> None"
  shows "length (db_versions (fold (\<lambda>vb. delete_version k (fst vb)) vbs db)) + length vbs = length (db_versions db)"
  using assms
proof (induction vbs arbitrary: db)
  case (Cons vb vbs)
  let ?db = "delete_version k (fst vb) db"
  have wf: "bt_wf (db_versions ?db)" using Cons.prems(1) by (simp add: delete_version_def)
  have "\<forall>x\<in>set vbs. fst x \<noteq> fst vb" using Cons.prems(2) by (auto simp: image_iff)
  then have rest: "\<forall>x\<in>set vbs. bt_get (db_versions ?db) (k, fst x) \<noteq> None"
    using Cons.prems(3) by (simp add: delete_version_def bt_get_delete_where)
  have "(k, fst vb) \<in> fst ` set (db_versions db)"
    using Cons.prems(3) by (simp add: map_of_eq_None_iff)
  then have "Suc (length (db_versions ?db)) = length (db_versions db)"
    using Cons.prems(1) by (simp add: delete_version_def length_delete_row bt_wf_distinct)
  with Cons.IH [OF wf _ rest] Cons.prems(2) show ?case by simp
qed simp

section \<open>Which versions go\<close>

text \<open>
  A version row goes when it is not current, at least \<open>keep\<close> newer past versions of the item are
  held, and it is not as young as the cutoff.
\<close>

definition prunable :: "int \<Rightarrow> int option \<Rightarrow> 'x vault_db \<Rightarrow> bytes \<Rightarrow> int \<Rightarrow> int \<Rightarrow> iv_row \<Rightarrow> bool" where
  "prunable keep cutoff db k current v r \<longleftrightarrow> v \<noteq> current \<and>
     keep \<le> int (card {w. v < w \<and> w \<noteq> current \<and> bt_get (db_versions db) (k, w) \<noteq> None}) \<and>
     (case cutoff of None \<Rightarrow> True | Some t \<Rightarrow> iv_created_at r < t)"

lemma dropped_mem:
  assumes "sorted_wrt (\<lambda>x y. fst x > fst y) rows"
  shows "(v, b) \<in> set (dropped keep cutoff current rank rows) \<longleftrightarrow>
    (\<exists>c. (v, b, c) \<in> set rows \<and> v \<noteq> current \<and>
      keep \<le> rank + int (card {w \<in> fst ` set rows. v < w \<and> w \<noteq> current}) \<and> \<not> (\<exists>t. cutoff = Some t \<and> t \<le> c))"
  using assms
proof (induction rows arbitrary: rank)
  case (Cons r rows)
  obtain v0 b0 c0 where r: "r = (v0, b0, c0)" by (cases r)
  have less: "\<forall>x\<in>set rows. fst x < v0" using Cons.prems r by simp
  have IH: "(v, b) \<in> set (dropped keep cutoff current rk rows) \<longleftrightarrow>
      (\<exists>c. (v, b, c) \<in> set rows \<and> v \<noteq> current \<and>
        keep \<le> rk + int (card {w \<in> fst ` set rows. v < w \<and> w \<noteq> current}) \<and> \<not> (\<exists>t. cutoff = Some t \<and> t \<le> c))" for rk
    using Cons.IH [of rk] Cons.prems by simp
  have fst_less: "v < v0" if "(v, b, c) \<in> set rows" for c using less that by force
  have split: "{w \<in> fst ` set (r # rows). v < w \<and> w \<noteq> current} =
      (if v < v0 \<and> v0 \<noteq> current then insert v0 {w \<in> fst ` set rows. v < w \<and> w \<noteq> current}
       else {w \<in> fst ` set rows. v < w \<and> w \<noteq> current})"
    by (auto simp: r)
  have "v0 \<notin> {w \<in> fst ` set rows. v < w \<and> w \<noteq> current}" using less by auto
  then have card: "card (insert v0 {w \<in> fst ` set rows. v < w \<and> w \<noteq> current}) =
      Suc (card {w \<in> fst ` set rows. v < w \<and> w \<noteq> current})"
    by (intro card_insert_disjoint) auto
  show ?case
  proof (cases "v = v0")
    case True
    then have absent: "(v, b, c) \<notin> set rows" for c using fst_less by auto
    then have "(v, b) \<notin> set (dropped keep cutoff current rk rows)" for rk by (simp add: IH)
    moreover have "{w. (w = v \<or> w \<in> fst ` set rows) \<and> v < w \<and> w \<noteq> current} = {}"
      using True less by auto
    then have newer: "card {w. (w = v \<or> w \<in> fst ` set rows) \<and> v < w \<and> w \<noteq> current} = 0" by (simp only: card.empty)
    ultimately show ?thesis
      using absent by (cases cutoff) (auto simp: r True [symmetric] newer)
  next
    case False
    show ?thesis
      using False fst_less unfolding split by (auto simp: r IH card)
  qed
qed simp

lemma dropped_distinct:
  "sorted_wrt (\<lambda>x y. fst x > fst y) rows \<Longrightarrow> distinct (map fst (dropped keep cutoff current rank rows))"
proof (induction keep cutoff current rank rows rule: dropped.induct)
  case (2 keep cutoff current rank v b c rows)
  have "v \<notin> fst ` set (dropped keep cutoff current (rank + 1) rows)"
    using 2(4) by (force simp: dropped_mem)
  with 2 show ?case by auto
qed simp

section \<open>One item and all of them\<close>

lemma item_version_rows_mem:
  "bt_wf (db_versions db) \<Longrightarrow> (v, r) \<in> set (item_version_rows db k) \<longleftrightarrow> bt_get (db_versions db) (k, v) = Some r"
  by (auto simp: item_version_rows_def bt_wf_distinct intro: rev_image_eqI)

lemma item_version_rows_sorted:
  assumes "bt_wf (db_versions db)"
  shows "sorted_wrt (\<lambda>x y. fst x < fst y) (item_version_rows db k)"
proof -
  have "sorted_wrt (\<lambda>x y. fst x < fst y) (map (\<lambda>(kv, row). (snd kv, row)) (filter (\<lambda>(kv, row). fst kv = k) m))"
    if "sorted_wrt (<) (map fst m)" for m :: "((bytes \<times> int) \<times> iv_row) list"
    using that by (induction m) (auto simp: less_prod_simp split: prod.splits)
  then show ?thesis using assms by (simp add: bt_wf_def item_version_rows_def)
qed

definition row_size :: "'x vault_db \<Rightarrow> bytes \<Rightarrow> int \<Rightarrow> iv_row \<Rightarrow> nat" where
  "row_size db k v r = length (iv_payload_env r) +
     (case bt_get (db_wrapped_keys db) (k, v) of None \<Rightarrow> 0 | Some env \<Rightarrow> length env)"

lemma prune_rows_mem:
  "bt_wf (db_versions db) \<Longrightarrow> (v, b, c) \<in> set (prune_rows db k) \<longleftrightarrow>
     (\<exists>r. bt_get (db_versions db) (k, v) = Some r \<and> c = iv_created_at r \<and> b = row_size db k v r)"
  by (auto simp: prune_rows_def row_size_def item_version_rows_mem [symmetric] image_iff split: prod.splits)

lemma prune_rows_sorted:
  assumes "bt_wf (db_versions db)"
  shows "sorted_wrt (\<lambda>x y. fst x > fst y) (prune_rows db k)"
  using item_version_rows_sorted [OF assms, of k]
  by (simp add: prune_rows_def sorted_wrt_map sorted_wrt_rev case_prod_unfold)

definition pruned_row :: "int \<Rightarrow> int option \<Rightarrow> 'x vault_db \<Rightarrow> bytes \<Rightarrow> int \<Rightarrow> int \<Rightarrow> bool" where
  "pruned_row keep cutoff db k current v \<longleftrightarrow>
     (\<exists>r. bt_get (db_versions db) (k, v) = Some r \<and> prunable keep cutoff db k current v r)"

lemma dropped_versions:
  assumes "bt_wf (db_versions db)"
  shows "v \<in> fst ` set (dropped keep cutoff current 0 (prune_rows db k)) \<longleftrightarrow> pruned_row keep cutoff db k current v"
proof -
  have "fst ` set (prune_rows db k) = {w. bt_get (db_versions db) (k, w) \<noteq> None}"
    using prune_rows_mem [OF assms, of _ _ _ k] by (force simp: image_iff)
  then have newer: "{w \<in> fst ` set (prune_rows db k). v < w \<and> w \<noteq> current} =
      {w. v < w \<and> w \<noteq> current \<and> bt_get (db_versions db) (k, w) \<noteq> None}" by auto
  have "v \<in> fst ` set (dropped keep cutoff current 0 (prune_rows db k)) \<longleftrightarrow>
      (\<exists>b. (v, b) \<in> set (dropped keep cutoff current 0 (prune_rows db k)))" by force
  also have "\<dots> \<longleftrightarrow> pruned_row keep cutoff db k current v"
    unfolding dropped_mem [OF prune_rows_sorted [OF assms]] newer prune_rows_mem [OF assms] pruned_row_def prunable_def
    by (cases cutoff) (auto simp: not_le)
  finally show ?thesis .
qed

lemma prune_item_Inr:
  assumes "prune_item keep cutoff (k, row) (rep, db) = Inr (rep', db')" and "bt_wf (db_versions db)"
  shows "bt_get (db_versions db') (k', v) =
      (if k' = k \<and> pruned_row keep cutoff db k (ir_current_version row) v then None else bt_get (db_versions db) (k', v))"
    and "bt_get (db_wrapped_keys db') (k', v) =
      (if k' = k \<and> pruned_row keep cutoff db k (ir_current_version row) v then None else bt_get (db_wrapped_keys db) (k', v))"
    and "pr_versions_removed rep' + length (db_versions db') = pr_versions_removed rep + length (db_versions db)"
    and "bt_wf (db_versions db')"
proof -
  let ?vbs = "dropped keep cutoff (ir_current_version row) 0 (prune_rows db k)"
  have db': "db' = fold (\<lambda>vb. delete_version k (fst vb)) ?vbs db"
    and rep': "pr_versions_removed rep' = pr_versions_removed rep + length ?vbs"
    using assms(1) by (auto simp: prune_item_def Let_def prune_fold bind_ok_Inr_iff split: if_splits)
  show "bt_get (db_versions db') (k', v) =
      (if k' = k \<and> pruned_row keep cutoff db k (ir_current_version row) v then None else bt_get (db_versions db) (k', v))"
    and "bt_get (db_wrapped_keys db') (k', v) =
      (if k' = k \<and> pruned_row keep cutoff db k (ir_current_version row) v then None else bt_get (db_wrapped_keys db) (k', v))"
    by (simp_all add: db' fold_delete_version dropped_versions [OF assms(2)])
  have "\<forall>vb\<in>set ?vbs. bt_get (db_versions db) (k, fst vb) \<noteq> None"
  proof
    fix vb
    assume "vb \<in> set ?vbs"
    then have "fst vb \<in> fst ` set ?vbs" by simp
    then show "bt_get (db_versions db) (k, fst vb) \<noteq> None"
      unfolding dropped_versions [OF assms(2)] by (auto simp: pruned_row_def)
  qed
  from length_fold_delete [OF assms(2) dropped_distinct [OF prune_rows_sorted [OF assms(2)]] this]
  show "pr_versions_removed rep' + length (db_versions db') = pr_versions_removed rep + length (db_versions db)"
    by (simp add: db' rep')
  have "bt_wf (db_versions (fold (\<lambda>vb. delete_version k (fst vb)) vbs db))" for vbs
    using assms(2) by (induction vbs arbitrary: db) (simp_all add: delete_version_def)
  then show "bt_wf (db_versions db')" by (simp add: db')
qed

text \<open>Pruning one item leaves the others' rows, so each is judged by the rows it started with.\<close>

lemma prune_items_Inr:
  assumes "fold_ok (prune_item keep cutoff) krs (rep, db) = Inr (rep', db')" and "bt_wf (db_versions db)"
    and "distinct (map fst krs)"
  shows "(\<forall>k v. bt_get (db_versions db') (k, v) =
      (if \<exists>row. map_of krs k = Some row \<and> pruned_row keep cutoff db k (ir_current_version row) v
       then None else bt_get (db_versions db) (k, v))) \<and>
    (\<forall>k v. bt_get (db_wrapped_keys db') (k, v) =
      (if \<exists>row. map_of krs k = Some row \<and> pruned_row keep cutoff db k (ir_current_version row) v
       then None else bt_get (db_wrapped_keys db) (k, v))) \<and>
    pr_versions_removed rep' + length (db_versions db') = pr_versions_removed rep + length (db_versions db)"
  using assms
proof (induction krs arbitrary: rep db)
  case (Cons kr krs)
  obtain k0 row0 where kr: "kr = (k0, row0)" by (cases kr)
  obtain rep1 db1 where step: "prune_item keep cutoff (k0, row0) (rep, db) = Inr (rep1, db1)"
    and rest: "fold_ok (prune_item keep cutoff) krs (rep1, db1) = Inr (rep', db')"
    using Cons.prems(1) by (auto simp: kr bind_ok_Inr_iff)
  note one = prune_item_Inr [OF step Cons.prems(2)]
  have notin: "map_of krs k0 = None" using Cons.prems(3) by (simp add: kr map_of_eq_None_iff)
  have same: "pruned_row keep cutoff db1 k c v = pruned_row keep cutoff db k c v" if "k \<noteq> k0" for k c v
    using that by (simp add: pruned_row_def prunable_def one(1))
  show ?case
    using Cons.IH [OF rest one(4)] Cons.prems(3) notin one(1-3) same
    by (auto simp: kr)
qed simp

lemma prune_items_ok:
  "\<forall>(k, row)\<in>set krs. length k = 16 \<Longrightarrow> is_ok (fold_ok (prune_item keep cutoff) krs acc)"
proof (induction krs arbitrary: acc)
  case (Cons kr krs)
  have "is_ok (prune_item keep cutoff kr acc)"
    using Cons.prems by (cases kr; cases acc) (auto simp: prune_item_def Let_def id_from_slice_def)
  with Cons show ?case by (auto simp: is_ok_iff)
qed simp

lemma prune_ok: "vault_ok env sd db \<Longrightarrow> is_ok (prune_versions_impl keep cutoff commit db)"
proof -
  assume "vault_ok env sd db"
  then have tf: "tables_fit db" by (simp add: vault_ok_def)
  then have "\<forall>(k, row)\<in>set (db_items db). length k = 16"
    using tables_fitD(3) [OF tf] by (auto simp: tables_fit_def bt_wf_distinct)
  from prune_items_ok [OF this] show ?thesis
    unfolding prune_versions_impl_def by (smt (verit) bind_ok_simps(2) is_ok_iff is_ok_simps(2) case_prod_unfold)
qed

section \<open>Purging\<close>

definition expired :: "int \<Rightarrow> 'x vault_db \<Rightarrow> bytes \<Rightarrow> bool" where
  "expired now db k \<longleftrightarrow> (\<exists>t. bt_get (db_tombstones db) k = Some t \<and> tr_purge_after t \<le> now)"

lemma fold_shred:
  "bt_get (db_items (fold shred ks db)) k = (if k \<in> set ks then None else bt_get (db_items db) k)"
  "bt_get (db_tombstones (fold shred ks db)) k = (if k \<in> set ks then None else bt_get (db_tombstones db) k)"
  "bt_get (db_versions (fold shred ks db)) (k, v) = (if k \<in> set ks then None else bt_get (db_versions db) (k, v))"
  "bt_get (db_wrapped_keys (fold shred ks db)) (k, v) = (if k \<in> set ks then None else bt_get (db_wrapped_keys db) (k, v))"
  by (induction ks arbitrary: db) (auto simp: shred_def bt_get_delete_where)

lemma expired_keys:
  assumes "bt_wf (db_tombstones db)"
  shows "set (map fst (filter (\<lambda>(k, row). tr_purge_after row \<le> now) (db_tombstones db))) = {k. expired now db k}"
    and "distinct (map fst (filter (\<lambda>(k, row). tr_purge_after row \<le> now) (db_tombstones db)))"
proof -
  have d: "distinct (map fst (db_tombstones db))" by (rule bt_wf_distinct [OF assms])
  then show "set (map fst (filter (\<lambda>(k, row). tr_purge_after row \<le> now) (db_tombstones db))) = {k. expired now db k}"
    by (force simp: expired_def)
  show "distinct (map fst (filter (\<lambda>(k, row). tr_purge_after row \<le> now) (db_tombstones db)))"
    using d by (rule distinct_map_filter)
qed

section \<open>Properties\<close>

text \<open>
  Pruning removes exactly the past versions it may: a version stays when it is
  the current one, when fewer than \<open>keep_last\<close> newer past versions of its item are held, or when it
  is as young as the cutoff, and goes otherwise. The op log, the heads and the trash are untouched,
  the vault stays well formed, the report counts the removed rows, and a dry run reports the same
  and changes nothing.
\<close>

theorem prune_exact:
  assumes "vault_ok env sd db" and "prune_versions keep cutoff db = Inr (rep, db')"
    and "bt_get (db_items db) (as_bytes i) = Some row" and "bt_get (db_versions db) (as_bytes i, v) = Some r"
  shows "bt_get (db_versions db') (as_bytes i, v) =
      (if v = ir_current_version row \<or>
          int (card {w. v < w \<and> w \<noteq> ir_current_version row \<and> bt_get (db_versions db) (as_bytes i, w) \<noteq> None}) < uint keep \<or>
          (\<exists>t. cutoff = Some t \<and> t \<le> iv_created_at r)
       then Some r else None) \<and>
    db_ops db' = db_ops db \<and> db_items db' = db_items db \<and> db_tombstones db' = db_tombstones db \<and>
    vault_ok env sd db' \<and>
    pr_versions_removed rep + length (db_versions db') = length (db_versions db) \<and>
    prune_versions_dry_run keep cutoff db = Inr (rep, db)"
proof -
  have impl: "prune_versions_impl keep cutoff True db = Inr (rep, db')"
    using assms(2) by (simp add: prune_versions_def)
  then have items: "fold_ok (prune_item (uint keep) cutoff) (db_items db)
       (\<lparr>pr_versions_removed = 0, pr_bytes_reclaimed = 0, pr_per_item = []\<rparr>, db) = Inr (rep, db')"
    by (auto simp: prune_versions_impl_def bind_ok_Inr_iff)
  have tf: "tables_fit db" using assms(1) by (simp add: vault_ok_def)
  then have wf: "bt_wf (db_versions db)" "distinct (map fst (db_items db))"
    by (simp_all add: tables_fit_def bt_wf_distinct)
  have ok: "vault_ok env sd db'" and frame: "prune_frame db db'"
    using vault_ok_prune [OF impl assms(1)] by simp_all
  let ?stays = "v = ir_current_version row \<or>
          int (card {w. v < w \<and> w \<noteq> ir_current_version row \<and> bt_get (db_versions db) (as_bytes i, w) \<noteq> None}) < uint keep \<or>
          (\<exists>t. cutoff = Some t \<and> t \<le> iv_created_at r)"
  have get: "bt_get (db_versions db') (as_bytes i, v) =
      (if pruned_row (uint keep) cutoff db (as_bytes i) (ir_current_version row) v then None else Some r)"
    using prune_items_Inr [OF items wf] assms(3,4) by auto
  have "pruned_row (uint keep) cutoff db (as_bytes i) (ir_current_version row) v \<longleftrightarrow> \<not> ?stays"
    by (cases cutoff) (auto simp: pruned_row_def prunable_def assms(4) not_less not_le)
  then have "bt_get (db_versions db') (as_bytes i, v) = (if ?stays then Some r else None)"
    unfolding get by (cases ?stays) (simp_all only: if_True if_False not_True_eq_False not_False_eq_True)
  moreover have "pr_versions_removed rep + length (db_versions db') = length (db_versions db)"
    using prune_items_Inr [OF items wf] by simp
  moreover have "prune_versions_dry_run keep cutoff db = Inr (rep, db)"
    by (simp add: prune_versions_dry_run_def prune_versions_impl_def items)
  ultimately show ?thesis
    using ok prune_frame_items [OF frame] by blast
qed

lemma prune_exact_witness:
  "\<exists>db3 rep db4. abs_of ex_vault ex_serde db3 =
       [ex_id 9 \<mapsto> \<lparr>ai_versions = [1 \<mapsto> ex_note, 2 \<mapsto> ex_note], ai_head = 2, ai_trashed = False\<rparr>] \<and>
     prune_versions 0 None db3 = Inr (rep, db4) \<and> bt_get (db_versions db4) (as_bytes (ex_id 9), 1) = None \<and>
     bt_get (db_versions db4) (as_bytes (ex_id 9), 2) \<noteq> None \<and> vault_ok ex_vault ex_serde db4"
proof (rule ex_run)
  fix db2 op1 op2
  assume abs: "abs_of ex_vault ex_serde db2 = [ex_id 9 \<mapsto> ex_new\<lparr>ai_trashed := True\<rparr>]"
    and ok: "vault_ok ex_vault ex_serde db2" "versions_left db2"
    and log: "ex_log 2 db2 [op1, op2]" "op_id op1 = ex_id 7" "op_id op2 = ex_id 8"
      "read_version_plaintext ex_vault db2 (ex_id 9) 1 = Inr []"
  let ?it = "\<lparr>ai_versions = [1 \<mapsto> ex_note, 2 \<mapsto> ex_note], ai_head = 2, ai_trashed = False\<rparr>"
  obtain db3 v where u: "untrash_item ex_hash ex_sign ex_vault ex_session ex_serde (ex_id 9) (ex_id 6) 300 300 db2 = Inr (v, db3)"
    and ok3: "vault_ok ex_vault ex_serde db3" and abs3: "abs_of ex_vault ex_serde db3 = [ex_id 9 \<mapsto> ?it]"
    by (rule ex_run_untrash [OF abs ok log])
  then have "abs_of ex_vault ex_serde db3 (ex_id 9) = Some ?it" by simp
  then obtain row where row: "bt_get (db_items db3) (as_bytes (ex_id 9)) = Some row" "ir_current_version row = 2"
    and pay: "version_payload ex_vault ex_serde db3 (ex_id 9) = [1 \<mapsto> ex_note, 2 \<mapsto> ex_note]"
    by (auto simp: abs_of_Some)
  have "bt_get (db_versions db3) (as_bytes (ex_id 9), n) \<noteq> None" if "n = 1 \<or> n = 2" for n
    using that fun_cong [OF pay, of n]
    by (auto simp: version_payload_def read_version_plaintext_def split: option.splits)
  then obtain r1 r2 where rows: "bt_get (db_versions db3) (as_bytes (ex_id 9), 1) = Some r1"
    "bt_get (db_versions db3) (as_bytes (ex_id 9), 2) = Some r2" by (metis not_None_eq)
  obtain rep db4 where p: "prune_versions 0 None db3 = Inr (rep, db4)"
    using prune_ok [OF ok3, of 0 None True] by (auto simp: prune_versions_def is_ok_iff)
  from prune_exact [OF ok3 p row(1) rows(1)] prune_exact [OF ok3 p row(1) rows(2)] p abs3 row(2)
  show ?thesis by (intro exI [of _ db3] exI [of _ rep] exI [of _ db4]) auto
qed

text \<open>
  Purging the trash removes exactly the items whose retention has run out: of
  such an item no head, version, wrapped key or tombstone remains in the tables;
  every other item, deleted or not, keeps all of them; and the op log keeps every op. The
  result counts the purged items.
\<close>

theorem purge_exact:
  assumes "bt_wf (db_tombstones db)" and "purge_expired_trash now db = (n, db')"
  shows "(\<forall>k v.
      (if \<exists>t. bt_get (db_tombstones db) k = Some t \<and> tr_purge_after t \<le> now
       then bt_get (db_items db') k = None \<and> bt_get (db_tombstones db') k = None \<and>
         bt_get (db_versions db') (k, v) = None \<and> bt_get (db_wrapped_keys db') (k, v) = None
       else bt_get (db_items db') k = bt_get (db_items db) k \<and>
         bt_get (db_tombstones db') k = bt_get (db_tombstones db) k \<and>
         bt_get (db_versions db') (k, v) = bt_get (db_versions db) (k, v) \<and>
         bt_get (db_wrapped_keys db') (k, v) = bt_get (db_wrapped_keys db) (k, v))) \<and>
    db_ops db' = db_ops db \<and> n = card {k. \<exists>t. bt_get (db_tombstones db) k = Some t \<and> tr_purge_after t \<le> now}"
proof -
  let ?ks = "map fst (filter (\<lambda>(k, row). tr_purge_after row \<le> now) (db_tombstones db))"
  have db': "db' = fold shred ?ks db" and n: "n = length ?ks"
    using assms(2) by (simp_all add: purge_expired_trash_def Let_def)
  have "n = card (set ?ks)" unfolding n using expired_keys(2) [OF assms(1)] by (rule distinct_card [symmetric])
  have mem: "k \<in> set ?ks \<longleftrightarrow> expired now db k" for k using expired_keys(1) [OF assms(1), of now] by blast
  show ?thesis
    unfolding expired_def [symmetric]
  proof (intro conjI allI)
    show "n = card {k. expired now db k}" using \<open>n = card (set ?ks)\<close> expired_keys(1) [OF assms(1), of now] by simp
    show "db_ops db' = db_ops db" by (simp add: db')
  qed (simp add: db' fold_shred mem del: set_map)
qed

lemma purge_exact_witness:
  "\<exists>db1 db2. delete_item ex_hash ex_sign ex_vault ex_session ex_serde (ex_id 9) 10 (ex_id 8) 200 200 db1 = Inr db2 \<and>
     bt_get (db_items (snd (purge_expired_trash 209 db2))) (as_bytes (ex_id 9)) \<noteq> None \<and>
     fst (purge_expired_trash 210 db2) = 1 \<and>
     bt_get (db_items (snd (purge_expired_trash 210 db2))) (as_bytes (ex_id 9)) = None"
proof (rule ex_run)
  fix db1 db2
  assume c: "create_item ex_hash ex_sign ex_vault ex_session ex_serde (ex_id 9) (ex_id 7) 100 100 ex_note ex_empty = Inr (ex_id 9, db1)"
    and d: "delete_item ex_hash ex_sign ex_vault ex_session ex_serde (ex_id 9) 10 (ex_id 8) 200 200 db1 = Inr db2"
  let ?k = "as_bytes (ex_id 9)"
  have none: "db_tombstones db1 = []" using c by (rule create_item_Inr) (simp add: ex_empty_def)
  have "(\<exists>t. db_tombstones db2 = [(?k, t)] \<and> tr_purge_after t = 210) \<and> bt_get (db_items db2) ?k \<noteq> None"
    using d by (rule delete_item_Inr) (simp add: none saturating_add_i64_def i64_max_def)
  then obtain t where t: "db_tombstones db2 = [(?k, t)]" "tr_purge_after t = 210"
    and held: "bt_get (db_items db2) ?k \<noteq> None" by blast
  have wf: "bt_wf (db_tombstones db2)" by (simp add: t bt_wf_def)
  have gone: "{k. \<exists>u. bt_get (db_tombstones db2) k = Some u \<and> tr_purge_after u \<le> 210} = {?k}"
    by (auto simp: t)
  have late: "\<not> (\<exists>u. bt_get (db_tombstones db2) ?k = Some u \<and> tr_purge_after u \<le> 209)"
    and due: "\<exists>u. bt_get (db_tombstones db2) ?k = Some u \<and> tr_purge_after u \<le> 210"
    by (simp_all add: t)
  have "bt_get (db_items (snd (purge_expired_trash 209 db2))) ?k = bt_get (db_items db2) ?k"
    using purge_exact [OF wf prod.collapse [symmetric], of 209] late by presburger
  moreover have "bt_get (db_items (snd (purge_expired_trash 210 db2))) ?k = None" "fst (purge_expired_trash 210 db2) = card {?k}"
    using purge_exact [OF wf prod.collapse [symmetric], of 210] due unfolding gone by presburger+
  ultimately show ?thesis using d held by (intro exI [of _ db1] exI [of _ db2]) simp
qed

end
