(* ===== verification/LogView.thy ===== *)
theory LogView
  imports ItemSpec
begin

text \<open>
  The tables of a vault file are the merge of its op log: what \<open>materialize\<close> computes for an item
  from the log alone, and that the local writes of \<open>vault.rs\<close> keep the tables equal to it.
\<close>

section \<open>The view of an item from the log\<close>

text \<open>
  Per version number its op and author, the head, and the tombstone's op and device. The times of the
  rows are left out: they are the clock of whichever device wrote them.
\<close>

type_synonym shape = "(int \<rightharpoonup> bytes \<times> bytes) \<times> int option \<times> (bytes \<times> bytes) option"

definition untimed :: "view \<Rightarrow> shape" where
  "untimed vw = ((\<lambda>n. map_option (\<lambda>(oid, device, time). (oid, device)) (fst vw n)), snd vw)"

definition op_view :: "stored_op \<Rightarrow> bytes \<times> bytes" where
  "op_view op = (as_bytes (op_id op), as_bytes (device_id op))"

definition snaps_of :: "stored_op list \<Rightarrow> id \<Rightarrow> stored_op list" where
  "snaps_of ops i = filter (\<lambda>op. is_snapshot (op_kind op)) (item_history i ops)"

definition log_tombstone :: "stored_op list \<Rightarrow> id \<Rightarrow> (bytes \<times> bytes) option" where
  "log_tombstone ops i =
     (let dels = filter (\<lambda>op. op \<in> open_deletes ops i) (item_history i ops)
      in if dels = [] \<or> \<not> (\<forall>s\<in>item_snapshots ops i. stored_before s (last dels)) then None
         else Some (as_bytes (op_id (last dels)), as_bytes (device_id (last dels))))"

text \<open>The row numbered \<open>v\<close>, from 1.\<close>

definition row_at :: "'a list \<Rightarrow> int \<rightharpoonup> 'a" where
  "row_at xs v = (if 1 \<le> v \<and> v \<le> int (length xs) then Some (xs ! nat (v - 1)) else None)"

lemma row_at_snoc: "row_at (xs @ [x]) = (row_at xs)(int (length xs) + 1 \<mapsto> x)"
  by (auto simp: row_at_def fun_eq_iff nth_append)

definition log_view :: "stored_op list \<Rightarrow> id \<Rightarrow> shape" where
  "log_view ops i =
     (if snaps_of ops i = [] then (Map.empty, None, None)
      else (row_at (map op_view (snaps_of ops i)),
            Some (int (length (snaps_of ops i))), log_tombstone ops i))"

lemma set_snaps_of [simp]: "set (snaps_of ops i) = item_snapshots ops i"
  by (auto simp: snaps_of_def item_snapshots_def)

lemma has_snapshot_snaps: "has_snapshot ops i \<longleftrightarrow> snaps_of ops i \<noteq> []"
proof -
  have "has_snapshot ops i \<longleftrightarrow> item_snapshots ops i \<noteq> {}" by (auto simp: has_snapshot_def item_snapshots_def)
  then show ?thesis by (simp flip: set_snaps_of)
qed

text \<open>Rows numbered from 1, looked up by number.\<close>

lemma map_of_numbered:
  assumes "map fst xs = map int [1..<Suc (length xs)]"
  shows "map_of xs v = row_at (map snd xs) v"
proof (cases "1 \<le> v \<and> v \<le> int (length xs)")
  case True
  then have n: "nat (v - 1) < length xs" by (simp add: nat_less_iff)
  then have "map fst xs ! nat (v - 1) = v" unfolding assms using True by (simp del: upt_Suc)
  then have "xs ! nat (v - 1) = (v, snd (xs ! nat (v - 1)))" using n by (simp add: prod_eq_iff)
  then have "(v, snd (xs ! nat (v - 1))) \<in> set xs" using n by (metis nth_mem)
  moreover have "distinct (map fst xs)" unfolding assms by (simp add: distinct_map del: upt_Suc)
  ultimately have "map_of xs v = Some (snd (xs ! nat (v - 1)))" by simp
  with True n show ?thesis by (simp add: row_at_def)
next
  case False
  have "v \<notin> set (map fst xs)" unfolding assms using False by (auto simp del: upt_Suc)
  then have "map_of xs v = None" by (simp add: map_of_eq_None_iff)
  with False show ?thesis by (simp add: row_at_def)
qed

lemma version_rows_view:
  "map (\<lambda>v. (as_bytes (vm_op_id v), as_bytes (vm_author_device_id v))) (version_rows n (map (lifted decrypt sd) ss)) = map op_view ss"
  by (induction ss arbitrary: n) (simp_all add: version_row_def op_view_def)

lemma map_option_map_of: "map_option f (map_of (map (\<lambda>x. (g x, h x)) xs) k) = map_of (map (\<lambda>x. (g x, f (h x))) xs) k"
  by (induction xs) auto

lemma item_of_view:
  assumes "has_snapshot ops i" and "length ops < 2 ^ 63"
  shows "untimed (item_view (item_of decrypt sd ops now i)) = log_view ops i"
proof -
  let ?it = "item_of decrypt sd ops now i" and ?ss = "snaps_of ops i"
  let ?view = "\<lambda>v. (as_bytes (vm_op_id v), as_bytes (vm_author_device_id v))"
  let ?rows = "map (\<lambda>v. (vm_version v, ?view v)) (im_versions ?it)"
  note v = item_of_versions [OF assms, of decrypt sd now, folded snaps_of_def]
  have views: "map ?view (im_versions ?it) = map op_view ?ss" unfolding v(1) by (rule version_rows_view)
  from arg_cong [OF this, of length] have len: "length (im_versions ?it) = length ?ss" by simp
  have "map fst ?rows = map int [1..<Suc (length ?rows)]" and "map snd ?rows = map op_view ?ss"
    using v(2) views by (simp_all add: comp_def)
  then have "map_of ?rows = row_at (map op_view ?ss)"
    using map_of_numbered [of ?rows] by (simp add: fun_eq_iff)
  moreover have tomb: "im_tombstone ?it = resolve_tombstone (map (lifted decrypt sd) (item_history i ops))
      (snapshots_of (map (lifted decrypt sd) (item_history i ops))) now"
    by (simp add: item_of_def item_result_def Let_def)
  have "map_option (\<lambda>t. (as_bytes (tm_op_id t), as_bytes (tm_deleted_by_device t))) (im_tombstone ?it) = log_tombstone ops i"
    unfolding tomb resolve_tombstone_lifted log_tombstone_def Let_def by simp
  ultimately show ?thesis
    using assms(1) v(3) len
    by (simp add: untimed_def item_view_def vm_view_def map_option_map_of log_view_def has_snapshot_snaps)
qed

section \<open>An op later than the log\<close>

text \<open>What the log view needs of a new op: later than every op, observing every head, not observed.\<close>

definition newest :: "stored_op list \<Rightarrow> stored_op \<Rightarrow> bool" where
  "newest ops op \<longleftrightarrow> (\<forall>o'\<in>set ops. lamport o' < lamport op \<and> stored_before o' op \<and> \<not> stored_before op o')"

lemma item_history_snoc:
  assumes "newest ops op"
  shows "item_history i (ops @ [op]) = (if target_item op = Some i then item_history i ops @ [op] else item_history i ops)"
  using assms
  by (auto simp: item_history_def newest_def stored_key_def less_imp_le intro!: sort_key_snoc)

lemma log_view_other:
  assumes "\<forall>op\<in>set new. target_item op \<noteq> Some i"
  shows "log_view (ops @ new) i = log_view ops i"
proof -
  have "filter (\<lambda>op. target_item op = Some i) (ops @ new) = filter (\<lambda>op. target_item op = Some i) ops"
    using assms by (simp add: filter_empty_conv)
  then have "item_history i (ops @ new) = item_history i ops" by (simp add: item_history_def)
  moreover from this have "snaps_of (ops @ new) i = snaps_of ops i" by (simp add: snaps_of_def)
  moreover have "item_snapshots (ops @ new) i = item_snapshots ops i" "item_deletes (ops @ new) i = item_deletes ops i"
    using assms by (auto simp: item_snapshots_def item_deletes_def)
  ultimately show ?thesis
    by (simp add: log_view_def log_tombstone_def open_deletes_def)
qed

lemma snaps_of_snoc:
  "newest ops op \<Longrightarrow> snaps_of (ops @ [op]) i =
     (if target_item op = Some i \<and> is_snapshot (op_kind op) then snaps_of ops i @ [op] else snaps_of ops i)"
  by (simp add: snaps_of_def item_history_snoc)

text \<open>A newest snapshot becomes the head and answers every delete.\<close>

lemma log_view_snapshot:
  assumes "newest ops op" and "target_item op = Some i" and "is_snapshot (op_kind op)"
  shows "log_view (ops @ [op]) i =
    ((fst (log_view ops i))(int (length (snaps_of ops i)) + 1 \<mapsto> op_view op), Some (int (length (snaps_of ops i)) + 1), None)"
proof -
  have "stored_before d op" if "d \<in> item_deletes (ops @ [op]) i" for d
    using that assms by (auto simp: item_deletes_def newest_def)
  moreover have "op \<in> item_snapshots (ops @ [op]) i" using assms by (simp add: item_snapshots_def)
  ultimately have "open_deletes (ops @ [op]) i = {}" by (auto simp: open_deletes_def)
  then have "log_tombstone (ops @ [op]) i = None" by (simp add: log_tombstone_def)
  moreover have snoc: "snaps_of (ops @ [op]) i = snaps_of ops i @ [op]" using assms by (simp add: snaps_of_snoc)
  ultimately show ?thesis
    by (auto simp: log_view_def snoc row_at_snoc row_at_def)
qed

text \<open>A newest delete stands.\<close>

lemma log_view_delete:
  assumes "newest ops op" and "target_item op = Some i" and "op_kind op = Delete" and "snaps_of ops i \<noteq> []"
  shows "log_view (ops @ [op]) i =
    (fst (log_view ops i), fst (snd (log_view ops i)), Some (as_bytes (op_id op), as_bytes (device_id op)))"
proof -
  have snaps: "snaps_of (ops @ [op]) i = snaps_of ops i" using assms by (simp add: snaps_of_snoc)
  have sset: "item_snapshots (ops @ [op]) i = item_snapshots ops i" using assms(3) by (auto simp: item_snapshots_def)
  have own: "op \<in> open_deletes (ops @ [op]) i"
    using assms by (auto simp: open_deletes_def item_deletes_def sset newest_def item_snapshots_def)
  have "item_history i (ops @ [op]) = item_history i ops @ [op]" using assms by (simp add: item_history_snoc)
  then have "log_tombstone (ops @ [op]) i = Some (as_bytes (op_id op), as_bytes (device_id op))"
    using own assms(1,3) by (auto simp: log_tombstone_def Let_def sset newest_def item_snapshots_def)
  then show ?thesis using assms(4) by (simp add: log_view_def snaps)
qed

section \<open>Local writes\<close>

text \<open>No op of the log claims to have seen more of device \<open>d\<close> than the log holds.\<close>

definition not_ahead :: "id \<Rightarrow> stored_op list \<Rightarrow> bool" where
  "not_ahead d ops \<longleftrightarrow> (\<forall>s\<in>set ops. oh_get (observed s) d \<le> log_heads ops d)"

lemma extends_log_newest:
  assumes "extends_log H ed_verify key vid d ops op" and "not_ahead d ops"
  shows "newest ops op" and "not_ahead d (ops @ [op])"
proof -
  have op: "device_id op = d" "log_heads ops d < seq op" "\<forall>o'\<in>set ops. lamport o' < lamport op"
    "\<And>d'. oh_get (observed op) d' = log_heads ops d'"
    using assms(1) unfolding extends_log_def by blast+
  show "newest ops op"
    unfolding newest_def
  proof (intro ballI conjI)
    fix o'
    assume o': "o' \<in> set ops"
    have le: "seq o' \<le> log_heads ops (device_id o')" by (rule own_ops_le_head [OF o' refl])
    show "lamport o' < lamport op" using op(3) o' by simp
    show "stored_before o' op"
      using le op(1,2) by (auto simp: stored_before_def op(4))
    have "oh_get (observed o') d < seq op" using assms(2) o' op(2) by (auto simp: not_ahead_def)
    then show "\<not> stored_before op o'"
      using le op(1,2) by (auto simp: stored_before_def)
  qed
  have "log_heads (ops @ [op]) d = seq op"
    using own_ops_extend [OF op(2,1)] by (simp add: log_heads_def)
  then show "not_ahead d (ops @ [op])"
    using assms(2) op(2,4) by (auto simp: not_ahead_def)
qed

text \<open>The tables hold of every item what the merge of the log gives.\<close>

definition log_matches :: "'x vault_db \<Rightarrow> stored_op list \<Rightarrow> bool" where
  "log_matches db ops \<longleftrightarrow> log_ok (db_ops db) ops \<and> (\<forall>i. untimed (db_view db i) = log_view ops i)"

lemma log_matches_item:
  assumes "log_matches db ops"
  shows "bt_get (db_items db) (as_bytes i) = Some row \<Longrightarrow>
      snaps_of ops i \<noteq> [] \<and> ir_current_version row = int (length (snaps_of ops i))"
    and "bt_get (db_items db) (as_bytes i) = None \<Longrightarrow> snaps_of ops i = []"
    and "is_tombstoned db i \<longleftrightarrow> snd (snd (log_view ops i)) \<noteq> None"
proof -
  have view: "untimed (db_view db i) = log_view ops i" using assms by (simp add: log_matches_def)
  then show "bt_get (db_items db) (as_bytes i) = Some row \<Longrightarrow>
      snaps_of ops i \<noteq> [] \<and> ir_current_version row = int (length (snaps_of ops i))"
    and "bt_get (db_items db) (as_bytes i) = None \<Longrightarrow> snaps_of ops i = []"
    by (auto simp: untimed_def db_view_def log_view_def split: if_splits)
  have "snd (snd (log_view ops i)) = map_option tomb_view (bt_get (db_tombstones db) (as_bytes i))"
    unfolding view [symmetric] by (simp add: untimed_def db_view_def)
  then show "is_tombstoned db i \<longleftrightarrow> snd (snd (log_view ops i)) \<noteq> None"
    by (simp add: is_tombstoned_def)
qed

lemma db_view_with_version:
  assumes "\<And>k. k \<noteq> as_bytes i \<Longrightarrow> bt_get t k = bt_get (db_tombstones db) k"
  shows "untimed (db_view ((with_version i v sealed ver head rows ix db)\<lparr>db_tombstones := t\<rparr>) j) =
    (if j = i then ((fst (untimed (db_view db i)))(v \<mapsto> (iv_op_id ver, iv_author_device_id ver)),
        Some (ir_current_version head), map_option tomb_view (bt_get t (as_bytes i)))
     else untimed (db_view db j))"
  using assms by (auto simp: untimed_def db_view_def ver_view_def id_eq_iff fun_eq_iff)

text \<open>A new snapshot of an item, in the log and in the tables.\<close>

lemma log_matches_snapshot:
  assumes "log_matches db ops" and "newest ops op" and "target_item op = Some i" and "is_snapshot (op_kind op)"
    and "log_ok rows (ops @ [op])" and "v = int (length (snaps_of ops i)) + 1" and "ir_current_version head = v"
    and "(iv_op_id ver, iv_author_device_id ver) = op_view op"
    and "\<And>k. k \<noteq> as_bytes i \<Longrightarrow> bt_get t k = bt_get (db_tombstones db) k" and "bt_get t (as_bytes i) = None"
  shows "log_matches ((with_version i v sealed ver head rows ix db)\<lparr>db_tombstones := t\<rparr>) (ops @ [op])"
proof -
  have "untimed (db_view ((with_version i v sealed ver head rows ix db)\<lparr>db_tombstones := t\<rparr>) j) = log_view (ops @ [op]) j" for j
  proof (cases "j = i")
    case True
    then show ?thesis
      using assms(1,6,7,8,10) by (simp add: db_view_with_version [OF assms(9)] log_view_snapshot [OF assms(2-4)] log_matches_def)
  next
    case False
    then have "log_view (ops @ [op]) j = log_view ops j" using assms(3) by (intro log_view_other) simp
    with False assms(1) show ?thesis by (simp add: db_view_with_version [OF assms(9)] log_matches_def)
  qed
  with assms(5) show ?thesis by (simp add: log_matches_def)
qed

text \<open>The local writes of a device, with its own draws.\<close>

inductive local_write ::
  "(bytes \<Rightarrow> bytes) \<Rightarrow> ('k \<Rightarrow> bytes \<Rightarrow> bytes) \<Rightarrow> 'x vault_env \<Rightarrow> 'k session \<Rightarrow> serde \<Rightarrow> id \<Rightarrow> id \<Rightarrow> op_kind \<Rightarrow>
     'x vault_db \<Rightarrow> 'x vault_db \<Rightarrow> bool"
  for H ed_sign env ses sd i oid where
  write_create: "create_item H ed_sign env ses sd i oid now op_now p db = Inr (j, db') \<Longrightarrow>
    local_write H ed_sign env ses sd i oid Create db db'"
| write_update: "update_item H ed_sign env ses sd i oid now op_now p db = Inr (v, db') \<Longrightarrow>
    local_write H ed_sign env ses sd i oid Update db db'"
| write_delete: "delete_item H ed_sign env ses sd i retention oid now op_now db = Inr db' \<Longrightarrow>
    local_write H ed_sign env ses sd i oid Delete db db'"
| write_restore: "restore_version H ed_sign env ses sd i target oid now op_now db = Inr (v, db') \<Longrightarrow>
    local_write H ed_sign env ses sd i oid Restore db db'"
| write_untrash: "untrash_item H ed_sign env ses sd i oid now op_now db = Inr (v, db') \<Longrightarrow>
    local_write H ed_sign env ses sd i oid Restore db db'"

lemma i64_add_1_small: "0 \<le> c \<Longrightarrow> c < i64_max \<Longrightarrow> i64_add c 1 = c + 1"
  by (simp add: i64_add_def i64_max_def)

lemma restore_matches:
  assumes "restore_version H ed_sign env ses sd i target oid now op_now db = Inr (v, db')"
    and "log_matches db ops" and "versions_left db"
    and author: "\<And>op_now tv pt db1. author_op H ed_sign env ses oid op_now Restore (Some i) tv pt db = Inr db1 \<Longrightarrow>
      \<exists>op. log_ok (db_ops db1) (ops @ [op]) \<and> newest ops op \<and> P op \<and> op_id op = oid \<and> op_kind op = Restore \<and>
        target_item op = Some i \<and> device_id op = ss_device_id ses"
  shows "\<exists>op. log_matches db' (ops @ [op]) \<and> P op \<and> op_kind op = Restore \<and> target_item op = Some i"
proof (rule restore_version_Inr [OF assms(1)])
  fix row pt p sealed rows ix ver
  assume *: "bt_get (db_items db) (as_bytes i) = Some row" "v = i64_add (ir_current_version row) 1"
    "ver = \<lparr>iv_payload_env = fst sealed, iv_created_at = now,
        iv_author_device_id = as_bytes (ss_device_id ses), iv_op_id = as_bytes oid\<rparr>"
    "author_op H ed_sign env ses oid op_now Restore (Some i) (u32_or_zero target) pt db = Inr (db\<lparr>db_ops := rows\<rparr>)"
    "db' = (with_version i v sealed ver (row\<lparr>ir_current_version := v, ir_updated_at := now\<rparr>) rows ix db)
       \<lparr>db_tombstones := bt_delete_where (\<lambda>k. k = as_bytes i) (db_tombstones db)\<rparr>"
  obtain op where op: "log_ok rows (ops @ [op])" "newest ops op" "P op" "op_id op = oid" "op_kind op = Restore"
    "target_item op = Some i" "device_id op = ss_device_id ses"
    using author [OF *(4)] by auto
  have "ir_current_version row = int (length (snaps_of ops i))" using log_matches_item(1) [OF assms(2) *(1)] by simp
  then have "v = int (length (snaps_of ops i)) + 1"
    using *(2) versions_leftD [OF assms(3) *(1)] by (simp add: i64_add_1_small)
  then have "log_matches db' (ops @ [op])"
    unfolding *(5) using op
    by (intro log_matches_snapshot [OF assms(2) op(2)]) (simp_all add: *(3) op_view_def bt_get_delete_where)
  with op show ?thesis by blast
qed

lemma local_write_matches:
  assumes "local_write H ed_sign env ses sd i oid kind db db'"
    and "log_matches db ops" and "versions_left db"
    and author: "\<And>op_now tv pt db1. author_op H ed_sign env ses oid op_now kind (Some i) tv pt db = Inr db1 \<Longrightarrow>
      \<exists>op. log_ok (db_ops db1) (ops @ [op]) \<and> newest ops op \<and> P op \<and> op_id op = oid \<and> op_kind op = kind \<and>
        target_item op = Some i \<and> device_id op = ss_device_id ses"
  shows "\<exists>op. log_matches db' (ops @ [op]) \<and> P op \<and> op_kind op = kind \<and> target_item op = Some i"
  using assms(1)
proof cases
  case (write_create now op_now p j)
  from write_create(2) show ?thesis
  proof (rule create_item_Inr)
    fix pt sealed rows ix ver
    assume *: "bt_get (db_items db) (as_bytes i) = None"
      "ver = \<lparr>iv_payload_env = fst sealed, iv_created_at = now,
        iv_author_device_id = as_bytes (ss_device_id ses), iv_op_id = as_bytes oid\<rparr>"
      "author_op H ed_sign env ses oid op_now Create (Some i) (u32_or_zero 1) pt db = Inr (db\<lparr>db_ops := rows\<rparr>)"
      "db' = with_version i 1 sealed ver \<lparr>ir_current_version = 1, ir_created_at = now, ir_updated_at = now\<rparr> rows ix db"
    obtain op where op: "log_ok rows (ops @ [op])" "newest ops op" "P op" "op_id op = oid" "op_kind op = Create"
      "target_item op = Some i" "device_id op = ss_device_id ses"
      using author [unfolded write_create(1), OF *(3)] by auto
    have none: "snaps_of ops i = []" by (rule log_matches_item(2) [OF assms(2) *(1)])
    then have "bt_get (db_tombstones db) (as_bytes i) = None"
      using log_matches_item(3) [OF assms(2), of i] by (simp add: log_view_def is_tombstoned_def)
    with none have "log_matches db' (ops @ [op])"
      unfolding *(4) using op
      by (subst with_version_tombs, intro log_matches_snapshot [OF assms(2) op(2)])
        (simp_all add: *(2) op_view_def)
    with op write_create(1) show ?thesis by auto
  qed
next
  case (write_update now op_now p v)
  from write_update(2) show ?thesis
  proof (rule update_item_Inr)
    fix row pt sealed rows ix ver
    assume *: "\<not> is_tombstoned db i" "bt_get (db_items db) (as_bytes i) = Some row"
      "v = i64_add (ir_current_version row) 1"
      "ver = \<lparr>iv_payload_env = fst sealed, iv_created_at = now,
        iv_author_device_id = as_bytes (ss_device_id ses), iv_op_id = as_bytes oid\<rparr>"
      "author_op H ed_sign env ses oid op_now Update (Some i) (u32_or_zero v) pt db = Inr (db\<lparr>db_ops := rows\<rparr>)"
      "db' = with_version i v sealed ver (row\<lparr>ir_current_version := v, ir_updated_at := now\<rparr>) rows ix db"
    obtain op where op: "log_ok rows (ops @ [op])" "newest ops op" "P op" "op_id op = oid" "op_kind op = Update"
      "target_item op = Some i" "device_id op = ss_device_id ses"
      using author [unfolded write_update(1), OF *(5)] by auto
    have "ir_current_version row = int (length (snaps_of ops i))" using log_matches_item(1) [OF assms(2) *(2)] by simp
    then have "v = int (length (snaps_of ops i)) + 1"
      using *(3) versions_leftD [OF assms(3) *(2)] by (simp add: i64_add_1_small)
    then have "log_matches db' (ops @ [op])"
      unfolding *(6) using op *(1)
      by (subst with_version_tombs, intro log_matches_snapshot [OF assms(2) op(2)])
        (simp_all add: *(4) op_view_def is_tombstoned_def)
    with op write_update(1) show ?thesis by auto
  qed
next
  case (write_delete retention now op_now)
  from write_delete(2) show ?thesis
  proof (rule delete_item_Inr)
    fix row rows ix
    assume *: "bt_get (db_items db) (as_bytes i) = Some row"
      "author_op H ed_sign env ses oid op_now Delete (Some i) 0 (str_bytes ''{}'') db = Inr (db\<lparr>db_ops := rows\<rparr>)"
      "db' = db\<lparr>db_ops := rows, db_tombstones := bt_insert (as_bytes i)
        \<lparr>tr_deleted_at = now, tr_purge_after = saturating_add_i64 now retention,
         tr_deleted_by_device = as_bytes (ss_device_id ses), tr_op_id = as_bytes oid\<rparr> (db_tombstones db),
        db_index := ix\<rparr>"
    obtain op where op: "log_ok rows (ops @ [op])" "newest ops op" "P op" "op_id op = oid" "op_kind op = Delete"
      "target_item op = Some i" "device_id op = ss_device_id ses"
      using author [unfolded write_delete(1), OF *(2)] by auto
    have "snaps_of ops i \<noteq> []" using log_matches_item(1) [OF assms(2) *(1)] by simp
    note del = log_view_delete [OF op(2,6,5) this]
    have "untimed (db_view db' j) = log_view (ops @ [op]) j" for j
    proof (cases "j = i")
      case True
      have "untimed (db_view db i) = log_view ops i" using assms(2) by (simp add: log_matches_def)
      moreover have "untimed (db_view db' i) = (fst (untimed (db_view db i)), fst (snd (untimed (db_view db i))),
          Some (as_bytes oid, as_bytes (ss_device_id ses)))"
        by (simp add: *(3) untimed_def db_view_def)
      ultimately show ?thesis by (simp add: True del op(4,7))
    next
      case False
      then have "log_view (ops @ [op]) j = log_view ops j" using op(6) by (intro log_view_other) simp
      moreover have "untimed (db_view db' j) = untimed (db_view db j)" using False by (simp add: *(3) db_view_def id_eq_iff)
      ultimately show ?thesis using assms(2) by (simp add: log_matches_def)
    qed
    then have "log_matches db' (ops @ [op])" using op(1) by (simp add: log_matches_def *(3))
    with op write_delete(1) show ?thesis by auto
  qed
next
  case (write_restore target now op_now v)
  from restore_matches [OF write_restore(2) assms(2,3)] author write_restore(1) show ?thesis by auto
next
  case (write_untrash now op_now v)
  then obtain c where "restore_version H ed_sign env ses sd i c oid now op_now db = Inr (v, db')"
    by (auto simp: untrash_item_def bind_ok_Inr_iff split: if_splits option.splits)
  from restore_matches [OF this assms(2,3)] author write_untrash(1) show ?thesis by auto
qed

text \<open>What a device's log keeps, whoever writes.\<close>

definition device_log ::
  "(bytes \<Rightarrow> bytes) \<Rightarrow> (bytes \<Rightarrow> bytes \<Rightarrow> bytes \<Rightarrow> bool) \<Rightarrow> bytes \<Rightarrow> 'x vault_env \<Rightarrow> 'k session \<Rightarrow> 'x vault_db \<Rightarrow>
     stored_op list \<Rightarrow> bool" where
  "device_log H ed_verify key env ses db ops \<longleftrightarrow>
     log_matches db ops \<and> own_chain H ed_verify key (ve_vault_id env) (ss_device_id ses) ops \<and>
     not_ahead (ss_device_id ses) ops"

lemma local_write_log:
  assumes "local_write H ed_sign env ses sd i oid kind db db'"
    and "device_log H ed_verify key env ses db ops" and "versions_left db"
    and "authoring_ok H ed_sign ed_verify key env ses" and "id_wf i" and "id_wf oid"
  obtains op where "device_log H ed_verify key env ses db' (ops @ [op])"
    and "extends_log H ed_verify key (ve_vault_id env) (ss_device_id ses) ops op"
    and "op_kind op = kind" and "target_item op = Some i"
proof -
  have matches: "log_matches db ops" and chain: "own_chain H ed_verify key (ve_vault_id env) (ss_device_id ses) ops"
    and ahead: "not_ahead (ss_device_id ses) ops"
    using assms(2) by (simp_all add: device_log_def)
  have log: "log_ok (db_ops db) ops" using matches by (simp add: log_matches_def)
  have target: "\<forall>j. Some i = Some j \<longrightarrow> id_wf j" using assms(5) by simp
  have written: "\<exists>op. log_ok (db_ops db1) (ops @ [op]) \<and> newest ops op \<and>
        extends_log H ed_verify key (ve_vault_id env) (ss_device_id ses) ops op \<and> op_id op = oid \<and> op_kind op = kind \<and>
        target_item op = Some i \<and> device_id op = ss_device_id ses"
    if author: "author_op H ed_sign env ses oid op_now kind (Some i) tv pt db = Inr db1" for op_now tv pt db1
  proof -
    from author_op_log [OF author assms(4,6) target log chain] obtain op where
      op: "log_ok (db_ops db1) (ops @ [op])" "op_id op = oid" "op_kind op = kind" "target_item op = Some i"
        "extends_log H ed_verify key (ve_vault_id env) (ss_device_id ses) ops op" .
    then have "newest ops op" "device_id op = ss_device_id ses"
      using extends_log_newest(1) [OF op(5) ahead] by (simp_all add: extends_log_def)
    with op show ?thesis by blast
  qed
  have "\<exists>op. log_matches db' (ops @ [op]) \<and>
      extends_log H ed_verify key (ve_vault_id env) (ss_device_id ses) ops op \<and> op_kind op = kind \<and> target_item op = Some i"
    by (rule local_write_matches [OF assms(1) matches assms(3)]) (rule written)
  then obtain op where
    op: "log_matches db' (ops @ [op])" "extends_log H ed_verify key (ve_vault_id env) (ss_device_id ses) ops op"
      "op_kind op = kind" "target_item op = Some i" by blast
  then have "device_log H ed_verify key env ses db' (ops @ [op])"
    using extends_log_chain [OF op(2) chain] extends_log_newest(2) [OF op(2) ahead] by (simp add: device_log_def)
  with op show thesis by (intro that)
qed

section \<open>Properties\<close>

lemma ex_device_log: "device_log ex_hash ex_verify [4] ex_vault ex_session ex_empty []"
proof -
  have "untimed (db_view ex_empty i) = log_view [] i" for i
    by (simp add: untimed_def db_view_def log_view_def snaps_of_def item_history_def ex_empty_def)
  then show ?thesis
    by (simp add: device_log_def log_matches_def log_ok_def ex_empty_def own_chain_def own_ops_def not_ahead_def)
qed

text \<open>
  Claim C19. What is on disk is the merge of the log: when every item's rows
  (version numbers, their ops and authors, the head, the tombstone) are what the merge gives for
  the op log, they still are after a create, update, delete, restore or untrash, with the log
  extended by the one op the write signed. So a pull may leave the items it did not touch alone.
\<close>

theorem local_write_is_merge:
  assumes "local_write H ed_sign env ses sd i oid kind db db'"
    and "\<forall>j. untimed (db_view db j) = log_view ops j" and "log_ok (db_ops db) ops"
    and "own_chain H ed_verify key (ve_vault_id env) (ss_device_id ses) ops"
    and "not_ahead (ss_device_id ses) ops" and "versions_left db"
    and "authoring_ok H ed_sign ed_verify key env ses" and "id_wf i" and "id_wf oid"
  shows "\<exists>op. (\<forall>j. untimed (db_view db' j) = log_view (ops @ [op]) j) \<and> log_ok (db_ops db') (ops @ [op]) \<and>
    own_chain H ed_verify key (ve_vault_id env) (ss_device_id ses) (ops @ [op]) \<and>
    not_ahead (ss_device_id ses) (ops @ [op]) \<and> op_kind op = kind \<and> target_item op = Some i"
proof -
  have "device_log H ed_verify key env ses db ops" using assms(2-5) by (simp add: device_log_def log_matches_def)
  from local_write_log [OF assms(1) this assms(6-9)] show ?thesis
    unfolding device_log_def log_matches_def by metis
qed

lemma local_write_is_merge_witness:
  "\<exists>db1 op. create_item ex_hash ex_sign ex_vault ex_session ex_serde (ex_id 9) (ex_id 7) 100 100 ex_note ex_empty = Inr (ex_id 9, db1) \<and>
     untimed (db_view db1 (ex_id 9)) = log_view [op] (ex_id 9) \<and> op_kind op = Create"
proof (rule ex_run)
  fix db1
  assume c: "create_item ex_hash ex_sign ex_vault ex_session ex_serde (ex_id 9) (ex_id 7) 100 100 ex_note ex_empty = Inr (ex_id 9, db1)"
  from ex_device_log have dl: "\<forall>j. untimed (db_view ex_empty j) = log_view [] j" "log_ok (db_ops ex_empty) []"
    "own_chain ex_hash ex_verify [4] (ve_vault_id ex_vault) (ss_device_id ex_session) []" "not_ahead (ss_device_id ex_session) []"
    by (simp_all add: device_log_def log_matches_def)
  from local_write_is_merge [OF write_create [OF c] dl ex_vault_empty(2) ex_authoring_ok ex_id_wf ex_id_wf] c
  show ?thesis by auto
qed

end
