(* ===== verification/AuditLog.thy ===== *)
theory AuditLog
  imports Author
begin

text \<open>
  The device-local audit log: \<open>lp-vault/src/audit.rs\<close> (kinds, origins, the canonical bytes of a record
  and its hash chain) and the table functions of \<open>account.rs\<close> that append to the log, read it back and
  verify it. BLAKE3 is \<open>H\<close>; the clock and the origin in force are arguments. \<open>audit_log\<close> is the list of
  its rows in the order of their insertion.
\<close>

section \<open>Kinds and origins\<close>

datatype audit_source =
    SourceUnknown
  | SourceCli
  | SourceGui
  | SourceMcp
  | SourceNativeHost
  | SourceSshAgent
  | SourceDaemon

fun source_code :: "audit_source \<Rightarrow> byte" where
  "source_code SourceUnknown = 0"
| "source_code SourceCli = 1"
| "source_code SourceGui = 2"
| "source_code SourceMcp = 3"
| "source_code SourceNativeHost = 4"
| "source_code SourceSshAgent = 5"
| "source_code SourceDaemon = 6"

fun source_label :: "audit_source \<Rightarrow> string" where
  "source_label SourceUnknown = ''unknown''"
| "source_label SourceCli = ''cli''"
| "source_label SourceGui = ''gui''"
| "source_label SourceMcp = ''mcp''"
| "source_label SourceNativeHost = ''native_host''"
| "source_label SourceSshAgent = ''ssh_agent''"
| "source_label SourceDaemon = ''daemon''"

definition source_from_code :: "byte \<Rightarrow> audit_source" where
  "source_from_code c =
     (if c = 1 then SourceCli else if c = 2 then SourceGui else if c = 3 then SourceMcp
      else if c = 4 then SourceNativeHost else if c = 5 then SourceSshAgent
      else if c = 6 then SourceDaemon else SourceUnknown)"

definition source_from_label :: "string \<Rightarrow> audit_source" where
  "source_from_label l =
     (if l = ''cli'' then SourceCli else if l = ''gui'' then SourceGui else if l = ''mcp'' then SourceMcp
      else if l = ''native_host'' then SourceNativeHost else if l = ''ssh_agent'' then SourceSshAgent
      else if l = ''daemon'' then SourceDaemon else SourceUnknown)"

datatype deny_reason =
    DenyLocked
  | DenyWrongProfile
  | DenyNotAuthorized
  | DenyAgentFillNotArmed
  | DenyItemNotArmed
  | DenyIntentExpired
  | DenyOriginMismatch
  | DenyTabNotFound
  | DenyAmbiguousTab
  | DenyOriginChanged
  | DenyFieldNotEmpty
  | DenyNoLoginForm
  | DenyPageAccessDenied
  | DenyInjectionFailed
  | DenyPresenceRequired

fun deny_code :: "deny_reason \<Rightarrow> byte" where
  "deny_code DenyLocked = 1"
| "deny_code DenyWrongProfile = 2"
| "deny_code DenyNotAuthorized = 3"
| "deny_code DenyAgentFillNotArmed = 4"
| "deny_code DenyItemNotArmed = 5"
| "deny_code DenyIntentExpired = 6"
| "deny_code DenyOriginMismatch = 7"
| "deny_code DenyTabNotFound = 8"
| "deny_code DenyAmbiguousTab = 9"
| "deny_code DenyOriginChanged = 10"
| "deny_code DenyFieldNotEmpty = 11"
| "deny_code DenyNoLoginForm = 12"
| "deny_code DenyPageAccessDenied = 13"
| "deny_code DenyInjectionFailed = 14"
| "deny_code DenyPresenceRequired = 15"

fun deny_label :: "deny_reason \<Rightarrow> string" where
  "deny_label DenyLocked = ''locked''"
| "deny_label DenyWrongProfile = ''wrong_profile''"
| "deny_label DenyNotAuthorized = ''not_authorized''"
| "deny_label DenyAgentFillNotArmed = ''agent_fill_not_armed''"
| "deny_label DenyItemNotArmed = ''item_not_armed''"
| "deny_label DenyIntentExpired = ''intent_expired''"
| "deny_label DenyOriginMismatch = ''origin_mismatch''"
| "deny_label DenyTabNotFound = ''tab_not_found''"
| "deny_label DenyAmbiguousTab = ''ambiguous_tab''"
| "deny_label DenyOriginChanged = ''origin_changed''"
| "deny_label DenyFieldNotEmpty = ''field_not_empty''"
| "deny_label DenyNoLoginForm = ''no_login_form''"
| "deny_label DenyPageAccessDenied = ''page_access_denied''"
| "deny_label DenyInjectionFailed = ''injection_failed''"
| "deny_label DenyPresenceRequired = ''presence_required''"

definition deny_reasons :: "deny_reason list" where
  "deny_reasons =
     [DenyLocked, DenyWrongProfile, DenyNotAuthorized, DenyAgentFillNotArmed, DenyItemNotArmed,
      DenyIntentExpired, DenyOriginMismatch, DenyTabNotFound, DenyAmbiguousTab, DenyOriginChanged,
      DenyFieldNotEmpty, DenyNoLoginForm, DenyPageAccessDenied, DenyInjectionFailed, DenyPresenceRequired]"

definition deny_from_code :: "byte \<Rightarrow> deny_reason option" where
  "deny_from_code c = List.find (\<lambda>r. deny_code r = c) deny_reasons"

record audit_origin =
  ao_source :: audit_source
  ao_process :: "string option"
  ao_pid :: "u32 option"

definition no_origin :: audit_origin where
  "no_origin = \<lparr>ao_source = SourceUnknown, ao_process = None, ao_pid = None\<rparr>"

definition origin_is_empty :: "audit_origin \<Rightarrow> bool" where
  "origin_is_empty ori \<longleftrightarrow> ao_source ori = SourceUnknown \<and> ao_process ori = None \<and> ao_pid ori = None"

text \<open>The scope of \<open>with_origin\<close> if one is open on the thread, else the process default.\<close>

definition current_origin :: "audit_origin option \<Rightarrow> audit_origin option \<Rightarrow> audit_origin" where
  "current_origin scope process =
     (case scope of Some ori \<Rightarrow> ori | None \<Rightarrow> (case process of Some ori \<Rightarrow> ori | None \<Rightarrow> no_origin))"

datatype audit_kind =
    UnlockSuccess
  | UnlockFailure
  | ItemSecretRead id id "string option"
  | ItemCreate id id
  | ItemUpdate id id
  | ItemDelete id id
  | ItemRestore id id
  | Export string u64
  | VaultShare id id
  | DeviceTrust id
  | PairingModeEnabled
  | PairingModeDisabled
  | AgentFillModeEnabled
  | AgentFillModeDisabled
  | NearbyListenEnabled
  | NearbyListenDisabled
  | NearbySync id
  | AccessDenied deny_reason

fun audit_code :: "audit_kind \<Rightarrow> byte" where
  "audit_code UnlockSuccess = 1"
| "audit_code UnlockFailure = 2"
| "audit_code (ItemSecretRead i v f) = 3"
| "audit_code (ItemCreate i v) = 4"
| "audit_code (ItemUpdate i v) = 5"
| "audit_code (ItemDelete i v) = 6"
| "audit_code (ItemRestore i v) = 7"
| "audit_code (Export f n) = 8"
| "audit_code (VaultShare v p) = 9"
| "audit_code (DeviceTrust p) = 10"
| "audit_code PairingModeEnabled = 11"
| "audit_code PairingModeDisabled = 12"
| "audit_code (AccessDenied r) = 13"
| "audit_code AgentFillModeEnabled = 14"
| "audit_code AgentFillModeDisabled = 15"
| "audit_code NearbyListenEnabled = 16"
| "audit_code NearbyListenDisabled = 17"
| "audit_code (NearbySync p) = 18"

fun audit_label :: "audit_kind \<Rightarrow> string" where
  "audit_label UnlockSuccess = ''unlock_success''"
| "audit_label UnlockFailure = ''unlock_failure''"
| "audit_label (ItemSecretRead i v f) = ''item_secret_read''"
| "audit_label (ItemCreate i v) = ''item_create''"
| "audit_label (ItemUpdate i v) = ''item_update''"
| "audit_label (ItemDelete i v) = ''item_delete''"
| "audit_label (ItemRestore i v) = ''item_restore''"
| "audit_label (Export f n) = ''export''"
| "audit_label (VaultShare v p) = ''vault_share''"
| "audit_label (DeviceTrust p) = ''device_trust''"
| "audit_label PairingModeEnabled = ''pairing_mode_enabled''"
| "audit_label PairingModeDisabled = ''pairing_mode_disabled''"
| "audit_label (AccessDenied r) = ''access_denied''"
| "audit_label AgentFillModeEnabled = ''agent_fill_mode_enabled''"
| "audit_label AgentFillModeDisabled = ''agent_fill_mode_disabled''"
| "audit_label NearbyListenEnabled = ''nearby_listen_enabled''"
| "audit_label NearbyListenDisabled = ''nearby_listen_disabled''"
| "audit_label (NearbySync p) = ''nearby_sync''"

fun audit_item_id :: "audit_kind \<Rightarrow> id option" where
  "audit_item_id (ItemSecretRead i v f) = Some i"
| "audit_item_id (ItemCreate i v) = Some i"
| "audit_item_id (ItemUpdate i v) = Some i"
| "audit_item_id (ItemDelete i v) = Some i"
| "audit_item_id (ItemRestore i v) = Some i"
| "audit_item_id _ = None"

fun audit_vault_id :: "audit_kind \<Rightarrow> id option" where
  "audit_vault_id (ItemSecretRead i v f) = Some v"
| "audit_vault_id (ItemCreate i v) = Some v"
| "audit_vault_id (ItemUpdate i v) = Some v"
| "audit_vault_id (ItemDelete i v) = Some v"
| "audit_vault_id (ItemRestore i v) = Some v"
| "audit_vault_id (VaultShare v p) = Some v"
| "audit_vault_id _ = None"

fun audit_peer_id :: "audit_kind \<Rightarrow> id option" where
  "audit_peer_id (VaultShare v p) = Some p"
| "audit_peer_id (DeviceTrust p) = Some p"
| "audit_peer_id (NearbySync p) = Some p"
| "audit_peer_id _ = None"

fun audit_deny_reason :: "audit_kind \<Rightarrow> deny_reason option" where
  "audit_deny_reason (AccessDenied r) = Some r"
| "audit_deny_reason _ = None"

section \<open>Records and their bytes\<close>

record audit_record =
  au_seq :: u64
  au_prev_hash :: bytes
  au_timestamp :: int
  au_device_id :: id
  au_kind :: audit_kind
  au_detail :: "string option"
  au_origin :: "audit_origin option"

text \<open>\<open>s.as_bytes()[..len]\<close> with the length clamped to 32 bits.\<close>

definition push_str :: "string \<Rightarrow> bytes" where
  "push_str s =
     (let bs = str_bytes s; len = (if length bs < 2 ^ 32 then length bs else 2 ^ 32 - 1)
      in u32_to_le (word_of_nat len) @ take len bs)"

definition push_opt_str :: "string option \<Rightarrow> bytes" where
  "push_opt_str s = (case s of None \<Rightarrow> [0] | Some v \<Rightarrow> 1 # push_str v)"

fun kind_bytes :: "audit_kind \<Rightarrow> bytes" where
  "kind_bytes (ItemSecretRead i v f) = as_bytes i @ as_bytes v @ push_opt_str f"
| "kind_bytes (ItemCreate i v) = as_bytes i @ as_bytes v"
| "kind_bytes (ItemUpdate i v) = as_bytes i @ as_bytes v"
| "kind_bytes (ItemDelete i v) = as_bytes i @ as_bytes v"
| "kind_bytes (ItemRestore i v) = as_bytes i @ as_bytes v"
| "kind_bytes (Export f n) = push_str f @ u64_to_le n"
| "kind_bytes (VaultShare v p) = as_bytes v @ as_bytes p"
| "kind_bytes (DeviceTrust p) = as_bytes p"
| "kind_bytes (NearbySync p) = as_bytes p"
| "kind_bytes (AccessDenied r) = [deny_code r]"
| "kind_bytes _ = []"

definition origin_bytes :: "audit_origin option \<Rightarrow> bytes" where
  "origin_bytes ori =
     (case ori of None \<Rightarrow> []
      | Some ori \<Rightarrow> [1, source_code (ao_source ori)] @ push_opt_str (ao_process ori) @
          (case ao_pid ori of None \<Rightarrow> [0] | Some pid \<Rightarrow> 1 # u32_to_le pid))"

definition i64_to_le :: "int \<Rightarrow> bytes" where
  "i64_to_le i = u64_to_le (word_of_int i)"

definition canonical_bytes :: "audit_record \<Rightarrow> bytes" where
  "canonical_bytes r =
     u64_to_le (au_seq r) @ au_prev_hash r @ i64_to_le (au_timestamp r) @ as_bytes (au_device_id r) @
     [audit_code (au_kind r)] @ kind_bytes (au_kind r) @ push_opt_str (au_detail r) @ origin_bytes (au_origin r)"

definition audit_chain_hash :: "(bytes \<Rightarrow> bytes) \<Rightarrow> audit_record \<Rightarrow> bytes" where
  "audit_chain_hash H r = H (canonical_bytes r)"

definition AUDIT_GENESIS_LABEL :: bytes where
  "AUDIT_GENESIS_LABEL = str_bytes ''localpass/v1/audit-genesis''"

definition audit_genesis_hash :: "(bytes \<Rightarrow> bytes) \<Rightarrow> id \<Rightarrow> bytes" where
  "audit_genesis_hash H d = H (AUDIT_GENESIS_LABEL @ as_bytes d)"

section \<open>The table\<close>

record audit_row =
  al_seq :: int
  al_device_id :: bytes
  al_prev_hash :: bytes
  al_timestamp :: int
  al_kind :: int
  al_item_id :: "bytes option"
  al_vault_id :: "bytes option"
  al_peer_device_id :: "bytes option"
  al_field :: "string option"
  al_format :: "string option"
  al_item_count :: int
  al_detail :: "string option"
  al_deny_reason :: "int option"
  al_origin_source :: "int option"
  al_origin_process :: "string option"
  al_origin_pid :: "int option"

definition u8_try_from :: "int \<Rightarrow> byte option" where
  "u8_try_from i = (if 0 \<le> i \<and> i < 256 then Some (word_of_int i) else None)"

definition u32_try_from_i64 :: "int \<Rightarrow> u32 option" where
  "u32_try_from_i64 i = (if 0 \<le> i \<and> i < 2 ^ 32 then Some (word_of_int i) else None)"

definition req_id :: "bytes option \<Rightarrow> string \<Rightarrow> vault_error + id" where
  "req_id bs what = (case bs of Some b \<Rightarrow> id_from_slice b | None \<Rightarrow> Inl (VaultInvalid what))"

definition item_and_vault :: "audit_row \<Rightarrow> (id \<Rightarrow> id \<Rightarrow> audit_kind) \<Rightarrow> vault_error + audit_kind" where
  "item_and_vault r mk =
     bind_ok (req_id (al_item_id r) ''audit row missing item_id'') (\<lambda>i.
     bind_ok (req_id (al_vault_id r) ''audit row missing vault_id'') (\<lambda>v. Inr (mk i v)))"

definition kind_from_row :: "audit_row \<Rightarrow> vault_error + audit_kind" where
  "kind_from_row r =
     (case u8_try_from (al_kind r) of None \<Rightarrow> Inl (VaultInvalid ''unknown audit kind'')
      | Some c \<Rightarrow>
        if c = 1 then Inr UnlockSuccess
        else if c = 2 then Inr UnlockFailure
        else if c = 3 then item_and_vault r (\<lambda>i v. ItemSecretRead i v (al_field r))
        else if c = 4 then item_and_vault r ItemCreate
        else if c = 5 then item_and_vault r ItemUpdate
        else if c = 6 then item_and_vault r ItemDelete
        else if c = 7 then item_and_vault r ItemRestore
        else if c = 8 then
          bind_ok (ok_or (VaultInvalid ''audit row missing export format'') (al_format r)) (\<lambda>f.
          Inr (Export f (case u64_try_from_i64 (al_item_count r) of None \<Rightarrow> 0 | Some n \<Rightarrow> n)))
        else if c = 9 then
          bind_ok (req_id (al_vault_id r) ''audit row missing vault_id'') (\<lambda>v.
          bind_ok (req_id (al_peer_device_id r) ''audit row missing peer_device_id'') (\<lambda>p. Inr (VaultShare v p)))
        else if c = 10 then
          bind_ok (req_id (al_peer_device_id r) ''audit row missing peer_device_id'') (\<lambda>p. Inr (DeviceTrust p))
        else if c = 11 then Inr PairingModeEnabled
        else if c = 12 then Inr PairingModeDisabled
        else if c = 14 then Inr AgentFillModeEnabled
        else if c = 15 then Inr AgentFillModeDisabled
        else if c = 16 then Inr NearbyListenEnabled
        else if c = 17 then Inr NearbyListenDisabled
        else if c = 18 then
          bind_ok (req_id (al_peer_device_id r) ''audit row missing peer_device_id'') (\<lambda>p. Inr (NearbySync p))
        else if c = 13 then
          bind_ok (ok_or (VaultInvalid ''audit row missing deny reason'')
            (Option.bind (Option.bind (al_deny_reason r) u8_try_from) deny_from_code)) (\<lambda>d. Inr (AccessDenied d))
        else Inl (VaultInvalid ''unknown audit kind''))"

definition origin_from_row :: "audit_row \<Rightarrow> audit_origin option" where
  "origin_from_row r =
     (if al_origin_source r = None \<and> al_origin_process r = None \<and> al_origin_pid r = None then None
      else Some \<lparr>ao_source = (case Option.bind (al_origin_source r) u8_try_from of
                   None \<Rightarrow> SourceUnknown | Some c \<Rightarrow> source_from_code c),
                 ao_process = al_origin_process r,
                 ao_pid = Option.bind (al_origin_pid r) u32_try_from_i64\<rparr>)"

definition audit_record_from_columns :: "id \<Rightarrow> audit_row \<Rightarrow> vault_error + audit_record" where
  "audit_record_from_columns d r =
     (if length (al_prev_hash r) \<noteq> 32 then Inl (VaultInvalid ''stored audit prev_hash not 32 bytes'')
      else
        bind_ok (kind_from_row r) (\<lambda>kind.
        bind_ok (ok_or (VaultInvalid ''stored audit seq out of range'') (u64_try_from_i64 (al_seq r))) (\<lambda>sq.
        Inr \<lparr>au_seq = sq, au_prev_hash = al_prev_hash r, au_timestamp = al_timestamp r, au_device_id = d,
             au_kind = kind, au_detail = al_detail r, au_origin = origin_from_row r\<rparr>)))"

definition audit_columns :: "int \<Rightarrow> audit_record \<Rightarrow> audit_row" where
  "audit_columns sq r =
     \<lparr>al_seq = sq, al_device_id = as_bytes (au_device_id r), al_prev_hash = au_prev_hash r,
      al_timestamp = au_timestamp r, al_kind = uint (audit_code (au_kind r)),
      al_item_id = map_option as_bytes (audit_item_id (au_kind r)),
      al_vault_id = map_option as_bytes (audit_vault_id (au_kind r)),
      al_peer_device_id = map_option as_bytes (audit_peer_id (au_kind r)),
      al_field = (case au_kind r of ItemSecretRead _ _ f \<Rightarrow> f | _ \<Rightarrow> None),
      al_format = (case au_kind r of Export f _ \<Rightarrow> Some f | _ \<Rightarrow> None),
      al_item_count = (case au_kind r of Export _ n \<Rightarrow>
        (case i64_try_from_u64 n of None \<Rightarrow> 0 | Some i \<Rightarrow> i) | _ \<Rightarrow> 0),
      al_detail = au_detail r,
      al_deny_reason = map_option (\<lambda>d. uint (deny_code d)) (audit_deny_reason (au_kind r)),
      al_origin_source = map_option (\<lambda>ori. uint (source_code (ao_source ori))) (au_origin r),
      al_origin_process = Option.bind (au_origin r) ao_process,
      al_origin_pid = Option.bind (au_origin r) (\<lambda>ori. map_option uint (ao_pid ori))\<rparr>"

definition insert_audit_record :: "audit_record \<Rightarrow> audit_row list \<Rightarrow> vault_error + audit_row list" where
  "insert_audit_record r log =
     bind_ok (ok_or (VaultInvalid ''audit seq out of range'') (i64_try_from_u64 (au_seq r))) (\<lambda>sq.
     if \<exists>q\<in>set log. al_device_id q = as_bytes (au_device_id r) \<and> al_seq q = sq
     then Inl (Sqlite ''UNIQUE constraint failed: audit_log.device_id, audit_log.seq'')
     else Inr (log @ [audit_columns sq r]))"

definition device_rows :: "id \<Rightarrow> audit_row list \<Rightarrow> audit_row list" where
  "device_rows d log = filter (\<lambda>r. al_device_id r = as_bytes d) log"

definition read_last_audit_record :: "id \<Rightarrow> audit_row list \<Rightarrow> vault_error + audit_record option" where
  "read_last_audit_record d log =
     (case rev (sort_key al_seq (device_rows d log)) of [] \<Rightarrow> Inr None
      | r # _ \<Rightarrow> bind_ok (audit_record_from_columns d r) (\<lambda>rec. Inr (Some rec)))"

definition append_audit_record ::
  "(bytes \<Rightarrow> bytes) \<Rightarrow> audit_origin \<Rightarrow> int \<Rightarrow> id \<Rightarrow> audit_kind \<Rightarrow> string option \<Rightarrow>
     audit_row list \<Rightarrow> vault_error + audit_row list" where
  "append_audit_record H origin now d kind detail log =
     bind_ok (ok_or (VaultInvalid ''audit seq out of range'')
       (u64_try_from_i64 (i64_add (sql_max (map al_seq (device_rows d log))) 1))) (\<lambda>sq.
     bind_ok (read_last_audit_record d log) (\<lambda>prev.
     insert_audit_record
       \<lparr>au_seq = sq,
        au_prev_hash = (case prev of Some prev \<Rightarrow> audit_chain_hash H prev | None \<Rightarrow> audit_genesis_hash H d),
        au_timestamp = now, au_device_id = d, au_kind = kind, au_detail = detail,
        au_origin = (if origin_is_empty origin then None else Some origin)\<rparr> log))"

definition read_audit :: "id \<Rightarrow> int option \<Rightarrow> audit_row list \<Rightarrow> vault_error + audit_record list" where
  "read_audit d since log =
     (let floor = (case since of None \<Rightarrow> - (2 ^ 63) | Some t \<Rightarrow> t)
      in map_ok (audit_record_from_columns d)
           (sort_key al_seq (filter (\<lambda>r. floor \<le> al_timestamp r) (device_rows d log))))"

definition audit_iter :: "id \<Rightarrow> audit_row list \<Rightarrow> vault_error + audit_record list" where
  "audit_iter d log = read_audit d None log"

definition audit_since :: "id \<Rightarrow> int \<Rightarrow> audit_row list \<Rightarrow> vault_error + audit_record list" where
  "audit_since d since log = read_audit d (Some since) log"

fun verify_audit_records ::
  "(bytes \<Rightarrow> bytes) \<Rightarrow> u64 \<Rightarrow> bytes \<Rightarrow> audit_record list \<Rightarrow> vault_error + unit" where
  "verify_audit_records H expected prev [] = Inr ()"
| "verify_audit_records H expected prev (r # rs) =
     (if au_seq r \<noteq> expected then Inl (ChainVerification ''audit seq is not gapless from 1'')
      else if au_prev_hash r \<noteq> prev then Inl (ChainVerification ''audit prev_hash does not chain'')
      else verify_audit_records H (expected + 1) (audit_chain_hash H r) rs)"

definition verify_audit_chain :: "(bytes \<Rightarrow> bytes) \<Rightarrow> id \<Rightarrow> audit_row list \<Rightarrow> vault_error + unit" where
  "verify_audit_chain H d log =
     bind_ok (audit_iter d log) (\<lambda>records.
     verify_audit_records H 1 (audit_genesis_hash H d) records)"

section \<open>The bytes tell records apart\<close>

definition short :: "string \<Rightarrow> bool" where
  "short s \<longleftrightarrow> length s < 2 ^ 32"

definition i64_ok :: "int \<Rightarrow> bool" where
  "i64_ok i \<longleftrightarrow> - (2 ^ 63) \<le> i \<and> i < 2 ^ 63"

fun kind_ok :: "audit_kind \<Rightarrow> bool" where
  "kind_ok (ItemSecretRead i v f) \<longleftrightarrow> id_wf i \<and> id_wf v \<and> pred_option short f"
| "kind_ok (ItemCreate i v) \<longleftrightarrow> id_wf i \<and> id_wf v"
| "kind_ok (ItemUpdate i v) \<longleftrightarrow> id_wf i \<and> id_wf v"
| "kind_ok (ItemDelete i v) \<longleftrightarrow> id_wf i \<and> id_wf v"
| "kind_ok (ItemRestore i v) \<longleftrightarrow> id_wf i \<and> id_wf v"
| "kind_ok (Export f n) \<longleftrightarrow> short f"
| "kind_ok (VaultShare v p) \<longleftrightarrow> id_wf v \<and> id_wf p"
| "kind_ok (DeviceTrust p) \<longleftrightarrow> id_wf p"
| "kind_ok (NearbySync p) \<longleftrightarrow> id_wf p"
| "kind_ok _ \<longleftrightarrow> True"

definition origin_ok :: "audit_origin \<Rightarrow> bool" where
  "origin_ok ori \<longleftrightarrow> pred_option short (ao_process ori)"

definition record_ok :: "audit_record \<Rightarrow> bool" where
  "record_ok r \<longleftrightarrow> length (au_prev_hash r) = 32 \<and> i64_ok (au_timestamp r) \<and> id_wf (au_device_id r) \<and>
     kind_ok (au_kind r) \<and> pred_option short (au_detail r) \<and> pred_option origin_ok (au_origin r)"

lemma fixed_prefix: "length a = length b \<Longrightarrow> a @ x = b @ y \<longleftrightarrow> a = b \<and> x = y"
  by (rule append_eq_append_conv) simp

lemma u64_prefix [simp]: "u64_to_le a @ x = u64_to_le b @ y \<longleftrightarrow> a = b \<and> x = y"
  by (simp add: fixed_prefix)

lemma id_prefix: "id_wf a \<Longrightarrow> id_wf b \<Longrightarrow> as_bytes a @ x = as_bytes b @ y \<longleftrightarrow> a = b \<and> x = y"
  by (simp add: fixed_prefix id_wf_def id_eq_iff)

lemma i64_prefix: "i64_ok a \<Longrightarrow> i64_ok b \<Longrightarrow> i64_to_le a @ x = i64_to_le b @ y \<longleftrightarrow> a = b \<and> x = y"
proof -
  assume ab: "i64_ok a" "i64_ok b"
  have "(word_of_int a :: u64) = word_of_int b \<longleftrightarrow> a = b"
  proof
    assume "(word_of_int a :: u64) = word_of_int b"
    from arg_cong [OF this, of uint] have "a mod 2 ^ 64 = b mod 2 ^ 64" by (simp add: uint_word_of_int)
    then have "(a + 2 ^ 63) mod 2 ^ 64 = (b + 2 ^ 63) mod 2 ^ 64" by (metis mod_add_left_eq)
    then show "a = b" using ab by (simp add: i64_ok_def)
  qed simp
  then show ?thesis by (simp add: i64_to_le_def)
qed

lemma str_prefix: "short s \<Longrightarrow> short t \<Longrightarrow> push_str s @ x = push_str t @ y \<longleftrightarrow> s = t \<and> x = y"
proof -
  assume st: "short s" "short t"
  have eq: "push_str u = u32_to_le (word_of_nat (length u)) @ str_bytes u" if "short u" for u
    using that by (simp add: push_str_def short_def Let_def)
  have "s = t \<and> x = y" if "push_str s @ x = push_str t @ y"
  proof -
    have "(word_of_nat (length s) :: u32) = word_of_nat (length t)" "str_bytes s @ x = str_bytes t @ y"
      using that st by (simp_all add: eq fixed_prefix)
    moreover from arg_cong [OF this(1), of unat] have "length s = length t"
      using st by (simp add: short_def unat_of_nat)
    ultimately show ?thesis by (simp add: fixed_prefix)
  qed
  then show ?thesis by auto
qed

lemma opt_str_prefix:
  "pred_option short s \<Longrightarrow> pred_option short t \<Longrightarrow> push_opt_str s @ x = push_opt_str t @ y \<longleftrightarrow> s = t \<and> x = y"
  by (cases s; cases t) (auto simp: push_opt_str_def str_prefix)

lemma source_code_inject [simp]: "source_code a = source_code b \<longleftrightarrow> a = b"
  by (cases a; cases b) simp_all

lemma deny_code_inject [simp]: "deny_code a = deny_code b \<longleftrightarrow> a = b"
  by (cases a; cases b) simp_all

lemma origin_bytes_inject:
  "pred_option origin_ok a \<Longrightarrow> pred_option origin_ok b \<Longrightarrow> origin_bytes a = origin_bytes b \<longleftrightarrow> a = b"
proof (cases a; cases b)
  fix p q
  assume ok: "pred_option origin_ok a" "pred_option origin_ok b" and ab: "a = Some p" "b = Some q"
  let ?pid = "\<lambda>pid. case pid of None \<Rightarrow> [0 :: byte] | Some pid \<Rightarrow> 1 # u32_to_le pid"
  have pid: "?pid i = ?pid j \<longleftrightarrow> i = j" for i j by (cases i; cases j) auto
  have "origin_bytes a = origin_bytes b \<longleftrightarrow>
      ao_source p = ao_source q \<and> push_opt_str (ao_process p) @ ?pid (ao_pid p) = push_opt_str (ao_process q) @ ?pid (ao_pid q)"
    by (simp add: ab origin_bytes_def)
  also have "\<dots> \<longleftrightarrow> ao_source p = ao_source q \<and> ao_process p = ao_process q \<and> ao_pid p = ao_pid q"
    using ok by (simp add: ab origin_ok_def opt_str_prefix pid)
  finally show ?thesis by (cases p; cases q) (simp add: ab)
qed (simp_all add: origin_bytes_def)

lemma kind_prefix:
  assumes "kind_ok a" and "kind_ok b"
  shows "audit_code a = audit_code b \<and> kind_bytes a @ x = kind_bytes b @ y \<longleftrightarrow> a = b \<and> x = y"
  using assms by (cases a; cases b) (auto simp: id_prefix opt_str_prefix str_prefix)

lemma canonical_bytes_inject:
  assumes "record_ok r" and "record_ok q"
  shows "canonical_bytes r = canonical_bytes q \<longleftrightarrow> r = q"
proof
  assume "canonical_bytes r = canonical_bytes q"
  then have "au_seq r = au_seq q" "au_prev_hash r = au_prev_hash q" "au_timestamp r = au_timestamp q"
    "au_device_id r = au_device_id q" "au_kind r = au_kind q" "au_detail r = au_detail q" "au_origin r = au_origin q"
    using assms
    by (simp_all add: canonical_bytes_def record_ok_def fixed_prefix i64_prefix id_prefix kind_prefix opt_str_prefix
        origin_bytes_inject)
  then show "r = q" by simp
qed simp

section \<open>Rows read back\<close>

text \<open>A count beyond the column's range is stored as 0.\<close>

fun stored_kind :: "audit_kind \<Rightarrow> audit_kind" where
  "stored_kind (Export f n) = Export f (if uint n \<le> i64_max then n else 0)"
| "stored_kind k = k"

fun kind_ids_ok :: "audit_kind \<Rightarrow> bool" where
  "kind_ids_ok k \<longleftrightarrow> pred_option id_wf (audit_item_id k) \<and> pred_option id_wf (audit_vault_id k) \<and>
     pred_option id_wf (audit_peer_id k)"

lemma u8_round [simp]: "u8_try_from (uint c) = Some c"
  using unsigned_less [where ?'a = int and w = c] by (simp add: u8_try_from_def)

lemma u8_small [simp]: "u8_try_from 1 = Some 1" "u8_try_from (numeral n) = (if numeral n < (256 :: int) then Some (numeral n) else None)"
  by (simp_all add: u8_try_from_def)

lemma u32_round [simp]: "u32_try_from_i64 (uint c) = Some c"
  using unsigned_less [where ?'a = int and w = c] by (simp add: u32_try_from_i64_def)

lemma source_round [simp]: "source_from_code (source_code c) = c"
  by (cases c) (simp_all add: source_from_code_def)

lemma deny_round [simp]: "deny_from_code (deny_code r) = Some r"
  by (cases r) (simp_all add: deny_from_code_def deny_reasons_def)

lemma source_label_round [simp]: "source_from_label (source_label c) = c"
  by (cases c) (simp_all add: source_from_label_def)

lemma kind_from_columns: "kind_ids_ok (au_kind r) \<Longrightarrow> kind_from_row (audit_columns sq r) = Inr (stored_kind (au_kind r))"
  unfolding kind_from_row_def audit_columns_def
  by (cases "au_kind r") (simp_all add: item_and_vault_def req_id_def id_from_slice_wf i64_try_from_u64_def u64_try_from_i64_def)

lemma origin_from_columns: "origin_from_row (audit_columns sq r) = au_origin r"
proof (cases "au_origin r")
  case (Some ori)
  then show ?thesis by (cases ori; cases "ao_pid ori") (auto simp: origin_from_row_def audit_columns_def)
qed (simp add: origin_from_row_def audit_columns_def)

lemma record_from_columns:
  assumes "kind_ids_ok (au_kind r)" and "length (au_prev_hash r) = 32" and "i64_try_from_u64 (au_seq r) = Some sq"
    and "au_device_id r = d"
  shows "audit_record_from_columns d (audit_columns sq r) = Inr (r\<lparr>au_kind := stored_kind (au_kind r)\<rparr>)"
proof -
  have "u64_try_from_i64 sq = Some (au_seq r)"
    using assms(3) by (auto simp: i64_try_from_u64_def u64_try_from_i64_def split: if_splits)
  then show ?thesis
    using assms kind_from_columns [OF assms(1), of sq]
    by (simp add: audit_record_from_columns_def origin_from_columns) (simp add: audit_columns_def)
qed

section \<open>The chain\<close>

lemma verify_audit_append:
  "verify_audit_records H e p (rs @ [r]) = Inr () \<longleftrightarrow>
     verify_audit_records H e p rs = Inr () \<and> au_seq r = e + word_of_nat (length rs) \<and>
     au_prev_hash r = (if rs = [] then p else audit_chain_hash H (last rs))"
  by (induction rs arbitrary: e p) (auto simp: algebra_simps)

text \<open>The rows of a device are its records in order, numbered from 1.\<close>

definition audited :: "(bytes \<Rightarrow> bytes) \<Rightarrow> id \<Rightarrow> audit_row list \<Rightarrow> audit_record list \<Rightarrow> bool" where
  "audited H d log rs \<longleftrightarrow>
     map_ok (audit_record_from_columns d) (device_rows d log) = Inr rs \<and>
     map al_seq (device_rows d log) = map int [1..<length rs + 1] \<and>
     (\<forall>r\<in>set (device_rows d log). - (2 ^ 63) \<le> al_timestamp r) \<and>
     verify_audit_records H 1 (audit_genesis_hash H d) rs = Inr ()"

lemma audited_Nil: "audited H d [] []"
  by (simp add: audited_def device_rows_def)

lemma audited_sorted: "audited H d log rs \<Longrightarrow> sort_key al_seq (device_rows d log) = device_rows d log"
proof (rule sort_key_id_if_sorted)
  have "sorted (map int [1..<n])" for n by (induction n) (auto simp: sorted_append)
  then show "audited H d log rs \<Longrightarrow> sorted (map al_seq (device_rows d log))" by (simp add: audited_def del: upt_Suc)
qed

lemma audited_iter: "audited H d log rs \<Longrightarrow> audit_iter d log = Inr rs"
proof -
  assume a: "audited H d log rs"
  then have "filter (\<lambda>r. - (2 ^ 63) \<le> al_timestamp r) (device_rows d log) = device_rows d log"
    by (intro filter_True) (auto simp: audited_def)
  with a audited_sorted [OF a] show ?thesis by (simp add: audit_iter_def read_audit_def Let_def audited_def)
qed

lemma audited_verifies: "audited H d log rs \<Longrightarrow> verify_audit_chain H d log = Inr ()"
  by (simp add: verify_audit_chain_def audited_iter) (simp add: audited_def)

lemma map_ok_snoc: "map_ok f (xs @ [x]) = bind_ok (map_ok f xs) (\<lambda>ys. bind_ok (f x) (\<lambda>y. Inr (ys @ [y])))"
  by (induction xs) (simp_all add: bind_ok_assoc)

lemma append_audited:
  assumes "audited H d log rs" and "kind_ids_ok kind" and "i64_ok now" and "id_wf d"
    and "\<And>x. length (H x) = 32" and "int (length rs) < i64_max"
  shows "\<exists>log' r. append_audit_record H ori now d kind detail log = Inr log' \<and> audited H d log' (rs @ [r]) \<and>
    au_timestamp r = now \<and> au_kind r = stored_kind kind \<and> au_detail r = detail \<and>
    au_origin r = (if origin_is_empty ori then None else Some ori)"
proof -
  let ?n = "length rs" and ?rows = "device_rows d log"
  define w where "w = (word_of_int (int ?n + 1) :: u64)"
  have w: "uint w = int ?n + 1"
    unfolding w_def uint_word_of_int using assms(6) by (simp add: i64_max_def)
  have add: "i64_add (int ?n) 1 = int ?n + 1" using assms(6) by (simp add: i64_add_def i64_max_def)
  have rows: "map_ok (audit_record_from_columns d) ?rows = Inr rs" "map al_seq ?rows = map int [1..<?n + 1]"
    using assms(1) by (simp_all only: audited_def)
  have len: "length ?rows = ?n" using map_ok_Inr_length [OF rows(1)] by simp
  have max: "sql_max (map al_seq ?rows) = int ?n"
  proof (cases "?rows = []")
    case False
    have "al_seq (last ?rows) = last (map al_seq ?rows)" by (rule last_map [OF False, symmetric])
    also have "\<dots> = int ?n" unfolding rows(2) using False len by (cases rs) auto
    finally show ?thesis using sql_max_sorted [OF False, of al_seq] audited_sorted [OF assms(1)] by simp
  qed (use len in \<open>simp add: sql_max_def\<close>)
  have last: "read_last_audit_record d log = Inr (if rs = [] then None else Some (last rs))"
  proof (cases ?rows rule: rev_cases)
    case (snoc ys y)
    then have "audit_record_from_columns d y = Inr (last rs)" "rs \<noteq> []"
      using rows(1) len by (auto simp: map_ok_Inr_list_all2 list_all2_append1 list_all2_Cons1)
    then show ?thesis using snoc audited_sorted [OF assms(1)] by (simp add: read_last_audit_record_def)
  qed (use audited_sorted [OF assms(1)] len in \<open>simp add: read_last_audit_record_def\<close>)
  define r0 where "r0 = \<lparr>au_seq = w,
      au_prev_hash = (if rs = [] then audit_genesis_hash H d else audit_chain_hash H (last rs)),
      au_timestamp = now, au_device_id = d, au_kind = kind, au_detail = detail,
      au_origin = (if origin_is_empty ori then None else Some ori)\<rparr>"
  have sq: "i64_try_from_u64 (au_seq r0) = Some (int ?n + 1)"
    using w assms(6) by (simp add: r0_def i64_try_from_u64_def)
  have new: "\<not> (\<exists>q\<in>set log. al_device_id q = as_bytes d \<and> al_seq q = int ?n + 1)"
  proof
    assume "\<exists>q\<in>set log. al_device_id q = as_bytes d \<and> al_seq q = int ?n + 1"
    then have "int ?n + 1 \<in> set (map al_seq ?rows)" by (force simp: device_rows_def)
    then show False unfolding rows(2) by auto
  qed
  let ?log = "log @ [audit_columns (int ?n + 1) r0]"
  have seq_w: "u64_try_from_i64 (int ?n + 1) = Some w" unfolding u64_try_from_i64_def w_def by simp
  have "append_audit_record H ori now d kind detail log = insert_audit_record r0 log"
    unfolding append_audit_record_def max add seq_w last
    by (cases "rs = []") (simp_all add: r0_def)
  also have "\<dots> = Inr ?log"
    using new by (simp add: insert_audit_record_def sq) (simp add: r0_def)
  finally have app: "append_audit_record H ori now d kind detail log = Inr ?log" .
  have decoded: "audit_record_from_columns d (audit_columns (int ?n + 1) r0) = Inr (r0\<lparr>au_kind := stored_kind kind\<rparr>)"
    using record_from_columns [of r0, OF _ _ sq, of d] assms(2,5)
    by (simp add: r0_def audit_chain_hash_def audit_genesis_hash_def)
  have new_rows: "device_rows d ?log = ?rows @ [audit_columns (int ?n + 1) r0]"
    by (simp add: device_rows_def audit_columns_def r0_def)
  have "audited H d ?log (rs @ [r0\<lparr>au_kind := stored_kind kind\<rparr>])"
    unfolding audited_def new_rows map_ok_snoc
    using assms(1,3) decoded
    by (auto simp: audited_def verify_audit_append r0_def w_def i64_ok_def audit_columns_def)
  then show ?thesis using app by (intro exI conjI) (auto simp: r0_def)
qed

section \<open>Properties\<close>

type_synonym audit_call = "audit_origin \<times> int \<times> audit_kind \<times> string option"

definition append_calls ::
  "(bytes \<Rightarrow> bytes) \<Rightarrow> id \<Rightarrow> audit_call list \<Rightarrow> audit_row list \<Rightarrow> vault_error + audit_row list" where
  "append_calls H d = fold_ok (\<lambda>(ori, now, kind, detail). append_audit_record H ori now d kind detail)"

definition call_ok :: "audit_call \<Rightarrow> bool" where
  "call_ok call = (case call of (ori, now, kind, detail) \<Rightarrow> kind_ids_ok kind \<and> i64_ok now)"

definition call_record :: "audit_call \<Rightarrow> int \<times> audit_kind \<times> string option \<times> audit_origin option" where
  "call_record call = (case call of (ori, now, kind, detail) \<Rightarrow>
     (now, stored_kind kind, detail, if origin_is_empty ori then None else Some ori))"

definition record_call :: "audit_record \<Rightarrow> int \<times> audit_kind \<times> string option \<times> audit_origin option" where
  "record_call r = (au_timestamp r, au_kind r, au_detail r, au_origin r)"

lemma append_calls_audited:
  assumes "audited H d log rs" and "\<forall>call\<in>set calls. call_ok call" and "id_wf d" and "\<And>x. length (H x) = 32"
    and "int (length rs + length calls) \<le> i64_max"
  shows "\<exists>log' rs'. append_calls H d calls log = Inr log' \<and> audited H d log' (rs @ rs') \<and>
    map record_call rs' = map call_record calls"
  using assms
proof (induction calls arbitrary: log rs)
  case Nil
  then show ?case by (intro exI [of _ log] exI [of _ "[]"]) (simp add: append_calls_def)
next
  case (Cons call calls)
  obtain ori now kind detail where call: "call = (ori, now, kind, detail)" by (cases call)
  obtain log1 r where one: "append_audit_record H ori now d kind detail log = Inr log1" "audited H d log1 (rs @ [r])"
    and r: "record_call r = call_record call"
    using append_audited [OF Cons.prems(1), of kind now ori detail] Cons.prems(2-5)
    by (auto simp: call call_ok_def call_record_def record_call_def)
  obtain log2 rs' where "append_calls H d calls log1 = Inr log2" "audited H d log2 ((rs @ [r]) @ rs')"
    "map record_call rs' = map call_record calls"
    using Cons.IH [OF one(2) _ Cons.prems(3,4)] Cons.prems(2,5) by auto
  with one(1) r show ?case
    by (intro exI [of _ log2] exI [of _ "r # rs'"]) (simp add: append_calls_def call)
qed

text \<open>
  Recording never breaks the log: whatever is recorded, in whatever order and by whichever
  callers, every append succeeds, the log reads back exactly what was recorded (an export count
  beyond 63 bits as 0, an empty origin as none) and the chain check passes.
\<close>

theorem audit_history_verifies:
  assumes "\<And>x. length (H x) = 32" and "id_wf d" and "\<forall>call\<in>set calls. call_ok call"
    and "int (length calls) \<le> i64_max"
  shows "\<exists>log rs. append_calls H d calls [] = Inr log \<and> verify_audit_chain H d log = Inr () \<and>
    audit_iter d log = Inr rs \<and> map record_call rs = map call_record calls"
proof -
  obtain log rs where "append_calls H d calls [] = Inr log" "audited H d log ([] @ rs)"
    "map record_call rs = map call_record calls"
    using append_calls_audited [where H = H, OF audited_Nil assms(3,2,1)] assms(4) by auto
  then show ?thesis using audited_verifies audited_iter by fastforce
qed

definition ex_audit_hash :: "bytes \<Rightarrow> bytes" where
  "ex_audit_hash bs = replicate 31 (foldl (\<lambda>h b. 3 * h + b) 1 bs) @ [word_of_nat (length bs)]"

definition ex_calls :: "audit_call list" where
  "ex_calls = [(no_origin, 100, UnlockSuccess, None),
     (\<lparr>ao_source = SourceCli, ao_process = Some ''localpass'', ao_pid = Some 77\<rparr>, 105,
      ItemSecretRead (ex_id 7) (ex_id 1) (Some ''password''), None),
     (no_origin, 104, Export ''csv'' 12, Some ''note'')]"

lemma ex_calls_ok: "\<forall>call\<in>set ex_calls. call_ok call"
  by (simp add: ex_calls_def call_ok_def i64_ok_def)

lemma audit_history_verifies_witness:
  "\<exists>log rs. append_calls ex_audit_hash (ex_id 2) ex_calls [] = Inr log \<and> verify_audit_chain ex_audit_hash (ex_id 2) log = Inr () \<and>
    audit_iter (ex_id 2) log = Inr rs \<and>
    map record_call rs = [(100, UnlockSuccess, None, None),
      (105, ItemSecretRead (ex_id 7) (ex_id 1) (Some ''password''), None,
        Some \<lparr>ao_source = SourceCli, ao_process = Some ''localpass'', ao_pid = Some 77\<rparr>),
      (104, Export ''csv'' 12, Some ''note'', None)]"
proof -
  have calls: "map call_record ex_calls = [(100, UnlockSuccess, None, None),
      (105, ItemSecretRead (ex_id 7) (ex_id 1) (Some ''password''), None,
        Some \<lparr>ao_source = SourceCli, ao_process = Some ''localpass'', ao_pid = Some 77\<rparr>),
      (104, Export ''csv'' 12, Some ''note'', None)]"
    by (simp add: ex_calls_def call_record_def no_origin_def origin_is_empty_def i64_max_def)
  show ?thesis
    using audit_history_verifies [of ex_audit_hash "ex_id 2" ex_calls] ex_calls_ok
    unfolding calls by (simp add: ex_audit_hash_def ex_calls_def i64_max_def)
qed

lemma verified_same_head:
  assumes "verify_audit_records H e p rs = Inr ()" and "verify_audit_records H e p qs = Inr ()"
    and "length rs = length qs" and "rs \<noteq> []" and "last rs = last qs"
    and "\<And>a b. a \<in> set rs \<Longrightarrow> b \<in> set qs \<Longrightarrow> audit_chain_hash H a = audit_chain_hash H b \<Longrightarrow> a = b"
  shows "rs = qs"
  using assms
proof (induction rs arbitrary: qs rule: rev_induct)
  case (snoc r rs)
  obtain q qs' where qs: "qs = qs' @ [q]" using snoc.prems(3) by (cases qs rule: rev_cases) auto
  have rq: "r = q" and len: "length rs = length qs'" using snoc.prems(3,5) by (simp_all add: qs)
  show ?case
  proof (cases "rs = []")
    case False
    have ver: "verify_audit_records H e p rs = Inr ()" "verify_audit_records H e p qs' = Inr ()"
      and link: "audit_chain_hash H (last rs) = audit_chain_hash H (last qs')"
      using snoc.prems(1,2) False len rq by (auto simp: qs verify_audit_append)
    have "last rs \<in> set rs" "last qs' \<in> set qs'" using False len by (auto intro!: last_in_set)
    then have "last rs = last qs'" using snoc.prems(6) link by (auto simp: qs)
    from snoc.IH [OF ver len False this] snoc.prems(6) have "rs = qs'" by (auto simp: qs)
    with rq show ?thesis by (simp add: qs)
  qed (use rq len in \<open>simp add: qs\<close>)
qed simp

text \<open>
  Claim C23. The log is tamper-evident up to its newest record: two states of a device's log that both
  pass the chain check, hold equally many records and end in the same record are the same record for
  record, short of a collision of BLAKE3 on the records' bytes.
\<close>

theorem audit_tamper_evident:
  assumes "verify_audit_chain H d log = Inr ()" and "verify_audit_chain H d log' = Inr ()"
    and "audit_iter d log = Inr rs" and "audit_iter d log' = Inr rs'"
    and "length rs = length rs'" and "rs \<noteq> []" and "last rs = last rs'"
    and "\<forall>r\<in>set rs \<union> set rs'. record_ok r"
    and "inj_on H (canonical_bytes ` (set rs \<union> set rs'))"
  shows "rs = rs'"
proof (rule verified_same_head)
  show "verify_audit_records H 1 (audit_genesis_hash H d) rs = Inr ()"
    "verify_audit_records H 1 (audit_genesis_hash H d) rs' = Inr ()"
    using assms(1-4) by (simp_all add: verify_audit_chain_def)
  show "a = b" if "a \<in> set rs" "b \<in> set rs'" and eq: "audit_chain_hash H a = audit_chain_hash H b" for a b
  proof -
    have "canonical_bytes a = canonical_bytes b"
      by (rule inj_onD [OF assms(9)]) (use eq that(1,2) in \<open>simp_all add: audit_chain_hash_def\<close>)
    then show ?thesis using assms(8) that canonical_bytes_inject [of a b] by blast
  qed
qed (fact assms(5-7))+

lemma map_ok_Inr_mem: "map_ok f xs = Inr ys \<Longrightarrow> y \<in> set ys \<Longrightarrow> \<exists>x\<in>set xs. f x = Inr y"
  by (induction xs arbitrary: ys) (auto simp: bind_ok_Inr_iff)

lemma audited_record:
  assumes "audited H d log rs" and "r \<in> set rs"
  shows "length (au_prev_hash r) = 32 \<and> au_device_id r = d"
proof -
  obtain q where "audit_record_from_columns d q = Inr r"
    using map_ok_Inr_mem [of "audit_record_from_columns d" "device_rows d log" rs r] assms by (auto simp: audited_def)
  then show ?thesis by (auto simp: audit_record_from_columns_def bind_ok_Inr_iff split: if_splits)
qed

text \<open>A row of another device in the same table.\<close>

definition ex_other_row :: audit_row where
  "ex_other_row = audit_columns 1 \<lparr>au_seq = 1, au_prev_hash = replicate 32 0, au_timestamp = 3, au_device_id = ex_id 9,
     au_kind = UnlockFailure, au_detail = None, au_origin = None\<rparr>"

lemma audit_tamper_evident_witness:
  "\<exists>log log' rs. log \<noteq> log' \<and> length rs = 2 \<and> audit_iter (ex_id 2) log = Inr rs \<and> audit_iter (ex_id 2) log' = Inr rs \<and>
     verify_audit_chain ex_audit_hash (ex_id 2) log' = Inr ()"
proof -
  obtain log rs where log: "audited ex_audit_hash (ex_id 2) log rs" and rc: "map record_call rs = map call_record (take 2 ex_calls)"
    using append_calls_audited [where H = ex_audit_hash and d = "ex_id 2", OF audited_Nil, of "take 2 ex_calls"] ex_calls_ok
    by (auto simp: ex_audit_hash_def ex_calls_def i64_max_def)
  obtain a b where rs: "rs = [a, b]"
    and a: "au_kind a = UnlockSuccess" "au_detail a = None" "au_origin a = None" "au_timestamp a = 100"
    and b: "au_kind b = ItemSecretRead (ex_id 7) (ex_id 1) (Some ''password'')" "au_detail b = None" "au_timestamp b = 105"
      "au_origin b = Some \<lparr>ao_source = SourceCli, ao_process = Some ''localpass'', ao_pid = Some 77\<rparr>"
    using rc by (auto simp: ex_calls_def call_record_def record_call_def no_origin_def origin_is_empty_def)
  note fields = audited_record [OF log, unfolded rs]
  have ok: "record_ok r" if "r \<in> {a, b}" for r
    using that fields [of a] fields [of b] a b by (auto simp: record_ok_def i64_ok_def origin_ok_def short_def)
  have "length (canonical_bytes a) = 66" "length (canonical_bytes b) = 132"
    using fields [of a] fields [of b] a b
    by (simp_all add: canonical_bytes_def i64_to_le_def push_opt_str_def push_str_def origin_bytes_def ex_id_def)
  then have "last (ex_audit_hash (canonical_bytes a)) \<noteq> last (ex_audit_hash (canonical_bytes b))"
    unfolding ex_audit_hash_def by (simp del: word_of_nat_eq_0_iff)
  then have inj: "inj_on ex_audit_hash (canonical_bytes ` (set rs \<union> set rs))" by (auto simp: rs inj_on_def)
  let ?log = "ex_other_row # log"
  have other: "device_rows (ex_id 2) ?log = device_rows (ex_id 2) log"
    by (simp add: device_rows_def ex_other_row_def audit_columns_def ex_id_def)
  then have log': "audited ex_audit_hash (ex_id 2) ?log rs" using log by (simp add: audited_def del: upt_Suc)
  have "rs = rs"
    by (rule audit_tamper_evident [OF audited_verifies [OF log] audited_verifies [OF log']
          audited_iter [OF log] audited_iter [OF log']]) (use ok inj in \<open>auto simp: rs\<close>)
  then show ?thesis
    using audited_iter [OF log] audited_iter [OF log'] audited_verifies [OF log'] rs
    by (intro exI [of _ log] exI [of _ ?log] exI [of _ rs]) simp
qed

text \<open>Nothing covers the newest record itself: it may be dropped, and its time or note changed.\<close>

lemma device_rows_snoc:
  "al_device_id r = as_bytes d \<Longrightarrow> device_rows d (log @ [r]) = device_rows d log @ [r]"
  by (simp add: device_rows_def)

lemma audit_iter_snoc:
  assumes "al_device_id r = as_bytes d" and "\<forall>q\<in>set (device_rows d log). al_seq q \<le> al_seq r"
    and "- (2 ^ 63) \<le> al_timestamp r"
  shows "audit_iter d (log @ [r]) =
    bind_ok (audit_iter d log) (\<lambda>rs. bind_ok (audit_record_from_columns d r) (\<lambda>a. Inr (rs @ [a])))"
proof -
  let ?f = "\<lambda>r. - (2 ^ 63) \<le> al_timestamp r"
  have "sort_key al_seq (filter ?f (device_rows d log) @ [r]) = sort_key al_seq (filter ?f (device_rows d log)) @ [r]"
    using assms(2) by (intro sort_key_snoc) auto
  then show ?thesis
    using assms(1,3) by (simp add: audit_iter_def read_audit_def Let_def device_rows_snoc map_ok_snoc)
qed

theorem audit_newest_unprotected:
  assumes "verify_audit_chain H d (log @ [r]) = Inr ()" and "al_device_id r = as_bytes d"
    and "\<forall>q\<in>set (device_rows d log). al_seq q \<le> al_seq r" and "- (2 ^ 63) \<le> al_timestamp r"
    and "- (2 ^ 63) \<le> t"
  shows "verify_audit_chain H d log = Inr () \<and>
    verify_audit_chain H d (log @ [r\<lparr>al_timestamp := t, al_detail := note'\<rparr>]) = Inr ()"
proof -
  let ?r = "r\<lparr>al_timestamp := t, al_detail := note'\<rparr>"
  obtain rs a where rs: "audit_iter d log = Inr rs" and a: "audit_record_from_columns d r = Inr a"
    and ver: "verify_audit_records H 1 (audit_genesis_hash H d) (rs @ [a]) = Inr ()"
    using assms(1) unfolding verify_audit_chain_def audit_iter_snoc [OF assms(2-4)]
    by (auto simp: bind_ok_Inr_iff)
  have "kind_from_row ?r = kind_from_row r" "origin_from_row ?r = origin_from_row r"
    by (cases r, simp only: kind_from_row_def item_and_vault_def origin_from_row_def audit_row.simps)+
  then have new: "audit_record_from_columns d ?r = Inr (a\<lparr>au_timestamp := t, au_detail := note'\<rparr>)"
    using a by (auto simp: audit_record_from_columns_def bind_ok_Inr_iff split: if_splits)
  have "audit_iter d (log @ [?r]) = Inr (rs @ [a\<lparr>au_timestamp := t, au_detail := note'\<rparr>])"
    using audit_iter_snoc [of ?r d log] assms(2,3,5) rs new by simp
  then show ?thesis using ver rs by (auto simp: verify_audit_chain_def verify_audit_append)
qed

end
