(* ===== verification/Kdf.thy ===== *)
theory Kdf
  imports Keys
begin

text \<open>
  \<open>lp-crypto/src/kdf.rs\<close>, \<open>params.rs\<close>, \<open>muk.rs\<close> and \<open>seal.rs\<close>: labelled key derivation, the cost
  parameters and their bytes, the master unlock key, and messages sealed to a device's X25519 key.
  Argon2id, HKDF-SHA256 and X25519 are the parameters \<open>argon2\<close>, \<open>hkdf\<close> and \<open>x25519\<close>; the ephemeral
  secret of a call comes from the system's random source and is part of \<open>x25519\<close>.
\<close>

section \<open>Key derivation\<close>

text \<open>Salt, keying material and info to 32 bytes.\<close>

type_synonym hkdf = "bytes \<Rightarrow> bytes \<Rightarrow> bytes \<Rightarrow> bytes"

definition hkdf_sha256_32_transcript :: "hkdf \<Rightarrow> bytes \<Rightarrow> bytes \<Rightarrow> string \<Rightarrow> bytes \<Rightarrow> crypto_error + bytes" where
  "hkdf_sha256_32_transcript hkdf salt ikm label transcript =
     bind_ok (check_label label) (\<lambda>label. Inr (hkdf salt ikm (str_bytes label @ transcript)))"

definition hkdf_sha256_32 :: "hkdf \<Rightarrow> bytes \<Rightarrow> bytes \<Rightarrow> string \<Rightarrow> crypto_error + bytes" where
  "hkdf_sha256_32 hkdf salt ikm label = hkdf_sha256_32_transcript hkdf salt ikm label []"

section \<open>Cost parameters\<close>

record kdf_params =
  kp_m_cost_kib :: u32
  kp_t_cost :: u32
  kp_p_cost :: u32
  kp_salt :: bytes

definition PARAMS_VERSION :: byte where
  "PARAMS_VERSION = 0x01"

definition SALT_LEN :: nat where
  "SALT_LEN = 16"

definition PARAMS_SERIALIZED_LEN :: nat where
  "PARAMS_SERIALIZED_LEN = 1 + 4 + 4 + 4 + SALT_LEN"

text \<open>\<open>recommended\<close>, with the salt the random source hands out.\<close>

definition recommended :: "bytes \<Rightarrow> kdf_params" where
  "recommended salt = \<lparr>kp_m_cost_kib = 64 * 1024, kp_t_cost = 3, kp_p_cost = 4, kp_salt = salt\<rparr>"

definition params_to_bytes :: "kdf_params \<Rightarrow> bytes" where
  "params_to_bytes p =
     PARAMS_VERSION # u32_to_le (kp_m_cost_kib p) @ u32_to_le (kp_t_cost p) @ u32_to_le (kp_p_cost p) @ kp_salt p"

definition params_from_bytes :: "bytes \<Rightarrow> crypto_error + kdf_params" where
  "params_from_bytes bs =
     (if length bs \<noteq> PARAMS_SERIALIZED_LEN then Inl (InvalidKdfParams ''wrong serialized length'')
      else if bs ! 0 \<noteq> PARAMS_VERSION then Inl (InvalidKdfParams ''unsupported params version'')
      else
        let m = u32_from_le (take 4 (drop 1 bs));
            t = u32_from_le (take 4 (drop 5 bs));
            p = u32_from_le (take 4 (drop 9 bs))
        in if m = 0 \<or> t = 0 \<or> p = 0 then Inl (InvalidKdfParams ''cost parameters must be non-zero'')
           else Inr \<lparr>kp_m_cost_kib = m, kp_t_cost = t, kp_p_cost = p, kp_salt = drop 13 bs\<rparr>)"

definition params_wf :: "kdf_params \<Rightarrow> bool" where
  "params_wf p \<longleftrightarrow> kp_m_cost_kib p \<noteq> 0 \<and> kp_t_cost p \<noteq> 0 \<and> kp_p_cost p \<noteq> 0 \<and> length (kp_salt p) = SALT_LEN"

lemma params_codec: "params_from_bytes bs = Inr p \<longleftrightarrow> params_wf p \<and> bs = params_to_bytes p"
proof
  assume "params_wf p \<and> bs = params_to_bytes p"
  then show "params_from_bytes bs = Inr p"
    by (simp add: params_from_bytes_def params_to_bytes_def params_wf_def PARAMS_SERIALIZED_LEN_def SALT_LEN_def)
next
  assume dec: "params_from_bytes bs = Inr p"
  then have len: "length bs = 29" and ver: "bs ! 0 = PARAMS_VERSION"
    and p: "p = \<lparr>kp_m_cost_kib = u32_from_le (take 4 (drop 1 bs)), kp_t_cost = u32_from_le (take 4 (drop 5 bs)),
      kp_p_cost = u32_from_le (take 4 (drop 9 bs)), kp_salt = drop 13 bs\<rparr>"
    and nz: "u32_from_le (take 4 (drop 1 bs)) \<noteq> 0" "u32_from_le (take 4 (drop 5 bs)) \<noteq> 0" "u32_from_le (take 4 (drop 9 bs)) \<noteq> 0"
    by (auto simp: params_from_bytes_def PARAMS_SERIALIZED_LEN_def SALT_LEN_def Let_def split: if_splits)
  obtain v rest where bs: "bs = v # rest" using len by (cases bs) auto
  have "rest = take 4 rest @ take 4 (drop 4 rest) @ take 4 (drop 8 rest) @ drop 12 rest"
    using take_drop_rest [of 4 0 rest] take_drop_rest [of 4 4 rest] take_drop_rest [of 4 8 rest] by simp
  then show "params_wf p \<and> bs = params_to_bytes p"
    using len ver nz by (simp add: p bs params_wf_def params_to_bytes_def SALT_LEN_def u32_to_from_le)
qed

section \<open>The master unlock key\<close>

record argon2 =
  argon2_accepts :: "u32 \<Rightarrow> u32 \<Rightarrow> u32 \<Rightarrow> bool"
  argon2id :: "u32 \<Rightarrow> u32 \<Rightarrow> u32 \<Rightarrow> bytes \<Rightarrow> bytes \<Rightarrow> bytes option"

definition MUK_LABEL :: string where
  "MUK_LABEL = ''localpass/v1/muk''"

definition derive_master_unlock_key ::
  "argon2 \<Rightarrow> hkdf \<Rightarrow> bytes \<Rightarrow> bytes \<Rightarrow> kdf_params \<Rightarrow> crypto_error + bytes" where
  "derive_master_unlock_key A hkdf password secret_key p =
     (if \<not> argon2_accepts A (kp_m_cost_kib p) (kp_t_cost p) (kp_p_cost p)
      then Inl (InvalidKdfParams ''Argon2 rejected the cost parameters'')
      else bind_ok (ok_or (InvalidKdfParams ''Argon2 derivation failed'')
        (argon2id A (kp_m_cost_kib p) (kp_t_cost p) (kp_p_cost p) password (kp_salt p))) (\<lambda>argon_out.
      hkdf_sha256_32 hkdf secret_key argon_out MUK_LABEL))"

section \<open>Sealed messages\<close>

text \<open>The public key of a secret, the shared secret, and the ephemeral secret of a sealing call.\<close>

record x25519 =
  x_public :: "bytes \<Rightarrow> bytes"
  x_shared :: "bytes \<Rightarrow> bytes \<Rightarrow> bytes"
  x_ephemeral :: "bytes \<Rightarrow> bytes \<Rightarrow> bytes \<Rightarrow> bytes"

text \<open>What the crate documents: public keys have 32 bytes and both sides compute one shared secret.\<close>

definition x25519_ok :: "x25519 \<Rightarrow> bool" where
  "x25519_ok X \<longleftrightarrow> (\<forall>a b. length (x_public X a) = 32 \<and> x_shared X a (x_public X b) = x_shared X b (x_public X a))"

definition SEAL_LABEL :: string where
  "SEAL_LABEL = ''localpass/v1/seal''"

definition SEAL_VERSION :: byte where
  "SEAL_VERSION = 0x01"

definition SEAL_PUBLIC_KEY_LEN :: nat where
  "SEAL_PUBLIC_KEY_LEN = 32"

text \<open>\<open>was_contributory\<close>: the shared point is not the identity.\<close>

definition was_contributory :: "bytes \<Rightarrow> bool" where
  "was_contributory shared \<longleftrightarrow> shared \<noteq> replicate 32 0"

definition derive_seal_key :: "hkdf \<Rightarrow> bytes \<Rightarrow> bytes \<Rightarrow> bytes \<Rightarrow> crypto_error + bytes" where
  "derive_seal_key hkdf shared ephemeral_pk recipient_pk =
     hkdf_sha256_32_transcript hkdf [] shared SEAL_LABEL (ephemeral_pk @ recipient_pk)"

definition seal_for :: "x25519 \<Rightarrow> hkdf \<Rightarrow> aead \<Rightarrow> bytes \<Rightarrow> bytes \<Rightarrow> bytes \<Rightarrow> crypto_error + bytes" where
  "seal_for X hkdf A recipient plaintext aad =
     (let secret = x_ephemeral X recipient plaintext aad;
          ephemeral = x_public X secret;
          shared = x_shared X secret recipient
      in if \<not> was_contributory shared then Inl (InvalidPublicKey ''low-order X25519 recipient key'')
         else bind_ok (derive_seal_key hkdf shared ephemeral recipient) (\<lambda>sym.
              bind_ok (sym_seal A sym plaintext aad) (\<lambda>envelope.
              Inr (SEAL_VERSION # ephemeral @ envelope_to_bytes envelope))))"

definition seal_key_for :: "x25519 \<Rightarrow> hkdf \<Rightarrow> aead \<Rightarrow> bytes \<Rightarrow> bytes \<Rightarrow> bytes \<Rightarrow> crypto_error + bytes" where
  "seal_key_for X hkdf A recipient key aad = seal_for X hkdf A recipient key aad"

fun sealing_open :: "x25519 \<Rightarrow> hkdf \<Rightarrow> aead \<Rightarrow> bytes \<Rightarrow> bytes \<Rightarrow> bytes \<Rightarrow> crypto_error + bytes" where
  "sealing_open X hkdf A secret [] aad = Inl (MalformedEnvelope ''empty sealed message'')"
| "sealing_open X hkdf A secret (version # rest) aad =
     (if version \<noteq> SEAL_VERSION then Inl (MalformedEnvelope ''unsupported sealed-message version'')
      else if length rest < SEAL_PUBLIC_KEY_LEN then Inl (MalformedEnvelope ''truncated: ephemeral key incomplete'')
      else
        let ephemeral = take SEAL_PUBLIC_KEY_LEN rest;
            envelope_bytes = drop SEAL_PUBLIC_KEY_LEN rest;
            shared = x_shared X secret ephemeral
        in if \<not> was_contributory shared then Inl CryptoDecryptionFailed
           else bind_ok (derive_seal_key hkdf shared ephemeral (x_public X secret)) (\<lambda>sym.
                bind_ok (envelope_from_bytes envelope_bytes) (\<lambda>envelope.
                sym_open A sym envelope aad)))"

definition sealing_open_key :: "x25519 \<Rightarrow> hkdf \<Rightarrow> aead \<Rightarrow> bytes \<Rightarrow> bytes \<Rightarrow> bytes \<Rightarrow> crypto_error + bytes" where
  "sealing_open_key X hkdf A secret sealed aad =
     bind_ok (sealing_open X hkdf A secret sealed aad) (\<lambda>plain.
     if length plain \<noteq> SYMMETRIC_KEY_LEN then Inl CryptoDecryptionFailed else Inr plain)"

text \<open>Whatever is sealed to a device's public key opens with its secret under the same associated data.\<close>

lemma seal_open:
  assumes "x25519_ok X" and "aead_ok A" and "seal_for X hkdf A (x_public X secret) plaintext aad = Inr sealed"
  shows "sealing_open X hkdf A secret sealed aad = Inr plaintext"
proof -
  let ?e = "x_ephemeral X (x_public X secret) plaintext aad"
  let ?shared = "x_shared X ?e (x_public X secret)"
  have len: "length (x_public X ?e) = 32" and sym: "x_shared X secret (x_public X ?e) = ?shared"
    using assms(1) by (simp_all add: x25519_ok_def)
  obtain key envelope where k: "was_contributory ?shared" "derive_seal_key hkdf ?shared (x_public X ?e) (x_public X secret) = Inr key"
    and e: "sym_seal A key plaintext aad = Inr envelope" and s: "sealed = SEAL_VERSION # x_public X ?e @ envelope_to_bytes envelope"
    using assms(3) by (auto simp: seal_for_def Let_def bind_ok_Inr_iff split: if_splits)
  from sym_seal_open [OF assms(2) e] k len sym show ?thesis
    by (simp add: s SEAL_PUBLIC_KEY_LEN_def)
qed

lemma seal_open_key:
  assumes "x25519_ok X" and "aead_ok A" and "seal_key_for X hkdf A (x_public X secret) key aad = Inr sealed"
    and "length key = SYMMETRIC_KEY_LEN"
  shows "sealing_open_key X hkdf A secret sealed aad = Inr key"
  using seal_open [OF assms(1,2)] assms(3,4) by (simp add: seal_key_for_def sealing_open_key_def)

end
