(* ===== verification/Account.thy ===== *)
theory Account
  imports AuditLog Kdf
begin

text \<open>
  The account store of one device (\<open>lp-vault/src/account.rs\<close>): creation, unlocking, password change,
  the device's identity, the registry of vaults, trusted peers, settings, audit entries, and the
  sharing of a vault key with another device. The draws of the random source (keys, ids, salts) and
  the clock are arguments; the cryptographic crates are the record \<open>crypto_lib\<close>.
\<close>

section \<open>Libraries and tables\<close>

record crypto_lib =
  cl_aead :: aead
  cl_hkdf :: hkdf
  cl_argon2 :: argon2
  cl_x25519 :: x25519
  cl_blake3 :: "bytes \<Rightarrow> bytes"
  cl_ed_public :: "bytes \<Rightarrow> bytes"
  cl_ed_sign :: "bytes \<Rightarrow> bytes \<Rightarrow> bytes"
  cl_ed_verify :: "bytes \<Rightarrow> bytes \<Rightarrow> bytes \<Rightarrow> bool"
  cl_vk_from_bytes :: "bytes \<Rightarrow> crypto_error + bytes"

record kdf_row =
  kd_kdf :: int
  kd_argon2_m_kib :: int
  kd_argon2_t :: int
  kd_argon2_p :: int
  kd_salt :: bytes
  kd_secret_key_id :: bytes

record identity_row =
  di_device_id :: bytes
  di_ed25519_pub :: bytes
  di_x25519_pub :: bytes
  di_ed25519_priv_env :: bytes
  di_x25519_priv_env :: bytes
  di_created_at :: int

record peer_row =
  pr_ed25519_pub :: bytes
  pr_x25519_pub :: bytes
  pr_verified_at :: int
  pr_label :: "string option"

record registry_row =
  rg_name_env :: bytes
  rg_wrapped_vault_key :: bytes
  rg_cipher_suite :: int
  rg_created_at :: int
  rg_deleted_at :: "int option"

record account_db =
  ac_format_version :: int
  ac_created_at :: int
  ac_kdf :: kdf_row
  ac_wrapped_account_key :: bytes
  ac_wrapped_at :: int
  ac_identity :: identity_row
  ac_peers :: "(bytes, peer_row) btree"
  ac_registry :: "(bytes, registry_row) btree"
  ac_settings :: "(string, string option) btree"
  ac_audit :: "audit_row list"

text \<open>A profile directory: the account store and the vault files beside it.\<close>

record 'x profile =
  pf_account :: account_db
  pf_vaults :: "(bytes, 'x vault_db) btree"

definition FORMAT_VERSION :: int where "FORMAT_VERSION = 1"
definition CIPHER_SUITE_XCHACHA :: int where "CIPHER_SUITE_XCHACHA = 1"
definition KDF_ARGON2ID :: int where "KDF_ARGON2ID = 1"

text \<open>An unlocked session: the signing key is the Ed25519 seed.\<close>

record live_session = "bytes session" +
  ls_account_key :: bytes
  ls_sealing :: bytes
  ls_x25519_pub :: bytes

section \<open>Peers and settings\<close>

record trusted_peer =
  pd_device_id :: id
  pd_ed25519_pub :: bytes
  pd_x25519_pub :: bytes
  pd_verified_at :: int
  pd_label :: "string option"

definition to_32 :: "bytes \<Rightarrow> string \<Rightarrow> vault_error + bytes" where
  "to_32 bs err = (if length bs = 32 then Inr bs else Inl (VaultInvalid err))"

definition peer_of_row :: "id \<Rightarrow> peer_row \<Rightarrow> vault_error + trusted_peer" where
  "peer_of_row d r =
     bind_ok (to_32 (pr_ed25519_pub r) ''stored peer ed25519_pub was not 32 bytes'') (\<lambda>ed.
     bind_ok (to_32 (pr_x25519_pub r) ''stored peer x25519_pub was not 32 bytes'') (\<lambda>x.
     Inr \<lparr>pd_device_id = d, pd_ed25519_pub = ed, pd_x25519_pub = x,
          pd_verified_at = pr_verified_at r, pd_label = pr_label r\<rparr>))"

definition peer_device :: "account_db \<Rightarrow> id \<Rightarrow> vault_error + trusted_peer option" where
  "peer_device acc d =
     (case bt_get (ac_peers acc) (as_bytes d) of
        None \<Rightarrow> Inr None
      | Some r \<Rightarrow> bind_ok (peer_of_row d r) (\<lambda>p. Inr (Some p)))"

definition peer_devices :: "account_db \<Rightarrow> vault_error + trusted_peer list" where
  "peer_devices acc =
     map_ok (\<lambda>(k, r). bind_ok (id_from_slice k) (\<lambda>d. peer_of_row d r))
       (sort_key (\<lambda>(k, r). pr_verified_at r) (ac_peers acc))"

definition get_setting :: "account_db \<Rightarrow> string \<Rightarrow> string option" where
  "get_setting acc key = (case bt_get (ac_settings acc) key of None \<Rightarrow> None | Some v \<Rightarrow> v)"

definition set_setting :: "string \<Rightarrow> string \<Rightarrow> account_db \<Rightarrow> account_db" where
  "set_setting key value acc = acc\<lparr>ac_settings := bt_insert key (Some value) (ac_settings acc)\<rparr>"

lemma get_set_setting [simp]:
  "get_setting (set_setting key v acc) k = (if k = key then Some v else get_setting acc k)"
  by (simp add: get_setting_def set_setting_def)

lemma peer_device_set_setting [simp]: "peer_device (set_setting key v acc) d = peer_device acc d"
  by (simp add: peer_device_def set_setting_def)

lemma peer_device_Some:
  "peer_device acc d = Inr (Some p) \<Longrightarrow>
     pd_device_id p = d \<and> (\<exists>r. bt_get (ac_peers acc) (as_bytes d) = Some r \<and> pd_ed25519_pub p = pr_ed25519_pub r)"
  by (auto simp: peer_device_def peer_of_row_def to_32_def bind_ok_Inr_iff split: option.splits if_splits)

lemma peer_device_None: "peer_device acc d = Inr None \<longleftrightarrow> bt_get (ac_peers acc) (as_bytes d) = None"
  by (auto simp: peer_device_def bind_ok_Inr_iff split: option.splits)

section \<open>Audit entries\<close>

definition record_audit ::
  "crypto_lib \<Rightarrow> audit_origin \<Rightarrow> int \<Rightarrow> id \<Rightarrow> audit_kind \<Rightarrow> string option \<Rightarrow> account_db \<Rightarrow> vault_error + account_db" where
  "record_audit L ori now d kind detail acc =
     bind_ok (append_audit_record (cl_blake3 L) ori now d kind detail (ac_audit acc)) (\<lambda>log.
     Inr (acc\<lparr>ac_audit := log\<rparr>))"

text \<open>A best-effort call, \<open>.ok()\<close>: its error is dropped and its transaction rolled back.\<close>

definition best_effort :: "(account_db \<Rightarrow> vault_error + account_db) \<Rightarrow> account_db \<Rightarrow> account_db" where
  "best_effort f acc = (case f acc of Inl _ \<Rightarrow> acc | Inr acc \<Rightarrow> acc)"

definition read_device_id :: "account_db \<Rightarrow> vault_error + id" where
  "read_device_id acc = id_from_slice (di_device_id (ac_identity acc))"

definition record_unlock_failure :: "crypto_lib \<Rightarrow> audit_origin \<Rightarrow> int \<Rightarrow> account_db \<Rightarrow> vault_error + account_db" where
  "record_unlock_failure L ori now acc =
     bind_ok (read_device_id acc) (\<lambda>d. record_audit L ori now d UnlockFailure None acc)"

definition record_access_denied ::
  "crypto_lib \<Rightarrow> audit_origin \<Rightarrow> int \<Rightarrow> deny_reason \<Rightarrow> account_db \<Rightarrow> vault_error + account_db" where
  "record_access_denied L ori now reason acc =
     bind_ok (read_device_id acc) (\<lambda>d. record_audit L ori now d (AccessDenied reason) None acc)"

definition trust_peer_device ::
  "crypto_lib \<Rightarrow> audit_origin \<Rightarrow> int \<Rightarrow> live_session \<Rightarrow> id \<Rightarrow> bytes \<Rightarrow> bytes \<Rightarrow> string option \<Rightarrow>
     account_db \<Rightarrow> account_db" where
  "trust_peer_device L ori now ses d ed x label acc =
     best_effort (record_audit L ori now (ss_device_id ses) (DeviceTrust d) None)
       (acc\<lparr>ac_peers := bt_insert (as_bytes d)
          \<lparr>pr_ed25519_pub = ed, pr_x25519_pub = x, pr_verified_at = now, pr_label = label\<rparr> (ac_peers acc)\<rparr>)"

section \<open>The account key and the device's identity\<close>

definition aad_str :: "bytes \<Rightarrow> string" where
  "aad_str bs = bytes_str bs"

definition ak_open :: "crypto_lib \<Rightarrow> bytes \<Rightarrow> bytes \<Rightarrow> bytes \<Rightarrow> vault_error + bytes" where
  "ak_open L key env aad =
     map_err from_crypto (bind_ok (envelope_from_bytes env) (\<lambda>e. sym_open (cl_aead L) key e aad))"

definition ak_seal :: "crypto_lib \<Rightarrow> bytes \<Rightarrow> bytes \<Rightarrow> bytes \<Rightarrow> vault_error + bytes" where
  "ak_seal L key plaintext aad =
     bind_ok (map_err from_crypto (sym_seal (cl_aead L) key plaintext aad)) (\<lambda>e. Inr (envelope_to_bytes e))"

definition ak_wrap :: "crypto_lib \<Rightarrow> bytes \<Rightarrow> bytes \<Rightarrow> bytes \<Rightarrow> vault_error + bytes" where
  "ak_wrap L key target aad =
     bind_ok (map_err from_crypto (wrap_key (cl_aead L) key target (aad_str aad))) (\<lambda>e. Inr (envelope_to_bytes e))"

definition ak_unwrap :: "crypto_lib \<Rightarrow> bytes \<Rightarrow> bytes \<Rightarrow> bytes \<Rightarrow> vault_error + bytes" where
  "ak_unwrap L key env aad =
     map_err from_crypto (bind_ok (envelope_from_bytes env) (\<lambda>e. unwrap_key (cl_aead L) key e (aad_str aad)))"

definition open_secret_32 :: "crypto_lib \<Rightarrow> bytes \<Rightarrow> bytes \<Rightarrow> bytes \<Rightarrow> string \<Rightarrow> vault_error + bytes" where
  "open_secret_32 L account_key env aad len_err =
     bind_ok (ak_open L account_key env aad) (\<lambda>plain.
     if length plain \<noteq> 32 then Inl (VaultInvalid len_err) else Inr plain)"

definition device_insert ::
  "crypto_lib \<Rightarrow> bytes \<Rightarrow> id \<Rightarrow> bytes \<Rightarrow> bytes \<Rightarrow> int \<Rightarrow> vault_error + identity_row" where
  "device_insert L account_key d ed_seed x_secret now =
     bind_ok (ak_seal L account_key ed_seed (aad_device_ed25519 d)) (\<lambda>ed_env.
     bind_ok (ak_seal L account_key x_secret (aad_device_x25519 d)) (\<lambda>x_env.
     Inr \<lparr>di_device_id = as_bytes d, di_ed25519_pub = cl_ed_public L ed_seed,
          di_x25519_pub = x_public (cl_x25519 L) x_secret, di_ed25519_priv_env = ed_env,
          di_x25519_priv_env = x_env, di_created_at = now\<rparr>))"

definition session_of :: "crypto_lib \<Rightarrow> bytes \<Rightarrow> id \<Rightarrow> bytes \<Rightarrow> bytes \<Rightarrow> live_session" where
  "session_of L account_key d ed_seed x_secret =
     \<lparr>ss_device_id = d, ss_signing = ed_seed, ss_ed25519_pub = cl_ed_public L ed_seed,
      ls_account_key = account_key, ls_sealing = x_secret, ls_x25519_pub = x_public (cl_x25519 L) x_secret\<rparr>"

definition device_load :: "crypto_lib \<Rightarrow> bytes \<Rightarrow> identity_row \<Rightarrow> vault_error + live_session" where
  "device_load L account_key r =
     bind_ok (id_from_slice (di_device_id r)) (\<lambda>d.
     bind_ok (to_32 (di_ed25519_pub r) ''stored ed25519_pub was not 32 bytes'') (\<lambda>ed_pub.
     bind_ok (to_32 (di_x25519_pub r) ''stored x25519_pub was not 32 bytes'') (\<lambda>x_pub.
     bind_ok (open_secret_32 L account_key (di_ed25519_priv_env r) (aad_device_ed25519 d)
       ''stored ed25519 seed was not 32 bytes'') (\<lambda>ed_seed.
     bind_ok (open_secret_32 L account_key (di_x25519_priv_env r) (aad_device_x25519 d)
       ''stored x25519 secret was not 32 bytes'') (\<lambda>x_secret.
     if cl_ed_public L ed_seed \<noteq> ed_pub \<or> x_public (cl_x25519 L) x_secret \<noteq> x_pub
     then Inl (VaultInvalid ''device identity public keys do not match reconstructed secrets'')
     else Inr (session_of L account_key d ed_seed x_secret))))))"

section \<open>Creating, unlocking and re-keying the account\<close>

definition read_kdf_params :: "kdf_row \<Rightarrow> vault_error + kdf_params" where
  "read_kdf_params r =
     (if length (kd_salt r) \<noteq> 16 then Inl (VaultInvalid ''stored salt was not 16 bytes'')
      else
        bind_ok (ok_or (VaultInvalid ''m_cost out of range'') (u32_try_from_i64 (kd_argon2_m_kib r))) (\<lambda>m.
        bind_ok (ok_or (VaultInvalid ''t_cost out of range'') (u32_try_from_i64 (kd_argon2_t r))) (\<lambda>t.
        bind_ok (ok_or (VaultInvalid ''p_cost out of range'') (u32_try_from_i64 (kd_argon2_p r))) (\<lambda>p.
        Inr \<lparr>kp_m_cost_kib = m, kp_t_cost = t, kp_p_cost = p, kp_salt = kd_salt r\<rparr>))))"

definition set_kdf_params :: "kdf_params \<Rightarrow> kdf_row \<Rightarrow> kdf_row" where
  "set_kdf_params p r =
     r\<lparr>kd_argon2_m_kib := uint (kp_m_cost_kib p), kd_argon2_t := uint (kp_t_cost p),
       kd_argon2_p := uint (kp_p_cost p), kd_salt := kp_salt p\<rparr>"

definition account_muk :: "crypto_lib \<Rightarrow> string \<Rightarrow> bytes \<Rightarrow> kdf_params \<Rightarrow> vault_error + bytes" where
  "account_muk L password secret_key p =
     map_err from_crypto (derive_master_unlock_key (cl_argon2 L) (cl_hkdf L) (str_bytes password) secret_key p)"

text \<open>What \<open>create\<close> draws.\<close>

record account_draws =
  dr_secret_key :: bytes
  dr_salt :: bytes
  dr_account_key :: bytes
  dr_device_id :: id
  dr_ed_seed :: bytes
  dr_x_secret :: bytes
  dr_secret_key_id :: id

definition account_create ::
  "crypto_lib \<Rightarrow> account_draws \<Rightarrow> int \<Rightarrow> string \<Rightarrow> 'x profile option \<Rightarrow>
     vault_error + (live_session \<times> bytes \<times> 'x profile)" where
  "account_create L dr now password dir =
     (if dir \<noteq> None then Inl (VaultInvalid ''account store already exists'')
      else
        let params = recommended (dr_salt dr) in
        bind_ok (account_muk L password (dr_secret_key dr) params) (\<lambda>muk.
        bind_ok (ak_wrap L muk (dr_account_key dr) aad_account_key) (\<lambda>wrapped_ak.
        bind_ok (device_insert L (dr_account_key dr) (dr_device_id dr) (dr_ed_seed dr) (dr_x_secret dr) now) (\<lambda>row.
        Inr (session_of L (dr_account_key dr) (dr_device_id dr) (dr_ed_seed dr) (dr_x_secret dr), dr_secret_key dr,
          \<lparr>pf_account =
             \<lparr>ac_format_version = FORMAT_VERSION, ac_created_at = now,
              ac_kdf = set_kdf_params params
                \<lparr>kd_kdf = KDF_ARGON2ID, kd_argon2_m_kib = 0, kd_argon2_t = 0, kd_argon2_p = 0, kd_salt = [],
                 kd_secret_key_id = as_bytes (dr_secret_key_id dr)\<rparr>,
              ac_wrapped_account_key = wrapped_ak, ac_wrapped_at = now, ac_identity = row,
              ac_peers = [], ac_registry = [], ac_settings = [], ac_audit = []\<rparr>,
           pf_vaults = []\<rparr>)))))"

definition check_format_version :: "int \<Rightarrow> vault_error + unit" where
  "check_format_version found = (if FORMAT_VERSION < found then Inl (UnsupportedFormat found FORMAT_VERSION) else Inr ())"

definition unlock_inner ::
  "crypto_lib \<Rightarrow> bool \<Rightarrow> audit_origin \<Rightarrow> int \<Rightarrow> string \<Rightarrow> bytes \<Rightarrow> account_db \<Rightarrow>
     (vault_error + live_session) \<times> account_db" where
  "unlock_inner L audit ori now password secret_key acc =
     (case bind_ok (check_format_version (ac_format_version acc)) (\<lambda>_.
           bind_ok (read_kdf_params (ac_kdf acc)) (\<lambda>params.
           bind_ok (account_muk L password secret_key params) (\<lambda>muk.
           bind_ok (map_err from_crypto (envelope_from_bytes (ac_wrapped_account_key acc))) (\<lambda>envelope.
           Inr (map_err from_crypto (unwrap_key (cl_aead L) muk envelope (aad_str aad_account_key))))))) of
        Inl e \<Rightarrow> (Inl e, acc)
      | Inr (Inl e) \<Rightarrow>
          (Inl e, if audit \<and> e = DecryptionFailed then best_effort (record_unlock_failure L ori now) acc else acc)
      | Inr (Inr account_key) \<Rightarrow>
          (case device_load L account_key (ac_identity acc) of
             Inl e \<Rightarrow> (Inl e, acc)
           | Inr ses \<Rightarrow>
               (Inr ses, if audit then best_effort (record_audit L ori now (ss_device_id ses) UnlockSuccess None) acc
                         else acc)))"

text \<open>\<open>unlock\<close> and \<open>unlock_quiet\<close> of a directory.\<close>

definition unlock_dir ::
  "crypto_lib \<Rightarrow> bool \<Rightarrow> audit_origin \<Rightarrow> int \<Rightarrow> string \<Rightarrow> bytes \<Rightarrow> 'x profile option \<Rightarrow>
     (vault_error + live_session) \<times> 'x profile option" where
  "unlock_dir L audit ori now password secret_key dir =
     (case dir of None \<Rightarrow> (Inl (NotFoundEntity ''account store''), None)
      | Some pf \<Rightarrow>
          (case unlock_inner L audit ori now password secret_key (pf_account pf) of
             (r, acc) \<Rightarrow> (r, Some (pf\<lparr>pf_account := acc\<rparr>))))"

definition change_password ::
  "crypto_lib \<Rightarrow> bytes \<Rightarrow> int \<Rightarrow> string \<Rightarrow> string \<Rightarrow> bytes \<Rightarrow> account_db \<Rightarrow> vault_error + account_db" where
  "change_password L new_salt now old_password new_password secret_key acc =
     bind_ok (read_kdf_params (ac_kdf acc)) (\<lambda>old_params.
     bind_ok (account_muk L old_password secret_key old_params) (\<lambda>old_muk.
     bind_ok (ak_unwrap L old_muk (ac_wrapped_account_key acc) aad_account_key) (\<lambda>account_key.
     let new_params = recommended new_salt in
     bind_ok (account_muk L new_password secret_key new_params) (\<lambda>new_muk.
     bind_ok (ak_wrap L new_muk account_key aad_account_key) (\<lambda>new_env.
     Inr (acc\<lparr>ac_kdf := set_kdf_params new_params (ac_kdf acc), ac_wrapped_account_key := new_env,
             ac_wrapped_at := now\<rparr>))))))"

section \<open>The registry of vaults\<close>

definition empty_vault :: "'x \<Rightarrow> 'x vault_db" where
  "empty_vault ix =
     \<lparr>db_ops = [], db_items = [], db_versions = [], db_wrapped_keys = [], db_tombstones = [],
      db_attachments = [], db_folders = [], db_index = ix\<rparr>"

definition registry_insert :: "id \<Rightarrow> registry_row \<Rightarrow> account_db \<Rightarrow> vault_error + account_db" where
  "registry_insert v row acc =
     bind_ok (sql_insert ''vault_registry.vault_id'' (as_bytes v) row (ac_registry acc)) (\<lambda>reg.
     Inr (acc\<lparr>ac_registry := reg\<rparr>))"

text \<open>
  The vault file is committed before the registry row: an error after it leaves a file that no row
  names.
\<close>

definition new_vault_file :: "id \<Rightarrow> 'x \<Rightarrow> 'x profile \<Rightarrow> vault_error + 'x profile" where
  "new_vault_file v ix pf =
     (if bt_get (pf_vaults pf) (as_bytes v) \<noteq> None then Inl (Sqlite ''table meta already exists'')
      else Inr (pf\<lparr>pf_vaults := bt_insert (as_bytes v) (empty_vault ix) (pf_vaults pf)\<rparr>))"

definition register_vault :: "crypto_lib \<Rightarrow> live_session \<Rightarrow> id \<Rightarrow> bytes \<Rightarrow> int \<Rightarrow> string \<Rightarrow> account_db \<Rightarrow> vault_error + account_db" where
  "register_vault L ses v vault_key now name acc =
     bind_ok (ak_seal L (ls_account_key ses) (str_bytes name) (aad_vault_name v)) (\<lambda>name_env.
     bind_ok (ak_wrap L (ls_account_key ses) vault_key (aad_vault_key v)) (\<lambda>wrapped_vk.
     registry_insert v
       \<lparr>rg_name_env = name_env, rg_wrapped_vault_key = wrapped_vk, rg_cipher_suite = CIPHER_SUITE_XCHACHA,
        rg_created_at = now, rg_deleted_at = None\<rparr> acc))"

definition create_vault ::
  "crypto_lib \<Rightarrow> live_session \<Rightarrow> id \<Rightarrow> bytes \<Rightarrow> 'x \<Rightarrow> int \<Rightarrow> string \<Rightarrow> 'x profile \<Rightarrow> (vault_error + id) \<times> 'x profile" where
  "create_vault L ses v vault_key ix now name pf =
     (case new_vault_file v ix pf of Inl e \<Rightarrow> (Inl e, pf)
      | Inr pf1 \<Rightarrow>
          (case register_vault L ses v vault_key now name (pf_account pf1) of Inl e \<Rightarrow> (Inl e, pf1)
           | Inr acc \<Rightarrow> (Inr v, pf1\<lparr>pf_account := acc\<rparr>)))"

text \<open>The live registry row of a vault.\<close>

definition live_row :: "account_db \<Rightarrow> id \<Rightarrow> vault_error + registry_row" where
  "live_row acc v =
     (case bt_get (ac_registry acc) (as_bytes v) of None \<Rightarrow> Inl (NotFoundEntity ''vault'')
      | Some r \<Rightarrow> if rg_deleted_at r \<noteq> None then Inl (NotFoundEntity ''vault (soft-deleted)'') else Inr r)"

text \<open>\<open>open_vault\<close> up to the open file: the vault's key.\<close>

definition open_vault_key :: "crypto_lib \<Rightarrow> live_session \<Rightarrow> id \<Rightarrow> account_db \<Rightarrow> vault_error + bytes" where
  "open_vault_key L ses v acc =
     bind_ok (live_row acc v) (\<lambda>r.
     ak_unwrap L (ls_account_key ses) (rg_wrapped_vault_key r) (aad_vault_key v))"

definition list_vaults :: "crypto_lib \<Rightarrow> live_session \<Rightarrow> account_db \<Rightarrow> vault_error + (id \<times> string) list" where
  "list_vaults L ses acc =
     map_ok (\<lambda>(k, r).
       bind_ok (id_from_slice k) (\<lambda>v.
       bind_ok (ak_open L (ls_account_key ses) (rg_name_env r) (aad_vault_name v)) (\<lambda>name.
       if utf8_valid name then Inr (v, bytes_str name)
       else Inl (VaultInvalid ''decrypted vault name was not UTF-8''))))
     (sort_key (\<lambda>(k, r). rg_created_at r) (filter (\<lambda>(k, r). rg_deleted_at r = None) (ac_registry acc)))"

definition soft_delete_vault :: "id \<Rightarrow> int \<Rightarrow> account_db \<Rightarrow> vault_error + account_db" where
  "soft_delete_vault v now acc =
     (case bt_get (ac_registry acc) (as_bytes v) of
        Some r \<Rightarrow>
          if rg_deleted_at r = None
          then Inr (acc\<lparr>ac_registry := bt_insert (as_bytes v) (r\<lparr>rg_deleted_at := Some now\<rparr>) (ac_registry acc)\<rparr>)
          else Inl (NotFoundEntity ''vault'')
      | None \<Rightarrow> Inl (NotFoundEntity ''vault''))"

text \<open>The search over the numbered names ends: every taken name rules out one number only.\<close>

definition shared_name :: "string \<Rightarrow> nat \<Rightarrow> string" where
  "shared_name desired n = desired @ '' (shared '' @ nat_to_string n @ '')''"

definition taken_from :: "string list \<Rightarrow> string \<Rightarrow> nat \<Rightarrow> nat set" where
  "taken_from existing desired n = {m. n \<le> m \<and> shared_name desired m \<in> set existing}"

lemma shared_name_inject [simp]: "shared_name d m = shared_name d n \<longleftrightarrow> m = n"
  by (auto simp: shared_name_def nat_to_string_inject)

lemma finite_taken: "finite (taken_from existing desired n)"
proof (rule finite_imageD)
  show "finite (shared_name desired ` taken_from existing desired n)"
    by (rule finite_subset [of _ "set existing"]) (auto simp: taken_from_def)
qed (auto intro: inj_onI)

function find_shared_name :: "string list \<Rightarrow> string \<Rightarrow> nat \<Rightarrow> string" where
  "find_shared_name existing desired n =
     (if shared_name desired n \<in> set existing then find_shared_name existing desired (n + 1)
      else shared_name desired n)"
  by pat_completeness auto
termination
proof (relation "measure (\<lambda>(existing, desired, n). card (taken_from existing desired n))")
  fix existing :: "string list" and desired :: string and n :: nat
  assume taken: "shared_name desired n \<in> set existing"
  have "taken_from existing desired (n + 1) \<subset> taken_from existing desired n"
  proof (rule psubsetI)
    show "taken_from existing desired (n + 1) \<subseteq> taken_from existing desired n"
      by (auto simp: taken_from_def)
    have "n \<in> taken_from existing desired n" and "n \<notin> taken_from existing desired (n + 1)"
      using taken by (simp_all add: taken_from_def)
    then show "taken_from existing desired (n + 1) \<noteq> taken_from existing desired n"
      by blast
  qed
  then show "((existing, desired, n + 1), existing, desired, n) \<in>
      measure (\<lambda>(existing, desired, n). card (taken_from existing desired n))"
    by (simp add: psubset_card_mono [OF finite_taken])
qed simp

declare find_shared_name.simps [simp del]

definition disambiguate_vault_name :: "string list \<Rightarrow> string \<Rightarrow> string" where
  "disambiguate_vault_name existing desired =
     (if desired \<notin> set existing then desired
      else
        let base = desired @ '' (shared)''
        in if base \<notin> set existing then base else find_shared_name existing desired 2)"

end
