(* ===== verification/Ingest.thy ===== *)
theory Ingest
  imports LogView Account
begin

text \<open>
  The ingest of \<open>lp-sync/src/engine.rs\<close>: a batch of foreign ops is verified against the local chain
  tails, merged with everything the vault holds and applied in one transaction. The panic of the
  verifier or the merge is the error \<open>Panic\<close>; the clock is an argument.
\<close>

section \<open>Ingest\<close>

record ingest_report =
  ig_applied :: nat
  ig_skipped :: nat
  ig_pending :: nat
  ig_quarantines :: "quarantine list"

text \<open>One device of the verifier's state: its pinned key and the tail of its chain.\<close>

definition device_chain_of ::
  "(bytes \<Rightarrow> crypto_error + bytes) \<Rightarrow> account_db \<Rightarrow> 'x vault_db \<Rightarrow> bytes \<Rightarrow>
     sync_error + device_chain_state option" where
  "device_chain_of vk_from_bytes acc db dev_bytes =
     bind_ok (map_err Vault (peer_device acc (Id dev_bytes))) (\<lambda>peer.
     case peer of None \<Rightarrow> Inr None
     | Some peer \<Rightarrow>
         bind_ok (map_err (\<lambda>e. Vault (Crypto e)) (vk_from_bytes (pd_ed25519_pub peer))) (\<lambda>key.
         bind_ok (map_err Vault (stored_ops_for db (Id dev_bytes))) (\<lambda>local_ops.
         let op = (if local_ops = [] then None else Some (last local_ops))
         in bind_ok (case op of None \<Rightarrow> Inr None
              | Some o' \<Rightarrow> bind_ok (ok_or (Panic ''payload length fits u32'') (op_full_bytes o')) (\<lambda>bs. Inr (Some bs)))
              (\<lambda>full.
            Inr (Some \<lparr>verifying_key = key, last_seq = (case op of None \<Rightarrow> 0 | Some o' \<Rightarrow> seq o'),
              last_op_full_bytes = full, last_lamport = (case op of None \<Rightarrow> 0 | Some o' \<Rightarrow> lamport o'),
              known_op_ids = bs_of_list (map (\<lambda>o'. as_bytes (op_id o')) local_ops)\<rparr>)))))"

definition build_chain_state ::
  "(bytes \<Rightarrow> crypto_error + bytes) \<Rightarrow> id \<Rightarrow> account_db \<Rightarrow> 'x vault_db \<Rightarrow> id \<Rightarrow> stored_op list \<Rightarrow>
     sync_error + chain_state" where
  "build_chain_state vk_from_bytes self_id acc db vid incoming =
     bind_ok (fold_ok (\<lambda>dev_bytes devices.
         bind_ok (device_chain_of vk_from_bytes acc db dev_bytes) (\<lambda>chain.
         Inr (case chain of None \<Rightarrow> devices | Some c \<Rightarrow> bt_insert dev_bytes c devices)))
       (bs_of_list (map (\<lambda>op. as_bytes (device_id op))
         (filter (\<lambda>op. as_bytes (device_id op) \<noteq> as_bytes self_id) incoming))) []) (\<lambda>devices.
     Inr \<lparr>cs_vault_id = vid, cs_devices = devices\<rparr>)"

definition foreign_to :: "id \<Rightarrow> stored_op list \<Rightarrow> stored_op list" where
  "foreign_to self_id ops = filter (\<lambda>op. as_bytes (device_id op) \<noteq> as_bytes self_id) ops"

definition touched_items :: "stored_op list \<Rightarrow> bytes bset" where
  "touched_items ops = bs_of_list (concat (map (\<lambda>op. case target_item op of None \<Rightarrow> [] | Some i \<Rightarrow> [as_bytes i]) ops))"

text \<open>The accepted ops as stamped, merged with the log, restricted to the items they touch.\<close>

definition ingest_materialization ::
  "'x vault_env \<Rightarrow> serde \<Rightarrow> int \<Rightarrow> stored_op list \<Rightarrow> 'x vault_db \<Rightarrow> sync_error + materialization" where
  "ingest_materialization env sd now new db =
     bind_ok (map_err Vault (stored_ops db)) (\<lambda>held.
     bind_ok (ok_or (Panic ''snapshot op carries a payload'')
       (materialize (held @ new) (\<lambda>oid e. map_err Vault (decrypt_op_payload env oid e)) sd now)) (\<lambda>merged.
     bind_ok merged (\<lambda>mat.
     let touched = touched_items new
     in Inr (mat\<lparr>mat_ops := new,
          mat_items := filter (\<lambda>it. as_bytes (im_item_id it) \<in> set touched) (mat_items mat),
          mat_attachments := filter (\<lambda>a. as_bytes (am_item_id a) \<in> set touched) (mat_attachments mat)\<rparr>))))"

definition stamp :: "int \<Rightarrow> stored_op list \<Rightarrow> stored_op list" where
  "stamp now ops = map (\<lambda>op. op\<lparr>created_at := now\<rparr>) ops"

definition ingest ::
  "(bytes \<Rightarrow> bytes) \<Rightarrow> (bytes \<Rightarrow> bytes \<Rightarrow> bytes \<Rightarrow> bool) \<Rightarrow> (bytes \<Rightarrow> crypto_error + bytes) \<Rightarrow>
     'x vault_env \<Rightarrow> serde \<Rightarrow> id \<Rightarrow> account_db \<Rightarrow> int \<Rightarrow> stored_op list \<Rightarrow> 'x vault_db \<Rightarrow>
     sync_error + (ingest_report \<times> 'x vault_db)" where
  "ingest H ed_verify vk_from_bytes env sd self_id acc now ops db =
     bind_ok (build_chain_state vk_from_bytes self_id acc db (ve_vault_id env) ops) (\<lambda>state.
     bind_ok (ok_or (Panic ''payload length fits u32'')
       (verify_batch H ed_verify state (foreign_to self_id ops))) (\<lambda>vreport.
     let report = \<lparr>ig_applied = 0, ig_skipped = skipped_idempotent vreport,
           ig_pending = length (pending vreport), ig_quarantines = quarantines vreport\<rparr>
     in if accepted vreport = [] then Inr (report, db)
        else
          bind_ok (ingest_materialization env sd now (stamp now (accepted vreport)) db) (\<lambda>mat.
          bind_ok (map_err Vault (apply_foreign_ops env sd mat db)) (\<lambda>db.
          Inr (report\<lparr>ig_applied := length (accepted vreport)\<rparr>, db)))))"

definition vault_heads :: "'x vault_db \<Rightarrow> sync_error + (bytes, u64) btree" where
  "vault_heads db =
     bind_ok (map_err Vault (stored_ops db)) (\<lambda>ops.
     Inr (fold (\<lambda>op. bt_entry (as_bytes (device_id op)) 0 (\<lambda>e. max e (seq op))) ops []))"


section \<open>The verifier's state\<close>

lemma chains_fold_Inr:
  assumes "fold_ok (\<lambda>k m. bind_ok (f k) (\<lambda>c. Inr (case c of None \<Rightarrow> m | Some x \<Rightarrow> bt_insert k x m))) ks m = Inr m'"
  shows "bt_get m' k = Some x \<Longrightarrow> k \<in> set ks \<and> f k = Inr (Some x) \<or> bt_get m k = Some x"
    and "k \<in> set ks \<Longrightarrow> \<exists>c. f k = Inr c \<and> (c \<noteq> None \<longrightarrow> bt_get m' k = c)"
  using assms
proof (induction ks arbitrary: m)
  case Nil
  { case 1 then show ?case by simp next case 2 then show ?case by simp }
next
  case (Cons a ks)
  { case 1
    from 1(2) obtain c where c: "f a = Inr c"
      and rest: "fold_ok (\<lambda>k m. bind_ok (f k) (\<lambda>c. Inr (case c of None \<Rightarrow> m | Some x \<Rightarrow> bt_insert k x m))) ks
        (case c of None \<Rightarrow> m | Some x \<Rightarrow> bt_insert a x m) = Inr m'"
      by (auto simp: bind_ok_Inr_iff)
    from Cons.IH(1) [OF 1(1) rest] c show ?case by (auto split: option.splits if_splits)
  next
    case 2
    from 2(2) obtain c where c: "f a = Inr c"
      and rest: "fold_ok (\<lambda>k m. bind_ok (f k) (\<lambda>c. Inr (case c of None \<Rightarrow> m | Some x \<Rightarrow> bt_insert k x m))) ks
        (case c of None \<Rightarrow> m | Some x \<Rightarrow> bt_insert a x m) = Inr m'"
      by (auto simp: bind_ok_Inr_iff)
    show ?case
    proof (cases "k \<in> set ks")
      case True
      from Cons.IH(2) [OF this rest] show ?thesis .
    next
      case False
      then have [simp]: "k = a" using 2(1) by simp
      have keep: "bt_get m2 a = y" if "fold_ok (\<lambda>k m. bind_ok (f k) (\<lambda>c. Inr (case c of None \<Rightarrow> m | Some x \<Rightarrow> bt_insert k x m))) ks m1 = Inr m2"
        "a \<notin> set ks" "bt_get m1 a = y" for m1 m2 y
        using that
      proof (induction ks arbitrary: m1)
        case (Cons b ks)
        then obtain c where "f b = Inr c" and "fold_ok (\<lambda>k m. bind_ok (f k) (\<lambda>c. Inr (case c of None \<Rightarrow> m | Some x \<Rightarrow> bt_insert k x m))) ks
            (case c of None \<Rightarrow> m1 | Some x \<Rightarrow> bt_insert b x m1) = Inr m2"
          by (auto simp: bind_ok_Inr_iff)
        with Cons.IH [OF this(2)] Cons.prems show ?case by (auto split: option.splits)
      qed simp
      have "c \<noteq> None \<Longrightarrow> bt_get (case c of None \<Rightarrow> m | Some x \<Rightarrow> bt_insert a x m) a = c" by auto
      with keep [OF rest, of c] False c show ?thesis by auto
    qed }
qed

lemma build_chain_state_Inr:
  assumes "build_chain_state vk self_id acc db vid ops = Inr st"
  shows "cs_vault_id st = vid"
    and "bt_get (cs_devices st) k = Some chain \<Longrightarrow>
      k \<noteq> as_bytes self_id \<and> device_chain_of vk acc db k = Inr (Some chain)"
    and "op \<in> set ops \<Longrightarrow> device_id op \<noteq> self_id \<Longrightarrow>
      \<exists>c. device_chain_of vk acc db (as_bytes (device_id op)) = Inr c \<and> bt_get (cs_devices st) (as_bytes (device_id op)) = c"
proof -
  let ?ks = "bs_of_list (map (\<lambda>op. as_bytes (device_id op)) (filter (\<lambda>op. as_bytes (device_id op) \<noteq> as_bytes self_id) ops))"
  obtain m where m: "fold_ok (\<lambda>k m. bind_ok (device_chain_of vk acc db k)
      (\<lambda>c. Inr (case c of None \<Rightarrow> m | Some x \<Rightarrow> bt_insert k x m))) ?ks [] = Inr m"
    and st: "st = \<lparr>cs_vault_id = vid, cs_devices = m\<rparr>"
    using assms by (auto simp: build_chain_state_def bind_ok_Inr_iff)
  show "cs_vault_id st = vid" by (simp add: st)
  show "k \<noteq> as_bytes self_id \<and> device_chain_of vk acc db k = Inr (Some chain)"
    if "bt_get (cs_devices st) k = Some chain"
    using chains_fold_Inr(1) [OF m, of k chain] that by (auto simp: st)
  show "\<exists>c. device_chain_of vk acc db (as_bytes (device_id op)) = Inr c \<and> bt_get (cs_devices st) (as_bytes (device_id op)) = c"
    if op: "op \<in> set ops" "device_id op \<noteq> self_id"
  proof -
    have k: "as_bytes (device_id op) \<in> set ?ks" using op by (auto simp: id_eq_iff)
    obtain c where c: "device_chain_of vk acc db (as_bytes (device_id op)) = Inr c"
      "c \<noteq> None \<longrightarrow> bt_get m (as_bytes (device_id op)) = c"
      using chains_fold_Inr(2) [OF m k] by blast
    show ?thesis
    proof (cases "bt_get m (as_bytes (device_id op))")
      case None
      with c show ?thesis by (cases c) (auto simp: st)
    next
      case (Some x)
      with chains_fold_Inr(1) [OF m Some] c show ?thesis by (auto simp: st)
    qed
  qed
qed

text \<open>Over a well-formed log the tail of a trusted device is its last op, and the ids held are those of its ops.\<close>

lemma device_chain_of_Some:
  assumes "device_chain_of vk acc db (as_bytes d) = Inr (Some chain)" and "log_ok (db_ops db) ops"
  shows "\<exists>r. bt_get (ac_peers acc) (as_bytes d) = Some r \<and> vk (pr_ed25519_pub r) = Inr (verifying_key chain)"
    and "set (known_op_ids chain) = (\<lambda>op. as_bytes (op_id op)) ` {op \<in> set ops. device_id op = d}"
    and "last_seq chain = log_heads ops d"
    and "last_lamport chain = (if own_ops d ops = [] then 0 else lamport (last (own_ops d ops)))"
    and "last_op_full_bytes chain = (if own_ops d ops = [] then None else Some (op_bytes (last (own_ops d ops))))"
proof -
  have local: "stored_ops_for db (Id (as_bytes d)) = Inr (own_ops d ops)"
    using read_ops_device [OF assms(2), of d] by (simp add: stored_ops_for_def own_ops_def)
  have full: "op_full_bytes o' = Some bs \<Longrightarrow> bs = op_bytes o'" for o' bs
    by (simp add: op_full_bytes_def encode_op_fits split: if_splits)
  obtain peer key full_bs where p: "peer_device acc (Id (as_bytes d)) = Inr (Some peer)"
    and key: "vk (pd_ed25519_pub peer) = Inr key"
    and fb: "(case if own_ops d ops = [] then None else Some (last (own_ops d ops)) of None \<Rightarrow> Inr None
         | Some o' \<Rightarrow> bind_ok (ok_or (Panic ''payload length fits u32'') (op_full_bytes o')) (\<lambda>bs. Inr (Some bs))) = Inr full_bs"
    and chain: "chain = \<lparr>verifying_key = key,
        last_seq = (case if own_ops d ops = [] then None else Some (last (own_ops d ops)) of None \<Rightarrow> 0 | Some o' \<Rightarrow> seq o'),
        last_op_full_bytes = full_bs,
        last_lamport = (case if own_ops d ops = [] then None else Some (last (own_ops d ops)) of None \<Rightarrow> 0 | Some o' \<Rightarrow> lamport o'),
        known_op_ids = bs_of_list (map (\<lambda>o'. as_bytes (op_id o')) (own_ops d ops))\<rparr>"
    using assms(1) unfolding device_chain_of_def local Let_def
    by (auto simp: bind_ok_Inr_iff map_err_Inr_iff split: option.splits)
  from peer_device_Some [OF p] key
  show "\<exists>r. bt_get (ac_peers acc) (as_bytes d) = Some r \<and> vk (pr_ed25519_pub r) = Inr (verifying_key chain)"
    by (auto simp: chain)
  show "set (known_op_ids chain) = (\<lambda>op. as_bytes (op_id op)) ` {op \<in> set ops. device_id op = d}"
    "last_seq chain = log_heads ops d"
    "last_lamport chain = (if own_ops d ops = [] then 0 else lamport (last (own_ops d ops)))"
    by (simp_all add: chain log_heads_def)
  show "last_op_full_bytes chain = (if own_ops d ops = [] then None else Some (op_bytes (last (own_ops d ops))))"
    using fb by (auto simp: chain bind_ok_Inr_iff ok_or_Inr_iff dest: full split: if_splits)
qed

section \<open>Accepted ids are new\<close>

lemma verify_run_loop_fresh:
  assumes "verify_run_loop H ed_verify d chain run ops roll r = Some (out, r')"
  shows "\<exists>acc. accepted r' = accepted r @ acc \<and> distinct (map op_id acc) \<and>
    (\<forall>op\<in>set acc. \<not> is_known chain roll op)"
  using assms
proof (induction ops arbitrary: roll r)
  case Nil
  then show ?case by simp
next
  case (Cons op ops)
  have skip: "is_known chain (roll_skip H op roll) o' = is_known chain roll o'" for o'
    by (simp add: is_known_def roll_skip_def)
  have taken: "is_known chain (roll_take H op roll) o' \<longleftrightarrow> is_known chain roll o' \<or> op_id o' = op_id op" for o'
    by (auto simp: is_known_def roll_take_def id_eq_iff)
  from Cons.prems show ?case
  proof (cases rule: verify_run_loop_ConsE)
    case skip_adv
    then show ?thesis using Cons.IH [OF skip_adv(3)] skip by auto
  next
    case skip
    then show ?thesis using Cons.IH [OF skip(3)] by auto
  next
    case take
    obtain acc where "accepted r' = (accepted r @ [op]) @ acc" "distinct (map op_id acc)"
      "\<forall>o'\<in>set acc. \<not> is_known chain (roll_take H op roll) o'"
      using Cons.IH [OF take(2)] by auto
    with take(1) taken show ?thesis
      by (intro exI [of _ "op # acc"]) (auto simp: may_take_def)
  qed (auto dest: do_quarantine_accepted)
qed

lemma batch_fresh:
  assumes "verify_batch H ed_verify state incoming = Some r"
    and "bt_get (cs_devices state) (as_bytes d) = Some chain"
  shows "distinct (map op_id (filter (\<lambda>op. device_id op = d) (accepted r)))"
    and "op \<in> set (accepted r) \<Longrightarrow> device_id op = d \<Longrightarrow> as_bytes (op_id op) \<notin> set (known_op_ids chain)"
proof -
  let ?run = "sort_key seq (filter (\<lambda>op. dev_key op = as_bytes d) incoming)"
  let ?acc = "filter (\<lambda>op. device_id op = d) (accepted r)"
  obtain c where c: "contribution H ed_verify state (as_bytes d) incoming = Some c"
    and acc: "filter (\<lambda>op. dev_key op = as_bytes d) (accepted r) = accepted c"
    by (rule verify_batch_contribution [OF assms(1)])
  have *: "distinct (map op_id ?acc) \<and> (\<forall>op\<in>set ?acc. as_bytes (op_id op) \<notin> set (known_op_ids chain))"
  proof (cases "\<exists>op\<in>set incoming. dev_key op = as_bytes d")
    case False
    then have "accepted c = []" using c contribution_none by fastforce
    with acc show ?thesis by (simp add: dev_key_eq)
  next
    case True
    obtain out r1 where run: "verify_run_loop H ed_verify (Id (as_bytes d)) chain ?run ?run
         (initial_roll H (cs_vault_id state) (Id (as_bytes d)) chain) empty_report = Some (out, r1)"
      and cr: "c = r1\<lparr>outcomes := outcomes r1 @ [(Id (as_bytes d), out)]\<rparr>"
      by (rule contribution_run [OF c assms(2) True])
    from verify_run_loop_fresh [OF run] acc cr show ?thesis
      by (auto simp: dev_key_eq is_known_def)
  qed
  then show "distinct (map op_id ?acc)" by blast
  show "as_bytes (op_id op) \<notin> set (known_op_ids chain)" if "op \<in> set (accepted r)" "device_id op = d"
    using * that by simp
qed

lemma distinct_by_groups:
  assumes "\<And>k. distinct (map f (filter (\<lambda>x. g x = k) xs))"
    and "\<And>x y. x \<in> set xs \<Longrightarrow> y \<in> set xs \<Longrightarrow> f x = f y \<Longrightarrow> g x = g y"
  shows "distinct (map f xs)"
  using assms
proof (induction xs)
  case (Cons x xs)
  have new: "f x \<notin> f ` set xs"
  proof
    assume "f x \<in> f ` set xs"
    then obtain y where y: "y \<in> set xs" "f y = f x" by auto
    then have "g y = g x" by (intro Cons.prems(2)) simp_all
    with y Cons.prems(1) [of "g x"] show False by (force simp: image_iff)
  qed
  have groups: "distinct (map f (filter (\<lambda>x. g x = k) xs))" for k
    using Cons.prems(1) [of k] by (cases "g x = k") simp_all
  have "distinct (map f xs)" by (rule Cons.IH [OF groups]) (rule Cons.prems(2), simp_all)
  with new show ?case by simp
qed simp


section \<open>The merge forgets order and ingest times\<close>

lemma log_view_perm:
  assumes "mset ops = mset ops'" and "inj_on op_id (set ops)"
  shows "log_view ops i = log_view ops' i"
proof -
  have sets: "set ops = set ops'" using assms(1) by (rule mset_eq_setD)
  have "item_history i ops = item_history i ops'" by (rule item_history_perm [OF assms])
  moreover have "item_snapshots ops i = item_snapshots ops' i" "item_deletes ops i = item_deletes ops' i"
    by (simp_all add: item_snapshots_def item_deletes_def sets)
  ultimately show ?thesis by (simp add: log_view_def log_tombstone_def open_deletes_def snaps_of_def)
qed

abbreviation timeless :: "stored_op \<Rightarrow> stored_op" where
  "timeless op \<equiv> op\<lparr>created_at := 0\<rparr>"

lemma restamped_op [simp]:
  "to_op_fields (op\<lparr>created_at := t\<rparr>) = to_op_fields op" "op_fits (op\<lparr>created_at := t\<rparr>) = op_fits op"
  "op_bytes (op\<lparr>created_at := t\<rparr>) = op_bytes op" "op_wf (op\<lparr>created_at := t\<rparr>) = op_wf op"
  "signature_ok ed_verify key (op\<lparr>created_at := t\<rparr>) = signature_ok ed_verify key op"
  "op_view (op\<lparr>created_at := t\<rparr>) = op_view op" "stored_key (op\<lparr>created_at := t\<rparr>) = stored_key op"
  "stored_before (op\<lparr>created_at := t\<rparr>) op' = stored_before op op'"
  "stored_before op' (op\<lparr>created_at := t\<rparr>) = stored_before op' op"
  by (simp_all add: to_op_fields_def op_fits_def op_bytes_def op_wf_def signature_ok_def op_view_def
      stored_key_def stored_before_def)

lemma item_history_timeless: "item_history i (map timeless ops) = map timeless (item_history i ops)"
  by (simp add: item_history_def filter_map comp_def sort_key_map)

lemma snaps_of_timeless: "snaps_of (map timeless ops) i = map timeless (snaps_of ops i)"
  by (simp add: snaps_of_def item_history_timeless filter_map comp_def)

lemma timeless_inj: "inj_on op_id S \<Longrightarrow> x \<in> S \<Longrightarrow> y \<in> S \<Longrightarrow> timeless x = timeless y \<Longrightarrow> x = y"
proof -
  assume "inj_on op_id S" "x \<in> S" "y \<in> S" and eq: "timeless x = timeless y"
  moreover from arg_cong [OF eq, of op_id] have "op_id x = op_id y" by simp
  ultimately show ?thesis by (simp add: inj_on_eq_iff)
qed

lemma log_tombstone_timeless:
  assumes "inj_on op_id (set ops)"
  shows "log_tombstone (map timeless ops) i = log_tombstone ops i"
proof -
  have snaps: "item_snapshots (map timeless ops) i = timeless ` item_snapshots ops i"
    and dels: "item_deletes (map timeless ops) i = timeless ` item_deletes ops i"
    by (auto simp: item_snapshots_def item_deletes_def)
  have "timeless op \<in> open_deletes (map timeless ops) i \<longleftrightarrow> op \<in> open_deletes ops i" if "op \<in> set ops" for op
    using timeless_inj [OF assms that]
    by (auto simp: open_deletes_def snaps dels) (auto simp: item_deletes_def)
  then have "filter (\<lambda>op. op \<in> open_deletes (map timeless ops) i) (item_history i (map timeless ops)) =
      map timeless (filter (\<lambda>op. op \<in> open_deletes ops i) (item_history i ops))"
    unfolding item_history_timeless filter_map comp_def
    by (intro arg_cong [where f = "map timeless"] filter_cong) auto
  then show ?thesis by (auto simp: log_tombstone_def Let_def last_map snaps)
qed

lemma log_view_timeless: "inj_on op_id (set ops) \<Longrightarrow> log_view (map timeless ops) i = log_view ops i"
  by (simp add: log_view_def snaps_of_timeless comp_def log_tombstone_timeless)

text \<open>Two logs of the same signed ops, stamped and ordered differently, merge to the same view.\<close>

lemma log_view_same_ops:
  assumes "distinct (map op_id ops)" and "distinct (map op_id ops')"
    and "timeless ` set ops = timeless ` set ops'"
  shows "log_view ops i = log_view ops' i"
proof -
  have "distinct (map timeless xs)" if "distinct (map op_id xs)" for xs
    using that distinct_map [of op_id "map timeless xs"] by (simp add: comp_def)
  then have "distinct (map timeless ops)" "distinct (map timeless ops')" using assms(1,2) by simp_all
  with assms(3) have "mset (map timeless ops) = mset (map timeless ops')"
    by (intro iffD1 [OF set_eq_iff_mset_eq_distinct]) simp_all
  moreover have "inj_on op_id (set (map timeless ops))"
    using assms(1) by (auto simp: distinct_map inj_on_def)
  ultimately have "log_view (map timeless ops) i = log_view (map timeless ops') i" by (rule log_view_perm)
  with assms(1,2) show ?thesis by (simp add: log_view_timeless distinct_map)
qed


section \<open>What an ingest does\<close>

text \<open>An op id belongs to one device: ids are 16 random bytes drawn by their author.\<close>

definition ids_owned :: "stored_op list \<Rightarrow> bool" where
  "ids_owned ops \<longleftrightarrow> (\<forall>a\<in>set ops. \<forall>b\<in>set ops. op_id a = op_id b \<longrightarrow> device_id a = device_id b)"

text \<open>An op the device \<open>self_id\<close> may take from a batch: signed by a peer with a pinned key.\<close>

definition trusted_op ::
  "(bytes \<Rightarrow> bytes \<Rightarrow> bytes \<Rightarrow> bool) \<Rightarrow> (bytes \<Rightarrow> crypto_error + bytes) \<Rightarrow> account_db \<Rightarrow> id \<Rightarrow> stored_op \<Rightarrow> bool" where
  "trusted_op ed_verify vk acc self_id op \<longleftrightarrow>
     device_id op \<noteq> self_id \<and>
     (\<exists>r key. bt_get (ac_peers acc) (as_bytes (device_id op)) = Some r \<and>
        vk (pr_ed25519_pub r) = Inr key \<and> signature_ok ed_verify key op)"

lemma accepted_trusted:
  assumes state: "build_chain_state vk self_id acc db vid incoming = Inr st"
    and batch: "verify_batch H ed_verify st (foreign_to self_id incoming) = Some v"
    and log: "log_ok (db_ops db) ops" and op: "op \<in> set (accepted v)"
  shows "op \<in> set incoming" and "trusted_op ed_verify vk acc self_id op" and "op_id op \<notin> op_id ` {o' \<in> set ops. device_id o' = device_id op}"
proof -
  from batch_signed [OF batch op] obtain chain where op_in: "op \<in> set (foreign_to self_id incoming)"
    and chain: "bt_get (cs_devices st) (as_bytes (device_id op)) = Some chain"
    and sig: "signature_ok ed_verify (verifying_key chain) op" by blast
  from op_in show "op \<in> set incoming" by (simp add: foreign_to_def)
  from build_chain_state_Inr(2) [OF state chain] have dev: "device_id op \<noteq> self_id"
    and dc: "device_chain_of vk acc db (as_bytes (device_id op)) = Inr (Some chain)" by auto
  from device_chain_of_Some(1) [OF dc log] sig dev show "trusted_op ed_verify vk acc self_id op"
    by (auto simp: trusted_op_def)
  have "as_bytes (op_id op) \<notin> set (known_op_ids chain)" by (rule batch_fresh(2) [OF batch chain op refl])
  then show "op_id op \<notin> op_id ` {o' \<in> set ops. device_id o' = device_id op}"
    unfolding device_chain_of_Some(2) [OF dc log] by (auto simp: id_eq_iff)
qed

lemma accepted_distinct:
  assumes state: "build_chain_state vk self_id acc db vid incoming = Inr st"
    and batch: "verify_batch H ed_verify st (foreign_to self_id incoming) = Some v"
    and log: "log_ok (db_ops db) ops" and ids: "ids_owned (ops @ incoming)"
  shows "distinct (map op_id (accepted v))" and "op_id ` set (accepted v) \<inter> op_id ` set ops = {}"
proof -
  note acc = accepted_trusted [OF state batch log]
  show "op_id ` set (accepted v) \<inter> op_id ` set ops = {}"
  proof (rule ccontr)
    assume "op_id ` set (accepted v) \<inter> op_id ` set ops \<noteq> {}"
    then obtain a b where ab: "a \<in> set (accepted v)" "b \<in> set ops" "op_id a = op_id b" by auto
    then have "device_id b = device_id a" using ids acc(1) [OF ab(1)] by (auto simp: ids_owned_def)
    with ab acc(3) [OF ab(1)] show False by auto
  qed
  show "distinct (map op_id (accepted v))"
  proof (rule distinct_by_groups)
    show "distinct (map op_id (filter (\<lambda>x. device_id x = d) (accepted v)))" for d
    proof (cases "\<exists>op\<in>set (accepted v). device_id op = d")
      case True
      then obtain op where "op \<in> set (accepted v)" "device_id op = d" by blast
      then obtain chain where "bt_get (cs_devices st) (as_bytes d) = Some chain"
        using batch_signed [OF batch] by blast
      from batch_fresh(1) [OF batch this] show ?thesis .
    next
      case False
      then have "filter (\<lambda>x. device_id x = d) (accepted v) = []" by (simp add: filter_empty_conv)
      then show ?thesis by simp
    qed
  next
    fix a b
    assume "a \<in> set (accepted v)" "b \<in> set (accepted v)" "op_id a = op_id b"
    then show "device_id a = device_id b" using ids acc(1) unfolding ids_owned_def by auto
  qed
qed


text \<open>The rows an ingest may write, in one elimination rule.\<close>

lemma ingest_Inr:
  assumes "ingest H ed_verify vk env sd self_id acc now incoming db = Inr (rep, db')"
  obtains (idle) st v where "build_chain_state vk self_id acc db (ve_vault_id env) incoming = Inr st"
      and "verify_batch H ed_verify st (foreign_to self_id incoming) = Some v"
      and "accepted v = []" and "db' = db" and "ig_applied rep = 0" and "ig_quarantines rep = quarantines v"
  | (applied) st v held mat where "build_chain_state vk self_id acc db (ve_vault_id env) incoming = Inr st"
      and "verify_batch H ed_verify st (foreign_to self_id incoming) = Some v"
      and "accepted v \<noteq> []" and "stored_ops db = Inr held" and "ig_applied rep = length (accepted v)"
      and "ig_quarantines rep = quarantines v"
      and "materialize (held @ stamp now (accepted v)) (\<lambda>oid e. map_err Vault (decrypt_op_payload env oid e)) sd now
        = Some (Inr mat)"
      and "apply_foreign_ops env sd (mat\<lparr>mat_ops := stamp now (accepted v),
          mat_items := filter (\<lambda>it. as_bytes (im_item_id it) \<in> set (touched_items (stamp now (accepted v)))) (mat_items mat),
          mat_attachments := filter (\<lambda>a. as_bytes (am_item_id a) \<in> set (touched_items (stamp now (accepted v))))
            (mat_attachments mat)\<rparr>) db = Inr db'"
proof -
  from assms obtain st v where st: "build_chain_state vk self_id acc db (ve_vault_id env) incoming = Inr st"
    and v: "verify_batch H ed_verify st (foreign_to self_id incoming) = Some v"
    and rest: "(let report = \<lparr>ig_applied = 0, ig_skipped = skipped_idempotent v,
           ig_pending = length (pending v), ig_quarantines = quarantines v\<rparr>
     in if accepted v = [] then Inr (report, db)
        else
          bind_ok (ingest_materialization env sd now (stamp now (accepted v)) db) (\<lambda>mat.
          bind_ok (map_err Vault (apply_foreign_ops env sd mat db)) (\<lambda>db.
          Inr (report\<lparr>ig_applied := length (accepted v)\<rparr>, db)))) = Inr (rep, db')"
    unfolding ingest_def bind_ok_Inr_iff ok_or_Inr_iff by blast
  show thesis
  proof (cases "accepted v = []")
    case True
    with rest have "rep = \<lparr>ig_applied = 0, ig_skipped = skipped_idempotent v,
           ig_pending = length (pending v), ig_quarantines = quarantines v\<rparr>" "db' = db" by simp_all
    with True show thesis by (intro idle [OF st v]) simp_all
  next
    case False
    with rest obtain mat where m: "ingest_materialization env sd now (stamp now (accepted v)) db = Inr mat"
      and a: "apply_foreign_ops env sd mat db = Inr db'"
      and r: "ig_applied rep = length (accepted v)" "ig_quarantines rep = quarantines v"
      by (auto simp: bind_ok_Inr_iff map_err_Inr_iff)
    from m obtain held mat0 where "stored_ops db = Inr held"
      and "materialize (held @ stamp now (accepted v)) (\<lambda>oid e. map_err Vault (decrypt_op_payload env oid e)) sd now = Some (Inr mat0)"
      and "mat = mat0\<lparr>mat_ops := stamp now (accepted v),
          mat_items := filter (\<lambda>it. as_bytes (im_item_id it) \<in> set (touched_items (stamp now (accepted v)))) (mat_items mat0),
          mat_attachments := filter (\<lambda>a. as_bytes (am_item_id a) \<in> set (touched_items (stamp now (accepted v))))
            (mat_attachments mat0)\<rparr>"
      unfolding ingest_materialization_def Let_def bind_ok_Inr_iff ok_or_Inr_iff map_err_Inr_iff by blast
    with a r show thesis by (intro applied [OF st v False]) simp_all
  qed
qed

lemma set_touched_items:
  "as_bytes i \<in> set (touched_items ops) \<longleftrightarrow> (\<exists>op\<in>set ops. target_item op = Some i)"
proof -
  have "as_bytes i \<in> set (case t of None \<Rightarrow> [] | Some j \<Rightarrow> [as_bytes j]) \<longleftrightarrow> t = Some i" for t
    by (cases t) (auto simp: id_eq_iff)
  then show ?thesis by (simp add: touched_items_def)
qed

lemma stamp_sel [simp]:
  "map op_id (stamp now ops) = map op_id ops" "stamp now ops = [] \<longleftrightarrow> ops = []" "length (stamp now ops) = length ops"
  "timeless ` set (stamp now ops) = timeless ` set ops"
  by (simp_all add: stamp_def comp_def image_image)

lemma map_of_items:
  "distinct ids \<Longrightarrow> map_of (map (\<lambda>i. (i, g i)) ids) i = (if i \<in> set ids then Some (g i) else None)"
  by (induction ids) auto

text \<open>
  The central fact: an ingest adds to the log accepted ops only, stamped with the ingest time. When
  no id is used by two devices it adds all of them, and every item's rows are the merge of the
  extended log where they were the merge of the log before. (An accepted op whose id another
  device's op already holds is skipped by \<open>insert_stored_op\<close>, yet counted and merged.)
\<close>

lemma ingest_log:
  assumes ing: "ingest H ed_verify vk env sd self_id acc now incoming db = Inr (rep, db')"
    and log: "log_ok (db_ops db) ops"
    and wf: "\<forall>op\<in>set incoming. op_wf op" and room: "length ops + ig_applied rep < 2 ^ 63"
  obtains new where "log_ok (db_ops db') (ops @ new)" and "length new \<le> ig_applied rep"
    and "timeless ` set new \<subseteq> timeless ` set incoming"
    and "\<forall>op\<in>set new. trusted_op ed_verify vk acc self_id op \<and> created_at op = now"
    and "ids_owned (ops @ incoming) \<Longrightarrow> length new = ig_applied rep"
    and "\<And>i. ids_owned (ops @ incoming) \<Longrightarrow> untimed (db_view db i) = log_view ops i \<Longrightarrow>
      untimed (db_view db' i) = log_view (ops @ new) i"
  using ing
proof (cases rule: ingest_Inr)
  case (idle st v)
  show thesis by (rule that [of "[]"]) (simp_all add: idle(4,5) log)
next
  case (applied st v held mat)
  let ?new = "stamp now (accepted v)"
  let ?fresh = "fresh_ops (op_id ` set ops) ?new"
  note acc = accepted_trusted [OF applied(1,2) log]
  have held: "held = sort_key log_key ops"
    using read_ops_all [OF log] applied(4) by (simp add: stored_ops_def)
  let ?its = "filter (\<lambda>it. as_bytes (im_item_id it) \<in> set (touched_items ?new)) (mat_items mat)"
  let ?dec = "\<lambda>oid e. map_err Vault (decrypt_op_payload env oid e)"
  have len: "length (held @ ?new) < 2 ^ 63" using room applied(5) by (simp add: held)
  have items: "mat_items mat = map (item_of ?dec sd (held @ ?new) now) (item_ids (held @ ?new))"
    by (rule materialize_mat_items(2) [OF applied(7)])
  have vers: "\<forall>it\<in>set ?its. distinct (map vm_version (im_versions it))"
  proof
    fix it
    assume "it \<in> set ?its"
    then obtain i where i: "has_snapshot (held @ ?new) i" "it = item_of ?dec sd (held @ ?new) now i"
      by (auto simp: items set_item_ids)
    show "distinct (map vm_version (im_versions it))"
      unfolding i(2) item_of_versions(2) [OF i(1) len] by (simp add: distinct_map del: upt_Suc)
  qed
  have its: "?its = map (item_of ?dec sd (held @ ?new) now) (filter (\<lambda>i. as_bytes i \<in> set (touched_items ?new)) (item_ids (held @ ?new)))"
    by (simp add: items filter_map comp_def)
  have dids: "distinct (map im_item_id ?its)" unfolding its by (simp add: comp_def)
  note app = apply_foreign_ops_Inr [OF applied(8)]
  have wfs: "\<forall>op\<in>set ?new. op_wf op" using wf acc(1) by (auto simp: stamp_def)
  have "fold_ok insert_stored_op ?new (db_ops db) = Inr (db_ops db')"
    using app(1) vers dids by simp
  from insert_ops_log [OF this log wfs] have log': "log_ok (db_ops db') (ops @ ?fresh)" .
  have whole: "?fresh = ?new" if "ids_owned (ops @ incoming)"
    by (rule fresh_ops_new)
      (use accepted_distinct [OF applied(1,2) log that] in \<open>auto simp: stamp_def comp_def\<close>)
  have views: "untimed (db_view db' i) = log_view (ops @ ?fresh) i"
    if ids: "ids_owned (ops @ incoming)" and before: "untimed (db_view db i) = log_view ops i" for i
  proof -
    note dist = accepted_distinct [OF applied(1,2) log ids]
    have "distinct (map op_id ops)" using log by (simp add: log_ok_def)
    with dist have "distinct (map op_id (ops @ ?new))" by (auto simp: Int_commute)
    then have full_ids: "inj_on op_id (set (ops @ ?new))"
      using distinct_map [of op_id "ops @ ?new"] by blast
    have perm: "mset (held @ ?new) = mset (ops @ ?new)" by (simp add: held)
    have view: "log_view (held @ ?new) i = log_view (ops @ ?new) i"
      by (rule log_view_perm [OF perm]) (use full_ids mset_eq_setD [OF perm] in simp)
    have get: "db_view db' i = (case map_of (map (\<lambda>it. (im_item_id it, item_view it)) ?its) i of Some v \<Rightarrow> v | None \<Rightarrow> db_view db i)"
      using app(2) [of i] vers dids by simp
    have mo: "map_of (map (\<lambda>it. (im_item_id it, item_view it)) ?its) i =
      (if i \<in> set (filter (\<lambda>i. as_bytes i \<in> set (touched_items ?new)) (item_ids (held @ ?new)))
       then Some (item_view (item_of ?dec sd (held @ ?new) now i)) else None)"
      unfolding its map_map comp_def im_item_id_item_of by (rule map_of_items) simp
    consider (untouched) "\<forall>op\<in>set ?new. target_item op \<noteq> Some i"
      | (none) "\<not> has_snapshot (held @ ?new) i"
      | (merged) "\<exists>op\<in>set ?new. target_item op = Some i" "has_snapshot (held @ ?new) i" by blast
    then have "untimed (db_view db' i) = log_view (ops @ ?new) i"
    proof cases
      case untouched
      then have "as_bytes i \<notin> set (touched_items ?new)" by (simp add: set_touched_items)
      then have "db_view db' i = db_view db i" unfolding get mo by simp
      with log_view_other [OF untouched] before show ?thesis by simp
    next
      case none
      then have "db_view db' i = db_view db i" unfolding get mo by (simp add: set_item_ids)
      moreover have "\<not> has_snapshot ops i" "\<not> has_snapshot (ops @ ?new) i"
        using none by (auto simp: has_snapshot_def held)
      ultimately show ?thesis using before by (simp add: log_view_def has_snapshot_snaps)
    next
      case merged
      then have "db_view db' i = item_view (item_of ?dec sd (held @ ?new) now i)"
        unfolding get mo by (simp add: set_item_ids set_touched_items)
      with item_of_view [OF merged(2) len, of ?dec sd now] view show ?thesis by simp
    qed
    then show ?thesis by (simp only: whole [OF ids])
  qed
  have kept: "set ?fresh \<subseteq> set ?new" by (rule fresh_ops_subset)
  show thesis
  proof (rule that [OF log' _ _ _ _ views])
    show "length ?fresh \<le> ig_applied rep"
      using fresh_ops_length [of "op_id ` set ops" ?new] by (simp add: applied(5))
    show "timeless ` set ?fresh \<subseteq> timeless ` set incoming"
      using acc(1) image_mono [OF kept, of timeless] by auto
    show "\<forall>op\<in>set ?fresh. trusted_op ed_verify vk acc self_id op \<and> created_at op = now"
    proof
      fix op
      assume "op \<in> set ?fresh"
      then obtain o' where "o' \<in> set (accepted v)" "op = o'\<lparr>created_at := now\<rparr>"
        using kept by (auto simp: stamp_def)
      with acc(2) [OF this(1)] show "trusted_op ed_verify vk acc self_id op \<and> created_at op = now"
        by (simp add: trusted_op_def)
    qed
    show "length ?fresh = ig_applied rep" if "ids_owned (ops @ incoming)"
      using whole [OF that] by (simp add: applied(5))
  qed
qed


section \<open>A vault that writes and pulls\<close>

text \<open>A batch a peer network may deliver: decoded ops, ids not reused across devices, and no peer
  claiming to have seen more of this device's ops than it has written.\<close>

definition fair_batch :: "id \<Rightarrow> stored_op list \<Rightarrow> stored_op list \<Rightarrow> bool" where
  "fair_batch self_id ops incoming \<longleftrightarrow>
     ids_owned (ops @ incoming) \<and> length ops + length incoming < 2 ^ 63 \<and>
     (\<forall>op\<in>set incoming. op_wf op \<and> oh_get (observed op) self_id \<le> log_heads ops self_id)"

text \<open>The files a device's vault can become: empty, after a local write, after an ingest. Every call
  has its own draws and clock.\<close>

inductive vault_run ::
  "(bytes \<Rightarrow> bytes) \<Rightarrow> ('k \<Rightarrow> bytes \<Rightarrow> bytes) \<Rightarrow> (bytes \<Rightarrow> bytes \<Rightarrow> bytes \<Rightarrow> bool) \<Rightarrow> (bytes \<Rightarrow> crypto_error + bytes) \<Rightarrow>
     bytes \<Rightarrow> id \<Rightarrow> 'k session \<Rightarrow> serde \<Rightarrow> 'x vault_db \<Rightarrow> bool"
  for H ed_sign ed_verify vk key vid ses sd where
  run_empty: "db_ops db = [] \<Longrightarrow> db_items db = [] \<Longrightarrow> db_versions db = [] \<Longrightarrow> db_tombstones db = [] \<Longrightarrow>
    vault_run H ed_sign ed_verify vk key vid ses sd db"
| run_write: "vault_run H ed_sign ed_verify vk key vid ses sd db \<Longrightarrow> ve_vault_id env = vid \<Longrightarrow>
    authoring_ok H ed_sign ed_verify key env ses \<Longrightarrow> versions_left db \<Longrightarrow> id_wf i \<Longrightarrow> id_wf oid \<Longrightarrow>
    local_write H ed_sign env ses sd i oid kind db db' \<Longrightarrow> vault_run H ed_sign ed_verify vk key vid ses sd db'"
| run_ingest: "vault_run H ed_sign ed_verify vk key vid ses sd db \<Longrightarrow> ve_vault_id env = vid \<Longrightarrow>
    stored_ops db = Inr ops \<Longrightarrow> fair_batch (ss_device_id ses) ops incoming \<Longrightarrow>
    ingest H ed_verify vk env sd (ss_device_id ses) acc now incoming db = Inr (rep, db') \<Longrightarrow>
    vault_run H ed_sign ed_verify vk key vid ses sd db'"

definition run_inv ::
  "(bytes \<Rightarrow> bytes) \<Rightarrow> (bytes \<Rightarrow> bytes \<Rightarrow> bytes \<Rightarrow> bool) \<Rightarrow> bytes \<Rightarrow> id \<Rightarrow> id \<Rightarrow> 'x vault_db \<Rightarrow> stored_op list \<Rightarrow> bool" where
  "run_inv H ed_verify key vid self_id db ops \<longleftrightarrow>
     log_matches db ops \<and> own_chain H ed_verify key vid self_id ops \<and> not_ahead self_id ops"

lemma device_log_run_inv:
  "device_log H ed_verify key env ses db ops \<longleftrightarrow> run_inv H ed_verify key (ve_vault_id env) (ss_device_id ses) db ops"
  by (simp add: device_log_def run_inv_def)

lemma stored_ops_log: "log_ok (db_ops db) ops \<Longrightarrow> stored_ops db = Inr (sort_key log_key ops)"
  by (simp add: stored_ops_def read_ops_all)

lemma own_ops_sorted_log:
  assumes "log_ok rows ops"
  shows "own_ops d (sort_key log_key ops) = own_ops d ops"
  unfolding own_ops_def
proof (rule sort_key_perm_eq)
  have "distinct (map (\<lambda>op. (device_id op, seq op)) ops)" using assms by (simp add: log_ok_def)
  then show "inj_on (\<lambda>op. uint (seq op)) (set (filter (\<lambda>op. device_id op = d) (sort_key log_key ops)))"
    by (auto simp: distinct_map inj_on_def word_uint_eq_iff)
qed simp

lemma ingest_applied_le:
  assumes ing: "ingest H ed_verify vk env sd self_id acc now incoming db = Inr (rep, db')"
    and log: "log_ok (db_ops db) ops" and ids: "ids_owned (ops @ incoming)"
  shows "ig_applied rep \<le> length incoming"
  using ing
proof (cases rule: ingest_Inr)
  case (applied st v held mat)
  have "distinct (accepted v)"
    using accepted_distinct(1) [OF applied(1,2) log ids] by (simp add: distinct_map)
  moreover have "set (accepted v) \<subseteq> set incoming"
    using accepted_trusted(1) [OF applied(1,2) log] by blast
  ultimately have "length (accepted v) \<le> card (set incoming)"
    by (metis distinct_card card_mono List.finite_set)
  with card_length [of incoming] applied(5) show ?thesis by simp
qed simp

text \<open>An ingest keeps the device's log: its own chain untouched, the tables the merge of the log.\<close>

lemma ingest_inv:
  assumes ing: "ingest H ed_verify vk env sd self_id acc now incoming db = Inr (rep, db')"
    and inv: "run_inv H ed_verify key vid self_id db ops" and fair: "fair_batch self_id ops incoming"
  obtains new where "run_inv H ed_verify key vid self_id db' (ops @ new)" and "length new = ig_applied rep"
    and "timeless ` set new \<subseteq> timeless ` set incoming"
    and "\<forall>op\<in>set new. trusted_op ed_verify vk acc self_id op \<and> created_at op = now"
proof -
  have log: "log_ok (db_ops db) ops" and views: "\<And>i. untimed (db_view db i) = log_view ops i"
    and chain: "own_chain H ed_verify key vid self_id ops" and ahead: "not_ahead self_id ops"
    using inv by (simp_all add: run_inv_def log_matches_def)
  have fit: "ids_owned (ops @ incoming)" "\<forall>op\<in>set incoming. op_wf op"
    using fair by (simp_all add: fair_batch_def)
  have room: "length ops + ig_applied rep < 2 ^ 63"
    using fair ingest_applied_le [OF ing log fit(1)] by (simp add: fair_batch_def)
  obtain new where log': "log_ok (db_ops db') (ops @ new)" and len: "length new = ig_applied rep"
    and sub: "timeless ` set new \<subseteq> timeless ` set incoming"
    and trust: "\<forall>op\<in>set new. trusted_op ed_verify vk acc self_id op \<and> created_at op = now"
    and views': "\<And>i. untimed (db_view db i) = log_view ops i \<Longrightarrow> untimed (db_view db' i) = log_view (ops @ new) i"
    by (rule ingest_log [OF ing log fit(2) room]) (use fit(1) in blast)
  have "filter (\<lambda>op. device_id op = self_id) new = []"
    using trust by (auto simp: filter_empty_conv trusted_op_def)
  then have own: "own_ops self_id (ops @ new) = own_ops self_id ops" by (simp add: own_ops_def)
  have seen: "oh_get (observed op) self_id \<le> log_heads ops self_id" if "op \<in> set new" for op
  proof -
    from sub that obtain o' where "o' \<in> set incoming" "timeless op = timeless o'" by blast
    moreover from arg_cong [OF this(2), of observed] have "observed op = observed o'" by simp
    ultimately show ?thesis using fair by (simp add: fair_batch_def)
  qed
  have "run_inv H ed_verify key vid self_id db' (ops @ new)"
    using log' views views' chain ahead seen
    by (auto simp: run_inv_def log_matches_def own_chain_def own not_ahead_def log_heads_def)
  from that [OF this len sub trust] show thesis .
qed


section \<open>Two devices\<close>

lemma verify_batch_single:
  assumes "bt_get (cs_devices st) (as_bytes (device_id op)) = Some chain"
    and "may_take ed_verify chain (initial_roll H (cs_vault_id st) (device_id op) chain) op"
  shows "verify_batch H ed_verify st [op] = Some \<lparr>accepted = [op], skipped_idempotent = 0, pending = [],
    quarantines = [], outcomes = [(device_id op, Accepted)]\<rparr>"
proof -
  have runs: "device_runs [op] = [(as_bytes (device_id op), [op])]"
    by (simp add: device_runs_def bt_group_def bt_push_def bt_entry_def)
  have "verify_device_run H ed_verify (cs_vault_id st) (device_id op) chain [op] empty_report =
      Some (Accepted, empty_report\<lparr>accepted := [op]\<rparr>)"
    unfolding verify_device_run_def verify_run_loop_take [OF assms(2)] by (simp add: empty_report_def)
  then show ?thesis
    using assms(1) by (simp add: verify_batch_def runs verify_one_device_def Let_def empty_report_def)
qed

definition ex_account :: account_db where
  "ex_account =
     \<lparr>ac_format_version = 1, ac_created_at = 10,
      ac_kdf = \<lparr>kd_kdf = 1, kd_argon2_m_kib = 65536, kd_argon2_t = 3, kd_argon2_p = 4, kd_salt = replicate 16 1, kd_secret_key_id = []\<rparr>,
      ac_wrapped_account_key = [], ac_wrapped_at = 10,
      ac_identity = \<lparr>di_device_id = as_bytes (ex_id 3), di_ed25519_pub = replicate 32 5, di_x25519_pub = replicate 32 5,
        di_ed25519_priv_env = [], di_x25519_priv_env = [], di_created_at = 10\<rparr>,
      ac_peers = [(as_bytes (ex_id 2), \<lparr>pr_ed25519_pub = replicate 32 4, pr_x25519_pub = replicate 32 6,
        pr_verified_at = 50, pr_label = None\<rparr>)],
      ac_registry = [], ac_settings = [], ac_audit = []\<rparr>"

definition ex_peer :: "bytes session" where
  "ex_peer = \<lparr>ss_device_id = ex_id 3, ss_signing = [], ss_ed25519_pub = [4]\<rparr>"

lemma ex_vault_id: "ve_vault_id ex_vault = ex_id 1"
  by (simp add: ex_vault_def)

lemma ex_session_id: "ss_device_id ex_session = ex_id 2"
  by (simp add: ex_session_def)

text \<open>The first device creates item 9; its one op, as a channel delivers it, has no local time.\<close>

lemma ex_first_device:
  obtains db1 op where
    "create_item ex_hash ex_sign ex_vault ex_session ex_serde (ex_id 9) (ex_id 7) 100 100 ex_note ex_empty = Inr (ex_id 9, db1)"
    "device_log ex_hash ex_verify [4] ex_vault ex_session db1 [op]"
    "extends_log ex_hash ex_verify [4] (ex_id 1) (ex_id 2) [] op" "op_kind op = Create" "target_item op = Some (ex_id 9)"
    "vk_seal ex_vault [] (aad_op_payload (ex_id 1) (op_id op)) = Inr (payload_env op)" "op_id op = ex_id 7"
proof (rule ex_run)
  fix db1
  assume c: "create_item ex_hash ex_sign ex_vault ex_session ex_serde (ex_id 9) (ex_id 7) 100 100 ex_note ex_empty = Inr (ex_id 9, db1)"
  obtain op where op: "device_log ex_hash ex_verify [4] ex_vault ex_session db1 ([] @ [op])"
      "extends_log ex_hash ex_verify [4] (ve_vault_id ex_vault) (ss_device_id ex_session) [] op"
      "op_kind op = Create" "target_item op = Some (ex_id 9)"
    by (rule local_write_log [OF write_create [OF c] ex_device_log ex_vault_empty(2) ex_authoring_ok ex_id_wf ex_id_wf])
  have log: "log_ok (db_ops ex_empty) []" and chain: "own_chain ex_hash ex_verify [4] (ve_vault_id ex_vault) (ss_device_id ex_session) []"
    using ex_device_log by (simp_all add: device_log_def log_matches_def)
  have target: "\<forall>j. Some (ex_id 9) = Some j \<longrightarrow> id_wf j" by simp
  have "vk_seal ex_vault [] (aad_op_payload (ex_id 1) (op_id op)) = Inr (payload_env op) \<and> op_id op = ex_id 7"
  proof (rule create_item_Inr [OF c])
    fix pt sealed rows ix ver
    assume pt: "to_canonical ex_serde ex_note = Inr pt"
      and author: "author_op ex_hash ex_sign ex_vault ex_session (ex_id 7) 100 Create (Some (ex_id 9)) (u32_or_zero 1) pt ex_empty
        = Inr (ex_empty\<lparr>db_ops := rows\<rparr>)"
      and db1: "db1 = with_version (ex_id 9) 1 sealed ver \<lparr>ir_current_version = 1, ir_created_at = 100, ir_updated_at = 100\<rparr> rows ix ex_empty"
    from author_op_log [OF author ex_authoring_ok ex_id_wf target log chain] obtain op' where
      "log_ok (db_ops (ex_empty\<lparr>db_ops := rows\<rparr>)) ([] @ [op'])" and op'_id: "op_id op' = ex_id 7"
      and op'_env: "vk_seal ex_vault pt (aad_op_payload (ve_vault_id ex_vault) (ex_id 7)) = Inr (payload_env op')" .
    then have op': "log_ok rows [op']" by simp
    have "db_ops db1 = rows" by (simp add: db1 with_version_def)
    then have "log_ok rows [op]" using op(1) by (simp add: device_log_def log_matches_def)
    then have same: "row_of op' = row_of op" "row_fits op" "row_fits op'" using op' by (auto simp: log_ok_def)
    have "op = op'"
      by (rule sum.inject(2) [THEN iffD1, OF trans [OF row_of_into_stored [OF same(2), symmetric]
        row_of_into_stored [OF same(3), unfolded same(1)]]])
    moreover have "pt = []" using pt by simp
    ultimately show ?thesis using op'_id op'_env unfolding ex_vault_id by (simp only: simp_thms)
  qed
  with op have "vk_seal ex_vault [] (aad_op_payload (ex_id 1) (op_id op)) = Inr (payload_env op)" "op_id op = ex_id 7"
    by blast+
  then show thesis
    by (rule that [OF c op(1) [unfolded append_Nil] op(2) [unfolded ex_vault_id ex_session_id] op(3,4)])
qed


lemma bs_of_list_single: "bs_of_list [x] = [x]"
  by (simp add: bs_of_list_def bs_insert_def insort_insert_key_def)

text \<open>The second device, with an empty file and the first one's key pinned, ingests it.\<close>

definition ex_merged :: item_materialization where
  "ex_merged = \<lparr>im_item_id = ex_id 9, im_current_version = 1, im_created_at = 500, im_updated_at = 500,
     im_versions = [\<lparr>vm_version = 1, vm_payload = ex_note, vm_created_at = 500,
       vm_author_device_id = ex_id 2, vm_op_id = ex_id 7\<rparr>], im_tombstone = None\<rparr>"

lemma ex_build:
  assumes "device_id op = ex_id 2"
  shows "build_chain_state (\<lambda>_. Inr [4]) (ex_id 3) ex_account ex_empty (ex_id 1) [op] =
    Inr \<lparr>cs_vault_id = ex_id 1, cs_devices = [(as_bytes (ex_id 2), \<lparr>verifying_key = [4], last_seq = 0,
      last_op_full_bytes = None, last_lamport = 0, known_op_ids = []\<rparr>)]\<rparr>"
proof -
  have ne: "as_bytes (ex_id 2) \<noteq> as_bytes (ex_id 3)" by (simp add: ex_id_def)
  have i: "Id (as_bytes (ex_id 2)) = ex_id 2" by simp
  have "stored_ops_for ex_empty (ex_id 2) = Inr []"
    by (simp add: stored_ops_for_def read_ops_def ex_empty_def)
  then have "device_chain_of (\<lambda>_. Inr [4]) ex_account ex_empty (as_bytes (ex_id 2)) =
      Inr (Some \<lparr>verifying_key = [4], last_seq = 0, last_op_full_bytes = None, last_lamport = 0, known_op_ids = []\<rparr>)"
    unfolding device_chain_of_def i
    by (simp add: peer_device_def peer_of_row_def ex_account_def to_32_def bs_of_list_def)
  then show ?thesis
    using assms ne by (simp add: build_chain_state_def bs_of_list_single)
qed

lemma ex_merge_one:
  assumes "op_kind op = Create" "target_item op = Some (ex_id 9)" "device_id op = ex_id 2" "op_id op = ex_id 7"
    and "created_at op = 500" and "decrypt (op_id op) (payload_env op) = Inr []"
  shows "materialize [op] decrypt ex_serde 500 =
    Some (Inr \<lparr>mat_ops = [op], mat_items = [ex_merged], mat_attachments = [], mat_attachment_tombstones = []\<rparr>)"
proof -
  have lift: "lift_payload decrypt ex_serde op = Inr (Some ex_note)" using assms by (simp add: lift_payload_def)
  then have lifted: "m_payload (lifted decrypt ex_serde op) = Some ex_note" by (simp add: lifted_def)
  have hist: "item_history (ex_id 9) [op] = [op]" using assms(2) by (simp add: item_history_def)
  have "fold (\<lambda>s e. min e (m_created_at s)) [lifted decrypt ex_serde op] i64_max = 500" "(500 :: int) \<noteq> i64_max"
    "i64_or_max 1 = 1"
    using assms(5) by (simp_all add: i64_max_def i64_or_max_def)
  then have item: "item_of decrypt ex_serde [op] 500 (ex_id 9) = ex_merged"
    using assms lifted
    by (simp add: item_of_def hist item_result_def Let_def ex_merged_def version_row_def resolve_tombstone_def max_by_total_def)
  have ids: "item_ids [op] = [ex_id 9]"
    using assms(1,2) by (simp add: item_ids_eq has_snapshot_def bs_of_list_single item_key_def)
  have "materialize_attachments decrypt ex_serde [op] mat = Inr mat" for mat
    using assms(1) by (simp add: materialize_attachments_def collect_deleted_def collect_added_def)
  then show ?thesis
    using lift assms(2) by (simp add: materialize_eq ids item)
qed


lemma ex_ingest:
  assumes "extends_log ex_hash ex_verify [4] (ex_id 1) (ex_id 2) [] op" and "op_kind op = Create"
    and "target_item op = Some (ex_id 9)" and "op_id op = ex_id 7"
    and "vk_seal ex_vault [] (aad_op_payload (ex_id 1) (op_id op)) = Inr (payload_env op)"
  obtains rep db2 where "ingest ex_hash ex_verify (\<lambda>_. Inr [4]) ex_vault ex_serde (ex_id 3) ex_account 500 [timeless op] ex_empty
      = Inr (rep, db2)" and "ig_applied rep = 1"
proof -
  let ?c = "\<lparr>verifying_key = [4], last_seq = 0, last_op_full_bytes = None, last_lamport = 0, known_op_ids = []\<rparr>"
  let ?st = "\<lparr>cs_vault_id = ex_id 1, cs_devices = [(as_bytes (ex_id 2), ?c)]\<rparr>"
  let ?o = "op\<lparr>created_at := 500\<rparr>"
  let ?dec = "\<lambda>oid e. map_err Vault (decrypt_op_payload ex_vault oid e)"
  have op: "device_id op = ex_id 2" "row_fits op" "signature_ok ex_verify [4] op" "seq op = 1"
    "prev_hash op = genesis_hash ex_hash (ex_id 1) (ex_id 2)"
    using assms(1) by (simp_all add: extends_log_def log_heads_def own_ops_def)
  have take: "may_take ex_verify ?c (initial_roll ex_hash (ex_id 1) (ex_id 2) ?c) (timeless op)"
    using op by (simp add: may_take_def is_known_def initial_roll_def)
  have foreign: "foreign_to (ex_id 3) [timeless op] = [timeless op]"
    using op(1) by (simp add: foreign_to_def ex_id_def)
  have batch: "verify_batch ex_hash ex_verify ?st [timeless op] = Some \<lparr>accepted = [timeless op], skipped_idempotent = 0,
      pending = [], quarantines = [], outcomes = [(ex_id 2, Accepted)]\<rparr>"
    using verify_batch_single [of ?st "timeless op" ?c ex_verify ex_hash] op(1) take by simp
  have build: "build_chain_state (\<lambda>_. Inr [4]) (ex_id 3) ex_account ex_empty (ve_vault_id ex_vault) [timeless op] = Inr ?st"
    unfolding ex_vault_id by (rule ex_build) (simp add: op(1))
  have "vault_env_ok ex_vault"
    by (simp add: vault_env_ok_def ex_vault_def SYMMETRIC_KEY_LEN_def)
  from vk_open_seal [OF this assms(5)] have "?dec (op_id ?o) (payload_env ?o) = Inr []"
    by (simp add: decrypt_op_payload_def ex_vault_id)
  then have mat: "materialize [?o] ?dec ex_serde 500 =
      Some (Inr \<lparr>mat_ops = [?o], mat_items = [ex_merged], mat_attachments = [], mat_attachment_tombstones = []\<rparr>)"
    using assms(2-4) op(1) by (intro ex_merge_one) simp_all
  have held: "stored_ops ex_empty = Inr []" by (simp add: stored_ops_def read_ops_def ex_empty_def)
  have "as_bytes (ex_id 9) \<in> set (touched_items [?o])" using assms(3) by (simp add: set_touched_items)
  then have im: "ingest_materialization ex_vault ex_serde 500 (stamp 500 [timeless op]) ex_empty =
      Inr \<lparr>mat_ops = [?o], mat_items = [ex_merged], mat_attachments = [], mat_attachment_tombstones = []\<rparr>"
    using held mat by (simp add: ingest_materialization_def stamp_def Let_def ex_merged_def)
  obtain sealed where sealed: "seal_version ex_vault (ex_id 9) 1 [] = Inr sealed" by (rule ex_seal)
  have "row_fits ?o" using op(2) by (simp add: row_fits_def)
  then have ins: "insert_stored_op ?o [] = Inr [row_of ?o]" by (simp add: insert_stored_op_Inr row_fits_def)
  have "read_version_plaintext ex_vault db (ex_id 9) 1 = Inr []"
    if "bt_get (db_versions db) (as_bytes (ex_id 9), 1) = Some ver" "iv_payload_env ver = fst sealed"
      "bt_get (db_wrapped_keys db) (as_bytes (ex_id 9), 1) = Some (snd sealed)" for db ver
    using that open_seal_version [OF \<open>vault_env_ok ex_vault\<close>, of "ex_id 9" 1 "[]" "fst sealed" "snd sealed"] sealed
    by (simp add: read_version_plaintext_def)
  then obtain db2 where db2: "apply_foreign_ops ex_vault ex_serde
      \<lparr>mat_ops = [?o], mat_items = [ex_merged], mat_attachments = [], mat_attachment_tombstones = []\<rparr> ex_empty = Inr db2"
    using ins sealed
    by (simp add: apply_foreign_ops_def ex_merged_def ex_empty_def db_materialize_item_def insert_version_def
        clear_versions_def write_tombstone_def index_apply_foreign_def read_item_payload_def sql_insert_def
        bt_delete_where_def upsert_item_row_def Let_def case_prod_beta)
  show thesis
    by (rule that [of "\<lparr>ig_applied = 1, ig_skipped = 0, ig_pending = 0, ig_quarantines = []\<rparr>" db2])
      (simp_all add: ingest_def build foreign batch im db2)
qed


lemma ex_empty_matches: "log_matches ex_empty []"
  using ex_device_log by (simp add: device_log_def)

lemma ex_fair:
  assumes "extends_log ex_hash ex_verify [4] (ex_id 1) (ex_id 2) [] op"
  shows "fair_batch (ex_id 3) [] [timeless op]"
  using assms by (simp add: fair_batch_def ids_owned_def extends_log_def row_fits_def log_heads_def own_ops_def)

lemma vault_run_inv:
  assumes "vault_run H ed_sign ed_verify vk key vid ses sd db"
  obtains ops where "run_inv H ed_verify key vid (ss_device_id ses) db ops"
  using assms
proof (induction arbitrary: thesis rule: vault_run.induct)
  case (run_empty db)
  have "untimed (db_view db i) = log_view [] i" for i
    using run_empty by (simp add: untimed_def db_view_def log_view_def snaps_of_def item_history_def)
  then have "run_inv H ed_verify key vid (ss_device_id ses) db []"
    using run_empty(1) by (simp add: run_inv_def log_matches_def log_ok_def own_chain_def own_ops_def not_ahead_def)
  then show ?case by (rule run_empty)
next
  case (run_write db env i oid kind db')
  obtain ops where "run_inv H ed_verify key vid (ss_device_id ses) db ops" by (rule run_write.IH)
  then have "device_log H ed_verify key env ses db ops" using run_write.hyps(2) by (simp add: device_log_run_inv)
  then obtain op where "device_log H ed_verify key env ses db' (ops @ [op])"
    by (rule local_write_log [OF run_write.hyps(7) _ run_write.hyps(4,3,5,6)])
  with run_write.hyps(2) show ?case by (intro run_write.prems) (simp add: device_log_run_inv)
next
  case (run_ingest db env ops incoming acc now rep db')
  obtain ops0 where inv: "run_inv H ed_verify key vid (ss_device_id ses) db ops0" by (rule run_ingest.IH)
  then have log: "log_ok (db_ops db) ops0" by (simp add: run_inv_def log_matches_def)
  have ops: "ops = sort_key log_key ops0" using stored_ops_log [OF log] run_ingest.hyps(3) by simp
  have "ids_owned (ops @ incoming) = ids_owned (ops0 @ incoming)"
    unfolding ids_owned_def ops by (simp only: set_append set_sort)
  moreover have "length ops = length ops0" by (simp add: ops)
  moreover have "log_heads ops d = log_heads ops0 d" for d
    by (simp only: log_heads_def ops own_ops_sorted_log [OF log])
  ultimately have "fair_batch (ss_device_id ses) ops0 incoming"
    using run_ingest.hyps(4) by (simp add: fair_batch_def)
  then obtain new where "run_inv H ed_verify key vid (ss_device_id ses) db' (ops0 @ new)"
    by (rule ingest_inv [OF run_ingest.hyps(5) inv])
  then show ?case by (rule run_ingest.prems)
qed

section \<open>Properties\<close>

text \<open>
  Claim C3. Whatever ops a transport delivers (any batch the wire decoder yields, forged, replayed
  or with reused ids), an ingest appends to the log only ops of the batch that carry a signature
  verifying under the pinned key of a peer, never one of this device's own and never an id already
  held, and never more of them than it reports. When moreover no op id is used by two devices it
  appends exactly as many as it reports, and where every item's rows were the merge of the log they
  are the merge of the extended log. (The log stays below \<open>2 ^ 63\<close> ops.)
\<close>

theorem ingest_sound:
  assumes "ingest H ed_verify vk env sd self_id acc now incoming db = Inr (rep, db')"
    and "log_ok (db_ops db) ops" and "\<forall>op\<in>set incoming. op_wf op"
    and "length ops + ig_applied rep < 2 ^ 63"
  shows "\<exists>new. log_ok (db_ops db') (ops @ new) \<and> length new \<le> ig_applied rep \<and>
    (\<forall>op\<in>set new. trusted_op ed_verify vk acc self_id op \<and> timeless op \<in> timeless ` set incoming \<and>
       op_id op \<notin> op_id ` set ops) \<and>
    (ids_owned (ops @ incoming) \<longrightarrow> length new = ig_applied rep \<and>
      ((\<forall>i. untimed (db_view db i) = log_view ops i) \<longrightarrow>
        (\<forall>i. untimed (db_view db' i) = log_view (ops @ new) i)))"
proof -
  obtain new where new: "log_ok (db_ops db') (ops @ new)" "length new \<le> ig_applied rep"
    "timeless ` set new \<subseteq> timeless ` set incoming"
    "\<forall>op\<in>set new. trusted_op ed_verify vk acc self_id op \<and> created_at op = now"
    "ids_owned (ops @ incoming) \<Longrightarrow> length new = ig_applied rep"
    "\<And>i. ids_owned (ops @ incoming) \<Longrightarrow> untimed (db_view db i) = log_view ops i \<Longrightarrow>
      untimed (db_view db' i) = log_view (ops @ new) i"
    by (rule ingest_log [OF assms]) blast
  moreover from new(1) have "\<forall>op\<in>set new. op_id op \<notin> op_id ` set ops"
    by (auto simp: log_ok_def)
  moreover have "timeless op \<in> timeless ` set incoming" if "op \<in> set new" for op using new(3) that by blast
  ultimately show ?thesis by (intro exI [of _ new]) blast
qed

lemma ingest_sound_witness:
  "\<exists>op rep db2 new. op_kind op = Create \<and>
     ingest ex_hash ex_verify (\<lambda>_. Inr [4]) ex_vault ex_serde (ex_id 3) ex_account 500 [timeless op] ex_empty = Inr (rep, db2) \<and>
     ig_applied rep = 1 \<and> length new = 1 \<and> untimed (db_view db2 (ex_id 9)) = log_view new (ex_id 9)"
proof (rule ex_first_device)
  fix db1 op
  assume op: "extends_log ex_hash ex_verify [4] (ex_id 1) (ex_id 2) [] op" "op_kind op = Create"
    "target_item op = Some (ex_id 9)" "op_id op = ex_id 7"
    "vk_seal ex_vault [] (aad_op_payload (ex_id 1) (op_id op)) = Inr (payload_env op)"
  obtain rep db2 where ing: "ingest ex_hash ex_verify (\<lambda>_. Inr [4]) ex_vault ex_serde (ex_id 3) ex_account 500 [timeless op] ex_empty
      = Inr (rep, db2)" and one: "ig_applied rep = 1"
    by (rule ex_ingest [OF op])
  have log: "log_ok (db_ops ex_empty) []" and views: "\<forall>i. untimed (db_view ex_empty i) = log_view [] i"
    using ex_empty_matches by (simp_all add: log_matches_def)
  have ids: "ids_owned ([] @ [timeless op])" and wf: "\<forall>o'\<in>set [timeless op]. op_wf o'"
    using ex_fair [OF op(1)] by (simp_all add: fair_batch_def)
  have room: "length ([] :: stored_op list) + ig_applied rep < 2 ^ 63" by (simp add: one)
  from ingest_sound [OF ing log wf room] ids views obtain new where
    "length new = 1" "untimed (db_view db2 (ex_id 9)) = log_view new (ex_id 9)" unfolding one by auto
  with op(2) ing one show ?thesis by blast
qed

text \<open>
  Claim C2. Convergence: two devices' files, each grown from empty by any
  interleaving of local writes and ingests, hold for every item the same versions with the same ops
  and authors, the same head and the same tombstone, as soon as their logs hold the same signed ops,
  in whatever order and at whatever times these arrived.
\<close>

theorem vaults_converge:
  assumes "vault_run H ed_sign ed_verify vk key vid ses sd db"
    and "vault_run H ed_sign ed_verify vk' key' vid ses' sd db'"
    and "stored_ops db = Inr ops" and "stored_ops db' = Inr ops'"
    and "timeless ` set ops = timeless ` set ops'"
  shows "untimed (db_view db i) = untimed (db_view db' i)"
proof -
  obtain l where l: "run_inv H ed_verify key vid (ss_device_id ses) db l" by (rule vault_run_inv [OF assms(1)])
  obtain l' where l': "run_inv H ed_verify key' vid (ss_device_id ses') db' l'" by (rule vault_run_inv [OF assms(2)])
  have log: "log_ok (db_ops db) l" "log_ok (db_ops db') l'" using l l' by (simp_all add: run_inv_def log_matches_def)
  have "ops = sort_key log_key l" using stored_ops_log [OF log(1)] assms(3) by simp
  moreover have "ops' = sort_key log_key l'" using stored_ops_log [OF log(2)] assms(4) by simp
  ultimately have "timeless ` set l = timeless ` set l'" using assms(5) by simp
  with log have "log_view l i = log_view l' i" by (intro log_view_same_ops) (simp_all add: log_ok_def)
  with l l' show ?thesis by (simp add: run_inv_def log_matches_def)
qed


lemma vaults_converge_witness:
  "\<exists>(db1 :: unit vault_db) (db2 :: unit vault_db). bt_get (db_items db1) (as_bytes (ex_id 9)) \<noteq> None \<and>
     untimed (db_view db1 (ex_id 9)) = untimed (db_view db2 (ex_id 9))"
proof (rule ex_first_device)
  fix db1 op
  assume c: "create_item ex_hash ex_sign ex_vault ex_session ex_serde (ex_id 9) (ex_id 7) 100 100 ex_note ex_empty = Inr (ex_id 9, db1)"
    and dl: "device_log ex_hash ex_verify [4] ex_vault ex_session db1 [op]"
    and op: "extends_log ex_hash ex_verify [4] (ex_id 1) (ex_id 2) [] op" "op_kind op = Create"
    "target_item op = Some (ex_id 9)" "op_id op = ex_id 7"
    "vk_seal ex_vault [] (aad_op_payload (ex_id 1) (op_id op)) = Inr (payload_env op)"
  obtain rep db2 where ing: "ingest ex_hash ex_verify (\<lambda>_. Inr [4]) ex_vault ex_serde (ex_id 3) ex_account 500 [timeless op] ex_empty
      = Inr (rep, db2)" and one: "ig_applied rep = 1"
    by (rule ex_ingest [OF op])
  have empty: "vault_run ex_hash ex_sign ex_verify vk [4] (ex_id 1) ses ex_serde ex_empty" for vk :: "bytes \<Rightarrow> crypto_error + bytes" and ses :: "bytes session"
    by (rule run_empty) (simp_all add: ex_empty_def)
  have run1: "vault_run ex_hash ex_sign ex_verify (\<lambda>_. Inr [4]) [4] (ex_id 1) ex_session ex_serde db1"
    by (rule run_write [OF empty ex_vault_id ex_authoring_ok ex_vault_empty(2) ex_id_wf ex_id_wf write_create [OF c]])
  have held: "stored_ops ex_empty = Inr []" by (simp add: stored_ops_def read_ops_def ex_empty_def)
  have peer: "ss_device_id ex_peer = ex_id 3" by (simp add: ex_peer_def)
  have run2: "vault_run ex_hash ex_sign ex_verify (\<lambda>_. Inr [4]) [4] (ex_id 1) ex_peer ex_serde db2"
    by (rule run_ingest [OF empty ex_vault_id held _ ing [folded peer]]) (simp add: peer ex_fair [OF op(1)])
  have fair: "fair_batch (ex_id 3) [] [timeless op]" by (rule ex_fair [OF op(1)])
  then have ids: "ids_owned ([] @ [timeless op])" and wf: "\<forall>o'\<in>set [timeless op]. op_wf o'"
    by (simp_all only: fair_batch_def) simp
  have log: "log_ok (db_ops ex_empty) []" using ex_empty_matches by (simp add: log_matches_def)
  have room: "length ([] :: stored_op list) + ig_applied rep < 2 ^ 63" by (simp add: one)
  obtain new where new: "log_ok (db_ops db2) ([] @ new)" "length new = ig_applied rep"
    "timeless ` set new \<subseteq> timeless ` set [timeless op]"
    by (rule ingest_log [OF ing log wf room]) (use ids in blast)
  then obtain o' where "new = [o']" using one by (auto simp: length_Suc_conv)
  with new have s2: "stored_ops db2 = Inr [o']" "timeless o' = timeless op" using stored_ops_log [of db2 "[o']"] by simp_all
  have s1: "stored_ops db1 = Inr [op]" using dl stored_ops_log [of db1 "[op]"] by (simp add: device_log_def log_matches_def)
  have same: "untimed (db_view db1 (ex_id 9)) = untimed (db_view db2 (ex_id 9))"
    by (rule vaults_converge [OF run1 run2 s1 s2(1)]) (simp add: s2(2))
  moreover have "bt_get (db_items db1) (as_bytes (ex_id 9)) \<noteq> None"
    using c by (rule create_item_Inr) (simp add: with_version_def)
  ultimately show ?thesis by blast
qed

text \<open>
  Re-reading is idempotent: when every op of a batch that a peer with a
  pinned key could have signed is already held under its id and device, an ingest of the batch, if it
  reads the vault without error, changes no table and applies nothing, whatever else the batch holds.
\<close>

theorem reingest_is_noop:
  assumes "ingest H ed_verify vk env sd self_id acc now incoming db = Inr (rep, db')"
    and "log_ok (db_ops db) ops"
    and "\<forall>op\<in>set incoming. trusted_op ed_verify vk acc self_id op \<longrightarrow>
      op_id op \<in> op_id ` {o' \<in> set ops. device_id o' = device_id op}"
  shows "db' = db \<and> ig_applied rep = 0"
  using assms(1)
proof (cases rule: ingest_Inr)
  case (applied st v held mat)
  then obtain op where op: "op \<in> set (accepted v)" by (cases "accepted v") auto
  note t = accepted_trusted [OF applied(1,2) assms(2) op]
  from assms(3) t(1,2) have "op_id op \<in> op_id ` {o' \<in> set ops. device_id o' = device_id op}" by blast
  with t(3) show ?thesis by simp
qed simp

lemma reingest_is_noop_witness:
  "\<exists>(db1 :: unit vault_db) op rep. stored_ops db1 = Inr [op] \<and>
     ingest ex_hash ex_verify (\<lambda>_. Inr [4]) ex_vault ex_serde (ex_id 2) ex_account 500 [timeless op] db1 = Inr (rep, db1) \<and>
     ig_applied rep = 0"
proof (rule ex_first_device)
  fix db1 op
  assume dl: "device_log ex_hash ex_verify [4] ex_vault ex_session db1 [op]"
    and op: "extends_log ex_hash ex_verify [4] (ex_id 1) (ex_id 2) [] op"
  then have log: "log_ok (db_ops db1) [op]" and dev: "device_id op = ex_id 2"
    by (simp_all add: device_log_def log_matches_def extends_log_def)
  obtain rep db' where ing: "ingest ex_hash ex_verify (\<lambda>_. Inr [4]) ex_vault ex_serde (ex_id 2) ex_account 500 [timeless op] db1 = Inr (rep, db')"
    by (simp add: ingest_def build_chain_state_def foreign_to_def dev bs_of_list_def verify_batch_def device_runs_def
        bt_group_def empty_report_def)
  have "db' = db1 \<and> ig_applied rep = 0"
    by (rule reingest_is_noop [OF ing log]) (simp add: trusted_op_def dev)
  with ing stored_ops_log [OF log] show ?thesis by auto
qed

end
