(* ===== verification/Shipping.thy ===== *)
theory Shipping
  imports Store Wire Aad
begin

text \<open>
  \<open>lp-sync/src/shipping.rs\<close>: the layout of the sync directory and its reads and writes through a
  \<open>Store\<close>. The UUID text format (crate \<open>uuid\<close>) and JSON (\<open>serde_json\<close>) are parameters.
\<close>

section \<open>Parameters\<close>

record manifest =
  mf_vault_id :: string
  mf_devices :: "(string, u64) btree"

record head_file =
  hf_seq :: u64
  hf_head_hash_hex :: string

record ship_lib =
  uuid_hyphenated :: "bytes \<Rightarrow> string"
  uuid_parse_str :: "string \<Rightarrow> bytes option"
  json_head :: "head_file \<Rightarrow> string + bytes"
  json_manifest :: "manifest \<Rightarrow> string + bytes"
  json_parse_manifest :: "bytes \<Rightarrow> manifest option"

text \<open>What the crate documents: the hyphenated form is lowercase hex and hyphens and parses back,
  and a parsed UUID has 16 bytes.\<close>

definition uuid_ok :: "ship_lib \<Rightarrow> bool" where
  "uuid_ok lib \<longleftrightarrow>
     (\<forall>bs. length bs = 16 \<longrightarrow> uuid_parse_str lib (uuid_hyphenated lib bs) = Some bs \<and>
        set (uuid_hyphenated lib bs) \<subseteq> set ''0123456789abcdef-'' \<and> length (uuid_hyphenated lib bs) = 36) \<and>
     (\<forall>s bs. uuid_parse_str lib s = Some bs \<longrightarrow> length bs = 16)"

definition to_hyphenated :: "ship_lib \<Rightarrow> id \<Rightarrow> string" where
  "to_hyphenated lib i = uuid_hyphenated lib (as_bytes i)"

section \<open>The directory of a vault\<close>

definition OPS_DIR :: string where "OPS_DIR = ''ops''"
definition CHAIN_DIR :: string where "CHAIN_DIR = ''chain''"
definition KEYS_DIR :: string where "KEYS_DIR = ''keys''"
definition ATTACH_DIR :: string where "ATTACH_DIR = ''attachments''"
definition MANIFEST_FILE :: string where "MANIFEST_FILE = ''manifest.json''"
definition OPLOG_EXT :: string where "OPLOG_EXT = ''oplog''"
definition BLOB_EXT :: string where "BLOB_EXT = ''blob''"

record segment_file =
  sf_device_id :: id
  sf_seq_lo :: u64
  sf_seq_hi :: u64
  sf_path :: store_path

record 's sync_dir =
  sd_store :: "'s store_ops"
  sd_root :: store_path
  sd_vault_id :: id

definition with_store :: "ship_lib \<Rightarrow> 's store_ops \<Rightarrow> id \<Rightarrow> ('s, 's sync_dir) io" where
  "with_store lib store vid =
     (let root = sp_join sp_root (to_hyphenated lib vid)
      in io_bind (st_create_dir_all store (sp_join root OPS_DIR)) (\<lambda>_.
         io_bind (st_create_dir_all store (sp_join root CHAIN_DIR)) (\<lambda>_.
         io_bind (st_create_dir_all store (sp_join root KEYS_DIR)) (\<lambda>_.
         io_ok \<lparr>sd_store = store, sd_root = root, sd_vault_id = vid\<rparr>))))"

section \<open>Writing\<close>

fun check_run :: "id \<Rightarrow> u64 \<Rightarrow> stored_op list \<Rightarrow> sync_error + unit" where
  "check_run d expect [] = Inr ()"
| "check_run d expect (op # ops) =
     (if as_bytes (device_id op) \<noteq> as_bytes d then Inl (Invalid ''segment spans multiple devices'')
      else if seq op \<noteq> expect then Inl (Invalid ''segment ops are not contiguous'')
      else check_run d (expect + 1) ops)"

definition segment_name :: "ship_lib \<Rightarrow> id \<Rightarrow> u64 \<Rightarrow> u64 \<Rightarrow> string" where
  "segment_name lib d lo hi =
     to_hyphenated lib d @ ''-'' @ u64_to_string lo @ ''-'' @ u64_to_string hi @ ''.'' @ OPLOG_EXT"

definition device_dir :: "ship_lib \<Rightarrow> 's sync_dir \<Rightarrow> id \<Rightarrow> store_path" where
  "device_dir lib dir d = sp_join (sp_join (sd_root dir) OPS_DIR) (to_hyphenated lib d)"

definition write_segment ::
  "ship_lib \<Rightarrow> 's sync_dir \<Rightarrow> stored_op list \<Rightarrow> ('s, segment_file option) io" where
  "write_segment lib dir ops =
     (case ops of [] \<Rightarrow> io_ok None
      | first # _ \<Rightarrow>
          let d = device_id first in
          io_bind (io_lift (check_run d (seq first) ops)) (\<lambda>_.
          let seq_lo = seq first; seq_hi = seq (last ops);
              dev_dir = device_dir lib dir d;
              path = sp_join dev_dir (segment_name lib d seq_lo seq_hi);
              sf = \<lparr>sf_device_id = d, sf_seq_lo = seq_lo, sf_seq_hi = seq_hi, sf_path = path\<rparr>
          in io_bind (st_create_dir_all (sd_store dir) dev_dir) (\<lambda>_.
             io_bind (st_exists (sd_store dir) path) (\<lambda>exists.
             if exists then io_ok (Some sf)
             else io_bind (io_lift (ok_or (Panic ''op length fits u32'') (encode_segment ops))) (\<lambda>body.
                  io_bind (st_write_atomic (sd_store dir) path body) (\<lambda>_.
                  io_ok (Some sf)))))))"

definition head_path :: "ship_lib \<Rightarrow> 's sync_dir \<Rightarrow> id \<Rightarrow> store_path" where
  "head_path lib dir d = sp_join (sp_join (sd_root dir) CHAIN_DIR) (to_hyphenated lib d @ ''.head'')"

definition write_head :: "ship_lib \<Rightarrow> 's sync_dir \<Rightarrow> id \<Rightarrow> u64 \<Rightarrow> bytes \<Rightarrow> ('s, unit) io" where
  "write_head lib dir d sq head_hash =
     io_bind (io_lift (map_err Serialization
       (json_head lib \<lparr>hf_seq = sq, hf_head_hash_hex = hex_encode head_hash\<rparr>))) (\<lambda>body.
     st_write_atomic (sd_store dir) (head_path lib dir d) body)"

definition manifest_path :: "'s sync_dir \<Rightarrow> store_path" where
  "manifest_path dir = sp_join (sd_root dir) MANIFEST_FILE"

definition write_manifest :: "ship_lib \<Rightarrow> 's sync_dir \<Rightarrow> manifest \<Rightarrow> ('s, unit) io" where
  "write_manifest lib dir mf =
     io_bind (io_lift (map_err Serialization (json_manifest lib mf))) (\<lambda>body.
     st_write_atomic (sd_store dir) (manifest_path dir) body)"

definition key_path :: "ship_lib \<Rightarrow> 's sync_dir \<Rightarrow> id \<Rightarrow> store_path" where
  "key_path lib dir d = sp_join (sp_join (sd_root dir) KEYS_DIR)
     (to_hyphenated lib d @ ''-'' @ to_hyphenated lib (sd_vault_id dir) @ ''.wrapped'')"

definition write_key_blob :: "ship_lib \<Rightarrow> 's sync_dir \<Rightarrow> id \<Rightarrow> bytes \<Rightarrow> ('s, unit) io" where
  "write_key_blob lib dir d sealed = st_write_atomic (sd_store dir) (key_path lib dir d) sealed"

definition read_key_blob :: "ship_lib \<Rightarrow> 's sync_dir \<Rightarrow> id \<Rightarrow> ('s, bytes option) io" where
  "read_key_blob lib dir me = st_read (sd_store dir) (key_path lib dir me)"

definition remove_key_blob :: "ship_lib \<Rightarrow> 's sync_dir \<Rightarrow> id \<Rightarrow> ('s, unit) io" where
  "remove_key_blob lib dir me = st_remove_file (sd_store dir) (key_path lib dir me)"

definition parse_uuid :: "ship_lib \<Rightarrow> string \<Rightarrow> id option" where
  "parse_uuid lib s = map_option id_from_bytes (uuid_parse_str lib s)"

definition list_key_blob_recipients :: "ship_lib \<Rightarrow> 's sync_dir \<Rightarrow> ('s, id list) io" where
  "list_key_blob_recipients lib dir =
     io_try (st_list_dir (sd_store dir) (sp_join (sd_root dir) KEYS_DIR)) (\<lambda>r.
       case r of
         Inl e \<Rightarrow> if is_not_found e then io_ok [] else io_err e
       | Inr entries \<Rightarrow>
           io_ok (List.map_filter (\<lambda>e.
             case strip_suffix (''-'' @ to_hyphenated lib (sd_vault_id dir) @ ''.wrapped'') (de_name e) of
               None \<Rightarrow> None | Some device \<Rightarrow> parse_uuid lib device)
             (filter (\<lambda>e. \<not> de_is_dir e) entries)))"

definition blob_path :: "'s sync_dir \<Rightarrow> string \<Rightarrow> store_path" where
  "blob_path dir content_hash_hex =
     sp_join (sp_join (sd_root dir) ATTACH_DIR) (content_hash_hex @ ''.'' @ BLOB_EXT)"

definition write_attachment_blob :: "'s sync_dir \<Rightarrow> string \<Rightarrow> bytes \<Rightarrow> ('s, unit) io" where
  "write_attachment_blob dir content_hash_hex bs =
     io_bind (st_create_dir_all (sd_store dir) (sp_join (sd_root dir) ATTACH_DIR)) (\<lambda>_.
     st_write_atomic (sd_store dir) (blob_path dir content_hash_hex) bs)"

definition read_attachment_blob :: "'s sync_dir \<Rightarrow> string \<Rightarrow> ('s, bytes option) io" where
  "read_attachment_blob dir content_hash_hex = st_read (sd_store dir) (blob_path dir content_hash_hex)"

definition list_attachment_blob_hashes :: "'s sync_dir \<Rightarrow> ('s, string list) io" where
  "list_attachment_blob_hashes dir =
     io_try (st_list_dir (sd_store dir) (sp_join (sd_root dir) ATTACH_DIR)) (\<lambda>r.
       case r of
         Inl e \<Rightarrow> if is_not_found e then io_ok [] else io_err e
       | Inr entries \<Rightarrow>
           io_ok (map name_stem (filter (\<lambda>name. name_extension name = Some BLOB_EXT) (map de_name entries))))"

section \<open>Reading\<close>

definition parse_segment_name :: "ship_lib \<Rightarrow> store_path \<Rightarrow> segment_file option" where
  "parse_segment_name lib path =
     (case file_stem path of None \<Rightarrow> None
      | Some stem \<Rightarrow>
     (case rsplit_once (CHR ''-'') stem of None \<Rightarrow> None
      | Some (rest, hi) \<Rightarrow>
     (case rsplit_once (CHR ''-'') rest of None \<Rightarrow> None
      | Some (dev_str, lo) \<Rightarrow>
     (case parse_u64 lo of None \<Rightarrow> None
      | Some seq_lo \<Rightarrow>
     (case parse_u64 hi of None \<Rightarrow> None
      | Some seq_hi \<Rightarrow>
     (case parse_uuid lib dev_str of None \<Rightarrow> None
      | Some d \<Rightarrow> Some \<lparr>sf_device_id = d, sf_seq_lo = seq_lo, sf_seq_hi = seq_hi, sf_path = path\<rparr>))))))"

definition add_segment ::
  "ship_lib \<Rightarrow> store_path \<Rightarrow> dir_entry \<Rightarrow> (bytes, segment_file list) btree \<Rightarrow> (bytes, segment_file list) btree" where
  "add_segment lib dev_dir seg by_device =
     (let path = sp_join dev_dir (de_name seg)
      in if extension path \<noteq> Some OPLOG_EXT then by_device
         else case parse_segment_name lib path of None \<Rightarrow> by_device
              | Some sf \<Rightarrow> bt_push (\<lambda>sf. as_bytes (sf_device_id sf)) sf by_device)"

text \<open>The body of the loop over the device directories.\<close>

definition list_device ::
  "ship_lib \<Rightarrow> 's sync_dir \<Rightarrow> dir_entry \<Rightarrow> (bytes, segment_file list) btree \<Rightarrow>
     ('s, (bytes, segment_file list) btree) io" where
  "list_device lib dir dev_entry by_device =
     (if \<not> de_is_dir dev_entry then io_ok by_device
      else
        let dev_dir = sp_join (sp_join (sd_root dir) OPS_DIR) (de_name dev_entry)
        in io_bind (st_list_dir (sd_store dir) dev_dir) (\<lambda>segs.
           io_ok (fold (add_segment lib dev_dir) segs by_device)))"

definition list_segments :: "ship_lib \<Rightarrow> 's sync_dir \<Rightarrow> ('s, (bytes, segment_file list) btree) io" where
  "list_segments lib dir =
     io_try (st_list_dir (sd_store dir) (sp_join (sd_root dir) OPS_DIR)) (\<lambda>r.
       case r of
         Inl _ \<Rightarrow> io_ok []
       | Inr dev_dirs \<Rightarrow>
           io_bind (io_fold (list_device lib dir) dev_dirs []) (\<lambda>by_device.
           io_ok (map (\<lambda>(d, segs). (d, sort_key sf_seq_lo segs)) by_device)))"

definition read_segment :: "'s sync_dir \<Rightarrow> segment_file \<Rightarrow> stored_op list \<Rightarrow> ('s, stored_op list) io" where
  "read_segment dir sf ops =
     io_bind (st_read (sd_store dir) (sf_path sf)) (\<lambda>body.
     io_bind (io_lift (ok_or (Io NotFound) body)) (\<lambda>body.
     io_bind (io_lift (decode_segment body)) (\<lambda>new.
     io_ok (ops @ new))))"

definition read_all_ops :: "ship_lib \<Rightarrow> 's sync_dir \<Rightarrow> ('s, stored_op list) io" where
  "read_all_ops lib dir =
     io_bind (list_segments lib dir) (\<lambda>segments.
     io_fold (read_segment dir) (concat (map snd segments)) [])"

definition default_manifest :: manifest where
  "default_manifest = \<lparr>mf_vault_id = '''', mf_devices = []\<rparr>"

definition read_manifest :: "ship_lib \<Rightarrow> 's sync_dir \<Rightarrow> ('s, manifest) io" where
  "read_manifest lib dir =
     io_try (st_read (sd_store dir) (manifest_path dir)) (\<lambda>r.
       io_ok (case r of
         Inr (Some bs) \<Rightarrow> (case json_parse_manifest lib bs of None \<Rightarrow> default_manifest | Some mf \<Rightarrow> mf)
       | _ \<Rightarrow> default_manifest))"


section \<open>Names\<close>

lemma u64_to_string_chars: "c \<notin> set ''0123456789'' \<Longrightarrow> c \<notin> set (u64_to_string w)"
  using nat_to_string_chars by (simp add: u64_to_string_def)

lemma hyphenated_props:
  assumes "uuid_ok lib" and "id_wf d"
  shows "parse_uuid lib (to_hyphenated lib d) = Some d" and "CHR ''.'' \<notin> set (to_hyphenated lib d)"
    and "to_hyphenated lib d \<noteq> []"
proof -
  have l: "length (as_bytes d) = 16" using assms(2) by (simp add: id_wf_def)
  then have u: "uuid_parse_str lib (to_hyphenated lib d) = Some (as_bytes d)"
    "set (to_hyphenated lib d) \<subseteq> set ''0123456789abcdef-''" "length (to_hyphenated lib d) = 36"
    using assms(1) by (simp_all add: uuid_ok_def to_hyphenated_def)
  then show "parse_uuid lib (to_hyphenated lib d) = Some d" by (simp add: parse_uuid_def id_from_bytes_def)
  show "CHR ''.'' \<notin> set (to_hyphenated lib d)" using u(2) by auto
  show "to_hyphenated lib d \<noteq> []" using u(3) by auto
qed

text \<open>A segment's name: its extension, and its parts back.\<close>

lemma segment_name_props:
  assumes "uuid_ok lib" and "id_wf d"
  shows "name_extension (segment_name lib d lo hi) = Some OPLOG_EXT"
    and "name_stem (segment_name lib d lo hi) = to_hyphenated lib d @ CHR ''-'' # u64_to_string lo @ CHR ''-'' # u64_to_string hi"
    and "strip_suffix ''.tmp'' (segment_name lib d lo hi) = None"
proof -
  let ?stem = "to_hyphenated lib d @ CHR ''-'' # u64_to_string lo @ CHR ''-'' # u64_to_string hi"
  have name: "segment_name lib d lo hi = ?stem @ CHR ''.'' # OPLOG_EXT" by (simp add: segment_name_def)
  have split: "rsplit_once (CHR ''.'') (segment_name lib d lo hi) = Some (?stem, OPLOG_EXT)"
    unfolding name by (rule rsplit_once_append) (simp add: OPLOG_EXT_def)
  then show "name_extension (segment_name lib d lo hi) = Some OPLOG_EXT" "name_stem (segment_name lib d lo hi) = ?stem"
    by (simp_all add: name_extension_def name_stem_def)
  show "strip_suffix ''.tmp'' (segment_name lib d lo hi) = None"
  proof (rule ccontr)
    let ?s = "segment_name lib d lo hi"
    assume "strip_suffix ''.tmp'' ?s \<noteq> None"
    then have "drop (length ?s - length ''.tmp'') ?s = ''.tmp''" by (simp add: strip_suffix_def split: if_splits)
    then have "?s = take (length ?s - length ''.tmp'') ?s @ ''.tmp''" by (metis append_take_drop_id)
    then have "last ?s = last ''.tmp''" by (metis last_appendR list.distinct(1))
    moreover have "last ?s = CHR ''g''" by (simp add: segment_name_def OPLOG_EXT_def)
    ultimately show False by simp
  qed
qed

lemma parse_segment_path:
  assumes "uuid_ok lib" and "id_wf d"
  shows "parse_segment_name lib (sp_join p (segment_name lib d lo hi)) =
    Some \<lparr>sf_device_id = d, sf_seq_lo = lo, sf_seq_hi = hi, sf_path = sp_join p (segment_name lib d lo hi)\<rparr>"
proof -
  have "file_stem (sp_join p (segment_name lib d lo hi)) =
      Some ((to_hyphenated lib d @ CHR ''-'' # u64_to_string lo) @ CHR ''-'' # u64_to_string hi)"
    using segment_name_props(2) [OF assms] by (simp add: file_stem_def file_name_def sp_join_def)
  moreover have dash: "CHR ''-'' \<notin> set (u64_to_string w)" for w by (rule u64_to_string_chars) simp
  note rsplit_once_append [OF dash, of "to_hyphenated lib d @ CHR ''-'' # u64_to_string lo" hi]
    rsplit_once_append [OF dash, of "to_hyphenated lib d" lo]
  ultimately show ?thesis
    using hyphenated_props(1) [OF assms] by (simp only: parse_segment_name_def option.case prod.case parse_u64_to_string)
qed

text \<open>The file of a run, and what a successful write of it did.\<close>

definition run_file :: "ship_lib \<Rightarrow> 's sync_dir \<Rightarrow> stored_op list \<Rightarrow> segment_file" where
  "run_file lib dir run =
     (let d = device_id (hd run); lo = seq (hd run); hi = seq (last run)
      in \<lparr>sf_device_id = d, sf_seq_lo = lo, sf_seq_hi = hi,
          sf_path = sp_join (device_dir lib dir d) (segment_name lib d lo hi)\<rparr>)"

lemma write_segment_run:
  assumes "run \<noteq> []"
  shows "write_segment lib dir run =
     io_bind (io_lift (check_run (device_id (hd run)) (seq (hd run)) run)) (\<lambda>_.
     io_bind (st_create_dir_all (sd_store dir) (device_dir lib dir (device_id (hd run)))) (\<lambda>_.
     io_bind (st_exists (sd_store dir) (sf_path (run_file lib dir run))) (\<lambda>exists.
     if exists then io_ok (Some (run_file lib dir run))
     else io_bind (io_lift (ok_or (Panic ''op length fits u32'') (encode_segment run))) (\<lambda>body.
          io_bind (st_write_atomic (sd_store dir) (sf_path (run_file lib dir run)) body) (\<lambda>_.
          io_ok (Some (run_file lib dir run)))))))"
  using assms by (cases run) (simp, simp only: write_segment_def run_file_def Let_def list.case list.sel segment_file.select_convs)

lemma write_segment_Inr:
  "write_segment lib dir run s = (Inr r, s1) \<longleftrightarrow>
     (if run = [] then r = None \<and> s1 = s
      else r = Some (run_file lib dir run) \<and> check_run (device_id (hd run)) (seq (hd run)) run = Inr () \<and>
        (\<exists>s0 b s0'. st_create_dir_all (sd_store dir) (device_dir lib dir (device_id (hd run))) s = (Inr (), s0) \<and>
           st_exists (sd_store dir) (sf_path (run_file lib dir run)) s0 = (Inr b, s0') \<and>
           (if b then s1 = s0'
            else \<exists>bs. encode_segment run = Some bs \<and>
              st_write_atomic (sd_store dir) (sf_path (run_file lib dir run)) bs s0' = (Inr (), s1))))"
proof (cases "run = []")
  case False
  have enc: "ok_or e x = Inr y \<longleftrightarrow> x = Some y" for e :: sync_error and x :: "bytes option" and y
    by (cases x) auto
  have branch: "(if b then io_ok r0 else m) s2 = (Inr r, s3) \<longleftrightarrow> (if b then r = r0 \<and> s3 = s2 else m s2 = (Inr r, s3))"
    for b r0 s2 s3 and m :: "('a, segment_file option) io"
    by auto
  show ?thesis
    unfolding write_segment_run [OF False] if_not_P [OF False] io_bind_Inr branch io_lift_eq io_ok_eq prod.inject sum.inject enc
    by (auto split: if_splits)
qed (auto simp: write_segment_def)

section \<open>Segments stay\<close>

text \<open>A path below the \<open>ops\<close> directory, which no other writer of the vault's directory uses.\<close>

definition in_ops :: "'s sync_dir \<Rightarrow> store_path \<Rightarrow> bool" where
  "in_ops dir q \<longleftrightarrow> (\<exists>rest. segments q = segments (sd_root dir) @ OPS_DIR # rest)"

lemma in_ops_other [simp]:
  "in_ops dir q \<Longrightarrow> q \<noteq> head_path lib dir d" "in_ops dir q \<Longrightarrow> q \<noteq> manifest_path dir"
  "in_ops dir q \<Longrightarrow> q \<noteq> key_path lib dir d" "in_ops dir q \<Longrightarrow> q \<noteq> blob_path dir h"
  by (auto simp: in_ops_def head_path_def manifest_path_def key_path_def blob_path_def sp_join_def
      OPS_DIR_def CHAIN_DIR_def MANIFEST_FILE_def KEYS_DIR_def ATTACH_DIR_def)

lemma in_ops_segment: "in_ops dir (sp_join (device_dir lib dir d) name)"
  by (simp add: in_ops_def device_dir_def sp_join_def)


text \<open>The writers of a vault's directory.\<close>

inductive sync_write :: "ship_lib \<Rightarrow> 's sync_dir \<Rightarrow> 's \<Rightarrow> 's \<Rightarrow> bool" for lib dir where
  "sync_write lib dir s (snd (write_segment lib dir ops s))"
| "sync_write lib dir s (snd (write_head lib dir d sq h s))"
| "sync_write lib dir s (snd (write_manifest lib dir mf s))"
| "sync_write lib dir s (snd (write_key_blob lib dir d sealed s))"
| "sync_write lib dir s (snd (remove_key_blob lib dir d s))"
| "sync_write lib dir s (snd (write_attachment_blob dir h bs s))"

context channel_store
begin

lemma holds_write_segment:
  assumes "sd_store dir = ops"
  shows "io_keeps (holds q bs) (write_segment lib dir run)"
proof (cases run)
  case (Cons first rest)
  let ?d = "device_dir lib dir (device_id first)"
  let ?p = "sp_join ?d (segment_name lib (device_id first) (seq first) (seq (last run)))"
  have new: "holds q bs (snd (io_bind (st_exists ops ?p) (\<lambda>exists. if exists then io_ok (Some sf)
      else io_bind (io_lift body) (\<lambda>body. io_bind (st_write_atomic ops ?p body) (\<lambda>_. io_ok (Some sf)))) s))"
    if h: "holds q bs s" for s sf body
  proof (cases "st_exists ops ?p s")
    case (Pair r s1)
    have s1: "s1 = s" using exists_pure [of ?p s] Pair by simp
    show ?thesis
    proof (cases r)
      case (Inr b)
      show ?thesis
      proof (cases b)
        case False
        have w: "holds q bs (snd (st_write_atomic ops ?p bs' s))" for bs'
          using holds_write_new [OF h, of ?p s1 bs'] Pair Inr False s1 by simp
        show ?thesis
        proof (cases body)
          case (Inr bs')
          then show ?thesis
            using w [of bs'] Pair \<open>r = Inr b\<close> False s1
            by (cases "st_write_atomic ops ?p bs' s"; cases "fst (st_write_atomic ops ?p bs' s)") (simp_all add: io_bind_def)
        qed (use h Pair \<open>r = Inr b\<close> False s1 in simp)
      qed (use h Pair Inr s1 in simp)
    qed (use h Pair s1 in simp)
  qed
  show ?thesis
    unfolding write_segment_def Cons Let_def list.case assms
    by (rule io_keeps_bind [OF io_keeps_basic(3)], rule io_keeps_bind [OF holds_create],
        unfold io_keeps_def, intro allI impI, erule new [unfolded Cons])
qed (simp add: write_segment_def)

lemma sync_write_holds:
  assumes "sync_write lib dir s s'" and "sd_store dir = ops" and "in_ops dir q" and "holds q bs s"
  shows "holds q bs s'"
proof -
  note keep = holds_write_segment [OF assms(2), of q bs lib]
  have others: "io_keeps (holds q bs) (write_head lib dir d sq h)" "io_keeps (holds q bs) (write_manifest lib dir mf)"
    "io_keeps (holds q bs) (write_key_blob lib dir d sealed)" "io_keeps (holds q bs) (remove_key_blob lib dir d)"
    "io_keeps (holds q bs) (write_attachment_blob dir hh body)" for d sq h mf sealed hh body
    unfolding write_head_def write_manifest_def write_key_blob_def remove_key_blob_def write_attachment_blob_def assms(2)
    using assms(3) by (intro io_keeps_bind io_keeps_basic holds_create holds_write holds_remove in_ops_other; assumption)+
  from assms(1) show ?thesis
    using assms(4) keep others by cases (auto simp: io_keeps_def)
qed

lemma sync_writes_hold:
  "(sync_write lib dir)\<^sup>*\<^sup>* s s' \<Longrightarrow> sd_store dir = ops \<Longrightarrow> in_ops dir q \<Longrightarrow> holds q bs s \<Longrightarrow> holds q bs s'"
proof (induction rule: rtranclp_induct)
  case (step y z)
  then show ?case using sync_write_holds [OF step.hyps(2)] by blast
qed simp

end


section \<open>What a reader of the channel gets\<close>

definition listed :: "(bytes, segment_file list) btree \<Rightarrow> segment_file \<Rightarrow> bool" where
  "listed m sf \<longleftrightarrow> (\<exists>k segs. bt_get m k = Some segs \<and> sf \<in> set segs)"

lemma listed_Nil [simp]: "\<not> listed [] sf"
  by (simp add: listed_def)

lemma pushed_entry:
  "(\<exists>k ys. (f(a \<mapsto> xs @ [x])) k = Some ys \<and> y \<in> set ys) \<longleftrightarrow>
     y = x \<or> y \<in> set xs \<or> (\<exists>k ys. k \<noteq> a \<and> f k = Some ys \<and> y \<in> set ys)"
  by (auto split: if_splits)

lemma listed_push: "listed (bt_push key x m) sf \<longleftrightarrow> sf = x \<or> listed m sf"
  unfolding listed_def bt_push_def bt_get_entry pushed_entry
  by (cases "bt_get m (key x)", simp_all only: option.case)
    (metis empty_iff empty_set option.distinct(1), metis option.inject)

lemma add_segment_listed:
  "listed (add_segment lib dev_dir e m) sf \<longleftrightarrow>
     extension (sp_join dev_dir (de_name e)) = Some OPLOG_EXT \<and> parse_segment_name lib (sp_join dev_dir (de_name e)) = Some sf
     \<or> listed m sf"
  by (cases "parse_segment_name lib (sp_join dev_dir (de_name e))")
    (auto simp: add_segment_def Let_def listed_push)

lemma add_segments_listed:
  "listed (fold (add_segment lib dev_dir) es m) sf \<longleftrightarrow>
     (\<exists>e\<in>set es. extension (sp_join dev_dir (de_name e)) = Some OPLOG_EXT \<and>
        parse_segment_name lib (sp_join dev_dir (de_name e)) = Some sf) \<or> listed m sf"
  by (induction es arbitrary: m) (auto simp: add_segment_listed)

lemma listed_sorted: "listed m sf \<Longrightarrow> sf \<in> set (concat (map snd (map (\<lambda>(d, segs). (d, sort_key sf_seq_lo segs)) m)))"
proof -
  assume "listed m sf"
  then obtain k segs where "(k, segs) \<in> set m" "sf \<in> set segs" by (auto simp: listed_def dest: map_of_SomeD)
  then show ?thesis by (auto intro!: bexI [of _ "(k, segs)"])
qed


context channel_store
begin

lemma list_device_still: "sd_store dir = ops \<Longrightarrow> snd (list_device lib dir e m s) = s"
  using list_pure [of "sp_join (sp_join (sd_root dir) OPS_DIR) (de_name e)" s]
  by (auto simp: list_device_def Let_def io_bind_def split: prod.splits sum.splits)

lemma list_segments_still:
  assumes "sd_store dir = ops" and "list_segments lib dir s = (r, s')"
  shows "s' = s"
proof (cases "st_list_dir ops (sp_join (sd_root dir) OPS_DIR) s")
  case (Pair es s1)
  then have s1: "s1 = s" using list_pure [of "sp_join (sd_root dir) OPS_DIR" s] by simp
  show ?thesis
  proof (cases es)
    case (Inr dirs)
    obtain m s2 where fold: "io_fold (list_device lib dir) dirs [] s = (m, s2)" by fastforce
    have "s2 = s" by (rule io_fold_still [OF _ fold]) (rule list_device_still [OF assms(1)])
    with fold show ?thesis
      using assms Pair Inr s1 by (cases m) (auto simp: list_segments_def io_try_def)
  qed (use assms Pair s1 in \<open>simp add: list_segments_def io_try_def\<close>)
qed

lemma list_segments_finds:
  assumes "sd_store dir = ops" and "uuid_ok lib" and "id_wf d"
    and "holds (sp_join (device_dir lib dir d) (segment_name lib d lo hi)) bs s"
    and "list_segments lib dir s = (Inr m, s')"
  shows "\<exists>sf\<in>set (concat (map snd m)). sf_path sf = sp_join (device_dir lib dir d) (segment_name lib d lo hi)"
proof -
  let ?root = "sp_join (sd_root dir) OPS_DIR" and ?name = "segment_name lib d lo hi"
  let ?dev = "sp_join ?root (to_hyphenated lib d)" and ?e = "\<lparr>de_name = to_hyphenated lib d, de_is_dir = True\<rparr>"
  define sf where "sf = \<lparr>sf_device_id = d, sf_seq_lo = lo, sf_seq_hi = hi, sf_path = sp_join ?dev ?name\<rparr>"
  have ok: "ok s" and rd: "fst (st_read ops (sp_join ?dev ?name) s) = Inr (Some bs)"
    using assms(4) by (simp_all add: holds_def device_dir_def)
  obtain es where es: "st_list_dir ops ?root s = (Inr es, s)" "?e \<in> set es"
    using list_subdir [OF ok rd] list_pure [of ?root s] by (metis prod.collapse)
  obtain fs where fs: "st_list_dir ops ?dev s = (Inr fs, s)" "\<lparr>de_name = ?name, de_is_dir = False\<rparr> \<in> set fs"
    using list_file [OF ok rd] list_pure [of ?dev s] by (metis prod.collapse)
  obtain m0 where m0: "io_fold (list_device lib dir) es [] s = (Inr m0, s')"
    and m: "m = map (\<lambda>(d, segs). (d, sort_key sf_seq_lo segs)) m0"
    using assms(1,5) es(1) by (auto simp: list_segments_def io_try_def io_bind_Inr)
  have found: "extension (sp_join ?dev ?name) = Some OPLOG_EXT" "parse_segment_name lib (sp_join ?dev ?name) = Some sf"
    using segment_name_props(1) [OF assms(2,3)] parse_segment_path [OF assms(2,3)]
    by (simp_all add: extension_def file_name_def sf_def) (simp add: sp_join_def)
  have "listed m0 sf"
  proof (rule io_fold_establishes [of es "list_device lib dir" s "\<lambda>m. listed m sf" ?e, OF _ _ es(2) _ m0])
    show "snd (list_device lib dir x acc s) = s" for x acc by (rule list_device_still [OF assms(1)])
    show "listed acc' sf" if "list_device lib dir x acc s = (Inr acc', s)" "listed acc sf" for x acc acc'
      using that by (auto simp: list_device_def Let_def io_bind_Inr add_segments_listed split: if_splits)
    show "listed acc' sf" if "list_device lib dir ?e acc s = (Inr acc', s)" for acc acc'
    proof -
      have acc': "acc' = fold (add_segment lib ?dev) fs acc"
        using that fs(1) assms(1) by (simp add: list_device_def Let_def)
      show ?thesis
        unfolding acc' add_segments_listed
        by (rule disjI1, rule bexI [OF _ fs(2)]) (simp add: found)
    qed
  qed
  then have "sf \<in> set (concat (map snd m))" unfolding m by (rule listed_sorted)
  then show ?thesis by (intro bexI [of _ sf]) (simp_all add: sf_def device_dir_def)
qed

lemma read_all_ops_delivers:
  assumes "sd_store dir = ops" and "uuid_ok lib" and "id_wf d"
    and "holds (sp_join (device_dir lib dir d) (segment_name lib d lo hi)) bs s"
    and "decode_segment bs = Inr run"
    and "read_all_ops lib dir s = (Inr all, s')"
  shows "s' = s \<and> set run \<subseteq> set all"
proof -
  obtain m where m: "list_segments lib dir s = (Inr m, s)"
    and rd: "io_fold (read_segment dir) (concat (map snd m)) [] s = (Inr all, s')"
    using assms(6) list_segments_still [OF assms(1)] by (force simp: read_all_ops_def io_bind_Inr)
  obtain sf where sf: "sf \<in> set (concat (map snd m))" "sf_path sf = sp_join (device_dir lib dir d) (segment_name lib d lo hi)"
    using list_segments_finds [OF assms(1-4) m] by blast
  have still: "snd (read_segment dir x acc s) = s" for x acc
    using read_pure [of "sf_path x" s] assms(1)
    by (auto simp: read_segment_def io_bind_def split: prod.splits sum.splits)
  have grow: "set acc \<subseteq> set acc'" if "read_segment dir x acc s = (Inr acc', s)" for x acc acc'
    using that by (auto simp: read_segment_def io_bind_Inr)
  have body: "st_read ops (sf_path sf) s = (Inr (Some bs), s)"
    using assms(4) read_pure [of "sf_path sf" s] by (simp add: holds_def sf(2) prod_eq_iff)
  have "set run \<subseteq> set all"
  proof (rule io_fold_establishes [of _ "read_segment dir" s "\<lambda>acc. set run \<subseteq> set acc", OF still _ sf(1) _ rd])
    show "set run \<subseteq> set acc'" if "read_segment dir x acc s = (Inr acc', s)" "set run \<subseteq> set acc" for x acc acc'
      using grow [OF that(1)] that(2) by blast
    show "set run \<subseteq> set acc'" if "read_segment dir sf acc s = (Inr acc', s)" for acc acc'
      using that body assms(1,5) by (auto simp: read_segment_def)
  qed
  moreover have "s' = s" by (rule io_fold_still [OF _ rd]) (rule still)
  ultimately show ?thesis by simp
qed

end

section \<open>A sync directory on the filesystem\<close>

lemmas fs_store_select = fs_store_def [THEN arg_cong, of st_create_dir_all, simplified]
  fs_store_def [THEN arg_cong, of st_exists, simplified] fs_store_def [THEN arg_cong, of st_write_atomic, simplified]
  fs_store_def [THEN arg_cong, of st_read, simplified]

lemma mkdir_fold_get_long:
  "length p < length q \<Longrightarrow> bt_get (fold (mkdir_step p) ns f) q = bt_get f q"
proof (induction ns arbitrary: f)
  case (Cons n ns)
  have "take n p \<noteq> q" using Cons.prems by auto
  then have "bt_get (mkdir_step p n f) q = bt_get f q" by (simp add: mkdir_step_def)
  with Cons show ?case by simp
qed simp

lemma fs_create_absent:
  assumes "fs_ok s" and "fst (fs_store_exists root (sp_join d name) s) = Inr False"
  shows "fst (fs_store_exists root (sp_join d name) (snd (fs_store_create_dir_all root d s))) = Inr False"
proof -
  let ?p = "resolve root (sp_join d name)" and ?s = "snd (fs_store_create_dir_all root d s)"
  have len: "length (resolve root d) < length ?p" by (simp add: resolve_def sp_join_def)
  have "bt_get s ?p = None"
  proof (rule ccontr)
    assume "bt_get s ?p \<noteq> None"
    then obtain node where node: "bt_get s ?p = Some node" by auto
    then have "\<not> fs_blocked s ?p" using fs_okD [OF assms(1) node] by (auto simp: fs_blocked_iff)
    with assms(2) node show False by (simp add: fs_store_exists_def fs_node_at_def split: if_splits)
  qed
  then have "bt_get ?s ?p = None"
    using mkdir_fold_get_long [OF len] fs_create_dir_all_Inr(1)
    by (fastforce simp: fs_store_create_dir_all_def fs_op_def split: sum.splits)
  then show ?thesis using len by (auto simp: fs_store_exists_def fs_node_at_def)
qed

text \<open>What a first write of a run puts on the channel.\<close>

lemma segment_written:
  assumes "sd_store dir = fs_store root" and "uuid_ok lib" and "id_wf (device_id (hd run))" and "fs_ok s"
    and "write_segment lib dir run s = (Inr (Some sf), s1)"
    and "fst (fs_store_exists root (sf_path sf) s) = Inr False"
  shows "\<exists>bs. encode_segment run = Some bs \<and> fs.holds root (sf_path sf) bs s1 \<and>
    sf_path sf = sp_join (device_dir lib dir (device_id (hd run)))
      (segment_name lib (device_id (hd run)) (sf_seq_lo sf) (sf_seq_hi sf))"
proof -
  let ?p = "sf_path (run_file lib dir run)"
  let ?dev = "device_dir lib dir (device_id (hd run))"
  have p: "?p = sp_join ?dev (segment_name lib (device_id (hd run)) (seq (hd run)) (seq (last run)))"
    by (simp add: run_file_def Let_def)
  have sf: "sf = run_file lib dir run" and "run \<noteq> []"
    using assms(5) by (auto simp: write_segment_Inr split: if_splits)
  then obtain s0 b s0' where mk: "fs_store_create_dir_all root ?dev s = (Inr (), s0)"
    and ex: "fs_store_exists root ?p s0 = (Inr b, s0')"
    and wr: "if b then s1 = s0' else \<exists>bs. encode_segment run = Some bs \<and> fs_store_write_atomic root ?p bs s0' = (Inr (), s1)"
    using assms(5) unfolding write_segment_Inr assms(1) fs_store_select by auto
  have "fst (fs_store_exists root ?p s0) = Inr False"
    using fs_create_absent [OF assms(4), of root ?dev] assms(6) mk by (simp add: sf p)
  with ex have "\<not> b" and s0': "s0' = s0" by (auto simp: fs_store_exists_def)
  with wr obtain bs where enc: "encode_segment run = Some bs"
    and wr: "fs_store_write_atomic root ?p bs s0 = (Inr (), s1)" by auto
  have s0: "fs_ok s0" using create_ok [OF assms(4), of root ?dev] mk by simp
  have "fs_ok s1" using write_atomic_ok [OF s0, of root ?p bs] wr by simp
  moreover have "fst (fs_store_read root ?p s1) = Inr (Some bs)"
    using write_atomic_reads [OF s0 wr] by (simp add: fs_store_read_Inr)
  moreover have "\<not> sp_temporary ?p"
    using segment_name_props(3) [OF assms(2,3)] by (simp add: sp_temporary_def file_name_def p sp_join_def)
  ultimately have "fs.holds root ?p bs s1" by (simp add: fs.holds_def fs_store_select)
  with enc show ?thesis by (simp add: sf run_file_def Let_def)
qed

text \<open>
  Claim C22. A published segment is delivered: once \<open>write_segment\<close> has written the run of a device
  to a file that was not there, every later \<open>read_all_ops\<close> that succeeds returns all of its ops, in
  whatever order devices write segments, heads, manifests, keys and blobs and remove keys in
  between; and the read itself leaves the channel as it was.
\<close>

theorem published_delivered:
  assumes "sd_store dir = fs_store root" and "uuid_ok lib" and "id_wf (device_id (hd run))" and "fs_ok s"
    and "write_segment lib dir run s = (Inr (Some sf), s1)"
    and "fst (fs_store_exists root (sf_path sf) s) = Inr False"
    and "\<forall>op\<in>set run. op_wf op \<and> target_nonzero op"
    and "length (concat (map frame run)) < usize_bound"
    and "(sync_write lib dir)\<^sup>*\<^sup>* s1 s2"
    and "read_all_ops lib dir s2 = (Inr all, s3)"
  shows "(\<lambda>op. op\<lparr>created_at := 0\<rparr>) ` set run \<subseteq> set all \<and> s3 = s2"
proof -
  obtain bs where bs: "encode_segment run = Some bs" "fs.holds root (sf_path sf) bs s1"
    and path: "sf_path sf = sp_join (device_dir lib dir (device_id (hd run)))
      (segment_name lib (device_id (hd run)) (sf_seq_lo sf) (sf_seq_hi sf))"
    using segment_written [OF assms(1-6)] by blast
  have "fs.holds root (sf_path sf) bs s2"
    by (rule fs.sync_writes_hold [OF assms(9,1) _ bs(2)]) (simp add: path in_ops_segment)
  note held = this [unfolded path]
  have "decode_segment bs = Inr (map (\<lambda>op. op\<lparr>created_at := 0\<rparr>) run)"
    using bs(1) assms(7,8) decode_segment_frames [of run] by (simp add: encode_segment_fits split: if_splits)
  from fs.read_all_ops_delivers [OF assms(1-3) held this assms(10)]
  show ?thesis by (simp only: set_map simp_thms)
qed

section \<open>A concrete directory\<close>

definition ex_hyphenated :: "bytes \<Rightarrow> string" where
  "ex_hyphenated bs =
     (let h = hex_encode bs
      in take 8 h @ ''-'' @ take 4 (drop 8 h) @ ''-'' @ take 4 (drop 12 h) @ ''-'' @ take 4 (drop 16 h) @ ''-'' @ drop 20 h)"

definition ex_parse_uuid :: "string \<Rightarrow> bytes option" where
  "ex_parse_uuid s =
     (case hex_bytes (filter (\<lambda>c. c \<noteq> CHR ''-'') s) of Inl _ \<Rightarrow> None
      | Inr bs \<Rightarrow> if length bs = 16 then Some bs else None)"

definition ex_ship_lib :: ship_lib where
  "ex_ship_lib =
     \<lparr>uuid_hyphenated = ex_hyphenated, uuid_parse_str = ex_parse_uuid,
      json_head = (\<lambda>hf. Inr (u64_to_le (hf_seq hf))), json_manifest = (\<lambda>mf. Inr [word_of_nat (length (mf_devices mf))]),
      json_parse_manifest = (\<lambda>_. None)\<rparr>"

lemma ex_ship_lib_ok: "uuid_ok ex_ship_lib"
proof -
  have main: "filter (\<lambda>c. c \<noteq> CHR ''-'') (ex_hyphenated bs) = hex_encode bs \<and>
      set (ex_hyphenated bs) \<subseteq> set ''0123456789abcdef-'' \<and> length (ex_hyphenated bs) = 36" if "length bs = 16" for bs
  proof -
    let ?h = "hex_encode bs"
    have len: "length ?h = 32" using that by (simp add: hex_encode_def length_concat o_def sum_list_triv)
    have hex: "set ?h \<subseteq> set ''0123456789abcdef''" by (rule hex_encode_set)
    have clean: "filter (\<lambda>c. c \<noteq> CHR ''-'') xs = xs" if "set xs \<subseteq> set ?h" for xs
      using that hex by (intro filter_True) auto
    have parts: "set (take n (drop m ?h)) \<subseteq> set ?h" "set (take n ?h) \<subseteq> set ?h" "set (drop m ?h) \<subseteq> set ?h" for n m
      by (meson set_take_subset set_drop_subset subset_trans)+
    have whole: "?h = take 8 ?h @ take 4 (drop 8 ?h) @ take 4 (drop 12 ?h) @ take 4 (drop 16 ?h) @ drop 20 ?h"
      using take_drop_rest [of 8 0 ?h] take_drop_rest [of 4 8 ?h] take_drop_rest [of 4 12 ?h] take_drop_rest [of 4 16 ?h]
      by simp
    have "filter (\<lambda>c. c \<noteq> CHR ''-'') (ex_hyphenated bs) = ?h"
      unfolding ex_hyphenated_def Let_def filter_append clean [OF parts(1)] clean [OF parts(2)] clean [OF parts(3)]
      using whole by simp
    moreover have "set (ex_hyphenated bs) \<subseteq> insert (CHR ''-'') (set ?h)"
      using parts unfolding ex_hyphenated_def Let_def set_append by (intro Un_least) (simp_all add: subset_insertI2)
    moreover have "length (ex_hyphenated bs) = 36"
      unfolding ex_hyphenated_def Let_def length_append length_take length_drop len by simp
    moreover have "insert (CHR ''-'') (set ?h) \<subseteq> set ''0123456789abcdef-''"
      using insert_mono [OF hex, of "CHR ''-''"] by (simp only: list.set insert_commute)
    ultimately show ?thesis by (meson subset_trans)
  qed
  then show ?thesis
    by (auto simp: uuid_ok_def ex_ship_lib_def ex_parse_uuid_def hex_bytes_encode split: sum.splits if_splits)
qed

definition ex_ship_vault :: id where
  "ex_ship_vault = Id (replicate 16 1)"

definition ex_sync_dir :: "fs sync_dir" where
  "ex_sync_dir = \<lparr>sd_store = fs_store [''sync''], sd_root = sp_join sp_root (to_hyphenated ex_ship_lib ex_ship_vault),
     sd_vault_id = ex_ship_vault\<rparr>"

definition ex_channel :: fs where
  "ex_channel = snd (with_store ex_ship_lib (fs_store [''sync'']) ex_ship_vault [([''sync''], FsDir)])"

text \<open>The channel with the segment \<open>bs\<close> of \<open>wire_op\<close>, and later also with the device's head.\<close>

abbreviation ex_segment :: string where
  "ex_segment \<equiv> ''02020202-0202-0202-0202-020202020202-1-1.oplog''"

abbreviation ex_device :: string where
  "ex_device \<equiv> to_hyphenated ex_ship_lib (device_id wire_op)"

abbreviation ex_root :: "string list" where
  "ex_root \<equiv> [''sync'', to_hyphenated ex_ship_lib ex_ship_vault]"

definition ex_published :: "bytes \<Rightarrow> fs" where
  "ex_published bs =
     [([''sync''], FsDir), (ex_root, FsDir), (ex_root @ [''chain''], FsDir), (ex_root @ [''keys''], FsDir),
      (ex_root @ [''ops''], FsDir), (ex_root @ [''ops'', ex_device], FsDir),
      (ex_root @ [''ops'', ex_device, ex_segment], FsFile bs)]"

definition ex_later :: "bytes \<Rightarrow> fs" where
  "ex_later bs = bt_insert (ex_root @ [''chain'', ex_device @ ''.head'']) (FsFile (u64_to_le 1)) (ex_published bs)"

lemma ex_segment_name: "segment_name ex_ship_lib (device_id wire_op) (seq wire_op) (seq wire_op) = ex_segment"
  by code_simp

lemmas fs_eval = fs_create_dir_all_def fs_op_eq fs_store_create_dir_all_def fs_blocked_def fs_file_at_def fs_node_at_def
  resolve_def less_char_def sp_join_def sp_root_def fs_store_select upt_conv_Cons numeral_eq_Suc
  OPS_DIR_def CHAIN_DIR_def KEYS_DIR_def device_dir_def ex_sync_dir_def

lemma ex_channel_eq: "ex_channel = take 5 (ex_published bs)"
  by (simp add: ex_channel_def with_store_def io_bind_def Let_def ex_published_def fs_eval)

lemma ex_run_file: "sf_path (run_file ex_ship_lib ex_sync_dir [wire_op]) =
    StorePath [to_hyphenated ex_ship_lib ex_ship_vault, ''ops'', ex_device, ex_segment]"
  by (simp add: run_file_def Let_def ex_segment_name fs_eval)

lemma ex_created:
  "fs_store_create_dir_all [''sync''] (device_dir ex_ship_lib ex_sync_dir (device_id wire_op)) ex_channel =
     (Inr (), take 6 (ex_published bs))"
  by (simp add: ex_channel_eq [of bs] ex_published_def fs_eval)

lemma ex_absent:
  "fs_store_exists [''sync''] (sf_path (run_file ex_ship_lib ex_sync_dir [wire_op])) (take 6 (ex_published bs)) =
     (Inr False, take 6 (ex_published bs))"
  "fst (fs_store_exists [''sync''] (sf_path (run_file ex_ship_lib ex_sync_dir [wire_op])) ex_channel) = Inr False"
  unfolding ex_run_file ex_channel_eq [of bs] by (simp_all add: ex_published_def fs_store_exists_def fs_eval)

lemma ex_stored:
  "fs_store_write_atomic [''sync''] (sf_path (run_file ex_ship_lib ex_sync_dir [wire_op])) bs (take 6 (ex_published bs)) =
     (Inr (), ex_published bs)"
  unfolding ex_run_file
  by (simp add: ex_published_def fs_store_write_atomic_def write_atomic_on_def with_extension_def name_stem_def rsplit_once_def io_bind_def
      Let_def fs_write_def fs_rename_def fs_read_def bind_ok_def fs_unlink_def fs_eval)

lemma ex_written:
  "write_segment ex_ship_lib ex_sync_dir [wire_op] ex_channel =
     (Inr (Some (run_file ex_ship_lib ex_sync_dir [wire_op])), ex_published (frame wire_op))"
  unfolding write_segment_Inr
  using ex_created [of "frame wire_op"] ex_absent(1) ex_stored wire_segment
  by (auto simp: ex_sync_dir_def fs_store_select)

lemma ex_head_written:
  "write_head ex_ship_lib ex_sync_dir (device_id wire_op) 1 [7] (ex_published bs) = (Inr (), ex_later bs)"
  by (simp add: ex_later_def ex_published_def write_head_def head_path_def ex_ship_lib_def fs_store_write_atomic_def write_atomic_on_def with_extension_def name_stem_def rsplit_once_def io_bind_def
      Let_def fs_write_def fs_rename_def fs_read_def bind_ok_def fs_unlink_def fs_eval)

lemma ex_ids: "id_wf (device_id wire_op)" "id_wf ex_ship_vault"
  by (simp_all add: wire_op_def ex_ship_vault_def id_wf_def)

lemma ex_lists:
  "fs_store_list_dir [''sync''] (sp_join (sd_root ex_sync_dir) OPS_DIR) (ex_later bs) =
     (Inr [\<lparr>de_name = ex_device, de_is_dir = True\<rparr>], ex_later bs)"
  "fs_store_list_dir [''sync''] (device_dir ex_ship_lib ex_sync_dir (device_id wire_op)) (ex_later bs) =
     (Inr [\<lparr>de_name = ex_segment, de_is_dir = False\<rparr>], ex_later bs)"
  by (simp_all add: fs_store_list_dir_def fs_read_dir_def ex_later_def ex_published_def fs_eval)

lemma ex_listed:
  "list_segments ex_ship_lib ex_sync_dir (ex_later bs) =
     (Inr [(as_bytes (device_id wire_op), [run_file ex_ship_lib ex_sync_dir [wire_op]])], ex_later bs)"
proof -
  let ?dev = "device_dir ex_ship_lib ex_sync_dir (device_id wire_op)"
  have found: "run_file ex_ship_lib ex_sync_dir [wire_op] =
      \<lparr>sf_device_id = device_id wire_op, sf_seq_lo = seq wire_op, sf_seq_hi = seq wire_op, sf_path = sp_join ?dev ex_segment\<rparr>"
    by (simp add: run_file_def Let_def ex_segment_name)
  note name = segment_name_props(1) [OF ex_ship_lib_ok ex_ids(1), of "seq wire_op" "seq wire_op", unfolded ex_segment_name]
    parse_segment_path [OF ex_ship_lib_ok ex_ids(1), of ?dev "seq wire_op" "seq wire_op", unfolded ex_segment_name, folded found]
  have "extension (sp_join ?dev ex_segment) = Some OPLOG_EXT"
    using name(1) by (simp add: extension_def file_name_def sp_join_def)
  with name(2) have "add_segment ex_ship_lib ?dev \<lparr>de_name = ex_segment, de_is_dir = False\<rparr> [] =
      [(as_bytes (device_id wire_op), [run_file ex_ship_lib ex_sync_dir [wire_op]])]"
    by (simp add: add_segment_def Let_def bt_push_def bt_entry_def found)
  moreover have "sp_join (sp_join (sd_root ex_sync_dir) OPS_DIR) ex_device = ?dev" by (simp add: device_dir_def)
  moreover have "st_list_dir (sd_store ex_sync_dir) = fs_store_list_dir [''sync'']" by (simp add: ex_sync_dir_def fs_store_def)
  ultimately show ?thesis by (simp add: list_segments_def io_try_def list_device_def ex_lists Let_def io_bind_def)
qed

lemma ex_delivered:
  "read_all_ops ex_ship_lib ex_sync_dir (ex_later (frame wire_op)) =
     (Inr [wire_op\<lparr>created_at := 0\<rparr>], ex_later (frame wire_op))"
proof -
  have "fs_store_read [''sync''] (sf_path (run_file ex_ship_lib ex_sync_dir [wire_op])) (ex_later (frame wire_op)) =
      (Inr (Some (frame wire_op)), ex_later (frame wire_op))"
    unfolding ex_run_file by (simp add: fs_store_read_def fs_read_def ex_later_def ex_published_def fs_eval)
  moreover have "decode_segment (frame wire_op) = Inr [wire_op\<lparr>created_at := 0\<rparr>]"
    using decode_segment_frames [of "[wire_op]"] wire_op_ok by (simp add: segment_fits_def frame_def usize_bound_def)
  moreover have "st_read (sd_store ex_sync_dir) = fs_store_read [''sync'']" by (simp add: ex_sync_dir_def fs_store_def)
  ultimately show ?thesis by (simp add: read_all_ops_def ex_listed read_segment_def)
qed

lemma ex_channel_ok: "fs_ok ex_channel"
proof -
  have "io_keeps fs_ok (with_store ex_ship_lib (fs_store [''sync'']) ex_ship_vault)"
    unfolding with_store_def Let_def
    by (intro io_keeps_bind io_keeps_basic; simp add: io_keeps_def fs_store_select create_ok)
  moreover have "fs_ok [([''sync''], FsDir)]" by (simp add: fs_ok_def)
  ultimately show ?thesis by (simp add: io_keeps_def ex_channel_def)
qed

lemma published_delivered_witness:
  "(\<lambda>op. op\<lparr>created_at := 0\<rparr>) ` set [wire_op] \<subseteq> set [wire_op\<lparr>created_at := 0\<rparr>] \<and>
   read_all_ops ex_ship_lib ex_sync_dir (ex_later (frame wire_op)) =
     (Inr [wire_op\<lparr>created_at := 0\<rparr>], ex_later (frame wire_op))"
proof -
  have later: "(sync_write ex_ship_lib ex_sync_dir)\<^sup>*\<^sup>* (ex_published (frame wire_op)) (ex_later (frame wire_op))"
    using sync_write.intros(2) [of ex_ship_lib ex_sync_dir "ex_published (frame wire_op)" "device_id wire_op" 1 "[7]"]
    by (simp add: ex_head_written)
  have "(\<lambda>op. op\<lparr>created_at := 0\<rparr>) ` set [wire_op] \<subseteq> set [wire_op\<lparr>created_at := 0\<rparr>] \<and>
      ex_later (frame wire_op) = ex_later (frame wire_op)"
    by (rule published_delivered [OF _ ex_ship_lib_ok _ ex_channel_ok ex_written ex_absent(2) _ _ later ex_delivered])
      (use wire_op_ok ex_ids in \<open>simp_all add: ex_sync_dir_def frame_def usize_bound_def\<close>)
  then show ?thesis using ex_delivered by simp
qed

end
