(* ===== verification/Share.thy ===== *)
theory Share
  imports Account
begin

text \<open>
  Sharing a vault's key with another device (\<open>lp-vault/src/account.rs\<close>): the signed share blob, its
  sealing to a trusted peer and its import, with the name the vault gets here; sealed messages and
  the handshake signature of a session; the typed audit entries.
\<close>

section \<open>Audit entries\<close>

definition session_audit ::
  "crypto_lib \<Rightarrow> audit_origin \<Rightarrow> int \<Rightarrow> live_session \<Rightarrow> audit_kind \<Rightarrow> account_db \<Rightarrow> vault_error + account_db" where
  "session_audit L ori now ses kind acc = record_audit L ori now (ss_device_id ses) kind None acc"

definition record_secret_read ::
  "crypto_lib \<Rightarrow> audit_origin \<Rightarrow> int \<Rightarrow> live_session \<Rightarrow> id \<Rightarrow> id \<Rightarrow> string option \<Rightarrow> account_db \<Rightarrow> vault_error + account_db" where
  "record_secret_read L ori now ses v i fld acc = session_audit L ori now ses (ItemSecretRead i v fld) acc"

definition record_export ::
  "crypto_lib \<Rightarrow> audit_origin \<Rightarrow> int \<Rightarrow> live_session \<Rightarrow> string \<Rightarrow> u64 \<Rightarrow> account_db \<Rightarrow> vault_error + account_db" where
  "record_export L ori now ses fmt item_count acc = session_audit L ori now ses (Export fmt item_count) acc"

definition record_vault_share ::
  "crypto_lib \<Rightarrow> audit_origin \<Rightarrow> int \<Rightarrow> live_session \<Rightarrow> id \<Rightarrow> id \<Rightarrow> account_db \<Rightarrow> vault_error + account_db" where
  "record_vault_share L ori now ses v peer acc = session_audit L ori now ses (VaultShare v peer) acc"

definition record_nearby_sync ::
  "crypto_lib \<Rightarrow> audit_origin \<Rightarrow> int \<Rightarrow> live_session \<Rightarrow> id \<Rightarrow> account_db \<Rightarrow> vault_error + account_db" where
  "record_nearby_sync L ori now ses peer acc = session_audit L ori now ses (NearbySync peer) acc"

section \<open>Messages of a session\<close>

definition seal_to_peer :: "crypto_lib \<Rightarrow> bytes \<Rightarrow> bytes \<Rightarrow> bytes \<Rightarrow> vault_error + bytes" where
  "seal_to_peer L peer_x25519_pub plaintext aad =
     map_err from_crypto (seal_for (cl_x25519 L) (cl_hkdf L) (cl_aead L) peer_x25519_pub plaintext aad)"

definition open_sealed_to_me :: "crypto_lib \<Rightarrow> live_session \<Rightarrow> bytes \<Rightarrow> bytes \<Rightarrow> vault_error + bytes" where
  "open_sealed_to_me L ses sealed aad =
     map_err from_crypto (sealing_open (cl_x25519 L) (cl_hkdf L) (cl_aead L) (ls_sealing ses) sealed aad)"

definition CONTEXT_LAN_HANDSHAKE :: string where
  "CONTEXT_LAN_HANDSHAKE = ''localpass/v1/sign/lan-handshake''"

definition sign_lan_handshake :: "crypto_lib \<Rightarrow> live_session \<Rightarrow> bytes \<Rightarrow> vault_error + bytes" where
  "sign_lan_handshake L ses message =
     map_err from_crypto (signing_sign (cl_ed_sign L) (ss_signing ses) CONTEXT_LAN_HANDSHAKE message)"

section \<open>The share blob\<close>

definition SHARE_BLOB_MAGIC :: bytes where "SHARE_BLOB_MAGIC = str_bytes ''LPS2''"

definition SHARE_SIGN_CONTEXT :: string where "SHARE_SIGN_CONTEXT = ''localpass/v1/sign/vault-key-share''"

definition UNSIGNED_SHARE :: string where
  "UNSIGNED_SHARE = ''unsigned vault-key share (old format) refused: re-share the vault from the sending device''"

definition UNTRUSTED_SHARE_SENDER :: string where
  "UNTRUSTED_SHARE_SENDER = ''vault-key share from a device this device has not trusted: verify and trust it first''"

record signed_share =
  sh_sender :: id
  sh_sealed_key :: bytes
  sh_sealed_name :: bytes
  sh_signature :: bytes

definition u32_or_max :: "nat \<Rightarrow> u32" where
  "u32_or_max n = (if n < 2 ^ 32 then word_of_nat n else - 1)"

definition share_signed_message :: "id \<Rightarrow> id \<Rightarrow> id \<Rightarrow> bytes \<Rightarrow> bytes \<Rightarrow> bytes" where
  "share_signed_message v recipient sender sealed_key sealed_name =
     as_bytes v @ as_bytes recipient @ as_bytes sender @
     u32_to_le (u32_or_max (length sealed_key)) @ sealed_key @
     u32_to_le (u32_or_max (length sealed_name)) @ sealed_name"

definition take_prefixed :: "bytes \<Rightarrow> vault_error + (bytes \<times> bytes)" where
  "take_prefixed b =
     (if length b < 4 then Inl (VaultInvalid ''share blob truncated (length prefix)'')
      else
        let n = unat (u32_from_le (take 4 b)); rest = drop 4 b
        in if length rest < n then Inl (VaultInvalid ''share blob truncated (segment)'')
           else Inr (take n rest, drop n rest))"

definition split_share_blob :: "bytes \<Rightarrow> vault_error + signed_share" where
  "split_share_blob blob =
     (case strip_prefix SHARE_BLOB_MAGIC blob of
        None \<Rightarrow> Inl (VaultInvalid UNSIGNED_SHARE)
      | Some rest \<Rightarrow>
          if length rest < 16 then Inl (VaultInvalid ''share blob truncated (sender)'')
          else
            bind_ok (take_prefixed (drop 16 rest)) (\<lambda>(sealed_key, rest1).
            bind_ok (take_prefixed rest1) (\<lambda>(sealed_name, rest2).
            if length rest2 \<noteq> 64 then Inl (VaultInvalid ''share blob signature missing or has trailing bytes'')
            else bind_ok (id_from_slice (take 16 rest)) (\<lambda>sender.
              Inr \<lparr>sh_sender = sender, sh_sealed_key = sealed_key, sh_sealed_name = sealed_name,
                   sh_signature = rest2\<rparr>))))"

text \<open>The \<open>unwrap\<close> of a segment's length panics from 4 GiB on.\<close>

definition prefixed :: "bytes \<Rightarrow> vault_error + bytes" where
  "prefixed segment =
     (if length segment < 2 ^ 32 then Inr (u32_to_le (word_of_nat (length segment)) @ segment)
      else Inl (VaultPanic ''share segment length''))"

definition build_share_blob :: "signed_share \<Rightarrow> vault_error + bytes" where
  "build_share_blob s =
     bind_ok (prefixed (sh_sealed_key s)) (\<lambda>key_part.
     bind_ok (prefixed (sh_sealed_name s)) (\<lambda>name_part.
     Inr (SHARE_BLOB_MAGIC @ as_bytes (sh_sender s) @ key_part @ name_part @ sh_signature s)))"

section \<open>Sharing and importing\<close>

definition share_blob_for :: "crypto_lib \<Rightarrow> live_session \<Rightarrow> id \<Rightarrow> trusted_peer \<Rightarrow> account_db \<Rightarrow> vault_error + bytes" where
  "share_blob_for L ses v peer acc =
     bind_ok (live_row acc v) (\<lambda>r.
     bind_ok (ak_unwrap L (ls_account_key ses) (rg_wrapped_vault_key r) (aad_vault_key v)) (\<lambda>vault_key.
     bind_ok (ak_open L (ls_account_key ses) (rg_name_env r) (aad_vault_name v)) (\<lambda>name.
     bind_ok (map_err from_crypto (seal_key_for (cl_x25519 L) (cl_hkdf L) (cl_aead L) (pd_x25519_pub peer) vault_key
       (aad_share_vault_key v (pd_device_id peer)))) (\<lambda>sealed_key.
     bind_ok (map_err from_crypto (seal_for (cl_x25519 L) (cl_hkdf L) (cl_aead L) (pd_x25519_pub peer) name
       (aad_share_vault_name v (pd_device_id peer)))) (\<lambda>sealed_name.
     let me = ss_device_id ses in
     bind_ok (map_err from_crypto (signing_sign (cl_ed_sign L) (ss_signing ses) SHARE_SIGN_CONTEXT
       (share_signed_message v (pd_device_id peer) me sealed_key sealed_name))) (\<lambda>signature.
     build_share_blob \<lparr>sh_sender = me, sh_sealed_key = sealed_key, sh_sealed_name = sealed_name, sh_signature = signature\<rparr>))))))"

definition share_vault_key_to_peer ::
  "crypto_lib \<Rightarrow> audit_origin \<Rightarrow> int \<Rightarrow> live_session \<Rightarrow> id \<Rightarrow> trusted_peer \<Rightarrow> account_db \<Rightarrow> vault_error + (bytes \<times> account_db)" where
  "share_vault_key_to_peer L ori now ses v peer acc =
     bind_ok (share_blob_for L ses v peer acc) (\<lambda>blob.
     Inr (blob, best_effort (record_vault_share L ori now ses v (pd_device_id peer)) acc))"

definition register_shared_vault ::
  "id \<Rightarrow> bytes \<Rightarrow> bytes \<Rightarrow> 'x \<Rightarrow> int \<Rightarrow> 'x profile \<Rightarrow> vault_error + (bool \<times> 'x profile)" where
  "register_shared_vault v wrapped_vault_key_env name_env ix now pf =
     (if bt_get (ac_registry (pf_account pf)) (as_bytes v) \<noteq> None then Inr (False, pf)
      else
        let vaults = (if bt_get (pf_vaults pf) (as_bytes v) \<noteq> None then pf_vaults pf
                      else bt_insert (as_bytes v) (empty_vault ix) (pf_vaults pf))
        in bind_ok (registry_insert v
             \<lparr>rg_name_env = name_env, rg_wrapped_vault_key = wrapped_vault_key_env, rg_cipher_suite = CIPHER_SUITE_XCHACHA,
              rg_created_at = now, rg_deleted_at = None\<rparr> (pf_account pf)) (\<lambda>acc.
           Inr (True, pf\<lparr>pf_account := acc, pf_vaults := vaults\<rparr>)))"

text \<open>The key a share must verify under: this device's own, or the pinned key of the sender.\<close>

definition share_sender_key :: "live_session \<Rightarrow> id \<Rightarrow> account_db \<Rightarrow> vault_error + bytes" where
  "share_sender_key ses sender acc =
     (if sender = ss_device_id ses then Inr (ss_ed25519_pub ses)
      else bind_ok (peer_device acc sender) (\<lambda>p.
        bind_ok (ok_or (VaultInvalid UNTRUSTED_SHARE_SENDER) p) (\<lambda>p. Inr (pd_ed25519_pub p))))"

definition shared_vault_name :: "crypto_lib \<Rightarrow> live_session \<Rightarrow> bytes \<Rightarrow> account_db \<Rightarrow> vault_error + bytes" where
  "shared_vault_name L ses name acc =
     (if utf8_valid name
      then bind_ok (list_vaults L ses acc) (\<lambda>existing.
        Inr (str_bytes (disambiguate_vault_name (map snd existing) (bytes_str name))))
      else Inr name)"

definition import_shared_vault_key ::
  "crypto_lib \<Rightarrow> live_session \<Rightarrow> id \<Rightarrow> bytes \<Rightarrow> 'x \<Rightarrow> int \<Rightarrow> 'x profile \<Rightarrow> vault_error + (bool \<times> 'x profile)" where
  "import_shared_vault_key L ses v blob ix now pf =
     bind_ok (split_share_blob blob) (\<lambda>share.
     let me = ss_device_id ses; acc = pf_account pf in
     bind_ok (share_sender_key ses (sh_sender share) acc) (\<lambda>sender_pub.
     bind_ok (map_err from_crypto (cl_vk_from_bytes L sender_pub)) (\<lambda>verifying.
     bind_ok (map_err from_crypto (verifying_verify (cl_ed_verify L) verifying SHARE_SIGN_CONTEXT
       (share_signed_message v me (sh_sender share) (sh_sealed_key share) (sh_sealed_name share))
       (sh_signature share))) (\<lambda>_.
     bind_ok (map_err from_crypto (sealing_open_key (cl_x25519 L) (cl_hkdf L) (cl_aead L) (ls_sealing ses)
       (sh_sealed_key share) (aad_share_vault_key v me))) (\<lambda>vault_key.
     bind_ok (map_err from_crypto (sealing_open (cl_x25519 L) (cl_hkdf L) (cl_aead L) (ls_sealing ses)
       (sh_sealed_name share) (aad_share_vault_name v me))) (\<lambda>name.
     bind_ok (shared_vault_name L ses name acc) (\<lambda>name.
     bind_ok (ak_wrap L (ls_account_key ses) vault_key (aad_vault_key v)) (\<lambda>wrapped.
     bind_ok (ak_seal L (ls_account_key ses) name (aad_vault_name v)) (\<lambda>name_env.
     register_shared_vault v wrapped name_env ix now pf)))))))))"

end
