(* ===== verification/AccountInv.thy ===== *)
theory AccountInv
  imports Share
begin

text \<open>
  What holds of an account store whatever is done with it: a step relation over the operations of
  \<open>account.rs\<close>, the invariant its reachable states keep, and the properties of unlocking, changing the
  password, sharing and importing.
\<close>

section \<open>The libraries\<close>

text \<open>
  What the crates document: the cipher opens what it sealed, both ends of a key agreement compute one
  secret, digests and Ed25519 public keys have 32 bytes and signatures 64, and a signature verifies
  under the public key of its seed.
\<close>

definition crypto_ok :: "crypto_lib \<Rightarrow> bool" where
  "crypto_ok L \<longleftrightarrow> aead_ok (cl_aead L) \<and> x25519_ok (cl_x25519 L) \<and> (\<forall>x. length (cl_blake3 L x) = 32) \<and>
     (\<forall>s. length (cl_ed_public L s) = 32 \<and> cl_vk_from_bytes L (cl_ed_public L s) = Inr (cl_ed_public L s) \<and>
       (\<forall>m. length (cl_ed_sign L s m) = 64 \<and> cl_ed_verify L (cl_ed_public L s) m (cl_ed_sign L s m)))"

lemma crypto_okD [dest]:
  assumes "crypto_ok L"
  shows "aead_ok (cl_aead L)" "x25519_ok (cl_x25519 L)" "length (cl_blake3 L x) = 32"
    "length (cl_ed_public L s) = 32" "cl_vk_from_bytes L (cl_ed_public L s) = Inr (cl_ed_public L s)"
    "length (cl_ed_sign L s m) = 64" "cl_ed_verify L (cl_ed_public L s) m (cl_ed_sign L s m)"
    "length (x_public (cl_x25519 L) s) = 32"
  using assms by (auto simp: crypto_ok_def x25519_ok_def)

lemma ak_seal_open:
  assumes "aead_ok (cl_aead L)" and "ak_seal L key plaintext aad = Inr env"
  shows "ak_open L key env aad = Inr plaintext"
proof -
  obtain e where e: "sym_seal (cl_aead L) key plaintext aad = Inr e" and env: "env = envelope_to_bytes e"
    using assms(2) by (auto simp: ak_seal_def bind_ok_Inr_iff map_err_Inr_iff)
  from sym_seal_open [OF assms(1) e] show ?thesis by (simp add: ak_open_def env)
qed

lemma ak_wrap_unwrap:
  assumes "aead_ok (cl_aead L)" and "ak_wrap L key target aad = Inr env" and "length target = 32"
  shows "ak_unwrap L key env aad = Inr target"
proof -
  obtain e where e: "wrap_key (cl_aead L) key target (aad_str aad) = Inr e" and env: "env = envelope_to_bytes e"
    using assms(2) by (auto simp: ak_wrap_def bind_ok_Inr_iff map_err_Inr_iff)
  from wrap_unwrap [OF assms(1) e] assms(3) show ?thesis by (simp add: ak_unwrap_def env SYMMETRIC_KEY_LEN_def)
qed

lemma ak_unwrap_length: "ak_unwrap L key env aad = Inr target \<Longrightarrow> length target = 32"
  by (auto simp: ak_unwrap_def unwrap_key_def map_err_Inr_iff bind_ok_Inr_iff SYMMETRIC_KEY_LEN_def split: if_splits)

lemma u32_try_uint [simp]: "u32_try_from_i64 (uint w) = Some w"
  by (rule u32_round)

lemma read_set_kdf_params:
  "length (kp_salt p) = 16 \<Longrightarrow> read_kdf_params (set_kdf_params p r) = Inr p"
  by (simp add: read_kdf_params_def set_kdf_params_def ok_or_def)

section \<open>Unlocking\<close>

text \<open>The session a password and a secret key give, and the call's result for any auditing.\<close>

definition unlocks :: "crypto_lib \<Rightarrow> string \<Rightarrow> bytes \<Rightarrow> account_db \<Rightarrow> vault_error + live_session" where
  "unlocks L password secret_key acc =
     bind_ok (check_format_version (ac_format_version acc)) (\<lambda>_.
     bind_ok (read_kdf_params (ac_kdf acc)) (\<lambda>params.
     bind_ok (account_muk L password secret_key params) (\<lambda>muk.
     bind_ok (ak_unwrap L muk (ac_wrapped_account_key acc) aad_account_key) (\<lambda>account_key.
     device_load L account_key (ac_identity acc)))))"

lemma unlock_inner_result: "fst (unlock_inner L audit ori now password secret_key acc) = unlocks L password secret_key acc"
  by (simp add: unlock_inner_def unlocks_def ak_unwrap_def bind_ok_def map_err_def split: sum.splits)

lemma unlock_inner_state:
  "snd (unlock_inner L audit ori now password secret_key acc) = acc \<or>
   snd (unlock_inner L audit ori now password secret_key acc) = best_effort (record_unlock_failure L ori now) acc \<or>
   (\<exists>ses. unlocks L password secret_key acc = Inr ses \<and>
     snd (unlock_inner L audit ori now password secret_key acc) =
       best_effort (record_audit L ori now (ss_device_id ses) UnlockSuccess None) acc)"
  unfolding unlock_inner_result [where audit = audit and ori = ori and now = now, symmetric]
  by (auto simp: unlock_inner_def split: sum.splits)

lemma device_load_of_insert:
  assumes "crypto_ok L" and "device_insert L key d ed_seed x_secret now = Inr row" and "id_wf d"
    and "length ed_seed = 32" and "length x_secret = 32"
  shows "device_load L key row = Inr (session_of L key d ed_seed x_secret)"
proof -
  obtain e1 e2 where e: "ak_seal L key ed_seed (aad_device_ed25519 d) = Inr e1" "ak_seal L key x_secret (aad_device_x25519 d) = Inr e2"
    and row: "row = \<lparr>di_device_id = as_bytes d, di_ed25519_pub = cl_ed_public L ed_seed,
          di_x25519_pub = x_public (cl_x25519 L) x_secret, di_ed25519_priv_env = e1,
          di_x25519_priv_env = e2, di_created_at = now\<rparr>"
    using assms(2) by (auto simp: device_insert_def bind_ok_Inr_iff)
  note crypto = crypto_okD [OF assms(1)]
  from ak_seal_open [OF crypto(1) e(1)] ak_seal_open [OF crypto(1) e(2)] show ?thesis
    by (simp add: row device_load_def id_from_slice_wf assms(3-5) to_32_def crypto open_secret_32_def)
qed


text \<open>A session of a created account.\<close>

definition session_ok :: "crypto_lib \<Rightarrow> live_session \<Rightarrow> bool" where
  "session_ok L ses \<longleftrightarrow> id_wf (ss_device_id ses) \<and>
     ses = session_of L (ls_account_key ses) (ss_device_id ses) (ss_signing ses) (ls_sealing ses)"

definition draws_ok :: "account_draws \<Rightarrow> bool" where
  "draws_ok dr \<longleftrightarrow> length (dr_salt dr) = 16 \<and> length (dr_account_key dr) = 32 \<and> id_wf (dr_device_id dr) \<and>
     length (dr_ed_seed dr) = 32 \<and> length (dr_x_secret dr) = 32"

lemma account_create_unlocks:
  assumes "crypto_ok L" and "draws_ok dr" and "account_create L dr now password None = Inr (ses, secret_key, pf)"
  shows "unlocks L password secret_key (pf_account pf) = Inr ses" and "session_ok L ses"
    and "ac_peers (pf_account pf) = []" "ac_registry (pf_account pf) = []" "ac_audit (pf_account pf) = []"
proof -
  obtain muk env row where muk: "account_muk L password (dr_secret_key dr) (recommended (dr_salt dr)) = Inr muk"
    and env: "ak_wrap L muk (dr_account_key dr) aad_account_key = Inr env"
    and row: "device_insert L (dr_account_key dr) (dr_device_id dr) (dr_ed_seed dr) (dr_x_secret dr) now = Inr row"
    and ses: "ses = session_of L (dr_account_key dr) (dr_device_id dr) (dr_ed_seed dr) (dr_x_secret dr)"
      "secret_key = dr_secret_key dr"
    and pf: "ac_format_version (pf_account pf) = FORMAT_VERSION" "ac_wrapped_account_key (pf_account pf) = env"
      "ac_identity (pf_account pf) = row" "ac_kdf (pf_account pf) = set_kdf_params (recommended (dr_salt dr))
         \<lparr>kd_kdf = KDF_ARGON2ID, kd_argon2_m_kib = 0, kd_argon2_t = 0, kd_argon2_p = 0, kd_salt = [],
          kd_secret_key_id = as_bytes (dr_secret_key_id dr)\<rparr>"
      "ac_peers (pf_account pf) = []" "ac_registry (pf_account pf) = []" "ac_audit (pf_account pf) = []"
    using assms(3) by (auto simp: account_create_def Let_def bind_ok_Inr_iff)
  note dr = assms(2) [unfolded draws_ok_def]
  have unwrap: "ak_unwrap L muk env aad_account_key = Inr (dr_account_key dr)"
    by (rule ak_wrap_unwrap [OF crypto_okD(1) [OF assms(1)] env]) (use dr in simp)
  have "read_kdf_params (ac_kdf (pf_account pf)) = Inr (recommended (dr_salt dr))"
    unfolding pf(4) by (rule read_set_kdf_params) (use dr in \<open>simp add: recommended_def\<close>)
  then show "unlocks L password secret_key (pf_account pf) = Inr ses"
    using device_load_of_insert [OF assms(1) row] dr unwrap muk
    by (simp add: unlocks_def check_format_version_def pf ses)
  show "session_ok L ses" using dr by (simp add: session_ok_def ses session_of_def)
  show "ac_peers (pf_account pf) = []" "ac_registry (pf_account pf) = []" "ac_audit (pf_account pf) = []"
    by (fact pf)+
qed

lemma change_password_unlocks:
  assumes "crypto_ok L" and "unlocks L password secret_key acc = Inr ses" and "length salt = 16"
    and "change_password L salt now password new_password secret_key acc = Inr acc'"
  shows "unlocks L new_password secret_key acc' = Inr ses"
    and "\<exists>k e t. acc' = acc\<lparr>ac_kdf := k, ac_wrapped_account_key := e, ac_wrapped_at := t\<rparr>"
proof -
  obtain old_params old_muk key where old: "read_kdf_params (ac_kdf acc) = Inr old_params"
      "account_muk L password secret_key old_params = Inr old_muk"
      "ak_unwrap L old_muk (ac_wrapped_account_key acc) aad_account_key = Inr key"
    and load: "device_load L key (ac_identity acc) = Inr ses" and fv: "check_format_version (ac_format_version acc) = Inr ()"
    using assms(2) by (auto simp: unlocks_def bind_ok_Inr_iff)
  obtain muk env where new: "account_muk L new_password secret_key (recommended salt) = Inr muk"
      "ak_wrap L muk key aad_account_key = Inr env"
    and acc': "acc' = acc\<lparr>ac_kdf := set_kdf_params (recommended salt) (ac_kdf acc), ac_wrapped_account_key := env,
             ac_wrapped_at := now\<rparr>"
    using assms(4) by (auto simp: change_password_def Let_def bind_ok_Inr_iff old)
  have "ak_unwrap L muk env aad_account_key = Inr key"
    by (rule ak_wrap_unwrap [OF crypto_okD(1) [OF assms(1)] new(2) ak_unwrap_length [OF old(3)]])
  moreover have "read_kdf_params (set_kdf_params (recommended salt) (ac_kdf acc)) = Inr (recommended salt)"
    by (rule read_set_kdf_params) (use assms(3) in \<open>simp add: recommended_def\<close>)
  ultimately show "unlocks L new_password secret_key acc' = Inr ses"
    by (simp add: unlocks_def acc' fv new load)
  show "\<exists>k e t. acc' = acc\<lparr>ac_kdf := k, ac_wrapped_account_key := e, ac_wrapped_at := t\<rparr>"
    using acc' by blast
qed

section \<open>Audit entries keep the chain\<close>

definition audit_ok :: "crypto_lib \<Rightarrow> id \<Rightarrow> audit_row list \<Rightarrow> bool" where
  "audit_ok L d log \<longleftrightarrow> (int (length log) \<le> i64_max \<longrightarrow> (\<exists>rs. audited (cl_blake3 L) d log rs))"

text \<open>The same account but for its audit log, which stays sound.\<close>

definition logged :: "crypto_lib \<Rightarrow> id \<Rightarrow> account_db \<Rightarrow> account_db \<Rightarrow> bool" where
  "logged L d acc acc' \<longleftrightarrow>
     (\<exists>log. acc' = acc\<lparr>ac_audit := log\<rparr> \<and> (audit_ok L d (ac_audit acc) \<longrightarrow> audit_ok L d log))"

lemma logged_refl [simp]: "logged L d acc acc"
  unfolding logged_def by (rule exI [of _ "ac_audit acc"]) simp

lemma append_length: "append_audit_record H ori now d kind detail log = Inr log' \<Longrightarrow> length log' = Suc (length log)"
  by (auto simp: append_audit_record_def insert_audit_record_def bind_ok_Inr_iff split: if_splits)

lemma audited_length: "audited H d log rs \<Longrightarrow> length rs \<le> length log"
proof -
  assume "audited H d log rs"
  then have "length rs = length (device_rows d log)" by (auto simp: audited_def dest: map_ok_Inr_length)
  then show ?thesis by (simp add: device_rows_def)
qed

lemma record_audit_logged:
  assumes "crypto_ok L" and "record_audit L ori now d kind detail acc = Inr acc'"
    and "id_wf d" and "kind_ids_ok kind" and "i64_ok now"
  shows "logged L d acc acc'"
proof -
  obtain log where log: "append_audit_record (cl_blake3 L) ori now d kind detail (ac_audit acc) = Inr log"
    and acc': "acc' = acc\<lparr>ac_audit := log\<rparr>"
    using assms(2) by (auto simp: record_audit_def bind_ok_Inr_iff)
  have "audit_ok L d log" if ok: "audit_ok L d (ac_audit acc)"
  proof -
    have "\<exists>rs. audited (cl_blake3 L) d log rs" if "int (length log) \<le> i64_max"
    proof -
      from ok that append_length [OF log] obtain rs where rs: "audited (cl_blake3 L) d (ac_audit acc) rs"
        by (auto simp: audit_ok_def)
      with that append_length [OF log] audited_length [OF rs] have "int (length rs) < i64_max" by simp
      from append_audited [OF rs assms(4,5,3) crypto_okD(3) [OF assms(1)] this, of ori detail] log
      show ?thesis by auto
    qed
    then show ?thesis by (simp add: audit_ok_def)
  qed
  with acc' show ?thesis by (auto simp: logged_def)
qed

lemma best_effort_logged:
  "(\<And>acc'. f acc = Inr acc' \<Longrightarrow> logged L d acc acc') \<Longrightarrow> logged L d acc (best_effort f acc)"
  by (simp add: best_effort_def split: sum.split)


section \<open>The steps of an account\<close>

text \<open>
  One call on a profile, with its current password. Unlock attempts and failure records may come from
  anyone, with any password and secret key; a password change names the current password.
\<close>

inductive account_step ::
  "crypto_lib \<Rightarrow> live_session \<Rightarrow> bytes \<Rightarrow> string \<times> 'x profile \<Rightarrow> string \<times> 'x profile \<Rightarrow> bool"
  for L :: crypto_lib and ses :: live_session and secret_key :: bytes where
  step_unlock: "account_step L ses secret_key (pw, pf) (pw, pf')"
    if "unlock_dir L audit ori now pw' secret_key' (Some pf) = (r, Some pf')" and "i64_ok now"
| step_denied: "account_step L ses secret_key (pw, pf) (pw, pf\<lparr>pf_account := acc\<rparr>)"
    if "record_access_denied L ori now reason (pf_account pf) = Inr acc" and "i64_ok now"
| step_change_password: "account_step L ses secret_key (pw, pf) (new, pf\<lparr>pf_account := acc\<rparr>)"
    if "change_password L salt now pw new secret_key (pf_account pf) = Inr acc" and "length salt = 16"
| step_create_vault: "account_step L ses secret_key (pw, pf) (pw, pf')"
    if "create_vault L ses v vault_key ix now name pf = (r, pf')" and "id_wf v" and "length vault_key = 32"
| step_delete_vault: "account_step L ses secret_key (pw, pf) (pw, pf\<lparr>pf_account := acc\<rparr>)"
    if "soft_delete_vault v now (pf_account pf) = Inr acc"
| step_trust: "account_step L ses secret_key (pw, pf) (pw, pf\<lparr>pf_account := acc\<rparr>)"
    if "trust_peer_device L ori now ses d ed x label (pf_account pf) = acc"
      and "id_wf d" and "length ed = 32" and "length x = 32" and "i64_ok now"
| step_setting: "account_step L ses secret_key (pw, pf) (pw, pf\<lparr>pf_account := set_setting key value (pf_account pf)\<rparr>)"
| step_record: "account_step L ses secret_key (pw, pf) (pw, pf\<lparr>pf_account := acc\<rparr>)"
    if "record_audit L ori now (ss_device_id ses) kind detail (pf_account pf) = Inr acc"
      and "kind_ids_ok kind" and "i64_ok now"
| step_share: "account_step L ses secret_key (pw, pf) (pw, pf\<lparr>pf_account := acc\<rparr>)"
    if "share_vault_key_to_peer L ori now ses v peer (pf_account pf) = Inr (blob, acc)"
      and "id_wf v" and "id_wf (pd_device_id peer)" and "i64_ok now"
| step_import: "account_step L ses secret_key (pw, pf) (pw, pf')"
    if "import_shared_vault_key L ses v blob ix now pf = Inr (new, pf')" and "id_wf v"

definition row_ok :: "crypto_lib \<Rightarrow> live_session \<Rightarrow> bytes \<Rightarrow> registry_row \<Rightarrow> bool" where
  "row_ok L ses k r \<longleftrightarrow>
     (\<exists>v. id_wf v \<and> k = as_bytes v \<and> is_ok (ak_unwrap L (ls_account_key ses) (rg_wrapped_vault_key r) (aad_vault_key v)) \<and>
        is_ok (ak_open L (ls_account_key ses) (rg_name_env r) (aad_vault_name v)))"

definition peer_ok :: "bytes \<Rightarrow> peer_row \<Rightarrow> bool" where
  "peer_ok k r \<longleftrightarrow> (\<exists>d. id_wf d \<and> k = as_bytes d) \<and> length (pr_ed25519_pub r) = 32 \<and> length (pr_x25519_pub r) = 32"

definition account_inv :: "crypto_lib \<Rightarrow> live_session \<Rightarrow> bytes \<Rightarrow> string \<times> 'x profile \<Rightarrow> bool" where
  "account_inv L ses secret_key s \<longleftrightarrow>
     (let acc = pf_account (snd s) in
      unlocks L (fst s) secret_key acc = Inr ses \<and> session_ok L ses \<and> audit_ok L (ss_device_id ses) (ac_audit acc) \<and>
      bt_wf (ac_peers acc) \<and> (\<forall>k r. bt_get (ac_peers acc) k = Some r \<longrightarrow> peer_ok k r) \<and>
      bt_wf (ac_registry acc) \<and>
      (\<forall>k r. bt_get (ac_registry acc) k = Some r \<longrightarrow> row_ok L ses k r \<and> bt_get (pf_vaults (snd s)) k \<noteq> None))"

text \<open>Unlocking reads the format version, the parameters, the wrapped key and the identity.\<close>

lemma unlocks_other_tables [simp]:
  "unlocks L password secret_key (acc\<lparr>ac_audit := log\<rparr>) = unlocks L password secret_key acc"
  "unlocks L password secret_key (acc\<lparr>ac_peers := ps\<rparr>) = unlocks L password secret_key acc"
  "unlocks L password secret_key (acc\<lparr>ac_registry := reg\<rparr>) = unlocks L password secret_key acc"
  "unlocks L password secret_key (acc\<lparr>ac_settings := st\<rparr>) = unlocks L password secret_key acc"
  by (simp_all add: unlocks_def)

lemma unlocks_device: "unlocks L password secret_key acc = Inr ses \<Longrightarrow> read_device_id acc = Inr (ss_device_id ses)"
  by (auto simp: unlocks_def device_load_def read_device_id_def session_of_def bind_ok_Inr_iff split: if_splits)

lemma inv_logged:
  assumes "account_inv L ses sk (pw, pf)" and "logged L (ss_device_id ses) (pf_account pf) acc"
  shows "account_inv L ses sk (pw, pf\<lparr>pf_account := acc\<rparr>)"
proof -
  obtain log where "acc = (pf_account pf)\<lparr>ac_audit := log\<rparr>"
    and "audit_ok L (ss_device_id ses) (ac_audit (pf_account pf)) \<longrightarrow> audit_ok L (ss_device_id ses) log"
    using assms(2) by (auto simp: logged_def)
  with assms(1) show ?thesis by (simp add: account_inv_def Let_def)
qed

lemma inv_unlocks: "account_inv L ses sk (pw, pf) \<Longrightarrow> unlocks L pw sk (pf_account pf) = Inr ses"
  by (simp add: account_inv_def Let_def)

lemma inv_device: "account_inv L ses sk (pw, pf) \<Longrightarrow> id_wf (ss_device_id ses)"
  by (simp add: account_inv_def session_ok_def Let_def)

text \<open>A new registry row whose envelopes open under the account key.\<close>

lemma inv_register:
  assumes "account_inv L ses sk (pw, pf)" and "registry_insert v row (pf_account pf) = Inr acc"
    and "row_ok L ses (as_bytes v) row" and "bt_get vaults (as_bytes v) \<noteq> None"
    and "\<And>k. bt_get (pf_vaults pf) k \<noteq> None \<Longrightarrow> bt_get vaults k \<noteq> None"
  shows "account_inv L ses sk (pw, pf\<lparr>pf_account := acc, pf_vaults := vaults\<rparr>)"
proof -
  have acc: "acc = (pf_account pf)\<lparr>ac_registry := bt_insert (as_bytes v) row (ac_registry (pf_account pf))\<rparr>"
    using assms(2) by (auto simp: registry_insert_def bind_ok_Inr_iff sql_insert_Inr)
  from assms(1,3-) show ?thesis by (simp add: account_inv_def Let_def acc)
qed

lemma inv_vault_file:
  assumes "account_inv L ses sk (pw, pf)" and "new_vault_file v ix pf = Inr pf'"
  shows "account_inv L ses sk (pw, pf')" and "bt_get (pf_vaults pf') (as_bytes v) \<noteq> None"
proof -
  have pf': "pf' = pf\<lparr>pf_vaults := bt_insert (as_bytes v) (empty_vault ix) (pf_vaults pf)\<rparr>"
    using assms(2) by (simp add: new_vault_file_def split: if_splits)
  then show "bt_get (pf_vaults pf') (as_bytes v) \<noteq> None" by simp
  from assms(1) show "account_inv L ses sk (pw, pf')" by (auto simp: account_inv_def Let_def pf')
qed

lemma sealed_row_ok:
  assumes "crypto_ok L" and "id_wf v" and "ak_seal L (ls_account_key ses) name (aad_vault_name v) = Inr name_env"
    and "ak_wrap L (ls_account_key ses) key (aad_vault_key v) = Inr wrapped" and "length key = 32"
  shows "row_ok L ses (as_bytes v) \<lparr>rg_name_env = name_env, rg_wrapped_vault_key = wrapped, rg_cipher_suite = suite,
     rg_created_at = now, rg_deleted_at = deleted\<rparr>"
  using ak_seal_open [OF crypto_okD(1) [OF assms(1)] assms(3)] ak_wrap_unwrap [OF crypto_okD(1) [OF assms(1)] assms(4,5)] assms(2)
  by (auto simp: row_ok_def is_ok_iff)

lemma inv_create_vault:
  assumes "crypto_ok L" and "account_inv L ses sk (pw, pf)"
    and "create_vault L ses v vault_key ix now name pf = (r, pf')" and "id_wf v" and "length vault_key = 32"
  shows "account_inv L ses sk (pw, pf')"
proof (cases "new_vault_file v ix pf")
  case (Inr pf1)
  note inv1 = inv_vault_file [OF assms(2) Inr]
  show ?thesis
  proof (cases "register_vault L ses v vault_key now name (pf_account pf1)")
    case R: (Inr acc)
    then obtain name_env wrapped where
      env: "ak_seal L (ls_account_key ses) (str_bytes name) (aad_vault_name v) = Inr name_env"
        "ak_wrap L (ls_account_key ses) vault_key (aad_vault_key v) = Inr wrapped"
      and reg: "registry_insert v \<lparr>rg_name_env = name_env, rg_wrapped_vault_key = wrapped,
        rg_cipher_suite = CIPHER_SUITE_XCHACHA, rg_created_at = now, rg_deleted_at = None\<rparr> (pf_account pf1) = Inr acc"
      by (auto simp: register_vault_def bind_ok_Inr_iff)
    have "account_inv L ses sk (pw, pf1\<lparr>pf_account := acc, pf_vaults := pf_vaults pf1\<rparr>)"
      by (rule inv_register [OF inv1(1) reg sealed_row_ok [OF assms(1,4) env assms(5)] inv1(2)])
    moreover have "pf' = pf1\<lparr>pf_account := acc, pf_vaults := pf_vaults pf1\<rparr>"
      using assms(3) Inr R by (cases pf1) (auto simp: create_vault_def)
    ultimately show ?thesis by simp
  qed (use assms(3) Inr inv1 in \<open>simp add: create_vault_def\<close>)
qed (use assms(2,3) in \<open>simp add: create_vault_def\<close>)

lemma inv_delete_vault:
  assumes "account_inv L ses sk (pw, pf)" and "soft_delete_vault v now (pf_account pf) = Inr acc"
  shows "account_inv L ses sk (pw, pf\<lparr>pf_account := acc\<rparr>)"
proof -
  obtain r where r: "bt_get (ac_registry (pf_account pf)) (as_bytes v) = Some r"
    and acc: "acc = (pf_account pf)\<lparr>ac_registry :=
      bt_insert (as_bytes v) (r\<lparr>rg_deleted_at := Some now\<rparr>) (ac_registry (pf_account pf))\<rparr>"
    using assms(2) by (auto simp: soft_delete_vault_def split: option.splits if_splits)
  have "row_ok L ses (as_bytes v) (r\<lparr>rg_deleted_at := Some now\<rparr>) = row_ok L ses (as_bytes v) r"
    by (simp add: row_ok_def)
  with assms(1) r show ?thesis by (simp add: account_inv_def Let_def acc)
qed

lemma inv_trust:
  assumes "crypto_ok L" and "account_inv L ses sk (pw, pf)" and "id_wf d" "length ed = 32" "length x = 32" "i64_ok now"
  shows "account_inv L ses sk (pw, pf\<lparr>pf_account := trust_peer_device L ori now ses d ed x label (pf_account pf)\<rparr>)"
proof -
  let ?acc = "(pf_account pf)\<lparr>ac_peers := bt_insert (as_bytes d)
    \<lparr>pr_ed25519_pub = ed, pr_x25519_pub = x, pr_verified_at = now, pr_label = label\<rparr> (ac_peers (pf_account pf))\<rparr>"
  have inv: "account_inv L ses sk (pw, pf\<lparr>pf_account := ?acc\<rparr>)"
    using assms(2-5) by (auto simp: account_inv_def Let_def peer_ok_def)
  have "logged L (ss_device_id ses) ?acc (trust_peer_device L ori now ses d ed x label (pf_account pf))"
    unfolding trust_peer_device_def
    by (rule best_effort_logged, rule record_audit_logged [OF assms(1)])
      (use assms inv_device [OF assms(2)] in auto)
  with inv_logged [OF inv] show ?thesis by simp
qed

lemma inv_import:
  assumes "crypto_ok L" and "account_inv L ses sk (pw, pf)"
    and "import_shared_vault_key L ses v blob ix now pf = Inr (new, pf')" and "id_wf v"
  shows "account_inv L ses sk (pw, pf')"
proof -
  obtain key name wrapped name_env
    where key: "ak_wrap L (ls_account_key ses) key (aad_vault_key v) = Inr wrapped" "length key = 32"
      and name: "ak_seal L (ls_account_key ses) name (aad_vault_name v) = Inr name_env"
      and reg: "register_shared_vault v wrapped name_env ix now pf = Inr (new, pf')"
    using assms(3)
    by (auto simp: import_shared_vault_key_def Let_def bind_ok_Inr_iff map_err_Inr_iff sealing_open_key_def
        SYMMETRIC_KEY_LEN_def split: if_splits)
  show ?thesis
  proof (cases "bt_get (ac_registry (pf_account pf)) (as_bytes v)")
    case None
    then obtain acc where acc: "registry_insert v \<lparr>rg_name_env = name_env, rg_wrapped_vault_key = wrapped,
        rg_cipher_suite = CIPHER_SUITE_XCHACHA, rg_created_at = now, rg_deleted_at = None\<rparr> (pf_account pf) = Inr acc"
      and pf': "pf' = pf\<lparr>pf_account := acc, pf_vaults :=
        if bt_get (pf_vaults pf) (as_bytes v) \<noteq> None then pf_vaults pf
        else bt_insert (as_bytes v) (empty_vault ix) (pf_vaults pf)\<rparr>"
      using reg by (auto simp: register_shared_vault_def Let_def bind_ok_Inr_iff)
    show ?thesis unfolding pf'
      by (rule inv_register [OF assms(2) acc sealed_row_ok [OF assms(1,4) name key]]) auto
  qed (use reg assms(2) in \<open>simp add: register_shared_vault_def\<close>)
qed

lemma inv_unlock:
  assumes "crypto_ok L" and "account_inv L ses sk (pw, pf)"
    and "unlock_dir L audit ori now pw' sk' (Some pf) = (r, Some pf')" and "i64_ok now"
  shows "account_inv L ses sk (pw, pf')"
proof -
  let ?acc = "pf_account pf"
  have pf': "pf' = pf\<lparr>pf_account := snd (unlock_inner L audit ori now pw' sk' ?acc)\<rparr>"
    using assms(3) by (auto simp: unlock_dir_def split: prod.splits)
  have dev: "read_device_id ?acc = Inr (ss_device_id ses)"
    using unlocks_device inv_unlocks [OF assms(2)] by blast
  have wf: "id_wf (ss_device_id ses)" by (rule inv_device [OF assms(2)])
  have "logged L (ss_device_id ses) ?acc (best_effort (record_unlock_failure L ori now) ?acc)"
    by (rule best_effort_logged, rule record_audit_logged [OF assms(1) _ wf _ assms(4)])
      (auto simp: record_unlock_failure_def dev)
  moreover have "logged L (ss_device_id ses) ?acc (best_effort (record_audit L ori now (ss_device_id ses') UnlockSuccess None) ?acc)"
    if "unlocks L pw' sk' ?acc = Inr ses'" for ses'
  proof -
    have "ss_device_id ses' = ss_device_id ses" using unlocks_device [OF that] dev by simp
    then show ?thesis
      by (intro best_effort_logged record_audit_logged [OF assms(1) _ wf _ assms(4)]) auto
  qed
  ultimately have "logged L (ss_device_id ses) ?acc (snd (unlock_inner L audit ori now pw' sk' ?acc))"
    using unlock_inner_state [of L audit ori now pw' sk' ?acc] by auto
  then show ?thesis unfolding pf' by (rule inv_logged [OF assms(2)])
qed

lemma inv_share:
  assumes "crypto_ok L" and "account_inv L ses sk (pw, pf)"
    and "share_vault_key_to_peer L ori now ses v peer (pf_account pf) = Inr (blob, acc)"
    and "id_wf v" "id_wf (pd_device_id peer)" "i64_ok now"
  shows "account_inv L ses sk (pw, pf\<lparr>pf_account := acc\<rparr>)"
proof -
  have acc: "acc = best_effort (record_vault_share L ori now ses v (pd_device_id peer)) (pf_account pf)"
    using assms(3) by (auto simp: share_vault_key_to_peer_def bind_ok_Inr_iff)
  have "logged L (ss_device_id ses) (pf_account pf) acc" unfolding acc
    by (rule best_effort_logged, rule record_audit_logged [OF assms(1) _ inv_device [OF assms(2)] _ assms(6)])
      (auto simp: record_vault_share_def session_audit_def assms(4,5))
  then show ?thesis by (rule inv_logged [OF assms(2)])
qed

lemma inv_step:
  assumes "account_step L ses sk s s'" and "crypto_ok L" and "account_inv L ses sk s"
  shows "account_inv L ses sk s'"
  using assms
proof (induction rule: account_step.induct)
  case (step_denied ori now reason pf acc pw)
  have "logged L (ss_device_id ses) (pf_account pf) acc"
    using step_denied unlocks_device [OF inv_unlocks [OF step_denied(4)]]
    by (intro record_audit_logged [OF step_denied(3) _ inv_device [OF step_denied(4)]])
      (auto simp: record_access_denied_def)
  then show ?case by (rule inv_logged [OF step_denied(4)])
next
  case (step_change_password salt now pw new pf acc)
  note ch = change_password_unlocks [OF step_change_password(3) inv_unlocks [OF step_change_password(4)] step_change_password(2,1)]
  then show ?case using step_change_password(4) by (auto simp: account_inv_def Let_def)
next
  case (step_record ori now kind detail pf acc pw)
  then show ?case by (intro inv_logged record_audit_logged inv_device)
next
  case (step_setting pw pf key val)
  then show ?case by (simp add: account_inv_def Let_def set_setting_def)
qed (blast intro: inv_unlock inv_create_vault inv_delete_vault inv_trust inv_share inv_import)+


section \<open>Sharing\<close>

lemma unat_length_u32: "n < 2 ^ 32 \<Longrightarrow> unat (word_of_nat n :: u32) = n"
  by (simp add: unat_of_nat)

lemma take_prefixed_prefixed: "prefixed segment = Inr p \<Longrightarrow> take_prefixed (p @ rest) = Inr (segment, rest)"
  by (auto simp: prefixed_def take_prefixed_def Let_def unat_length_u32 split: if_splits)

lemma split_build_share_blob:
  assumes "build_share_blob s = Inr blob" and "id_wf (sh_sender s)" and "length (sh_signature s) = 64"
  shows "split_share_blob blob = Inr s"
proof -
  obtain p1 p2 where p: "prefixed (sh_sealed_key s) = Inr p1" "prefixed (sh_sealed_name s) = Inr p2"
    and blob: "blob = SHARE_BLOB_MAGIC @ as_bytes (sh_sender s) @ p1 @ p2 @ sh_signature s"
    using assms(1) by (auto simp: build_share_blob_def bind_ok_Inr_iff)
  have len: "length (as_bytes (sh_sender s)) = 16" using assms(2) by (simp add: id_wf_def)
  then show ?thesis
    by (simp add: split_share_blob_def blob strip_prefix_def take_prefixed_prefixed [OF p(1)]
        take_prefixed_prefixed [OF p(2)] assms id_from_slice_wf)
qed

lemma signed_verifies:
  assumes "crypto_ok L" and "signing_sign (cl_ed_sign L) seed context message = Inr sig"
  shows "verifying_verify (cl_ed_verify L) (cl_ed_public L seed) context message sig = Inr ()"
    and "length sig = 64"
  using assms by (auto simp: signing_sign_def verifying_verify_def bind_ok_Inr_iff)

text \<open>What a recipient that pins the sender does with the blob: the checks pass and the unsealed key and name are stored.\<close>

lemma import_shared:
  assumes "crypto_ok L" and "session_ok L sA" and "session_ok L sB"
    and "pd_device_id p = ss_device_id sB" and "pd_x25519_pub p = ls_x25519_pub sB"
    and "share_sender_key sB (ss_device_id sA) (pf_account pf) = Inr (ss_ed25519_pub sA)"
    and "share_blob_for L sA v p acc = Inr blob"
  obtains key name where "open_vault_key L sA v acc = Inr key"
    and "import_shared_vault_key L sB v blob ix now pf =
      bind_ok (shared_vault_name L sB name (pf_account pf)) (\<lambda>name.
      bind_ok (ak_wrap L (ls_account_key sB) key (aad_vault_key v)) (\<lambda>wrapped.
      bind_ok (ak_seal L (ls_account_key sB) name (aad_vault_name v)) (\<lambda>name_env.
      register_shared_vault v wrapped name_env ix now pf)))"
    and "\<exists>r. live_row acc v = Inr r \<and> ak_open L (ls_account_key sA) (rg_name_env r) (aad_vault_name v) = Inr name"
    and "\<exists>share. split_share_blob blob = Inr share \<and> sealing_open (cl_x25519 L) (cl_hkdf L) (cl_aead L) (ls_sealing sB)
      (sh_sealed_name share) (aad_share_vault_name v (ss_device_id sB)) = Inr name"
proof -
  obtain r key name sealed_key sealed_name sig where
    r: "live_row acc v = Inr r" "ak_unwrap L (ls_account_key sA) (rg_wrapped_vault_key r) (aad_vault_key v) = Inr key"
      "ak_open L (ls_account_key sA) (rg_name_env r) (aad_vault_name v) = Inr name"
    and sealed: "seal_key_for (cl_x25519 L) (cl_hkdf L) (cl_aead L) (x_public (cl_x25519 L) (ls_sealing sB)) key
         (aad_share_vault_key v (ss_device_id sB)) = Inr sealed_key"
      "seal_for (cl_x25519 L) (cl_hkdf L) (cl_aead L) (x_public (cl_x25519 L) (ls_sealing sB)) name
         (aad_share_vault_name v (ss_device_id sB)) = Inr sealed_name"
    and sign: "signing_sign (cl_ed_sign L) (ss_signing sA) SHARE_SIGN_CONTEXT
         (share_signed_message v (ss_device_id sB) (ss_device_id sA) sealed_key sealed_name) = Inr sig"
    and blob: "build_share_blob \<lparr>sh_sender = ss_device_id sA, sh_sealed_key = sealed_key, sh_sealed_name = sealed_name,
         sh_signature = sig\<rparr> = Inr blob"
  proof -
    have "ls_x25519_pub sB = x_public (cl_x25519 L) (ls_sealing sB)"
      using assms(3) unfolding session_ok_def session_of_def by (metis live_session.select_convs(3))
    with assms(4,5,7) that show ?thesis
      by (auto simp: share_blob_for_def Let_def bind_ok_Inr_iff map_err_Inr_iff)
  qed
  have ed: "ss_ed25519_pub sA = cl_ed_public L (ss_signing sA)"
    using assms(2) unfolding session_ok_def session_of_def by (metis session.select_convs(3))
  note crypto = crypto_okD [OF assms(1)]
  note verified = signed_verifies [OF assms(1) sign]
  have split: "split_share_blob blob = Inr \<lparr>sh_sender = ss_device_id sA, sh_sealed_key = sealed_key,
      sh_sealed_name = sealed_name, sh_signature = sig\<rparr>"
    using split_build_share_blob [OF blob] assms(2) verified(2) by (simp add: session_ok_def)
  have "length key = SYMMETRIC_KEY_LEN" using ak_unwrap_length [OF r(2)] by (simp add: SYMMETRIC_KEY_LEN_def)
  from seal_open_key [OF crypto(2,1) sealed(1) this] seal_open [OF crypto(2,1) sealed(2)]
  have "import_shared_vault_key L sB v blob ix now pf =
      bind_ok (shared_vault_name L sB name (pf_account pf)) (\<lambda>name.
      bind_ok (ak_wrap L (ls_account_key sB) key (aad_vault_key v)) (\<lambda>wrapped.
      bind_ok (ak_seal L (ls_account_key sB) name (aad_vault_name v)) (\<lambda>name_env.
      register_shared_vault v wrapped name_env ix now pf)))"
    by (simp add: import_shared_vault_key_def split assms(6) crypto ed verified)
  moreover have "sealing_open (cl_x25519 L) (cl_hkdf L) (cl_aead L) (ls_sealing sB) sealed_name
      (aad_share_vault_name v (ss_device_id sB)) = Inr name"
    by (rule seal_open [OF crypto(2,1) sealed(2)])
  ultimately show ?thesis using r split by (intro that) (auto simp: open_vault_key_def)
qed


section \<open>Vault keys are kept\<close>

text \<open>Every registry row survives, up to its deletion mark, which is never taken back.\<close>

definition rows_kept :: "(bytes, registry_row) btree \<Rightarrow> (bytes, registry_row) btree \<Rightarrow> bool" where
  "rows_kept reg reg' \<longleftrightarrow>
     (\<forall>k r. bt_get reg k = Some r \<longrightarrow>
        (\<exists>t. bt_get reg' k = Some (r\<lparr>rg_deleted_at := t\<rparr>) \<and> (rg_deleted_at r \<noteq> None \<longrightarrow> t \<noteq> None)))"

lemma rows_kept_refl [simp]: "rows_kept reg reg"
proof -
  have "r\<lparr>rg_deleted_at := rg_deleted_at r\<rparr> = r" for r :: registry_row by simp
  then show ?thesis unfolding rows_kept_def by metis
qed

lemma rows_kept_trans: "rows_kept a b \<Longrightarrow> rows_kept b c \<Longrightarrow> rows_kept a c"
proof -
  have "r\<lparr>rg_deleted_at := t\<rparr>\<lparr>rg_deleted_at := u\<rparr> = r\<lparr>rg_deleted_at := u\<rparr>" "rg_deleted_at (r\<lparr>rg_deleted_at := t\<rparr>) = t"
    for r :: registry_row and t u by simp_all
  then show "rows_kept a b \<Longrightarrow> rows_kept b c \<Longrightarrow> rows_kept a c" unfolding rows_kept_def by metis
qed

lemma rows_kept_new: "bt_get reg k = None \<Longrightarrow> rows_kept reg (bt_insert k row reg)"
proof -
  assume "bt_get reg k = None"
  moreover have "r\<lparr>rg_deleted_at := rg_deleted_at r\<rparr> = r" for r :: registry_row by simp
  ultimately show ?thesis unfolding rows_kept_def by (metis bt_get_insert fun_upd_other option.distinct(1))
qed

lemma rows_kept_delete: "bt_get reg k = Some r \<Longrightarrow> rows_kept reg (bt_insert k (r\<lparr>rg_deleted_at := Some now\<rparr>) reg)"
proof -
  assume "bt_get reg k = Some r"
  moreover have "r\<lparr>rg_deleted_at := rg_deleted_at r\<rparr> = r" for r :: registry_row by simp
  ultimately show ?thesis unfolding rows_kept_def
    by (metis bt_get_insert fun_upd_other fun_upd_same option.distinct(1) option.inject)
qed

lemma registry_of_record_audit: "record_audit L ori now d kind detail acc = Inr acc' \<Longrightarrow> ac_registry acc' = ac_registry acc"
  by (auto simp: record_audit_def bind_ok_Inr_iff)

lemma registry_of_best_effort:
  "(\<And>acc'. f acc = Inr acc' \<Longrightarrow> ac_registry acc' = ac_registry acc) \<Longrightarrow> ac_registry (best_effort f acc) = ac_registry acc"
  by (simp add: best_effort_def split: sum.split)

lemma registry_of_best_record [simp]:
  "ac_registry (best_effort (record_audit L ori now d kind detail) acc) = ac_registry acc"
  "ac_registry (best_effort (record_unlock_failure L ori now) acc) = ac_registry acc"
  "ac_registry (best_effort (record_vault_share L ori now ses v d) acc) = ac_registry acc"
  by (rule registry_of_best_effort, auto simp: record_unlock_failure_def record_vault_share_def session_audit_def
      bind_ok_Inr_iff dest: registry_of_record_audit)+

lemma registry_of_unlock:
  "unlock_dir L audit ori now pw sk (Some pf) = (r, Some pf') \<Longrightarrow> ac_registry (pf_account pf') = ac_registry (pf_account pf)"
  using unlock_inner_state [of L audit ori now pw sk "pf_account pf"]
  by (auto simp: unlock_dir_def split: prod.splits)

lemma registry_insert_kept: "registry_insert v row acc = Inr acc' \<Longrightarrow> rows_kept (ac_registry acc) (ac_registry acc')"
  by (auto simp: registry_insert_def bind_ok_Inr_iff sql_insert_Inr intro: rows_kept_new)

lemma step_keeps_rows:
  assumes "account_step L ses sk s s'"
  shows "rows_kept (ac_registry (pf_account (snd s))) (ac_registry (pf_account (snd s')))"
  using assms
proof (induction rule: account_step.induct)
  case (step_create_vault v key ix now name pf r pf' pw)
  show ?case
  proof (cases "new_vault_file v ix pf")
    case (Inr pf1)
    then have "pf_account pf1 = pf_account pf" by (auto simp: new_vault_file_def split: if_splits)
    with step_create_vault Inr show ?thesis
      by (auto simp: create_vault_def register_vault_def bind_ok_Inr_iff intro: registry_insert_kept split: sum.splits)
  qed (use step_create_vault in \<open>simp add: create_vault_def\<close>)
next
  case (step_delete_vault v now pf acc pw)
  then show ?case by (auto simp: soft_delete_vault_def split: option.splits if_splits intro: rows_kept_delete)
next
  case (step_trust ori now d ed x label pf acc pw)
  have "ac_registry acc = ac_registry (pf_account pf)"
    unfolding step_trust(1) [symmetric] trust_peer_device_def by simp
  then show ?case by simp
next
  case (step_share ori now v peer pf blob acc pw)
  then have "ac_registry acc = ac_registry (pf_account pf)"
    by (auto simp: share_vault_key_to_peer_def bind_ok_Inr_iff)
  then show ?case by simp
next
  case (step_import v blob ix now pf new pf' pw)
  then show ?case
    by (auto simp: import_shared_vault_key_def register_shared_vault_def Let_def bind_ok_Inr_iff
        dest!: registry_insert_kept split: if_splits)
next
  case (step_denied ori now reason pf acc pw)
  then show ?case by (auto simp: record_access_denied_def bind_ok_Inr_iff dest: registry_of_record_audit)
next
  case (step_change_password salt now pw new pf acc)
  then show ?case by (auto simp: change_password_def Let_def bind_ok_Inr_iff)
qed (auto simp: set_setting_def dest: registry_of_unlock registry_of_record_audit)

lemma steps_keep_rows:
  "(account_step L ses sk)\<^sup>*\<^sup>* s s' \<Longrightarrow> rows_kept (ac_registry (pf_account (snd s))) (ac_registry (pf_account (snd s')))"
  by (induction rule: rtranclp_induct) (auto dest: step_keeps_rows intro: rows_kept_trans)

end
