(* ===== verification/AccountSpec.thy ===== *)
theory AccountSpec
  imports AccountInv
begin

text \<open>
  The properties of the account store: it stays usable whatever is done with it, vault keys never
  change, a shared vault opens at its recipient with the sender's key, only shares of pinned devices
  are imported, and the search for a free name ends.
\<close>

section \<open>An account stays usable\<close>

lemma run_inv:
  assumes "(account_step L ses sk)\<^sup>*\<^sup>* s s'" and "crypto_ok L" and "account_inv L ses sk s"
  shows "account_inv L ses sk s'"
  using assms(1,3) by (induction rule: rtranclp_induct) (auto intro: inv_step [OF _ assms(2)])

lemma created_inv:
  assumes "crypto_ok L" and "draws_ok dr" and "account_create L dr now pw None = Inr (ses, sk, pf)"
  shows "account_inv L ses sk (pw, pf)"
  using account_create_unlocks [OF assms] audited_Nil
  by (auto simp: account_inv_def Let_def audit_ok_def)

lemma account_create_vaults: "account_create L dr now pw None = Inr (ses, sk, pf) \<Longrightarrow> pf_vaults pf = []"
  by (auto simp: account_create_def Let_def bind_ok_Inr_iff)

lemma inv_peer_devices:
  assumes "account_inv L ses sk (pw, pf)"
  shows "is_ok (peer_devices (pf_account pf))"
  unfolding peer_devices_def
proof (rule map_ok_is_ok, clarify)
  fix k r assume "(k, r) \<in> set (sort_key (\<lambda>(k, r). pr_verified_at r) (ac_peers (pf_account pf)))"
  then have "bt_get (ac_peers (pf_account pf)) k = Some r"
    using assms by (auto simp: account_inv_def Let_def intro: map_of_is_SomeI bt_wf_distinct)
  then have "peer_ok k r" using assms by (simp add: account_inv_def Let_def)
  then show "is_ok (bind_ok (id_from_slice k) (\<lambda>d. peer_of_row d r))"
    by (auto simp: peer_ok_def id_from_slice_wf peer_of_row_def to_32_def is_ok_iff)
qed

lemma inv_open_vault:
  assumes "account_inv L ses sk (pw, pf)" and "live_row (pf_account pf) v = Inr r"
  shows "is_ok (open_vault_key L ses v (pf_account pf))" and "bt_get (pf_vaults pf) (as_bytes v) \<noteq> None"
proof -
  have "bt_get (ac_registry (pf_account pf)) (as_bytes v) = Some r"
    using assms(2) by (auto simp: live_row_def split: option.splits if_splits)
  then have row: "row_ok L ses (as_bytes v) r" "bt_get (pf_vaults pf) (as_bytes v) \<noteq> None"
    using assms(1) by (auto simp: account_inv_def Let_def)
  then show "bt_get (pf_vaults pf) (as_bytes v) \<noteq> None" by simp
  from row(1) obtain v' where v': "as_bytes v = as_bytes v'"
    "is_ok (ak_unwrap L (ls_account_key ses) (rg_wrapped_vault_key r) (aad_vault_key v'))"
    by (auto simp: row_ok_def)
  then have "v' = v" by (simp add: id_eq_iff)
  with v'(2) show "is_ok (open_vault_key L ses v (pf_account pf))" by (simp add: open_vault_key_def assms(2))
qed

lemma inv_audit:
  assumes "account_inv L ses sk (pw, pf)" and "int (length (ac_audit (pf_account pf))) \<le> i64_max"
  shows "verify_audit_chain (cl_blake3 L) (ss_device_id ses) (ac_audit (pf_account pf)) = Inr ()"
  using assms audited_verifies by (auto simp: account_inv_def Let_def audit_ok_def)

text \<open>
  Claim C24. Whatever is done with an account after its creation - unlock attempts with any
  password, password changes, vaults created, deleted, shared and imported, peers trusted, settings
  and audit entries written - the current password with the secret key unlocks the session of its
  creation, every vault that is not deleted opens and has its file, the trusted peers read back and
  the audit chain verifies.
\<close>

theorem account_stays_whole:
  assumes "crypto_ok L" and "draws_ok dr" and "account_create L dr now pw None = Inr (ses, sk, pf)"
    and "(account_step L ses sk)\<^sup>*\<^sup>* (pw, pf) (pw', pf')"
  shows "fst (unlock_dir L audit ori t pw' sk (Some pf')) = Inr ses \<and>
    (\<forall>v r. live_row (pf_account pf') v = Inr r \<longrightarrow>
      is_ok (open_vault_key L ses v (pf_account pf')) \<and> bt_get (pf_vaults pf') (as_bytes v) \<noteq> None) \<and>
    is_ok (peer_devices (pf_account pf')) \<and>
    (int (length (ac_audit (pf_account pf'))) \<le> i64_max \<longrightarrow>
      verify_audit_chain (cl_blake3 L) (ss_device_id ses) (ac_audit (pf_account pf')) = Inr ())"
proof -
  have inv: "account_inv L ses sk (pw', pf')"
    by (rule run_inv [OF assms(4,1) created_inv [OF assms(1-3)]])
  have "fst (unlock_dir L audit ori t pw' sk (Some pf')) = Inr ses"
    using unlock_inner_result [of L audit ori t pw' sk "pf_account pf'"] inv_unlocks [OF inv]
    by (auto simp: unlock_dir_def split: prod.splits)
  with inv_peer_devices [OF inv] inv_open_vault [OF inv] inv_audit [OF inv] show ?thesis by blast
qed

text \<open>
  No later operation of the account changes the key of a vault: it opens with the key it
  had, or is deleted; and a deleted vault stays deleted, an import of it included.
\<close>

theorem vault_keys_kept:
  assumes "(account_step L ses sk)\<^sup>*\<^sup>* (pw, pf) (pw', pf')"
  shows "(open_vault_key L ses v (pf_account pf) = Inr key \<longrightarrow>
      open_vault_key L ses v (pf_account pf') \<in> {Inr key, Inl (NotFoundEntity ''vault (soft-deleted)'')}) \<and>
    (live_row (pf_account pf) v = Inl (NotFoundEntity ''vault (soft-deleted)'') \<longrightarrow>
      live_row (pf_account pf') v = Inl (NotFoundEntity ''vault (soft-deleted)''))"
proof -
  have kept: "rows_kept (ac_registry (pf_account pf)) (ac_registry (pf_account pf'))"
    using steps_keep_rows [OF assms] by simp
  show ?thesis
  proof (cases "bt_get (ac_registry (pf_account pf)) (as_bytes v)")
    case (Some r)
    then obtain t where "bt_get (ac_registry (pf_account pf')) (as_bytes v) = Some (r\<lparr>rg_deleted_at := t\<rparr>)"
      and "rg_deleted_at r \<noteq> None \<longrightarrow> t \<noteq> None"
      using kept unfolding rows_kept_def by blast
    with Some show ?thesis by (auto simp: open_vault_key_def live_row_def)
  qed (simp add: open_vault_key_def live_row_def)
qed

section \<open>Names\<close>

lemma find_shared_name_spec:
  "\<exists>m. n \<le> m \<and> find_shared_name existing desired n = shared_name desired m \<and>
     shared_name desired m \<notin> set existing \<and> shared_name desired ` {n..<m} \<subseteq> set existing"
proof (induction existing desired n rule: find_shared_name.induct)
  case (1 existing desired n)
  show ?case
  proof (cases "shared_name desired n \<in> set existing")
    case True
    from 1 [OF True] obtain m where "n + 1 \<le> m" "find_shared_name existing desired (n + 1) = shared_name desired m"
      "shared_name desired m \<notin> set existing" "shared_name desired ` {n + 1..<m} \<subseteq> set existing" by blast
    moreover from this have "{n..<m} = insert n {n + 1..<m}" by auto
    ultimately show ?thesis using True
      by (intro exI [of _ m]) (simp add: find_shared_name.simps [of existing desired n])
  next
    case False
    then show ?thesis by (intro exI [of _ n]) (simp add: find_shared_name.simps [of existing desired n])
  qed
qed

lemma shared_name_distinct: "desired \<noteq> desired @ '' (shared)''" "desired \<noteq> shared_name desired m"
  "desired @ '' (shared)'' \<noteq> shared_name desired m"
  by (simp_all add: shared_name_def)

text \<open>
  The search for a vault's local name ends with a name no vault has: the wanted
  name if it is free, else the shared name, else the first free numbered one, whose number is at most
  the number of vaults.
\<close>

theorem disambiguated_name_free:
  "disambiguate_vault_name existing desired \<notin> set existing \<and>
   (disambiguate_vault_name existing desired = desired \<longleftrightarrow> desired \<notin> set existing) \<and>
   (disambiguate_vault_name existing desired \<in> {desired, desired @ '' (shared)''} \<or>
    (\<exists>n. 2 \<le> n \<and> n \<le> length existing \<and> disambiguate_vault_name existing desired = shared_name desired n \<and>
      shared_name desired ` {2..<n} \<subseteq> set existing))"
proof (cases "desired \<in> set existing \<and> desired @ '' (shared)'' \<in> set existing")
  case True
  obtain n where n: "2 \<le> n" "find_shared_name existing desired 2 = shared_name desired n"
    "shared_name desired n \<notin> set existing" "shared_name desired ` {2..<n} \<subseteq> set existing"
    using find_shared_name_spec by blast
  have "card (insert desired (insert (desired @ '' (shared)'') (shared_name desired ` {2..<n}))) \<le> card (set existing)"
    by (rule card_mono) (use True n(4) in auto)
  moreover have "card (shared_name desired ` {2..<n}) = n - 2"
    by (subst card_image) (auto intro: inj_onI)
  moreover have "desired \<notin> insert (desired @ '' (shared)'') (shared_name desired ` {2..<n})"
    "desired @ '' (shared)'' \<notin> shared_name desired ` {2..<n}"
    using shared_name_distinct by auto
  ultimately have "n \<le> length existing"
    using card_length [of existing] n(1) by simp
  then show ?thesis using True n shared_name_distinct [of desired] by (auto simp: disambiguate_vault_name_def)
qed (use shared_name_distinct in \<open>auto simp: disambiguate_vault_name_def\<close>)


section \<open>A new vault\<close>

lemma create_vault_opens:
  assumes "crypto_ok L" and "length key = 32" and "create_vault L ses v key ix now name pf = (Inr v, pf')"
  shows "open_vault_key L ses v (pf_account pf') = Inr key" and "bt_get (pf_vaults pf') (as_bytes v) = Some (empty_vault ix)"
    and "ac_peers (pf_account pf') = ac_peers (pf_account pf)"
proof -
  obtain pf1 acc where pf1: "pf1 = pf\<lparr>pf_vaults := bt_insert (as_bytes v) (empty_vault ix) (pf_vaults pf)\<rparr>"
    and acc: "register_vault L ses v key now name (pf_account pf1) = Inr acc" and pf': "pf' = pf1\<lparr>pf_account := acc\<rparr>"
    using assms(3) by (auto simp: create_vault_def new_vault_file_def split: sum.splits if_splits)
  obtain name_env wrapped where env: "ak_wrap L (ls_account_key ses) key (aad_vault_key v) = Inr wrapped"
    and reg: "registry_insert v \<lparr>rg_name_env = name_env, rg_wrapped_vault_key = wrapped,
      rg_cipher_suite = CIPHER_SUITE_XCHACHA, rg_created_at = now, rg_deleted_at = None\<rparr> (pf_account pf1) = Inr acc"
    using acc by (auto simp: register_vault_def bind_ok_Inr_iff)
  have acc': "acc = (pf_account pf)\<lparr>ac_registry := bt_insert (as_bytes v) \<lparr>rg_name_env = name_env,
      rg_wrapped_vault_key = wrapped, rg_cipher_suite = CIPHER_SUITE_XCHACHA, rg_created_at = now, rg_deleted_at = None\<rparr>
      (ac_registry (pf_account pf))\<rparr>"
    using reg by (auto simp: registry_insert_def bind_ok_Inr_iff sql_insert_Inr pf1)
  from ak_wrap_unwrap [OF crypto_okD(1) [OF assms(1)] env assms(2)]
  show "open_vault_key L ses v (pf_account pf') = Inr key" by (simp add: open_vault_key_def live_row_def pf' acc')
  show "bt_get (pf_vaults pf') (as_bytes v) = Some (empty_vault ix)" by (simp add: pf' pf1)
  show "ac_peers (pf_account pf') = ac_peers (pf_account pf)" by (simp add: pf' acc')
qed

section \<open>Sharing\<close>

lemma check_vault_key_aad: "check_label (aad_str (aad_vault_key v)) = Inr (aad_str (aad_vault_key v))"
  and check_account_key_aad: "check_label (aad_str aad_account_key) = Inr (aad_str aad_account_key)"
  by (simp_all add: aad_str_def aad_vault_key_def aad_account_key_def aad_join_def check_label_def strip_prefix_def label_namespace_def)

lemma sym_seal_total: "(\<And>k n aad p. aead_encrypt A k n aad p \<noteq> None) \<Longrightarrow> is_ok (sym_seal A k p aad)"
  by (auto simp: sym_seal_def Let_def is_ok_def split: option.splits)

lemma ak_seal_total: "(\<And>k n aad p. aead_encrypt (cl_aead L) k n aad p \<noteq> None) \<Longrightarrow> \<exists>e. ak_seal L k p aad = Inr e"
  using sym_seal_total [of "cl_aead L" k p aad] by (auto simp: ak_seal_def is_ok_iff)

lemma ak_wrap_total:
  "(\<And>k n aad p. aead_encrypt (cl_aead L) k n aad p \<noteq> None) \<Longrightarrow> check_label (aad_str aad) = Inr (aad_str aad) \<Longrightarrow>
     \<exists>e. ak_wrap L k target aad = Inr e"
  using sym_seal_total [of "cl_aead L" k target "str_bytes (aad_str aad)"]
  by (auto simp: ak_wrap_def wrap_key_def is_ok_iff)

lemma register_new:
  assumes "bt_get (ac_registry (pf_account pf)) (as_bytes v) = None"
  shows "\<exists>pf'. register_shared_vault v wrapped name_env ix now pf = Inr (True, pf') \<and>
    bt_get (ac_registry (pf_account pf')) = (bt_get (ac_registry (pf_account pf)))(as_bytes v \<mapsto>
      \<lparr>rg_name_env = name_env, rg_wrapped_vault_key = wrapped, rg_cipher_suite = CIPHER_SUITE_XCHACHA,
       rg_created_at = now, rg_deleted_at = None\<rparr>)"
  using assms by (simp add: register_shared_vault_def registry_insert_def sql_insert_def)

lemma shared_arrives:
  assumes "crypto_ok L" and "session_ok L sA" and "session_ok L sB"
    and "pd_device_id p = ss_device_id sB" and "pd_x25519_pub p = ls_x25519_pub sB"
    and "peer_device (pf_account pf) (ss_device_id sA) = Inr (Some q)" and "pd_ed25519_pub q = ss_ed25519_pub sA"
    and "ss_device_id sA \<noteq> ss_device_id sB"
    and "share_vault_key_to_peer L ori t sA v p acc = Inr (blob, acc')"
    and "\<And>k n aad m. aead_encrypt (cl_aead L) k n aad m \<noteq> None"
    and "is_ok (list_vaults L sB (pf_account pf))" and "bt_get (ac_registry (pf_account pf)) (as_bytes v) = None"
  obtains pf' key name where "import_shared_vault_key L sB v blob ix now pf = Inr (True, pf')"
    and "open_vault_key L sB v (pf_account pf') = Inr key" and "open_vault_key L sA v acc = Inr key"
    and "\<exists>r. live_row acc v = Inr r \<and> ak_open L (ls_account_key sA) (rg_name_env r) (aad_vault_name v) = Inr name"
    and "\<exists>share. split_share_blob blob = Inr share \<and> sealing_open (cl_x25519 L) (cl_hkdf L) (cl_aead L) (ls_sealing sB)
      (sh_sealed_name share) (aad_share_vault_name v (ss_device_id sB)) = Inr name"
proof -
  have blob: "share_blob_for L sA v p acc = Inr blob"
    using assms(9) by (auto simp: share_vault_key_to_peer_def bind_ok_Inr_iff)
  have sender: "share_sender_key sB (ss_device_id sA) (pf_account pf) = Inr (ss_ed25519_pub sA)"
    using assms(6-8) by (simp add: share_sender_key_def ok_or_def)
  obtain key name where key: "open_vault_key L sA v acc = Inr key"
    and imp: "import_shared_vault_key L sB v blob ix now pf =
      bind_ok (shared_vault_name L sB name (pf_account pf)) (\<lambda>name.
      bind_ok (ak_wrap L (ls_account_key sB) key (aad_vault_key v)) (\<lambda>wrapped.
      bind_ok (ak_seal L (ls_account_key sB) name (aad_vault_name v)) (\<lambda>name_env.
      register_shared_vault v wrapped name_env ix now pf)))"
    and name: "\<exists>r. live_row acc v = Inr r \<and> ak_open L (ls_account_key sA) (rg_name_env r) (aad_vault_name v) = Inr name"
      "\<exists>share. split_share_blob blob = Inr share \<and> sealing_open (cl_x25519 L) (cl_hkdf L) (cl_aead L) (ls_sealing sB)
        (sh_sealed_name share) (aad_share_vault_name v (ss_device_id sB)) = Inr name"
    using import_shared [OF assms(1-5) sender blob] by blast
  obtain name' where name': "shared_vault_name L sB name (pf_account pf) = Inr name'"
    using assms(11) by (cases "utf8_valid name") (auto simp: shared_vault_name_def is_ok_iff)
  obtain wrapped name_env where env: "ak_wrap L (ls_account_key sB) key (aad_vault_key v) = Inr wrapped"
    "ak_seal L (ls_account_key sB) name' (aad_vault_name v) = Inr name_env"
    using ak_wrap_total [OF assms(10) check_vault_key_aad] ak_seal_total [OF assms(10)] by blast
  obtain pf' where pf': "register_shared_vault v wrapped name_env ix now pf = Inr (True, pf')"
    and reg: "bt_get (ac_registry (pf_account pf')) = (bt_get (ac_registry (pf_account pf)))(as_bytes v \<mapsto>
      \<lparr>rg_name_env = name_env, rg_wrapped_vault_key = wrapped, rg_cipher_suite = CIPHER_SUITE_XCHACHA,
       rg_created_at = now, rg_deleted_at = None\<rparr>)"
    using register_new [OF assms(12)] by blast
  have len: "length key = 32"
    using key by (auto simp: open_vault_key_def bind_ok_Inr_iff ak_unwrap_length)
  have "open_vault_key L sB v (pf_account pf') = Inr key"
    using ak_wrap_unwrap [OF crypto_okD(1) [OF assms(1)] env(1) len] by (simp add: open_vault_key_def live_row_def reg)
  with that [OF _ _ key name] show ?thesis by (simp add: imp name' env pf')
qed

text \<open>
  Claim C25. A vault shared to a device that pins the sender, can list its vaults and does not hold that
  vault yet arrives: the recipient accepts the blob and opens the vault with the very key the sender
  opens it with. Sharing does not change the sender's registry.
\<close>

theorem share_roundtrip:
  assumes "crypto_ok L" and "session_ok L sA" and "session_ok L sB"
    and "pd_device_id p = ss_device_id sB" and "pd_x25519_pub p = ls_x25519_pub sB"
    and "peer_device (pf_account pf) (ss_device_id sA) = Inr (Some q)" and "pd_ed25519_pub q = ss_ed25519_pub sA"
    and "ss_device_id sA \<noteq> ss_device_id sB"
    and "share_vault_key_to_peer L ori t sA v p acc = Inr (blob, acc')"
    and "\<And>k n aad m. aead_encrypt (cl_aead L) k n aad m \<noteq> None"
    and "is_ok (list_vaults L sB (pf_account pf))" and "bt_get (ac_registry (pf_account pf)) (as_bytes v) = None"
  shows "\<exists>pf'. import_shared_vault_key L sB v blob ix now pf = Inr (True, pf') \<and>
    is_ok (open_vault_key L sB v (pf_account pf')) \<and>
    open_vault_key L sB v (pf_account pf') = open_vault_key L sA v acc \<and> ac_registry acc' = ac_registry acc"
proof -
  have "ac_registry acc' = ac_registry acc"
    using assms(9) by (auto simp: share_vault_key_to_peer_def bind_ok_Inr_iff)
  then show ?thesis using shared_arrives [OF assms, of ix now] by (metis is_ok_simps(2))
qed

text \<open>
  Claim C26. A share changes the account only when it comes from this device or a pinned one and
  carries a signature that verifies, under that device's key, over the vault, this recipient, the
  sender and both sealed segments; it then adds the one vault it names, and never replaces one.
\<close>

theorem import_only_pinned:
  assumes "import_shared_vault_key L ses v blob ix now pf = Inr (new, pf')" and "pf' \<noteq> pf"
  shows "new \<and> (\<exists>share key vk payload. split_share_blob blob = Inr share \<and>
      (sh_sender share = ss_device_id ses \<and> key = ss_ed25519_pub ses \<or>
       (\<exists>r. bt_get (ac_peers (pf_account pf)) (as_bytes (sh_sender share)) = Some r \<and> pr_ed25519_pub r = key)) \<and>
      cl_vk_from_bytes L key = Inr vk \<and>
      framed_payload SHARE_SIGN_CONTEXT (share_signed_message v (ss_device_id ses) (sh_sender share)
        (sh_sealed_key share) (sh_sealed_name share)) = Inr payload \<and>
      cl_ed_verify L vk payload (sh_signature share)) \<and>
    bt_get (ac_registry (pf_account pf)) (as_bytes v) = None \<and>
    (\<forall>k. k \<noteq> as_bytes v \<longrightarrow> bt_get (ac_registry (pf_account pf')) k = bt_get (ac_registry (pf_account pf)) k) \<and>
    ac_peers (pf_account pf') = ac_peers (pf_account pf)"
proof -
  obtain share key vk wrapped name_env where split: "split_share_blob blob = Inr share"
    and key: "share_sender_key ses (sh_sender share) (pf_account pf) = Inr key" "cl_vk_from_bytes L key = Inr vk"
    and sig: "verifying_verify (cl_ed_verify L) vk SHARE_SIGN_CONTEXT
      (share_signed_message v (ss_device_id ses) (sh_sender share) (sh_sealed_key share) (sh_sealed_name share))
      (sh_signature share) = Inr ()"
    and reg: "register_shared_vault v wrapped name_env ix now pf = Inr (new, pf')"
    using assms(1) by (auto simp: import_shared_vault_key_def Let_def bind_ok_Inr_iff map_err_Inr_iff)
  have none: "bt_get (ac_registry (pf_account pf)) (as_bytes v) = None"
    using reg assms(2) by (auto simp: register_shared_vault_def split: if_splits)
  have "new" and "bt_get (ac_registry (pf_account pf')) k = bt_get (ac_registry (pf_account pf)) k" if "k \<noteq> as_bytes v" for k
    using register_new [OF none, of wrapped name_env ix now] reg that by auto
  moreover have "ac_peers (pf_account pf') = ac_peers (pf_account pf)"
    using reg by (auto simp: register_shared_vault_def registry_insert_def Let_def bind_ok_Inr_iff split: if_splits)
  moreover have "new" using register_new [OF none, of wrapped name_env ix now] reg by auto
  moreover have "sh_sender share = ss_device_id ses \<and> key = ss_ed25519_pub ses \<or>
       (\<exists>r. bt_get (ac_peers (pf_account pf)) (as_bytes (sh_sender share)) = Some r \<and> pr_ed25519_pub r = key)"
    using key(1) by (auto simp: share_sender_key_def bind_ok_Inr_iff ok_or_def dest!: peer_device_Some split: if_splits option.splits)
  ultimately show ?thesis using split key(2) sig none
    by (fastforce simp: verifying_verify_def bind_ok_Inr_iff split: if_splits)
qed


lemma list_vaults_fails:
  assumes "bt_get (ac_registry acc) (as_bytes v) = Some r" and "rg_deleted_at r = None" and "id_wf v"
    and "ak_open L (ls_account_key ses) (rg_name_env r) (aad_vault_name v) = Inr name" and "\<not> utf8_valid name"
  shows "\<not> is_ok (list_vaults L ses acc)"
  unfolding list_vaults_def
  by (rule map_ok_fails [where x = "(as_bytes v, r)"])
    (use map_of_SomeD [OF assms(1)] assms(2-5) in \<open>simp_all add: id_from_slice_wf\<close>)

text \<open>
  A share whose unsealed name is not UTF-8 is imported with its bytes as they
  are, and from then on listing the vaults fails, for every vault of the account.
\<close>

theorem non_utf8_name_blocks_listing:
  assumes "crypto_ok L" and "id_wf v"
    and "import_shared_vault_key L ses v blob ix now pf = Inr (True, pf')"
    and "split_share_blob blob = Inr share"
    and "sealing_open (cl_x25519 L) (cl_hkdf L) (cl_aead L) (ls_sealing ses) (sh_sealed_name share)
      (aad_share_vault_name v (ss_device_id ses)) = Inr name" and "\<not> utf8_valid name"
  shows "\<not> is_ok (list_vaults L ses (pf_account pf'))"
proof -
  obtain wrapped name_env where env: "ak_seal L (ls_account_key ses) name (aad_vault_name v) = Inr name_env"
    and reg: "register_shared_vault v wrapped name_env ix now pf = Inr (True, pf')"
    using assms(3) by (auto simp: import_shared_vault_key_def Let_def bind_ok_Inr_iff map_err_Inr_iff
        assms(4-6) shared_vault_name_def)
  have "bt_get (ac_registry (pf_account pf)) (as_bytes v) = None"
    using reg by (auto simp: register_shared_vault_def split: if_splits)
  from register_new [OF this, of wrapped name_env ix now] reg show ?thesis
    by (intro list_vaults_fails [where r = "\<lparr>rg_name_env = name_env, rg_wrapped_vault_key = wrapped,
         rg_cipher_suite = CIPHER_SUITE_XCHACHA, rg_created_at = now, rg_deleted_at = None\<rparr>" and v = v and name = name])
      (simp_all add: assms(2,6) ak_seal_open [OF crypto_okD(1) [OF assms(1)] env])
qed

section \<open>Witnesses\<close>

definition ex_pad :: "bytes \<Rightarrow> bytes" where
  "ex_pad bs = take 32 (bs @ replicate 32 7)"

definition ex_mac :: "nat \<Rightarrow> bytes \<Rightarrow> bytes" where
  "ex_mac n bs = replicate n (foldl (\<lambda>h b. 3 * h + b) 1 bs)"

definition ex_crypto :: crypto_lib where
  "ex_crypto =
     \<lparr>cl_aead = ex_aead, cl_hkdf = (\<lambda>salt ikm info. ex_mac 32 (salt @ ikm @ info)),
      cl_argon2 = \<lparr>argon2_accepts = (\<lambda>_ _ _. True), argon2id = (\<lambda>_ _ _ pw salt. Some (ex_mac 32 (pw @ salt)))\<rparr>,
      cl_x25519 = \<lparr>x_public = ex_pad, x_shared = (\<lambda>s p. map2 (+) (ex_pad s) (ex_pad p)), x_ephemeral = (\<lambda>_ _ _. [9])\<rparr>,
      cl_blake3 = ex_mac 32, cl_ed_public = ex_pad, cl_ed_sign = (\<lambda>s m. ex_mac 64 (ex_pad s @ m)),
      cl_ed_verify = (\<lambda>pk m sig. sig = ex_mac 64 (pk @ m)),
      cl_vk_from_bytes = (\<lambda>pk. if length pk = 32 then Inr pk else Inl (InvalidPublicKey ''length''))\<rparr>"

lemma ex_pad_simps [simp]: "length (ex_pad bs) = 32" "ex_pad (ex_pad bs) = ex_pad bs" "length (ex_mac n bs) = n"
  by (simp_all add: ex_pad_def ex_mac_def)

lemma ex_crypto_ok [simp]: "crypto_ok ex_crypto"
proof -
  have "map2 (+) a b = map2 (+) b (a :: byte list)" if "length a = length b" for a b
    using that by (induction a b rule: list_induct2) (simp_all add: add.commute)
  then show ?thesis by (simp add: crypto_ok_def ex_crypto_def x25519_ok_def)
qed

lemma ex_crypto_total [simp]: "aead_encrypt (cl_aead ex_crypto) k n aad m \<noteq> None"
  by (simp add: ex_crypto_def ex_aead_def)

definition ex_draws :: "byte \<Rightarrow> account_draws" where
  "ex_draws b = \<lparr>dr_secret_key = replicate 16 b, dr_salt = replicate 16 2, dr_account_key = replicate 32 (b + 1),
     dr_device_id = ex_id b, dr_ed_seed = replicate 32 (b + 2), dr_x_secret = replicate 32 (b + 3),
     dr_secret_key_id = ex_id 9\<rparr>"

lemma ex_draws_ok [simp]: "draws_ok (ex_draws b)"
  by (simp add: draws_ok_def ex_draws_def)

definition ex_home :: "byte \<Rightarrow> live_session \<times> bytes \<times> nat profile" where
  "ex_home b = projr (account_create ex_crypto (ex_draws b) 100 ''pw'' None)"

lemma ex_muk: "\<exists>muk. account_muk ex_crypto pw sk p = Inr muk"
  by (simp add: account_muk_def derive_master_unlock_key_def ex_crypto_def hkdf_sha256_32_def
      hkdf_sha256_32_transcript_def check_label_def MUK_LABEL_def label_namespace_def strip_prefix_def ok_or_def)

lemma ex_home_created: "account_create ex_crypto (ex_draws b) 100 ''pw'' None = Inr (ex_home b)"
proof -
  obtain muk where "account_muk ex_crypto ''pw'' (dr_secret_key (ex_draws b)) (recommended (dr_salt (ex_draws b))) = Inr muk"
    using ex_muk by blast
  moreover obtain env where "ak_wrap ex_crypto muk (dr_account_key (ex_draws b)) aad_account_key = Inr env"
    using ak_wrap_total [OF ex_crypto_total check_account_key_aad] by blast
  moreover have "\<exists>row. device_insert ex_crypto k d s x now = Inr row" for k d s x now
    using ak_seal_total [OF ex_crypto_total] by (metis bind_ok_simps(2) device_insert_def)
  ultimately have "is_ok (account_create ex_crypto (ex_draws b) 100 ''pw'' (None :: nat profile option))"
    unfolding account_create_def is_ok_iff Let_def by (metis bind_ok_simps(2))
  then obtain x where "account_create ex_crypto (ex_draws b) 100 ''pw'' (None :: nat profile option) = Inr x"
    unfolding is_ok_iff by blast
  then show ?thesis by (simp add: ex_home_def)
qed

definition ex_ses :: "byte \<Rightarrow> live_session" where
  "ex_ses b = fst (ex_home b)"

definition ex_secret :: "byte \<Rightarrow> bytes" where
  "ex_secret b = fst (snd (ex_home b))"

text \<open>Its profile after one vault was created.\<close>

definition ex_profile :: "byte \<Rightarrow> string \<Rightarrow> nat profile" where
  "ex_profile b nm = snd (create_vault ex_crypto (ex_ses b) (ex_id 3) (replicate 32 8) 0 120 nm (snd (snd (ex_home b))))"

definition ex_blank :: "byte \<Rightarrow> nat profile" where
  "ex_blank b = snd (snd (ex_home b))"

lemma ex_home_ok: "account_create ex_crypto (ex_draws b) 100 ''pw'' None = Inr (ex_ses b, ex_secret b, ex_blank b)"
  by (simp add: ex_home_created ex_ses_def ex_secret_def ex_blank_def)

lemmas ex_blank_facts = account_create_unlocks [OF ex_crypto_ok ex_draws_ok ex_home_ok]

lemma ex_profile: "create_vault ex_crypto (ex_ses b) (ex_id 3) (replicate 32 8) 0 120 nm (ex_blank b) = (Inr (ex_id 3), ex_profile b nm)"
proof -
  have "pf_vaults (ex_blank b) = []"
    by (rule account_create_vaults [OF ex_home_ok])
  then show ?thesis
    using ak_wrap_total [OF ex_crypto_total check_vault_key_aad, of "ls_account_key (ex_ses b)" "replicate 32 8" "ex_id 3"]
      ak_seal_total [OF ex_crypto_total, of "ls_account_key (ex_ses b)" "str_bytes nm" "aad_vault_name (ex_id 3)"]
    by (auto simp: ex_profile_def ex_blank_def [symmetric] create_vault_def new_vault_file_def register_vault_def
        registry_insert_def sql_insert_def ex_blank_facts)
qed

lemma ex_profile_open: "open_vault_key ex_crypto (ex_ses b) (ex_id 3) (pf_account (ex_profile b nm)) = Inr (replicate 32 8)"
  by (rule create_vault_opens [OF ex_crypto_ok _ ex_profile]) simp

lemma ex_step_create: "account_step ex_crypto (ex_ses b) (ex_secret b) (''pw'', ex_blank b) (''pw'', ex_profile b nm)"
  by (rule step_create_vault [OF ex_profile]) simp_all

text \<open>The password is changed.\<close>

definition ex_rekeyed :: "byte \<Rightarrow> nat profile" where
  "ex_rekeyed b = (ex_profile b ''work'')\<lparr>pf_account :=
     projr (change_password ex_crypto (replicate 16 6) 200 ''pw'' ''new'' (ex_secret b) (pf_account (ex_profile b ''work'')))\<rparr>"

lemma ex_inv: "account_inv ex_crypto (ex_ses b) (ex_secret b) (''pw'', ex_profile b ''work'')"
  by (rule inv_step [OF ex_step_create ex_crypto_ok created_inv [OF ex_crypto_ok ex_draws_ok ex_home_ok]])

lemma ex_step_rekey: "account_step ex_crypto (ex_ses b) (ex_secret b) (''pw'', ex_profile b ''work'') (''new'', ex_rekeyed b)"
proof -
  let ?acc = "pf_account (ex_profile b ''work'')"
  obtain params muk key where "read_kdf_params (ac_kdf ?acc) = Inr params"
    "account_muk ex_crypto ''pw'' (ex_secret b) params = Inr muk" "ak_unwrap ex_crypto muk (ac_wrapped_account_key ?acc) aad_account_key = Inr key"
    using inv_unlocks [OF ex_inv [of b]] by (auto simp: unlocks_def bind_ok_Inr_iff)
  moreover obtain muk' where "account_muk ex_crypto ''new'' (ex_secret b) (recommended (replicate 16 6)) = Inr muk'"
    using ex_muk by blast
  moreover obtain e where "ak_wrap ex_crypto muk' key aad_account_key = Inr e"
    using ak_wrap_total [OF ex_crypto_total check_account_key_aad] by blast
  ultimately have "change_password ex_crypto (replicate 16 6) 200 ''pw'' ''new'' (ex_secret b) ?acc = Inr (pf_account (ex_rekeyed b))"
    by (simp add: change_password_def ex_rekeyed_def Let_def)
  from step_change_password [OF this] show ?thesis by (simp add: ex_rekeyed_def)
qed

lemma ex_home_run: "(account_step ex_crypto (ex_ses b) (ex_secret b))\<^sup>*\<^sup>* (''pw'', ex_blank b) (''new'', ex_rekeyed b)"
  using ex_step_create ex_step_rekey by (meson r_into_rtranclp rtranclp.rtrancl_into_rtrancl)

lemma account_stays_whole_witness:
  "fst (unlock_dir ex_crypto True no_origin 300 ''new'' (ex_secret 1) (Some (ex_rekeyed 1))) = Inr (ex_ses 1) \<and>
   is_ok (peer_devices (pf_account (ex_rekeyed 1)))"
  using account_stays_whole [OF ex_crypto_ok ex_draws_ok ex_home_ok ex_home_run [of 1]] by blast

lemma vault_keys_kept_witness:
  "open_vault_key ex_crypto (ex_ses 1) (ex_id 3) (pf_account (ex_rekeyed 1)) \<in>
     {Inr (replicate 32 8), Inl (NotFoundEntity ''vault (soft-deleted)'')}"
  using vault_keys_kept [of ex_crypto "ex_ses 1" "ex_secret 1" "''pw''" "ex_profile 1 ''work''" "''new''" "ex_rekeyed 1" "ex_id 3" "replicate 32 8"]
    ex_step_rekey [of 1] ex_profile_open [of 1] by (simp add: r_into_rtranclp)


text \<open>Device 5 trusts device 1, which shares its vault.\<close>

definition ex_recipient :: "nat profile" where
  "ex_recipient = (ex_blank 5)\<lparr>pf_account := trust_peer_device ex_crypto no_origin 150 (ex_ses 5) (ex_id 1)
     (ss_ed25519_pub (ex_ses 1)) (ls_x25519_pub (ex_ses 1)) None (pf_account (ex_blank 5))\<rparr>"

definition ex_trusted :: trusted_peer where
  "ex_trusted = \<lparr>pd_device_id = ex_id 5, pd_ed25519_pub = ss_ed25519_pub (ex_ses 5), pd_x25519_pub = ls_x25519_pub (ex_ses 5),
     pd_verified_at = 150, pd_label = None\<rparr>"

lemma ex_ses_eq: "ex_ses b = session_of ex_crypto (replicate 32 (b + 1)) (ex_id b) (replicate 32 (b + 2)) (replicate 32 (b + 3))"
  using ex_home_ok [of b] by (auto simp: account_create_def Let_def bind_ok_Inr_iff ex_draws_def)

lemma ex_ses_simps [simp]: "ss_device_id (ex_ses b) = ex_id b" "length (ss_ed25519_pub (ex_ses b)) = 32"
  "length (ls_x25519_pub (ex_ses b)) = 32"
  by (simp_all add: ex_ses_eq session_of_def ex_crypto_def)

lemma seal_for_total:
  assumes "aead_ok A" and "x25519_ok X" and "\<And>k n aad m. aead_encrypt A k n aad m \<noteq> None"
    and "was_contributory (x_shared X (x_ephemeral X r p aad) r)"
  shows "\<exists>s. seal_for X hkdf A r p aad = Inr s \<and> length s = length p + 74"
proof -
  have label: "derive_seal_key hkdf a b c = Inr (hkdf [] a (str_bytes SEAL_LABEL @ b @ c))" for a b c
    by (simp add: derive_seal_key_def hkdf_sha256_32_transcript_def check_label_def SEAL_LABEL_def
        label_namespace_def strip_prefix_def)
  obtain e where e: "sym_seal A (hkdf [] (x_shared X (x_ephemeral X r p aad) r)
      (str_bytes SEAL_LABEL @ x_public X (x_ephemeral X r p aad) @ r)) p aad = Inr e"
    using sym_seal_total [OF assms(3)] unfolding is_ok_iff by blast
  moreover have "length (envelope_to_bytes e) = length p + 41"
    using e assms(1) by (auto simp: sym_seal_def aead_ok_def envelope_to_bytes_def Let_def NONCE_LEN_def TAG_LEN_def split: option.splits)
  moreover have "length (x_public X (x_ephemeral X r p aad)) = 32" using assms(2) by (simp add: x25519_ok_def)
  ultimately show ?thesis using assms(4) by (simp add: seal_for_def label)
qed

lemma ex_contributory: "was_contributory (x_shared (cl_x25519 ex_crypto) (x_ephemeral (cl_x25519 ex_crypto) r p aad) (ls_x25519_pub (ex_ses 5)))"
proof -
  have "was_contributory (map2 (+) (ex_pad [9]) (ex_pad (replicate 32 8)))" by code_simp
  then show ?thesis by (simp add: ex_ses_eq session_of_def ex_crypto_def)
qed

lemma share_blob_total:
  assumes "crypto_ok L" and "\<And>k n aad m. aead_encrypt (cl_aead L) k n aad m \<noteq> None"
    and "\<And>m aad. was_contributory (x_shared (cl_x25519 L) (x_ephemeral (cl_x25519 L) (pd_x25519_pub p) m aad) (pd_x25519_pub p))"
    and "live_row acc v = Inr r" and "open_vault_key L ses v acc = Inr key"
    and "ak_open L (ls_account_key ses) (rg_name_env r) (aad_vault_name v) = Inr name" and "length name < 2 ^ 31"
  shows "\<exists>blob. share_blob_for L ses v p acc = Inr blob"
proof -
  have key: "ak_unwrap L (ls_account_key ses) (rg_wrapped_vault_key r) (aad_vault_key v) = Inr key"
    using assms(4,5) by (simp add: open_vault_key_def)
  note seal = seal_for_total [OF crypto_okD(1,2) [OF assms(1)] assms(2,3)]
  obtain sk where sk: "seal_key_for (cl_x25519 L) (cl_hkdf L) (cl_aead L) (pd_x25519_pub p) key
      (aad_share_vault_key v (pd_device_id p)) = Inr sk" "length sk = 106"
    using seal ak_unwrap_length [OF key] by (fastforce simp: seal_key_for_def)
  obtain sn where sn: "seal_for (cl_x25519 L) (cl_hkdf L) (cl_aead L) (pd_x25519_pub p) name
      (aad_share_vault_name v (pd_device_id p)) = Inr sn" "length sn < 2 ^ 32"
    using seal assms(7) by fastforce
  have "\<exists>sig. signing_sign (cl_ed_sign L) (ss_signing ses) SHARE_SIGN_CONTEXT m = Inr sig" for m
    by (simp add: signing_sign_def framed_payload_def check_label_def SHARE_SIGN_CONTEXT_def label_namespace_def strip_prefix_def)
  with sk sn show ?thesis
    by (auto simp: share_blob_for_def assms(4,6) key Let_def build_share_blob_def prefixed_def bind_ok_Inr_iff map_err_Inr_iff)
qed


lemma create_vault_row:
  assumes "crypto_ok L" and "create_vault L ses v key ix now name pf = (Inr v, pf')"
  shows "\<exists>r. live_row (pf_account pf') v = Inr r \<and> ak_open L (ls_account_key ses) (rg_name_env r) (aad_vault_name v) = Inr (str_bytes name)"
proof -
  obtain name_env row where "ak_seal L (ls_account_key ses) (str_bytes name) (aad_vault_name v) = Inr name_env"
    and "live_row (pf_account pf') v = Inr row" and "rg_name_env row = name_env"
    using assms(2)
    by (auto simp: create_vault_def register_vault_def registry_insert_def live_row_def sql_insert_Inr bind_ok_Inr_iff
        split: sum.splits)
  with ak_seal_open [OF crypto_okD(1) [OF assms(1)]] show ?thesis by blast
qed

definition ex_share :: "string \<Rightarrow> bytes \<times> account_db" where
  "ex_share nm = projr (share_vault_key_to_peer ex_crypto no_origin 160 (ex_ses 1) (ex_id 3) ex_trusted (pf_account (ex_profile 1 nm)))"

lemma ex_share:
  assumes "length nm < 2 ^ 31"
  shows "share_vault_key_to_peer ex_crypto no_origin 160 (ex_ses 1) (ex_id 3) ex_trusted (pf_account (ex_profile 1 nm)) =
    Inr (fst (ex_share nm), snd (ex_share nm))"
proof -
  obtain r where r: "live_row (pf_account (ex_profile 1 nm)) (ex_id 3) = Inr r"
    "ak_open ex_crypto (ls_account_key (ex_ses 1)) (rg_name_env r) (aad_vault_name (ex_id 3)) = Inr (str_bytes nm)"
    using create_vault_row [OF ex_crypto_ok ex_profile] by blast
  obtain blob where "share_blob_for ex_crypto (ex_ses 1) (ex_id 3) ex_trusted (pf_account (ex_profile 1 nm)) = Inr blob"
    using share_blob_total [OF ex_crypto_ok ex_crypto_total _ r(1) ex_profile_open r(2), of ex_trusted] ex_contributory assms
    by (auto simp: ex_trusted_def)
  then show ?thesis by (simp add: ex_share_def share_vault_key_to_peer_def)
qed

lemma best_effort_record_tables:
  "ac_peers (best_effort (record_audit L ori now d kind detail) acc) = ac_peers acc"
  by (auto simp: best_effort_def record_audit_def bind_ok_Inr_iff split: sum.split)

lemma ex_recipient_facts:
  "peer_device (pf_account ex_recipient) (ex_id 1) = Inr (Some \<lparr>pd_device_id = ex_id 1, pd_ed25519_pub = ss_ed25519_pub (ex_ses 1),
     pd_x25519_pub = ls_x25519_pub (ex_ses 1), pd_verified_at = 150, pd_label = None\<rparr>)"
  "ac_registry (pf_account ex_recipient) = []"
  by (simp_all add: ex_recipient_def trust_peer_device_def peer_device_def best_effort_record_tables ex_blank_facts
      peer_of_row_def to_32_def)

lemma share_roundtrip_witness:
  "\<exists>pf'. import_shared_vault_key ex_crypto (ex_ses 5) (ex_id 3) (fst (ex_share ''work'')) 0 170 ex_recipient = Inr (True, pf') \<and>
    open_vault_key ex_crypto (ex_ses 5) (ex_id 3) (pf_account pf') = Inr (replicate 32 8)"
proof -
  have ids: "ex_id 1 \<noteq> ex_id 5" by (simp add: ex_id_def)
  have len: "length ''work'' < 2 ^ 31" by simp
  obtain pf' where "import_shared_vault_key ex_crypto (ex_ses 5) (ex_id 3) (fst (ex_share ''work'')) 0 170 ex_recipient = Inr (True, pf')"
    and "open_vault_key ex_crypto (ex_ses 5) (ex_id 3) (pf_account pf') = open_vault_key ex_crypto (ex_ses 1) (ex_id 3) (pf_account (ex_profile 1 ''work''))"
    using share_roundtrip [OF ex_crypto_ok ex_blank_facts(2) ex_blank_facts(2) _ _ _ _ _ ex_share [OF len] ex_crypto_total,
        of 5 ex_recipient _ 0 170]
    by (auto simp: ex_trusted_def ex_recipient_facts ids list_vaults_def)
  then show ?thesis by (simp add: ex_profile_open)
qed


text \<open>A sender's vault may carry any bytes as its name.\<close>

definition ex_bad_name :: string where
  "ex_bad_name = [char_of (255 :: nat)]"

lemma ex_arrives:
  assumes "length nm < 2 ^ 31"
  obtains pf' where "import_shared_vault_key ex_crypto (ex_ses 5) (ex_id 3) (fst (ex_share nm)) 0 170 ex_recipient = Inr (True, pf')"
    and "\<exists>share. split_share_blob (fst (ex_share nm)) = Inr share \<and> sealing_open (cl_x25519 ex_crypto) (cl_hkdf ex_crypto)
      (cl_aead ex_crypto) (ls_sealing (ex_ses 5)) (sh_sealed_name share) (aad_share_vault_name (ex_id 3) (ss_device_id (ex_ses 5))) =
      Inr (str_bytes nm)"
    and "bt_get (ac_registry (pf_account pf')) (as_bytes (ex_id 3)) \<noteq> None"
proof -
  have ids: "ex_id 1 \<noteq> ex_id 5" by (simp add: ex_id_def)
  obtain r where r: "live_row (pf_account (ex_profile 1 nm)) (ex_id 3) = Inr r"
    "ak_open ex_crypto (ls_account_key (ex_ses 1)) (rg_name_env r) (aad_vault_name (ex_id 3)) = Inr (str_bytes nm)"
    using create_vault_row [OF ex_crypto_ok ex_profile] by blast
  obtain pf' key name where pf': "import_shared_vault_key ex_crypto (ex_ses 5) (ex_id 3) (fst (ex_share nm)) 0 170 ex_recipient = Inr (True, pf')"
    "open_vault_key ex_crypto (ex_ses 5) (ex_id 3) (pf_account pf') = Inr key"
    and name: "\<exists>r. live_row (pf_account (ex_profile 1 nm)) (ex_id 3) = Inr r \<and>
      ak_open ex_crypto (ls_account_key (ex_ses 1)) (rg_name_env r) (aad_vault_name (ex_id 3)) = Inr name"
    and share: "\<exists>share. split_share_blob (fst (ex_share nm)) = Inr share \<and> sealing_open (cl_x25519 ex_crypto) (cl_hkdf ex_crypto)
      (cl_aead ex_crypto) (ls_sealing (ex_ses 5)) (sh_sealed_name share) (aad_share_vault_name (ex_id 3) (ss_device_id (ex_ses 5))) =
      Inr name"
    by (rule shared_arrives [OF ex_crypto_ok ex_blank_facts(2) ex_blank_facts(2) _ _ _ _ _ ex_share [OF assms] ex_crypto_total,
        of 5 ex_recipient "\<lparr>pd_device_id = ex_id 1, pd_ed25519_pub = ss_ed25519_pub (ex_ses 1),
          pd_x25519_pub = ls_x25519_pub (ex_ses 1), pd_verified_at = 150, pd_label = None\<rparr>" 0 170])
      (simp_all add: ex_trusted_def ex_recipient_facts ids list_vaults_def)
  have "name = str_bytes nm" using r name by simp
  moreover have "bt_get (ac_registry (pf_account pf')) (as_bytes (ex_id 3)) \<noteq> None"
    using pf'(2) by (auto simp: open_vault_key_def live_row_def bind_ok_Inr_iff split: option.splits)
  ultimately show ?thesis using that pf'(1) share by blast
qed

lemma import_only_pinned_witness:
  "\<exists>share key vk payload. split_share_blob (fst (ex_share ''work'')) = Inr share \<and>
     (sh_sender share = ex_id 5 \<and> key = ss_ed25519_pub (ex_ses 5) \<or>
       (\<exists>r. bt_get (ac_peers (pf_account ex_recipient)) (as_bytes (sh_sender share)) = Some r \<and> pr_ed25519_pub r = key)) \<and>
     cl_vk_from_bytes ex_crypto key = Inr vk \<and>
     framed_payload SHARE_SIGN_CONTEXT (share_signed_message (ex_id 3) (ex_id 5) (sh_sender share)
        (sh_sealed_key share) (sh_sealed_name share)) = Inr payload \<and>
     cl_ed_verify ex_crypto vk payload (sh_signature share)"
proof -
  have len: "length ''work'' < 2 ^ 31" by simp
  obtain pf' where pf': "import_shared_vault_key ex_crypto (ex_ses 5) (ex_id 3) (fst (ex_share ''work'')) 0 170 ex_recipient = Inr (True, pf')"
    and "bt_get (ac_registry (pf_account pf')) (as_bytes (ex_id 3)) \<noteq> None"
    by (rule ex_arrives [OF len])
  then have "pf' \<noteq> ex_recipient" by (auto simp: ex_recipient_facts)
  from import_only_pinned [OF pf' this] show ?thesis by (simp only: ex_ses_simps)
qed

lemma non_utf8_name_blocks_listing_witness:
  "case import_shared_vault_key ex_crypto (ex_ses 5) (ex_id 3) (fst (ex_share ex_bad_name)) 0 170 ex_recipient of
     Inl _ \<Rightarrow> False | Inr (new, pf') \<Rightarrow> new \<and> \<not> is_ok (list_vaults ex_crypto (ex_ses 5) (pf_account pf'))"
proof -
  have len: "length ex_bad_name < 2 ^ 31" by (simp add: ex_bad_name_def)
  obtain pf' share where pf': "import_shared_vault_key ex_crypto (ex_ses 5) (ex_id 3) (fst (ex_share ex_bad_name)) 0 170 ex_recipient = Inr (True, pf')"
    and share: "split_share_blob (fst (ex_share ex_bad_name)) = Inr share" "sealing_open (cl_x25519 ex_crypto) (cl_hkdf ex_crypto)
      (cl_aead ex_crypto) (ls_sealing (ex_ses 5)) (sh_sealed_name share) (aad_share_vault_name (ex_id 3) (ss_device_id (ex_ses 5))) =
      Inr (str_bytes ex_bad_name)"
    using ex_arrives [OF len] by metis
  have "\<not> utf8_valid (str_bytes ex_bad_name)" by code_simp
  from non_utf8_name_blocks_listing [OF ex_crypto_ok _ pf' share this] pf' show ?thesis by simp
qed

end
