(* ===== verification/Attach.thy ===== *)
theory Attach
  imports Store Foreign Items Aad
begin

text \<open>
  Encrypted attachments (\<open>lp-vault/src/attachment.rs\<close>): adding, listing, reading and deleting them, and
  the store of their content-addressed blobs in the vault's directory of the local filesystem. The
  state of a call is the open vault file and the filesystem; a call that fails part-way keeps what it
  wrote. The random draws and clock reads of a call are the record \<open>att_draws\<close>.
\<close>

section \<open>Parameters and state\<close>

record att_lib =
  al_base :: "string list"
  al_blake3 :: "bytes \<Rightarrow> bytes"
  al_hyphenated :: "bytes \<Rightarrow> string"
  al_add_to_vec :: "attach_add_payload \<Rightarrow> string + bytes"
  al_delete_to_vec :: "attach_delete_payload \<Rightarrow> string + bytes"

record att_draws =
  dw_attachment_id :: id
  dw_key :: bytes
  dw_tmp :: id
  dw_op_id :: id
  dw_now :: int
  dw_op_now :: int

record 'x home =
  hm_db :: "'x vault_db"
  hm_files :: fs

record attachment_info =
  ai_attachment_id :: id
  ai_filename :: string
  ai_size_plain :: int
  ai_version :: int
  ai_created_at :: int

definition MAX_ATTACHMENT_BYTES :: nat where
  "MAX_ATTACHMENT_BYTES = 50 * 1024 * 1024"

text \<open>The cap of a release build; debug builds let the environment lower it.\<close>

definition max_attachment_bytes :: nat where
  "max_attachment_bytes = MAX_ATTACHMENT_BYTES"

section \<open>Content hashes\<close>

definition hex_lower :: "bytes \<Rightarrow> string" where
  "hex_lower bs = hex_encode bs"

definition is_content_hash_hex :: "string \<Rightarrow> bool" where
  "is_content_hash_hex s \<longleftrightarrow> length s = 64 \<and> list_all (\<lambda>c. c \<in> set ''0123456789abcdef'') s"

text \<open>The digits of a checked string all convert.\<close>

fun unhex :: "bytes \<Rightarrow> bytes" where
  "unhex (a # b # rest) = or (push_bit 4 (the (to_digit_16 a))) (the (to_digit_16 b)) # unhex rest"
| "unhex _ = []"

definition content_hash_from_hex :: "string \<Rightarrow> vault_error + bytes" where
  "content_hash_from_hex hex =
     (if \<not> is_content_hash_hex hex then Inl (VaultInvalid ''content_hash hex must be 64 lowercase chars'')
      else Inr (unhex (str_bytes hex)))"

definition content_hash_array :: "bytes \<Rightarrow> vault_error + bytes" where
  "content_hash_array bs = (if length bs = 32 then Inr bs else Inl (VaultInvalid ''stored content_hash was not 32 bytes''))"

section \<open>The blob store\<close>

definition vault_blob_path :: "att_lib \<Rightarrow> bytes \<Rightarrow> string list" where
  "vault_blob_path B content_hash = al_base B @ [hex_lower content_hash @ ''.blob'']"

definition blob_tmp :: "att_lib \<Rightarrow> id \<Rightarrow> string list" where
  "blob_tmp B tmp = al_base B @ [''.tmp-'' @ al_hyphenated B (as_bytes tmp)]"

definition write_blob_atomic :: "att_lib \<Rightarrow> id \<Rightarrow> string list \<Rightarrow> bytes \<Rightarrow> fs \<Rightarrow> (vault_error + unit) \<times> fs" where
  "write_blob_atomic B tmp path bs f =
     (case fs_create_dir_all (al_base B) f of Inl e \<Rightarrow> (Inl (VaultIo e), f)
      | Inr f \<Rightarrow>
     (case fs_write (blob_tmp B tmp) bs f of Inl e \<Rightarrow> (Inl (VaultIo e), f)
      | Inr f \<Rightarrow>
     (case fs_rename (blob_tmp B tmp) path f of Inr f \<Rightarrow> (Inr (), f)
      | Inl e \<Rightarrow>
          (Inl (VaultIo e), case fs_remove_file (blob_tmp B tmp) f of Inl _ \<Rightarrow> f | Inr f \<Rightarrow> f))))"

definition local_attachment_hashes :: "att_lib \<Rightarrow> fs \<Rightarrow> vault_error + string list" where
  "local_attachment_hashes B f =
     (case fs_read_dir (al_base B) f of
        Inl e \<Rightarrow> if e = NotFound then Inr [] else Inl (VaultIo e)
      | Inr entries \<Rightarrow>
          Inr (filter is_content_hash_hex
            (map (\<lambda>e. name_stem (de_name e)) (filter (\<lambda>e. name_extension (de_name e) = Some ''blob'') entries))))"

definition referenced_attachment_hashes :: "'x vault_db \<Rightarrow> string list" where
  "referenced_attachment_hashes db = map hex_lower (remdups (map (\<lambda>(k, r). ar_content_hash r) (db_attachments db)))"

definition read_vault_blob :: "att_lib \<Rightarrow> string \<Rightarrow> fs \<Rightarrow> vault_error + bytes option" where
  "read_vault_blob B content_hash_hex f =
     bind_ok (content_hash_from_hex content_hash_hex) (\<lambda>hash.
     case fs_read (vault_blob_path B hash) f of
       Inr bs \<Rightarrow> Inr (Some bs)
     | Inl e \<Rightarrow> if e = NotFound then Inr None else Inl (VaultIo e))"

definition store_vault_blob :: "att_lib \<Rightarrow> id \<Rightarrow> string \<Rightarrow> bytes \<Rightarrow> fs \<Rightarrow> (vault_error + unit) \<times> fs" where
  "store_vault_blob B tmp content_hash_hex bs f =
     (case content_hash_from_hex content_hash_hex of Inl e \<Rightarrow> (Inl e, f)
      | Inr expected \<Rightarrow>
          if al_blake3 B bs \<noteq> expected
          then (Inl (VaultInvalid ''attachment blob content-hash mismatch (tampered or corrupt)''), f)
          else write_blob_atomic B tmp (vault_blob_path B expected) bs f)"

section \<open>Attachments of an item\<close>

definition open_filename :: "'x vault_env \<Rightarrow> bytes \<Rightarrow> id \<Rightarrow> bytes \<Rightarrow> vault_error + string" where
  "open_filename env ikey a filename_env =
     bind_ok (map_err from_crypto (bind_ok (envelope_from_bytes filename_env) (\<lambda>e.
       sym_open (ve_aead env) ikey e (aad_attachment_name (ve_vault_id env) a)))) (\<lambda>name.
     if utf8_valid name then Inr (bytes_str name) else Inl (VaultInvalid ''decrypted filename was not UTF-8''))"

definition read_attachment_row :: "'x vault_db \<Rightarrow> id \<Rightarrow> vault_error + (id \<times> att_row)" where
  "read_attachment_row db a =
     bind_ok (ok_or (NotFoundEntity ''attachment'') (bt_get (db_attachments db) (as_bytes a))) (\<lambda>r.
     bind_ok (id_from_slice (ar_item_id r)) (\<lambda>i. Inr (i, r)))"

definition content_hash_referenced :: "'x vault_db \<Rightarrow> bytes \<Rightarrow> bool" where
  "content_hash_referenced db content_hash \<longleftrightarrow> list_ex (\<lambda>(k, r). ar_content_hash r = content_hash) (db_attachments db)"

text \<open>What is sealed for a new attachment: the blob, its hash, and key and name for row and op.\<close>

record sealed_attachment =
  sa_blob :: bytes
  sa_content_hash :: bytes
  sa_wrapped_key :: bytes
  sa_wrapped_key_sync :: bytes
  sa_filename_env :: bytes
  sa_filename_env_sync :: bytes

definition seal_attachment ::
  "att_lib \<Rightarrow> 'x vault_env \<Rightarrow> id \<Rightarrow> bytes \<Rightarrow> bytes \<Rightarrow> string \<Rightarrow> bytes \<Rightarrow> vault_error + sealed_attachment" where
  "seal_attachment B env a att_key ikey filename data =
     map_err from_crypto
       (bind_ok (sym_seal (ve_aead env) att_key data (aad_attachment_blob (ve_vault_id env) a)) (\<lambda>blob.
        bind_ok (wrap_key (ve_aead env) ikey att_key (attachment_key_aad_str (ve_vault_id env) a)) (\<lambda>wrapped.
        bind_ok (wrap_key (ve_aead env) (ve_vault_key env) att_key
          (attachment_key_sync_aad_str (ve_vault_id env) a)) (\<lambda>wrapped_sync.
        bind_ok (sym_seal (ve_aead env) ikey (str_bytes filename) (aad_attachment_name (ve_vault_id env) a)) (\<lambda>name.
        bind_ok (sym_seal (ve_aead env) (ve_vault_key env) (str_bytes filename)
          (aad_attachment_name_sync (ve_vault_id env) a)) (\<lambda>name_sync.
        Inr \<lparr>sa_blob = envelope_to_bytes blob, sa_content_hash = al_blake3 B (envelope_to_bytes blob),
             sa_wrapped_key = envelope_to_bytes wrapped, sa_wrapped_key_sync = envelope_to_bytes wrapped_sync,
             sa_filename_env = envelope_to_bytes name, sa_filename_env_sync = envelope_to_bytes name_sync\<rparr>))))))"

definition prepare_attachment ::
  "att_lib \<Rightarrow> 'x vault_env \<Rightarrow> att_draws \<Rightarrow> id \<Rightarrow> string \<Rightarrow> bytes \<Rightarrow> 'x vault_db \<Rightarrow> vault_error + (int \<times> sealed_attachment)" where
  "prepare_attachment B env dw i filename data db =
     (if max_attachment_bytes < length data then Inl (VaultInvalid ''attachment exceeds the maximum size'')
      else
        bind_ok (db_current_version db i) (\<lambda>version.
        if is_tombstoned db i then Inl (VaultInvalid ''cannot attach to a deleted item'')
        else
          bind_ok (load_item_key env db i version) (\<lambda>ikey.
          bind_ok (seal_attachment B env (dw_attachment_id dw) (dw_key dw) ikey filename data) (\<lambda>sealed.
          Inr (version, sealed)))))"

text \<open>The row and the op, in one transaction.\<close>

definition insert_attachment ::
  "att_lib \<Rightarrow> ('k \<Rightarrow> bytes \<Rightarrow> bytes) \<Rightarrow> 'x vault_env \<Rightarrow> 'k session \<Rightarrow> att_draws \<Rightarrow> id \<Rightarrow> nat \<Rightarrow> int \<Rightarrow> sealed_attachment \<Rightarrow>
     'x vault_db \<Rightarrow> vault_error + 'x vault_db" where
  "insert_attachment B ed_sign env ses dw i sz version sealed db =
     (let a = dw_attachment_id dw; size_plain = min (int sz) i64_max in
      bind_ok (sql_insert ''attachments.attachment_id'' (as_bytes a)
        \<lparr>ar_item_id = as_bytes i, ar_version = version, ar_content_hash = sa_content_hash sealed,
         ar_size_plain = size_plain, ar_wrapped_key_env = sa_wrapped_key sealed,
         ar_filename_env = sa_filename_env sealed, ar_created_at = dw_now dw\<rparr> (db_attachments db)) (\<lambda>rows.
      bind_ok (map_err (\<lambda>_. VaultInvalid ''attach payload'') (al_add_to_vec B
        \<lparr>aa_attachment_id = id_hex a, aa_item_id = id_hex i, aa_version = version,
         aa_content_hash = hex_lower (sa_content_hash sealed), aa_size_plain = size_plain,
         aa_wrapped_key_env = hex_lower (sa_wrapped_key_sync sealed),
         aa_filename_env = hex_lower (sa_filename_env_sync sealed)\<rparr>)) (\<lambda>payload_json.
      author_op (al_blake3 B) ed_sign env ses (dw_op_id dw) (dw_op_now dw) AttachAdd (Some i) (u32_or_zero version)
        payload_json (db\<lparr>db_attachments := rows\<rparr>))))"

definition add_attachment ::
  "att_lib \<Rightarrow> ('k \<Rightarrow> bytes \<Rightarrow> bytes) \<Rightarrow> 'x vault_env \<Rightarrow> 'k session \<Rightarrow> att_draws \<Rightarrow> id \<Rightarrow> string \<Rightarrow> bytes \<Rightarrow> 'x home \<Rightarrow>
     (vault_error + id) \<times> 'x home" where
  "add_attachment B ed_sign env ses dw i filename data h =
     (case prepare_attachment B env dw i filename data (hm_db h) of Inl e \<Rightarrow> (Inl e, h)
      | Inr (version, sealed) \<Rightarrow>
          let path = vault_blob_path B (sa_content_hash sealed) in
          (case write_blob_atomic B (dw_tmp dw) path (sa_blob sealed) (hm_files h) of
             (Inl e, f) \<Rightarrow> (Inl e, h\<lparr>hm_files := f\<rparr>)
           | (Inr _, f) \<Rightarrow>
               (case insert_attachment B ed_sign env ses dw i (length data) version sealed (hm_db h) of
                  Inr db \<Rightarrow> (Inr (dw_attachment_id dw), \<lparr>hm_db = db, hm_files = f\<rparr>)
                | Inl e \<Rightarrow>
                    (Inl e, h\<lparr>hm_files :=
                       if content_hash_referenced (hm_db h) (sa_content_hash sealed) then f
                       else case fs_remove_file path f of Inl _ \<Rightarrow> f | Inr f \<Rightarrow> f\<rparr>))))"

definition list_attachments :: "'x vault_env \<Rightarrow> id \<Rightarrow> 'x vault_db \<Rightarrow> vault_error + attachment_info list" where
  "list_attachments env i db =
     map_ok (\<lambda>(k, r).
       bind_ok (id_from_slice k) (\<lambda>a.
       bind_ok (load_item_key env db i (ar_version r)) (\<lambda>ikey.
       bind_ok (open_filename env ikey a (ar_filename_env r)) (\<lambda>filename.
       Inr \<lparr>ai_attachment_id = a, ai_filename = filename, ai_size_plain = ar_size_plain r,
            ai_version = ar_version r, ai_created_at = ar_created_at r\<rparr>))))
     (sort_key (\<lambda>(k, r). ar_created_at r) (filter (\<lambda>(k, r). ar_item_id r = as_bytes i) (db_attachments db)))"

definition get_attachment :: "att_lib \<Rightarrow> 'x vault_env \<Rightarrow> id \<Rightarrow> 'x home \<Rightarrow> vault_error + (string \<times> bytes)" where
  "get_attachment B env a h =
     bind_ok (read_attachment_row (hm_db h) a) (\<lambda>(i, r).
     bind_ok (load_item_key env (hm_db h) i (ar_version r)) (\<lambda>ikey.
     bind_ok (open_filename env ikey a (ar_filename_env r)) (\<lambda>filename.
     bind_ok (map_err from_crypto (bind_ok (envelope_from_bytes (ar_wrapped_key_env r)) (\<lambda>wrapped.
       unwrap_key (ve_aead env) ikey wrapped (attachment_key_aad_str (ve_vault_id env) a)))) (\<lambda>att_key.
     bind_ok (content_hash_array (ar_content_hash r)) (\<lambda>hash.
     bind_ok (case fs_read (vault_blob_path B hash) (hm_files h) of
         Inr bs \<Rightarrow> Inr bs
       | Inl e \<Rightarrow> Inl (if e = NotFound then NotFoundEntity ''attachment blob'' else VaultIo e)) (\<lambda>blob_bytes.
     bind_ok (map_err from_crypto (bind_ok (envelope_from_bytes blob_bytes) (\<lambda>e.
       sym_open (ve_aead env) att_key e (aad_attachment_blob (ve_vault_id env) a)))) (\<lambda>plaintext.
     Inr (filename, plaintext))))))))"

text \<open>The committed part of a delete: the database, and whether a sibling row still names the blob.\<close>

definition delete_attachment_row ::
  "att_lib \<Rightarrow> ('k \<Rightarrow> bytes \<Rightarrow> bytes) \<Rightarrow> 'x vault_env \<Rightarrow> 'k session \<Rightarrow> id \<Rightarrow> int \<Rightarrow> id \<Rightarrow> 'x vault_db \<Rightarrow>
     vault_error + (bytes \<times> bool \<times> 'x vault_db)" where
  "delete_attachment_row B ed_sign env ses oid op_now a db =
     bind_ok (read_attachment_row db a) (\<lambda>(i, r).
     bind_ok (map_err (\<lambda>_. VaultInvalid ''attach payload'')
       (al_delete_to_vec B \<lparr>ad_attachment_id = id_hex a\<rparr>)) (\<lambda>payload_json.
     bind_ok (author_op (al_blake3 B) ed_sign env ses oid op_now AttachDelete (Some i) 0 payload_json
       (remove_attachment_row a db)) (\<lambda>db.
     Inr (ar_content_hash r, content_hash_referenced db (ar_content_hash r), db))))"

definition delete_attachment ::
  "att_lib \<Rightarrow> ('k \<Rightarrow> bytes \<Rightarrow> bytes) \<Rightarrow> 'x vault_env \<Rightarrow> 'k session \<Rightarrow> id \<Rightarrow> int \<Rightarrow> id \<Rightarrow> 'x home \<Rightarrow>
     (vault_error + unit) \<times> 'x home" where
  "delete_attachment B ed_sign env ses oid op_now a h =
     (case delete_attachment_row B ed_sign env ses oid op_now a (hm_db h) of Inl e \<Rightarrow> (Inl e, h)
      | Inr (content_hash, still_referenced, db) \<Rightarrow>
          if still_referenced then (Inr (), h\<lparr>hm_db := db\<rparr>)
          else
            (case content_hash_array content_hash of Inl e \<Rightarrow> (Inl e, h\<lparr>hm_db := db\<rparr>)
             | Inr hash \<Rightarrow>
                 (Inr (), \<lparr>hm_db = db, hm_files =
                    case fs_remove_file (vault_blob_path B hash) (hm_files h) of Inl _ \<Rightarrow> hm_files h | Inr f \<Rightarrow> f\<rparr>)))"

end
