(* ===== verification/AttachSpec.thy ===== *)
theory AttachSpec
  imports Attach Prune
begin

text \<open>
  What holds of attachments: an added one reads back, no call on another attachment or blob disturbs
  it, every blob in the directory hashes to its name; and what takes an item's keys away from it.
\<close>

section \<open>Files\<close>

lemma mkdir_fold_file: "bt_get (fold (mkdir_step p) ns f) q = Some (FsFile bs) \<longleftrightarrow> bt_get f q = Some (FsFile bs)"
  by (induction ns arbitrary: f) (auto simp: mkdir_step_def)

lemma create_dirs_files:
  assumes "fs_ok f" and "fs_create_dir_all p f = Inr g"
  shows "fs_ok g" and "fs_read q g = Inr bs \<longleftrightarrow> fs_read q f = Inr bs"
proof -
  note g = fs_create_dir_all_Inr [OF assms(2)]
  show ok: "fs_ok g" using mkdir_fold_ok [OF assms(1), of "length p" p] g by simp
  show "fs_read q g = Inr bs \<longleftrightarrow> fs_read q f = Inr bs"
    unfolding fs_read_ok [OF ok] fs_read_ok [OF assms(1)] by (simp only: g(1) mkdir_fold_file)
qed

lemma write_files:
  assumes "fs_ok f" and "fs_write p bs f = Inr g"
  shows "fs_ok g" and "fs_read q g = Inr x \<longleftrightarrow> (if q = p then x = bs else fs_read q f = Inr x)"
proof -
  show ok: "fs_ok g" by (rule fs_ok_write [OF assms])
  show "fs_read q g = Inr x \<longleftrightarrow> (if q = p then x = bs else fs_read q f = Inr x)"
    unfolding fs_read_ok [OF ok] fs_read_ok [OF assms(1)] using fs_write_Inr(1,2) [OF assms(2)] by auto
qed

lemma unlink_files:
  assumes "fs_ok f" and "fs_remove_file p f = Inr g"
  shows "fs_ok g" and "fs_read q g = Inr x \<longleftrightarrow> q \<noteq> p \<and> fs_read q f = Inr x"
proof -
  obtain bs where bs: "fs_read p f = Inr bs" and g: "g = fs_unlink p f"
    using assms(2) by (auto simp: fs_remove_file_def bind_ok_Inr_iff)
  show ok: "fs_ok g" unfolding g by (rule fs_ok_unlink_file [OF assms(1) bs])
  show "fs_read q g = Inr x \<longleftrightarrow> q \<noteq> p \<and> fs_read q f = Inr x"
    unfolding fs_read_ok [OF ok] fs_read_ok [OF assms(1)] by (auto simp: g bt_get_unlink)
qed

lemma rename_files:
  assumes "fs_ok f" and "fs_rename a b f = Inr g" and "a \<noteq> b"
  shows "fs_ok g" and "\<exists>bs. fs_read a f = Inr bs \<and>
    (\<forall>q x. fs_read q g = Inr x \<longleftrightarrow> q \<noteq> a \<and> (if q = b then x = bs else fs_read q f = Inr x))"
proof -
  obtain bs f2 where bs: "fs_read a f = Inr bs" and w: "fs_write b bs f = Inr f2" and g: "g = fs_unlink a f2"
    using fs_rename_Inr [OF assms(2)] assms(3) by auto
  note w2 = write_files [OF assms(1) w]
  have "fs_read a f2 = Inr bs" using w2(2) [of a bs] bs assms(3) by simp
  then have rm: "fs_remove_file a f2 = Inr g" by (simp add: fs_remove_file_def g)
  show "fs_ok g" by (rule unlink_files(1) [OF w2(1) rm])
  from bs show "\<exists>bs. fs_read a f = Inr bs \<and>
    (\<forall>q x. fs_read q g = Inr x \<longleftrightarrow> q \<noteq> a \<and> (if q = b then x = bs else fs_read q f = Inr x))"
    by (auto simp: unlink_files(2) [OF w2(1) rm] w2(2))
qed

section \<open>The blob store\<close>

lemma blob_name_inject [simp]: "vault_blob_path B h = vault_blob_path B h' \<longleftrightarrow> h = h'"
  by (simp add: vault_blob_path_def hex_lower_def)

lemma blob_path_not_tmp [simp]: "vault_blob_path B h \<noteq> blob_tmp B tmp" "blob_tmp B tmp \<noteq> vault_blob_path B h"
proof -
  have "hex_encode h @ ''.blob'' \<noteq> ''.tmp-'' @ s" for s
  proof (cases "hex_encode h")
    case (Cons c cs)
    then have "c \<in> set ''0123456789abcdef''" using hex_encode_set [of h] by auto
    then show ?thesis using Cons by auto
  qed simp
  then show "vault_blob_path B h \<noteq> blob_tmp B tmp" by (simp add: vault_blob_path_def blob_tmp_def hex_lower_def)
  then show "blob_tmp B tmp \<noteq> vault_blob_path B h" by simp
qed

text \<open>A write of a blob touches its path only; it is there afterwards if the write reports success.\<close>

lemma write_blob_files:
  assumes "fs_ok f" and "write_blob_atomic B tmp (vault_blob_path B h) bs f = (r, g)"
  shows "fs_ok g" and "r = Inr () \<Longrightarrow> fs_read (vault_blob_path B h) g = Inr bs"
    and "k \<noteq> h \<Longrightarrow> fs_read (vault_blob_path B k) g = Inr x \<longleftrightarrow> fs_read (vault_blob_path B k) f = Inr x"
    and "fs_read (vault_blob_path B h) g = Inr x \<Longrightarrow> x = bs \<or> fs_read (vault_blob_path B h) f = Inr x"
    and "fs_read (vault_blob_path B h) f = Inr x \<Longrightarrow> \<exists>y. fs_read (vault_blob_path B h) g = Inr y"
    and "fs_read q g = Inr x \<Longrightarrow> x = bs \<or> fs_read q f = Inr x"
proof -
  let ?tmp = "blob_tmp B tmp" and ?p = "vault_blob_path B h"
  have "fs_ok g \<and> (r = Inr () \<longrightarrow> fs_read ?p g = Inr bs) \<and>
    (\<forall>q x. q \<noteq> ?p \<longrightarrow> q \<noteq> ?tmp \<longrightarrow> fs_read q g = Inr x \<longleftrightarrow> fs_read q f = Inr x) \<and>
    (\<forall>q x. fs_read q g = Inr x \<longrightarrow> x = bs \<or> fs_read q f = Inr x) \<and>
    (\<forall>x. fs_read ?p f = Inr x \<longrightarrow> (\<exists>y. fs_read ?p g = Inr y))"
  proof (cases "fs_create_dir_all (al_base B) f")
    case (Inl e)
    then show ?thesis using assms by (auto simp: write_blob_atomic_def)
  next
    case f1: (Inr f1)
    note d = create_dirs_files [OF assms(1) f1]
    show ?thesis
    proof (cases "fs_write ?tmp bs f1")
      case (Inl e)
      then show ?thesis using assms(2) f1 d by (auto simp: write_blob_atomic_def)
    next
      case f2: (Inr f2)
      note w = write_files [OF d(1) f2]
      have tmp: "fs_read ?tmp f2 = Inr bs" by (simp add: w(2))
      show ?thesis
      proof (cases "fs_rename ?tmp ?p f2")
        case f3: (Inr f3)
        have g: "r = Inr ()" "g = f3" using assms(2) f1 f2 f3 by (simp_all add: write_blob_atomic_def)
        have "?tmp \<noteq> ?p" by simp
        from rename_files [OF w(1) f3 this] tmp have ok: "fs_ok f3"
          and rd: "\<And>q x. fs_read q f3 = Inr x \<longleftrightarrow> q \<noteq> ?tmp \<and> (if q = ?p then x = bs else fs_read q f2 = Inr x)"
          by auto
        show ?thesis unfolding g using ok by (auto simp: rd w(2) d(2))
      next
        case (Inl e)
        have "fs_remove_file ?tmp f2 = Inr (fs_unlink ?tmp f2)" by (simp add: fs_remove_file_def tmp)
        then have g: "\<exists>e. r = Inl e" "fs_remove_file ?tmp f2 = Inr g"
          using assms(2) f1 f2 Inl by (auto simp: write_blob_atomic_def)
        show ?thesis using g(1) unlink_files(1) [OF w(1) g(2)] by (auto simp: unlink_files(2) [OF w(1) g(2)] w(2) d(2))
      qed
    qed
  qed
  then show "fs_ok g" "r = Inr () \<Longrightarrow> fs_read ?p g = Inr bs"
    "k \<noteq> h \<Longrightarrow> fs_read (vault_blob_path B k) g = Inr x \<longleftrightarrow> fs_read (vault_blob_path B k) f = Inr x"
    "fs_read ?p g = Inr x \<Longrightarrow> x = bs \<or> fs_read ?p f = Inr x"
    "fs_read ?p f = Inr x \<Longrightarrow> \<exists>y. fs_read ?p g = Inr y"
    "fs_read q g = Inr x \<Longrightarrow> x = bs \<or> fs_read q f = Inr x"
    by simp_all
qed

text \<open>Every blob hashes to its name.\<close>

definition blobs_ok :: "att_lib \<Rightarrow> fs \<Rightarrow> bool" where
  "blobs_ok B f \<longleftrightarrow> fs_ok f \<and> (\<forall>h bs. fs_read (vault_blob_path B h) f = Inr bs \<longrightarrow> al_blake3 B bs = h)"

lemma blobs_ok_write:
  assumes "blobs_ok B f" and "write_blob_atomic B tmp (vault_blob_path B (al_blake3 B bs)) bs f = (r, g)"
  shows "blobs_ok B g"
proof -
  have ok: "fs_ok f" using assms(1) by (simp add: blobs_ok_def)
  note w = write_blob_files [OF ok assms(2)]
  have "al_blake3 B x = h" if "fs_read (vault_blob_path B h) g = Inr x" for h x
    using that assms(1) w(3) [of h x] w(4) [of x] by (cases "h = al_blake3 B bs") (auto simp: blobs_ok_def)
  with w(1) show ?thesis by (simp add: blobs_ok_def)
qed

lemma blobs_ok_remove: "blobs_ok B f \<Longrightarrow> fs_remove_file p f = Inr g \<Longrightarrow> blobs_ok B g"
  by (auto simp: blobs_ok_def unlink_files)

lemma hex_hash:
  assumes "content_hash_from_hex hex = Inr hash"
  shows "length hash = 32"
proof -
  have "length (unhex bs) = length bs div 2" for bs by (induction bs rule: unhex.induct) simp_all
  then show ?thesis using assms by (auto simp: content_hash_from_hex_def is_content_hash_hex_def split: if_splits)
qed

lemma store_blob_cases:
  assumes "store_vault_blob B tmp hex bs f = (r, g)"
  shows "g = f \<and> (\<exists>e. r = Inl (VaultInvalid e)) \<or>
    content_hash_from_hex hex = Inr (al_blake3 B bs) \<and> write_blob_atomic B tmp (vault_blob_path B (al_blake3 B bs)) bs f = (r, g)"
  using assms by (auto simp: store_vault_blob_def content_hash_from_hex_def split: if_splits sum.splits)

lemma blobs_ok_store: "blobs_ok B f \<Longrightarrow> store_vault_blob B tmp hex bs f = (r, g) \<Longrightarrow> blobs_ok B g"
  using store_blob_cases blobs_ok_write by blast


section \<open>Attachments\<close>

lemma author_op_appends:
  assumes "author_op H ed_sign env ses oid now kind target tv pt db = Inr db'"
  shows "\<exists>row. db' = db\<lparr>db_ops := db_ops db @ [row]\<rparr> \<and> r_op_id row = as_bytes oid \<and>
    r_op_kind row = uint (op_kind_code kind) \<and> r_target_item_id row = map_option as_bytes target"
  using assms by (auto simp: author_op_def bind_ok_Inr_iff split: if_splits)

lemma read_attachment_row_Inr:
  "read_attachment_row db a = Inr (i, r) \<longleftrightarrow>
     bt_get (db_attachments db) (as_bytes a) = Some r \<and> id_from_slice (ar_item_id r) = Inr i"
  by (auto simp: read_attachment_row_def bind_ok_Inr_iff ok_or_def split: option.splits)

lemma load_item_key_cong: "db_wrapped_keys db' = db_wrapped_keys db \<Longrightarrow> load_item_key env db' i v = load_item_key env db i v"
  by (simp add: load_item_key_def)

lemma get_attachment_Inr:
  "get_attachment B env a h = Inr (name, data) \<longleftrightarrow>
     (\<exists>i r ikey akey bs. bt_get (db_attachments (hm_db h)) (as_bytes a) = Some r \<and> id_from_slice (ar_item_id r) = Inr i \<and>
        load_item_key env (hm_db h) i (ar_version r) = Inr ikey \<and> open_filename env ikey a (ar_filename_env r) = Inr name \<and>
        bind_ok (envelope_from_bytes (ar_wrapped_key_env r)) (\<lambda>wrapped.
          unwrap_key (ve_aead env) ikey wrapped (attachment_key_aad_str (ve_vault_id env) a)) = Inr akey \<and>
        length (ar_content_hash r) = 32 \<and> fs_read (vault_blob_path B (ar_content_hash r)) (hm_files h) = Inr bs \<and>
        bind_ok (envelope_from_bytes bs) (\<lambda>e. sym_open (ve_aead env) akey e (aad_attachment_blob (ve_vault_id env) a)) = Inr data)"
proof -
  have read: "(case fs_read p f of Inl e \<Rightarrow> Inl (g e) | Inr bs \<Rightarrow> Inr bs) = Inr bs \<longleftrightarrow> fs_read p f = Inr bs" for p f bs and g :: "io_kind \<Rightarrow> vault_error"
    by (simp split: sum.split)
  have hash: "content_hash_array bs = Inr hash \<longleftrightarrow> length bs = 32 \<and> hash = bs" for bs hash
    by (auto simp: content_hash_array_def)
  show ?thesis
    unfolding get_attachment_def bind_ok_Inr_iff [of "read_attachment_row (hm_db h) a"] split_paired_Ex prod.case
      read_attachment_row_Inr bind_ok_Inr_iff [of "load_item_key env (hm_db h) i v" for i v] bind_ok_Inr_iff [of "open_filename env k a e" for k e]
      bind_ok_Inr_iff [of "map_err from_crypto m" for m] bind_ok_Inr_iff [of "content_hash_array bs" for bs]
      bind_ok_Inr_iff [of "case_sum f g (fs_read p fs)" for f g p fs] read hash map_err_Inr_iff
    by auto
qed

lemma get_attachment_frame:
  assumes "get_attachment B env b h = Inr x"
    and "bt_get (db_attachments (hm_db h')) (as_bytes b) = bt_get (db_attachments (hm_db h)) (as_bytes b)"
    and "db_wrapped_keys (hm_db h') = db_wrapped_keys (hm_db h)"
    and "\<And>r bs. bt_get (db_attachments (hm_db h)) (as_bytes b) = Some r \<Longrightarrow>
      fs_read (vault_blob_path B (ar_content_hash r)) (hm_files h) = Inr bs \<Longrightarrow>
      fs_read (vault_blob_path B (ar_content_hash r)) (hm_files h') = Inr bs"
  shows "get_attachment B env b h' = Inr x"
proof (cases x)
  case (Pair name data)
  show ?thesis using assms(1,4) unfolding Pair get_attachment_Inr assms(2) load_item_key_cong [OF assms(3)] by blast
qed

text \<open>One call: an add, a delete of the named attachment, or the fetch of a blob; it may fail.\<close>

inductive att_step ::
  "att_lib \<Rightarrow> ('k \<Rightarrow> bytes \<Rightarrow> bytes) \<Rightarrow> 'x vault_env \<Rightarrow> 'k session \<Rightarrow> id option \<Rightarrow> 'x home \<Rightarrow> 'x home \<Rightarrow> bool"
  for B :: att_lib and ed_sign :: "'k \<Rightarrow> bytes \<Rightarrow> bytes" and env :: "'x vault_env" and ses :: "'k session" where
  step_att_add: "att_step B ed_sign env ses None h h'"
    if "add_attachment B ed_sign env ses dw i filename data h = (r, h')"
| step_att_delete: "att_step B ed_sign env ses (Some a) h h'"
    if "delete_attachment B ed_sign env ses oid op_now a h = (r, h')"
| step_att_fetch: "att_step B ed_sign env ses None h (h\<lparr>hm_files := f\<rparr>)"
    if "store_vault_blob B tmp hex bs (hm_files h) = (r, f)"

definition contents :: "fs \<Rightarrow> bytes set" where
  "contents f = {bs. \<exists>p. fs_read p f = Inr bs}"

lemma contentsI: "fs_read p f = Inr bs \<Longrightarrow> bs \<in> contents f"
  by (auto simp: contents_def)

text \<open>A blob in the directory is the only content of its name, short of a collision.\<close>

lemma write_blob_keeps:
  assumes "blobs_ok B f" and "write_blob_atomic B tmp (vault_blob_path B (al_blake3 B bs)) bs f = (r, g)"
    and "inj_on (al_blake3 B) (contents f \<union> contents g)" and "fs_read (vault_blob_path B h) f = Inr x"
  shows "fs_read (vault_blob_path B h) g = Inr x"
proof -
  have ok: "fs_ok f" using assms(1) by (simp add: blobs_ok_def)
  note w = write_blob_files [OF ok assms(2)]
  show ?thesis
  proof (cases "h = al_blake3 B bs")
    case True
    then obtain y where y: "fs_read (vault_blob_path B h) g = Inr y" using w(5) assms(4) by blast
    have "al_blake3 B y = al_blake3 B x"
      using blobs_ok_write [OF assms(1,2)] assms(1,4) y by (auto simp: blobs_ok_def)
    then have "y = x" using assms(3,4) y by (auto simp: inj_on_def dest!: contentsI)
    with y show ?thesis by simp
  qed (use w(3) assms(4) in blast)
qed

lemma prepared_hash:
  assumes "prepare_attachment B env dw i filename data db = Inr (version, sealed)"
  shows "sa_content_hash sealed = al_blake3 B (sa_blob sealed)"
  using assms by (auto simp: prepare_attachment_def seal_attachment_def bind_ok_Inr_iff map_err_Inr_iff split: if_splits)

lemma insert_attachment_Inr:
  assumes "insert_attachment B ed_sign env ses dw i sz version sealed db = Inr db'"
  shows "\<exists>row. r_op_kind row = uint (op_kind_code AttachAdd) \<and> r_target_item_id row = Some (as_bytes i) \<and>
     db' = db\<lparr>db_ops := db_ops db @ [row], db_attachments := bt_insert (as_bytes (dw_attachment_id dw))
       \<lparr>ar_item_id = as_bytes i, ar_version = version, ar_content_hash = sa_content_hash sealed,
        ar_size_plain = min (int sz) i64_max, ar_wrapped_key_env = sa_wrapped_key sealed,
        ar_filename_env = sa_filename_env sealed, ar_created_at = dw_now dw\<rparr> (db_attachments db)\<rparr>"
    and "bt_get (db_attachments db) (as_bytes (dw_attachment_id dw)) = None"
  using assms by (auto simp: insert_attachment_def Let_def bind_ok_Inr_iff sql_insert_Inr dest!: author_op_appends)

lemma referenced_row:
  "bt_get (db_attachments db) k = Some r \<Longrightarrow> content_hash_referenced db (ar_content_hash r)"
  by (auto simp: content_hash_referenced_def list_ex_iff dest: map_of_SomeD)

lemma remove_keeps:
  assumes "fs_ok f" and "p \<noteq> q" and "fs_read q f = Inr x"
  shows "fs_read q (case fs_remove_file p f of Inl _ \<Rightarrow> f | Inr f \<Rightarrow> f) = Inr x"
  using assms unlink_files(2) [OF assms(1)] by (auto split: sum.split)


lemma add_attachment_cases:
  assumes "add_attachment B ed_sign env ses dw i filename data h = (r, h')"
  obtains (refused) e where "r = Inl e" "h' = h"
  | (unwritten) version sealed e f where "prepare_attachment B env dw i filename data (hm_db h) = Inr (version, sealed)"
      "write_blob_atomic B (dw_tmp dw) (vault_blob_path B (al_blake3 B (sa_blob sealed))) (sa_blob sealed) (hm_files h) = (Inl e, f)"
      "h' = h\<lparr>hm_files := f\<rparr>" "r = Inl e"
  | (rolled_back) version sealed e f where "prepare_attachment B env dw i filename data (hm_db h) = Inr (version, sealed)"
      "write_blob_atomic B (dw_tmp dw) (vault_blob_path B (al_blake3 B (sa_blob sealed))) (sa_blob sealed) (hm_files h) = (Inr (), f)"
      "r = Inl e" "h' = h\<lparr>hm_files := if content_hash_referenced (hm_db h) (al_blake3 B (sa_blob sealed)) then f
         else case fs_remove_file (vault_blob_path B (al_blake3 B (sa_blob sealed))) f of Inl _ \<Rightarrow> f | Inr f \<Rightarrow> f\<rparr>"
  | (added) version sealed f db where "prepare_attachment B env dw i filename data (hm_db h) = Inr (version, sealed)"
      "write_blob_atomic B (dw_tmp dw) (vault_blob_path B (al_blake3 B (sa_blob sealed))) (sa_blob sealed) (hm_files h) = (Inr (), f)"
      "insert_attachment B ed_sign env ses dw i (length data) version sealed (hm_db h) = Inr db"
      "r = Inr (dw_attachment_id dw)" "h' = \<lparr>hm_db = db, hm_files = f\<rparr>"
proof (cases "prepare_attachment B env dw i filename data (hm_db h)")
  case (Inr p)
  then obtain version sealed where p: "prepare_attachment B env dw i filename data (hm_db h) = Inr (version, sealed)"
    by (cases p) simp
  note h = prepared_hash [OF p]
  obtain w f where w: "write_blob_atomic B (dw_tmp dw) (vault_blob_path B (al_blake3 B (sa_blob sealed))) (sa_blob sealed) (hm_files h) = (w, f)"
    by fastforce
  show ?thesis
  proof (cases w)
    case (Inl e)
    with assms p w h show ?thesis by (intro unwritten) (auto simp: add_attachment_def Let_def)
  next
    case ok: (Inr u)
    show ?thesis
    proof (cases "insert_attachment B ed_sign env ses dw i (length data) version sealed (hm_db h)")
      case (Inl e)
      with assms p w ok h show ?thesis by (intro rolled_back) (auto simp: add_attachment_def Let_def)
    next
      case (Inr db)
      with assms p w ok h show ?thesis by (intro added) (auto simp: add_attachment_def Let_def)
    qed
  qed
next
  case (Inl e)
  show ?thesis by (rule refused [of e]) (use assms Inl in \<open>simp_all add: add_attachment_def\<close>)
qed

lemma add_keeps:
  assumes "blobs_ok B (hm_files h)" and "add_attachment B ed_sign env ses dw i filename data h = (r, h')"
    and "inj_on (al_blake3 B) (contents (hm_files h) \<union> contents (hm_files h'))"
  shows "blobs_ok B (hm_files h')" and "get_attachment B env b h = Inr x \<Longrightarrow> get_attachment B env b h' = Inr x"
proof -
  from assms(2) show "blobs_ok B (hm_files h')"
    by (cases rule: add_attachment_cases)
      (auto intro: assms(1) blobs_ok_write [OF assms(1)] blobs_ok_remove split: sum.split)
  show "get_attachment B env b h' = Inr x" if get: "get_attachment B env b h = Inr x"
    using assms(2)
  proof (cases rule: add_attachment_cases)
    case (unwritten version sealed e f)
    show ?thesis
      by (rule get_attachment_frame [OF get])
        (use write_blob_keeps [OF assms(1) unwritten(2)] assms(3) in \<open>auto simp: unwritten(3)\<close>)
  next
    case (rolled_back version sealed e f)
    let ?hash = "al_blake3 B (sa_blob sealed)"
    note w = write_blob_files [OF _ rolled_back(2)]
    have ok: "fs_ok (hm_files h)" and okf: "blobs_ok B f"
      using assms(1) blobs_ok_write [OF assms(1) rolled_back(2)] by (simp_all add: blobs_ok_def)
    show ?thesis
    proof (cases "content_hash_referenced (hm_db h) ?hash")
      case True
      then have h': "h' = h\<lparr>hm_files := f\<rparr>" using rolled_back by simp
      show ?thesis
        by (rule get_attachment_frame [OF get]) (use write_blob_keeps [OF assms(1) rolled_back(2)] assms(3) in \<open>auto simp: h'\<close>)
    next
      case False
      show ?thesis
      proof (rule get_attachment_frame [OF get])
        fix q bs assume q: "bt_get (db_attachments (hm_db h)) (as_bytes b) = Some q"
          "fs_read (vault_blob_path B (ar_content_hash q)) (hm_files h) = Inr bs"
        have ne: "ar_content_hash q \<noteq> ?hash" using referenced_row [OF q(1)] False by auto
        have "fs_read (vault_blob_path B (ar_content_hash q)) f = Inr bs" using w(3) [OF ok ne] q(2) by blast
        from remove_keeps [OF _ _ this, of "vault_blob_path B ?hash"] okf ne
        show "fs_read (vault_blob_path B (ar_content_hash q)) (hm_files h') = Inr bs"
          using False by (simp add: rolled_back(4) blobs_ok_def)
      qed (simp_all add: rolled_back(4))
    qed
  next
    case (added version sealed f db)
    note ins = insert_attachment_Inr [OF added(3)]
    obtain name data' where "x = (name, data')" by (cases x)
    with get obtain q where q: "bt_get (db_attachments (hm_db h)) (as_bytes b) = Some q"
      by (auto simp: get_attachment_Inr)
    with ins(2) have "as_bytes b \<noteq> as_bytes (dw_attachment_id dw)" by auto
    with ins(1) have "bt_get (db_attachments db) (as_bytes b) = bt_get (db_attachments (hm_db h)) (as_bytes b)"
      "db_wrapped_keys db = db_wrapped_keys (hm_db h)" by auto
    then show ?thesis
      by (intro get_attachment_frame [OF get])
        (use write_blob_keeps [OF assms(1) added(2)] assms(3) in \<open>auto simp: added(5)\<close>)
  qed (use get in simp)
qed

lemma delete_row_Inr:
  assumes "delete_attachment_row B ed_sign env ses oid op_now a db = Inr (ch, still, db')"
  shows "\<exists>row. db' = db\<lparr>db_attachments := bt_delete_where (\<lambda>k. k = as_bytes a) (db_attachments db),
      db_ops := db_ops db @ [row]\<rparr>"
    and "still \<longleftrightarrow> content_hash_referenced db' ch"
  using assms
  by (auto simp: delete_attachment_row_def bind_ok_Inr_iff remove_attachment_row_def dest!: author_op_appends)

lemma delete_attachment_cases:
  assumes "delete_attachment B ed_sign env ses oid op_now a h = (r, h')"
  obtains (refused) e where "r = Inl e" "h' = h"
  | (row_only) ch still db where "delete_attachment_row B ed_sign env ses oid op_now a (hm_db h) = Inr (ch, still, db)"
      "h' = h\<lparr>hm_db := db\<rparr>"
  | (unlinked) ch db where "delete_attachment_row B ed_sign env ses oid op_now a (hm_db h) = Inr (ch, False, db)"
      "h' = \<lparr>hm_db = db, hm_files =
         case fs_remove_file (vault_blob_path B ch) (hm_files h) of Inl _ \<Rightarrow> hm_files h | Inr f \<Rightarrow> f\<rparr>"
proof (cases "delete_attachment_row B ed_sign env ses oid op_now a (hm_db h)")
  case (Inr p)
  obtain ch still db where p: "p = (ch, still, db)" by (cases p)
  show ?thesis
  proof (cases "still \<or> length ch \<noteq> 32")
    case True
    then show ?thesis using assms Inr p
      by (intro row_only [of ch still db]) (auto simp: delete_attachment_def content_hash_array_def split: if_splits)
  next
    case False
    then show ?thesis using assms Inr p
      by (intro unlinked [of ch db]) (auto simp: delete_attachment_def content_hash_array_def)
  qed
next
  case (Inl e)
  show ?thesis by (rule refused [of e]) (use assms Inl in \<open>simp_all add: delete_attachment_def\<close>)
qed

lemma delete_keeps:
  assumes "blobs_ok B (hm_files h)" and "delete_attachment B ed_sign env ses oid op_now a h = (r, h')"
  shows "blobs_ok B (hm_files h')"
    and "b \<noteq> a \<Longrightarrow> get_attachment B env b h = Inr x \<Longrightarrow> get_attachment B env b h' = Inr x"
proof -
  from assms(2) show "blobs_ok B (hm_files h')"
    by (cases rule: delete_attachment_cases) (auto intro: assms(1) blobs_ok_remove [OF assms(1)] split: sum.split)
  assume b: "b \<noteq> a" and get: "get_attachment B env b h = Inr x"
  have same: "bt_get (db_attachments db) (as_bytes b) = bt_get (db_attachments (hm_db h)) (as_bytes b)"
      "db_wrapped_keys db = db_wrapped_keys (hm_db h)"
    if "delete_attachment_row B ed_sign env ses oid op_now a (hm_db h) = Inr (ch, still, db)" for ch still db
    using delete_row_Inr(1) [OF that] b by (auto simp: bt_get_delete_where id_eq_iff)
  from assms(2) show "get_attachment B env b h' = Inr x"
  proof (cases rule: delete_attachment_cases)
    case (row_only ch still db)
    show ?thesis by (rule get_attachment_frame [OF get]) (use same [OF row_only(1)] in \<open>simp_all add: row_only(2)\<close>)
  next
    case (unlinked ch db)
    show ?thesis
    proof (rule get_attachment_frame [OF get])
      fix q bs assume q: "bt_get (db_attachments (hm_db h)) (as_bytes b) = Some q"
        "fs_read (vault_blob_path B (ar_content_hash q)) (hm_files h) = Inr bs"
      then have "content_hash_referenced db (ar_content_hash q)"
        using same(1) [OF unlinked(1)] referenced_row [of db "as_bytes b" q] by simp
      then have "ar_content_hash q \<noteq> ch" using delete_row_Inr(2) [OF unlinked(1)] by auto
      with remove_keeps [OF _ _ q(2), of "vault_blob_path B ch"] assms(1)
      show "fs_read (vault_blob_path B (ar_content_hash q)) (hm_files h') = Inr bs"
        by (simp add: unlinked(2) blobs_ok_def)
    qed (use same [OF unlinked(1)] in \<open>simp_all add: unlinked(2)\<close>)
  qed (use get in simp)
qed

lemma fetch_keeps:
  assumes "blobs_ok B (hm_files h)" and "store_vault_blob B tmp hex bs (hm_files h) = (r, f)"
    and "inj_on (al_blake3 B) (contents (hm_files h) \<union> contents f)" and "get_attachment B env b h = Inr x"
  shows "get_attachment B env b (h\<lparr>hm_files := f\<rparr>) = Inr x"
  using store_blob_cases [OF assms(2)] write_blob_keeps [OF assms(1) _ assms(3)]
  by (intro get_attachment_frame [OF assms(4)]) auto

section \<open>Item keys\<close>

text \<open>Every stored key of the item is one that \<open>seal_version\<close> drew in this environment.\<close>

definition fresh_keys :: "'x vault_env \<Rightarrow> id \<Rightarrow> 'x vault_db \<Rightarrow> bool" where
  "fresh_keys env i db \<longleftrightarrow> (\<forall>n w. bt_get (db_wrapped_keys db) (as_bytes i, n) = Some w \<longrightarrow>
     (\<exists>pt p. seal_version env i n pt = Inr (p, w)))"

lemma unwrap_fresh:
  assumes "vault_env_ok env" and "seal_version env i n pt = Inr (p, w)"
  shows "unwrap_item_key env i n w = Inr (ve_fresh_item_key env i n)"
proof -
  have A: "aead_ok (ve_aead env)" and k: "length (ve_fresh_item_key env i n) = SYMMETRIC_KEY_LEN"
    using assms(1) by (simp_all add: vault_env_ok_def)
  from assms(2) obtain we where "w = envelope_to_bytes we" and
    we: "wrap_key (ve_aead env) (ve_vault_key env) (ve_fresh_item_key env i n) (item_key_aad_str (ve_vault_id env) i n) = Inr we"
    by (auto simp: seal_version_def Let_def bind_ok_Inr_iff map_err_Inr_iff)
  then show ?thesis using wrap_unwrap [OF A we k] by (simp add: unwrap_item_key_def)
qed

lemma load_fresh:
  assumes "vault_env_ok env" and "fresh_keys env i db" and "load_item_key env db i n = Inr k"
  shows "k = ve_fresh_item_key env i n"
  using assms unwrap_fresh [OF assms(1)]
  by (fastforce simp: load_item_key_def fresh_keys_def bind_ok_Inr_iff ok_or_def split: option.splits)

lemma fresh_insert:
  assumes "insert_version env sd j ver db = Inr db'"
  shows "fresh_keys env i db \<Longrightarrow> fresh_keys env i db'" and "db_attachments db' = db_attachments db"
proof -
  from assms obtain pt p w where s: "seal_version env j (vm_version ver) pt = Inr (p, w)"
    and k: "db_wrapped_keys db' = bt_insert (as_bytes j, vm_version ver) w (db_wrapped_keys db)"
    and "db_attachments db' = db_attachments db"
    by (auto simp: insert_version_def bind_ok_Inr_iff sql_insert_Inr)
  then show "db_attachments db' = db_attachments db" by simp
  show "fresh_keys env i db'" if "fresh_keys env i db"
    using that s by (auto simp: fresh_keys_def k id_eq_iff [symmetric])
qed

lemma fresh_inserts:
  assumes "fold_ok (insert_version env sd j) vers db = Inr db'"
  shows "fresh_keys env i db \<Longrightarrow> fresh_keys env i db'" and "db_attachments db' = db_attachments db"
proof -
  show "fresh_keys env i db'" if "fresh_keys env i db"
    using fold_ok_invariant [OF assms, where P = "fresh_keys env i", OF that] fresh_insert(1) by blast
  show "db_attachments db' = db_attachments db"
    by (rule fold_ok_invariant [OF assms, where P = "\<lambda>d. db_attachments d = db_attachments db"]) (auto dest: fresh_insert(2))
qed

lemma fresh_materialized:
  assumes "db_materialize_item env sd it db = Inr db'"
  shows "i = im_item_id it \<or> fresh_keys env i db \<Longrightarrow> fresh_keys env i db'" and "db_attachments db' = db_attachments db"
proof -
  from assms obtain db1 where v: "fold_ok (insert_version env sd (im_item_id it)) (im_versions it)
      (clear_versions (as_bytes (im_item_id it)) db) = Inr db1"
    and same: "db_wrapped_keys db' = db_wrapped_keys db1" "db_attachments db' = db_attachments db1"
    by (auto simp: db_materialize_item_def write_tombstone_def index_apply_foreign_def bind_ok_Inr_iff Let_def split: option.splits)
  show "db_attachments db' = db_attachments db" using fresh_inserts(2) [OF v] same(2) by (simp add: clear_versions_def)
  assume "i = im_item_id it \<or> fresh_keys env i db"
  then have "fresh_keys env i (clear_versions (as_bytes (im_item_id it)) db)"
    by (auto simp: fresh_keys_def clear_versions_def bt_get_delete_where)
  from fresh_inserts(1) [OF v this] show "fresh_keys env i db'" by (simp add: fresh_keys_def same(1))
qed

lemma fresh_materialized_items:
  assumes "fold_ok (db_materialize_item env sd) its db = Inr db'"
  shows "(\<exists>it\<in>set its. i = im_item_id it) \<or> fresh_keys env i db \<Longrightarrow> fresh_keys env i db'"
    and "db_attachments db' = db_attachments db"
  using assms
proof (induction its arbitrary: db)
  case (Cons it its)
  { case 1
    then obtain db1 where "db_materialize_item env sd it db = Inr db1" "fold_ok (db_materialize_item env sd) its db1 = Inr db'"
      by (auto simp: bind_ok_Inr_iff)
    then show ?case using 1(1) Cons.IH(1) [of db1] fresh_materialized(1) [of env sd it db db1 i] by auto
  next
    case 2
    then show ?case using Cons.IH(2) by (auto simp: bind_ok_Inr_iff dest!: fresh_materialized(2)) }
qed simp_all

lemma materialize_attachment_keeps:
  assumes "materialize_attachment env att db = Inr db'"
  shows "db_wrapped_keys db' = db_wrapped_keys db" and "bt_get (db_attachments db) k = Some r \<Longrightarrow> bt_get (db_attachments db') k = Some r"
  using assms by (auto simp: materialize_attachment_def bind_ok_Inr_iff sql_insert_Inr split: if_splits prod.splits)

lemma removed_attachments:
  "bt_get (db_attachments (fold remove_attachment_row as db)) k =
     (if k \<in> as_bytes ` set as then None else bt_get (db_attachments db) k)"
  "db_wrapped_keys (fold remove_attachment_row as db) = db_wrapped_keys db"
  by (induction "as" arbitrary: db) (auto simp: remove_attachment_row_def bt_get_delete_where)

text \<open>A batch keeps the row of an attachment and redraws the keys of every item it rewrites.\<close>

lemma foreign_redraws:
  assumes "apply_foreign_ops env sd mat db = Inr db'" and "it \<in> set (mat_items mat)"
    and "bt_get (db_attachments db) (as_bytes a) = Some r" and "a \<notin> set (mat_attachment_tombstones mat)"
  shows "fresh_keys env (im_item_id it) db'" and "bt_get (db_attachments db') (as_bytes a) = Some r"
proof -
  let ?T = "set (bs_of_list (map as_bytes (mat_attachment_tombstones mat)))"
  obtain rows db1 where items: "fold_ok (db_materialize_item env sd) (mat_items mat) (db\<lparr>db_ops := rows\<rparr>) = Inr db1"
    and atts: "fold_ok (\<lambda>att db. if as_bytes (am_attachment_id att) \<in> ?T then Inr db
        else materialize_attachment env att db) (mat_attachments mat)
        (fold remove_attachment_row (mat_attachment_tombstones mat) db1) = Inr db'"
    using assms(1) unfolding apply_foreign_ops_def Let_def bind_ok_Inr_iff by blast
  let ?i = "im_item_id it"
  note m = fresh_materialized_items(1) [OF items, of ?i] fresh_materialized_items(2) [OF items]
  have "as_bytes a \<notin> as_bytes ` set (mat_attachment_tombstones mat)" using assms(4) by (auto simp: id_eq_iff [symmetric])
  then have start: "fresh_keys env ?i (fold remove_attachment_row (mat_attachment_tombstones mat) db1) \<and>
      bt_get (db_attachments (fold remove_attachment_row (mat_attachment_tombstones mat) db1)) (as_bytes a) = Some r"
    using m assms(2,3) by (auto simp: removed_attachments fresh_keys_def)
  have "fresh_keys env ?i db' \<and> bt_get (db_attachments db') (as_bytes a) = Some r"
    by (rule fold_ok_invariant [OF atts, where P = "\<lambda>d. fresh_keys env ?i d \<and> bt_get (db_attachments d) (as_bytes a) = Some r", OF start])
      (auto simp: fresh_keys_def materialize_attachment_keeps split: if_splits)
  then show "fresh_keys env ?i db'" "bt_get (db_attachments db') (as_bytes a) = Some r" by simp_all
qed

lemma prune_keeps_attachments:
  assumes "fold_ok (prune_item keep cutoff) rows acc = Inr acc'"
  shows "db_attachments (snd acc') = db_attachments (snd acc)"
proof -
  have del: "db_attachments (fold (\<lambda>vb. delete_version k (fst vb)) vbs db) = db_attachments db" for k vbs and db :: "'x vault_db"
    by (induction vbs arbitrary: db) (simp_all add: delete_version_def)
  show ?thesis
    by (rule fold_ok_invariant [OF assms, where P = "\<lambda>acc. db_attachments (snd acc) = db_attachments (snd _)"])
      (auto simp: prune_item_def Let_def prune_fold del bind_ok_Inr_iff split: prod.splits if_splits)
qed

lemma map_ok_Inr_image: "map_ok f xs = Inr ys \<Longrightarrow> x \<in> set xs \<Longrightarrow> \<exists>y\<in>set ys. f x = Inr y"
  by (induction xs arbitrary: ys) (auto simp: bind_ok_Inr_iff)

text \<open>No key or no name, no attachment; and no listing of the item it belongs to.\<close>

lemma keyless_attachment:
  assumes "bt_get (db_attachments db) (as_bytes a) = Some r" and "ar_item_id r = as_bytes i" and "id_wf a" and "id_wf i"
    and "\<not> is_ok (bind_ok (load_item_key env db i (ar_version r)) (\<lambda>k. open_filename env k a (ar_filename_env r)))"
  shows "\<not> is_ok (get_attachment B env a \<lparr>hm_db = db, hm_files = f\<rparr>)" and "\<not> is_ok (list_attachments env i db)"
proof -
  show "\<not> is_ok (get_attachment B env a \<lparr>hm_db = db, hm_files = f\<rparr>)"
    using assms by (auto simp: is_ok_iff get_attachment_Inr bind_ok_Inr_iff id_from_slice_wf)
  show "\<not> is_ok (list_attachments env i db)"
  proof
    assume "is_ok (list_attachments env i db)"
    then obtain infos where list: "list_attachments env i db = Inr infos" by (auto simp: is_ok_iff)
    have "(as_bytes a, r) \<in> set (sort_key (\<lambda>(k, r). ar_created_at r) (filter (\<lambda>(k, r). ar_item_id r = as_bytes i) (db_attachments db)))"
      using assms(1,2) by (auto dest: map_of_SomeD)
    from map_ok_Inr_image [OF list [unfolded list_attachments_def] this] assms(3,5)
    show False by (auto simp: is_ok_iff bind_ok_Inr_iff id_from_slice_wf)
  qed
qed

lemma sym_roundtrip:
  assumes "aead_ok A" and "sym_seal A k p aad = Inr e"
  shows "bind_ok (envelope_from_bytes (envelope_to_bytes e)) (\<lambda>e. sym_open A k e aad) = Inr p"
  using sym_seal_open [OF assms] by simp

lemma wrap_roundtrip:
  assumes "aead_ok A" and "wrap_key A k target purpose = Inr e" and "length target = 32"
  shows "bind_ok (envelope_from_bytes (envelope_to_bytes e)) (\<lambda>e. unwrap_key A k e purpose) = Inr target"
  using wrap_unwrap [OF assms(1,2)] assms(3) by (simp add: SYMMETRIC_KEY_LEN_def)

lemma added_attachment:
  assumes "aead_ok (ve_aead env)" and "fs_ok (hm_files h)" and "\<And>x. length (al_blake3 B x) = 32"
    and "length (dw_key dw) = 32" and "id_wf (dw_attachment_id dw)" and "id_wf i" and "utf8_valid (str_bytes filename)"
    and "add_attachment B ed_sign env ses dw i filename data h = (Inr a, h')"
  shows "get_attachment B env a h' = Inr (filename, data)"
    and "list_attachments env i (hm_db h') = Inr infos \<Longrightarrow>
      \<exists>info\<in>set infos. ai_attachment_id info = a \<and> ai_filename info = filename \<and> ai_size_plain info = int (length data)"
    and "\<exists>row. db_ops (hm_db h') = db_ops (hm_db h) @ [row] \<and> r_op_kind row = uint (op_kind_code AttachAdd) \<and>
      r_target_item_id row = Some (as_bytes i)"
proof -
  have "get_attachment B env a h' = Inr (filename, data) \<and>
    (\<forall>infos. list_attachments env i (hm_db h') = Inr infos \<longrightarrow>
      (\<exists>info\<in>set infos. ai_attachment_id info = a \<and> ai_filename info = filename \<and> ai_size_plain info = int (length data))) \<and>
    (\<exists>row. db_ops (hm_db h') = db_ops (hm_db h) @ [row] \<and> r_op_kind row = uint (op_kind_code AttachAdd) \<and>
      r_target_item_id row = Some (as_bytes i))"
    using assms(8)
  proof (cases rule: add_attachment_cases)
    case (added version sealed f db)
    have a: "a = dw_attachment_id dw" using added(4) by simp
    obtain ikey where ikey: "load_item_key env (hm_db h) i version = Inr ikey"
      and seal: "seal_attachment B env a (dw_key dw) ikey filename data = Inr sealed" and len: "length data \<le> max_attachment_bytes"
      using added(1) by (auto simp: prepare_attachment_def bind_ok_Inr_iff a split: if_splits)
    from seal obtain blob wrapped name where
      blob: "sym_seal (ve_aead env) (dw_key dw) data (aad_attachment_blob (ve_vault_id env) a) = Inr blob"
      and wrapped: "wrap_key (ve_aead env) ikey (dw_key dw) (attachment_key_aad_str (ve_vault_id env) a) = Inr wrapped"
      and name: "sym_seal (ve_aead env) ikey (str_bytes filename) (aad_attachment_name (ve_vault_id env) a) = Inr name"
      and sealed: "sa_blob sealed = envelope_to_bytes blob" "sa_content_hash sealed = al_blake3 B (envelope_to_bytes blob)"
        "sa_wrapped_key sealed = envelope_to_bytes wrapped" "sa_filename_env sealed = envelope_to_bytes name"
      by (auto simp: seal_attachment_def bind_ok_Inr_iff map_err_Inr_iff)
    have size: "min (int (length data)) i64_max = int (length data)"
      using len by (simp add: max_attachment_bytes_def MAX_ATTACHMENT_BYTES_def i64_max_def)
    define row where "row = \<lparr>ar_item_id = as_bytes i, ar_version = version, ar_content_hash = sa_content_hash sealed,
          ar_size_plain = int (length data), ar_wrapped_key_env = sa_wrapped_key sealed,
          ar_filename_env = sa_filename_env sealed, ar_created_at = dw_now dw\<rparr>"
    obtain op where op: "r_op_kind op = uint (op_kind_code AttachAdd)" "r_target_item_id op = Some (as_bytes i)"
      and db: "db = (hm_db h)\<lparr>db_ops := db_ops (hm_db h) @ [op], db_attachments := bt_insert (as_bytes a) row (db_attachments (hm_db h))\<rparr>"
      using insert_attachment_Inr(1) [OF added(3)] by (auto simp: a row_def size)
    have key: "load_item_key env db i version = Inr ikey" using ikey by (simp add: load_item_key_def db)
    have nm: "open_filename env ikey a (ar_filename_env row) = Inr filename"
      using sym_roundtrip [OF assms(1) name] assms(7) by (simp add: open_filename_def row_def sealed)
    have "get_attachment B env a h' = Inr (filename, data)"
      unfolding get_attachment_Inr
      using wrap_roundtrip [OF assms(1) wrapped assms(4)] sym_roundtrip [OF assms(1) blob] nm key assms(3,6)
        write_blob_files(2) [OF assms(2) added(2)]
      by (intro exI [of _ i] exI [of _ row] exI [of _ ikey] exI [of _ "dw_key dw"] exI [of _ "sa_blob sealed"])
        (simp_all add: added(5) db row_def sealed id_from_slice_wf)
    moreover have "\<exists>info\<in>set infos. ai_attachment_id info = a \<and> ai_filename info = filename \<and> ai_size_plain info = int (length data)"
      if list: "list_attachments env i (hm_db h') = Inr infos" for infos
    proof -
      have "(as_bytes a, row) \<in> set (db_attachments db)"
        by (rule map_of_SomeD) (simp add: db)
      then have mem: "(as_bytes a, row) \<in> set (sort_key (\<lambda>(k, r). ar_created_at r)
          (filter (\<lambda>(k, r). ar_item_id r = as_bytes i) (db_attachments (hm_db h'))))"
        by (simp add: row_def added(5))
      from map_ok_Inr_image [OF list [unfolded list_attachments_def] mem] nm key assms(5) a show ?thesis
        by (auto simp: id_from_slice_wf row_def added(5)) (rule bexI [rotated], assumption, simp)
    qed
    ultimately show ?thesis using op by (auto simp: added(5) db)
  qed simp_all
  then show "get_attachment B env a h' = Inr (filename, data)"
    "list_attachments env i (hm_db h') = Inr infos \<Longrightarrow>
      \<exists>info\<in>set infos. ai_attachment_id info = a \<and> ai_filename info = filename \<and> ai_size_plain info = int (length data)"
    "\<exists>row. db_ops (hm_db h') = db_ops (hm_db h) @ [row] \<and> r_op_kind row = uint (op_kind_code AttachAdd) \<and>
      r_target_item_id row = Some (as_bytes i)"
    by blast+
qed

section \<open>Properties\<close>

text \<open>
  Claim C27. No add, delete of another attachment or fetch of a blob, successful or failed
  part-way, stops an attachment from reading back as before, short of a BLAKE3 collision; and after
  every such call each blob in the directory hashes to its name.
\<close>

theorem attachments_survive:
  assumes "att_step B ed_sign env ses deleted h h'" and "blobs_ok B (hm_files h)" and "deleted \<noteq> Some b"
    and "get_attachment B env b h = Inr x"
    and "inj_on (al_blake3 B) (contents (hm_files h) \<union> contents (hm_files h'))"
  shows "get_attachment B env b h' = Inr x \<and> blobs_ok B (hm_files h')"
  using assms
proof (cases rule: att_step.cases)
  case (step_att_add dw i filename data r)
  then show ?thesis using add_keeps [OF assms(2)] assms(4,5) by blast
next
  case (step_att_delete oid op_now a r)
  have "b \<noteq> a" using step_att_delete(1) assms(3) by simp
  then show ?thesis using delete_keeps [OF assms(2) step_att_delete(2)] assms(4) by simp
next
  case (step_att_fetch tmp hex bs r f)
  then show ?thesis using fetch_keeps [OF assms(2) step_att_fetch(3)] blobs_ok_store [OF assms(2) step_att_fetch(3)] assms(4,5)
    by simp
qed

text \<open>
  Claim C28. An attachment that was added reads back with its name and its bytes, the listing
  of its item, when it succeeds, shows it with its size, and the log ends with the add, authored for
  the item.
\<close>

theorem attachment_roundtrip:
  assumes "aead_ok (ve_aead env)" and "fs_ok (hm_files h)" and "\<And>x. length (al_blake3 B x) = 32"
    and "length (dw_key dw) = 32" and "id_wf (dw_attachment_id dw)" and "id_wf i" and "utf8_valid (str_bytes filename)"
    and "add_attachment B ed_sign env ses dw i filename data h = (Inr a, h')"
  shows "get_attachment B env a h' = Inr (filename, data) \<and>
    (\<forall>infos. list_attachments env i (hm_db h') = Inr infos \<longrightarrow>
      (\<exists>info\<in>set infos. ai_attachment_id info = a \<and> ai_filename info = filename \<and> ai_size_plain info = int (length data))) \<and>
    (\<exists>row. db_ops (hm_db h') = db_ops (hm_db h) @ [row] \<and> r_op_kind row = uint (op_kind_code AttachAdd) \<and>
      r_target_item_id row = Some (as_bytes i))"
  using added_attachment [OF assms] by blast

text \<open>
  Claim C29. Pruning does not look at attachments: an attachment recorded against a version
  that pruning drops keeps its row and its blob, but the item key it was sealed under goes with the
  version, so it can no longer be read and the attachments of its item can no longer be listed.
\<close>

theorem prune_strands_attachments:
  assumes "tables_fit db" and "prune_versions keep cutoff db = Inr (rep, db')"
    and "bt_get (db_attachments db) (as_bytes a) = Some r" and "ar_item_id r = as_bytes i" and "id_wf a"
    and "bt_get (db_items db) (as_bytes i) = Some row" and "bt_get (db_versions db) (as_bytes i, ar_version r) = Some ver"
    and "prunable (uint keep) cutoff db (as_bytes i) (ir_current_version row) (ar_version r) ver"
  shows "bt_get (db_attachments db') (as_bytes a) = Some r \<and>
    get_attachment B env a \<lparr>hm_db = db', hm_files = f\<rparr> = Inl (NotFoundEntity ''item version'') \<and>
    \<not> is_ok (list_attachments env i db')"
proof -
  have impl: "prune_versions_impl keep cutoff True db = Inr (rep, db')"
    using assms(2) by (simp add: prune_versions_def)
  then have items: "fold_ok (prune_item (uint keep) cutoff) (db_items db)
       (\<lparr>pr_versions_removed = 0, pr_bytes_reclaimed = 0, pr_per_item = []\<rparr>, db) = Inr (rep, db')"
    by (auto simp: prune_versions_impl_def bind_ok_Inr_iff)
  have wf: "bt_wf (db_versions db)" "distinct (map fst (db_items db))"
    using assms(1) by (simp_all add: tables_fit_def bt_wf_distinct)
  have row: "bt_get (db_attachments db') (as_bytes a) = Some r"
    using prune_keeps_attachments [OF items] assms(3) by simp
  have i: "id_wf i" using tables_fitD(3) [OF assms(1,6)] by (simp add: id_wf_def)
  have key: "bt_get (db_wrapped_keys db') (as_bytes i, ar_version r) = None"
    using prune_items_Inr [OF items wf] assms(6-8) by (auto simp: pruned_row_def)
  then have "load_item_key env db' i (ar_version r) = Inl (NotFoundEntity ''item version'')" by (simp add: load_item_key_def)
  then show ?thesis
    using keyless_attachment(2) [OF row assms(4,5) i] row i assms(4)
    by (auto simp: get_attachment_def read_attachment_row_def id_from_slice_wf)
qed

text \<open>
  A batch from another device that rewrites an item seals all its versions under
  keys drawn anew, and leaves the attachment rows it finds: an attachment of the item whose name the
  new keys do not open (the name is sealed under the old key, so a real cipher refuses) keeps its row,
  cannot be read any more, and hides the item's other attachments from the listing.
\<close>

theorem ingest_strands_attachments:
  assumes "vault_env_ok env" and "apply_foreign_ops env sd mat db = Inr db'" and "it \<in> set (mat_items mat)"
    and "bt_get (db_attachments db) (as_bytes a) = Some r" and "ar_item_id r = as_bytes (im_item_id it)"
    and "a \<notin> set (mat_attachment_tombstones mat)" and "id_wf a" and "id_wf (im_item_id it)"
    and "envelope_from_bytes (ar_filename_env r) = Inr e"
    and "\<And>n. \<not> is_ok (sym_open (ve_aead env) (ve_fresh_item_key env (im_item_id it) n) e (aad_attachment_name (ve_vault_id env) a))"
  shows "bt_get (db_attachments db') (as_bytes a) = Some r \<and>
    \<not> is_ok (get_attachment B env a \<lparr>hm_db = db', hm_files = f\<rparr>) \<and> \<not> is_ok (list_attachments env (im_item_id it) db')"
proof -
  note m = foreign_redraws [OF assms(2,3,4,6)]
  have "\<not> is_ok (bind_ok (load_item_key env db' (im_item_id it) (ar_version r)) (\<lambda>k. open_filename env k a (ar_filename_env r)))"
    using load_fresh [OF assms(1) m(1)] assms(9) assms(10) [of "ar_version r"]
    by (auto simp: is_ok_iff bind_ok_Inr_iff open_filename_def map_err_Inr_iff)
  from keyless_attachment [OF m(2) assms(5,7,8) this] m(2) show ?thesis by blast
qed

section \<open>A concrete vault\<close>

definition ex_lib :: att_lib where
  "ex_lib = \<lparr>al_base = [''v''], al_blake3 = ex_hash, al_hyphenated = (\<lambda>_. ''t''), al_add_to_vec = (\<lambda>_. Inr []),
     al_delete_to_vec = (\<lambda>_. Inr [])\<rparr>"

definition ex_dw :: att_draws where
  "ex_dw = \<lparr>dw_attachment_id = ex_id 20, dw_key = replicate 32 7, dw_tmp = ex_id 21, dw_op_id = ex_id 7, dw_now = 100,
     dw_op_now = 100\<rparr>"

text \<open>Item 9 with one version, its key sealed by \<open>seal_version\<close>; nothing is in the vault's directory.\<close>

definition ex_held :: "unit home" where
  "ex_held = \<lparr>hm_db = ex_empty\<lparr>
     db_items := [(as_bytes (ex_id 9), \<lparr>ir_current_version = 1, ir_created_at = 100, ir_updated_at = 100\<rparr>)],
     db_wrapped_keys := [((as_bytes (ex_id 9), 1), snd (projr (seal_version ex_vault (ex_id 9) 1 [])))]\<rparr>, hm_files = []\<rparr>"

lemma ex_hash_length [simp]: "length (al_blake3 ex_lib bs) = 32"
  by (simp add: ex_lib_def ex_hash_def)

lemma ex_held_key: "load_item_key ex_vault (hm_db ex_held) (ex_id 9) 1 = Inr (replicate 32 2)"
proof -
  obtain p w where s: "seal_version ex_vault (ex_id 9) 1 [] = Inr (p, w)"
    using ex_seal [of "ex_id 9" 1 "[]"] by (metis surj_pair)
  from unwrap_fresh [OF ex_vault_ok s] show ?thesis by (simp add: load_item_key_def ex_held_def s) (simp add: ex_vault_def)
qed

lemma ex_sym_seal: "\<exists>e. sym_seal (ve_aead ex_vault) k p aad = Inr e"
  by (simp add: sym_seal_def ex_vault_def ex_aead_def Let_def)

lemma write_blob_fresh:
  "write_blob_atomic ex_lib tmp (vault_blob_path ex_lib h) bs [] =
     (Inr (), [([''v''], FsDir), (vault_blob_path ex_lib h, FsFile bs)])"
proof -
  have base: "al_base ex_lib = [''v'']" by (simp add: ex_lib_def)
  have dir: "fs_create_dir_all [''v''] [] = Inr [([''v''], FsDir)]" by code_simp
  have wr: "fs_write [''v'', n] bs [([''v''], FsDir)] = Inr [([''v''], FsDir), ([''v'', n], FsFile bs)]" for n bs
    by (simp add: fs_write_def fs_blocked_def fs_file_at_def fs_node_at_def)
  have mv: "fs_rename [''v'', a] [''v'', b] [([''v''], FsDir), ([''v'', a], FsFile bs)] =
      Inr [([''v''], FsDir), ([''v'', b], FsFile bs)]" if "a \<noteq> b" for a b bs
    using that by (auto simp: fs_rename_def fs_read_def fs_write_def fs_blocked_def fs_file_at_def fs_node_at_def fs_unlink_def)
  have "hex_lower h @ ''.blob'' \<noteq> ''.tmp-'' @ al_hyphenated ex_lib (as_bytes tmp)"
    using blob_path_not_tmp(1) [of ex_lib h tmp] by (simp add: vault_blob_path_def blob_tmp_def)
  then show ?thesis
    by (simp add: write_blob_atomic_def vault_blob_path_def blob_tmp_def base dir wr mv)
qed

lemma ex_seal_bytes: "\<exists>e. sym_seal (ve_aead ex_vault) k p aad = Inr e \<and> envelope_wf e"
  using ex_sym_seal sym_seal_open(2) [OF ex_aead_ok] by (fastforce simp: ex_vault_def)

lemma ex_prepared:
  "\<exists>sealed e. prepare_attachment ex_lib ex_vault ex_dw (ex_id 9) ''a'' [3] (hm_db ex_held) = Inr (1, sealed) \<and>
     hd (sa_blob sealed) = ENVELOPE_VERSION \<and> sa_filename_env sealed = envelope_to_bytes e \<and> envelope_wf e \<and>
     sym_seal ex_aead (replicate 32 2) (str_bytes ''a'') (aad_attachment_name (ex_id 1) (ex_id 20)) = Inr e"
proof -
  have version: "db_current_version (hm_db ex_held) (ex_id 9) = Inr 1" "\<not> is_tombstoned (hm_db ex_held) (ex_id 9)"
    by (simp_all add: db_current_version_def ex_held_def is_tombstoned_def ex_empty_def)
  have label: "check_label (attachment_key_aad_str v a) = Inr (attachment_key_aad_str v a)"
    "check_label (attachment_key_sync_aad_str v a) = Inr (attachment_key_sync_aad_str v a)" for v a
    by (simp_all add: attachment_key_aad_str_def attachment_key_sync_aad_str_def aad_attachment_key_def
        aad_attachment_key_sync_def aad_join_def check_label_def strip_prefix_def label_namespace_def)
  obtain s where s: "\<And>k p aad. sym_seal (ve_aead ex_vault) k p aad = Inr (s k p aad)"
    and wf: "\<And>k p aad. envelope_wf (s k p aad)"
    using ex_seal_bytes by metis
  have ex: "ve_vault_id ex_vault = ex_id 1" "dw_attachment_id ex_dw = ex_id 20" "ve_aead ex_vault = ex_aead"
    by (simp_all add: ex_vault_def ex_dw_def)
  then show ?thesis
    using s wf [of "replicate 32 2" "str_bytes ''a''" "aad_attachment_name (ex_id 1) (ex_id 20)"]
    by (simp add: prepare_attachment_def version ex_held_key seal_attachment_def wrap_key_def label envelope_to_bytes_def
        max_attachment_bytes_def MAX_ATTACHMENT_BYTES_def)
qed

lemma ex_added:
  obtains db path blob r e where "add_attachment ex_lib ex_sign ex_vault ex_session ex_dw (ex_id 9) ''a'' [3] ex_held =
     (Inr (ex_id 20), \<lparr>hm_db = db, hm_files = [([''v''], FsDir), (path, FsFile blob)]\<rparr>)"
    and "hd blob = ENVELOPE_VERSION" and "db_attachments db = [(as_bytes (ex_id 20), r)]"
    and "db_items db = db_items (hm_db ex_held)" and "db_versions db = []" and "db_tombstones db = []"
    and "ar_item_id r = as_bytes (ex_id 9)" and "ar_version r = 1"
    and "envelope_from_bytes (ar_filename_env r) = Inr e"
    and "sym_seal ex_aead (replicate 32 2) (str_bytes ''a'') (aad_attachment_name (ex_id 1) (ex_id 20)) = Inr e"
proof -
  obtain sealed e where p: "prepare_attachment ex_lib ex_vault ex_dw (ex_id 9) ''a'' [3] (hm_db ex_held) = Inr (1, sealed)"
    and t: "hd (sa_blob sealed) = ENVELOPE_VERSION" and e: "sa_filename_env sealed = envelope_to_bytes e" "envelope_wf e"
      "sym_seal ex_aead (replicate 32 2) (str_bytes ''a'') (aad_attachment_name (ex_id 1) (ex_id 20)) = Inr e"
    using ex_prepared by blast
  obtain sealed_op where "vk_seal ex_vault [] (aad_op_payload (ve_vault_id ex_vault) (ex_id 7)) = Inr sealed_op"
    and "length sealed_op = length ([] :: bytes) + 41"
    by (rule ex_vk_seal)
  then have author: "\<exists>db'. author_op ex_hash ex_sign ex_vault ex_session (ex_id 7) 100 AttachAdd (Some (ex_id 9)) 1 [] db = Inr db'"
    if "db_ops db = []" for db :: "unit vault_db"
    using author_op_total [of db "[]" "ex_id 7" ex_hash ex_verify "[4]" ex_vault ex_session "[]" sealed_op ex_sign] ex_log_empty that
    by (simp add: ex_log_def log_room_def ex_empty_def)
  define r where "r = \<lparr>ar_item_id = as_bytes (ex_id 9), ar_version = 1,
        ar_content_hash = sa_content_hash sealed, ar_size_plain = 1, ar_wrapped_key_env = sa_wrapped_key sealed,
        ar_filename_env = sa_filename_env sealed, ar_created_at = 100\<rparr>"
  obtain db' where db': "author_op ex_hash ex_sign ex_vault ex_session (ex_id 7) 100 AttachAdd (Some (ex_id 9)) 1 []
      ((hm_db ex_held)\<lparr>db_attachments := [(as_bytes (ex_id 20), r)]\<rparr>) = Inr db'"
    using author by (fastforce simp: ex_held_def ex_empty_def)
  from author_op_appends [OF db'] have sel: "db_attachments db' = [(as_bytes (ex_id 20), r)]"
    "db_items db' = db_items (hm_db ex_held)" "db_versions db' = []" "db_tombstones db' = []"
    by (auto simp: ex_held_def ex_empty_def)
  have lib: "al_add_to_vec ex_lib = (\<lambda>_. Inr [])" "al_blake3 ex_lib = ex_hash" by (simp_all add: ex_lib_def)
  have "insert_attachment ex_lib ex_sign ex_vault ex_session ex_dw (ex_id 9) 1 1 sealed (hm_db ex_held) = Inr db'"
    using db'
    by (simp add: insert_attachment_def Let_def lib sql_insert_def ex_dw_def u32_or_zero_def i64_max_def r_def)
      (simp add: ex_held_def ex_empty_def)
  then have "add_attachment ex_lib ex_sign ex_vault ex_session ex_dw (ex_id 9) ''a'' [3] ex_held =
     (Inr (ex_id 20), \<lparr>hm_db = db', hm_files = [([''v''], FsDir),
        (vault_blob_path ex_lib (sa_content_hash sealed), FsFile (sa_blob sealed))]\<rparr>)"
    using p by (simp add: add_attachment_def) (simp add: ex_held_def ex_dw_def write_blob_fresh)
  moreover have "ar_item_id r = as_bytes (ex_id 9)" "ar_version r = 1" "envelope_from_bytes (ar_filename_env r) = Inr e"
    using e by (simp_all add: r_def)
  ultimately show thesis using that t sel e(3) by blast
qed

text \<open>The tags of the concrete cipher tell keys apart: tripling is invertible modulo 256.\<close>

lemma tag_inject: "foldl (\<lambda>h b. 3 * h + b) (x :: byte) bs = foldl (\<lambda>h b. 3 * h + b) y bs \<longleftrightarrow> x = y"
proof (induction bs arbitrary: x y)
  case (Cons b bs)
  have "x = y" if "3 * x = 3 * y"
  proof -
    have "171 * (3 * x) = 171 * (3 * y)" using that by simp
    moreover have "171 * (3 * z) = z" for z :: byte
    proof -
      have "(171 :: byte) * 3 = 1" by code_simp
      then show ?thesis by (metis mult.assoc mult_1)
    qed
    ultimately show ?thesis by metis
  qed
  then show ?case using Cons.IH by auto
qed simp

lemma ex_wrong_key:
  assumes "sym_seal ex_aead (replicate 32 2) p aad = Inr e"
  shows "\<not> is_ok (sym_open ex_aead (replicate 32 9) e aad)"
proof -
  have "foldl (\<lambda>h b. 3 * h + b) (1 :: byte) (replicate 32 2) \<noteq> foldl (\<lambda>h b. 3 * h + b) 1 (replicate 32 9)"
    by code_simp
  then show ?thesis
    using assms by (auto simp: sym_seal_def sym_open_def ex_aead_def Let_def tag_inject foldl_append
        TAG_LEN_def is_ok_def ok_or_def replicate_eq_replicate)
qed

lemma attachment_roundtrip_witness:
  "\<exists>h. add_attachment ex_lib ex_sign ex_vault ex_session ex_dw (ex_id 9) ''a'' [3] ex_held = (Inr (ex_id 20), h) \<and>
     get_attachment ex_lib ex_vault (ex_id 20) h = Inr (''a'', [3])"
proof (rule ex_added)
  fix db path blob
  assume add: "add_attachment ex_lib ex_sign ex_vault ex_session ex_dw (ex_id 9) ''a'' [3] ex_held =
     (Inr (ex_id 20), \<lparr>hm_db = db, hm_files = [([''v''], FsDir), (path, FsFile blob)]\<rparr>)"
  have A: "aead_ok (ve_aead ex_vault)" by (simp add: ex_vault_def)
  have f: "fs_ok (hm_files ex_held)" by (simp add: ex_held_def fs_ok_def)
  have dw: "length (dw_key ex_dw) = 32" "id_wf (dw_attachment_id ex_dw)" by (simp_all add: ex_dw_def)
  have u: "utf8_valid (str_bytes ''a'')" by code_simp
  from attachment_roundtrip [OF A f ex_hash_length dw ex_id_wf u add] add show ?thesis by blast
qed

lemma contents_single: "contents [([''v''], FsDir), (p, FsFile bs)] \<subseteq> {bs}"
  by (auto simp: contents_def fs_read_def fs_node_at_def split: if_splits option.splits)

lemma attachments_survive_witness:
  "\<exists>h r f. add_attachment ex_lib ex_sign ex_vault ex_session ex_dw (ex_id 9) ''a'' [3] ex_held = (Inr (ex_id 20), h) \<and>
     store_vault_blob ex_lib (ex_id 21) (hex_lower (ex_hash [9])) [9] (hm_files h) = (r, f) \<and>
     get_attachment ex_lib ex_vault (ex_id 20) (h\<lparr>hm_files := f\<rparr>) = Inr (''a'', [3])"
proof (rule ex_added)
  fix db :: "unit vault_db" and path blob
  let ?h = "\<lparr>hm_db = db, hm_files = [([''v''], FsDir), (path, FsFile blob)]\<rparr>"
  assume add: "add_attachment ex_lib ex_sign ex_vault ex_session ex_dw (ex_id 9) ''a'' [3] ex_held = (Inr (ex_id 20), ?h)"
    and blob: "hd blob = ENVELOPE_VERSION"
  have A: "aead_ok (ve_aead ex_vault)" by (simp add: ex_vault_def)
  have f: "fs_ok (hm_files ex_held)" "blobs_ok ex_lib (hm_files ex_held)" "contents (hm_files ex_held) = {}"
    by (simp_all add: ex_held_def fs_ok_def blobs_ok_def contents_def fs_read_def fs_node_at_def split: if_splits)
  have dw: "length (dw_key ex_dw) = 32" "id_wf (dw_attachment_id ex_dw)" by (simp_all add: ex_dw_def)
  have u: "utf8_valid (str_bytes ''a'')" by code_simp
  have get: "get_attachment ex_lib ex_vault (ex_id 20) ?h = Inr (''a'', [3])"
    by (rule added_attachment(1) [OF A f(1) ex_hash_length dw ex_id_wf u add])
  have "inj_on (al_blake3 ex_lib) (contents (hm_files ex_held) \<union> contents (hm_files ?h))"
    using contents_single [of path blob] inj_on_subset [of _ "{blob}"] f(3) by simp
  then have ok: "blobs_ok ex_lib (hm_files ?h)" by (rule add_keeps(1) [OF f(2) add])
  obtain r g where store: "store_vault_blob ex_lib (ex_id 21) (hex_lower (ex_hash [9])) [9] (hm_files ?h) = (r, g)" by fastforce
  then have step: "att_step ex_lib ex_sign ex_vault ex_session None ?h (?h\<lparr>hm_files := g\<rparr>)" by (rule step_att_fetch)
  have "contents g \<subseteq> {blob, [9]}"
    using store_blob_cases [OF store] contents_single [of path blob] write_blob_files(6) ok
    by (fastforce simp: contents_def blobs_ok_def)
  moreover have "replicate 32 (0 :: byte) \<noteq> 9 # replicate 31 0" by code_simp
  then have "inj_on (al_blake3 ex_lib) {blob, [9]}"
    using blob by (cases blob) (auto simp: ex_lib_def ex_hash_def inj_on_def ENVELOPE_VERSION_def)
  ultimately have "inj_on (al_blake3 ex_lib) (contents (hm_files ?h) \<union> contents (hm_files (?h\<lparr>hm_files := g\<rparr>)))"
    using contents_single [of path blob] by (auto intro: inj_on_subset)
  from attachments_survive [OF step ok _ get this] add store show ?thesis by auto
qed

lemma prune_strands_attachments_witness:
  "\<exists>db rep db'. tables_fit db \<and> is_ok (load_item_key ex_vault db (ex_id 9) 1) \<and> prune_versions 0 None db = Inr (rep, db') \<and>
     get_attachment ex_lib ex_vault (ex_id 20) \<lparr>hm_db = db', hm_files = []\<rparr> = Inl (NotFoundEntity ''item version'')"
proof -
  let ?i = "as_bytes (ex_id 9)"
  let ?v = "\<lparr>iv_payload_env = [], iv_created_at = 1, iv_author_device_id = as_bytes (ex_id 2), iv_op_id = as_bytes (ex_id 7)\<rparr>"
  let ?r = "\<lparr>ar_item_id = ?i, ar_version = 1, ar_content_hash = [], ar_size_plain = 1, ar_wrapped_key_env = [],
    ar_filename_env = [], ar_created_at = 100\<rparr>"
  obtain p w where s: "seal_version ex_vault (ex_id 9) 1 [] = Inr (p, w)"
    using ex_seal [of "ex_id 9" 1 "[]"] by (metis surj_pair)
  define db where "db = ex_empty\<lparr>db_items := [(?i, \<lparr>ir_current_version = 2, ir_created_at = 1, ir_updated_at = 2\<rparr>)],
    db_versions := [((?i, 1), ?v), ((?i, 2), ?v)], db_wrapped_keys := [((?i, 1), w), ((?i, 2), [])],
    db_attachments := [(as_bytes (ex_id 20), ?r)]\<rparr>"
  have len: "length ?i = 16" by (simp add: ex_id_def)
  have fit: "tables_fit db"
    by (auto simp: tables_fit_def db_def ex_empty_def bt_wf_def len split: if_splits)
  have key: "is_ok (load_item_key ex_vault db (ex_id 9) 1)"
    using unwrap_fresh [OF ex_vault_ok s] by (simp add: load_item_key_def db_def is_ok_iff)
  have "is_ok (fold_ok (prune_item (uint (0 :: u32)) None) (db_items db) acc)" for acc :: "prune_report \<times> unit vault_db"
    by (rule prune_items_ok) (simp add: db_def len)
  then obtain acc where "fold_ok (prune_item (uint (0 :: u32)) None) (db_items db)
      (\<lparr>pr_versions_removed = 0, pr_bytes_reclaimed = 0, pr_per_item = []\<rparr>, db) = Inr acc"
    unfolding is_ok_iff by blast
  then obtain rep db' where pr: "prune_versions 0 None db = Inr (rep, db')"
    by (cases acc) (simp add: prune_versions_def prune_versions_impl_def)
  have "prunable (uint (0 :: u32)) None db ?i 2 1 ?v" by (simp add: prunable_def)
  then have "get_attachment ex_lib ex_vault (ex_id 20) \<lparr>hm_db = db', hm_files = []\<rparr> = Inl (NotFoundEntity ''item version'')"
    using prune_strands_attachments [OF fit pr, of "ex_id 20" ?r "ex_id 9" "\<lparr>ir_current_version = 2, ir_created_at = 1, ir_updated_at = 2\<rparr>" ?v]
    by (simp add: db_def)
  with fit key pr show ?thesis by blast
qed

text \<open>Another device's edit of item 9 arrives, and its version is sealed under a new key.\<close>

definition ex_rekeyed_env :: "unit vault_env" where
  "ex_rekeyed_env = ex_vault\<lparr>ve_fresh_item_key := (\<lambda>i n. replicate 32 9)\<rparr>"

definition ex_edit :: materialization where
  "ex_edit = ex_mat\<lparr>mat_ops := []\<rparr>"

lemma ex_edit_applies:
  assumes "db_items db = db_items (hm_db ex_held)" and "db_versions db = []" and "db_tombstones db = []"
  shows "\<exists>db'. apply_foreign_ops ex_rekeyed_env ex_serde ex_edit db = Inr db'"
proof -
  have env: "vault_env_ok ex_rekeyed_env"
    by (simp add: vault_env_ok_def ex_rekeyed_env_def ex_vault_def SYMMETRIC_KEY_LEN_def)
  obtain p w where s: "seal_version ex_rekeyed_env (ex_id 9) 1 [] = Inr (p, w)"
    using seal_version_ok [of ex_rekeyed_env "ex_id 9" 1 "[]"] by (auto simp: ex_rekeyed_env_def ex_vault_def ex_aead_def is_ok_iff)
  have "index_delete ex_rekeyed_env = (\<lambda>rd i x. Inr x)" "index_upsert ex_rekeyed_env = (\<lambda>rd i p x. Inr x)"
    by (simp_all add: ex_rekeyed_env_def ex_vault_def)
  moreover have "to_canonical ex_serde p = Inr []" "from_canonical ex_serde bs = Inr (item_payload_new Note [])" for p bs
    by (simp_all add: to_canonical_def to_canonical_vec_def from_canonical_def from_canonical_slice_def ex_serde_def)
  moreover have "bt_get (bt_delete_where (\<lambda>kv. fst kv = as_bytes (ex_id 9)) m) (as_bytes (ex_id 9), n) = None" for m n
    by (simp add: bt_get_delete_where)
  ultimately show ?thesis
    using s open_seal_version [OF env s] assms
    by (simp add: apply_foreign_ops_def ex_edit_def ex_mat_def db_materialize_item_def insert_version_def clear_versions_def
        write_tombstone_def index_apply_foreign_def read_item_payload_def read_version_plaintext_def sql_insert_def
        upsert_item_row_def Let_def ex_held_def bt_get_delete_where)
qed

lemma ingest_strands_attachments_witness:
  "\<exists>h db'. add_attachment ex_lib ex_sign ex_vault ex_session ex_dw (ex_id 9) ''a'' [3] ex_held = (Inr (ex_id 20), h) \<and>
     get_attachment ex_lib ex_vault (ex_id 20) h = Inr (''a'', [3]) \<and>
     apply_foreign_ops ex_rekeyed_env ex_serde ex_edit (hm_db h) = Inr db' \<and>
     \<not> is_ok (get_attachment ex_lib ex_rekeyed_env (ex_id 20) (h\<lparr>hm_db := db'\<rparr>))"
proof (rule ex_added)
  fix db :: "unit vault_db" and path blob r e
  let ?h = "\<lparr>hm_db = db, hm_files = [([''v''], FsDir), (path, FsFile blob)]\<rparr>"
  let ?it = "hd (mat_items ex_edit)"
  assume add: "add_attachment ex_lib ex_sign ex_vault ex_session ex_dw (ex_id 9) ''a'' [3] ex_held = (Inr (ex_id 20), ?h)"
    and row: "db_attachments db = [(as_bytes (ex_id 20), r)]" "ar_item_id r = as_bytes (ex_id 9)"
    and db: "db_items db = db_items (hm_db ex_held)" "db_versions db = []" "db_tombstones db = []"
    and e: "envelope_from_bytes (ar_filename_env r) = Inr e"
      "sym_seal ex_aead (replicate 32 2) (str_bytes ''a'') (aad_attachment_name (ex_id 1) (ex_id 20)) = Inr e"
  have A: "aead_ok (ve_aead ex_vault)" by (simp add: ex_vault_def)
  have f: "fs_ok (hm_files ex_held)" by (simp add: ex_held_def fs_ok_def)
  have dw: "length (dw_key ex_dw) = 32" "id_wf (dw_attachment_id ex_dw)" by (simp_all add: ex_dw_def)
  have u: "utf8_valid (str_bytes ''a'')" by code_simp
  have get: "get_attachment ex_lib ex_vault (ex_id 20) ?h = Inr (''a'', [3])"
    by (rule added_attachment(1) [OF A f ex_hash_length dw ex_id_wf u add])
  obtain db' where db': "apply_foreign_ops ex_rekeyed_env ex_serde ex_edit db = Inr db'" using ex_edit_applies [OF db] by blast
  have env: "vault_env_ok ex_rekeyed_env"
    by (simp add: vault_env_ok_def ex_rekeyed_env_def ex_vault_def SYMMETRIC_KEY_LEN_def)
  have it: "?it \<in> set (mat_items ex_edit)" "im_item_id ?it = ex_id 9" "ex_id 20 \<notin> set (mat_attachment_tombstones ex_edit)"
    by (simp_all add: ex_edit_def ex_mat_def)
  have "bt_get (db_attachments db) (as_bytes (ex_id 20)) = Some r" by (simp add: row)
  moreover have "\<not> is_ok (sym_open (ve_aead ex_rekeyed_env) (ve_fresh_item_key ex_rekeyed_env (im_item_id ?it) n) e
      (aad_attachment_name (ve_vault_id ex_rekeyed_env) (ex_id 20)))" for n
    using ex_wrong_key [OF e(2)] by (simp add: ex_rekeyed_env_def ex_vault_def)
  ultimately have "\<not> is_ok (get_attachment ex_lib ex_rekeyed_env (ex_id 20) \<lparr>hm_db = db', hm_files = hm_files ?h\<rparr>)"
    using ingest_strands_attachments [OF env db' it(1) _ _ it(3) _ _ e(1)] row(2) it(2) by simp
  then show ?thesis
    by (intro exI [of _ ?h] exI [of _ db']) (simp add: add get db')
qed

end
