(* ===== verification/Engine.thy ===== *)
theory Engine
  imports Ingest Shipping Share Attach
begin

text \<open>
  \<open>lp-sync/src/engine.rs\<close> over a live session and an open vault: enrolling a vault, push, pull, status,
  sharing a vault through the channel and adopting shared vaults. The state is what a device reads and
  writes: its profile, the open vault with its blob directory, and the channel. An early return keeps
  what was written before it. The \<open>StoreFactory\<close> of the host, the clock and the random draws are arguments.
\<close>

section \<open>State and parameters\<close>

record ('x, 's) site =
  si_profile :: "'x profile"
  si_home :: "'x home"
  si_channel :: 's

record engine_lib =
  en_ship :: ship_lib
  en_att :: att_lib
  en_crypto :: crypto_lib
  en_serde :: serde

type_synonym 's factory = "string \<Rightarrow> sync_error + 's store_ops"

definition on_channel :: "('s, 'a) io \<Rightarrow> (('x, 's) site, 'a) io" where
  "on_channel m = io_on si_channel (\<lambda>s w. w\<lparr>si_channel := s\<rparr>) m"

definition ask_vault :: "('x home \<Rightarrow> vault_error + 'a) \<Rightarrow> (('x, 's) site, 'a) io" where
  "ask_vault f w = (map_err Vault (f (si_home w)), w)"

definition on_files :: "(fs \<Rightarrow> (vault_error + 'a) \<times> fs) \<Rightarrow> (('x, 's) site, 'a) io" where
  "on_files m w =
     (case m (hm_files (si_home w)) of (r, f) \<Rightarrow> (map_err Vault r, w\<lparr>si_home := (si_home w)\<lparr>hm_files := f\<rparr>\<rparr>))"

text \<open>A call of the session: it replaces the profile only when it succeeds.\<close>

definition on_profile :: "('x profile \<Rightarrow> vault_error + ('a \<times> 'x profile)) \<Rightarrow> (('x, 's) site, 'a) io" where
  "on_profile f w =
     (case f (si_profile w) of Inl e \<Rightarrow> (Inl (Vault e), w) | Inr (x, pf) \<Rightarrow> (Inr x, w\<lparr>si_profile := pf\<rparr>))"

section \<open>Enrolment\<close>

definition sync_root_key :: "ship_lib \<Rightarrow> id \<Rightarrow> string" where
  "sync_root_key lib v = ''sync.root.'' @ to_hyphenated lib v"

definition store_root :: "ship_lib \<Rightarrow> id \<Rightarrow> string \<Rightarrow> (('x, 's) site, unit) io" where
  "store_root lib v sync_root =
     on_profile (\<lambda>pf. Inr ((), pf\<lparr>pf_account := set_setting (sync_root_key lib v) sync_root (pf_account pf)\<rparr>))"

definition sync_setup :: "ship_lib \<Rightarrow> 's factory \<Rightarrow> id \<Rightarrow> string \<Rightarrow> (('x, 's) site, unit) io" where
  "sync_setup lib factory v sync_root =
     io_bind (io_lift (factory sync_root)) (\<lambda>store.
     io_bind (on_channel (with_store lib store v)) (\<lambda>_.
     store_root lib v sync_root))"

definition enrolled_root :: "ship_lib \<Rightarrow> account_db \<Rightarrow> id \<Rightarrow> string option" where
  "enrolled_root lib acc v = get_setting acc (sync_root_key lib v)"

definition open_dir :: "ship_lib \<Rightarrow> 's factory \<Rightarrow> id \<Rightarrow> (('x, 's) site, 's sync_dir) io" where
  "open_dir lib factory v w =
     io_bind (io_lift (bind_ok (ok_or (Invalid ''vault is not enrolled for sync (run `sync setup`)'')
       (enrolled_root lib (pf_account (si_profile w)) v)) factory)) (\<lambda>store.
     on_channel (with_store lib store v)) w"

section \<open>Push\<close>

record push_report =
  pu_published :: "(id \<times> u64) list"
  pu_segments_written :: nat
  pu_attachments_shipped :: nat

definition empty_push :: push_report where
  "empty_push = \<lparr>pu_published = [], pu_segments_written = 0, pu_attachments_shipped = 0\<rparr>"

text \<open>The segment and the chain head of one author.\<close>

definition push_run ::
  "engine_lib \<Rightarrow> 's sync_dir \<Rightarrow> id \<Rightarrow> stored_op list \<Rightarrow> push_report \<Rightarrow> (('x, 's) site, push_report) io" where
  "push_run E dir d run report =
     io_bind (on_channel (write_segment (en_ship E) dir run)) (\<lambda>seg.
     case seg of None \<Rightarrow> io_ok report
     | Some seg \<Rightarrow>
         io_bind (io_lift (ok_or (Panic ''payload length fits u32'') (op_chain_hash (al_blake3 (en_att E)) (last run)))) (\<lambda>head_hash.
         io_bind (on_channel (write_head (en_ship E) dir d (sf_seq_hi seg) head_hash)) (\<lambda>_.
         io_ok (report\<lparr>pu_segments_written := pu_segments_written report + 1\<rparr>))))"

definition push_device ::
  "engine_lib \<Rightarrow> 's sync_dir \<Rightarrow> bytes \<times> stored_op list \<Rightarrow> push_report \<times> manifest \<Rightarrow>
     (('x, 's) site, push_report \<times> manifest) io" where
  "push_device E dir dev_run acc =
     (case dev_run of (dev_bytes, ops) \<Rightarrow> case acc of (report, mf) \<Rightarrow>
       let run = sort_key seq ops; d = id_from_bytes dev_bytes;
           last_seq = (if run = [] then 0 else seq (last run))
       in io_bind (push_run E dir d run report) (\<lambda>report.
          io_ok (report\<lparr>pu_published := pu_published report @ [(d, last_seq)]\<rparr>,
                 mf\<lparr>mf_devices := bt_insert (to_hyphenated (en_ship E) d) last_seq (mf_devices mf)\<rparr>)))"

definition ship_blob :: "engine_lib \<Rightarrow> 's sync_dir \<Rightarrow> string bset \<Rightarrow> string \<Rightarrow> nat \<Rightarrow> (('x, 's) site, nat) io" where
  "ship_blob E dir already hash shipped =
     (if hash \<in> set already then io_ok shipped
      else
        io_bind (ask_vault (\<lambda>h. read_vault_blob (en_att E) hash (hm_files h))) (\<lambda>bs.
        case bs of None \<Rightarrow> io_ok shipped
        | Some bs \<Rightarrow> io_bind (on_channel (write_attachment_blob dir hash bs)) (\<lambda>_. io_ok (shipped + 1))))"

definition push :: "engine_lib \<Rightarrow> 's factory \<Rightarrow> id \<Rightarrow> (('x, 's) site, push_report) io" where
  "push E factory v =
     io_bind (open_dir (en_ship E) factory v) (\<lambda>dir.
     io_bind (ask_vault (\<lambda>h. stored_ops (hm_db h))) (\<lambda>ops.
     let by_device = bt_group (\<lambda>op. as_bytes (device_id op)) ops;
         mf = \<lparr>mf_vault_id = to_hyphenated (en_ship E) v, mf_devices = []\<rparr>
     in io_bind (io_fold (push_device E dir) by_device (empty_push, mf)) (\<lambda>(report, mf).
        io_bind (on_channel (write_manifest (en_ship E) dir mf)) (\<lambda>_.
        io_bind (on_channel (list_attachment_blob_hashes dir)) (\<lambda>already.
        io_bind (ask_vault (\<lambda>h. local_attachment_hashes (en_att E) (hm_files h))) (\<lambda>hashes.
        io_bind (io_fold (ship_blob E dir (bs_of_list already)) hashes 0) (\<lambda>shipped.
        io_ok (report\<lparr>pu_attachments_shipped := shipped\<rparr>))))))))"

section \<open>Pull\<close>

record pull_report =
  pl_applied :: nat
  pl_skipped :: nat
  pl_pending :: nat
  pl_quarantines :: "quarantine list"
  pl_key_imported :: bool
  pl_attachments_fetched :: nat
  pl_attachments_pending :: nat
  pl_attachments_tampered :: "string list"

definition has_alarms :: "pull_report \<Rightarrow> bool" where
  "has_alarms report \<longleftrightarrow> pl_quarantines report \<noteq> [] \<or> pl_attachments_tampered report \<noteq> []"

text \<open>\<open>tmp\<close> draws the name of the temporary file of each fetched blob.\<close>

definition fetch_blob ::
  "engine_lib \<Rightarrow> 's sync_dir \<Rightarrow> (string \<Rightarrow> id) \<Rightarrow> string \<Rightarrow> pull_report \<Rightarrow> (('x, 's) site, pull_report) io" where
  "fetch_blob E dir tmp hash report =
     io_bind (on_channel (read_attachment_blob dir hash)) (\<lambda>bs.
     case bs of
       None \<Rightarrow> io_ok (report\<lparr>pl_attachments_pending := pl_attachments_pending report + 1\<rparr>)
     | Some bs \<Rightarrow>
         io_try (on_files (store_vault_blob (en_att E) (tmp hash) hash bs)) (\<lambda>r.
           case r of
             Inr _ \<Rightarrow> io_ok (report\<lparr>pl_attachments_fetched := pl_attachments_fetched report + 1\<rparr>)
           | Inl (Vault (VaultInvalid _)) \<Rightarrow>
               io_ok (report\<lparr>pl_attachments_tampered := pl_attachments_tampered report @ [hash]\<rparr>)
           | Inl e \<Rightarrow> io_err e))"

definition missing_blobs :: "engine_lib \<Rightarrow> (('x, 's) site, string list) io" where
  "missing_blobs E =
     io_bind (ask_vault (\<lambda>h. Inr (referenced_attachment_hashes (hm_db h)))) (\<lambda>referenced.
     io_bind (ask_vault (\<lambda>h. local_attachment_hashes (en_att E) (hm_files h))) (\<lambda>local.
     io_ok (filter (\<lambda>h. h \<notin> set local) (bs_of_list referenced))))"

definition ingest_into ::
  "engine_lib \<Rightarrow> 'x vault_env \<Rightarrow> id \<Rightarrow> int \<Rightarrow> stored_op list \<Rightarrow> (('x, 's) site, ingest_report) io" where
  "ingest_into E env me now ops w =
     (case ingest (al_blake3 (en_att E)) (cl_ed_verify (en_crypto E)) (cl_vk_from_bytes (en_crypto E)) env (en_serde E) me
        (pf_account (si_profile w)) now ops (hm_db (si_home w)) of
        Inl e \<Rightarrow> (Inl e, w)
      | Inr (report, db) \<Rightarrow> (Inr report, w\<lparr>si_home := (si_home w)\<lparr>hm_db := db\<rparr>\<rparr>))"

text \<open>The import of a key blob and the removal of the blob; \<open>ix\<close> is the index of a new vault file.\<close>

definition import_key ::
  "engine_lib \<Rightarrow> live_session \<Rightarrow> 's sync_dir \<Rightarrow> id \<Rightarrow> 'x \<Rightarrow> int \<Rightarrow> bytes \<Rightarrow> (('x, 's) site, bool) io" where
  "import_key E ses dir v ix now blob =
     io_bind (on_profile (import_shared_vault_key (en_crypto E) ses v blob ix now)) (\<lambda>fresh.
     io_bind (on_channel (remove_key_blob (en_ship E) dir (ss_device_id ses))) (\<lambda>_.
     io_ok fresh))"

definition pull ::
  "engine_lib \<Rightarrow> 's factory \<Rightarrow> 'x vault_env \<Rightarrow> live_session \<Rightarrow> (string \<Rightarrow> id) \<Rightarrow> 'x \<Rightarrow> int \<Rightarrow>
     (('x, 's) site, pull_report) io" where
  "pull E factory env ses tmp ix now =
     (let v = ve_vault_id env; me = ss_device_id ses in
      io_bind (open_dir (en_ship E) factory v) (\<lambda>dir.
      io_bind (on_channel (read_all_ops (en_ship E) dir)) (\<lambda>channel_ops.
      io_bind (ingest_into E env me now channel_ops) (\<lambda>ingested.
      io_bind (missing_blobs E) (\<lambda>missing.
      io_bind (io_fold (fetch_blob E dir tmp) missing
        \<lparr>pl_applied = ig_applied ingested, pl_skipped = ig_skipped ingested, pl_pending = ig_pending ingested,
         pl_quarantines = ig_quarantines ingested, pl_key_imported = False, pl_attachments_fetched = 0,
         pl_attachments_pending = 0, pl_attachments_tampered = []\<rparr>) (\<lambda>report.
      io_bind (on_channel (read_key_blob (en_ship E) dir me)) (\<lambda>blob.
      case blob of None \<Rightarrow> io_ok report
      | Some blob \<Rightarrow>
          io_bind (import_key E ses dir v ix now blob) (\<lambda>_.
          io_ok (report\<lparr>pl_key_imported := True\<rparr>)))))))))"

section \<open>Status\<close>

record device_status =
  dv_device_id :: id
  dv_is_self :: bool
  dv_trusted :: bool
  dv_local_seq :: u64
  dv_channel_seq :: u64

record sync_status =
  sy_enrolled :: bool
  sy_root :: "string option"
  sy_devices :: "device_status list"
  sy_pending :: nat
  sy_quarantines :: "quarantine list"

definition high_water :: "stored_op list \<Rightarrow> (bytes, u64) btree" where
  "high_water ops = fold (\<lambda>op. bt_entry (as_bytes (device_id op)) 0 (\<lambda>e. max e (seq op))) ops []"

definition status_of_device ::
  "account_db \<Rightarrow> id \<Rightarrow> (bytes, u64) btree \<Rightarrow> (bytes, u64) btree \<Rightarrow> bytes \<Rightarrow> vault_error + device_status" where
  "status_of_device acc me local_high channel_high dev_bytes =
     (let d = id_from_bytes dev_bytes; is_self = (dev_bytes = as_bytes me);
          mark = (\<lambda>m. case bt_get m dev_bytes of None \<Rightarrow> 0 | Some s \<Rightarrow> s)
      in bind_ok (if is_self then Inr True else bind_ok (peer_device acc d) (\<lambda>p. Inr (p \<noteq> None))) (\<lambda>trusted.
         Inr \<lparr>dv_device_id = d, dv_is_self = is_self, dv_trusted = trusted, dv_local_seq = mark local_high,
              dv_channel_seq = mark channel_high\<rparr>))"

definition status_of ::
  "engine_lib \<Rightarrow> id \<Rightarrow> id \<Rightarrow> string \<Rightarrow> stored_op list \<Rightarrow> stored_op list \<Rightarrow> ('x, 's) site \<Rightarrow> sync_error + sync_status" where
  "status_of E v me root held channel_ops w =
     (let acc = pf_account (si_profile w); local_high = high_water held; channel_high = high_water channel_ops;
          incoming = foreign_to me channel_ops
      in bind_ok (build_chain_state (cl_vk_from_bytes (en_crypto E)) me acc (hm_db (si_home w)) v incoming) (\<lambda>state.
         bind_ok (ok_or (Panic ''payload length fits u32'')
           (verify_batch (al_blake3 (en_att E)) (cl_ed_verify (en_crypto E)) state incoming)) (\<lambda>vreport.
         bind_ok (map_err Vault (map_ok (status_of_device acc me local_high channel_high)
           (bs_of_list (map fst local_high @ map fst channel_high)))) (\<lambda>devices.
         Inr \<lparr>sy_enrolled = True, sy_root = Some root, sy_devices = devices, sy_pending = length (pending vreport),
              sy_quarantines = quarantines vreport\<rparr>))))"

definition status :: "engine_lib \<Rightarrow> 's factory \<Rightarrow> id \<Rightarrow> id \<Rightarrow> (('x, 's) site, sync_status) io" where
  "status E factory v me w =
     (case enrolled_root (en_ship E) (pf_account (si_profile w)) v of
        None \<Rightarrow> io_ok \<lparr>sy_enrolled = False, sy_root = None, sy_devices = [], sy_pending = 0, sy_quarantines = []\<rparr> w
      | Some root \<Rightarrow>
          io_bind (io_lift (factory root)) (\<lambda>store.
          io_bind (on_channel (with_store (en_ship E) store v)) (\<lambda>dir.
          io_bind (on_channel (read_manifest (en_ship E) dir)) (\<lambda>_.
          io_bind (on_channel (read_all_ops (en_ship E) dir)) (\<lambda>channel_ops.
          io_bind (ask_vault (\<lambda>h. stored_ops (hm_db h))) (\<lambda>held.
          (\<lambda>w. (status_of E v me root held channel_ops w, w))))))) w)"

section \<open>Sharing through the channel\<close>

definition share_vault_to_device ::
  "engine_lib \<Rightarrow> 's factory \<Rightarrow> live_session \<Rightarrow> audit_origin \<Rightarrow> int \<Rightarrow> id \<Rightarrow> id \<Rightarrow> (('x, 's) site, unit) io" where
  "share_vault_to_device E factory ses ori now v peer_device_id =
     io_bind (on_profile (\<lambda>pf. bind_ok (peer_device (pf_account pf) peer_device_id) (\<lambda>p. Inr (p, pf)))) (\<lambda>peer.
     io_bind (io_lift (ok_or (Invalid ''device is not a trusted peer (run `device trust` first)'') peer)) (\<lambda>peer.
     io_bind (open_dir (en_ship E) factory v) (\<lambda>dir.
     io_bind (on_profile (\<lambda>pf.
       bind_ok (share_vault_key_to_peer (en_crypto E) ori now ses v peer (pf_account pf)) (\<lambda>(blob, acc).
       Inr (blob, pf\<lparr>pf_account := acc\<rparr>)))) (\<lambda>blob.
     on_channel (write_key_blob (en_ship E) dir peer_device_id blob)))))"

definition import_shared_key ::
  "engine_lib \<Rightarrow> 's factory \<Rightarrow> live_session \<Rightarrow> 'x \<Rightarrow> int \<Rightarrow> id \<Rightarrow> (('x, 's) site, bool) io" where
  "import_shared_key E factory ses ix now v =
     io_bind (open_dir (en_ship E) factory v) (\<lambda>dir.
     io_bind (on_channel (read_key_blob (en_ship E) dir (ss_device_id ses))) (\<lambda>blob.
     case blob of None \<Rightarrow> io_ok False | Some blob \<Rightarrow> import_key E ses dir v ix now blob))"

text \<open>Refused shares: the text of the error is left to its \<open>Display\<close>.\<close>

record adopt_report =
  ad_adopted :: "id list"
  ad_rejected :: "(id \<times> vault_error) list"
  ad_untrusted_sender :: "id list"
  ad_vault_folders :: nat
  ad_shares_for_other_devices :: nat
  ad_looks_like_vault_folder :: bool

definition empty_adopt :: adopt_report where
  "empty_adopt = \<lparr>ad_adopted = [], ad_rejected = [], ad_untrusted_sender = [], ad_vault_folders = 0,
     ad_shares_for_other_devices = 0, ad_looks_like_vault_folder = False\<rparr>"

definition adopt_blob ::
  "engine_lib \<Rightarrow> live_session \<Rightarrow> 's sync_dir \<Rightarrow> string \<Rightarrow> 'x \<Rightarrow> int \<Rightarrow> id \<Rightarrow> bytes \<Rightarrow> adopt_report \<Rightarrow> (('x, 's) site, adopt_report) io" where
  "adopt_blob E ses dir sync_root ix now v blob report =
     io_try (on_profile (import_shared_vault_key (en_crypto E) ses v blob ix now)) (\<lambda>r.
     let refused = (\<lambda>e. io_ok (report\<lparr>ad_rejected := ad_rejected report @ [(v, e)]\<rparr>))
     in case r of
       Inr _ \<Rightarrow>
         io_bind (on_channel (remove_key_blob (en_ship E) dir (ss_device_id ses))) (\<lambda>_.
         io_bind (store_root (en_ship E) v sync_root) (\<lambda>_.
         io_ok (report\<lparr>ad_adopted := ad_adopted report @ [v]\<rparr>)))
     | Inl (Vault (VaultInvalid msg)) \<Rightarrow>
         if msg = UNTRUSTED_SHARE_SENDER
         then io_ok (report\<lparr>ad_untrusted_sender := ad_untrusted_sender report @ [v]\<rparr>)
         else refused (VaultInvalid msg)
     | Inl (Vault DecryptionFailed) \<Rightarrow> refused DecryptionFailed
     | Inl e \<Rightarrow> io_err e)"

definition adopt_entry ::
  "engine_lib \<Rightarrow> 's store_ops \<Rightarrow> live_session \<Rightarrow> string \<Rightarrow> 'x \<Rightarrow> int \<Rightarrow> dir_entry \<Rightarrow> adopt_report \<Rightarrow> (('x, 's) site, adopt_report) io" where
  "adopt_entry E store ses sync_root ix now entry report =
     (if \<not> de_is_dir entry then io_ok report
      else case parse_uuid (en_ship E) (de_name entry) of None \<Rightarrow> io_ok report
      | Some v \<Rightarrow>
          let me = ss_device_id ses; report = report\<lparr>ad_vault_folders := ad_vault_folders report + 1\<rparr>
          in io_bind (on_channel (with_store (en_ship E) store v)) (\<lambda>dir.
             io_bind (on_channel (list_key_blob_recipients (en_ship E) dir)) (\<lambda>recipients.
             let report = report\<lparr>ad_shares_for_other_devices :=
                   ad_shares_for_other_devices report + length (filter (\<lambda>d. d \<noteq> me) recipients)\<rparr>
             in io_bind (on_channel (read_key_blob (en_ship E) dir me)) (\<lambda>blob.
                case blob of None \<Rightarrow> io_ok report
                | Some blob \<Rightarrow> adopt_blob E ses dir sync_root ix now v blob report))))"

definition adopt_scan ::
  "engine_lib \<Rightarrow> 's factory \<Rightarrow> live_session \<Rightarrow> 'x \<Rightarrow> int \<Rightarrow> string \<Rightarrow> (('x, 's) site, adopt_report) io" where
  "adopt_scan E factory ses ix now sync_root =
     io_bind (io_lift (factory sync_root)) (\<lambda>store.
     io_bind (on_channel (st_list_dir store sp_root)) (\<lambda>entries.
     io_fold (adopt_entry E store ses sync_root ix now) entries
       (empty_adopt\<lparr>ad_looks_like_vault_folder :=
          list_all (\<lambda>name. list_ex (\<lambda>e. de_is_dir e \<and> de_name e = name) entries) [''keys'', ''ops'']\<rparr>)))"

definition adopt :: "engine_lib \<Rightarrow> 's factory \<Rightarrow> live_session \<Rightarrow> 'x \<Rightarrow> int \<Rightarrow> string \<Rightarrow> (('x, 's) site, id list) io" where
  "adopt E factory ses ix now sync_root =
     io_bind (adopt_scan E factory ses ix now sync_root) (\<lambda>report. io_ok (ad_adopted report))"

end
