(* ===== verification/EngineSpec.thy ===== *)
theory EngineSpec
  imports Engine AttachSpec AccountSpec
begin

text \<open>
  What the sync engine guarantees: what a pull can change, whatever the channel holds; what a push
  puts on the channel and reports; and that the next pull of a peer brings it up to date.
\<close>

section \<open>What the parts of a pull change\<close>

lemma on_channel_frame:
  "on_channel m w = (r, w') \<Longrightarrow> si_home w' = si_home w \<and> si_profile w' = si_profile w"
  by (auto simp: on_channel_def io_on_def split: prod.splits)

lemma open_dir_frame:
  "open_dir lib factory v w = (r, w') \<Longrightarrow> si_home w' = si_home w \<and> si_profile w' = si_profile w"
  unfolding open_dir_def by (auto simp: io_bind_def split: prod.splits sum.splits dest: on_channel_frame)

lemma ask_vault_frame: "ask_vault f w = (r, w') \<Longrightarrow> w' = w"
  by (simp add: ask_vault_def)

text \<open>One fetched blob: the files only change by a checked write, and a tampered blob changes nothing.\<close>

lemma fetch_blob_step:
  assumes "fetch_blob E dir tmp hash report w = (r, w')" and "blobs_ok (en_att E) (hm_files (si_home w))"
  shows "blobs_ok (en_att E) (hm_files (si_home w'))" and "hm_db (si_home w') = hm_db (si_home w)"
    and "si_profile w' = si_profile w"
    and "r = Inr report' \<Longrightarrow> pl_attachments_tampered report' \<noteq> pl_attachments_tampered report \<Longrightarrow>
      pl_attachments_tampered report' = pl_attachments_tampered report @ [hash] \<and> si_home w' = si_home w"
proof -
  let ?B = "en_att E"
  obtain rb w1 where rd: "on_channel (read_attachment_blob dir hash) w = (rb, w1)" by fastforce
  note f1 = on_channel_frame [OF rd]
  have "blobs_ok ?B (hm_files (si_home w')) \<and> hm_db (si_home w') = hm_db (si_home w) \<and> si_profile w' = si_profile w \<and>
    (r = Inr report' \<longrightarrow> pl_attachments_tampered report' \<noteq> pl_attachments_tampered report \<longrightarrow>
      pl_attachments_tampered report' = pl_attachments_tampered report @ [hash] \<and> si_home w' = si_home w)"
  proof (cases "\<exists>bs. rb = Inr (Some bs)")
    case False
    then show ?thesis using assms rd f1 by (auto simp: fetch_blob_def io_bind_def split: sum.splits option.splits)
  next
    case True
    then obtain bs where bs: "rb = Inr (Some bs)" by blast
    obtain rs f where st: "store_vault_blob ?B (tmp hash) hash bs (hm_files (si_home w1)) = (rs, f)" by fastforce
    have ok: "blobs_ok ?B f" using blobs_ok_store [OF _ st] assms(2) f1 by simp
    have fin: "si_home w' = (si_home w)\<lparr>hm_files := f\<rparr>" "si_profile w' = si_profile w"
      using assms(1) rd bs st f1
      by (auto simp: fetch_blob_def io_bind_def io_try_def on_files_def split: sum.splits sync_error.splits vault_error.splits)
    have "f = hm_files (si_home w) \<and> pl_attachments_tampered report' = pl_attachments_tampered report @ [hash]"
      if "r = Inr report'" "pl_attachments_tampered report' \<noteq> pl_attachments_tampered report"
      using assms(1) rd bs st f1 that store_blob_cases [OF st]
      by (auto simp: fetch_blob_def io_bind_def io_try_def on_files_def write_blob_atomic_def
          split: sum.splits sync_error.splits vault_error.splits)
    with ok fin show ?thesis by simp
  qed
  then show "blobs_ok (en_att E) (hm_files (si_home w'))" "hm_db (si_home w') = hm_db (si_home w)" "si_profile w' = si_profile w"
    "r = Inr report' \<Longrightarrow> pl_attachments_tampered report' \<noteq> pl_attachments_tampered report \<Longrightarrow>
      pl_attachments_tampered report' = pl_attachments_tampered report @ [hash] \<and> si_home w' = si_home w"
    by blast+
qed

lemma io_bind_cases:
  assumes "io_bind m f s = (r, s')"
  obtains (fail) e where "m s = (Inl e, s')" "r = Inl e"
  | (ok) x s1 where "m s = (Inr x, s1)" "f x s1 = (r, s')"
  using assms by (auto simp: io_bind_def split: prod.splits sum.splits)

text \<open>The home with its blobs whole, the given database and the given profile.\<close>

definition holds_site :: "engine_lib \<Rightarrow> 'x vault_db \<Rightarrow> 'x profile \<Rightarrow> ('x, 's) site \<Rightarrow> bool" where
  "holds_site E db pf w \<longleftrightarrow> blobs_ok (en_att E) (hm_files (si_home w)) \<and> hm_db (si_home w) = db \<and> si_profile w = pf"

lemma holds_channel: "io_keeps (holds_site E db pf) (on_channel m)"
  by (simp add: io_keeps_def holds_site_def on_channel_frame [OF surjective_pairing])

lemma holds_fetch: "io_keeps (holds_site E db pf) (fetch_blob E dir tmp hash report)"
  by (simp add: io_keeps_def holds_site_def fetch_blob_step(1-3) [OF surjective_pairing])

lemma holds_missing: "io_keeps (holds_site E db pf) (missing_blobs E)"
  unfolding missing_blobs_def by (intro io_keeps_bind io_keeps_basic) (simp_all add: io_keeps_def ask_vault_def)

lemma holds_open: "io_keeps (holds_site E db pf) (open_dir lib factory v)"
  by (simp add: io_keeps_def holds_site_def open_dir_frame [OF surjective_pairing])

text \<open>The end of a pull: blobs and the key share.\<close>

lemma import_key_profile:
  assumes "import_key E ses dir v ix now blob w = (r, w')"
  shows "si_home w' = si_home w" and "si_profile w' = si_profile w \<or>
    (\<exists>fresh. import_shared_vault_key (en_crypto E) ses v blob ix now (si_profile w) = Inr (fresh, si_profile w'))"
proof -
  have "si_home w' = si_home w \<and> (si_profile w' = si_profile w \<or>
    (\<exists>fresh. import_shared_vault_key (en_crypto E) ses v blob ix now (si_profile w) = Inr (fresh, si_profile w')))"
    using assms unfolding import_key_def
  proof (cases rule: io_bind_cases)
    case (ok x s1)
    then show ?thesis
      by (auto simp: on_profile_def io_bind_def split: sum.splits prod.splits dest: on_channel_frame)
  qed (auto simp: on_profile_def split: sum.splits)
  then show "si_home w' = si_home w" "si_profile w' = si_profile w \<or>
    (\<exists>fresh. import_shared_vault_key (en_crypto E) ses v blob ix now (si_profile w) = Inr (fresh, si_profile w'))" by simp_all
qed

section \<open>What a push reports\<close>

lemma on_channel_Inr: "on_channel m w = (Inr x, w') \<longleftrightarrow> (\<exists>s. m (si_channel w) = (Inr x, s) \<and> w' = w\<lparr>si_channel := s\<rparr>)"
  by (auto simp: on_channel_def io_on_def split: prod.splits)

lemma push_run_Inr:
  assumes "push_run E dir d run report w = (Inr report', w')" and "run \<noteq> []"
  shows "\<exists>s s' hash. report' = report\<lparr>pu_segments_written := pu_segments_written report + 1\<rparr> \<and> w' = w\<lparr>si_channel := s'\<rparr> \<and>
    write_segment (en_ship E) dir run (si_channel w) = (Inr (Some (run_file (en_ship E) dir run)), s) \<and>
    write_head (en_ship E) dir d (seq (last run)) hash s = (Inr (), s')"
proof -
  obtain seg w1 where seg: "on_channel (write_segment (en_ship E) dir run) w = (Inr seg, w1)"
    and rest: "(case seg of None \<Rightarrow> io_ok report
     | Some seg \<Rightarrow>
         io_bind (io_lift (ok_or (Panic ''payload length fits u32'') (op_chain_hash (al_blake3 (en_att E)) (last run)))) (\<lambda>head_hash.
         io_bind (on_channel (write_head (en_ship E) dir d (sf_seq_hi seg) head_hash)) (\<lambda>_.
         io_ok (report\<lparr>pu_segments_written := pu_segments_written report + 1\<rparr>)))) w1 = (Inr report', w')"
    using assms(1) unfolding push_run_def io_bind_Inr by blast
  from seg obtain s where s: "write_segment (en_ship E) dir run (si_channel w) = (Inr seg, s)" "w1 = w\<lparr>si_channel := s\<rparr>"
    by (auto simp: on_channel_Inr)
  then have "seg = Some (run_file (en_ship E) dir run)" using assms(2) by (auto simp: write_segment_Inr)
  moreover have "sf_seq_hi (run_file (en_ship E) dir run) = seq (last run)" by (simp add: run_file_def Let_def)
  ultimately show ?thesis using rest s by (auto simp: io_bind_Inr on_channel_Inr)
qed

lemma sort_key_Nil [simp]: "sort_key f xs = [] \<longleftrightarrow> xs = []"
  using length_sort [of f xs] by (metis length_0_conv)

lemma last_sort_key:
  assumes "xs \<noteq> []"
  shows "last (sort_key f xs) \<in> set xs" and "x \<in> set xs \<Longrightarrow> f x \<le> f (last (sort_key f xs))"
proof -
  have ne: "sort_key f xs \<noteq> []" using assms by simp
  then show "last (sort_key f xs) \<in> set xs" using last_in_set [OF ne] by simp
  have "sorted (map f (butlast (sort_key f xs) @ [last (sort_key f xs)]))" using ne by simp
  then have "\<forall>y\<in>set (butlast (sort_key f xs)). f y \<le> f (last (sort_key f xs))"
    unfolding map_append sorted_append by simp
  moreover have "set xs = insert (last (sort_key f xs)) (set (butlast (sort_key f xs)))"
    using append_butlast_last_id [OF ne] by (metis list.set(2) set_append set_sort empty_set Un_insert_right sup_bot.right_neutral)
  ultimately show "x \<in> set xs \<Longrightarrow> f x \<le> f (last (sort_key f xs))" by auto
qed

definition published_of :: "(bytes \<times> stored_op list) \<Rightarrow> id \<times> u64" where
  "published_of dev_run = (Id (fst dev_run), seq (last (sort_key seq (snd dev_run))))"

lemma push_devices_Inr:
  assumes "io_fold (push_device E dir) devs (report, mf) w = (Inr (report', mf'), w')" and "\<forall>(d, ops)\<in>set devs. ops \<noteq> []"
  shows "pu_published report' = pu_published report @ map published_of devs \<and>
    pu_segments_written report' = pu_segments_written report + length devs \<and> (\<exists>s. w' = w\<lparr>si_channel := s\<rparr>)"
  using assms
proof (induction devs arbitrary: report mf w)
  case (Cons dev devs)
  obtain d ops where dev: "dev = (d, ops)" by (cases dev)
  let ?run = "sort_key seq ops"
  have ne: "?run \<noteq> []" using Cons.prems(2) by (simp add: dev)
  obtain report1 mf1 w1 where step: "push_device E dir (d, ops) (report, mf) w = (Inr (report1, mf1), w1)"
    and rest: "io_fold (push_device E dir) devs (report1, mf1) w1 = (Inr (report', mf'), w')"
    using Cons.prems(1) by (auto simp: io_bind_Inr dev)
  from step ne obtain report0 where "push_run E dir (Id d) ?run report w = (Inr report0, w1)"
    and "report1 = report0\<lparr>pu_published := pu_published report0 @ [(Id d, seq (last ?run))]\<rparr>"
    by (auto simp: push_device_def Let_def io_bind_Inr id_from_bytes_def)
  with push_run_Inr [OF _ ne] Cons.IH [OF rest] Cons.prems(2) show ?case
    by (fastforce simp: dev published_of_def)
qed (auto intro: exI [of _ "si_channel w'"])

lemma io_fold_frame:
  assumes "io_fold f xs acc w = (r, w')" and "\<And>x acc w. I w \<Longrightarrow> I (snd (f x acc w))" and "I w"
  shows "I w'"
  using io_keepsD [of I "io_fold f xs acc" w r w'] io_keeps_fold [of I f xs acc] assms by (auto simp: io_keeps_def)

section \<open>Properties\<close>

text \<open>
  A push that succeeds changes the channel only, and reports every device whose ops the
  vault holds with the last of their seqs; its count of written segments is the number of these
  devices, also when every segment was on the channel before and not one file was written.
\<close>

theorem push_report_exact:
  assumes "push E factory v w = (Inr report, w')"
  shows "\<exists>ops. stored_ops (hm_db (si_home w)) = Inr ops \<and> (\<exists>s. w' = w\<lparr>si_channel := s\<rparr>) \<and>
    pu_segments_written report = card (device_id ` set ops) \<and>
    set (pu_published report) = {(d, q). \<exists>op\<in>set ops. device_id op = d \<and> seq op = q \<and> (\<forall>o'\<in>set ops. device_id o' = d \<longrightarrow> seq o' \<le> q)}"
proof -
  obtain dir w1 ops where dir: "open_dir (en_ship E) factory v w = (Inr dir, w1)" and ops: "stored_ops (hm_db (si_home w1)) = Inr ops"
    and rest: "(let by_device = bt_group (\<lambda>op. as_bytes (device_id op)) ops;
         mf = \<lparr>mf_vault_id = to_hyphenated (en_ship E) v, mf_devices = []\<rparr>
     in io_bind (io_fold (push_device E dir) by_device (empty_push, mf)) (\<lambda>(report, mf).
        io_bind (on_channel (write_manifest (en_ship E) dir mf)) (\<lambda>_.
        io_bind (on_channel (list_attachment_blob_hashes dir)) (\<lambda>already.
        io_bind (ask_vault (\<lambda>h. local_attachment_hashes (en_att E) (hm_files h))) (\<lambda>hashes.
        io_bind (io_fold (ship_blob E dir (bs_of_list already)) hashes 0) (\<lambda>shipped.
        io_ok (report\<lparr>pu_attachments_shipped := shipped\<rparr>))))))) w1 = (Inr report, w')"
    using assms unfolding push_def by (auto simp: io_bind_Inr ask_vault_def map_err_Inr_iff)
  let ?g = "bt_group (\<lambda>op. as_bytes (device_id op)) ops"
  let ?I = "\<lambda>u. si_home u = si_home w \<and> si_profile u = si_profile w"
  have chan: "io_keeps ?I (on_channel m)" for m :: "('b, 'c) io"
    by (simp add: io_keeps_def on_channel_frame [OF surjective_pairing])
  have w1: "?I w1" using open_dir_frame [OF dir] .
  obtain report1 mf1 w2 w3 w4 already w5 hashes shipped where
    devs: "io_fold (push_device E dir) ?g (empty_push, \<lparr>mf_vault_id = to_hyphenated (en_ship E) v, mf_devices = []\<rparr>) w1 = (Inr (report1, mf1), w2)"
    and mf: "on_channel (write_manifest (en_ship E) dir mf1) w2 = (Inr (), w3)"
    and already: "on_channel (list_attachment_blob_hashes dir) w3 = (Inr already, w4)"
    and blobs: "io_fold (ship_blob E dir (bs_of_list already)) hashes 0 w4 = (Inr shipped, w')"
    and report: "report = report1\<lparr>pu_attachments_shipped := shipped\<rparr>"
    using rest unfolding Let_def by (auto simp: io_bind_Inr ask_vault_def)
  have "\<forall>(d, xs)\<in>set ?g. xs \<noteq> []"
  proof clarify
    fix k assume g: "(k, []) \<in> set ?g"
    from bt_group_mem(2) [OF g] obtain x where "x \<in> set (filter (\<lambda>op. as_bytes (device_id op) = k) ops)" by auto
    then show False unfolding bt_group_mem(1) [OF g, symmetric] by simp
  qed
  from push_devices_Inr [OF devs this] have
    pub: "pu_published report = map published_of ?g" and n: "pu_segments_written report = length ?g" and "?I w2"
    using w1 by (auto simp: report empty_push_def)
  then have "?I w4" using on_channel_frame [OF mf] on_channel_frame [OF already] by simp
  moreover have "io_keeps ?I (ship_blob E dir (bs_of_list already) h k)" for h k
    unfolding ship_blob_def
    by (auto intro!: io_keeps_bind chan simp: io_keeps_def ask_vault_def on_channel_frame [OF surjective_pairing] io_bind_def split: option.split prod.split sum.split dest: on_channel_frame)
  ultimately have "?I w'" using io_keepsD [OF io_keeps_fold _ blobs] by blast
  then have still: "\<exists>s. w' = w\<lparr>si_channel := s\<rparr>" by (intro exI [of _ "si_channel w'"]) simp
  have keys: "distinct (map fst ?g)" by (rule bt_wf_distinct) simp
  then have "length ?g = card (fst ` set ?g)" by (metis distinct_card length_map list.set_map)
  also have "\<dots> = card (as_bytes ` device_id ` set ops)" by (simp add: bt_group_keys image_image)
  also have "\<dots> = card (device_id ` set ops)" by (rule card_image) (simp add: inj_on_def id_eq_iff)
  finally have "pu_segments_written report = card (device_id ` set ops)" using n by simp
  moreover have "set (pu_published report) = {(d, q). \<exists>op\<in>set ops. device_id op = d \<and> seq op = q \<and> (\<forall>o'\<in>set ops. device_id o' = d \<longrightarrow> seq o' \<le> q)}"
    (is "_ = ?R")
  proof -
    have of: "(d, q) \<in> ?R \<longleftrightarrow> published_of (as_bytes d, filter (\<lambda>op. as_bytes (device_id op) = as_bytes d) ops) = (d, q)"
      if d: "d \<in> device_id ` set ops" for d q
    proof -
      let ?xs = "filter (\<lambda>op. as_bytes (device_id op) = as_bytes d) ops"
      have "?xs \<noteq> []" using d by (auto simp: filter_empty_conv)
      note l = last_sort_key [OF this, where f = seq]
      define m where "m = last (sort_key seq ?xs)"
      have m: "m \<in> set ops" "device_id m = d" and top: "\<And>x. x \<in> set ops \<Longrightarrow> device_id x = d \<Longrightarrow> seq x \<le> seq m"
        using l by (simp_all add: id_eq_iff m_def)
      have "(\<exists>op\<in>set ops. device_id op = d \<and> seq op = q \<and> (\<forall>o'\<in>set ops. device_id o' = d \<longrightarrow> seq o' \<le> q)) \<longleftrightarrow> seq m = q"
        using m top by (metis order_antisym)
      then show ?thesis by (simp add: published_of_def m_def id_eq_iff)
    qed
    let ?P = "\<lambda>d. published_of (as_bytes d, filter (\<lambda>op. as_bytes (device_id op) = as_bytes d) ops)"
    have "set (bt_keys ?g) = as_bytes ` device_id ` set ops"
      using bt_group_keys [of "\<lambda>op. as_bytes (device_id op)" ops] by (simp add: bt_keys_def image_image)
    then have "set ?g = (\<lambda>d. (as_bytes d, filter (\<lambda>op. as_bytes (device_id op) = as_bytes d) ops)) ` device_id ` set ops"
      using arg_cong [OF bt_group_eq_map [of "\<lambda>op. as_bytes (device_id op)" ops], of set] by (simp add: image_image)
    then have pubs: "set (pu_published report) = ?P ` device_id ` set ops" by (simp add: pub image_image)
    show ?thesis
    proof (rule set_eqI, clarify)
      fix d q
      have "(d, q) \<in> set (pu_published report) \<longleftrightarrow> d \<in> device_id ` set ops \<and> ?P d = (d, q)"
        unfolding pubs by (auto simp: published_of_def)
      moreover have "(d, q) \<in> ?R \<Longrightarrow> d \<in> device_id ` set ops" by auto
      ultimately show "(d, q) \<in> set (pu_published report) \<longleftrightarrow> (d, q) \<in> ?R"
        using of [of d q] by argo
    qed
  qed
  ultimately show ?thesis using still ops w1 by auto
qed

text \<open>
  Claim C30. Whatever the channel is and holds, a pull, also one that fails half-way, changes the
  vault's database only by one ingest of a batch, the profile only by importing a key share for this
  vault, and never leaves a blob in the vault's directory that does not hash to its name.
\<close>

theorem pull_confined:
  assumes "pull E factory env ses tmp ix now w = (r, w')" and "blobs_ok (en_att E) (hm_files (si_home w))"
  shows "blobs_ok (en_att E) (hm_files (si_home w')) \<and>
    (hm_db (si_home w') = hm_db (si_home w) \<or>
      (\<exists>ops rep. ingest (al_blake3 (en_att E)) (cl_ed_verify (en_crypto E)) (cl_vk_from_bytes (en_crypto E)) env (en_serde E)
         (ss_device_id ses) (pf_account (si_profile w)) now ops (hm_db (si_home w)) = Inr (rep, hm_db (si_home w')))) \<and>
    (si_profile w' = si_profile w \<or>
      (\<exists>blob fresh. import_shared_vault_key (en_crypto E) ses (ve_vault_id env) blob ix now (si_profile w) =
         Inr (fresh, si_profile w')))"
proof -
  define db pf where "db = hm_db (si_home w)" and "pf = si_profile w"
  define dbs where "dbs = {db'. db' = db \<or> (\<exists>ops rep. ingest (al_blake3 (en_att E)) (cl_ed_verify (en_crypto E))
      (cl_vk_from_bytes (en_crypto E)) env (en_serde E) (ss_device_id ses) (pf_account pf) now ops db = Inr (rep, db'))}"
  define P where "P w \<longleftrightarrow> (\<exists>db'\<in>dbs. holds_site E db' pf w)" for w :: "('a, 'b) site"
  have keep: "io_keeps (\<lambda>w. \<exists>db'\<in>dbs. holds_site E db' pf w) m" if "\<And>db'. io_keeps (holds_site E db' pf) m"
    for m :: "('a, 'b) site \<Rightarrow> (sync_error + 'c) \<times> ('a, 'b) site"
    using that by (auto simp: io_keeps_def)
  have start: "holds_site E db pf w" using assms(2) by (simp add: holds_site_def db_def pf_def)
  have stop: ?thesis if "P w'"
    using that by (auto simp: P_def dbs_def holds_site_def db_def pf_def)
  from assms(1)[unfolded pull_def Let_def] show ?thesis
  proof (cases rule: io_bind_cases)
    case (fail e)
    then show ?thesis using io_keepsD [OF holds_open start fail(1)] by (intro stop) (auto simp: P_def dbs_def)
  next
    case (ok dir w1)
    have w1: "holds_site E db pf w1" by (rule io_keepsD [OF holds_open start ok(1)])
    from ok(2) show ?thesis
    proof (cases rule: io_bind_cases)
      case (fail e)
      then show ?thesis using io_keepsD [OF holds_channel w1 fail(1)] by (intro stop) (auto simp: P_def dbs_def)
    next
      case (ok ops w2)
      have w2: "holds_site E db pf w2" by (rule io_keepsD [OF holds_channel w1 ok(1)])
      from ok(2) show ?thesis
      proof (cases rule: io_bind_cases)
        case (fail e)
        then have "w' = w2" by (auto simp: ingest_into_def split: sum.splits prod.splits)
        then show ?thesis using w2 by (intro stop) (auto simp: P_def dbs_def)
      next
        case (ok ingested w3)
        have w3: "P w3"
          using ok(1) w2 by (auto simp: ingest_into_def P_def dbs_def holds_site_def split: sum.splits prod.splits)
        from ok(2) show ?thesis
        proof (cases rule: io_bind_cases)
          case (fail e)
          then show ?thesis using io_keepsD [OF keep [OF holds_missing] _ fail(1)] w3 by (intro stop) (auto simp: P_def)
        next
          case (ok missing w4)
          have w4: "P w4" using io_keepsD [OF keep [OF holds_missing] _ ok(1)] w3 by (auto simp: P_def)
          from ok(2) show ?thesis
          proof (cases rule: io_bind_cases)
            case (fail e)
            then show ?thesis using io_keepsD [OF keep [OF io_keeps_fold [OF holds_fetch]] _ fail(1)] w4
              by (intro stop) (auto simp: P_def)
          next
            case (ok report w5)
            have w5: "P w5" using io_keepsD [OF keep [OF io_keeps_fold [OF holds_fetch]] _ ok(1)] w4 by (auto simp: P_def)
            from ok(2) show ?thesis
            proof (cases rule: io_bind_cases)
              case (fail e)
              then show ?thesis using io_keepsD [OF keep [OF holds_channel] _ fail(1)] w5 by (intro stop) (auto simp: P_def)
            next
              case (ok blob w6)
              have w6: "P w6" using io_keepsD [OF keep [OF holds_channel] _ ok(1)] w5 by (auto simp: P_def)
              show ?thesis
              proof (cases blob)
                case None
                then show ?thesis using ok(2) w6 by (intro stop) simp
              next
                case (Some bs)
                obtain q where "import_key E ses dir (ve_vault_id env) ix now bs w6 = (q, w')"
                  using ok(2) Some by (auto simp: io_bind_def split: prod.splits sum.splits)
                from import_key_profile [OF this] w6 show ?thesis
                  by (auto simp: P_def dbs_def holds_site_def db_def pf_def)
              qed
            qed
          qed
        qed
      qed
    qed
  qed
qed

section \<open>A concrete site\<close>

text \<open>An enrolled vault that holds one op, whose segment is on the channel.\<close>

definition ex_engine :: engine_lib where
  "ex_engine = \<lparr>en_ship = ex_ship_lib, en_att = ex_lib, en_crypto = ex_crypto, en_serde = ex_serde\<rparr>"

definition ex_factory :: "fs factory" where
  "ex_factory root = Inr (fs_store [root])"

definition ex_site :: "(unit, fs) site" where
  "ex_site = \<lparr>si_profile = \<lparr>pf_account = set_setting (sync_root_key ex_ship_lib ex_ship_vault) ''sync'' ex_account, pf_vaults = []\<rparr>,
     si_home = \<lparr>hm_db = ex_empty\<lparr>db_ops := [row_of wire_op]\<rparr>, hm_files = []\<rparr>, si_channel = ex_published (frame wire_op)\<rparr>"

lemma ex_reopened: "with_store ex_ship_lib (fs_store [''sync'']) ex_ship_vault (ex_published bs) = (Inr ex_sync_dir, ex_published bs)"
  by (simp add: with_store_def io_bind_def Let_def ex_published_def fs_eval)

lemma ex_site_open: "open_dir ex_ship_lib ex_factory ex_ship_vault ex_site = (Inr ex_sync_dir, ex_site)"
  by (simp add: open_dir_def ex_factory_def enrolled_root_def ex_site_def on_channel_def io_on_def ex_reopened)

lemma ex_site_segment:
  "write_segment ex_ship_lib ex_sync_dir [wire_op] (ex_published bs) =
     (Inr (Some (run_file ex_ship_lib ex_sync_dir [wire_op])), ex_published bs)"
proof -
  have "fs_store_create_dir_all [''sync''] (device_dir ex_ship_lib ex_sync_dir (device_id wire_op)) (ex_published bs) =
     (Inr (), ex_published bs)"
    by (simp add: ex_published_def fs_eval)
  moreover have "fs_store_exists [''sync''] (sf_path (run_file ex_ship_lib ex_sync_dir [wire_op])) (ex_published bs) =
      (Inr True, ex_published bs)"
    unfolding ex_run_file by (simp add: ex_published_def fs_store_exists_def fs_eval)
  ultimately show ?thesis
    unfolding write_segment_Inr by (auto simp: ex_sync_dir_def fs_store_select)
qed

definition ex_pushed :: "bytes \<Rightarrow> fs" where
  "ex_pushed bs = bt_insert (ex_root @ [''manifest.json'']) (FsFile [1]) (ex_later bs)"

lemma ex_site_head:
  "write_head ex_ship_lib ex_sync_dir (device_id wire_op) 1 h (ex_published bs) = (Inr (), ex_later bs)"
  using ex_head_written by (simp add: write_head_def ex_ship_lib_def)

lemma ex_site_manifest:
  assumes "length (mf_devices mf) = 1"
  shows "write_manifest ex_ship_lib ex_sync_dir mf (ex_later bs) = (Inr (), ex_pushed bs)"
  using assms
  by (simp add: ex_pushed_def ex_later_def ex_published_def write_manifest_def manifest_path_def MANIFEST_FILE_def ex_ship_lib_def
      fs_store_write_atomic_def write_atomic_on_def with_extension_def name_stem_def rsplit_once_def io_bind_def
      Let_def fs_write_def fs_rename_def fs_read_def bind_ok_def fs_unlink_def fs_eval)

lemma ex_site_blobs:
  "list_attachment_blob_hashes ex_sync_dir (ex_pushed bs) = (Inr [], ex_pushed bs)"
  "local_attachment_hashes ex_lib [] = Inr []"
proof -
  show "list_attachment_blob_hashes ex_sync_dir (ex_pushed bs) = (Inr [], ex_pushed bs)"
    by (simp add: list_attachment_blob_hashes_def io_try_def ATTACH_DIR_def ex_sync_dir_def fs_store_def fs_store_list_dir_def
        fs_read_dir_def ex_pushed_def ex_later_def ex_published_def is_not_found_def resolve_def sp_join_def sp_root_def
        fs_blocked_def fs_file_at_def fs_node_at_def upt_conv_Cons numeral_eq_Suc less_char_def)
  show "local_attachment_hashes ex_lib [] = Inr []"
    by (simp add: local_attachment_hashes_def ex_lib_def fs_read_dir_def fs_blocked_def fs_file_at_def fs_node_at_def)
qed

lemma ex_site_log: "stored_ops (hm_db (si_home ex_site)) = Inr [wire_op]"
proof -
  have "row_fits wire_op" using wire_op_ok
    by (simp add: row_fits_def wire_op_def i64_max_def oh_fits_def oh_new_def)
  then have "log_ok [row_of wire_op] [wire_op]" by (simp add: log_ok_def)
  then show ?thesis by (simp add: stored_ops_def read_ops_all ex_site_def)
qed

lemma push_report_exact_witness:
  "\<exists>report w'. push ex_engine ex_factory ex_ship_vault ex_site = (Inr report, w') \<and>
     fst (fs_store_exists [''sync''] (sf_path (run_file ex_ship_lib ex_sync_dir [wire_op])) (si_channel ex_site)) = Inr True \<and>
     pu_segments_written report = 1"
proof -
  let ?d = "device_id wire_op" and ?w = "ex_site\<lparr>si_channel := ex_later (frame wire_op)\<rparr>"
  let ?run = "\<lambda>rep. push_run ex_engine ex_sync_dir ?d [wire_op] rep ex_site"
  obtain h where hash: "op_chain_hash ex_hash wire_op = Some h"
    using wire_op_ok by (simp add: op_chain_hash_def encode_op_fits)
  have lib: "en_ship ex_engine = ex_ship_lib" "al_blake3 ex_lib = ex_hash" "en_att ex_engine = ex_lib"
    by (simp_all add: ex_engine_def ex_lib_def)
  have chan: "si_channel ex_site = ex_published (frame wire_op)" by (simp add: ex_site_def)
  have hi: "sf_seq_hi (run_file ex_ship_lib ex_sync_dir [wire_op]) = 1" by (simp add: run_file_def Let_def wire_op_def)
  have run: "?run rep = (Inr (rep\<lparr>pu_segments_written := pu_segments_written rep + 1\<rparr>), ?w)" for rep
    by (simp add: push_run_def io_bind_def on_channel_def io_on_def lib hash chan hi ex_site_segment ex_site_head)
  have group: "bt_group (\<lambda>op. as_bytes (device_id op)) [wire_op] = [(as_bytes ?d, [wire_op])]"
    by (simp add: bt_group_def bt_push_def bt_entry_def)
  have d: "id_from_bytes (as_bytes ?d) = ?d" by (simp add: id_from_bytes_def)
  have files: "hm_files (si_home ex_site) = []" by (simp add: ex_site_def)
  obtain report w' where p: "push ex_engine ex_factory ex_ship_vault ex_site = (Inr report, w')"
    by (simp add: push_def io_bind_def lib ex_site_open ask_vault_def ex_site_log Let_def group push_device_def d run
        on_channel_def io_on_def ex_site_manifest ex_site_blobs files)
  have "fst (fs_store_exists [''sync''] (sf_path (run_file ex_ship_lib ex_sync_dir [wire_op])) (si_channel ex_site)) = Inr True"
    unfolding ex_run_file chan by (simp add: ex_published_def fs_store_exists_def fs_eval)
  with push_report_exact [OF p] p show ?thesis by (auto simp: ex_site_log)
qed

lemma pull_confined_witness:
  "\<exists>r w'. pull ex_engine ex_factory ex_vault (ex_ses 1) (\<lambda>_. ex_id 21) () 500 ex_site = (r, w') \<and>
     blobs_ok ex_lib (hm_files (si_home w'))"
proof -
  obtain r w' where p: "pull ex_engine ex_factory ex_vault (ex_ses 1) (\<lambda>_. ex_id 21) () 500 ex_site = (r, w')" by fastforce
  have "blobs_ok (en_att ex_engine) (hm_files (si_home ex_site))"
    by (simp add: ex_site_def blobs_ok_def fs_ok_def fs_read_def fs_node_at_def split: if_splits)
  from pull_confined [OF p this] p show ?thesis by (auto simp: ex_engine_def)
qed

end
