(* ===== verification/Protocol.thy ===== *)
theory Protocol
  imports AuditLog Payload
begin

text \<open>
  The messages of the daemon's socket (\<open>lp-daemon/src/protocol.rs\<close>): requests, responses, the records they
  carry and the refusals of agent-triggered autofill. \<open>serde_json::Value\<close> is the type \<open>json\<close>, an \<open>f64\<close> its bits.
\<close>

section \<open>Wire records\<close>

record wire_field =
  wf_name :: string
  wf_value :: string
  wf_secret :: bool

record wire_item =
  wi_id :: string
  wi_title :: string
  wi_type_str :: string
  wi_version :: int
  wi_created_at :: int
  wi_updated_at :: int
  wi_tags :: "string list"
  wi_favorite :: bool
  wi_notes :: string
  wi_fields :: "wire_field list"

record wire_version =
  wv_version :: int
  wv_created_at :: int
  wv_title :: string
  wv_type_str :: string

record wire_item_summary =
  ws_id :: string
  ws_title :: string
  ws_type_str :: string
  ws_updated_at :: int
  ws_tags :: "string list"

record wire_trash_entry =
  wt_id :: string
  wt_title :: string
  wt_type_str :: string
  wt_deleted_at :: int
  wt_purge_after :: int

record wire_password_health =
  wh_item_id :: string
  wh_title :: string
  wh_field :: string
  wh_length :: nat
  wh_entropy_bits :: "64 word"
  wh_strength :: string
  wh_issues :: "string list"
  wh_reuse_group :: "u32 option"
  wh_age_days :: "int option"

record login_candidate =
  lc_item_id :: string
  lc_title :: string
  lc_username :: string
  lc_vault :: string

record wire_peer =
  wp_device_id :: string
  wp_fingerprint :: string
  wp_label :: "string option"
  wp_verified_at :: int

record wire_sync_device =
  wd_device_id :: string
  wd_is_self :: bool
  wd_trusted :: bool
  wd_local_seq :: u64
  wd_channel_seq :: u64

record wire_pending_device =
  wn_device_id :: string
  wn_identity_string :: string
  wn_fingerprint :: string
  wn_label :: "string option"
  wn_announced_at :: u64

record wire_adopted_vault =
  wa_vault_id :: string
  wa_name :: string

record wire_nearby_vault =
  wq_vault_id :: string
  wq_name :: string
  wq_ops_sent :: nat
  wq_applied :: nat
  wq_pending :: nat
  wq_blobs_sent :: nat
  wq_blobs_fetched :: nat
  wq_blobs_pending :: nat

record wire_nearby_report =
  wr_peer_device_id :: string
  wr_peer_label :: "string option"
  wr_vaults :: "wire_nearby_vault list"
  wr_shared :: "string list"
  wr_adopted :: "wire_adopted_vault list"
  wr_alarms :: "string list"

record wire_qr_vault =
  wu_vault_id :: string
  wu_name :: string
  wu_ops :: nat
  wu_applied :: nat
  wu_skipped :: nat
  wu_pending :: nat
  wu_blobs_stored :: nat
  wu_blobs_missing :: nat

record wire_qr_export =
  we_bytes :: nat
  we_transfer_id :: string
  we_recipient :: "string option"
  we_recipient_label :: "string option"
  we_vaults :: "wire_qr_vault list"
  we_shared :: "string list"
  we_blobs :: nat
  we_blobs_left_out :: nat

record wire_qr_import =
  wm_sender_device_id :: string
  wm_sender_label :: "string option"
  wm_sender_trusted :: bool
  wm_for_another_device :: bool
  wm_vaults :: "wire_qr_vault list"
  wm_not_held :: "string list"
  wm_adopted :: "wire_adopted_vault list"
  wm_alarms :: "string list"

record wire_nearby_outcome =
  wo_role :: string
  wo_result :: string
  wo_error :: "string option"
  wo_report :: "wire_nearby_report option"

record wire_attachment =
  wx_attachment_id :: string
  wx_filename :: string
  wx_size :: int

record wire_audit_record =
  wl_seq :: u64
  wl_timestamp :: int
  wl_device_id :: string
  wl_kind :: string
  wl_item_id :: "string option"
  wl_vault_id :: "string option"
  wl_peer_device_id :: "string option"
  wl_field :: "string option"
  wl_export_format :: "string option"
  wl_item_count :: "u64 option"
  wl_deny_reason :: "string option"
  wl_source :: "string option"
  wl_process :: "string option"
  wl_pid :: "u32 option"
  wl_detail :: "string option"

record wire_origin =
  wg_source :: string
  wg_process :: "string option"
  wg_pid :: "u32 option"

section \<open>Agent-triggered autofill\<close>

datatype fill_field = FillUsername | FillPassword

datatype field_state = FieldEmpty | FieldFilled

record field_states =
  fs_username :: "field_state option"
  fs_password :: "field_state option"

datatype fill_refusal = RfAgentFillNotArmed | RfItemNotArmed | RfLocked | RfItemNotFound | RfAmbiguousItem | RfOriginMismatch | RfTabNotFound | RfAmbiguousTab | RfOriginChanged | RfIntentExpired | RfFieldNotEmpty | RfExtensionUnavailable | RfNoLoginForm | RfPageAccessDenied | RfInjectionFailed

record fill_report =
  fr_filled :: bool
  fr_fields :: "fill_field list"
  fr_before :: field_states
  fr_after :: field_states
  fr_reason :: "fill_refusal option"

primrec refusal_token :: "fill_refusal \<Rightarrow> string" where
  "refusal_token RfAgentFillNotArmed = ''agent_fill_not_armed''"
| "refusal_token RfItemNotArmed = ''item_not_armed''"
| "refusal_token RfLocked = ''locked''"
| "refusal_token RfItemNotFound = ''item_not_found''"
| "refusal_token RfAmbiguousItem = ''ambiguous_item''"
| "refusal_token RfOriginMismatch = ''origin_mismatch''"
| "refusal_token RfTabNotFound = ''tab_not_found''"
| "refusal_token RfAmbiguousTab = ''ambiguous_tab''"
| "refusal_token RfOriginChanged = ''origin_changed''"
| "refusal_token RfIntentExpired = ''intent_expired''"
| "refusal_token RfFieldNotEmpty = ''field_not_empty''"
| "refusal_token RfExtensionUnavailable = ''extension_unavailable''"
| "refusal_token RfNoLoginForm = ''no_login_form''"
| "refusal_token RfPageAccessDenied = ''page_access_denied''"
| "refusal_token RfInjectionFailed = ''injection_failed''"

fun refusal_deny_reason :: "fill_refusal \<Rightarrow> deny_reason option" where
  "refusal_deny_reason RfAgentFillNotArmed = Some DenyAgentFillNotArmed"
| "refusal_deny_reason RfItemNotArmed = Some DenyItemNotArmed"
| "refusal_deny_reason RfLocked = Some DenyLocked"
| "refusal_deny_reason RfOriginMismatch = Some DenyOriginMismatch"
| "refusal_deny_reason RfTabNotFound = Some DenyTabNotFound"
| "refusal_deny_reason RfAmbiguousTab = Some DenyAmbiguousTab"
| "refusal_deny_reason RfOriginChanged = Some DenyOriginChanged"
| "refusal_deny_reason RfIntentExpired = Some DenyIntentExpired"
| "refusal_deny_reason RfFieldNotEmpty = Some DenyFieldNotEmpty"
| "refusal_deny_reason RfNoLoginForm = Some DenyNoLoginForm"
| "refusal_deny_reason RfPageAccessDenied = Some DenyPageAccessDenied"
| "refusal_deny_reason RfInjectionFailed = Some DenyInjectionFailed"
| "refusal_deny_reason _ = None"

datatype fill_status = FsNone | FsPending | FsTaken | FsReported | FsExpired

datatype lock_state = LsUnlocked | LsLocked

section \<open>Requests\<close>

datatype (plugins only: size) request =
    RqPing
  | RqStatus string bool
  | RqUnlock string string "string option" "u64 option"
  | RqCreateAccount string string
  | RqLock
  | RqListVaults string
  | RqCreateVault string string
  | RqDeleteVault string string
  | RqListItems string string
  | RqPasswordHealth string string
  | RqGetItem string string string "int option" bool
  | RqHistory string string string
  | RqSearch string string string "string option"
  | RqTotp string string string
  | RqResolveField string string string string
  | RqGetRawPayload string string string
  | RqCreateItem string string json
  | RqUpdateItem string string string json
  | RqDeleteItem string string string
  | RqRestoreVersion string string string int
  | RqListTrash string string
  | RqUntrashItem string string string
  | RqMatchLogins string string
  | RqFillLogin string string string
  | RqExportIdentity string
  | RqListPeers string
  | RqTrustDevice string string string "string option"
  | RqSetPairingMode string bool
  | RqSetAgentFillMode string bool "string list" "string option"
  | RqArmFillIntent string string "u64 option" string bool "string option"
  | RqTakeFillIntent string
  | RqReportFillOutcome string string fill_report
  | RqPollFillOutcome string
  | RqSyncSetup string string string
  | RqSyncPush string string
  | RqSyncPull string string
  | RqSyncStatus string string
  | RqShareVaultToDevice string string string
  | RqSyncAdopt string string
  | RqListPendingDevices string string
  | RqNearbyListen string "string option" "(16 word) option" "u64 option" "string option" "string list"
  | RqNearbyConnect string string "string option" "string list"
  | RqNearbyStatus string
  | RqNearbyStop string
  | RqQrHaveCode string "string list"
  | RqQrExport string string "string list" "string option" "string option" "string list" bool bool
  | RqQrImport string string "string option"
  | RqAddAttachment string string string string string
  | RqListAttachments string string string
  | RqGetAttachment string string string string string bool
  | RqDeleteAttachment string string string string
  | RqGetEnvSet string string string
  | RqAuditList string "u32 option" "int option"
  | RqBeginAgentSession string
  | RqConfirmPresence string string
  | RqShutdown

primrec rq_kind :: "request \<Rightarrow> string" where
  "rq_kind RqPing = ''Ping''"
| "rq_kind (RqStatus x0 x1) = ''Status''"
| "rq_kind (RqUnlock x0 x1 x2 x3) = ''Unlock''"
| "rq_kind (RqCreateAccount x0 x1) = ''CreateAccount''"
| "rq_kind RqLock = ''Lock''"
| "rq_kind (RqListVaults x0) = ''ListVaults''"
| "rq_kind (RqCreateVault x0 x1) = ''CreateVault''"
| "rq_kind (RqDeleteVault x0 x1) = ''DeleteVault''"
| "rq_kind (RqListItems x0 x1) = ''ListItems''"
| "rq_kind (RqPasswordHealth x0 x1) = ''PasswordHealth''"
| "rq_kind (RqGetItem x0 x1 x2 x3 x4) = ''GetItem''"
| "rq_kind (RqHistory x0 x1 x2) = ''History''"
| "rq_kind (RqSearch x0 x1 x2 x3) = ''Search''"
| "rq_kind (RqTotp x0 x1 x2) = ''Totp''"
| "rq_kind (RqResolveField x0 x1 x2 x3) = ''ResolveField''"
| "rq_kind (RqGetRawPayload x0 x1 x2) = ''GetRawPayload''"
| "rq_kind (RqCreateItem x0 x1 x2) = ''CreateItem''"
| "rq_kind (RqUpdateItem x0 x1 x2 x3) = ''UpdateItem''"
| "rq_kind (RqDeleteItem x0 x1 x2) = ''DeleteItem''"
| "rq_kind (RqRestoreVersion x0 x1 x2 x3) = ''RestoreVersion''"
| "rq_kind (RqListTrash x0 x1) = ''ListTrash''"
| "rq_kind (RqUntrashItem x0 x1 x2) = ''UntrashItem''"
| "rq_kind (RqMatchLogins x0 x1) = ''MatchLogins''"
| "rq_kind (RqFillLogin x0 x1 x2) = ''FillLogin''"
| "rq_kind (RqExportIdentity x0) = ''ExportIdentity''"
| "rq_kind (RqListPeers x0) = ''ListPeers''"
| "rq_kind (RqTrustDevice x0 x1 x2 x3) = ''TrustDevice''"
| "rq_kind (RqSetPairingMode x0 x1) = ''SetPairingMode''"
| "rq_kind (RqSetAgentFillMode x0 x1 x2 x3) = ''SetAgentFillMode''"
| "rq_kind (RqArmFillIntent x0 x1 x2 x3 x4 x5) = ''ArmFillIntent''"
| "rq_kind (RqTakeFillIntent x0) = ''TakeFillIntent''"
| "rq_kind (RqReportFillOutcome x0 x1 x2) = ''ReportFillOutcome''"
| "rq_kind (RqPollFillOutcome x0) = ''PollFillOutcome''"
| "rq_kind (RqSyncSetup x0 x1 x2) = ''SyncSetup''"
| "rq_kind (RqSyncPush x0 x1) = ''SyncPush''"
| "rq_kind (RqSyncPull x0 x1) = ''SyncPull''"
| "rq_kind (RqSyncStatus x0 x1) = ''SyncStatus''"
| "rq_kind (RqShareVaultToDevice x0 x1 x2) = ''ShareVaultToDevice''"
| "rq_kind (RqSyncAdopt x0 x1) = ''SyncAdopt''"
| "rq_kind (RqListPendingDevices x0 x1) = ''ListPendingDevices''"
| "rq_kind (RqNearbyListen x0 x1 x2 x3 x4 x5) = ''NearbyListen''"
| "rq_kind (RqNearbyConnect x0 x1 x2 x3) = ''NearbyConnect''"
| "rq_kind (RqNearbyStatus x0) = ''NearbyStatus''"
| "rq_kind (RqNearbyStop x0) = ''NearbyStop''"
| "rq_kind (RqQrHaveCode x0 x1) = ''QrHaveCode''"
| "rq_kind (RqQrExport x0 x1 x2 x3 x4 x5 x6 x7) = ''QrExport''"
| "rq_kind (RqQrImport x0 x1 x2) = ''QrImport''"
| "rq_kind (RqAddAttachment x0 x1 x2 x3 x4) = ''AddAttachment''"
| "rq_kind (RqListAttachments x0 x1 x2) = ''ListAttachments''"
| "rq_kind (RqGetAttachment x0 x1 x2 x3 x4 x5) = ''GetAttachment''"
| "rq_kind (RqDeleteAttachment x0 x1 x2 x3) = ''DeleteAttachment''"
| "rq_kind (RqGetEnvSet x0 x1 x2) = ''GetEnvSet''"
| "rq_kind (RqAuditList x0 x1 x2) = ''AuditList''"
| "rq_kind (RqBeginAgentSession x0) = ''BeginAgentSession''"
| "rq_kind (RqConfirmPresence x0 x1) = ''ConfirmPresence''"
| "rq_kind RqShutdown = ''Shutdown''"

primrec rq_profile :: "request \<Rightarrow> string option" where
  "rq_profile RqPing = None"
| "rq_profile (RqStatus p x0) = Some p"
| "rq_profile (RqUnlock p x0 x1 x2) = Some p"
| "rq_profile (RqCreateAccount p x0) = Some p"
| "rq_profile RqLock = None"
| "rq_profile (RqListVaults p) = Some p"
| "rq_profile (RqCreateVault p x0) = Some p"
| "rq_profile (RqDeleteVault p x0) = Some p"
| "rq_profile (RqListItems p x0) = Some p"
| "rq_profile (RqPasswordHealth p x0) = Some p"
| "rq_profile (RqGetItem p x0 x1 x2 x3) = Some p"
| "rq_profile (RqHistory p x0 x1) = Some p"
| "rq_profile (RqSearch p x0 x1 x2) = Some p"
| "rq_profile (RqTotp p x0 x1) = Some p"
| "rq_profile (RqResolveField p x0 x1 x2) = Some p"
| "rq_profile (RqGetRawPayload p x0 x1) = Some p"
| "rq_profile (RqCreateItem p x0 x1) = Some p"
| "rq_profile (RqUpdateItem p x0 x1 x2) = Some p"
| "rq_profile (RqDeleteItem p x0 x1) = Some p"
| "rq_profile (RqRestoreVersion p x0 x1 x2) = Some p"
| "rq_profile (RqListTrash p x0) = Some p"
| "rq_profile (RqUntrashItem p x0 x1) = Some p"
| "rq_profile (RqMatchLogins p x0) = Some p"
| "rq_profile (RqFillLogin p x0 x1) = Some p"
| "rq_profile (RqExportIdentity p) = Some p"
| "rq_profile (RqListPeers p) = Some p"
| "rq_profile (RqTrustDevice p x0 x1 x2) = Some p"
| "rq_profile (RqSetPairingMode p x0) = Some p"
| "rq_profile (RqSetAgentFillMode p x0 x1 x2) = Some p"
| "rq_profile (RqArmFillIntent p x0 x1 x2 x3 x4) = Some p"
| "rq_profile (RqTakeFillIntent p) = Some p"
| "rq_profile (RqReportFillOutcome p x0 x1) = Some p"
| "rq_profile (RqPollFillOutcome p) = Some p"
| "rq_profile (RqSyncSetup p x0 x1) = Some p"
| "rq_profile (RqSyncPush p x0) = Some p"
| "rq_profile (RqSyncPull p x0) = Some p"
| "rq_profile (RqSyncStatus p x0) = Some p"
| "rq_profile (RqShareVaultToDevice p x0 x1) = Some p"
| "rq_profile (RqSyncAdopt p x0) = Some p"
| "rq_profile (RqListPendingDevices p x0) = Some p"
| "rq_profile (RqNearbyListen p x0 x1 x2 x3 x4) = Some p"
| "rq_profile (RqNearbyConnect p x0 x1 x2) = Some p"
| "rq_profile (RqNearbyStatus p) = Some p"
| "rq_profile (RqNearbyStop p) = Some p"
| "rq_profile (RqQrHaveCode p x0) = Some p"
| "rq_profile (RqQrExport p x0 x1 x2 x3 x4 x5 x6) = Some p"
| "rq_profile (RqQrImport p x0 x1) = Some p"
| "rq_profile (RqAddAttachment p x0 x1 x2 x3) = Some p"
| "rq_profile (RqListAttachments p x0 x1) = Some p"
| "rq_profile (RqGetAttachment p x0 x1 x2 x3 x4) = Some p"
| "rq_profile (RqDeleteAttachment p x0 x1 x2) = Some p"
| "rq_profile (RqGetEnvSet p x0 x1) = Some p"
| "rq_profile (RqAuditList p x0 x1) = Some p"
| "rq_profile (RqBeginAgentSession p) = Some p"
| "rq_profile (RqConfirmPresence p x0) = Some p"
| "rq_profile RqShutdown = None"

fun needs_presence :: "request \<Rightarrow> bool" where
  "needs_presence (RqSetAgentFillMode _ on _ _) \<longleftrightarrow> on"
| "needs_presence (RqSetPairingMode _ enabled) \<longleftrightarrow> enabled"
| "needs_presence (RqNearbyConnect _ _ _ share) \<longleftrightarrow> share \<noteq> []"
| "needs_presence (RqQrExport _ _ _ _ _ share _ _) \<longleftrightarrow> share \<noteq> []"
| "needs_presence (RqNearbyListen _ _ _ _ _ _) \<longleftrightarrow> True"
| "needs_presence (RqTrustDevice _ _ _ _) \<longleftrightarrow> True"
| "needs_presence (RqShareVaultToDevice _ _ _) \<longleftrightarrow> True"
| "needs_presence (RqSyncSetup _ _ _) \<longleftrightarrow> True"
| "needs_presence (RqCreateVault _ _) \<longleftrightarrow> True"
| "needs_presence (RqDeleteVault _ _) \<longleftrightarrow> True"
| "needs_presence (RqCreateItem _ _ _) \<longleftrightarrow> True"
| "needs_presence (RqUpdateItem _ _ _ _) \<longleftrightarrow> True"
| "needs_presence (RqDeleteItem _ _ _) \<longleftrightarrow> True"
| "needs_presence (RqRestoreVersion _ _ _ _) \<longleftrightarrow> True"
| "needs_presence (RqUntrashItem _ _ _) \<longleftrightarrow> True"
| "needs_presence (RqAddAttachment _ _ _ _ _) \<longleftrightarrow> True"
| "needs_presence (RqDeleteAttachment _ _ _ _) \<longleftrightarrow> True"
| "needs_presence _ \<longleftrightarrow> False"

text \<open>What \<open>zeroize_secrets\<close> leaves of a request: emptied strings.\<close>

fun zeroize_secrets :: "request \<Rightarrow> request" where
  "zeroize_secrets (RqUnlock p pw sk al) = RqUnlock p [] (map_option (\<lambda>_. []) sk) al"
| "zeroize_secrets (RqCreateAccount p pw) = RqCreateAccount p []"
| "zeroize_secrets (RqConfirmPresence p pw) = RqConfirmPresence p []"
| "zeroize_secrets r = r"

section \<open>Responses\<close>

datatype (plugins only: size) response =
    RsPong
  | RsStatus lock_state string "nat option" u64 "u64 option" "string option" nat "u64 option" "u64 option" bool
  | RsOk "string option"
  | RsAccountCreated string string nat
  | RsVaults "(string \<times> string) list"
  | RsItems "wire_item_summary list"
  | RsPasswordHealth "wire_password_health list"
  | RsTrashEntries "wire_trash_entry list"
  | RsVersions string "wire_version list"
  | RsItem wire_item
  | RsTotp string u32 u32 u32 string
  | RsField string
  | RsRawPayload string json
  | RsLoginCandidates "login_candidate list"
  | RsFill string string
  | RsDeviceIdentity string string string
  | RsPeers "wire_peer list"
  | RsPeerTrusted string string "string option"
  | RsSyncPushed nat nat
  | RsSyncPulled nat nat bool "string list"
  | RsSyncStatus bool "string option" "wire_sync_device list" nat "string list"
  | RsSyncAdopted "wire_adopted_vault list" nat "string list" nat nat nat bool
  | RsNearbyListening "string list" "16 word" u64
  | RsNearbyStatus bool "string list" "(16 word) option" "u64 option" "wire_nearby_outcome option"
  | RsNearbySynced wire_nearby_report
  | RsQrHaveCode string nat
  | RsQrExported wire_qr_export
  | RsQrImported wire_qr_import
  | RsPendingDevices "wire_pending_device list"
  | RsAttachment string string
  | RsAttachments "wire_attachment list"
  | RsAttachmentSaved string u64
  | RsEnvEntries "(string \<times> string) list"
  | RsAuditRecords "wire_audit_record list"
  | RsFillIntentArmed u64 string
  | RsFillIntent string "u64 option" string u64 bool
  | RsNoFillIntent
  | RsFillOutcome fill_status "string option" "u64 option" "string option" "fill_report option"
  | RsFillRefused fill_refusal
  | RsLocked
  | RsPresenceGrant string u64
  | RsPresenceRequired string
  | RsWrongProfile string
  | RsError bool string

primrec rs_kind :: "response \<Rightarrow> string" where
  "rs_kind RsPong = ''Pong''"
| "rs_kind (RsStatus x0 x1 x2 x3 x4 x5 x6 x7 x8 x9) = ''Status''"
| "rs_kind (RsOk x0) = ''Ok''"
| "rs_kind (RsAccountCreated x0 x1 x2) = ''AccountCreated''"
| "rs_kind (RsVaults x0) = ''Vaults''"
| "rs_kind (RsItems x0) = ''Items''"
| "rs_kind (RsPasswordHealth x0) = ''PasswordHealth''"
| "rs_kind (RsTrashEntries x0) = ''TrashEntries''"
| "rs_kind (RsVersions x0 x1) = ''Versions''"
| "rs_kind (RsItem x0) = ''Item''"
| "rs_kind (RsTotp x0 x1 x2 x3 x4) = ''Totp''"
| "rs_kind (RsField x0) = ''Field''"
| "rs_kind (RsRawPayload x0 x1) = ''RawPayload''"
| "rs_kind (RsLoginCandidates x0) = ''LoginCandidates''"
| "rs_kind (RsFill x0 x1) = ''Fill''"
| "rs_kind (RsDeviceIdentity x0 x1 x2) = ''DeviceIdentity''"
| "rs_kind (RsPeers x0) = ''Peers''"
| "rs_kind (RsPeerTrusted x0 x1 x2) = ''PeerTrusted''"
| "rs_kind (RsSyncPushed x0 x1) = ''SyncPushed''"
| "rs_kind (RsSyncPulled x0 x1 x2 x3) = ''SyncPulled''"
| "rs_kind (RsSyncStatus x0 x1 x2 x3 x4) = ''SyncStatus''"
| "rs_kind (RsSyncAdopted x0 x1 x2 x3 x4 x5 x6) = ''SyncAdopted''"
| "rs_kind (RsNearbyListening x0 x1 x2) = ''NearbyListening''"
| "rs_kind (RsNearbyStatus x0 x1 x2 x3 x4) = ''NearbyStatus''"
| "rs_kind (RsNearbySynced x0) = ''NearbySynced''"
| "rs_kind (RsQrHaveCode x0 x1) = ''QrHaveCode''"
| "rs_kind (RsQrExported x0) = ''QrExported''"
| "rs_kind (RsQrImported x0) = ''QrImported''"
| "rs_kind (RsPendingDevices x0) = ''PendingDevices''"
| "rs_kind (RsAttachment x0 x1) = ''Attachment''"
| "rs_kind (RsAttachments x0) = ''Attachments''"
| "rs_kind (RsAttachmentSaved x0 x1) = ''AttachmentSaved''"
| "rs_kind (RsEnvEntries x0) = ''EnvEntries''"
| "rs_kind (RsAuditRecords x0) = ''AuditRecords''"
| "rs_kind (RsFillIntentArmed x0 x1) = ''FillIntentArmed''"
| "rs_kind (RsFillIntent x0 x1 x2 x3 x4) = ''FillIntent''"
| "rs_kind RsNoFillIntent = ''NoFillIntent''"
| "rs_kind (RsFillOutcome x0 x1 x2 x3 x4) = ''FillOutcome''"
| "rs_kind (RsFillRefused x0) = ''FillRefused''"
| "rs_kind RsLocked = ''Locked''"
| "rs_kind (RsPresenceGrant x0 x1) = ''PresenceGrant''"
| "rs_kind (RsPresenceRequired x0) = ''PresenceRequired''"
| "rs_kind (RsWrongProfile x0) = ''WrongProfile''"
| "rs_kind (RsError x0 x1) = ''Error''"


end
