(* ===== verification/Origin.thy ===== *)
theory Origin
  imports Text
begin

text \<open>
  The origin matching of browser autofill (\<open>lp-daemon/src/origin.rs\<close>): the host of an origin or URL, its
  registrable domain, and the predicate both the candidate filter and the reveal check rest on.
  The theorems say what a match means in terms of labels, and where the host extraction goes wrong.
\<close>

section \<open>String routines\<close>

text \<open>\<open>char::is_whitespace\<close> (the Unicode property \<open>White_Space\<close>), each character as its UTF-8 bytes.\<close>

definition whitespace :: "string list" where
  "whitespace =
     [[CHR 0x09], [CHR 0x0A], [CHR 0x0B], [CHR 0x0C], [CHR 0x0D], [CHR 0x20], [CHR 0xC2, CHR 0x85],
      [CHR 0xC2, CHR 0xA0], [CHR 0xE1, CHR 0x9A, CHR 0x80], [CHR 0xE2, CHR 0x80, CHR 0x80],
      [CHR 0xE2, CHR 0x80, CHR 0x81], [CHR 0xE2, CHR 0x80, CHR 0x82], [CHR 0xE2, CHR 0x80, CHR 0x83],
      [CHR 0xE2, CHR 0x80, CHR 0x84], [CHR 0xE2, CHR 0x80, CHR 0x85], [CHR 0xE2, CHR 0x80, CHR 0x86],
      [CHR 0xE2, CHR 0x80, CHR 0x87], [CHR 0xE2, CHR 0x80, CHR 0x88], [CHR 0xE2, CHR 0x80, CHR 0x89],
      [CHR 0xE2, CHR 0x80, CHR 0x8A], [CHR 0xE2, CHR 0x80, CHR 0xA8], [CHR 0xE2, CHR 0x80, CHR 0xA9],
      [CHR 0xE2, CHR 0x80, CHR 0xAF], [CHR 0xE2, CHR 0x81, CHR 0x9F], [CHR 0xE3, CHR 0x80, CHR 0x80]]"

text \<open>Strip pieces off the front while one of them is there.\<close>

function strip_pieces :: "string list \<Rightarrow> string \<Rightarrow> string" where
  "strip_pieces ws s =
     (case List.find (\<lambda>w. w \<noteq> [] \<and> take (length w) s = w) ws of None \<Rightarrow> s
      | Some w \<Rightarrow> strip_pieces ws (drop (length w) s))"
  by pat_completeness auto
termination
proof (relation "measure (\<lambda>(ws, s). length s)")
  fix ws :: "string list" and s w
  assume "List.find (\<lambda>w. w \<noteq> [] \<and> take (length w) s = w) ws = Some w"
  then have "w \<noteq> []" and "take (length w) s = w" by (auto simp: find_Some_iff)
  then have "length w \<le> length s" by (metis length_take min.cobounded2 min.commute)
  then show "((ws, drop (length w) s), ws, s) \<in> measure (\<lambda>(ws, s). length s)" using \<open>w \<noteq> []\<close> by (cases w) auto
qed simp

declare strip_pieces.simps [simp del]

definition trim_start :: "string \<Rightarrow> string" where
  "trim_start s = strip_pieces whitespace s"

definition trim_end :: "string \<Rightarrow> string" where
  "trim_end s = rev (strip_pieces (map rev whitespace) (rev s))"

definition trim :: "string \<Rightarrow> string" where
  "trim s = trim_end (trim_start s)"

definition trim_end_dots :: "string \<Rightarrow> string" where
  "trim_end_dots s = rev (dropWhile (\<lambda>c. c = CHR ''.'') (rev s))"

definition ascii_digit :: "char \<Rightarrow> bool" where
  "ascii_digit c \<longleftrightarrow> c \<in> set ''0123456789''"

definition upper_case :: string where
  "upper_case = ''ABCDEFGHIJKLMNOPQRSTUVWXYZ''"

definition lower_case :: string where
  "lower_case = ''abcdefghijklmnopqrstuvwxyz''"

definition ascii_alphabetic :: "char \<Rightarrow> bool" where
  "ascii_alphabetic c \<longleftrightarrow> c \<in> set upper_case \<or> c \<in> set lower_case"

definition lower_char :: "char \<Rightarrow> char" where
  "lower_char c = (case map_of (zip upper_case lower_case) c of None \<Rightarrow> c | Some l \<Rightarrow> l)"

definition to_ascii_lowercase :: "string \<Rightarrow> string" where
  "to_ascii_lowercase s = map lower_char s"

text \<open>\<open>split_once\<close> on a string: around its first occurrence.\<close>

fun split_once :: "string \<Rightarrow> string \<Rightarrow> (string \<times> string) option" where
  "split_once pat [] = (if pat = [] then Some ([], []) else None)"
| "split_once pat (c # cs) =
     (if take (length pat) (c # cs) = pat then Some ([], drop (length pat) (c # cs))
      else map_option (\<lambda>(a, b). (c # a, b)) (split_once pat cs))"

text \<open>\<open>split\<close> on a character, and \<open>join\<close>.\<close>

fun split_on :: "char \<Rightarrow> string \<Rightarrow> string list" where
  "split_on c [] = [[]]"
| "split_on c (x # xs) =
     (if x = c then [] # split_on c xs
      else case split_on c xs of [] \<Rightarrow> [[x]] | p # ps \<Rightarrow> (x # p) # ps)"

fun join_with :: "string \<Rightarrow> string list \<Rightarrow> string" where
  "join_with sep [] = []"
| "join_with sep [p] = p"
| "join_with sep (p # ps) = p @ sep @ join_with sep ps"

definition ends_with :: "string \<Rightarrow> string \<Rightarrow> bool" where
  "ends_with s tail \<longleftrightarrow> length tail \<le> length s \<and> drop (length s - length tail) s = tail"

section \<open>Public suffixes\<close>

definition MULTI_PART_SUFFIXES :: "string list" where
  "MULTI_PART_SUFFIXES =
   [''co.uk'', ''org.uk'', ''me.uk'', ''ltd.uk'', ''plc.uk'', ''net.uk'', ''sch.uk'', ''ac.uk'',
    ''gov.uk'', ''nhs.uk'', ''com.au'', ''net.au'', ''org.au'', ''edu.au'', ''gov.au'', ''id.au'',
    ''co.jp'', ''ne.jp'', ''or.jp'', ''go.jp'', ''ac.jp'', ''com.br'', ''net.br'', ''org.br'',
    ''gov.br'', ''co.in'', ''net.in'', ''org.in'', ''gen.in'', ''firm.in'', ''gov.in'', ''co.nz'',
    ''net.nz'', ''org.nz'', ''govt.nz'', ''ac.nz'', ''co.za'', ''org.za'', ''net.za'', ''gov.za'',
    ''co.kr'', ''or.kr'', ''go.kr'', ''com.cn'', ''net.cn'', ''org.cn'', ''gov.cn'', ''com.mx'',
    ''com.tr'', ''com.sg'', ''com.hk'', ''com.tw'', ''co.il'', ''com.ar'', ''com.pl'']"

definition PRIVATE_SUFFIXES :: "string list" where
  "PRIVATE_SUFFIXES =
   [''vercel.app'', ''now.sh'', ''netlify.app'', ''netlify.com'', ''pages.dev'', ''workers.dev'',
    ''github.io'', ''gitlab.io'', ''bitbucket.io'', ''surge.sh'', ''web.app'', ''firebaseapp.com'',
    ''onrender.com'', ''fly.dev'', ''glitch.me'', ''replit.app'', ''repl.co'', ''deno.dev'',
    ''vercel.sh'', ''azurestaticapps.net'', ''amplifyapp.com'', ''cloudfront.net'',
    ''herokuapp.com'', ''appspot.com'', ''azurewebsites.net'', ''cloudapp.net'',
    ''elasticbeanstalk.com'', ''run.app'', ''ondigitalocean.app'', ''railway.app'',
    ''up.railway.app'', ''web.core.windows.net'', ''blob.core.windows.net'', ''ngrok.io'',
    ''ngrok-free.app'', ''ngrok.app'', ''trycloudflare.com'', ''loca.lt'', ''blogspot.com'',
    ''wordpress.com'', ''wixsite.com'', ''myshopify.com'', ''tumblr.com'', ''webflow.io'',
    ''carrd.co'', ''notion.site'']"

definition applies_to :: "string \<Rightarrow> string \<Rightarrow> bool" where
  "applies_to host suffix \<longleftrightarrow> host = suffix \<or> ends_with host (CHR ''.'' # suffix)"

text \<open>\<open>max_by_key\<close>: of several longest the last.\<close>

definition longest :: "string list \<Rightarrow> string option" where
  "longest xs = foldl (\<lambda>best x. case best of None \<Rightarrow> Some x | Some b \<Rightarrow> if length b \<le> length x then Some x else Some b) None xs"

definition known_suffix :: "string \<Rightarrow> string option" where
  "known_suffix host = longest (filter (applies_to host) (MULTI_PART_SUFFIXES @ PRIVATE_SUFFIXES))"

section \<open>Schemes and hosts\<close>

definition scheme_of :: "string \<Rightarrow> string option" where
  "scheme_of origin =
     (case split_once ''://'' (trim origin) of None \<Rightarrow> None
      | Some (scheme, _) \<Rightarrow>
          if scheme \<noteq> [] \<and> ascii_alphabetic (hd scheme) \<and>
             list_all (\<lambda>c. ascii_alphabetic c \<or> ascii_digit c \<or> c \<in> set ''+-.'') scheme
          then Some (to_ascii_lowercase scheme) else None)"

definition after_scheme :: "string \<Rightarrow> string" where
  "after_scheme s =
     (case split_once ''://'' s of Some (_, rest) \<Rightarrow> rest
      | None \<Rightarrow> (case strip_prefix ''//'' s of Some rest \<Rightarrow> rest | None \<Rightarrow> s))"

definition authority_of :: "string \<Rightarrow> string" where
  "authority_of s = takeWhile (\<lambda>c. c \<notin> set ''/?#'') s"

definition strip_userinfo :: "string \<Rightarrow> string" where
  "strip_userinfo authority = (case rsplit_once CHR ''@'' authority of Some (_, hp) \<Rightarrow> hp | None \<Rightarrow> authority)"

definition strip_port :: "string \<Rightarrow> string" where
  "strip_port host_port =
     (case strip_prefix ''['' host_port of Some rest \<Rightarrow> takeWhile (\<lambda>c. c \<noteq> CHR '']'') rest
      | None \<Rightarrow>
          (case rsplit_once CHR '':'' host_port of
             Some (h, port) \<Rightarrow> if port \<noteq> [] \<and> list_all ascii_digit port then h else host_port
           | None \<Rightarrow> host_port))"

definition host_of :: "string \<Rightarrow> string option" where
  "host_of origin =
     (let s = trim origin in
      if s = [] then None
      else
        let host = to_ascii_lowercase (trim (trim_end_dots
              (strip_port (strip_userinfo (authority_of (after_scheme s))))))
        in if host = [] then None else Some host)"

section \<open>Registrable domains\<close>

definition parses_as_u8 :: "string \<Rightarrow> bool" where
  "parses_as_u8 l \<longleftrightarrow> (case parse_u64 l of None \<Rightarrow> False | Some w \<Rightarrow> w < 256)"

definition is_ip_or_localhost :: "string \<Rightarrow> bool" where
  "is_ip_or_localhost host \<longleftrightarrow>
     host = ''localhost'' \<or> CHR '':'' \<in> set host \<or>
     (let labels = split_on CHR ''.'' host in length labels = 4 \<and> list_all (\<lambda>l. l \<noteq> [] \<and> parses_as_u8 l) labels)"

definition is_bare_public_suffix :: "string \<Rightarrow> bool" where
  "is_bare_public_suffix host \<longleftrightarrow> CHR ''.'' \<notin> set host \<or> known_suffix host = Some host"

definition registrable_domain :: "string \<Rightarrow> string option" where
  "registrable_domain origin =
     (case host_of origin of None \<Rightarrow> None
      | Some host \<Rightarrow>
          if is_ip_or_localhost host then None
          else if is_bare_public_suffix host then None
          else
            let labels = split_on CHR ''.'' host in
            if length labels < 2 then None
            else
              let suffix_labels = (case known_suffix host of None \<Rightarrow> 1
                    | Some suffix \<Rightarrow> length (split_on CHR ''.'' suffix));
                  n = suffix_labels + 1
              in if length labels < n then None
                 else Some (join_with ''.'' (drop (length labels - n) labels)))"

definition url_matches_origin :: "string \<Rightarrow> string \<Rightarrow> bool" where
  "url_matches_origin url origin \<longleftrightarrow>
     \<not> (scheme_of url = Some ''https'' \<and> scheme_of origin = Some ''http'') \<and>
     (case (registrable_domain url, registrable_domain origin) of
        (Some a, Some b) \<Rightarrow> a = b
      | _ \<Rightarrow> False)"

section \<open>Labels\<close>

lemma split_on_Nil_iff [simp]: "split_on c s \<noteq> []"
  by (induction s) (auto split: list.splits)

lemma split_on_append: "split_on c (a @ c # b) = split_on c a @ split_on c b"
  by (induction a) (auto split: list.splits)

lemma split_on_no_sep: "c \<notin> set s \<Longrightarrow> split_on c s = [s]"
  by (induction s) auto

lemma split_on_pieces: "p \<in> set (split_on c s) \<Longrightarrow> c \<notin> set p"
  by (induction s arbitrary: p) (auto split: list.splits if_splits)

lemma join_with_Cons: "ps \<noteq> [] \<Longrightarrow> join_with sep (p # ps) = p @ sep @ join_with sep ps"
  by (cases ps) simp_all

lemma join_split_on [simp]: "join_with [c] (split_on c s) = s"
proof (induction s)
  case (Cons x xs)
  obtain p ps where split: "split_on c xs = p # ps" by (cases "split_on c xs") simp_all
  with Cons show ?case by (cases ps) (simp_all add: join_with_Cons)
qed simp

lemma join_with_append:
  "xs \<noteq> [] \<Longrightarrow> ys \<noteq> [] \<Longrightarrow> join_with sep (xs @ ys) = join_with sep xs @ sep @ join_with sep ys"
proof (induction xs)
  case (Cons x xs)
  then show ?case by (cases "xs = []") (simp_all add: join_with_Cons)
qed simp

lemma split_join: "ps \<noteq> [] \<Longrightarrow> \<forall>p\<in>set ps. c \<notin> set p \<Longrightarrow> split_on c (join_with [c] ps) = ps"
proof (induction ps)
  case (Cons p ps)
  then show ?case
    by (cases "ps = []") (simp_all add: split_on_no_sep join_with_Cons split_on_append)
qed simp

lemma ends_with_iff: "ends_with s t \<longleftrightarrow> (\<exists>a. s = a @ t)"
proof
  assume "ends_with s t"
  then have "s = take (length s - length t) s @ t" by (metis append_take_drop_id ends_with_def)
  then show "\<exists>a. s = a @ t" ..
qed (auto simp: ends_with_def)

text \<open>A suffix on a label boundary is a suffix of the labels.\<close>

lemma applies_to_labels:
  "applies_to host p \<longleftrightarrow> (\<exists>pre. split_on CHR ''.'' host = pre @ split_on CHR ''.'' p)"
proof
  assume "applies_to host p"
  then consider "host = p" | a where "host = a @ CHR ''.'' # p" by (auto simp: applies_to_def ends_with_iff)
  then show "\<exists>pre. split_on CHR ''.'' host = pre @ split_on CHR ''.'' p"
  proof cases
    case 1
    then have "split_on CHR ''.'' host = [] @ split_on CHR ''.'' p" by simp
    then show ?thesis by blast
  next
    case 2
    then show ?thesis by (auto simp: split_on_append)
  qed
next
  assume "\<exists>pre. split_on CHR ''.'' host = pre @ split_on CHR ''.'' p"
  then obtain pre where split: "split_on CHR ''.'' host = pre @ split_on CHR ''.'' p" ..
  have host: "host = join_with ''.'' (pre @ split_on CHR ''.'' p)"
    using arg_cong [OF split, of "join_with ''.''"] by simp
  show "applies_to host p"
  proof (cases "pre = []")
    case True
    then show ?thesis using host by (simp add: applies_to_def)
  next
    case False
    then have "host = join_with ''.'' pre @ CHR ''.'' # p" using host by (simp add: join_with_append)
    then show ?thesis by (auto simp: applies_to_def ends_with_iff)
  qed
qed

section \<open>What a match means\<close>

text \<open>
  The public suffix of a host: the longest known one, else its last label. A site is one label in
  front of it.
\<close>

definition public_suffix :: "string \<Rightarrow> string" where
  "public_suffix host = (case known_suffix host of Some p \<Rightarrow> p | None \<Rightarrow> last (split_on CHR ''.'' host))"

definition site_of :: "string \<Rightarrow> string \<Rightarrow> bool" where
  "site_of host d \<longleftrightarrow>
     applies_to host d \<and> (\<exists>label. CHR ''.'' \<notin> set label \<and> d = label @ ''.'' @ public_suffix host)"

lemma longest_foldl:
  assumes "foldl (\<lambda>best x. case best of None \<Rightarrow> Some x
      | Some b \<Rightarrow> if length b \<le> length x then Some x else Some b) acc xs = r"
  shows "(r = None \<longleftrightarrow> acc = None \<and> xs = []) \<and>
    (\<forall>b. r = Some b \<longrightarrow> (b \<in> set xs \<or> acc = Some b) \<and> (\<forall>x\<in>set xs. length x \<le> length b) \<and>
       (\<forall>a. acc = Some a \<longrightarrow> length a \<le> length b))"
  using assms
proof (induction xs arbitrary: acc)
  case (Cons x xs)
  let ?acc = "case acc of None \<Rightarrow> Some x | Some b \<Rightarrow> if length b \<le> length x then Some x else Some b"
  have fold: "foldl (\<lambda>best x. case best of None \<Rightarrow> Some x
      | Some b \<Rightarrow> if length b \<le> length x then Some x else Some b) ?acc xs = r"
    using Cons.prems by simp
  have "\<exists>a. ?acc = Some a \<and> length x \<le> length a \<and> (\<forall>b. acc = Some b \<longrightarrow> length b \<le> length a) \<and>
      (a = x \<or> acc = Some a)"
    by (cases acc) auto
  then obtain a where acc: "?acc = Some a" "length x \<le> length a" "\<forall>b. acc = Some b \<longrightarrow> length b \<le> length a"
    "a = x \<or> acc = Some a"
    by blast
  have ih: "(r = None \<longleftrightarrow> ?acc = None \<and> xs = []) \<and>
    (\<forall>b. r = Some b \<longrightarrow> (b \<in> set xs \<or> ?acc = Some b) \<and> (\<forall>x\<in>set xs. length x \<le> length b) \<and>
       (\<forall>a. ?acc = Some a \<longrightarrow> length a \<le> length b))"
    by (rule Cons.IH [OF fold])
  obtain b where b: "r = Some b" using ih acc(1) by auto
  then have "b \<in> set xs \<or> a = b" "\<forall>x\<in>set xs. length x \<le> length b" "length a \<le> length b"
    using ih acc(1) by auto
  then show ?case using b acc by auto
qed auto

lemma known_suffix_Some:
  assumes "known_suffix host = Some p"
  shows "p \<in> set (MULTI_PART_SUFFIXES @ PRIVATE_SUFFIXES)" and "applies_to host p"
    and "q \<in> set (MULTI_PART_SUFFIXES @ PRIVATE_SUFFIXES) \<Longrightarrow> applies_to host q \<Longrightarrow> length q \<le> length p"
  using longest_foldl [OF assms [unfolded known_suffix_def longest_def]] by auto

lemma known_suffix_None:
  assumes "known_suffix host = None"
  shows "q \<in> set (MULTI_PART_SUFFIXES @ PRIVATE_SUFFIXES) \<Longrightarrow> \<not> applies_to host q"
  using longest_foldl [OF assms [unfolded known_suffix_def longest_def]]
  by (auto simp: filter_empty_conv)

lemma public_suffix_labels:
  "\<exists>pre. split_on CHR ''.'' host = pre @ split_on CHR ''.'' (public_suffix host)"
  "length (split_on CHR ''.'' (public_suffix host)) =
     (case known_suffix host of None \<Rightarrow> 1 | Some p \<Rightarrow> length (split_on CHR ''.'' p))"
proof -
  let ?L = "split_on CHR ''.'' host"
  have last: "split_on CHR ''.'' (last ?L) = [last ?L]"
    by (rule split_on_no_sep) (rule split_on_pieces, rule last_in_set, simp)
  show "\<exists>pre. ?L = pre @ split_on CHR ''.'' (public_suffix host)"
  proof (cases "known_suffix host")
    case None
    then have "?L = butlast ?L @ split_on CHR ''.'' (public_suffix host)"
      by (simp add: public_suffix_def last)
    then show ?thesis ..
  next
    case (Some p)
    then show ?thesis using known_suffix_Some(2) [OF Some] by (simp add: public_suffix_def applies_to_labels)
  qed
  show "length (split_on CHR ''.'' (public_suffix host)) =
     (case known_suffix host of None \<Rightarrow> 1 | Some p \<Rightarrow> length (split_on CHR ''.'' p))"
    using last by (simp add: public_suffix_def split: option.splits)
qed

lemma site_of_labels:
  "site_of host d \<longleftrightarrow>
     (\<exists>pre l. split_on CHR ''.'' host = pre @ l # split_on CHR ''.'' (public_suffix host) \<and>
        d = l @ ''.'' @ public_suffix host)"
proof
  assume "site_of host d"
  then obtain l pre where "CHR ''.'' \<notin> set l" and d: "d = l @ ''.'' @ public_suffix host"
    and host: "split_on CHR ''.'' host = pre @ split_on CHR ''.'' d"
    by (auto simp: site_of_def applies_to_labels)
  then have "split_on CHR ''.'' d = l # split_on CHR ''.'' (public_suffix host)"
    by (simp add: split_on_append split_on_no_sep)
  then show "\<exists>pre l. split_on CHR ''.'' host = pre @ l # split_on CHR ''.'' (public_suffix host) \<and>
        d = l @ ''.'' @ public_suffix host"
    using host d by auto
next
  assume "\<exists>pre l. split_on CHR ''.'' host = pre @ l # split_on CHR ''.'' (public_suffix host) \<and>
        d = l @ ''.'' @ public_suffix host"
  then obtain pre l where host: "split_on CHR ''.'' host = pre @ l # split_on CHR ''.'' (public_suffix host)"
    and d: "d = l @ ''.'' @ public_suffix host" by blast
  have "CHR ''.'' \<notin> set l" by (rule split_on_pieces [of l _ host]) (simp add: host)
  moreover from this have "split_on CHR ''.'' d = l # split_on CHR ''.'' (public_suffix host)"
    using d by (simp add: split_on_append split_on_no_sep)
  ultimately show "site_of host d" using host d by (auto simp: site_of_def applies_to_labels)
qed

lemma site_of_unique: "site_of host d \<Longrightarrow> site_of host e \<Longrightarrow> d = e"
  by (auto simp: site_of_labels)

lemma site_not_suffix:
  assumes "site_of host d"
  shows "d \<notin> set (MULTI_PART_SUFFIXES @ PRIVATE_SUFFIXES)"
proof
  assume known: "d \<in> set (MULTI_PART_SUFFIXES @ PRIVATE_SUFFIXES)"
  have "applies_to host d" and longer: "length (public_suffix host) < length d"
    using assms by (auto simp: site_of_def)
  then obtain p where "known_suffix host = Some p" and "length d \<le> length p"
    using known known_suffix_Some(3) known_suffix_None by (cases "known_suffix host") auto
  then show False using longer by (simp add: public_suffix_def)
qed

lemma domain_of_host:
  assumes "host_of origin = Some host" and "\<not> is_ip_or_localhost host"
  shows "registrable_domain origin = Some d \<longleftrightarrow> site_of host d"
proof -
  let ?L = "split_on CHR ''.'' host" and ?P = "split_on CHR ''.'' (public_suffix host)"
  let ?k = "length ?P"
  obtain pre where L: "?L = pre @ ?P" using public_suffix_labels(1) by blast
  have k: "(case known_suffix host of None \<Rightarrow> 1 | Some p \<Rightarrow> length (split_on CHR ''.'' p)) = ?k"
    using public_suffix_labels(2) by simp
  have "0 < ?k" by simp
  have bare: "pre = []" if "is_bare_public_suffix host"
  proof (cases "CHR ''.'' \<in> set host")
    case True
    then have "public_suffix host = host" using that by (simp add: is_bare_public_suffix_def public_suffix_def)
    then show ?thesis using L by simp
  next
    case False
    then have "length pre + ?k = 1" using arg_cong [OF L, of length] by (simp add: split_on_no_sep)
    then show ?thesis using \<open>0 < ?k\<close> by (cases pre) auto
  qed
  show ?thesis
  proof (cases pre rule: rev_cases)
    case Nil
    then have "registrable_domain origin = None"
      using assms L k by (simp add: registrable_domain_def Let_def)
    moreover have "?L \<noteq> pre @ l # ?P" for pre l
      using arg_cong [of ?L "pre @ l # ?P" length] L Nil by auto
    then have "\<not> site_of host d" by (simp add: site_of_labels)
    ultimately show ?thesis by simp
  next
    case (snoc as l)
    then have "\<not> is_bare_public_suffix host" using bare by auto
    moreover have "length ?L = length as + (?k + 1)" using L snoc by simp
    moreover have "drop (length as) ?L = l # ?P" using L snoc by simp
    moreover have "2 \<le> length as + (?k + 1)" using \<open>0 < ?k\<close> by linarith
    ultimately have "registrable_domain origin = Some (join_with ''.'' (l # ?P))"
      using assms k by (simp add: registrable_domain_def Let_def)
    then have "registrable_domain origin = Some (l @ ''.'' @ public_suffix host)"
      by (simp add: join_with_Cons)
    moreover have "site_of host d \<longleftrightarrow> d = l @ ''.'' @ public_suffix host"
      using L snoc by (auto simp: site_of_labels)
    ultimately show ?thesis by auto
  qed
qed

lemma registrable_domain_exact:
  "registrable_domain origin = Some d \<longleftrightarrow>
     (\<exists>host. host_of origin = Some host \<and> \<not> is_ip_or_localhost host \<and> site_of host d)"
proof (cases "\<exists>host. host_of origin = Some host \<and> \<not> is_ip_or_localhost host")
  case True
  then show ?thesis using domain_of_host by fastforce
next
  case False
  then show ?thesis by (auto simp: registrable_domain_def split: option.splits)
qed

text \<open>
  Claim C31. Autofill matches a stored URL with a page exactly when both hosts are names under one and the same
  site, which is one label in front of the longest public suffix of each and no public suffix itself,
  and the page is not a plain http one while the login was saved under https.
\<close>

theorem url_matches_exact:
  "url_matches_origin url origin \<longleftrightarrow>
     \<not> (scheme_of url = Some ''https'' \<and> scheme_of origin = Some ''http'') \<and>
     (\<exists>hu ho d. host_of url = Some hu \<and> \<not> is_ip_or_localhost hu \<and> host_of origin = Some ho \<and>
        \<not> is_ip_or_localhost ho \<and> site_of hu d \<and> site_of ho d \<and>
        d \<notin> set (MULTI_PART_SUFFIXES @ PRIVATE_SUFFIXES))"
proof -
  have "(case (registrable_domain url, registrable_domain origin) of (Some a, Some b) \<Rightarrow> a = b | _ \<Rightarrow> False) \<longleftrightarrow>
      (\<exists>d. registrable_domain url = Some d \<and> registrable_domain origin = Some d)"
    by (auto split: option.splits)
  then show ?thesis
    unfolding url_matches_origin_def registrable_domain_exact using site_not_suffix by blast
qed

text \<open>
  Claim C32. In a stored URL without a scheme the host is read after the first scheme separator anywhere in it:
  a login saved as a bare address whose query holds another address is filled on that other site.
\<close>

theorem query_decides_host:
  assumes "trim url = url" and "split_once ''://'' url = Some (address_and_query, rest)"
    and "trim page = page" and "split_once ''://'' page = Some (''https'', rest)"
    and "registrable_domain page = Some d"
  shows "registrable_domain url = Some d \<and> url_matches_origin url page"
proof -
  have "url \<noteq> []" and "page \<noteq> []" using assms(2,4) by auto
  then have "host_of url = host_of page"
    using assms by (simp add: host_of_def Let_def after_scheme_def)
  then have "registrable_domain url = Some d"
    using assms(5) by (simp add: registrable_domain_def)
  moreover have "scheme_of page \<noteq> Some ''http''"
    using assms by (simp add: scheme_of_def to_ascii_lowercase_def lower_char_def upper_case_def lower_case_def)
  ultimately show ?thesis using assms(5) by (simp add: url_matches_origin_def)
qed

definition ex_stored :: string where
  "ex_stored = ''mybank.com/login?next=https://shop.example.org/''"

definition ex_page :: string where
  "ex_page = ''https://shop.example.org/''"

lemma query_decides_host_witness:
  "url_matches_origin ex_stored ex_page \<and> registrable_domain ex_page = Some ''example.org'' \<and>
   registrable_domain ''https://mybank.com/login'' = Some ''mybank.com'' \<and>
   \<not> url_matches_origin ex_stored ''https://mybank.com/login''"
proof -
  have page: "registrable_domain ex_page = Some ''example.org''"
    and bank: "registrable_domain ''https://mybank.com/login'' = Some ''mybank.com''" by code_simp+
  have "trim ex_stored = ex_stored" "trim ex_page = ex_page"
    and "split_once ''://'' ex_stored = Some (''mybank.com/login?next=https'', ''shop.example.org/'')"
    and "split_once ''://'' ex_page = Some (''https'', ''shop.example.org/'')" by code_simp+
  from query_decides_host [OF this(1,3,2,4) page] page bank show ?thesis
    by (simp add: url_matches_origin_def)
qed

end
