(* ===== verification/Identity.thy ===== *)
theory Identity
  imports Origin Aad Op Share
begin

unbundle bit_operations_syntax

text \<open>
  The identity string two people compare when they pair devices (\<open>lp-sync/src/identity.rs\<close>): its text with
  a checksum, its parse, and the fingerprint read aloud. The theorems: a printed identity parses back,
  and one wrong character is noticed or harmless.
\<close>

section \<open>The checksum\<close>

definition CRC_POLY :: u32 where "CRC_POLY = 0xEDB88320"

definition crc_bit :: "u32 \<Rightarrow> u32" where
  "crc_bit crc = (let mask = - (crc AND 1) in drop_bit 1 crc XOR (CRC_POLY AND mask))"

definition crc_byte :: "u32 \<Rightarrow> byte \<Rightarrow> u32" where
  "crc_byte crc b = (crc_bit ^^ 8) (crc XOR ucast b)"

definition crc32 :: "bytes \<Rightarrow> u32" where
  "crc32 bs = NOT (foldl crc_byte 0xFFFFFFFF bs)"

section \<open>Identity strings\<close>

record device_identity =
  dd_device_id :: id
  dd_ed25519_pub :: bytes
  dd_x25519_pub :: bytes

definition device_public_identity :: "live_session \<Rightarrow> device_identity" where
  "device_public_identity ses =
     \<lparr>dd_device_id = ss_device_id ses, dd_ed25519_pub = ss_ed25519_pub ses, dd_x25519_pub = ls_x25519_pub ses\<rparr>"

definition IDENTITY_PREFIX :: string where "IDENTITY_PREFIX = ''LPDEV1-''"
definition PAYLOAD_LEN :: nat where "PAYLOAD_LEN = 16 + 32 + 32"

definition u32_to_be :: "u32 \<Rightarrow> bytes" where
  "u32_to_be w = rev (u32_to_le w)"

definition u32_from_be :: "bytes \<Rightarrow> u32" where
  "u32_from_be bs = u32_from_le (rev bs)"

definition identity_payload :: "device_identity \<Rightarrow> bytes" where
  "identity_payload i = as_bytes (dd_device_id i) @ dd_ed25519_pub i @ dd_x25519_pub i"

definition to_export_string :: "device_identity \<Rightarrow> string" where
  "to_export_string i =
     IDENTITY_PREFIX @ hex_encode (identity_payload i @ u32_to_be (crc32 (identity_payload i)))"

fun hex_pair_list :: "string \<Rightarrow> bytes option" where
  "hex_pair_list (a # b # rest) =
     (case (to_digit_16 (of_char a), to_digit_16 (of_char b)) of
        (Some hi, Some lo) \<Rightarrow> map_option (\<lambda>bs. (hi * 16 + lo) # bs) (hex_pair_list rest)
      | _ \<Rightarrow> None)"
| "hex_pair_list _ = Some []"

definition from_hex :: "string \<Rightarrow> bytes option" where
  "from_hex s =
     (let clean = filter (\<lambda>c. c \<noteq> CHR ''-'') s in if odd (length clean) then None else hex_pair_list clean)"

definition from_export_string :: "string \<Rightarrow> sync_error + device_identity" where
  "from_export_string s =
     bind_ok (ok_or (Invalid ''identity string missing LPDEV1 prefix'') (strip_prefix IDENTITY_PREFIX (trim s))) (\<lambda>body.
     bind_ok (ok_or (Invalid ''identity string is not valid hex'') (from_hex body)) (\<lambda>bs.
     if length bs \<noteq> PAYLOAD_LEN + 4 then Inl (Invalid ''identity string has the wrong length'')
     else
       let payload = take PAYLOAD_LEN bs; crc_bytes = drop PAYLOAD_LEN bs in
       if u32_from_be crc_bytes \<noteq> crc32 payload then Inl (Invalid ''identity string checksum failed (mistyped?)'')
       else Inr \<lparr>dd_device_id = id_from_bytes (take 16 payload), dd_ed25519_pub = take 32 (drop 16 payload),
                 dd_x25519_pub = take 32 (drop 48 payload)\<rparr>))"

section \<open>Fingerprints\<close>

definition fingerprint_input :: "device_identity \<Rightarrow> bytes" where
  "fingerprint_input i = str_bytes ''localpass/v1/device-fpr'' @ dd_ed25519_pub i @ dd_x25519_pub i"

fun hex_groups :: "bytes \<Rightarrow> string list" where
  "hex_groups (a # b # rest) = hex_encode [a, b] # hex_groups rest"
| "hex_groups _ = []"

definition fingerprint :: "(bytes \<Rightarrow> bytes) \<Rightarrow> device_identity \<Rightarrow> string" where
  "fingerprint H i = join_with ''-'' (hex_groups (take 8 (H (fingerprint_input i))))"

definition ascii_hexdigit :: "char \<Rightarrow> bool" where
  "ascii_hexdigit c \<longleftrightarrow> c \<in> set ''0123456789abcdefABCDEF''"

definition hex_norm :: "string \<Rightarrow> string" where
  "hex_norm s = map lower_char (filter ascii_hexdigit s)"

definition fingerprint_matches :: "(bytes \<Rightarrow> bytes) \<Rightarrow> device_identity \<Rightarrow> string \<Rightarrow> bool" where
  "fingerprint_matches H i candidate \<longleftrightarrow> hex_norm candidate = hex_norm (fingerprint H i)"

section \<open>The checksum tells bytes apart\<close>

lemma crc_bit_odd: "crc_bit c = (if odd c then drop_bit 1 c XOR CRC_POLY else drop_bit 1 c)"
proof -
  have "c AND 1 = (if odd c then 1 else 0)" by (simp add: and_one_eq mod_2_eq_odd)
  then show ?thesis by (simp add: crc_bit_def Let_def)
qed

lemma crc_bit_top: "bit (crc_bit c) 31 \<longleftrightarrow> odd c"
proof -
  have "\<not> bit c 32" by (auto dest: bit_imp_le_length)
  then have "\<not> bit (drop_bit 1 c) 31" by (simp add: bit_drop_bit_eq)
  moreover have "bit CRC_POLY 31" by (simp add: CRC_POLY_def)
  ultimately show ?thesis by (simp add: crc_bit_odd bit_xor_iff)
qed

lemma xor_cancel [simp]:
  "(a XOR c = b XOR c) = (a = (b :: u32))"
  "(c XOR a = c XOR b) = (a = b)"
proof -
  have "a = b" if "a XOR c = b XOR c"
    using arg_cong [OF that, of "\<lambda>w. w XOR c"] by (simp add: xor.assoc)
  then show "(a XOR c = b XOR c) = (a = b)" by auto
  then show "(c XOR a = c XOR b) = (a = b)" by (simp add: xor.commute)
qed

lemma crc_bit_inject: "crc_bit c = crc_bit d \<longleftrightarrow> c = d"
proof
  assume eq: "crc_bit c = crc_bit d"
  then have par: "odd c \<longleftrightarrow> odd d" by (metis crc_bit_top)
  have "drop_bit 1 c = drop_bit 1 d"
    using eq par by (auto simp: crc_bit_odd split: if_splits)
  show "c = d"
  proof (rule bit_eqI)
    fix n
    show "bit c n \<longleftrightarrow> bit d n"
    proof (cases n)
      case 0
      then show ?thesis using par by (simp add: bit_0)
    next
      case (Suc m)
      have "bit (drop_bit 1 c) m \<longleftrightarrow> bit (drop_bit 1 d) m" using \<open>drop_bit 1 c = drop_bit 1 d\<close> by simp
      then show ?thesis using Suc by (simp add: bit_drop_bit_eq)
    qed
  qed
qed simp

lemma crc_bits_inject: "(crc_bit ^^ n) c = (crc_bit ^^ n) d \<longleftrightarrow> c = d"
  by (induction n) (simp_all add: crc_bit_inject)

lemma ucast_byte_inject: "(ucast a :: u32) = ucast b \<longleftrightarrow> a = (b :: byte)"
proof
  assume "(ucast a :: u32) = ucast b"
  then have "unat (ucast a :: u32) = unat (ucast b :: u32)" by simp
  moreover have "unat (ucast w :: u32) = unat w" for w :: byte
    using unat_byte_less [of w] by (simp add: unsigned_ucast_eq take_bit_nat_eq_self)
  ultimately show "a = b" by (simp add: word_unat_eq_iff)
qed simp

lemma crc_byte_inject:
  "crc_byte c b = crc_byte d b \<longleftrightarrow> c = d"
  "crc_byte c a = crc_byte c b \<longleftrightarrow> a = b"
  by (simp_all add: crc_byte_def crc_bits_inject ucast_byte_inject)

lemma crc_foldl_inject: "foldl crc_byte c bs = foldl crc_byte d bs \<longleftrightarrow> c = d"
  by (induction bs arbitrary: c d) (simp_all add: crc_byte_inject)

text \<open>Two byte strings of one length that differ in one place have different checksums.\<close>

lemma crc32_one_byte:
  assumes "j < length bs" and "crc32 (bs[j := y]) = crc32 bs"
  shows "bs[j := y] = bs"
proof -
  obtain pre x post where bs: "bs = pre @ x # post" and j: "length pre = j"
    using assms(1) id_take_nth_drop by fastforce
  have "bs[j := y] = pre @ y # post" using bs j by (simp add: list_update_append)
  moreover have "y = x"
  proof -
    have "foldl crc_byte (crc_byte (foldl crc_byte 0xFFFFFFFF pre) y) post =
        foldl crc_byte (crc_byte (foldl crc_byte 0xFFFFFFFF pre) x) post"
      using assms(2) bs \<open>bs[j := y] = pre @ y # post\<close> by (simp add: crc32_def)
    then show ?thesis by (simp add: crc_foldl_inject crc_byte_inject)
  qed
  ultimately show ?thesis using bs by simp
qed

section \<open>Hexadecimal text\<close>

lemma hex_pair_list_append_encode: "hex_pair_list (hex_encode bs) = Some bs"
proof (induction bs)
  case (Cons b bs)
  have "hex_encode (b # bs) = hex_digit (drop_bit 4 b) # hex_digit (and b 0x0f) # hex_encode bs"
    by (simp add: hex_encode_def)
  moreover have "drop_bit 4 b * 16 + (b AND 0x0f) = b"
  proof -
    have "b AND 0x0f = take_bit 4 b" by (simp add: take_bit_eq_mask mask_eq_exp_minus_1)
    moreover have "drop_bit 4 b * 16 = push_bit 4 (drop_bit 4 b)" by (simp add: push_bit_eq_mult)
    ultimately show ?thesis by (simp add: bits_ident)
  qed
  ultimately show ?case
    using Cons.IH by (simp add: hex_digit_decode [OF nibbles_less(1)] hex_digit_decode [OF nibbles_less(2)])
qed (simp add: hex_encode_def)

lemma hex_pair_list_Some:
  "hex_pair_list s = Some bs \<Longrightarrow> even (length s) \<Longrightarrow>
     length s = 2 * length bs \<and>
     (\<forall>i<length bs. \<exists>hi lo. to_digit_16 (of_char (s ! (2 * i))) = Some hi \<and>
        to_digit_16 (of_char (s ! (2 * i + 1))) = Some lo \<and> bs ! i = hi * 16 + lo)"
proof (induction s arbitrary: bs rule: hex_pair_list.induct)
  case (1 a b rest)
  obtain hi lo cs where parts: "to_digit_16 (of_char a) = Some hi" "to_digit_16 (of_char b) = Some lo"
    "hex_pair_list rest = Some cs" "bs = (hi * 16 + lo) # cs"
    using "1.prems"(1) by (auto split: option.splits)
  have ih: "length rest = 2 * length cs \<and>
     (\<forall>i<length cs. \<exists>hi lo. to_digit_16 (of_char (rest ! (2 * i))) = Some hi \<and>
        to_digit_16 (of_char (rest ! (2 * i + 1))) = Some lo \<and> cs ! i = hi * 16 + lo)"
    using "1.IH" parts(1-3) "1.prems"(2) by simp
  show ?case
  proof (intro conjI allI impI)
    show "length (a # b # rest) = 2 * length bs" using ih parts(4) by simp
    fix i
    assume "i < length bs"
    then show "\<exists>hi lo. to_digit_16 (of_char ((a # b # rest) ! (2 * i))) = Some hi \<and>
        to_digit_16 (of_char ((a # b # rest) ! (2 * i + 1))) = Some lo \<and> bs ! i = hi * 16 + lo"
      using ih parts by (cases i) auto
  qed
qed auto

text \<open>Another character in one place changes at most the byte it belongs to.\<close>

lemma hex_pair_list_one_char:
  assumes "hex_pair_list s = Some bs" and "hex_pair_list (s[k := c]) = Some cs" and "even (length s)"
    and "k < length s"
  shows "k div 2 < length bs \<and> cs = bs[k div 2 := cs ! (k div 2)]"
proof -
  note s = hex_pair_list_Some [OF assms(1,3)]
  have "even (length (s[k := c]))" using assms(3) by simp
  note t = hex_pair_list_Some [OF assms(2) this]
  have len: "length cs = length bs" using s t by simp
  moreover have "cs ! i = bs[k div 2 := cs ! (k div 2)] ! i" if "i < length cs" for i
  proof (cases "i = k div 2")
    case True
    then show ?thesis using that len by simp
  next
    case False
    then have "2 * i \<noteq> k" and "2 * i + 1 \<noteq> k" by auto
    then have "s[k := c] ! (2 * i) = s ! (2 * i)" and "s[k := c] ! (2 * i + 1) = s ! (2 * i + 1)" by simp_all
    then have "cs ! i = bs ! i" using s t that len by (metis option.inject)
    then show ?thesis using False by simp
  qed
  ultimately have "cs = bs[k div 2 := cs ! (k div 2)]" by (intro nth_equalityI) simp_all
  moreover have "k div 2 < length bs" using s assms(4) by auto
  ultimately show ?thesis by simp
qed

section \<open>Trimming\<close>

lemma strip_pieces_drop: "\<exists>n. strip_pieces ws s = drop n s"
proof (induction ws s rule: strip_pieces.induct)
  case (1 ws s)
  show ?case
  proof (cases "List.find (\<lambda>w. w \<noteq> [] \<and> take (length w) s = w) ws")
    case None
    then have "strip_pieces ws s = drop 0 s" by (simp add: strip_pieces.simps [of ws s])
    then show ?thesis by blast
  next
    case (Some w)
    then show ?thesis using 1 [OF Some] by (auto simp: strip_pieces.simps [of ws s])
  qed
qed

lemma trim_part: "\<exists>m n. trim s = take m (drop n s)"
proof -
  obtain n where "trim_start s = drop n s" using strip_pieces_drop by (auto simp: trim_start_def)
  moreover obtain m where "strip_pieces (map rev whitespace) (rev (drop n s)) = drop m (rev (drop n s))"
    using strip_pieces_drop by blast
  ultimately have "trim s = take (length (drop n s) - m) (drop n s)"
    by (simp add: trim_def trim_end_def drop_rev)
  then show ?thesis by blast
qed

lemma strip_pieces_none:
  assumes "\<And>w. w \<in> set ws \<Longrightarrow> w \<noteq> [] \<Longrightarrow> s \<noteq> [] \<Longrightarrow> hd w \<noteq> hd s"
  shows "strip_pieces ws s = s"
proof -
  have "\<not> (w \<noteq> [] \<and> take (length w) s = w)" if "w \<in> set ws" for w
    using assms [OF that] by (cases w; cases s) auto
  then have "List.find (\<lambda>w. w \<noteq> [] \<and> take (length w) s = w) ws = None" by (simp add: find_None_iff)
  then show ?thesis by (simp add: strip_pieces.simps [of ws s])
qed

definition text_chars :: string where
  "text_chars = ''LPDEV1-0123456789abcdefABCDEF''"

lemma whitespace_nonempty: "[] \<notin> set whitespace"
  by (simp add: whitespace_def)

lemma whitespace_not_text: "w \<in> set whitespace \<Longrightarrow> hd w \<notin> set text_chars \<and> last w \<notin> set text_chars"
proof -
  assume "w \<in> set whitespace"
  moreover have "list_all (\<lambda>w. hd w \<notin> set text_chars \<and> last w \<notin> set text_chars) whitespace"
    by (simp add: whitespace_def text_chars_def)
  ultimately show ?thesis by (simp add: list_all_iff)
qed

lemma trim_text: "set s \<subseteq> set text_chars \<Longrightarrow> trim s = s"
proof -
  assume s: "set s \<subseteq> set text_chars"
  have "hd w \<noteq> hd s" if "w \<in> set whitespace" "s \<noteq> []" for w
    using whitespace_not_text [OF that(1)] s hd_in_set [OF that(2)] by auto
  then have "trim_start s = s" unfolding trim_start_def by (intro strip_pieces_none) simp
  moreover have "hd w \<noteq> hd (rev s)" if "w \<in> set (map rev whitespace)" "rev s \<noteq> []" for w
  proof -
    note w = that
    obtain x where "x \<in> set whitespace" "w = rev x" using w(1) by auto
    then have "hd w \<notin> set text_chars"
      using whitespace_not_text whitespace_nonempty by (metis hd_rev)
    moreover have "hd (rev s) \<in> set text_chars" using s hd_in_set [OF w(2)] by auto
    ultimately show ?thesis by auto
  qed
  then have "trim_end s = s" unfolding trim_end_def by (subst strip_pieces_none) simp_all
  ultimately show ?thesis by (simp add: trim_def)
qed

section \<open>Printing and parsing\<close>

definition identity_ok :: "device_identity \<Rightarrow> bool" where
  "identity_ok i \<longleftrightarrow> id_wf (dd_device_id i) \<and> length (dd_ed25519_pub i) = 32 \<and> length (dd_x25519_pub i) = 32"

definition printed_bytes :: "device_identity \<Rightarrow> bytes" where
  "printed_bytes i = identity_payload i @ u32_to_be (crc32 (identity_payload i))"

lemma printed_length:
  assumes "identity_ok i"
  shows "length (identity_payload i) = PAYLOAD_LEN" and "length (printed_bytes i) = PAYLOAD_LEN + 4"
  using assms by (simp_all add: identity_ok_def identity_payload_def printed_bytes_def u32_to_be_def PAYLOAD_LEN_def id_wf_def)

lemma printed_text: "to_export_string i = IDENTITY_PREFIX @ hex_encode (printed_bytes i)"
  by (simp add: to_export_string_def printed_bytes_def)

lemma hex_encode_no_dash: "filter (\<lambda>c. c \<noteq> CHR ''-'') (hex_encode bs) = hex_encode bs"
proof -
  have "CHR ''-'' \<notin> set (hex_encode bs)" using hex_encode_set [of bs] by auto
  then show ?thesis by (auto simp: filter_id_conv)
qed

lemma printed_chars: "set (to_export_string i) \<subseteq> set text_chars"
proof -
  have "set IDENTITY_PREFIX \<subseteq> set text_chars" and "set ''0123456789abcdef'' \<subseteq> set text_chars" by code_simp+
  then show ?thesis
    using subset_trans [OF hex_encode_set [of "printed_bytes i"]] by (simp add: printed_text)
qed

text \<open>What a parse of \<open>payload\<close> with its checksum gives back.\<close>

definition identity_of :: "bytes \<Rightarrow> device_identity" where
  "identity_of payload =
     \<lparr>dd_device_id = id_from_bytes (take 16 payload), dd_ed25519_pub = take 32 (drop 16 payload),
      dd_x25519_pub = take 32 (drop 48 payload)\<rparr>"

lemma identity_of_payload: "identity_ok i \<Longrightarrow> identity_of (identity_payload i) = i"
  by (cases i) (auto simp: identity_ok_def identity_of_def identity_payload_def id_wf_def id_from_bytes_def)

lemma from_export_string_Inr:
  "from_export_string s = Inr j \<longleftrightarrow>
     (\<exists>body bs. trim s = IDENTITY_PREFIX @ body \<and> from_hex body = Some bs \<and> length bs = PAYLOAD_LEN + 4 \<and>
        u32_from_be (drop PAYLOAD_LEN bs) = crc32 (take PAYLOAD_LEN bs) \<and> j = identity_of (take PAYLOAD_LEN bs))"
proof -
  have prefix: "strip_prefix IDENTITY_PREFIX t = Some body \<longleftrightarrow> t = IDENTITY_PREFIX @ body" for t body
    unfolding strip_prefix_def by (metis append_eq_conv_conj append_take_drop_id option.distinct(1) option.inject)
  show ?thesis
    by (auto simp: from_export_string_def bind_ok_Inr_iff ok_or_Inr_iff prefix Let_def identity_of_def split: if_splits)
qed

text \<open>A printed identity parses.\<close>

lemma printed_parses:
  assumes "identity_ok i"
  shows "from_export_string (to_export_string i) = Inr i"
proof -
  have "from_hex (hex_encode (printed_bytes i)) = Some (printed_bytes i)"
    by (simp add: from_hex_def Let_def hex_encode_no_dash hex_pair_list_append_encode)
  moreover have "take PAYLOAD_LEN (printed_bytes i) = identity_payload i"
    and "drop PAYLOAD_LEN (printed_bytes i) = u32_to_be (crc32 (identity_payload i))"
    using printed_length [OF assms] by (simp_all add: printed_bytes_def)
  ultimately show ?thesis
    using printed_length [OF assms] identity_of_payload [OF assms] trim_text [OF printed_chars]
    by (auto simp: from_export_string_Inr printed_text u32_from_be_def u32_to_be_def)
qed

text \<open>A printed device identity parses back to itself.\<close>

theorem identity_roundtrip:
  assumes "identity_ok i"
  shows "from_export_string (to_export_string i) = Inr i"
  by (rule printed_parses [OF assms])

text \<open>A string with one character of a printed identity replaced that still parses keeps its whole length.\<close>

lemma one_char_layout:
  assumes i: "identity_ok i" and k: "k < length (to_export_string i)" and c: "c \<noteq> to_export_string i ! k"
    and parse: "from_export_string ((to_export_string i)[k := c]) = Inr j"
  shows "length IDENTITY_PREFIX \<le> k \<and>
    (\<exists>bs. hex_pair_list ((hex_encode (printed_bytes i))[k - length IDENTITY_PREFIX := c]) = Some bs \<and>
       u32_from_be (drop PAYLOAD_LEN bs) = crc32 (take PAYLOAD_LEN bs) \<and> j = identity_of (take PAYLOAD_LEN bs))"
proof -
  let ?s = "(to_export_string i)[k := c]" and ?n = "length IDENTITY_PREFIX"
  obtain body bs where t: "trim ?s = IDENTITY_PREFIX @ body" and hex: "from_hex body = Some bs"
    and len: "length bs = PAYLOAD_LEN + 4" and crc: "u32_from_be (drop PAYLOAD_LEN bs) = crc32 (take PAYLOAD_LEN bs)"
    and j: "j = identity_of (take PAYLOAD_LEN bs)"
    using parse by (auto simp: from_export_string_Inr)
  define clean where "clean = filter (\<lambda>c. c \<noteq> CHR ''-'') body"
  have "even (length clean)" and pairs: "hex_pair_list clean = Some bs"
    using hex by (auto simp: from_hex_def Let_def clean_def split: if_splits)
  then have "length clean = 2 * length bs" using hex_pair_list_Some [of clean bs] by blast
  then have body_len: "2 * (PAYLOAD_LEN + 4) \<le> length body"
    using len length_filter_le [of "\<lambda>c. c \<noteq> CHR ''-''" body] by (simp add: clean_def)
  have total: "length ?s = ?n + 2 * (PAYLOAD_LEN + 4)"
    using printed_length(2) [OF i] by (simp add: printed_text)
  obtain m n where part: "trim ?s = take m (drop n ?s)" using trim_part by blast
  have "length (trim ?s) = ?n + length body" by (simp add: t)
  then have "?n + 2 * (PAYLOAD_LEN + 4) \<le> min (length ?s - n) m"
    using body_len unfolding part by (simp add: min.commute)
  then have "n = 0" and "length ?s \<le> m" using total by auto
  then have s: "?s = IDENTITY_PREFIX @ body" using part t by simp
  then have "length body = 2 * (PAYLOAD_LEN + 4)" using total by simp
  then have "length clean = length body" using \<open>length clean = 2 * length bs\<close> len by simp
  then have clean: "clean = body" unfolding clean_def by (metis filter_True length_filter_less less_irrefl)
  have "?n \<le> k"
  proof (rule ccontr)
    assume "\<not> ?n \<le> k"
    then have "take ?n ?s = IDENTITY_PREFIX[k := c]" and "k < ?n" by (simp_all add: printed_text list_update_append)
    moreover have "take ?n ?s = IDENTITY_PREFIX" using s by simp
    ultimately have "c = IDENTITY_PREFIX ! k" by (metis nth_list_update_eq)
    then show False using c \<open>k < ?n\<close> by (simp add: printed_text nth_append)
  qed
  moreover from this have "body = (hex_encode (printed_bytes i))[k - ?n := c]"
    using s by (simp add: printed_text list_update_append)
  ultimately show ?thesis using pairs clean crc j by auto
qed

text \<open>
  Claim C33. A device identity mistyped in one character is refused, unless it still names the very same device
  with the very same keys.
\<close>

theorem identity_typo_caught:
  assumes "identity_ok i" and "k < length (to_export_string i)"
    and "from_export_string ((to_export_string i)[k := c]) = Inr j"
  shows "j = i"
proof (cases "c = to_export_string i ! k")
  case True
  then show ?thesis using assms(3) printed_parses [OF assms(1)] by simp
next
  case False
  let ?P = "identity_payload i" and ?k = "k - length IDENTITY_PREFIX"
  obtain bs where n: "length IDENTITY_PREFIX \<le> k"
    and pairs: "hex_pair_list ((hex_encode (printed_bytes i))[?k := c]) = Some bs"
    and crc: "u32_from_be (drop PAYLOAD_LEN bs) = crc32 (take PAYLOAD_LEN bs)"
    and j: "j = identity_of (take PAYLOAD_LEN bs)"
    using one_char_layout [OF assms(1,2) False assms(3)] by blast
  have "?k < length (hex_encode (printed_bytes i))" using assms(2) n by (simp add: printed_text)
  from hex_pair_list_one_char [OF hex_pair_list_append_encode pairs _ this]
  obtain y where bs: "bs = (printed_bytes i)[?k div 2 := y]" by auto
  have P: "length ?P = PAYLOAD_LEN" by (rule printed_length [OF assms(1)])
  have "take PAYLOAD_LEN bs = ?P"
  proof (cases "?k div 2 < PAYLOAD_LEN")
    case True
    then have "take PAYLOAD_LEN bs = ?P[?k div 2 := y]" and "drop PAYLOAD_LEN bs = u32_to_be (crc32 ?P)"
      using P by (simp_all add: bs printed_bytes_def list_update_append)
    then have "crc32 (?P[?k div 2 := y]) = crc32 ?P"
      using crc by (simp add: u32_from_be_def u32_to_be_def)
    then show ?thesis
      using crc32_one_byte [of "?k div 2" ?P y] True P \<open>take PAYLOAD_LEN bs = ?P[?k div 2 := y]\<close> by simp
  next
    case False
    then show ?thesis using P by (simp add: bs printed_bytes_def list_update_append)
  qed
  then show ?thesis using j identity_of_payload [OF assms(1)] by simp
qed

definition ex_identity :: device_identity where
  "ex_identity = \<lparr>dd_device_id = Id (replicate 16 0x0a), dd_ed25519_pub = replicate 32 1, dd_x25519_pub = replicate 32 2\<rparr>"

lemma ex_identity_ok: "identity_ok ex_identity"
  by (simp add: identity_ok_def ex_identity_def id_wf_def)

lemma identity_roundtrip_witness: "from_export_string (to_export_string ex_identity) = Inr ex_identity"
  by (rule identity_roundtrip [OF ex_identity_ok])

lemma ex_identity_upper:
  "(to_export_string ex_identity)[8 := CHR ''A''] = IDENTITY_PREFIX @ ''0A'' @ hex_encode (tl (printed_bytes ex_identity))"
  "(to_export_string ex_identity) ! 8 = CHR ''a''"
  "from_export_string (IDENTITY_PREFIX @ ''0A'' @ hex_encode (tl (printed_bytes ex_identity))) = Inr ex_identity"
proof -
  let ?rest = "tl (printed_bytes ex_identity)"
  have printed: "printed_bytes ex_identity = 0x0a # ?rest"
    by (simp add: printed_bytes_def identity_payload_def ex_identity_def numeral_eq_Suc)
  then have "hex_encode (printed_bytes ex_identity) = ''0a'' @ hex_encode ?rest"
  proof -
    have "hex_encode (0x0a # ?rest) = hex_encode [0x0a] @ hex_encode ?rest" by (simp add: hex_encode_def)
    moreover have "hex_encode [0x0a] = ''0a''" by code_simp
    ultimately show ?thesis using printed by simp
  qed
  then have written: "to_export_string ex_identity = IDENTITY_PREFIX @ ''0a'' @ hex_encode ?rest"
    by (simp add: printed_text)
  show "(to_export_string ex_identity)[8 := CHR ''A''] = IDENTITY_PREFIX @ ''0A'' @ hex_encode ?rest"
    and "(to_export_string ex_identity) ! 8 = CHR ''a''"
    by (simp_all add: written IDENTITY_PREFIX_def numeral_eq_Suc)
  have "set (IDENTITY_PREFIX @ ''0A'') \<subseteq> set text_chars" by code_simp
  then have "trim (IDENTITY_PREFIX @ ''0A'' @ hex_encode ?rest) = IDENTITY_PREFIX @ ''0A'' @ hex_encode ?rest"
    using printed_chars [of ex_identity] by (intro trim_text) (auto simp: written)
  moreover have "to_digit_16 (of_char CHR ''0'') = Some 0" "to_digit_16 (of_char CHR ''A'') = Some 10" by code_simp+
  then have "from_hex (''0A'' @ hex_encode ?rest) = Some (printed_bytes ex_identity)"
    using printed by (simp add: from_hex_def Let_def hex_encode_no_dash hex_pair_list_append_encode)
  ultimately show "from_export_string (IDENTITY_PREFIX @ ''0A'' @ hex_encode ?rest) = Inr ex_identity"
    using printed_length [OF ex_identity_ok] identity_of_payload [OF ex_identity_ok]
    by (auto simp: from_export_string_Inr printed_bytes_def u32_from_be_def u32_to_be_def)
qed

lemma identity_typo_caught_witness:
  "(to_export_string ex_identity)[8 := CHR ''A''] \<noteq> to_export_string ex_identity \<and>
   (\<exists>j. from_export_string ((to_export_string ex_identity)[8 := CHR ''A'']) = Inr j \<and> j = ex_identity)"
proof -
  have long: "8 < length (to_export_string ex_identity)"
    using printed_length [OF ex_identity_ok] by (simp add: printed_text IDENTITY_PREFIX_def PAYLOAD_LEN_def)
  have "from_export_string ((to_export_string ex_identity)[8 := CHR ''A'']) = Inr ex_identity"
    using ex_identity_upper by simp
  moreover have "(to_export_string ex_identity)[8 := CHR ''A''] ! 8 \<noteq> to_export_string ex_identity ! 8"
    using ex_identity_upper(2) long by simp
  then have differs: "(to_export_string ex_identity)[8 := CHR ''A''] \<noteq> to_export_string ex_identity" by metis
  ultimately show ?thesis using identity_typo_caught [OF ex_identity_ok long]
    using differs by blast
qed

end
