(* ===== verification/SecretKey.thy ===== *)
theory SecretKey
  imports Identity
begin

text \<open>
  The printed form of the Secret Key (\<open>lp-crypto/src/secretkey.rs\<close>): sixteen bytes and their checksum in
  grouped Crockford base32. The codec is that of the crate \<open>data_encoding\<close>, a parameter. The checksum is the
  one of the identity strings, written with a branch; a printed key reads back.
\<close>

unbundle bit_operations_syntax

record base32 =
  b32_encode :: "bytes \<Rightarrow> string"
  b32_decode :: "string \<Rightarrow> bytes option"

definition SECRET_KEY_LEN :: nat where "SECRET_KEY_LEN = 16"
definition SK_PREFIX :: string where "SK_PREFIX = ''LP1-''"
definition SK_PREFIX_TAG :: string where "SK_PREFIX_TAG = ''LP1''"
definition SK_GROUP :: nat where "SK_GROUP = 5"
definition SK_PAYLOAD_LEN :: nat where "SK_PAYLOAD_LEN = SECRET_KEY_LEN + 4"

definition sk_crc_bit :: "u32 \<Rightarrow> u32" where
  "sk_crc_bit crc = (if crc AND 1 \<noteq> 0 then drop_bit 1 crc XOR 0xEDB88320 else drop_bit 1 crc)"

definition sk_crc32 :: "bytes \<Rightarrow> u32" where
  "sk_crc32 bs = NOT (foldl (\<lambda>crc b. (sk_crc_bit ^^ 8) (crc XOR ucast b)) 0xFFFFFFFF bs)"

definition upper_char :: "char \<Rightarrow> char" where
  "upper_char c = (case map_of (zip lower_case upper_case) c of None \<Rightarrow> c | Some u \<Rightarrow> u)"

definition sk_layout :: "char \<Rightarrow> bool" where
  "sk_layout c \<longleftrightarrow> c = CHR ''-'' \<or> c = CHR '' ''"

definition fold_confusable :: "char \<Rightarrow> char" where
  "fold_confusable c = (if c = CHR ''O'' then CHR ''0'' else if c = CHR ''I'' \<or> c = CHR ''L'' then CHR ''1'' else c)"

definition sk_normalize :: "string \<Rightarrow> string" where
  "sk_normalize body = map (\<lambda>c. fold_confusable (upper_char c)) (filter (\<lambda>c. \<not> sk_layout (upper_char c)) body)"

fun sk_grouped :: "nat \<Rightarrow> string \<Rightarrow> string" where
  "sk_grouped i [] = []"
| "sk_grouped i (c # cs) =
     (if i \<noteq> 0 \<and> i mod SK_GROUP = 0 then [CHR ''-''] else []) @ c # sk_grouped (i + 1) cs"

definition sk_encode :: "base32 \<Rightarrow> bytes \<Rightarrow> string" where
  "sk_encode B key = SK_PREFIX @ sk_grouped 0 (b32_encode B (key @ u32_to_be (sk_crc32 key)))"

definition sk_decode :: "base32 \<Rightarrow> string \<Rightarrow> crypto_error + bytes" where
  "sk_decode B s =
     (let stripped = map upper_char (filter (\<lambda>c. \<not> sk_layout c) s) in
      bind_ok (ok_or (InvalidSecretKeyEncoding ''missing or wrong LP1 prefix'') (strip_prefix SK_PREFIX_TAG stripped)) (\<lambda>body.
      bind_ok (ok_or (InvalidSecretKeyEncoding ''invalid base32 / bad character'') (b32_decode B (sk_normalize body))) (\<lambda>decoded.
      if length decoded \<noteq> SK_PAYLOAD_LEN then Inl (InvalidSecretKeyEncoding ''wrong decoded length'')
      else
        let key = take SECRET_KEY_LEN decoded; crc_bytes = drop SECRET_KEY_LEN decoded in
        if u32_to_be (sk_crc32 key) = take 4 crc_bytes then Inr key
        else Inl (InvalidSecretKeyEncoding ''checksum mismatch''))))"

lemma sk_crc_bit_eq: "sk_crc_bit = crc_bit"
proof
  fix c :: u32
  have "c AND 1 = (if odd c then 1 else 0)" by (simp add: and_one_eq mod_2_eq_odd)
  then show "sk_crc_bit c = crc_bit c" by (simp add: sk_crc_bit_def crc_bit_odd CRC_POLY_def)
qed

lemma sk_crc32_eq: "sk_crc32 = crc32"
proof
  have "crc_byte = (\<lambda>crc b. (crc_bit ^^ 8) (crc XOR ucast b))" by (simp add: crc_byte_def fun_eq_iff)
  then show "sk_crc32 bs = crc32 bs" for bs by (simp add: sk_crc32_def crc32_def sk_crc_bit_eq)
qed

text \<open>The law of the codec: what it writes is in Crockford's alphabet and reads back.\<close>

definition crockford :: string where
  "crockford = ''0123456789ABCDEFGHJKMNPQRSTVWXYZ''"

definition base32_ok :: "base32 \<Rightarrow> bool" where
  "base32_ok B \<longleftrightarrow> (\<forall>bs. b32_decode B (b32_encode B bs) = Some bs \<and> set (b32_encode B bs) \<subseteq> set crockford)"

lemma crockford_fixed:
  "c \<in> set crockford \<Longrightarrow> upper_char c = c \<and> \<not> sk_layout c \<and> fold_confusable c = c"
proof -
  have "list_all (\<lambda>c. upper_char c = c \<and> \<not> sk_layout c \<and> fold_confusable c = c) crockford" by code_simp
  then show "c \<in> set crockford \<Longrightarrow> upper_char c = c \<and> \<not> sk_layout c \<and> fold_confusable c = c"
    by (simp add: list_all_iff)
qed

lemma sk_grouped_strip: "set s \<subseteq> set crockford \<Longrightarrow> filter (\<lambda>c. \<not> sk_layout c) (sk_grouped i s) = s"
  by (induction s arbitrary: i) (auto simp: crockford_fixed, simp_all add: sk_layout_def)

lemma crockford_map: "set s \<subseteq> set crockford \<Longrightarrow> map upper_char s = s \<and> sk_normalize s = s"
  by (induction s) (auto simp: sk_normalize_def crockford_fixed)

lemma secret_key_roundtrip:
  assumes "base32_ok B" and "length key = SECRET_KEY_LEN"
  shows "sk_decode B (sk_encode B key) = Inr key"
proof -
  let ?b = "b32_encode B (key @ u32_to_be (sk_crc32 key))"
  have b: "b32_decode B ?b = Some (key @ u32_to_be (sk_crc32 key))" and chars: "set ?b \<subseteq> set crockford"
    using assms(1) by (auto simp: base32_ok_def)
  have "filter (\<lambda>c. \<not> sk_layout c) SK_PREFIX = SK_PREFIX_TAG" and "map upper_char SK_PREFIX_TAG = SK_PREFIX_TAG"
    by code_simp+
  then have "map upper_char (filter (\<lambda>c. \<not> sk_layout c) (sk_encode B key)) = SK_PREFIX_TAG @ ?b"
    using sk_grouped_strip [OF chars] crockford_map [OF chars] by (simp add: sk_encode_def)
  then show ?thesis
    using b crockford_map [OF chars] assms(2)
    by (simp add: sk_decode_def Let_def strip_prefix_def SK_PAYLOAD_LEN_def u32_to_be_def)
qed

end
