(* ===== verification/DaemonState.thy ===== *)
theory DaemonState
  imports Protocol SecretKey
begin

text \<open>
  The state the daemon guards with its mutex and the operations on it (\<open>lp-daemon/src/engine.rs\<close>, with
  \<open>NearbyState\<close> of \<open>nearby.rs\<close>): the held session, the idle timer, the presence grants, the pairing and
  agent-fill windows and the pending fill intent. Instants and durations are nanoseconds; every read
  of the clock is an argument.
\<close>

section \<open>State\<close>

definition NANOS :: nat where "NANOS = 10 ^ 9"
definition PAIRING_WINDOW :: nat where "PAIRING_WINDOW = 180 * NANOS"
definition AGENT_FILL_WINDOW :: nat where "AGENT_FILL_WINDOW = 180 * NANOS"
definition FILL_INTENT_TTL :: nat where "FILL_INTENT_TTL = 30 * NANOS"
definition MAX_PRESENCE_GRANTS :: nat where "MAX_PRESENCE_GRANTS = 8"
definition PRESENCE_GRANT_SECS :: nat where "PRESENCE_GRANT_SECS = 300"
definition MAX_PRESENCE_FAILURES :: u32 where "MAX_PRESENCE_FAILURES = 5"
definition MAX_AUDIT_LIMIT :: u32 where "MAX_AUDIT_LIMIT = 1000"

definition as_secs :: "nat \<Rightarrow> u64" where
  "as_secs d = word_of_nat (d div NANOS)"

record grant =
  gr_token :: bytes
  gr_expires_at :: nat

record agent_fill_window =
  aw_until :: nat
  aw_items :: "string bset"

record pending_fill =
  pf_item_id :: string
  pf_tab_id :: "u64 option"
  pf_origin :: string
  pf_overwrite :: bool
  pf_expires_at :: nat
  pf_taken :: bool
  pf_report :: "fill_report option"

text \<open>The listen window: \<open>lh_running\<close> is cleared by the listening thread when it ends.\<close>

record listen_handle =
  lh_stop :: bool
  lh_running :: bool
  lh_port :: "16 word"
  lh_addresses :: "string list"
  lh_until :: nat

record nearby_state =
  ny_listen :: "listen_handle option"
  ny_last :: "wire_nearby_outcome option"

record state =
  st_profile :: string
  st_session :: "live_session option"
  st_autolock :: nat
  st_last_activity :: nat
  st_ssh_agent_endpoint :: "string option"
  st_pairing_mode_until :: "nat option"
  st_agent_fill :: "agent_fill_window option"
  st_pending_fill :: "pending_fill option"
  st_agent_fill_window :: nat
  st_fill_intent_ttl :: nat
  st_agent_sessions :: nat
  st_presence_grants :: "grant list"
  st_presence_failures :: u32
  st_presence_ttl :: nat
  st_nearby :: nearby_state

record request_context =
  rc_agent_connection :: bool
  rc_presence_grant :: "string option"

definition no_context :: request_context where
  "no_context = \<lparr>rc_agent_connection = False, rc_presence_grant = None\<rparr>"

definition new_state :: "string \<Rightarrow> nat \<Rightarrow> nat \<Rightarrow> state" where
  "new_state profile autolock now =
     \<lparr>st_profile = profile, st_session = None, st_autolock = autolock, st_last_activity = now,
      st_ssh_agent_endpoint = None, st_pairing_mode_until = None, st_agent_fill = None, st_pending_fill = None,
      st_agent_fill_window = AGENT_FILL_WINDOW, st_fill_intent_ttl = FILL_INTENT_TTL, st_agent_sessions = 0,
      st_presence_grants = [], st_presence_failures = 0, st_presence_ttl = PRESENCE_GRANT_SECS * NANOS,
      st_nearby = \<lparr>ny_listen = None, ny_last = None\<rparr>\<rparr>"

definition is_unlocked :: "state \<Rightarrow> bool" where
  "is_unlocked st \<longleftrightarrow> st_session st \<noteq> None"

section \<open>Locking\<close>

definition stop_listening :: "nearby_state \<Rightarrow> nearby_state" where
  "stop_listening ny = ny\<lparr>ny_listen := None\<rparr>"

definition listening :: "nat \<Rightarrow> nearby_state \<Rightarrow> bool" where
  "listening now ny \<longleftrightarrow>
     (case ny_listen ny of None \<Rightarrow> False | Some h \<Rightarrow> lh_running h \<and> \<not> lh_stop h \<and> now < lh_until h)"

definition lock :: "state \<Rightarrow> state" where
  "lock st =
     st\<lparr>st_session := None, st_agent_fill := None, st_pending_fill := None, st_presence_grants := [],
        st_presence_failures := 0, st_nearby := stop_listening (st_nearby st)\<rparr>"

definition maybe_autolock :: "nat \<Rightarrow> state \<Rightarrow> bool \<times> state" where
  "maybe_autolock now st =
     (if st_session st \<noteq> None \<and> st_autolock st \<noteq> 0 \<and> st_autolock st \<le> now - st_last_activity st
      then (True, lock st) else (False, st))"

definition idle_remaining_secs :: "nat \<Rightarrow> state \<Rightarrow> u64 option" where
  "idle_remaining_secs now st =
     (if st_session st = None \<or> st_autolock st = 0 then None
      else Some (as_secs (st_autolock st - (now - st_last_activity st))))"

definition touch :: "nat \<Rightarrow> state \<Rightarrow> state" where
  "touch now st = st\<lparr>st_last_activity := now\<rparr>"

section \<open>Human presence\<close>

definition agent_session_active :: "state \<Rightarrow> bool" where
  "agent_session_active st \<longleftrightarrow> 0 < st_agent_sessions st"

definition end_agent_session :: "state \<Rightarrow> state" where
  "end_agent_session st = st\<lparr>st_agent_sessions := st_agent_sessions st - 1\<rparr>"

definition hex_decode_32 :: "string \<Rightarrow> bytes option" where
  "hex_decode_32 s = (if length s = 64 then hex_pair_list s else None)"

definition ct_eq :: "bytes \<Rightarrow> bytes \<Rightarrow> bool" where
  "ct_eq a b \<longleftrightarrow> fold (\<lambda>(x, y) acc. or acc (xor x y)) (zip a b) 0 = 0"

definition live_grants :: "nat \<Rightarrow> state \<Rightarrow> grant list" where
  "live_grants now st = filter (\<lambda>g. now < gr_expires_at g) (st_presence_grants st)"

definition issue_presence_grant :: "nat \<Rightarrow> bytes \<Rightarrow> state \<Rightarrow> (string \<times> u64) \<times> state" where
  "issue_presence_grant now token st =
     (let grants = live_grants now st;
          grants = (if MAX_PRESENCE_GRANTS \<le> length grants then tl grants else grants)
      in ((hex_encode token, as_secs (st_presence_ttl st)),
          st\<lparr>st_presence_grants := grants @ [\<lparr>gr_token = token, gr_expires_at = now + st_presence_ttl st\<rparr>]\<rparr>))"

definition presence_granted :: "nat \<Rightarrow> string option \<Rightarrow> state \<Rightarrow> bool \<times> state" where
  "presence_granted now token st =
     (let grants = live_grants now st in
      (case (case token of None \<Rightarrow> None | Some t \<Rightarrow> hex_decode_32 t) of
         None \<Rightarrow> False
       | Some presented \<Rightarrow> fold (\<lambda>g hit. hit \<or> ct_eq (gr_token g) presented) grants False,
       st\<lparr>st_presence_grants := grants\<rparr>))"

section \<open>The pairing window\<close>

definition set_pairing_mode :: "nat \<Rightarrow> bool \<Rightarrow> state \<Rightarrow> state" where
  "set_pairing_mode now on st = st\<lparr>st_pairing_mode_until := if on then Some (now + PAIRING_WINDOW) else None\<rparr>"

definition pairing_mode_active :: "nat \<Rightarrow> state \<Rightarrow> bool" where
  "pairing_mode_active now st \<longleftrightarrow> (case st_pairing_mode_until st of None \<Rightarrow> False | Some t \<Rightarrow> now < t)"

definition pairing_mode_remaining_secs :: "nat \<Rightarrow> state \<Rightarrow> u64 option" where
  "pairing_mode_remaining_secs now st =
     (case st_pairing_mode_until st of None \<Rightarrow> None | Some t \<Rightarrow> if now < t then Some (as_secs (t - now)) else None)"

section \<open>The agent-fill window and its intent\<close>

definition set_agent_fill_mode :: "nat \<Rightarrow> bool \<Rightarrow> string bset \<Rightarrow> state \<Rightarrow> state" where
  "set_agent_fill_mode now on items st =
     st\<lparr>st_agent_fill := if on then Some \<lparr>aw_until = now + st_agent_fill_window st, aw_items = items\<rparr> else None,
        st_pending_fill := None\<rparr>"

definition agent_fill_active :: "nat \<Rightarrow> state \<Rightarrow> bool" where
  "agent_fill_active now st \<longleftrightarrow> (case st_agent_fill st of None \<Rightarrow> False | Some w \<Rightarrow> now < aw_until w)"

definition agent_fill_remaining_secs :: "nat \<Rightarrow> state \<Rightarrow> u64 option" where
  "agent_fill_remaining_secs now st =
     (case st_agent_fill st of None \<Rightarrow> None
      | Some w \<Rightarrow> if now < aw_until w then Some (as_secs (aw_until w - now)) else None)"

definition agent_fill_covers :: "nat \<Rightarrow> string \<Rightarrow> state \<Rightarrow> bool" where
  "agent_fill_covers now item_id st \<longleftrightarrow>
     (case st_agent_fill st of None \<Rightarrow> False | Some w \<Rightarrow> now < aw_until w \<and> item_id \<in> set (aw_items w))"

definition agent_fill_lapsed :: "nat \<Rightarrow> state \<Rightarrow> bool" where
  "agent_fill_lapsed now st \<longleftrightarrow> (case st_agent_fill st of None \<Rightarrow> False | Some w \<Rightarrow> aw_until w \<le> now)"

definition clear_agent_fill :: "state \<Rightarrow> state" where
  "clear_agent_fill st = st\<lparr>st_agent_fill := None, st_pending_fill := None\<rparr>"

definition arm_fill_intent :: "nat \<Rightarrow> string \<Rightarrow> u64 option \<Rightarrow> string \<Rightarrow> bool \<Rightarrow> state \<Rightarrow> u64 \<times> state" where
  "arm_fill_intent now item_id tab_id origin overwrite st =
     (as_secs (st_fill_intent_ttl st),
      st\<lparr>st_pending_fill := Some
           \<lparr>pf_item_id = item_id, pf_tab_id = tab_id, pf_origin = origin, pf_overwrite = overwrite,
            pf_expires_at = now + st_fill_intent_ttl st, pf_taken = False, pf_report = None\<rparr>\<rparr>)"

definition take_fill_intent :: "nat \<Rightarrow> state \<Rightarrow> (string \<times> u64 option \<times> string \<times> u64 \<times> bool) option \<times> state" where
  "take_fill_intent now st =
     (case st_pending_fill st of None \<Rightarrow> (None, st)
      | Some i \<Rightarrow>
          if pf_taken i \<or> pf_expires_at i \<le> now then (None, st)
          else (Some (pf_item_id i, pf_tab_id i, pf_origin i, as_secs (pf_expires_at i - now), pf_overwrite i),
                st\<lparr>st_pending_fill := Some (i\<lparr>pf_taken := True\<rparr>)\<rparr>))"

definition record_fill_report :: "string \<Rightarrow> fill_report \<Rightarrow> state \<Rightarrow> bool \<times> state" where
  "record_fill_report item_id report st =
     (case st_pending_fill st of None \<Rightarrow> (False, st)
      | Some i \<Rightarrow>
          if pf_taken i \<and> pf_item_id i = item_id
          then (True, st\<lparr>st_pending_fill := Some (i\<lparr>pf_report := Some report\<rparr>)\<rparr>) else (False, st))"

definition fill_outcome :: "nat \<Rightarrow> state \<Rightarrow>
     fill_status \<times> string option \<times> u64 option \<times> string option \<times> fill_report option" where
  "fill_outcome now st =
     (case st_pending_fill st of None \<Rightarrow> (FsNone, None, None, None, None)
      | Some i \<Rightarrow>
          let status = (if pf_report i \<noteq> None then FsReported else if pf_expires_at i \<le> now then FsExpired
                else if pf_taken i then FsTaken else FsPending)
          in (status, Some (pf_item_id i), pf_tab_id i, Some (pf_origin i), pf_report i))"

section \<open>Basic lemmas\<close>

text \<open>The comparison without an early exit is equality.\<close>

lemma xor_zero_iff: "xor x y = 0 \<longleftrightarrow> x = (y :: byte)"
proof
  assume "xor x y = 0"
  then have "xor (xor x y) y = xor 0 y" by simp
  then show "x = y" by (simp add: xor.assoc)
qed simp

lemma or_zero_iff: "or x y = 0 \<longleftrightarrow> x = 0 \<and> y = (0 :: byte)"
  by (auto simp: bit_eq_iff bit_or_iff)

lemma ct_eq_fold: "fold (\<lambda>(x, y) acc. or acc (xor x y)) ps (acc :: byte) = 0 \<longleftrightarrow> acc = 0 \<and> (\<forall>p\<in>set ps. fst p = snd p)"
proof (induction ps arbitrary: acc)
  case (Cons p ps)
  have "fold (\<lambda>(x, y) acc. or acc (xor x y)) (p # ps) acc =
      fold (\<lambda>(x, y) acc. or acc (xor x y)) ps (or acc (xor (fst p) (snd p)))"
    by (simp add: case_prod_beta)
  then show ?case by (simp only: Cons.IH or_zero_iff xor_zero_iff) auto
qed simp

lemma ct_eq_iff: "length a = length b \<Longrightarrow> ct_eq a b \<longleftrightarrow> a = b"
  unfolding ct_eq_def ct_eq_fold by (induction a b rule: list_induct2) auto

lemma fold_hit: "fold (\<lambda>g hit. hit \<or> P g) gs h \<longleftrightarrow> h \<or> (\<exists>g\<in>set gs. P g)"
  by (induction gs arbitrary: h) auto

lemma hex_decode_32_length: "hex_decode_32 s = Some bs \<Longrightarrow> length bs = 32"
  using hex_pair_list_Some [of s bs] by (auto simp: hex_decode_32_def split: if_splits)

text \<open>A request's grant counts exactly when its token is that of a live grant.\<close>

lemma presence_granted_iff:
  assumes "\<And>g. g \<in> set (st_presence_grants st) \<Longrightarrow> length (gr_token g) = 32"
  shows "fst (presence_granted now token st) \<longleftrightarrow>
     (\<exists>t g. token = Some t \<and> g \<in> set (st_presence_grants st) \<and> now < gr_expires_at g \<and>
        hex_decode_32 t = Some (gr_token g))"
proof -
  have "ct_eq (gr_token g) bs \<longleftrightarrow> gr_token g = bs" if "hex_decode_32 t = Some bs" "g \<in> set (st_presence_grants st)" for t bs g
    using ct_eq_iff assms [OF that(2)] hex_decode_32_length [OF that(1)] by simp
  then show ?thesis
    by (auto simp: presence_granted_def Let_def live_grants_def fold_hit split: option.splits)
qed

lemma hex_decode_encode_32: "length bs = 32 \<Longrightarrow> hex_decode_32 (hex_encode bs) = Some bs"
  by (simp add: hex_decode_32_def hex_pair_list_append_encode)

end
