(* ===== verification/Render.thy ===== *)
theory Render
  imports Protocol Origin Items Shipping
begin

text \<open>
  What of an item crosses the daemon's socket (\<open>lp-daemon/src/render.rs\<close>): the flattened fields with their
  secrets masked unless revealed, summaries, audit records and the resolution of one field. The JSON text of
  a value that is not a string is the argument \<open>json_text\<close>. The theorem: a masked item is the item with
  its secrets blanked out.
\<close>

section \<open>Audit records\<close>

definition audit_to_wire :: "ship_lib \<Rightarrow> audit_record \<Rightarrow> wire_audit_record" where
  "audit_to_wire lib r =
     (let hyphen = map_option (to_hyphenated lib) in
      \<lparr>wl_seq = au_seq r, wl_timestamp = au_timestamp r, wl_device_id = to_hyphenated lib (au_device_id r),
       wl_kind = audit_label (au_kind r), wl_item_id = hyphen (audit_item_id (au_kind r)),
       wl_vault_id = hyphen (audit_vault_id (au_kind r)), wl_peer_device_id = hyphen (audit_peer_id (au_kind r)),
       wl_field = (case au_kind r of ItemSecretRead i v f \<Rightarrow> f | _ \<Rightarrow> None),
       wl_export_format = (case au_kind r of Export f n \<Rightarrow> Some f | _ \<Rightarrow> None),
       wl_item_count = (case au_kind r of Export f n \<Rightarrow> Some n | _ \<Rightarrow> None),
       wl_deny_reason = map_option deny_label (audit_deny_reason (au_kind r)),
       wl_source = map_option (\<lambda>ori. source_label (ao_source ori)) (au_origin r),
       wl_process = Option.bind (au_origin r) ao_process, wl_pid = Option.bind (au_origin r) ao_pid,
       wl_detail = au_detail r\<rparr>)"

section \<open>Fields\<close>

text \<open>Six bullets, U+2022.\<close>

definition MASK :: string where
  "MASK = concat (replicate 6 [CHR 0xE2, CHR 0x80, CHR 0xA2])"

record flat =
  fl_name :: string
  fl_value :: string
  fl_secret :: bool

definition flat_of :: "string \<Rightarrow> string \<Rightarrow> bool \<Rightarrow> flat" where
  "flat_of name value secret = \<lparr>fl_name = name, fl_value = value, fl_secret = secret\<rparr>"

definition value_to_string :: "(json \<Rightarrow> string) \<Rightarrow> json \<Rightarrow> string" where
  "value_to_string json_text v = (case v of JString s \<Rightarrow> s | other \<Rightarrow> json_text other)"

definition unless_empty :: "string \<Rightarrow> string \<Rightarrow> flat list" where
  "unless_empty name value = (if value = [] then [] else [flat_of name value False])"

definition when_some :: "string \<Rightarrow> int option \<Rightarrow> flat list" where
  "when_some name v = (case v of None \<Rightarrow> [] | Some i \<Rightarrow> [flat_of name (int_to_string i) False])"

definition unless_zero :: "string \<Rightarrow> u32 \<Rightarrow> flat list" where
  "unless_zero name w = (if w = 0 then [] else [flat_of name (nat_to_string (unat w)) False])"

fun flatten_type :: "type_data \<Rightarrow> flat list" where
  "flatten_type (Login urls) = (if urls = [] then [] else [flat_of ''urls'' (join_with '', '' urls) False])"
| "flatten_type Note = []"
| "flatten_type (ApiKey key secret endpoint expiry rotate_after) =
     [flat_of ''key'' key False, flat_of ''secret'' secret True] @ unless_empty ''endpoint'' endpoint @
     when_some ''expiry'' expiry @ when_some ''rotate_after'' rotate_after"
| "flatten_type (EnvSet entries) = map (\<lambda>e. flat_of (env_key e) (env_value e) True) entries"
| "flatten_type (SshKey algo private_pem public_openssh fpr) =
     unless_empty ''algo'' algo @ [flat_of ''private_pem'' private_pem True] @
     unless_empty ''public_openssh'' public_openssh @ unless_empty ''fingerprint'' fpr"
| "flatten_type (Totp secret_b32 algo digits period issuer account) =
     [flat_of ''secret_b32'' secret_b32 True] @ unless_empty ''algo'' algo @ unless_zero ''digits'' digits @
     unless_zero ''period'' period @ unless_empty ''issuer'' issuer @ unless_empty ''account'' account"

definition flatten_field :: "(json \<Rightarrow> string) \<Rightarrow> custom_field \<Rightarrow> flat" where
  "flatten_field json_text f =
     flat_of (fld_name f) (value_to_string json_text (fld_value f)) (fld_kind f = HiddenField)"

definition flatten_payload :: "(json \<Rightarrow> string) \<Rightarrow> item_payload \<Rightarrow> flat list" where
  "flatten_payload json_text p = flatten_type (p_type_data p) @ map (flatten_field json_text) (p_fields p)"

definition shown :: "bool \<Rightarrow> flat \<Rightarrow> string" where
  "shown reveal f = (if fl_secret f \<and> \<not> reveal \<and> fl_value f \<noteq> [] then MASK else fl_value f)"

definition wire_fields :: "(json \<Rightarrow> string) \<Rightarrow> bool \<Rightarrow> item_payload \<Rightarrow> wire_field list" where
  "wire_fields json_text reveal p =
     map (\<lambda>f. \<lparr>wf_name = fl_name f, wf_value = shown reveal f, wf_secret = fl_secret f\<rparr>) (flatten_payload json_text p)"

definition version_to_wire ::
  "(json \<Rightarrow> string) \<Rightarrow> string \<Rightarrow> int \<Rightarrow> int \<Rightarrow> item_payload \<Rightarrow> bool \<Rightarrow> wire_item" where
  "version_to_wire json_text i version created p reveal =
     \<lparr>wi_id = i, wi_title = p_title p, wi_type_str = type_str (p_type_data p), wi_version = version,
      wi_created_at = created, wi_updated_at = created, wi_tags = p_tags p, wi_favorite = p_favorite p,
      wi_notes = p_notes p, wi_fields = wire_fields json_text reveal p\<rparr>"

definition item_to_wire :: "ship_lib \<Rightarrow> (json \<Rightarrow> string) \<Rightarrow> item \<Rightarrow> bool \<Rightarrow> wire_item" where
  "item_to_wire lib json_text it reveal =
     (let p = it_payload it in
      \<lparr>wi_id = to_hyphenated lib (it_item_id it), wi_title = p_title p, wi_type_str = type_str (p_type_data p),
       wi_version = it_current_version it, wi_created_at = it_created_at it, wi_updated_at = it_updated_at it,
       wi_tags = p_tags p, wi_favorite = p_favorite p, wi_notes = p_notes p, wi_fields = wire_fields json_text reveal p\<rparr>)"

definition item_to_summary :: "ship_lib \<Rightarrow> item \<Rightarrow> wire_item_summary" where
  "item_to_summary lib it =
     \<lparr>ws_id = to_hyphenated lib (it_item_id it), ws_title = p_title (it_payload it),
      ws_type_str = type_str (p_type_data (it_payload it)), ws_updated_at = it_updated_at it,
      ws_tags = p_tags (it_payload it)\<rparr>"

section \<open>One field\<close>

definition eq_ignore_ascii_case :: "string \<Rightarrow> string \<Rightarrow> bool" where
  "eq_ignore_ascii_case a b \<longleftrightarrow> to_ascii_lowercase a = to_ascii_lowercase b"

definition find_exact_then_ci :: "('a \<Rightarrow> string) \<Rightarrow> string \<Rightarrow> 'a list \<Rightarrow> 'a option" where
  "find_exact_then_ci name key xs =
     (case List.find (\<lambda>x. name x = key) xs of Some x \<Rightarrow> Some x
      | None \<Rightarrow> List.find (\<lambda>x. eq_ignore_ascii_case (name x) key) xs)"

definition resolve_field :: "(json \<Rightarrow> string) \<Rightarrow> item_payload \<Rightarrow> string \<Rightarrow> string option" where
  "resolve_field json_text p fld =
     (case (case p_type_data p of EnvSet entries \<Rightarrow> find_exact_then_ci env_key fld entries | _ \<Rightarrow> None) of
        Some e \<Rightarrow> Some (env_value e)
      | None \<Rightarrow> map_option fl_value (find_exact_then_ci fl_name fld (flatten_payload json_text p)))"

section \<open>Masking\<close>

text \<open>An item with every secret value blanked out, empty ones kept.\<close>

definition blank :: "string \<Rightarrow> string" where
  "blank s = (if s = [] then [] else MASK)"

fun redact_type :: "type_data \<Rightarrow> type_data" where
  "redact_type (ApiKey key secret endpoint expiry rotate_after) = ApiKey key (blank secret) endpoint expiry rotate_after"
| "redact_type (EnvSet entries) = EnvSet (map (\<lambda>e. e\<lparr>env_value := blank (env_value e)\<rparr>) entries)"
| "redact_type (SshKey algo private_pem public_openssh fpr) = SshKey algo (blank private_pem) public_openssh fpr"
| "redact_type (Totp secret_b32 algo digits period issuer account) =
     Totp (blank secret_b32) algo digits period issuer account"
| "redact_type td = td"

definition redact_field :: "(json \<Rightarrow> string) \<Rightarrow> custom_field \<Rightarrow> custom_field" where
  "redact_field json_text f =
     (if fld_kind f = HiddenField then f\<lparr>fld_value := JString (blank (value_to_string json_text (fld_value f)))\<rparr> else f)"

definition redact :: "(json \<Rightarrow> string) \<Rightarrow> item_payload \<Rightarrow> item_payload" where
  "redact json_text p =
     p\<lparr>p_type_data := redact_type (p_type_data p), p_fields := map (redact_field json_text) (p_fields p)\<rparr>"

definition mask_flat :: "flat \<Rightarrow> flat" where
  "mask_flat f = f\<lparr>fl_value := shown False f\<rparr>"

lemma mask_flat_of [simp]:
  "mask_flat (flat_of n v False) = flat_of n v False"
  "mask_flat (flat_of n v True) = flat_of n (blank v) True"
  by (simp_all add: mask_flat_def flat_of_def shown_def blank_def)

lemma mask_open [simp]:
  "map mask_flat (unless_empty n v) = unless_empty n v"
  "map mask_flat (when_some n i) = when_some n i"
  "map mask_flat (unless_zero n w) = unless_zero n w"
  by (simp_all add: unless_empty_def when_some_def unless_zero_def split: option.splits)

lemma flatten_redact: "flatten_payload json_text (redact json_text p) = map mask_flat (flatten_payload json_text p)"
proof -
  have "flatten_type (redact_type td) = map mask_flat (flatten_type td)" for td
    by (cases td) (simp_all add: comp_def)
  moreover have "flatten_field json_text (redact_field json_text f) = mask_flat (flatten_field json_text f)" for f
    by (simp add: flatten_field_def redact_field_def value_to_string_def [of _ "JString _"])
  ultimately show ?thesis by (simp add: flatten_payload_def redact_def comp_def)
qed

lemma wire_fields_masked: "wire_fields json_text False p = wire_fields json_text True (redact json_text p)"
  by (simp add: wire_fields_def flatten_redact mask_flat_def shown_def comp_def)

lemma redact_type_str: "type_str (redact_type td) = type_str td"
  by (cases td) simp_all

text \<open>An item sent without the reveal flag is exactly the item whose secret values were blanked out
  beforehand, so nothing of a secret but its emptiness crosses the socket.\<close>

theorem masked_item_is_redacted:
  "item_to_wire lib json_text it False =
     item_to_wire lib json_text (it\<lparr>it_payload := redact json_text (it_payload it)\<rparr>) True"
proof -
  have "p_title (redact json_text p) = p_title p" "p_tags (redact json_text p) = p_tags p"
    "p_favorite (redact json_text p) = p_favorite p" "p_notes (redact json_text p) = p_notes p"
    "type_str (p_type_data (redact json_text p)) = type_str (p_type_data p)" for p
    by (simp_all add: redact_def redact_type_str)
  then show ?thesis by (simp add: item_to_wire_def Let_def wire_fields_masked)
qed

end
