(* ===== verification/Announce.thy ===== *)
theory Announce
  imports Identity Shipping
begin

text \<open>
  Channel announces (\<open>lp-sync/src/announce.rs\<close>): the file a device drops at the root of the channel and the
  listing of those files, which skips whatever does not parse. The JSON body is a parameter.
\<close>

record announce =
  an_device_id :: id
  an_identity :: string
  an_label :: "string option"
  an_announced_at :: u64

record announce_json =
  aj_identity :: string
  aj_label :: "string option"
  aj_announced_at :: u64

record announce_lib =
  al_announce_json :: "announce_json \<Rightarrow> string + bytes"
  al_parse_announce :: "bytes \<Rightarrow> announce_json option"

definition PAIRING_DIR :: string where "PAIRING_DIR = ''pairing''"
definition IDENTITY_EXT :: string where "IDENTITY_EXT = ''identity''"

definition pairing_dir :: store_path where
  "pairing_dir = sp_join sp_root PAIRING_DIR"

definition write_announce ::
  "ship_lib \<Rightarrow> announce_lib \<Rightarrow> 's store_ops \<Rightarrow> device_identity \<Rightarrow> string option \<Rightarrow> u64 \<Rightarrow> ('s, unit) io" where
  "write_announce lib A store identity label announced_at =
     io_bind (st_create_dir_all store pairing_dir) (\<lambda>_.
     io_bind (io_lift (map_err Serialization (al_announce_json A
       \<lparr>aj_identity = to_export_string identity, aj_label = label, aj_announced_at = announced_at\<rparr>))) (\<lambda>body.
     st_write_atomic store
       (sp_join pairing_dir (to_hyphenated lib (dd_device_id identity) @ ''.'' @ IDENTITY_EXT)) body))"

text \<open>One file of the directory: \<open>None\<close> is skipped.\<close>

definition parse_announce :: "announce_lib \<Rightarrow> bytes \<Rightarrow> announce option" where
  "parse_announce A bs =
     (case al_parse_announce A bs of None \<Rightarrow> None
      | Some body \<Rightarrow>
          (case from_export_string (aj_identity body) of Inl _ \<Rightarrow> None
           | Inr parsed \<Rightarrow>
               Some \<lparr>an_device_id = dd_device_id parsed, an_identity = aj_identity body, an_label = aj_label body,
                     an_announced_at = aj_announced_at body\<rparr>))"

definition read_announce ::
  "announce_lib \<Rightarrow> 's store_ops \<Rightarrow> dir_entry \<Rightarrow> announce list \<Rightarrow> ('s, announce list) io" where
  "read_announce A store entry out =
     (let path = sp_join pairing_dir (de_name entry) in
      if extension path \<noteq> Some IDENTITY_EXT then io_ok out
      else
        io_try (st_read store path) (\<lambda>r.
        io_ok (case r of
            Inr (Some bs) \<Rightarrow> (case parse_announce A bs of None \<Rightarrow> out | Some a \<Rightarrow> out @ [a])
          | _ \<Rightarrow> out)))"

definition list_announces :: "announce_lib \<Rightarrow> 's store_ops \<Rightarrow> ('s, announce list) io" where
  "list_announces A store =
     io_try (st_list_dir store pairing_dir) (\<lambda>r.
       case r of
         Inl e \<Rightarrow> if is_not_found e then io_ok [] else io_err e
       | Inr entries \<Rightarrow> io_fold (read_announce A store) entries [])"

section \<open>What a listing returns\<close>

text \<open>The id of an announce is the one its identity string parses to.\<close>

definition announce_ok :: "announce \<Rightarrow> bool" where
  "announce_ok a \<longleftrightarrow> map_option dd_device_id (case from_export_string (an_identity a) of Inl _ \<Rightarrow> None | Inr i \<Rightarrow> Some i) =
     Some (an_device_id a)"

lemma parse_announce_ok: "parse_announce A bs = Some a \<Longrightarrow> announce_ok a"
  by (auto simp: parse_announce_def announce_ok_def split: option.splits sum.splits)

lemma announce_ok_parses: "announce_ok a \<Longrightarrow> \<exists>i. from_export_string (an_identity a) = Inr i \<and> dd_device_id i = an_device_id a"
  by (auto simp: announce_ok_def split: sum.splits)

text \<open>A file of the directory never makes the listing fail.\<close>

lemma read_announce_Inr: "\<exists>out' s'. read_announce A store entry out s = (Inr out', s')"
  by (auto simp: read_announce_def Let_def io_try_def split: prod.splits)

lemma read_announces_Inr: "\<exists>out' s'. io_fold (read_announce A store) entries out s = (Inr out', s')"
proof (induction entries arbitrary: out s)
  case (Cons e es)
  obtain out1 s1 where "read_announce A store e out s = (Inr out1, s1)"
    using read_announce_Inr [of A store e out s] by blast
  then show ?case using Cons.IH [of out1 s1] by simp
qed simp

lemma read_announce_keeps_ok:
  assumes "read_announce A store e out s = (r, s')" and "\<forall>a\<in>set out. announce_ok a"
  shows "\<exists>out'. r = Inr out' \<and> (\<forall>a\<in>set out'. announce_ok a)"
  using assms
  by (auto simp: read_announce_def Let_def io_try_def dest: parse_announce_ok split: if_splits prod.splits sum.splits option.splits)

lemma read_announces_ok:
  "io_fold (read_announce A store) entries out s = (Inr out', s') \<Longrightarrow> \<forall>a\<in>set out. announce_ok a \<Longrightarrow>
     \<forall>a\<in>set out'. announce_ok a"
proof (induction entries arbitrary: out s)
  case (Cons e es)
  obtain r s1 where step: "read_announce A store e out s = (r, s1)" by fastforce
  obtain out1 where r: "r = Inr out1" and ok: "\<forall>a\<in>set out1. announce_ok a"
    using read_announce_keeps_ok [OF step Cons.prems(2)] by blast
  have "io_fold (read_announce A store) es out1 s1 = (Inr out', s')"
    using Cons.prems(1) step r by simp
  then show ?case using Cons.IH ok by blast
qed simp

lemma list_announces_ok:
  assumes "list_announces A store s = (Inr out, s')"
  shows "\<forall>a\<in>set out. announce_ok a"
proof (cases "st_list_dir store pairing_dir s")
  case (Pair r s1)
  then show ?thesis
    using assms read_announces_ok [of A store _ "[]" s1 out s']
    by (auto simp: list_announces_def io_try_def split: sum.splits if_splits)
qed

end
