(* ===== verification/Messages.thy ===== *)
theory Messages
  imports Errors Text
begin

text \<open>
  The \<open>Display\<close> texts of the three error types, which the daemon puts in its answers. The text of a
  \<open>std::io::Error\<close> is a parameter.
\<close>

definition em_dash :: string where
  "em_dash = [CHR 0xE2, CHR 0x80, CHR 0x94]"

fun show_crypto :: "crypto_error \<Rightarrow> string" where
  "show_crypto CryptoDecryptionFailed = ''decryption failed''"
| "show_crypto (MalformedEnvelope m) = ''malformed envelope: '' @ m"
| "show_crypto (InvalidLabel m) = ''invalid label: '' @ m"
| "show_crypto (InvalidKdfParams m) = ''invalid KDF parameters: '' @ m"
| "show_crypto (InvalidSecretKeyEncoding m) = ''invalid secret-key encoding: '' @ m"
| "show_crypto (InvalidPublicKey m) = ''invalid public key: '' @ m"
| "show_crypto (InvalidTotp m) = ''invalid TOTP input: '' @ m"
| "show_crypto (NoiseState m) = ''noise state error: '' @ m"

text \<open>A panic has no text: it never reaches an answer.\<close>

fun show_vault :: "(io_kind \<Rightarrow> string) \<Rightarrow> vault_error \<Rightarrow> string" where
  "show_vault io DecryptionFailed = ''decryption failed''"
| "show_vault io (Crypto e) = ''crypto error: '' @ show_crypto e"
| "show_vault io (Sqlite m) = ''storage error: '' @ m"
| "show_vault io (VaultIo e) = ''io error: '' @ io e"
| "show_vault io (NotFoundEntity m) = ''not found: '' @ m"
| "show_vault io (VaultInvalid m) = ''invalid operation: '' @ m"
| "show_vault io (UnsupportedFormat found supported) =
     ''unsupported format version '' @ int_to_string found @ '' (this build supports '' @ int_to_string supported @ '')''"
| "show_vault io (ChainVerification m) = ''op-chain verification failed: '' @ m"
| "show_vault io (VaultSerialization m) = ''serialization error: '' @ m"
| "show_vault io (VaultPanic m) = m"

fun show_alarm :: "alarm \<Rightarrow> string" where
  "show_alarm SignatureInvalid = ''invalid op signature (forgery or tamper)''"
| "show_alarm UnknownDevice = ''op from an untrusted device''"
| "show_alarm SeqRegression = ''sequence regression (rollback)''"
| "show_alarm SeqReplay = ''sequence replay / fork''"
| "show_alarm ChainMismatch = ''hash-chain mismatch (rewritten history)''"
| "show_alarm LamportRegression = ''Lamport clock regression''"
| "show_alarm AttachmentBlobTampered = ''attachment blob content-hash mismatch (tampered or corrupt)''"

fun show_refusal :: "refusal \<Rightarrow> string" where
  "show_refusal UntrustedPeer = ''it is not a trusted device (trust it in Devices first)''"
| "show_refusal UnexpectedPeer = ''it is not the device this sync was meant for''"
| "show_refusal OwnIdentity = ''it presented this device's own identity''"
| "show_refusal BadProof = ''its identity proof did not verify''"
| "show_refusal HandshakeFailed =
     ''the secure handshake failed (not a LocalPass device, or an incompatible version)''"
| "show_refusal PeerClosed = ''it closed the connection during the handshake (does it trust this device?)''"

fun show_sync :: "(io_kind \<Rightarrow> string) \<Rightarrow> sync_error \<Rightarrow> string" where
  "show_sync io (Vault e) = ''vault error: '' @ show_vault io e"
| "show_sync io (Io e) = ''io error: '' @ io e"
| "show_sync io (Malformed m) = ''malformed sync data: '' @ m"
| "show_sync io (Serialization m) = ''serialization error: '' @ m"
| "show_sync io (Invalid m) = ''invalid operation: '' @ m"
| "show_sync io (Refused r) = ''nearby sync refused the other device: '' @ show_refusal r"
| "show_sync io (Protocol m) = ''nearby sync protocol error: '' @ m"
| "show_sync io (Qr m) = m"
| "show_sync io (Timeout m) = ''nearby sync timed out: '' @ m"
| "show_sync io (Panic m) = m"

end
