(* ===== verification/DaemonVault.thy ===== *)
theory DaemonVault
  imports DaemonState Render Engine Announce Messages
begin

text \<open>
  The vault operations behind the daemon's requests (\<open>lp-daemon/src/engine.rs\<close>): resolving vaults, items
  and attachments by name or id, reading, writing, autofill matching and revealing, attachments and the
  audit log. The state is what the daemon reads and writes on the device; an error is the response that
  is sent for it. The quoting of a value in a message, the text of an \<open>io::Error\<close>, the search index, paths
  and the services of other crates are the record \<open>daemon_lib\<close>; random draws and the wall clock are
  the record \<open>draws\<close>.
\<close>

section \<open>State and parameters\<close>

record ('x, 's) world =
  wd_profile :: "'x profile option"
  wd_files :: fs
  wd_channel :: 's

record ('x, 's) daemon_lib =
  dl_crypto :: crypto_lib
  dl_ship :: ship_lib
  dl_serde :: serde
  dl_att :: "id \<Rightarrow> att_lib"
  dl_base32 :: base32
  dl_announce :: announce_lib
  dl_factory :: "'s factory"
  dl_index_delete :: "(id \<Rightarrow> vault_error + item_payload) \<Rightarrow> id \<Rightarrow> 'x \<Rightarrow> vault_error + 'x"
  dl_index_upsert :: "(id \<Rightarrow> vault_error + item_payload) \<Rightarrow> id \<Rightarrow> item_payload \<Rightarrow> 'x \<Rightarrow> vault_error + 'x"
  dl_index_query :: "(id \<Rightarrow> vault_error + item_payload) \<Rightarrow> string \<Rightarrow> string option \<Rightarrow> 'x \<Rightarrow> (vault_error + id list) \<times> 'x"
  dl_lower :: "string \<Rightarrow> string"
  dl_json_text :: "json \<Rightarrow> string"
  dl_debug :: "string \<Rightarrow> string"
  dl_show_io :: "io_kind \<Rightarrow> string"
  dl_path :: "string \<Rightarrow> string list"
  dl_canonicalize :: "string \<Rightarrow> string option"
  dl_ssh_count :: "live_session \<Rightarrow> ('x, 's) world \<Rightarrow> nat"
  dl_elsewhere :: "request \<Rightarrow> live_session \<Rightarrow> (response, ('x, 's) world, response) eff"

record 'x draws =
  rd_token :: bytes
  rd_vault_id :: id
  rd_vault_key :: bytes
  rd_item_id :: id
  rd_op_id :: id
  rd_item_key :: "id \<Rightarrow> int \<Rightarrow> bytes"
  rd_att :: att_draws
  rd_account :: account_draws
  rd_index :: 'x
  rd_now :: int
  rd_op_now :: int
  rd_origin :: audit_origin
  rd_tmp :: "id \<Rightarrow> string \<Rightarrow> id"

type_synonym ('x, 's, 'a) act = "(response, ('x, 's) world, 'a) eff"

definition usage :: "string \<Rightarrow> response" where
  "usage message = RsError False message"

definition vault_err :: "('x, 's) daemon_lib \<Rightarrow> vault_error \<Rightarrow> response" where
  "vault_err D e =
     (case e of
        NotFoundEntity what \<Rightarrow> usage (''not found: '' @ what)
      | VaultInvalid what \<Rightarrow> usage (''invalid: '' @ what)
      | UnsupportedFormat found supported \<Rightarrow>
          usage (''vault file format '' @ int_to_string found @ '' is newer than this build supports ('' @
            int_to_string supported @ ''); upgrade LocalPass'')
      | other \<Rightarrow> usage (''storage error: '' @ show_vault (dl_show_io D) other))"

definition no_store :: vault_error where
  "no_store = Sqlite ''unable to open database file''"

definition ask_profile :: "('x, 's) daemon_lib \<Rightarrow> ('x profile \<Rightarrow> vault_error + 'a) \<Rightarrow> ('x, 's, 'a) act" where
  "ask_profile D f w =
     (map_err (vault_err D) (case wd_profile w of None \<Rightarrow> Inl no_store | Some pf \<Rightarrow> f pf), w)"

definition on_profile_dir ::
  "('x, 's) daemon_lib \<Rightarrow> ('x profile \<Rightarrow> (vault_error + 'a) \<times> 'x profile) \<Rightarrow> ('x, 's, 'a) act" where
  "on_profile_dir D f w =
     (case wd_profile w of None \<Rightarrow> (Inl (vault_err D no_store), w)
      | Some pf \<Rightarrow> (case f pf of (r, pf) \<Rightarrow> (map_err (vault_err D) r, w\<lparr>wd_profile := Some pf\<rparr>)))"

text \<open>\<open>.ok()\<close> of an audit write through the session.\<close>

definition log_kind :: "('x, 's) daemon_lib \<Rightarrow> 'x draws \<Rightarrow> live_session \<Rightarrow> audit_kind \<Rightarrow> ('x, 's) world \<Rightarrow> ('x, 's) world" where
  "log_kind D dr ses kind w =
     w\<lparr>wd_profile := map_option (\<lambda>pf. pf\<lparr>pf_account :=
         best_effort (session_audit (dl_crypto D) (rd_origin dr) (rd_now dr) ses kind) (pf_account pf)\<rparr>) (wd_profile w)\<rparr>"

definition io_log :: "('x, 's) daemon_lib \<Rightarrow> 'x draws \<Rightarrow> live_session \<Rightarrow> audit_kind \<Rightarrow> ('x, 's, unit) act" where
  "io_log D dr ses kind w = (Inr (), log_kind D dr ses kind w)"

section \<open>Vaults\<close>

text \<open>\<open>parse_id\<close>: 32 hex digits, dashes ignored.\<close>

definition parse_hex_id :: "string \<Rightarrow> id option" where
  "parse_hex_id s =
     (let hex = filter (\<lambda>c. c \<noteq> CHR ''-'') s in
      if length hex \<noteq> 32 \<or> \<not> list_all ascii_hexdigit hex then None
      else map_option id_from_bytes (hex_pair_list hex))"

definition session_vaults :: "('x, 's) daemon_lib \<Rightarrow> live_session \<Rightarrow> ('x, 's, (id \<times> string) list) act" where
  "session_vaults D ses = ask_profile D (\<lambda>pf. list_vaults (dl_crypto D) ses (pf_account pf))"

definition vault_env_of :: "('x, 's) daemon_lib \<Rightarrow> 'x draws \<Rightarrow> id \<Rightarrow> bytes \<Rightarrow> 'x vault_env" where
  "vault_env_of D dr v key =
     \<lparr>ve_vault_id = v, ve_vault_key = key, ve_aead = cl_aead (dl_crypto D), ve_fresh_item_key = rd_item_key dr,
      index_delete = dl_index_delete D, index_upsert = dl_index_upsert D\<rparr>"

definition vault_at :: "'x profile \<Rightarrow> id \<Rightarrow> vault_error + 'x vault_db" where
  "vault_at pf v = ok_or no_store (bt_get (pf_vaults pf) (as_bytes v))"

definition open_vault_id :: "('x, 's) daemon_lib \<Rightarrow> 'x draws \<Rightarrow> live_session \<Rightarrow> id \<Rightarrow> ('x, 's, 'x vault_env) act" where
  "open_vault_id D dr ses v =
     ask_profile D (\<lambda>pf.
       bind_ok (open_vault_key (dl_crypto D) ses v (pf_account pf)) (\<lambda>key.
       bind_ok (vault_at pf v) (\<lambda>_. Inr (vault_env_of D dr v key))))"

definition resolve_vault_id :: "('x, 's) daemon_lib \<Rightarrow> live_session \<Rightarrow> string \<Rightarrow> ('x, 's, id) act" where
  "resolve_vault_id D ses reference =
     io_bind (session_vaults D ses) (\<lambda>vaults.
     case (case parse_hex_id reference of None \<Rightarrow> None
           | Some i \<Rightarrow> if list_ex (\<lambda>(v, _). v = i) vaults then Some i else None) of
       Some i \<Rightarrow> io_ok i
     | None \<Rightarrow>
         (case map fst (filter (\<lambda>(_, name). name = reference) vaults) of
            [] \<Rightarrow> io_err (usage (''no vault named or id '' @ dl_debug D reference))
          | [only] \<Rightarrow> io_ok only
          | matches \<Rightarrow> io_err (usage (''vault name '' @ dl_debug D reference @ '' is ambiguous ('' @
              nat_to_string (length matches) @ '' match); use the vault id''))))"

definition open_vault_ref :: "('x, 's) daemon_lib \<Rightarrow> 'x draws \<Rightarrow> live_session \<Rightarrow> string \<Rightarrow> ('x, 's, 'x vault_env) act" where
  "open_vault_ref D dr ses reference =
     io_bind (resolve_vault_id D ses reference) (open_vault_id D dr ses)"

text \<open>Reading the open vault, and a write in one transaction.\<close>

definition ask_db ::
  "('x, 's) daemon_lib \<Rightarrow> 'x vault_env \<Rightarrow> ('x vault_db \<Rightarrow> vault_error + 'a) \<Rightarrow> ('x, 's, 'a) act" where
  "ask_db D env f = ask_profile D (\<lambda>pf. bind_ok (vault_at pf (ve_vault_id env)) f)"

definition put_db :: "id \<Rightarrow> 'x vault_db \<Rightarrow> 'x profile \<Rightarrow> 'x profile" where
  "put_db v db pf = pf\<lparr>pf_vaults := bt_insert (as_bytes v) db (pf_vaults pf)\<rparr>"

definition change_db ::
  "('x, 's) daemon_lib \<Rightarrow> 'x vault_env \<Rightarrow> ('x vault_db \<Rightarrow> vault_error + ('a \<times> 'x vault_db)) \<Rightarrow> ('x, 's, 'a) act" where
  "change_db D env f =
     on_profile_dir D (\<lambda>pf.
       case bind_ok (vault_at pf (ve_vault_id env)) f of
         Inl e \<Rightarrow> (Inl e, pf)
       | Inr (x, db) \<Rightarrow> (Inr x, put_db (ve_vault_id env) db pf))"

section \<open>Items\<close>

definition lookup_item :: "('x, 's) daemon_lib \<Rightarrow> 'x vault_env \<Rightarrow> id \<Rightarrow> ('x, 's, item) act" where
  "lookup_item D env i = ask_db D env (\<lambda>db. get_item env (dl_serde D) db i)"

text \<open>A lookup by id whose \<open>NotFound\<close> falls through.\<close>

definition by_id ::
  "('x, 's) daemon_lib \<Rightarrow> 'x vault_env \<Rightarrow> ('x vault_db \<Rightarrow> id \<Rightarrow> vault_error + item) \<Rightarrow> string \<Rightarrow> ('x, 's, item option) act" where
  "by_id D env get reference =
     (case parse_hex_id reference of None \<Rightarrow> io_ok None
      | Some i \<Rightarrow>
          ask_db D env (\<lambda>db.
            case get db i of
              Inr it \<Rightarrow> Inr (Some it)
            | Inl (NotFoundEntity _) \<Rightarrow> Inr None
            | Inl e \<Rightarrow> Inl e))"

definition find_item :: "('x, 's) daemon_lib \<Rightarrow> 'x vault_env \<Rightarrow> string \<Rightarrow> ('x, 's, item) act" where
  "find_item D env reference =
     io_bind (by_id D env (get_item env (dl_serde D)) reference) (\<lambda>found.
     case found of Some it \<Rightarrow> io_ok it
     | None \<Rightarrow>
         io_bind (ask_db D env (iter_items env (dl_serde D))) (\<lambda>items.
         case filter (\<lambda>it. p_title (it_payload it) = reference) items of
           [] \<Rightarrow> io_err (usage (''no item titled or id '' @ dl_debug D reference))
         | [only] \<Rightarrow> lookup_item D env (it_item_id only)
         | matches \<Rightarrow> io_err (usage (''item title '' @ dl_debug D reference @ '' is ambiguous ('' @
             nat_to_string (length matches) @ '' match); use the item id''))))"

definition trashed_titled :: "('x, 's) daemon_lib \<Rightarrow> 'x vault_env \<Rightarrow> string \<Rightarrow> trash_entry \<Rightarrow> id list \<Rightarrow> ('x, 's, id list) act" where
  "trashed_titled D env reference e matches =
     io_bind (ask_db D env (\<lambda>db. get_trashed_item env (dl_serde D) db (te_item_id e))) (\<lambda>it.
     io_ok (if p_title (it_payload it) = reference then matches @ [te_item_id e] else matches))"

definition find_trashed_item :: "('x, 's) daemon_lib \<Rightarrow> 'x vault_env \<Rightarrow> string \<Rightarrow> ('x, 's, id) act" where
  "find_trashed_item D env reference =
     io_bind (by_id D env (get_trashed_item env (dl_serde D)) reference) (\<lambda>found.
     case found of Some it \<Rightarrow> io_ok (it_item_id it)
     | None \<Rightarrow>
         io_bind (ask_db D env list_trash) (\<lambda>entries.
         io_bind (io_fold (trashed_titled D env reference) entries []) (\<lambda>matches.
         case matches of
           [] \<Rightarrow> io_err (usage (''no trashed item titled or id '' @ dl_debug D reference))
         | [only] \<Rightarrow> io_ok only
         | _ \<Rightarrow> io_err (usage (''trashed item title '' @ dl_debug D reference @ '' is ambiguous ('' @
             nat_to_string (length matches) @ '' match); use the item id'')))))"

section \<open>Arms that read\<close>

definition serve_list_vaults :: "('x, 's) daemon_lib \<Rightarrow> live_session \<Rightarrow> ('x, 's, response) act" where
  "serve_list_vaults D ses =
     io_bind (session_vaults D ses) (\<lambda>vaults.
     io_ok (RsVaults (map (\<lambda>(v, name). (to_hyphenated (dl_ship D) v, name)) vaults)))"

definition serve_list_items :: "('x, 's) daemon_lib \<Rightarrow> 'x draws \<Rightarrow> live_session \<Rightarrow> string \<Rightarrow> ('x, 's, response) act" where
  "serve_list_items D dr ses vault =
     io_bind (open_vault_ref D dr ses vault) (\<lambda>env.
     io_bind (ask_db D env (iter_items env (dl_serde D))) (\<lambda>items.
     io_ok (RsItems (map (item_to_summary (dl_ship D)) items))))"

definition serve_get_item ::
  "('x, 's) daemon_lib \<Rightarrow> 'x draws \<Rightarrow> live_session \<Rightarrow> string \<Rightarrow> string \<Rightarrow> int option \<Rightarrow> bool \<Rightarrow> ('x, 's, response) act" where
  "serve_get_item D dr ses vault target version reveal =
     io_bind (open_vault_ref D dr ses vault) (\<lambda>env.
     io_bind (find_item D env target) (\<lambda>it.
     io_bind (case version of
         Some ver \<Rightarrow>
           io_bind (ask_db D env (\<lambda>db. get_item_version env (dl_serde D) db (it_item_id it) ver)) (\<lambda>vi.
           io_ok (version_to_wire (dl_json_text D) (to_hyphenated (dl_ship D) (it_item_id it)) (vi_version vi)
             (vi_created_at vi) (vi_payload vi) reveal))
       | None \<Rightarrow> io_ok (item_to_wire (dl_ship D) (dl_json_text D) it reveal)) (\<lambda>wire.
     io_bind (if reveal \<and> list_ex wf_secret (wi_fields wire)
              then io_log D dr ses (ItemSecretRead (it_item_id it) (ve_vault_id env) None) else io_ok ()) (\<lambda>_.
     io_ok (RsItem wire)))))"

definition serve_history :: "('x, 's) daemon_lib \<Rightarrow> 'x draws \<Rightarrow> live_session \<Rightarrow> string \<Rightarrow> string \<Rightarrow> ('x, 's, response) act" where
  "serve_history D dr ses vault target =
     io_bind (open_vault_ref D dr ses vault) (\<lambda>env.
     io_bind (find_item D env target) (\<lambda>it.
     io_bind (ask_db D env (\<lambda>db. history env (dl_serde D) db (it_item_id it))) (\<lambda>versions.
     io_ok (RsVersions (to_hyphenated (dl_ship D) (it_item_id it))
       (map (\<lambda>v. \<lparr>wv_version = vi_version v, wv_created_at = vi_created_at v, wv_title = p_title (vi_payload v),
                  wv_type_str = type_str (p_type_data (vi_payload v))\<rparr>) versions)))))"

text \<open>
  \<open>Vault::search\<close>: the index answers, or on a failed decryption the linear scan; the index may be
  rewritten by the query.
\<close>

definition search_vault ::
  "('x, 's) daemon_lib \<Rightarrow> 'x vault_env \<Rightarrow> string \<Rightarrow> string option \<Rightarrow> 'x vault_db \<Rightarrow> (vault_error + item list) \<times> 'x vault_db" where
  "search_vault D env query type_filter db =
     (case dl_index_query D (read_item_payload env (dl_serde D) db) query type_filter (db_index db) of
        (r, ix) \<Rightarrow>
          (let db = db\<lparr>db_index := ix\<rparr> in
           case r of
             Inr ids \<Rightarrow>
               (Inr (List.map_filter (\<lambda>i. case read_item env (dl_serde D) db i of Inl _ \<Rightarrow> None | Inr it \<Rightarrow> Some it) ids), db)
           | Inl DecryptionFailed \<Rightarrow> (search_linear (dl_lower D) env (dl_serde D) db query type_filter, db)
           | Inl other \<Rightarrow> (Inl other, db)))"

definition serve_search ::
  "('x, 's) daemon_lib \<Rightarrow> 'x draws \<Rightarrow> live_session \<Rightarrow> string \<Rightarrow> string \<Rightarrow> string option \<Rightarrow> ('x, 's, response) act" where
  "serve_search D dr ses vault query type_filter =
     io_bind (open_vault_ref D dr ses vault) (\<lambda>env.
     io_bind (on_profile_dir D (\<lambda>pf.
       case vault_at pf (ve_vault_id env) of Inl e \<Rightarrow> (Inl e, pf)
       | Inr db \<Rightarrow> (case search_vault D env query type_filter db of (r, db) \<Rightarrow> (r, put_db (ve_vault_id env) db pf)))) (\<lambda>hits.
     io_ok (RsItems (map (item_to_summary (dl_ship D)) hits))))"

definition serve_resolve_field ::
  "('x, 's) daemon_lib \<Rightarrow> 'x draws \<Rightarrow> live_session \<Rightarrow> string \<Rightarrow> string \<Rightarrow> string \<Rightarrow> ('x, 's, response) act" where
  "serve_resolve_field D dr ses vault reference fld =
     io_bind (open_vault_ref D dr ses vault) (\<lambda>env.
     io_bind (find_item D env reference) (\<lambda>it.
     case resolve_field (dl_json_text D) (it_payload it) fld of
       Some value \<Rightarrow>
         io_bind (io_log D dr ses (ItemSecretRead (it_item_id it) (ve_vault_id env) (Some fld))) (\<lambda>_.
         io_ok (RsField value))
     | None \<Rightarrow> io_err (usage (''item '' @ dl_debug D reference @ '' in vault '' @ dl_debug D vault @
         '' has no field '' @ dl_debug D fld))))"

definition serve_raw_payload :: "('x, 's) daemon_lib \<Rightarrow> 'x draws \<Rightarrow> live_session \<Rightarrow> string \<Rightarrow> string \<Rightarrow> ('x, 's, response) act" where
  "serve_raw_payload D dr ses vault target =
     io_bind (open_vault_ref D dr ses vault) (\<lambda>env.
     io_bind (find_item D env target) (\<lambda>it.
     io_bind (io_lift (map_err (\<lambda>e. usage (''could not serialize payload: '' @ e))
       (to_value_item (dl_serde D) (it_payload it)))) (\<lambda>payload.
     io_ok (RsRawPayload (to_hyphenated (dl_ship D) (it_item_id it)) payload))))"

definition trash_to_wire :: "('x, 's) daemon_lib \<Rightarrow> 'x vault_env \<Rightarrow> trash_entry \<Rightarrow> wire_trash_entry list \<Rightarrow> ('x, 's, wire_trash_entry list) act" where
  "trash_to_wire D env e out =
     io_bind (ask_db D env (\<lambda>db. get_trashed_item env (dl_serde D) db (te_item_id e))) (\<lambda>it.
     io_ok (out @ [\<lparr>wt_id = to_hyphenated (dl_ship D) (te_item_id e), wt_title = p_title (it_payload it),
       wt_type_str = type_str (p_type_data (it_payload it)), wt_deleted_at = te_deleted_at e,
       wt_purge_after = te_purge_after e\<rparr>]))"

definition serve_list_trash :: "('x, 's) daemon_lib \<Rightarrow> 'x draws \<Rightarrow> live_session \<Rightarrow> string \<Rightarrow> ('x, 's, response) act" where
  "serve_list_trash D dr ses vault =
     io_bind (open_vault_ref D dr ses vault) (\<lambda>env.
     io_bind (ask_db D env list_trash) (\<lambda>entries.
     io_bind (io_fold (trash_to_wire D env) entries []) (\<lambda>out. io_ok (RsTrashEntries out))))"

definition serve_env_set :: "('x, 's) daemon_lib \<Rightarrow> 'x draws \<Rightarrow> live_session \<Rightarrow> string \<Rightarrow> string \<Rightarrow> ('x, 's, response) act" where
  "serve_env_set D dr ses vault reference =
     io_bind (open_vault_ref D dr ses vault) (\<lambda>env.
     io_bind (find_item D env reference) (\<lambda>it.
     case p_type_data (it_payload it) of
       EnvSet entries \<Rightarrow>
         io_bind (io_log D dr ses (ItemSecretRead (it_item_id it) (ve_vault_id env) None)) (\<lambda>_.
         io_ok (RsEnvEntries (map (\<lambda>e. (env_key e, env_value e)) entries)))
     | td \<Rightarrow> io_err (usage (''item '' @ dl_debug D reference @ '' is a '' @ type_str td @ '' item, not an env-set''))))"

definition serve_audit_list :: "('x, 's) daemon_lib \<Rightarrow> live_session \<Rightarrow> u32 option \<Rightarrow> int option \<Rightarrow> ('x, 's, response) act" where
  "serve_audit_list D ses limit since =
     io_bind (ask_profile D (\<lambda>pf. read_audit (ss_device_id ses) since (ac_audit (pf_account pf)))) (\<lambda>records.
     let cap = unat (min (case limit of None \<Rightarrow> MAX_AUDIT_LIMIT | Some l \<Rightarrow> l) MAX_AUDIT_LIMIT)
     in io_ok (RsAuditRecords (map (audit_to_wire (dl_ship D)) (take cap (rev records)))))"

section \<open>Arms that write\<close>

definition served :: "('x, 's, string option) act \<Rightarrow> ('x, 's, response) act" where
  "served m = io_bind m (\<lambda>message. io_ok (RsOk message))"

definition serve_create_vault :: "('x, 's) daemon_lib \<Rightarrow> 'x draws \<Rightarrow> live_session \<Rightarrow> string \<Rightarrow> ('x, 's, response) act" where
  "serve_create_vault D dr ses name = served (
     io_bind (on_profile_dir D
       (create_vault (dl_crypto D) ses (rd_vault_id dr) (rd_vault_key dr) (rd_index dr) (rd_now dr) name)) (\<lambda>v.
     io_ok (Some (to_hyphenated (dl_ship D) v))))"

definition serve_delete_vault :: "('x, 's) daemon_lib \<Rightarrow> 'x draws \<Rightarrow> live_session \<Rightarrow> string \<Rightarrow> ('x, 's, response) act" where
  "serve_delete_vault D dr ses vault = served (
     io_bind (resolve_vault_id D ses vault) (\<lambda>v.
     io_bind (on_profile_dir D (\<lambda>pf.
       case soft_delete_vault v (rd_now dr) (pf_account pf) of Inl e \<Rightarrow> (Inl e, pf)
       | Inr acc \<Rightarrow> (Inr (), pf\<lparr>pf_account := acc\<rparr>))) (\<lambda>_.
     io_ok None)))"

definition parse_payload :: "('x, 's) daemon_lib \<Rightarrow> json \<Rightarrow> response + item_payload" where
  "parse_payload D value =
     bind_ok (map_err (\<lambda>e. usage (''bad payload: '' @ e)) (json_to_vec (dl_serde D) value)) (\<lambda>bs.
     map_err (\<lambda>e. usage (''invalid item payload: '' @ show_vault (dl_show_io D) e)) (from_canonical (dl_serde D) bs))"

text \<open>A committed write of an item and the audit record after it.\<close>

definition write_item ::
  "('x, 's) daemon_lib \<Rightarrow> 'x draws \<Rightarrow> live_session \<Rightarrow> 'x vault_env \<Rightarrow> (id \<Rightarrow> id \<Rightarrow> audit_kind) \<Rightarrow> id \<Rightarrow>
     ('x vault_db \<Rightarrow> vault_error + ('a \<times> 'x vault_db)) \<Rightarrow> ('x, 's, 'a) act" where
  "write_item D dr ses env kind i f =
     io_bind (change_db D env f) (\<lambda>x.
     io_bind (io_log D dr ses (kind i (ve_vault_id env))) (\<lambda>_. io_ok x))"

definition serve_create_item :: "('x, 's) daemon_lib \<Rightarrow> 'x draws \<Rightarrow> live_session \<Rightarrow> string \<Rightarrow> json \<Rightarrow> ('x, 's, response) act" where
  "serve_create_item D dr ses vault value = served (
     io_bind (open_vault_ref D dr ses vault) (\<lambda>env.
     io_bind (io_lift (parse_payload D value)) (\<lambda>payload.
     io_bind (write_item D dr ses env ItemCreate (rd_item_id dr)
       (create_item (cl_blake3 (dl_crypto D)) (cl_ed_sign (dl_crypto D)) env (session.truncate ses) (dl_serde D) (rd_item_id dr) (rd_op_id dr)
          (rd_now dr) (rd_op_now dr) payload)) (\<lambda>i.
     io_ok (Some (to_hyphenated (dl_ship D) i))))))"

definition version_text :: "int \<Rightarrow> string" where
  "version_text version = ''version '' @ int_to_string version"

definition serve_update_item ::
  "('x, 's) daemon_lib \<Rightarrow> 'x draws \<Rightarrow> live_session \<Rightarrow> string \<Rightarrow> string \<Rightarrow> json \<Rightarrow> ('x, 's, response) act" where
  "serve_update_item D dr ses vault target value = served (
     io_bind (open_vault_ref D dr ses vault) (\<lambda>env.
     io_bind (find_item D env target) (\<lambda>it.
     io_bind (io_lift (parse_payload D value)) (\<lambda>payload.
     io_bind (write_item D dr ses env ItemUpdate (it_item_id it)
       (update_item (cl_blake3 (dl_crypto D)) (cl_ed_sign (dl_crypto D)) env (session.truncate ses) (dl_serde D) (it_item_id it) (rd_op_id dr)
          (rd_now dr) (rd_op_now dr) payload)) (\<lambda>version.
     io_ok (Some (version_text version)))))))"

definition TRASH_RETENTION_MS :: int where "TRASH_RETENTION_MS = 30 * 24 * 60 * 60 * 1000"

definition serve_delete_item :: "('x, 's) daemon_lib \<Rightarrow> 'x draws \<Rightarrow> live_session \<Rightarrow> string \<Rightarrow> string \<Rightarrow> ('x, 's, response) act" where
  "serve_delete_item D dr ses vault target = served (
     io_bind (open_vault_ref D dr ses vault) (\<lambda>env.
     io_bind (find_item D env target) (\<lambda>it.
     io_bind (write_item D dr ses env ItemDelete (it_item_id it) (\<lambda>db.
       bind_ok (delete_item (cl_blake3 (dl_crypto D)) (cl_ed_sign (dl_crypto D)) env (session.truncate ses) (dl_serde D) (it_item_id it)
         TRASH_RETENTION_MS (rd_op_id dr) (rd_now dr) (rd_op_now dr) db) (\<lambda>db. Inr ((), db)))) (\<lambda>_.
     io_ok (Some ''deleted'')))))"

definition serve_restore_version ::
  "('x, 's) daemon_lib \<Rightarrow> 'x draws \<Rightarrow> live_session \<Rightarrow> string \<Rightarrow> string \<Rightarrow> int \<Rightarrow> ('x, 's, response) act" where
  "serve_restore_version D dr ses vault target version = served (
     io_bind (open_vault_ref D dr ses vault) (\<lambda>env.
     io_bind (find_item D env target) (\<lambda>it.
     io_bind (write_item D dr ses env ItemRestore (it_item_id it)
       (restore_version (cl_blake3 (dl_crypto D)) (cl_ed_sign (dl_crypto D)) env (session.truncate ses) (dl_serde D) (it_item_id it) version
          (rd_op_id dr) (rd_now dr) (rd_op_now dr))) (\<lambda>new_version.
     io_ok (Some (version_text new_version))))))"

definition serve_untrash_item :: "('x, 's) daemon_lib \<Rightarrow> 'x draws \<Rightarrow> live_session \<Rightarrow> string \<Rightarrow> string \<Rightarrow> ('x, 's, response) act" where
  "serve_untrash_item D dr ses vault target = served (
     io_bind (open_vault_ref D dr ses vault) (\<lambda>env.
     io_bind (find_trashed_item D env target) (\<lambda>i.
     io_bind (write_item D dr ses env ItemRestore i
       (untrash_item (cl_blake3 (dl_crypto D)) (cl_ed_sign (dl_crypto D)) env (session.truncate ses) (dl_serde D) i (rd_op_id dr)
          (rd_now dr) (rd_op_now dr))) (\<lambda>new_version.
     io_ok (Some (version_text new_version))))))"

section \<open>Autofill\<close>

definition as_str :: "json \<Rightarrow> string option" where
  "as_str v = (case v of JString s \<Rightarrow> Some s | _ \<Rightarrow> None)"

definition nonblank :: "string \<Rightarrow> string list" where
  "nonblank s = (let t = trim s in if t = [] then [] else [t])"

definition url_field :: "custom_field \<Rightarrow> bool" where
  "url_field f \<longleftrightarrow> fld_kind f = UrlField \<or> eq_ignore_ascii_case (fld_name f) ''url''"

definition payload_urls :: "item_payload \<Rightarrow> string list" where
  "payload_urls p =
     (case p_type_data p of
        Login extra \<Rightarrow>
          concat (map (\<lambda>f. case as_str (fld_value f) of None \<Rightarrow> [] | Some s \<Rightarrow> nonblank s)
            (filter url_field (p_fields p))) @ concat (map nonblank extra)
      | _ \<Rightarrow> [])"

definition payload_text :: "string \<Rightarrow> item_payload \<Rightarrow> string" where
  "payload_text name p =
     (case Option.bind (find_exact_then_ci fld_name name (p_fields p)) (\<lambda>f. as_str (fld_value f)) of
        None \<Rightarrow> [] | Some s \<Rightarrow> s)"

definition login_username :: "item_payload \<Rightarrow> string" where
  "login_username p = payload_text ''username'' p"

definition login_password :: "item_payload \<Rightarrow> string" where
  "login_password p = payload_text ''password'' p"

definition payload_matches_origin :: "item_payload \<Rightarrow> string \<Rightarrow> bool" where
  "payload_matches_origin p origin \<longleftrightarrow> list_ex (\<lambda>u. url_matches_origin u origin) (payload_urls p)"

definition is_login :: "item_payload \<Rightarrow> bool" where
  "is_login p \<longleftrightarrow> (case p_type_data p of Login _ \<Rightarrow> True | _ \<Rightarrow> False)"

definition match_in_vault ::
  "('x, 's) daemon_lib \<Rightarrow> 'x draws \<Rightarrow> live_session \<Rightarrow> string \<Rightarrow> id \<times> string \<Rightarrow> login_candidate list \<Rightarrow>
     ('x, 's, login_candidate list) act" where
  "match_in_vault D dr ses origin vn candidates =
     io_bind (open_vault_id D dr ses (fst vn)) (\<lambda>env.
     io_bind (ask_db D env (iter_items env (dl_serde D))) (\<lambda>items.
     io_ok (candidates @ map (\<lambda>it.
         \<lparr>lc_item_id = to_hyphenated (dl_ship D) (it_item_id it), lc_title = p_title (it_payload it),
          lc_username = login_username (it_payload it), lc_vault = snd vn\<rparr>)
       (filter (\<lambda>it. payload_matches_origin (it_payload it) origin) items))))"

definition match_logins :: "('x, 's) daemon_lib \<Rightarrow> 'x draws \<Rightarrow> live_session \<Rightarrow> string \<Rightarrow> ('x, 's, response) act" where
  "match_logins D dr ses origin =
     (if registrable_domain origin = None then io_ok (RsLoginCandidates [])
      else
        io_bind (session_vaults D ses) (\<lambda>vaults.
        io_bind (io_fold (match_in_vault D dr ses origin) vaults []) (\<lambda>candidates.
        io_ok (RsLoginCandidates candidates))))"

text \<open>The item a fill names: in the first vault that has it by id, or holds an item of that title.\<close>

fun locate_for_fill ::
  "('x, 's) daemon_lib \<Rightarrow> 'x draws \<Rightarrow> live_session \<Rightarrow> string \<Rightarrow> (id \<times> string) list \<Rightarrow> ('x, 's, (item \<times> id) option) act" where
  "locate_for_fill D dr ses item_ref [] = io_ok None"
| "locate_for_fill D dr ses item_ref ((v, _) # vaults) =
     io_bind (open_vault_id D dr ses v) (\<lambda>env.
     io_bind (by_id D env (get_item env (dl_serde D)) item_ref) (\<lambda>found.
     case found of Some it \<Rightarrow> io_ok (Some (it, v))
     | None \<Rightarrow>
         io_bind (ask_db D env (iter_items env (dl_serde D))) (\<lambda>items.
         case List.find (\<lambda>it. p_title (it_payload it) = item_ref) items of
           Some it \<Rightarrow> io_bind (lookup_item D env (it_item_id it)) (\<lambda>it. io_ok (Some (it, v)))
         | None \<Rightarrow> locate_for_fill D dr ses item_ref vaults)))"

definition release_login ::
  "('x, 's) daemon_lib \<Rightarrow> 'x draws \<Rightarrow> live_session \<Rightarrow> string \<Rightarrow> item \<Rightarrow> id \<Rightarrow> ('x, 's, response) act" where
  "release_login D dr ses origin it v =
     (if \<not> is_login (it_payload it)
      then io_err (usage ''the requested item is not a login item; refusing to fill'')
      else if \<not> payload_matches_origin (it_payload it) origin
      then io_err (usage ''the item's URL does not match the requested origin; refusing to fill'')
      else
        io_bind (io_log D dr ses (ItemSecretRead (it_item_id it) v (Some ''password''))) (\<lambda>_.
        io_ok (RsFill (login_username (it_payload it)) (login_password (it_payload it)))))"

definition fill_login :: "('x, 's) daemon_lib \<Rightarrow> 'x draws \<Rightarrow> live_session \<Rightarrow> string \<Rightarrow> string \<Rightarrow> ('x, 's, response) act" where
  "fill_login D dr ses item_ref origin =
     (if registrable_domain origin = None
      then io_err (usage ''the requested origin has no registrable domain; refusing to fill'')
      else
        io_bind (session_vaults D ses) (\<lambda>vaults.
        io_bind (locate_for_fill D dr ses item_ref vaults) (\<lambda>found.
        case found of None \<Rightarrow> io_err (usage (''no login item matching '' @ dl_debug D item_ref))
        | Some (it, v) \<Rightarrow> release_login D dr ses origin it v)))"

text \<open>The lookup of an agent, which tells no match from several.\<close>

datatype located = LocatedOne item | LocatedNone | LocatedAmbiguous

fun collect_titled :: "('x, 's) daemon_lib \<Rightarrow> 'x vault_env \<Rightarrow> string \<Rightarrow> item list \<Rightarrow> item list \<Rightarrow> ('x, 's, item list) act" where
  "collect_titled D env item_ref [] matches = io_ok matches"
| "collect_titled D env item_ref (it # items) matches =
     (if p_title (it_payload it) = item_ref
      then io_bind (lookup_item D env (it_item_id it)) (\<lambda>m. collect_titled D env item_ref items (matches @ [m]))
      else collect_titled D env item_ref items matches)"

fun locate_in ::
  "('x, 's) daemon_lib \<Rightarrow> 'x draws \<Rightarrow> live_session \<Rightarrow> string \<Rightarrow> id list \<Rightarrow> item list \<Rightarrow> ('x, 's, located) act" where
  "locate_in D dr ses item_ref [] matches =
     io_ok (case matches of [] \<Rightarrow> LocatedNone | [it] \<Rightarrow> LocatedOne it | _ \<Rightarrow> LocatedAmbiguous)"
| "locate_in D dr ses item_ref (v # vaults) matches =
     io_bind (open_vault_id D dr ses v) (\<lambda>env.
     io_bind (by_id D env (get_item env (dl_serde D)) item_ref) (\<lambda>found.
     case found of Some it \<Rightarrow> io_ok (LocatedOne it)
     | None \<Rightarrow>
         io_bind (ask_db D env (iter_items env (dl_serde D))) (\<lambda>items.
         io_bind (collect_titled D env item_ref items matches) (\<lambda>matches.
         locate_in D dr ses item_ref vaults matches))))"

definition locate_item ::
  "('x, 's) daemon_lib \<Rightarrow> 'x draws \<Rightarrow> live_session \<Rightarrow> string \<Rightarrow> string option \<Rightarrow> ('x, 's, located) act" where
  "locate_item D dr ses item_ref vault_ref =
     io_bind (case vault_ref of
         Some name \<Rightarrow> io_bind (resolve_vault_id D ses name) (\<lambda>v. io_ok [v])
       | None \<Rightarrow> io_bind (session_vaults D ses) (\<lambda>vaults. io_ok (map fst vaults))) (\<lambda>vaults.
     locate_in D dr ses item_ref vaults [])"

definition resolve_login_item ::
  "('x, 's) daemon_lib \<Rightarrow> 'x draws \<Rightarrow> live_session \<Rightarrow> string \<Rightarrow> string option \<Rightarrow> ('x, 's, fill_refusal + item) act" where
  "resolve_login_item D dr ses item_ref vault_ref =
     io_bind (locate_item D dr ses item_ref vault_ref) (\<lambda>found.
     io_ok (case found of
         LocatedNone \<Rightarrow> Inl RfItemNotFound
       | LocatedAmbiguous \<Rightarrow> Inl RfAmbiguousItem
       | LocatedOne it \<Rightarrow> if is_login (it_payload it) then Inr it else Inl RfItemNotFound))"

section \<open>Attachments\<close>

text \<open>An operation on the open vault file and the local filesystem.\<close>

definition on_home ::
  "('x, 's) daemon_lib \<Rightarrow> 'x vault_env \<Rightarrow> ('x home \<Rightarrow> (vault_error + 'a) \<times> 'x home) \<Rightarrow> ('x, 's, 'a) act" where
  "on_home D env m w =
     (case wd_profile w of None \<Rightarrow> (Inl (vault_err D no_store), w)
      | Some pf \<Rightarrow>
          (case vault_at pf (ve_vault_id env) of Inl e \<Rightarrow> (Inl (vault_err D e), w)
           | Inr db \<Rightarrow>
               (case m \<lparr>hm_db = db, hm_files = wd_files w\<rparr> of (r, h) \<Rightarrow>
                  (map_err (vault_err D) r,
                   w\<lparr>wd_profile := Some (put_db (ve_vault_id env) (hm_db h) pf), wd_files := hm_files h\<rparr>))))"

definition base_name :: "string list \<Rightarrow> string option" where
  "base_name path = (if path = [] then None else Some (last path))"

definition read_source :: "('x, 's) daemon_lib \<Rightarrow> string list \<Rightarrow> ('x, 's, bytes) act" where
  "read_source D path w =
     (let too_large = usage (''the file is larger than the '' @ nat_to_string (MAX_ATTACHMENT_BYTES div (1024 * 1024)) @
            '' MiB attachment limit'')
      in case fs_read path (wd_files w) of
           Inr data \<Rightarrow> (if MAX_ATTACHMENT_BYTES < length data then Inl too_large else Inr data, w)
         | Inl e \<Rightarrow> (Inl (if e = NotFound then usage ''the source file does not exist''
                         else usage (''could not read the source file: '' @ dl_show_io D e)), w))"

definition serve_add_attachment ::
  "('x, 's) daemon_lib \<Rightarrow> 'x draws \<Rightarrow> live_session \<Rightarrow> string \<Rightarrow> string \<Rightarrow> string \<Rightarrow> string \<Rightarrow> ('x, 's, response) act" where
  "serve_add_attachment D dr ses vault_ref item_ref source_path given_name =
     io_bind (open_vault_ref D dr ses vault_ref) (\<lambda>env.
     io_bind (find_item D env item_ref) (\<lambda>it.
     io_bind (io_lift (if trim given_name \<noteq> [] then Inr given_name
       else ok_or (usage ''could not derive a filename from the source path'') (base_name (dl_path D source_path)))) (\<lambda>filename.
     io_bind (read_source D (dl_path D source_path)) (\<lambda>data.
     io_bind (on_home D env (add_attachment (dl_att D (ve_vault_id env)) (cl_ed_sign (dl_crypto D)) env (session.truncate ses) (rd_att dr)
       (it_item_id it) filename data)) (\<lambda>a.
     io_ok (RsAttachment (to_hyphenated (dl_ship D) a) filename))))))"

definition serve_list_attachments :: "('x, 's) daemon_lib \<Rightarrow> 'x draws \<Rightarrow> live_session \<Rightarrow> string \<Rightarrow> string \<Rightarrow> ('x, 's, response) act" where
  "serve_list_attachments D dr ses vault reference =
     io_bind (open_vault_ref D dr ses vault) (\<lambda>env.
     io_bind (find_item D env reference) (\<lambda>it.
     io_bind (ask_db D env (list_attachments env (it_item_id it))) (\<lambda>infos.
     io_ok (RsAttachments (map (\<lambda>a.
       \<lparr>wx_attachment_id = to_hyphenated (dl_ship D) (ai_attachment_id a), wx_filename = ai_filename a,
        wx_size = ai_size_plain a\<rparr>) infos)))))"

definition resolve_attachment :: "('x, 's) daemon_lib \<Rightarrow> 'x vault_env \<Rightarrow> id \<Rightarrow> string \<Rightarrow> ('x, 's, id) act" where
  "resolve_attachment D env i reference =
     io_bind (ask_db D env (list_attachments env i)) (\<lambda>attachments.
     case (case parse_hex_id reference of None \<Rightarrow> None
           | Some a \<Rightarrow> if list_ex (\<lambda>x. ai_attachment_id x = a) attachments then Some a else None) of
       Some a \<Rightarrow> io_ok a
     | None \<Rightarrow>
         (case map ai_attachment_id (filter (\<lambda>x. ai_filename x = reference) attachments) of
            [] \<Rightarrow> io_err (usage (''no attachment named or id '' @ dl_debug D reference @ '' on this item''))
          | [only] \<Rightarrow> io_ok only
          | matches \<Rightarrow> io_err (usage (''attachment name '' @ dl_debug D reference @ '' is ambiguous ('' @
              nat_to_string (length matches) @ '' match); use the attachment id''))))"

definition write_plaintext_0600 :: "string list \<Rightarrow> bytes \<Rightarrow> fs \<Rightarrow> (io_kind + unit) \<times> fs" where
  "write_plaintext_0600 path data f =
     (case (if butlast path = [] then Inr f else fs_create_dir_all (butlast path) f) of Inl e \<Rightarrow> (Inl e, f)
      | Inr f \<Rightarrow> (case fs_write path data f of Inl e \<Rightarrow> (Inl e, f) | Inr f \<Rightarrow> (Inr (), f)))"

definition serve_get_attachment ::
  "('x, 's) daemon_lib \<Rightarrow> 'x draws \<Rightarrow> live_session \<Rightarrow> string \<Rightarrow> string \<Rightarrow> string \<Rightarrow> string \<Rightarrow> bool \<Rightarrow> ('x, 's, response) act" where
  "serve_get_attachment D dr ses vault_ref item_ref attachment_ref dest_path force =
     io_bind (open_vault_ref D dr ses vault_ref) (\<lambda>env.
     io_bind (find_item D env item_ref) (\<lambda>it.
     io_bind (resolve_attachment D env (it_item_id it) attachment_ref) (\<lambda>a.
     let dest = dl_path D dest_path in
     io_bind (\<lambda>w. (if fs_node_at (wd_files w) dest \<noteq> None \<and> \<not> force
       then Inl (usage ''the destination file already exists; pass force to overwrite'') else Inr (), w)) (\<lambda>_.
     io_bind (on_home D env (\<lambda>h. (get_attachment (dl_att D (ve_vault_id env)) env a h, h))) (\<lambda>(filename, data).
     io_bind (\<lambda>w. case write_plaintext_0600 dest data (wd_files w) of (r, f) \<Rightarrow>
       (map_err (\<lambda>e. usage (''could not write the destination file: '' @ dl_show_io D e)) r, w\<lparr>wd_files := f\<rparr>)) (\<lambda>_.
     io_ok (RsAttachmentSaved filename (word_of_nat (length data)))))))))"

definition serve_delete_attachment ::
  "('x, 's) daemon_lib \<Rightarrow> 'x draws \<Rightarrow> live_session \<Rightarrow> string \<Rightarrow> string \<Rightarrow> string \<Rightarrow> ('x, 's, response) act" where
  "serve_delete_attachment D dr ses vault item_ref attachment_ref = served (
     io_bind (open_vault_ref D dr ses vault) (\<lambda>env.
     io_bind (find_item D env item_ref) (\<lambda>it.
     io_bind (resolve_attachment D env (it_item_id it) attachment_ref) (\<lambda>a.
     io_bind (on_home D env (delete_attachment (dl_att D (ve_vault_id env)) (cl_ed_sign (dl_crypto D)) env (session.truncate ses)
       (dw_op_id (rd_att dr)) (dw_op_now (rd_att dr)) a)) (\<lambda>_.
     io_ok (Some ''removed''))))))"

section \<open>Devices\<close>

definition export_identity :: "('x, 's) daemon_lib \<Rightarrow> live_session \<Rightarrow> ('x, 's, response) act" where
  "export_identity D ses =
     (let identity = device_public_identity ses in
      io_ok (RsDeviceIdentity (to_hyphenated (dl_ship D) (ss_device_id ses)) (to_export_string identity)
        (fingerprint (cl_blake3 (dl_crypto D)) identity)))"

definition identity_of_peer :: "trusted_peer \<Rightarrow> device_identity" where
  "identity_of_peer p =
     \<lparr>dd_device_id = pd_device_id p, dd_ed25519_pub = pd_ed25519_pub p, dd_x25519_pub = pd_x25519_pub p\<rparr>"

definition list_peers :: "('x, 's) daemon_lib \<Rightarrow> ('x, 's, response) act" where
  "list_peers D w =
     (case (case wd_profile w of None \<Rightarrow> Inl no_store | Some pf \<Rightarrow> peer_devices (pf_account pf)) of
        Inl e \<Rightarrow> (Inl (usage (''could not read trusted devices: '' @ show_vault (dl_show_io D) e)), w)
      | Inr peers \<Rightarrow>
          (Inr (RsPeers (map (\<lambda>p.
             \<lparr>wp_device_id = to_hyphenated (dl_ship D) (pd_device_id p),
              wp_fingerprint = fingerprint (cl_blake3 (dl_crypto D)) (identity_of_peer p),
              wp_label = pd_label p, wp_verified_at = pd_verified_at p\<rparr>) peers)), w))"

definition trust_device ::
  "('x, 's) daemon_lib \<Rightarrow> 'x draws \<Rightarrow> live_session \<Rightarrow> string \<Rightarrow> string \<Rightarrow> string option \<Rightarrow> ('x, 's, response) act" where
  "trust_device D dr ses identity_string expected_fingerprint label w =
     (case from_export_string identity_string of
        Inl _ \<Rightarrow> (Inl (usage ''invalid device identity string''), w)
      | Inr identity \<Rightarrow>
          let H = cl_blake3 (dl_crypto D) in
          if trim expected_fingerprint = [] then
            (Inl (usage (''fingerprint confirmation required '' @ em_dash @ '' do not trust a device without '' @
               ''comparing its fingerprint out-of-band'')), w)
          else if \<not> fingerprint_matches H identity expected_fingerprint then
            (Inl (usage (''fingerprint mismatch '' @ em_dash @ '' do not trust; the confirmed fingerprint does '' @
               ''not match the identity string'')), w)
          else
            (case wd_profile w of
               None \<Rightarrow> (Inl (usage (''could not trust the device: '' @ show_vault (dl_show_io D) no_store)), w)
             | Some pf \<Rightarrow>
                 (Inr (RsPeerTrusted (to_hyphenated (dl_ship D) (dd_device_id identity)) (fingerprint H identity) label),
                  w\<lparr>wd_profile := Some (pf\<lparr>pf_account :=
                    trust_peer_device (dl_crypto D) (rd_origin dr) (rd_now dr) ses (dd_device_id identity)
                      (dd_ed25519_pub identity) (dd_x25519_pub identity) label (pf_account pf)\<rparr>)\<rparr>)))"

end
