(* ===== verification/DaemonSync.thy ===== *)
theory DaemonSync
  imports DaemonVault
begin

text \<open>
  The sync requests of the daemon (\<open>lp-daemon/src/sync.rs\<close>): the engine's operations on an open vault, the
  announce written beside them, adoption of shared vaults and the list of announced devices that are not
  trusted yet.
\<close>

section \<open>The engine on the daemon's state\<close>

definition map_sync_error :: "('x, 's) daemon_lib \<Rightarrow> sync_error \<Rightarrow> response" where
  "map_sync_error D e = usage (''sync error: '' @ show_sync (dl_show_io D) e)"

definition engine_of :: "('x, 's) daemon_lib \<Rightarrow> id \<Rightarrow> engine_lib" where
  "engine_of D v = \<lparr>en_ship = dl_ship D, en_att = dl_att D v, en_crypto = dl_crypto D, en_serde = dl_serde D\<rparr>"

definition on_site :: "('x, 's) daemon_lib \<Rightarrow> 'x vault_env \<Rightarrow> (('x, 's) site, 'a) io \<Rightarrow> ('x, 's, 'a) act" where
  "on_site D env m w =
     (case wd_profile w of None \<Rightarrow> (Inl (map_sync_error D (Vault no_store)), w)
      | Some pf \<Rightarrow>
          (case vault_at pf (ve_vault_id env) of Inl e \<Rightarrow> (Inl (map_sync_error D (Vault e)), w)
           | Inr db \<Rightarrow>
               (case m \<lparr>si_profile = pf, si_home = \<lparr>hm_db = db, hm_files = wd_files w\<rparr>, si_channel = wd_channel w\<rparr> of
                  (r, s) \<Rightarrow>
                    (map_err (map_sync_error D) r,
                     w\<lparr>wd_profile := Some (put_db (ve_vault_id env) (hm_db (si_home s)) (si_profile s)),
                       wd_files := hm_files (si_home s), wd_channel := si_channel s\<rparr>))))"

text \<open>An operation of the engine that has no open vault: it never looks at \<open>si_home\<close>.\<close>

definition on_session_site :: "('x, 's) daemon_lib \<Rightarrow> 'x \<Rightarrow> (('x, 's) site, 'a) io \<Rightarrow> ('x, 's, 'a) act" where
  "on_session_site D ix m w =
     (case wd_profile w of None \<Rightarrow> (Inl (map_sync_error D (Vault no_store)), w)
      | Some pf \<Rightarrow>
          (case m \<lparr>si_profile = pf, si_home = \<lparr>hm_db = empty_vault ix, hm_files = wd_files w\<rparr>, si_channel = wd_channel w\<rparr> of
             (r, s) \<Rightarrow>
               (map_err (map_sync_error D) r, w\<lparr>wd_profile := Some (si_profile s), wd_channel := si_channel s\<rparr>)))"

section \<open>The requests\<close>

definition parse_device_id :: "string \<Rightarrow> response + id" where
  "parse_device_id s = ok_or (usage ''invalid device id (expected a hyphenated UUID)'') (parse_hex_id s)"

definition render_alarms :: "('x, 's) daemon_lib \<Rightarrow> quarantine list \<Rightarrow> string list" where
  "render_alarms D qs =
     map (\<lambda>q. ''device '' @ to_hyphenated (dl_ship D) (q_device_id q) @ '' quarantined at seq '' @ u64_to_string (q_seq q) @
       '' '' @ em_dash @ '' '' @ show_alarm (q_alarm q)) qs"

definition announce_time :: "int \<Rightarrow> u64" where
  "announce_time now = (if now < 0 then 0 else word_of_int now)"

definition write_self_announce ::
  "('x, 's) daemon_lib \<Rightarrow> 'x draws \<Rightarrow> live_session \<Rightarrow> string \<Rightarrow> ('x, 's, unit) act" where
  "write_self_announce D dr ses root w =
     (case dl_factory D root of Inl _ \<Rightarrow> (Inr (), w)
      | Inr store \<Rightarrow>
          (Inr (), w\<lparr>wd_channel := snd (write_announce (dl_ship D) (dl_announce D) store (device_public_identity ses) None
             (announce_time (rd_now dr)) (wd_channel w))\<rparr>))"

definition serve_sync_setup ::
  "('x, 's) daemon_lib \<Rightarrow> 'x draws \<Rightarrow> live_session \<Rightarrow> string \<Rightarrow> string \<Rightarrow> ('x, 's, response) act" where
  "serve_sync_setup D dr ses vault dir = served (
     io_bind (open_vault_ref D dr ses vault) (\<lambda>env.
     io_bind (on_site D env (sync_setup (dl_ship D) (dl_factory D) (ve_vault_id env) dir)) (\<lambda>_.
     io_bind (write_self_announce D dr ses dir) (\<lambda>_.
     io_ok (Some ''enrolled for sync'')))))"

definition reannounce :: "('x, 's) daemon_lib \<Rightarrow> 'x draws \<Rightarrow> live_session \<Rightarrow> id \<Rightarrow> ('x, 's, unit) act" where
  "reannounce D dr ses v w =
     (case Option.bind (wd_profile w) (\<lambda>pf. enrolled_root (dl_ship D) (pf_account pf) v) of
        None \<Rightarrow> (Inr (), w) | Some root \<Rightarrow> write_self_announce D dr ses root w)"

definition serve_sync_push :: "('x, 's) daemon_lib \<Rightarrow> 'x draws \<Rightarrow> live_session \<Rightarrow> string \<Rightarrow> ('x, 's, response) act" where
  "serve_sync_push D dr ses vault =
     io_bind (open_vault_ref D dr ses vault) (\<lambda>env.
     io_bind (on_site D env (push (engine_of D (ve_vault_id env)) (dl_factory D) (ve_vault_id env))) (\<lambda>report.
     io_bind (reannounce D dr ses (ve_vault_id env)) (\<lambda>_.
     io_ok (RsSyncPushed (length (pu_published report)) (pu_segments_written report)))))"

definition pull_vault ::
  "('x, 's) daemon_lib \<Rightarrow> 'x draws \<Rightarrow> live_session \<Rightarrow> 'x vault_env \<Rightarrow> ('x, 's, pull_report) act" where
  "pull_vault D dr ses env =
     on_site D env (pull (engine_of D (ve_vault_id env)) (dl_factory D) env ses (rd_tmp dr (ve_vault_id env)) (rd_index dr) (rd_now dr))"

definition serve_sync_pull :: "('x, 's) daemon_lib \<Rightarrow> 'x draws \<Rightarrow> live_session \<Rightarrow> string \<Rightarrow> ('x, 's, response) act" where
  "serve_sync_pull D dr ses vault =
     io_bind (open_vault_ref D dr ses vault) (\<lambda>env.
     io_bind (pull_vault D dr ses env) (\<lambda>report.
     io_ok (RsSyncPulled (pl_applied report) (pl_pending report) (pl_key_imported report)
       (render_alarms D (pl_quarantines report)))))"

definition serve_sync_status :: "('x, 's) daemon_lib \<Rightarrow> 'x draws \<Rightarrow> live_session \<Rightarrow> string \<Rightarrow> ('x, 's, response) act" where
  "serve_sync_status D dr ses vault =
     io_bind (open_vault_ref D dr ses vault) (\<lambda>env.
     io_bind (on_site D env (status (engine_of D (ve_vault_id env)) (dl_factory D) (ve_vault_id env) (ss_device_id ses))) (\<lambda>st.
     io_ok (RsSyncStatus (sy_enrolled st) (sy_root st)
       (map (\<lambda>d. \<lparr>wd_device_id = to_hyphenated (dl_ship D) (dv_device_id d), wd_is_self = dv_is_self d,
                  wd_trusted = dv_trusted d, wd_local_seq = dv_local_seq d, wd_channel_seq = dv_channel_seq d\<rparr>) (sy_devices st))
       (sy_pending st) (render_alarms D (sy_quarantines st)))))"

definition serve_share_vault ::
  "('x, 's) daemon_lib \<Rightarrow> 'x draws \<Rightarrow> live_session \<Rightarrow> string \<Rightarrow> string \<Rightarrow> ('x, 's, response) act" where
  "serve_share_vault D dr ses vault device = served (
     io_bind (open_vault_ref D dr ses vault) (\<lambda>env.
     io_bind (io_lift (parse_device_id device)) (\<lambda>peer.
     io_bind (on_site D env (share_vault_to_device (engine_of D (ve_vault_id env)) (dl_factory D) ses (rd_origin dr) (rd_now dr)
       (ve_vault_id env) peer)) (\<lambda>_.
     io_ok (Some ''vault shared to the device'')))))"

definition adopted_vault ::
  "('x, 's) daemon_lib \<Rightarrow> 'x draws \<Rightarrow> live_session \<Rightarrow> (id \<times> string) list \<Rightarrow> id \<Rightarrow>
     wire_adopted_vault list \<times> nat \<times> string list \<Rightarrow> ('x, 's, wire_adopted_vault list \<times> nat \<times> string list) act" where
  "adopted_vault D dr ses names v acc =
     (case acc of (wire, applied, alarms) \<Rightarrow>
       let name = (case List.find (\<lambda>(i, _). i = v) names of None \<Rightarrow> [] | Some (_, n) \<Rightarrow> n)
       in io_bind (\<lambda>w. (map_err (\<lambda>e. usage (''could not open an adopted vault: '' @ show_vault (dl_show_io D) e))
            (case wd_profile w of None \<Rightarrow> Inl no_store
             | Some pf \<Rightarrow>
                 bind_ok (open_vault_key (dl_crypto D) ses v (pf_account pf)) (\<lambda>key.
                 bind_ok (vault_at pf v) (\<lambda>_. Inr (vault_env_of D dr v key)))), w)) (\<lambda>env.
          io_bind (pull_vault D dr ses env) (\<lambda>report.
          io_ok (wire @ [\<lparr>wa_vault_id = to_hyphenated (dl_ship D) v, wa_name = name\<rparr>], applied + pl_applied report,
                 alarms @ render_alarms D (pl_quarantines report)))))"

definition serve_sync_adopt :: "('x, 's) daemon_lib \<Rightarrow> 'x draws \<Rightarrow> live_session \<Rightarrow> string \<Rightarrow> ('x, 's, response) act" where
  "serve_sync_adopt D dr ses dir =
     io_bind (on_session_site D (rd_index dr) (adopt_scan (engine_of D (rd_vault_id dr)) (dl_factory D) ses (rd_index dr) (rd_now dr) dir)) (\<lambda>report.
     io_bind (io_try (session_vaults D ses) (\<lambda>r. io_ok (case r of Inl _ \<Rightarrow> [] | Inr names \<Rightarrow> names))) (\<lambda>names.
     io_bind (io_fold (adopted_vault D dr ses names) (ad_adopted report)
       ([], 0, map (\<lambda>(v, reason). ''refused a vault-key share for '' @ to_hyphenated (dl_ship D) v @ '': '' @
          show_vault (dl_show_io D) reason) (ad_rejected report))) (\<lambda>(wire, applied, alarms).
     io_ok (RsSyncAdopted wire applied alarms (length (ad_untrusted_sender report)) (ad_vault_folders report)
       (ad_shares_for_other_devices report) (ad_looks_like_vault_folder report)))))"

section \<open>Pending devices\<close>

definition pending_device :: "('x, 's) daemon_lib \<Rightarrow> id list \<Rightarrow> announce \<Rightarrow> wire_pending_device option" where
  "pending_device D known a =
     (if an_device_id a \<in> set known then None
      else
        (case from_export_string (an_identity a) of Inl _ \<Rightarrow> None
         | Inr identity \<Rightarrow>
             Some \<lparr>wn_device_id = to_hyphenated (dl_ship D) (an_device_id a), wn_identity_string = an_identity a,
                   wn_fingerprint = fingerprint (cl_blake3 (dl_crypto D)) identity, wn_label = an_label a,
                   wn_announced_at = an_announced_at a\<rparr>))"

definition trusted_ids :: "('x, 's) daemon_lib \<Rightarrow> ('x, 's) world \<Rightarrow> response + id list" where
  "trusted_ids D w =
     (case (case wd_profile w of None \<Rightarrow> Inl no_store | Some pf \<Rightarrow> peer_devices (pf_account pf)) of
        Inl e \<Rightarrow> Inl (usage (''could not read trusted devices: '' @ show_vault (dl_show_io D) e))
      | Inr peers \<Rightarrow> Inr (map pd_device_id peers))"

definition list_pending_devices :: "('x, 's) daemon_lib \<Rightarrow> live_session \<Rightarrow> string \<Rightarrow> ('x, 's, response) act" where
  "list_pending_devices D ses dir w =
     (if trim dir = [] then (Inr (RsPendingDevices []), w)
      else
        (case dl_factory D dir of Inl _ \<Rightarrow> (Inr (RsPendingDevices []), w)
         | Inr store \<Rightarrow>
             (case list_announces (dl_announce D) store (wd_channel w) of (r, ch) \<Rightarrow>
                let w = w\<lparr>wd_channel := ch\<rparr> in
                (case r of Inl _ \<Rightarrow> (Inr (RsPendingDevices []), w)
                 | Inr announces \<Rightarrow>
                     (bind_ok (trusted_ids D w) (\<lambda>trusted. Inr (RsPendingDevices
                        (List.map_filter (pending_device D (ss_device_id ses # trusted)) announces))), w)))))"

end
