(* ===== verification/Nearby.thy ===== *)
theory Nearby
  imports DaemonState Messages
begin

unbundle bit_operations_syntax

text \<open>
  The address policy of the nearby transport and the state of its listen window
  (\<open>lp-daemon/src/nearby.rs\<close>). Parsing and printing of addresses by \<open>std::net\<close> and the
  binding of a socket are the record \<open>net_lib\<close>.
\<close>

section \<open>Addresses\<close>

datatype ip_addr = V4 byte byte byte byte | V6 "16 word list"

record net_lib =
  nl_parse_ip :: "string \<Rightarrow> ip_addr option"
  nl_parse_socket :: "string \<Rightarrow> (ip_addr \<times> 16 word) option"
  nl_show_ip :: "ip_addr \<Rightarrow> string"
  nl_show_socket :: "ip_addr \<times> 16 word \<Rightarrow> string"
  nl_bind :: "ip_addr \<times> 16 word \<Rightarrow> string + (16 word \<times> string list)"

definition DEFAULT_PORT :: "16 word" where "DEFAULT_PORT = 47823"
definition DEFAULT_LISTEN_SECS :: u64 where "DEFAULT_LISTEN_SECS = 180"
definition MAX_LISTEN_SECS :: u64 where "MAX_LISTEN_SECS = 600"
definition MAX_FAILED_HANDSHAKES :: u32 where "MAX_FAILED_HANDSHAKES = 8"

definition is_local_v4 :: "byte \<Rightarrow> byte \<Rightarrow> bool" where
  "is_local_v4 o0 o1 \<longleftrightarrow>
     o0 = 127 \<or>
     (o0 = 10 \<or> o0 = 172 \<and> 16 \<le> o1 \<and> o1 \<le> 31 \<or> o0 = 192 \<and> o1 = 168) \<or>
     o0 = 169 \<and> o1 = 254 \<or>
     o0 = 100 \<and> (o1 AND 0xc0) = 64"

text \<open>\<open>to_ipv4_mapped\<close>: the first two octets of a mapped address.\<close>

definition mapped_octets :: "16 word list \<Rightarrow> (byte \<times> byte) option" where
  "mapped_octets segs =
     (if length segs = 8 \<and> take 6 segs = [0, 0, 0, 0, 0, 0xffff]
      then Some (ucast (drop_bit 8 (segs ! 6)), ucast (segs ! 6)) else None)"

fun is_local_address :: "ip_addr \<Rightarrow> bool" where
  "is_local_address (V4 o0 o1 o2 o3) = is_local_v4 o0 o1"
| "is_local_address (V6 segs) =
     (case mapped_octets segs of
        Some (o0, o1) \<Rightarrow> is_local_v4 o0 o1
      | None \<Rightarrow> segs = [0, 0, 0, 0, 0, 0, 0, 1] \<or> (hd segs AND 0xfe00) = 0xfc00 \<or> (hd segs AND 0xffc0) = 0xfe80)"

fun is_unspecified :: "ip_addr \<Rightarrow> bool" where
  "is_unspecified (V4 o0 o1 o2 o3) \<longleftrightarrow> o0 = 0 \<and> o1 = 0 \<and> o2 = 0 \<and> o3 = 0"
| "is_unspecified (V6 segs) \<longleftrightarrow> segs = replicate 8 0"

definition trim_brackets :: "string \<Rightarrow> string" where
  "trim_brackets s =
     (let bracket = (\<lambda>c. c = CHR ''['' \<or> c = CHR '']'')
      in rev (dropWhile bracket (rev (dropWhile bracket s))))"

definition parse_peer_address :: "net_lib \<Rightarrow> (string \<Rightarrow> string) \<Rightarrow> string \<Rightarrow> string + (ip_addr \<times> 16 word)" where
  "parse_peer_address N debug s0 =
     (let s = trim s0 in
      case (case nl_parse_socket N s of Some sa \<Rightarrow> Some sa
            | None \<Rightarrow> map_option (\<lambda>ip. (ip, DEFAULT_PORT)) (nl_parse_ip N (trim_brackets s))) of
        None \<Rightarrow> Inl (debug s @ '' is not an IP address; give the address the other device shows, '' @
                  ''optionally with :PORT (host names are not looked up)'')
      | Some (ip, port) \<Rightarrow>
          if port = 0 then Inl ''the port must not be 0''
          else if \<not> is_local_address ip
          then Inl (nl_show_ip N ip @ '' is not a local-network address; nearby sync only connects within '' @
                 ''your LAN or Tailscale network'')
          else Inr (ip, port))"

section \<open>The listen window\<close>

definition nearby_status :: "nat \<Rightarrow> nat \<Rightarrow> nearby_state \<Rightarrow> response" where
  "nearby_status now1 now2 ny =
     (let opened = listening now1 ny; handle = (if opened then ny_listen ny else None) in
      RsNearbyStatus opened (case handle of None \<Rightarrow> [] | Some h \<Rightarrow> lh_addresses h) (map_option lh_port handle)
        (map_option (\<lambda>h. as_secs (lh_until h - now2)) handle) (ny_last ny))"

definition nearby_open :: "nat \<Rightarrow> 16 word \<times> string list \<Rightarrow> u64 \<Rightarrow> nearby_state \<Rightarrow> response \<times> nearby_state" where
  "nearby_open now bound window ny =
     (RsNearbyListening (snd bound) (fst bound) window,
      ny\<lparr>ny_listen := Some \<lparr>lh_stop = False, lh_running = True, lh_port = fst bound, lh_addresses = snd bound,
           lh_until = now + unat window * NANOS\<rparr>\<rparr>)"

text \<open>The job of the window ended, however it did; \<open>outcome\<close> is absent when it was dropped unserved.\<close>

definition listen_ended :: "wire_nearby_outcome option \<Rightarrow> nearby_state \<Rightarrow> nearby_state" where
  "listen_ended outcome ny =
     ny\<lparr>ny_listen := map_option (\<lambda>h. h\<lparr>lh_running := False\<rparr>) (ny_listen ny),
        ny_last := (case outcome of None \<Rightarrow> ny_last ny | Some x \<Rightarrow> Some x)\<rparr>"

section \<open>Serving the window\<close>

text \<open>
  One turn of the accept loop: the stop flag and the clock it reads, and what \<open>accept\<close> returns. A
  connection comes with the outcome its handshake and exchange would have.
\<close>

datatype attempt = HandshakeRefused sync_error | ExchangeFailed sync_error | ExchangeDone

datatype accepted = WouldBlock | Interrupted | AcceptFailed io_kind | Connected ip_addr attempt

record turn =
  tn_stop :: bool
  tn_now :: nat
  tn_accept :: accepted

datatype listen_end = Synced | Failed string | Expired | Stopped | TooManyFailures

fun end_code :: "listen_end \<Rightarrow> string" where
  "end_code Synced = ''synced''"
| "end_code (Failed _) = ''failed''"
| "end_code Expired = ''expired''"
| "end_code Stopped = ''stopped''"
| "end_code TooManyFailures = ''too_many_failures''"

fun io_message :: "(io_kind \<Rightarrow> string) \<Rightarrow> io_kind \<Rightarrow> string" where
  "io_message show e =
     (if e = OtherIo ''ConnectionRefused'' then ''Nothing is waiting at that address. Start '' @
        ''\"Wait for 3 minutes\" on the other device first, then connect.''
      else if e \<in> {OtherIo ''TimedOut'', OtherIo ''WouldBlock''} then ''Could not reach that address. '' @
        ''Check that both devices are on the same Wi-Fi or Tailscale network.''
      else if e \<in> {OtherIo ''ConnectionReset'', OtherIo ''ConnectionAborted'', OtherIo ''BrokenPipe''}
      then ''The other device closed the connection before the sync finished.''
      else ''Nearby sync failed: '' @ show e)"

fun user_message :: "(io_kind \<Rightarrow> string) \<Rightarrow> sync_error \<Rightarrow> string" where
  "user_message show (Refused r) =
     ''Not synced: the other device was refused '' @ em_dash @ '' '' @ show_refusal r @ ''.''"
| "user_message show (Io e) = io_message show e"
| "user_message show (Timeout _) = ''The other device stopped responding.''"
| "user_message show (Protocol m) = ''The connection broke: '' @ m @ ''.''"
| "user_message show other = ''Nearby sync failed: '' @ show_sync show other"

text \<open>
  \<open>serve\<close>: how the loop ends on the turns it is given, \<open>None\<close> when they run out first; the second
  component are the addresses whose handshake was begun.
\<close>

fun serve :: "(io_kind \<Rightarrow> string) \<Rightarrow> nat \<Rightarrow> u32 \<Rightarrow> turn list \<Rightarrow> listen_end option \<times> ip_addr list" where
  "serve show until failures [] = (None, [])"
| "serve show until failures (t # turns) =
     (if tn_stop t then (Some Stopped, [])
      else if until \<le> tn_now t then (Some Expired, [])
      else
        (case tn_accept t of
           WouldBlock \<Rightarrow> serve show until failures turns
         | Interrupted \<Rightarrow> serve show until failures turns
         | AcceptFailed e \<Rightarrow> (Some (Failed (''the listener failed: '' @ show e)), [])
         | Connected peer att \<Rightarrow>
             let counted = (if MAX_FAILED_HANDSHAKES \<le> failures + 1 then (Some TooManyFailures, [])
                            else serve show until (failures + 1) turns)
             in if \<not> is_local_address peer then counted
                else
                  (case att of
                     ExchangeDone \<Rightarrow> (Some Synced, [peer])
                   | ExchangeFailed e \<Rightarrow> (Some (Failed (user_message show e)), [peer])
                   | HandshakeRefused e \<Rightarrow> (fst counted, peer # snd counted))))"

section \<open>What the policy admits\<close>

text \<open>The blocks of the specification, as a base address and a prefix length.\<close>

definition ipv4_value :: "byte \<Rightarrow> byte \<Rightarrow> byte \<Rightarrow> byte \<Rightarrow> nat" where
  "ipv4_value o0 o1 o2 o3 = ((unat o0 * 256 + unat o1) * 256 + unat o2) * 256 + unat o3"

definition in_block :: "nat \<Rightarrow> (byte \<times> byte) \<times> nat \<Rightarrow> bool" where
  "in_block v blk = (case blk of ((b0, b1), len) \<Rightarrow> v div 2 ^ (32 - len) = ipv4_value b0 b1 0 0 div 2 ^ (32 - len))"

definition local_blocks :: "((byte \<times> byte) \<times> nat) list" where
  "local_blocks = [((127, 0), 8), ((10, 0), 8), ((172, 16), 12), ((192, 168), 16), ((169, 254), 16), ((100, 64), 10)]"

lemma two_bits: "(o1 AND 0xc0) = (64 :: byte) \<longleftrightarrow> unat o1 div 64 = 1"
proof -
  have "list_all (\<lambda>n. (word_of_nat n AND 0xc0) = (64 :: byte) \<longleftrightarrow> n div 64 = 1) [0..<256]" by code_simp
  then have "\<forall>n<256. (word_of_nat n AND 0xc0) = (64 :: byte) \<longleftrightarrow> n div 64 = 1" by (simp add: list_all_iff)
  moreover have "unat o1 < 256" using unsigned_less [of o1, where 'a = nat] by simp
  ultimately have "(word_of_nat (unat o1) AND 0xc0) = (64 :: byte) \<longleftrightarrow> unat o1 div 64 = 1" by blast
  then show ?thesis by simp
qed

lemma octets_div:
  fixes n0 n1 n2 n3 :: nat
  assumes "n1 < 256" "n2 < 256" "n3 < 256"
  shows "(((n0 * 256 + n1) * 256 + n2) * 256 + n3) div 2 ^ 24 = n0"
    and "(((n0 * 256 + n1) * 256 + n2) * 256 + n3) div 2 ^ 16 = n0 * 256 + n1"
    and "(((n0 * 256 + n1) * 256 + n2) * 256 + n3) div 2 ^ 20 = n0 * 16 + n1 div 16"
    and "(((n0 * 256 + n1) * 256 + n2) * 256 + n3) div 2 ^ 22 = n0 * 4 + n1 div 64"
  using assms by simp_all

lemma blocks_arith:
  assumes "n1 < 256"
  shows "n0 * 16 + n1 div 16 = 172 * 16 + 1 \<longleftrightarrow> n0 = 172 \<and> 16 \<le> n1 \<and> n1 \<le> (31 :: nat)"
    and "n0 * 256 + n1 = 192 * 256 + 168 \<longleftrightarrow> n0 = 192 \<and> n1 = 168"
    and "n0 * 256 + n1 = 169 * 256 + 254 \<longleftrightarrow> n0 = 169 \<and> n1 = 254"
    and "n0 * 4 + n1 div 64 = 100 * 4 + 1 \<longleftrightarrow> n0 = 100 \<and> n1 div 64 = 1"
proof -
  have "n1 div 16 < 16" and "n1 div 64 < 4" using assms by auto
  moreover have "n1 div 16 = 1 \<longleftrightarrow> 16 \<le> n1 \<and> n1 \<le> 31" by presburger
  moreover have "k < 16 \<Longrightarrow> n0 * 16 + k = 172 * 16 + 1 \<longleftrightarrow> n0 = 172 \<and> k = 1"
    and "k < 4 \<Longrightarrow> n0 * 4 + k = 100 * 4 + 1 \<longleftrightarrow> n0 = 100 \<and> k = 1" for k
    by presburger+
  ultimately show "n0 * 16 + n1 div 16 = 172 * 16 + 1 \<longleftrightarrow> n0 = 172 \<and> 16 \<le> n1 \<and> n1 \<le> 31"
    and "n0 * 4 + n1 div 64 = 100 * 4 + 1 \<longleftrightarrow> n0 = 100 \<and> n1 div 64 = 1"
    by metis+
  show "n0 * 256 + n1 = 192 * 256 + 168 \<longleftrightarrow> n0 = 192 \<and> n1 = 168"
    and "n0 * 256 + n1 = 169 * 256 + 254 \<longleftrightarrow> n0 = 169 \<and> n1 = 254"
    using assms by presburger+
qed

lemma byte_nat: "o1 = (c :: byte) \<longleftrightarrow> unat o1 = unat c"
  by (simp add: word_unat_eq_iff)

text \<open>
  The address test of the code is membership in the six blocks of the specification: loopback, the
  three private ranges, link-local and the carrier-grade range 100.64.0.0/10.
\<close>

theorem local_addresses_are_the_blocks:
  "is_local_address (V4 o0 o1 o2 o3) \<longleftrightarrow> list_ex (in_block (ipv4_value o0 o1 o2 o3)) local_blocks"
proof -
  have lt: "unat b < 256" for b :: byte using unsigned_less [of b, where 'a = nat] by simp
  note d = octets_div [OF lt lt lt]
  have "is_local_address (V4 o0 o1 o2 o3) \<longleftrightarrow>
      unat o0 = 127 \<or> unat o0 = 10 \<or> unat o0 = 172 \<and> 16 \<le> unat o1 \<and> unat o1 \<le> 31 \<or> unat o0 = 192 \<and> unat o1 = 168 \<or>
      unat o0 = 169 \<and> unat o1 = 254 \<or> unat o0 = 100 \<and> unat o1 div 64 = 1"
    unfolding is_local_address.simps is_local_v4_def two_bits by (simp add: byte_nat word_le_nat_alt)
  also have "\<dots> \<longleftrightarrow> unat o0 = 127 \<or> unat o0 = 10 \<or> unat o0 * 16 + unat o1 div 16 = 172 * 16 + 1 \<or>
      unat o0 * 256 + unat o1 = 192 * 256 + 168 \<or> unat o0 * 256 + unat o1 = 169 * 256 + 254 \<or>
      unat o0 * 4 + unat o1 div 64 = 100 * 4 + 1"
    using blocks_arith [OF lt [of o1], of "unat o0"] by (simp only:)
  also have "\<dots> \<longleftrightarrow> list_ex (in_block (ipv4_value o0 o1 o2 o3)) local_blocks"
  proof -
    have "ipv4_value o0 o1 o2 o3 div 2 ^ 24 = unat o0" "ipv4_value o0 o1 o2 o3 div 2 ^ 16 = unat o0 * 256 + unat o1"
      "ipv4_value o0 o1 o2 o3 div 2 ^ 20 = unat o0 * 16 + unat o1 div 16"
      "ipv4_value o0 o1 o2 o3 div 2 ^ 22 = unat o0 * 4 + unat o1 div 64"
      unfolding ipv4_value_def by (rule d)+
    moreover have "ipv4_value 127 0 0 0 div 2 ^ 24 = 127" "ipv4_value 10 0 0 0 div 2 ^ 24 = 10"
      "ipv4_value 172 16 0 0 div 2 ^ 20 = 172 * 16 + 1" "ipv4_value 192 168 0 0 div 2 ^ 16 = 192 * 256 + 168"
      "ipv4_value 169 254 0 0 div 2 ^ 16 = 169 * 256 + 254" "ipv4_value 100 64 0 0 div 2 ^ 22 = 100 * 4 + 1"
      by (simp_all add: ipv4_value_def)
    moreover have "(32 :: nat) - 8 = 24" "(32 :: nat) - 12 = 20" "(32 :: nat) - 16 = 16" "(32 :: nat) - 10 = 22" by simp_all
    ultimately show ?thesis by (simp only: local_blocks_def in_block_def list_ex_Nil_iff list_ex_Cons_iff prod.case simp_thms)
  qed
  finally show ?thesis .
qed

section \<open>What the loop admits\<close>

lemma serve_local: "\<forall>p\<in>set (snd (serve disp until failures turns)). is_local_address p"
  by (induction disp until failures turns rule: serve.induct) (auto simp: Let_def split: accepted.split attempt.split)

lemma serve_count:
  "failures < MAX_FAILED_HANDSHAKES \<Longrightarrow> unat failures + length (snd (serve disp until failures turns)) \<le> 8"
proof (induction disp until failures turns rule: serve.induct)
  case (2 disp until failures t turns)
  have f: "unat failures < 8" "unat (failures + 1) = unat failures + 1"
    using 2(4) by (simp_all add: MAX_FAILED_HANDSHAKES_def word_less_nat_alt unat_word_ariths)
  have max: "MAX_FAILED_HANDSHAKES \<le> failures + 1 \<longleftrightarrow> 8 \<le> unat failures + 1"
    by (simp add: MAX_FAILED_HANDSHAKES_def word_le_nat_alt f(2) del: unat_1)
  show ?case
    using 2 f max by (auto simp: Let_def not_le split: accepted.split attempt.split)
qed (simp add: MAX_FAILED_HANDSHAKES_def word_less_nat_alt)

lemma serve_ends: "(\<exists>t\<in>set turns. tn_stop t \<or> until \<le> tn_now t) \<Longrightarrow> fst (serve disp until failures turns) \<noteq> None"
  by (induction disp until failures turns rule: serve.induct) (auto simp: Let_def split: accepted.split attempt.split)

text \<open>
  Claim C34. While a listen window is served, a handshake is begun with local addresses only and at most eight
  times, and the loop is over once a turn reads the stop flag or the end of the window.
\<close>

theorem listen_window_is_bounded:
  "(\<forall>p\<in>set (snd (serve disp until 0 turns)). is_local_address p) \<and>
   length (snd (serve disp until 0 turns)) \<le> 8 \<and>
   ((\<exists>t\<in>set turns. tn_stop t \<or> until \<le> tn_now t) \<longrightarrow> fst (serve disp until 0 turns) \<noteq> None)"
  using serve_local serve_count [of 0 disp until turns] serve_ends [of turns until disp 0]
  by (simp add: MAX_FAILED_HANDSHAKES_def)

definition ex_turns :: "turn list" where
  "ex_turns =
     [\<lparr>tn_stop = False, tn_now = 1, tn_accept = Connected (V4 8 8 8 8) ExchangeDone\<rparr>,
      \<lparr>tn_stop = False, tn_now = 2, tn_accept = Connected (V4 192 168 1 5) (HandshakeRefused (Refused UntrustedPeer))\<rparr>,
      \<lparr>tn_stop = False, tn_now = 9, tn_accept = WouldBlock\<rparr>]"

lemma listen_window_is_bounded_witness:
  "serve (\<lambda>_. []) 9 0 ex_turns = (Some Expired, [V4 192 168 1 5]) \<and> fst (serve (\<lambda>_. []) 9 0 ex_turns) \<noteq> None"
proof
  show "serve (\<lambda>_. []) 9 0 ex_turns = (Some Expired, [V4 192 168 1 5])"
    by (simp add: ex_turns_def Let_def is_local_v4_def MAX_FAILED_HANDSHAKES_def word_le_nat_alt)
  have "\<exists>t\<in>set ex_turns. tn_stop t \<or> 9 \<le> tn_now t" by (simp add: ex_turns_def)
  then show "fst (serve (\<lambda>_. []) 9 0 ex_turns) \<noteq> None"
    using listen_window_is_bounded [of "\<lambda>_. []" 9 ex_turns] by blast
qed

end
