(* ===== verification/Daemon.thy ===== *)
theory Daemon
  imports DaemonSync Nearby
begin

text \<open>
  The daemon's request handler (\<open>lp-daemon/src/engine.rs\<close>): the gates before a request is served, every
  arm, and the audit and idle-timer accounting after it. A handler takes the guarded state and the device
  and returns both beside its answer. A clock gives the instants of the successive readings of one request;
  requests whose arms belong to other modules (TOTP codes, password health, QR bundles) are the parameter
  \<open>dl_elsewhere\<close>.
\<close>

section \<open>Handlers\<close>

record session_options =
  so_expected_peer :: "id option"
  so_share :: "id list"

datatype deferred = DeferListen session_options | DeferConnect "ip_addr \<times> 16 word" session_options

record handled =
  hd_response :: response
  hd_shutdown :: bool
  hd_began_agent_session :: bool
  hd_deferred :: "deferred option"

definition reply :: "response \<Rightarrow> handled" where
  "reply r = \<lparr>hd_response = r, hd_shutdown = False, hd_began_agent_session = False, hd_deferred = None\<rparr>"

type_synonym ('x, 's) handler = "state \<Rightarrow> ('x, 's) world \<Rightarrow> handled \<times> state \<times> ('x, 's) world"

text \<open>The successive readings of \<open>Instant::now()\<close>.\<close>

type_synonym clock = "nat \<Rightarrow> nat"

record ('x, 's) host =
  ho_lib :: "('x, 's) daemon_lib"
  ho_net :: net_lib
  ho_key_path :: "string \<Rightarrow> string"

definition either_response :: "response + response \<Rightarrow> response" where
  "either_response r = (case r of Inl e \<Rightarrow> e | Inr x \<Rightarrow> x)"

definition with_session :: "(live_session \<Rightarrow> ('x, 's, response) act) \<Rightarrow> ('x, 's) handler" where
  "with_session f st w =
     (case st_session st of None \<Rightarrow> (reply RsLocked, st, w)
      | Some ses \<Rightarrow> (case f ses w of (r, w) \<Rightarrow> (reply (either_response r), st, w)))"

section \<open>The gates\<close>

definition same_profile :: "('x, 's) daemon_lib \<Rightarrow> state \<Rightarrow> string \<Rightarrow> bool" where
  "same_profile D st profile \<longleftrightarrow>
     dl_path D profile = dl_path D (st_profile st) \<or>
     (case (dl_canonicalize D profile, dl_canonicalize D (st_profile st)) of
        (Some a, Some b) \<Rightarrow> a = b | _ \<Rightarrow> False)"

fun audits_denial :: "request \<Rightarrow> bool" where
  "audits_denial RqPing = False"
| "audits_denial RqShutdown = False"
| "audits_denial (RqStatus _ _) = False"
| "audits_denial RqLock = False"
| "audits_denial (RqUnlock _ _ _ _) = False"
| "audits_denial (RqTakeFillIntent _) = False"
| "audits_denial (RqPollFillOutcome _) = False"
| "audits_denial (RqNearbyStatus _) = False"
| "audits_denial _ = True"

fun deny_reason_for :: "response \<Rightarrow> deny_reason option" where
  "deny_reason_for RsLocked = Some DenyLocked"
| "deny_reason_for (RsWrongProfile _) = Some DenyWrongProfile"
| "deny_reason_for (RsError auth _) = (if auth then Some DenyNotAuthorized else None)"
| "deny_reason_for _ = None"

definition record_denied_reason ::
  "('x, 's) daemon_lib \<Rightarrow> 'x draws \<Rightarrow> deny_reason \<Rightarrow> ('x, 's) world \<Rightarrow> ('x, 's) world" where
  "record_denied_reason D dr reason w =
     w\<lparr>wd_profile := map_option (\<lambda>pf. pf\<lparr>pf_account :=
         best_effort (record_access_denied (dl_crypto D) (rd_origin dr) (rd_now dr) reason) (pf_account pf)\<rparr>) (wd_profile w)\<rparr>"

definition record_denied ::
  "('x, 's) daemon_lib \<Rightarrow> 'x draws \<Rightarrow> request \<Rightarrow> deny_reason \<Rightarrow> ('x, 's) world \<Rightarrow> ('x, 's) world" where
  "record_denied D dr req reason w = (if audits_denial req then record_denied_reason D dr reason w else w)"

fun counts_as_activity :: "request \<Rightarrow> bool" where
  "counts_as_activity (RqStatus _ keepalive) = keepalive"
| "counts_as_activity (RqTakeFillIntent _) = False"
| "counts_as_activity (RqPollFillOutcome _) = False"
| "counts_as_activity (RqNearbyStatus _) = False"
| "counts_as_activity (RqBeginAgentSession _) = False"
| "counts_as_activity _ = True"

fun response_counts_as_activity :: "response \<Rightarrow> bool" where
  "response_counts_as_activity RsLocked = False"
| "response_counts_as_activity (RsWrongProfile _) = False"
| "response_counts_as_activity (RsError auth _) = (\<not> auth)"
| "response_counts_as_activity _ = True"

text \<open>An audit record through the held session, and the sweep of a lapsed arm window.\<close>

definition audit_held :: "('x, 's) daemon_lib \<Rightarrow> 'x draws \<Rightarrow> live_session option \<Rightarrow> audit_kind \<Rightarrow> ('x, 's) world \<Rightarrow> ('x, 's) world" where
  "audit_held D dr ses kind w = (case ses of None \<Rightarrow> w | Some s \<Rightarrow> log_kind D dr s kind w)"

definition sweep_agent_fill ::
  "('x, 's) daemon_lib \<Rightarrow> 'x draws \<Rightarrow> nat \<Rightarrow> state \<Rightarrow> ('x, 's) world \<Rightarrow> state \<times> ('x, 's) world" where
  "sweep_agent_fill D dr now st w =
     (if \<not> agent_fill_lapsed now st then (st, w)
      else (clear_agent_fill st, audit_held D dr (st_session st) AgentFillModeDisabled w))"

section \<open>Unlocking\<close>

definition read_to_string :: "string list \<Rightarrow> fs \<Rightarrow> io_kind + string" where
  "read_to_string path f =
     bind_ok (fs_read path f) (\<lambda>bs. if utf8_valid bs then Inr (bytes_str bs) else Inl (OtherIo ''InvalidData''))"

definition load_secret_key ::
  "('x, 's) host \<Rightarrow> string \<Rightarrow> string option \<Rightarrow> ('x, 's) world \<Rightarrow> response + bytes" where
  "load_secret_key H profile supplied w =
     (let D = ho_lib H; path = ho_key_path H profile in
      case supplied of
        Some s \<Rightarrow> map_err (\<lambda>_. usage ''the supplied Secret Key is malformed'') (sk_decode (dl_base32 D) (trim s))
      | None \<Rightarrow>
          bind_ok (map_err (\<lambda>e. if e = NotFound
              then usage (''no Secret Key on this device at '' @ path @ '' '' @ em_dash @ '' it is required to unlock'')
              else usage (''reading Secret Key file: '' @ dl_show_io D e)) (read_to_string (dl_path D path) (wd_files w))) (\<lambda>raw.
          map_err (\<lambda>_. usage (''the stored Secret Key at '' @ path @ '' is malformed'')) (sk_decode (dl_base32 D) (trim raw))))"

definition hold_session :: "live_session \<Rightarrow> state \<Rightarrow> state" where
  "hold_session ses st = (lock st)\<lparr>st_session := Some ses\<rparr>"

definition handle_unlock ::
  "('x, 's) host \<Rightarrow> 'x draws \<Rightarrow> string \<Rightarrow> string option \<Rightarrow> u64 option \<Rightarrow> ('x, 's) handler" where
  "handle_unlock H dr password secret_key autolock_secs st w =
     (let D = ho_lib H in
      case load_secret_key H (st_profile st) secret_key w of
        Inl r \<Rightarrow> (reply r, st, w)
      | Inr sk \<Rightarrow>
          (case unlock_dir (dl_crypto D) True (rd_origin dr) (rd_now dr) password sk (wd_profile w) of (r, pf) \<Rightarrow>
             let w = w\<lparr>wd_profile := pf\<rparr> in
             (case r of
                Inr ses \<Rightarrow>
                  (reply (RsOk (Some ''unlocked'')),
                   case autolock_secs of None \<Rightarrow> hold_session ses st
                   | Some secs \<Rightarrow> (hold_session ses st)\<lparr>st_autolock := unat secs * NANOS\<rparr>, w)
              | Inl DecryptionFailed \<Rightarrow> (reply (RsError True ''wrong master password or Secret Key''), st, w)
              | Inl (NotFoundEntity _) \<Rightarrow>
                  (reply (usage (''no account at '' @ st_profile st @ '' '' @ em_dash @ '' run `localpass init` first'')), st, w)
              | Inl e \<Rightarrow> (reply (usage (''unlock failed: '' @ show_vault (dl_show_io D) e)), st, w))))"

definition handle_confirm_presence ::
  "('x, 's) host \<Rightarrow> 'x draws \<Rightarrow> nat \<Rightarrow> string \<Rightarrow> bool \<Rightarrow> ('x, 's) handler" where
  "handle_confirm_presence H dr now password agent_connection st w =
     (let D = ho_lib H in
      if agent_connection
      then (reply (usage (''an AI-agent session cannot confirm presence; a person confirms from the '' @
              ''LocalPass app or CLI'')), st, w)
      else if \<not> is_unlocked st then (reply RsLocked, st, w)
      else
        (case load_secret_key H (st_profile st) None w of
           Inl r \<Rightarrow> (reply r, st, w)
         | Inr sk \<Rightarrow>
             (case unlock_dir (dl_crypto D) False (rd_origin dr) (rd_now dr) password sk (wd_profile w) of (r, pf) \<Rightarrow>
                let w = w\<lparr>wd_profile := pf\<rparr> in
                (case r of
                   Inr _ \<Rightarrow>
                     (case issue_presence_grant now (rd_token dr) (st\<lparr>st_presence_failures := 0\<rparr>) of
                        ((token, secs), st) \<Rightarrow> (reply (RsPresenceGrant token secs), st, w))
                 | Inl DecryptionFailed \<Rightarrow>
                     (let st = st\<lparr>st_presence_failures := st_presence_failures st + 1\<rparr> in
                      if MAX_PRESENCE_FAILURES \<le> st_presence_failures st
                      then (reply (RsError True ''wrong master password, too many times: LocalPass locked the vault''), lock st, w)
                      else (reply (RsError True ''wrong master password''), st, w))
                 | Inl e \<Rightarrow> (reply (usage (''could not check the password: '' @ show_vault (dl_show_io D) e)), st, w)))))"

definition DEFAULT_VAULT :: string where "DEFAULT_VAULT = ''personal''"

definition write_secret_key_file :: "('x, 's) host \<Rightarrow> string \<Rightarrow> string \<Rightarrow> fs \<Rightarrow> (io_kind + unit) \<times> fs" where
  "write_secret_key_file H profile display f =
     (case fs_create_dir_all (dl_path (ho_lib H) profile) f of Inl e \<Rightarrow> (Inl e, f)
      | Inr f \<Rightarrow>
          (case fs_write (dl_path (ho_lib H) (ho_key_path H profile)) (str_bytes (display @ [CHR 0x0A])) f of
             Inl e \<Rightarrow> (Inl e, f) | Inr f \<Rightarrow> (Inr (), f)))"

definition handle_create_account :: "('x, 's) host \<Rightarrow> 'x draws \<Rightarrow> string \<Rightarrow> ('x, 's) handler" where
  "handle_create_account H dr password st w =
     (let D = ho_lib H; profile = st_profile st in
      if wd_profile w \<noteq> None
      then (reply (usage (''an account already exists at '' @ profile @ '' '' @ em_dash @ '' refusing to overwrite'')), st, w)
      else
        (case account_create (dl_crypto D) (rd_account dr) (rd_now dr) password (wd_profile w) of
           Inl (VaultInvalid _) \<Rightarrow> (reply (usage (''an account already exists at '' @ profile)), st, w)
         | Inl e \<Rightarrow> (reply (usage (''could not create the account: '' @ show_vault (dl_show_io D) e)), st, w)
         | Inr (ses, secret_key, pf) \<Rightarrow>
             let display = sk_encode (dl_base32 D) secret_key; w = w\<lparr>wd_profile := Some pf\<rparr> in
             (case write_secret_key_file H profile display (wd_files w) of (r, f) \<Rightarrow>
                let w = w\<lparr>wd_files := f\<rparr> in
                (case r of
                   Inl e \<Rightarrow>
                     (reply (usage (''account created, but writing the Secret Key file failed: '' @ dl_show_io D e)), st, w)
                 | Inr _ \<Rightarrow>
                     (case create_vault (dl_crypto D) ses (rd_vault_id dr) (rd_vault_key dr) (rd_index dr) (rd_now dr) DEFAULT_VAULT pf of
                        (r, pf) \<Rightarrow>
                          let w = w\<lparr>wd_profile := Some pf\<rparr> in
                          (case r of
                             Inl e \<Rightarrow>
                               (reply (usage (''account created, but creating the default vault failed: '' @
                                  show_vault (dl_show_io D) e)), st, w)
                           | Inr _ \<Rightarrow>
                               (reply (RsAccountCreated display profile
                                  (case list_vaults (dl_crypto D) ses (pf_account pf) of Inl _ \<Rightarrow> 1 | Inr vs \<Rightarrow> length vs)),
                                hold_session ses st, w)))))))"

section \<open>Pairing mode and agent fill\<close>

definition handle_set_pairing_mode :: "('x, 's) daemon_lib \<Rightarrow> 'x draws \<Rightarrow> nat \<Rightarrow> bool \<Rightarrow> ('x, 's) handler" where
  "handle_set_pairing_mode D dr now enabled st w =
     (case st_session st of None \<Rightarrow> (reply RsLocked, st, w)
      | Some ses \<Rightarrow>
          (reply (RsOk None), set_pairing_mode now enabled st,
           log_kind D dr ses (if enabled then PairingModeEnabled else PairingModeDisabled) w))"

definition refuse_fill ::
  "('x, 's) daemon_lib \<Rightarrow> 'x draws \<Rightarrow> live_session \<Rightarrow> fill_refusal \<Rightarrow> ('x, 's) handler" where
  "refuse_fill D dr ses reason st w =
     (reply (RsFillRefused reason), st,
      case refusal_deny_reason reason of None \<Rightarrow> w | Some deny \<Rightarrow> log_kind D dr ses (AccessDenied deny) w)"

text \<open>Resolving the items of an arm request: the first that cannot be resolved is the answer.\<close>

fun resolve_armed ::
  "('x, 's) daemon_lib \<Rightarrow> 'x draws \<Rightarrow> live_session \<Rightarrow> string option \<Rightarrow> string list \<Rightarrow> string list \<Rightarrow>
     ('x, 's, fill_refusal + string list) act" where
  "resolve_armed D dr ses vault_ref [] found = io_ok (Inr found)"
| "resolve_armed D dr ses vault_ref (reference # refs) found =
     io_bind (resolve_login_item D dr ses reference vault_ref) (\<lambda>r.
     case r of Inl reason \<Rightarrow> io_ok (Inl reason)
     | Inr it \<Rightarrow> resolve_armed D dr ses vault_ref refs (found @ [to_hyphenated (dl_ship D) (it_item_id it)]))"

definition handle_set_agent_fill_mode ::
  "('x, 's) daemon_lib \<Rightarrow> 'x draws \<Rightarrow> nat \<Rightarrow> bool \<Rightarrow> string list \<Rightarrow> string option \<Rightarrow> ('x, 's) handler" where
  "handle_set_agent_fill_mode D dr now on references vault_ref st w =
     (case st_session st of None \<Rightarrow> (reply RsLocked, st, w)
      | Some ses \<Rightarrow>
          if \<not> on then (reply (RsOk None), set_agent_fill_mode now False [] st, log_kind D dr ses AgentFillModeDisabled w)
          else if references = []
          then (reply (usage (''arming agent fill needs at least one item; it is scoped per item, '' @
                  ''never to the whole vault'')), st, w)
          else
            (case resolve_armed D dr ses vault_ref references [] w of
               (Inl r, w) \<Rightarrow> (reply r, st, w)
             | (Inr (Inl reason), w) \<Rightarrow> refuse_fill D dr ses reason st w
             | (Inr (Inr items), w) \<Rightarrow>
                 (reply (RsOk None), set_agent_fill_mode now True (bs_of_list items) st,
                  log_kind D dr ses AgentFillModeEnabled w)))"

text \<open>The clock is read at the window check, at the scope check and when the intent is armed.\<close>

definition handle_arm_fill_intent ::
  "('x, 's) daemon_lib \<Rightarrow> 'x draws \<Rightarrow> clock \<Rightarrow> string \<Rightarrow> u64 option \<Rightarrow> string \<Rightarrow> bool \<Rightarrow> string option \<Rightarrow> ('x, 's) handler" where
  "handle_arm_fill_intent D dr ck item_ref tab_id origin overwrite vault_ref st w =
     (case st_session st of None \<Rightarrow> (reply RsLocked, st, w)
      | Some ses \<Rightarrow>
          if \<not> agent_fill_active (ck 2) st then refuse_fill D dr ses RfAgentFillNotArmed st w
          else
            (case resolve_login_item D dr ses item_ref vault_ref w of
               (Inl r, w) \<Rightarrow> (reply r, st, w)
             | (Inr (Inl reason), w) \<Rightarrow> refuse_fill D dr ses reason st w
             | (Inr (Inr it), w) \<Rightarrow>
                 let item_id = to_hyphenated (dl_ship D) (it_item_id it) in
                 if \<not> agent_fill_covers (ck 3) item_id st then refuse_fill D dr ses RfItemNotArmed st w
                 else if registrable_domain origin = None \<or> \<not> payload_matches_origin (it_payload it) origin
                 then refuse_fill D dr ses RfOriginMismatch st w
                 else
                   (case arm_fill_intent (ck 4) item_id tab_id origin overwrite st of (secs, st) \<Rightarrow>
                      (reply (RsFillIntentArmed secs item_id), st, w))))"

definition handle_take_fill_intent :: "nat \<Rightarrow> ('x, 's) handler" where
  "handle_take_fill_intent now st w =
     (if \<not> is_unlocked st then (reply RsLocked, st, w)
      else
        (case take_fill_intent now st of
           (Some (item_id, tab_id, origin, secs, overwrite), st) \<Rightarrow> (reply (RsFillIntent item_id tab_id origin secs overwrite), st, w)
         | (None, st) \<Rightarrow> (reply RsNoFillIntent, st, w)))"

definition handle_report_fill_outcome ::
  "('x, 's) daemon_lib \<Rightarrow> 'x draws \<Rightarrow> string \<Rightarrow> fill_report \<Rightarrow> ('x, 's) handler" where
  "handle_report_fill_outcome D dr item_id outcome st w =
     (case st_session st of None \<Rightarrow> (reply RsLocked, st, w)
      | Some ses \<Rightarrow>
          let w = (case (if fr_filled outcome then None else Option.bind (fr_reason outcome) refusal_deny_reason) of
                None \<Rightarrow> w | Some deny \<Rightarrow> log_kind D dr ses (AccessDenied deny) w)
          in (case record_fill_report item_id outcome st of
                (True, st) \<Rightarrow> (reply (RsOk None), st, w)
              | (False, st) \<Rightarrow> (reply (usage ''no taken fill intent matches this outcome report; ignoring it''), st, w)))"

definition handle_poll_fill_outcome :: "nat \<Rightarrow> ('x, 's) handler" where
  "handle_poll_fill_outcome now st w =
     (if \<not> is_unlocked st then (reply RsLocked, st, w)
      else (case fill_outcome now st of (stage, item_id, tab_id, origin, report) \<Rightarrow>
              (reply (RsFillOutcome stage item_id tab_id origin report), st, w)))"

section \<open>Nearby sync\<close>

fun resolve_each :: "('x, 's) daemon_lib \<Rightarrow> live_session \<Rightarrow> string list \<Rightarrow> id list \<Rightarrow> ('x, 's, id list) act" where
  "resolve_each D ses [] found = io_ok found"
| "resolve_each D ses (r # refs) found =
     io_bind (resolve_vault_id D ses r) (\<lambda>v. resolve_each D ses refs (found @ [v]))"

definition nearby_options ::
  "('x, 's) daemon_lib \<Rightarrow> live_session \<Rightarrow> string option \<Rightarrow> string list \<Rightarrow> ('x, 's, session_options) act" where
  "nearby_options D ses peer share =
     io_bind (case peer of None \<Rightarrow> io_ok None
       | Some p \<Rightarrow>
           io_bind (io_lift (parse_device_id p)) (\<lambda>i.
           io_bind (ask_profile D (\<lambda>pf. peer_device (pf_account pf) i)) (\<lambda>found.
           if found = None
           then io_err (usage ''that device is not trusted on this device (trust it in Devices first)'')
           else io_ok (Some i)))) (\<lambda>expected.
     io_bind (resolve_each D ses share []) (\<lambda>vaults.
     if vaults \<noteq> [] \<and> expected = None
     then io_err (usage ''sharing a vault over the local network needs the device it is for (peer)'')
     else io_ok \<lparr>so_expected_peer = expected, so_share = vaults\<rparr>))"

definition clamp :: "u64 \<Rightarrow> u64 \<Rightarrow> u64 \<Rightarrow> u64" where
  "clamp lo hi x = (if x < lo then lo else if hi < x then hi else x)"

definition listen_ip :: "net_lib \<Rightarrow> string option \<Rightarrow> response + ip_addr" where
  "listen_ip N b =
     (case b of None \<Rightarrow> Inr (V4 0 0 0 0)
      | Some b \<Rightarrow> ok_or (usage ''the bind address must be an IP address'') (nl_parse_ip N (trim_brackets (trim b))))"

definition handle_nearby_listen ::
  "('x, 's) host \<Rightarrow> 'x draws \<Rightarrow> clock \<Rightarrow> string option \<Rightarrow> (16 word) option \<Rightarrow> u64 option \<Rightarrow> string option \<Rightarrow> string list \<Rightarrow>
     ('x, 's) handler" where
  "handle_nearby_listen H dr ck bind_addr port timeout_secs peer share st w =
     (let D = ho_lib H; N = ho_net H in
      case st_session st of None \<Rightarrow> (reply RsLocked, st, w)
      | Some ses \<Rightarrow>
          (case nearby_options D ses peer share w of
             (Inl r, w) \<Rightarrow> (reply r, st, w)
           | (Inr options, w) \<Rightarrow>
               if listening (ck 2) (st_nearby st) then (reply (usage ''already listening for a nearby device''), st, w)
               else
                 (case listen_ip N bind_addr of
                    Inl r \<Rightarrow> (reply r, st, w)
                  | Inr ip \<Rightarrow>
                      if \<not> is_unspecified ip \<and> \<not> is_local_address ip
                      then (reply (usage ''the bind address must be a local-network address (LAN or Tailscale)''), st, w)
                      else
                        let sa = (ip, case port of None \<Rightarrow> DEFAULT_PORT | Some p \<Rightarrow> p);
                            window = clamp 1 MAX_LISTEN_SECS (case timeout_secs of None \<Rightarrow> DEFAULT_LISTEN_SECS | Some t \<Rightarrow> t)
                        in (case nl_bind N sa of
                              Inl e \<Rightarrow> (reply (usage (''could not listen on '' @ nl_show_socket N sa @ '': '' @ e)), st, w)
                            | Inr bound \<Rightarrow>
                                if listening (ck 3) (st_nearby st)
                                then (reply (usage ''already listening for a nearby device''), st, w)
                                else
                                  (case nearby_open (ck 4) bound window (st_nearby st) of (r, ny) \<Rightarrow>
                                     ((reply r)\<lparr>hd_deferred := Some (DeferListen options)\<rparr>, st\<lparr>st_nearby := ny\<rparr>,
                                      log_kind D dr ses NearbyListenEnabled w))))))"

definition handle_nearby_connect :: "('x, 's) host \<Rightarrow> string \<Rightarrow> string option \<Rightarrow> string list \<Rightarrow> ('x, 's) handler" where
  "handle_nearby_connect H addr peer share st w =
     (let D = ho_lib H in
      case st_session st of None \<Rightarrow> (reply RsLocked, st, w)
      | Some ses \<Rightarrow>
          (case nearby_options D ses peer share w of
             (Inl r, w) \<Rightarrow> (reply r, st, w)
           | (Inr options, w) \<Rightarrow>
               (case parse_peer_address (ho_net H) (dl_debug D) addr of
                  Inl message \<Rightarrow> (reply (usage message), st, w)
                | Inr sa \<Rightarrow>
                    ((reply (usage ''nearby sync is not available in this host''))\<lparr>hd_deferred := Some (DeferConnect sa options)\<rparr>,
                     st, w))))"

section \<open>Dispatch\<close>

definition handle_status :: "('x, 's) daemon_lib \<Rightarrow> clock \<Rightarrow> ('x, 's) handler" where
  "handle_status D ck st w =
     (let vaults = Option.bind (st_session st) (\<lambda>ses. Option.bind (wd_profile w) (\<lambda>pf.
            case list_vaults (dl_crypto D) ses (pf_account pf) of Inl _ \<Rightarrow> None | Inr vs \<Rightarrow> Some (length vs)))
      in (reply (RsStatus (if is_unlocked st then LsUnlocked else LsLocked) (st_profile st) vaults
            (as_secs (st_autolock st)) (idle_remaining_secs (ck 2) st) (st_ssh_agent_endpoint st)
            (case st_session st of None \<Rightarrow> 0 | Some ses \<Rightarrow> dl_ssh_count D ses w)
            (pairing_mode_remaining_secs (ck 3) st) (agent_fill_remaining_secs (ck 4) st) (agent_session_active st)), st, w))"

definition handle_begin_agent_session :: "request_context \<Rightarrow> ('x, 's) handler" where
  "handle_begin_agent_session ctx st w =
     ((reply (RsOk (Some ''agent session'')))\<lparr>hd_began_agent_session := True\<rparr>,
      if rc_agent_connection ctx then st else st\<lparr>st_agent_sessions := st_agent_sessions st + 1\<rparr>, w)"

definition handle_trust_device ::
  "('x, 's) daemon_lib \<Rightarrow> 'x draws \<Rightarrow> nat \<Rightarrow> string \<Rightarrow> string \<Rightarrow> string option \<Rightarrow> ('x, 's) handler" where
  "handle_trust_device D dr now identity_string expected_fingerprint label st w =
     (if \<not> pairing_mode_active now st
      then (reply (usage ''Pairing mode is off. Turn it on in Devices & Sync to trust a new device.''), st, w)
      else with_session (\<lambda>ses. trust_device D dr ses identity_string expected_fingerprint label) st w)"

definition handle_nearby_status :: "clock \<Rightarrow> ('x, 's) handler" where
  "handle_nearby_status ck st w =
     (if is_unlocked st then (reply (nearby_status (ck 2) (ck 3) (st_nearby st)), st, w) else (reply RsLocked, st, w))"

definition handle_nearby_stop :: "('x, 's) handler" where
  "handle_nearby_stop st w =
     (reply (RsOk (Some ''stopped listening for a nearby device'')), st\<lparr>st_nearby := stop_listening (st_nearby st)\<rparr>, w)"

definition handle_lock :: "('x, 's) handler" where
  "handle_lock st w = (reply (RsOk (Some ''locked'')), lock st, w)"

text \<open>The arms of \<open>match request\<close>; \<open>Ping\<close> and \<open>Shutdown\<close> were answered before.\<close>

primrec handle_arm :: "('x, 's) host \<Rightarrow> 'x draws \<Rightarrow> clock \<Rightarrow> request_context \<Rightarrow> request \<Rightarrow> ('x, 's) handler" where
  "handle_arm H dr ck ctx RqPing = (\<lambda>st w. (reply RsPong, st, w))"
| "handle_arm H dr ck ctx (RqStatus p k) = handle_status (ho_lib H) ck"
| "handle_arm H dr ck ctx (RqUnlock p pw sk al) = handle_unlock H dr pw sk al"
| "handle_arm H dr ck ctx (RqCreateAccount p pw) = handle_create_account H dr pw"
| "handle_arm H dr ck ctx RqLock = handle_lock"
| "handle_arm H dr ck ctx (RqListVaults p) = with_session (serve_list_vaults (ho_lib H))"
| "handle_arm H dr ck ctx (RqCreateVault p n) = with_session (\<lambda>ses. serve_create_vault (ho_lib H) dr ses n)"
| "handle_arm H dr ck ctx (RqDeleteVault p v) = with_session (\<lambda>ses. serve_delete_vault (ho_lib H) dr ses v)"
| "handle_arm H dr ck ctx (RqListItems p v) = with_session (\<lambda>ses. serve_list_items (ho_lib H) dr ses v)"
| "handle_arm H dr ck ctx (RqPasswordHealth p v) = with_session (dl_elsewhere (ho_lib H) (RqPasswordHealth p v))"
| "handle_arm H dr ck ctx (RqGetItem p v t n rv) = with_session (\<lambda>ses. serve_get_item (ho_lib H) dr ses v t n rv)"
| "handle_arm H dr ck ctx (RqHistory p v t) = with_session (\<lambda>ses. serve_history (ho_lib H) dr ses v t)"
| "handle_arm H dr ck ctx (RqSearch p v q f) = with_session (\<lambda>ses. serve_search (ho_lib H) dr ses v q f)"
| "handle_arm H dr ck ctx (RqTotp p v t) = with_session (dl_elsewhere (ho_lib H) (RqTotp p v t))"
| "handle_arm H dr ck ctx (RqResolveField p v i f) = with_session (\<lambda>ses. serve_resolve_field (ho_lib H) dr ses v i f)"
| "handle_arm H dr ck ctx (RqGetRawPayload p v t) = with_session (\<lambda>ses. serve_raw_payload (ho_lib H) dr ses v t)"
| "handle_arm H dr ck ctx (RqCreateItem p v j) = with_session (\<lambda>ses. serve_create_item (ho_lib H) dr ses v j)"
| "handle_arm H dr ck ctx (RqUpdateItem p v t j) = with_session (\<lambda>ses. serve_update_item (ho_lib H) dr ses v t j)"
| "handle_arm H dr ck ctx (RqDeleteItem p v t) = with_session (\<lambda>ses. serve_delete_item (ho_lib H) dr ses v t)"
| "handle_arm H dr ck ctx (RqRestoreVersion p v t n) = with_session (\<lambda>ses. serve_restore_version (ho_lib H) dr ses v t n)"
| "handle_arm H dr ck ctx (RqListTrash p v) = with_session (\<lambda>ses. serve_list_trash (ho_lib H) dr ses v)"
| "handle_arm H dr ck ctx (RqUntrashItem p v t) = with_session (\<lambda>ses. serve_untrash_item (ho_lib H) dr ses v t)"
| "handle_arm H dr ck ctx (RqMatchLogins p g) = with_session (\<lambda>ses. match_logins (ho_lib H) dr ses g)"
| "handle_arm H dr ck ctx (RqFillLogin p i g) = with_session (\<lambda>ses. fill_login (ho_lib H) dr ses i g)"
| "handle_arm H dr ck ctx (RqExportIdentity p) = with_session (export_identity (ho_lib H))"
| "handle_arm H dr ck ctx (RqListPeers p) = with_session (\<lambda>_. list_peers (ho_lib H))"
| "handle_arm H dr ck ctx (RqTrustDevice p i e l) = handle_trust_device (ho_lib H) dr (ck 2) i e l"
| "handle_arm H dr ck ctx (RqSetPairingMode p b) = handle_set_pairing_mode (ho_lib H) dr (ck 2) b"
| "handle_arm H dr ck ctx (RqSetAgentFillMode p b rs v) = handle_set_agent_fill_mode (ho_lib H) dr (ck 2) b rs v"
| "handle_arm H dr ck ctx (RqArmFillIntent p i t g ow v) = handle_arm_fill_intent (ho_lib H) dr ck i t g ow v"
| "handle_arm H dr ck ctx (RqTakeFillIntent p) = handle_take_fill_intent (ck 2)"
| "handle_arm H dr ck ctx (RqReportFillOutcome p i r) = handle_report_fill_outcome (ho_lib H) dr i r"
| "handle_arm H dr ck ctx (RqPollFillOutcome p) = handle_poll_fill_outcome (ck 2)"
| "handle_arm H dr ck ctx (RqSyncSetup p v d) = with_session (\<lambda>ses. serve_sync_setup (ho_lib H) dr ses v d)"
| "handle_arm H dr ck ctx (RqSyncPush p v) = with_session (\<lambda>ses. serve_sync_push (ho_lib H) dr ses v)"
| "handle_arm H dr ck ctx (RqSyncPull p v) = with_session (\<lambda>ses. serve_sync_pull (ho_lib H) dr ses v)"
| "handle_arm H dr ck ctx (RqSyncStatus p v) = with_session (\<lambda>ses. serve_sync_status (ho_lib H) dr ses v)"
| "handle_arm H dr ck ctx (RqShareVaultToDevice p v d) = with_session (\<lambda>ses. serve_share_vault (ho_lib H) dr ses v d)"
| "handle_arm H dr ck ctx (RqSyncAdopt p d) = with_session (\<lambda>ses. serve_sync_adopt (ho_lib H) dr ses d)"
| "handle_arm H dr ck ctx (RqListPendingDevices p d) = with_session (\<lambda>ses. list_pending_devices (ho_lib H) ses d)"
| "handle_arm H dr ck ctx (RqNearbyListen p b pt t pe sh) = handle_nearby_listen H dr ck b pt t pe sh"
| "handle_arm H dr ck ctx (RqNearbyConnect p a pe sh) = handle_nearby_connect H a pe sh"
| "handle_arm H dr ck ctx (RqNearbyStatus p) = handle_nearby_status ck"
| "handle_arm H dr ck ctx (RqNearbyStop p) = handle_nearby_stop"
| "handle_arm H dr ck ctx (RqQrHaveCode p vs) = with_session (dl_elsewhere (ho_lib H) (RqQrHaveCode p vs))"
| "handle_arm H dr ck ctx (RqQrExport p o1 vs h pe sh at f) = with_session (dl_elsewhere (ho_lib H) (RqQrExport p o1 vs h pe sh at f))"
| "handle_arm H dr ck ctx (RqQrImport p a t) = with_session (dl_elsewhere (ho_lib H) (RqQrImport p a t))"
| "handle_arm H dr ck ctx (RqAddAttachment p v i s n) = with_session (\<lambda>ses. serve_add_attachment (ho_lib H) dr ses v i s n)"
| "handle_arm H dr ck ctx (RqListAttachments p v i) = with_session (\<lambda>ses. serve_list_attachments (ho_lib H) dr ses v i)"
| "handle_arm H dr ck ctx (RqGetAttachment p v i a d f) = with_session (\<lambda>ses. serve_get_attachment (ho_lib H) dr ses v i a d f)"
| "handle_arm H dr ck ctx (RqDeleteAttachment p v i a) = with_session (\<lambda>ses. serve_delete_attachment (ho_lib H) dr ses v i a)"
| "handle_arm H dr ck ctx (RqGetEnvSet p v i) = with_session (\<lambda>ses. serve_env_set (ho_lib H) dr ses v i)"
| "handle_arm H dr ck ctx (RqAuditList p l s) = with_session (\<lambda>ses. serve_audit_list (ho_lib H) ses l s)"
| "handle_arm H dr ck ctx (RqBeginAgentSession p) = handle_begin_agent_session ctx"
| "handle_arm H dr ck ctx (RqConfirmPresence p pw) = handle_confirm_presence H dr (ck 2) pw (rc_agent_connection ctx)"
| "handle_arm H dr ck ctx RqShutdown = (\<lambda>st w. (reply (RsOk (Some ''shutting down'')), st, w))"

text \<open>The accounting after an arm: a refusal is audited, and only an active request that was served is activity.\<close>

definition account_for ::
  "('x, 's) host \<Rightarrow> 'x draws \<Rightarrow> nat \<Rightarrow> request \<Rightarrow> handled \<times> state \<times> ('x, 's) world \<Rightarrow> handled \<times> state \<times> ('x, 's) world" where
  "account_for H dr now req res =
     (case res of (h, st, w) \<Rightarrow>
       (h, if counts_as_activity req \<and> response_counts_as_activity (hd_response h) then touch now st else st,
        case (if audits_denial req then deny_reason_for (hd_response h) else None) of
          None \<Rightarrow> w | Some reason \<Rightarrow> record_denied_reason (ho_lib H) dr reason w))"

definition presence_gate :: "clock \<Rightarrow> request_context \<Rightarrow> request \<Rightarrow> state \<Rightarrow> bool \<times> state" where
  "presence_gate ck ctx req st =
     (if needs_presence req \<and> agent_session_active st \<and> is_unlocked st
      then (if rc_agent_connection ctx then (True, st)
            else (case presence_granted (ck 1) (rc_presence_grant ctx) st of (granted, st) \<Rightarrow> (\<not> granted, st)))
      else (False, st))"

definition handle_gated ::
  "('x, 's) host \<Rightarrow> 'x draws \<Rightarrow> clock \<Rightarrow> request_context \<Rightarrow> request \<Rightarrow> ('x, 's) handler" where
  "handle_gated H dr ck ctx req st w =
     (case sweep_agent_fill (ho_lib H) dr (ck 0) st w of (st, w) \<Rightarrow>
      case presence_gate ck ctx req st of
        (True, st) \<Rightarrow> (reply (RsPresenceRequired (rq_kind req)), st, record_denied (ho_lib H) dr req DenyPresenceRequired w)
      | (False, st) \<Rightarrow> account_for H dr (ck 5) req (handle_arm H dr ck ctx req st w))"

definition handle_with ::
  "('x, 's) host \<Rightarrow> 'x draws \<Rightarrow> clock \<Rightarrow> request_context \<Rightarrow> request \<Rightarrow> ('x, 's) handler" where
  "handle_with H dr ck ctx req st w =
     (if rq_kind req = ''Ping'' then (reply RsPong, st, w)
      else if rq_kind req = ''Shutdown''
      then ((reply (RsOk (Some ''shutting down'')))\<lparr>hd_shutdown := True\<rparr>, lock st, w)
      else
        (case rq_profile req of
           Some profile \<Rightarrow>
             if \<not> same_profile (ho_lib H) st profile
             then (reply (RsWrongProfile (st_profile st)), st, record_denied (ho_lib H) dr req DenyWrongProfile w)
             else handle_gated H dr ck ctx req st w
         | None \<Rightarrow> handle_gated H dr ck ctx req st w))"

end
