(* ===== verification/DaemonInv.thy ===== *)
theory DaemonInv
  imports Daemon
begin

text \<open>
  The invariant of the daemon's guarded state over everything that changes it: requests, the idle reaper,
  connections that end, listen windows that end, and other processes writing the device.
\<close>

section \<open>The invariant\<close>

text \<open>A locked daemon holds nothing that an earlier unlock granted.\<close>

definition locked_holds_nothing :: "state \<Rightarrow> bool" where
  "locked_holds_nothing st \<longleftrightarrow>
     (st_session st = None \<longrightarrow>
        st_agent_fill st = None \<and> st_pending_fill st = None \<and> st_presence_grants st = [] \<and>
        st_presence_failures st = 0 \<and> ny_listen (st_nearby st) = None)"

text \<open>A pending intent lies in the scope of the armed window.\<close>

definition intent_scoped :: "state \<Rightarrow> bool" where
  "intent_scoped st \<longleftrightarrow>
     (\<forall>i. st_pending_fill st = Some i \<longrightarrow> (\<exists>aw. st_agent_fill st = Some aw \<and> pf_item_id i \<in> set (aw_items aw)))"

definition grants_bounded :: "state \<Rightarrow> bool" where
  "grants_bounded st \<longleftrightarrow>
     length (st_presence_grants st) \<le> MAX_PRESENCE_GRANTS \<and>
     (\<forall>g\<in>set (st_presence_grants st). length (gr_token g) = 32) \<and> st_presence_failures st < MAX_PRESENCE_FAILURES"

definition daemon_inv :: "state \<Rightarrow> bool" where
  "daemon_inv st \<longleftrightarrow> locked_holds_nothing st \<and> intent_scoped st \<and> grants_bounded st"

lemmas daemon_inv_defs = daemon_inv_def locked_holds_nothing_def intent_scoped_def grants_bounded_def

section \<open>The operations on the state\<close>

lemma inv_new: "daemon_inv (new_state profile autolock now)"
  by (simp add: daemon_inv_defs new_state_def MAX_PRESENCE_GRANTS_def MAX_PRESENCE_FAILURES_def)

lemma inv_lock [simp]: "daemon_inv (lock st)"
  by (simp add: daemon_inv_defs lock_def stop_listening_def MAX_PRESENCE_GRANTS_def MAX_PRESENCE_FAILURES_def)

lemma inv_hold [simp]: "daemon_inv (hold_session ses st)"
  by (simp add: daemon_inv_defs hold_session_def lock_def stop_listening_def MAX_PRESENCE_GRANTS_def MAX_PRESENCE_FAILURES_def)

lemma inv_frame:
  "daemon_inv st \<Longrightarrow> st_session st' = st_session st \<Longrightarrow> st_agent_fill st' = st_agent_fill st \<Longrightarrow>
     st_pending_fill st' = st_pending_fill st \<Longrightarrow> st_presence_grants st' = st_presence_grants st \<Longrightarrow>
     st_presence_failures st' = st_presence_failures st \<Longrightarrow> ny_listen (st_nearby st') = ny_listen (st_nearby st) \<Longrightarrow>
     daemon_inv st'"
  by (simp add: daemon_inv_defs)

lemma inv_touch [simp]: "daemon_inv st \<Longrightarrow> daemon_inv (touch now st)"
  by (erule inv_frame) (simp_all add: touch_def)

lemma inv_end_agent_session: "daemon_inv st \<Longrightarrow> daemon_inv (end_agent_session st)"
  by (erule inv_frame) (simp_all add: end_agent_session_def)

lemma inv_set_pairing: "daemon_inv st \<Longrightarrow> daemon_inv (set_pairing_mode now on st)"
  by (erule inv_frame) (simp_all add: set_pairing_mode_def)

lemma inv_stop [simp]: "daemon_inv st \<Longrightarrow> daemon_inv (st\<lparr>st_nearby := stop_listening (st_nearby st)\<rparr>)"
  by (simp add: daemon_inv_defs stop_listening_def)

lemma inv_clear_fill: "daemon_inv st \<Longrightarrow> daemon_inv (clear_agent_fill st)"
  by (simp add: daemon_inv_defs clear_agent_fill_def)

lemma inv_set_fill: "daemon_inv st \<Longrightarrow> st_session st \<noteq> None \<Longrightarrow> daemon_inv (set_agent_fill_mode now on items st)"
  by (auto simp: daemon_inv_defs set_agent_fill_mode_def)

lemma inv_take: "daemon_inv st \<Longrightarrow> daemon_inv (snd (take_fill_intent now st))"
  by (auto simp: daemon_inv_defs take_fill_intent_def split: option.splits)

lemma inv_report: "daemon_inv st \<Longrightarrow> daemon_inv (snd (record_fill_report i r st))"
  by (auto simp: daemon_inv_defs record_fill_report_def split: option.splits)

lemma inv_arm:
  "daemon_inv st \<Longrightarrow> st_session st \<noteq> None \<Longrightarrow> agent_fill_covers now1 item st \<Longrightarrow>
     daemon_inv (snd (arm_fill_intent now2 item tab origin overwrite st))"
  by (auto simp: daemon_inv_defs arm_fill_intent_def agent_fill_covers_def split: option.splits)

lemma tl_subset: "set (tl xs) \<subseteq> set xs"
  by (cases xs) auto

lemma inv_issue:
  "daemon_inv st \<Longrightarrow> st_session st \<noteq> None \<Longrightarrow> length token = 32 \<Longrightarrow> daemon_inv (snd (issue_presence_grant now token st))"
proof -
  assume inv: "daemon_inv st" and ses: "st_session st \<noteq> None" and token: "length token = 32"
  let ?live = "live_grants now st"
  have "length ?live \<le> MAX_PRESENCE_GRANTS"
    using inv length_filter_le [of _ "st_presence_grants st"] unfolding live_grants_def daemon_inv_defs by (meson order.trans)
  then have "length (if MAX_PRESENCE_GRANTS \<le> length ?live then tl ?live else ?live) < MAX_PRESENCE_GRANTS"
    by (auto simp: MAX_PRESENCE_GRANTS_def)
  moreover have "\<forall>g\<in>set (if MAX_PRESENCE_GRANTS \<le> length ?live then tl ?live else ?live). length (gr_token g) = 32"
    using inv tl_subset [of ?live] unfolding daemon_inv_defs by (auto simp: live_grants_def split: if_splits)
  ultimately show ?thesis
    using inv ses token unfolding daemon_inv_defs issue_presence_grant_def Let_def by simp
qed

lemma inv_granted: "daemon_inv st \<Longrightarrow> daemon_inv (snd (presence_granted now t st))"
  by (auto simp: daemon_inv_defs presence_granted_def Let_def live_grants_def intro: order.trans [OF length_filter_le])

lemma inv_failures:
  "daemon_inv st \<Longrightarrow> st_session st \<noteq> None \<Longrightarrow> n < MAX_PRESENCE_FAILURES \<Longrightarrow> daemon_inv (st\<lparr>st_presence_failures := n\<rparr>)"
  by (auto simp: daemon_inv_defs)

lemma inv_listen_ended: "daemon_inv st \<Longrightarrow> daemon_inv (st\<lparr>st_nearby := listen_ended outcome (st_nearby st)\<rparr>)"
  by (simp add: daemon_inv_defs listen_ended_def)

lemma inv_nearby: "daemon_inv st \<Longrightarrow> st_session st = Some ses \<Longrightarrow> daemon_inv (st\<lparr>st_nearby := ny\<rparr>)"
  by (auto simp: daemon_inv_defs)

section \<open>The arms\<close>

lemma with_session_state [simp]: "fst (snd (with_session f st w)) = st"
  by (auto simp: with_session_def split: option.splits prod.splits)

lemma refuse_fill_state [simp]: "fst (snd (refuse_fill D dr ses reason st w)) = st"
  by (simp add: refuse_fill_def)

lemma handle_unlock_inv: "daemon_inv st \<Longrightarrow> daemon_inv (fst (snd (handle_unlock H dr pw sk al st w)))"
proof -
  assume inv: "daemon_inv st"
  have held: "daemon_inv ((hold_session ses st)\<lparr>st_autolock := n\<rparr>)" for ses n
    by (rule inv_frame [OF inv_hold [of ses st]]) simp_all
  show ?thesis
    using inv held by (auto simp: handle_unlock_def Let_def split: sum.split prod.split vault_error.split option.split)
qed

lemma inv_confirm:
  assumes inv: "daemon_inv st" and token: "length (rd_token dr) = 32"
  shows "daemon_inv (fst (snd (handle_confirm_presence H dr now pw agent st w)))"
proof (cases "is_unlocked st")
  case True
  then have ses: "st_session st \<noteq> None" by (simp add: is_unlocked_def)
  have "0 < MAX_PRESENCE_FAILURES" by (simp add: MAX_PRESENCE_FAILURES_def)
  then have granted: "daemon_inv (snd (issue_presence_grant now (rd_token dr) (st\<lparr>st_presence_failures := 0\<rparr>)))"
    using inv_issue [OF inv_failures [OF inv ses]] ses token by simp
  show ?thesis
    using True inv granted inv_failures [OF inv ses]
    by (auto simp: handle_confirm_presence_def Let_def not_le split: sum.split prod.split vault_error.split)
next
  case False
  then show ?thesis using inv by (simp add: handle_confirm_presence_def Let_def)
qed

lemma inv_create: "daemon_inv st \<Longrightarrow> daemon_inv (fst (snd (handle_create_account H dr pw st w)))"
  by (auto simp: handle_create_account_def Let_def split: sum.split prod.split vault_error.split)

lemma inv_set_fill_arm:
  "daemon_inv st \<Longrightarrow> daemon_inv (fst (snd (handle_set_agent_fill_mode D dr now on refs v st w)))"
  by (auto simp: handle_set_agent_fill_mode_def inv_set_fill split: option.split sum.split prod.split)

lemma inv_arm_arm:
  assumes inv: "daemon_inv st"
  shows "daemon_inv (fst (snd (handle_arm_fill_intent D dr ck i t g ow v st w)))"
proof -
  have armed: "daemon_inv st1"
    if "agent_fill_covers (ck 3) item st" "arm_fill_intent (ck 4) item t g ow st = (secs, st1)" "st_session st = Some ses"
    for item secs st1 ses
    using inv_arm [OF inv, of "ck 3" item "ck 4" t g ow] that by simp
  show ?thesis
    using inv armed
    by (auto simp: handle_arm_fill_intent_def Let_def split: option.split sum.split prod.split)
qed

lemma inv_take_arm: "daemon_inv st \<Longrightarrow> daemon_inv (fst (snd (handle_take_fill_intent now st w)))"
  using inv_take [of st now] by (auto simp: handle_take_fill_intent_def split: option.split prod.split)

lemma inv_report_arm: "daemon_inv st \<Longrightarrow> daemon_inv (fst (snd (handle_report_fill_outcome D dr i r st w)))"
  using inv_report [of st i r] by (auto simp: handle_report_fill_outcome_def Let_def split: option.split prod.split bool.split)

lemma poll_state [simp]: "fst (snd (handle_poll_fill_outcome now st w)) = st"
  by (auto simp: handle_poll_fill_outcome_def split: prod.split)

lemma connect_state [simp]: "fst (snd (handle_nearby_connect H a pe sh st w)) = st"
  by (auto simp: handle_nearby_connect_def Let_def split: option.split sum.split prod.split)

lemma inv_listen_arm: "daemon_inv st \<Longrightarrow> daemon_inv (fst (snd (handle_nearby_listen H dr ck b p t pe sh st w)))"
  by (auto simp: handle_nearby_listen_def Let_def inv_nearby split: option.split sum.split prod.split)

lemma inv_pairing_arm: "daemon_inv st \<Longrightarrow> daemon_inv (fst (snd (handle_set_pairing_mode D dr now b st w)))"
  by (auto simp: handle_set_pairing_mode_def inv_set_pairing split: option.split)

lemma trust_state [simp]: "fst (snd (handle_trust_device D dr now i e l st w)) = st"
  by (simp add: handle_trust_device_def)

lemma status_state [simp]: "fst (snd (handle_status D ck st w)) = st"
  by (simp add: handle_status_def Let_def)

lemma nearby_status_state [simp]: "fst (snd (handle_nearby_status ck st w)) = st"
  by (simp add: handle_nearby_status_def)

lemma inv_stop_arm: "daemon_inv st \<Longrightarrow> daemon_inv (fst (snd (handle_nearby_stop st w)))"
  by (simp add: handle_nearby_stop_def)

lemma inv_lock_arm: "daemon_inv (fst (snd (handle_lock st w)))"
  by (simp add: handle_lock_def)

lemma inv_begin: "daemon_inv st \<Longrightarrow> daemon_inv (fst (snd (handle_begin_agent_session ctx st w)))"
  by (auto simp: handle_begin_agent_session_def intro: inv_frame)

lemma handle_arm_inv:
  assumes "daemon_inv st" and "length (rd_token dr) = 32"
  shows "daemon_inv (fst (snd (handle_arm H dr ck ctx req st w)))"
  using assms
  by (cases req)
    (simp_all add: handle_unlock_inv inv_confirm inv_create inv_set_fill_arm inv_arm_arm inv_take_arm inv_report_arm
       inv_listen_arm inv_pairing_arm inv_stop_arm inv_lock_arm inv_begin)

lemma account_for_inv: "daemon_inv (fst (snd res)) \<Longrightarrow> daemon_inv (fst (snd (account_for H dr now req res)))"
  by (auto simp: account_for_def split: prod.split)

lemma sweep_inv: "daemon_inv st \<Longrightarrow> daemon_inv (fst (sweep_agent_fill D dr now st w))"
  by (simp add: sweep_agent_fill_def inv_clear_fill)

lemma presence_gate_inv: "daemon_inv st \<Longrightarrow> daemon_inv (snd (presence_gate ck ctx req st))"
  using inv_granted [of st "ck 1" "rc_presence_grant ctx"] by (auto simp: presence_gate_def split: prod.split)

lemma handle_gated_inv:
  assumes "daemon_inv st" and "length (rd_token dr) = 32"
  shows "daemon_inv (fst (snd (handle_gated H dr ck ctx req st w)))"
proof -
  obtain st1 w1 where sweep: "sweep_agent_fill (ho_lib H) dr (ck 0) st w = (st1, w1)" by fastforce
  obtain b st2 where gate: "presence_gate ck ctx req st1 = (b, st2)" by fastforce
  have "daemon_inv st1" using sweep_inv [OF assms(1), of "ho_lib H" dr "ck 0" w] sweep by simp
  then have "daemon_inv st2" using presence_gate_inv [of st1 ck ctx req] gate by simp
  then show ?thesis
    using account_for_inv [OF handle_arm_inv [OF _ assms(2)]] sweep gate by (cases b) (simp_all add: handle_gated_def)
qed

lemma handle_with_inv:
  assumes "daemon_inv st" and "length (rd_token dr) = 32"
  shows "daemon_inv (fst (snd (handle_with H dr ck ctx req st w)))"
  using assms handle_gated_inv [OF assms, of H ck ctx req w] by (simp add: handle_with_def split: option.split)

section \<open>Every run of the daemon\<close>

inductive daemon_run :: "('x, 's) host \<Rightarrow> state \<Rightarrow> ('x, 's) world \<Rightarrow> bool" for H :: "('x, 's) host" where
  started: "daemon_run H (new_state profile autolock now) w"
| handled: "daemon_run H st w \<Longrightarrow> length (rd_token dr) = 32 \<Longrightarrow> handle_with H dr ck ctx req st w = (h, st', w') \<Longrightarrow>
     daemon_run H st' w'"
| reaped: "daemon_run H st w \<Longrightarrow> maybe_autolock now st = (locked, st') \<Longrightarrow> daemon_run H st' w"
| disconnected: "daemon_run H st w \<Longrightarrow> daemon_run H (end_agent_session st) w"
| listened: "daemon_run H st w \<Longrightarrow> daemon_run H (st\<lparr>st_nearby := listen_ended outcome (st_nearby st)\<rparr>) w"
| elsewhere: "daemon_run H st w \<Longrightarrow> daemon_run H st w'"

lemma daemon_run_inv: "daemon_run H st w \<Longrightarrow> daemon_inv st"
proof (induction rule: daemon_run.induct)
  case (handled st w dr ck ctx req h st' w')
  then show ?case using handle_with_inv [of st dr H ck ctx req w] by simp
next
  case (reaped st w now locked st')
  then show ?case by (auto simp: maybe_autolock_def split: if_splits)
qed (simp_all add: inv_new inv_end_agent_session inv_listen_ended)

end
