(* ===== verification/DaemonSpec.thy ===== *)
theory DaemonSpec
  imports DaemonInv
begin

text \<open>
  What the daemon promises its user: a locked daemon serves nothing, an agent cannot act without a person,
  refused traffic never keeps the vault open, a password leaves only for a matching page, a fill intent is
  redeemed once, and trust needs the whole ceremony.
\<close>

section \<open>Worlds that differ in the audit log only\<close>

definition forget_audit :: "'x profile \<Rightarrow> 'x profile" where
  "forget_audit pf = pf\<lparr>pf_account := (pf_account pf)\<lparr>ac_audit := []\<rparr>\<rparr>"

definition audit_only :: "('x, 's) world \<Rightarrow> ('x, 's) world \<Rightarrow> bool" where
  "audit_only w w' \<longleftrightarrow>
     map_option forget_audit (wd_profile w') = map_option forget_audit (wd_profile w) \<and>
     wd_files w' = wd_files w \<and> wd_channel w' = wd_channel w"

lemma audit_only_refl [simp]: "audit_only w w"
  by (simp add: audit_only_def)

lemma audit_only_trans: "audit_only w1 w2 \<Longrightarrow> audit_only w2 w3 \<Longrightarrow> audit_only w1 w3"
  by (simp add: audit_only_def)

lemma record_audit_only:
  "record_audit L ori now d kind detail acc = Inr acc' \<Longrightarrow> acc'\<lparr>ac_audit := []\<rparr> = acc\<lparr>ac_audit := []\<rparr>"
  by (auto simp: record_audit_def bind_ok_Inr_iff)

lemma best_effort_audit_only:
  assumes "\<And>acc acc'. f acc = Inr acc' \<Longrightarrow> acc'\<lparr>ac_audit := []\<rparr> = acc\<lparr>ac_audit := []\<rparr>"
  shows "audit_only w (w\<lparr>wd_profile := map_option (\<lambda>pf. pf\<lparr>pf_account := best_effort f (pf_account pf)\<rparr>) (wd_profile w)\<rparr>)"
proof -
  have "(best_effort f acc)\<lparr>ac_audit := []\<rparr> = acc\<lparr>ac_audit := []\<rparr>" for acc
    using assms by (simp add: best_effort_def split: sum.split)
  then show ?thesis by (cases "wd_profile w") (simp_all add: audit_only_def forget_audit_def)
qed

lemma log_kind_audit_only [simp]: "audit_only w (log_kind D dr ses kind w)"
  unfolding log_kind_def
  by (rule best_effort_audit_only) (simp add: session_audit_def record_audit_only)

lemma record_denied_reason_audit_only [simp]: "audit_only w (record_denied_reason D dr reason w)"
  unfolding record_denied_reason_def
  by (rule best_effort_audit_only) (auto simp: record_access_denied_def bind_ok_Inr_iff dest: record_audit_only)

lemma record_denied_audit_only [simp]: "audit_only w (record_denied D dr req reason w)"
  by (simp add: record_denied_def)

lemma sweep_audit_only: "sweep_agent_fill D dr now st w = (st', w') \<Longrightarrow> audit_only w w'"
  by (auto simp: sweep_agent_fill_def audit_held_def split: if_splits option.splits)

lemma account_for_audit_only:
  "account_for H dr now req (h, st, w) = (h', st', w') \<Longrightarrow> h' = h \<and> audit_only w w' \<and>
     (st' = st \<or> st' = touch now st \<and> counts_as_activity req \<and> response_counts_as_activity (hd_response h))"
  by (auto simp: account_for_def split: option.splits if_splits)

lemma audit_only_vaults:
  "audit_only w w' \<Longrightarrow> wd_profile w' = Some pf' \<Longrightarrow> \<exists>pf. wd_profile w = Some pf \<and> pf_vaults pf = pf_vaults pf'"
  by (cases "wd_profile w") (auto simp: audit_only_def forget_audit_def, metis profile.ext_inject profile.surjective profile.update_convs(1))

section \<open>The gates\<close>

lemma needs_presence_kind: "needs_presence req \<Longrightarrow> rq_kind req \<noteq> ''Ping'' \<and> rq_kind req \<noteq> ''Shutdown'' \<and> rq_profile req \<noteq> None"
  by (cases req) simp_all

lemma sweep_frame:
  "sweep_agent_fill D dr now st w = (st', w') \<Longrightarrow> st' = st \<or> st' = clear_agent_fill st \<and> agent_fill_lapsed now st"
  by (auto simp: sweep_agent_fill_def split: if_splits)

text \<open>What a request goes through: the gates, an arm on the swept state, and the accounting.\<close>

lemma handle_with_cases:
  assumes "handle_with H dr ck ctx req st w = (h, st', w')"
  obtains (ping) "rq_kind req = ''Ping''" "h = reply RsPong" "st' = st" "w' = w"
  | (shutdown) "rq_kind req = ''Shutdown''" "h = (reply (RsOk (Some ''shutting down'')))\<lparr>hd_shutdown := True\<rparr>"
      "st' = lock st" "w' = w"
  | (profile) "h = reply (RsWrongProfile (st_profile st))" "st' = st" "audit_only w w'"
  | (presence) st1 w1 where "sweep_agent_fill (ho_lib H) dr (ck 0) st w = (st1, w1)"
      "presence_gate ck ctx req st1 = (True, st')" "h = reply (RsPresenceRequired (rq_kind req))" "audit_only w w'"
  | (arm) st1 w1 st2 st3 w3 where "sweep_agent_fill (ho_lib H) dr (ck 0) st w = (st1, w1)"
      "presence_gate ck ctx req st1 = (False, st2)" "handle_arm H dr ck ctx req st2 w1 = (h, st3, w3)"
      "account_for H dr (ck 5) req (h, st3, w3) = (h, st', w')" "rq_kind req \<noteq> ''Ping''" "rq_kind req \<noteq> ''Shutdown''"
      "\<And>p. rq_profile req = Some p \<Longrightarrow> same_profile (ho_lib H) st p"
proof -
  have gated: thesis
    if g: "handle_gated H dr ck ctx req st w = (h, st', w')" and k: "rq_kind req \<noteq> ''Ping''" "rq_kind req \<noteq> ''Shutdown''"
      and p: "\<And>p. rq_profile req = Some p \<Longrightarrow> same_profile (ho_lib H) st p"
  proof -
    obtain st1 w1 where sweep: "sweep_agent_fill (ho_lib H) dr (ck 0) st w = (st1, w1)" by fastforce
    obtain b st2 where gate: "presence_gate ck ctx req st1 = (b, st2)" by fastforce
    show thesis
    proof (cases b)
      case True
      then have "h = reply (RsPresenceRequired (rq_kind req))" "st' = st2"
        "w' = record_denied (ho_lib H) dr req DenyPresenceRequired w1"
        using g sweep gate by (auto simp: handle_gated_def)
      then show thesis
        using presence [of st1 w1] sweep gate True audit_only_trans [OF sweep_audit_only [OF sweep]] by simp
    next
      case False
      obtain h3 st3 w3 where a: "handle_arm H dr ck ctx req st2 w1 = (h3, st3, w3)" by (metis prod_cases3)
      then have acc: "account_for H dr (ck 5) req (h3, st3, w3) = (h, st', w')"
        using g sweep gate False by (simp add: handle_gated_def)
      then have "h3 = h" using account_for_audit_only [OF acc] by simp
      then show thesis using arm [of st1 w1 st2 st3 w3] sweep gate False a acc k p by simp
    qed
  qed
  consider "rq_kind req = ''Ping''" | "rq_kind req = ''Shutdown''"
    | "rq_kind req \<noteq> ''Ping''" "rq_kind req \<noteq> ''Shutdown''" by blast
  then show thesis
  proof cases
    case 1
    have "h = reply RsPong" "st' = st" "w' = w" using assms 1 by (simp_all add: handle_with_def)
    with 1 show thesis by (rule ping)
  next
    case 2
    have "h = (reply (RsOk (Some ''shutting down'')))\<lparr>hd_shutdown := True\<rparr>" "st' = lock st" "w' = w"
      using assms 2 by (simp_all add: handle_with_def)
    with 2 show thesis by (rule shutdown)
  next
    case 3
    show thesis
    proof (cases "\<exists>p. rq_profile req = Some p \<and> \<not> same_profile (ho_lib H) st p")
      case True
      then obtain p where p: "rq_profile req = Some p" "\<not> same_profile (ho_lib H) st p" by blast
      have "h = reply (RsWrongProfile (st_profile st))" "st' = st" "w' = record_denied (ho_lib H) dr req DenyWrongProfile w"
        using assms 3 p by (auto simp: handle_with_def)
      then show thesis using profile by simp
    next
      case False
      then have "handle_gated H dr ck ctx req st w = (h, st', w')"
        using assms 3 by (cases "rq_profile req") (simp_all add: handle_with_def)
      moreover have "\<And>p. rq_profile req = Some p \<Longrightarrow> same_profile (ho_lib H) st p" using False by blast
      ultimately show thesis using gated 3 by blast
    qed
  qed
qed

lemma gate_state: "presence_gate ck ctx req st = (b, st') \<Longrightarrow> st' = st\<lparr>st_presence_grants := st_presence_grants st'\<rparr> \<and>
    set (st_presence_grants st') \<subseteq> set (st_presence_grants st)"
  by (auto simp: presence_gate_def presence_granted_def Let_def live_grants_def split: if_splits prod.splits)

section \<open>An agent cannot act without a person\<close>

text \<open>The parts of the state that only a served request changes.\<close>

definition same_standing :: "state \<Rightarrow> state \<Rightarrow> bool" where
  "same_standing st st' \<longleftrightarrow>
     st_profile st' = st_profile st \<and> st_session st' = st_session st \<and> st_autolock st' = st_autolock st \<and> st_last_activity st' = st_last_activity st \<and>
     st_pairing_mode_until st' = st_pairing_mode_until st \<and> st_agent_sessions st' = st_agent_sessions st \<and>
     st_presence_failures st' = st_presence_failures st \<and> st_nearby st' = st_nearby st \<and>
     (st_agent_fill st' = st_agent_fill st \<and> st_pending_fill st' = st_pending_fill st \<or>
      st_agent_fill st' = None \<and> st_pending_fill st' = None) \<and>
     set (st_presence_grants st') \<subseteq> set (st_presence_grants st)"

lemma same_standing_sweep_gate:
  assumes "sweep_agent_fill D dr now st w = (st1, w1)" and "presence_gate ck ctx req st1 = (b, st2)"
  shows "same_standing st st2"
proof -
  have "same_standing st st1" using sweep_frame [OF assms(1)] by (auto simp: same_standing_def clear_agent_fill_def)
  moreover obtain gs where "st2 = st1\<lparr>st_presence_grants := gs\<rparr>" "set gs \<subseteq> set (st_presence_grants st1)"
    using gate_state [OF assms(2)] by metis
  ultimately show ?thesis by (auto simp: same_standing_def)
qed

lemma swept_simps [simp]:
  "st_session (clear_agent_fill st) = st_session st" "st_agent_sessions (clear_agent_fill st) = st_agent_sessions st"
  "st_presence_grants (clear_agent_fill st) = st_presence_grants st"
  by (simp_all add: clear_agent_fill_def)

lemma gate_closes:
  assumes "needs_presence req" and "agent_session_active st" and "is_unlocked st"
    and "rc_agent_connection ctx \<or> \<not> fst (presence_granted (ck 1) (rc_presence_grant ctx) st)"
  shows "fst (presence_gate ck ctx req st)"
  using assms by (auto simp: presence_gate_def split: prod.split)

text \<open>
  Claim C4. While an AI agent holds a session on an unlocked daemon, a request that changes the vault or
  opens a consent window is refused unless a person confirmed: from the agent's own connection always, and
  from any other whose token is not that of a grant still live. Nothing but the audit log changes.
\<close>

theorem agent_needs_a_person:
  assumes "daemon_run H st w" and "needs_presence req" and "agent_session_active st" and "is_unlocked st"
    and "rc_agent_connection ctx \<or>
      (\<forall>t g. rc_presence_grant ctx = Some t \<longrightarrow> g \<in> set (st_presence_grants st) \<longrightarrow>
         hex_decode_32 t = Some (gr_token g) \<longrightarrow> gr_expires_at g \<le> ck 1)"
    and "handle_with H dr ck ctx req st w = (h, st', w')"
  shows "(h = reply (RsPresenceRequired (rq_kind req)) \<or> h = reply (RsWrongProfile (st_profile st))) \<and>
    same_standing st st' \<and> audit_only w w'"
proof -
  have kind: "rq_kind req \<noteq> ''Ping''" "rq_kind req \<noteq> ''Shutdown''"
    using needs_presence_kind [OF assms(2)] by simp_all
  have gate: "fst (presence_gate ck ctx req st1)" if sweep: "sweep_agent_fill (ho_lib H) dr (ck 0) st w = (st1, w1)" for st1 w1
  proof (rule gate_closes)
    have st1: "st_presence_grants st1 = st_presence_grants st" "st_session st1 = st_session st"
        "st_agent_sessions st1 = st_agent_sessions st"
      using sweep_frame [OF sweep] by auto
    then show "agent_session_active st1" "is_unlocked st1"
      using assms(3,4) by (simp_all add: agent_session_active_def is_unlocked_def)
    have "length (gr_token g) = 32" if "g \<in> set (st_presence_grants st1)" for g
      using daemon_run_inv [OF assms(1)] st1(1) that by (simp add: daemon_inv_def grants_bounded_def)
    then have "fst (presence_granted (ck 1) (rc_presence_grant ctx) st1) \<longleftrightarrow>
        (\<exists>t g. rc_presence_grant ctx = Some t \<and> g \<in> set (st_presence_grants st1) \<and> ck 1 < gr_expires_at g \<and>
           hex_decode_32 t = Some (gr_token g))"
      by (rule presence_granted_iff)
    then show "rc_agent_connection ctx \<or> \<not> fst (presence_granted (ck 1) (rc_presence_grant ctx) st1)"
      using assms(5) st1(1) by (auto simp: not_less)
  qed (rule assms(2))
  from assms(6) show ?thesis
  proof (cases rule: handle_with_cases)
    case profile
    then show ?thesis by (simp add: same_standing_def)
  next
    case (presence st1 w1)
    then show ?thesis using same_standing_sweep_gate [OF presence(1,2)] by simp
  next
    case (arm st1 w1 st2 st3 w3)
    then show ?thesis using gate [OF arm(1)] by simp
  qed (use kind in simp_all)
qed

section \<open>Where grants come from\<close>

lemma issue_grants: "set (st_presence_grants (snd (issue_presence_grant now token st))) \<subseteq>
    set (st_presence_grants st) \<union> {\<lparr>gr_token = token, gr_expires_at = now + st_presence_ttl st\<rparr>}"
  using tl_subset [of "live_grants now st"] by (auto simp: issue_presence_grant_def Let_def live_grants_def split: if_splits)

lemma hold_grants [simp]: "st_presence_grants (hold_session ses st) = []"
  by (simp add: hold_session_def lock_def)

lemma lock_grants [simp]: "st_presence_grants (lock st) = []"
  by (simp add: lock_def)

lemma unlock_grants: "set (st_presence_grants (fst (snd (handle_unlock H dr pw sk al st w)))) \<subseteq> set (st_presence_grants st)"
  by (auto simp: handle_unlock_def Let_def split: sum.split prod.split vault_error.split option.split)

lemma create_grants: "set (st_presence_grants (fst (snd (handle_create_account H dr pw st w)))) \<subseteq> set (st_presence_grants st)"
  by (auto simp: handle_create_account_def Let_def split: sum.split prod.split vault_error.split)

lemma fill_arms_grants:
  "st_presence_grants (fst (snd (handle_set_agent_fill_mode D dr now on refs v st w))) = st_presence_grants st"
  "st_presence_grants (fst (snd (handle_arm_fill_intent D dr ck i t g ow v st w))) = st_presence_grants st"
  "st_presence_grants (fst (snd (handle_take_fill_intent now st w))) = st_presence_grants st"
  "st_presence_grants (fst (snd (handle_report_fill_outcome D dr i r st w))) = st_presence_grants st"
  "st_presence_grants (fst (snd (handle_set_pairing_mode D dr now b st w))) = st_presence_grants st"
  by (auto simp: handle_set_agent_fill_mode_def set_agent_fill_mode_def handle_arm_fill_intent_def arm_fill_intent_def Let_def
      handle_take_fill_intent_def take_fill_intent_def handle_report_fill_outcome_def record_fill_report_def
      handle_set_pairing_mode_def set_pairing_mode_def split: option.split sum.split prod.split bool.split)

lemma nearby_arms_grants:
  "st_presence_grants (fst (snd (handle_nearby_listen H dr ck b p t pe sh st w))) = st_presence_grants st"
  "st_presence_grants (fst (snd (handle_nearby_stop st w))) = st_presence_grants st"
  "st_presence_grants (fst (snd (handle_begin_agent_session ctx st w))) = st_presence_grants st"
  "st_presence_grants (fst (snd (handle_lock st w))) = []"
  by (auto simp: handle_nearby_listen_def handle_nearby_stop_def handle_begin_agent_session_def handle_lock_def Let_def
      split: option.split sum.split prod.split)

lemma confirm_grants:
  assumes "g \<in> set (st_presence_grants (fst (snd (handle_confirm_presence H dr now pw agent st w))))"
    and "g \<notin> set (st_presence_grants st)"
  obtains sk ses pf where "\<not> agent" "is_unlocked st" "load_secret_key H (st_profile st) None w = Inr sk"
    "unlock_dir (dl_crypto (ho_lib H)) False (rd_origin dr) (rd_now dr) pw sk (wd_profile w) = (Inr ses, pf)"
    "gr_token g = rd_token dr"
proof -
  have issued: "gr_token g = rd_token dr"
    if "issue_presence_grant now (rd_token dr) (st\<lparr>st_presence_failures := 0\<rparr>) = (x, st1)" "g \<in> set (st_presence_grants st1)"
    for x st1
    using issue_grants [of now "rd_token dr" "st\<lparr>st_presence_failures := 0\<rparr>"] that assms(2) by auto
  show thesis
    using assms that issued
    by (auto simp: handle_confirm_presence_def Let_def split: if_splits sum.splits prod.splits vault_error.splits)
qed

lemma arm_grants:
  assumes "g \<in> set (st_presence_grants (fst (snd (handle_arm H dr ck ctx req st w))))" and "g \<notin> set (st_presence_grants st)"
  obtains p pw where "req = RqConfirmPresence p pw"
    "g \<in> set (st_presence_grants (fst (snd (handle_confirm_presence H dr (ck 2) pw (rc_agent_connection ctx) st w))))"
  using assms
  by (cases req) (auto simp: fill_arms_grants nearby_arms_grants dest: subsetD [OF unlock_grants] subsetD [OF create_grants])

text \<open>
  Claim C6. A presence grant that was not there before was minted by a request to confirm presence, on a
  connection that is not an agent's, of an unlocked daemon, whose password unlocked the account store with
  the Secret Key of the device. Its token is the random draw of that request.
\<close>

theorem grants_need_the_password:
  assumes "handle_with H dr ck ctx req st w = (h, st', w')"
    and "g \<in> set (st_presence_grants st')" and "g \<notin> set (st_presence_grants st)"
  shows "\<exists>p pw sk ses w1 pf. req = RqConfirmPresence p pw \<and> \<not> rc_agent_connection ctx \<and> is_unlocked st \<and>
     audit_only w w1 \<and> load_secret_key H (st_profile st) None w1 = Inr sk \<and>
     unlock_dir (dl_crypto (ho_lib H)) False (rd_origin dr) (rd_now dr) pw sk (wd_profile w1) = (Inr ses, pf) \<and>
     gr_token g = rd_token dr"
  using assms(1)
proof (cases rule: handle_with_cases)
  case (presence st1 w1)
  then show ?thesis using same_standing_sweep_gate [OF presence(1,2)] assms(2,3) by (auto simp: same_standing_def)
next
  case (arm st1 w1 st2 st3 w3)
  have stand: "same_standing st st2" by (rule same_standing_sweep_gate [OF arm(1,2)])
  have "st_presence_grants st' = st_presence_grants st3"
    using account_for_audit_only [OF arm(4)] by (auto simp: touch_def)
  then have "g \<in> set (st_presence_grants (fst (snd (handle_arm H dr ck ctx req st2 w1))))"
    using assms(2) arm(3) by simp
  moreover have "g \<notin> set (st_presence_grants st2)" using stand assms(3) by (auto simp: same_standing_def)
  ultimately obtain p pw where "req = RqConfirmPresence p pw" and
    "g \<in> set (st_presence_grants (fst (snd (handle_confirm_presence H dr (ck 2) pw (rc_agent_connection ctx) st2 w1))))"
    using arm_grants by blast
  moreover from confirm_grants [OF this(2) \<open>g \<notin> set (st_presence_grants st2)\<close>] obtain sk ses pf where
    "\<not> rc_agent_connection ctx" "is_unlocked st2" "load_secret_key H (st_profile st2) None w1 = Inr sk"
    "unlock_dir (dl_crypto (ho_lib H)) False (rd_origin dr) (rd_now dr) pw sk (wd_profile w1) = (Inr ses, pf)"
    "gr_token g = rd_token dr" by metis
  moreover have "st_profile st2 = st_profile st"
    using stand by (simp add: same_standing_def)
  moreover have "is_unlocked st2 = is_unlocked st" using stand by (simp add: same_standing_def is_unlocked_def)
  ultimately show ?thesis using sweep_audit_only [OF arm(1)] by auto
qed (use assms in auto)

section \<open>A locked daemon\<close>

lemma locked_arm:
  assumes "st_session st = None" and "handle_arm H dr ck ctx req st w = (h, st', w')"
    and "rq_kind req \<notin> {''Unlock'', ''CreateAccount''}"
  shows "st_session st' = None \<and> w' = w \<and> hd_deferred h = None \<and>
     rs_kind (hd_response h) \<in> {''Pong'', ''Ok'', ''Status'', ''Locked'', ''Error''}"
proof -
  have simps: "with_session f st w = (reply RsLocked, st, w)" "is_unlocked st = False" for f
    using assms(1) by (simp_all add: with_session_def is_unlocked_def)
  show ?thesis
    using assms
    by (cases req)
      (auto simp: simps reply_def handle_status_def Let_def handle_lock_def lock_def handle_set_pairing_mode_def
         handle_set_agent_fill_mode_def handle_arm_fill_intent_def handle_take_fill_intent_def
         handle_report_fill_outcome_def handle_poll_fill_outcome_def handle_trust_device_def usage_def
         handle_nearby_listen_def handle_nearby_connect_def handle_nearby_status_def handle_nearby_stop_def
         handle_begin_agent_session_def handle_confirm_presence_def split: if_splits)
qed

text \<open>
  Claim C7. A locked daemon serves nothing: whatever the request, short of unlocking or creating the
  account, no vault, file or channel changes, no network job starts, the daemon stays locked, and the answer
  is a refusal, a status or an acknowledgement.
\<close>

theorem locked_daemon_serves_nothing:
  assumes "st_session st = None" and "handle_with H dr ck ctx req st w = (h, st', w')"
    and "rq_kind req \<notin> {''Unlock'', ''CreateAccount''}"
  shows "st_session st' = None \<and> audit_only w w' \<and> hd_deferred h = None \<and>
     rs_kind (hd_response h) \<in> {''Pong'', ''Ok'', ''Status'', ''Locked'', ''WrongProfile'', ''Error''}"
  using assms(2)
proof (cases rule: handle_with_cases)
  case (presence st1 w1)
  have "\<not> is_unlocked st1" using sweep_frame [OF presence(1)] assms(1) by (auto simp: is_unlocked_def)
  then show ?thesis using presence(2) by (simp add: presence_gate_def)
next
  case (arm st1 w1 st2 st3 w3)
  have "st_session st2 = None"
    using same_standing_sweep_gate [OF arm(1,2)] assms(1) by (simp add: same_standing_def)
  from locked_arm [OF this arm(3) assms(3)] have *: "st_session st3 = None" "w3 = w1" "hd_deferred h = None"
    "rs_kind (hd_response h) \<in> {''Pong'', ''Ok'', ''Status'', ''Locked'', ''Error''}" by blast+
  have "audit_only w w'"
    using audit_only_trans [OF sweep_audit_only [OF arm(1)]] account_for_audit_only [OF arm(4)] *(2) by auto
  moreover have "st_session st' = None"
    using account_for_audit_only [OF arm(4)] *(1) by (auto simp: touch_def)
  ultimately show ?thesis using * by auto
qed (use assms in \<open>auto simp: reply_def lock_def\<close>)

section \<open>Traffic and the idle timer\<close>

fun serve_all ::
  "('x, 's) host \<Rightarrow> ('x draws \<times> clock \<times> request_context \<times> request) list \<Rightarrow> state \<Rightarrow> ('x, 's) world \<Rightarrow>
     (request \<times> response) list \<times> state \<times> ('x, 's) world" where
  "serve_all H [] st w = ([], st, w)"
| "serve_all H ((dr, ck, ctx, req) # rs) st w =
     (case handle_with H dr ck ctx req st w of (h, st1, w1) \<Rightarrow>
      case serve_all H rs st1 w1 of (log, st2, w2) \<Rightarrow> ((req, hd_response h) # log, st2, w2))"

lemma serve_all_Cons:
  assumes "serve_all H (r # rs) st w = (log, st', w')"
  obtains dr ck ctx req h st1 w1 log1 where "r = (dr, ck, ctx, req)" "handle_with H dr ck ctx req st w = (h, st1, w1)"
    "serve_all H rs st1 w1 = (log1, st', w')" "log = (req, hd_response h) # log1"
  using assms by (cases r) (auto split: prod.splits)

text \<open>
  Requests that only watch the daemon (a status poll without keep-alive, the polls of the fill
  handover and of the nearby listener, the registration of an agent, a ping), and answers that
  turn the caller away: locked, wrong profile, failed authentication. Both are listed here, apart
  from the classifiers the daemon itself uses.
\<close>

fun watches :: "request \<Rightarrow> bool" where
  "watches RqPing = True"
| "watches (RqStatus profile keepalive) = (\<not> keepalive)"
| "watches (RqTakeFillIntent profile) = True"
| "watches (RqPollFillOutcome profile) = True"
| "watches (RqNearbyStatus profile) = True"
| "watches (RqBeginAgentSession profile) = True"
| "watches _ = False"

fun turned_away :: "response \<Rightarrow> bool" where
  "turned_away RsLocked = True"
| "turned_away (RsWrongProfile expected) = True"
| "turned_away (RsError auth message) = auth"
| "turned_away _ = False"

definition quiet :: "request \<Rightarrow> response \<Rightarrow> bool" where
  "quiet req resp \<longleftrightarrow> watches req \<or> turned_away resp"

lemma quiet_classified:
  assumes "quiet req resp" and "rq_kind req \<noteq> ''Ping''"
  shows "\<not> counts_as_activity req \<or> \<not> response_counts_as_activity resp"
proof (cases "watches req")
  case True
  with assms(2) have "\<not> counts_as_activity req" by (cases req) simp_all
  then show ?thesis ..
next
  case False
  with assms(1) have "turned_away resp" by (simp add: quiet_def)
  then have "\<not> response_counts_as_activity resp" by (cases resp) simp_all
  then show ?thesis ..
qed

definition same_timer :: "state \<Rightarrow> state \<Rightarrow> bool" where
  "same_timer st st' \<longleftrightarrow> st_last_activity st' = st_last_activity st \<and> st_autolock st' = st_autolock st"

lemma timer_simps [simp]:
  "same_timer st (lock st)" "same_timer st (hold_session ses st)" "same_timer st (set_pairing_mode now b st)"
  "same_timer st (set_agent_fill_mode now b items st)" "same_timer st (st\<lparr>st_nearby := ny\<rparr>)"
  "same_timer st (st\<lparr>st_presence_failures := n\<rparr>)" "same_timer st (st\<lparr>st_agent_sessions := k\<rparr>)" "same_timer st st"
  by (simp_all add: same_timer_def lock_def hold_session_def set_pairing_mode_def set_agent_fill_mode_def)

lemma timer_effects:
  "same_timer st (snd (take_fill_intent now st))" "same_timer st (snd (record_fill_report i r st))"
  "same_timer st (snd (arm_fill_intent now i t g ow st))" "same_timer st (snd (issue_presence_grant now token st))"
  by (auto simp: same_timer_def take_fill_intent_def record_fill_report_def arm_fill_intent_def issue_presence_grant_def
      Let_def split: option.split)

lemma timer_unlock:
  assumes "handle_unlock H dr pw sk al st w = (h, st', w')"
  shows "same_timer st st' \<or> hd_response h = RsOk (Some ''unlocked'')"
  using assms by (auto simp: handle_unlock_def Let_def reply_def split: sum.splits prod.splits vault_error.splits option.splits)

lemma timer_confirm: "same_timer st (fst (snd (handle_confirm_presence H dr now pw agent st w)))"
  using timer_effects(4) [of "st\<lparr>st_presence_failures := 0\<rparr>" now "rd_token dr"]
  by (auto simp: handle_confirm_presence_def Let_def same_timer_def lock_def split: sum.split prod.split vault_error.split)

lemma timer_create: "same_timer st (fst (snd (handle_create_account H dr pw st w)))"
  by (auto simp: handle_create_account_def Let_def split: sum.split prod.split vault_error.split)

lemma timer_arms:
  "same_timer st (fst (snd (handle_set_agent_fill_mode D dr now on refs v st w)))"
  "same_timer st (fst (snd (handle_arm_fill_intent D dr ck i t g ow v st w)))"
  "same_timer st (fst (snd (handle_take_fill_intent now st w)))"
  "same_timer st (fst (snd (handle_report_fill_outcome D dr i r st w)))"
  "same_timer st (fst (snd (handle_set_pairing_mode D dr now b st w)))"
  "same_timer st (fst (snd (handle_nearby_listen H dr ck ba p tm pe sh st w)))"
  "same_timer st (fst (snd (handle_nearby_stop st w)))"
  "same_timer st (fst (snd (handle_begin_agent_session ctx st w)))"
  "same_timer st (fst (snd (handle_lock st w)))"
  by (auto simp: handle_set_agent_fill_mode_def handle_arm_fill_intent_def arm_fill_intent_def Let_def
      handle_take_fill_intent_def take_fill_intent_def handle_report_fill_outcome_def record_fill_report_def
      handle_set_pairing_mode_def handle_nearby_listen_def handle_nearby_stop_def handle_begin_agent_session_def
      handle_lock_def same_timer_def set_agent_fill_mode_def set_pairing_mode_def lock_def
      split: option.split sum.split prod.split bool.split)

lemma timer_arm:
  assumes "handle_arm H dr ck ctx req st w = (h, st', w')"
  shows "same_timer st st' \<or> rq_kind req = ''Unlock'' \<and> hd_response h = RsOk (Some ''unlocked'')"
proof -
  have st': "st' = fst (snd (handle_arm H dr ck ctx req st w))" using assms by simp
  show ?thesis
  proof (cases "rq_kind req = ''Unlock''")
    case True
    then show ?thesis using assms by (cases req) (auto dest: timer_unlock)
  next
    case False
    then show ?thesis unfolding st' by (cases req) (simp_all add: timer_arms timer_create timer_confirm)
  qed
qed

lemma unlock_counts: "rq_kind req = ''Unlock'' \<Longrightarrow> counts_as_activity req"
  by (cases req) simp_all

lemma quiet_timer:
  assumes "handle_with H dr ck ctx req st w = (h, st', w')" and "quiet req (hd_response h)"
  shows "same_timer st st'"
  using assms(1)
proof (cases rule: handle_with_cases)
  case (presence st1 w1)
  then show ?thesis using same_standing_sweep_gate [OF presence(1,2)] by (simp add: same_standing_def same_timer_def)
next
  case (arm st1 w1 st2 st3 w3)
  have calm: "\<not> counts_as_activity req \<or> \<not> response_counts_as_activity (hd_response h)"
    by (rule quiet_classified [OF assms(2) arm(5)])
  then have "st' = st3" using account_for_audit_only [OF arm(4)] by auto
  moreover have "same_timer st st2"
    using same_standing_sweep_gate [OF arm(1,2)] by (simp add: same_standing_def same_timer_def)
  moreover have "same_timer st2 st3"
    using timer_arm [OF arm(3)] calm unlock_counts [of req] by auto
  ultimately show ?thesis by (simp add: same_timer_def)
qed simp_all

lemma quiet_traffic_timer:
  "serve_all H rs st w = (log, st', w') \<Longrightarrow> \<forall>(req, resp)\<in>set log. quiet req resp \<Longrightarrow> same_timer st st'"
proof (induction rs arbitrary: st w log)
  case (Cons r rs)
  from serve_all_Cons [OF Cons.prems(1)] obtain dr ck ctx req h st1 w1 log1
    where r: "r = (dr, ck, ctx, req)" "handle_with H dr ck ctx req st w = (h, st1, w1)"
      "serve_all H rs st1 w1 = (log1, st', w')" "log = (req, hd_response h) # log1" by metis
  have "same_timer st st1" using quiet_timer [OF r(2)] Cons.prems(2) r(4) by simp
  moreover have "same_timer st1 st'" using Cons.IH [OF r(3)] Cons.prems(2) r(4) by simp
  ultimately show ?case by (simp add: same_timer_def)
qed simp

text \<open>
  Claim C35. Watching and being turned away never postpone the auto-lock: after any number of
  requests each of which only watches (ping, status without keep-alive, polls of the fill handover
  and of the nearby listener, registration of an agent) or was answered with locked, wrong profile or
  an authentication error, the idle timer stands where it stood, and once the auto-lock time since
  the last served request is over the reaper leaves the daemon locked (unless auto-lock is off).
\<close>

theorem quiet_traffic_never_holds_open:
  assumes "serve_all H rs st w = (log, st', w')" and "\<forall>(req, resp)\<in>set log. quiet req resp"
  shows "st_last_activity st' = st_last_activity st \<and> st_autolock st' = st_autolock st \<and>
    (st_autolock st \<noteq> 0 \<longrightarrow> st_last_activity st + st_autolock st \<le> now \<longrightarrow>
     snd (maybe_autolock now st') = (if is_unlocked st' then lock st' else st') \<and>
     \<not> is_unlocked (snd (maybe_autolock now st')))"
  using quiet_traffic_timer [OF assms]
  by (auto simp: maybe_autolock_def same_timer_def is_unlocked_def lock_def)

section \<open>Guessing the password\<close>

lemma confirm_error:
  assumes "handle_confirm_presence H dr now pw agent st w = (h, st', w')" and "hd_response h = RsError True m"
  shows "is_unlocked st \<and>
     (if MAX_PRESENCE_FAILURES \<le> st_presence_failures st + 1 then st' = lock (st\<lparr>st_presence_failures := st_presence_failures st + 1\<rparr>)
      else st' = st\<lparr>st_presence_failures := st_presence_failures st + 1\<rparr>)"
proof -
  have plain: "load_secret_key H p s w = Inl r \<Longrightarrow> r \<noteq> RsError True m" for p s r
    by (auto simp: load_secret_key_def Let_def usage_def bind_ok_def map_err_def split: option.splits sum.splits if_splits)
  show ?thesis
    using assms plain
    by (auto simp: handle_confirm_presence_def Let_def reply_def usage_def issue_presence_grant_def
        split: if_splits sum.splits prod.splits vault_error.splits)
qed

lemma wrong_password_step:
  assumes "handle_with H dr ck ctx (RqConfirmPresence p pw) st w = (h, st', w')" and "hd_response h = RsError True m"
  shows "is_unlocked st \<and>
     (if MAX_PRESENCE_FAILURES \<le> st_presence_failures st + 1 then \<not> is_unlocked st'
      else is_unlocked st' \<and> st_presence_failures st' = st_presence_failures st + 1)"
  using assms(1)
proof (cases rule: handle_with_cases)
  case (arm st1 w1 st2 st3 w3)
  have stand: "same_standing st st2" by (rule same_standing_sweep_gate [OF arm(1,2)])
  have "handle_confirm_presence H dr (ck 2) pw (rc_agent_connection ctx) st2 w1 = (h, st3, w3)" using arm(3) by simp
  from confirm_error [OF this assms(2)] have
    c: "is_unlocked st2" "if MAX_PRESENCE_FAILURES \<le> st_presence_failures st2 + 1
      then st3 = lock (st2\<lparr>st_presence_failures := st_presence_failures st2 + 1\<rparr>)
      else st3 = st2\<lparr>st_presence_failures := st_presence_failures st2 + 1\<rparr>" by blast+
  moreover have "st' = st3" using account_for_audit_only [OF arm(4)] assms(2) by auto
  ultimately show ?thesis
    using stand by (auto simp: same_standing_def is_unlocked_def lock_def split: if_splits)
qed (use assms(2) in \<open>simp_all add: reply_def presence_gate_def\<close>)

lemma failures_Suc: "f < MAX_PRESENCE_FAILURES \<Longrightarrow> unat (f + 1) = unat f + 1"
  by (simp add: MAX_PRESENCE_FAILURES_def word_less_nat_alt unat_word_ariths)

lemma failures_max: "MAX_PRESENCE_FAILURES \<le> (f :: u32) \<longleftrightarrow> 5 \<le> unat f"
  by (simp add: MAX_PRESENCE_FAILURES_def word_le_nat_alt)

lemma wrong_passwords:
  assumes "serve_all H rs st w = (log, st', w')"
    and "\<forall>(req, resp)\<in>set log. \<exists>p pw m. req = RqConfirmPresence p pw \<and> resp = RsError True m"
    and "st_presence_failures st < MAX_PRESENCE_FAILURES" and "log \<noteq> []"
  shows "is_unlocked st \<and> unat (st_presence_failures st) + length log \<le> 5 \<and>
     (unat (st_presence_failures st) + length log = 5 \<longrightarrow> \<not> is_unlocked st')"
  using assms
proof (induction rs arbitrary: st w log)
  case (Cons r rs)
  from serve_all_Cons [OF Cons.prems(1)] obtain dr ck ctx req h st1 w1 log1
    where r: "r = (dr, ck, ctx, req)" "handle_with H dr ck ctx req st w = (h, st1, w1)"
      "serve_all H rs st1 w1 = (log1, st', w')" "log = (req, hd_response h) # log1" by metis
  obtain p pw m where req: "req = RqConfirmPresence p pw" "hd_response h = RsError True m"
    using Cons.prems(2) r(4) by auto
  have rest: "\<forall>(req, resp)\<in>set log1. \<exists>p pw m. req = RqConfirmPresence p pw \<and> resp = RsError True m"
    using Cons.prems(2) r(4) by simp
  let ?f = "st_presence_failures st"
  have step: "is_unlocked st" "if MAX_PRESENCE_FAILURES \<le> ?f + 1 then \<not> is_unlocked st1
      else is_unlocked st1 \<and> st_presence_failures st1 = ?f + 1"
    using wrong_password_step [OF r(2) [unfolded req(1)] req(2)] by blast+
  have suc: "unat (?f + 1) = unat ?f + 1" by (rule failures_Suc [OF Cons.prems(3)])
  have small: "unat ?f < 5" using Cons.prems(3) failures_max [of ?f] by (simp add: not_le [symmetric])
  show ?case
  proof (cases "log1 = []")
    case True
    then have "st' = st1" using r(3) by (cases rs) (auto split: prod.splits)
    then show ?thesis using step suc small True r(4) failures_max [of "?f + 1"] by (auto split: if_splits)
  next
    case False
    show ?thesis
    proof (cases "MAX_PRESENCE_FAILURES \<le> ?f + 1")
      case True
      obtain r1 rs1 where rs: "rs = r1 # rs1" using r(3) False by (cases rs) auto
      from serve_all_Cons [OF r(3) [unfolded rs]] obtain dr2 ck2 ctx2 req2 h2 st2 w2 log2
        where n: "handle_with H dr2 ck2 ctx2 req2 st1 w1 = (h2, st2, w2)" "log1 = (req2, hd_response h2) # log2" by metis
      obtain p2 pw2 m2 where "req2 = RqConfirmPresence p2 pw2" "hd_response h2 = RsError True m2"
        using rest n(2) by auto
      then have "is_unlocked st1" using wrong_password_step n(1) by blast
      then show ?thesis using step(2) True by simp
    next
      case f: False
      then have st1: "st_presence_failures st1 = ?f + 1" using step(2) by simp
      have "st_presence_failures st1 < MAX_PRESENCE_FAILURES" using f st1 by simp
      from Cons.IH [OF r(3) rest this False] show ?thesis using step(1) st1 suc r(4) by simp
    qed
  qed
qed simp

text \<open>
  Claim C36. The password cannot be guessed through the confirmation: of requests that are all answered as
  wrong passwords there are at most five in a row, and the fifth has locked the vault.
\<close>

theorem five_wrong_passwords_lock:
  assumes "daemon_run H st w" and "serve_all H rs st w = (log, st', w')"
    and "\<forall>(req, resp)\<in>set log. \<exists>p pw m. req = RqConfirmPresence p pw \<and> resp = RsError True m"
  shows "length log \<le> 5 \<and> (length log = 5 \<longrightarrow> \<not> is_unlocked st')"
proof -
  have "st_presence_failures st < MAX_PRESENCE_FAILURES"
    using daemon_run_inv [OF assms(1)] by (simp add: daemon_inv_def grants_bounded_def)
  then show ?thesis using wrong_passwords [OF assms(2,3)] by (cases "log = []") auto
qed

end
