(* ===== verification/DaemonFill.thy ===== *)
theory DaemonFill
  imports DaemonSpec
begin

text \<open>
  Credentials, fill intents, trust and pending devices: what a password released to the browser was checked
  against, that an intent is redeemed once and inside its scope, and that a device is pinned only by the
  whole ceremony.
\<close>

section \<open>Operations that only read\<close>

definition still :: "('e, 's, 'a) eff \<Rightarrow> bool" where
  "still m \<longleftrightarrow> (\<forall>s. snd (m s) = s)"

lemma still_basic [simp, intro]: "still (io_ok x)" "still (io_err e)" "still (io_lift r)" "still (ask_profile D f)"
  by (simp_all add: still_def ask_profile_def)

lemma still_bind [intro]: "still m \<Longrightarrow> (\<And>x. still (f x)) \<Longrightarrow> still (io_bind m f)"
  by (auto simp: still_def io_bind_def split: prod.split sum.split) (metis snd_conv)+

lemma still_asks [simp, intro]:
  "still (session_vaults D ses)" "still (open_vault_id D dr ses v)" "still (ask_db D env g)" "still (lookup_item D env i)"
  by (simp_all add: session_vaults_def open_vault_id_def ask_db_def lookup_item_def)

lemma still_by_id [simp, intro]: "still (by_id D env get reference)"
  by (auto simp: by_id_def split: option.split)

lemma stillD: "still m \<Longrightarrow> m s = (r, s') \<Longrightarrow> s' = s"
  by (metis snd_conv still_def)

lemma bind_still: "still m \<Longrightarrow> io_bind m f s = (case fst (m s) of Inl e \<Rightarrow> (Inl e, s) | Inr x \<Rightarrow> f x s)"
  by (auto simp: io_bind_def dest: stillD split: prod.split sum.split)

lemma fst_still: "still m \<Longrightarrow> fst (m s) = r \<longleftrightarrow> m s = (r, s)"
  by (metis fst_conv prod.collapse still_def)

section \<open>Releasing a password\<close>

text \<open>An item as a vault of the profile holds it.\<close>

definition held_item :: "('x, 's) daemon_lib \<Rightarrow> 'x draws \<Rightarrow> live_session \<Rightarrow> ('x, 's) world \<Rightarrow> id \<Rightarrow> item \<Rightarrow> bool" where
  "held_item D dr ses w v it \<longleftrightarrow>
     (\<exists>pf key db i. wd_profile w = Some pf \<and> open_vault_key (dl_crypto D) ses v (pf_account pf) = Inr key \<and>
        vault_at pf v = Inr db \<and> get_item (vault_env_of D dr v key) (dl_serde D) db i = Inr it)"

lemma ask_profile_Inr:
  "ask_profile D f w = (Inr x, w') \<Longrightarrow> \<exists>pf. wd_profile w = Some pf \<and> f pf = Inr x"
  by (auto simp: ask_profile_def map_err_Inr_iff split: option.splits)

lemma open_vault_id_Inr:
  assumes "open_vault_id D dr ses v w = (Inr env, w')"
  obtains pf key db where "wd_profile w = Some pf" "open_vault_key (dl_crypto D) ses v (pf_account pf) = Inr key"
    "vault_at pf v = Inr db" "env = vault_env_of D dr v key" "ve_vault_id env = v"
  using ask_profile_Inr [OF assms [unfolded open_vault_id_def]] by (auto simp: bind_ok_Inr_iff vault_env_of_def)

lemma held_by_db:
  assumes "open_vault_id D dr ses v w = (Inr env, w')" and "ask_db D env f w = (Inr x, w'')"
    and "\<And>db. f db = Inr x \<Longrightarrow> \<exists>i. get_item env (dl_serde D) db i = Inr it"
  shows "held_item D dr ses w v it"
proof -
  obtain pf key db where o: "wd_profile w = Some pf" "open_vault_key (dl_crypto D) ses v (pf_account pf) = Inr key"
    "vault_at pf v = Inr db" "env = vault_env_of D dr v key" "ve_vault_id env = v"
    by (rule open_vault_id_Inr [OF assms(1)])
  obtain db1 where db1: "vault_at pf v = Inr db1" "f db1 = Inr x"
    using ask_profile_Inr [OF assms(2) [unfolded ask_db_def]] o(1,5) by (auto simp: bind_ok_Inr_iff)
  obtain i where "get_item env (dl_serde D) db1 i = Inr it" using assms(3) [OF db1(2)] by blast
  then show ?thesis unfolding held_item_def using o db1(1) by blast
qed

lemma by_id_held:
  assumes "open_vault_id D dr ses v w = (Inr env, w')"
    and "by_id D env (get_item env (dl_serde D)) ref w = (Inr (Some it), w'')"
  shows "held_item D dr ses w v it"
  using assms(2)
  by (auto simp: by_id_def split: option.splits sum.splits vault_error.splits
      intro!: held_by_db [OF assms(1)])

lemma lookup_held:
  assumes "open_vault_id D dr ses v w = (Inr env, w')" and "lookup_item D env i w = (Inr it, w'')"
  shows "held_item D dr ses w v it"
  by (rule held_by_db [OF assms(1) assms(2) [unfolded lookup_item_def]]) blast

lemma locate_for_fill_held:
  "locate_for_fill D dr ses ref vaults w = (Inr (Some (it, v)), w') \<Longrightarrow> w' = w \<and> held_item D dr ses w v it"
proof (induction vaults)
  case (Cons vn vaults)
  obtain v1 n where vn: "vn = (v1, n)" by fastforce
  obtain env where env: "open_vault_id D dr ses v1 w = (Inr env, w)"
    using Cons.prems vn by (cases "fst (open_vault_id D dr ses v1 w)") (auto simp: bind_still fst_still)
  obtain found where found: "by_id D env (get_item env (dl_serde D)) ref w = (Inr found, w)"
    using Cons.prems vn env by (cases "fst (by_id D env (get_item env (dl_serde D)) ref w)") (auto simp: bind_still fst_still)
  show ?case
  proof (cases found)
    case (Some it1)
    then show ?thesis using Cons.prems vn env found by_id_held [OF env] by (auto simp: bind_still)
  next
    case None
    obtain items where items: "ask_db D env (iter_items env (dl_serde D)) w = (Inr items, w)"
      using Cons.prems vn env found None
      by (cases "fst (ask_db D env (iter_items env (dl_serde D)) w)") (auto simp: bind_still fst_still)
    show ?thesis
    proof (cases "List.find (\<lambda>it. p_title (it_payload it) = ref) items")
      case none: None
      then show ?thesis using Cons.IH Cons.prems vn env found None items by (simp add: bind_still)
    next
      case (Some it0)
      obtain it1 where it1: "lookup_item D env (it_item_id it0) w = (Inr it1, w)"
        using Cons.prems vn env found None items Some
        by (cases "fst (lookup_item D env (it_item_id it0) w)") (auto simp: bind_still fst_still)
      then show ?thesis using Cons.prems vn env found None items Some lookup_held [OF env it1] by (auto simp: bind_still)
    qed
  qed
qed simp

lemma release_login_fill:
  assumes "release_login D dr ses origin it v w = (Inr (RsFill username password), w')"
  shows "is_login (it_payload it) \<and> payload_matches_origin (it_payload it) origin \<and>
     username = login_username (it_payload it) \<and> password = login_password (it_payload it) \<and>
     w' = log_kind D dr ses (ItemSecretRead (it_item_id it) v (Some ''password'')) w"
  using assms by (auto simp: release_login_def io_bind_def io_log_def split: if_splits)

lemma fill_login_released:
  assumes "fill_login D dr ses ref origin w = (Inr (RsFill username password), w')"
  shows "\<exists>v it url. held_item D dr ses w v it \<and> is_login (it_payload it) \<and> url \<in> set (payload_urls (it_payload it)) \<and>
     url_matches_origin url origin \<and> username = login_username (it_payload it) \<and> password = login_password (it_payload it) \<and>
     w' = log_kind D dr ses (ItemSecretRead (it_item_id it) v (Some ''password'')) w"
proof -
  obtain vaults where vaults: "session_vaults D ses w = (Inr vaults, w)"
    using assms by (cases "fst (session_vaults D ses w)") (auto simp: fill_login_def bind_still fst_still split: if_splits)
  obtain r w1 where loc: "locate_for_fill D dr ses ref vaults w = (r, w1)" by fastforce
  obtain it v where it: "r = Inr (Some (it, v))" and
    rel: "release_login D dr ses origin it v w1 = (Inr (RsFill username password), w')"
    using assms vaults loc by (cases r) (auto simp: fill_login_def split: if_splits option.splits)
  have "w1 = w" "held_item D dr ses w v it" using locate_for_fill_held [of D dr ses ref vaults w it v w1] loc it by auto
  moreover note rel
  ultimately show ?thesis using release_login_fill [of D dr ses origin it v w] by (auto simp: payload_matches_origin_def list_ex_iff)
qed

text \<open>Operations whose errors are usage errors.\<close>

definition usage_only :: "('x, 's, 'a) act \<Rightarrow> bool" where
  "usage_only m \<longleftrightarrow> (\<forall>w e w'. m w = (Inl e, w') \<longrightarrow> (\<exists>message. e = usage message))"

lemma vault_err_usage: "\<exists>message. vault_err D e = usage message"
  by (cases e) (simp_all add: vault_err_def usage_def)

lemma usage_only_basic [simp, intro]:
  "usage_only (io_ok x)" "usage_only (io_err (usage m))" "usage_only (ask_profile D f)" "usage_only (io_log D dr ses kind)"
  using vault_err_usage [of D] by (auto simp: usage_only_def ask_profile_def io_log_def map_err_def split: option.splits sum.splits)

lemma usage_only_bind [intro]: "usage_only m \<Longrightarrow> (\<And>x. usage_only (f x)) \<Longrightarrow> usage_only (io_bind m f)"
  unfolding usage_only_def io_bind_def by (auto split: prod.splits sum.splits)

lemma usage_only_asks [simp, intro]:
  "usage_only (session_vaults D ses)" "usage_only (open_vault_id D dr ses v)" "usage_only (ask_db D env g)"
  "usage_only (lookup_item D env i)"
  by (simp_all add: session_vaults_def open_vault_id_def ask_db_def lookup_item_def)

lemma usage_only_by_id [simp, intro]: "usage_only (by_id D env get reference)"
  by (auto simp: by_id_def split: option.split)

lemma usage_only_locate [simp, intro]: "usage_only (locate_for_fill D dr ses ref vaults)"
proof (induction vaults)
  case (Cons vn vaults)
  then show ?case by (cases vn) (auto intro!: usage_only_bind split: option.split)
qed (simp only: locate_for_fill.simps usage_only_basic)

lemma usage_only_fill: "usage_only (fill_login D dr ses ref origin)"
  by (auto simp: fill_login_def release_login_def intro!: usage_only_bind split: option.split)

lemma fill_login_error: "fill_login D dr ses ref origin w = (Inl e, w') \<Longrightarrow> e \<noteq> RsFill u p"
  using usage_only_fill [of D dr ses ref origin] by (auto simp: usage_only_def usage_def)

lemma forget_audit_eq: "forget_audit pf = forget_audit pf' \<Longrightarrow>
    pf_vaults pf = pf_vaults pf' \<and> ac_registry (pf_account pf) = ac_registry (pf_account pf')"
proof -
  assume eq: "forget_audit pf = forget_audit pf'"
  have "pf_vaults (forget_audit pf) = pf_vaults (forget_audit pf')" using eq by simp
  moreover have "ac_registry (pf_account (forget_audit pf)) = ac_registry (pf_account (forget_audit pf'))" using eq by simp
  ultimately show ?thesis by (simp add: forget_audit_def)
qed

lemma held_item_audit_only:
  assumes "audit_only w w1" and "held_item D dr ses w1 v it"
  shows "held_item D dr ses w v it"
proof -
  obtain pf1 key db i where h: "wd_profile w1 = Some pf1" "open_vault_key (dl_crypto D) ses v (pf_account pf1) = Inr key"
    "vault_at pf1 v = Inr db" "get_item (vault_env_of D dr v key) (dl_serde D) db i = Inr it"
    using assms(2) unfolding held_item_def by blast
  obtain pf where pf: "wd_profile w = Some pf" "forget_audit pf = forget_audit pf1"
    using assms(1) h(1) by (cases "wd_profile w") (auto simp: audit_only_def)
  have "open_vault_key (dl_crypto D) ses v (pf_account pf) = Inr key" "vault_at pf v = Inr db"
    using forget_audit_eq [OF pf(2)] h(2,3) by (simp_all add: open_vault_key_def live_row_def vault_at_def)
  then show ?thesis unfolding held_item_def using pf(1) h(4) by blast
qed

lemma session_of_stand: "same_standing st st2 \<Longrightarrow> st_session st2 = st_session st"
  by (simp add: same_standing_def)

text \<open>
  Claim C5. A username and password leave the daemon for the browser only while it is unlocked, only from a
  login item held by a vault of the account one of whose stored URLs matches the origin of the page, and
  with a record of the disclosure; nothing else changes.
\<close>

theorem password_released_to_its_site_only:
  assumes "handle_with H dr ck ctx (RqFillLogin p ref origin) st w = (h, st', w')"
    and "hd_response h = RsFill username password"
  shows "\<exists>ses v it url w1. st_session st = Some ses \<and> held_item (ho_lib H) dr ses w v it \<and> is_login (it_payload it) \<and>
     url \<in> set (payload_urls (it_payload it)) \<and> url_matches_origin url origin \<and>
     username = login_username (it_payload it) \<and> password = login_password (it_payload it) \<and>
     audit_only w w1 \<and> w' = log_kind (ho_lib H) dr ses (ItemSecretRead (it_item_id it) v (Some ''password'')) w1"
  using assms(1)
proof (cases rule: handle_with_cases)
  case (arm st1 w1 st2 st3 w3)
  have "st_session st2 = st_session st" by (rule session_of_stand [OF same_standing_sweep_gate [OF arm(1,2)]])
  moreover obtain ses where ses: "st_session st2 = Some ses"
    using arm(3) assms(2) by (cases "st_session st2") (auto simp: with_session_def reply_def)
  moreover obtain r w4 where run: "fill_login (ho_lib H) dr ses ref origin w1 = (r, w4)" by fastforce
  then have h: "hd_response h = either_response r" "w3 = w4"
    using arm(3) ses by (auto simp: with_session_def reply_def)
  then have f: "fill_login (ho_lib H) dr ses ref origin w1 = (Inr (RsFill username password), w3)"
    using assms(2) run by (cases r) (auto simp: either_response_def dest: fill_login_error)
  ultimately have ses: "st_session st = Some ses" by simp
  have "w' = w3" using arm(4) assms(2) by (auto simp: account_for_def)
  then show ?thesis
    using fill_login_released [OF f] held_item_audit_only [OF sweep_audit_only [OF arm(1)]] sweep_audit_only [OF arm(1)] ses by blast
qed (use assms(2) in \<open>simp_all add: reply_def\<close>)

section \<open>Fill intents\<close>

lemma usage_only_resolve_vault [simp, intro]: "usage_only (resolve_vault_id D ses reference)"
  by (auto simp: resolve_vault_id_def intro!: usage_only_bind split: option.split list.split)

lemma usage_only_collect [simp, intro]: "usage_only (collect_titled D env ref items matches)"
proof (induction items arbitrary: matches)
  case (Cons it items)
  then show ?case by (auto intro!: usage_only_bind)
qed (simp only: collect_titled.simps usage_only_basic)

lemma usage_only_locate_in [simp, intro]: "usage_only (locate_in D dr ses ref vaults matches)"
proof (induction vaults arbitrary: matches)
  case (Cons v vaults)
  then show ?case by (auto intro!: usage_only_bind split: option.split)
qed (simp only: locate_in.simps usage_only_basic)

lemma usage_only_resolve_login: "usage_only (resolve_login_item D dr ses ref vault_ref)"
  by (auto simp: resolve_login_item_def locate_item_def intro!: usage_only_bind split: option.split)

lemma resolve_login_error: "resolve_login_item D dr ses ref v w = (r, w') \<Longrightarrow> r \<noteq> Inl (RsFillIntentArmed secs i)"
  using usage_only_resolve_login [of D dr ses ref v] by (auto simp: usage_only_def usage_def)

lemma resolve_login_is_login: "resolve_login_item D dr ses ref v w = (Inr (Inr it), w') \<Longrightarrow> is_login (it_payload it)"
  unfolding resolve_login_item_def io_bind_Inr
proof (elim exE conjE)
  fix found s1
  assume "io_ok (case found of LocatedNone \<Rightarrow> Inl RfItemNotFound | LocatedAmbiguous \<Rightarrow> Inl RfAmbiguousItem
      | LocatedOne it \<Rightarrow> if is_login (it_payload it) then Inr it else Inl RfItemNotFound) s1 = (Inr (Inr it), w')"
  then show "is_login (it_payload it)" by (cases found) (auto split: if_splits)
qed

definition spent :: "state \<Rightarrow> bool" where
  "spent st \<longleftrightarrow> (\<forall>i. st_pending_fill st = Some i \<longrightarrow> pf_taken i)"

lemma spent_simps [simp]:
  "spent (lock st)" "spent (hold_session ses st)" "spent (clear_agent_fill st)" "spent (set_agent_fill_mode now b items st)"
  "spent (st\<lparr>st_nearby := ny\<rparr>) \<longleftrightarrow> spent st" "spent (st\<lparr>st_presence_failures := n\<rparr>) \<longleftrightarrow> spent st"
  "spent (st\<lparr>st_agent_sessions := k\<rparr>) \<longleftrightarrow> spent st" "spent (set_pairing_mode now b st) \<longleftrightarrow> spent st"
  "spent (snd (issue_presence_grant now token st)) \<longleftrightarrow> spent st" "spent (touch now st) \<longleftrightarrow> spent st"
  "spent (st\<lparr>st_autolock := m\<rparr>) \<longleftrightarrow> spent st"
  by (simp_all add: spent_def lock_def hold_session_def clear_agent_fill_def set_agent_fill_mode_def set_pairing_mode_def
      issue_presence_grant_def Let_def touch_def)

lemma spent_take: "spent (snd (take_fill_intent now st)) \<longleftrightarrow> spent st \<or> fst (take_fill_intent now st) \<noteq> None"
  by (auto simp: spent_def take_fill_intent_def split: option.split)

lemma spent_report: "spent st \<Longrightarrow> spent (snd (record_fill_report i r st))"
  by (auto simp: spent_def record_fill_report_def split: option.split)

lemma spent_confirm: "spent st \<Longrightarrow> spent (fst (snd (handle_confirm_presence H dr now pw agent st w)))"
  by (auto simp: handle_confirm_presence_def Let_def issue_presence_grant_def spent_def lock_def
      split: sum.split prod.split vault_error.split)

lemma spent_arms:
  "spent st \<Longrightarrow> spent (fst (snd (handle_unlock H dr pw sk al st w)))"
  "spent st \<Longrightarrow> spent (fst (snd (handle_create_account H dr pw st w)))"
  "spent st \<Longrightarrow> spent (fst (snd (handle_set_agent_fill_mode D dr now on refs v st w)))"
  "spent st \<Longrightarrow> spent (fst (snd (handle_set_pairing_mode D dr now b st w)))"
  "spent st \<Longrightarrow> spent (fst (snd (handle_nearby_listen H dr ck ba p tm pe sh st w)))"
  "spent st \<Longrightarrow> spent (fst (snd (handle_nearby_stop st w)))"
  "spent st \<Longrightarrow> spent (fst (snd (handle_begin_agent_session ctx st w)))"
  "spent (fst (snd (handle_lock st w)))"
  by (auto simp: handle_unlock_def handle_create_account_def handle_set_agent_fill_mode_def handle_set_pairing_mode_def
      handle_nearby_listen_def handle_nearby_stop_def handle_begin_agent_session_def handle_lock_def Let_def
      split: option.split sum.split prod.split vault_error.split)

lemma spent_take_arm: "spent st \<Longrightarrow> spent (fst (snd (handle_take_fill_intent now st w)))"
  using spent_take [of now st] by (auto simp: handle_take_fill_intent_def split: option.split prod.split)

lemma spent_report_arm: "spent st \<Longrightarrow> spent (fst (snd (handle_report_fill_outcome D dr i r st w)))"
  using spent_report [of st i r] by (auto simp: handle_report_fill_outcome_def Let_def split: option.split prod.split bool.split)

lemma spent_arm: "rq_kind req \<noteq> ''ArmFillIntent'' \<Longrightarrow> spent st \<Longrightarrow> spent (fst (snd (handle_arm H dr ck ctx req st w)))"
  by (cases req) (simp_all add: spent_arms spent_confirm spent_take_arm spent_report_arm)

lemma spent_stand: "same_standing st st2 \<Longrightarrow> spent st \<Longrightarrow> spent st2"
  by (auto simp: same_standing_def spent_def)

lemma spent_account: "account_for H dr now req (h, st, w) = (h', st', w') \<Longrightarrow> spent st' \<longleftrightarrow> spent st"
  by (auto simp: account_for_def split: option.splits if_splits)

lemma spent_handle:
  assumes "handle_with H dr ck ctx req st w = (h, st', w')" and "rq_kind req \<noteq> ''ArmFillIntent''" and "spent st"
  shows "spent st'"
  using assms(1)
proof (cases rule: handle_with_cases)
  case (presence st1 w1)
  then show ?thesis using spent_stand [OF same_standing_sweep_gate [OF presence(1,2)] assms(3)] by simp
next
  case (arm st1 w1 st2 st3 w3)
  have "spent st2" by (rule spent_stand [OF same_standing_sweep_gate [OF arm(1,2)] assms(3)])
  then show ?thesis using spent_arm [OF assms(2), of st2 H dr ck ctx w1] arm(3) spent_account [OF arm(4)] by simp
qed (use assms(3) in simp_all)

lemma spent_serve_all:
  "serve_all H rs st w = (log, st', w') \<Longrightarrow> \<forall>(req, resp)\<in>set log. rq_kind req \<noteq> ''ArmFillIntent'' \<Longrightarrow> spent st \<Longrightarrow> spent st'"
proof (induction rs arbitrary: st w log)
  case (Cons r rs)
  from serve_all_Cons [OF Cons.prems(1)] obtain dr ck ctx req h st1 w1 log1
    where r: "r = (dr, ck, ctx, req)" "handle_with H dr ck ctx req st w = (h, st1, w1)"
      "serve_all H rs st1 w1 = (log1, st', w')" "log = (req, hd_response h) # log1" by metis
  have "spent st1" using spent_handle [OF r(2) _ Cons.prems(3)] Cons.prems(2) r(4) by simp
  then show ?case using Cons.IH [OF r(3)] Cons.prems(2) r(4) by simp
qed simp

text \<open>What a request to take the intent is answered.\<close>

lemma take_request:
  assumes "handle_with H dr ck ctx (RqTakeFillIntent p) st w = (h, st', w')"
  shows "hd_response h = RsWrongProfile (st_profile st) \<or> hd_response h = RsLocked \<or>
     (\<exists>st1 w1. sweep_agent_fill (ho_lib H) dr (ck 0) st w = (st1, w1) \<and> is_unlocked st1 \<and>
        st' = snd (take_fill_intent (ck 2) st1) \<and>
        hd_response h = (case fst (take_fill_intent (ck 2) st1) of None \<Rightarrow> RsNoFillIntent
          | Some (i, t, g, s, ow) \<Rightarrow> RsFillIntent i t g s ow))"
  using assms
proof (cases rule: handle_with_cases)
  case (arm st1 w1 st2 st3 w3)
  have "st2 = st1" using arm(2) by (simp add: presence_gate_def)
  then show ?thesis
    using arm(1,3,4) by (auto simp: handle_take_fill_intent_def account_for_def reply_def split: if_splits prod.splits option.splits)
qed (simp_all add: reply_def presence_gate_def)

text \<open>
  Claim C37. A fill intent is redeemed once: after it was handed out, no later request to take one is
  answered with an intent, whatever happens in between, until a new one is armed.
\<close>

theorem fill_intent_redeemed_once:
  assumes "handle_with H dr ck ctx (RqTakeFillIntent p) st w = (h, st1, w1)"
    and "hd_response h = RsFillIntent i t g s ow"
    and "serve_all H rs st1 w1 = (log, st2, w2)" and "\<forall>(req, resp)\<in>set log. rq_kind req \<noteq> ''ArmFillIntent''"
    and "handle_with H dr' ck' ctx' (RqTakeFillIntent p') st2 w2 = (h', st3, w3)"
  shows "hd_response h' \<in> {RsNoFillIntent, RsLocked, RsWrongProfile (st_profile st2)}"
proof -
  have "spent st1" using take_request [OF assms(1)] assms(2) spent_take by (auto split: option.splits)
  then have "spent st2" by (rule spent_serve_all [OF assms(3,4)])
  then have none: "fst (take_fill_intent now (clear_agent_fill st2)) = None" "fst (take_fill_intent now st2) = None" for now
    by (auto simp: spent_def take_fill_intent_def clear_agent_fill_def split: option.split)
  show ?thesis using take_request [OF assms(5)] none sweep_frame [of "ho_lib H" dr' "ck' 0" st2 w2] by auto
qed

text \<open>
  Claim C38. An intent is handed out only to an unlocked daemon's extension, while the arm window is open and
  the intent is fresh, and it names an item the user armed.
\<close>

theorem fill_intent_in_scope:
  assumes "daemon_run H st w" and "handle_with H dr ck ctx (RqTakeFillIntent p) st w = (h, st', w')"
    and "hd_response h = RsFillIntent item tab origin secs overwrite"
  shows "is_unlocked st \<and> (\<exists>aw i. st_agent_fill st = Some aw \<and> ck 0 < aw_until aw \<and> item \<in> set (aw_items aw) \<and>
     st_pending_fill st = Some i \<and> \<not> pf_taken i \<and> ck 2 < pf_expires_at i \<and> item = pf_item_id i \<and> origin = pf_origin i)"
proof -
  obtain st1 w1 where sweep: "sweep_agent_fill (ho_lib H) dr (ck 0) st w = (st1, w1)" and unl: "is_unlocked st1" and
    resp: "hd_response h = (case fst (take_fill_intent (ck 2) st1) of None \<Rightarrow> RsNoFillIntent
          | Some (i, t, g, s, ow) \<Rightarrow> RsFillIntent i t g s ow)"
    using take_request [OF assms(2)] assms(3) by auto
  obtain i where i: "st_pending_fill st1 = Some i" "\<not> pf_taken i" "ck 2 < pf_expires_at i" "item = pf_item_id i" "origin = pf_origin i"
    using resp assms(3) by (auto simp: take_fill_intent_def not_le split: option.splits if_splits)
  have "st1 = st" using sweep_frame [OF sweep] i(1) by (auto simp: clear_agent_fill_def)
  moreover have "\<not> agent_fill_lapsed (ck 0) st"
    using sweep i(1) by (auto simp: sweep_agent_fill_def clear_agent_fill_def split: if_splits)
  moreover obtain aw where "st_agent_fill st = Some aw" "pf_item_id i \<in> set (aw_items aw)"
    using daemon_run_inv [OF assms(1)] i(1) calculation(1) by (auto simp: daemon_inv_def intent_scoped_def)
  ultimately show ?thesis using i unl by (auto simp: agent_fill_lapsed_def)
qed

text \<open>
  Claim C39. An intent is armed only when every gate passed: the daemon is unlocked, the window is open, the
  reference resolves to one login item inside the armed scope, and a URL of that item matches the origin.
\<close>

theorem armed_intent_passed_the_gates:
  assumes "handle_with H dr ck ctx (RqArmFillIntent p ref tab origin overwrite vault_ref) st w = (h, st', w')"
    and "hd_response h = RsFillIntentArmed secs item_id"
  shows "\<exists>ses aw it w1 w2. st_session st = Some ses \<and> st_agent_fill st = Some aw \<and> ck 2 < aw_until aw \<and> ck 3 < aw_until aw \<and>
     audit_only w w1 \<and> resolve_login_item (ho_lib H) dr ses ref vault_ref w1 = (Inr (Inr it), w2) \<and>
     item_id = to_hyphenated (dl_ship (ho_lib H)) (it_item_id it) \<and> item_id \<in> set (aw_items aw) \<and>
     is_login (it_payload it) \<and> payload_matches_origin (it_payload it) origin \<and>
     st_pending_fill st' = Some \<lparr>pf_item_id = item_id, pf_tab_id = tab, pf_origin = origin, pf_overwrite = overwrite,
       pf_expires_at = ck 4 + st_fill_intent_ttl st, pf_taken = False, pf_report = None\<rparr>"
  using assms(1)
proof (cases rule: handle_with_cases)
  case (arm st1 w1 st2 st3 w3)
  have st2: "st2 = st1" using arm(2) by (simp add: presence_gate_def)
  have h: "handle_arm_fill_intent (ho_lib H) dr ck ref tab origin overwrite vault_ref st1 w1 = (h, st3, w3)"
    using arm(3) st2 by simp
  obtain ses where ses: "st_session st1 = Some ses" using h assms(2) by (auto simp: handle_arm_fill_intent_def reply_def split: option.splits)
  have active: "agent_fill_active (ck 2) st1"
    using h ses assms(2) by (auto simp: handle_arm_fill_intent_def reply_def refuse_fill_def split: if_splits)
  obtain r w2 where run: "resolve_login_item (ho_lib H) dr ses ref vault_ref w1 = (r, w2)" by fastforce
  obtain it where it: "r = Inr (Inr it)"
    using h ses active run assms(2) resolve_login_error [OF run]
    by (cases r; cases "projr r") (auto simp: handle_arm_fill_intent_def reply_def refuse_fill_def)
  let ?i = "to_hyphenated (dl_ship (ho_lib H)) (it_item_id it)"
  have gates: "agent_fill_covers (ck 3) ?i st1" "payload_matches_origin (it_payload it) origin"
    and st3: "item_id = ?i" "st3 = snd (arm_fill_intent (ck 4) ?i tab origin overwrite st1)"
    using h ses active run it assms(2)
    by (auto simp: handle_arm_fill_intent_def reply_def refuse_fill_def Let_def arm_fill_intent_def split: if_splits)
  have "st1 = st" using sweep_frame [OF arm(1)] active by (auto simp: agent_fill_active_def clear_agent_fill_def)
  moreover have "is_login (it_payload it)" using resolve_login_is_login run it by blast
  moreover have "st_pending_fill st' = st_pending_fill st3" using account_for_audit_only [OF arm(4)] by (auto simp: touch_def)
  ultimately show ?thesis
    using ses active gates st3 run it sweep_audit_only [OF arm(1)]
    by (auto simp: agent_fill_active_def agent_fill_covers_def arm_fill_intent_def split: option.splits)
qed (use assms(2) in \<open>simp_all add: reply_def\<close>)

section \<open>Trust\<close>

lemma trust_device_pins:
  assumes "trust_device D dr ses identity_string expected label w = (r, w')"
  shows "w' = w \<or>
    (\<exists>i pf. from_export_string identity_string = Inr i \<and> trim expected \<noteq> [] \<and>
       fingerprint_matches (cl_blake3 (dl_crypto D)) i expected \<and> wd_profile w = Some pf \<and>
       w' = w\<lparr>wd_profile := Some (pf\<lparr>pf_account := trust_peer_device (dl_crypto D) (rd_origin dr) (rd_now dr) ses (dd_device_id i)
         (dd_ed25519_pub i) (dd_x25519_pub i) label (pf_account pf)\<rparr>)\<rparr>)"
  using assms by (auto simp: trust_device_def Let_def split: sum.splits if_splits option.splits)

lemma trust_peer_device_forget:
  "(trust_peer_device L ori now ses d ed x label acc)\<lparr>ac_audit := []\<rparr> =
     acc\<lparr>ac_peers := bt_insert (as_bytes d)
          \<lparr>pr_ed25519_pub = ed, pr_x25519_pub = x, pr_verified_at = now, pr_label = label\<rparr> (ac_peers acc), ac_audit := []\<rparr>"
  by (auto simp: trust_peer_device_def best_effort_def dest: record_audit_only split: sum.split)

text \<open>The profile with one more pinned device.\<close>

definition pinned :: "device_identity \<Rightarrow> int \<Rightarrow> string option \<Rightarrow> 'x profile \<Rightarrow> 'x profile" where
  "pinned i now label pf = pf\<lparr>pf_account := (pf_account pf)\<lparr>ac_peers := bt_insert (as_bytes (dd_device_id i))
     \<lparr>pr_ed25519_pub = dd_ed25519_pub i, pr_x25519_pub = dd_x25519_pub i, pr_verified_at = now, pr_label = label\<rparr>
     (ac_peers (pf_account pf))\<rparr>\<rparr>"

lemma forget_pinned: "forget_audit (pinned i now label pf) = pinned i now label (forget_audit pf)"
  by (simp add: pinned_def forget_audit_def)

text \<open>
  Claim C40. Asking to trust a device changes nothing but the audit log, unless the daemon is unlocked, its
  pairing window is open, the identity string parses, and the fingerprint the user confirmed is the one of
  that identity; then exactly that device is pinned, with the keys of the string.
\<close>

theorem trust_takes_the_ceremony:
  assumes "handle_with H dr ck ctx (RqTrustDevice p identity_string expected label) st w = (h, st', w')"
  shows "audit_only w w' \<or>
    (\<exists>ses until i pf. st_session st = Some ses \<and> st_pairing_mode_until st = Some until \<and> ck 2 < until \<and>
       from_export_string identity_string = Inr i \<and> trim expected \<noteq> [] \<and>
       fingerprint_matches (cl_blake3 (dl_crypto (ho_lib H))) i expected \<and> wd_profile w = Some pf \<and>
       audit_only (w\<lparr>wd_profile := Some (pinned i (rd_now dr) label pf)\<rparr>) w')"
  using assms
proof (cases rule: handle_with_cases)
  case (arm st1 w1 st2 st3 w3)
  let ?D = "ho_lib H"
  have stand: "same_standing st st2" by (rule same_standing_sweep_gate [OF arm(1,2)])
  have a: "handle_trust_device ?D dr (ck 2) identity_string expected label st2 w1 = (h, st3, w3)" using arm(3) by simp
  have w1: "audit_only w w1" by (rule sweep_audit_only [OF arm(1)])
  have w3: "audit_only w3 w'" using account_for_audit_only [OF arm(4)] by simp
  show ?thesis
  proof (cases "w3 = w1")
    case True
    then show ?thesis using audit_only_trans [OF w1] w3 by simp
  next
    case False
    then have pairing: "pairing_mode_active (ck 2) st2" using a by (auto simp: handle_trust_device_def split: if_splits)
    then obtain ses r where ses: "st_session st2 = Some ses" and
      t: "trust_device ?D dr ses identity_string expected label w1 = (r, w3)"
      using a False by (auto simp: handle_trust_device_def with_session_def split: option.splits prod.splits)
    obtain i pf1 where i: "from_export_string identity_string = Inr i" "trim expected \<noteq> []"
      "fingerprint_matches (cl_blake3 (dl_crypto ?D)) i expected" "wd_profile w1 = Some pf1" and
      w3_eq: "w3 = w1\<lparr>wd_profile := Some (pf1\<lparr>pf_account := trust_peer_device (dl_crypto ?D) (rd_origin dr) (rd_now dr) ses
         (dd_device_id i) (dd_ed25519_pub i) (dd_x25519_pub i) label (pf_account pf1)\<rparr>)\<rparr>"
      using trust_device_pins [OF t] False by blast
    obtain pf where pf: "wd_profile w = Some pf" "forget_audit pf1 = forget_audit pf"
      using w1 i(4) by (cases "wd_profile w") (auto simp: audit_only_def)
    have "map_option forget_audit (wd_profile w3) = Some (pinned i (rd_now dr) label (forget_audit pf1))"
      by (simp add: w3_eq forget_audit_def pinned_def trust_peer_device_forget)
    then have "audit_only (w\<lparr>wd_profile := Some (pinned i (rd_now dr) label pf)\<rparr>) w3"
      using w1 pf(2) by (simp add: audit_only_def w3_eq forget_pinned)
    then have "audit_only (w\<lparr>wd_profile := Some (pinned i (rd_now dr) label pf)\<rparr>) w'"
      using audit_only_trans w3 by blast
    moreover obtain until where "st_pairing_mode_until st = Some until" "ck 2 < until"
      using pairing stand by (auto simp: pairing_mode_active_def same_standing_def split: option.splits)
    ultimately show ?thesis using ses stand i(1-3) pf(1) by (auto simp: same_standing_def)
  qed
qed simp_all

section \<open>Pending devices\<close>

text \<open>
  The list of pending devices pins nothing, and shows only identities that parse, each under the
  id and the fingerprint of its own string, never this device nor one already trusted, whatever files
  somebody left in the folder.
\<close>

theorem pending_devices_are_candidates:
  assumes "list_pending_devices D ses dir w = (Inr (RsPendingDevices devices), w')"
  shows "wd_profile w' = wd_profile w \<and> wd_files w' = wd_files w \<and>
    (\<forall>d\<in>set devices. \<exists>i. from_export_string (wn_identity_string d) = Inr i \<and>
       wn_device_id d = to_hyphenated (dl_ship D) (dd_device_id i) \<and>
       wn_fingerprint d = fingerprint (cl_blake3 (dl_crypto D)) i \<and> dd_device_id i \<noteq> ss_device_id ses \<and>
       (\<forall>pf peers. wd_profile w = Some pf \<longrightarrow> peer_devices (pf_account pf) = Inr peers \<longrightarrow>
          dd_device_id i \<notin> pd_device_id ` set peers))"
proof -
  have none: ?thesis if "devices = []" "wd_profile w' = wd_profile w" "wd_files w' = wd_files w" using that by simp
  show ?thesis
  proof (cases "trim dir = []")
    case True
    then show ?thesis using assms none by (simp add: list_pending_devices_def)
  next
    case dir: False
    show ?thesis
    proof (cases "dl_factory D dir")
      case (Inl e)
      then show ?thesis using assms dir none by (simp add: list_pending_devices_def)
    next
      case (Inr store)
      obtain r ch where l: "list_announces (dl_announce D) store (wd_channel w) = (r, ch)" by fastforce
      show ?thesis
      proof (cases r)
        case r: (Inl e)
        then show ?thesis using assms dir Inr l none by (auto simp: list_pending_devices_def Let_def)
      next
        case r: (Inr announces)
        have run: "(bind_ok (trusted_ids D (w\<lparr>wd_channel := ch\<rparr>)) (\<lambda>trusted. Inr (RsPendingDevices
            (List.map_filter (pending_device D (ss_device_id ses # trusted)) announces))), w\<lparr>wd_channel := ch\<rparr>) =
            (Inr (RsPendingDevices devices), w')"
          using assms unfolding list_pending_devices_def Let_def if_not_P [OF dir] Inr r l sum.case prod.case .
        then obtain trusted where tr: "trusted_ids D (w\<lparr>wd_channel := ch\<rparr>) = Inr trusted"
          by (cases "trusted_ids D (w\<lparr>wd_channel := ch\<rparr>)") simp_all
        have ds: "devices = List.map_filter (pending_device D (ss_device_id ses # trusted)) announces" and w': "w' = w\<lparr>wd_channel := ch\<rparr>"
          using run unfolding tr bind_ok_simps by blast+
        have peers: "trusted = map pd_device_id peers" if "wd_profile w = Some pf" "peer_devices (pf_account pf) = Inr peers" for pf peers
          using tr that by (simp add: trusted_ids_def)
        have "\<exists>i. from_export_string (wn_identity_string d) = Inr i \<and>
            wn_device_id d = to_hyphenated (dl_ship D) (dd_device_id i) \<and>
            wn_fingerprint d = fingerprint (cl_blake3 (dl_crypto D)) i \<and> dd_device_id i \<noteq> ss_device_id ses \<and> dd_device_id i \<notin> set trusted"
          if "d \<in> set devices" for d
        proof -
          note member = that
          obtain a where a: "a \<in> set announces" "pending_device D (ss_device_id ses # trusted) a = Some d"
            using member unfolding ds List.map_filter_def by auto
          have "announce_ok a" using list_announces_ok [OF l [unfolded r]] a(1) by blast
          then obtain i where "from_export_string (an_identity a) = Inr i" "dd_device_id i = an_device_id a"
            using announce_ok_parses by blast
          then show ?thesis using a(2) by (auto simp: pending_device_def split: if_splits)
        qed
        moreover have "dd_device_id i \<notin> pd_device_id ` set peers"
          if "dd_device_id i \<notin> set trusted" "wd_profile w = Some pf" "peer_devices (pf_account pf) = Inr peers" for i pf peers
          using peers that by simp
        ultimately have "\<forall>d\<in>set devices. \<exists>i. from_export_string (wn_identity_string d) = Inr i \<and>
            wn_device_id d = to_hyphenated (dl_ship D) (dd_device_id i) \<and>
            wn_fingerprint d = fingerprint (cl_blake3 (dl_crypto D)) i \<and> dd_device_id i \<noteq> ss_device_id ses \<and>
            (\<forall>pf peers. wd_profile w = Some pf \<longrightarrow> peer_devices (pf_account pf) = Inr peers \<longrightarrow>
               dd_device_id i \<notin> pd_device_id ` set peers)"
          by meson
        then show ?thesis using w' by simp
      qed
    qed
  qed
qed

text \<open>
  Claim C8. In every run of the daemon, over requests, the reaper, connections and listen windows that end
  and other processes writing the device: a locked daemon holds no agent-fill window, no fill intent, no
  presence grant, no failure count and no nearby listener (the pairing window is not among them: it
  outlives a lock); an intent lies in the scope the user armed; and at most eight grants and four
  failures are ever on record.
\<close>

theorem daemon_always_consistent:
  assumes "daemon_run H st w"
  shows "locked_holds_nothing st \<and> intent_scoped st \<and> grants_bounded st"
  using daemon_run_inv [OF assms] by (simp add: daemon_inv_def)

end
