(* ===== verification/DaemonEx.thy ===== *)
theory DaemonEx
  imports DaemonFill AccountSpec EngineSpec
begin

text \<open>
  A concrete device and daemon for the witnesses: a cipher that decrypts every envelope to the same 32
  bytes, or to nothing, an account with one vault that holds one login item, and a Secret Key file.
\<close>

definition ex_eights :: bytes where
  "ex_eights = replicate 32 8"

definition ex_cipher :: aead where
  "ex_cipher =
     \<lparr>aead_encrypt = (\<lambda>k n aad p. Some p), aead_decrypt = (\<lambda>k n aad c. if k = str_bytes ''bad'' then None else Some ex_eights),
      fresh_nonce = (\<lambda>k aad p. replicate NONCE_LEN 5)\<rparr>"

text \<open>The master unlock key is the password itself.\<close>

definition ex_open_crypto :: crypto_lib where
  "ex_open_crypto = ex_crypto\<lparr>cl_aead := ex_cipher, cl_hkdf := (\<lambda>salt ikm info. ikm),
     cl_argon2 := \<lparr>argon2_accepts = (\<lambda>_ _ _. True), argon2id = (\<lambda>_ _ _ pw salt. Some pw)\<rparr>\<rparr>"

definition ex_login :: item_payload where
  "ex_login = (item_payload_new (Login [''https://example.com'']) ''mail'')
     \<lparr>p_fields := [\<lparr>fld_name = ''username'', fld_kind = TextField, fld_value = JString ''ann''\<rparr>,
                  \<lparr>fld_name = ''password'', fld_kind = HiddenField, fld_value = JString ''pw1''\<rparr>]\<rparr>"

definition ex_blob :: bytes where
  "ex_blob = envelope_to_bytes \<lparr>env_nonce = replicate NONCE_LEN 0, env_ciphertext = replicate 32 0\<rparr>"

definition ex_sk :: bytes where
  "ex_sk = replicate 16 3"

definition ex_item_id :: id where
  "ex_item_id = ex_id 9"

definition ex_held_db :: "nat vault_db" where
  "ex_held_db = (empty_vault 0)
     \<lparr>db_items := [(as_bytes ex_item_id, \<lparr>ir_current_version = 1, ir_created_at = 100, ir_updated_at = 100\<rparr>)],
      db_versions := [((as_bytes ex_item_id, 1), \<lparr>iv_payload_env = ex_blob, iv_created_at = 100, iv_author_device_id = as_bytes (ex_id 1),
         iv_op_id = as_bytes (ex_id 7)\<rparr>)],
      db_wrapped_keys := [((as_bytes ex_item_id, 1), ex_blob)]\<rparr>"

definition ex_acc :: account_db where
  "ex_acc = \<lparr>ac_format_version = 1, ac_created_at = 100,
     ac_kdf = \<lparr>kd_kdf = 1, kd_argon2_m_kib = 1, kd_argon2_t = 1, kd_argon2_p = 1, kd_salt = replicate 16 2, kd_secret_key_id = []\<rparr>,
     ac_wrapped_account_key = ex_blob, ac_wrapped_at = 100,
     ac_identity = \<lparr>di_device_id = as_bytes (ex_id 1), di_ed25519_pub = ex_eights, di_x25519_pub = ex_eights,
       di_ed25519_priv_env = ex_blob, di_x25519_priv_env = ex_blob, di_created_at = 100\<rparr>,
     ac_peers = [], ac_registry = [(as_bytes (ex_id 3), \<lparr>rg_name_env = ex_blob, rg_wrapped_vault_key = ex_blob, rg_cipher_suite = 1,
       rg_created_at = 100, rg_deleted_at = None\<rparr>)], ac_settings = [], ac_audit = []\<rparr>"

definition ex_laptop :: "(nat, fs) world" where
  "ex_laptop = \<lparr>wd_profile = Some \<lparr>pf_account = ex_acc, pf_vaults = [(as_bytes (ex_id 3), ex_held_db)]\<rparr>,
     wd_files = [([''key''], FsFile (str_bytes ''LP1-0''))], wd_channel = []\<rparr>"

definition ex_serde_login :: serde where
  "ex_serde_login = ex_serde\<lparr>de_item := (\<lambda>_. Inr ex_login)\<rparr>"

definition ex_base32 :: base32 where
  "ex_base32 = \<lparr>b32_encode = (\<lambda>_. ''0''), b32_decode = (\<lambda>_. Some (ex_sk @ u32_to_be (sk_crc32 ex_sk)))\<rparr>"

definition ex_daemon_lib :: "(nat, fs) daemon_lib" where
  "ex_daemon_lib =
     \<lparr>dl_crypto = ex_open_crypto, dl_ship = ex_ship_lib, dl_serde = ex_serde_login, dl_att = (\<lambda>_. ex_lib),
      dl_base32 = ex_base32,
      dl_announce = \<lparr>al_announce_json = (\<lambda>_. Inr []), al_parse_announce = (\<lambda>_. None)\<rparr>, dl_factory = ex_factory,
      dl_index_delete = (\<lambda>_ _ ix. Inr ix), dl_index_upsert = (\<lambda>_ _ _ ix. Inr ix), dl_index_query = (\<lambda>_ _ _ ix. (Inr [], ix)),
      dl_lower = (\<lambda>s. s), dl_json_text = (\<lambda>_. []), dl_debug = (\<lambda>s. s), dl_show_io = (\<lambda>_. []), dl_path = (\<lambda>s. [s]),
      dl_canonicalize = (\<lambda>s. Some s), dl_ssh_count = (\<lambda>_ _. 0), dl_elsewhere = (\<lambda>_ _ w. (Inl RsLocked, w))\<rparr>"

definition ex_host :: "(nat, fs) host" where
  "ex_host =
     \<lparr>ho_lib = ex_daemon_lib,
      ho_net = \<lparr>nl_parse_ip = (\<lambda>_. None), nl_parse_socket = (\<lambda>_. None), nl_show_ip = (\<lambda>_. []), nl_show_socket = (\<lambda>_. []),
        nl_bind = (\<lambda>_. Inl [])\<rparr>,
      ho_key_path = (\<lambda>_. ''key'')\<rparr>"

definition ex_random :: "nat draws" where
  "ex_random =
     \<lparr>rd_token = replicate 32 7, rd_vault_id = ex_id 4, rd_vault_key = ex_eights, rd_item_id = ex_id 5, rd_op_id = ex_id 6,
      rd_item_key = (\<lambda>_ _. ex_eights), rd_att = ex_dw, rd_account = ex_draws 1, rd_index = 0, rd_now = 100, rd_op_now = 100,
      rd_origin = no_origin, rd_tmp = (\<lambda>_ _. ex_id 8)\<rparr>"

section \<open>It unlocks\<close>

definition ex_open_ses :: live_session where
  "ex_open_ses = session_of ex_open_crypto ex_eights (ex_id 1) ex_eights ex_eights"

lemma ex_key_file: "read_to_string [''key''] (wd_files ex_laptop) = Inr ''LP1-0''"
  by (simp add: ex_laptop_def, code_simp)

lemma ex_key_text: "sk_decode ex_base32 (trim ''LP1-0'') = Inr ex_sk"
proof -
  have body: "strip_prefix SK_PREFIX_TAG (map upper_char (filter (\<lambda>c. \<not> sk_layout c) (trim ''LP1-0''))) = Some ''0''"
    by code_simp
  have size_sk: "length ex_sk = SECRET_KEY_LEN" "length (u32_to_be (sk_crc32 ex_sk)) = 4"
    by (simp_all add: ex_sk_def SECRET_KEY_LEN_def u32_to_be_def)
  show ?thesis
    by (simp add: sk_decode_def body ok_or_def ex_base32_def SK_PAYLOAD_LEN_def size_sk)
qed

lemma ex_load: "wd_files w = wd_files ex_laptop \<Longrightarrow> load_secret_key ex_host p None w = Inr ex_sk"
  using ex_key_file ex_key_text
  by (simp add: load_secret_key_def ex_host_def Let_def) (simp add: ex_daemon_lib_def)

lemma ex_unlocks: "unlocks ex_open_crypto ''pw'' ex_sk ex_acc = Inr ex_open_ses"
  by code_simp

lemma ex_wrong: "unlocks ex_open_crypto ''bad'' ex_sk ex_acc = Inl DecryptionFailed"
  by code_simp

lemma ex_vaults: "list_vaults ex_open_crypto ex_open_ses ex_acc = Inr [(ex_id 3, replicate 32 (CHR 0x08))]"
  by code_simp

definition ex_mail_item :: item where
  "ex_mail_item = \<lparr>it_item_id = ex_item_id, it_current_version = 1, it_created_at = 100, it_updated_at = 100, it_payload = ex_login\<rparr>"

lemma ex_open_vault: "open_vault_key ex_open_crypto ex_open_ses (ex_id 3) ex_acc = Inr ex_eights"
  by code_simp

definition ex_vault_keys :: "nat vault_env" where
  "ex_vault_keys = \<lparr>ve_vault_id = ex_id 3, ve_vault_key = ex_eights, ve_aead = ex_cipher, ve_fresh_item_key = (\<lambda>_ _. ex_eights),
     index_delete = (\<lambda>_ _ ix. Inr ix), index_upsert = (\<lambda>_ _ _ ix. Inr ix)\<rparr>"

lemma ex_vault_keys: "vault_env_of ex_daemon_lib ex_random (ex_id 3) ex_eights = ex_vault_keys"
  by (simp add: vault_env_of_def ex_daemon_lib_def ex_random_def ex_vault_keys_def ex_open_crypto_def)

lemma ex_plaintext: "read_version_plaintext ex_vault_keys ex_held_db ex_item_id 1 = Inr ex_eights"
  by code_simp

lemma ex_rows:
  "db_items ex_held_db = [(as_bytes ex_item_id, \<lparr>ir_current_version = 1, ir_created_at = 100, ir_updated_at = 100\<rparr>)]"
  "db_tombstones ex_held_db = []"
  by (simp_all add: ex_held_db_def empty_vault_def)

lemma ex_decoded: "from_canonical ex_serde_login ex_eights = Inr ex_login"
  by (simp add: from_canonical_def from_canonical_slice_def ex_serde_login_def)

lemma ex_item_slice: "id_from_slice (as_bytes ex_item_id) = Inr ex_item_id"
  by (rule id_from_slice_wf) (simp add: ex_item_id_def id_wf_def ex_id_def)

lemma ex_read: "read_item ex_vault_keys ex_serde_login ex_held_db ex_item_id = Inr ex_mail_item"
  by (simp add: read_item_def ex_rows ex_plaintext ex_decoded ex_mail_item_def ok_or_def)

lemma ex_items: "iter_items ex_vault_keys ex_serde_login ex_held_db = Inr [ex_mail_item]"
  by (simp add: iter_items_def live_rows_def ex_rows ex_item_slice ex_read)

lemma ex_get: "get_item ex_vault_keys ex_serde_login ex_held_db ex_item_id = Inr ex_mail_item"
  by (simp add: get_item_def is_tombstoned_def ex_rows ex_read)

lemma ex_matches: "registrable_domain ''https://example.com'' \<noteq> None \<and> payload_matches_origin ex_login ''https://example.com''"
  by code_simp

section \<open>The unlocked daemon\<close>

definition ex_start :: state where
  "ex_start = new_state ''p'' 0 0"

definition ex_open :: state where
  "ex_open = touch 0 (hold_session ex_open_ses ex_start)"

definition ex_clock :: clock where
  "ex_clock = (\<lambda>_. 0)"

lemmas ex_gates = handle_with_def handle_gated_def same_profile_def sweep_agent_fill_def agent_fill_lapsed_def
  presence_gate_def account_for_def

lemma unlock_dir_result: "fst (unlock_dir L audit ori now pw sk (Some pf)) = unlocks L pw sk (pf_account pf)"
  by (simp add: unlock_dir_def case_prod_beta unlock_inner_result)

lemma ex_unlock_step:
  "\<exists>h w. handle_with ex_host ex_random ex_clock no_context (RqUnlock ''p'' ''pw'' None None) ex_start ex_laptop = (h, ex_open, w)"
proof -
  have key: "load_secret_key ex_host (st_profile ex_start) None ex_laptop = Inr ex_sk"
    by (rule ex_load) simp
  obtain pf where pf: "wd_profile ex_laptop = Some pf" "pf_account pf = ex_acc"
    by (simp add: ex_laptop_def)
  have crypto: "dl_crypto (ho_lib ex_host) = ex_open_crypto"
    by (simp add: ex_host_def ex_daemon_lib_def)
  obtain pf' where "unlock_dir ex_open_crypto True (rd_origin ex_random) (rd_now ex_random) ''pw'' ex_sk (Some pf) = (Inr ex_open_ses, pf')"
    using unlock_dir_result [of ex_open_crypto True "rd_origin ex_random" "rd_now ex_random" "''pw''" ex_sk pf] ex_unlocks pf(2)
    by (metis prod.collapse)
  then have "\<exists>w. handle_unlock ex_host ex_random ''pw'' None None ex_start ex_laptop =
      (reply (RsOk (Some ''unlocked'')), hold_session ex_open_ses ex_start, w)"
    using key pf(1) crypto by (simp add: handle_unlock_def Let_def)
  then obtain w where "handle_unlock ex_host ex_random ''pw'' None None ex_start ex_laptop =
      (reply (RsOk (Some ''unlocked'')), hold_session ex_open_ses ex_start, w)" by blast
  then show ?thesis
    by (simp add: ex_gates ex_open_def ex_clock_def reply_def) (simp add: ex_start_def new_state_def)
qed

lemma ex_open_runs: "daemon_run ex_host ex_open w"
proof -
  have "daemon_run ex_host ex_start ex_laptop"
    unfolding ex_start_def by (rule started)
  then have "\<exists>w. daemon_run ex_host ex_open w"
    using handled [of ex_host ex_start ex_laptop ex_random ex_clock no_context] ex_unlock_step
    by (force simp: ex_random_def)
  then show ?thesis
    using elsewhere by blast
qed

section \<open>Instances: presence\<close>

lemma handle_exists: "\<exists>h st' w'. handle_with H dr ck ctx req st w = (h, st', w')"
  by (metis prod_cases3)

definition ex_agent :: state where
  "ex_agent = ex_open\<lparr>st_agent_sessions := 1\<rparr>"

definition agent_context :: request_context where
  "agent_context = \<lparr>rc_agent_connection = True, rc_presence_grant = None\<rparr>"

lemma ex_open_simps [simp]:
  "st_session ex_open = Some ex_open_ses" "st_agent_sessions ex_open = 0" "st_agent_fill ex_open = None"
  "st_profile ex_open = ''p''" "st_presence_grants ex_open = []" "st_presence_failures ex_open = 0"
  "st_pending_fill ex_open = None" "st_pairing_mode_until ex_open = None" "st_presence_ttl ex_open = PRESENCE_GRANT_SECS * NANOS"
  "st_agent_fill_window ex_open = AGENT_FILL_WINDOW" "st_fill_intent_ttl ex_open = FILL_INTENT_TTL"
  by (simp_all add: ex_open_def ex_start_def new_state_def touch_def hold_session_def lock_def)

lemma ex_agent_runs: "daemon_run ex_host ex_agent w"
proof -
  have "handle_with ex_host ex_random ex_clock no_context (RqBeginAgentSession ''p'') ex_open w =
      ((reply (RsOk (Some ''agent session'')))\<lparr>hd_began_agent_session := True\<rparr>, ex_agent, w)"
    by (simp add: ex_gates handle_begin_agent_session_def reply_def ex_agent_def no_context_def)
  then show ?thesis
    by (rule handled [OF ex_open_runs, rotated]) (simp add: ex_random_def)
qed

lemma agent_needs_a_person_witness:
  "\<exists>h st' w'. handle_with ex_host ex_random ex_clock agent_context (RqDeleteVault ''p'' ''v'') ex_agent ex_laptop = (h, st', w') \<and>
     (h = reply (RsPresenceRequired (rq_kind (RqDeleteVault ''p'' ''v''))) \<or> h = reply (RsWrongProfile ''p'')) \<and>
     same_standing ex_agent st' \<and> audit_only ex_laptop w'"
proof -
  obtain h st' w' where run: "handle_with ex_host ex_random ex_clock agent_context (RqDeleteVault ''p'' ''v'') ex_agent ex_laptop = (h, st', w')"
    using handle_exists by blast
  have "needs_presence (RqDeleteVault ''p'' ''v'')" "agent_session_active ex_agent" "is_unlocked ex_agent"
    "rc_agent_connection agent_context" "st_profile ex_agent = ''p''"
    by (simp_all add: agent_session_active_def is_unlocked_def ex_agent_def agent_context_def)
  then show ?thesis
    using agent_needs_a_person [OF ex_agent_runs _ _ _ _ run] run by auto
qed

lemma ex_grant:
  "\<exists>h st' w'. handle_with ex_host ex_random ex_clock no_context (RqConfirmPresence ''p'' ''pw'') ex_open ex_laptop = (h, st', w') \<and>
     st_presence_grants st' = [\<lparr>gr_token = rd_token ex_random, gr_expires_at = PRESENCE_GRANT_SECS * NANOS\<rparr>]"
proof -
  have key: "load_secret_key ex_host ''p'' None ex_laptop = Inr ex_sk"
    by (rule ex_load) simp
  obtain pf where pf: "wd_profile ex_laptop = Some pf" "pf_account pf = ex_acc"
    by (simp add: ex_laptop_def)
  obtain pf' where "unlock_dir ex_open_crypto False (rd_origin ex_random) (rd_now ex_random) ''pw'' ex_sk (Some pf) = (Inr ex_open_ses, pf')"
    using unlock_dir_result [of ex_open_crypto False "rd_origin ex_random" "rd_now ex_random" "''pw''" ex_sk pf] ex_unlocks pf(2)
    by (metis prod.collapse)
  moreover have "dl_crypto (ho_lib ex_host) = ex_open_crypto"
    by (simp add: ex_host_def ex_daemon_lib_def)
  ultimately show ?thesis
    using key pf(1)
    by (simp add: ex_gates handle_confirm_presence_def Let_def no_context_def is_unlocked_def issue_presence_grant_def
        live_grants_def reply_def ex_clock_def touch_def MAX_PRESENCE_GRANTS_def)
qed

lemma grants_need_the_password_witness:
  "\<exists>h st' w' g. handle_with ex_host ex_random ex_clock no_context (RqConfirmPresence ''p'' ''pw'') ex_open ex_laptop = (h, st', w') \<and>
     g \<in> set (st_presence_grants st') \<and> gr_token g = rd_token ex_random"
proof -
  obtain h st' w' where run: "handle_with ex_host ex_random ex_clock no_context (RqConfirmPresence ''p'' ''pw'') ex_open ex_laptop = (h, st', w')"
    and grants: "st_presence_grants st' = [\<lparr>gr_token = rd_token ex_random, gr_expires_at = PRESENCE_GRANT_SECS * NANOS\<rparr>]"
    using ex_grant by blast
  let ?g = "\<lparr>gr_token = rd_token ex_random, gr_expires_at = PRESENCE_GRANT_SECS * NANOS\<rparr>"
  have "gr_token ?g = rd_token ex_random"
    using grants_need_the_password [OF run, of ?g] grants by auto
  then show ?thesis using run grants by auto
qed

lemma locked_daemon_serves_nothing_witness:
  "\<exists>h st' w'. handle_with ex_host ex_random ex_clock no_context (RqListVaults ''p'') ex_start ex_laptop = (h, st', w') \<and>
     st_session st' = None \<and> audit_only ex_laptop w' \<and> hd_deferred h = None"
proof -
  obtain h st' w' where run: "handle_with ex_host ex_random ex_clock no_context (RqListVaults ''p'') ex_start ex_laptop = (h, st', w')"
    using handle_exists by blast
  then show ?thesis
    using locked_daemon_serves_nothing [OF _ run] by (simp add: ex_start_def new_state_def)
qed

definition ex_timed :: state where
  "ex_timed = ex_open\<lparr>st_autolock := 5\<rparr>"

lemma quiet_traffic_never_holds_open_witness:
  "\<exists>resp st' w'. serve_all ex_host [(ex_random, ex_clock, no_context, RqStatus ''p'' False)] ex_timed ex_laptop =
       ([(RqStatus ''p'' False, resp)], st', w') \<and>
     is_unlocked ex_timed \<and> \<not> is_unlocked (snd (maybe_autolock 5 st'))"
proof -
  obtain h st' w' where "handle_with ex_host ex_random ex_clock no_context (RqStatus ''p'' False) ex_timed ex_laptop = (h, st', w')"
    using handle_exists by blast
  then have run: "serve_all ex_host [(ex_random, ex_clock, no_context, RqStatus ''p'' False)] ex_timed ex_laptop =
      ([(RqStatus ''p'' False, hd_response h)], st', w')" by simp
  moreover have "st_last_activity ex_timed = 0" by (simp add: ex_timed_def ex_open_def touch_def)
  then have due: "st_autolock ex_timed \<noteq> 0" "st_last_activity ex_timed + st_autolock ex_timed \<le> 5"
    by (simp_all add: ex_timed_def)
  have "\<forall>(req, resp)\<in>set [(RqStatus ''p'' False, hd_response h)]. quiet req resp" by (simp add: quiet_def)
  from quiet_traffic_never_holds_open [OF run this, of 5] due
  have "\<not> is_unlocked (snd (maybe_autolock 5 st'))" by blast
  ultimately show ?thesis by (simp add: is_unlocked_def ex_timed_def)
qed

section \<open>Instances: wrong passwords\<close>

lemma unlocks_forget: "acc\<lparr>ac_audit := []\<rparr> = acc'\<lparr>ac_audit := []\<rparr> \<Longrightarrow> unlocks L pw sk acc = unlocks L pw sk acc'"
  by (cases acc; cases acc') (simp add: unlocks_def)

lemma unlock_failed_audit_only:
  assumes "unlocks L pw sk acc = Inl e"
  shows "(snd (unlock_inner L audit ori now pw sk acc))\<lparr>ac_audit := []\<rparr> = acc\<lparr>ac_audit := []\<rparr>"
proof -
  have "(best_effort (record_unlock_failure L ori now) acc)\<lparr>ac_audit := []\<rparr> = acc\<lparr>ac_audit := []\<rparr>"
    by (auto simp: best_effort_def record_unlock_failure_def bind_ok_Inr_iff split: sum.split dest: record_audit_only)
  then show ?thesis
    using unlock_inner_state [of L audit ori now pw sk acc] assms by auto
qed

lemma forget_account:
  "forget_audit pf = forget_audit pf' \<Longrightarrow> (pf_account pf)\<lparr>ac_audit := []\<rparr> = (pf_account pf')\<lparr>ac_audit := []\<rparr>"
  by (drule arg_cong [of _ _ pf_account]) (simp add: forget_audit_def)

definition ex_failed :: "u32 \<Rightarrow> state" where
  "ex_failed k = ex_open\<lparr>st_presence_failures := k\<rparr>"

definition ex_bad :: "nat draws \<times> clock \<times> request_context \<times> request" where
  "ex_bad = (ex_random, ex_clock, no_context, RqConfirmPresence ''p'' ''bad'')"

lemma ex_bad_step:
  assumes w: "audit_only ex_laptop w"
  shows "\<exists>h m w'. handle_with ex_host ex_random ex_clock no_context (RqConfirmPresence ''p'' ''bad'') (ex_failed k) w =
     (h, if MAX_PRESENCE_FAILURES \<le> k + 1 then lock (ex_failed (k + 1)) else ex_failed (k + 1), w') \<and>
     hd_response h = RsError True m \<and> audit_only ex_laptop w'"
proof -
  obtain pf where pf: "wd_profile w = Some pf" "(pf_account pf)\<lparr>ac_audit := []\<rparr> = ex_acc\<lparr>ac_audit := []\<rparr>"
    using w by (cases "wd_profile w") (auto simp: audit_only_def ex_laptop_def dest: forget_account)
  let ?u = "unlock_dir ex_open_crypto False (rd_origin ex_random) (rd_now ex_random) ''bad'' ex_sk (Some pf)"
  have wrong: "unlocks ex_open_crypto ''bad'' ex_sk (pf_account pf) = Inl DecryptionFailed"
    using unlocks_forget [OF pf(2)] ex_wrong by simp
  then have result: "fst ?u = Inl DecryptionFailed" by (simp add: unlock_dir_result)
  have key: "load_secret_key ex_host ''p'' None w = Inr ex_sk"
    using w by (intro ex_load) (simp add: audit_only_def)
  have "audit_only w (w\<lparr>wd_profile := snd ?u\<rparr>)"
    using unlock_failed_audit_only [OF wrong] pf(1)
    by (simp add: audit_only_def unlock_dir_def case_prod_beta forget_audit_def)
  then have "audit_only ex_laptop (w\<lparr>wd_profile := snd ?u\<rparr>)"
    using audit_only_trans [OF w] by blast
  moreover have "dl_crypto (ho_lib ex_host) = ex_open_crypto"
    by (simp add: ex_host_def ex_daemon_lib_def)
  ultimately show ?thesis
    using key pf(1) result audit_only_trans [OF _ record_denied_reason_audit_only]
    by (cases ?u) (simp add: ex_gates handle_confirm_presence_def Let_def no_context_def is_unlocked_def ex_failed_def reply_def)
qed

lemma five_wrong_passwords_lock_witness:
  "\<exists>log st' w'. serve_all ex_host (replicate 5 ex_bad) ex_open ex_laptop = (log, st', w') \<and>
     length log = 5 \<and> is_unlocked ex_open \<and> \<not> is_unlocked st'"
proof -
  have small: "\<not> MAX_PRESENCE_FAILURES \<le> 1" "\<not> MAX_PRESENCE_FAILURES \<le> 2" "\<not> MAX_PRESENCE_FAILURES \<le> 3"
    "\<not> MAX_PRESENCE_FAILURES \<le> 4" by (simp_all add: MAX_PRESENCE_FAILURES_def word_le_nat_alt)
  obtain h1 m1 w1 where 1: "handle_with ex_host ex_random ex_clock no_context (RqConfirmPresence ''p'' ''bad'') (ex_failed 0) ex_laptop =
      (h1, ex_failed 1, w1)" "hd_response h1 = RsError True m1" "audit_only ex_laptop w1"
    using ex_bad_step [of ex_laptop 0] small by auto
  obtain h2 m2 w2 where 2: "handle_with ex_host ex_random ex_clock no_context (RqConfirmPresence ''p'' ''bad'') (ex_failed 1) w1 =
      (h2, ex_failed 2, w2)" "hd_response h2 = RsError True m2" "audit_only ex_laptop w2"
    using ex_bad_step [OF 1(3), of 1] small by auto
  obtain h3 m3 w3 where 3: "handle_with ex_host ex_random ex_clock no_context (RqConfirmPresence ''p'' ''bad'') (ex_failed 2) w2 =
      (h3, ex_failed 3, w3)" "hd_response h3 = RsError True m3" "audit_only ex_laptop w3"
    using ex_bad_step [OF 2(3), of 2] small by auto
  obtain h4 m4 w4 where 4: "handle_with ex_host ex_random ex_clock no_context (RqConfirmPresence ''p'' ''bad'') (ex_failed 3) w3 =
      (h4, ex_failed 4, w4)" "hd_response h4 = RsError True m4" "audit_only ex_laptop w4"
    using ex_bad_step [OF 3(3), of 3] small by auto
  obtain h5 m5 st5 w5 where 5: "handle_with ex_host ex_random ex_clock no_context (RqConfirmPresence ''p'' ''bad'') (ex_failed 4) w4 =
      (h5, st5, w5)" "hd_response h5 = RsError True m5"
    using ex_bad_step [OF 4(3), of 4] by blast
  have "ex_failed 0 = ex_open"
    by (simp add: ex_failed_def ex_open_def touch_def hold_session_def lock_def ex_start_def new_state_def)
  then have run: "serve_all ex_host (replicate 5 ex_bad) ex_open ex_laptop =
      (map (\<lambda>h. (RqConfirmPresence ''p'' ''bad'', hd_response h)) [h1, h2, h3, h4, h5], st5, w5)"
    using 1(1) 2(1) 3(1) 4(1) 5(1) by (simp add: ex_bad_def numeral_eq_Suc)
  have "\<not> is_unlocked st5"
    using five_wrong_passwords_lock [OF ex_open_runs run] 1(2) 2(2) 3(2) 4(2) 5(2) by simp
  then show ?thesis using run by (simp add: is_unlocked_def)
qed

section \<open>Instances: filling\<close>

lemma ex_laptop_profile: "wd_profile ex_laptop = Some \<lparr>pf_account = ex_acc, pf_vaults = [(as_bytes (ex_id 3), ex_held_db)]\<rparr>"
  by (simp add: ex_laptop_def)

lemma ex_lib_selects:
  "ho_lib ex_host = ex_daemon_lib" "dl_crypto ex_daemon_lib = ex_open_crypto" "dl_serde ex_daemon_lib = ex_serde_login"
  "dl_ship ex_daemon_lib = ex_ship_lib"
  by (simp_all add: ex_host_def ex_daemon_lib_def)

lemma ex_session_vaults:
  "session_vaults ex_daemon_lib ex_open_ses ex_laptop = (Inr [(ex_id 3, replicate 32 (CHR 0x08))], ex_laptop)"
  by (simp add: session_vaults_def ask_profile_def ex_lib_selects ex_laptop_profile ex_vaults)

lemma ex_vault_at: "vault_at \<lparr>pf_account = ex_acc, pf_vaults = [(as_bytes (ex_id 3), ex_held_db)]\<rparr> (ex_id 3) = Inr ex_held_db"
  by (simp add: vault_at_def ok_or_def)

lemma ex_open_id: "open_vault_id ex_daemon_lib ex_random ex_open_ses (ex_id 3) ex_laptop = (Inr ex_vault_keys, ex_laptop)"
  by (simp add: open_vault_id_def ask_profile_def ex_lib_selects ex_laptop_profile ex_open_vault ex_vault_at ex_vault_keys)

lemma ex_ask: "ask_db ex_daemon_lib ex_vault_keys f ex_laptop = (map_err (vault_err ex_daemon_lib) (f ex_held_db), ex_laptop)"
proof -
  have "ve_vault_id ex_vault_keys = ex_id 3" by (simp add: ex_vault_keys_def)
  then show ?thesis by (simp add: ask_db_def ask_profile_def ex_laptop_profile ex_vault_at)
qed

lemma ex_lookup: "lookup_item ex_daemon_lib ex_vault_keys ex_item_id ex_laptop = (Inr ex_mail_item, ex_laptop)"
  by (simp add: lookup_item_def ex_ask ex_lib_selects ex_get)

lemma ex_mail: "parse_hex_id ''mail'' = None"
  by (simp add: parse_hex_id_def Let_def)

lemma ex_item_facts:
  "it_payload ex_mail_item = ex_login" "it_item_id ex_mail_item = ex_item_id" "p_title ex_login = ''mail''" "is_login ex_login"
  by (simp_all add: ex_mail_item_def ex_login_def item_payload_new_def is_login_def)

lemma ex_locate: "locate_for_fill ex_daemon_lib ex_random ex_open_ses ''mail'' [(ex_id 3, name)] ex_laptop =
    (Inr (Some (ex_mail_item, ex_id 3)), ex_laptop)"
  by (simp add: io_bind_def io_ok_def ex_open_id by_id_def ex_mail ex_ask ex_lib_selects ex_items ex_item_facts ex_lookup)

lemma ex_fill: "\<exists>w. fill_login ex_daemon_lib ex_random ex_open_ses ''mail'' ''https://example.com'' ex_laptop =
    (Inr (RsFill (login_username ex_login) (login_password ex_login)), w)"
  using ex_matches
  by (simp add: fill_login_def io_bind_def io_ok_def ex_session_vaults ex_locate release_login_def ex_item_facts io_log_def del: locate_for_fill.simps)

lemma password_released_to_its_site_only_witness:
  "\<exists>h st' w' v it url. handle_with ex_host ex_random ex_clock no_context (RqFillLogin ''p'' ''mail'' ''https://example.com'') ex_open ex_laptop =
       (h, st', w') \<and> hd_response h = RsFill (login_username ex_login) (login_password ex_login) \<and>
     held_item ex_daemon_lib ex_random ex_open_ses ex_laptop v it \<and> url \<in> set (payload_urls (it_payload it)) \<and>
     url_matches_origin url ''https://example.com''"
proof -
  obtain w where fill: "fill_login ex_daemon_lib ex_random ex_open_ses ''mail'' ''https://example.com'' ex_laptop =
      (Inr (RsFill (login_username ex_login) (login_password ex_login)), w)"
    using ex_fill by blast
  have "\<exists>h st' w'. handle_with ex_host ex_random ex_clock no_context (RqFillLogin ''p'' ''mail'' ''https://example.com'') ex_open ex_laptop =
      (h, st', w') \<and> hd_response h = RsFill (login_username ex_login) (login_password ex_login)"
    using fill by (simp add: ex_gates with_session_def either_response_def reply_def ex_lib_selects)
  then obtain h st' w' where run: "handle_with ex_host ex_random ex_clock no_context (RqFillLogin ''p'' ''mail'' ''https://example.com'')
      ex_open ex_laptop = (h, st', w')" and answer: "hd_response h = RsFill (login_username ex_login) (login_password ex_login)"
    by blast
  from password_released_to_its_site_only [OF run answer] obtain v it url where
    "held_item ex_daemon_lib ex_random ex_open_ses ex_laptop v it" "url \<in> set (payload_urls (it_payload it))"
    "url_matches_origin url ''https://example.com''"
    unfolding ex_lib_selects by auto
  then show ?thesis using run answer by blast
qed

definition ex_mail_id :: string where
  "ex_mail_id = to_hyphenated ex_ship_lib ex_item_id"

definition ex_scoped :: state where
  "ex_scoped = touch 0 (set_agent_fill_mode 0 True [ex_mail_id] ex_open)"

definition ex_armed :: state where
  "ex_armed = touch 0 (snd (arm_fill_intent 0 ex_mail_id None ''https://example.com'' False ex_scoped))"

lemma ex_resolve_login:
  "resolve_login_item ex_daemon_lib ex_random ex_open_ses ''mail'' None ex_laptop = (Inr (Inr ex_mail_item), ex_laptop)"
  by (simp add: resolve_login_item_def locate_item_def io_bind_def io_ok_def ex_session_vaults ex_open_id by_id_def ex_mail
      ex_ask ex_lib_selects ex_items ex_item_facts ex_lookup)

lemma ex_scoped_step:
  "\<exists>h w. handle_with ex_host ex_random ex_clock no_context (RqSetAgentFillMode ''p'' True [''mail''] None) ex_open ex_laptop =
     (h, ex_scoped, w)"
proof -
  have "resolve_armed ex_daemon_lib ex_random ex_open_ses None [''mail''] [] ex_laptop = (Inr (Inr [ex_mail_id]), ex_laptop)"
    by (simp add: io_bind_def io_ok_def ex_resolve_login ex_item_facts ex_lib_selects ex_mail_id_def)
  then show ?thesis
    by (simp add: ex_gates handle_set_agent_fill_mode_def reply_def ex_lib_selects ex_scoped_def ex_clock_def bs_of_list_def
        bs_insert_def insort_insert_key_def agent_session_active_def)
qed

lemma ex_scoped_fields [simp]:
  "st_session ex_scoped = Some ex_open_ses" "st_agent_sessions ex_scoped = 0" "st_profile ex_scoped = ''p''"
  "st_agent_fill ex_scoped = Some \<lparr>aw_until = AGENT_FILL_WINDOW, aw_items = [ex_mail_id]\<rparr>"
  by (simp_all add: ex_scoped_def touch_def set_agent_fill_mode_def)

lemma ex_windows: "0 < AGENT_FILL_WINDOW" "0 < FILL_INTENT_TTL"
  by (simp_all add: AGENT_FILL_WINDOW_def FILL_INTENT_TTL_def NANOS_def)

abbreviation ex_arm_request :: request where
  "ex_arm_request \<equiv> RqArmFillIntent ''p'' ''mail'' None ''https://example.com'' False None"

lemma ex_armed_step:
  "\<exists>h secs w. handle_with ex_host ex_random ex_clock no_context ex_arm_request ex_scoped ex_laptop = (h, ex_armed, w) \<and>
     hd_response h = RsFillIntentArmed secs ex_mail_id"
proof -
  obtain d where site: "registrable_domain ''https://example.com'' = Some d"
    using ex_matches by blast
  have "handle_arm_fill_intent ex_daemon_lib ex_random ex_clock ''mail'' None ''https://example.com'' False None ex_scoped ex_laptop =
      (reply (RsFillIntentArmed (as_secs (st_fill_intent_ttl ex_scoped)) ex_mail_id),
       snd (arm_fill_intent 0 ex_mail_id None ''https://example.com'' False ex_scoped), ex_laptop)"
    using ex_matches ex_windows
    by (simp add: handle_arm_fill_intent_def agent_fill_active_def ex_resolve_login ex_item_facts ex_lib_selects ex_clock_def
        ex_mail_id_def [symmetric] agent_fill_covers_def arm_fill_intent_def Let_def site)
  then show ?thesis
    using ex_windows by (simp add: ex_gates ex_lib_selects reply_def ex_armed_def ex_clock_def)
qed

lemma ex_armed_runs: "daemon_run ex_host ex_armed w"
proof -
  have token: "length (rd_token ex_random) = 32" by (simp add: ex_random_def)
  obtain h w1 where "handle_with ex_host ex_random ex_clock no_context (RqSetAgentFillMode ''p'' True [''mail''] None) ex_open ex_laptop =
      (h, ex_scoped, w1)" using ex_scoped_step by blast
  then have "daemon_run ex_host ex_scoped w1" by (rule handled [OF ex_open_runs token])
  then have scoped: "daemon_run ex_host ex_scoped ex_laptop" by (rule elsewhere)
  obtain h2 w2 where "handle_with ex_host ex_random ex_clock no_context ex_arm_request ex_scoped ex_laptop = (h2, ex_armed, w2)"
    using ex_armed_step by blast
  then have "daemon_run ex_host ex_armed w2" by (rule handled [OF scoped token])
  then show ?thesis by (rule elsewhere)
qed

lemma armed_intent_passed_the_gates_witness:
  "\<exists>it w1 w2. resolve_login_item ex_daemon_lib ex_random ex_open_ses ''mail'' None w1 = (Inr (Inr it), w2) \<and>
     audit_only ex_laptop w1 \<and> ex_mail_id = to_hyphenated ex_ship_lib (it_item_id it) \<and>
     payload_matches_origin (it_payload it) ''https://example.com''"
proof -
  obtain h secs w where run: "handle_with ex_host ex_random ex_clock no_context ex_arm_request ex_scoped ex_laptop = (h, ex_armed, w)"
    and answer: "hd_response h = RsFillIntentArmed secs ex_mail_id"
    using ex_armed_step by blast
  from armed_intent_passed_the_gates [OF run answer] show ?thesis
    unfolding ex_lib_selects by auto
qed

lemma ex_armed_fields [simp]:
  "st_session ex_armed = Some ex_open_ses" "st_agent_sessions ex_armed = 0" "st_profile ex_armed = ''p''"
  "st_agent_fill ex_armed = Some \<lparr>aw_until = AGENT_FILL_WINDOW, aw_items = [ex_mail_id]\<rparr>"
  "st_pending_fill ex_armed = Some \<lparr>pf_item_id = ex_mail_id, pf_tab_id = None, pf_origin = ''https://example.com'',
     pf_overwrite = False, pf_expires_at = FILL_INTENT_TTL, pf_taken = False, pf_report = None\<rparr>"
  by (simp_all add: ex_armed_def arm_fill_intent_def touch_def)
    (simp add: ex_scoped_def touch_def set_agent_fill_mode_def)

lemma ex_take_step:
  "\<exists>h st1 w1 secs. handle_with ex_host ex_random ex_clock no_context (RqTakeFillIntent ''p'') ex_armed ex_laptop = (h, st1, w1) \<and>
     hd_response h = RsFillIntent ex_mail_id None ''https://example.com'' secs False"
  using ex_windows
  by (simp add: ex_gates ex_clock_def handle_take_fill_intent_def take_fill_intent_def is_unlocked_def reply_def)

lemma fill_intent_in_scope_witness:
  "\<exists>h st' w'. handle_with ex_host ex_random ex_clock no_context (RqTakeFillIntent ''p'') ex_armed ex_laptop = (h, st', w') \<and>
     is_unlocked ex_armed \<and> (\<exists>aw. st_agent_fill ex_armed = Some aw \<and> 0 < aw_until aw \<and> ex_mail_id \<in> set (aw_items aw))"
proof -
  obtain h st' w' secs where run: "handle_with ex_host ex_random ex_clock no_context (RqTakeFillIntent ''p'') ex_armed ex_laptop = (h, st', w')"
    and answer: "hd_response h = RsFillIntent ex_mail_id None ''https://example.com'' secs False"
    using ex_take_step by blast
  from fill_intent_in_scope [OF ex_armed_runs run answer] show ?thesis
    using run by (auto simp: ex_clock_def)
qed

lemma fill_intent_redeemed_once_witness:
  "\<exists>h st1 w1 h' st2 w2 h'' st3 w3.
     handle_with ex_host ex_random ex_clock no_context (RqTakeFillIntent ''p'') ex_armed ex_laptop = (h, st1, w1) \<and>
     handle_with ex_host ex_random ex_clock no_context (RqStatus ''p'' True) st1 w1 = (h', st2, w2) \<and>
     handle_with ex_host ex_random ex_clock no_context (RqTakeFillIntent ''p'') st2 w2 = (h'', st3, w3) \<and>
     hd_response h'' \<in> {RsNoFillIntent, RsLocked, RsWrongProfile (st_profile st2)}"
proof -
  obtain h st1 w1 secs where taken: "handle_with ex_host ex_random ex_clock no_context (RqTakeFillIntent ''p'') ex_armed ex_laptop = (h, st1, w1)"
    and answer: "hd_response h = RsFillIntent ex_mail_id None ''https://example.com'' secs False"
    using ex_take_step by blast
  obtain h' st2 w2 where asked: "handle_with ex_host ex_random ex_clock no_context (RqStatus ''p'' True) st1 w1 = (h', st2, w2)"
    using handle_exists by blast
  then have between: "serve_all ex_host [(ex_random, ex_clock, no_context, RqStatus ''p'' True)] st1 w1 =
      ([(RqStatus ''p'' True, hd_response h')], st2, w2)" by simp
  obtain h'' st3 w3 where again: "handle_with ex_host ex_random ex_clock no_context (RqTakeFillIntent ''p'') st2 w2 = (h'', st3, w3)"
    using handle_exists by blast
  have "hd_response h'' \<in> {RsNoFillIntent, RsLocked, RsWrongProfile (st_profile st2)}"
    by (rule fill_intent_redeemed_once [OF taken answer between _ again]) simp
  then show ?thesis using taken asked again by blast
qed

lemma daemon_always_consistent_witness:
  "locked_holds_nothing ex_armed \<and> intent_scoped ex_armed \<and> grants_bounded ex_armed"
  by (rule daemon_always_consistent [OF ex_armed_runs [of ex_laptop]])

section \<open>Instances: trusting a device\<close>

definition ex_pairing :: state where
  "ex_pairing = ex_open\<lparr>st_pairing_mode_until := Some 100\<rparr>"

abbreviation ex_finger :: string where
  "ex_finger \<equiv> fingerprint (cl_blake3 ex_open_crypto) ex_identity"

lemma ex_finger_shown: "trim ex_finger \<noteq> []"
  by code_simp

lemma trust_takes_the_ceremony_witness:
  "\<exists>h st' w' device. handle_with ex_host ex_random ex_clock no_context
       (RqTrustDevice ''p'' (to_export_string ex_identity) ex_finger None) ex_pairing ex_laptop = (h, st', w') \<and>
     hd_response h = RsPeerTrusted device ex_finger None \<and>
     (audit_only ex_laptop w' \<or> (\<exists>pf. wd_profile ex_laptop = Some pf \<and>
        audit_only (ex_laptop\<lparr>wd_profile := Some (pinned ex_identity 100 None pf)\<rparr>) w'))"
proof -
  let ?req = "RqTrustDevice ''p'' (to_export_string ex_identity) ex_finger None"
  have parsed: "from_export_string (to_export_string ex_identity) = Inr ex_identity"
    by (rule printed_parses [OF ex_identity_ok])
  have "\<exists>h st' w' device. handle_with ex_host ex_random ex_clock no_context ?req ex_pairing ex_laptop = (h, st', w') \<and>
      hd_response h = RsPeerTrusted device ex_finger None"
    using ex_finger_shown
    by (simp add: ex_gates handle_trust_device_def pairing_mode_active_def ex_pairing_def ex_clock_def with_session_def
        trust_device_def parsed ex_lib_selects Let_def fingerprint_matches_def ex_laptop_profile either_response_def reply_def
        agent_session_active_def)
  then obtain h st' w' device where run: "handle_with ex_host ex_random ex_clock no_context ?req ex_pairing ex_laptop = (h, st', w')"
    and answer: "hd_response h = RsPeerTrusted device ex_finger None"
    by blast
  from trust_takes_the_ceremony [OF run] show ?thesis
    using run answer parsed by (fastforce simp: ex_random_def)
qed

end
