(* ===== verification/Spec2Isabelle.thy ===== *)
theory Spec2Isabelle
  imports Verify Merge Aad Foreign Store Prune LogView Ingest Shipping AccountSpec AttachSpec EngineSpec DaemonFill DaemonEx
begin

text \<open>
  LocalPass: the core of a local-first password manager.

  A vault is a SQLite file whose rows are encrypted item versions and whose history is a log of
  signed, hash-chained ops, one chain per device. Devices exchange ops through files on a dumb channel;
  what a device shows is the deterministic merge of all the ops it holds. An account store beside the
  vaults keeps the device identity, the wrapped vault keys, the pinned peers and a hash-chained audit
  log. The library models these parts as they are written under \<open>src/crates/\<close> and proves what each
  promises, and what they promise together.

  Conventions. A Rust struct is a \<open>record\<close>, an enum a \<open>datatype\<close>; \<open>Vec<u8>\<close> and \<open>[u8; n]\<close> are lists of
  8-bit words, integers keep their width, so that additions wrap or are checked as in the source.
  \<open>Result<T, E>\<close> is \<open>'e + 'a\<close> with the error on the left and \<open>?\<close> is \<open>bind_ok\<close> (\<open>Prelude\<close>). Code that can
  fail after it has written something threads its state through \<open>Effects\<close> (\<open>io_bind\<close>, \<open>io_try\<close>), which
  keeps the state reached beside the error; a SQLite transaction returns the new tables only with
  \<open>Inr\<close>, which is its roll-back. A \<open>String\<close> is its UTF-8 bytes (\<open>Text\<close>), \<open>BTreeMap\<close> a list sorted by
  key (\<open>Btree_Map\<close>).

  Parameters. What is not under \<open>src/\<close> is an argument of the definitions: BLAKE3 (\<open>h\<close>), Ed25519
  signing and verification, the AEAD, HKDF, Argon2id and X25519, the serde JSON text of payloads and
  manifests, the text form of UUIDs, the search index of a vault and the store factory of the host.
  Theorems name the law they need (a signature made verifies, an opened box is one that was sealed,
  decoding what was encoded) as hypotheses, and their witnesses instantiate every parameter. Hash
  functions are never assumed injective: a theorem that needs it concludes "or here is a collision".
  Clocks, random draws and the operating system's answers are arguments too, so a theorem holds for
  every value of them.

  The theories, from the bottom up, and the code each models:

  \<^item> \<open>Prelude\<close>, \<open>Text\<close>, \<open>Btree_Map\<close>, \<open>Effects\<close>, \<open>Reader\<close>: what the components share. \<open>Reader\<close> holds the
    locale of forward-only cursors that the wire codecs interpret.
  \<^item> \<open>Errors\<close>: the error enums of \<open>lp-crypto\<close>, \<open>lp-vault\<close> and \<open>lp-sync\<close>.
  \<^item> \<open>Sign\<close>, \<open>Keys\<close>, \<open>Kdf\<close> (\<open>lp-crypto\<close>): context-separated signatures, the ciphertext envelope, key
    wrapping, derivation, sealed messages.
  \<^item> \<open>Op\<close>, \<open>Wire\<close> (\<open>lp-vault/src/op.rs\<close>, \<open>lp-sync/src/wire.rs\<close>): ops, their signed region and the segment
    codec. Lemmas: decoding accepts exactly the encodings, the signed region determines the op.
  \<^item> \<open>Verify\<close> (\<open>lp-sync/src/verify.rs\<close>): the per-device verifier of a foreign batch, an explicit scan over
    sequence numbers. Lemmas: soundness (signed, chained), completeness on honest chains, agreement.
  \<^item> \<open>Payload\<close>, \<open>Merge\<close> (\<open>payload.rs\<close>, \<open>canonical.rs\<close>, \<open>lp-sync/src/merge.rs\<close>): item payloads and the
    deterministic merge. Lemmas: independence of arrival order, what versions and tombstones it yields.
  \<^item> \<open>Aad\<close> (\<open>aad.rs\<close>): the associated data of each row; it identifies row and kind.
  \<^item> \<open>VaultFile\<close>, \<open>Foreign\<close>, \<open>Author\<close>, \<open>Items\<close> (\<open>db.rs\<close>, \<open>foreign.rs\<close>, \<open>vault.rs\<close>): the tables of a vault,
    the transaction that applies a merge, op authoring, and the item operations. \<open>ItemsInv\<close> keeps the
    invariant of a vault file along every sequence of operations; \<open>ItemSpec\<close> gives the abstract vault
    (payloads by version, head, trash flag) that the operations refine; \<open>Prune\<close> states what pruning
    and purging remove; \<open>LogView\<close> shows that a local write leaves the tables equal to the merge of the log.
  \<^item> \<open>Attach\<close>, \<open>AttachSpec\<close> (\<open>attachment.rs\<close>): attachments and their content-addressed blobs.
  \<^item> \<open>AuditLog\<close>, \<open>Account\<close>, \<open>Share\<close>, \<open>AccountInv\<close>, \<open>AccountSpec\<close> (\<open>audit.rs\<close>, \<open>account.rs\<close>): the audit chain, the
    account store as a state machine with its reachable states, and sharing vault keys between devices.
  \<^item> \<open>Store\<close>, \<open>Shipping\<close> (\<open>store.rs\<close>, \<open>shipping.rs\<close>): the channel as an interface (the locale of stores,
    interpreted on the filesystem backend) and the layout of a vault's directory on it. The atomic write
    is one definition over its two system calls; besides the backend it is run on histories of
    filesystems in which a write is a step per byte and may run out of space, and shown to be atomic
    to every reader of every one of them (a crash of the process; the loss of unsynced data in a crash
    of the machine is not modelled).
  \<^item> \<open>Ingest\<close>, \<open>Engine\<close>, \<open>EngineSpec\<close> (\<open>lp-sync/src/engine.rs\<close>): verify, merge and apply a batch; push, pull,
    status, enrolment and adoption. \<open>Ingest\<close> shows that two devices with the same log show the same vault.
  \<^item> \<open>Origin\<close>, \<open>Identity\<close>, \<open>SecretKey\<close>, \<open>Announce\<close>, \<open>Messages\<close> (\<open>lp-daemon/src/origin.rs\<close>,
    \<open>lp-sync/src/identity.rs\<close>, \<open>secretkey.rs\<close>, \<open>announce.rs\<close>, the \<open>Display\<close> texts of the error enums): the texts
    the daemon reads and shows. Lemmas: which page a stored URL matches, a printed identity parses back and a
    mistyped one does not become another.
  \<^item> \<open>Protocol\<close>, \<open>DaemonState\<close>, \<open>Render\<close> (\<open>protocol.rs\<close>, the \<open>State\<close> of \<open>engine.rs\<close>, \<open>render.rs\<close>): requests, responses,
    the state behind the daemon's mutex with its windows, grants and timer, and the masking of what is sent.
  \<^item> \<open>DaemonVault\<close>, \<open>DaemonSync\<close>, \<open>Nearby\<close>, \<open>Daemon\<close> (\<open>engine.rs\<close>, \<open>sync.rs\<close>, \<open>nearby.rs\<close>): the work behind each request
    and \<open>handle_with\<close> with its gates, arms and accounting, over the vault, account and engine models.
  \<^item> \<open>DaemonInv\<close>, \<open>DaemonSpec\<close>, \<open>DaemonFill\<close>: the daemon as a transition system (\<open>daemon_run\<close>) with its invariant,
    and what it promises: presence of a person, nothing while locked, the idle timer, wrong passwords, logins
    released to their site only, fill intents and the pairing ceremony. \<open>DaemonEx\<close> holds a concrete device
    on which each of these is run.

  Loops. Every loop of the source is structural recursion or has a measure (\<open>disambiguate_name\<close> counts
  the names still taken). No definition uses fuel.

  What modelling showed. An item whose delete observed all its edits comes back when one more
  delete of it arrives that missed an edit (\<open>Merge.merge_later_delete_lost\<close>). An op that reuses the id of
  another device's op is skipped in the log but counted and merged, so \<open>Ingest.ingest_sound\<close> asks for ids
  used by one device only where it speaks of the count and the tables. A batch with a new attachment
  of an item that is not in it blocks the ingest of a vault (\<open>Foreign.missing_item_blocks_apply\<close>). Pruning, and a foreign rewrite of an item,
  leave attachment rows that no longer open (\<open>AttachSpec.prune_strands_attachments\<close>,
  \<open>AttachSpec.ingest_strands_attachments\<close>). A share with a name that is not UTF-8 blocks the listing of all
  vaults (\<open>AccountSpec.non_utf8_name_blocks_listing\<close>). A push counts segments that were already there
  (\<open>EngineSpec.push_report_exact\<close>). A stored URL without a scheme is
  matched by an address in its query (\<open>Origin.query_decides_host\<close>).

  Not modelled. The cryptographic primitives, SQLite and JSON (third-party); zeroizing and memory protection, which
  HOL does not see; schema migrations of stores written by older builds; sockets, threads and processes; the
  Noise session of nearby sync and the QR frames; TOTP codes, password health and QR requests, which the
  request handler reaches through the parameter \<open>dl_elsewhere\<close>; the command line, importers, browser host and
  desktop app, which are clients of the daemon.
\<close>

end
